(* ===== verification/Prelude.thy ===== *)
theory Prelude
  imports Main "HOL-Library.Word" "HOL-Library.Monad_Syntax"
begin

unbundle bit_operations_syntax

text \<open>
  Shared vocabulary of the development: the machine integer types of the C code, byte
  buffers with checked reads and writes, the big-endian accessors, the allocator, and the
  generic lemmas that the component theories use.

  Every C function whose execution can leave the defined behaviour of the language (an
  access outside of a buffer) or can loop for ever is a function into an option type:
  \<open>None\<close> is "no defined result".  A theorem that such a function is
  \<open>Some\<close> of something is therefore a memory-safety and termination statement at once.
\<close>

section \<open>Machine types\<close>

type_synonym uint8 = "8 word"
type_synonym uint16 = "16 word"
type_synonym uint32 = "32 word"
type_synonym uint64 = "64 word"
type_synonym bytes = "uint8 list"

abbreviation (input) ADDRESS_LENGTH :: nat where "ADDRESS_LENGTH \<equiv> 20"
abbreviation (input) INT256_LENGTH :: nat where "INT256_LENGTH \<equiv> 32"
abbreviation (input) INT128_LENGTH :: nat where "INT128_LENGTH \<equiv> 16"

text \<open>The status words of the APDU protocol that the modelled commands return.  Their
  numeric values belong to the SDK; \<open>SW_ERROR\<close> is an error code passed through from a
  platform function.\<close>

datatype sw =
    SWO_SUCCESS
  | SWO_NO_RESPONSE
  | SWO_INCORRECT_DATA
  | SWO_COMMAND_NOT_ALLOWED
  | SWO_WRONG_P1_P2
  | SWO_PARAMETER_ERROR_NO_INFO
  | SWO_INSUFFICIENT_MEMORY
  | SWO_CONDITIONS_NOT_SATISFIED
  | SWO_NOT_SUPPORTED_ERROR_NO_INFO
  | SWO_WRONG_DATA_LENGTH
  | SWO_MEMORY_WRITE_ERROR
  | SWO_COMMAND_CODE_NOT_SUPPORTED
  | SWO_INCORRECT_P1_P2
  | SWO_FILE_NOT_FOUND
  | SWO_REFERENCED_DATA_NOT_FOUND
  | SWO_COMMAND_ERROR_NO_INFO
  | SW_ERROR nat

text \<open>\<open>appState\<close> of \<open>src/shared_context.h\<close>.\<close>

datatype app_state =
    APP_STATE_IDLE
  | APP_STATE_VERIFYING_ADDRESS
  | APP_STATE_PERFORMING_PRIVACY_OP
  | APP_STATE_SIGNING_TX
  | APP_STATE_SIGNING_MESSAGE
  | APP_STATE_PREPARING_EIP712
  | APP_STATE_SIGNING_EIP712
  | APP_STATE_SIGNING_EIP7702

text \<open>The end of a call: a value, the end of the application (\<open>app_exit\<close>, and the answers of a swap session that do
  not return), or the end of a swap with a signature.\<close>

datatype 'a outcome = Returns 'a | App_exit | Swap_done bytes

named_theorems val_simps \<open>numeric values of the machine-level operations\<close>
named_theorems buf_simps \<open>evaluation of checked buffer accesses\<close>
named_theorems inv_intros \<open>preservation of component invariants\<close>
named_theorems frame_simps \<open>fields that an operation leaves alone\<close>

lemma ex_bool [simp]: "\<exists>b. b" "\<exists>b. \<not> b"
  by auto

section \<open>Checked buffer accesses\<close>

text \<open>\<open>p[i]\<close> as an rvalue and as an lvalue.\<close>

definition rd :: "'a list \<Rightarrow> nat \<Rightarrow> 'a option" where
  "rd buf i = (if i < length buf then Some (buf ! i) else None)"

definition wr :: "'a list \<Rightarrow> nat \<Rightarrow> 'a \<Rightarrow> 'a list option" where
  "wr buf i x = (if i < length buf then Some (buf[i := x]) else None)"

text \<open>\<open>n\<close> elements read from offset \<open>off\<close> (the source of a \<open>memcpy\<close>), and the
  same number of elements written there (its destination).\<close>

definition rd_n :: "'a list \<Rightarrow> nat \<Rightarrow> nat \<Rightarrow> 'a list option" where
  "rd_n buf off n = (if off + n \<le> length buf then Some (take n (drop off buf)) else None)"

definition wr_n :: "'a list \<Rightarrow> nat \<Rightarrow> 'a list \<Rightarrow> 'a list option" where
  "wr_n buf off xs =
     (if off + length xs \<le> length buf
      then Some (take off buf @ xs @ drop (off + length xs) buf) else None)"

lemma rd_Some [buf_simps]: "i < length buf \<Longrightarrow> rd buf i = Some (buf ! i)"
  by (simp add: rd_def)

lemma wr_Some [buf_simps]: "i < length buf \<Longrightarrow> wr buf i x = Some (buf[i := x])"
  by (simp add: wr_def)

lemma rd_n_Some [buf_simps]: "off + n \<le> length buf \<Longrightarrow> rd_n buf off n = Some (take n (drop off buf))"
  by (simp add: rd_n_def)

lemma wr_n_Some [buf_simps]:
  "off + length xs \<le> length buf \<Longrightarrow>
   wr_n buf off xs = Some (take off buf @ xs @ drop (off + length xs) buf)"
  by (simp add: wr_n_def)

lemma rd_eq_Some_iff: "rd buf i = Some x \<longleftrightarrow> i < length buf \<and> x = buf ! i"
  by (auto simp: rd_def)

lemma wr_n_length: "wr_n buf off xs = Some buf' \<Longrightarrow> length buf' = length buf"
  by (auto simp: wr_n_def split: if_splits)

lemma wr_length: "wr buf i x = Some buf' \<Longrightarrow> length buf' = length buf"
  by (auto simp: wr_def split: if_splits)

lemma rd_n_length: "rd_n buf off n = Some xs \<Longrightarrow> length xs = n"
  by (auto simp: rd_n_def split: if_splits)

lemma rd_n_wr_n_same:
  "wr_n buf off xs = Some buf' \<Longrightarrow> rd_n buf' off (length xs) = Some xs"
  by (auto simp: rd_n_def wr_n_def split: if_splits)

section \<open>Big-endian numbers\<close>

fun be_acc :: "nat \<Rightarrow> bytes \<Rightarrow> nat" where
  "be_acc a [] = a"
| "be_acc a (b # bs) = be_acc (a * 256 + unat b) bs"

definition be_val :: "bytes \<Rightarrow> nat" where
  "be_val bs = be_acc 0 bs"

fun be_bytes :: "nat \<Rightarrow> nat \<Rightarrow> bytes" where
  "be_bytes 0 v = []"
| "be_bytes (Suc n) v = be_bytes n (v div 256) @ [word_of_nat v]"

lemma unat_word8_lt [simp]: "unat (b :: uint8) < 256"
  using unsigned_less [where ?'a = nat, of b] by simp

lemma be_acc_eq: "be_acc a bs = a * 256 ^ length bs + be_acc 0 bs"
proof (induction bs arbitrary: a)
  case Nil
  then show ?case by simp
next
  case (Cons b bs)
  have "be_acc a (b # bs) = (a * 256 + unat b) * 256 ^ length bs + be_acc 0 bs"
    using Cons.IH [of "a * 256 + unat b"] by simp
  also have "\<dots> = a * 256 ^ length (b # bs) + (unat b * 256 ^ length bs + be_acc 0 bs)"
    by (simp add: algebra_simps)
  also have "unat b * 256 ^ length bs + be_acc 0 bs = be_acc 0 (b # bs)"
    using Cons.IH [of "unat b"] by simp
  finally show ?case .
qed

lemma be_val_Nil [simp]: "be_val [] = 0"
  by (simp add: be_val_def)

lemma be_val_Cons: "be_val (b # bs) = unat b * 256 ^ length bs + be_val bs"
  using be_acc_eq [of "unat b" bs] by (simp add: be_val_def)

lemma be_val_append: "be_val (xs @ ys) = be_val xs * 256 ^ length ys + be_val ys"
  by (induction xs) (simp_all add: be_val_Cons algebra_simps power_add)

lemma be_val_single [simp]: "be_val [b] = unat b"
  by (simp add: be_val_Cons)

lemma be_val_less: "be_val bs < 256 ^ length bs"
proof (induction bs)
  case Nil
  then show ?case by simp
next
  case (Cons b bs)
  have "unat b * 256 ^ length bs + be_val bs < unat b * 256 ^ length bs + 256 ^ length bs"
    using Cons.IH by simp
  also have "\<dots> = (unat b + 1) * 256 ^ length bs" by simp
  also have "\<dots> \<le> 256 * 256 ^ length bs"
    using Suc_leI [OF unat_word8_lt [of b]] by (intro mult_le_mono1) simp
  finally show ?case by (simp add: be_val_Cons)
qed

lemma be_val_zeros [simp]: "be_val (replicate n 0) = 0"
  by (induction n) (simp_all add: be_val_Cons)

lemma be_val_zeros_append [simp]: "be_val (replicate n 0 @ bs) = be_val bs"
  by (simp add: be_val_append)

lemma length_be_bytes [simp]: "length (be_bytes n v) = n"
  by (induction n arbitrary: v) simp_all

lemma be_val_be_bytes: "be_val (be_bytes n v) = v mod 256 ^ n"
proof (induction n arbitrary: v)
  case 0
  then show ?case by simp
next
  case (Suc n)
  have "be_val (be_bytes (Suc n) v) = (v div 256 mod 256 ^ n) * 256 + v mod 256"
    by (simp add: be_val_append Suc.IH unat_of_nat)
  also have "\<dots> = v mod (256 * 256 ^ n)"
    by (metis mod_mult2_eq mult.commute)
  finally show ?case by simp
qed

lemma be_bytes_be_val: "be_bytes (length bs) (be_val bs) = bs"
proof (induction bs rule: rev_induct)
  case Nil
  then show ?case by simp
next
  case (snoc b bs)
  have "be_val (bs @ [b]) div 256 = be_val bs"
    by (simp add: be_val_append)
  moreover have "word_of_nat (be_val (bs @ [b])) = b"
    by (rule word_unat_eq_iff [THEN iffD2]) (simp only: unat_of_nat, simp add: be_val_append)
  ultimately show ?case using snoc by simp
qed

lemma be_val_inj: "length xs = length ys \<Longrightarrow> be_val xs = be_val ys \<Longrightarrow> xs = ys"
  by (metis be_bytes_be_val)

text \<open>The SDK accessors \<open>read_u16_be\<close>, \<open>read_u32_be\<close>, \<open>read_u64_be\<close> and
  \<open>write_u64_be\<close>: a fixed number of bytes at an offset, most significant first.\<close>

definition read_u16_be :: "bytes \<Rightarrow> nat \<Rightarrow> uint16 option" where
  "read_u16_be buf off = map_option (\<lambda>bs. word_of_nat (be_val bs)) (rd_n buf off 2)"

definition read_u32_be :: "bytes \<Rightarrow> nat \<Rightarrow> uint32 option" where
  "read_u32_be buf off = map_option (\<lambda>bs. word_of_nat (be_val bs)) (rd_n buf off 4)"

definition read_u64_be :: "bytes \<Rightarrow> nat \<Rightarrow> uint64 option" where
  "read_u64_be buf off = map_option (\<lambda>bs. word_of_nat (be_val bs)) (rd_n buf off 8)"

definition write_u64_be :: "uint64 \<Rightarrow> bytes" where
  "write_u64_be w = be_bytes 8 (unat w)"

lemma length_write_u64_be [simp]: "length (write_u64_be w) = 8"
  by (simp add: write_u64_be_def)

lemma be_val_write_u64_be [val_simps]: "be_val (write_u64_be w) = unat w"
  using unsigned_less [where ?'a = nat, of w] by (simp add: write_u64_be_def be_val_be_bytes)

lemma read_u64_be_Some:
  "off + 8 \<le> length buf \<Longrightarrow> read_u64_be buf off = Some (word_of_nat (be_val (take 8 (drop off buf))))"
  by (simp add: read_u64_be_def rd_n_def)

lemma read_u16_be_Some:
  "off + 2 \<le> length buf \<Longrightarrow> read_u16_be buf off = Some (word_of_nat (be_val (take 2 (drop off buf))))"
  by (simp add: read_u16_be_def rd_n_def)

lemma unat_word_of_be_val:
  "length bs \<le> 8 \<Longrightarrow> unat (word_of_nat (be_val bs) :: uint64) = be_val bs"
proof -
  assume "length bs \<le> 8"
  then have "(256::nat) ^ length bs \<le> 256 ^ 8" by (intro power_increasing) auto
  then have "be_val bs < 2 ^ 64" using be_val_less [of bs] by simp
  then show ?thesis by (simp add: unat_of_nat)
qed

lemma unat_word16_of_be_val:
  "length bs \<le> 2 \<Longrightarrow> unat (word_of_nat (be_val bs) :: uint16) = be_val bs"
proof -
  assume "length bs \<le> 2"
  then have "(256::nat) ^ length bs \<le> 256 ^ 2" by (intro power_increasing) auto
  then have "be_val bs < 2 ^ 16" using be_val_less [of bs] by simp
  then show ?thesis by (simp add: unat_of_nat)
qed

text \<open>Reads of consecutive parts put the buffer back together.\<close>

lemma rd_n_split: "rd_n buf off n = Some xs \<Longrightarrow> drop off buf = xs @ drop (off + n) buf"
proof -
  assume "rd_n buf off n = Some xs"
  then have "xs = take n (drop off buf)" by (auto simp: rd_n_def split: if_splits)
  then have "drop off buf = xs @ drop n (drop off buf)" by (simp only: append_take_drop_id)
  then show ?thesis by (metis add.commute drop_drop)
qed

lemma read_u32_be_split: "read_u32_be buf off = Some w \<Longrightarrow> drop off buf = be_bytes 4 (unat w) @ drop (off + 4) buf"
proof -
  assume "read_u32_be buf off = Some w"
  then obtain bs where bs: "rd_n buf off 4 = Some bs" "w = word_of_nat (be_val bs)" by (auto simp: read_u32_be_def)
  have l: "length bs = 4" by (rule rd_n_length [OF bs(1)])
  then have "unat w = be_val bs" using bs(2) be_val_less [of bs] by (simp add: unat_of_nat)
  then have "be_bytes 4 (unat w) = bs" using be_bytes_be_val [of bs] l by simp
  then show ?thesis using rd_n_split [OF bs(1)] by simp
qed

lemma read_u64_be_split: "read_u64_be buf off = Some w \<Longrightarrow> drop off buf = be_bytes 8 (unat w) @ drop (off + 8) buf"
proof -
  assume "read_u64_be buf off = Some w"
  then obtain bs where bs: "rd_n buf off 8 = Some bs" "w = word_of_nat (be_val bs)" by (auto simp: read_u64_be_def)
  have l: "length bs = 8" by (rule rd_n_length [OF bs(1)])
  then have "unat w = be_val bs" using bs(2) be_val_less [of bs] by (simp add: unat_of_nat)
  then have "be_bytes 8 (unat w) = bs" using be_bytes_be_val [of bs] l by simp
  then show ?thesis using rd_n_split [OF bs(1)] by simp
qed

lemma rd_split: "rd buf off = Some x \<Longrightarrow> drop off buf = x # drop (off + 1) buf"
  by (auto simp: rd_def Cons_nth_drop_Suc split: if_splits)

lemma read_u32_be_ok: "off + 4 \<le> length buf \<Longrightarrow> \<exists>w. read_u32_be buf off = Some w"
  by (simp add: read_u32_be_def rd_n_def)

lemma read_u64_be_ok: "off + 8 \<le> length buf \<Longrightarrow> \<exists>w. read_u64_be buf off = Some w"
  by (simp add: read_u64_be_def rd_n_def)

section \<open>SDK helpers on byte buffers\<close>

definition is_zeroes_buffer :: "bytes \<Rightarrow> bool" where
  "is_zeroes_buffer bs = list_all (\<lambda>b. b = 0) bs"

text \<open>\<open>u64_from_BE\<close>: reads at most eight bytes; further bytes are ignored.\<close>

definition u64_from_BE :: "bytes \<Rightarrow> uint64" where
  "u64_from_BE bs = word_of_nat (be_val (take 8 bs))"

lemma is_zeroes_buffer_iff: "is_zeroes_buffer bs \<longleftrightarrow> bs = replicate (length bs) 0"
  by (induction bs) (auto simp: is_zeroes_buffer_def)

lemma be_val_eq_0_iff: "be_val bs = 0 \<longleftrightarrow> is_zeroes_buffer bs"
  by (induction bs) (auto simp: be_val_Cons is_zeroes_buffer_def unat_eq_0)

lemma is_zeroes_buffer_append: "is_zeroes_buffer (xs @ ys) \<longleftrightarrow> is_zeroes_buffer xs \<and> is_zeroes_buffer ys"
  by (simp add: is_zeroes_buffer_def)

section \<open>Words\<close>

lemma unat_drop_bit: "unat (drop_bit k (w :: 'a::len word)) = unat w div 2 ^ k"
  unfolding unat_drop_bit_eq by (simp only: drop_bit_eq_div)

lemma unat_push_bit: "unat (push_bit k (w :: 'a::len word)) = unat w * 2 ^ k mod 2 ^ LENGTH('a)"
proof -
  have "push_bit k w = w * 2 ^ k" by (simp add: push_bit_eq_mult)
  also have "\<dots> = word_of_nat (unat w * 2 ^ k)" by simp
  finally show ?thesis by (simp only: unat_of_nat)
qed

lemma unat_plus_one:
  fixes a b :: "'a::len word"
  assumes "unat a < unat b"
  shows "unat (a + 1) = unat a + 1"
proof -
  have "unat a + 1 < 2 ^ LENGTH('a)"
    using assms unsigned_less [where ?'a = nat, of b] by linarith
  moreover have "unat (a + 1) = (unat a + 1) mod 2 ^ LENGTH('a)"
    by (simp add: unat_word_ariths mod_simps)
  ultimately show ?thesis by simp
qed

lemma unat_sub_le: "(b :: 'a::len word) \<le> a \<Longrightarrow> unat (a - b) = unat a - unat b"
  by (simp add: unat_sub)

section \<open>The allocator\<close>

text \<open>
  \<open>APP_MEM_ALLOC\<close> and \<open>APP_MEM_CALLOC\<close> may fail.  The outcomes of the coming
  allocations are a list that the model consumes (an exhausted list fails every further
  allocation), so that a statement for every list covers every behaviour of the allocator.
  The number of live blocks is counted so that leaks and double frees can be stated.
\<close>

record mem =
  outcomes :: "bool list"
  live :: nat

definition mem_alloc :: "mem \<Rightarrow> bool \<times> mem" where
  "mem_alloc m =
     (case outcomes m of
        [] \<Rightarrow> (False, m)
      | b # bs \<Rightarrow> (b, m\<lparr>outcomes := bs, live := (if b then Suc (live m) else live m)\<rparr>))"

definition mem_free :: "mem \<Rightarrow> mem" where
  "mem_free m = m\<lparr>live := live m - 1\<rparr>"

lemma mem_alloc_live: "mem_alloc m = (b, m') \<Longrightarrow> live m' = (if b then Suc (live m) else live m)"
  by (auto simp: mem_alloc_def split: list.splits)

lemma mem_free_live [simp]: "live (mem_free m) = live m - 1"
  by (simp add: mem_free_def)

text \<open>The next \<open>n\<close> allocations succeed.\<close>

definition mem_ok :: "nat \<Rightarrow> mem \<Rightarrow> bool" where
  "mem_ok n m \<longleftrightarrow> take n (outcomes m) = replicate n True"

lemma mem_alloc_ok:
  assumes "mem_ok (Suc n) m"
  obtains m' where "mem_alloc m = (True, m')" "mem_ok n m'"
  using assms by (cases "outcomes m") (auto simp: mem_ok_def mem_alloc_def)

lemma mem_ok_mono: "mem_ok n m \<Longrightarrow> k \<le> n \<Longrightarrow> mem_ok k m"
proof -
  assume "mem_ok n m" "k \<le> n"
  then have "take k (take n (outcomes m)) = take k (replicate n True)" by (simp add: mem_ok_def)
  with \<open>k \<le> n\<close> show ?thesis by (simp add: mem_ok_def min_def)
qed

lemma mem_alloc_cases:
  obtains (fail) m' where "mem_alloc m = (False, m')" "live m' = live m"
  | (ok) m' where "mem_alloc m = (True, m')" "live m' = Suc (live m)"
proof (cases "mem_alloc m")
  case (Pair b m')
  then show ?thesis using mem_alloc_live [OF Pair] that by (cases b) auto
qed

end
