(* ===== verification/Wide_Uint.thy ===== *)
theory Wide_Uint
  imports Prelude
begin

text \<open>
  The interface between the two-limb integers of \<open>uint128.c\<close> and \<open>uint256.c\<close> and
  the routines written on top of them.  The long division of both files is the same
  shift-and-subtract loop over the operations of the respective width; its correctness is
  proved once here from what the operations promise, and obtained for each width by an
  interpretation.
\<close>

section \<open>Bitwise disjunction as addition\<close>

lemma or_disjoint_add_nat:
  fixes a :: nat
  assumes "2 ^ Suc k dvd a"
  shows "a OR 2 ^ k = a + 2 ^ k"
proof -
  from assms obtain c where "a = c * 2 ^ Suc k" by (metis dvd_def mult.commute)
  then have "a = push_bit (Suc k) c" by (simp add: push_bit_eq_mult)
  then have "\<not> bit a k" by (simp only: bit_push_bit_iff) simp
  then have "a AND 2 ^ k = 0" by (simp add: and_exp_eq_0_iff_not_bit)
  then show ?thesis by (simp add: disjunctive_add_eq_or)
qed

section \<open>Two-limb arithmetic\<close>

lemma two_limb_shl:
  fixes u l P Q B :: nat
  assumes B: "B = P * Q" and "u < B" and "l < B" and P: "0 < P" and Q: "0 < Q"
  shows "u * P mod B + l div Q < B"
    and "(u * P mod B + l div Q) * B + l * P mod B = ((u * B + l) * P) mod (B * B)"
proof -
  have lQ: "l div Q < P" using assms by (simp add: less_mult_imp_div_less)
  have uP: "u * P mod B = (u mod Q) * P" by (simp add: B mult.commute [of P] mod_mult_mult2)
  have "(u mod Q) * P + l div Q < (u mod Q) * P + P" using lQ by simp
  also have "\<dots> = Suc (u mod Q) * P" by simp
  also have "\<dots> \<le> Q * P" using Q by (intro mult_le_mono1) (simp add: Suc_leI)
  finally show small: "u * P mod B + l div Q < B" by (simp add: uP B mult.commute)
  have l: "l * P = (l div Q) * B + l * P mod B"
  proof -
    have "l * P div B = l div Q" using P by (simp add: B mult.commute [of l])
    then show ?thesis by (metis div_mult_mod_eq)
  qed
  have "(u * B + l) * P = (u * P + l div Q) * B + l * P mod B"
    using l by (simp add: algebra_simps)
  then have "((u * B + l) * P) mod (B * B) = ((u * P + l div Q) * B + l * P mod B) mod (B * B)"
    by simp
  also have "\<dots> = ((u * P + l div Q) mod B) * B + l * P mod B"
    using assms by (simp add: mod_mult2_eq)
  also have "(u * P + l div Q) mod B = u * P mod B + l div Q"
    using small by (metis mod_add_left_eq mod_less)
  finally show "(u * P mod B + l div Q) * B + l * P mod B = ((u * B + l) * P) mod (B * B)" ..
qed

lemma two_limb_shr:
  fixes u l P Q B :: nat
  assumes B: "B = P * Q" and "u < B" and "l < B" and P: "0 < P" and Q: "0 < Q"
  shows "u * Q mod B + l div P < B"
    and "(u div P) * B + (u * Q mod B + l div P) = (u * B + l) div P"
proof -
  show "u * Q mod B + l div P < B"
    using two_limb_shl(1) [of B Q P u l] assms by (simp add: mult.commute)
  have "(u * B + l) div P = (u * Q * P + l) div P" by (simp add: B algebra_simps)
  also have "\<dots> = u * Q + l div P" using P by simp
  also have "u * Q = (u div P) * B + u * Q mod B"
  proof -
    have "u * Q div B = u div P" using Q by (simp add: B)
    then show ?thesis by (metis div_mult_mod_eq)
  qed
  finally show "(u div P) * B + (u * Q mod B + l div P) = (u * B + l) div P" by simp
qed

lemma bit_two_limb:
  fixes u l :: nat
  assumes "l < 2 ^ n"
  shows "bit (u * 2 ^ n + l) i = (if i < n then bit l i else bit u (i - n))"
proof -
  let ?x = "u * 2 ^ n + l"
  have t: "take_bit n ?x = l" and d: "drop_bit n ?x = u"
    using assms by (simp_all add: take_bit_eq_mod drop_bit_eq_div)
  have "i < n \<Longrightarrow> bit (take_bit n ?x) i = bit ?x i" by (simp add: bit_take_bit_iff)
  moreover have "n \<le> i \<Longrightarrow> bit (drop_bit n ?x) (i - n) = bit ?x i" by (simp add: bit_drop_bit_eq)
  ultimately show ?thesis using t d by auto
qed

lemma two_limb_or:
  fixes u l u' l' :: nat
  assumes "l < 2 ^ n" and "l' < 2 ^ n"
  shows "(u * 2 ^ n + l) OR (u' * 2 ^ n + l') = (u OR u') * 2 ^ n + (l OR l')"
proof -
  have "take_bit n (l OR l') = l OR l'"
    using assms by (simp add: take_bit_or take_bit_nat_eq_self)
  then have "l OR l' < 2 ^ n" by (metis take_bit_nat_less_exp)
  with assms show ?thesis
    by (intro bit_eqI) (auto simp: bit_or_iff bit_two_limb)
qed

lemma two_limb_less:
  fixes u u' l l' B :: nat
  assumes "l < B" and "l' < B"
  shows "u * B + l < u' * B + l' \<longleftrightarrow> (if u = u' then l < l' else u < u')"
proof -
  have lt: "a * B + x < b * B + y" if "a < b" "x < B" for a b x y
  proof -
    have "a * B + x < Suc a * B" using that by simp
    also have "\<dots> \<le> b * B" using that by (intro mult_le_mono1) simp
    finally show ?thesis by simp
  qed
  show ?thesis
    using lt [of u u' l l'] lt [of u' u l' l] assms by (cases u u' rule: linorder_cases) auto
qed

lemma carry_iff: "x + y < (x :: 'a::len word) \<longleftrightarrow> 2 ^ LENGTH('a) \<le> unat x + unat y"
proof -
  have b: "unat y < 2 ^ LENGTH('a)" by simp
  have "unat (x + y) = (if unat x + unat y < 2 ^ LENGTH('a) then unat x + unat y
      else unat x + unat y - 2 ^ LENGTH('a))"
    by (rule unat_plus_if')
  then show ?thesis unfolding word_less_nat_alt
    using b by (cases "unat x + unat y < 2 ^ LENGTH('a)") (auto simp del: unsigned_less)
qed

lemma borrow_iff: "(x :: 'a::len word) < x - y \<longleftrightarrow> unat x < unat y"
proof -
  have b: "unat y < 2 ^ LENGTH('a)" by simp
  have "unat (x - y) = (if unat y \<le> unat x then unat x - unat y
      else unat x + 2 ^ LENGTH('a) - unat y)"
    by (rule unat_sub_if')
  then show ?thesis unfolding word_less_nat_alt
    using b by (cases "unat y \<le> unat x") (auto simp del: unsigned_less)
qed

lemma carry_nat:
  fixes a b M :: nat
  assumes "a < M" and "b < M"
  shows "(a + b) mod M < a \<longleftrightarrow> M \<le> a + b"
proof (cases "a + b < M")
  case False
  then have "(a + b) mod M = a + b - M" using assms by (simp add: le_mod_geq)
  with False assms show ?thesis by simp
qed simp

lemma two_limb_add:
  fixes u u' l l' B :: nat
  assumes "l < B" and "l' < B"
  shows "((u + u' + of_bool (B \<le> l + l')) mod B) * B + (l + l') mod B
       = ((u * B + l) + (u' * B + l')) mod (B * B)"
proof -
  have "l + l' = of_bool (B \<le> l + l') * B + (l + l') mod B"
    using assms by (auto simp: mod_if le_mod_geq)
  then have "(u * B + l) + (u' * B + l') = (u + u' + of_bool (B \<le> l + l')) * B + (l + l') mod B"
    by (simp add: algebra_simps)
  moreover have "(x * B + y) mod (B * B) = (x mod B) * B + y" if "y < B" for x y
    using that by (simp add: mod_mult2_eq)
  ultimately show ?thesis using assms by simp
qed

lemma sub_from_add_mod:
  fixes s a b M :: nat
  assumes "(s + b) mod M = a" and "s < M" and "b < M"
  shows "s = (a + (M - b)) mod M"
proof -
  have "(a + (M - b)) mod M = ((s + b) + (M - b)) mod M"
    using assms(1) by (metis mod_add_left_eq)
  also have "(s + b) + (M - b) = s + M" using assms(3) by simp
  finally show ?thesis using assms(2) by simp
qed

lemma unat_or: "unat ((x :: 'a::len word) OR y) = (unat x OR unat y)"
  by (rule unsigned_or_eq)

lemma two_limb_shl_high:
  fixes u l P B :: nat
  shows "((u * B + l) * (B * P)) mod (B * B) = (l * P mod B) * B"
proof -
  have "((u * B + l) * (B * P)) mod (B * B) = ((u * B + l) * P * B) mod (B * B)"
    by (simp add: ac_simps)
  also have "\<dots> = ((u * B + l) * P mod B) * B" by (rule mod_mult_mult2)
  also have "(u * B + l) * P mod B = l * P mod B"
    by (metis mod_mult_left_eq mod_mult_self3)
  finally show ?thesis .
qed

lemma two_limb_shr_high:
  fixes u l P B :: nat
  assumes "l < B"
  shows "(u * B + l) div (B * P) = u div P"
  using assms by (simp add: div_mult2_eq)

section \<open>Bit length\<close>

text \<open>The bit length, counted by repeated halving.\<close>

fun bit_len :: "nat \<Rightarrow> nat" where
  "bit_len n = (if n = 0 then 0 else Suc (bit_len (n div 2)))"

declare bit_len.simps [simp del]

lemma bit_len_0 [simp]: "bit_len 0 = 0"
  by (simp add: bit_len.simps)

lemma bit_len_step: "0 < n \<Longrightarrow> bit_len n = Suc (bit_len (n div 2))"
  by (subst bit_len.simps) simp

lemma bit_len_upper: "n < 2 ^ bit_len n"
proof (induction n rule: bit_len.induct)
  case (1 n)
  then show ?case by (cases "n = 0") (auto simp: bit_len_step)
qed

lemma bit_len_lower: "0 < n \<Longrightarrow> 2 ^ bit_len n \<le> 2 * n"
proof (induction n rule: bit_len.induct)
  case (1 n)
  show ?case
  proof (cases "n div 2 = 0")
    case True
    then have "n = 1" using "1.prems" by simp
    then show ?thesis by (simp add: bit_len_step)
  next
    case False
    with "1" show ?thesis by (auto simp: bit_len_step)
  qed
qed

lemma bit_len_le: "n < 2 ^ k \<Longrightarrow> bit_len n \<le> k"
proof (induction k arbitrary: n)
  case 0
  then show ?case by simp
next
  case (Suc k)
  then have "n div 2 < 2 ^ k" by auto
  with Suc.IH show ?case by (cases "n = 0") (auto simp: bit_len_step)
qed

lemma bit_len_two_limb: "0 < u \<Longrightarrow> l < 2 ^ k \<Longrightarrow> bit_len (u * 2 ^ k + l) = k + bit_len u"
proof (induction k arbitrary: l)
  case 0
  then show ?case by simp
next
  case (Suc k)
  have "(u * 2 ^ Suc k + l) div 2 = u * 2 ^ k + l div 2"
    by (simp add: mult.assoc [symmetric] mult.commute [of 2])
  moreover have "l div 2 < 2 ^ k" using Suc.prems by auto
  ultimately show ?case using Suc by (subst bit_len_step) (simp_all)
qed

section \<open>Digits of a number\<close>

function digits :: "nat \<Rightarrow> nat \<Rightarrow> nat list" where
  "digits b n = (if b < 2 \<or> n < b then [n] else digits b (n div b) @ [n mod b])"
  by pat_completeness auto
termination
  by (relation "measure snd") (auto simp: div_less_dividend)

declare digits.simps [simp del]

lemma digits_small: "n < b \<Longrightarrow> digits b n = [n]"
  by (simp add: digits.simps)

lemma digits_step: "2 \<le> b \<Longrightarrow> b \<le> n \<Longrightarrow> digits b n = digits b (n div b) @ [n mod b]"
  by (subst digits.simps) simp

definition digits_val :: "nat \<Rightarrow> nat list \<Rightarrow> nat" where
  "digits_val b ds = foldl (\<lambda>a d. a * b + d) 0 ds"

lemma digits_val_digits: "2 \<le> b \<Longrightarrow> digits_val b (digits b n) = n"
proof (induction b n rule: digits.induct)
  case (1 b n)
  show ?case
  proof (cases "n < b")
    case True
    then show ?thesis by (simp add: digits_small digits_val_def)
  next
    case False
    with "1" show ?thesis by (simp add: digits_step digits_val_def)
  qed
qed

lemma digits_less: "2 \<le> b \<Longrightarrow> d \<in> set (digits b n) \<Longrightarrow> d < b"
proof (induction b n rule: digits.induct)
  case (1 b n)
  show ?case
  proof (cases "n < b")
    case True
    with "1.prems" show ?thesis by (simp add: digits_small)
  next
    case False
    with "1" show ?thesis by (auto simp: digits_step)
  qed
qed

lemma digits_no_leading_zero: "2 \<le> b \<Longrightarrow> 0 < n \<Longrightarrow> hd (digits b n) \<noteq> 0"
proof (induction b n rule: digits.induct)
  case (1 b n)
  show ?case
  proof (cases "n < b")
    case True
    with "1.prems" show ?thesis by (simp add: digits_small)
  next
    case False
    moreover from False "1.prems" have "0 < n div b" by (simp add: div_greater_zero_iff)
    moreover have "digits b (n div b) \<noteq> []" by (subst digits.simps) simp
    ultimately show ?thesis using "1" by (simp add: digits_step)
  qed
qed

lemma digits_nonempty [simp]: "digits b n \<noteq> []"
  by (subst digits.simps) simp

lemma length_digits_le: "2 \<le> b \<Longrightarrow> n < b ^ Suc k \<Longrightarrow> length (digits b n) \<le> Suc k"
proof (induction k arbitrary: n)
  case 0
  then show ?case by (simp add: digits_small)
next
  case (Suc k)
  show ?case
  proof (cases "n < b")
    case True
    then show ?thesis by (simp add: digits_small)
  next
    case False
    have "n div b < b ^ Suc k"
      using Suc.prems by (simp add: less_mult_imp_div_less mult.commute)
    then show ?thesis using Suc.IH [of "n div b"] Suc.prems False by (simp add: digits_step)
  qed
qed

text \<open>\<open>HEXDIGITS\<close> of the SDK, and the text of a number in a base up to 16.\<close>

definition HEXDIGITS :: string where
  "HEXDIGITS = ''0123456789abcdef'' @ [CHR 0x00]"

lemma length_HEXDIGITS [simp]: "length HEXDIGITS = 17"
  by (simp add: HEXDIGITS_def)

definition digit_str :: "nat \<Rightarrow> nat \<Rightarrow> string" where
  "digit_str b n = map (\<lambda>d. HEXDIGITS ! d) (digits b n)"

lemma length_digit_str [simp]: "length (digit_str b n) = length (digits b n)"
  by (simp add: digit_str_def)

lemma digit_str_nonempty [simp]: "digit_str b n \<noteq> []"
  by (simp add: digit_str_def)

lemma HEXDIGITS_neq_NUL: "d < 16 \<Longrightarrow> HEXDIGITS ! d \<noteq> CHR 0x00"
  unfolding HEXDIGITS_def by (auto simp: less_Suc_eq numeral_eq_Suc)

lemma digit_str_no_NUL: "2 \<le> b \<Longrightarrow> b \<le> 16 \<Longrightarrow> CHR 0x00 \<notin> set (digit_str b n)"
proof -
  assume b: "2 \<le> b" "b \<le> 16"
  have "HEXDIGITS ! d \<noteq> CHR 0x00" if "d \<in> set (digits b n)" for d
    using digits_less [OF b(1) that] b(2) by (intro HEXDIGITS_neq_NUL) simp
  then show ?thesis by (fastforce simp: digit_str_def)
qed

text \<open>Two's complement reading of a \<open>W\<close>-bit value, and its decimal text.\<close>

definition signed_val :: "nat \<Rightarrow> nat \<Rightarrow> int" where
  "signed_val W v = (if v < 2 ^ (W - 1) then int v else int v - 2 ^ W)"

definition dec_str :: "int \<Rightarrow> string" where
  "dec_str i = (if i < 0 then CHR ''-'' # digit_str 10 (nat (- i)) else digit_str 10 (nat i))"

text \<open>What the SDK promises of \<open>cx_math_mult_no_throw\<close>: the big-endian product on twice
  the number of bytes of the operands.\<close>

type_synonym cx_mult = "bytes \<Rightarrow> bytes \<Rightarrow> bytes option"

definition mult_contract :: "cx_mult \<Rightarrow> bool" where
  "mult_contract cx \<longleftrightarrow>
     (\<forall>a b r. length a = length b \<longrightarrow> cx a b = Some r \<longrightarrow>
        length r = 2 * length a \<and> be_val r = be_val a * be_val b)"

lemma mult_contractD:
  assumes "mult_contract cx" and "cx a b = Some r" and "length a = n" and "length b = n"
  shows "length r = 2 * n" and "be_val r = be_val a * be_val b"
proof -
  have "length a = length b" using assms(3,4) by simp
  then have "length r = 2 * length a \<and> be_val r = be_val a * be_val b"
    using assms(1,2) unfolding mult_contract_def by blast
  with assms(3) show "length r = 2 * n" and "be_val r = be_val a * be_val b" by simp_all
qed

text \<open>The contract can be met: the product itself.\<close>

lemma mult_contract_exact: "mult_contract (\<lambda>a b. Some (be_bytes (length a + length b) (be_val a * be_val b)))"
proof -
  have "be_val a * be_val b < 256 ^ (length a + length b)" for a b :: bytes
    using mult_strict_mono [OF be_val_less [of a] be_val_less [of b]] by (simp add: power_add)
  then have "be_val a * be_val b mod 256 ^ (length a + length b) = be_val a * be_val b" for a b :: bytes by simp
  then show ?thesis by (metis (no_types, lifting) be_val_be_bytes length_be_bytes mult_2 mult_contract_def option.inject)
qed

section \<open>The contract of a wide unsigned integer\<close>

locale wide_uint =
  fixes val :: "'w \<Rightarrow> nat"
    and W :: nat
    and shl :: "'w \<Rightarrow> uint32 \<Rightarrow> 'w"
    and shr :: "'w \<Rightarrow> uint32 \<Rightarrow> 'w"
    and sub :: "'w \<Rightarrow> 'w \<Rightarrow> 'w"
    and orr :: "'w \<Rightarrow> 'w \<Rightarrow> 'w"
    and gt :: "'w \<Rightarrow> 'w \<Rightarrow> bool"
    and gte :: "'w \<Rightarrow> 'w \<Rightarrow> bool"
    and nbits :: "'w \<Rightarrow> uint32"
    and zero :: 'w
    and one :: 'w
    and loop :: "'w \<Rightarrow> 'w \<Rightarrow> 'w \<Rightarrow> 'w \<Rightarrow> 'w \<Rightarrow> ('w \<times> 'w) option"
  assumes val_less: "val a < 2 ^ W"
    and val_shl: "val (shl a k) = val a * 2 ^ unat k mod 2 ^ W"
    and val_shr: "val (shr a k) = val a div 2 ^ unat k"
    and val_sub: "val b \<le> val a \<Longrightarrow> val (sub a b) = val a - val b"
    and val_orr: "val (orr a b) = (val a OR val b)"
    and gt_iff: "gt a b \<longleftrightarrow> val b < val a"
    and gte_iff: "gte a b \<longleftrightarrow> val b \<le> val a"
    and unat_nbits: "unat (nbits a) = bit_len (val a)"
    and val_zero: "val zero = 0"
    and val_one: "val one = 1"
    and loop_unfold:
      "loop r copyd adder resDiv resMod =
         (if gte resMod r
          then (let (resMod', resDiv') =
                      (if gte resMod copyd then (sub resMod copyd, orr resDiv adder)
                       else (resMod, resDiv))
                in loop r (shr copyd 1) (shr adder 1) resDiv' resMod')
          else Some (resDiv, resMod))"
begin

lemma nbits_upper: "val a < 2 ^ unat (nbits a)"
  by (simp add: unat_nbits bit_len_upper)

lemma nbits_lower: "0 < val a \<Longrightarrow> 2 ^ unat (nbits a) \<le> 2 * val a"
  by (simp add: unat_nbits bit_len_lower)

lemma nbits_le: "unat (nbits a) \<le> W"
  by (simp add: unat_nbits bit_len_le val_less)

text \<open>The loop invariant: \<open>copyd\<close> is the divisor shifted by \<open>k\<close>, \<open>adder\<close> the
  corresponding quotient bit, the quotient so far has no bit below it, and what is left of
  the dividend is smaller than twice \<open>copyd\<close>.\<close>

lemma loop_correct:
  assumes "0 < val r" and "val copyd = val r * 2 ^ k" and "val adder = 2 ^ k"
    and "2 ^ Suc k dvd val resDiv" and "val resMod < 2 * (val r * 2 ^ k)"
    and "L = val resDiv * val r + val resMod"
  shows "\<exists>q m. loop r copyd adder resDiv resMod = Some (q, m)
            \<and> L = val q * val r + val m \<and> val m < val r"
  using assms
proof (induction k arbitrary: copyd adder resDiv resMod)
  case 0
  let ?R = "sub resMod copyd" and ?D = "orr resDiv adder"
  show ?case
  proof (cases "gte resMod r")
    case False
    then show ?thesis using 0 by (subst loop_unfold) (auto simp: gte_iff)
  next
    case True
    then have ge: "val r \<le> val resMod" by (simp add: gte_iff)
    have R: "val ?R = val resMod - val r" using 0 ge by (simp add: val_sub)
    have D: "val ?D = val resDiv + 1"
      using or_disjoint_add_nat [of 0 "val resDiv"] 0 by (simp add: val_orr)
    have "val ?R < val r" using R 0 ge by simp
    then have stop: "\<not> gte ?R r" by (simp add: gte_iff)
    have eq: "loop r copyd adder resDiv resMod = loop r (shr copyd 1) (shr adder 1) ?D ?R"
      using True 0 by (subst loop_unfold) (simp add: gte_iff)
    also have "\<dots> = Some (?D, ?R)" by (subst loop_unfold) (simp add: stop)
    finally show ?thesis using R D 0 ge \<open>val ?R < val r\<close> by (simp add: algebra_simps)
  qed
next
  case (Suc k)
  have cd: "val (shr copyd 1) = val r * 2 ^ k" and ad: "val (shr adder 1) = 2 ^ k"
    using Suc.prems by (simp_all add: val_shr)
  show ?case
  proof (cases "gte resMod r")
    case False
    then show ?thesis using Suc.prems by (subst loop_unfold) (auto simp: gte_iff)
  next
    case True
    show ?thesis
    proof (cases "gte resMod copyd")
      case False
      have "2 ^ Suc k dvd val resDiv"
        using Suc.prems(4) by (meson dvd_trans le_imp_power_dvd lessI less_imp_le)
      moreover have "val resMod < 2 * (val r * 2 ^ k)"
        using False Suc.prems by (simp add: gte_iff)
      ultimately have "\<exists>q m. loop r (shr copyd 1) (shr adder 1) resDiv resMod = Some (q, m)
          \<and> L = val q * val r + val m \<and> val m < val r"
        using Suc.IH Suc.prems(1,6) cd ad by blast
      moreover have "loop r copyd adder resDiv resMod
          = loop r (shr copyd 1) (shr adder 1) resDiv resMod"
        using True False by (subst loop_unfold) simp
      ultimately show ?thesis by simp
    next
      case ge: True
      let ?R = "sub resMod copyd" and ?D = "orr resDiv adder"
      have le: "val r * 2 ^ Suc k \<le> val resMod" using ge Suc.prems(2) by (simp add: gte_iff)
      have R: "val ?R = val resMod - val r * 2 ^ Suc k"
        using le Suc.prems(2) by (simp add: val_sub)
      have D: "val ?D = val resDiv + 2 ^ Suc k"
        using or_disjoint_add_nat [of "Suc k" "val resDiv"] Suc.prems by (simp add: val_orr)
      have "2 ^ Suc k dvd val ?D"
        unfolding D using Suc.prems(4)
        by (intro dvd_add) (auto intro: dvd_trans [OF le_imp_power_dvd])
      moreover have "val ?R < 2 * (val r * 2 ^ k)" using R le Suc.prems by simp
      moreover have "L = val ?D * val r + val ?R"
        using R D le Suc.prems(6) by (simp add: algebra_simps)
      ultimately have "\<exists>q m. loop r (shr copyd 1) (shr adder 1) ?D ?R = Some (q, m)
          \<and> L = val q * val r + val m \<and> val m < val r"
        using Suc.IH Suc.prems(1) cd ad by blast
      moreover have "loop r copyd adder resDiv resMod
          = loop r (shr copyd 1) (shr adder 1) ?D ?R"
        using True ge by (subst loop_unfold) simp
      ultimately show ?thesis by simp
    qed
  qed
qed

text \<open>The prologue of the division: the divisor is aligned with the dividend, and moved
  one bit back when the alignment went past it.\<close>

lemma align_correct:
  assumes "0 < val r" and "val r \<le> val l"
  defines "d \<equiv> nbits l - nbits r"
  shows "val (shl r d) = val r * 2 ^ unat d" and "val (shl one d) = 2 ^ unat d"
    and "val l < 2 * (val r * 2 ^ unat d)"
    and "val l < val r * 2 ^ unat d \<Longrightarrow> 0 < unat d"
proof -
  have l0: "0 < val l" using assms by simp
  have "2 ^ unat (nbits r) \<le> 2 * val r" using assms(1) by (rule nbits_lower)
  also have "\<dots> \<le> 2 * val l" using assms(2) by simp
  also have "\<dots> < 2 * 2 ^ unat (nbits l)" using nbits_upper [of l] by simp
  finally have "(2::nat) ^ unat (nbits r) < 2 ^ Suc (unat (nbits l))" by simp
  then have "unat (nbits r) \<le> unat (nbits l)"
    by (metis less_Suc_eq_le one_less_numeral_iff power_less_imp_less_exp semiring_norm(76))
  then have "nbits r \<le> nbits l" by (simp add: word_le_nat_alt)
  then have d: "unat d = unat (nbits l) - unat (nbits r)"
    by (simp add: d_def unat_sub)
  have sum: "unat (nbits r) + unat d = unat (nbits l)"
    using d \<open>unat (nbits r) \<le> unat (nbits l)\<close> by simp
  have "val r * 2 ^ unat d < 2 ^ unat (nbits r) * 2 ^ unat d"
    using nbits_upper [of r] by simp
  also have "\<dots> = 2 ^ unat (nbits l)" by (simp add: sum flip: power_add)
  also have "\<dots> \<le> 2 ^ W" using nbits_le [of l] by simp
  finally have small: "val r * 2 ^ unat d < 2 ^ W" .
  then show "val (shl r d) = val r * 2 ^ unat d" by (simp add: val_shl)
  have "1 * 2 ^ unat d \<le> val r * 2 ^ unat d" using assms(1) by (intro mult_le_mono1) simp
  with small have "2 ^ unat d < (2 ^ W :: nat)" by linarith
  then show "val (shl one d) = 2 ^ unat d" by (simp add: val_shl val_one)
  have "val l < 2 ^ unat (nbits l)" by (rule nbits_upper)
  also have "\<dots> = 2 ^ unat (nbits r) * 2 ^ unat d" by (simp add: sum flip: power_add)
  also have "\<dots> \<le> 2 * val r * 2 ^ unat d"
    using nbits_lower [OF assms(1)] by (intro mult_le_mono1)
  finally show "val l < 2 * (val r * 2 ^ unat d)" by simp
  show "val l < val r * 2 ^ unat d \<Longrightarrow> 0 < unat d"
    using assms(2) by (cases "unat d") auto
qed

lemma divmod_correct:
  assumes r: "0 < val r" and ge: "\<not> gt r l"
    and cd: "copyd = shl r (nbits l - nbits r)" and ad: "adder = shl one (nbits l - nbits r)"
    and cd': "copyd' = (if gt copyd l then shr copyd 1 else copyd)"
    and ad': "adder' = (if gt copyd l then shr adder 1 else adder)"
  shows "\<exists>q m. loop r copyd' adder' zero l = Some (q, m)
            \<and> val q = val l div val r \<and> val m = val l mod val r"
proof -
  let ?d = "unat (nbits l - nbits r)"
  have le: "val r \<le> val l" using ge by (simp add: gt_iff)
  note al = align_correct [OF r le]
  have "\<exists>k. val copyd' = val r * 2 ^ k \<and> val adder' = 2 ^ k \<and> val l < 2 * (val r * 2 ^ k)"
  proof (cases "gt copyd l")
    case False
    then show ?thesis using al cd ad cd' ad' by (intro exI [of _ ?d]) simp
  next
    case True
    then have lt: "val l < val r * 2 ^ ?d" using al(1) cd by (simp add: gt_iff)
    then obtain k where k: "?d = Suc k" using al(4) gr0_conv_Suc by auto
    then show ?thesis using al cd ad cd' ad' True lt
      by (intro exI [of _ k]) (simp add: val_shr)
  qed
  then obtain k where k: "val copyd' = val r * 2 ^ k" "val adder' = 2 ^ k"
    "val l < 2 * (val r * 2 ^ k)" by blast
  obtain q m where "loop r copyd' adder' zero l = Some (q, m)"
    and eq: "val l = val q * val r + val m" and lt: "val m < val r"
    using loop_correct [OF r k(1,2) _ k(3), of zero] val_zero by auto
  moreover have "val q = val l div val r" "val m = val l mod val r"
    using r lt by (simp_all add: eq)
  ultimately show ?thesis by blast
qed

end

end
