(* ===== verification/Buf_Utils.thy ===== *)
theory Buf_Utils
  imports Prelude
begin

text \<open>
  Model of the buffer and string helpers of \<open>src/utils/utils.c\<close>: resizing of big-endian
  byte strings, string copies that mark truncation, and in-place reversal.
\<close>

section \<open>Operations\<close>

abbreviation NUL :: char where "NUL \<equiv> CHR 0x00"

text \<open>\<open>strlcpy\<close> into a buffer of \<open>n\<close> characters.\<close>

definition strlcpy :: "nat \<Rightarrow> string \<Rightarrow> string" where
  "strlcpy n src = take (n - 1) src"

text \<open>\<open>src\<close> is \<open>None\<close> for a null pointer; the destination is the buffer
  \<open>dst\<close> of which \<open>dst_size\<close> bytes are handed to the function.\<close>

definition buf_shrink_expand :: "bytes option \<Rightarrow> nat \<Rightarrow> bytes \<Rightarrow> nat \<Rightarrow> bytes option" where
  "buf_shrink_expand src src_size dst dst_size =
     (if dst_size = 0 then Some dst
      else case src of
        None \<Rightarrow> wr_n dst 0 (replicate dst_size 0)
      | Some s \<Rightarrow>
          if src_size = 0 then wr_n dst 0 (replicate dst_size 0)
          else if dst_size < src_size then do {
            xs \<leftarrow> rd_n s (src_size - dst_size) dst_size;
            wr_n dst 0 xs }
          else do {
            dst' \<leftarrow> wr_n dst 0 (replicate (dst_size - src_size) 0);
            xs \<leftarrow> rd_n s 0 (dst_size - (dst_size - src_size));
            wr_n dst' (dst_size - src_size) xs })"

definition trunc_marker :: string where
  "trunc_marker = ''...'' @ [NUL]"

lemma length_trunc_marker [simp]: "length trunc_marker = 4"
  by (simp add: trunc_marker_def)

definition str_cpy_explicit_trunc ::
  "string option \<Rightarrow> nat \<Rightarrow> string \<Rightarrow> nat \<Rightarrow> string option" where
  "str_cpy_explicit_trunc src src_size dst dst_size =
     (if dst_size = 0 then Some dst
      else case src of
        None \<Rightarrow> wr dst 0 NUL
      | Some s \<Rightarrow>
          if src_size < dst_size then do {
            xs \<leftarrow> rd_n s 0 src_size;
            dst' \<leftarrow> wr_n dst 0 xs;
            wr dst' src_size NUL }
          else if dst_size \<le> length trunc_marker then wr dst 0 NUL
          else do {
            xs \<leftarrow> rd_n s 0 (dst_size - length trunc_marker);
            dst' \<leftarrow> wr_n dst 0 xs;
            wr_n dst' (dst_size - length trunc_marker) trunc_marker })"

text \<open>\<open>for (i = 0, j = length - 1; i < j; i++, j--)\<close> swap; neither counter wraps since
  the body runs only with \<open>i < j\<close>.\<close>

function reverse_loop :: "'a list \<Rightarrow> nat \<Rightarrow> nat \<Rightarrow> 'a list option" where
  "reverse_loop str i j =
     (if i < j then do {
        c \<leftarrow> rd str i;
        d \<leftarrow> rd str j;
        str1 \<leftarrow> wr str i d;
        str2 \<leftarrow> wr str1 j c;
        reverse_loop str2 (i + 1) (j - 1) }
      else Some str)"
  by pat_completeness auto
termination
  by (relation "measure (\<lambda>(str, i, j). j - i)") auto

declare reverse_loop.simps [simp del]

definition reverseString :: "'a list \<Rightarrow> uint32 \<Rightarrow> 'a list option" where
  "reverseString str len =
     (if len < 2 then Some str else reverse_loop str 0 (unat len - 1))"

section \<open>Correctness\<close>

text \<open>The numeric content of the kept low-order part is preserved.\<close>

definition resize_be :: "nat \<Rightarrow> bytes \<Rightarrow> bytes" where
  "resize_be n bs = be_bytes n (be_val bs)"

lemma resize_be_shorter:
  assumes "length bs \<le> n"
  shows "resize_be n bs = replicate (n - length bs) 0 @ bs"
proof (rule be_val_inj)
  have "be_val bs < 256 ^ n"
    using be_val_less [of bs] assms by (meson less_le_trans power_increasing one_le_numeral)
  then show "be_val (resize_be n bs) = be_val (replicate (n - length bs) 0 @ bs)"
    by (simp add: resize_be_def be_val_be_bytes)
qed (use assms in \<open>simp add: resize_be_def\<close>)

lemma resize_be_longer:
  assumes "n \<le> length bs"
  shows "resize_be n bs = drop (length bs - n) bs"
proof (rule be_val_inj)
  let ?k = "length bs - n"
  have "be_val bs = be_val (take ?k bs) * 256 ^ n + be_val (drop ?k bs)"
    using be_val_append [of "take ?k bs" "drop ?k bs"] assms by simp
  moreover have "be_val (drop ?k bs) < 256 ^ n"
    using be_val_less [of "drop ?k bs"] assms by simp
  ultimately show "be_val (resize_be n bs) = be_val (drop ?k bs)"
    by (simp add: resize_be_def be_val_be_bytes)
qed (use assms in \<open>simp add: resize_be_def\<close>)

lemma buf_shrink_expand_correct:
  assumes "0 < n" and "n \<le> length dst" and "sz \<le> length s"
  shows "buf_shrink_expand (Some s) sz dst n = Some (resize_be n (take sz s) @ drop n dst)"
proof (cases "n < sz")
  case True
  then show ?thesis using assms
    by (simp add: buf_shrink_expand_def buf_simps resize_be_longer drop_take)
next
  case False
  then show ?thesis using assms
    by (auto simp: buf_shrink_expand_def buf_simps resize_be_shorter)
qed

lemma buf_shrink_expand_value:
  assumes "0 < n" and "n \<le> length dst" and "sz \<le> length s"
  shows "\<exists>d. buf_shrink_expand (Some s) sz dst n = Some d \<and> be_val (take n d) = be_val (take sz s) mod 256 ^ n
     \<and> length d = length dst \<and> drop n d = drop n dst"
  using buf_shrink_expand_correct [OF assms] assms(2) by (simp add: resize_be_def be_val_be_bytes)

lemma buf_shrink_expand_null:
  "n \<le> length dst \<Longrightarrow> buf_shrink_expand None sz dst n = Some (replicate n 0 @ drop n dst)"
  by (simp add: buf_shrink_expand_def buf_simps)

text \<open>A C string up to its terminator.\<close>

definition c_str :: "string \<Rightarrow> string" where
  "c_str s = takeWhile (\<lambda>c. c \<noteq> NUL) s"

lemma c_str_terminated: "NUL \<notin> set xs \<Longrightarrow> c_str (xs @ NUL # ys) = xs"
  by (induction xs) (auto simp: c_str_def)

text \<open>A C string of the first characters of a buffer that was zero.\<close>

definition buf_string :: "bytes \<Rightarrow> string" where
  "buf_string bs = c_str (map (\<lambda>b. char_of (unat b)) bs)"

lemma str_cpy_fits:
  assumes "sz < n" and "n \<le> length dst" and "sz \<le> length s" and "NUL \<notin> set (take sz s)"
  shows "\<exists>d. str_cpy_explicit_trunc (Some s) sz dst n = Some d
            \<and> length d = length dst \<and> c_str d = take sz s \<and> drop n d = drop n dst"
proof -
  have "str_cpy_explicit_trunc (Some s) sz dst n
      = Some ((take sz s @ drop sz dst)[sz := NUL])"
    using assms by (simp add: str_cpy_explicit_trunc_def buf_simps)
  moreover have "(take sz s @ drop sz dst)[sz := NUL] = take sz s @ NUL # drop (Suc sz) dst"
    using assms by (simp add: list_update_append upd_conv_take_nth_drop)
  moreover obtain m where "n = Suc (sz + m)" using assms(1) less_imp_Suc_add by blast
  then have "drop n (take sz s @ NUL # drop (Suc sz) dst) = drop n dst"
    using assms by (simp add: ac_simps)
  ultimately show ?thesis using assms by (simp add: c_str_terminated)
qed

lemma str_cpy_truncates:
  assumes "n \<le> sz" and "4 < n" and "n \<le> length dst" and "sz \<le> length s"
    and "NUL \<notin> set (take sz s)"
  shows "\<exists>d. str_cpy_explicit_trunc (Some s) sz dst n = Some d
            \<and> length d = length dst \<and> c_str d = take (n - 4) s @ ''...'' \<and> drop n d = drop n dst"
proof -
  have "str_cpy_explicit_trunc (Some s) sz dst n
      = Some (take (n - 4) s @ trunc_marker @ drop n dst)"
    using assms by (simp add: str_cpy_explicit_trunc_def buf_simps)
  moreover have "set (take (n - 4) s) \<subseteq> set (take sz s)"
    using assms by (intro set_take_subset_set_take) simp
  ultimately show ?thesis using assms c_str_terminated [of "take (n - 4) s @ ''...''" "drop n dst"]
    by (auto simp: trunc_marker_def)
qed

lemma reverse_loop_nth:
  "i \<le> Suc j \<Longrightarrow> j < length s \<Longrightarrow>
   \<exists>s'. reverse_loop s i j = Some s' \<and> length s' = length s
     \<and> (\<forall>k < length s. s' ! k = (if i \<le> k \<and> k \<le> j then s ! (i + j - k) else s ! k))"
proof (induction s i j rule: reverse_loop.induct)
  case (1 s i j)
  show ?case
  proof (cases "i < j")
    case False
    then have "i \<le> k \<and> k \<le> j \<Longrightarrow> i + j - k = k" for k by linarith
    with False show ?thesis using "1.prems" by (subst reverse_loop.simps) auto
  next
    case True
    let ?s1 = "s[i := s ! j]" and ?s2 = "s[i := s ! j, j := s ! i]"
    have step: "reverse_loop s i j = reverse_loop ?s2 (i + 1) (j - 1)"
      using True "1.prems" by (subst reverse_loop.simps) (simp add: buf_simps)
    have "\<exists>s'. reverse_loop ?s2 (i + 1) (j - 1) = Some s' \<and> length s' = length ?s2
       \<and> (\<forall>k < length ?s2. s' ! k = (if i + 1 \<le> k \<and> k \<le> j - 1 then ?s2 ! (i + 1 + (j - 1) - k)
                                   else ?s2 ! k))"
      using True "1.prems" by (intro "1.IH" [of "s ! i" "s ! j" ?s1]) (auto simp: buf_simps)
    then obtain s' where s': "reverse_loop s i j = Some s'" "length s' = length s"
      "\<forall>k < length s. s' ! k = (if i + 1 \<le> k \<and> k \<le> j - 1 then ?s2 ! (i + 1 + (j - 1) - k)
                               else ?s2 ! k)"
      using step by auto
    have "s' ! k = (if i \<le> k \<and> k \<le> j then s ! (i + j - k) else s ! k)" if "k < length s" for k
      using s'(3) that True "1.prems" by (auto simp: nth_list_update)
    with s' show ?thesis by blast
  qed
qed

lemma reverseString_correct:
  assumes "unat n \<le> length s"
  shows "reverseString s n = Some (rev (take (unat n) s) @ drop (unat n) s)"
proof (cases "n < 2")
  case True
  then have "unat n = 0 \<or> unat n = 1" by (simp add: word_less_nat_alt) linarith
  then have "rev (take (unat n) s) = take (unat n) s"
    using assms by (cases s) auto
  with True show ?thesis by (simp add: reverseString_def)
next
  case False
  then have n: "2 \<le> unat n" by (simp add: word_less_nat_alt)
  then have "unat n - 1 < length s" using assms by simp
  from reverse_loop_nth [OF _ this, of 0] False
  obtain s' where s': "reverseString s n = Some s'" "length s' = length s"
    "\<forall>k < length s. s' ! k = (if k \<le> unat n - 1 then s ! (unat n - 1 - k) else s ! k)"
    by (auto simp: reverseString_def)
  have "s' = rev (take (unat n) s) @ drop (unat n) s"
    using s' assms n by (intro nth_equalityI) (auto simp: nth_append rev_nth min_def)
  with s' show ?thesis by simp
qed

end
