(* ===== verification/Uint128.thy ===== *)
theory Uint128
  imports Wide_Uint Buf_Utils
begin

text \<open>
  Model of \<open>src/uint128.c\<close>: 128-bit unsigned integers as two 64-bit limbs, with the
  shifts, comparisons, carry and borrow arithmetic, the shift-and-subtract division, the
  multiplication over the SDK routine, and the formatting in bases 2 to 16.
\<close>

section \<open>Data\<close>

record uint128_t =
  upper128 :: uint64
  lower128 :: uint64

definition U128 :: "uint64 \<Rightarrow> uint64 \<Rightarrow> uint128_t" where
  "U128 u l = \<lparr>upper128 = u, lower128 = l\<rparr>"

definition val128 :: "uint128_t \<Rightarrow> nat" where
  "val128 n = unat (upper128 n) * 2 ^ 64 + unat (lower128 n)"

section \<open>Operations\<close>

definition readu128BE :: "bytes \<Rightarrow> uint128_t option" where
  "readu128BE buffer = do {
     u \<leftarrow> read_u64_be buffer 0;
     l \<leftarrow> read_u64_be (drop 8 buffer) 0;
     Some \<lparr>upper128 = u, lower128 = l\<rparr> }"

definition zero128 :: "uint128_t \<Rightarrow> bool" where
  "zero128 number = (lower128 number = 0 \<and> upper128 number = 0)"

definition copy128 :: "uint128_t \<Rightarrow> uint128_t" where
  "copy128 number = \<lparr>upper128 = upper128 number, lower128 = lower128 number\<rparr>"

definition clear128 :: uint128_t where
  "clear128 = \<lparr>upper128 = 0, lower128 = 0\<rparr>"

definition shiftl128 :: "uint128_t \<Rightarrow> uint32 \<Rightarrow> uint128_t" where
  "shiftl128 number value =
     (if 128 \<le> value then clear128
      else if value = 64 then \<lparr>upper128 = lower128 number, lower128 = 0\<rparr>
      else if value = 0 then copy128 number
      else if value < 64 then
        \<lparr>upper128 = push_bit (unat value) (upper128 number)
                     + drop_bit (unat (64 - value)) (lower128 number),
         lower128 = push_bit (unat value) (lower128 number)\<rparr>
      else \<lparr>upper128 = push_bit (unat (value - 64)) (lower128 number), lower128 = 0\<rparr>)"

definition shiftr128 :: "uint128_t \<Rightarrow> uint32 \<Rightarrow> uint128_t" where
  "shiftr128 number value =
     (if 128 \<le> value then clear128
      else if value = 64 then \<lparr>upper128 = 0, lower128 = upper128 number\<rparr>
      else if value = 0 then copy128 number
      else if value < 64 then
        copy128
        \<lparr>upper128 = drop_bit (unat value) (upper128 number),
         lower128 = push_bit (unat (64 - value)) (upper128 number)
                     + drop_bit (unat value) (lower128 number)\<rparr>
      else \<lparr>upper128 = 0, lower128 = drop_bit (unat (value - 64)) (upper128 number)\<rparr>)"

text \<open>\<open>while (up) { up >>= 1; result++; }\<close>\<close>

function bits_loop :: "uint64 \<Rightarrow> uint32 \<Rightarrow> uint32" where
  "bits_loop up result = (if up \<noteq> 0 then bits_loop (drop_bit 1 up) (result + 1) else result)"
  by pat_completeness auto
termination
proof (relation "measure (\<lambda>(up, result). unat up)")
  fix up :: uint64 and result :: uint32
  assume "up \<noteq> 0"
  then have "0 < unat up" by (simp add: unat_gt_0)
  then show "((drop_bit 1 up, result + 1), up, result) \<in> measure (\<lambda>(up, result). unat up)"
    by (simp only: in_measure prod.case unat_drop_bit) simp
qed simp

declare bits_loop.simps [simp del]

definition bits128 :: "uint128_t \<Rightarrow> uint32" where
  "bits128 number =
     (if upper128 number \<noteq> 0 then bits_loop (upper128 number) 64
      else bits_loop (lower128 number) 0)"

definition equal128 :: "uint128_t \<Rightarrow> uint128_t \<Rightarrow> bool" where
  "equal128 number1 number2 =
     (upper128 number1 = upper128 number2 \<and> lower128 number1 = lower128 number2)"

definition gt128 :: "uint128_t \<Rightarrow> uint128_t \<Rightarrow> bool" where
  "gt128 number1 number2 =
     (if upper128 number1 = upper128 number2 then lower128 number2 < lower128 number1
      else upper128 number2 < upper128 number1)"

definition gte128 :: "uint128_t \<Rightarrow> uint128_t \<Rightarrow> bool" where
  "gte128 number1 number2 = (gt128 number1 number2 \<or> equal128 number1 number2)"

definition add128 :: "uint128_t \<Rightarrow> uint128_t \<Rightarrow> uint128_t" where
  "add128 number1 number2 =
     \<lparr>upper128 = upper128 number1 + upper128 number2
                  + of_bool (lower128 number1 + lower128 number2 < lower128 number1),
      lower128 = lower128 number1 + lower128 number2\<rparr>"

definition sub128 :: "uint128_t \<Rightarrow> uint128_t \<Rightarrow> uint128_t" where
  "sub128 number1 number2 =
     \<lparr>upper128 = upper128 number1 - upper128 number2
                  - of_bool (lower128 number1 < lower128 number1 - lower128 number2),
      lower128 = lower128 number1 - lower128 number2\<rparr>"

definition or128 :: "uint128_t \<Rightarrow> uint128_t \<Rightarrow> uint128_t" where
  "or128 number1 number2 =
     \<lparr>upper128 = upper128 number1 OR upper128 number2,
      lower128 = lower128 number1 OR lower128 number2\<rparr>"

text \<open>
  \<open>cx_math_mult_no_throw\<close> is an SDK routine and a parameter: given two operands of the
  same length it returns the bytes of the product, or \<open>None\<close> for an error code.  The
  function returns \<open>None\<close> for C's \<open>false\<close> (the target is then not written).
\<close>

definition mul128 :: "cx_mult \<Rightarrow> uint128_t \<Rightarrow> uint128_t \<Rightarrow> (uint128_t option) option" where
  "mul128 cx_math_mult number1 number2 =
     (let num1 = write_u64_be (upper128 number1) @ write_u64_be (lower128 number1);
          num2 = write_u64_be (upper128 number2) @ write_u64_be (lower128 number2)
      in case cx_math_mult num1 num2 of
           None \<Rightarrow> Some None
         | Some result \<Rightarrow>
             if \<not> is_zeroes_buffer (take INT128_LENGTH result) then Some None
             else do {
               u \<leftarrow> read_u64_be result INT128_LENGTH;
               l \<leftarrow> read_u64_be result (INT128_LENGTH + 8);
               Some (Some \<lparr>upper128 = u, lower128 = l\<rparr>) })"

text \<open>The loop of \<open>divmod128\<close>; it does not return for a null divisor.\<close>

partial_function (option) divmod128_loop ::
  "uint128_t \<Rightarrow> uint128_t \<Rightarrow> uint128_t \<Rightarrow> uint128_t \<Rightarrow> uint128_t \<Rightarrow> (uint128_t \<times> uint128_t) option"
where
  "divmod128_loop r copyd adder resDiv resMod =
     (if gte128 resMod r
      then (let (resMod', resDiv') =
                  (if gte128 resMod copyd then (sub128 resMod copyd, or128 resDiv adder)
                   else (resMod, resDiv))
            in divmod128_loop r (shiftr128 copyd 1) (shiftr128 adder 1) resDiv' resMod')
      else Some (resDiv, resMod))"

text \<open>The pair is \<open>(retDiv, retMod)\<close>.\<close>

definition divmod128 :: "uint128_t \<Rightarrow> uint128_t \<Rightarrow> (uint128_t \<times> uint128_t) option" where
  "divmod128 l r =
     (let one = \<lparr>upper128 = 0, lower128 = 1\<rparr>;
          diffBits = bits128 l - bits128 r;
          resDiv = clear128;
          resMod = copy128 l
      in if gt128 r l then Some (clear128, copy128 l)
         else
           (let copyd = shiftl128 r diffBits;
                adder = shiftl128 one diffBits;
                copyd' = (if gt128 copyd resMod then shiftr128 copyd 1 else copyd);
                adder' = (if gt128 copyd resMod then shiftr128 adder 1 else adder)
            in divmod128_loop r copyd' adder' resDiv resMod))"

text \<open>
  Output buffers are explicit: the result carries C's return value and the buffer after the
  call.  The loop of \<open>tostring128\<close> writes the digits least significant first.
\<close>

partial_function (option) tostring128_loop ::
  "uint128_t \<Rightarrow> uint32 \<Rightarrow> uint128_t \<Rightarrow> string \<Rightarrow> uint32 \<Rightarrow> (bool \<times> string \<times> uint32) option"
where
  "tostring128_loop base outLength rDiv out offset =
     (if outLength - 1 < offset then Some (False, out, offset)
      else
        Option.bind (divmod128 rDiv base) (\<lambda>(rDiv', rMod).
        Option.bind (rd HEXDIGITS (unat (ucast (lower128 rMod) :: uint8))) (\<lambda>c.
        Option.bind (wr out (unat offset) c) (\<lambda>out'.
          if zero128 rDiv' then Some (True, out', offset + 1)
          else tostring128_loop base outLength rDiv' out' (offset + 1)))))"

definition tostring128 ::
  "uint128_t \<Rightarrow> uint32 \<Rightarrow> string \<Rightarrow> uint32 \<Rightarrow> (bool \<times> string) option" where
  "tostring128 number baseParam out outLength =
     (let rDiv = copy128 number;
          base = clear128\<lparr>lower128 := ucast baseParam\<rparr>
      in if outLength = 0 \<or> baseParam < 2 \<or> 16 < baseParam then Some (False, out)
         else do {
           (ok, out1, offset) \<leftarrow> tostring128_loop base outLength rDiv out 0;
           if \<not> ok then Some (False, out1)
           else if outLength - 1 < offset then Some (False, out1)
           else do {
             out2 \<leftarrow> wr out1 (unat offset) NUL;
             out3 \<leftarrow> reverseString out2 offset;
             Some (True, out3) } })"

text \<open>\<open>out + 1\<close> is the tail of the buffer; the byte before it is kept.\<close>

definition tostring128_signed ::
  "uint128_t \<Rightarrow> uint32 \<Rightarrow> string \<Rightarrow> uint32 \<Rightarrow> (bool \<times> string) option" where
  "tostring128_signed number base out out_length =
     (if out_length = 0 then Some (False, out)
      else if base = 10 then
        (let one_val = clear128\<lparr>lower128 := 1\<rparr>;
             two_val = clear128\<lparr>lower128 := 2\<rparr>;
             max_unsigned_val = \<lparr>upper128 = - 1, lower128 = - 1\<rparr>
         in do {
           (max_signed_val, tmp) \<leftarrow> divmod128 max_unsigned_val two_val;
           if gt128 number max_signed_val then
             (if out_length < 2 then do {
                out' \<leftarrow> wr out 0 NUL;
                Some (False, out') }
              else
                (let tmp = add128 (sub128 max_unsigned_val number) one_val
                 in do {
                   out' \<leftarrow> wr out 0 CHR ''-'';
                   (ok, rest) \<leftarrow> tostring128 tmp base (drop 1 out') (out_length - 1);
                   Some (ok, take 1 out' @ rest) }))
           else tostring128 number base out out_length })
      else tostring128 number base out out_length)"

text \<open>On an unusable length the target is left as it was.\<close>

definition convertUint64BEto128 :: "bytes \<Rightarrow> uint32 \<Rightarrow> uint128_t \<Rightarrow> uint128_t option" where
  "convertUint64BEto128 data len target =
     (let value = u64_from_BE (take (unat (ucast len :: uint8)) data)
      in if 16 < len then Some target
         else do {
           bs \<leftarrow> rd_n data 0 (unat len);
           readu128BE (replicate (16 - unat len) (if sint value < 0 then 0xff else 0) @ bs) })"

definition convertUint128BE :: "bytes option \<Rightarrow> uint32 \<Rightarrow> uint128_t \<Rightarrow> uint128_t option" where
  "convertUint128BE data len target =
     (case data of
        None \<Rightarrow> Some target
      | Some d \<Rightarrow>
          if len = 0 then Some target
          else if 16 < len then Some target
          else do {
            bs \<leftarrow> rd_n d 0 (unat len);
            readu128BE (replicate (16 - unat len) 0 @ bs) })"

section \<open>Values\<close>

lemma copy128_id [simp]: "copy128 a = a"
  by (simp add: copy128_def)

lemma val128_less [simp]: "val128 n < 2 ^ 128"
proof -
  have "unat (upper128 n) < 2 ^ 64" "unat (lower128 n) < 2 ^ 64"
    using unsigned_less [where ?'a = nat, of "upper128 n"]
      unsigned_less [where ?'a = nat, of "lower128 n"] by simp_all
  then show ?thesis by (simp add: val128_def)
qed

lemma unat64_less [simp]: "unat (w :: uint64) < 18446744073709551616"
  using unsigned_less [where ?'a = nat, of w] by simp

lemma val128_eq_iff: "val128 a = val128 b \<longleftrightarrow> a = b"
proof
  assume eq: "val128 a = val128 b"
  have "val128 x div 2 ^ 64 = unat (upper128 x)" "val128 x mod 2 ^ 64 = unat (lower128 x)" for x
    by (simp_all add: val128_def)
  with eq have "unat (upper128 a) = unat (upper128 b)" "unat (lower128 a) = unat (lower128 b)"
    by metis+
  then show "a = b" by (simp add: word_unat_eq_iff)
qed simp

lemma zero128_iff: "zero128 a \<longleftrightarrow> val128 a = 0"
  by (auto simp: zero128_def val128_def unat_eq_0)

lemma equal128_iff: "equal128 a b \<longleftrightarrow> val128 a = val128 b"
  by (auto simp: equal128_def val128_eq_iff)

lemma gt128_iff: "gt128 a b \<longleftrightarrow> val128 b < val128 a"
  using two_limb_less [of "unat (lower128 b)" "2 ^ 64" "unat (lower128 a)" "unat (upper128 b)" "unat (upper128 a)"]
  by (auto simp: gt128_def val128_def word_less_nat_alt word_unat_eq_iff)

lemma gte128_iff: "gte128 a b \<longleftrightarrow> val128 b \<le> val128 a"
  by (auto simp: gte128_def gt128_iff equal128_iff)

lemma val128_add128: "val128 (add128 a b) = (val128 a + val128 b) mod 2 ^ 128"
proof -
  have "unat (upper128 (add128 a b))
      = (unat (upper128 a) + unat (upper128 b)
         + of_bool (2 ^ 64 \<le> unat (lower128 a) + unat (lower128 b))) mod 2 ^ 64"
    by (simp add: add128_def carry_iff unat_word_ariths mod_simps)
  moreover have "unat (lower128 (add128 a b)) = (unat (lower128 a) + unat (lower128 b)) mod 2 ^ 64"
    by (simp add: add128_def unat_word_ariths)
  ultimately show ?thesis
    using two_limb_add [of "unat (lower128 a)" "2 ^ 64" "unat (lower128 b)"
        "unat (upper128 a)" "unat (upper128 b)"]
    by (simp add: val128_def)
qed

lemma add128_sub128: "add128 (sub128 a b) b = a"
  by (simp add: add128_def sub128_def)

lemma val128_sub128: "val128 (sub128 a b) = (val128 a + (2 ^ 128 - val128 b)) mod 2 ^ 128"
  using val128_add128 [of "sub128 a b" b]
  by (intro sub_from_add_mod) (simp_all add: add128_sub128 del: power_numeral)

lemma val128_sub128_le: "val128 b \<le> val128 a \<Longrightarrow> val128 (sub128 a b) = val128 a - val128 b"
  using val128_less [of a] val128_less [of b] by (simp add: val128_sub128 mod_if)

lemma val128_or128: "val128 (or128 a b) = (val128 a OR val128 b)"
  using two_limb_or [of "unat (lower128 a)" 64 "unat (lower128 b)" "unat (upper128 a)" "unat (upper128 b)"]
  by (simp add: val128_def or128_def unat_or)

lemma unat32_less: "(value :: uint32) < 64 \<longleftrightarrow> unat value < 64" "(value :: uint32) < 128 \<longleftrightarrow> unat value < 128"
  "(128 :: uint32) \<le> value \<longleftrightarrow> 128 \<le> unat value" "(value :: uint32) = 64 \<longleftrightarrow> unat value = 64" 
  by (simp_all add: word_less_nat_alt word_le_nat_alt word_unat_eq_iff)

lemma val128_shiftl128: "val128 (shiftl128 a k) = val128 a * 2 ^ unat k mod 2 ^ 128"
proof -
  let ?u = "unat (upper128 a)" and ?l = "unat (lower128 a)" and ?k = "unat k"
  consider "128 \<le> ?k" | "?k = 0" | "0 < ?k" "?k < 64" | "64 \<le> ?k" "?k < 128"
    by linarith
  then show ?thesis
  proof cases
    case 1
    then have "(2::nat) ^ 128 dvd 2 ^ ?k" by (rule le_imp_power_dvd)
    then have "val128 a * 2 ^ ?k mod 2 ^ 128 = 0" by (metis dvd_mult dvd_imp_mod_0)
    with 1 show ?thesis by (simp add: shiftl128_def unat32_less clear128_def val128_def)
  next
    case 2
    then have "k = 0" by (simp add: unat_eq_0)
    then show ?thesis using val128_less [of a] by (simp add: shiftl128_def)
  next
    case 3
    have q: "unat (64 - k) = 64 - ?k" using 3 by (simp add: unat_sub word_le_nat_alt)
    have "(2::nat) ^ 64 = 2 ^ ?k * 2 ^ (64 - ?k)" using 3 by (simp flip: power_add)
    note t = two_limb_shl [OF this, of ?u ?l]
    have "unat (upper128 (shiftl128 a k)) = ?u * 2 ^ ?k mod 2 ^ 64 + ?l div 2 ^ (64 - ?k)"
      using 3 q t(1) 
      by (simp add: shiftl128_def unat32_less unat_eq_0 unat_word_ariths unat_push_bit unat_drop_bit)
    moreover have "unat (lower128 (shiftl128 a k)) = ?l * 2 ^ ?k mod 2 ^ 64"
      using 3 by (simp add: shiftl128_def unat32_less unat_eq_0 unat_push_bit)
    ultimately show ?thesis using t(2) by (simp add: val128_def)
  next
    case 4
    have q: "unat (k - 64) = ?k - 64" using 4 by (simp add: unat_sub word_le_nat_alt)
    have "unat (upper128 (shiftl128 a k)) = ?l * 2 ^ (?k - 64) mod 2 ^ 64"
      using 4 q by (auto simp add: shiftl128_def unat32_less unat_push_bit)
    moreover have "lower128 (shiftl128 a k) = 0"
      using 4 by (auto simp: shiftl128_def unat32_less)
    moreover have "(2::nat) ^ ?k = 2 ^ 64 * 2 ^ (?k - 64)"
      using 4 by (metis le_add_diff_inverse power_add)
    ultimately show ?thesis
      using two_limb_shl_high [of ?u "2 ^ 64" ?l "2 ^ (?k - 64)"] by (simp add: val128_def)
  qed
qed

lemma val128_shiftr128: "val128 (shiftr128 a k) = val128 a div 2 ^ unat k"
proof -
  let ?u = "unat (upper128 a)" and ?l = "unat (lower128 a)" and ?k = "unat k"
  consider "128 \<le> ?k" | "?k = 0" | "0 < ?k" "?k < 64" | "64 \<le> ?k" "?k < 128"
    by linarith
  then show ?thesis
  proof cases
    case 1
    then have "(2::nat) ^ 128 \<le> 2 ^ ?k" by (rule power_increasing) simp
    then have "val128 a div 2 ^ ?k = 0" using val128_less [of a] by simp
    with 1 show ?thesis by (simp add: shiftr128_def unat32_less clear128_def val128_def)
  next
    case 2
    then have "k = 0" by (simp add: unat_eq_0)
    then show ?thesis by (simp add: shiftr128_def)
  next
    case 3
    have q: "unat (64 - k) = 64 - ?k" using 3 by (simp add: unat_sub word_le_nat_alt)
    have "(2::nat) ^ 64 = 2 ^ ?k * 2 ^ (64 - ?k)" using 3 by (simp flip: power_add)
    note t = two_limb_shr [OF this, of ?u ?l]
    have "unat (lower128 (shiftr128 a k)) = ?u * 2 ^ (64 - ?k) mod 2 ^ 64 + ?l div 2 ^ ?k"
      using 3 q t(1)
      by (simp add: shiftr128_def unat32_less unat_eq_0 unat_word_ariths unat_push_bit
          unat_drop_bit)
    moreover have "unat (upper128 (shiftr128 a k)) = ?u div 2 ^ ?k"
      using 3 by (simp add: shiftr128_def unat32_less unat_eq_0 unat_drop_bit)
    ultimately show ?thesis using t(2) by (simp add: val128_def)
  next
    case 4
    have q: "unat (k - 64) = ?k - 64" using 4 by (simp add: unat_sub word_le_nat_alt)
    have "unat (lower128 (shiftr128 a k)) = ?u div 2 ^ (?k - 64)"
      using 4 q by (auto simp add: shiftr128_def unat32_less unat_drop_bit)
    moreover have "upper128 (shiftr128 a k) = 0"
      using 4 by (auto simp: shiftr128_def unat32_less)
    moreover have "(2::nat) ^ ?k = 2 ^ 64 * 2 ^ (?k - 64)"
      using 4 by (metis le_add_diff_inverse power_add)
    ultimately show ?thesis
      using two_limb_shr_high [of ?l "2 ^ 64" ?u "2 ^ (?k - 64)"] by (simp add: val128_def)
  qed
qed

lemma bits_loop_spec: "bits_loop up result = result + word_of_nat (bit_len (unat up))"
proof (induction up result rule: bits_loop.induct)
  case (1 up result)
  show ?case
  proof (cases "up = 0")
    case True
    then show ?thesis by (simp add: bits_loop.simps)
  next
    case False
    then have "0 < unat up" by (simp add: unat_gt_0)
    moreover have "bits_loop up result = bits_loop (drop_bit 1 up) (result + 1)"
      using False by (subst bits_loop.simps) simp
    moreover have "unat (drop_bit 1 up) = unat up div 2" by (simp only: unat_drop_bit power_one_right)
    ultimately show ?thesis using "1" [OF False] by (simp add: bit_len_step)
  qed
qed

lemma unat_bits128: "unat (bits128 a) = bit_len (val128 a)"
proof -
  have le: "bit_len (unat (w :: uint64)) \<le> 64" for w by (rule bit_len_le) simp
  show ?thesis
  proof (cases "upper128 a = 0")
    case True
    then show ?thesis using le [of "lower128 a"]
      by (simp add: bits128_def bits_loop_spec val128_def unat_of_nat)
  next
    case False
    then have "bit_len (val128 a) = 64 + bit_len (unat (upper128 a))"
      unfolding val128_def by (intro bit_len_two_limb) (simp_all add: unat_gt_0)
    moreover have "bits128 a = word_of_nat (64 + bit_len (unat (upper128 a)))"
      using False by (simp add: bits128_def bits_loop_spec)
    ultimately show ?thesis using le [of "upper128 a"] by (simp only: unat_of_nat) simp
  qed
qed

lemmas val128_simps = val128_add128 val128_sub128 val128_or128 val128_shiftl128 val128_shiftr128
  gt128_iff gte128_iff equal128_iff zero128_iff

section \<open>Division\<close>

interpretation u128: wide_uint val128 128 shiftl128 shiftr128 sub128 or128 gt128 gte128 bits128
  clear128 "\<lparr>upper128 = 0, lower128 = 1\<rparr>" divmod128_loop
proof unfold_locales
  show "divmod128_loop r copyd adder resDiv resMod =
         (if gte128 resMod r
          then (let (resMod', resDiv') =
                      (if gte128 resMod copyd then (sub128 resMod copyd, or128 resDiv adder)
                       else (resMod, resDiv))
                in divmod128_loop r (shiftr128 copyd 1) (shiftr128 adder 1) resDiv' resMod')
          else Some (resDiv, resMod))" for r copyd adder resDiv resMod
    by (rule divmod128_loop.simps)
qed (simp_all only: val128_less val128_shiftl128 val128_shiftr128 val128_sub128_le val128_or128
      gt128_iff gte128_iff unat_bits128, simp_all add: val128_def clear128_def)

lemma divmod128_spec:
  assumes "val128 r \<noteq> 0"
  shows "\<exists>q m. divmod128 l r = Some (q, m)
            \<and> val128 q = val128 l div val128 r \<and> val128 m = val128 l mod val128 r"
proof (cases "gt128 r l")
  case True
  then show ?thesis by (simp add: divmod128_def gt128_iff val128_def clear128_def)
next
  case False
  then show ?thesis using assms u128.divmod_correct [OF _ False refl refl refl refl]
    by (simp add: divmod128_def Let_def)
qed

section \<open>Formatting\<close>

text \<open>One digit of a division by a base: the low limb of the remainder indexes the digit
  table, also after the cast to a byte.\<close>

lemma digit_index:
  assumes "val128 m < 16"
  shows "unat (ucast (lower128 m) :: uint8) = val128 m"
proof -
  have "unat (upper128 m) = 0" and "unat (lower128 m) = val128 m"
    using assms by (auto simp: val128_def)
  then show ?thesis using assms by (simp add: unsigned_ucast_eq take_bit_nat_eq_self)
qed

lemma tostring128_loop_step:
  fixes out :: string and n :: uint128_t
  assumes b: "2 \<le> val128 base" "val128 base \<le> 16"
    and L: "unat L \<le> length out" "unat off < unat L"
  defines "out' \<equiv> out[unat off := HEXDIGITS ! (val128 n mod val128 base)]"
  shows "\<exists>q. val128 q = val128 n div val128 base \<and>
     tostring128_loop base L n out off =
       (if zero128 q then Some (True, out', off + 1) else tostring128_loop base L q out' (off + 1))"
proof -
  have nlt: "\<not> L - 1 < off"
    using L(2) by (simp add: word_less_nat_alt unat_sub word_le_nat_alt)
  have "val128 base \<noteq> 0" using b by simp
  then obtain q m where qm: "divmod128 n base = Some (q, m)"
    "val128 q = val128 n div val128 base" "val128 m = val128 n mod val128 base"
    using divmod128_spec by blast
  have "val128 m < val128 base" using qm(3) b by simp
  then have m16: "val128 m < 16" using b(2) by (rule less_le_trans)
  have "tostring128_loop base L n out off =
      (if zero128 q then Some (True, out', off + 1) else tostring128_loop base L q out' (off + 1))"
    using qm nlt m16 L digit_index [OF m16]
    by (subst tostring128_loop.simps) (simp add: buf_simps out'_def)
  with qm(2) show ?thesis by blast
qed

lemma tostring128_loop_fits:
  fixes out :: string
  assumes b: "2 \<le> val128 base" "val128 base \<le> 16"
  shows "unat L \<le> length out \<Longrightarrow> unat off + length (digits (val128 base) (val128 n)) \<le> unat L \<Longrightarrow>
    \<exists>off'. tostring128_loop base L n out off
        = Some (True, take (unat off) out @ rev (digit_str (val128 base) (val128 n))
            @ drop (unat off + length (digits (val128 base) (val128 n))) out, off')
      \<and> unat off' = unat off + length (digits (val128 base) (val128 n))"
proof (induction "val128 n" arbitrary: n out off rule: less_induct)
  case less
  let ?b = "val128 base" and ?out = "out[unat off := HEXDIGITS ! (val128 n mod val128 base)]"
  let ?c = "HEXDIGITS ! (val128 n mod val128 base)"
  have lt: "unat off < unat L"
    using less.prems digits_nonempty [of ?b "val128 n"] by (cases "digits ?b (val128 n)") auto
  obtain q where q: "val128 q = val128 n div ?b" "tostring128_loop base L n out off =
      (if zero128 q then Some (True, ?out, off + 1) else tostring128_loop base L q ?out (off + 1))"
    using tostring128_loop_step [OF b less.prems(1) lt] by blast
  have off1: "unat (off + 1) = Suc (unat off)" using unat_plus_one [OF lt] by simp
  have upd: "?out = take (unat off) out @ ?c # drop (Suc (unat off)) out"
    using lt less.prems by (simp add: upd_conv_take_nth_drop)
  show ?case
  proof (cases "val128 n < ?b")
    case True
    then show ?thesis using q off1 upd by (simp add: zero128_iff digit_str_def digits_small)
  next
    case False
    then have dg: "digits ?b (val128 n) = digits ?b (val128 q) @ [val128 n mod ?b]"
      using b q(1) by (simp add: digits_step)
    have nz: "\<not> zero128 q" using False b q(1) by (simp add: zero128_iff div_eq_0_iff)
    have "0 < val128 n" using False b by linarith
    then have "val128 q < val128 n" using q(1) b by (simp add: div_less_dividend)
    from less.hyps [OF this, of ?out "off + 1"] less.prems dg off1 obtain off' where
      "tostring128_loop base L q ?out (off + 1) = Some (True, take (Suc (unat off)) ?out
          @ rev (digit_str ?b (val128 q)) @ drop (Suc (unat off) + length (digits ?b (val128 q))) ?out, off')"
      "unat off' = Suc (unat off) + length (digits ?b (val128 q))"
      by auto
    moreover have "take (Suc (unat off)) ?out = take (unat off) out @ [?c]"
      using lt less.prems by (simp add: upd)
    ultimately show ?thesis using q(2) nz dg by (simp add: digit_str_def)
  qed
qed

lemma tostring128_loop_overflows:
  fixes out :: string
  assumes b: "2 \<le> val128 base" "val128 base \<le> 16" and L: "0 < unat L"
  shows "unat L \<le> length out \<Longrightarrow> unat off \<le> unat L \<Longrightarrow>
    unat L < unat off + length (digits (val128 base) (val128 n)) \<Longrightarrow>
    \<exists>out' off'. tostring128_loop base L n out off = Some (False, out', off') \<and> length out' = length out"
proof (induction "val128 n" arbitrary: n out off rule: less_induct)
  case less
  let ?b = "val128 base" and ?out = "out[unat off := HEXDIGITS ! (val128 n mod val128 base)]"
  show ?case
  proof (cases "unat off = unat L")
    case True
    then have "L - 1 < off" using L by (simp add: word_less_nat_alt unat_sub word_le_nat_alt)
    then show ?thesis by (subst tostring128_loop.simps) simp
  next
    case False
    then have lt: "unat off < unat L" using less.prems by simp
    obtain q where q: "val128 q = val128 n div ?b" "tostring128_loop base L n out off =
        (if zero128 q then Some (True, ?out, off + 1) else tostring128_loop base L q ?out (off + 1))"
      using tostring128_loop_step [OF b less.prems(1) lt] by blast
    have ge: "?b \<le> val128 n"
      using less.prems(3) lt by (cases "val128 n < ?b") (simp_all add: digits_small)
    then have dg: "digits ?b (val128 n) = digits ?b (val128 q) @ [val128 n mod ?b]"
      using b q(1) by (simp add: digits_step)
    have nz: "\<not> zero128 q" using ge b q(1) by (simp add: zero128_iff div_eq_0_iff)
    have "0 < val128 n" using ge b by linarith
    then have "val128 q < val128 n" using q(1) b by (simp add: div_less_dividend)
    from less.hyps [OF this, of ?out "off + 1"] less.prems dg unat_plus_one [OF lt] lt
    show ?thesis using q(2) nz by simp
  qed
qed

text \<open>The text of a number fits when the buffer has room for its digits and the
  terminator; otherwise the call reports failure, without writing past the buffer.\<close>

lemma tostring128_spec:
  fixes n :: uint128_t and b L :: uint32 and out :: string
  assumes "2 \<le> unat b" and "unat b \<le> 16" and "0 < unat L" and "unat L \<le> length out"
  defines "ds \<equiv> digit_str (unat b) (val128 n)"
  shows "if length ds < unat L
         then tostring128 n b out L = Some (True, ds @ NUL # drop (Suc (length ds)) out)
         else \<exists>out'. tostring128 n b out L = Some (False, out') \<and> length out' = length out"
proof -
  let ?base = "clear128\<lparr>lower128 := ucast b\<rparr>"
  have base: "val128 ?base = unat b"
    by (simp add: val128_def clear128_def unsigned_ucast_eq take_bit_nat_eq_self
        less_trans [OF unsigned_less])
  have ok: "\<not> (L = 0 \<or> b < 2 \<or> 16 < b)"
    using assms by (auto simp: word_less_nat_alt)
  have L1: "unat (L - 1) = unat L - 1"
    using assms(3) by (simp add: unat_sub word_le_nat_alt)
  have len: "length (digits (unat b) (val128 n)) = length ds" by (simp add: ds_def)
  show ?thesis
  proof (cases "length ds \<le> unat L")
    case False
    then obtain out' off' where "tostring128_loop ?base L n out 0 = Some (False, out', off')"
      "length out' = length out"
      using tostring128_loop_overflows [of ?base L out 0 n] assms(1-4) base len by auto
    with False ok show ?thesis by (simp add: tostring128_def)
  next
    case True
    then obtain off' where off: "tostring128_loop ?base L n out 0
        = Some (True, rev ds @ drop (length ds) out, off')" "unat off' = length ds"
      using tostring128_loop_fits [of ?base L out 0 n] assms(1-4) base by (auto simp: ds_def)
    show ?thesis
    proof (cases "length ds < unat L")
      case False
      then have "L - 1 < off'" using off True L1 assms(3) by (simp add: word_less_nat_alt)
      with False off ok assms(4) True show ?thesis by (simp add: tostring128_def)
    next
      case lt: True
      then have nlt: "\<not> L - 1 < off'" using off L1 by (simp add: word_less_nat_alt)
      have "(rev ds @ drop (length ds) out)[length ds := NUL] = rev ds @ NUL # drop (Suc (length ds)) out"
        using lt assms(4) by (simp add: list_update_append upd_conv_take_nth_drop)
      then show ?thesis using lt nlt off ok assms(4)
        by (simp add: tostring128_def buf_simps reverseString_correct)
    qed
  qed
qed

lemma tostring128_signed_spec:
  fixes n :: uint128_t and L :: uint32 and out :: string
  assumes L: "0 < unat L" "unat L \<le> length out"
  defines "t \<equiv> dec_str (signed_val 128 (val128 n))"
  shows "if length t < unat L
         then tostring128_signed n 10 out L = Some (True, t @ NUL # drop (Suc (length t)) out)
         else \<exists>out'. tostring128_signed n 10 out L = Some (False, out') \<and> length out' = length out"
proof -
  let ?two = "clear128\<lparr>lower128 := 2\<rparr>" and ?max = "\<lparr>upper128 = - 1, lower128 = - 1\<rparr> :: uint128_t"
  have two: "val128 ?two = 2" and max: "val128 ?max = 2 ^ 128 - 1"
    by (simp_all add: val128_def clear128_def unsigned_minus_1_eq_mask mask_eq_exp_minus_1)
  obtain q m where q: "divmod128 ?max ?two = Some (q, m)" "val128 q = 2 ^ 127 - 1"
    using divmod128_spec [of ?two ?max] two max by auto
  have L0: "L \<noteq> 0" using L by auto
  show ?thesis
  proof (cases "gt128 n q")
    case False
    then have "val128 n < 2 ^ 127" using q(2) by (simp add: gt128_iff)
    then have t: "t = digit_str 10 (val128 n)" by (simp add: t_def signed_val_def dec_str_def)
    have "tostring128_signed n 10 out L = tostring128 n 10 out L"
      using False q L0 by (simp add: tostring128_signed_def)
    then show ?thesis using tostring128_spec [of 10 L out n] L t by simp
  next
    case True
    then have big: "2 ^ 127 \<le> val128 n" using q(2) by (simp add: gt128_iff)
    let ?tmp = "add128 (sub128 ?max n) \<lparr>upper128 = 0, lower128 = 1\<rparr>"
    have "val128 (sub128 ?max n) = 2 ^ 128 - 1 - val128 n"
      using max val128_less [of n] by (subst val128_sub128_le) simp_all
    then have tmp: "val128 ?tmp = 2 ^ 128 - val128 n"
      using val128_less [of n] big by (simp add: val128_add128 val128_def [of "\<lparr>upper128 = 0, lower128 = 1\<rparr>"])
    have t: "t = CHR ''-'' # digit_str 10 (val128 ?tmp)"
      using big val128_less [of n] tmp by (simp add: t_def signed_val_def dec_str_def nat_diff_distrib)
    show ?thesis
    proof (cases "L < 2")
      case True
      then have "\<not> length t < unat L" using t by (simp add: word_less_nat_alt)
      moreover have "tostring128_signed n 10 out L = Some (False, out[0 := NUL])"
        using \<open>gt128 n q\<close> q L0 L True by (cases out) (simp_all add: tostring128_signed_def wr_def)
      ultimately show ?thesis by simp
    next
      case False
      then have L1: "unat (L - 1) = unat L - 1" "0 < unat (L - 1)"
        by (simp_all add: word_less_nat_alt unat_sub word_le_nat_alt)
      obtain x xs where out: "out = x # xs" using L by (cases out) auto
      have "tostring128_signed n 10 out L = map_option (\<lambda>(ok, r). (ok, CHR ''-'' # r))
          (tostring128 ?tmp 10 xs (L - 1))"
        using \<open>gt128 n q\<close> q L0 L False out
        by (cases "tostring128 ?tmp 10 xs (L - 1)")
          (auto simp: tostring128_signed_def wr_def clear128_def)
      moreover have "if length (digit_str 10 (val128 ?tmp)) < unat (L - 1)
         then tostring128 ?tmp 10 xs (L - 1) = Some (True, digit_str 10 (val128 ?tmp) @ NUL
                # drop (Suc (length (digit_str 10 (val128 ?tmp)))) xs)
         else \<exists>out'. tostring128 ?tmp 10 xs (L - 1) = Some (False, out') \<and> length out' = length xs"
        using tostring128_spec [of 10 "L - 1" xs ?tmp] L1 L out by simp
      ultimately show ?thesis using L1 t out
        by (cases "length t < unat L") (auto split: if_splits)
    qed
  qed
qed

section \<open>Reading and multiplying\<close>

lemma readu128BE_spec:
  assumes "16 \<le> length bs"
  shows "\<exists>n. readu128BE bs = Some n \<and> val128 n = be_val (take 16 bs)"
proof -
  have "take 16 bs = take 8 bs @ take 8 (drop 8 bs)"
    by (metis numeral_Bit0 take_add)
  then have "be_val (take 16 bs) = be_val (take 8 bs) * 2 ^ 64 + be_val (take 8 (drop 8 bs))"
    using assms by (simp add: be_val_append)
  then show ?thesis using assms
    by (simp add: readu128BE_def read_u64_be_Some val128_def unat_word_of_be_val)
qed

lemma convertUint128BE_spec:
  assumes "0 < len" and "len \<le> 16" and "unat len \<le> length d"
  shows "\<exists>n. convertUint128BE (Some d) len target = Some n \<and> val128 n = be_val (take (unat len) d)"
proof -
  let ?bs = "replicate (16 - unat len) 0 @ take (unat len) d"
  have l: "unat len \<le> 16" using assms(2) by (simp add: word_le_nat_alt)
  then obtain n where "readu128BE ?bs = Some n" "val128 n = be_val (take 16 ?bs)"
    using readu128BE_spec [of ?bs] assms by auto
  moreover have "take 16 ?bs = ?bs" using l assms by simp
  ultimately show ?thesis using assms l
    by (auto simp: convertUint128BE_def buf_simps word_less_nat_alt)
qed

lemma mul128_spec:
  fixes a b :: uint128_t
  assumes c: "mult_contract cx"
  defines "num n \<equiv> write_u64_be (upper128 n) @ write_u64_be (lower128 n)"
  shows "case cx (num a) (num b) of
           None \<Rightarrow> mul128 cx a b = Some None
         | Some r \<Rightarrow> (if val128 a * val128 b < 2 ^ 128
                     then \<exists>p. mul128 cx a b = Some (Some p) \<and> val128 p = val128 a * val128 b
                     else mul128 cx a b = Some None)"
proof (cases "cx (num a) (num b)")
  case None
  then show ?thesis by (simp add: mul128_def num_def)
next
  case (Some r)
  have num: "be_val (num n) = val128 n" "length (num n) = 16" for n
    by (simp_all add: num_def be_val_append val_simps val128_def)
  have r: "length r = 32" "be_val r = val128 a * val128 b"
    using mult_contractD [OF c Some num(2) num(2)] num(1) by simp_all
  have split: "be_val r = be_val (take 16 r) * 2 ^ 128 + be_val (drop 16 r)"
    using be_val_append [of "take 16 r" "drop 16 r"] r by simp
  have low: "be_val (drop 16 r) < 2 ^ 128" using be_val_less [of "drop 16 r"] r by simp
  have z: "is_zeroes_buffer (take 16 r) \<longleftrightarrow> val128 a * val128 b < 2 ^ 128"
    using split low r by (auto simp: be_val_eq_0_iff [symmetric])
  have "drop 16 r = take 8 (drop 16 r) @ take 8 (drop 24 r)"
    using r append_take_drop_id [of 8 "drop 16 r"] by simp
  then have "be_val (drop 16 r) = be_val (take 8 (drop 16 r)) * 2 ^ 64 + be_val (take 8 (drop 24 r))"
    using r be_val_append [of "take 8 (drop 16 r)" "take 8 (drop 24 r)"] by simp
  then show ?thesis using Some z r split
    by (auto simp: mul128_def num_def read_u64_be_Some val128_def unat_word_of_be_val
        be_val_eq_0_iff [symmetric])
qed

end
