(* ===== verification/Uint256.thy ===== *)
theory Uint256
  imports Uint128
begin

text \<open>
  Model of \<open>src/uint256.c\<close>: 256-bit unsigned integers whose two limbs are the 128-bit
  integers of \<open>uint128.c\<close>.  Every amount, fee and nonce that the application displays goes
  through this code.
\<close>

section \<open>Data\<close>

record uint256_t =
  upper256 :: uint128_t
  lower256 :: uint128_t

definition val256 :: "uint256_t \<Rightarrow> nat" where
  "val256 n = val128 (upper256 n) * 2 ^ 128 + val128 (lower256 n)"

section \<open>Operations\<close>

definition readu256BE :: "bytes \<Rightarrow> uint256_t option" where
  "readu256BE buffer = do {
     u \<leftarrow> readu128BE buffer;
     l \<leftarrow> readu128BE (drop 16 buffer);
     Some \<lparr>upper256 = u, lower256 = l\<rparr> }"

definition zero256 :: "uint256_t \<Rightarrow> bool" where
  "zero256 number = (zero128 (lower256 number) \<and> zero128 (upper256 number))"

definition copy256 :: "uint256_t \<Rightarrow> uint256_t" where
  "copy256 number = \<lparr>upper256 = copy128 (upper256 number), lower256 = copy128 (lower256 number)\<rparr>"

definition clear256 :: uint256_t where
  "clear256 = \<lparr>upper256 = clear128, lower256 = clear128\<rparr>"

definition shiftl256 :: "uint256_t \<Rightarrow> uint32 \<Rightarrow> uint256_t" where
  "shiftl256 number value =
     (if 256 \<le> value then clear256
      else if value = 128 then \<lparr>upper256 = copy128 (lower256 number), lower256 = clear128\<rparr>
      else if value = 0 then copy256 number
      else if value < 128 then
        (let tmp1 = shiftl128 (upper256 number) value;
             tmp2 = shiftr128 (lower256 number) (128 - value)
         in copy256 \<lparr>upper256 = add128 tmp1 tmp2, lower256 = shiftl128 (lower256 number) value\<rparr>)
      else \<lparr>upper256 = shiftl128 (lower256 number) (value - 128), lower256 = clear128\<rparr>)"

definition shiftr256 :: "uint256_t \<Rightarrow> uint32 \<Rightarrow> uint256_t" where
  "shiftr256 number value =
     (if 256 \<le> value then clear256
      else if value = 128 then \<lparr>upper256 = clear128, lower256 = copy128 (upper256 number)\<rparr>
      else if value = 0 then copy256 number
      else if value < 128 then
        (let upper = shiftr128 (upper256 number) value;
             tmp1 = shiftr128 (lower256 number) value;
             tmp2 = shiftl128 (upper256 number) (128 - value)
         in copy256 \<lparr>upper256 = upper, lower256 = add128 tmp1 tmp2\<rparr>)
      else \<lparr>upper256 = clear128, lower256 = shiftr128 (upper256 number) (value - 128)\<rparr>)"

text \<open>\<open>while (!zero128(&up)) { shiftr128(&up, 1, &up); result++; }\<close>\<close>

function bits256_loop :: "uint128_t \<Rightarrow> uint32 \<Rightarrow> uint32" where
  "bits256_loop up result =
     (if \<not> zero128 up then bits256_loop (shiftr128 up 1) (result + 1) else result)"
  by pat_completeness auto
termination
proof (relation "measure (\<lambda>(up, result). val128 up)")
  fix up :: uint128_t and result :: uint32
  assume "\<not> zero128 up"
  then show "((shiftr128 up 1, result + 1), up, result) \<in> measure (\<lambda>(up, result). val128 up)"
    by (simp add: val128_shiftr128 zero128_iff)
qed simp

declare bits256_loop.simps [simp del]

definition bits256 :: "uint256_t \<Rightarrow> uint32" where
  "bits256 number =
     (if \<not> zero128 (upper256 number) then bits256_loop (copy128 (upper256 number)) 128
      else bits256_loop (copy128 (lower256 number)) 0)"

definition equal256 :: "uint256_t \<Rightarrow> uint256_t \<Rightarrow> bool" where
  "equal256 number1 number2 =
     (equal128 (upper256 number1) (upper256 number2) \<and> equal128 (lower256 number1) (lower256 number2))"

definition gt256 :: "uint256_t \<Rightarrow> uint256_t \<Rightarrow> bool" where
  "gt256 number1 number2 =
     (if equal128 (upper256 number1) (upper256 number2)
      then gt128 (lower256 number1) (lower256 number2)
      else gt128 (upper256 number1) (upper256 number2))"

definition gte256 :: "uint256_t \<Rightarrow> uint256_t \<Rightarrow> bool" where
  "gte256 number1 number2 = (gt256 number1 number2 \<or> equal256 number1 number2)"

definition add256 :: "uint256_t \<Rightarrow> uint256_t \<Rightarrow> uint256_t" where
  "add256 number1 number2 =
     (let upper = add128 (upper256 number1) (upper256 number2);
          tmp = add128 (lower256 number1) (lower256 number2);
          upper' = (if gt128 (lower256 number1) tmp
                    then add128 upper \<lparr>upper128 = 0, lower128 = 1\<rparr> else upper)
      in \<lparr>upper256 = upper', lower256 = add128 (lower256 number1) (lower256 number2)\<rparr>)"

definition sub256 :: "uint256_t \<Rightarrow> uint256_t \<Rightarrow> uint256_t" where
  "sub256 number1 number2 =
     (let upper = sub128 (upper256 number1) (upper256 number2);
          tmp = sub128 (lower256 number1) (lower256 number2);
          upper' = (if gt128 tmp (lower256 number1)
                    then sub128 upper \<lparr>upper128 = 0, lower128 = 1\<rparr> else upper)
      in \<lparr>upper256 = upper', lower256 = sub128 (lower256 number1) (lower256 number2)\<rparr>)"

definition or256 :: "uint256_t \<Rightarrow> uint256_t \<Rightarrow> uint256_t" where
  "or256 number1 number2 =
     \<lparr>upper256 = or128 (upper256 number1) (upper256 number2),
      lower256 = or128 (lower256 number1) (lower256 number2)\<rparr>"

text \<open>The four 64-bit limbs \<open>elements[i / 2].elements[i % 2]\<close>, \<open>i = 0..3\<close>.\<close>

definition limbs256 :: "uint256_t \<Rightarrow> uint64 list" where
  "limbs256 n = [upper128 (upper256 n), lower128 (upper256 n),
                 upper128 (lower256 n), lower128 (lower256 n)]"

definition mul256 :: "cx_mult \<Rightarrow> uint256_t \<Rightarrow> uint256_t \<Rightarrow> (uint256_t option) option" where
  "mul256 cx_math_mult number1 number2 =
     (let num1 = concat (map write_u64_be (limbs256 number1));
          num2 = concat (map write_u64_be (limbs256 number2))
      in case cx_math_mult num1 num2 of
           None \<Rightarrow> Some None
         | Some result \<Rightarrow>
             if \<not> is_zeroes_buffer (take INT256_LENGTH result) then Some None
             else do {
               a \<leftarrow> read_u64_be result 32;
               b \<leftarrow> read_u64_be result (32 + 8);
               c \<leftarrow> read_u64_be result (32 + 16);
               d \<leftarrow> read_u64_be result (32 + 24);
               Some (Some \<lparr>upper256 = \<lparr>upper128 = a, lower128 = b\<rparr>,
                           lower256 = \<lparr>upper128 = c, lower128 = d\<rparr>\<rparr>) })"

partial_function (option) divmod256_loop ::
  "uint256_t \<Rightarrow> uint256_t \<Rightarrow> uint256_t \<Rightarrow> uint256_t \<Rightarrow> uint256_t \<Rightarrow> (uint256_t \<times> uint256_t) option"
where
  "divmod256_loop r copyd adder resDiv resMod =
     (if gte256 resMod r
      then (let (resMod', resDiv') =
                  (if gte256 resMod copyd then (sub256 resMod copyd, or256 resDiv adder)
                   else (resMod, resDiv))
            in divmod256_loop r (shiftr256 copyd 1) (shiftr256 adder 1) resDiv' resMod')
      else Some (resDiv, resMod))"

definition one256 :: uint256_t where
  "one256 = clear256\<lparr>lower256 := \<lparr>upper128 = 0, lower128 = 1\<rparr>\<rparr>"

definition divmod256 :: "uint256_t \<Rightarrow> uint256_t \<Rightarrow> (uint256_t \<times> uint256_t) option" where
  "divmod256 l r =
     (let one = one256;
          diffBits = bits256 l - bits256 r;
          resDiv = clear256;
          resMod = copy256 l
      in if gt256 r l then Some (clear256, copy256 l)
         else
           (let copyd = shiftl256 r diffBits;
                adder = shiftl256 one diffBits;
                copyd' = (if gt256 copyd resMod then shiftr256 copyd 1 else copyd);
                adder' = (if gt256 copyd resMod then shiftr256 adder 1 else adder)
            in divmod256_loop r copyd' adder' resDiv resMod))"

partial_function (option) tostring256_loop ::
  "uint256_t \<Rightarrow> uint32 \<Rightarrow> uint256_t \<Rightarrow> string \<Rightarrow> uint32 \<Rightarrow> (string \<times> uint32) option"
where
  "tostring256_loop base outLength rDiv out offset =
     Option.bind (divmod256 rDiv base) (\<lambda>(rDiv', rMod).
     Option.bind (rd HEXDIGITS (unat (ucast (lower128 (lower256 rMod)) :: uint8))) (\<lambda>c.
     Option.bind (wr out (unat offset) c) (\<lambda>out'.
       if \<not> zero256 rDiv' \<and> offset + 1 < outLength
       then tostring256_loop base outLength rDiv' out' (offset + 1)
       else Some (out', offset + 1))))"

definition tostring256 ::
  "uint256_t \<Rightarrow> uint32 \<Rightarrow> string \<Rightarrow> uint32 \<Rightarrow> (bool \<times> string) option" where
  "tostring256 number baseParam out outLength =
     (let rDiv = copy256 number;
          base = clear256\<lparr>lower256 := \<lparr>upper128 = 0, lower128 = ucast baseParam\<rparr>\<rparr>
      in if outLength = 0 \<or> baseParam < 2 \<or> 16 < baseParam then Some (False, out)
         else do {
           (out1, offset) \<leftarrow> tostring256_loop base outLength rDiv out 0;
           if offset = outLength then
             (if 3 < outLength then do {
                out2 \<leftarrow> wr_n out1 0 (''...'' @ [NUL]);
                Some (False, out2) }
              else do {
                out2 \<leftarrow> wr out1 0 NUL;
                Some (False, out2) })
           else do {
             out2 \<leftarrow> wr out1 (unat offset) NUL;
             out3 \<leftarrow> reverseString out2 offset;
             Some (True, out3) } })"

definition tostring256_signed ::
  "uint256_t \<Rightarrow> uint32 \<Rightarrow> string \<Rightarrow> uint32 \<Rightarrow> (bool \<times> string) option" where
  "tostring256_signed number base out out_length =
     (if out_length = 0 then Some (False, out)
      else if base = 10 then
        (let one_val = one256;
             two_val = clear256\<lparr>lower256 := \<lparr>upper128 = 0, lower128 = 2\<rparr>\<rparr>;
             max_unsigned_val = \<lparr>upper256 = \<lparr>upper128 = - 1, lower128 = - 1\<rparr>,
                                 lower256 = \<lparr>upper128 = - 1, lower128 = - 1\<rparr>\<rparr>
         in do {
           (max_signed_val, tmp) \<leftarrow> divmod256 max_unsigned_val two_val;
           if gt256 number max_signed_val then
             (if out_length < 2 then do {
                out' \<leftarrow> wr out 0 NUL;
                Some (False, out') }
              else
                (let tmp = add256 (sub256 max_unsigned_val number) one_val
                 in do {
                   out' \<leftarrow> wr out 0 CHR ''-'';
                   (ok, rest) \<leftarrow> tostring256 tmp base (drop 1 out') (out_length - 1);
                   Some (ok, take 1 out' @ rest) }))
           else tostring256 number base out out_length })
      else tostring256 number base out out_length)"

text \<open>The pair is C's return value and the target after the call.\<close>

definition convertUint256BE :: "bytes option \<Rightarrow> uint32 \<Rightarrow> uint256_t \<Rightarrow> (bool \<times> uint256_t) option" where
  "convertUint256BE data len target =
     (case data of
        None \<Rightarrow> Some (False, target)
      | Some d \<Rightarrow>
          if len = 0 then Some (False, target)
          else if 32 < len then Some (False, target)
          else do {
            bs \<leftarrow> rd_n d 0 (unat len);
            n \<leftarrow> readu256BE (replicate (32 - unat len) 0 @ bs);
            Some (True, n) })"

section \<open>Values\<close>

lemma copy256_id [simp]: "copy256 a = a"
  by (simp add: copy256_def)

lemma val256_less [simp]: "val256 n < 2 ^ 256"
proof -
  have "val128 (upper256 n) < 2 ^ 128" "val128 (lower256 n) < 2 ^ 128"
    by (rule val128_less)+
  then show ?thesis by (simp add: val256_def)
qed

lemma val128_lt [simp]: "val128 n < 340282366920938463463374607431768211456"
  using val128_less [of n] by simp

lemma val256_eq_iff: "val256 a = val256 b \<longleftrightarrow> a = b"
proof
  assume eq: "val256 a = val256 b"
  have "val256 x div 2 ^ 128 = val128 (upper256 x)" "val256 x mod 2 ^ 128 = val128 (lower256 x)" for x
    by (simp_all add: val256_def)
  with eq have "val128 (upper256 a) = val128 (upper256 b)" "val128 (lower256 a) = val128 (lower256 b)"
    by metis+
  then show "a = b" by (simp add: val128_eq_iff)
qed simp

lemma zero256_iff: "zero256 a \<longleftrightarrow> val256 a = 0"
  by (auto simp: zero256_def val256_def zero128_iff)

lemma equal256_iff: "equal256 a b \<longleftrightarrow> val256 a = val256 b"
  by (auto simp: equal256_def equal128_iff val256_eq_iff val128_eq_iff)

lemma gt256_iff: "gt256 a b \<longleftrightarrow> val256 b < val256 a"
  using two_limb_less [of "val128 (lower256 b)" "2 ^ 128" "val128 (lower256 a)"
      "val128 (upper256 b)" "val128 (upper256 a)"]
  by (auto simp: gt256_def val256_def gt128_iff equal128_iff)

lemma gte256_iff: "gte256 a b \<longleftrightarrow> val256 b \<le> val256 a"
  by (auto simp: gte256_def gt256_iff equal256_iff)

lemma val128_one [simp]: "val128 \<lparr>upper128 = 0, lower128 = 1\<rparr> = 1"
  by (simp add: val128_def)

lemma val128_clear [simp]: "val128 clear128 = 0"
  by (simp add: val128_def clear128_def)

lemma val256_add256: "val256 (add256 a b) = (val256 a + val256 b) mod 2 ^ 256"
proof -
  let ?la = "val128 (lower256 a)" and ?lb = "val128 (lower256 b)"
  have carry: "gt128 (lower256 a) (add128 (lower256 a) (lower256 b)) \<longleftrightarrow> 2 ^ 128 \<le> ?la + ?lb"
    using carry_nat [OF val128_less val128_less, of "lower256 a" "lower256 b"]
    by (simp only: gt128_iff val128_add128)
  have "val128 (upper256 (add256 a b))
      = (val128 (upper256 a) + val128 (upper256 b) + of_bool (2 ^ 128 \<le> ?la + ?lb)) mod 2 ^ 128"
    using carry by (simp add: add256_def Let_def val128_add128 mod_simps del: power_numeral)
  moreover have "val128 (lower256 (add256 a b)) = (?la + ?lb) mod 2 ^ 128"
    by (simp add: add256_def Let_def val128_add128)
  ultimately show ?thesis
    using two_limb_add [of ?la "2 ^ 128" ?lb "val128 (upper256 a)" "val128 (upper256 b)"]
    by (simp add: val256_def)
qed

lemma add256_sub256: "add256 (sub256 a b) b = a"
proof -
  have fwd: "add128 (sub128 x y) y = x" for x y by (rule add128_sub128)
  have comm: "add128 (add128 x y) z = add128 (add128 x z) y" for x y z
    by (simp flip: val128_eq_iff add: val128_add128 mod_simps ac_simps)
  have "add128 (add128 (sub128 (sub128 x y) z) y) z = x" for x y z
    by (subst comm) (simp only: fwd)
  then show ?thesis
    by (auto simp: add256_def sub256_def Let_def fwd gt128_iff)
qed

lemma val256_sub256: "val256 (sub256 a b) = (val256 a + (2 ^ 256 - val256 b)) mod 2 ^ 256"
  using val256_add256 [of "sub256 a b" b]
  by (intro sub_from_add_mod) (simp_all add: add256_sub256 del: power_numeral)

lemma val256_sub256_le: "val256 b \<le> val256 a \<Longrightarrow> val256 (sub256 a b) = val256 a - val256 b"
  using val256_less [of a] val256_less [of b] by (simp add: val256_sub256 mod_if)

lemma val256_or256: "val256 (or256 a b) = (val256 a OR val256 b)"
  using two_limb_or [of "val128 (lower256 a)" 128 "val128 (lower256 b)"
      "val128 (upper256 a)" "val128 (upper256 b)"]
  by (simp add: val256_def or256_def val128_or128)

lemma unat32_less256: "(value :: uint32) < 128 \<longleftrightarrow> unat value < 128"
  "(256 :: uint32) \<le> value \<longleftrightarrow> 256 \<le> unat value" "(value :: uint32) = 128 \<longleftrightarrow> unat value = 128"
  by (simp_all add: word_less_nat_alt word_le_nat_alt word_unat_eq_iff)

lemma val256_shiftl256: "val256 (shiftl256 a k) = val256 a * 2 ^ unat k mod 2 ^ 256"
proof -
  let ?u = "val128 (upper256 a)" and ?l = "val128 (lower256 a)" and ?k = "unat k"
  consider "256 \<le> ?k" | "?k = 0" | "0 < ?k" "?k < 128" | "128 \<le> ?k" "?k < 256"
    by linarith
  then show ?thesis
  proof cases
    case 1
    then have "(2::nat) ^ 256 dvd 2 ^ ?k" by (rule le_imp_power_dvd)
    then have "val256 a * 2 ^ ?k mod 2 ^ 256 = 0" by (metis dvd_mult dvd_imp_mod_0)
    with 1 show ?thesis by (simp add: shiftl256_def unat32_less256 clear256_def val256_def)
  next
    case 2
    then have "k = 0" by (simp add: unat_eq_0)
    then show ?thesis using val256_less [of a] by (simp add: shiftl256_def)
  next
    case 3
    have q: "unat (128 - k) = 128 - ?k" using 3 by (simp add: unat_sub word_le_nat_alt)
    have "(2::nat) ^ 128 = 2 ^ ?k * 2 ^ (128 - ?k)" using 3 by (simp flip: power_add)
    note t = two_limb_shl [OF this, of ?u ?l]
    have "val128 (upper256 (shiftl256 a k)) = ?u * 2 ^ ?k mod 2 ^ 128 + ?l div 2 ^ (128 - ?k)"
      using 3 q t(1)
      by (simp add: shiftl256_def unat32_less256 unat_eq_0 Let_def val128_add128 val128_shiftl128
          val128_shiftr128)
    moreover have "val128 (lower256 (shiftl256 a k)) = ?l * 2 ^ ?k mod 2 ^ 128"
      using 3 by (simp add: shiftl256_def unat32_less256 unat_eq_0 Let_def val128_shiftl128)
    ultimately show ?thesis using t(2) by (simp add: val256_def)
  next
    case 4
    have q: "unat (k - 128) = ?k - 128" using 4 by (simp add: unat_sub word_le_nat_alt)
    have "val128 (upper256 (shiftl256 a k)) = ?l * 2 ^ (?k - 128) mod 2 ^ 128"
      using 4 q by (auto simp add: shiftl256_def unat32_less256 val128_shiftl128)
    moreover have "lower256 (shiftl256 a k) = clear128"
      using 4 by (auto simp: shiftl256_def unat32_less256)
    moreover have "(2::nat) ^ ?k = 2 ^ 128 * 2 ^ (?k - 128)"
      using 4 by (metis le_add_diff_inverse power_add)
    ultimately show ?thesis
      using two_limb_shl_high [of ?u "2 ^ 128" ?l "2 ^ (?k - 128)"] by (simp add: val256_def)
  qed
qed

lemma val256_shiftr256: "val256 (shiftr256 a k) = val256 a div 2 ^ unat k"
proof -
  let ?u = "val128 (upper256 a)" and ?l = "val128 (lower256 a)" and ?k = "unat k"
  consider "256 \<le> ?k" | "?k = 0" | "0 < ?k" "?k < 128" | "128 \<le> ?k" "?k < 256"
    by linarith
  then show ?thesis
  proof cases
    case 1
    then have "(2::nat) ^ 256 \<le> 2 ^ ?k" by (rule power_increasing) simp
    then have "val256 a div 2 ^ ?k = 0" using val256_less [of a] by simp
    with 1 show ?thesis by (simp add: shiftr256_def unat32_less256 clear256_def val256_def)
  next
    case 2
    then have "k = 0" by (simp add: unat_eq_0)
    then show ?thesis by (simp add: shiftr256_def)
  next
    case 3
    have q: "unat (128 - k) = 128 - ?k" using 3 by (simp add: unat_sub word_le_nat_alt)
    have "(2::nat) ^ 128 = 2 ^ ?k * 2 ^ (128 - ?k)" using 3 by (simp flip: power_add)
    note t = two_limb_shr [OF this, of ?u ?l]
    have "val128 (lower256 (shiftr256 a k)) = ?u * 2 ^ (128 - ?k) mod 2 ^ 128 + ?l div 2 ^ ?k"
      using 3 q t(1)
      by (simp add: shiftr256_def unat32_less256 unat_eq_0 Let_def val128_add128 val128_shiftl128
          val128_shiftr128 add.commute)
    moreover have "val128 (upper256 (shiftr256 a k)) = ?u div 2 ^ ?k"
      using 3 by (simp add: shiftr256_def unat32_less256 unat_eq_0 Let_def val128_shiftr128)
    ultimately show ?thesis using t(2) by (simp add: val256_def)
  next
    case 4
    have q: "unat (k - 128) = ?k - 128" using 4 by (simp add: unat_sub word_le_nat_alt)
    have "val128 (lower256 (shiftr256 a k)) = ?u div 2 ^ (?k - 128)"
      using 4 q by (auto simp add: shiftr256_def unat32_less256 val128_shiftr128)
    moreover have "upper256 (shiftr256 a k) = clear128"
      using 4 by (auto simp: shiftr256_def unat32_less256)
    moreover have "(2::nat) ^ ?k = 2 ^ 128 * 2 ^ (?k - 128)"
      using 4 by (metis le_add_diff_inverse power_add)
    ultimately show ?thesis
      using two_limb_shr_high [of ?l "2 ^ 128" ?u "2 ^ (?k - 128)"] by (simp add: val256_def)
  qed
qed

lemma bits256_loop_spec: "bits256_loop up result = result + word_of_nat (bit_len (val128 up))"
proof (induction up result rule: bits256_loop.induct)
  case (1 up result)
  show ?case
  proof (cases "zero128 up")
    case True
    then show ?thesis by (simp add: bits256_loop.simps zero128_iff)
  next
    case False
    then have "bits256_loop up result = bits256_loop (shiftr128 up 1) (result + 1)"
      by (subst bits256_loop.simps) simp
    then show ?thesis using "1" [OF False] False
      by (simp add: bit_len_step zero128_iff val128_shiftr128)
  qed
qed

lemma unat_bits256: "unat (bits256 a) = bit_len (val256 a)"
proof -
  have le: "bit_len (val128 w) \<le> 128" for w by (rule bit_len_le) (rule val128_less)
  show ?thesis
  proof (cases "zero128 (upper256 a)")
    case True
    then show ?thesis using le [of "lower256 a"]
      by (simp add: bits256_def bits256_loop_spec val256_def unat_of_nat zero128_iff)
  next
    case False
    then have "bit_len (val256 a) = 128 + bit_len (val128 (upper256 a))"
      unfolding val256_def by (intro bit_len_two_limb) (simp_all add: zero128_iff)
    moreover have "bits256 a = word_of_nat (128 + bit_len (val128 (upper256 a)))"
      using False by (simp add: bits256_def bits256_loop_spec)
    ultimately show ?thesis using le [of "upper256 a"] by (simp only: unat_of_nat) simp
  qed
qed

lemma val256_one [simp]: "val256 one256 = 1"
  by (simp add: one256_def clear256_def val256_def)

lemma val256_clear [simp]: "val256 clear256 = 0"
  by (simp add: clear256_def val256_def)

section \<open>Division\<close>

interpretation u256: wide_uint val256 256 shiftl256 shiftr256 sub256 or256 gt256 gte256 bits256
  clear256 one256 divmod256_loop
proof unfold_locales
  show "divmod256_loop r copyd adder resDiv resMod =
         (if gte256 resMod r
          then (let (resMod', resDiv') =
                      (if gte256 resMod copyd then (sub256 resMod copyd, or256 resDiv adder)
                       else (resMod, resDiv))
                in divmod256_loop r (shiftr256 copyd 1) (shiftr256 adder 1) resDiv' resMod')
          else Some (resDiv, resMod))" for r copyd adder resDiv resMod
    by (rule divmod256_loop.simps)
qed (simp_all only: val256_less val256_shiftl256 val256_shiftr256 val256_sub256_le val256_or256
      gt256_iff gte256_iff unat_bits256 val256_one val256_clear)

lemma divmod256_spec:
  assumes "val256 r \<noteq> 0"
  shows "\<exists>q m. divmod256 l r = Some (q, m)
            \<and> val256 q = val256 l div val256 r \<and> val256 m = val256 l mod val256 r"
proof (cases "gt256 r l")
  case True
  then show ?thesis by (simp add: divmod256_def gt256_iff)
next
  case False
  then show ?thesis using assms u256.divmod_correct [OF _ False refl refl refl refl]
    by (simp add: divmod256_def Let_def)
qed

section \<open>Formatting\<close>

lemma tostring256_loop_step:
  fixes out :: string and n :: uint256_t
  assumes b: "2 \<le> val256 base" "val256 base \<le> 16"
    and L: "unat L \<le> length out" "unat off < unat L"
  defines "out' \<equiv> out[unat off := HEXDIGITS ! (val256 n mod val256 base)]"
  shows "\<exists>q. val256 q = val256 n div val256 base \<and>
     tostring256_loop base L n out off =
       (if \<not> zero256 q \<and> off + 1 < L then tostring256_loop base L q out' (off + 1)
        else Some (out', off + 1))"
proof -
  have "val256 base \<noteq> 0" using b by simp
  then obtain q m where qm: "divmod256 n base = Some (q, m)"
    "val256 q = val256 n div val256 base" "val256 m = val256 n mod val256 base"
    using divmod256_spec by blast
  have "val256 m < val256 base" using qm(3) b by simp
  then have m16: "val256 m < 16" using b(2) by (rule less_le_trans)
  then have low: "val128 (lower256 m) = val256 m" by (auto simp: val256_def)
  with m16 have "unat (ucast (lower128 (lower256 m)) :: uint8) = val256 m"
    using digit_index [of "lower256 m"] by simp
  then have "tostring256_loop base L n out off =
       (if \<not> zero256 q \<and> off + 1 < L then tostring256_loop base L q out' (off + 1)
        else Some (out', off + 1))"
    using qm m16 L by (subst tostring256_loop.simps) (simp add: buf_simps out'_def)
  with qm(2) show ?thesis by blast
qed

lemma tostring256_loop_fits:
  fixes out :: string
  assumes b: "2 \<le> val256 base" "val256 base \<le> 16"
  shows "unat L \<le> length out \<Longrightarrow> unat off + length (digits (val256 base) (val256 n)) \<le> unat L \<Longrightarrow>
    \<exists>off'. tostring256_loop base L n out off
        = Some (take (unat off) out @ rev (digit_str (val256 base) (val256 n))
            @ drop (unat off + length (digits (val256 base) (val256 n))) out, off')
      \<and> unat off' = unat off + length (digits (val256 base) (val256 n))"
proof (induction "val256 n" arbitrary: n out off rule: less_induct)
  case less
  let ?b = "val256 base" and ?out = "out[unat off := HEXDIGITS ! (val256 n mod val256 base)]"
  let ?c = "HEXDIGITS ! (val256 n mod val256 base)"
  have lt: "unat off < unat L"
    using less.prems digits_nonempty [of ?b "val256 n"] by (cases "digits ?b (val256 n)") auto
  obtain q where q: "val256 q = val256 n div ?b" "tostring256_loop base L n out off =
      (if \<not> zero256 q \<and> off + 1 < L then tostring256_loop base L q ?out (off + 1)
       else Some (?out, off + 1))"
    using tostring256_loop_step [OF b less.prems(1) lt] by blast
  have off1: "unat (off + 1) = Suc (unat off)" using unat_plus_one [OF lt] by simp
  have upd: "?out = take (unat off) out @ ?c # drop (Suc (unat off)) out"
    using lt less.prems by (simp add: upd_conv_take_nth_drop)
  show ?case
  proof (cases "val256 n < ?b")
    case True
    then show ?thesis using q off1 upd by (simp add: zero256_iff digit_str_def digits_small)
  next
    case False
    then have dg: "digits ?b (val256 n) = digits ?b (val256 q) @ [val256 n mod ?b]"
      using b q(1) by (simp add: digits_step)
    have nz: "\<not> zero256 q" using False b q(1) by (simp add: zero256_iff div_eq_0_iff)
    have more: "off + 1 < L"
      using less.prems(2) dg digits_nonempty [of ?b "val256 q"] off1
      by (cases "digits ?b (val256 q)") (auto simp: word_less_nat_alt)
    have "0 < val256 n" using False b by linarith
    then have "val256 q < val256 n" using q(1) b by (simp add: div_less_dividend)
    from less.hyps [OF this, of ?out "off + 1"] less.prems dg off1 obtain off' where
      "tostring256_loop base L q ?out (off + 1) = Some (take (Suc (unat off)) ?out
          @ rev (digit_str ?b (val256 q)) @ drop (Suc (unat off) + length (digits ?b (val256 q))) ?out, off')"
      "unat off' = Suc (unat off) + length (digits ?b (val256 q))"
      by auto
    moreover have "take (Suc (unat off)) ?out = take (unat off) out @ [?c]"
      using lt less.prems by (simp add: upd)
    ultimately show ?thesis using q(2) nz more dg by (simp add: digit_str_def)
  qed
qed

lemma tostring256_loop_overflows:
  fixes out :: string
  assumes b: "2 \<le> val256 base" "val256 base \<le> 16"
  shows "unat L \<le> length out \<Longrightarrow> unat off < unat L \<Longrightarrow>
    unat L \<le> unat off + length (digits (val256 base) (val256 n)) \<Longrightarrow>
    \<exists>out'. tostring256_loop base L n out off = Some (out', L) \<and> length out' = length out"
proof (induction "val256 n" arbitrary: n out off rule: less_induct)
  case less
  let ?b = "val256 base" and ?out = "out[unat off := HEXDIGITS ! (val256 n mod val256 base)]"
  note lt = less.prems(2)
  obtain q where q: "val256 q = val256 n div ?b" "tostring256_loop base L n out off =
      (if \<not> zero256 q \<and> off + 1 < L then tostring256_loop base L q ?out (off + 1)
       else Some (?out, off + 1))"
    using tostring256_loop_step [OF b less.prems(1) lt] by blast
  have off1: "unat (off + 1) = Suc (unat off)" using unat_plus_one [OF lt] by simp
  show ?case
  proof (cases "off + 1 < L")
    case False
    then have "off + 1 = L" using off1 lt by (simp add: word_less_nat_alt word_unat_eq_iff)
    then show ?thesis using q(2) False by simp
  next
    case more: True
    have ge: "?b \<le> val256 n"
      using less.prems(3) more off1 by (cases "val256 n < ?b") (simp_all add: digits_small word_less_nat_alt)
    then have dg: "digits ?b (val256 n) = digits ?b (val256 q) @ [val256 n mod ?b]"
      using b q(1) by (simp add: digits_step)
    have nz: "\<not> zero256 q" using ge b q(1) by (simp add: zero256_iff div_eq_0_iff)
    have "0 < val256 n" using ge b by linarith
    then have "val256 q < val256 n" using q(1) b by (simp add: div_less_dividend)
    from less.hyps [OF this, of ?out "off + 1"] less.prems dg off1 more
    show ?thesis using q(2) nz by (simp add: word_less_nat_alt)
  qed
qed

text \<open>On failure the buffer holds the marker \<open>...\<close> or the empty string, never a prefix
  of the digits.\<close>

lemma tostring256_spec:
  fixes n :: uint256_t and b L :: uint32 and out :: string
  assumes "2 \<le> unat b" and "unat b \<le> 16" and "0 < unat L" and "unat L \<le> length out"
  defines "ds \<equiv> digit_str (unat b) (val256 n)"
  shows "if length ds < unat L
         then tostring256 n b out L = Some (True, ds @ NUL # drop (Suc (length ds)) out)
         else \<exists>out'. tostring256 n b out L = Some (False, out') \<and> length out' = length out
                \<and> c_str out' = (if 3 < unat L then ''...'' else [])"
proof -
  let ?base = "clear256\<lparr>lower256 := \<lparr>upper128 = 0, lower128 = ucast b\<rparr>\<rparr>"
  have base: "val256 ?base = unat b"
    by (simp add: val256_def val128_def clear256_def clear128_def unsigned_ucast_eq
        take_bit_nat_eq_self less_trans [OF unsigned_less])
  have ok: "\<not> (L = 0 \<or> b < 2 \<or> 16 < b)"
    using assms by (auto simp: word_less_nat_alt)
  have len: "length (digits (unat b) (val256 n)) = length ds" by (simp add: ds_def)
  show ?thesis
  proof (cases "length ds < unat L")
    case False
    then obtain out' where "tostring256_loop ?base L n out 0 = Some (out', L)"
      "length out' = length out"
      using tostring256_loop_overflows [of ?base L out 0 n] assms(1-4) base len by auto
    with False ok assms(3,4) show ?thesis
      by (cases out') (auto simp: tostring256_def wr_n_def wr_def c_str_def word_less_nat_alt)
  next
    case True
    then obtain off' where off: "tostring256_loop ?base L n out 0
        = Some (rev ds @ drop (length ds) out, off')" "unat off' = length ds"
      using tostring256_loop_fits [of ?base L out 0 n] assms(1-4) base by (auto simp: ds_def)
    have "off' \<noteq> L" using off True by (auto simp: word_unat_eq_iff)
    moreover have "(rev ds @ drop (length ds) out)[length ds := NUL]
        = rev ds @ NUL # drop (Suc (length ds)) out"
      using True assms(4) by (simp add: list_update_append upd_conv_take_nth_drop)
    ultimately show ?thesis using True off ok assms(4)
      by (simp add: tostring256_def buf_simps reverseString_correct)
  qed
qed

lemma tostring256_signed_spec:
  fixes n :: uint256_t and L :: uint32 and out :: string
  assumes L: "0 < unat L" "unat L \<le> length out"
  defines "t \<equiv> dec_str (signed_val 256 (val256 n))"
  shows "if length t < unat L
         then tostring256_signed n 10 out L = Some (True, t @ NUL # drop (Suc (length t)) out)
         else \<exists>out'. tostring256_signed n 10 out L = Some (False, out') \<and> length out' = length out"
proof -
  let ?two = "clear256\<lparr>lower256 := \<lparr>upper128 = 0, lower128 = 2\<rparr>\<rparr>"
  let ?max = "\<lparr>upper256 = \<lparr>upper128 = - 1, lower128 = - 1\<rparr>,
               lower256 = \<lparr>upper128 = - 1, lower128 = - 1\<rparr>\<rparr> :: uint256_t"
  have two: "val256 ?two = 2" and max: "val256 ?max = 2 ^ 256 - 1"
    by (simp_all add: val256_def val128_def clear256_def clear128_def unsigned_minus_1_eq_mask
        mask_eq_exp_minus_1)
  obtain q m where q: "divmod256 ?max ?two = Some (q, m)" "val256 q = 2 ^ 255 - 1"
    using divmod256_spec [of ?two ?max] two max by auto
  have L0: "L \<noteq> 0" using L by auto
  show ?thesis
  proof (cases "gt256 n q")
    case False
    then have "val256 n < 2 ^ 255" using q(2) by (simp add: gt256_iff)
    then have t: "t = digit_str 10 (val256 n)" by (simp add: t_def signed_val_def dec_str_def)
    have "tostring256_signed n 10 out L = tostring256 n 10 out L"
      using False q L0 by (simp add: tostring256_signed_def)
    then show ?thesis using tostring256_spec [of 10 L out n] L t by (auto split: if_splits)
  next
    case True
    then have big: "2 ^ 255 \<le> val256 n" using q(2) by (simp add: gt256_iff)
    let ?tmp = "add256 (sub256 ?max n) one256"
    have "val256 (sub256 ?max n) = 2 ^ 256 - 1 - val256 n"
      using max val256_less [of n] by (subst val256_sub256_le) simp_all
    then have tmp: "val256 ?tmp = 2 ^ 256 - val256 n"
      using val256_less [of n] big by (simp add: val256_add256)
    have t: "t = CHR ''-'' # digit_str 10 (val256 ?tmp)"
      using big val256_less [of n] tmp by (simp add: t_def signed_val_def dec_str_def nat_diff_distrib)
    show ?thesis
    proof (cases "L < 2")
      case True
      then have "\<not> length t < unat L" using t by (simp add: word_less_nat_alt)
      moreover have "tostring256_signed n 10 out L = Some (False, out[0 := NUL])"
        using \<open>gt256 n q\<close> q L0 L True by (cases out) (simp_all add: tostring256_signed_def wr_def)
      ultimately show ?thesis by simp
    next
      case False
      then have L1: "unat (L - 1) = unat L - 1" "0 < unat (L - 1)"
        by (simp_all add: word_less_nat_alt unat_sub word_le_nat_alt)
      obtain x xs where out: "out = x # xs" using L by (cases out) auto
      then have xs: "unat (L - 1) \<le> length xs" using L1 L by simp
      have "tostring256_signed n 10 out L = map_option (\<lambda>(ok, r). (ok, CHR ''-'' # r))
          (tostring256 ?tmp 10 xs (L - 1))"
        using \<open>gt256 n q\<close> q L0 L False out
        by (cases "tostring256 ?tmp 10 xs (L - 1)")
          (auto simp: tostring256_signed_def wr_def)
      moreover have "if length (digit_str 10 (val256 ?tmp)) < unat (L - 1)
         then tostring256 ?tmp 10 xs (L - 1) = Some (True, digit_str 10 (val256 ?tmp) @ NUL
                # drop (Suc (length (digit_str 10 (val256 ?tmp)))) xs)
         else \<exists>out'. tostring256 ?tmp 10 xs (L - 1) = Some (False, out') \<and> length out' = length xs"
        using tostring256_spec [of 10 "L - 1" xs ?tmp] L1 xs by (auto split: if_splits)
      ultimately show ?thesis using L1 t out
        by (cases "length t < unat L") (auto split: if_splits)
    qed
  qed
qed

section \<open>Reading and multiplying\<close>

lemma readu256BE_spec:
  assumes "32 \<le> length bs"
  shows "\<exists>n. readu256BE bs = Some n \<and> val256 n = be_val (take 32 bs)"
proof -
  have "take 32 bs = take 16 bs @ take 16 (drop 16 bs)"
    by (metis numeral_Bit0 take_add)
  then have "be_val (take 32 bs) = be_val (take 16 bs) * 2 ^ 128 + be_val (take 16 (drop 16 bs))"
    using assms by (simp add: be_val_append)
  moreover obtain u l where "readu128BE bs = Some u" "val128 u = be_val (take 16 bs)"
    "readu128BE (drop 16 bs) = Some l" "val128 l = be_val (take 16 (drop 16 bs))"
    using readu128BE_spec [of bs] readu128BE_spec [of "drop 16 bs"] assms
    by (metis add_leE le_diff_conv2 length_drop numeral_Bit0)
  ultimately show ?thesis by (simp add: readu256BE_def val256_def)
qed

lemma convertUint256BE_spec:
  assumes "0 < len" and "len \<le> 32" and "unat len \<le> length d"
  shows "\<exists>n. convertUint256BE (Some d) len target = Some (True, n)
            \<and> val256 n = be_val (take (unat len) d)"
proof -
  let ?bs = "replicate (32 - unat len) 0 @ take (unat len) d"
  have l: "unat len \<le> 32" using assms(2) by (simp add: word_le_nat_alt)
  then obtain n where "readu256BE ?bs = Some n" "val256 n = be_val (take 32 ?bs)"
    using readu256BE_spec [of ?bs] assms by auto
  moreover have "take 32 ?bs = ?bs" using l assms by simp
  ultimately show ?thesis using assms l
    by (auto simp: convertUint256BE_def buf_simps word_less_nat_alt)
qed

lemma be_val_limbs256: "be_val (concat (map write_u64_be (limbs256 n))) = val256 n"
  by (simp add: limbs256_def be_val_append val_simps val256_def val128_def)

lemma length_limbs256 [simp]: "length (concat (map write_u64_be (limbs256 n))) = 32"
  by (simp add: limbs256_def)

text \<open>The four reads of the low half of the product.\<close>

lemma be_val_four_limbs:
  assumes "length r = 32"
  shows "be_val r = ((be_val (take 8 r) * 2 ^ 64 + be_val (take 8 (drop 8 r))) * 2 ^ 64
            + be_val (take 8 (drop 16 r))) * 2 ^ 64 + be_val (take 8 (drop 24 r))"
proof -
  have "r = ((take 8 r @ take 8 (drop 8 r)) @ take 8 (drop 16 r)) @ take 8 (drop 24 r)"
    using assms append_take_drop_id [of 8 r] append_take_drop_id [of 8 "drop 8 r"]
      append_take_drop_id [of 8 "drop 16 r"] by simp
  then have "be_val r
      = be_val (((take 8 r @ take 8 (drop 8 r)) @ take 8 (drop 16 r)) @ take 8 (drop 24 r))"
    by (rule arg_cong)
  then show ?thesis using assms by (simp only: be_val_append) simp
qed

lemma mul256_spec:
  fixes a b :: uint256_t
  assumes c: "mult_contract cx"
  defines "num n \<equiv> concat (map write_u64_be (limbs256 n))"
  shows "case cx (num a) (num b) of
           None \<Rightarrow> mul256 cx a b = Some None
         | Some r \<Rightarrow> (if val256 a * val256 b < 2 ^ 256
                     then \<exists>p. mul256 cx a b = Some (Some p) \<and> val256 p = val256 a * val256 b
                     else mul256 cx a b = Some None)"
proof (cases "cx (num a) (num b)")
  case None
  then show ?thesis by (simp add: mul256_def num_def)
next
  case (Some r)
  have num: "be_val (num n) = val256 n" "length (num n) = 32" for n
    by (simp_all add: num_def be_val_limbs256 del: length_concat)
  have r: "length r = 64" "be_val r = val256 a * val256 b"
    using mult_contractD [OF c Some num(2) num(2)] num(1) by simp_all
  have split: "be_val r = be_val (take 32 r) * 2 ^ 256 + be_val (drop 32 r)"
    using be_val_append [of "take 32 r" "drop 32 r"] r by simp
  have low: "be_val (drop 32 r) < 2 ^ 256" using be_val_less [of "drop 32 r"] r by simp
  have z: "is_zeroes_buffer (take 32 r) \<longleftrightarrow> val256 a * val256 b < 2 ^ 256"
    using split low r by (auto simp: be_val_eq_0_iff [symmetric])
  have four: "be_val (drop 32 r) = ((be_val (take 8 (drop 32 r)) * 2 ^ 64
      + be_val (take 8 (drop 40 r))) * 2 ^ 64 + be_val (take 8 (drop 48 r))) * 2 ^ 64
      + be_val (take 8 (drop 56 r))"
    using be_val_four_limbs [of "drop 32 r"] r by simp
  show ?thesis
  proof (cases "val256 a * val256 b < 2 ^ 256")
    case False
    then show ?thesis using Some z by (simp add: mul256_def num_def)
  next
    case True
    then have "be_val (drop 32 r) = val256 a * val256 b"
      using z split r by (simp add: be_val_eq_0_iff)
    then show ?thesis using Some z True r four
      by (simp add: mul256_def num_def read_u64_be_Some val256_def val128_def unat_word_of_be_val)
  qed
qed

end
