(* ===== verification/Rlp.thy ===== *)
theory Rlp
  imports Prelude
begin

text \<open>
  Model of \<open>src/features/sign_tx/rlp_utils.c\<close> (decoding of RLP item headers, on which the
  streaming transaction parser rests) and of
  \<open>src/features/sign_authorization_eip7702/rlp_encode.c\<close> (the encoder used for EIP-7702
  authorizations), with the RLP encoding itself as their common specification.
\<close>

section \<open>The encoding, as specified\<close>

text \<open>The shortest big-endian representation of a number; zero has none.\<close>

fun be_min :: "nat \<Rightarrow> bytes" where
  "be_min n = (if n = 0 then [] else be_min (n div 256) @ [word_of_nat n])"

declare be_min.simps [simp del]

text \<open>The header of a string or list of \<open>n\<close> payload bytes.\<close>

definition rlp_header :: "bool \<Rightarrow> nat \<Rightarrow> bytes" where
  "rlp_header is_list n =
     (let base = (if is_list then 0xc0 else 0x80)
      in if n \<le> 55 then [word_of_nat (base + n)]
         else word_of_nat (base + 55 + length (be_min n)) # be_min n)"

definition rlp_string :: "bytes \<Rightarrow> bytes" where
  "rlp_string bs =
     (case bs of
        [b] \<Rightarrow> if unat b \<le> 0x7f then [b] else rlp_header False 1 @ bs
      | _ \<Rightarrow> rlp_header False (length bs) @ bs)"

definition rlp_number :: "nat \<Rightarrow> bytes" where
  "rlp_number n = rlp_string (be_min n)"

definition rlp_list :: "bytes list \<Rightarrow> bytes" where
  "rlp_list items = rlp_header True (length (concat items)) @ concat items"

section \<open>Decoding of item headers\<close>

text \<open>\<open>buffer\<close> and \<open>valid\<close> are \<open>None\<close> for a null pointer; the result is C's return
  value and the pointed-to flag after the call.\<close>

definition rlp_can_decode ::
  "bytes option \<Rightarrow> uint32 \<Rightarrow> bool option \<Rightarrow> (bool \<times> bool option) option" where
  "rlp_can_decode buffer bufferLength valid =
     (case (buffer, valid) of
        (Some buf, Some v) \<Rightarrow>
          if bufferLength = 0 then Some (False, valid)
          else do {
            b \<leftarrow> rd buf 0;
            if b \<le> 0x7f then Some (True, Some True)
            else if b \<le> 0xb7 then Some (True, Some True)
            else if b \<le> 0xbf then
              (if bufferLength < 1 + (ucast b - 0xb7) then Some (False, valid)
               else if 0xbb < b then Some (True, Some False)
               else Some (True, Some True))
            else if b \<le> 0xf7 then Some (True, Some True)
            else
              (if bufferLength < 1 + (ucast b - 0xf7) then Some (False, valid)
               else if 0xfb < b then Some (True, Some False)
               else Some (True, Some True)) }
      | _ \<Rightarrow> Some (False, valid))"

record rlp_field =
  fieldLength :: uint32
  fieldOffset :: uint32
  fieldIsList :: bool

text \<open>The \<open>switch\<close> on the length-of-length, shared by strings and lists: \<open>n\<close> is the
  number of length bytes.\<close>

definition rlp_long_length :: "bytes \<Rightarrow> nat \<Rightarrow> (uint32 option) option" where
  "rlp_long_length buf n =
     (if n = 1 then do { a \<leftarrow> rd buf 1; Some (Some (ucast a)) }
      else if n = 2 then do { a \<leftarrow> rd buf 1; b \<leftarrow> rd buf 2;
        Some (Some (push_bit 8 (ucast a) + ucast b)) }
      else if n = 3 then do { a \<leftarrow> rd buf 1; b \<leftarrow> rd buf 2; c \<leftarrow> rd buf 3;
        Some (Some (push_bit 16 (ucast a) + push_bit 8 (ucast b) + ucast c)) }
      else if n = 4 then do { a \<leftarrow> rd buf 1; b \<leftarrow> rd buf 2; c \<leftarrow> rd buf 3; d \<leftarrow> rd buf 4;
        Some (Some (push_bit 24 (ucast a) OR push_bit 16 (ucast b) OR push_bit 8 (ucast c) OR ucast d)) }
      else Some None)"

definition rlp_decode_length :: "bytes \<Rightarrow> uint32 \<Rightarrow> rlp_field \<Rightarrow> (bool \<times> rlp_field) option" where
  "rlp_decode_length buf bufferLength f =
     (if bufferLength = 0 then Some (False, f)
      else do {
        b \<leftarrow> rd buf 0;
        if b \<le> 0x7f then
          Some (True, f\<lparr>fieldOffset := 0, fieldLength := 1, fieldIsList := False\<rparr>)
        else if b \<le> 0xb7 then
          Some (True, f\<lparr>fieldOffset := 1, fieldLength := ucast b - 0x80, fieldIsList := False\<rparr>)
        else if b \<le> 0xbf then
          (let f1 = f\<lparr>fieldOffset := 1 + (ucast b - 0xb7)\<rparr>
           in if bufferLength < fieldOffset f1 then Some (False, f1)
              else
                (let f2 = f1\<lparr>fieldIsList := False\<rparr>
                 in do {
                   len \<leftarrow> rlp_long_length buf (unat b - 0xb7);
                   case len of None \<Rightarrow> Some (False, f2)
                             | Some n \<Rightarrow> Some (True, f2\<lparr>fieldLength := n\<rparr>) }))
        else if b \<le> 0xf7 then
          Some (True, f\<lparr>fieldOffset := 1, fieldLength := ucast b - 0xc0, fieldIsList := True\<rparr>)
        else
          (let f1 = f\<lparr>fieldOffset := 1 + (ucast b - 0xf7)\<rparr>
           in if bufferLength < fieldOffset f1 then Some (False, f1)
              else
                (let f2 = f1\<lparr>fieldIsList := True\<rparr>
                 in do {
                   len \<leftarrow> rlp_long_length buf (unat b - 0xf7);
                   case len of None \<Rightarrow> Some (False, f2)
                             | Some n \<Rightarrow> Some (True, f2\<lparr>fieldLength := n\<rparr>) })) })"

section \<open>The encoder of EIP-7702 authorizations\<close>

text \<open>The result is the returned size and the output buffer.\<close>

definition rlpEncodeNumber :: "bytes \<Rightarrow> uint8 \<Rightarrow> bytes \<Rightarrow> nat \<Rightarrow> (uint8 \<times> bytes) option" where
  "rlpEncodeNumber number numberLength output output_size =
     (if output_size < unat numberLength + 2 then Some (0, output)
      else if numberLength = 1 then do {
        b \<leftarrow> rd number 0;
        if b = 0 then do { out \<leftarrow> wr output 0 0x80; Some (1, out) }
        else if b \<le> 0x7f then do { out \<leftarrow> wr output 0 b; Some (1, out) }
        else do { out \<leftarrow> wr output 0 (0x80 + 1); out' \<leftarrow> wr out 1 b; Some (2, out') } }
      else do {
        out \<leftarrow> wr output 0 (0x80 + numberLength);
        bs \<leftarrow> rd_n number 0 (unat numberLength);
        out' \<leftarrow> wr_n out 1 bs;
        Some (numberLength + 1, out') })"

definition rlpGetEncodedNumberLength :: "bytes \<Rightarrow> uint8 \<Rightarrow> uint8 option" where
  "rlpGetEncodedNumberLength number numberLength =
     (if numberLength = 1 then do {
        b \<leftarrow> rd number 0;
        if b \<le> 0x7f then Some 1 else Some (numberLength + 1) }
      else Some (numberLength + 1))"

text \<open>\<open>while (number) { number >>= 8; if (number == 0) return size; size++; } return 0;\<close>\<close>

function smallest64_loop :: "uint64 \<Rightarrow> uint8 \<Rightarrow> uint8" where
  "smallest64_loop number sz =
     (if number \<noteq> 0 then
        (if drop_bit 8 number = 0 then sz else smallest64_loop (drop_bit 8 number) (sz + 1))
      else 0)"
  by pat_completeness auto
termination
proof (relation "measure (\<lambda>(number, sz). unat number)")
  fix number :: uint64 and sz :: uint8
  assume "number \<noteq> 0"
  then have "0 < unat number" by (simp add: unat_gt_0)
  then show "((drop_bit 8 number, sz + 1), number, sz) \<in> measure (\<lambda>(number, sz). unat number)"
    by (simp only: in_measure prod.case unat_drop_bit) simp
qed simp

declare smallest64_loop.simps [simp del]

definition rlpGetSmallestNumber64EncodingSize :: "uint64 \<Rightarrow> uint8" where
  "rlpGetSmallestNumber64EncodingSize number = smallest64_loop number 1"

definition rlpGetEncodedNumber64Length :: "uint64 \<Rightarrow> uint8" where
  "rlpGetEncodedNumber64Length number =
     (let sz = rlpGetSmallestNumber64EncodingSize number
      in if sz = 1 \<and> number \<le> 0x7f then 1 else sz + 1)"

definition rlpEncodeListHeader8 :: "uint8 \<Rightarrow> bytes \<Rightarrow> nat \<Rightarrow> (uint8 \<times> bytes) option" where
  "rlpEncodeListHeader8 sz output output_size =
     (if output_size < 2 then Some (0, output)
      else if sz \<le> 55 then do { out \<leftarrow> wr output 0 (0xc0 + sz); Some (1, out) }
      else do {
        out \<leftarrow> wr output 0 (0xc0 + 55 + 1);
        out' \<leftarrow> wr out 1 sz;
        Some (2, out') })"

section \<open>Shortest big-endian representation\<close>

lemma be_min_0 [simp]: "be_min 0 = []"
  by (simp add: be_min.simps)

lemma be_min_step: "0 < n \<Longrightarrow> be_min n = be_min (n div 256) @ [word_of_nat n]"
  by (subst be_min.simps) simp

lemma be_min_eq_Nil_iff [simp]: "be_min n = [] \<longleftrightarrow> n = 0"
  using be_min_step [of n] by (cases "n = 0") simp_all

lemma be_val_be_min: "be_val (be_min n) = n"
proof (induction n rule: be_min.induct)
  case (1 n)
  then show ?case
    using be_min_step [of n] by (cases "n = 0") (auto simp: be_val_append unat_of_nat)
qed

lemma be_min_no_leading_zero: "0 < n \<Longrightarrow> hd (be_min n) \<noteq> 0"
proof (induction n rule: be_min.induct)
  case (1 n)
  show ?case
  proof (cases "n < 256")
    case True
    then have "be_min n = [word_of_nat n]" using be_min_step [OF "1.prems"] by simp
    moreover have "(word_of_nat n :: uint8) \<noteq> 0"
      using True "1.prems" by (simp add: word_unat_eq_iff unat_of_nat)
    ultimately show ?thesis by simp
  next
    case False
    then have "0 < n div 256" by (simp add: div_greater_zero_iff)
    then have "hd (be_min (n div 256)) \<noteq> 0" using "1" by simp
    with \<open>0 < n div 256\<close> show ?thesis
      using be_min_step [OF "1.prems"] by (simp add: hd_append)
  qed
qed

lemma length_be_min_le: "n < 256 ^ k \<Longrightarrow> length (be_min n) \<le> k"
proof (induction k arbitrary: n)
  case 0
  then show ?case by simp
next
  case (Suc k)
  then have "length (be_min (n div 256)) \<le> k" by (simp add: less_mult_imp_div_less mult.commute)
  then show ?case using be_min_step [of n] by (cases "n = 0") auto
qed

lemma be_min_be_bytes: "n < 256 ^ k \<Longrightarrow> be_min n = drop (k - length (be_min n)) (be_bytes k n)"
proof (induction k arbitrary: n)
  case 0
  then show ?case by simp
next
  case (Suc k)
  have lt: "n div 256 < 256 ^ k" using Suc.prems by (simp add: less_mult_imp_div_less mult.commute)
  show ?case
  proof (cases "n = 0")
    case True
    then show ?thesis by simp
  next
    case False
    then have step: "be_min n = be_min (n div 256) @ [word_of_nat n]" by (simp add: be_min_step)
    then have "length (be_min n) = Suc (length (be_min (n div 256)))" by simp
    then have "drop (Suc k - length (be_min n)) (be_bytes (Suc k) n)
        = drop (k - length (be_min (n div 256))) (be_bytes k (n div 256)) @ [word_of_nat n]"
      by simp
    also have "\<dots> = be_min n"
      using Suc.IH [OF lt] step by simp
    finally show ?thesis by simp
  qed
qed

section \<open>Correctness of the decoder\<close>

text \<open>The number of length bytes that the first byte of an item announces.\<close>

definition rlp_len_len :: "uint8 \<Rightarrow> nat" where
  "rlp_len_len b = (if 0xb7 < b \<and> b \<le> 0xbf then unat b - 0xb7
                    else if 0xf7 < b then unat b - 0xf7 else 0)"

definition rlp_first_is_list :: "uint8 \<Rightarrow> bool" where
  "rlp_first_is_list b \<longleftrightarrow> 0xc0 \<le> b"

text \<open>The payload length of the item whose encoding starts the buffer.\<close>

definition rlp_payload_length :: "bytes \<Rightarrow> nat" where
  "rlp_payload_length buf =
     (let b = hd buf
      in if b \<le> 0x7f then 1
         else if b \<le> 0xb7 then unat b - 0x80
         else if 0xc0 \<le> b \<and> b \<le> 0xf7 then unat b - 0xc0
         else be_val (take (rlp_len_len b) (tl buf)))"

lemma unat_ucast_8_32 [simp]: "unat (ucast (b :: uint8) :: uint32) = unat b"
proof -
  have "unat b < 2 ^ 32" using unat_word8_lt [of b] by (rule less_trans) simp
  then show ?thesis by (simp add: unsigned_ucast_eq take_bit_nat_eq_self_iff)
qed

lemma word_of_nat_unat_8_32: "word_of_nat (unat (b :: uint8)) = (ucast b :: uint32)"
  by (simp add: word_unat_eq_iff unat_of_nat)

lemma or4_eq_plus:
  fixes a b c d :: uint8
  shows "(push_bit 24 (ucast a) OR push_bit 16 (ucast b) OR push_bit 8 (ucast c) OR ucast d :: uint32)
       = push_bit 24 (ucast a) + (push_bit 16 (ucast b) + (push_bit 8 (ucast c) + ucast d))"
proof -
  have d1: "(push_bit 8 (ucast c) AND ucast d :: uint32) = 0"
    by (rule bit_word_eqI) (auto simp: bit_simps dest: bit_imp_le_length)
  have d2: "(push_bit 16 (ucast b) AND (push_bit 8 (ucast c) OR ucast d) :: uint32) = 0"
    by (rule bit_word_eqI) (auto simp: bit_simps dest: bit_imp_le_length)
  have d3: "(push_bit 24 (ucast a) AND (push_bit 16 (ucast b) OR push_bit 8 (ucast c) OR ucast d) :: uint32) = 0"
    by (rule bit_word_eqI) (auto simp: bit_simps dest: bit_imp_le_length)
  show ?thesis
    using d1 d2 d3 by (simp add: disjunctive_add_eq_or)
qed

lemma rlp_long_length_correct:
  assumes "0 < n" "n \<le> 4" "n < length buf"
  shows "rlp_long_length buf n = Some (Some (word_of_nat (be_val (take n (tl buf)))))"
proof -
  obtain h t where buf: "buf = h # t" using assms by (cases buf) auto
  consider "n = 1" | "n = 2" | "n = 3" | "n = 4" using assms by linarith
  then show ?thesis
  proof cases
    case 1
    with assms buf obtain a t1 where "t = a # t1" by (cases t) auto
    then show ?thesis using 1 buf
      by (simp add: rlp_long_length_def rd_def word_of_nat_unat_8_32)
  next
    case 2
    with assms buf obtain a b t1 where "t = a # b # t1"
      by (auto simp: Suc_less_eq2 length_Suc_conv numeral_2_eq_2 dest!: less_imp_Suc_add)
    then show ?thesis using 2 buf
      by (simp add: rlp_long_length_def rd_def be_val_Cons word_of_nat_unat_8_32 push_bit_eq_mult
          numeral_2_eq_2)
  next
    case 3
    with assms buf obtain a b c t1 where "t = a # b # c # t1"
      by (auto simp: Suc_less_eq2 length_Suc_conv numeral_3_eq_3 dest!: less_imp_Suc_add)
    then show ?thesis using 3 buf
      by (simp add: rlp_long_length_def rd_def be_val_Cons word_of_nat_unat_8_32 push_bit_eq_mult
          numeral_3_eq_3 numeral_2_eq_2)
  next
    case 4
    with assms buf obtain a b c d t1 where "t = a # b # c # d # t1"
      by (auto simp: Suc_less_eq2 length_Suc_conv eval_nat_numeral dest!: less_imp_Suc_add)
    then show ?thesis using 4 buf or4_eq_plus [of a b c d]
      by (simp add: rlp_long_length_def rd_def be_val_Cons word_of_nat_unat_8_32 push_bit_eq_mult)
  qed
qed

lemma rlp_len_len_le: "rlp_len_len b \<le> 8"
  using unat_word8_lt [of b]
  by (auto simp: rlp_len_len_def word_less_nat_alt word_le_nat_alt simp del: unat_word8_lt)

lemma rlp_first_byte_cases:
  fixes b :: uint8
  obtains (single) "unat b \<le> 0x7f"
  | (short_string) "0x7f < unat b" "unat b \<le> 0xb7"
  | (long_string) "0xb7 < unat b" "unat b \<le> 0xbf"
  | (short_list) "0xbf < unat b" "unat b \<le> 0xf7"
  | (long_list) "0xf7 < unat b"
  by linarith

lemmas nat_cmp = word_less_nat_alt word_le_nat_alt

lemma rlp_off_string:
  "0xb7 < b \<Longrightarrow> b \<le> 0xbf \<Longrightarrow> (1 + (ucast b - 0xb7) :: uint32) = word_of_nat (1 + rlp_len_len b)"
  by (simp add: rlp_len_len_def word_less_nat_alt word_le_nat_alt of_nat_diff word_of_nat_unat_8_32)

lemma rlp_off_list:
  "0xf7 < b \<Longrightarrow> (1 + (ucast b - 0xf7) :: uint32) = word_of_nat (1 + rlp_len_len b)"
  by (simp add: rlp_len_len_def word_less_nat_alt word_le_nat_alt of_nat_diff word_of_nat_unat_8_32)

lemma unat_rlp_off: "unat (word_of_nat (1 + rlp_len_len b) :: uint32) = 1 + rlp_len_len b"
  using rlp_len_len_le [of b] by (simp only: unat_of_nat) simp

text \<open>What \<open>rlp_can_decode\<close> answers: whether the header is complete, and whether its
  length fits the 32 bits the application supports.\<close>

lemma rlp_can_decode_correct:
  assumes "0 < unat len" "unat len \<le> length buf"
  shows "rlp_can_decode (Some buf) len (Some v) =
     (if rlp_len_len (hd buf) < unat len
      then Some (True, Some (rlp_len_len (hd buf) \<le> 4)) else Some (False, Some v))"
proof -
  obtain b t where buf: "buf = b # t" using assms by (cases buf) auto
  have nz: "len \<noteq> 0" using assms by auto
  show ?thesis
  proof (cases b rule: rlp_first_byte_cases)
    case long_string
    then have "unat (1 + (ucast b - 0xb7) :: uint32) = 1 + rlp_len_len b"
      using unat_rlp_off [of b] by (simp add: rlp_off_string nat_cmp)
    then show ?thesis using nz buf long_string
      by (simp add: rlp_can_decode_def rd_def rlp_len_len_def nat_cmp not_less) linarith
  next
    case long_list
    then have "unat (1 + (ucast b - 0xf7) :: uint32) = 1 + rlp_len_len b"
      using unat_rlp_off [of b] by (simp add: rlp_off_list nat_cmp)
    then show ?thesis using nz buf long_list
      by (simp add: rlp_can_decode_def rd_def rlp_len_len_def nat_cmp not_less) linarith
  qed (use nz buf assms in \<open>simp_all add: rlp_can_decode_def rd_def rlp_len_len_def nat_cmp\<close>)
qed

text \<open>And of \<open>rlp_decode_length\<close>.\<close>

lemma rlp_decode_length_correct:
  assumes "unat len \<le> length buf" "rlp_len_len (hd buf) < unat len" "rlp_len_len (hd buf) \<le> 4"
  shows "rlp_decode_length buf len f = Some (True, f\<lparr>
           fieldLength := word_of_nat (rlp_payload_length buf),
           fieldOffset := word_of_nat (if hd buf \<le> 0x7f then 0 else 1 + rlp_len_len (hd buf)),
           fieldIsList := rlp_first_is_list (hd buf)\<rparr>)"
proof -
  obtain b t where buf: "buf = b # t" using assms by (cases buf) auto
  have nz: "len \<noteq> 0" using assms by auto
  have lt: "rlp_len_len b < length buf" using assms buf by simp
  show ?thesis
  proof (cases b rule: rlp_first_byte_cases)
    case long_string
    then have n: "rlp_len_len b = unat b - 0xb7" by (simp add: rlp_len_len_def nat_cmp)
    then have ll: "rlp_long_length buf (unat b - 0xb7) =
        Some (Some (word_of_nat (be_val (take (rlp_len_len b) t))))"
      using rlp_long_length_correct [of "unat b - 0xb7" buf] assms buf lt long_string by simp
    have off: "(1 + (ucast b - 0xb7) :: uint32) = word_of_nat (1 + rlp_len_len b)"
      using long_string by (simp add: rlp_off_string nat_cmp)
    have "\<not> len < (word_of_nat (1 + rlp_len_len b) :: uint32)"
      unfolding word_less_nat_alt unat_rlp_off using assms buf by simp
    then show ?thesis using nz buf long_string ll off
      by (simp add: rlp_decode_length_def rd_def rlp_payload_length_def rlp_first_is_list_def nat_cmp)
  next
    case long_list
    then have n: "rlp_len_len b = unat b - 0xf7" by (simp add: rlp_len_len_def nat_cmp)
    then have ll: "rlp_long_length buf (unat b - 0xf7) =
        Some (Some (word_of_nat (be_val (take (rlp_len_len b) t))))"
      using rlp_long_length_correct [of "unat b - 0xf7" buf] assms buf lt long_list by simp
    have off: "(1 + (ucast b - 0xf7) :: uint32) = word_of_nat (1 + rlp_len_len b)"
      using long_list by (simp add: rlp_off_list nat_cmp)
    have "\<not> len < (word_of_nat (1 + rlp_len_len b) :: uint32)"
      unfolding word_less_nat_alt unat_rlp_off using assms buf by simp
    then show ?thesis using nz buf long_list ll off
      by (simp add: rlp_decode_length_def rd_def rlp_payload_length_def rlp_first_is_list_def nat_cmp)
  qed (use nz buf in \<open>simp_all add: rlp_decode_length_def rd_def rlp_payload_length_def
        rlp_first_is_list_def rlp_len_len_def nat_cmp of_nat_diff word_of_nat_unat_8_32\<close>)
qed

section \<open>Round trips with the encoding\<close>

lemma unat_word8_of_nat: "n < 256 \<Longrightarrow> unat (word_of_nat n :: uint8) = n"
  by (simp add: unat_of_nat)

lemma length_be_min_32: "n < 2 ^ 32 \<Longrightarrow> length (be_min n) \<le> 4"
  by (rule length_be_min_le) simp

lemma length_be_min_pos: "0 < n \<Longrightarrow> 0 < length (be_min n)"
  by simp

lemma length_rlp_header: "n < 2 ^ 32 \<Longrightarrow> length (rlp_header is_list n) \<le> 5"
  using length_be_min_32 [of n] by (simp add: rlp_header_def Let_def)

lemma rlp_header_first_byte:
  assumes "n < 2 ^ 32"
  shows "unat (hd (rlp_header is_list n)) =
     (if is_list then 0xc0 else 0x80) + (if n \<le> 55 then n else 55 + length (be_min n))"
proof (cases "n \<le> 55")
  case True
  then show ?thesis
    using unat_word8_of_nat [of "0xc0 + n"] unat_word8_of_nat [of "0x80 + n"]
    by (simp add: rlp_header_def Let_def)
next
  case False
  then show ?thesis
    using length_be_min_32 [OF assms] unat_word8_of_nat [of "247 + length (be_min n)"]
      unat_word8_of_nat [of "183 + length (be_min n)"]
    by (simp add: rlp_header_def Let_def)
qed

lemma rlp_len_len_header:
  assumes "n < 2 ^ 32"
  shows "rlp_len_len (hd (rlp_header is_list n)) = (if n \<le> 55 then 0 else length (be_min n))"
proof (cases "n \<le> 55")
  case True
  then show ?thesis using rlp_header_first_byte [OF assms, of is_list]
    by (cases is_list) (simp_all add: rlp_len_len_def nat_cmp)
next
  case False
  then show ?thesis
    using rlp_header_first_byte [OF assms, of is_list] length_be_min_32 [OF assms]
      length_be_min_pos [of n]
    by (cases is_list) (simp_all add: rlp_len_len_def nat_cmp)
qed

lemma length_rlp_header_len_len:
  "n < 2 ^ 32 \<Longrightarrow> length (rlp_header is_list n) = 1 + rlp_len_len (hd (rlp_header is_list n))"
  by (simp add: rlp_len_len_header) (simp add: rlp_header_def Let_def)

text \<open>The header of an item is decoded to the length and the kind it was built from.\<close>

lemma rlp_header_decode:
  assumes n: "n < 2 ^ 32" and len: "length (rlp_header is_list n) \<le> unat len" "unat len \<le> length (rlp_header is_list n @ rest)"
  shows "rlp_decode_length (rlp_header is_list n @ rest) len f = Some (True, f\<lparr>
           fieldLength := word_of_nat n,
           fieldOffset := word_of_nat (length (rlp_header is_list n)),
           fieldIsList := is_list\<rparr>)"
proof -
  let ?h = "rlp_header is_list n"
  have ne: "?h \<noteq> []" by (simp add: rlp_header_def Let_def)
  then have hd: "hd (?h @ rest) = hd ?h" by simp
  have L: "0 < n \<Longrightarrow> 0 < length (be_min n)" "length (be_min n) \<le> 4"
    using length_be_min_32 [OF n] by auto
  have ll: "rlp_len_len (hd ?h) = (if n \<le> 55 then 0 else length (be_min n))"
    by (rule rlp_len_len_header [OF n])
  have lh: "length ?h = 1 + rlp_len_len (hd ?h)"
    by (rule length_rlp_header_len_len [OF n])
  have ge: "\<not> hd ?h \<le> 0x7f"
    using rlp_header_first_byte [OF n, of is_list] by (simp add: nat_cmp)
  have lst: "rlp_first_is_list (hd ?h) = is_list"
    using L rlp_header_first_byte [OF n, of is_list] by (auto simp: rlp_first_is_list_def nat_cmp)
  have pl: "rlp_payload_length (?h @ rest) = n"
  proof (cases "n \<le> 55")
    case True
    then show ?thesis using rlp_header_first_byte [OF n, of is_list]
      by (auto simp: rlp_payload_length_def hd Let_def nat_cmp)
  next
    case False
    then have "tl (?h @ rest) = be_min n @ rest" by (simp add: rlp_header_def Let_def)
    then have "be_val (take (rlp_len_len (hd ?h)) (tl (?h @ rest))) = n"
      using False ll by (simp add: be_val_be_min)
    then show ?thesis using False L rlp_header_first_byte [OF n, of is_list]
      by (auto simp: rlp_payload_length_def hd Let_def nat_cmp)
  qed
  have "rlp_decode_length (?h @ rest) len f = Some (True, f\<lparr>
           fieldLength := word_of_nat (rlp_payload_length (?h @ rest)),
           fieldOffset := word_of_nat (if hd (?h @ rest) \<le> 0x7f then 0 else 1 + rlp_len_len (hd (?h @ rest))),
           fieldIsList := rlp_first_is_list (hd (?h @ rest))\<rparr>)"
    by (rule rlp_decode_length_correct) (use len lh ll L hd in \<open>auto split: if_splits\<close>)
  then show ?thesis by (simp only: hd pl lst ge if_False lh)
qed

lemma rlp_can_decode_header:
  assumes n: "n < 2 ^ 32" and len: "length (rlp_header is_list n) \<le> unat len" "unat len \<le> length (rlp_header is_list n @ rest)"
  shows "rlp_can_decode (Some (rlp_header is_list n @ rest)) len (Some v) = Some (True, Some True)"
proof -
  let ?h = "rlp_header is_list n"
  have ne: "?h \<noteq> []" by (simp add: rlp_header_def Let_def)
  then have hd: "hd (?h @ rest) = hd ?h" by simp
  have L: "0 < n \<Longrightarrow> 0 < length (be_min n)" "length (be_min n) \<le> 4"
    using length_be_min_32 [OF n] by auto
  have ll: "rlp_len_len (hd ?h) = (if n \<le> 55 then 0 else length (be_min n))"
    by (rule rlp_len_len_header [OF n])
  have "length ?h = 1 + rlp_len_len (hd ?h)"
    by (rule length_rlp_header_len_len [OF n])
  then show ?thesis
    using rlp_can_decode_correct [of len "?h @ rest" v] len ll L hd by auto
qed

text \<open>A string item: offset and length cut exactly the string out of its encoding.\<close>

lemma rlp_string_decode:
  assumes "length bs < 2 ^ 32" "length (rlp_string bs) \<le> unat len" "unat len \<le> length (rlp_string bs @ rest)"
  obtains f' where "rlp_decode_length (rlp_string bs @ rest) len f = Some (True, f')"
    "\<not> fieldIsList f'" "unat (fieldLength f') = length bs"
    "unat (fieldOffset f') + length bs = length (rlp_string bs)"
    "take (unat (fieldLength f')) (drop (unat (fieldOffset f')) (rlp_string bs @ rest)) = bs"
proof (cases "\<exists>b. bs = [b] \<and> unat b \<le> 0x7f")
  case True
  then obtain b where b: "bs = [b]" "unat b \<le> 0x7f" by auto
  then have rs: "rlp_string bs = [b]" by (simp add: rlp_string_def)
  have "len \<noteq> 0" using assms rs by auto
  then have "rlp_decode_length (rlp_string bs @ rest) len f =
      Some (True, f\<lparr>fieldOffset := 0, fieldLength := 1, fieldIsList := False\<rparr>)"
    using b rs by (simp add: rlp_decode_length_def rd_def nat_cmp)
  then show ?thesis using that b rs by simp
next
  case False
  then have rs: "rlp_string bs = rlp_header False (length bs) @ bs"
    by (auto simp: rlp_string_def split: list.splits)
  let ?h = "rlp_header False (length bs)"
  have o: "unat (word_of_nat (length ?h) :: uint32) = length ?h"
    using length_rlp_header [OF assms(1), of False] by (simp add: unat_of_nat)
  have l: "unat (word_of_nat (length bs) :: uint32) = length bs"
    using assms(1) by (simp add: unat_of_nat)
  have "rlp_decode_length (?h @ (bs @ rest)) len f = Some (True, f\<lparr>
           fieldLength := word_of_nat (length bs),
           fieldOffset := word_of_nat (length ?h), fieldIsList := False\<rparr>)"
    by (rule rlp_header_decode) (use assms rs in auto)
  then show ?thesis using that rs o l by simp
qed

section \<open>Correctness of the encoder\<close>

lemma smallest64_loop_correct:
  "n \<noteq> 0 \<Longrightarrow> smallest64_loop n sz + 1 = sz + word_of_nat (length (be_min (unat n)))"
proof (induction n sz rule: smallest64_loop.induct)
  case (1 n sz)
  have pos: "0 < unat n" using "1.prems" by (simp add: unat_gt_0)
  have step: "length (be_min (unat n)) = Suc (length (be_min (unat (drop_bit 8 n))))"
    using be_min_step [OF pos] by (simp add: unat_drop_bit)
  show ?case
  proof (cases "drop_bit 8 n = 0")
    case True
    then show ?thesis using "1.prems" step by (subst smallest64_loop.simps) simp
  next
    case False
    then have "smallest64_loop (drop_bit 8 n) (sz + 1) + 1
        = sz + 1 + word_of_nat (length (be_min (unat (drop_bit 8 n))))"
      using "1.IH" "1.prems" by simp
    then show ?thesis using "1.prems" False step
      by (subst smallest64_loop.simps) (simp add: algebra_simps)
  qed
qed

lemma length_be_min_64: "length (be_min (unat (n :: uint64))) \<le> 8"
  using unsigned_less [where ?'a = nat, of n] by (intro length_be_min_le) simp

lemma rlpGetSmallestNumber64EncodingSize_correct:
  "rlpGetSmallestNumber64EncodingSize n = word_of_nat (length (be_min (unat n)))"
proof (cases "n = 0")
  case True
  then show ?thesis by (simp add: rlpGetSmallestNumber64EncodingSize_def smallest64_loop.simps)
next
  case False
  then show ?thesis using smallest64_loop_correct [of n 1]
    by (simp add: rlpGetSmallestNumber64EncodingSize_def add.commute)
qed

lemma length_rlp_string_short:
  "length bs \<le> 55 \<Longrightarrow> length (rlp_string bs) = (if length bs = 1 \<and> unat (hd bs) \<le> 0x7f then 1 else Suc (length bs))"
  by (auto simp: rlp_string_def rlp_header_def Let_def split: list.splits)

lemma length_rlp_number_64: "length (rlp_number (unat (n :: uint64))) \<le> 9"
  using length_be_min_64 [of n] by (simp add: rlp_number_def length_rlp_string_short)

lemma be_min_single:
  assumes "length (be_min n) = 1"
  shows "be_min n = [word_of_nat n] \<and> 0 < n \<and> n < 256"
proof -
  obtain b where b: "be_min n = [b]" using assms by (cases "be_min n") auto
  then have "unat b = n" using be_val_be_min [of n] by simp
  moreover have "n \<noteq> 0" using b be_min_0 by (metis list.distinct(1))
  ultimately show ?thesis using b unat_word8_lt [of b]
    by (auto simp: word_unat_eq_iff unat_of_nat)
qed

lemma rlpGetEncodedNumber64Length_correct:
  "unat (rlpGetEncodedNumber64Length n) = length (rlp_number (unat n))"
proof -
  let ?L = "length (be_min (unat n))"
  have L: "?L \<le> 8" by (rule length_be_min_64)
  then have u: "unat (word_of_nat ?L :: uint8) = ?L" by (simp add: unat_word8_of_nat)
  show ?thesis
  proof (cases "?L = 1")
    case True
    then have "unat (ucast n :: uint8) = unat n"
      using be_min_single [OF True] by (simp add: unsigned_ucast_eq take_bit_nat_eq_self_iff)
    then show ?thesis
      using be_min_single [OF True] L
      by (auto simp: rlpGetEncodedNumber64Length_def rlpGetSmallestNumber64EncodingSize_correct
          rlp_number_def length_rlp_string_short Let_def nat_cmp unat_word8_of_nat)
  next
    case False
    have "word_of_nat ?L \<noteq> (1 :: uint8)" using u False by (metis unat_1)
    moreover have "unat (word_of_nat ?L + 1 :: uint8) = ?L + 1"
      using L unat_word8_of_nat [of "?L + 1"] by (simp add: add.commute)
    ultimately show ?thesis using False L
      by (simp add: rlpGetEncodedNumber64Length_def rlpGetSmallestNumber64EncodingSize_correct
          rlp_number_def length_rlp_string_short Let_def)
  qed
qed

lemma rlpGetEncodedNumberLength_correct:
  assumes "length bs \<le> 55" "unat n = length bs"
  shows "\<exists>r. rlpGetEncodedNumberLength bs n = Some r \<and> unat r = length (rlp_string bs)"
proof (cases "n = 1")
  case True
  then obtain b where "bs = [b]" using assms by (cases bs) auto
  then show ?thesis using True
    by (simp add: rlpGetEncodedNumberLength_def rd_def length_rlp_string_short nat_cmp)
next
  case False
  then have "length bs \<noteq> 1" using assms(2) by (metis unat_1 word_unat_eq_iff)
  moreover have "unat (n + 1) = unat n + 1"
    using assms by (intro unat_plus_one [of n "56"]) simp
  ultimately show ?thesis using assms False
    by (simp add: rlpGetEncodedNumberLength_def length_rlp_string_short)
qed

text \<open>The encoder writes the encoding of the bytes to the front of the output, provided
  they are not the single byte zero, which it encodes as the number zero.\<close>

lemma rlpEncodeNumber_correct:
  assumes "length bs \<le> 55" "unat n = length bs" "bs \<noteq> [0]"
    and "length bs + 2 \<le> output_size" "output_size \<le> length out"
  shows "rlpEncodeNumber bs n out output_size =
    Some (word_of_nat (length (rlp_string bs)),
          rlp_string bs @ drop (length (rlp_string bs)) out)"
proof (cases "n = 1")
  case True
  then obtain b where b: "bs = [b]" "b \<noteq> 0" using assms by (cases bs) auto
  obtain o1 o2 t where out: "out = o1 # o2 # t"
    using assms by (cases out; cases "tl out") auto
  show ?thesis using True b out assms(4)
    by (auto simp: rlpEncodeNumber_def rd_def wr_def rlp_string_def rlp_header_def Let_def nat_cmp)
next
  case False
  then have l1: "length bs \<noteq> 1" using assms(2) by (metis unat_1 word_unat_eq_iff)
  then have rs: "rlp_string bs = word_of_nat (0x80 + length bs) # bs"
    using assms(1) by (auto simp: rlp_string_def rlp_header_def Let_def split: list.splits)
  obtain o1 t where out: "out = o1 # t" using assms by (cases out) auto
  have n: "n = word_of_nat (length bs)" by (simp flip: assms(2))
  show ?thesis using assms False rs out n
    by (simp add: rlpEncodeNumber_def rd_n_def wr_n_def wr_def add.commute)
qed

lemma rlpEncodeListHeader8_correct:
  assumes "2 \<le> output_size" "output_size \<le> length out"
  shows "rlpEncodeListHeader8 n out output_size =
    Some (word_of_nat (length (rlp_header True (unat n))),
          rlp_header True (unat n) @ drop (length (rlp_header True (unat n))) out)"
proof -
  obtain o1 o2 t where out: "out = o1 # o2 # t"
    using assms by (cases out; cases "tl out") auto
  show ?thesis
  proof (cases "unat n \<le> 55")
    case True
    then show ?thesis using out assms
      by (simp add: rlpEncodeListHeader8_def rlp_header_def Let_def wr_def nat_cmp)
  next
    case False
    then have "be_min (unat n) = [n]"
      using be_min_step [of "unat n"] by simp
    then show ?thesis using False out assms
      by (simp add: rlpEncodeListHeader8_def rlp_header_def Let_def wr_def nat_cmp)
  qed
qed

text \<open>What the encoder writes, the streaming decoder reads back.\<close>

lemma rlpEncodeListHeader8_decodes:
  assumes "2 \<le> output_size" "output_size \<le> length out" "length out < 2 ^ 32"
  shows "\<exists>k out'. rlpEncodeListHeader8 n out output_size = Some (k, out') \<and>
     rlp_decode_length out' (word_of_nat (length out)) f =
       Some (True, f\<lparr>fieldLength := ucast n, fieldOffset := ucast k, fieldIsList := True\<rparr>)"
proof -
  let ?h = "rlp_header True (unat n)"
  have n: "unat n < 2 ^ 32" by (rule less_trans [OF unat_word8_lt]) simp
  have h: "length ?h \<le> 2" using length_be_min_le [of "unat n" 1] by (simp add: rlp_header_def Let_def)
  have "rlp_decode_length (?h @ drop (length ?h) out) (word_of_nat (length out)) f =
      Some (True, f\<lparr>fieldLength := word_of_nat (unat n), fieldOffset := word_of_nat (length ?h), fieldIsList := True\<rparr>)"
    using assms h by (intro rlp_header_decode [OF n]) (simp_all add: unat_of_nat)
  moreover have "ucast (word_of_nat (length ?h) :: uint8) = (word_of_nat (length ?h) :: uint32)"
    using h by (intro word_unat_eq_iff [THEN iffD2]) (simp add: unsigned_ucast_eq unat_word8_of_nat take_bit_nat_eq_self_iff unat_of_nat)
  moreover have "(word_of_nat (unat n) :: uint32) = ucast n" by simp
  ultimately show ?thesis using rlpEncodeListHeader8_correct [OF assms(1,2), of n] by (intro exI conjI) auto
qed

end
