(* ===== verification/Tlv.thy ===== *)
theory Tlv
  imports Buf_Utils
begin

text \<open>
  Model of \<open>src/tlv_apdu.c\<close>, the reassembly of a TLV payload from a sequence of APDUs
  that every metadata command and the EIP-7702 command use, and of the field getters of
  \<open>src/utils/tlv_utils.c\<close>.

  A handler is identified by a value of a type \<open>'h\<close> (the function pointer, which the code
  compares); \<open>run\<close> gives its effect on the state \<open>'s\<close> of the application.
\<close>

section \<open>Data\<close>

datatype e_tlv_apdu_ret = TLV_APDU_ERROR | TLV_APDU_PENDING | TLV_APDU_SUCCESS

text \<open>The static \<open>g_tlv\<close>; an unset pointer is \<open>None\<close>.\<close>

record 'h g_tlv =
  tlv_payload :: "bytes option"
  tlv_size :: uint16
  tlv_pos :: uint16
  tlv_handler_ptr :: "'h option"

definition g_tlv_zero :: "'h g_tlv" where
  "g_tlv_zero = \<lparr>tlv_payload = None, tlv_size = 0, tlv_pos = 0, tlv_handler_ptr = None\<rparr>"

definition reset_state :: "'h g_tlv \<Rightarrow> mem \<Rightarrow> 'h g_tlv \<times> mem" where
  "reset_state g m = (g_tlv_zero, if tlv_payload g = None then m else mem_free m)"

section \<open>Reassembly\<close>

text \<open>The part that the first chunk and the following chunks share, from the test for a
  zero-length payload on; \<open>offset\<close> is the number of bytes already consumed.\<close>

definition tlv_feed ::
  "('h \<Rightarrow> bytes \<Rightarrow> 's \<Rightarrow> bool \<times> 's) \<Rightarrow> uint8 \<Rightarrow> bytes \<Rightarrow> 'h \<Rightarrow> uint8 \<Rightarrow> 'h g_tlv \<Rightarrow> mem \<Rightarrow> 's
    \<Rightarrow> (e_tlv_apdu_ret \<times> 'h g_tlv \<times> mem \<times> 's) option" where
  "tlv_feed run lc payload handler offset g m s =
     (if tlv_size g = 0 then
        (let (g', m') = reset_state g m in Some (TLV_APDU_ERROR, g', m', s))
      else
        (let chunk_length = lc - offset
         in if unat (tlv_size g) < unat (tlv_pos g) + unat chunk_length then
              (let (g', m') = reset_state g m in Some (TLV_APDU_ERROR, g', m', s))
            else do {
              g1 \<leftarrow> (case tlv_payload g of
                       None \<Rightarrow> Some g
                     | Some p \<Rightarrow> do {
                         chunk \<leftarrow> rd_n payload (unat offset) (unat chunk_length);
                         p' \<leftarrow> wr_n p (unat (tlv_pos g)) chunk;
                         Some (g\<lparr>tlv_payload := Some p'\<rparr>) });
              let g2 = g1\<lparr>tlv_pos := tlv_pos g1 + ucast chunk_length\<rparr>;
              if tlv_pos g2 = tlv_size g2 then do {
                buf \<leftarrow> (case tlv_payload g2 of
                          Some p \<Rightarrow> rd_n p 0 (unat (tlv_size g2))
                        | None \<Rightarrow> rd_n payload (unat offset) (unat (tlv_size g2)));
                let (ret, s') = run handler buf s;
                let (g', m') = reset_state g2 m;
                Some (if ret then TLV_APDU_SUCCESS else TLV_APDU_ERROR, g', m', s')
              }
              else Some (TLV_APDU_PENDING, g2, m, s)
            }))"

text \<open>\<open>fresh\<close> is the content of freshly allocated memory.\<close>

definition tlv_from_apdu ::
  "('h \<Rightarrow> bytes \<Rightarrow> 's \<Rightarrow> bool \<times> 's) \<Rightarrow> (nat \<Rightarrow> uint8) \<Rightarrow> bool \<Rightarrow> uint8 \<Rightarrow> bytes option \<Rightarrow> 'h option
    \<Rightarrow> 'h g_tlv \<Rightarrow> mem \<Rightarrow> 's \<Rightarrow> (e_tlv_apdu_ret \<times> 'h g_tlv \<times> mem \<times> 's) option" where
  "tlv_from_apdu run fresh first_chunk lc payload handler g m s =
     (case (payload, handler) of
        (Some p, Some h) \<Rightarrow>
          if first_chunk then
            (if tlv_payload g \<noteq> None then
               (let (g', m') = reset_state g m in Some (TLV_APDU_ERROR, g', m', s))
             else if unat lc < 2 then Some (TLV_APDU_ERROR, g, m, s)
             else do {
               sz \<leftarrow> read_u16_be p 0;
               let g1 = g\<lparr>tlv_size := sz, tlv_pos := 0\<rparr>;
               if unat lc - 2 < unat sz then
                 (let (ok, m1) = mem_alloc m
                  in if ok then
                       tlv_feed run lc p h 2
                         (g1\<lparr>tlv_payload := Some (map fresh [0..<unat sz]), tlv_handler_ptr := Some h\<rparr>) m1 s
                     else (let (g', m') = reset_state g1 m1 in Some (TLV_APDU_ERROR, g', m', s)))
               else tlv_feed run lc p h 2 (g1\<lparr>tlv_handler_ptr := Some h\<rparr>) m s
             })
          else if Some h \<noteq> tlv_handler_ptr g then
            (let (g', m') = reset_state g m in Some (TLV_APDU_ERROR, g', m', s))
          else tlv_feed run lc p h 0 g m s
      | _ \<Rightarrow> (let (g', m') = reset_state g m in Some (TLV_APDU_ERROR, g', m', s)))"

section \<open>The invariant of the reassembly\<close>

text \<open>Either no payload is being received and no buffer is held, or a buffer of the
  announced size is held and not yet full.\<close>

definition tlv_inv :: "'h g_tlv \<Rightarrow> bool" where
  "tlv_inv g \<longleftrightarrow>
     (case tlv_payload g of
        None \<Rightarrow> tlv_handler_ptr g = None
      | Some p \<Rightarrow> length p = unat (tlv_size g) \<and> tlv_pos g < tlv_size g \<and> tlv_handler_ptr g \<noteq> None)"

definition tlv_blocks :: "'h g_tlv \<Rightarrow> nat" where
  "tlv_blocks g = (if tlv_payload g = None then 0 else 1)"

lemma tlv_inv_zero [simp]: "tlv_inv g_tlv_zero"
  by (simp add: tlv_inv_def g_tlv_zero_def)

lemma tlv_blocks_zero [simp]: "tlv_blocks g_tlv_zero = 0"
  by (simp add: tlv_blocks_def g_tlv_zero_def)

lemma reset_state_mem:
  "live (snd (reset_state g m)) = live m - tlv_blocks g"
  by (simp add: reset_state_def tlv_blocks_def)

lemma fst_reset_state [simp]: "fst (reset_state g m) = g_tlv_zero"
  by (simp add: reset_state_def)

lemma unat_add_8_16:
  "unat (a :: uint16) + unat (b :: uint8) < 2 ^ 16 \<Longrightarrow> unat (a + ucast b) = unat a + unat b"
proof -
  have "unat b < 2 ^ 16" using unat_word8_lt [of b] by (rule less_trans) simp
  then have "unat (ucast b :: uint16) = unat b"
    by (simp add: unsigned_ucast_eq take_bit_nat_eq_self_iff)
  then show "unat a + unat b < 2 ^ 16 \<Longrightarrow> unat (a + ucast b) = unat a + unat b"
    by (simp add: unat_word_ariths)
qed

section \<open>Abstract specification and refinement\<close>

text \<open>The abstract state: nothing, or the handler, the announced size and the bytes
  received so far.\<close>

type_synonym 'h tlv_spec_state = "('h \<times> nat \<times> bytes) option"

definition tlv_spec_feed ::
  "('h \<Rightarrow> bytes \<Rightarrow> 's \<Rightarrow> bool \<times> 's) \<Rightarrow> 'h \<Rightarrow> nat \<Rightarrow> bytes \<Rightarrow> bytes \<Rightarrow> 's
    \<Rightarrow> e_tlv_apdu_ret \<times> 'h tlv_spec_state \<times> 's" where
  "tlv_spec_feed run h sz received chunk s =
     (let r = received @ chunk
      in if sz = 0 \<or> sz < length r then (TLV_APDU_ERROR, None, s)
         else if length r = sz then
           (let (ok, s') = run h r s in (if ok then TLV_APDU_SUCCESS else TLV_APDU_ERROR, None, s'))
         else (TLV_APDU_PENDING, Some (h, sz, r), s))"

definition tlv_spec ::
  "('h \<Rightarrow> bytes \<Rightarrow> 's \<Rightarrow> bool \<times> 's) \<Rightarrow> bool \<Rightarrow> bool \<Rightarrow> bytes \<Rightarrow> 'h \<Rightarrow> 'h tlv_spec_state \<Rightarrow> 's
    \<Rightarrow> e_tlv_apdu_ret \<times> 'h tlv_spec_state \<times> 's" where
  "tlv_spec run alloc_ok first data h st s =
     (if first then
        (if st \<noteq> None \<or> length data < 2 then (TLV_APDU_ERROR, None, s)
         else (let sz = be_val (take 2 data); chunk = drop 2 data
               in if length chunk < sz \<and> \<not> alloc_ok then (TLV_APDU_ERROR, None, s)
                  else tlv_spec_feed run h sz [] chunk s))
      else (case st of
              Some (h', sz, r) \<Rightarrow>
                if h' = h then tlv_spec_feed run h sz r data s else (TLV_APDU_ERROR, None, s)
            | None \<Rightarrow> (TLV_APDU_ERROR, None, s)))"

definition tlv_abs :: "'h g_tlv \<Rightarrow> 'h tlv_spec_state" where
  "tlv_abs g = (case tlv_payload g of
                  None \<Rightarrow> None
                | Some p \<Rightarrow> Some (the (tlv_handler_ptr g), unat (tlv_size g), take (unat (tlv_pos g)) p))"

lemma tlv_abs_zero [simp]: "tlv_abs g_tlv_zero = None"
  by (simp add: tlv_abs_def g_tlv_zero_def)

text \<open>The balance of the allocator: one live block while a payload is pending.\<close>

definition tlv_balanced :: "'h g_tlv \<Rightarrow> mem \<Rightarrow> 'h g_tlv \<Rightarrow> mem \<Rightarrow> bool" where
  "tlv_balanced g m g' m' \<longleftrightarrow> live m' + tlv_blocks g = live m + tlv_blocks g'"

lemma tlv_balanced_reset:
  "tlv_blocks g \<le> live m \<Longrightarrow> tlv_balanced g m g_tlv_zero (snd (reset_state g m))"
  by (simp add: tlv_balanced_def reset_state_mem)

text \<open>Feeding a chunk while a buffer is held.\<close>

lemma tlv_feed_held:
  fixes run :: "'h \<Rightarrow> bytes \<Rightarrow> 's \<Rightarrow> bool \<times> 's"
  assumes g: "tlv_payload g = Some p" "length p = unat (tlv_size g)" "tlv_pos g < tlv_size g"
      "tlv_handler_ptr g = Some h"
    and data: "unat offset + unat (lc - offset) \<le> length data"
    and live: "0 < live m"
    and chunk: "chunk = take (unat (lc - offset)) (drop (unat offset) data)"
    and spec: "tlv_spec_feed run h (unat (tlv_size g)) (take (unat (tlv_pos g)) p) chunk s = (r, a, s')"
  shows "\<exists>g' m'. tlv_feed run lc data h offset g m s = Some (r, g', m', s')
           \<and> tlv_abs g' = a \<and> tlv_inv g' \<and> tlv_balanced g m g' m'"
proof -
  let ?n = "unat (lc - offset)" and ?pos = "unat (tlv_pos g)" and ?size = "unat (tlv_size g)"
  have lt: "?pos < ?size" using g by (simp add: word_less_nat_alt)
  then have nz: "tlv_size g \<noteq> 0" by auto
  have lc: "length chunk = ?n" using data chunk by simp
  have tp: "length (take ?pos p) = ?pos" using g lt by simp
  have bl: "tlv_blocks g = 1" using g by (simp add: tlv_blocks_def)
  show ?thesis
  proof (cases "?size < ?pos + ?n")
    case True
    then have "r = TLV_APDU_ERROR" "a = None" "s' = s"
      using spec tp lc lt by (auto simp: tlv_spec_feed_def Let_def)
    then show ?thesis using True nz tlv_balanced_reset [of g m] live bl
      by (auto simp: tlv_feed_def Let_def reset_state_def split: prod.splits)
  next
    case False
    let ?p' = "take ?pos p @ chunk @ drop (?pos + ?n) p"
    let ?g1 = "g\<lparr>tlv_payload := Some ?p'\<rparr>"
    let ?g2 = "?g1\<lparr>tlv_pos := tlv_pos g + ucast (lc - offset)\<rparr>"
    have "?pos + ?n < 2 ^ 16" using False unsigned_less [where ?'a = nat, of "tlv_size g"] by simp
    then have pos2: "unat (tlv_pos ?g2) = ?pos + ?n" by (simp add: unat_add_8_16)
    have rdn: "rd_n data (unat offset) ?n = Some chunk" using data chunk by (simp add: rd_n_def)
    have wrn: "wr_n p ?pos chunk = Some ?p'" using False g lc by (simp add: wr_n_def)
    have tk: "take (?pos + ?n) ?p' = take ?pos p @ chunk" using tp lc by simp
    have feed: "tlv_feed run lc data h offset g m s =
      (if tlv_pos ?g2 = tlv_size g then
         do { buf \<leftarrow> rd_n ?p' 0 ?size;
              let (ret, s') = run h buf s;
              let (g', m') = reset_state ?g2 m;
              Some (if ret then TLV_APDU_SUCCESS else TLV_APDU_ERROR, g', m', s') }
       else Some (TLV_APDU_PENDING, ?g2, m, s))"
      using nz False g(1) rdn wrn by (simp add: tlv_feed_def Let_def)
    show ?thesis
    proof (cases "?pos + ?n = ?size")
      case True
      then have eq: "tlv_pos ?g2 = tlv_size g" using pos2 by (simp add: word_unat_eq_iff)
      have full: "rd_n ?p' 0 ?size = Some (take ?pos p @ chunk)"
        using True tk lc g tp by (simp add: rd_n_def)
      obtain ok s1 where run: "run h (take ?pos p @ chunk) s = (ok, s1)" by (cases "run h (take ?pos p @ chunk) s")
      have "r = (if ok then TLV_APDU_SUCCESS else TLV_APDU_ERROR)" "a = None" "s' = s1"
        using spec run tp lc True lt by (auto simp: tlv_spec_feed_def Let_def)
      then have "tlv_feed run lc data h offset g m s = Some (r, g_tlv_zero, mem_free m, s')"
        unfolding feed if_P [OF eq] full by (simp add: run reset_state_def)
      then show ?thesis using \<open>a = None\<close> live bl
        by (auto simp: tlv_balanced_def)
    next
      case ne: False
      then have neq: "tlv_pos ?g2 \<noteq> tlv_size g" using pos2 by (auto simp: word_unat_eq_iff)
      have "r = TLV_APDU_PENDING" "a = Some (h, ?size, take ?pos p @ chunk)" "s' = s"
        using spec tp lc False ne lt by (auto simp: tlv_spec_feed_def Let_def)
      moreover have "tlv_abs ?g2 = Some (h, ?size, take ?pos p @ chunk)"
        unfolding tlv_abs_def pos2 using tk g by simp
      moreover have "tlv_inv ?g2"
        using pos2 ne False g lc tp by (auto simp: tlv_inv_def word_less_nat_alt)
      moreover have "tlv_balanced g m ?g2 m"
        by (simp add: tlv_balanced_def tlv_blocks_def g)
      ultimately show ?thesis unfolding feed if_not_P [OF neq] by blast
    qed
  qed
qed

text \<open>The whole payload in the first chunk: no buffer is needed.\<close>

lemma tlv_feed_single:
  fixes run :: "'h \<Rightarrow> bytes \<Rightarrow> 's \<Rightarrow> bool \<times> 's"
  assumes g: "tlv_payload g = None" "tlv_pos g = 0"
    and data: "length data = unat lc" "2 \<le> unat lc" "unat (tlv_size g) \<le> unat lc - 2"
    and spec: "tlv_spec_feed run h (unat (tlv_size g)) [] (drop 2 data) s = (r, a, s')"
  shows "tlv_feed run lc data h 2 g m s = Some (r, g_tlv_zero, m, s') \<and> a = None"
proof -
  have n: "unat (lc - 2) = unat lc - 2" using data by (simp add: unat_sub_le word_le_nat_alt)
  show ?thesis
  proof (cases "tlv_size g = 0 \<or> unat (tlv_size g) < unat lc - 2")
    case True
    then have "r = TLV_APDU_ERROR" "a = None" "s' = s"
      using spec data by (auto simp: tlv_spec_feed_def Let_def)
    then show ?thesis using True n g by (auto simp: tlv_feed_def Let_def reset_state_def)
  next
    case False
    then have eq: "unat lc - 2 = unat (tlv_size g)" and nz: "tlv_size g \<noteq> 0" using data by auto
    have "unat (0 + ucast (lc - 2) :: uint16) = unat lc - 2"
      using n unat_add_8_16 [of 0 "lc - 2"] unat_word8_lt [of "lc - 2"] by simp
    then have pos: "ucast (lc - 2) = tlv_size g" using eq by (simp add: word_unat_eq_iff)
    have rdn: "rd_n data 2 (unat (tlv_size g)) = Some (drop 2 data)"
      using data eq by (simp add: rd_n_def)
    obtain ok s1 where run: "run h (drop 2 data) s = (ok, s1)" by (cases "run h (drop 2 data) s")
    have "r = (if ok then TLV_APDU_SUCCESS else TLV_APDU_ERROR)" "a = None" "s' = s1"
      using spec run data eq nz by (auto simp: tlv_spec_feed_def Let_def unat_eq_0)
    then show ?thesis using nz n eq g pos rdn run
      by (simp add: tlv_feed_def Let_def reset_state_def)
  qed
qed

text \<open>The concrete reassembly implements the abstract one on every input, keeps the
  invariant, and neither leaks its buffer nor frees one it does not hold.\<close>

lemma tlv_from_apdu_refines:
  fixes run :: "'h \<Rightarrow> bytes \<Rightarrow> 's \<Rightarrow> bool \<times> 's"
  assumes inv: "tlv_inv g" and data: "length data = unat lc" and live: "tlv_blocks g \<le> live m"
    and spec: "tlv_spec run (fst (mem_alloc m)) first data h (tlv_abs g) s = (r, a, s')"
  shows "\<exists>g' m'. tlv_from_apdu run fresh first lc (Some data) (Some h) g m s = Some (r, g', m', s')
           \<and> tlv_abs g' = a \<and> tlv_inv g' \<and> tlv_balanced g m g' m'"
proof (cases first)
  case False
  show ?thesis
  proof (cases "tlv_payload g")
    case None
    then have "tlv_handler_ptr g = None" "tlv_abs g = None"
      using inv by (simp_all add: tlv_inv_def tlv_abs_def)
    then show ?thesis using False spec tlv_balanced_reset [OF live]
      by (auto simp: tlv_from_apdu_def tlv_spec_def reset_state_def)
  next
    case (Some p)
    then obtain h' where g: "length p = unat (tlv_size g)" "tlv_pos g < tlv_size g" "tlv_handler_ptr g = Some h'"
      using inv by (auto simp: tlv_inv_def)
    then have abs: "tlv_abs g = Some (h', unat (tlv_size g), take (unat (tlv_pos g)) p)"
      using Some by (simp add: tlv_abs_def)
    have lv: "0 < live m" using live Some by (simp add: tlv_blocks_def)
    show ?thesis
    proof (cases "h' = h")
      case True
      then have "tlv_spec_feed run h (unat (tlv_size g)) (take (unat (tlv_pos g)) p) data s = (r, a, s')"
        using spec abs False by (simp add: tlv_spec_def)
      then show ?thesis
        using tlv_feed_held [of g p h 0 lc data m data run s r a s'] Some g True data lv False
        by (simp add: tlv_from_apdu_def)
    next
      case ne: False
      then show ?thesis using spec abs False g tlv_balanced_reset [OF live]
        by (auto simp: tlv_from_apdu_def tlv_spec_def reset_state_def)
    qed
  qed
next
  case True
  show ?thesis
  proof (cases "tlv_payload g \<noteq> None \<or> unat lc < 2")
    case err: True
    then have "tlv_payload g \<noteq> None \<Longrightarrow> tlv_abs g \<noteq> None" by (auto simp: tlv_abs_def)
    with err have "r = TLV_APDU_ERROR" "a = None" "s' = s" using spec True data
      by (auto simp: tlv_spec_def)
    moreover have "tlv_payload g = None \<Longrightarrow> tlv_abs g = None" by (simp add: tlv_abs_def)
    ultimately show ?thesis using err True inv tlv_balanced_reset [OF live]
      by (cases "tlv_payload g = None") (auto simp: tlv_from_apdu_def reset_state_def tlv_balanced_def)
  next
    case False
    then have none: "tlv_payload g = None" and lc: "2 \<le> unat lc" by auto
    then have abs: "tlv_abs g = None" by (simp add: tlv_abs_def)
    define sz :: uint16 where "sz = word_of_nat (be_val (take 2 data))"
    have rd: "read_u16_be data 0 = Some sz" using lc data by (simp add: read_u16_be_Some sz_def)
    have usz: "unat sz = be_val (take 2 data)" unfolding sz_def by (rule unat_word16_of_be_val) simp
    have b0: "tlv_blocks g = 0" using none by (simp add: tlv_blocks_def)
    show ?thesis
    proof (cases "unat lc - 2 < unat sz")
      case small: False
      then have "tlv_spec_feed run h (unat sz) [] (drop 2 data) s = (r, a, s')"
        using spec True abs data lc usz by (simp add: tlv_spec_def Let_def)
      then have "tlv_feed run lc data h 2 (g\<lparr>tlv_size := sz, tlv_pos := 0, tlv_handler_ptr := Some h\<rparr>) m s
          = Some (r, g_tlv_zero, m, s') \<and> a = None"
        using small none data lc by (intro tlv_feed_single) auto
      then show ?thesis using True none lc rd small b0
        by (simp add: tlv_from_apdu_def Let_def tlv_balanced_def)
    next
      case big: True
      let ?g1 = "g\<lparr>tlv_size := sz, tlv_pos := 0, tlv_payload := Some (map fresh [0..<unat sz]), tlv_handler_ptr := Some h\<rparr>"
      show ?thesis
      proof (cases m rule: mem_alloc_cases)
        case (fail m1)
        then have "r = TLV_APDU_ERROR" "a = None" "s' = s"
          using spec True abs data lc usz big by (auto simp: tlv_spec_def Let_def)
        then show ?thesis using True none lc rd big fail b0
          by (auto simp: tlv_from_apdu_def Let_def reset_state_def tlv_balanced_def)
      next
        case (ok m1)
        have sp: "tlv_spec_feed run h (unat sz) [] (drop 2 data) s = (r, a, s')"
          using spec True abs data lc usz ok by (simp add: tlv_spec_def Let_def)
        have n: "unat (lc - 2) = unat lc - 2" using lc by (simp add: unat_sub_le word_le_nat_alt)
        have "\<exists>g' m'. tlv_feed run lc data h 2 ?g1 m1 s = Some (r, g', m', s')
           \<and> tlv_abs g' = a \<and> tlv_inv g' \<and> tlv_balanced ?g1 m1 g' m'"
          by (rule tlv_feed_held [where p = "map fresh [0..<unat sz]" and chunk = "drop 2 data"])
            (use big ok lc data n sp in \<open>auto simp: word_less_nat_alt\<close>)
        then obtain g' m' where fd: "tlv_feed run lc data h 2 ?g1 m1 s = Some (r, g', m', s')"
          "tlv_abs g' = a" "tlv_inv g'" "tlv_balanced ?g1 m1 g' m'" by blast
        moreover have "tlv_balanced g m g' m'"
          using fd(4) ok b0 by (simp add: tlv_balanced_def tlv_blocks_def split: if_splits)
        ultimately show ?thesis using True none lc rd big ok
          by (simp add: tlv_from_apdu_def Let_def)
      qed
    qed
  qed
qed

text \<open>The handler runs at most once per APDU, and it alone decides on success.\<close>

lemma tlv_spec_state:
  assumes "tlv_spec run ok first data h st s = (r, a, s')"
  shows "(s' = s \<and> r \<noteq> TLV_APDU_SUCCESS) \<or> (\<exists>buf. run h buf s = (r = TLV_APDU_SUCCESS, s') \<and> r \<noteq> TLV_APDU_PENDING)"
  using assms
  by (auto simp: tlv_spec_def tlv_spec_feed_def Let_def split: if_splits option.splits prod.splits)

section \<open>Handlers that may fault\<close>

text \<open>A command runs the reassembly on a state that is \<open>None\<close> after a fault of its handler, so that the fault of the handler is
  one of the command.\<close>

definition fault_run :: "('h \<Rightarrow> bytes \<Rightarrow> 's \<Rightarrow> (bool \<times> 's) option) \<Rightarrow> 'h \<Rightarrow> bytes \<Rightarrow> 's option \<Rightarrow> bool \<times> 's option" where
  "fault_run f h buf s =
     (case Option.bind s (f h buf) of
        None \<Rightarrow> (False, None)
      | Some (ok, s) \<Rightarrow> (ok, Some s))"

lemma fault_run_None: "f h buf s = None \<Longrightarrow> fault_run f h buf (Some s) = (False, None)"
  by (simp add: fault_run_def)

lemma fault_run_Some: "f h buf s = Some (ok, s') \<Longrightarrow> fault_run f h buf (Some s) = (ok, Some s')"
  by (simp add: fault_run_def)

section \<open>Whole sessions\<close>

text \<open>A host sends a payload as a list of APDU contents; the model collects the answers.\<close>

fun tlv_session ::
  "('h \<Rightarrow> bytes \<Rightarrow> 's \<Rightarrow> bool \<times> 's) \<Rightarrow> (nat \<Rightarrow> uint8) \<Rightarrow> bool \<Rightarrow> bytes list \<Rightarrow> 'h
    \<Rightarrow> 'h g_tlv \<Rightarrow> mem \<Rightarrow> 's \<Rightarrow> (e_tlv_apdu_ret list \<times> 'h g_tlv \<times> mem \<times> 's) option" where
  "tlv_session run fresh first [] h g m s = Some ([], g, m, s)"
| "tlv_session run fresh first (c # cs) h g m s = do {
     (r, g1, m1, s1) \<leftarrow> tlv_from_apdu run fresh first (word_of_nat (length c)) (Some c) (Some h) g m s;
     (rs, g2, m2, s2) \<leftarrow> tlv_session run fresh False cs h g1 m1 s1;
     Some (r # rs, g2, m2, s2) }"

lemma unat_lc: "length c < 256 \<Longrightarrow> unat (word_of_nat (length c) :: uint8) = length c"
  by (simp add: unat_of_nat)

text \<open>From a state in which \<open>received\<close> has arrived, the remaining chunks.\<close>

lemma tlv_session_rest:
  fixes run :: "'h \<Rightarrow> bytes \<Rightarrow> 's \<Rightarrow> bool \<times> 's"
  assumes "tlv_inv g" "tlv_blocks g \<le> live m" "tlv_abs g = Some (h, sz, received)"
    and "\<forall>c \<in> set cs. length c < 256" "cs \<noteq> []" "last cs \<noteq> []"
    and "length (received @ concat cs) = sz" "run h (received @ concat cs) s = (ok, s')"
  shows "\<exists>g' m'. tlv_session run fresh False cs h g m s =
             Some (replicate (length cs - 1) TLV_APDU_PENDING @ [if ok then TLV_APDU_SUCCESS else TLV_APDU_ERROR], g', m', s')
           \<and> tlv_abs g' = None \<and> tlv_inv g' \<and> tlv_balanced g m g' m'"
  using assms
proof (induction cs arbitrary: g m received)
  case Nil
  then show ?case by simp
next
  case (Cons c cs)
  have lc: "length c = unat (word_of_nat (length c) :: uint8)" using Cons.prems by (simp add: unat_lc)
  let ?spec = "tlv_spec run (fst (mem_alloc m)) False c h (tlv_abs g) s"
  show ?case
  proof (cases cs)
    case Nil
    then have ne: "sz \<noteq> 0" using Cons.prems by auto
    have sp: "?spec = (if ok then TLV_APDU_SUCCESS else TLV_APDU_ERROR, None, s')"
      using Cons.prems Nil ne by (auto simp: tlv_spec_def tlv_spec_feed_def Let_def)
    from tlv_from_apdu_refines [OF Cons.prems(1) lc Cons.prems(2) sp, of fresh] show ?thesis
      using Nil by auto
  next
    case (Cons c' cs')
    have "0 < length (concat cs)"
      using Cons.prems(6) Cons by (metis append_butlast_last_id concat_append concat.simps append_Nil2
          append_is_Nil_conv last_ConsR length_greater_0_conv list.distinct(1))
    moreover have "length (received @ c) + length (concat cs) = sz" using Cons.prems(7) by simp
    ultimately have lt: "length (received @ c) < sz" by linarith
    have sp: "?spec = (TLV_APDU_PENDING, Some (h, sz, received @ c), s)"
      using Cons.prems(3) lt by (simp add: tlv_spec_def tlv_spec_feed_def Let_def)
    from tlv_from_apdu_refines [OF Cons.prems(1) lc Cons.prems(2) sp, of fresh]
    obtain g1 m1 where 1: "tlv_from_apdu run fresh False (word_of_nat (length c)) (Some c) (Some h) g m s = Some (TLV_APDU_PENDING, g1, m1, s)"
      "tlv_abs g1 = Some (h, sz, received @ c)" "tlv_inv g1" "tlv_balanced g m g1 m1" by blast
    have lv: "tlv_blocks g1 \<le> live m1"
      using 1(4) Cons.prems(2) by (simp add: tlv_balanced_def)
    have "\<exists>g' m'. tlv_session run fresh False cs h g1 m1 s =
             Some (replicate (length cs - 1) TLV_APDU_PENDING @ [if ok then TLV_APDU_SUCCESS else TLV_APDU_ERROR], g', m', s')
           \<and> tlv_abs g' = None \<and> tlv_inv g' \<and> tlv_balanced g1 m1 g' m'"
      by (rule Cons.IH [OF 1(3) lv 1(2)]) (use Cons.prems Cons in auto)
    then obtain g' m' where 2: "tlv_session run fresh False cs h g1 m1 s =
             Some (replicate (length cs - 1) TLV_APDU_PENDING @ [if ok then TLV_APDU_SUCCESS else TLV_APDU_ERROR], g', m', s')"
      "tlv_abs g' = None" "tlv_inv g'" "tlv_balanced g1 m1 g' m'" by blast
    have rep: "TLV_APDU_PENDING # replicate (length cs - 1) TLV_APDU_PENDING = replicate (length cs) TLV_APDU_PENDING"
      using Cons by simp
    have "tlv_balanced g m g' m'" using 1(4) 2(4) by (simp add: tlv_balanced_def)
    then show ?thesis using 1(1) 2 rep by (simp flip: append_Cons)
  qed
qed

text \<open>Any way to cut a payload into APDUs delivers exactly that payload to the handler,
  once, at the last APDU; afterwards the buffer is released.\<close>

lemma tlv_session_delivers:
  fixes run :: "'h \<Rightarrow> bytes \<Rightarrow> 's \<Rightarrow> bool \<times> 's"
  assumes g: "tlv_inv g" "tlv_payload g = None" and ok: "fst (mem_alloc m)"
    and sz: "data \<noteq> []" "length data < 2 ^ 16"
    and cut: "concat (c # cs) = data" "length c < 254" "\<forall>c \<in> set cs. length c < 256"
      "last (c # cs) \<noteq> []"
    and run: "run h data s = (res, s')"
  shows "\<exists>g' m'. tlv_session run fresh True ((be_bytes 2 (length data) @ c) # cs) h g m s =
             Some (replicate (length cs) TLV_APDU_PENDING @ [if res then TLV_APDU_SUCCESS else TLV_APDU_ERROR], g', m', s')
           \<and> tlv_payload g' = None \<and> tlv_inv g' \<and> live m' = live m"
proof -
  let ?d = "be_bytes 2 (length data) @ c"
  have len: "length ?d = unat (word_of_nat (length ?d) :: uint8)" using cut by (subst unat_lc) simp_all
  have abs: "tlv_abs g = None" using g by (simp add: tlv_abs_def)
  have b0: "tlv_blocks g = 0" using g by (simp add: tlv_blocks_def)
  then have lv: "tlv_blocks g \<le> live m" by simp
  have bv: "be_val (take 2 ?d) = length data" using sz by (simp add: be_val_be_bytes)
  have none: "tlv_abs g' = None \<Longrightarrow> tlv_payload g' = None" for g' :: "'h g_tlv"
    by (simp add: tlv_abs_def split: option.splits)
  have none_b: "tlv_abs g' = None \<Longrightarrow> tlv_blocks g' = 0" for g' :: "'h g_tlv"
    using none by (simp add: tlv_blocks_def)
  show ?thesis
  proof (cases "cs = []")
    case True
    have sp: "tlv_spec run (fst (mem_alloc m)) True ?d h (tlv_abs g) s =
        (if res then TLV_APDU_SUCCESS else TLV_APDU_ERROR, None, s')"
      using True cut sz run bv abs by (auto simp: tlv_spec_def tlv_spec_feed_def Let_def)
    from tlv_from_apdu_refines [OF g(1) len lv sp, of fresh] show ?thesis
      using True b0 none none_b by (fastforce simp: tlv_balanced_def)
  next
    case False
    then have "0 < length (concat cs)"
      using cut(4) by (metis append_butlast_last_id concat_append concat.simps append_Nil2
          append_is_Nil_conv last_ConsR length_greater_0_conv)
    then have lt: "length c < length data" using cut(1) by auto
    have sp: "tlv_spec run (fst (mem_alloc m)) True ?d h (tlv_abs g) s =
        (TLV_APDU_PENDING, Some (h, length data, c), s)"
      using lt bv abs ok sz by (simp add: tlv_spec_def tlv_spec_feed_def Let_def)
    from tlv_from_apdu_refines [OF g(1) len lv sp, of fresh]
    obtain g1 m1 where 1: "tlv_from_apdu run fresh True (word_of_nat (length ?d)) (Some ?d) (Some h) g m s = Some (TLV_APDU_PENDING, g1, m1, s)"
      "tlv_abs g1 = Some (h, length data, c)" "tlv_inv g1" "tlv_balanced g m g1 m1" by blast
    have "\<exists>g' m'. tlv_session run fresh False cs h g1 m1 s =
             Some (replicate (length cs - 1) TLV_APDU_PENDING @ [if res then TLV_APDU_SUCCESS else TLV_APDU_ERROR], g', m', s')
           \<and> tlv_abs g' = None \<and> tlv_inv g' \<and> tlv_balanced g1 m1 g' m'"
      by (rule tlv_session_rest [OF 1(3) _ 1(2)])
        (use 1 cut False run b0 in \<open>auto simp: tlv_balanced_def\<close>)
    then obtain g' m' where 2: "tlv_session run fresh False cs h g1 m1 s =
             Some (replicate (length cs - 1) TLV_APDU_PENDING @ [if res then TLV_APDU_SUCCESS else TLV_APDU_ERROR], g', m', s')"
      "tlv_abs g' = None" "tlv_inv g'" "tlv_balanced g1 m1 g' m'" by blast
    have rep: "TLV_APDU_PENDING # replicate (length cs - 1) TLV_APDU_PENDING = replicate (length cs) TLV_APDU_PENDING"
      using False by (cases cs) simp_all
    have "live m' = live m" using 1(4) 2(2,4) b0 none_b by (simp add: tlv_balanced_def)
    then show ?thesis using 1(1) 2 none rep by (simp flip: append_Cons)
  qed
qed

end
