(* ===== verification/Tlv_Utils.thy ===== *)
theory Tlv_Utils
  imports Tlv
begin

text \<open>
  Model of \<open>src/utils/tlv_utils.c\<close>, the checked readers with which the TLV handlers extract their
  values, and of the challenge of \<open>src/features/get_challenge/cmd_get_challenge.c\<close>.

  The extraction functions of the SDK are the parameters of the record \<open>tlv_sdk\<close>: given the value
  of a TLV field and the previous content of the destination they return a flag and the new content.
  An output pointer is an option, \<open>None\<close> for a null pointer.

  The generated parsers (\<open>DEFINE_TLV_PARSER\<close>) belong to the SDK too.  The definition
  \<open>run_fields\<close> says what the handlers of an application make of a list of fields, and
  \<open>parser_contract\<close> that a parser does nothing but that.
\<close>

section \<open>The challenge\<close>

record challenge_state =
  challenge :: uint32

definition roll_challenge :: "uint32 \<Rightarrow> challenge_state \<Rightarrow> challenge_state" where
  "roll_challenge rng c = c\<lparr>challenge := rng\<rparr>"

definition get_challenge :: "challenge_state \<Rightarrow> uint32" where
  "get_challenge c = challenge c"

definition check_challenge :: "challenge_state \<Rightarrow> uint32 \<Rightarrow> bool" where
  "check_challenge c received_challenge = (if received_challenge \<noteq> challenge c then False else True)"

text \<open>The answer: the first four bytes of the output buffer.\<close>

definition handle_get_challenge :: "challenge_state \<Rightarrow> bytes \<Rightarrow> nat \<Rightarrow> (sw \<times> bytes \<times> nat) option" where
  "handle_get_challenge c io_buffer tx = do {
     io_buffer \<leftarrow> wr_n io_buffer 0 (be_bytes 4 (unat (get_challenge c)));
     Some (SWO_SUCCESS, io_buffer, tx + 4) }"

section \<open>Readers\<close>

record tlv_sdk =
  sdk_u8 :: "bytes \<Rightarrow> uint8 \<Rightarrow> bool \<times> uint8"
  sdk_u16 :: "bytes \<Rightarrow> uint16 \<Rightarrow> bool \<times> uint16"
  sdk_u32 :: "bytes \<Rightarrow> uint32 \<Rightarrow> bool \<times> uint32"
  sdk_u64 :: "bytes \<Rightarrow> uint64 \<Rightarrow> bool \<times> uint64"
  sdk_enforce_u8 :: "bytes \<Rightarrow> uint8 \<Rightarrow> bool"
  sdk_buffer :: "bytes \<Rightarrow> nat \<Rightarrow> nat \<Rightarrow> bytes option"
  sdk_string :: "bytes \<Rightarrow> string \<Rightarrow> nat \<Rightarrow> nat \<Rightarrow> bool \<times> string"
  sdk_printable :: "string \<Rightarrow> bool"

definition MAX_VALID_CHAIN_ID :: uint64 where "MAX_VALID_CHAIN_ID = 0x7FFFFFFFFFFFFFDB"

definition tlv_check_challenge :: "tlv_sdk \<Rightarrow> challenge_state \<Rightarrow> bytes \<Rightarrow> bool" where
  "tlv_check_challenge K c data =
     (case sdk_u32 K data 0 of
        (False, _) \<Rightarrow> False
      | (True, received) \<Rightarrow> check_challenge c received)"

definition tlv_get_chain_id :: "tlv_sdk \<Rightarrow> bytes \<Rightarrow> uint64 option \<Rightarrow> bool \<times> uint64 option" where
  "tlv_get_chain_id K data chain_id =
     (case chain_id of
        None \<Rightarrow> (False, None)
      | Some old \<Rightarrow>
          (case sdk_u64 K data old of
             (False, c) \<Rightarrow> (False, Some c)
           | (True, c) \<Rightarrow> if MAX_VALID_CHAIN_ID < c \<or> c = 0 then (False, Some c) else (True, Some c)))"

definition tlv_get_hash :: "tlv_sdk \<Rightarrow> bytes \<Rightarrow> bytes option \<Rightarrow> uint16 \<Rightarrow> (bool \<times> bytes option) option" where
  "tlv_get_hash K data out size16 =
     (case out of
        None \<Rightarrow> Some (False, None)
      | Some buf \<Rightarrow>
          if size16 = 0 then Some (False, Some buf)
          else (case sdk_buffer K data (unat size16) (unat size16) of
                  None \<Rightarrow> Some (False, Some buf)
                | Some hash \<Rightarrow> do { buf \<leftarrow> wr_n buf 0 hash; Some (True, Some buf) }))"

definition tlv_get_address :: "tlv_sdk \<Rightarrow> bytes \<Rightarrow> bytes option \<Rightarrow> (bool \<times> bytes option) option" where
  "tlv_get_address K data out =
     (case out of
        None \<Rightarrow> Some (False, None)
      | Some buf \<Rightarrow>
          (case sdk_buffer K data ADDRESS_LENGTH ADDRESS_LENGTH of
             None \<Rightarrow> Some (False, Some buf)
           | Some address \<Rightarrow> do {
               buf \<leftarrow> buf_shrink_expand (Some address) (length address) buf ADDRESS_LENGTH;
               Some (True, Some buf) }))"

definition tlv_get_printable_string ::
  "tlv_sdk \<Rightarrow> bytes \<Rightarrow> string option \<Rightarrow> uint32 \<Rightarrow> uint32 \<Rightarrow> bool \<times> string option" where
  "tlv_get_printable_string K data out min_len max_len =
     (case out of
        None \<Rightarrow> (False, None)
      | Some buf \<Rightarrow>
          if max_len < min_len then (False, Some buf)
          else (case sdk_string K data buf (unat min_len) (unat max_len) of
                  (False, buf) \<Rightarrow> (False, Some buf)
                | (True, buf) \<Rightarrow> (sdk_printable K (c_str buf), Some buf)))"

definition tlv_get_uint16_range ::
  "tlv_sdk \<Rightarrow> bytes \<Rightarrow> uint16 option \<Rightarrow> uint16 \<Rightarrow> uint16 \<Rightarrow> bool \<times> uint16 option" where
  "tlv_get_uint16_range K data out min_val max_val =
     (case out of
        None \<Rightarrow> (False, None)
      | Some old \<Rightarrow>
          if max_val < min_val then (False, Some old)
          else (case sdk_u16 K data 0 of
                  (False, _) \<Rightarrow> (False, Some old)
                | (True, x) \<Rightarrow> if x < min_val \<or> max_val < x then (False, Some old) else (True, Some x)))"

definition tlv_get_uint8_range ::
  "tlv_sdk \<Rightarrow> bytes \<Rightarrow> uint8 option \<Rightarrow> uint8 \<Rightarrow> uint8 \<Rightarrow> bool \<times> uint8 option" where
  "tlv_get_uint8_range K data out min_val max_val =
     (case out of
        None \<Rightarrow> (False, None)
      | Some old \<Rightarrow>
          if max_val < min_val then (False, Some old)
          else (case sdk_u8 K data 0 of
                  (False, _) \<Rightarrow> (False, Some old)
                | (True, x) \<Rightarrow> if x < min_val \<or> max_val < x then (False, Some old) else (True, Some x)))"

section \<open>The readers deliver values in range\<close>

text \<open>What the SDK documents of its buffer extraction: the bytes of the field, when their number is in
  the range.\<close>

definition buffer_contract :: "tlv_sdk \<Rightarrow> bool" where
  "buffer_contract K \<longleftrightarrow>
     (\<forall>data lo hi b. sdk_buffer K data lo hi = Some b \<longrightarrow> b = data \<and> lo \<le> length b \<and> length b \<le> hi)"

lemma buffer_contractD:
  "buffer_contract K \<Longrightarrow> sdk_buffer K data lo hi = Some b \<Longrightarrow> b = data \<and> lo \<le> length b \<and> length b \<le> hi"
  unfolding buffer_contract_def by blast

lemma tlv_get_uint16_range_bounds:
  assumes "tlv_get_uint16_range K data (Some old) lo hi = (ok, out)"
  shows "\<exists>x. out = Some x \<and> (if ok then lo \<le> x \<and> x \<le> hi \<and> sdk_u16 K data 0 = (True, x) else x = old)"
  using assms by (auto simp: tlv_get_uint16_range_def not_less split: if_splits prod.splits bool.splits)

lemma tlv_get_uint8_range_bounds:
  assumes "tlv_get_uint8_range K data (Some old) lo hi = (ok, out)"
  shows "\<exists>x. out = Some x \<and> (if ok then lo \<le> x \<and> x \<le> hi \<and> sdk_u8 K data 0 = (True, x) else x = old)"
  using assms by (auto simp: tlv_get_uint8_range_def not_less split: if_splits prod.splits bool.splits)

lemma tlv_get_chain_id_bounds:
  "tlv_get_chain_id K data (Some old) = (True, out) \<Longrightarrow>
   \<exists>c. out = Some c \<and> 0 < c \<and> unat c \<le> 9223372036854775771 \<and> sdk_u64 K data old = (True, c)"
  by (auto simp: tlv_get_chain_id_def MAX_VALID_CHAIN_ID_def not_less word_le_nat_alt word_neq_0_conv
      split: if_splits prod.splits bool.splits)

lemma tlv_get_address_total:
  assumes K: "buffer_contract K" and len: "length buf = 20"
  shows "\<exists>ok buf'. tlv_get_address K data (Some buf) = Some (ok, Some buf') \<and> length buf' = 20 \<and>
     (if ok then buf' = data else buf' = buf)"
proof (cases "sdk_buffer K data 20 20")
  case None
  then show ?thesis using len by (simp add: tlv_get_address_def)
next
  case (Some b)
  have b: "b = data" "length b = 20"
    using buffer_contractD [OF K Some] by auto
  then have "buf_shrink_expand (Some b) 20 buf 20 = Some (resize_be 20 (take 20 b) @ drop 20 buf)"
    using len by (intro buf_shrink_expand_correct) simp_all
  moreover have "resize_be 20 (take 20 b) = b" using b by (simp add: resize_be_shorter)
  ultimately show ?thesis using Some b len by (simp add: tlv_get_address_def)
qed

lemma tlv_get_hash_total:
  assumes K: "buffer_contract K" and len: "unat n \<le> length buf"
  shows "\<exists>ok buf'. tlv_get_hash K data (Some buf) n = Some (ok, Some buf') \<and> length buf' = length buf \<and>
     (if ok then take (unat n) buf' = data \<and> drop (unat n) buf' = drop (unat n) buf \<and> 0 < unat n else buf' = buf)"
proof (cases "n = 0 \<or> sdk_buffer K data (unat n) (unat n) = None")
  case True
  then have "tlv_get_hash K data (Some buf) n = Some (False, Some buf)"
    by (elim disjE) (simp_all add: tlv_get_hash_def)
  then show ?thesis by simp
next
  case False
  then obtain b where s: "sdk_buffer K data (unat n) (unat n) = Some b" and n: "n \<noteq> 0" by auto
  have b: "b = data" "length b = unat n"
    using buffer_contractD [OF K s] by auto
  have "0 < unat n" using n by (simp add: unat_gt_0)
  then show ?thesis using s n b len by (simp add: tlv_get_hash_def wr_n_def)
qed

lemma check_challenge_fresh:
  "tlv_check_challenge K (roll_challenge r c) data \<longleftrightarrow> sdk_u32 K data 0 = (True, r)"
  by (auto simp: tlv_check_challenge_def check_challenge_def roll_challenge_def split: prod.splits bool.splits)

section \<open>Handlers run by a generated parser\<close>

text \<open>The handlers are called field by field, until one of them fails.\<close>

fun run_fields :: "(nat \<Rightarrow> 'd \<Rightarrow> 'c \<Rightarrow> (bool \<times> 'c) option) \<Rightarrow> (nat \<times> 'd) list \<Rightarrow> 'c \<Rightarrow> (bool \<times> 'c) option" where
  "run_fields handle [] ctx = Some (True, ctx)"
| "run_fields handle ((tag, data) # fs) ctx = do {
     (ok, ctx) \<leftarrow> handle tag data ctx;
     if ok then run_fields handle fs ctx else Some (False, ctx) }"

text \<open>What a parser leaves in the context is what the handlers made of some fields of the payload, and
  on success of all of them, the tags of \<open>U\<close> at most once.  The last component of its result is
  the set of tags that were received.\<close>

definition parser_contract ::
  "nat set \<Rightarrow> (nat \<Rightarrow> 'd \<Rightarrow> 'c \<Rightarrow> (bool \<times> 'c) option) \<Rightarrow> (bytes \<Rightarrow> 'c \<Rightarrow> bool \<times> 'c \<times> nat set) \<Rightarrow> bool" where
  "parser_contract U handle parser \<longleftrightarrow>
     (\<forall>buf ctx ok ctx' tags. parser buf ctx = (ok, ctx', tags) \<longrightarrow>
        (\<exists>flds r. run_fields handle flds ctx = Some (r, ctx') \<and>
           (ok \<longrightarrow> r \<and> tags = fst ` set flds \<and> distinct (filter (\<lambda>t. t \<in> U) (map fst flds)))))"

lemma parser_contractD:
  assumes "parser_contract U handle parser" "parser buf ctx = (ok, ctx', tags)"
  obtains flds r where "run_fields handle flds ctx = Some (r, ctx')"
    "ok \<longrightarrow> r \<and> tags = fst ` set flds \<and> distinct (filter (\<lambda>t. t \<in> U) (map fst flds))"
proof -
  have "\<exists>flds r. run_fields handle flds ctx = Some (r, ctx') \<and>
      (ok \<longrightarrow> r \<and> tags = fst ` set flds \<and> distinct (filter (\<lambda>t. t \<in> U) (map fst flds)))"
    using assms(1) [unfolded parser_contract_def, rule_format, OF assms(2)] .
  then show ?thesis using that by (elim exE conjE)
qed

text \<open>The contract can be met: a parser that finds the same fields in every payload.\<close>

definition fields_parser ::
  "(nat \<Rightarrow> 'd \<Rightarrow> 'c \<Rightarrow> (bool \<times> 'c) option) \<Rightarrow> (nat \<times> 'd) list \<Rightarrow> bytes \<Rightarrow> 'c \<Rightarrow> bool \<times> 'c \<times> nat set" where
  "fields_parser handle flds buf ctx =
     (case run_fields handle flds ctx of
        None \<Rightarrow> (False, ctx, {})
      | Some (r, ctx') \<Rightarrow> (r, ctx', fst ` set flds))"

lemma fields_parser_contract:
  assumes d: "distinct (filter (\<lambda>t. t \<in> U) (map fst flds))"
  shows "parser_contract U handle (fields_parser handle flds)"
  unfolding parser_contract_def
proof (intro allI impI)
  fix buf ctx ok ctx' tags
  assume p: "fields_parser handle flds buf ctx = (ok, ctx', tags)"
  show "\<exists>flds r. run_fields handle flds ctx = Some (r, ctx') \<and>
      (ok \<longrightarrow> r \<and> tags = fst ` set flds \<and> distinct (filter (\<lambda>t. t \<in> U) (map fst flds)))"
  proof (cases "run_fields handle flds ctx")
    case None
    then show ?thesis using p by (intro exI [of _ "[]"] exI [of _ True]) (simp add: fields_parser_def)
  next
    case (Some rc)
    then show ?thesis using p d
      by (intro exI [of _ flds] exI [of _ "fst rc"]) (auto simp: fields_parser_def split: prod.splits)
  qed
qed

lemma run_fields_invariant:
  assumes "\<And>tag data c r c'. handle tag data c = Some (r, c') \<Longrightarrow> P c \<Longrightarrow> P c'"
  shows "run_fields handle fs c = Some (r, c') \<Longrightarrow> P c \<Longrightarrow> P c'"
  using assms
proof (induction handle fs c rule: run_fields.induct)
  case (2 handle tag data fs ctx)
  then show ?case by (auto split: bind_splits if_splits)
qed auto

text \<open>The last word on a component of the context is that of the one field that may set it.\<close>

lemma run_fields_set:
  assumes "run_fields handle fs c = Some (True, c')" "distinct (map fst fs)" "(tag, data) \<in> set fs" "I c"
    and inv: "\<And>t d c r c'. handle t d c = Some (r, c') \<Longrightarrow> I c \<Longrightarrow> I c'"
    and set: "\<And>d c c'. handle tag d c = Some (True, c') \<Longrightarrow> I c \<Longrightarrow> Q d (get c')"
    and keep: "\<And>t d c c'. t \<noteq> tag \<Longrightarrow> handle t d c = Some (True, c') \<Longrightarrow> get c' = get c"
  shows "Q data (get c')"
  using assms(1-4)
proof (induction fs arbitrary: c)
  case (Cons f fs)
  obtain t d where f: "f = (t, d)" by (cases f)
  obtain c1 where h: "handle t d c = Some (True, c1)" "run_fields handle fs c1 = Some (True, c')"
    using Cons.prems(1) by (auto simp: f split: bind_splits if_splits)
  show ?case
  proof (cases "t = tag")
    case True
    then have d: "d = data" using Cons.prems(2,3) by (force simp: f)
    have "get c' = get c1"
    proof -
      have "tag \<notin> fst ` set fs" using Cons.prems(2) by (simp add: f True)
      then show ?thesis using h(2)
      proof (induction fs arbitrary: c1)
        case (Cons g gs)
        obtain t' d' where g: "g = (t', d')" by (cases g)
        then obtain c2 where "handle t' d' c1 = Some (True, c2)" "run_fields handle gs c2 = Some (True, c')"
          using Cons.prems(2) by (auto split: bind_splits if_splits)
        then show ?case using Cons.IH [of c2] Cons.prems(1) keep [of t' d' c1 c2] g by auto
      qed simp
    qed
    then show ?thesis using set h(1) True d Cons.prems(4) by simp
  next
    case False
    then show ?thesis using Cons.IH [OF h(2)] Cons.prems(2,3,4) inv [OF h(1)] by (auto simp: f)
  qed
qed simp

end
