(* ===== verification/App_Context.thy ===== *)
theory App_Context
  imports Prelude
begin

text \<open>
  Model of \<open>parseBip32\<close> of \<open>src/app_context.c\<close>, with which every signing command
  starts: it splits a derivation path off the front of an APDU.
\<close>

record bip32_path_t =
  bip32_length :: uint8
  bip32_path :: "uint32 list"

text \<open>
  \<open>bip32_path_read data data_len n\<close> is the SDK's reader.  The code passes it the address of
  \<open>dataLength\<close> (parameter \<open>addr\<close>) where the number of remaining bytes is meant.
  The result is the advanced pointer (\<open>None\<close> for null), the remaining length and the path.
\<close>

definition parseBip32 ::
  "(bytes \<Rightarrow> nat \<Rightarrow> nat \<Rightarrow> uint32 list option) \<Rightarrow> nat \<Rightarrow> bytes \<Rightarrow> uint8 \<Rightarrow> bip32_path_t
    \<Rightarrow> (bytes option \<times> uint8 \<times> bip32_path_t) option" where
  "parseBip32 bip32_path_read addr data dataLength b =
     (if dataLength < 1 then Some (None, dataLength, b)
      else do {
        l \<leftarrow> rd data 0;
        let b = b\<lparr>bip32_length := l\<rparr>;
        let data = drop 1 data;
        let dataLength = dataLength - 1;
        if unat dataLength < 4 * unat l then Some (None, dataLength, b)
        else (case bip32_path_read data addr (unat l) of
                None \<Rightarrow> Some (None, dataLength, b)
              | Some p \<Rightarrow> Some (Some (drop (unat l * 4) data), dataLength - l * 4, b\<lparr>bip32_path := p\<rparr>)) })"

text \<open>On success the pointer is advanced within the APDU by exactly the bytes that the
  remaining length loses, and the path was read from bytes that are all present.\<close>

lemma parseBip32_safe:
  assumes "unat len = length data"
  shows "\<exists>r len' b'. parseBip32 rdp addr data len b = Some (r, len', b') \<and>
    (\<forall>rest. r = Some rest \<longrightarrow>
       rest = drop (1 + 4 * unat (hd data)) data \<and> length rest = unat len' \<and>
       1 + 4 * unat (hd data) \<le> length data \<and> rdp (tl data) addr (unat (hd data)) = Some (bip32_path b'))"
proof (cases "len < 1")
  case True
  then show ?thesis by (simp add: parseBip32_def)
next
  case False
  then have nz: "0 < unat len" by (simp add: word_less_nat_alt)
  then obtain l t where d: "data = l # t" using assms by (cases data) auto
  have l1: "unat (len - 1) = length t" using nz assms d by (simp add: unat_sub_le word_le_nat_alt)
  show ?thesis
  proof (cases "length t < 4 * unat l \<or> rdp t addr (unat l) = None")
    case True
    then show ?thesis using False d l1 by (auto simp: parseBip32_def rd_def Let_def)
  next
    case ok: False
    then obtain p where p: "rdp t addr (unat l) = Some p" and le: "4 * unat l \<le> length t" by auto
    have "length t < 256" using l1 unat_word8_lt [of "len - 1"] by simp
    then have u4: "unat (l * 4) = 4 * unat l" using le by (simp add: unat_word_ariths)
    then have "unat (len - 1 - l * 4) = length t - 4 * unat l"
      using le l1 by (simp add: unat_sub_le word_le_nat_alt)
    then show ?thesis using False d l1 p le
      by (simp add: parseBip32_def rd_def Let_def mult.commute)
  qed
qed

end
