(* ===== verification/Network.thy ===== *)
theory Network
  imports Buf_Utils
begin

text \<open>
  Model of \<open>src/network.c\<close>: the table of known networks, the lookup that lets networks loaded at
  run time override it, and the predicates that decide for which chains the application signs.
  The list of dynamic networks and the configuration of the application are arguments.
\<close>

section \<open>Data\<close>

record network_info =
  net_name :: string
  net_ticker :: string
  net_chain_id :: uint64

record chain_config =
  cfg_ticker :: string
  cfg_chain_id :: uint64

text \<open>\<open>caller_app_t\<close> of the SDK, as far as it is read here.\<close>

datatype caller_type = CALLER_TYPE_CLONE | CALLER_TYPE_PLUGIN

record caller_app =
  caller_type :: caller_type
  caller_name :: string

definition Net :: "uint64 \<Rightarrow> string \<Rightarrow> string \<Rightarrow> network_info" where
  "Net chain_id name ticker = \<lparr>net_name = name, net_ticker = ticker, net_chain_id = chain_id\<rparr>"

definition g_unknown_ticker :: string where "g_unknown_ticker = ''???''"

definition ETHEREUM_MAINNET_CHAINID :: uint64 where "ETHEREUM_MAINNET_CHAINID = 1"

definition NETWORK_MAPPING :: "network_info list" where
  "NETWORK_MAPPING =
    [Net 1 ''Ethereum'' ''ETH'',
     Net 3 ''Ropsten'' ''ETH'',
     Net 4 ''Rinkeby'' ''ETH'',
     Net 5 ''Goerli'' ''ETH'',
     Net 10 ''OP Mainnet'' ''ETH'',
     Net 14 ''Flare'' ''FLR'',
     Net 16 ''Flare Coston'' ''FLR'',
     Net 19 ''Songbird'' ''SGB'',
     Net 24 ''KardiaChain'' ''KAI'',
     Net 25 ''Cronos'' ''CRO'',
     Net 30 ''Rootstock'' ''RBTC'',
     Net 40 ''Telos EVM Mainnet'' ''TLOS'',
     Net 42 ''LUKSO'' ''LYX'',
     Net 50 ''XDC'' ''XDC'',
     Net 51 ''Apothemnetwork'' ''TXDC'',
     Net 56 ''BSC'' ''BNB'',
     Net 57 ''Syscoin'' ''SYS'',
     Net 61 ''Ethereum Classic'' ''ETC'',
     Net 66 ''OKXChain'' ''OKT'',
     Net 82 ''Meter'' ''MTR'',
     Net 99 ''POA'' ''POA'',
     Net 100 ''Gnosis'' ''xDAI'',
     Net 106 ''Velas EVM'' ''VLX'',
     Net 137 ''Polygon'' ''POL'',
     Net 138 ''Defi Oracle Meta'' ''ETH'',
     Net 146 ''Sonic'' ''S'',
     Net 196 ''OKBChain Mainnet'' ''OKB'',
     Net 199 ''BTTC'' ''BTT'',
     Net 246 ''EnergyWebChain'' ''EWT'',
     Net 248 ''Oasys'' ''OAS'',
     Net 250 ''Fantom'' ''FTM'',
     Net 288 ''Boba Network'' ''ETH'',
     Net 300 ''ZKsync Sepolia Testnet'' ''ETH'',
     Net 321 ''KCC'' ''KCS'',
     Net 324 ''ZKsync Era'' ''ETH'',
     Net 336 ''Shiden'' ''SDN'',
     Net 369 ''PulseChain'' ''PLS'',
     Net 592 ''Astar'' ''ASTR'',
     Net 888 ''Wanchain'' ''WAN'',
     Net 943 ''PulseChain Testnet'' ''tPLS'',
     Net 999 ''HyperEVM'' ''HYPE'',
     Net 1030 ''Conflux'' ''CFX'',
     Net 1088 ''Metis Andromeda'' ''METIS'',
     Net 1101 ''Polygon zkEVM'' ''ETH'',
     Net 1116 ''Core'' ''CORE'',
     Net 1135 ''Lisk'' ''ETH'',
     Net 1284 ''Moonbeam'' ''GLMR'',
     Net 1285 ''Moonriver'' ''MOVR'',
     Net 1329 ''Sei'' ''SEI'',
     Net 1818 ''Cube'' ''CUBE'',
     Net 1868 ''Soneium'' ''ETH'',
     Net 1907 ''Bitcichain'' ''BITCI'',
     Net 1923 ''Swellchain'' ''ETH'',
     Net 1924 ''Swellchain Testnet'' ''ETH'',
     Net 1946 ''Soneium Testnet Minato'' ''ETH'',
     Net 2222 ''Kava EVM'' ''KAVA'',
     Net 3776 ''Astar zkEVM'' ''ETH'',
     Net 4201 ''LUKSO Testnet'' ''LYXt'',
     Net 4202 ''Lisk Sepolia Testnet'' ''ETH'',
     Net 4689 ''IoTeX'' ''IOTX'',
     Net 4690 ''IoTeX Testnet'' ''IOTX'',
     Net 4919 ''Venidium'' ''XVM'',
     Net 5000 ''Mantle'' ''MNT'',
     Net 5003 ''Mantle Sepolia'' ''MNT'',
     Net 5165 ''Bahamut'' ''FTN'',
     Net 7000 ''ZetaChain'' ''ZETA'',
     Net 7171 ''Bitrock Mainnet'' ''BROCK'',
     Net 7341 ''Shyft'' ''SHFT'',
     Net 8217 ''Kaia Mainnet'' ''KAIA'',
     Net 8453 ''Base'' ''ETH'',
     Net 9001 ''Evmos'' ''EVMOS'',
     Net 10200 ''Chiado'' ''xDAI'',
     Net 10507 ''Numbers Protocol'' ''NUM'',
     Net 17000 ''Holesky'' ''ETH'',
     Net 39797 ''Energi'' ''NRG'',
     Net 42161 ''Arbitrum'' ''ETH'',
     Net 42220 ''Celo'' ''CELO'',
     Net 42793 ''Etherlink Mainnet'' ''XTZ'',
     Net 43114 ''Avalanche'' ''AVAX'',
     Net 44787 ''Celo Alfajores'' ''aCELO'',
     Net 47763 ''Neo X Mainnet'' ''GAS'',
     Net 52014 ''Electroneum'' ''ETN'',
     Net 59141 ''Linea Sepolia'' ''ETH'',
     Net 59144 ''Linea'' ''ETH'',
     Net 60808 ''BOB'' ''ETH'',
     Net 62320 ''Celo Baklava'' ''bCELO'',
     Net 62621 ''Multivac'' ''MTV'',
     Net 73799 ''Volta'' ''VOLTA'',
     Net 80094 ''Berachain'' ''BERA'',
     Net 81457 ''Blast'' ''ETH'',
     Net 84532 ''Base Sepolia'' ''ETH'',
     Net 153153 ''Odyssey Chain'' ''DIONE'',
     Net 200810 ''Bitlayer Testnet'' ''BTC'',
     Net 200901 ''Bitlayer'' ''BTC'',
     Net 421614 ''Arbitrum Sepolia'' ''ETH'',
     Net 534351 ''Scroll Sepolia'' ''ETH'',
     Net 534352 ''Scroll'' ''ETH'',
     Net 534353 ''Scroll Alpha'' ''ETH'',
     Net 543210 ''Zero'' ''ETH'',
     Net 5201420 ''Electroneum Testnet'' ''ETN'',
     Net 11155111 ''Sepolia'' ''ETH'',
     Net 11155420 ''OP Sepolia'' ''ETH'',
     Net 12227332 ''Neo X Testnet'' ''GAS'',
     Net 20531811 ''TecraTestnet'' ''TCR'',
     Net 20531812 ''Tecra'' ''TCR'',
     Net 168587773 ''Blast Sepolia'' ''ETH'',
     Net 245022926 ''Neon EVM Devnet'' ''NEON'',
     Net 245022934 ''Neon EVM Mainnet'' ''NEON'',
     Net 994873017 ''Lumia'' ''LUMIA'',
     Net 1666600000 ''Harmony ONE S0'' ''ONE'',
     Net 1666600001 ''Harmony ONE S1'' ''ONE'',
     Net 11297108109 ''Palm Network'' ''PALM'']"

section \<open>Lookup\<close>

definition find_dynamic_network_by_chain_id :: "network_info list \<Rightarrow> uint64 \<Rightarrow> network_info option" where
  "find_dynamic_network_by_chain_id dyn chain_id = find (\<lambda>n. net_chain_id n = chain_id) dyn"

definition get_network_from_chain_id :: "network_info list \<Rightarrow> uint64 \<Rightarrow> bool \<Rightarrow> network_info option" where
  "get_network_from_chain_id dyn chain_id dynamic =
     (if chain_id \<noteq> 0 then
        (case (if dynamic then find_dynamic_network_by_chain_id dyn chain_id else None) of
           Some n \<Rightarrow> Some n
         | None \<Rightarrow> find (\<lambda>n. net_chain_id n = chain_id) NETWORK_MAPPING)
      else None)"

definition get_network_ticker_from_chain_id :: "network_info list \<Rightarrow> uint64 \<Rightarrow> bool \<Rightarrow> string option" where
  "get_network_ticker_from_chain_id dyn chain_id dynamic =
     map_option net_ticker (get_network_from_chain_id dyn chain_id dynamic)"

definition get_network_name_from_chain_id :: "network_info list \<Rightarrow> uint64 \<Rightarrow> string option" where
  "get_network_name_from_chain_id dyn chain_id =
     map_option net_name (get_network_from_chain_id dyn chain_id True)"

text \<open>\<open>format_u64\<close> is the SDK's formatter into a buffer of the given size.\<close>

definition get_network_as_string_from_chain_id ::
  "(nat \<Rightarrow> uint64 \<Rightarrow> string option) \<Rightarrow> network_info list \<Rightarrow> nat \<Rightarrow> uint64 \<Rightarrow> string option" where
  "get_network_as_string_from_chain_id format_u64 dyn out_size chain_id =
     (case get_network_name_from_chain_id dyn chain_id of
        None \<Rightarrow> format_u64 out_size chain_id
      | Some name \<Rightarrow> Some (strlcpy out_size name))"

definition chain_is_ethereum_compatible :: "network_info list \<Rightarrow> uint64 \<Rightarrow> bool" where
  "chain_is_ethereum_compatible dyn chain_id = (get_network_from_chain_id dyn chain_id True \<noteq> None)"

definition get_displayable_ticker :: "network_info list \<Rightarrow> uint64 \<Rightarrow> chain_config \<Rightarrow> bool \<Rightarrow> string" where
  "get_displayable_ticker dyn chain_id chain_cfg dynamic =
     (case get_network_ticker_from_chain_id dyn chain_id dynamic of
        None \<Rightarrow> if chain_id = cfg_chain_id chain_cfg then cfg_ticker chain_cfg else g_unknown_ticker
      | Some ticker \<Rightarrow> ticker)"

definition app_compatible_with_chain_id :: "chain_config \<Rightarrow> network_info list \<Rightarrow> uint64 \<Rightarrow> bool" where
  "app_compatible_with_chain_id cfg dyn chain_id \<longleftrightarrow> cfg_chain_id cfg = chain_id \<or>
     chain_is_ethereum_compatible dyn (cfg_chain_id cfg) \<and> chain_is_ethereum_compatible dyn chain_id"

definition get_clone_network_name :: "caller_app option \<Rightarrow> string option" where
  "get_clone_network_name app =
     (case app of
        None \<Rightarrow> None
      | Some a \<Rightarrow> if caller_type a \<noteq> CALLER_TYPE_CLONE then None else Some (caller_name a))"

definition chain_id_is_signable :: "chain_config \<Rightarrow> network_info list \<Rightarrow> uint64 \<Rightarrow> bool" where
  "chain_id_is_signable cfg dyn chain_id =
     (if cfg_chain_id cfg = chain_id then True
      else if cfg_chain_id cfg \<noteq> ETHEREUM_MAINNET_CHAINID then False
      else chain_is_ethereum_compatible dyn chain_id)"

section \<open>The table\<close>

text \<open>No chain is listed twice, the reserved identifier zero is not listed, and every name fits the
  buffers that it is copied to.\<close>

definition mapping_ok :: "network_info list \<Rightarrow> bool" where
  "mapping_ok ns \<longleftrightarrow> sorted_wrt (\<lambda>a b. net_chain_id a < net_chain_id b) ns \<and>
     list_all (\<lambda>n. 0 < net_chain_id n \<and> net_name n \<noteq> [] \<and> length (net_name n) < 32 \<and> net_ticker n \<noteq> []) ns"

fun increasing :: "uint64 \<Rightarrow> network_info list \<Rightarrow> bool" where
  "increasing c [] = True"
| "increasing c (n # ns) = (c < net_chain_id n \<and> increasing (net_chain_id n) ns)"

lemma increasing_sorted:
  "increasing c ns \<Longrightarrow> sorted_wrt (\<lambda>a b. net_chain_id a < net_chain_id b) ns \<and> (\<forall>n \<in> set ns. c < net_chain_id n)"
proof (induction ns arbitrary: c)
  case (Cons n ns)
  then show ?case using Cons.IH [of "net_chain_id n"] by (auto intro: less_trans)
qed simp

lemma NETWORK_MAPPING_increasing: "increasing 0 NETWORK_MAPPING"
  by (simp add: NETWORK_MAPPING_def Net_def)

lemma NETWORK_MAPPING_names:
  "list_all (\<lambda>n. net_name n \<noteq> [] \<and> length (net_name n) < 32 \<and> net_ticker n \<noteq> []) NETWORK_MAPPING"
  by (simp add: NETWORK_MAPPING_def Net_def)

lemma NETWORK_MAPPING_ok: "mapping_ok NETWORK_MAPPING"
  using increasing_sorted [OF NETWORK_MAPPING_increasing] NETWORK_MAPPING_names
  by (simp add: mapping_ok_def list_all_iff)

lemma sorted_find:
  "sorted_wrt (\<lambda>a b. f a < (f b :: 'b::linorder)) xs \<Longrightarrow> x \<in> set xs \<Longrightarrow> find (\<lambda>y. f y = f x) xs = Some x"
  by (induction xs) auto

lemma find_chain_id: "find (\<lambda>n. net_chain_id n = c) ns = Some n \<Longrightarrow> n \<in> set ns \<and> net_chain_id n = c"
  by (auto simp: find_Some_iff)

text \<open>What a lookup returns: an entry of this chain, the dynamic one first.\<close>

lemma get_network_from_chain_id_Some:
  assumes "get_network_from_chain_id dyn c d = Some n"
  shows "net_chain_id n = c \<and> c \<noteq> 0 \<and> (d \<and> n \<in> set dyn \<or>
     n \<in> set NETWORK_MAPPING \<and> (d \<longrightarrow> (\<forall>m \<in> set dyn. net_chain_id m \<noteq> c)))"
  using assms
  by (auto simp: get_network_from_chain_id_def find_dynamic_network_by_chain_id_def find_None_iff
      split: if_splits option.splits dest!: find_chain_id)

lemma get_network_from_chain_id_known:
  assumes "n \<in> set NETWORK_MAPPING"
  shows "get_network_from_chain_id dyn (net_chain_id n) False = Some n"
proof -
  have m: "sorted_wrt (\<lambda>a b. net_chain_id a < net_chain_id b) NETWORK_MAPPING" "0 < net_chain_id n"
    using NETWORK_MAPPING_ok assms by (auto simp: mapping_ok_def list_all_iff)
  then have "find (\<lambda>y. net_chain_id y = net_chain_id n) NETWORK_MAPPING = Some n"
    using sorted_find [of net_chain_id NETWORK_MAPPING n] assms by simp
  then show ?thesis using m by (auto simp: get_network_from_chain_id_def)
qed

lemma chain_is_ethereum_compatible_iff:
  "chain_is_ethereum_compatible dyn c \<longleftrightarrow> c \<noteq> 0 \<and> (\<exists>n \<in> set (dyn @ NETWORK_MAPPING). net_chain_id n = c)"
proof -
  have f: "find (\<lambda>n. net_chain_id n = c) ns = None \<longleftrightarrow> (\<forall>n \<in> set ns. net_chain_id n \<noteq> c)" for ns
    by (auto simp: find_None_iff)
  have "chain_is_ethereum_compatible dyn c \<longleftrightarrow> c \<noteq> 0 \<and>
      \<not> (find (\<lambda>n. net_chain_id n = c) dyn = None \<and> find (\<lambda>n. net_chain_id n = c) NETWORK_MAPPING = None)"
    by (simp add: chain_is_ethereum_compatible_def get_network_from_chain_id_def find_dynamic_network_by_chain_id_def
        split: option.splits)
  then show ?thesis unfolding f by auto
qed

lemma chain_id_is_signable_iff:
  "chain_id_is_signable cfg dyn c \<longleftrightarrow> c = cfg_chain_id cfg \<or>
     cfg_chain_id cfg = 1 \<and> c \<noteq> 0 \<and> (\<exists>n \<in> set (dyn @ NETWORK_MAPPING). net_chain_id n = c)"
  by (auto simp: chain_id_is_signable_def ETHEREUM_MAINNET_CHAINID_def chain_is_ethereum_compatible_iff)

lemma signable_imp_compatible: "chain_id_is_signable cfg dyn c \<Longrightarrow> app_compatible_with_chain_id cfg dyn c"
proof -
  assume s: "chain_id_is_signable cfg dyn c"
  have "get_network_from_chain_id dyn 1 True \<noteq> None"
  proof -
    have "Net 1 ''Ethereum'' ''ETH'' \<in> set NETWORK_MAPPING" by (simp add: NETWORK_MAPPING_def)
    then have "find (\<lambda>n. net_chain_id n = 1) NETWORK_MAPPING \<noteq> None" by (auto simp: find_None_iff Net_def)
    then show ?thesis by (auto simp: get_network_from_chain_id_def split: option.splits)
  qed
  then show ?thesis using s
    by (auto simp: chain_id_is_signable_def app_compatible_with_chain_id_def chain_is_ethereum_compatible_def
        ETHEREUM_MAINNET_CHAINID_def split: if_splits)
qed

lemma displayable_ticker_nonempty:
  assumes "\<forall>n \<in> set dyn. net_ticker n \<noteq> []" "cfg_ticker cfg \<noteq> []"
  shows "get_displayable_ticker dyn c cfg d \<noteq> []"
proof -
  have "net_ticker n \<noteq> []" if "get_network_from_chain_id dyn c d = Some n" for n
    using get_network_from_chain_id_Some [OF that] assms(1) NETWORK_MAPPING_ok
    by (auto simp: mapping_ok_def list_all_iff)
  then show ?thesis using assms(2)
    by (auto simp: get_displayable_ticker_def get_network_ticker_from_chain_id_def g_unknown_ticker_def split: option.splits)
qed

end
