(* ===== verification/Auth7702.thy ===== *)
theory Auth7702
  imports Rlp Tlv_Utils App_Context Network
begin

text \<open>
  Model of \<open>src/features/sign_authorization_eip7702\<close>: the hash of an EIP-7702
  authorization, the delegate whitelist, and the command handler
  (\<open>commands_7702.c\<close>, \<open>whitelist_7702.c\<close>, \<open>auth_7702.c\<close>).

  The hash context is the list of the bytes it has absorbed; a call of the hash engine may
  fail at any time.  The SDK's TLV parser, key derivation, number formatting and the review
  screens are parameters, collected in the record \<open>auth_platform\<close>.
\<close>

section \<open>Data\<close>

record s_auth_7702 =
  chainId :: uint64
  nonce :: uint64
  delegate :: bytes

record s_auth_7702_ctx =
  auth_7702 :: s_auth_7702
  received_tags :: "nat set"

definition s_auth_7702_ctx_zero :: s_auth_7702_ctx where
  "s_auth_7702_ctx_zero =
     \<lparr>auth_7702 = \<lparr>chainId = 0, nonce = 0, delegate = replicate ADDRESS_LENGTH 0\<rparr>, received_tags = {}\<rparr>"

definition verify_auth_7702_struct :: "s_auth_7702_ctx \<Rightarrow> bool" where
  "verify_auth_7702_struct ctx \<longleftrightarrow> {0, 1, 2, 3} \<subseteq> received_tags ctx"

definition CHAIN_ID_ALL :: uint64 where "CHAIN_ID_ALL = 0"
definition MAGIC_7702 :: uint8 where "MAGIC_7702 = 5"

section \<open>The whitelist\<close>

record eip7702_whitelist =
  wl_chain_id :: uint64
  wl_name :: string
  wl_address :: bytes

definition EIP7702_WHITELIST :: "eip7702_whitelist list" where
  "EIP7702_WHITELIST =
    [\<lparr>wl_chain_id = 0, wl_name = ''Simple7702Account'',
      wl_address = [0x4C, 0xd2, 0x41, 0xE8, 0xd1, 0x51, 0x0e, 0x30, 0xb2, 0x07,
                    0x63, 0x97, 0xaf, 0xc7, 0x50, 0x8A, 0xe5, 0x9C, 0x66, 0xc9]\<rparr>,
     \<lparr>wl_chain_id = 0, wl_name = ''Ambire EIP-7702 Delegator'',
      wl_address = [0x5A, 0x7F, 0xC1, 0x13, 0x97, 0xE9, 0xa8, 0xAD, 0x41, 0xBF,
                    0x10, 0xbf, 0x13, 0xF2, 0x2B, 0x0a, 0x63, 0xf9, 0x6f, 0x6d]\<rparr>]"

fun whitelist_search :: "eip7702_whitelist list \<Rightarrow> uint64 \<Rightarrow> bytes \<Rightarrow> string option" where
  "whitelist_search [] chain_id address = None"
| "whitelist_search (e # es) chain_id address =
     (let chain_match = (if chain_id = CHAIN_ID_ALL then wl_chain_id e = CHAIN_ID_ALL
                         else wl_chain_id e = CHAIN_ID_ALL \<or> wl_chain_id e = chain_id)
      in if chain_match \<and> wl_address e = address then Some (wl_name e)
         else whitelist_search es chain_id address)"

definition get_delegate_name :: "uint64 \<Rightarrow> bytes \<Rightarrow> string option" where
  "get_delegate_name chain_id address = whitelist_search EIP7702_WHITELIST chain_id address"

section \<open>State and platform\<close>

datatype ui_screen =
    No_screen
  | Error_no_7702
  | Error_no_7702_whitelist
  | Sign_7702_revocation
  | Sign_7702_auth

record auth_state =
  g_7702_sw :: sw
  g_7702_hash_ctx :: "bytes option"
  authHash :: bytes
  auth_bip32 :: bip32_path_t
  s_fromAddress :: string
  s_toAddress :: string
  s_network_name :: string
  s_nonce :: string
  screen :: ui_screen
  auth_mem :: mem

record auth_platform =
  ap_sdk :: tlv_sdk
  ap_tlv_parser :: "bytes \<Rightarrow> s_auth_7702_ctx \<Rightarrow> bool \<times> s_auth_7702_ctx \<times> nat set"
  ap_eip7702_enable :: bool
  ap_keccak_init :: bool
  ap_hash_error :: "bytes \<Rightarrow> bytes \<Rightarrow> nat option"
  ap_finalize :: "bytes \<Rightarrow> bytes option"
  ap_public_key_string :: "bip32_path_t \<Rightarrow> uint64 \<Rightarrow> string option"
  ap_networks :: "network_info list"
  ap_format_u64 :: "nat \<Rightarrow> uint64 \<Rightarrow> string option"
  ap_ui_revocation :: bool
  ap_ui_auth :: bool
  ap_bip32_path_read :: "bytes \<Rightarrow> nat \<Rightarrow> nat \<Rightarrow> uint32 list option"
  ap_addr :: nat
  ap_fresh :: "nat \<Rightarrow> uint8"

section \<open>The TLV fields\<close>

definition STRUCT_VERSION :: uint8 where "STRUCT_VERSION = 1"

definition auth_handle_version :: "tlv_sdk \<Rightarrow> bytes \<Rightarrow> s_auth_7702_ctx \<Rightarrow> (bool \<times> s_auth_7702_ctx) option" where
  "auth_handle_version K data ctx = (if \<not> sdk_enforce_u8 K data STRUCT_VERSION then Some (False, ctx) else Some (True, ctx))"

definition handle_delegate_addr :: "tlv_sdk \<Rightarrow> bytes \<Rightarrow> s_auth_7702_ctx \<Rightarrow> (bool \<times> s_auth_7702_ctx) option" where
  "handle_delegate_addr K data ctx = do {
     (ok, out) \<leftarrow> tlv_get_address K data (Some (delegate (auth_7702 ctx)));
     d \<leftarrow> out;
     Some (ok, ctx\<lparr>auth_7702 := (auth_7702 ctx)\<lparr>delegate := d\<rparr>\<rparr>) }"

definition auth_handle_chain_id :: "tlv_sdk \<Rightarrow> bytes \<Rightarrow> s_auth_7702_ctx \<Rightarrow> (bool \<times> s_auth_7702_ctx) option" where
  "auth_handle_chain_id K data ctx =
     (let (ok, c) = sdk_u64 K data (chainId (auth_7702 ctx)) in Some (ok, ctx\<lparr>auth_7702 := (auth_7702 ctx)\<lparr>chainId := c\<rparr>\<rparr>))"

definition auth_handle_nonce :: "tlv_sdk \<Rightarrow> bytes \<Rightarrow> s_auth_7702_ctx \<Rightarrow> (bool \<times> s_auth_7702_ctx) option" where
  "auth_handle_nonce K data ctx =
     (let (ok, n) = sdk_u64 K data 0
      in if \<not> ok then Some (False, ctx) else Some (True, ctx\<lparr>auth_7702 := (auth_7702 ctx)\<lparr>nonce := n\<rparr>\<rparr>))"

text \<open>The table \<open>AUTH_7702_TAGS\<close>.\<close>

definition AUTH_7702_TAGS :: "tlv_sdk \<Rightarrow> nat \<Rightarrow> bytes \<Rightarrow> s_auth_7702_ctx \<Rightarrow> (bool \<times> s_auth_7702_ctx) option" where
  "AUTH_7702_TAGS K tag data ctx =
     (if tag = 0 then auth_handle_version K data ctx
      else if tag = 1 then handle_delegate_addr K data ctx
      else if tag = 2 then auth_handle_chain_id K data ctx
      else if tag = 3 then auth_handle_nonce K data ctx
      else Some (False, ctx))"

definition handle_auth_7702_tlv_payload :: "auth_platform \<Rightarrow> bytes \<Rightarrow> s_auth_7702_ctx \<Rightarrow> bool \<times> s_auth_7702_ctx" where
  "handle_auth_7702_tlv_payload P buf ctx =
     (let (ok, ctx', tags) = ap_tlv_parser P buf ctx in (ok, ctx'\<lparr>received_tags := tags\<rparr>))"

section \<open>Hashing\<close>

text \<open>\<open>cx_hash_no_throw\<close> on the global context.\<close>

definition auth_absorb :: "auth_platform \<Rightarrow> bytes \<Rightarrow> auth_state \<Rightarrow> nat option \<times> auth_state" where
  "auth_absorb P bs st =
     (case g_7702_hash_ctx st of
        None \<Rightarrow> (Some 0, st)
      | Some h \<Rightarrow>
          (case ap_hash_error P h bs of
             Some e \<Rightarrow> (Some e, st)
           | None \<Rightarrow> (None, st\<lparr>g_7702_hash_ctx := Some (h @ bs)\<rparr>)))"

text \<open>\<open>hashRLP\<close> returns the status word, the state and the scratch buffer.\<close>

definition hashRLP ::
  "auth_platform \<Rightarrow> bytes \<Rightarrow> uint8 \<Rightarrow> bytes \<Rightarrow> uint8 \<Rightarrow> auth_state \<Rightarrow> (sw \<times> bytes \<times> auth_state) option" where
  "hashRLP P data dataLength rlpTmp rlpTmpLength st = do {
     (hashSize, tmp) \<leftarrow> rlpEncodeNumber data dataLength rlpTmp (unat rlpTmpLength);
     if hashSize = 0 then Some (SWO_PARAMETER_ERROR_NO_INFO, tmp, st)
     else do {
       bs \<leftarrow> rd_n tmp 0 (unat hashSize);
       case auth_absorb P bs st of
         (Some e, st') \<Rightarrow> Some (SW_ERROR e, tmp, st')
       | (None, st') \<Rightarrow> Some (SWO_NO_RESPONSE, tmp, st') } }"

definition hash_RLP64 ::
  "auth_platform \<Rightarrow> uint64 \<Rightarrow> bytes \<Rightarrow> uint8 \<Rightarrow> auth_state \<Rightarrow> (sw \<times> bytes \<times> auth_state) option" where
  "hash_RLP64 P data rlpTmp rlpTmpLength st =
     (let encodingLength = rlpGetSmallestNumber64EncodingSize data;
          tmp = write_u64_be data
      in if unat encodingLength \<le> 8
         then hashRLP P (drop (8 - unat encodingLength) tmp) encodingLength rlpTmp rlpTmpLength st
         else None)"

text \<open>The three items, hashed one after the other, with the reactions of the handler.\<close>

definition auth_hash_items ::
  "auth_platform \<Rightarrow> s_auth_7702 \<Rightarrow> bytes \<Rightarrow> auth_state \<Rightarrow> (bool \<times> auth_state) option" where
  "auth_hash_items P auth rlpTmp st = do {
     (sw, rlpTmp, st) \<leftarrow> hash_RLP64 P (chainId auth) rlpTmp 40 st;
     if sw \<noteq> SWO_NO_RESPONSE then Some (False, st\<lparr>g_7702_sw := sw\<rparr>)
     else do {
       (sw, rlpTmp, st) \<leftarrow> hashRLP P (delegate auth) 20 rlpTmp 40 st;
       if sw \<noteq> SWO_NO_RESPONSE then Some (False, st\<lparr>g_7702_sw := sw\<rparr>)
       else do {
         (sw, rlpTmp, st) \<leftarrow> hash_RLP64 P (nonce auth) rlpTmp 40 st;
         if sw \<noteq> SWO_NO_RESPONSE then Some (False, st\<lparr>g_7702_sw := sw\<rparr>)
         else
           (case ap_finalize P (the (g_7702_hash_ctx st)) of
              None \<Rightarrow> Some (False, st)
            | Some h \<Rightarrow> Some (True, st\<lparr>authHash := h\<rparr>)) } } }"

text \<open>The hashing section of \<open>handle_auth7702_tlv_internal\<close>: \<open>(False, st)\<close> is one of
  its \<open>return false\<close>.\<close>

definition auth_hash :: "auth_platform \<Rightarrow> s_auth_7702 \<Rightarrow> auth_state \<Rightarrow> (bool \<times> auth_state) option" where
  "auth_hash P auth st = do {
     l2 \<leftarrow> rlpGetEncodedNumberLength (delegate auth) 20;
     let rlpDataSize = 0 + rlpGetEncodedNumber64Length (chainId auth) + l2
                         + rlpGetEncodedNumber64Length (nonce auth);
     let rlpTmp = MAGIC_7702 # replicate 39 0;
     (hashSize, rest) \<leftarrow> rlpEncodeListHeader8 rlpDataSize (tl rlpTmp) 39;
     let rlpTmp = hd rlpTmp # rest;
     if hashSize = 0 then Some (False, st\<lparr>g_7702_sw := SWO_PARAMETER_ERROR_NO_INFO\<rparr>)
     else
       (case mem_alloc (auth_mem st) of
          (False, m) \<Rightarrow> Some (False, st\<lparr>auth_mem := m\<rparr>)
        | (True, m) \<Rightarrow>
            let st = st\<lparr>auth_mem := m, g_7702_hash_ctx := Some []\<rparr>
            in if \<not> ap_keccak_init P then Some (False, st)
               else do {
                 bs \<leftarrow> rd_n rlpTmp 0 (unat hashSize + 1);
                 case auth_absorb P bs st of
                   (Some e, st) \<Rightarrow> Some (False, st)
                 | (None, st) \<Rightarrow> auth_hash_items P auth rlpTmp st }) }"

section \<open>The command\<close>

text \<open>The display section: names of the delegate and of the network, nonce.\<close>

definition auth_display :: "auth_platform \<Rightarrow> s_auth_7702 \<Rightarrow> auth_state \<Rightarrow> bool \<times> auth_state" where
  "auth_display P auth st =
     (case ap_public_key_string P (auth_bip32 st) (chainId auth) of
        None \<Rightarrow> (False, st\<lparr>s_fromAddress := ''0x''\<rparr>)
      | Some k \<Rightarrow>
          let st = st\<lparr>s_fromAddress := ''0x'' @ k\<rparr>;
              revoke = is_zeroes_buffer (delegate auth);
              name = get_delegate_name (chainId auth) (delegate auth)
          in if \<not> revoke \<and> name = None then
               (False, st\<lparr>screen := Error_no_7702_whitelist, g_7702_sw := SWO_COMMAND_NOT_ALLOWED\<rparr>)
             else
               (let st = (if revoke then st else st\<lparr>s_toAddress := strlcpy 43 (the name)\<rparr>);
                    network = (if chainId auth = CHAIN_ID_ALL then strlcpy 20 ''All''
                               else (case get_network_name_from_chain_id (ap_networks P) (chainId auth) of
                                       None \<Rightarrow> (case ap_format_u64 P 20 (chainId auth) of
                                                 None \<Rightarrow> ''?'' | Some t \<Rightarrow> t)
                                     | Some n \<Rightarrow> strlcpy 20 n));
                    st = st\<lparr>s_network_name := network\<rparr>
                in case ap_format_u64 P 21 (nonce auth) of
                     None \<Rightarrow> (False, st)
                   | Some t \<Rightarrow>
                       let st = st\<lparr>s_nonce := t\<rparr>
                       in if revoke
                          then (ap_ui_revocation P, st\<lparr>screen := Sign_7702_revocation\<rparr>)
                          else (ap_ui_auth P, st\<lparr>screen := Sign_7702_auth\<rparr>)))"

definition handle_auth7702_tlv_internal ::
  "auth_platform \<Rightarrow> bytes \<Rightarrow> auth_state \<Rightarrow> (bool \<times> auth_state) option" where
  "handle_auth7702_tlv_internal P buf st =
     (let st = st\<lparr>g_7702_sw := SWO_PARAMETER_ERROR_NO_INFO\<rparr>;
          (parsing_ret, ctx) = handle_auth_7702_tlv_payload P buf s_auth_7702_ctx_zero
      in if \<not> parsing_ret \<or> \<not> verify_auth_7702_struct ctx then
           Some (False, st\<lparr>g_7702_sw := SWO_INCORRECT_DATA\<rparr>)
         else if \<not> ap_eip7702_enable P then
           Some (False, st\<lparr>screen := Error_no_7702, g_7702_sw := SWO_COMMAND_NOT_ALLOWED\<rparr>)
         else do {
           (ok, st) \<leftarrow> auth_hash P (auth_7702 ctx) st;
           if \<not> ok then Some (False, st)
           else Some (auth_display P (auth_7702 ctx) st) })"

text \<open>\<open>handle_auth7702_tlv\<close> releases the hash context whatever happened.\<close>

definition handle_auth7702_tlv :: "auth_platform \<Rightarrow> bytes \<Rightarrow> auth_state \<Rightarrow> (bool \<times> auth_state) option" where
  "handle_auth7702_tlv P buf st = do {
     (ret, st) \<leftarrow> handle_auth7702_tlv_internal P buf st;
     Some (ret, if g_7702_hash_ctx st = None then st
                else st\<lparr>g_7702_hash_ctx := None, auth_mem := mem_free (auth_mem st)\<rparr>) }"

section \<open>The authorization hash is the one of EIP-7702\<close>

text \<open>The message that an authorization signs, and its size.\<close>

definition auth_message :: "s_auth_7702 \<Rightarrow> bytes" where
  "auth_message auth = 0x05 # rlp_list [rlp_number (unat (chainId auth)), rlp_string (delegate auth),
                                        rlp_number (unat (nonce auth))]"

text \<open>One hashing step: the scratch buffer keeps its size and the context either is
  unchanged (an error is returned) or has absorbed the bytes.\<close>

definition absorbed_step :: "bytes \<Rightarrow> bytes \<Rightarrow> auth_state \<Rightarrow> (sw \<times> bytes \<times> auth_state) option \<Rightarrow> bool" where
  "absorbed_step h bs st res \<longleftrightarrow>
     (\<exists>sw tmp st'. res = Some (sw, tmp, st') \<and> length tmp = 40 \<and>
        (if sw = SWO_NO_RESPONSE then st' = st\<lparr>g_7702_hash_ctx := Some (h @ bs)\<rparr> else st' = st))"

lemma hashRLP_correct:
  assumes "length bs \<le> 38" "bs \<noteq> [0]" "unat n = length bs" "length tmp = 40" "g_7702_hash_ctx st = Some h"
  shows "absorbed_step h (rlp_string bs) st (hashRLP P bs n tmp 40 st)"
proof -
  let ?r = "rlp_string bs"
  have enc: "rlpEncodeNumber bs n tmp 40 = Some (word_of_nat (length ?r), ?r @ drop (length ?r) tmp)"
    using assms by (intro rlpEncodeNumber_correct) auto
  have len: "length ?r \<le> 39" "0 < length ?r" using assms by (auto simp: length_rlp_string_short)
  have ulen: "unat (word_of_nat (length ?r) :: uint8) = length ?r"
    using len by (simp add: unat_word8_of_nat)
  then have nz: "(word_of_nat (length ?r) :: uint8) \<noteq> 0" using len by auto
  have rd: "rd_n (?r @ drop (length ?r) tmp) 0 (length ?r) = Some ?r" by (simp add: rd_n_def)
  show ?thesis
    using enc nz rd len assms(4,5) unfolding absorbed_step_def hashRLP_def
    by (cases "ap_hash_error P h ?r") (simp_all add: ulen auth_absorb_def)
qed

lemma hash_RLP64_correct:
  assumes "length tmp = 40" "g_7702_hash_ctx st = Some h"
  shows "absorbed_step h (rlp_number (unat n)) st (hash_RLP64 P n tmp 40 st)"
proof -
  let ?b = "be_min (unat n)"
  have lt: "unat n < 256 ^ 8" using unsigned_less [where ?'a = nat, of n] by simp
  have L: "length ?b \<le> 8" by (rule length_be_min_64)
  then have u: "unat (rlpGetSmallestNumber64EncodingSize n) = length ?b"
    by (simp add: rlpGetSmallestNumber64EncodingSize_correct unat_word8_of_nat)
  have d: "drop (8 - length ?b) (write_u64_be n) = ?b"
    using be_min_be_bytes [OF lt] by (simp add: write_u64_be_def)
  have "?b \<noteq> [0]"
    using be_min_no_leading_zero [of "unat n"] by (cases "n = 0") (auto simp: unat_gt_0)
  then have "absorbed_step h (rlp_string ?b) st (hashRLP P ?b (rlpGetSmallestNumber64EncodingSize n) tmp 40 st)"
    using L u assms by (intro hashRLP_correct) auto
  then show ?thesis using L u d by (simp add: hash_RLP64_def rlp_number_def Let_def)
qed

lemma absorbed_stepE:
  assumes "absorbed_step h bs st res"
  obtains (error) sw tmp where "res = Some (sw, tmp, st)" "length tmp = 40" "sw \<noteq> SWO_NO_RESPONSE"
  | (ok) tmp where "res = Some (SWO_NO_RESPONSE, tmp, st\<lparr>g_7702_hash_ctx := Some (h @ bs)\<rparr>)" "length tmp = 40"
proof -
  obtain sw tmp st' where "res = Some (sw, tmp, st')" "length tmp = 40"
    "if sw = SWO_NO_RESPONSE then st' = st\<lparr>g_7702_hash_ctx := Some (h @ bs)\<rparr> else st' = st"
    using assms unfolding absorbed_step_def by blast
  then show ?thesis using error ok by (cases "sw = SWO_NO_RESPONSE") auto
qed

text \<open>What the steps may change.\<close>

definition auth_frame :: "auth_state \<Rightarrow> auth_state \<Rightarrow> bool" where
  "auth_frame st st' \<longleftrightarrow> auth_bip32 st' = auth_bip32 st \<and> screen st' = screen st \<and> auth_mem st' = auth_mem st
     \<and> g_7702_hash_ctx st' \<noteq> None"

lemma auth_hash_items_correct:
  assumes "length (delegate auth) = 20" "length tmp = 40" "g_7702_hash_ctx st = Some h"
  shows "\<exists>ok st'. auth_hash_items P auth tmp st = Some (ok, st') \<and> auth_frame st st'
     \<and> (ok \<longrightarrow> ap_finalize P (h @ rlp_number (unat (chainId auth)) @ rlp_string (delegate auth)
                             @ rlp_number (unat (nonce auth))) = Some (authHash st'))"
proof -
  have "absorbed_step h (rlp_number (unat (chainId auth))) st (hash_RLP64 P (chainId auth) tmp 40 st)"
    using assms by (intro hash_RLP64_correct)
  then show ?thesis
  proof (cases rule: absorbed_stepE)
    case (error sw tmp1)
    then show ?thesis using assms by (auto simp: auth_hash_items_def auth_frame_def)
  next
    case (ok tmp1)
    let ?h1 = "h @ rlp_number (unat (chainId auth))" and ?st1 = "st\<lparr>g_7702_hash_ctx := Some (h @ rlp_number (unat (chainId auth)))\<rparr>"
    have "absorbed_step ?h1 (rlp_string (delegate auth)) ?st1 (hashRLP P (delegate auth) 20 tmp1 40 ?st1)"
      using assms ok by (intro hashRLP_correct) auto
    then show ?thesis
    proof (cases rule: absorbed_stepE)
      case (error sw tmp2)
      then show ?thesis using ok by (auto simp: auth_hash_items_def auth_frame_def)
    next
      case ok2: (ok tmp2)
      let ?h2 = "?h1 @ rlp_string (delegate auth)"
      let ?st2 = "?st1\<lparr>g_7702_hash_ctx := Some (?h1 @ rlp_string (delegate auth))\<rparr>"
      have "absorbed_step ?h2 (rlp_number (unat (nonce auth))) ?st2 (hash_RLP64 P (nonce auth) tmp2 40 ?st2)"
        using ok2 by (intro hash_RLP64_correct) auto
      then show ?thesis
      proof (cases rule: absorbed_stepE)
        case (error sw tmp3)
        then show ?thesis using ok ok2 by (auto simp: auth_hash_items_def auth_frame_def)
      next
        case ok3: (ok tmp3)
        then show ?thesis using ok ok2
          by (auto simp: auth_hash_items_def auth_frame_def split: option.split)
      qed
    qed
  qed
qed

lemma auth_hash_correct:
  assumes d: "length (delegate auth) = 20" and h: "g_7702_hash_ctx st = None"
  shows "\<exists>ok st'. auth_hash P auth st = Some (ok, st')
     \<and> auth_bip32 st' = auth_bip32 st \<and> screen st' = screen st
     \<and> live (auth_mem st') = live (auth_mem st) + (if g_7702_hash_ctx st' = None then 0 else 1)
     \<and> (ok \<longrightarrow> ap_finalize P (auth_message auth) = Some (authHash st'))"
proof -
  let ?c = "rlp_number (unat (chainId auth))" and ?n = "rlp_number (unat (nonce auth))"
    and ?d = "rlp_string (delegate auth)"
  obtain l2 where l2: "rlpGetEncodedNumberLength (delegate auth) 20 = Some l2" "unat l2 = length ?d"
    using rlpGetEncodedNumberLength_correct [of "delegate auth" 20] d by auto
  let ?sz = "rlpGetEncodedNumber64Length (chainId auth) + l2 + rlpGetEncodedNumber64Length (nonce auth)"
  have lens: "length ?c \<le> 9" "length ?n \<le> 9" "length ?d = 21"
    using length_rlp_number_64 d by (auto simp: length_rlp_string_short)
  then have usz: "unat ?sz = length (concat [?c, ?d, ?n])"
    using l2(2) by (simp add: unat_word_ariths rlpGetEncodedNumber64Length_correct)
  let ?hd = "rlp_header True (unat ?sz)"
  have hl: "length ?hd = 1" using usz lens by (simp add: rlp_header_def)
  have enc: "rlpEncodeListHeader8 ?sz (replicate 39 0) 39 =
      Some (word_of_nat (length ?hd), ?hd @ drop (length ?hd) (replicate 39 0))"
    by (rule rlpEncodeListHeader8_correct) simp_all
  let ?tmp = "MAGIC_7702 # ?hd @ drop 1 (replicate 39 0)"
  have rd: "rd_n ?tmp 0 (Suc (Suc 0)) = Some (MAGIC_7702 # ?hd)" using hl by (simp add: rd_n_def)
  have msg: "auth_message auth = (MAGIC_7702 # ?hd) @ ?c @ ?d @ ?n"
    unfolding auth_message_def rlp_list_def usz [symmetric] MAGIC_7702_def by simp
  have l40: "length ?tmp = 40" using hl by simp
  show ?thesis
  proof (cases "auth_mem st" rule: mem_alloc_cases)
    case (fail m')
    then show ?thesis using l2 enc hl h by (auto simp: auth_hash_def Let_def)
  next
    case (ok m')
    let ?st0 = "st\<lparr>auth_mem := m', g_7702_hash_ctx := Some []\<rparr>"
    let ?st1 = "st\<lparr>auth_mem := m', g_7702_hash_ctx := Some (MAGIC_7702 # ?hd)\<rparr>"
    show ?thesis
    proof (cases "ap_keccak_init P \<and> ap_hash_error P [] (MAGIC_7702 # ?hd) = None")
      case True
      have "auth_hash P auth st = auth_hash_items P auth ?tmp ?st1"
        using True l2 enc hl rd ok by (simp add: auth_hash_def Let_def auth_absorb_def)
      moreover have "\<exists>ok st'. auth_hash_items P auth ?tmp ?st1 = Some (ok, st') \<and> auth_frame ?st1 st'
         \<and> (ok \<longrightarrow> ap_finalize P ((MAGIC_7702 # ?hd) @ ?c @ ?d @ ?n) = Some (authHash st'))"
        using d l40 by (intro auth_hash_items_correct) auto
      ultimately obtain b st' where res: "auth_hash P auth st = Some (b, st')" "auth_frame ?st1 st'"
        "b \<longrightarrow> ap_finalize P (auth_message auth) = Some (authHash st')"
        unfolding msg by auto
      have "auth_bip32 st' = auth_bip32 st" "screen st' = screen st" "auth_mem st' = m'" "g_7702_hash_ctx st' \<noteq> None"
        using res(2) by (simp_all add: auth_frame_def)
      then show ?thesis using res(1,3) ok by simp
    next
      case False
      then have "auth_hash P auth st = Some (False, ?st0)"
        using l2 enc hl rd ok by (auto simp: auth_hash_def Let_def auth_absorb_def)
      then show ?thesis using ok by auto
    qed
  qed
qed

section \<open>The handler\<close>

lemma whitelist_search_Some:
  "whitelist_search es c a = Some n \<Longrightarrow>
   \<exists>e \<in> set es. wl_address e = a \<and> wl_name e = n \<and> (wl_chain_id e = CHAIN_ID_ALL \<or> wl_chain_id e = c)"
  by (induction es) (auto simp: Let_def split: if_splits)

text \<open>What the handlers rely on: the generated parser runs the handlers of \<open>auth_7702.c\<close> on the
  fields of the payload and nothing else, and the SDK extracts the bytes of a field.\<close>

definition auth_parser_contract :: "auth_platform \<Rightarrow> bool" where
  "auth_parser_contract P \<longleftrightarrow>
     buffer_contract (ap_sdk P) \<and> parser_contract UNIV (AUTH_7702_TAGS (ap_sdk P)) (ap_tlv_parser P)"

lemma delegate_length:
  assumes K: "buffer_contract K" and h: "AUTH_7702_TAGS K tag data ctx = Some (r, ctx')"
    and len: "length (delegate (auth_7702 ctx)) = 20"
  shows "length (delegate (auth_7702 ctx')) = 20"
proof -
  obtain ok buf' where "tlv_get_address K data (Some (delegate (auth_7702 ctx))) = Some (ok, Some buf')" "length buf' = 20"
    using tlv_get_address_total [OF K len, of data] by blast
  then show ?thesis using h len
    by (auto simp: AUTH_7702_TAGS_def auth_handle_version_def handle_delegate_addr_def auth_handle_chain_id_def
        auth_handle_nonce_def Let_def split: if_splits prod.splits)
qed

lemma delegate_stored:
  assumes K: "buffer_contract K" and h: "AUTH_7702_TAGS K 1 data ctx = Some (True, ctx')"
    and len: "length (delegate (auth_7702 ctx)) = 20"
  shows "delegate (auth_7702 ctx') = data"
proof -
  obtain ok buf' where "tlv_get_address K data (Some (delegate (auth_7702 ctx))) = Some (ok, Some buf')"
    "if ok then buf' = data else buf' = delegate (auth_7702 ctx)"
    using tlv_get_address_total [OF K len, of data] by blast
  then show ?thesis using h by (auto simp: AUTH_7702_TAGS_def handle_delegate_addr_def split: if_splits)
qed

lemma auth_parser_contractD:
  assumes P: "auth_parser_contract P" and p: "handle_auth_7702_tlv_payload P buf s_auth_7702_ctx_zero = (r, ctx)"
  shows "length (delegate (auth_7702 ctx)) = 20"
proof -
  have K: "buffer_contract (ap_sdk P)" and pc: "parser_contract UNIV (AUTH_7702_TAGS (ap_sdk P)) (ap_tlv_parser P)"
    using P by (simp_all add: auth_parser_contract_def)
  obtain ctx' tags where c: "ap_tlv_parser P buf s_auth_7702_ctx_zero = (r, ctx', tags)" "ctx = ctx'\<lparr>received_tags := tags\<rparr>"
    using p by (auto simp: handle_auth_7702_tlv_payload_def split: prod.splits)
  obtain flds r' where f: "run_fields (AUTH_7702_TAGS (ap_sdk P)) flds s_auth_7702_ctx_zero = Some (r', ctx')"
    by (rule parser_contractD [OF pc c(1)])
  have "length (delegate (auth_7702 ctx')) = 20"
    by (rule run_fields_invariant [OF _ f, where P = "\<lambda>c. length (delegate (auth_7702 c)) = 20"])
      (use delegate_length [OF K] in \<open>auto simp: s_auth_7702_ctx_zero_def\<close>)
  then show ?thesis by (simp add: c(2))
qed

text \<open>The authorization is the one that the payload carries.\<close>

lemmas auth_tag_defs = AUTH_7702_TAGS_def auth_handle_version_def handle_delegate_addr_def
  auth_handle_chain_id_def auth_handle_nonce_def

lemma auth_fields_of_payload:
  assumes P: "auth_parser_contract P" and p: "handle_auth_7702_tlv_payload P buf s_auth_7702_ctx_zero = (True, ctx)"
    and v: "verify_auth_7702_struct ctx"
  shows "\<exists>flds ctx'. run_fields (AUTH_7702_TAGS (ap_sdk P)) flds s_auth_7702_ctx_zero = Some (True, ctx') \<and>
     auth_7702 ctx = auth_7702 ctx' \<and> distinct (map fst flds) \<and>
     (\<exists>d. (0, d) \<in> set flds) \<and> (\<exists>d. (1, d) \<in> set flds \<and> delegate (auth_7702 ctx) = d) \<and>
     (\<exists>d old. (2, d) \<in> set flds \<and> sdk_u64 (ap_sdk P) d old = (True, chainId (auth_7702 ctx))) \<and>
     (\<exists>d. (3, d) \<in> set flds \<and> sdk_u64 (ap_sdk P) d 0 = (True, nonce (auth_7702 ctx)))"
proof -
  let ?K = "ap_sdk P"
  have K: "buffer_contract ?K" and pc: "parser_contract UNIV (AUTH_7702_TAGS ?K) (ap_tlv_parser P)"
    using P by (simp_all add: auth_parser_contract_def)
  obtain ctx' tags where c: "ap_tlv_parser P buf s_auth_7702_ctx_zero = (True, ctx', tags)" "ctx = ctx'\<lparr>received_tags := tags\<rparr>"
    using p by (auto simp: handle_auth_7702_tlv_payload_def split: prod.splits)
  obtain flds r where f: "run_fields (AUTH_7702_TAGS ?K) flds s_auth_7702_ctx_zero = Some (r, ctx')"
    "True \<longrightarrow> r \<and> tags = fst ` set flds \<and> distinct (filter (\<lambda>t. t \<in> UNIV) (map fst flds))"
    by (rule parser_contractD [OF pc c(1)])
  then have run: "run_fields (AUTH_7702_TAGS ?K) flds s_auth_7702_ctx_zero = Some (True, ctx')" and dist: "distinct (map fst flds)"
    and tags: "received_tags ctx = fst ` set flds" using c(2) by auto
  have mem: "\<exists>d. (t, d) \<in> set flds" if "t \<in> {0, 1, 2, 3}" for t
    using v tags that unfolding verify_auth_7702_struct_def by fastforce
  obtain d0 d1 d2 d3 where d: "(0, d0) \<in> set flds" "(1, d1) \<in> set flds" "(2, d2) \<in> set flds" "(3, d3) \<in> set flds"
    using mem by fastforce
  let ?I = "\<lambda>c. length (delegate (auth_7702 c)) = 20"
  have i0: "?I s_auth_7702_ctx_zero" by (simp add: s_auth_7702_ctx_zero_def)
  note upd = run_fields_set [where I = ?I, OF run dist _ i0]
  have "delegate (auth_7702 ctx') = d1"
    by (rule upd [OF d(2), where get = "\<lambda>c. delegate (auth_7702 c)" and Q = "\<lambda>d x. x = d"])
      (use delegate_length [OF K] delegate_stored [OF K] in \<open>blast+\<close>, auto simp: auth_tag_defs split: if_splits prod.splits option.splits bind_splits)
  moreover have "\<exists>old. sdk_u64 ?K d2 old = (True, chainId (auth_7702 ctx'))"
    by (rule upd [OF d(3), where get = "\<lambda>c. chainId (auth_7702 c)" and Q = "\<lambda>d x. \<exists>old. sdk_u64 ?K d old = (True, x)"])
      (use delegate_length [OF K] in blast, auto simp: auth_tag_defs split: if_splits prod.splits option.splits bind_splits)
  moreover have "sdk_u64 ?K d3 0 = (True, nonce (auth_7702 ctx'))"
    by (rule upd [OF d(4), where get = "\<lambda>c. nonce (auth_7702 c)" and Q = "\<lambda>d x. sdk_u64 ?K d 0 = (True, x)"])
      (use delegate_length [OF K] in blast, auto simp: auth_tag_defs split: if_splits prod.splits option.splits bind_splits)
  ultimately show ?thesis using run dist d c(2)
    by (intro exI [of _ flds] exI [of _ ctx']) auto
qed

lemma auth_display_frame:
  assumes "auth_display P auth st = (ok, st')"
  shows "g_7702_hash_ctx st' = g_7702_hash_ctx st" "auth_mem st' = auth_mem st" "authHash st' = authHash st"
  using assms by (auto simp: auth_display_def Let_def split: option.splits if_splits)

lemma auth_display_ok:
  assumes "auth_display P auth st = (True, st')"
  shows "if is_zeroes_buffer (delegate auth) then screen st' = Sign_7702_revocation
         else screen st' = Sign_7702_auth \<and>
              (\<exists>n. get_delegate_name (chainId auth) (delegate auth) = Some n \<and> s_toAddress st' = strlcpy 43 n)"
  using assms by (auto simp: auth_display_def Let_def split: option.splits if_splits)

text \<open>The outcome of the handler when it starts a review.\<close>

definition auth_reviewed :: "auth_platform \<Rightarrow> bytes \<Rightarrow> auth_state \<Rightarrow> bool" where
  "auth_reviewed P buf st \<longleftrightarrow>
     (let (ok, ctx) = handle_auth_7702_tlv_payload P buf s_auth_7702_ctx_zero; auth = auth_7702 ctx
      in ok \<and> verify_auth_7702_struct ctx \<and> ap_eip7702_enable P
       \<and> ap_finalize P (auth_message auth) = Some (authHash st)
       \<and> (if is_zeroes_buffer (delegate auth) then screen st = Sign_7702_revocation
          else screen st = Sign_7702_auth \<and>
               (\<exists>e \<in> set EIP7702_WHITELIST. wl_address e = delegate auth \<and>
                  (wl_chain_id e = CHAIN_ID_ALL \<or> wl_chain_id e = chainId auth) \<and>
                  s_toAddress st = strlcpy 43 (wl_name e))))"

lemma handle_auth7702_tlv_correct:
  assumes P: "auth_parser_contract P" and h: "g_7702_hash_ctx st = None"
  shows "\<exists>ok st'. handle_auth7702_tlv P buf st = Some (ok, st')
     \<and> g_7702_hash_ctx st' = None \<and> live (auth_mem st') = live (auth_mem st)
     \<and> (ok \<longrightarrow> auth_reviewed P buf st')"
proof -
  obtain ret ctx where p: "handle_auth_7702_tlv_payload P buf s_auth_7702_ctx_zero = (ret, ctx)"
    by (cases "handle_auth_7702_tlv_payload P buf s_auth_7702_ctx_zero")
  let ?auth = "auth_7702 ctx" and ?st0 = "st\<lparr>g_7702_sw := SWO_PARAMETER_ERROR_NO_INFO\<rparr>"
  have d: "length (delegate ?auth) = 20" by (rule auth_parser_contractD [OF P p])
  show ?thesis
  proof (cases "ret \<and> verify_auth_7702_struct ctx \<and> ap_eip7702_enable P")
    case False
    then show ?thesis using p h
      by (auto simp: handle_auth7702_tlv_def handle_auth7702_tlv_internal_def Let_def)
  next
    case True
    obtain ok1 st1 where 1: "auth_hash P ?auth ?st0 = Some (ok1, st1)"
      "live (auth_mem st1) = live (auth_mem st) + (if g_7702_hash_ctx st1 = None then 0 else 1)"
      "ok1 \<longrightarrow> ap_finalize P (auth_message ?auth) = Some (authHash st1)"
      using auth_hash_correct [OF d, of ?st0 P] h by auto
    obtain ok2 st2 where 2: "auth_display P ?auth st1 = (ok2, st2)"
      by (cases "auth_display P ?auth st1")
    note fr = auth_display_frame [OF 2]
    let ?r = "if ok1 then (ok2, st2) else (False, st1)"
    have int: "handle_auth7702_tlv_internal P buf st = Some ?r"
      using True p 1(1) 2 by (simp add: handle_auth7702_tlv_internal_def Let_def)
    have rev: "auth_reviewed P buf st2" if "ok1" "ok2"
      using True p 1(3) fr(3) that auth_display_ok [of P ?auth st1 st2] 2
      by (auto simp: auth_reviewed_def Let_def get_delegate_name_def split: if_splits
          dest!: whitelist_search_Some)
    have rev': "auth_reviewed P buf (st2\<lparr>g_7702_hash_ctx := None, auth_mem := m\<rparr>)" if "ok1" "ok2" for m
      using rev that by (simp add: auth_reviewed_def Let_def split_def)
    show ?thesis using int 1(2) fr rev rev' by (auto simp: handle_auth7702_tlv_def)
  qed
qed

section \<open>The command handler\<close>

text \<open>The globals the command touches; the TLV reassembly and the hash context draw from
  independent sequences of allocation outcomes.  The only TLV handler of this command is
  identified by the unit value.\<close>

record cmd_7702 =
  appState :: app_state
  cmd_tlv :: "unit g_tlv"
  cmd_mem :: mem
  cmd_auth :: auth_state

definition auth_handler :: "auth_platform \<Rightarrow> unit \<Rightarrow> bytes \<Rightarrow> auth_state option \<Rightarrow> bool \<times> auth_state option" where
  "auth_handler P = fault_run (\<lambda>_. handle_auth7702_tlv P)"

text \<open>The effect of \<open>reset_app_context\<close> on these globals.\<close>

definition reset_app_context :: "cmd_7702 \<Rightarrow> cmd_7702" where
  "reset_app_context c = c\<lparr>appState := APP_STATE_IDLE,
     cmd_auth := (cmd_auth c)\<lparr>authHash := replicate INT256_LENGTH 0,
       auth_bip32 := \<lparr>bip32_length = 0, bip32_path = []\<rparr>,
       s_fromAddress := [], s_toAddress := [], s_network_name := [], s_nonce := []\<rparr>\<rparr>"

definition auth_tlv_step ::
  "auth_platform \<Rightarrow> bool \<Rightarrow> uint8 \<Rightarrow> bytes \<Rightarrow> cmd_7702 \<Rightarrow> (sw \<times> cmd_7702) option" where
  "auth_tlv_step P first dataLength dataBuffer c = do {
     (ret, g, m, s) \<leftarrow> tlv_from_apdu (auth_handler P) (ap_fresh P) first dataLength (Some dataBuffer) (Some ())
                        (cmd_tlv c) (cmd_mem c) (Some (cmd_auth c));
     a \<leftarrow> s;
     let c = c\<lparr>cmd_tlv := g, cmd_mem := m, cmd_auth := a\<rparr>;
     if ret = TLV_APDU_ERROR then
       (let c' = (if g_7702_sw (cmd_auth c) = SWO_COMMAND_NOT_ALLOWED
                  then c\<lparr>appState := APP_STATE_IDLE\<rparr> else reset_app_context c)
        in Some (g_7702_sw (cmd_auth c), c'))
     else Some (SWO_NO_RESPONSE, c) }"

definition P1_FIRST_CHUNK :: uint8 where "P1_FIRST_CHUNK = 1"
definition P1_FOLLOWING_CHUNK :: uint8 where "P1_FOLLOWING_CHUNK = 0"

definition handle_sign_eip7702_authorization ::
  "auth_platform \<Rightarrow> uint8 \<Rightarrow> bytes \<Rightarrow> uint8 \<Rightarrow> cmd_7702 \<Rightarrow> (sw \<times> cmd_7702) option" where
  "handle_sign_eip7702_authorization P p1 dataBuffer dataLength c =
     (let c = c\<lparr>cmd_auth := (cmd_auth c)\<lparr>g_7702_sw := SWO_PARAMETER_ERROR_NO_INFO\<rparr>\<rparr>
      in if p1 = P1_FIRST_CHUNK then
           (if appState c \<noteq> APP_STATE_IDLE then Some (SWO_COMMAND_NOT_ALLOWED, c)
            else
              (let c = c\<lparr>appState := APP_STATE_SIGNING_EIP7702\<rparr>
               in do {
                 (buf, len, b) \<leftarrow> parseBip32 (ap_bip32_path_read P) (ap_addr P) dataBuffer dataLength
                                    (auth_bip32 (cmd_auth c));
                 let c = c\<lparr>cmd_auth := (cmd_auth c)\<lparr>auth_bip32 := b\<rparr>\<rparr>;
                 case buf of
                   None \<Rightarrow> Some (SWO_INCORRECT_DATA, reset_app_context c)
                 | Some buf \<Rightarrow> auth_tlv_step P True len buf c }))
         else if p1 = P1_FOLLOWING_CHUNK then
           (if appState c \<noteq> APP_STATE_SIGNING_EIP7702 then Some (SWO_COMMAND_NOT_ALLOWED, c)
            else auth_tlv_step P False dataLength dataBuffer c)
         else Some (SWO_WRONG_P1_P2, c))"

text \<open>The invariant between two commands.\<close>

definition cmd_7702_inv :: "cmd_7702 \<Rightarrow> bool" where
  "cmd_7702_inv c \<longleftrightarrow> tlv_inv (cmd_tlv c) \<and> tlv_blocks (cmd_tlv c) \<le> live (cmd_mem c)
     \<and> g_7702_hash_ctx (cmd_auth c) = None"

lemma cmd_7702_inv_reset [simp]: "cmd_7702_inv (reset_app_context c) = cmd_7702_inv c"
  by (simp add: cmd_7702_inv_def reset_app_context_def)

lemma appState_reset [simp]: "appState (reset_app_context c) = APP_STATE_IDLE"
  by (simp add: reset_app_context_def)

lemma auth_handler_hash_ctx:
  assumes "auth_parser_contract P" "g_7702_hash_ctx st = None" "auth_handler P h buf (Some st) = (ok, s')"
  shows "\<exists>st'. s' = Some st' \<and> g_7702_hash_ctx st' = None"
  using handle_auth7702_tlv_correct [OF assms(1,2), of buf] assms(3) by (auto simp: auth_handler_def fault_run_Some)

lemma auth_tlv_step_inv:
  assumes P: "auth_parser_contract P" and inv: "cmd_7702_inv c" and len: "length buf = unat len"
    and st: "appState c = APP_STATE_SIGNING_EIP7702"
  shows "\<exists>sw c'. auth_tlv_step P first len buf c = Some (sw, c') \<and> cmd_7702_inv c'
    \<and> appState c' \<in> {APP_STATE_IDLE, APP_STATE_SIGNING_EIP7702}
    \<and> (appState c' = APP_STATE_SIGNING_EIP7702 \<longrightarrow> sw = SWO_NO_RESPONSE)"
proof -
  have i: "tlv_inv (cmd_tlv c)" "tlv_blocks (cmd_tlv c) \<le> live (cmd_mem c)" "g_7702_hash_ctx (cmd_auth c) = None"
    using inv by (auto simp: cmd_7702_inv_def)
  obtain r a s' where sp: "tlv_spec (auth_handler P) (fst (mem_alloc (cmd_mem c))) first buf () (tlv_abs (cmd_tlv c)) (Some (cmd_auth c)) = (r, a, s')"
    by (metis prod_cases3)
  obtain g' m' where res: "tlv_from_apdu (auth_handler P) (ap_fresh P) first len (Some buf) (Some ()) (cmd_tlv c) (cmd_mem c) (Some (cmd_auth c)) = Some (r, g', m', s')"
    "tlv_inv g'" "tlv_balanced (cmd_tlv c) (cmd_mem c) g' m'"
    using tlv_from_apdu_refines [OF i(1) len i(2) sp, of "ap_fresh P"] by auto
  obtain st' where s': "s' = Some st'" "g_7702_hash_ctx st' = None"
  proof -
    have "\<exists>st'. s' = Some st' \<and> g_7702_hash_ctx st' = None"
      using tlv_spec_state [OF sp] i(3) auth_handler_hash_ctx [OF P i(3)] by blast
    then show ?thesis using that by blast
  qed
  then have inv': "cmd_7702_inv (c\<lparr>cmd_tlv := g', cmd_mem := m', cmd_auth := st'\<rparr>)"
    using res i by (simp add: cmd_7702_inv_def tlv_balanced_def)
  then have inv_idle: "cmd_7702_inv (c\<lparr>cmd_tlv := g', cmd_mem := m', cmd_auth := st', appState := APP_STATE_IDLE\<rparr>)"
    by (simp add: cmd_7702_inv_def)
  show ?thesis using res s' inv' inv_idle st by (simp add: auth_tlv_step_def Let_def)
qed

text \<open>The command never faults, keeps its invariant, and holds the signing state only
  while it answers with \<open>SWO_NO_RESPONSE\<close>; a refused command changes no other flow.\<close>

lemma handle_sign_eip7702_authorization_inv:
  assumes P: "auth_parser_contract P" and inv: "cmd_7702_inv c" and len: "length buf = unat len"
  shows "\<exists>sw c'. handle_sign_eip7702_authorization P p1 buf len c = Some (sw, c') \<and> cmd_7702_inv c'
    \<and> (appState c' = appState c \<or> appState c' \<in> {APP_STATE_IDLE, APP_STATE_SIGNING_EIP7702}
         \<and> appState c \<in> {APP_STATE_IDLE, APP_STATE_SIGNING_EIP7702})
    \<and> (appState c' = APP_STATE_SIGNING_EIP7702 \<and> appState c = APP_STATE_IDLE \<longrightarrow> sw = SWO_NO_RESPONSE)"
proof -
  let ?c0 = "c\<lparr>cmd_auth := (cmd_auth c)\<lparr>g_7702_sw := SWO_PARAMETER_ERROR_NO_INFO\<rparr>\<rparr>"
  have inv0: "cmd_7702_inv ?c0" using inv by (simp add: cmd_7702_inv_def)
  consider (first) "p1 = P1_FIRST_CHUNK" "appState c = APP_STATE_IDLE"
    | (next_chunk) "p1 = P1_FOLLOWING_CHUNK" "appState c = APP_STATE_SIGNING_EIP7702"
    | (refused) "p1 = P1_FIRST_CHUNK \<longrightarrow> appState c \<noteq> APP_STATE_IDLE"
        "p1 = P1_FOLLOWING_CHUNK \<longrightarrow> appState c \<noteq> APP_STATE_SIGNING_EIP7702" by blast
  then show ?thesis
  proof cases
    case refused
    then show ?thesis using inv0 by (auto simp: handle_sign_eip7702_authorization_def Let_def)
  next
    case next_chunk
    then show ?thesis using auth_tlv_step_inv [OF P inv0 len, of False]
      by (auto simp: handle_sign_eip7702_authorization_def P1_FIRST_CHUNK_def P1_FOLLOWING_CHUNK_def)
  next
    case first
    obtain r len' b' where pb: "parseBip32 (ap_bip32_path_read P) (ap_addr P) buf len (auth_bip32 (cmd_auth c)) = Some (r, len', b')"
      "\<And>rest. r = Some rest \<Longrightarrow> length rest = unat len'"
      using parseBip32_safe [of len buf "ap_bip32_path_read P" "ap_addr P" "auth_bip32 (cmd_auth c)"] len by auto
    let ?c1 = "?c0\<lparr>appState := APP_STATE_SIGNING_EIP7702, cmd_auth := (cmd_auth ?c0)\<lparr>auth_bip32 := b'\<rparr>\<rparr>"
    have inv1: "cmd_7702_inv ?c1" using inv0 by (simp add: cmd_7702_inv_def)
    show ?thesis
    proof (cases r)
      case None
      then show ?thesis using pb first inv1
        by (simp add: handle_sign_eip7702_authorization_def Let_def)
    next
      case (Some rest)
      then show ?thesis using pb first auth_tlv_step_inv [OF P inv1 pb(2) [OF Some], of True]
        by (auto simp: handle_sign_eip7702_authorization_def Let_def)
    qed
  qed
qed

text \<open>An incomplete payload is answered with \<open>SWO_NO_RESPONSE\<close>, on which the main loop
  sends nothing.\<close>

lemma auth7702_pending_no_response:
  assumes "tlv_from_apdu (auth_handler P) (ap_fresh P) first len (Some buf) (Some ()) (cmd_tlv c) (cmd_mem c) (Some (cmd_auth c))
      = Some (TLV_APDU_PENDING, g, m, Some a)"
  shows "auth_tlv_step P first len buf c = Some (SWO_NO_RESPONSE, c\<lparr>cmd_tlv := g, cmd_mem := m, cmd_auth := a\<rparr>)"
  using assms by (simp add: auth_tlv_step_def)

end
