(* ===== verification/Calldata.thy ===== *)
theory Calldata
  imports Prelude
begin

text \<open>
  Model of \<open>src/features/generic_tx_parser/calldata.c\<close>: the store of the calldata of a
  transaction, a list of 32-byte chunks from which leading or trailing zeros are stripped.
  Sizes of the C type \<open>size_t\<close> (32 bits on the device) are natural numbers with the
  overflow check of the code written out.
\<close>

section \<open>Data\<close>

abbreviation (input) CALLDATA_SELECTOR_SIZE :: nat where "CALLDATA_SELECTOR_SIZE \<equiv> 4"
abbreviation (input) CALLDATA_CHUNK_SIZE :: nat where "CALLDATA_CHUNK_SIZE \<equiv> 32"

datatype e_chunk_strip_dir = CHUNK_STRIP_LEFT | CHUNK_STRIP_RIGHT

record s_calldata_chunk =
  dir :: e_chunk_strip_dir
  csize :: nat
  cbuf :: "bytes option"

record s_calldata =
  expected_size :: nat
  received_size :: nat
  selector :: bytes
  chunks :: "s_calldata_chunk list"
  chunk :: bytes
  chunk_size :: nat

section \<open>Operations\<close>

definition calldata_set_selector :: "s_calldata option \<Rightarrow> bytes option \<Rightarrow> (bool \<times> s_calldata option) option" where
  "calldata_set_selector calldata sel =
     (case (calldata, sel) of
        (Some cd, Some s) \<Rightarrow> do {
          xs \<leftarrow> rd_n s 0 CALLDATA_SELECTOR_SIZE;
          Some (True, Some (cd\<lparr>selector := xs\<rparr>)) }
      | _ \<Rightarrow> Some (False, calldata))"

definition calldata_init :: "nat \<Rightarrow> bytes option \<Rightarrow> mem \<Rightarrow> (s_calldata option \<times> mem) option" where
  "calldata_init sz sel m =
     (let (ok, m) = mem_alloc m
      in if \<not> ok then Some (None, m)
         else
           (let cd = \<lparr>expected_size = sz, received_size = 0, selector = replicate CALLDATA_SELECTOR_SIZE 0,
                      chunks = [], chunk = replicate CALLDATA_CHUNK_SIZE 0, chunk_size = 0\<rparr>
            in case sel of
                 None \<Rightarrow> Some (Some cd, m)
               | Some s \<Rightarrow> do {
                   (_, cd') \<leftarrow> calldata_set_selector (Some cd) (Some s);
                   Some (cd', m) }))"

text \<open>The two loops that count the zeros at either end of the chunk.\<close>

fun count_zeros :: "bytes \<Rightarrow> nat" where
  "count_zeros [] = 0"
| "count_zeros (b # bs) = (if b = 0 then Suc (count_zeros bs) else 0)"

definition compress_chunk :: "s_calldata \<Rightarrow> mem \<Rightarrow> (bool \<times> s_calldata \<times> mem) option" where
  "compress_chunk cd m =
     (let (ok, m) = mem_alloc m
      in if \<not> ok then Some (False, cd, m)
         else
           (let strip_left = count_zeros (chunk cd);
                strip_right = count_zeros (rev (chunk cd));
                (d, sz, start_idx) =
                  (if strip_right \<le> strip_left
                   then (CHUNK_STRIP_LEFT, CALLDATA_CHUNK_SIZE - strip_left, strip_left)
                   else (CHUNK_STRIP_RIGHT, CALLDATA_CHUNK_SIZE - strip_right, 0))
            in if 0 < sz then
                 (let (ok, m) = mem_alloc m
                  in if \<not> ok then Some (False, cd, mem_free m)
                     else do {
                       xs \<leftarrow> rd_n (chunk cd) start_idx sz;
                       Some (True, cd\<lparr>chunks := chunks cd @ [\<lparr>dir = d, csize = sz, cbuf = Some xs\<rparr>]\<rparr>, m) })
               else Some (True, cd\<lparr>chunks := chunks cd @ [\<lparr>dir = d, csize = sz, cbuf = None\<rparr>]\<rparr>, m)))"

definition decompress_chunk :: "s_calldata_chunk \<Rightarrow> bytes \<Rightarrow> (bool \<times> bytes) option" where
  "decompress_chunk c out =
     (if cbuf c = None \<or> csize c = 0 then do {
        out \<leftarrow> wr_n out 0 (replicate CALLDATA_CHUNK_SIZE 0);
        Some (True, out) }
      else
        (let diff = CALLDATA_CHUNK_SIZE - csize c
         in do {
           xs \<leftarrow> rd_n (the (cbuf c)) 0 (csize c);
           if dir c = CHUNK_STRIP_LEFT then do {
             out \<leftarrow> wr_n out 0 (replicate diff 0);
             out \<leftarrow> wr_n out diff xs;
             Some (True, out) }
           else do {
             out \<leftarrow> wr_n out 0 xs;
             out \<leftarrow> wr_n out (csize c) (replicate diff 0);
             Some (True, out) } }))"

text \<open>The copy loop of \<open>calldata_append\<close>.  \<open>buffer\<close> is the advanced pointer.\<close>

function calldata_append_loop ::
  "s_calldata \<Rightarrow> mem \<Rightarrow> bytes \<Rightarrow> nat \<Rightarrow> (bool \<times> s_calldata \<times> mem) option" where
  "calldata_append_loop cd m buffer sz =
     (if sz = 0 then Some (True, cd, m)
      else if expected_size cd < received_size cd then Some (False, cd, m)
      else if CALLDATA_CHUNK_SIZE < chunk_size cd then None
      else
        (let cpy_length = min sz (CALLDATA_CHUNK_SIZE - chunk_size cd)
         in case (do { xs \<leftarrow> rd_n buffer 0 cpy_length; wr_n (chunk cd) (chunk_size cd) xs }) of
              None \<Rightarrow> None
            | Some chunk' \<Rightarrow>
                (let cd1 = cd\<lparr>chunk := chunk', chunk_size := chunk_size cd + cpy_length\<rparr>
                 in if chunk_size cd1 = CALLDATA_CHUNK_SIZE then
                      (case compress_chunk cd1 m of
                         None \<Rightarrow> None
                       | Some (ok, cd2, m2) \<Rightarrow>
                           if \<not> ok then Some (False, cd2, m2)
                           else calldata_append_loop
                                  (cd2\<lparr>chunk_size := 0, received_size := received_size cd2 + cpy_length\<rparr>)
                                  m2 (drop cpy_length buffer) (sz - cpy_length))
                    else calldata_append_loop (cd1\<lparr>received_size := received_size cd1 + cpy_length\<rparr>)
                           m (drop cpy_length buffer) (sz - cpy_length))))"
  by pat_completeness auto
termination
  by (relation "measure (\<lambda>(cd, m, buffer, sz). 2 * sz + (if chunk_size cd = 32 then 1 else 0))")
    (auto simp: min_def)

declare calldata_append_loop.simps [simp del]

definition calldata_append ::
  "s_calldata option \<Rightarrow> mem \<Rightarrow> bytes \<Rightarrow> nat \<Rightarrow> (bool \<times> s_calldata option \<times> mem) option" where
  "calldata_append calldata m buffer sz =
     (case calldata of
        None \<Rightarrow> Some (False, None, m)
      | Some cd \<Rightarrow>
          if 2 ^ 32 \<le> received_size cd + sz \<or> expected_size cd < received_size cd + sz
          then Some (False, Some cd, m)
          else do {
            (ok, cd', m') \<leftarrow> calldata_append_loop cd m buffer sz;
            Some (ok, Some cd', m') })"

definition delete_calldata_chunk :: "s_calldata_chunk \<Rightarrow> mem \<Rightarrow> mem" where
  "delete_calldata_chunk c m = mem_free (if cbuf c = None then m else mem_free m)"

definition calldata_delete :: "s_calldata \<Rightarrow> mem \<Rightarrow> mem" where
  "calldata_delete cd m = mem_free (fold delete_calldata_chunk (chunks cd) m)"

definition has_valid_calldata :: "s_calldata option \<Rightarrow> bool" where
  "has_valid_calldata calldata =
     (case calldata of None \<Rightarrow> False | Some cd \<Rightarrow> received_size cd = expected_size cd)"

definition calldata_get_selector :: "s_calldata option \<Rightarrow> bytes option" where
  "calldata_get_selector calldata =
     (if \<not> has_valid_calldata calldata then None else Some (selector (the calldata)))"

text \<open>The walk along the list of chunks; \<open>None\<close> is the null pointer.\<close>

fun nth_chunk :: "s_calldata_chunk list \<Rightarrow> nat \<Rightarrow> s_calldata_chunk option" where
  "nth_chunk [] i = None"
| "nth_chunk (c # cs) 0 = Some c"
| "nth_chunk (c # cs) (Suc i) = nth_chunk cs i"

text \<open>The returned pointer is to the \<open>chunk\<close> buffer of the calldata, which the call
  overwrites.\<close>

definition calldata_get_chunk ::
  "s_calldata option \<Rightarrow> uint32 \<Rightarrow> (bytes option \<times> s_calldata option) option" where
  "calldata_get_chunk calldata idx =
     (if \<not> has_valid_calldata calldata then Some (None, calldata)
      else
        (let cd = the calldata
         in case nth_chunk (chunks cd) (unat idx) of
              None \<Rightarrow> Some (None, calldata)
            | Some c \<Rightarrow> do {
                (ok, out) \<leftarrow> decompress_chunk c (chunk cd);
                if \<not> ok then Some (None, Some (cd\<lparr>chunk := out\<rparr>))
                else Some (Some out, Some (cd\<lparr>chunk := out\<rparr>)) }))"

section \<open>Compression\<close>

definition chunk_ok :: "s_calldata_chunk \<Rightarrow> bool" where
  "chunk_ok c \<longleftrightarrow> csize c \<le> 32 \<and>
     (case cbuf c of None \<Rightarrow> csize c = 0 | Some b \<Rightarrow> length b = csize c \<and> 0 < csize c)"

text \<open>The 32 bytes that a chunk stands for.\<close>

definition chunk_bytes :: "s_calldata_chunk \<Rightarrow> bytes" where
  "chunk_bytes c =
     (case cbuf c of
        None \<Rightarrow> replicate 32 0
      | Some b \<Rightarrow> if dir c = CHUNK_STRIP_LEFT then replicate (32 - length b) 0 @ b
                  else b @ replicate (32 - length b) 0)"

definition chunk_blocks :: "s_calldata_chunk \<Rightarrow> nat" where
  "chunk_blocks c = (if cbuf c = None then 1 else 2)"

lemma length_chunk_bytes: "chunk_ok c \<Longrightarrow> length (chunk_bytes c) = 32"
  by (auto simp: chunk_ok_def chunk_bytes_def split: option.splits)

lemma decompress_chunk_correct:
  assumes "chunk_ok c" "length out = 32"
  shows "decompress_chunk c out = Some (True, chunk_bytes c)"
proof (cases "cbuf c")
  case None
  then show ?thesis using assms by (simp add: decompress_chunk_def chunk_bytes_def wr_n_def)
next
  case (Some b)
  then show ?thesis using assms
    by (cases "dir c")
      (auto simp: decompress_chunk_def chunk_bytes_def chunk_ok_def rd_n_def wr_n_def Let_def)
qed

lemma count_zeros_le: "count_zeros bs \<le> length bs"
  by (induction bs) auto

lemma count_zeros_prefix: "replicate (count_zeros bs) 0 @ drop (count_zeros bs) bs = bs"
  by (induction bs) auto

lemma count_zeros_suffix:
  "take (length bs - count_zeros (rev bs)) bs @ replicate (count_zeros (rev bs)) 0 = bs"
proof -
  have "rev (replicate (count_zeros (rev bs)) 0 @ drop (count_zeros (rev bs)) (rev bs)) = bs"
    by (simp only: count_zeros_prefix rev_rev_ident)
  then show ?thesis by (simp add: rev_drop)
qed

text \<open>The stripped chunk that \<open>compress_chunk\<close> builds.\<close>

definition stripped :: "bytes \<Rightarrow> s_calldata_chunk" where
  "stripped bs =
     (let l = count_zeros bs; r = count_zeros (rev bs);
          (d, sz, i) = (if r \<le> l then (CHUNK_STRIP_LEFT, 32 - l, l) else (CHUNK_STRIP_RIGHT, 32 - r, 0))
      in \<lparr>dir = d, csize = sz, cbuf = (if 0 < sz then Some (take sz (drop i bs)) else None)\<rparr>)"

lemma stripped_correct:
  assumes "length bs = 32"
  shows "chunk_ok (stripped bs)" "chunk_bytes (stripped bs) = bs"
proof -
  let ?l = "count_zeros bs" and ?r = "count_zeros (rev bs)"
  have le: "?l \<le> 32" "?r \<le> 32" using count_zeros_le [of bs] count_zeros_le [of "rev bs"] assms by auto
  have pre: "replicate ?l 0 @ drop ?l bs = bs" by (rule count_zeros_prefix)
  have suf: "take (32 - ?r) bs @ replicate ?r 0 = bs" using count_zeros_suffix [of bs] assms by simp
  show "chunk_ok (stripped bs)"
    using le assms by (auto simp: chunk_ok_def stripped_def Let_def)
  have all: "bs = replicate 32 0" if "?l = 32" using pre that assms by simp
  show "chunk_bytes (stripped bs) = bs"
  proof (cases "?r \<le> ?l")
    case True
    then show ?thesis using le assms pre all
      by (cases "?l = 32") (auto simp: chunk_bytes_def stripped_def Let_def)
  next
    case False
    have "?r \<noteq> 32"
    proof
      assume "?r = 32"
      then have "bs = replicate 32 0" using suf by simp
      then have "rev bs = bs" by simp
      then show False using False by simp
    qed
    then show ?thesis using False le assms suf
      by (auto simp: chunk_bytes_def stripped_def Let_def min_def)
  qed
qed

lemma compress_chunk_correct:
  assumes "length (chunk cd) = 32"
  obtains (ok) m' where
    "compress_chunk cd m = Some (True, cd\<lparr>chunks := chunks cd @ [stripped (chunk cd)]\<rparr>, m')"
    "live m' = live m + chunk_blocks (stripped (chunk cd))"
    "\<And>n. mem_ok (n + 2) m \<Longrightarrow> mem_ok n m'"
  | (fail) m' where "compress_chunk cd m = Some (False, cd, m')" "live m' = live m" "\<not> mem_ok 2 m"
proof -
  let ?c = "stripped (chunk cd)"
  have cz: "count_zeros (chunk cd) \<le> 32" "count_zeros (rev (chunk cd)) \<le> 32"
    using count_zeros_le [of "chunk cd"] count_zeros_le [of "rev (chunk cd)"] assms by auto
  show ?thesis
  proof (cases m rule: mem_alloc_cases)
    case (fail m1)
    have "\<not> mem_ok 2 m"
      using fail mem_alloc_ok [of 1 m] by (auto simp: numeral_2_eq_2)
    then show ?thesis using that(2) fail by (simp add: compress_chunk_def)
  next
    case (ok m1)
    have ok1: "mem_ok n m1" if "mem_ok (Suc n) m" for n
      using mem_alloc_ok [OF that] ok by auto
    show ?thesis
    proof (cases "cbuf ?c")
      case None
      then have "compress_chunk cd m = Some (True, cd\<lparr>chunks := chunks cd @ [?c]\<rparr>, m1)"
        using ok cz assms by (auto simp: compress_chunk_def stripped_def Let_def split: if_splits)
      then show ?thesis using that(1) ok None ok1 mem_ok_mono
        by (auto simp: chunk_blocks_def)
    next
      case (Some b)
      show ?thesis
      proof (cases m1 rule: mem_alloc_cases)
        case fail2: (fail m2)
        have "\<not> mem_ok 1 m1" using fail2 mem_alloc_ok [of 0 m1] by auto
        then have "\<not> mem_ok 2 m" using ok1 [of 1] by (auto simp: numeral_2_eq_2)
        moreover have "compress_chunk cd m = Some (False, cd, mem_free m2)"
          using ok fail2 Some by (auto simp: compress_chunk_def stripped_def Let_def split: if_splits)
        ultimately show ?thesis using that(2) ok fail2 by simp
      next
        case ok2: (ok m2)
        have ok2': "mem_ok n m2" if "mem_ok (Suc n) m1" for n
          using mem_alloc_ok [OF that] ok2 by auto
        have "compress_chunk cd m = Some (True, cd\<lparr>chunks := chunks cd @ [?c]\<rparr>, m2)"
          using ok ok2 Some cz assms
          by (auto simp: compress_chunk_def stripped_def Let_def rd_n_def split: if_splits)
        then show ?thesis using that(1) ok ok2 Some ok1 ok2' by (auto simp: chunk_blocks_def)
      qed
    qed
  qed
qed

section \<open>Invariant and appending\<close>

definition calldata_inv :: "s_calldata \<Rightarrow> bool" where
  "calldata_inv cd \<longleftrightarrow> length (chunk cd) = 32 \<and> chunk_size cd < 32 \<and> list_all chunk_ok (chunks cd)
     \<and> received_size cd = 32 * length (chunks cd) + chunk_size cd \<and> received_size cd \<le> expected_size cd
     \<and> length (selector cd) = 4"

text \<open>The bytes stored so far.\<close>

definition calldata_bytes :: "s_calldata \<Rightarrow> bytes" where
  "calldata_bytes cd = concat (map chunk_bytes (chunks cd)) @ take (chunk_size cd) (chunk cd)"

definition calldata_blocks :: "s_calldata \<Rightarrow> nat" where
  "calldata_blocks cd = Suc (sum_list (map chunk_blocks (chunks cd)))"

lemma length_concat_chunks:
  "list_all chunk_ok cs \<Longrightarrow> length (concat (map chunk_bytes cs)) = 32 * length cs"
  by (induction cs) (auto simp: length_chunk_bytes)

lemma length_calldata_bytes: "calldata_inv cd \<Longrightarrow> length (calldata_bytes cd) = received_size cd"
  by (auto simp: calldata_inv_def calldata_bytes_def length_concat_chunks)

text \<open>What a run of the loop may leave behind: on success the invariant and the appended
  bytes; always a balanced allocator and untouched metadata.\<close>

definition append_post ::
  "s_calldata \<Rightarrow> mem \<Rightarrow> bytes \<Rightarrow> (bool \<times> s_calldata \<times> mem) option \<Rightarrow> bool" where
  "append_post cd m xs res \<longleftrightarrow>
     (\<exists>ok cd' m'. res = Some (ok, cd', m') \<and> expected_size cd' = expected_size cd \<and> selector cd' = selector cd
        \<and> list_all chunk_ok (chunks cd')
        \<and> live m' + calldata_blocks cd = live m + calldata_blocks cd'
        \<and> (ok \<longrightarrow> calldata_inv cd' \<and> calldata_bytes cd' = calldata_bytes cd @ xs)
        \<and> (mem_ok (2 * ((chunk_size cd + length xs) div 32)) m \<longrightarrow> ok))"

lemma append_post_step:
  assumes "append_post cd1 m1 ys res" "expected_size cd1 = expected_size cd" "selector cd1 = selector cd"
    and "live m1 + calldata_blocks cd = live m + calldata_blocks cd1"
    and "calldata_bytes cd1 = calldata_bytes cd @ xs"
    and "mem_ok (2 * ((chunk_size cd + length (xs @ ys)) div 32)) m \<Longrightarrow>
         mem_ok (2 * ((chunk_size cd1 + length ys) div 32)) m1"
  shows "append_post cd m (xs @ ys) res"
  using assms unfolding append_post_def by fastforce

lemma append_post_done:
  assumes "res = Some (True, cd', m)" "calldata_inv cd'" "calldata_bytes cd' = calldata_bytes cd @ xs"
    "expected_size cd' = expected_size cd" "selector cd' = selector cd" "calldata_blocks cd' = calldata_blocks cd"
  shows "append_post cd m xs res"
  using assms unfolding append_post_def calldata_inv_def by auto

lemma calldata_append_loop_correct:
  assumes "calldata_inv cd" "sz \<le> length buffer" "received_size cd + sz \<le> expected_size cd"
  shows "append_post cd m (take sz buffer) (calldata_append_loop cd m buffer sz)"
  using assms
proof (induction sz arbitrary: cd m buffer rule: less_induct)
  case (less sz)
  note inv = less.prems(1)
  show ?case
  proof (cases "sz = 0")
    case True
    then show ?thesis using inv
      by (auto simp: calldata_append_loop.simps append_post_def calldata_inv_def)
  next
    case False
    let ?n = "min sz (32 - chunk_size cd)"
    let ?xs = "take ?n buffer"
    let ?chunk = "take (chunk_size cd) (chunk cd) @ ?xs @ drop (chunk_size cd + ?n) (chunk cd)"
    let ?cd1 = "cd\<lparr>chunk := ?chunk, chunk_size := chunk_size cd + ?n\<rparr>"
    have cs: "chunk_size cd < 32" "length (chunk cd) = 32" using inv by (auto simp: calldata_inv_def)
    have ge: "\<not> expected_size cd < received_size cd" using less.prems(3) by simp
    have n0: "0 < ?n" using False cs by simp
    have wr: "(do { xs \<leftarrow> rd_n buffer 0 ?n; wr_n (chunk cd) (chunk_size cd) xs }) = Some ?chunk"
      using less.prems(2) cs by (auto simp: rd_n_def wr_n_def min_def)
    have split: "take sz buffer = ?xs @ take (sz - ?n) (drop ?n buffer)"
      by (metis le_add_diff_inverse min.cobounded1 take_add)
    have lxs: "length ?xs = ?n" using less.prems(2) by simp
    have lchunk: "length ?chunk = 32" using cs lxs by simp
    show ?thesis
    proof (cases "chunk_size cd + ?n = 32")
      case full: True
      have chunk_eq: "?chunk = take (chunk_size cd) (chunk cd) @ ?xs" using full cs by simp
      let ?c = "stripped ?chunk"
      have "length (chunk ?cd1) = 32" using lchunk by simp
      then show ?thesis
      proof (cases rule: compress_chunk_correct [where m = m])
        case 2: (ok m1)
        let ?cd2 = "?cd1\<lparr>chunks := chunks cd @ [?c], chunk_size := 0, received_size := received_size cd + ?n\<rparr>"
        have c: "compress_chunk ?cd1 m = Some (True, ?cd1\<lparr>chunks := chunks cd @ [?c]\<rparr>, m1)"
          using 2(1) by simp
        have inv2: "calldata_inv ?cd2"
          using inv full lchunk stripped_correct(1) [OF lchunk] less.prems(3)
          by (auto simp: calldata_inv_def)
        have IH: "append_post ?cd2 m1 (take (sz - ?n) (drop ?n buffer))
            (calldata_append_loop ?cd2 m1 (drop ?n buffer) (sz - ?n))"
          by (rule less.IH [OF _ inv2]) (use n0 False less.prems in auto)
        have step: "calldata_append_loop cd m buffer sz = calldata_append_loop ?cd2 m1 (drop ?n buffer) (sz - ?n)"
          using False ge cs wr full c by (subst calldata_append_loop.simps) (simp add: Let_def)
        show ?thesis
          unfolding split step
        proof (rule append_post_step [OF IH])
          show "live m1 + calldata_blocks cd = live m + calldata_blocks ?cd2"
            using 2(2) by (simp add: calldata_blocks_def)
          show "calldata_bytes ?cd2 = calldata_bytes cd @ ?xs"
            using stripped_correct(2) [OF lchunk] chunk_eq by (simp add: calldata_bytes_def)
          have "(chunk_size cd + length (?xs @ take (sz - ?n) (drop ?n buffer))) div 32
              = Suc ((sz - ?n) div 32)"
          proof -
            have "chunk_size cd + length (?xs @ take (sz - ?n) (drop ?n buffer)) = 32 + (sz - ?n)"
              using full less.prems(2) by simp
            moreover have "(32 + k) div 32 = Suc (k div 32)" for k :: nat by simp
            ultimately show ?thesis by (simp only:)
          qed
          then show "mem_ok (2 * ((chunk_size cd + length (?xs @ take (sz - ?n) (drop ?n buffer))) div 32)) m \<Longrightarrow>
            mem_ok (2 * ((chunk_size ?cd2 + length (take (sz - ?n) (drop ?n buffer))) div 32)) m1"
            using 2(3) less.prems(2) by simp
        qed simp_all
      next
        case 3: (fail m1)
        have "calldata_append_loop cd m buffer sz = Some (False, ?cd1, m1)"
          using False ge cs wr full 3(1) by (subst calldata_append_loop.simps) (simp add: Let_def)
        moreover have "\<not> mem_ok (2 * ((chunk_size cd + length (take sz buffer)) div 32)) m"
        proof
          assume a: "mem_ok (2 * ((chunk_size cd + length (take sz buffer)) div 32)) m"
          have "32 \<le> chunk_size cd + length (take sz buffer)" using full less.prems(2) by simp
          then have "1 \<le> (chunk_size cd + length (take sz buffer)) div 32" by simp
          then have "mem_ok 2 m" by (intro mem_ok_mono [OF a]) simp
          then show False using 3(3) by simp
        qed
        ultimately show ?thesis using 3(2) inv
          by (auto simp: append_post_def calldata_blocks_def calldata_inv_def)
      qed
    next
      case part: False
      then have all: "?n = sz" using cs by (auto simp: min_def split: if_splits)
      then have ns: "chunk_size cd + sz \<noteq> 32" using part by simp
      let ?cd2 = "?cd1\<lparr>received_size := received_size cd + ?n\<rparr>"
      have "calldata_append_loop cd m buffer sz = calldata_append_loop ?cd2 m (drop ?n buffer) (sz - ?n)"
        using False ge cs wr part ns by (subst calldata_append_loop.simps) (simp add: Let_def)
      also have "\<dots> = Some (True, ?cd2, m)" using all by (simp add: calldata_append_loop.simps)
      finally have res: "calldata_append_loop cd m buffer sz = Some (True, ?cd2, m)" .
      have "calldata_inv ?cd2"
        using inv lchunk part all cs less.prems(3) by (auto simp: calldata_inv_def)
      moreover have "calldata_bytes ?cd2 = calldata_bytes cd @ take sz buffer"
        using cs all lxs by (simp add: calldata_bytes_def)
      ultimately show ?thesis
        by (intro append_post_done [OF res]) (simp_all add: calldata_blocks_def)
    qed
  qed
qed

section \<open>The contract of the store\<close>

lemma calldata_append_correct:
  assumes "calldata_inv cd" "sz \<le> length buffer" "expected_size cd < 2 ^ 32"
  shows "\<exists>ok cd' m'. calldata_append (Some cd) m buffer sz = Some (ok, Some cd', m')
     \<and> expected_size cd' = expected_size cd \<and> selector cd' = selector cd
     \<and> live m' + calldata_blocks cd = live m + calldata_blocks cd'
     \<and> (ok \<longrightarrow> calldata_inv cd' \<and> calldata_bytes cd' = calldata_bytes cd @ take sz buffer)
     \<and> (expected_size cd < received_size cd + sz \<longrightarrow> \<not> ok \<and> cd' = cd)
     \<and> (received_size cd + sz \<le> expected_size cd \<and> mem_ok (2 * ((chunk_size cd + sz) div 32)) m \<longrightarrow> ok)"
proof (cases "received_size cd + sz \<le> expected_size cd")
  case True
  have "append_post cd m (take sz buffer) (calldata_append_loop cd m buffer sz)"
    by (rule calldata_append_loop_correct [OF assms(1,2) True])
  then obtain ok cd' m' where res: "calldata_append_loop cd m buffer sz = Some (ok, cd', m')"
    "expected_size cd' = expected_size cd" "selector cd' = selector cd"
    "live m' + calldata_blocks cd = live m + calldata_blocks cd'"
    "ok \<longrightarrow> calldata_inv cd' \<and> calldata_bytes cd' = calldata_bytes cd @ take sz buffer"
    "mem_ok (2 * ((chunk_size cd + length (take sz buffer)) div 32)) m \<longrightarrow> ok"
    unfolding append_post_def by blast
  then show ?thesis using True assms(2,3)
    by (auto simp: calldata_append_def)
next
  case False
  then show ?thesis using assms by (auto simp: calldata_append_def)
qed

lemma nth_chunk_eq: "nth_chunk cs i = (if i < length cs then Some (cs ! i) else None)"
  by (induction cs i rule: nth_chunk.induct) auto

lemma take_drop_concat:
  assumes "\<forall>x \<in> set xs. length (f x) = n" "i < length xs"
  shows "take n (drop (n * i) (concat (map f xs) @ ys)) = f (xs ! i)"
  using assms
proof (induction xs arbitrary: i)
  case Nil
  then show ?case by simp
next
  case (Cons x xs)
  then show ?case by (cases i) auto
qed

text \<open>Reading chunk \<open>i\<close> of complete calldata gives its bytes \<open>32 i .. 32 i + 31\<close>; an
  index beyond the last complete chunk gives the null pointer.\<close>

lemma calldata_get_chunk_correct:
  assumes "length (chunk cd) = 32" "list_all chunk_ok (chunks cd)" "received_size cd = expected_size cd"
    and "concat (map chunk_bytes (chunks cd)) @ rest = data"
  shows "calldata_get_chunk (Some cd) idx =
    (if unat idx < length (chunks cd)
     then Some (Some (take 32 (drop (32 * unat idx) data)),
                Some (cd\<lparr>chunk := take 32 (drop (32 * unat idx) data)\<rparr>))
     else Some (None, Some cd))"
proof (cases "unat idx < length (chunks cd)")
  case True
  let ?c = "chunks cd ! unat idx"
  have ok: "chunk_ok ?c" using assms(2) True by (simp add: list_all_length)
  have "take 32 (drop (32 * unat idx) data) = chunk_bytes ?c"
    unfolding assms(4) [symmetric]
    by (rule take_drop_concat) (use assms(2) True in \<open>auto simp: list_all_iff length_chunk_bytes\<close>)
  then show ?thesis using True assms(1,3) decompress_chunk_correct [OF ok assms(1)]
    by (simp add: calldata_get_chunk_def has_valid_calldata_def nth_chunk_eq)
next
  case False
  then show ?thesis using assms
    by (simp add: calldata_get_chunk_def has_valid_calldata_def nth_chunk_eq)
qed

lemma fold_delete_live:
  "sum_list (map chunk_blocks cs) \<le> live m \<Longrightarrow>
   live (fold delete_calldata_chunk cs m) = live m - sum_list (map chunk_blocks cs)"
  by (induction cs arbitrary: m) (auto simp: delete_calldata_chunk_def chunk_blocks_def)

text \<open>Deleting the calldata releases every block it owns.\<close>

lemma calldata_delete_live:
  "calldata_blocks cd \<le> live m \<Longrightarrow> live (calldata_delete cd m) = live m - calldata_blocks cd"
  by (simp add: calldata_delete_def calldata_blocks_def fold_delete_live)

lemma calldata_init_correct:
  assumes "\<forall>s. sel = Some s \<longrightarrow> 4 \<le> length s"
  obtains (fail) m' where "calldata_init sz sel m = Some (None, m')" "live m' = live m" "\<not> mem_ok 1 m"
  | (ok) cd m' where "calldata_init sz sel m = Some (Some cd, m')" "calldata_inv cd" "calldata_bytes cd = []"
      "expected_size cd = sz" "live m' = live m + calldata_blocks cd" "chunk_size cd = 0"
      "\<And>n. mem_ok (Suc n) m \<Longrightarrow> mem_ok n m'"
proof (cases m rule: mem_alloc_cases)
  case (fail m')
  have "\<not> mem_ok 1 m" using fail mem_alloc_ok [of 0 m] by auto
  then show ?thesis using that(1) fail by (simp add: calldata_init_def)
next
  case (ok m')
  have mo: "mem_ok n m'" if "mem_ok (Suc n) m" for n using mem_alloc_ok [OF that] ok by auto
  show ?thesis
  proof (cases sel)
    case None
    then show ?thesis using ok mo
      by (intro that(2)) (auto simp: calldata_init_def calldata_inv_def calldata_bytes_def calldata_blocks_def)
  next
    case (Some s)
    then have "rd_n s 0 4 = Some (take 4 s)" "length (take 4 s) = 4" using assms by (auto simp: rd_n_def)
    then show ?thesis using ok mo Some
      by (intro that(2)) (auto simp: calldata_init_def calldata_set_selector_def calldata_inv_def
          calldata_bytes_def calldata_blocks_def)
  qed
qed

text \<open>Any way to deliver the calldata in pieces.\<close>

fun calldata_append_all :: "s_calldata option \<Rightarrow> mem \<Rightarrow> bytes list \<Rightarrow> (bool \<times> s_calldata option \<times> mem) option" where
  "calldata_append_all cd m [] = Some (True, cd, m)"
| "calldata_append_all cd m (b # bs) = do {
     (ok, cd, m) \<leftarrow> calldata_append cd m b (length b);
     if ok then calldata_append_all cd m bs else Some (False, cd, m) }"

lemma calldata_append_all_correct:
  assumes "calldata_inv cd" "expected_size cd < 2 ^ 32"
    "calldata_append_all (Some cd) m bs = Some (True, cd', m')"
  shows "\<exists>cd''. cd' = Some cd'' \<and> calldata_inv cd'' \<and> expected_size cd'' = expected_size cd
    \<and> calldata_bytes cd'' = calldata_bytes cd @ concat bs
    \<and> live m' + calldata_blocks cd = live m + calldata_blocks cd''"
  using assms
proof (induction bs arbitrary: cd m)
  case Nil
  then show ?case by auto
next
  case (Cons b bs)
  obtain ok cd1 m1 where 1: "calldata_append (Some cd) m b (length b) = Some (ok, Some cd1, m1)"
    "expected_size cd1 = expected_size cd" "live m1 + calldata_blocks cd = live m + calldata_blocks cd1"
    "ok \<longrightarrow> calldata_inv cd1 \<and> calldata_bytes cd1 = calldata_bytes cd @ b"
    using calldata_append_correct [where cd = cd and buffer = b and sz = "length b" and m = m] Cons.prems(1,2) by auto
  have ok: ok and rest: "calldata_append_all (Some cd1) m1 bs = Some (True, cd', m')"
    using Cons.prems(3) 1(1) by (auto split: if_splits)
  have inv1: "calldata_inv cd1" and e1: "expected_size cd1 < 2 ^ 32"
    using 1 ok Cons.prems by auto
  show ?case using Cons.IH [OF inv1 e1 rest] 1 ok by auto
qed

text \<open>End to end: what was appended, in whatever pieces, is what is read back.\<close>

lemma calldata_reads_back:
  assumes "calldata_init (length data) sel m = Some (Some cd, m0)" "length data < 2 ^ 32"
    and "\<forall>s. sel = Some s \<longrightarrow> 4 \<le> length s" and "concat bs = data"
    and "calldata_append_all (Some cd) m0 bs = Some (True, Some cd', m')"
  shows "calldata_get_chunk (Some cd') idx =
    (if unat idx < length data div 32
     then Some (Some (take 32 (drop (32 * unat idx) data)),
                Some (cd'\<lparr>chunk := take 32 (drop (32 * unat idx) data)\<rparr>))
     else Some (None, Some cd'))"
proof -
  have init: "calldata_inv cd" "calldata_bytes cd = []" "expected_size cd = length data"
    by (rule calldata_init_correct [OF assms(3), of "length data" m]; use assms(1) in simp)+
  then obtain "calldata_inv cd'" "expected_size cd' = length data" "calldata_bytes cd' = data"
    using calldata_append_all_correct [OF init(1) _ assms(5)] assms(2,4) by auto
  then have inv: "calldata_inv cd'" and e: "expected_size cd' = length data" and b: "calldata_bytes cd' = data" by auto
  have r: "received_size cd' = length data" using length_calldata_bytes [OF inv] b by simp
  then have n: "length (chunks cd') = length data div 32" using inv by (simp add: calldata_inv_def)
  show ?thesis
    using calldata_get_chunk_correct [of cd' "take (chunk_size cd') (chunk cd')" data idx] inv e r b n
    by (simp add: calldata_inv_def calldata_bytes_def)
qed

end
