(* ===== verification/Data_Path.thy ===== *)
theory Data_Path
  imports Calldata Tlv
begin

text \<open>
  Model of \<open>gtp_path_array.c\<close>, \<open>gtp_path_slice.c\<close> and \<open>gtp_data_path.c\<close> of
  \<open>src/features/generic_tx_parser\<close>: the paths by which a clear-signing descriptor points
  into the calldata, and their evaluation.

  Evaluation reads the calldata only through
  \<open>calldata_get_chunk(get_current_calldata(), i)\<close>, the parameter \<open>get\<close> of the
  definitions; every chunk is consumed before the next one is requested, so the scratch
  buffer that those calls share is never read after it was overwritten.  The locale
  \<open>chunk_source\<close> states what the evaluation relies on, and the interpretation at
  the end of the theory discharges it for the calldata store.
\<close>

section \<open>Data\<close>

text \<open>\<open>int16_t\<close> bounds are words read by \<open>sint\<close>.\<close>

record s_array_args =
  weight :: uint8
  a_has_start :: bool
  a_start :: uint16
  a_has_end :: bool
  a_end :: uint16

record s_slice_args =
  s_has_start :: bool
  s_start :: uint16
  s_has_end :: bool
  s_end :: uint16

datatype e_path_leaf_type = LEAF_TYPE_ARRAY | LEAF_TYPE_TUPLE | LEAF_TYPE_STATIC | LEAF_TYPE_DYNAMIC

datatype s_path_element =
    ELEMENT_TYPE_TUPLE uint16
  | ELEMENT_TYPE_ARRAY s_array_args
  | ELEMENT_TYPE_REF
  | ELEMENT_TYPE_LEAF e_path_leaf_type
  | ELEMENT_TYPE_SLICE s_slice_args

abbreviation (input) PATH_MAX_SIZE :: nat where "PATH_MAX_SIZE \<equiv> 16"
abbreviation (input) MAX_VALUE_COLLECTION_SIZE :: nat where "MAX_VALUE_COLLECTION_SIZE \<equiv> 16"
abbreviation (input) MAX_ARRAYS :: nat where "MAX_ARRAYS \<equiv> 8"

text \<open>The first \<open>size\<close> entries of the array \<open>elements\<close>.\<close>

record s_data_path =
  dp_version :: uint8
  dp_elements :: "s_path_element list"

text \<open>A parsed value: the allocated block, the position of \<open>ptr\<close> in it, and the fields of
  the struct.\<close>

record s_parsed_value =
  pv_block :: "bytes option"
  pv_pos :: nat
  pv_size :: uint16
  pv_offset :: uint16
  pv_length :: uint16

type_synonym s_parsed_value_collection = "s_parsed_value list"

section \<open>Construction from TLV fields\<close>

definition array_handle_weight :: "bytes \<Rightarrow> s_array_args \<Rightarrow> (bool \<times> s_array_args) option" where
  "array_handle_weight v a =
     (if length v < 1 then Some (False, a)
      else do { b \<leftarrow> rd v 0; if b = 0 then Some (False, a) else Some (True, a\<lparr>weight := b\<rparr>) })"

definition array_handle_start :: "bytes \<Rightarrow> s_array_args \<Rightarrow> (bool \<times> s_array_args) option" where
  "array_handle_start v a =
     (if length v < 2 then Some (False, a)
      else do { w \<leftarrow> read_u16_be v 0; Some (True, a\<lparr>a_start := w, a_has_start := True\<rparr>) })"

definition array_handle_end :: "bytes \<Rightarrow> s_array_args \<Rightarrow> (bool \<times> s_array_args) option" where
  "array_handle_end v a =
     (if length v < 2 then Some (False, a)
      else do { w \<leftarrow> read_u16_be v 0; Some (True, a\<lparr>a_end := w, a_has_end := True\<rparr>) })"

definition slice_handle_start :: "bytes \<Rightarrow> s_slice_args \<Rightarrow> (bool \<times> s_slice_args) option" where
  "slice_handle_start v a =
     (if length v < 2 then Some (False, a)
      else do { w \<leftarrow> read_u16_be v 0; Some (True, a\<lparr>s_start := w, s_has_start := True\<rparr>) })"

definition slice_handle_end :: "bytes \<Rightarrow> s_slice_args \<Rightarrow> (bool \<times> s_slice_args) option" where
  "slice_handle_end v a =
     (if length v < 2 then Some (False, a)
      else do { w \<leftarrow> read_u16_be v 0; Some (True, a\<lparr>s_end := w, s_has_end := True\<rparr>) })"

text \<open>Writing \<open>elements[size]\<close> and incrementing \<open>size\<close>; outside of the array there is
  no defined result.\<close>

definition push_element :: "s_path_element \<Rightarrow> s_data_path \<Rightarrow> (bool \<times> s_data_path) option" where
  "push_element e p =
     (if length (dp_elements p) < PATH_MAX_SIZE
      then Some (True, p\<lparr>dp_elements := dp_elements p @ [e]\<rparr>) else None)"

text \<open>The extractors of the SDK and the two inner TLV parsers are parameters: they give
  \<open>None\<close> when they fail.\<close>

definition handle_tuple :: "(bytes \<Rightarrow> uint16 option) \<Rightarrow> bytes \<Rightarrow> s_data_path \<Rightarrow> (bool \<times> s_data_path) option" where
  "handle_tuple get_uint16 v p =
     (case get_uint16 v of None \<Rightarrow> Some (False, p) | Some w \<Rightarrow> push_element (ELEMENT_TYPE_TUPLE w) p)"

definition handle_array ::
  "(bytes \<Rightarrow> s_array_args \<Rightarrow> s_array_args option) \<Rightarrow> bytes \<Rightarrow> s_data_path \<Rightarrow> (bool \<times> s_data_path) option" where
  "handle_array array_tlv_parser v p =
     (case array_tlv_parser v \<lparr>weight = 0, a_has_start = False, a_start = 0, a_has_end = False, a_end = 0\<rparr> of
        None \<Rightarrow> Some (False, p)
      | Some a \<Rightarrow> push_element (ELEMENT_TYPE_ARRAY a) p)"

definition handle_ref :: "bytes \<Rightarrow> s_data_path \<Rightarrow> (bool \<times> s_data_path) option" where
  "handle_ref v p = (if length v \<noteq> 0 then Some (False, p) else push_element ELEMENT_TYPE_REF p)"

definition handle_leaf :: "(bytes \<Rightarrow> uint8 option) \<Rightarrow> bytes \<Rightarrow> s_data_path \<Rightarrow> (bool \<times> s_data_path) option" where
  "handle_leaf get_uint8 v p =
     (case get_uint8 v of
        None \<Rightarrow> Some (False, p)
      | Some t \<Rightarrow>
          if t = 1 then push_element (ELEMENT_TYPE_LEAF LEAF_TYPE_ARRAY) p
          else if t = 2 then push_element (ELEMENT_TYPE_LEAF LEAF_TYPE_TUPLE) p
          else if t = 3 then push_element (ELEMENT_TYPE_LEAF LEAF_TYPE_STATIC) p
          else if t = 4 then push_element (ELEMENT_TYPE_LEAF LEAF_TYPE_DYNAMIC) p
          else Some (False, p))"

definition handle_slice ::
  "(bytes \<Rightarrow> s_slice_args \<Rightarrow> s_slice_args option) \<Rightarrow> bytes \<Rightarrow> s_data_path \<Rightarrow> (bool \<times> s_data_path) option" where
  "handle_slice slice_tlv_parser v p =
     (case slice_tlv_parser v \<lparr>s_has_start = False, s_start = 0, s_has_end = False, s_end = 0\<rparr> of
        None \<Rightarrow> Some (False, p)
      | Some a \<Rightarrow> push_element (ELEMENT_TYPE_SLICE a) p)"

text \<open>The common handler, called with the tag before the tag's own handler.\<close>

definition data_path_common_handler :: "uint8 \<Rightarrow> s_data_path \<Rightarrow> bool" where
  "data_path_common_handler tag p = (tag = 0 \<or> length (dp_elements p) < PATH_MAX_SIZE)"

section \<open>Evaluation\<close>

definition path_tuple :: "uint16 \<Rightarrow> uint32 \<Rightarrow> uint32 \<Rightarrow> bool \<times> uint32 \<times> uint32" where
  "path_tuple v offset ref_offset = (True, offset + ucast v, offset)"

text \<open>A chunk that holds a number below \<open>2 ^ 16\<close>: 30 zero bytes and a big-endian
  \<open>uint16_t\<close>.\<close>

definition chunk_u16 :: "(uint32 \<Rightarrow> bytes option) \<Rightarrow> uint32 \<Rightarrow> (uint16 option) option" where
  "chunk_u16 get offset =
     (case get offset of
        None \<Rightarrow> Some None
      | Some c \<Rightarrow> do {
          z \<leftarrow> rd_n c 0 30;
          if \<not> is_zeroes_buffer z then Some None
          else do { w \<leftarrow> read_u16_be c 30; Some (Some w) } })"

definition path_ref ::
  "(uint32 \<Rightarrow> bytes option) \<Rightarrow> uint32 \<Rightarrow> uint32 \<Rightarrow> (bool \<times> uint32 \<times> uint32) option" where
  "path_ref get offset ref_offset = do {
     raw \<leftarrow> chunk_u16 get offset;
     case raw of
       None \<Rightarrow> Some (False, offset, ref_offset)
     | Some raw_offset \<Rightarrow>
         if raw_offset mod 32 \<noteq> 0 then Some (False, offset, ref_offset)
         else
           (let offset = ucast (raw_offset div 32)
            in if 2 ^ 32 \<le> unat offset + unat ref_offset then Some (False, offset + ref_offset, ref_offset)
               else Some (True, offset + ref_offset, ref_offset)) }"

text \<open>The copy loop of \<open>path_leaf\<close>: chunk after chunk into the allocated block.  The
  result is \<open>None\<close> inside for a missing chunk.\<close>

function leaf_copy ::
  "(uint32 \<Rightarrow> bytes option) \<Rightarrow> uint32 \<Rightarrow> nat \<Rightarrow> nat \<Rightarrow> bytes \<Rightarrow> (bytes option) option" where
  "leaf_copy get offset len chunk_idx buf =
     (if chunk_idx * 32 < len then
        (case get (offset + word_of_nat chunk_idx) of
           None \<Rightarrow> Some None
         | Some c \<Rightarrow>
             (case (do { xs \<leftarrow> rd_n c 0 (min 32 (len - chunk_idx * 32)); wr_n buf (chunk_idx * 32) xs }) of
                None \<Rightarrow> None
              | Some buf' \<Rightarrow> leaf_copy get offset len (Suc chunk_idx) buf'))
      else Some (Some buf))"
  by pat_completeness auto
termination
  by (relation "measure (\<lambda>(get, offset, len, i, buf). len - i * 32)") auto

declare leaf_copy.simps [simp del]

definition leaf_store ::
  "(uint32 \<Rightarrow> bytes option) \<Rightarrow> (nat \<Rightarrow> uint8) \<Rightarrow> uint16 \<Rightarrow> uint32 \<Rightarrow> s_parsed_value_collection \<Rightarrow> mem
    \<Rightarrow> (bool \<times> uint32 \<times> s_parsed_value_collection \<times> mem) option" where
  "leaf_store get fresh sz offset collection m =
     (let value = \<lparr>pv_block = None, pv_pos = 0, pv_size = sz, pv_offset = 0, pv_length = sz\<rparr>
      in if 0 < unat (pv_length value) then
           (let (ok, m) = mem_alloc m
            in if \<not> ok then Some (False, offset, collection, m)
               else do {
                 r \<leftarrow> leaf_copy get offset (unat (pv_length value)) 0 (map fresh [0..<unat (pv_length value)]);
                 case r of
                   None \<Rightarrow> Some (False, offset, collection, mem_free m)
                 | Some buf \<Rightarrow> Some (True, offset, collection @ [value\<lparr>pv_block := Some buf\<rparr>], m) })
         else Some (True, offset, collection @ [value], m))"

definition path_leaf ::
  "(uint32 \<Rightarrow> bytes option) \<Rightarrow> (nat \<Rightarrow> uint8) \<Rightarrow> e_path_leaf_type \<Rightarrow> uint32 \<Rightarrow> s_parsed_value_collection \<Rightarrow> mem
    \<Rightarrow> (bool \<times> uint32 \<times> s_parsed_value_collection \<times> mem) option" where
  "path_leaf get fresh leaf offset collection m =
     (if MAX_VALUE_COLLECTION_SIZE \<le> length collection then Some (False, offset, collection, m)
      else (case leaf of
              LEAF_TYPE_STATIC \<Rightarrow> leaf_store get fresh 32 offset collection m
            | LEAF_TYPE_DYNAMIC \<Rightarrow> do {
                sz \<leftarrow> chunk_u16 get offset;
                case sz of
                  None \<Rightarrow> Some (False, offset, collection, m)
                | Some w \<Rightarrow> leaf_store get fresh w (offset + 1) collection m }
            | _ \<Rightarrow> Some (False, offset, collection, m)))"

text \<open>\<open>(bound < 0) ? ((int32_t) n + bound) : bound\<close>\<close>

definition resolve_bound :: "uint16 \<Rightarrow> uint16 \<Rightarrow> int" where
  "resolve_bound n b = (if sint b < 0 then uint n + sint b else sint b)"

definition path_slice ::
  "s_slice_args \<Rightarrow> s_parsed_value_collection \<Rightarrow> (bool \<times> s_parsed_value_collection) option" where
  "path_slice sl collection =
     (if length collection = 0 then Some (False, collection)
      else
        (let v = last collection;
             value_length = pv_length v;
             start = (if s_has_start sl then word_of_int (resolve_bound value_length (s_start sl)) else 0);
             end = (if s_has_end sl then word_of_int (resolve_bound value_length (s_end sl)) else value_length)
         in if end \<le> start \<or> value_length < end then Some (False, collection)
            else if pv_block v = None then None
            else Some (True, butlast collection @
                   [v\<lparr>pv_pos := pv_pos v + unat (start :: uint16), pv_length := end - start,
                      pv_offset := pv_offset v + start\<rparr>])))"

record s_arrays_info =
  depth :: uint8
  passes_remaining :: "uint8 list"
  index :: uint8

definition path_array ::
  "(uint32 \<Rightarrow> bytes option) \<Rightarrow> s_array_args \<Rightarrow> uint32 \<Rightarrow> uint32 \<Rightarrow> s_arrays_info
    \<Rightarrow> (bool \<times> uint32 \<times> uint32 \<times> s_arrays_info) option" where
  "path_array get array offset ref_offset ai =
     (if MAX_ARRAYS \<le> unat (index ai) then Some (False, offset, ref_offset, ai)
      else do {
        sz \<leftarrow> chunk_u16 get offset;
        case sz of
          None \<Rightarrow> Some (False, offset, ref_offset, ai)
        | Some array_size \<Rightarrow>
            (let start_signed = (if a_has_start array then resolve_bound array_size (a_start array) else 0);
                 end_signed = (if a_has_end array then resolve_bound array_size (a_end array) else uint array_size)
             in if start_signed < 0 \<or> end_signed < 0 \<or> uint array_size < start_signed \<or> uint array_size < end_signed
                then Some (False, offset, ref_offset, ai)
                else
                  (let start = (word_of_int start_signed :: uint16); end = (word_of_int end_signed :: uint16)
                   in if end \<le> start then Some (False, offset, ref_offset, ai)
                      else
                        (let passes = end - start; offset = offset + 1
                         in if index ai = depth ai \<and> 255 < unat passes
                            then Some (False, offset, ref_offset, ai)
                            else do {
                              ai \<leftarrow> (if index ai = depth ai
                                     then do { p \<leftarrow> wr (passes_remaining ai) (unat (index ai)) (ucast passes);
                                               Some (ai\<lparr>passes_remaining := p, depth := depth ai + 1\<rparr>) }
                                     else Some ai);
                              rem \<leftarrow> rd (passes_remaining ai) (unat (index ai));
                              let idx = start + (passes - ucast rem);
                              let ref_offset = offset;
                              let product = unat idx * unat (weight array);
                              if 2 ^ 32 \<le> product \<or> 2 ^ 32 \<le> unat offset + product
                              then Some (False, offset + word_of_nat product, ref_offset, ai)
                              else Some (True, offset + word_of_nat product, ref_offset, ai\<lparr>index := index ai + 1\<rparr>)
                            }))) })"

text \<open>\<open>arrays_update\<close>: the recursion is on the depth.\<close>

function arrays_update :: "s_arrays_info \<Rightarrow> s_arrays_info option" where
  "arrays_update ai =
     (if 0 < depth ai then
        (case rd (passes_remaining ai) (unat (depth ai) - 1) of
           None \<Rightarrow> None
         | Some r \<Rightarrow>
             (let p = (passes_remaining ai)[unat (depth ai) - 1 := r - 1]
              in if 0 < r - 1 then Some (ai\<lparr>passes_remaining := p\<rparr>)
                 else arrays_update (ai\<lparr>passes_remaining := p, depth := depth ai - 1\<rparr>)))
      else Some ai)"
  by pat_completeness auto
termination
  by (relation "measure (\<lambda>ai. unat (depth ai))") (auto simp: unat_sub_le word_le_nat_alt word_less_nat_alt)

declare arrays_update.simps [simp del]

text \<open>One traversal of the path, the body of the outer loop.\<close>

record path_state =
  p_offset :: uint32
  p_ref_offset :: uint32
  p_arinf :: s_arrays_info
  p_collection :: s_parsed_value_collection
  p_mem :: mem

definition path_element ::
  "(uint32 \<Rightarrow> bytes option) \<Rightarrow> (nat \<Rightarrow> uint8) \<Rightarrow> s_path_element \<Rightarrow> path_state \<Rightarrow> (bool \<times> path_state) option" where
  "path_element get fresh e s =
     (case e of
        ELEMENT_TYPE_TUPLE v \<Rightarrow>
          (let (r, off, ref) = path_tuple v (p_offset s) (p_ref_offset s)
           in Some (r, s\<lparr>p_offset := off, p_ref_offset := ref\<rparr>))
      | ELEMENT_TYPE_ARRAY a \<Rightarrow> do {
          (r, off, ref, ai) \<leftarrow> path_array get a (p_offset s) (p_ref_offset s) (p_arinf s);
          Some (r, s\<lparr>p_offset := off, p_ref_offset := ref, p_arinf := ai\<rparr>) }
      | ELEMENT_TYPE_REF \<Rightarrow> do {
          (r, off, ref) \<leftarrow> path_ref get (p_offset s) (p_ref_offset s);
          Some (r, s\<lparr>p_offset := off, p_ref_offset := ref\<rparr>) }
      | ELEMENT_TYPE_LEAF l \<Rightarrow> do {
          (r, off, c, m) \<leftarrow> path_leaf get fresh l (p_offset s) (p_collection s) (p_mem s);
          Some (r, s\<lparr>p_offset := off, p_collection := c, p_mem := m\<rparr>) }
      | ELEMENT_TYPE_SLICE sl \<Rightarrow> do {
          (r, c) \<leftarrow> path_slice sl (p_collection s);
          Some (r, s\<lparr>p_collection := c\<rparr>) })"

fun path_elements ::
  "(uint32 \<Rightarrow> bytes option) \<Rightarrow> (nat \<Rightarrow> uint8) \<Rightarrow> s_path_element list \<Rightarrow> path_state \<Rightarrow> (bool \<times> path_state) option" where
  "path_elements get fresh [] s = Some (True, s)"
| "path_elements get fresh (e # es) s = do {
     (r, s) \<leftarrow> path_element get fresh e s;
     if r then path_elements get fresh es s else Some (False, s) }"

definition path_pass ::
  "(uint32 \<Rightarrow> bytes option) \<Rightarrow> (nat \<Rightarrow> uint8) \<Rightarrow> s_data_path \<Rightarrow> path_state \<Rightarrow> (bool \<times> path_state) option" where
  "path_pass get fresh p s =
     path_elements get fresh (dp_elements p)
       (s\<lparr>p_arinf := (p_arinf s)\<lparr>index := 0\<rparr>, p_offset := 0, p_ref_offset := 0\<rparr>)"

text \<open>The outer loop; \<open>None\<close> also stands for not returning.\<close>

partial_function (option) data_path_loop ::
  "(uint32 \<Rightarrow> bytes option) \<Rightarrow> (nat \<Rightarrow> uint8) \<Rightarrow> s_data_path \<Rightarrow> path_state \<Rightarrow> (bool \<times> path_state) option" where
  "data_path_loop get fresh p s =
     Option.bind (path_pass get fresh p s) (\<lambda>(r, s).
       if \<not> r then Some (False, s)
       else Option.bind (arrays_update (p_arinf s)) (\<lambda>ai.
              if 0 < depth ai then data_path_loop get fresh p (s\<lparr>p_arinf := ai\<rparr>)
              else Some (True, s\<lparr>p_arinf := ai\<rparr>)))"

definition data_path_get ::
  "(uint32 \<Rightarrow> bytes option) \<Rightarrow> (nat \<Rightarrow> uint8) \<Rightarrow> s_data_path \<Rightarrow> s_parsed_value_collection \<Rightarrow> mem
    \<Rightarrow> (bool \<times> s_parsed_value_collection \<times> mem) option" where
  "data_path_get get fresh p collection m = do {
     (r, s) \<leftarrow> data_path_loop get fresh p
       \<lparr>p_offset = 0, p_ref_offset = 0,
        p_arinf = \<lparr>depth = 0, passes_remaining = replicate MAX_ARRAYS 0, index = 0\<rparr>,
        p_collection = collection, p_mem = m\<rparr>;
     Some (r, p_collection s, p_mem s) }"

text \<open>\<open>data_path_cleanup\<close> frees \<open>ptr - offset\<close>, which must be the start of a block.\<close>

fun data_path_cleanup :: "s_parsed_value_collection \<Rightarrow> mem \<Rightarrow> mem option" where
  "data_path_cleanup [] m = Some m"
| "data_path_cleanup (v # vs) m =
     (if pv_block v = None then data_path_cleanup vs m
      else if pv_pos v = unat (pv_offset v) then data_path_cleanup vs (mem_free m)
      else None)"

section \<open>Slices\<close>

definition pv_ok :: "s_parsed_value \<Rightarrow> bool" where
  "pv_ok v \<longleftrightarrow>
     (case pv_block v of
        None \<Rightarrow> pv_length v = 0
      | Some b \<Rightarrow> length b = unat (pv_size v) \<and> pv_pos v = unat (pv_offset v)
                  \<and> pv_pos v + unat (pv_length v) \<le> length b)"

text \<open>The bytes that a value denotes.\<close>

definition pv_bytes :: "s_parsed_value \<Rightarrow> bytes" where
  "pv_bytes v = (case pv_block v of None \<Rightarrow> [] | Some b \<Rightarrow> take (unat (pv_length v)) (drop (pv_pos v) b))"

lemma length_pv_bytes: "pv_ok v \<Longrightarrow> length (pv_bytes v) = unat (pv_length v)"
  by (auto simp: pv_ok_def pv_bytes_def split: option.splits)

lemma sint16_range: "- 32768 \<le> sint (b :: uint16)" "sint (b :: uint16) < 32768"
  using sint_ge [of b] sint_lt [of b] by simp_all

lemma uint16_range: "0 \<le> uint (n :: uint16)" "uint (n :: uint16) < 65536"
  using uint_bounded [of n] by simp_all

lemma resolve_bound_range:
  "- 32768 \<le> resolve_bound n b" "resolve_bound n b < 65536"
  "resolve_bound n b < 0 \<Longrightarrow> uint n < 32768"
  using sint16_range [of b] uint16_range [of n] unfolding resolve_bound_def
  by (cases "sint b < 0"; simp only: if_True if_False; linarith)+

lemma uint_word16_of_int:
  "0 \<le> s \<Longrightarrow> s < 65536 \<Longrightarrow> uint (word_of_int s :: uint16) = s"
  "- 65536 \<le> s \<Longrightarrow> s < 0 \<Longrightarrow> uint (word_of_int s :: uint16) = s + 65536"
proof -
  show "0 \<le> s \<Longrightarrow> s < 65536 \<Longrightarrow> uint (word_of_int s :: uint16) = s"
    by (simp add: uint_word_of_int)
  assume "- 65536 \<le> s" "s < 0"
  then have "(s + 65536) mod 65536 = s + 65536" by (intro mod_pos_pos_trivial) simp_all
  then have "s mod 65536 = s + 65536" by (simp only: mod_add_self2)
  then show "uint (word_of_int s :: uint16) = s + 65536" by (simp add: uint_word_of_int)
qed

text \<open>The bounds of a slice as integers: negative ones count from the end.\<close>

definition slice_start :: "s_slice_args \<Rightarrow> uint16 \<Rightarrow> int" where
  "slice_start sl n = (if s_has_start sl then resolve_bound n (s_start sl) else 0)"

definition slice_end :: "s_slice_args \<Rightarrow> uint16 \<Rightarrow> int" where
  "slice_end sl n = (if s_has_end sl then resolve_bound n (s_end sl) else uint n)"

lemma slice_bounds_range:
  "- 32768 \<le> slice_start sl n" "slice_start sl n < 65536" "slice_start sl n < 0 \<Longrightarrow> uint n < 32768"
  "- 32768 \<le> slice_end sl n" "slice_end sl n < 65536" "slice_end sl n < 0 \<Longrightarrow> uint n < 32768"
  using resolve_bound_range [of n "s_start sl"] resolve_bound_range [of n "s_end sl"] uint16_range [of n]
  unfolding slice_start_def slice_end_def
  by (cases "s_has_start sl"; cases "s_has_end sl"; simp only: if_True if_False; linarith)+

text \<open>Although the bounds are truncated to 16 bits before they are compared, the
  comparison decides about the untruncated bounds.\<close>

lemma slice_wrap_test:
  fixes n :: uint16 and sl :: s_slice_args
  defines "st \<equiv> (if s_has_start sl then word_of_int (resolve_bound n (s_start sl)) else 0) :: uint16"
    and "en \<equiv> (if s_has_end sl then word_of_int (resolve_bound n (s_end sl)) else n)"
  shows "(en \<le> st \<or> n < en) \<longleftrightarrow>
         \<not> (0 \<le> slice_start sl n \<and> slice_start sl n < slice_end sl n \<and> slice_end sl n \<le> uint n)"
    and "0 \<le> slice_start sl n \<Longrightarrow> uint st = slice_start sl n"
    and "0 \<le> slice_end sl n \<Longrightarrow> uint en = slice_end sl n"
proof -
  note r = slice_bounds_range [where sl = sl and n = n]
  have st: "uint st = (if slice_start sl n < 0 then slice_start sl n + 65536 else slice_start sl n)"
    using r uint_word16_of_int [of "slice_start sl n"] by (auto simp: st_def slice_start_def)
  have en: "uint en = (if slice_end sl n < 0 then slice_end sl n + 65536 else slice_end sl n)"
    using r uint_word16_of_int [of "slice_end sl n"] uint16_range [of n] by (auto simp: en_def slice_end_def)
  show "0 \<le> slice_start sl n \<Longrightarrow> uint st = slice_start sl n" using st by simp
  show "0 \<le> slice_end sl n \<Longrightarrow> uint en = slice_end sl n" using en by simp
  show "(en \<le> st \<or> n < en) \<longleftrightarrow>
         \<not> (0 \<le> slice_start sl n \<and> slice_start sl n < slice_end sl n \<and> slice_end sl n \<le> uint n)"
    unfolding word_le_def word_less_def st en using r by (auto split: if_splits)
qed

definition slice_valid :: "s_slice_args \<Rightarrow> uint16 \<Rightarrow> bool" where
  "slice_valid sl n \<longleftrightarrow> 0 \<le> slice_start sl n \<and> slice_start sl n < slice_end sl n \<and> slice_end sl n \<le> uint n"

lemma path_slice_correct:
  assumes ok: "pv_ok v"
  obtains (slice) v' where "slice_valid sl (pv_length v)"
      "path_slice sl (vs @ [v]) = Some (True, vs @ [v'])" "pv_ok v'" "pv_block v' \<noteq> None" "pv_block v \<noteq> None"
      "pv_bytes v' = take (nat (slice_end sl (pv_length v) - slice_start sl (pv_length v)))
                          (drop (nat (slice_start sl (pv_length v))) (pv_bytes v))"
  | (invalid) "\<not> slice_valid sl (pv_length v)" "path_slice sl (vs @ [v]) = Some (False, vs @ [v])"
proof -
  let ?n = "pv_length v" and ?s = "slice_start sl (pv_length v)" and ?e = "slice_end sl (pv_length v)"
  define st :: uint16 where "st = (if s_has_start sl then word_of_int (resolve_bound ?n (s_start sl)) else 0)"
  define en :: uint16 where "en = (if s_has_end sl then word_of_int (resolve_bound ?n (s_end sl)) else ?n)"
  have test: "(en \<le> st \<or> ?n < en) \<longleftrightarrow> \<not> slice_valid sl ?n"
    unfolding st_def en_def slice_valid_def by (rule slice_wrap_test)
  have ps: "path_slice sl (vs @ [v]) =
      (if \<not> slice_valid sl ?n then Some (False, vs @ [v])
       else if pv_block v = None then None
       else Some (True, vs @ [v\<lparr>pv_pos := pv_pos v + unat st, pv_length := en - st, pv_offset := pv_offset v + st\<rparr>]))"
    unfolding path_slice_def Let_def last_snoc butlast_snoc st_def [symmetric] en_def [symmetric] test by simp
  show ?thesis
  proof (cases "slice_valid sl ?n")
    case False
    then show ?thesis using ps that(2) by simp
  next
    case True
    then have u: "uint st = ?s" "uint en = ?e" "0 \<le> ?s" "?s < ?e" "?e \<le> uint ?n"
      using slice_wrap_test(2,3) [of sl ?n] by (auto simp: st_def en_def slice_valid_def)
    obtain b where b: "pv_block v = Some b"
      using ok u by (cases "pv_block v") (auto simp: pv_ok_def)
    have v: "length b = unat (pv_size v)" "pv_pos v = unat (pv_offset v)" "pv_pos v + unat ?n \<le> length b"
      using ok b by (auto simp: pv_ok_def)
    have un: "unat st = nat ?s" "unat en = nat ?e" using u by (simp_all flip: nat_uint_eq)
    then have le: "unat st < unat en" "unat en \<le> unat ?n"
      using u by (simp_all flip: nat_uint_eq)
    have d: "unat (en - st) = unat en - unat st"
      using le by (simp add: unat_sub_le word_le_nat_alt)
    have "unat (pv_offset v) + unat st < 2 ^ 16"
      using v le unsigned_less [where ?'a = nat, of "pv_size v"] by simp
    then have o: "unat (pv_offset v + st) = unat (pv_offset v) + unat st" by (simp add: unat_word_ariths)
    let ?v = "v\<lparr>pv_pos := pv_pos v + unat st, pv_length := en - st, pv_offset := pv_offset v + st\<rparr>"
    have "pv_ok ?v" using v b o d le by (simp add: pv_ok_def)
    moreover have "pv_bytes ?v = take (nat (?e - ?s)) (drop (nat ?s) (pv_bytes v))"
    proof -
      have "nat (?e - ?s) = unat en - unat st" using un u by (simp add: nat_diff_distrib)
      moreover have "unat en - unat st \<le> unat ?n - unat st" using le by simp
      ultimately show ?thesis using b d
        by (simp add: pv_bytes_def drop_take add.commute min.absorb1 flip: un(1))
    qed
    moreover have "path_slice sl (vs @ [v]) = Some (True, vs @ [?v])" using ps True b by simp
    ultimately show ?thesis using that(1) [of ?v] True b by simp
  qed
qed

section \<open>Reading chunks\<close>

text \<open>What the evaluation of paths relies on: in a well-formed store every chunk that is
  delivered has 32 bytes.\<close>

locale chunk_source =
  fixes store_ok :: "'c \<Rightarrow> bool"
    and get :: "'c \<Rightarrow> uint32 \<Rightarrow> bytes option"
  assumes get_length: "store_ok c \<Longrightarrow> get c i = Some b \<Longrightarrow> length b = 32"

text \<open>\<open>k\<close> consecutive chunks.\<close>

fun gather :: "(uint32 \<Rightarrow> bytes option) \<Rightarrow> uint32 \<Rightarrow> nat \<Rightarrow> bytes option" where
  "gather get off 0 = Some []"
| "gather get off (Suc k) = do { b \<leftarrow> get off; bs \<leftarrow> gather get (off + 1) k; Some (b @ bs) }"

definition coll_ok :: "s_parsed_value_collection \<Rightarrow> bool" where
  "coll_ok c \<longleftrightarrow> length c \<le> MAX_VALUE_COLLECTION_SIZE \<and> list_all pv_ok c"

definition coll_blocks :: "s_parsed_value_collection \<Rightarrow> nat" where
  "coll_blocks c = length (filter (\<lambda>v. pv_block v \<noteq> None) c)"

lemma coll_blocks_append [simp]: "coll_blocks (xs @ ys) = coll_blocks xs + coll_blocks ys"
  by (simp add: coll_blocks_def)

text \<open>The number of chunks that hold \<open>n\<close> bytes.\<close>

definition chunk_count :: "nat \<Rightarrow> nat" where
  "chunk_count n = (n + 31) div 32"

lemma chunk_count_0 [simp]: "chunk_count 0 = 0"
  by (simp add: chunk_count_def)

lemma chunk_count_step: "0 < n \<Longrightarrow> chunk_count n = Suc (chunk_count (n - 32))"
proof (cases "n \<le> 32")
  case True
  assume "0 < n"
  then have "n + 31 = 32 + (n - 1)" "n - 1 < 32" using True by auto
  then show ?thesis using True by (simp add: chunk_count_def)
next
  case False
  then have "n + 31 = 32 + (n - 32 + 31)" by simp
  then show ?thesis by (simp add: chunk_count_def)
qed

lemma chunk_count_le: "n \<le> 32 * chunk_count n"
  by (simp add: chunk_count_def)

context chunk_source
begin

lemma chunk_u16_total:
  assumes "store_ok c"
  obtains r where "chunk_u16 (get c) off = Some r"
    "\<And>w. r = Some w \<Longrightarrow> \<exists>b. get c off = Some b \<and> be_val b = unat w"
proof (cases "get c off")
  case None
  then show ?thesis using that by (simp add: chunk_u16_def)
next
  case (Some b)
  then have len: "length b = 32" using get_length [OF assms] by blast
  show ?thesis
  proof (cases "is_zeroes_buffer (take 30 b)")
    case False
    then show ?thesis using that Some len by (simp add: chunk_u16_def rd_n_def)
  next
    case True
    have "be_val b = be_val (take 30 b @ drop 30 b)" by simp
    also have "\<dots> = be_val (drop 30 b)" using True by (simp only: be_val_append flip: be_val_eq_0_iff)
    finally have v: "be_val b = be_val (drop 30 b)" .
    have "unat (word_of_nat (be_val (drop 30 b)) :: uint16) = be_val b"
      unfolding v using len by (intro unat_word16_of_be_val) simp
    moreover have "chunk_u16 (get c) off = Some (Some (word_of_nat (be_val (drop 30 b))))"
      using True Some len by (simp add: chunk_u16_def rd_n_def read_u16_be_Some)
    ultimately show ?thesis using that Some by auto
  qed
qed

lemma path_ref_total:
  assumes "store_ok c"
  shows "\<exists>r off'. path_ref (get c) off ref = Some (r, off', ref)"
proof (rule chunk_u16_total [OF assms, of off])
  fix r assume "chunk_u16 (get c) off = Some r"
  then show ?thesis by (cases r) (auto simp: path_ref_def Let_def)
qed

lemma gather_length:
  assumes "store_ok c" "gather (get c) off k = Some bs"
  shows "length bs = 32 * k"
  using assms(2)
proof (induction k arbitrary: off bs)
  case 0
  then show ?case by simp
next
  case (Suc k)
  then show ?case using get_length [OF assms(1)] by (auto split: bind_splits)
qed

text \<open>The copied block holds the consecutive chunks, cut to the length of the value.\<close>

lemma leaf_copy_correct:
  assumes "store_ok c" "length buf = len"
  shows "leaf_copy (get c) off len i buf =
    Some (map_option (\<lambda>bs. take (i * 32) buf @ take (len - i * 32) bs)
           (gather (get c) (off + word_of_nat i) (chunk_count (len - i * 32))))"
  using assms
proof (induction "len - i * 32" arbitrary: i buf rule: less_induct)
  case less
  show ?case
  proof (cases "i * 32 < len")
    case False
    then show ?thesis using less.prems by (subst leaf_copy.simps) simp
  next
    case True
    let ?n = "len - i * 32"
    have count: "chunk_count ?n = Suc (chunk_count (len - Suc i * 32))"
      using True chunk_count_step [of ?n] by (simp add: add.commute)
    show ?thesis
    proof (cases "get c (off + word_of_nat i)")
      case None
      then show ?thesis using True count by (subst leaf_copy.simps) simp
    next
      case (Some b)
      have lb: "length b = 32" using get_length [OF less.prems(1) Some] .
      let ?buf = "take (i * 32) buf @ take (min 32 ?n) b @ drop (i * 32 + min 32 ?n) buf"
      have wr: "(do { xs \<leftarrow> rd_n b 0 (min 32 ?n); wr_n buf (i * 32) xs }) = Some ?buf"
        using True lb less.prems(2) by (auto simp: rd_n_def wr_n_def min_def)
      have lbuf: "length ?buf = len" using True lb less.prems(2) by (auto simp: min_def)
      have IH: "leaf_copy (get c) off len (Suc i) ?buf =
        Some (map_option (\<lambda>bs. take (Suc i * 32) ?buf @ take (len - Suc i * 32) bs)
           (gather (get c) (off + word_of_nat (Suc i)) (chunk_count (len - Suc i * 32))))"
        by (rule less.hyps [OF _ less.prems(1) lbuf]) (use True in simp)
      have tk: "take (Suc i * 32) ?buf = take (i * 32) buf @ take ?n b"
        using True lb less.prems(2) by (auto simp: min_def)
      have eq: "take (Suc i * 32) ?buf @ take (len - Suc i * 32) bs = take (i * 32) buf @ take ?n (b @ bs)" for bs
        unfolding tk using lb by (simp add: add.commute)
      have "leaf_copy (get c) off len i buf = leaf_copy (get c) off len (Suc i) ?buf"
        using True Some wr by (subst leaf_copy.simps) simp
      also have "\<dots> = Some (map_option (\<lambda>bs. take (i * 32) buf @ take ?n (b @ bs))
           (gather (get c) (off + word_of_nat i + 1) (chunk_count (len - Suc i * 32))))"
        unfolding IH eq by (simp add: algebra_simps)
      finally show ?thesis using Some count
        by (cases "gather (get c) (off + word_of_nat i + 1) (chunk_count (len - Suc i * 32))") simp_all
    qed
  qed
qed

text \<open>A leaf appends one value, made of the chunks at its offset, or fails without a trace.\<close>

definition leaf_result :: "'c \<Rightarrow> uint32 \<Rightarrow> uint16 \<Rightarrow> s_parsed_value \<Rightarrow> bool" where
  "leaf_result c off sz v \<longleftrightarrow> pv_ok v \<and> pv_length v = sz \<and>
     (\<exists>bs. gather (get c) off (chunk_count (unat sz)) = Some bs \<and> pv_bytes v = take (unat sz) bs)"

lemma leaf_store_total:
  assumes "store_ok c"
  obtains (ok) v m' where "leaf_store (get c) fresh sz off coll m = Some (True, off, coll @ [v], m')"
      "leaf_result c off sz v" "live m' = live m + coll_blocks [v]"
  | (fail) m' where "leaf_store (get c) fresh sz off coll m = Some (False, off, coll, m')" "live m' = live m"
proof (cases "unat sz = 0")
  case True
  then have "sz = 0" by (simp add: unat_eq_0)
  then show ?thesis using that(1)
    by (simp add: leaf_store_def leaf_result_def pv_ok_def pv_bytes_def coll_blocks_def)
next
  case False
  show ?thesis
  proof (cases m rule: mem_alloc_cases)
    case (fail m')
    then show ?thesis using that(2) False by (simp add: leaf_store_def Let_def)
  next
    case (ok m')
    have cp: "leaf_copy (get c) off (unat sz) 0 (map fresh [0..<unat sz]) =
        Some (map_option (take (unat sz)) (gather (get c) off (chunk_count (unat sz))))"
      using leaf_copy_correct [OF assms, of "map fresh [0..<unat sz]" "unat sz" off 0] by simp
    show ?thesis
    proof (cases "gather (get c) off (chunk_count (unat sz))")
      case None
      then show ?thesis using that(2) False ok cp by (simp add: leaf_store_def Let_def)
    next
      case (Some bs)
      let ?v = "\<lparr>pv_block = Some (take (unat sz) bs), pv_pos = 0, pv_size = sz, pv_offset = 0, pv_length = sz\<rparr>"
      have "unat sz \<le> length bs"
        using gather_length [OF assms Some] chunk_count_le [of "unat sz"] by simp
      then have "leaf_result c off sz ?v" using Some by (simp add: leaf_result_def pv_ok_def pv_bytes_def)
      then show ?thesis using that(1) [of ?v m'] False ok cp Some
        by (simp add: leaf_store_def Let_def coll_blocks_def)
    qed
  qed
qed

lemma path_leaf_total:
  assumes c: "store_ok c" and coll: "coll_ok coll"
  obtains (ok) v off' m' where "path_leaf (get c) fresh l off coll m = Some (True, off', coll @ [v], m')"
      "coll_ok (coll @ [v])" "live m' = live m + coll_blocks [v]"
      "l = LEAF_TYPE_STATIC \<and> off' = off \<and> leaf_result c off 32 v \<or>
       l = LEAF_TYPE_DYNAMIC \<and> off' = off + 1 \<and>
         (\<exists>w b. get c off = Some b \<and> be_val b = unat w \<and> leaf_result c (off + 1) w v)"
  | (fail) off' m' where "path_leaf (get c) fresh l off coll m = Some (False, off', coll, m')" "live m' = live m"
proof (cases "16 \<le> length coll")
  case True
  then show ?thesis using that(2) by (simp add: path_leaf_def)
next
  case False
  have okv: "coll_ok (coll @ [v])" if "leaf_result c o' w v" for o' w v
    using that coll False by (simp add: coll_ok_def leaf_result_def)
  show ?thesis
  proof (cases l)
    case LEAF_TYPE_STATIC
    show ?thesis
    proof (rule leaf_store_total [OF c, of fresh 32 off coll m])
      fix v m' assume "leaf_store (get c) fresh 32 off coll m = Some (True, off, coll @ [v], m')"
        "leaf_result c off 32 v" "live m' = live m + coll_blocks [v]"
      then show thesis using that(1) LEAF_TYPE_STATIC False okv by (simp add: path_leaf_def)
    next
      fix m' assume "leaf_store (get c) fresh 32 off coll m = Some (False, off, coll, m')" "live m' = live m"
      then show thesis using that(2) LEAF_TYPE_STATIC False by (simp add: path_leaf_def)
    qed
  next
    case LEAF_TYPE_DYNAMIC
    obtain r where r: "chunk_u16 (get c) off = Some r"
      "\<And>w. r = Some w \<Longrightarrow> \<exists>b. get c off = Some b \<and> be_val b = unat w"
      using chunk_u16_total [OF c, of off] by blast
    show ?thesis
    proof (cases r)
      case None
      then show ?thesis using that(2) LEAF_TYPE_DYNAMIC False r by (simp add: path_leaf_def)
    next
      case (Some w)
      show ?thesis
      proof (rule leaf_store_total [OF c, of fresh w "off + 1" coll m])
        fix v m' assume "leaf_store (get c) fresh w (off + 1) coll m = Some (True, off + 1, coll @ [v], m')"
          "leaf_result c (off + 1) w v" "live m' = live m + coll_blocks [v]"
        then show thesis using that(1) LEAF_TYPE_DYNAMIC False okv r Some by (simp add: path_leaf_def) blast
      next
        fix m' assume "leaf_store (get c) fresh w (off + 1) coll m = Some (False, off + 1, coll, m')" "live m' = live m"
        then show thesis using that(2) LEAF_TYPE_DYNAMIC False r Some by (simp add: path_leaf_def)
      qed
    qed
  qed (use that(2) False in \<open>simp_all add: path_leaf_def\<close>)
qed

end

section \<open>The array odometer\<close>

definition ai_ok :: "s_arrays_info \<Rightarrow> bool" where
  "ai_ok ai \<longleftrightarrow> length (passes_remaining ai) = MAX_ARRAYS \<and> unat (depth ai) \<le> MAX_ARRAYS
     \<and> (\<forall>i < unat (depth ai). passes_remaining ai ! i \<noteq> 0)"

text \<open>The passes still to come, as a number to the base 256: the digit of an array that has
  not been entered is 255.\<close>

definition odo_digit :: "s_arrays_info \<Rightarrow> nat \<Rightarrow> nat" where
  "odo_digit ai i = (if i < unat (depth ai) then unat (passes_remaining ai ! i) - 1 else 255)"

definition odometer :: "s_arrays_info \<Rightarrow> nat" where
  "odometer ai = (\<Sum>i<MAX_ARRAYS. odo_digit ai i * 256 ^ (7 - i))"

lemma odometer_change:
  assumes "k < 8" "\<And>i. i < 8 \<Longrightarrow> i \<noteq> k \<Longrightarrow> odo_digit b i = odo_digit a i"
  shows "odometer b + odo_digit a k * 256 ^ (7 - k) = odometer a + odo_digit b k * 256 ^ (7 - k)"
proof -
  have r: "odometer x = odo_digit x k * 256 ^ (7 - k) + (\<Sum>i\<in>{..<8} - {k}. odo_digit x i * 256 ^ (7 - i))" for x
    unfolding odometer_def using assms(1) by (intro sum.remove) auto
  have "(\<Sum>i\<in>{..<8} - {k}. odo_digit b i * 256 ^ (7 - i)) = (\<Sum>i\<in>{..<8} - {k}. odo_digit a i * 256 ^ (7 - i))"
    using assms(2) by (intro sum.cong) auto
  then show ?thesis using r [of a] r [of b] by simp
qed

lemma odometer_cong:
  "depth b = depth a \<Longrightarrow> passes_remaining b = passes_remaining a \<Longrightarrow> odometer b = odometer a"
proof -
  assume "depth b = depth a" "passes_remaining b = passes_remaining a"
  then have "odo_digit b i = odo_digit a i" for i by (simp add: odo_digit_def)
  then show ?thesis by (simp add: odometer_def)
qed

text \<open>Every update that leaves arrays to visit counts the odometer down.\<close>

lemma arrays_update_correct:
  assumes "ai_ok ai"
  shows "\<exists>ai'. arrays_update ai = Some ai' \<and> ai_ok ai' \<and>
    (0 < depth ai' \<longrightarrow> odometer ai' + 256 ^ (8 - unat (depth ai)) \<le> odometer ai)"
  using assms
proof (induction "unat (depth ai)" arbitrary: ai)
  case 0
  then have "\<not> 0 < depth ai" by (simp add: word_less_nat_alt)
  then show ?case using 0 by (subst arrays_update.simps) simp
next
  case (Suc d)
  let ?ps = "passes_remaining ai" and ?r = "passes_remaining ai ! d"
  have ok: "length ?ps = 8" "d < 8" "?r \<noteq> 0" using Suc by (auto simp: ai_ok_def)
  have pos: "0 < depth ai" using Suc.hyps(2) by (simp add: word_less_nat_alt)
  have rd: "rd ?ps (unat (depth ai) - 1) = Some ?r" using ok Suc.hyps(2) [symmetric] by (simp add: rd_def)
  have k: "unat (depth ai) - 1 = d" using Suc.hyps(2) [symmetric] by simp
  have r1: "unat (?r - 1) = unat ?r - 1" using ok(3) by (simp add: unat_sub_le word_le_nat_alt unat_gt_0 Suc_leI)
  show ?case
  proof (cases "0 < ?r - 1")
    case True
    let ?ai = "ai\<lparr>passes_remaining := ?ps[d := ?r - 1]\<rparr>"
    have up: "arrays_update ai = Some ?ai" using pos rd True k by (subst arrays_update.simps) simp
    have "?ps[d := ?r - 1] ! i \<noteq> 0" if "i < unat (depth ai)" for i
      using that Suc.prems ok True by (cases "i = d") (auto simp: ai_ok_def)
    then have ok': "ai_ok ?ai" using Suc.prems by (simp add: ai_ok_def)
    have "odometer ?ai + odo_digit ai d * 256 ^ (7 - d) = odometer ai + odo_digit ?ai d * 256 ^ (7 - d)"
      using ok by (intro odometer_change) (auto simp: odo_digit_def)
    moreover have "odo_digit ai d = Suc (odo_digit ?ai d)"
      using True r1 ok Suc.hyps(2) [symmetric] by (simp add: odo_digit_def word_less_nat_alt)
    ultimately have "odometer ?ai + 256 ^ (7 - d) = odometer ai" by (simp add: algebra_simps)
    then show ?thesis using up ok' Suc.hyps(2) [symmetric] ok(2) by simp
  next
    case False
    then have one: "unat ?r = 1" using r1 ok(3) by (simp add: word_less_nat_alt unat_gt_0 le_antisym Suc_leI)
    let ?ai = "ai\<lparr>passes_remaining := ?ps[d := ?r - 1], depth := depth ai - 1\<rparr>"
    have up: "arrays_update ai = arrays_update ?ai" using pos rd False k by (subst arrays_update.simps) simp
    have dep: "unat (depth ?ai) = d" using pos k by (simp add: unat_sub_le word_le_nat_alt word_less_nat_alt)
    have ok': "ai_ok ?ai" using Suc.prems ok dep Suc.hyps(2) by (auto simp: ai_ok_def nth_list_update)
    obtain ai' where IH: "arrays_update ?ai = Some ai'" "ai_ok ai'"
      "0 < depth ai' \<longrightarrow> odometer ai' + 256 ^ (8 - d) \<le> odometer ?ai"
      using Suc.hyps(1) [OF dep [symmetric] ok'] dep by auto
    have "odometer ?ai + odo_digit ai d * 256 ^ (7 - d) = odometer ai + odo_digit ?ai d * 256 ^ (7 - d)"
      using ok dep Suc.hyps(2) [symmetric] by (intro odometer_change) (auto simp: odo_digit_def)
    then have "odometer ?ai = odometer ai + 255 * 256 ^ (7 - d)"
      using one dep Suc.hyps(2) [symmetric] by (simp add: odo_digit_def)
    moreover have "(256::nat) ^ (8 - d) = 256 * 256 ^ (7 - d)"
      using ok(2) by (simp add: Suc_diff_le flip: power_Suc)
    ultimately show ?thesis using up IH Suc.hyps(2) [symmetric] by auto
  qed
qed

definition ai_inv :: "s_arrays_info \<Rightarrow> bool" where
  "ai_inv ai \<longleftrightarrow> ai_ok ai \<and> index ai \<le> depth ai"

text \<open>Entering an array at a new depth.\<close>

lemma ai_enter:
  assumes "ai_inv ai" "index ai = depth ai" "unat (index ai) < 8" "p \<noteq> 0"
  defines "ai' \<equiv> ai\<lparr>passes_remaining := (passes_remaining ai)[unat (index ai) := p], depth := depth ai + 1\<rparr>"
  shows "ai_inv ai'" "index ai' < depth ai'" "odometer ai' \<le> odometer ai"
proof -
  let ?k = "unat (depth ai)"
  have k: "?k < 8" "length (passes_remaining ai) = 8" using assms by (auto simp: ai_inv_def ai_ok_def)
  have d: "unat (depth ai + 1) = Suc ?k" using unat_plus_one [of "depth ai" 8] k by simp
  have nz: "passes_remaining ai' ! i \<noteq> 0" if "i < Suc ?k" for i
    using that assms(1,2,4) k by (cases "i = ?k") (auto simp: ai'_def ai_inv_def ai_ok_def)
  show lt: "index ai' < depth ai'" using assms(2) d by (simp add: ai'_def word_less_nat_alt)
  show "ai_inv ai'" using nz k d lt by (auto simp: ai_inv_def ai_ok_def ai'_def word_le_nat_alt word_less_nat_alt)
  have "odometer ai' + odo_digit ai ?k * 256 ^ (7 - ?k) = odometer ai + odo_digit ai' ?k * 256 ^ (7 - ?k)"
    using k d assms(2) by (intro odometer_change) (auto simp: odo_digit_def ai'_def)
  moreover have "odo_digit ai' ?k \<le> odo_digit ai ?k"
    using k d assms(2) unat_word8_lt [of p] by (simp add: odo_digit_def ai'_def del: unat_word8_lt)
  ultimately show "odometer ai' \<le> odometer ai"
    by (metis add_le_cancel_right add_le_mono le_refl mult_le_mono1)
qed

lemma ai_next_index:
  "ai_inv ai \<Longrightarrow> index ai < depth ai \<Longrightarrow>
   ai_inv (ai\<lparr>index := index ai + 1\<rparr>) \<and> odometer (ai\<lparr>index := index ai + 1\<rparr>) = odometer ai"
  using unat_plus_one [of "index ai" "depth ai"]
  by (auto simp: ai_inv_def ai_ok_def word_less_nat_alt word_le_nat_alt intro!: odometer_cong)

context chunk_source
begin

lemma path_array_total:
  assumes c: "store_ok c" and ai: "ai_inv ai"
  shows "\<exists>r off' ref' ai'. path_array (get c) a off ref ai = Some (r, off', ref', ai')
    \<and> ai_inv ai' \<and> odometer ai' \<le> odometer ai"
proof (cases "8 \<le> unat (index ai)")
  case True
  then show ?thesis using ai by (auto simp: path_array_def)
next
  case False
  obtain r where r: "chunk_u16 (get c) off = Some r" using chunk_u16_total [OF c, of off] by blast
  show ?thesis
  proof (cases r)
    case None
    then show ?thesis using False r ai by (auto simp: path_array_def)
  next
    case (Some n)
    let ?s = "if a_has_start a then resolve_bound n (a_start a) else 0"
    let ?e = "if a_has_end a then resolve_bound n (a_end a) else uint n"
    let ?st = "word_of_int ?s :: uint16" and ?en = "word_of_int ?e :: uint16"
    have unf: "path_array (get c) a off ref ai =
      (if ?s < 0 \<or> ?e < 0 \<or> uint n < ?s \<or> uint n < ?e \<or> ?en \<le> ?st then Some (False, off, ref, ai)
       else if index ai = depth ai \<and> 255 < unat (?en - ?st) then Some (False, off + 1, ref, ai)
       else do {
         ai \<leftarrow> (if index ai = depth ai
                then do { p \<leftarrow> wr (passes_remaining ai) (unat (index ai)) (ucast (?en - ?st));
                          Some (ai\<lparr>passes_remaining := p, depth := depth ai + 1\<rparr>) }
                else Some ai);
         rem \<leftarrow> rd (passes_remaining ai) (unat (index ai));
         let product = unat (?st + ((?en - ?st) - ucast rem)) * unat (weight a);
         if 2 ^ 32 \<le> product \<or> 2 ^ 32 \<le> unat (off + 1) + product
         then Some (False, off + 1 + word_of_nat product, off + 1, ai)
         else Some (True, off + 1 + word_of_nat product, off + 1, ai\<lparr>index := index ai + 1\<rparr>) })"
      using False r Some unfolding path_array_def Let_def by (simp del: of_int_of_nat)
    have rest: ?thesis
      if "ai_inv ai1" "index ai1 < depth ai1" "odometer ai1 \<le> odometer ai" "index ai1 = index ai"
        "path_array (get c) a off ref ai = (do {
         rem \<leftarrow> rd (passes_remaining ai1) (unat (index ai1));
         let product = unat (?st + ((?en - ?st) - ucast rem)) * unat (weight a);
         if 2 ^ 32 \<le> product \<or> 2 ^ 32 \<le> unat (off + 1) + product
         then Some (False, off + 1 + word_of_nat product, off + 1, ai1)
         else Some (True, off + 1 + word_of_nat product, off + 1, ai1\<lparr>index := index ai1 + 1\<rparr>) })" for ai1
    proof -
      have "rd (passes_remaining ai1) (unat (index ai1)) = Some (passes_remaining ai1 ! unat (index ai1))"
        using that(1,4) False by (simp add: rd_def ai_inv_def ai_ok_def)
      then show ?thesis using that(1,3,5) ai_next_index [OF that(1,2)] by (auto simp: Let_def)
    qed
    consider (bad) "?s < 0 \<or> ?e < 0 \<or> uint n < ?s \<or> uint n < ?e \<or> ?en \<le> ?st"
      | (many) "\<not> (?s < 0 \<or> ?e < 0 \<or> uint n < ?s \<or> uint n < ?e \<or> ?en \<le> ?st)"
          "index ai = depth ai" "255 < unat (?en - ?st)"
      | (enter) "\<not> (?s < 0 \<or> ?e < 0 \<or> uint n < ?s \<or> uint n < ?e \<or> ?en \<le> ?st)"
          "index ai = depth ai" "\<not> 255 < unat (?en - ?st)"
      | (again) "\<not> (?s < 0 \<or> ?e < 0 \<or> uint n < ?s \<or> uint n < ?e \<or> ?en \<le> ?st)" "index ai \<noteq> depth ai"
      by blast
    then show ?thesis
    proof cases
      case bad
      then show ?thesis using unf ai by (simp only: if_True) auto
    next
      case many
      then show ?thesis using unf ai by (simp only: if_True if_False simp_thms) auto
    next
      case enter
      let ?p = "ucast (?en - ?st) :: uint8"
      let ?ai = "ai\<lparr>passes_remaining := (passes_remaining ai)[unat (index ai) := ?p], depth := depth ai + 1\<rparr>"
      have "unat (?en - ?st) \<noteq> 0" using enter(1) by (auto simp: unat_eq_0)
      moreover have "unat ?p = unat (?en - ?st)"
        using enter(3) by (simp add: unsigned_ucast_eq take_bit_nat_eq_self_iff)
      ultimately have "?p \<noteq> 0" by auto
      then have ent: "ai_inv ?ai" "index ?ai < depth ?ai" "odometer ?ai \<le> odometer ai"
        using ai_enter [of ai ?p] ai enter(2) False by auto
      have "wr (passes_remaining ai) (unat (index ai)) ?p = Some ((passes_remaining ai)[unat (index ai) := ?p])"
        using ai False by (simp add: wr_def ai_inv_def ai_ok_def)
      then show ?thesis
        using enter(2,3) by (intro rest [OF ent]) (simp_all only: unf if_not_P [OF enter(1)], simp_all)
    next
      case again
      then have lt: "index ai < depth ai" using ai by (auto simp: ai_inv_def)
      show ?thesis
        using again(2) by (intro rest [OF ai lt]) (simp_all only: unf if_not_P [OF again(1)], simp_all)
    qed
  qed
qed

text \<open>One element of a path, then a whole pass.\<close>

definition path_inv :: "path_state \<Rightarrow> bool" where
  "path_inv s \<longleftrightarrow> ai_inv (p_arinf s) \<and> coll_ok (p_collection s)"

definition path_balanced :: "path_state \<Rightarrow> path_state \<Rightarrow> bool" where
  "path_balanced s s' \<longleftrightarrow> live (p_mem s') + coll_blocks (p_collection s) = live (p_mem s) + coll_blocks (p_collection s')"

lemma path_slice_total:
  assumes "coll_ok coll"
  shows "\<exists>r coll'. path_slice sl coll = Some (r, coll') \<and> coll_ok coll' \<and> coll_blocks coll' = coll_blocks coll"
proof (cases coll rule: rev_cases)
  case Nil
  then show ?thesis using assms by (auto simp: path_slice_def)
next
  case (snoc vs v)
  then have v: "pv_ok v" "coll_ok (vs @ [v])" using assms by (auto simp: coll_ok_def)
  from v(1) show ?thesis
  proof (cases rule: path_slice_correct [where sl = sl and vs = vs])
    case (slice v')
    moreover have "coll_ok (vs @ [v'])" using v(2) slice(3) by (simp add: coll_ok_def)
    moreover have "coll_blocks [v'] = coll_blocks [v]" using slice by (simp add: coll_blocks_def)
    ultimately show ?thesis using snoc by simp
  next
    case invalid
    then show ?thesis using snoc v(2) by simp
  qed
qed

lemma path_element_total:
  assumes c: "store_ok c" and s: "path_inv s"
  shows "\<exists>r s'. path_element (get c) fresh e s = Some (r, s') \<and> path_inv s' \<and> path_balanced s s'
    \<and> odometer (p_arinf s') \<le> odometer (p_arinf s)"
proof (cases e)
  case (ELEMENT_TYPE_TUPLE v)
  then show ?thesis using s
    by (simp add: path_element_def path_tuple_def path_inv_def path_balanced_def)
next
  case (ELEMENT_TYPE_ARRAY a)
  have "ai_inv (p_arinf s)" using s by (simp add: path_inv_def)
  from path_array_total [OF c this, of a "p_offset s" "p_ref_offset s"] show ?thesis
    using s ELEMENT_TYPE_ARRAY by (auto simp: path_element_def path_inv_def path_balanced_def)
next
  case ELEMENT_TYPE_REF
  then show ?thesis using s path_ref_total [OF c, of "p_offset s" "p_ref_offset s"]
    by (auto simp: path_element_def path_inv_def path_balanced_def)
next
  case (ELEMENT_TYPE_LEAF l)
  have coll: "coll_ok (p_collection s)" using s by (simp add: path_inv_def)
  show ?thesis
  proof (rule path_leaf_total [OF c coll, of fresh l "p_offset s" "p_mem s"])
    fix v off' m' assume "path_leaf (get c) fresh l (p_offset s) (p_collection s) (p_mem s) = Some (True, off', p_collection s @ [v], m')"
      "coll_ok (p_collection s @ [v])" "live m' = live (p_mem s) + coll_blocks [v]"
    then show ?thesis using s ELEMENT_TYPE_LEAF
      by (simp add: path_element_def path_inv_def path_balanced_def)
  next
    fix off' m' assume "path_leaf (get c) fresh l (p_offset s) (p_collection s) (p_mem s) = Some (False, off', p_collection s, m')"
      "live m' = live (p_mem s)"
    then show ?thesis using s ELEMENT_TYPE_LEAF
      by (simp add: path_element_def path_inv_def path_balanced_def)
  qed
next
  case (ELEMENT_TYPE_SLICE sl)
  have coll: "coll_ok (p_collection s)" using s by (simp add: path_inv_def)
  from path_slice_total [OF coll, of sl] show ?thesis
    using s ELEMENT_TYPE_SLICE by (auto simp: path_element_def path_inv_def path_balanced_def)
qed

lemma path_elements_total:
  assumes c: "store_ok c" and s: "path_inv s"
  shows "\<exists>r s'. path_elements (get c) fresh es s = Some (r, s') \<and> path_inv s' \<and> path_balanced s s'
    \<and> odometer (p_arinf s') \<le> odometer (p_arinf s)"
  using s
proof (induction es arbitrary: s)
  case Nil
  then show ?case by (simp add: path_balanced_def)
next
  case (Cons e es)
  obtain r s1 where 1: "path_element (get c) fresh e s = Some (r, s1)" "path_inv s1" "path_balanced s s1"
    "odometer (p_arinf s1) \<le> odometer (p_arinf s)"
    using path_element_total [OF c Cons.prems, of fresh e] by blast
  obtain r2 s2 where 2: "path_elements (get c) fresh es s1 = Some (r2, s2)" "path_inv s2" "path_balanced s1 s2"
    "odometer (p_arinf s2) \<le> odometer (p_arinf s1)"
    using Cons.IH [OF 1(2)] by blast
  have "path_balanced s s2" using 1(3) 2(3) by (simp add: path_balanced_def)
  then show ?case using 1 2 by (cases r) auto
qed

text \<open>Between two passes the index is stale; a pass starts by resetting it.\<close>

definition loop_inv :: "path_state \<Rightarrow> bool" where
  "loop_inv s \<longleftrightarrow> ai_ok (p_arinf s) \<and> coll_ok (p_collection s)"

lemma path_pass_total:
  assumes c: "store_ok c" and s: "loop_inv s"
  shows "\<exists>r s'. path_pass (get c) fresh p s = Some (r, s') \<and> loop_inv s' \<and> path_balanced s s'
    \<and> odometer (p_arinf s') \<le> odometer (p_arinf s)"
proof -
  let ?s = "s\<lparr>p_arinf := (p_arinf s)\<lparr>index := 0\<rparr>, p_offset := 0, p_ref_offset := 0\<rparr>"
  have "path_inv ?s" using s by (simp add: path_inv_def loop_inv_def ai_inv_def ai_ok_def)
  from path_elements_total [OF c this, of fresh "dp_elements p"]
  obtain r s' where 1: "path_elements (get c) fresh (dp_elements p) ?s = Some (r, s')" "path_inv s'"
    "path_balanced ?s s'" "odometer (p_arinf s') \<le> odometer (p_arinf ?s)" by blast
  have "odometer (p_arinf ?s) = odometer (p_arinf s)" by (rule odometer_cong) simp_all
  then show ?thesis using 1
    by (auto simp: path_pass_def path_inv_def loop_inv_def ai_inv_def path_balanced_def)
qed

text \<open>The outer loop returns: the odometer decreases with every pass.\<close>

lemma data_path_loop_total:
  assumes c: "store_ok c" and s: "loop_inv s"
  shows "\<exists>r s'. data_path_loop (get c) fresh p s = Some (r, s') \<and> loop_inv s' \<and> path_balanced s s'"
  using s
proof (induction "odometer (p_arinf s)" arbitrary: s rule: less_induct)
  case less
  obtain r s1 where 1: "path_pass (get c) fresh p s = Some (r, s1)" "loop_inv s1" "path_balanced s s1"
    "odometer (p_arinf s1) \<le> odometer (p_arinf s)"
    using path_pass_total [OF c less.prems, of fresh p] by blast
  show ?case
  proof (cases r)
    case False
    then show ?thesis using 1 by (subst data_path_loop.simps) simp
  next
    case True
    have "ai_ok (p_arinf s1)" using 1 by (simp add: loop_inv_def)
    then obtain ai where 2: "arrays_update (p_arinf s1) = Some ai" "ai_ok ai"
      "0 < depth ai \<longrightarrow> odometer ai + 256 ^ (8 - unat (depth (p_arinf s1))) \<le> odometer (p_arinf s1)"
      using arrays_update_correct by blast
    let ?s2 = "s1\<lparr>p_arinf := ai\<rparr>"
    have inv2: "loop_inv ?s2" using 1 2 by (simp add: loop_inv_def)
    have bal: "path_balanced s ?s2" using 1(3) by (simp add: path_balanced_def)
    show ?thesis
    proof (cases "0 < depth ai")
      case False
      then show ?thesis using True 1 2 inv2 bal by (subst data_path_loop.simps) simp
    next
      case pos: True
      have pw: "(0::nat) < 256 ^ (8 - unat (depth (p_arinf s1)))" by simp
      have "odometer ai < odometer (p_arinf s)"
        using 2(3) [rule_format, OF pos] 1(4) pw by linarith
      then have "odometer (p_arinf ?s2) < odometer (p_arinf s)" by simp
      from less.hyps [OF this inv2] obtain r' s' where
        3: "data_path_loop (get c) fresh p ?s2 = Some (r', s')" "loop_inv s'" "path_balanced ?s2 s'" by blast
      have "path_balanced s s'" using bal 3(3) by (simp add: path_balanced_def)
      then show ?thesis using True pos 1 2 3 by (subst data_path_loop.simps) simp
    qed
  qed
qed

lemma data_path_get_total:
  assumes "store_ok c" "coll_ok coll"
  shows "\<exists>r coll' m'. data_path_get (get c) fresh p coll m = Some (r, coll', m') \<and> coll_ok coll'
    \<and> live m' + coll_blocks coll = live m + coll_blocks coll'"
proof -
  let ?s = "\<lparr>p_offset = 0, p_ref_offset = 0,
        p_arinf = \<lparr>depth = 0, passes_remaining = replicate MAX_ARRAYS 0, index = 0\<rparr>,
        p_collection = coll, p_mem = m\<rparr>"
  have "loop_inv ?s" using assms(2) by (simp add: loop_inv_def ai_ok_def)
  from data_path_loop_total [OF assms(1) this, of fresh p] show ?thesis
    by (auto simp: data_path_get_def loop_inv_def path_balanced_def)
qed

end

text \<open>The cleanup frees exactly the blocks that the values own.\<close>

lemma data_path_cleanup_total:
  "list_all pv_ok coll \<Longrightarrow> coll_blocks coll \<le> live m \<Longrightarrow>
   \<exists>m'. data_path_cleanup coll m = Some m' \<and> live m' = live m - coll_blocks coll"
proof (induction coll arbitrary: m)
  case Nil
  then show ?case by (simp add: coll_blocks_def)
next
  case (Cons v vs)
  then show ?case using Cons.IH [of "mem_free m"]
    by (cases "pv_block v") (simp_all add: coll_blocks_def pv_ok_def)
qed

section \<open>The calldata store as a source of chunks\<close>

definition calldata_ready :: "s_calldata option \<Rightarrow> bool" where
  "calldata_ready calldata =
     (case calldata of None \<Rightarrow> True | Some cd \<Rightarrow> length (chunk cd) = 32 \<and> list_all chunk_ok (chunks cd))"

text \<open>On a store that is ready \<open>calldata_get_chunk\<close> does not fault, and keeps the store ready.\<close>

lemma calldata_get_chunk_total:
  assumes "calldata_ready calldata"
  shows "\<exists>r calldata'. calldata_get_chunk calldata i = Some (r, calldata') \<and> calldata_ready calldata'"
proof (cases "\<exists>cd. calldata = Some cd \<and> has_valid_calldata calldata \<and> unat i < length (chunks cd)")
  case False
  then have "calldata_get_chunk calldata i = Some (None, calldata)"
    by (cases calldata) (auto simp: calldata_get_chunk_def has_valid_calldata_def nth_chunk_eq)
  then show ?thesis using assms by simp
next
  case True
  then obtain cd where cd: "calldata = Some cd" "has_valid_calldata (Some cd)" "unat i < length (chunks cd)" by blast
  have k: "chunk_ok (chunks cd ! unat i)" "length (chunk cd) = 32" using assms cd by (simp_all add: calldata_ready_def list_all_length)
  have "calldata_get_chunk calldata i = Some (Some (chunk_bytes (chunks cd ! unat i)), Some (cd\<lparr>chunk := chunk_bytes (chunks cd ! unat i)\<rparr>))"
    using cd k decompress_chunk_correct [of "chunks cd ! unat i" "chunk cd"] by (simp add: calldata_get_chunk_def nth_chunk_eq)
  then show ?thesis using assms cd(1) k(1) length_chunk_bytes by (auto simp: calldata_ready_def)
qed

text \<open>What a reader gets.  A fault would be read as a null pointer here; \<open>calldata_get_chunk_total\<close> excludes it.\<close>

definition calldata_read :: "s_calldata option \<Rightarrow> uint32 \<Rightarrow> bytes option" where
  "calldata_read calldata i = (case calldata_get_chunk calldata i of None \<Rightarrow> None | Some (r, _) \<Rightarrow> r)"

lemma calldata_read_ready:
  assumes "calldata_ready (Some cd)"
  shows "calldata_read (Some cd) i =
    (if received_size cd = expected_size cd \<and> unat i < length (chunks cd)
     then Some (chunk_bytes (chunks cd ! unat i)) else None)"
proof -
  have "chunk_ok (chunks cd ! unat i)" if "unat i < length (chunks cd)"
    using assms that by (simp add: calldata_ready_def list_all_length)
  then show ?thesis
    using assms decompress_chunk_correct [of "chunks cd ! unat i" "chunk cd"]
    by (simp add: calldata_read_def calldata_get_chunk_def has_valid_calldata_def nth_chunk_eq calldata_ready_def)
qed

interpretation cd: chunk_source calldata_ready calldata_read
proof
  fix calldata i b
  assume "calldata_ready calldata" "calldata_read calldata i = Some b"
  moreover have "calldata_read None i = None"
    by (simp add: calldata_read_def calldata_get_chunk_def has_valid_calldata_def)
  moreover have "chunk_ok (chunks cd ! unat i)" if "calldata_ready (Some cd)" "unat i < length (chunks cd)" for cd
    using that by (simp add: calldata_ready_def list_all_length)
  ultimately show "length b = 32"
    by (cases calldata) (auto simp: calldata_read_ready length_chunk_bytes split: if_splits)
qed

text \<open>Reading overwrites only the scratch buffer: later reads are not affected.\<close>

lemma calldata_get_chunk_frame:
  assumes "calldata_ready calldata" "calldata_get_chunk calldata i = Some (r, calldata')"
  shows "calldata_ready calldata'" "calldata_read calldata' = calldata_read calldata"
proof -
  have "calldata_ready calldata' \<and> calldata_read calldata' = calldata_read calldata"
  proof (cases calldata)
    case None
    then show ?thesis using assms by (auto simp: calldata_get_chunk_def has_valid_calldata_def)
  next
    case (Some cd)
    then consider "calldata' = calldata"
      | j where "calldata' = Some (cd\<lparr>chunk := chunk_bytes (chunks cd ! j)\<rparr>)" "j < length (chunks cd)"
      using assms decompress_chunk_correct [of "chunks cd ! unat i" "chunk cd"]
      by (auto simp: calldata_get_chunk_def calldata_ready_def nth_chunk_eq list_all_length split: if_splits)
    then show ?thesis
    proof cases
      case 1
      then show ?thesis using assms by simp
    next
      case 2
      then have "calldata_ready calldata'"
        using assms(1) Some by (simp add: calldata_ready_def list_all_length length_chunk_bytes)
      then show ?thesis using assms(1) Some 2 by (auto simp: calldata_read_ready)
    qed
  qed
  then show "calldata_ready calldata'" "calldata_read calldata' = calldata_read calldata" by auto
qed

section \<open>Values read from complete calldata\<close>

text \<open>A store that holds exactly \<open>data\<close>.\<close>

definition calldata_holds :: "s_calldata option \<Rightarrow> bytes \<Rightarrow> bool" where
  "calldata_holds calldata data \<longleftrightarrow>
     (\<exists>cd. calldata = Some cd \<and> calldata_ready calldata \<and> received_size cd = expected_size cd
        \<and> length (chunks cd) = length data div 32 \<and> length data < 2 ^ 32
        \<and> (\<exists>rest. concat (map chunk_bytes (chunks cd)) @ rest = data))"

lemma calldata_holds_read:
  assumes "calldata_holds calldata data"
  shows "calldata_read calldata i =
    (if unat i < length data div 32 then Some (take 32 (drop (32 * unat i) data)) else None)"
proof -
  obtain cd rest where cd: "calldata = Some cd" "calldata_ready (Some cd)" "received_size cd = expected_size cd"
    "length (chunks cd) = length data div 32" "concat (map chunk_bytes (chunks cd)) @ rest = data"
    using assms by (auto simp: calldata_holds_def)
  have "take 32 (drop (32 * unat i) data) = chunk_bytes (chunks cd ! unat i)" if "unat i < length (chunks cd)"
    unfolding cd(5) [symmetric]
    by (rule take_drop_concat)
      (use cd(2) that in \<open>auto simp: calldata_ready_def list_all_iff length_chunk_bytes\<close>)
  then show ?thesis using cd calldata_read_ready [OF cd(2), of i] by simp
qed

lemma gather_calldata:
  assumes "calldata_holds calldata data"
  shows "gather (calldata_read calldata) off k = Some bs \<Longrightarrow>
    bs = take (32 * k) (drop (32 * unat off) data) \<and> unat off + k \<le> length data div 32 \<or> k = 0"
proof (induction k arbitrary: off bs)
  case 0
  then show ?case by simp
next
  case (Suc k)
  have lt: "length data div 32 < 2 ^ 32" using assms by (auto simp: calldata_holds_def)
  from Suc.prems obtain b bs' where b: "calldata_read calldata off = Some b"
    "gather (calldata_read calldata) (off + 1) k = Some bs'" "bs = b @ bs'"
    by (auto split: bind_splits)
  have off: "unat off < length data div 32" "b = take 32 (drop (32 * unat off) data)"
    using b(1) calldata_holds_read [OF assms, of off] by (auto split: if_splits)
  then have "unat off + 1 < 2 ^ 32" using lt by linarith
  then have o1: "unat (off + 1) = unat off + 1" by (simp add: unat_word_ariths)
  show ?case
  proof (cases "k = 0")
    case True
    then show ?thesis using b off by simp
  next
    case False
    then have IH: "bs' = take (32 * k) (drop (32 * unat (off + 1)) data)" "unat (off + 1) + k \<le> length data div 32"
      using Suc.IH [OF b(2)] by auto
    have "take (32 + 32 * k) (drop (32 * unat off) data)
        = take 32 (drop (32 * unat off) data) @ take (32 * k) (drop 32 (drop (32 * unat off) data))"
      by (rule take_add)
    then show ?thesis using IH o1 off b(3) by (simp add: add.commute)
  qed
qed

text \<open>A static leaf is the 32-byte word at its offset; a dynamic one is a length word
  followed by that many bytes.\<close>

definition abi_leaf :: "e_path_leaf_type \<Rightarrow> bytes \<Rightarrow> nat \<Rightarrow> bytes" where
  "abi_leaf l data off =
     (if l = LEAF_TYPE_STATIC then take 32 (drop (32 * off) data)
      else take (be_val (take 32 (drop (32 * off) data))) (drop (32 * (off + 1)) data))"

lemma path_leaf_reads_abi:
  assumes h: "calldata_holds calldata data" and coll: "coll_ok coll"
    and res: "path_leaf (calldata_read calldata) fresh l off coll m = Some (True, off', coll', m')"
  shows "\<exists>v. coll' = coll @ [v] \<and> pv_ok v \<and> l \<in> {LEAF_TYPE_STATIC, LEAF_TYPE_DYNAMIC} \<and>
     pv_bytes v = abi_leaf l data (unat off) \<and> length (pv_bytes v) = unat (pv_length v)"
proof -
  have ready: "calldata_ready calldata" using h by (auto simp: calldata_holds_def)
  obtain v where v: "coll' = coll @ [v]" "coll_ok (coll @ [v])"
    "l = LEAF_TYPE_STATIC \<and> off' = off \<and> cd.leaf_result calldata off 32 v \<or>
       l = LEAF_TYPE_DYNAMIC \<and> off' = off + 1 \<and>
         (\<exists>w b. calldata_read calldata off = Some b \<and> be_val b = unat w \<and> cd.leaf_result calldata (off + 1) w v)"
    by (rule cd.path_leaf_total [OF ready coll, of fresh l off m]) (use res in auto)
  have gt: "pv_bytes v = take n (drop (32 * unat o') data)"
    if lr: "cd.leaf_result calldata o' w v" and n: "unat w = n" for o' w n
  proof -
    obtain bs where bs: "gather (calldata_read calldata) o' (chunk_count n) = Some bs" "pv_bytes v = take n bs"
      using lr n by (auto simp: cd.leaf_result_def)
    show ?thesis
    proof (cases "n = 0")
      case True
      then show ?thesis using bs by simp
    next
      case False
      then have "chunk_count n \<noteq> 0" using chunk_count_le [of n] by auto
      then have "bs = take (32 * chunk_count n) (drop (32 * unat o') data)"
        using gather_calldata [OF h bs(1)] by auto
      then show ?thesis using bs(2) chunk_count_le [of n] by (simp add: min_def)
    qed
  qed
  have "pv_bytes v = abi_leaf l data (unat off)"
    using v(3)
  proof
    assume "l = LEAF_TYPE_STATIC \<and> off' = off \<and> cd.leaf_result calldata off 32 v"
    then show ?thesis using gt [of off 32 32] by (simp add: abi_leaf_def)
  next
    assume "l = LEAF_TYPE_DYNAMIC \<and> off' = off + 1 \<and>
         (\<exists>w b. calldata_read calldata off = Some b \<and> be_val b = unat w \<and> cd.leaf_result calldata (off + 1) w v)"
    then obtain w b where w: "l = LEAF_TYPE_DYNAMIC" "calldata_read calldata off = Some b" "be_val b = unat w"
      "cd.leaf_result calldata (off + 1) w v" by blast
    have off: "unat off < length data div 32" "b = take 32 (drop (32 * unat off) data)"
      using w(2) calldata_holds_read [OF h, of off] by (auto split: if_splits)
    moreover have "length data div 32 < 2 ^ 32" using h by (auto simp: calldata_holds_def)
    ultimately have "unat (off + 1) = unat off + 1" by (simp add: unat_word_ariths)
    then show ?thesis using gt [OF w(4) refl] w(1,3) off by (simp add: abi_leaf_def)
  qed
  moreover have "pv_ok v" "l \<in> {LEAF_TYPE_STATIC, LEAF_TYPE_DYNAMIC}"
    using v by (auto simp: coll_ok_def)
  ultimately show ?thesis using v(1) length_pv_bytes by blast
qed

end
