(* ===== verification/Ustream.thy ===== *)
theory Ustream
  imports Rlp Calldata Buf_Utils
begin

text \<open>
  Model of \<open>src/features/sign_tx/eth_ustream.c\<close>, the streaming RLP parser that every
  transaction goes through before it is signed, and of \<open>custom_processor\<close> of
  \<open>logic_sign_tx.c\<close>, the hook by which plugins and the contract-data review see the data
  field.

  The parser state is the record \<open>txs\<close>: the fields of \<open>txContext_t\<close>, the transaction
  content it fills, and the globals it touches.  The pointer \<open>workBuffer\<close> is an index into
  the payload of the current APDU.  The hash context is the list of bytes it has absorbed.
  Plugins, the hash engine, the settings and \<open>tx_ctx_init\<close> are the parameters collected in
  \<open>tx_env\<close>; \<open>'p\<close> is whatever state they keep.
\<close>

section \<open>Data\<close>

record txInt256 =
  ivalue :: bytes
  ilength :: uint8

record txContent =
  gasprice :: txInt256
  startgas :: txInt256
  tvalue :: txInt256
  tnonce :: txInt256
  chainID :: txInt256
  destination :: bytes
  destinationLength :: uint8
  v :: bytes
  vLength :: uint8
  dataPresent :: bool

text \<open>The results of a plugin, in the order the code compares them.\<close>

datatype eth_plugin_result =
    ETH_PLUGIN_RESULT_ERROR
  | ETH_PLUGIN_RESULT_UNAVAILABLE
  | ETH_PLUGIN_RESULT_UNSUCCESSFUL
  | ETH_PLUGIN_RESULT_SUCCESSFUL
  | ETH_PLUGIN_RESULT_OK
  | ETH_PLUGIN_RESULT_FALLBACK

definition plugin_successful :: "eth_plugin_result \<Rightarrow> bool" where
  "plugin_successful r \<longleftrightarrow>
     r \<in> {ETH_PLUGIN_RESULT_SUCCESSFUL, ETH_PLUGIN_RESULT_OK, ETH_PLUGIN_RESULT_FALLBACK}"

datatype parserStatus =
    USTREAM_PROCESSING
  | USTREAM_SUSPENDED
  | USTREAM_FINISHED
  | USTREAM_FAULT
  | USTREAM_CONTINUE

datatype customStatus = CUSTOM_NOT_HANDLED | CUSTOM_HANDLED | CUSTOM_SUSPENDED | CUSTOM_FAULT

datatype data_ui = No_data_ui | Confirm_selector | Confirm_parameter | Error_blind_signing

record 'p txs =
  currentField :: uint8
  sha3 :: bytes
  currentFieldLength :: uint32
  currentFieldPos :: uint32
  currentFieldIsList :: bool
  processingField :: bool
  fieldSingleByte :: bool
  dataLength :: uint32
  rlpBuffer :: bytes
  rlpBufferPos :: uint32
  payload :: bytes
  workPos :: nat
  commandLength :: uint32
  content :: txContent
  txType :: uint8
  store_calldata :: bool
  selector_bytes :: bytes
  g_parked_calldata :: "s_calldata option"
  tx_mem :: mem
  tk_data :: bytes
  tk_fieldIndex :: uint16
  tk_fieldOffset :: uint8
  tk_pluginStatus :: eth_plugin_result
  G_swap_tx_had_calldata :: bool
  tx_appState :: app_state
  data_ui :: data_ui
  tmp_string :: string
  plug :: 'p

record 'p tx_env =
  env_hash_ok :: "bytes \<Rightarrow> bytes \<Rightarrow> bool"
  env_keccak_init :: bool
  env_contractDetails :: bool
  env_dataAllowed :: bool
  env_called_from_swap :: bool
  env_plugin_init :: "txContent \<Rightarrow> uint64 \<Rightarrow> bytes \<Rightarrow> uint32 \<Rightarrow> 'p \<Rightarrow> eth_plugin_result \<times> 'p"
  env_plugin_parameter :: "txContent \<Rightarrow> bytes \<Rightarrow> nat \<Rightarrow> uint8 \<Rightarrow> 'p \<Rightarrow> bool \<times> 'p"
  env_format_hex :: "bytes \<Rightarrow> string"
  env_tx_ctx_init :: "s_calldata option \<Rightarrow> bytes \<Rightarrow> bytes \<Rightarrow> uint64 \<Rightarrow> 'p \<Rightarrow> mem
                      \<Rightarrow> (bool \<times> s_calldata option \<times> 'p \<times> mem) option"

abbreviation (input) RLP_NONE :: uint8 where "RLP_NONE \<equiv> 0"
abbreviation (input) RLP_CONTENT :: uint8 where "RLP_CONTENT \<equiv> 1"
abbreviation (input) LEGACY_RLP_NONCE :: uint8 where "LEGACY_RLP_NONCE \<equiv> 2"
abbreviation (input) LEGACY_RLP_GASPRICE :: uint8 where "LEGACY_RLP_GASPRICE \<equiv> 3"
abbreviation (input) LEGACY_RLP_STARTGAS :: uint8 where "LEGACY_RLP_STARTGAS \<equiv> 4"
abbreviation (input) LEGACY_RLP_TO :: uint8 where "LEGACY_RLP_TO \<equiv> 5"
abbreviation (input) LEGACY_RLP_VALUE :: uint8 where "LEGACY_RLP_VALUE \<equiv> 6"
abbreviation (input) LEGACY_RLP_DATA :: uint8 where "LEGACY_RLP_DATA \<equiv> 7"
abbreviation (input) LEGACY_RLP_V :: uint8 where "LEGACY_RLP_V \<equiv> 8"
abbreviation (input) LEGACY_RLP_R :: uint8 where "LEGACY_RLP_R \<equiv> 9"
abbreviation (input) LEGACY_RLP_S :: uint8 where "LEGACY_RLP_S \<equiv> 10"
abbreviation (input) LEGACY_RLP_DONE :: uint8 where "LEGACY_RLP_DONE \<equiv> 11"
abbreviation (input) EIP2930_RLP_CHAINID :: uint8 where "EIP2930_RLP_CHAINID \<equiv> 2"
abbreviation (input) EIP2930_RLP_NONCE :: uint8 where "EIP2930_RLP_NONCE \<equiv> 3"
abbreviation (input) EIP2930_RLP_GASPRICE :: uint8 where "EIP2930_RLP_GASPRICE \<equiv> 4"
abbreviation (input) EIP2930_RLP_GASLIMIT :: uint8 where "EIP2930_RLP_GASLIMIT \<equiv> 5"
abbreviation (input) EIP2930_RLP_TO :: uint8 where "EIP2930_RLP_TO \<equiv> 6"
abbreviation (input) EIP2930_RLP_VALUE :: uint8 where "EIP2930_RLP_VALUE \<equiv> 7"
abbreviation (input) EIP2930_RLP_DATA :: uint8 where "EIP2930_RLP_DATA \<equiv> 8"
abbreviation (input) EIP2930_RLP_ACCESS_LIST :: uint8 where "EIP2930_RLP_ACCESS_LIST \<equiv> 9"
abbreviation (input) EIP2930_RLP_DONE :: uint8 where "EIP2930_RLP_DONE \<equiv> 10"
abbreviation (input) EIP1559_RLP_CHAINID :: uint8 where "EIP1559_RLP_CHAINID \<equiv> 2"
abbreviation (input) EIP1559_RLP_NONCE :: uint8 where "EIP1559_RLP_NONCE \<equiv> 3"
abbreviation (input) EIP1559_RLP_MAX_PRIORITY_FEE_PER_GAS :: uint8 where "EIP1559_RLP_MAX_PRIORITY_FEE_PER_GAS \<equiv> 4"
abbreviation (input) EIP1559_RLP_MAX_FEE_PER_GAS :: uint8 where "EIP1559_RLP_MAX_FEE_PER_GAS \<equiv> 5"
abbreviation (input) EIP1559_RLP_GASLIMIT :: uint8 where "EIP1559_RLP_GASLIMIT \<equiv> 6"
abbreviation (input) EIP1559_RLP_TO :: uint8 where "EIP1559_RLP_TO \<equiv> 7"
abbreviation (input) EIP1559_RLP_VALUE :: uint8 where "EIP1559_RLP_VALUE \<equiv> 8"
abbreviation (input) EIP1559_RLP_DATA :: uint8 where "EIP1559_RLP_DATA \<equiv> 9"
abbreviation (input) EIP1559_RLP_ACCESS_LIST :: uint8 where "EIP1559_RLP_ACCESS_LIST \<equiv> 10"
abbreviation (input) EIP1559_RLP_DONE :: uint8 where "EIP1559_RLP_DONE \<equiv> 11"
abbreviation (input) EIP7702_RLP_CHAINID :: uint8 where "EIP7702_RLP_CHAINID \<equiv> 2"
abbreviation (input) EIP7702_RLP_NONCE :: uint8 where "EIP7702_RLP_NONCE \<equiv> 3"
abbreviation (input) EIP7702_RLP_MAX_PRIORITY_FEE_PER_GAS :: uint8 where "EIP7702_RLP_MAX_PRIORITY_FEE_PER_GAS \<equiv> 4"
abbreviation (input) EIP7702_RLP_MAX_FEE_PER_GAS :: uint8 where "EIP7702_RLP_MAX_FEE_PER_GAS \<equiv> 5"
abbreviation (input) EIP7702_RLP_GASLIMIT :: uint8 where "EIP7702_RLP_GASLIMIT \<equiv> 6"
abbreviation (input) EIP7702_RLP_TO :: uint8 where "EIP7702_RLP_TO \<equiv> 7"
abbreviation (input) EIP7702_RLP_VALUE :: uint8 where "EIP7702_RLP_VALUE \<equiv> 8"
abbreviation (input) EIP7702_RLP_DATA :: uint8 where "EIP7702_RLP_DATA \<equiv> 9"
abbreviation (input) EIP7702_RLP_ACCESS_LIST :: uint8 where "EIP7702_RLP_ACCESS_LIST \<equiv> 10"
abbreviation (input) EIP7702_RLP_AUTH_LIST :: uint8 where "EIP7702_RLP_AUTH_LIST \<equiv> 11"
abbreviation (input) EIP7702_RLP_DONE :: uint8 where "EIP7702_RLP_DONE \<equiv> 12"

abbreviation (input) EIP2930 :: uint8 where "EIP2930 \<equiv> 0x01"
abbreviation (input) EIP1559 :: uint8 where "EIP1559 \<equiv> 0x02"
abbreviation (input) EIP7702 :: uint8 where "EIP7702 \<equiv> 0x04"
abbreviation (input) LEGACY :: uint8 where "LEGACY \<equiv> 0xc0"

definition PARSING_IS_DONE :: "'p txs \<Rightarrow> bool" where
  "PARSING_IS_DONE s \<longleftrightarrow>
     txType s = LEGACY \<and> currentField s = LEGACY_RLP_DONE \<or>
     txType s = EIP2930 \<and> currentField s = EIP2930_RLP_DONE \<or>
     txType s = EIP1559 \<and> currentField s = EIP1559_RLP_DONE \<or>
     txType s = EIP7702 \<and> currentField s = EIP7702_RLP_DONE"

section \<open>Checks and copying\<close>

definition check_fields :: "'p txs \<Rightarrow> uint32 \<Rightarrow> bool" where
  "check_fields s len =
     (if currentFieldIsList s then False
      else if 0 < len \<and> len < currentFieldLength s then False
      else True)"

definition check_empty_list :: "'p txs \<Rightarrow> bool" where
  "check_empty_list s = currentFieldIsList s"

definition check_cmd_length :: "'p txs \<Rightarrow> uint32 \<Rightarrow> bool" where
  "check_cmd_length s len = (\<not> commandLength s < len)"

text \<open>\<open>init_tx\<close> zeroes the context; the content, the token context and the other globals
  are not part of it.\<close>

definition init_tx :: "'p tx_env \<Rightarrow> bool \<Rightarrow> 'p txs \<Rightarrow> bool \<times> 'p txs" where
  "init_tx env store s =
     (env_keccak_init env,
      s\<lparr>currentField := RLP_NONE + 1, sha3 := [], currentFieldLength := 0, currentFieldPos := 0,
        currentFieldIsList := False, processingField := False, fieldSingleByte := False,
        dataLength := 0, rlpBuffer := replicate 5 0, rlpBufferPos := 0, payload := [], workPos := 0,
        commandLength := 0, txType := 0, store_calldata := store, selector_bytes := replicate 4 0\<rparr>)"

text \<open>\<open>cx_hash_no_throw\<close> on the context.\<close>

definition absorb :: "'p tx_env \<Rightarrow> bytes \<Rightarrow> 'p txs \<Rightarrow> bool \<times> 'p txs" where
  "absorb env xs s = (if env_hash_ok env (sha3 s) xs then (True, s\<lparr>sha3 := sha3 s @ xs\<rparr>) else (False, s))"

definition read_tx_byte :: "'p tx_env \<Rightarrow> 'p txs \<Rightarrow> (uint8 option \<times> 'p txs) option" where
  "read_tx_byte env s =
     (if \<not> check_cmd_length s 1 then Some (None, s)
      else do {
        data \<leftarrow> rd (payload s) (workPos s);
        let s = s\<lparr>workPos := workPos s + 1, commandLength := commandLength s - 1\<rparr>;
        let s = (if processingField s then s\<lparr>currentFieldPos := currentFieldPos s + 1\<rparr> else s);
        if \<not> (processingField s \<and> fieldSingleByte s) then
          (case absorb env [data] s of
             (False, s) \<Rightarrow> Some (None, s)
           | (True, s) \<Rightarrow> Some (Some data, s))
        else Some (Some data, s) })"

text \<open>The destination \<open>out\<close> of \<open>copy_tx_data\<close> is the action that stores the bytes, or
  \<open>None\<close> for a null pointer.\<close>

type_synonym 'p store = "(bytes \<Rightarrow> 'p txs \<Rightarrow> 'p txs option) option"

definition copy_tx_data :: "'p tx_env \<Rightarrow> 'p store \<Rightarrow> uint32 \<Rightarrow> 'p txs \<Rightarrow> (bool \<times> 'p txs) option" where
  "copy_tx_data env out len s =
     (if \<not> check_cmd_length s len then Some (False, s)
      else do {
        xs \<leftarrow> rd_n (payload s) (workPos s) (unat len);
        s \<leftarrow> (case out of None \<Rightarrow> Some s | Some store \<Rightarrow> store xs s);
        let (ok, s) = (if \<not> (processingField s \<and> fieldSingleByte s) then absorb env xs s else (True, s));
        if \<not> ok then Some (False, s)
        else
          (let s = s\<lparr>workPos := workPos s + unat len, commandLength := commandLength s - len\<rparr>
           in Some (True, if processingField s then s\<lparr>currentFieldPos := currentFieldPos s + len\<rparr> else s)) })"

section \<open>The fields\<close>

text \<open>The two blocks that every field processor consists of: copy what is there of the
  field, and move to the next field when it is complete.\<close>

definition copy_available :: "'p tx_env \<Rightarrow> 'p store \<Rightarrow> 'p txs \<Rightarrow> (bool \<times> 'p txs) option" where
  "copy_available env out s =
     (if currentFieldPos s < currentFieldLength s then
        copy_tx_data env out (min (commandLength s) (currentFieldLength s - currentFieldPos s)) s
      else Some (True, s))"

definition next_field :: "('p txs \<Rightarrow> 'p txs) \<Rightarrow> 'p txs \<Rightarrow> 'p txs" where
  "next_field record_length s =
     (if currentFieldPos s = currentFieldLength s
      then (record_length s)\<lparr>currentField := currentField s + 1, processingField := False\<rparr>
      else s)"

definition process_content :: "'p txs \<Rightarrow> bool \<times> 'p txs" where
  "process_content s =
     (if \<not> check_empty_list s then (False, s)
      else (True, s\<lparr>dataLength := currentFieldLength s, currentField := currentField s + 1,
                    processingField := False\<rparr>))"

definition process_access_list :: "'p tx_env \<Rightarrow> 'p txs \<Rightarrow> (bool \<times> 'p txs) option" where
  "process_access_list env s =
     (if \<not> check_empty_list s then Some (False, s)
      else do {
        (ok, s) \<leftarrow> copy_available env None s;
        if \<not> ok then Some (False, s) else Some (True, next_field (\<lambda>s. s) s) })"

definition process_auth_list :: "'p tx_env \<Rightarrow> 'p txs \<Rightarrow> (bool \<times> 'p txs) option" where
  "process_auth_list env s =
     (if \<not> check_empty_list s then Some (False, s)
      else do {
        (ok, s) \<leftarrow> copy_available env None s;
        if \<not> ok then Some (False, s) else Some (True, next_field (\<lambda>s. s) s) })"

definition store_chainID :: "bytes \<Rightarrow> 'p txs \<Rightarrow> 'p txs option" where
  "store_chainID xs s = do {
     b \<leftarrow> wr_n (ivalue (chainID (content s))) (unat (currentFieldPos s)) xs;
     Some (s\<lparr>content := (content s)\<lparr>chainID := (chainID (content s))\<lparr>ivalue := b\<rparr>\<rparr>\<rparr>) }"

definition process_chain_id :: "'p tx_env \<Rightarrow> 'p txs \<Rightarrow> (bool \<times> 'p txs) option" where
  "process_chain_id env s =
     (if \<not> check_fields s 8 then Some (False, s)
      else do {
        (ok, s) \<leftarrow> copy_available env (Some store_chainID) s;
        if \<not> ok then Some (False, s)
        else Some (True, next_field (\<lambda>s. s\<lparr>content := (content s)\<lparr>chainID :=
               (chainID (content s))\<lparr>ilength := ucast (currentFieldLength s)\<rparr>\<rparr>\<rparr>) s) })"

definition store_nonce :: "bytes \<Rightarrow> 'p txs \<Rightarrow> 'p txs option" where
  "store_nonce xs s = do {
     b \<leftarrow> wr_n (ivalue (tnonce (content s))) (unat (currentFieldPos s)) xs;
     Some (s\<lparr>content := (content s)\<lparr>tnonce := (tnonce (content s))\<lparr>ivalue := b\<rparr>\<rparr>\<rparr>) }"

definition process_nonce :: "'p tx_env \<Rightarrow> 'p txs \<Rightarrow> (bool \<times> 'p txs) option" where
  "process_nonce env s =
     (if \<not> check_fields s 32 then Some (False, s)
      else do {
        (ok, s) \<leftarrow> copy_available env (Some store_nonce) s;
        if \<not> ok then Some (False, s)
        else Some (True, next_field (\<lambda>s. s\<lparr>content := (content s)\<lparr>tnonce :=
               (tnonce (content s))\<lparr>ilength := ucast (currentFieldLength s)\<rparr>\<rparr>\<rparr>) s) })"

definition store_startgas :: "bytes \<Rightarrow> 'p txs \<Rightarrow> 'p txs option" where
  "store_startgas xs s = do {
     b \<leftarrow> wr_n (ivalue (startgas (content s))) (unat (currentFieldPos s)) xs;
     Some (s\<lparr>content := (content s)\<lparr>startgas := (startgas (content s))\<lparr>ivalue := b\<rparr>\<rparr>\<rparr>) }"

definition process_start_gas :: "'p tx_env \<Rightarrow> 'p txs \<Rightarrow> (bool \<times> 'p txs) option" where
  "process_start_gas env s =
     (if \<not> check_fields s 32 then Some (False, s)
      else do {
        (ok, s) \<leftarrow> copy_available env (Some store_startgas) s;
        if \<not> ok then Some (False, s)
        else Some (True, next_field (\<lambda>s. s\<lparr>content := (content s)\<lparr>startgas :=
               (startgas (content s))\<lparr>ilength := ucast (currentFieldLength s)\<rparr>\<rparr>\<rparr>) s) })"

definition process_gas_limit :: "'p tx_env \<Rightarrow> 'p txs \<Rightarrow> (bool \<times> 'p txs) option" where
  "process_gas_limit env s = process_start_gas env s"

definition store_gasprice :: "bytes \<Rightarrow> 'p txs \<Rightarrow> 'p txs option" where
  "store_gasprice xs s = do {
     b \<leftarrow> wr_n (ivalue (gasprice (content s))) (unat (currentFieldPos s)) xs;
     Some (s\<lparr>content := (content s)\<lparr>gasprice := (gasprice (content s))\<lparr>ivalue := b\<rparr>\<rparr>\<rparr>) }"

definition process_gasprice :: "'p tx_env \<Rightarrow> 'p txs \<Rightarrow> (bool \<times> 'p txs) option" where
  "process_gasprice env s =
     (if \<not> check_fields s 32 then Some (False, s)
      else do {
        (ok, s) \<leftarrow> copy_available env (Some store_gasprice) s;
        if \<not> ok then Some (False, s)
        else Some (True, next_field (\<lambda>s. s\<lparr>content := (content s)\<lparr>gasprice :=
               (gasprice (content s))\<lparr>ilength := ucast (currentFieldLength s)\<rparr>\<rparr>\<rparr>) s) })"

definition store_value :: "bytes \<Rightarrow> 'p txs \<Rightarrow> 'p txs option" where
  "store_value xs s = do {
     b \<leftarrow> wr_n (ivalue (tvalue (content s))) (unat (currentFieldPos s)) xs;
     Some (s\<lparr>content := (content s)\<lparr>tvalue := (tvalue (content s))\<lparr>ivalue := b\<rparr>\<rparr>\<rparr>) }"

definition process_value :: "'p tx_env \<Rightarrow> 'p txs \<Rightarrow> (bool \<times> 'p txs) option" where
  "process_value env s =
     (if \<not> check_fields s 32 then Some (False, s)
      else do {
        (ok, s) \<leftarrow> copy_available env (Some store_value) s;
        if \<not> ok then Some (False, s)
        else Some (True, next_field (\<lambda>s. s\<lparr>content := (content s)\<lparr>tvalue :=
               (tvalue (content s))\<lparr>ilength := ucast (currentFieldLength s)\<rparr>\<rparr>\<rparr>) s) })"

definition store_destination :: "bytes \<Rightarrow> 'p txs \<Rightarrow> 'p txs option" where
  "store_destination xs s = do {
     b \<leftarrow> wr_n (destination (content s)) (unat (currentFieldPos s)) xs;
     Some (s\<lparr>content := (content s)\<lparr>destination := b\<rparr>\<rparr>) }"

definition process_to :: "'p tx_env \<Rightarrow> 'p txs \<Rightarrow> (bool \<times> 'p txs) option" where
  "process_to env s =
     (if \<not> check_fields s 20 then Some (False, s)
      else if currentFieldLength s \<noteq> 0 \<and> currentFieldLength s \<noteq> 20 then Some (False, s)
      else do {
        (ok, s) \<leftarrow> copy_available env (Some store_destination) s;
        if \<not> ok then Some (False, s)
        else Some (True, next_field (\<lambda>s. s\<lparr>content := (content s)\<lparr>destinationLength :=
               ucast (currentFieldLength s)\<rparr>\<rparr>) s) })"

definition process_and_discard :: "'p tx_env \<Rightarrow> 'p txs \<Rightarrow> (bool \<times> 'p txs) option" where
  "process_and_discard env s =
     (if \<not> check_fields s 0 then Some (False, s)
      else do {
        (ok, s) \<leftarrow> copy_available env None s;
        if \<not> ok then Some (False, s) else Some (True, next_field (\<lambda>s. s) s) })"

definition store_v :: "bytes \<Rightarrow> 'p txs \<Rightarrow> 'p txs option" where
  "store_v xs s = do {
     b \<leftarrow> wr_n (v (content s)) (unat (currentFieldPos s)) xs;
     Some (s\<lparr>content := (content s)\<lparr>v := b\<rparr>\<rparr>) }"

definition process_v :: "'p tx_env \<Rightarrow> 'p txs \<Rightarrow> (bool \<times> 'p txs) option" where
  "process_v env s =
     (let sizeof_v = word_of_nat (length (v (content s)))
      in if \<not> check_fields s sizeof_v then Some (False, s)
         else do {
           (ok, s) \<leftarrow> (if currentFieldPos s < currentFieldLength s
                       then copy_tx_data env (Some store_v)
                              (min (min (commandLength s) (currentFieldLength s - currentFieldPos s)) sizeof_v) s
                       else Some (True, s));
           if \<not> ok then Some (False, s)
           else Some (True, next_field (\<lambda>s. s\<lparr>content := (content s)\<lparr>vLength :=
                  ucast (currentFieldLength s)\<rparr>\<rparr>) s) })"

text \<open>The calldata part of \<open>process_data\<close>, for \<open>copySize\<close> available bytes.\<close>

definition store_data :: "uint32 \<Rightarrow> 'p txs \<Rightarrow> (bool \<times> 'p txs) option" where
  "store_data copySize s = do {
     start \<leftarrow> (if currentFieldPos s = 0 then
                (if copySize < 4 then Some (False, 0, s)
                 else do {
                   sel \<leftarrow> rd_n (payload s) (workPos s) 4;
                   (cd, m) \<leftarrow> calldata_init (unat (currentFieldLength s - 4)) (Some sel) (tx_mem s);
                   Some (cd \<noteq> None, 4, s\<lparr>g_parked_calldata := cd, tx_mem := m\<rparr>) })
              else Some (True, 0, s));
     (case start of
        (False, offset, s) \<Rightarrow> Some (False, s)
      | (True, offset, s) \<Rightarrow> do {
          xs \<leftarrow> rd_n (payload s) (workPos s + offset) (unat copySize - offset);
          (ok, cd, m) \<leftarrow> calldata_append (g_parked_calldata s) (tx_mem s) xs (unat copySize - offset);
          Some (ok, s\<lparr>g_parked_calldata := cd, tx_mem := m\<rparr>) }) }"

definition process_data :: "'p tx_env \<Rightarrow> 'p txs \<Rightarrow> (bool \<times> 'p txs) option" where
  "process_data env s =
     (if \<not> check_fields s 0 then Some (False, s)
      else do {
        (ok, s) \<leftarrow> (if currentFieldPos s < currentFieldLength s then
            (let copySize = min (commandLength s) (currentFieldLength s - currentFieldPos s)
             in do {
               s \<leftarrow> (if currentFieldPos s = 0 \<and> 4 \<le> copySize
                     then do { sel \<leftarrow> rd_n (payload s) (workPos s) 4; Some (s\<lparr>selector_bytes := sel\<rparr>) }
                     else Some s);
               (ok, s) \<leftarrow> (if store_calldata s then store_data copySize s else Some (True, s));
               if \<not> ok then Some (False, s) else copy_tx_data env None copySize s })
          else Some (True, s));
        if \<not> ok then Some (False, s) else Some (True, next_field (\<lambda>s. s) s) })"

section \<open>The transaction types\<close>

definition process_eip7702_tx :: "'p tx_env \<Rightarrow> 'p txs \<Rightarrow> (bool \<times> 'p txs) option" where
  "process_eip7702_tx env s =
     (let f = currentField s
      in if f = RLP_CONTENT then Some (process_content s)
         else if f = EIP7702_RLP_CHAINID then process_chain_id env s
         else if f = EIP7702_RLP_NONCE then process_nonce env s
         else if f = EIP7702_RLP_MAX_FEE_PER_GAS then process_gasprice env s
         else if f = EIP7702_RLP_GASLIMIT then process_gas_limit env s
         else if f = EIP7702_RLP_TO then process_to env s
         else if f = EIP7702_RLP_VALUE then process_value env s
         else if f = EIP7702_RLP_DATA then process_data env s
         else if f = EIP7702_RLP_ACCESS_LIST then process_access_list env s
         else if f = EIP7702_RLP_AUTH_LIST then process_auth_list env s
         else if f = EIP7702_RLP_MAX_PRIORITY_FEE_PER_GAS then process_and_discard env s
         else Some (False, s))"

definition process_eip1559_tx :: "'p tx_env \<Rightarrow> 'p txs \<Rightarrow> (bool \<times> 'p txs) option" where
  "process_eip1559_tx env s =
     (let f = currentField s
      in if f = RLP_CONTENT then Some (process_content s)
         else if f = EIP1559_RLP_CHAINID then process_chain_id env s
         else if f = EIP1559_RLP_NONCE then process_nonce env s
         else if f = EIP1559_RLP_MAX_FEE_PER_GAS then process_gasprice env s
         else if f = EIP1559_RLP_GASLIMIT then process_gas_limit env s
         else if f = EIP1559_RLP_TO then process_to env s
         else if f = EIP1559_RLP_VALUE then process_value env s
         else if f = EIP1559_RLP_DATA then process_data env s
         else if f = EIP1559_RLP_ACCESS_LIST then process_access_list env s
         else if f = EIP1559_RLP_MAX_PRIORITY_FEE_PER_GAS then process_and_discard env s
         else Some (False, s))"

definition process_eip2930_tx :: "'p tx_env \<Rightarrow> 'p txs \<Rightarrow> (bool \<times> 'p txs) option" where
  "process_eip2930_tx env s =
     (let f = currentField s
      in if f = RLP_CONTENT then Some (process_content s)
         else if f = EIP2930_RLP_CHAINID then process_chain_id env s
         else if f = EIP2930_RLP_NONCE then process_nonce env s
         else if f = EIP2930_RLP_GASPRICE then process_gasprice env s
         else if f = EIP2930_RLP_GASLIMIT then process_gas_limit env s
         else if f = EIP2930_RLP_TO then process_to env s
         else if f = EIP2930_RLP_VALUE then process_value env s
         else if f = EIP2930_RLP_DATA then process_data env s
         else if f = EIP2930_RLP_ACCESS_LIST then process_access_list env s
         else Some (False, s))"

definition process_legacy_tx :: "'p tx_env \<Rightarrow> 'p txs \<Rightarrow> (bool \<times> 'p txs) option" where
  "process_legacy_tx env s =
     (let f = currentField s
      in if f = RLP_CONTENT then Some (process_content s)
         else if f = LEGACY_RLP_NONCE then process_nonce env s
         else if f = LEGACY_RLP_GASPRICE then process_gasprice env s
         else if f = LEGACY_RLP_STARTGAS then process_start_gas env s
         else if f = LEGACY_RLP_TO then process_to env s
         else if f = LEGACY_RLP_VALUE then process_value env s
         else if f = LEGACY_RLP_DATA then process_data env s
         else if f = LEGACY_RLP_R \<or> f = LEGACY_RLP_S then process_and_discard env s
         else if f = LEGACY_RLP_V then process_v env s
         else Some (False, s))"

definition process_field :: "'p tx_env \<Rightarrow> 'p txs \<Rightarrow> (bool \<times> 'p txs) option" where
  "process_field env s =
     (if txType s = LEGACY then process_legacy_tx env s
      else if txType s = EIP2930 then process_eip2930_tx env s
      else if txType s = EIP1559 then process_eip1559_tx env s
      else if txType s = EIP7702 then process_eip7702_tx env s
      else Some (False, s))"

section \<open>Item headers\<close>

lemma read_tx_byte_decreases:
  assumes "read_tx_byte env s = Some (Some b, s')"
  shows "unat (commandLength s') < unat (commandLength s)"
proof -
  have "commandLength s' = commandLength s - 1" "check_cmd_length s 1"
    using assms by (auto simp: read_tx_byte_def absorb_def Let_def split: if_splits bind_splits)
  moreover from this have "0 < unat (commandLength s)"
    by (simp add: check_cmd_length_def unat_gt_0)
  ultimately show ?thesis by (simp add: unat_sub_le word_le_nat_alt)
qed

text \<open>The loop that fills \<open>rlpBuffer\<close>.  \<open>USTREAM_CONTINUE\<close> means that the header can
  be decoded, \<open>USTREAM_PROCESSING\<close> that the payload is exhausted first.\<close>

function parse_rlp_loop :: "'p tx_env \<Rightarrow> 'p txs \<Rightarrow> (parserStatus \<times> 'p txs) option" where
  "parse_rlp_loop env s =
     (if commandLength s \<noteq> 0 then
        (case read_tx_byte env (s\<lparr>rlpBufferPos := rlpBufferPos s + 1\<rparr>) of
           None \<Rightarrow> None
         | Some (None, s1) \<Rightarrow> Some (USTREAM_FAULT, s1)
         | Some (Some b, s1) \<Rightarrow>
             (case wr (rlpBuffer s1) (unat (rlpBufferPos s)) b of
                None \<Rightarrow> None
              | Some buf \<Rightarrow>
                  (case rlp_can_decode (Some buf) (rlpBufferPos s1) (Some False) of
                     None \<Rightarrow> None
                   | Some (can, valid) \<Rightarrow>
                       if can then
                         (if valid \<noteq> Some True then Some (USTREAM_FAULT, s1\<lparr>rlpBuffer := buf\<rparr>)
                          else Some (USTREAM_CONTINUE, s1\<lparr>rlpBuffer := buf\<rparr>))
                       else if rlpBufferPos s1 = 5 then Some (USTREAM_FAULT, s1\<lparr>rlpBuffer := buf\<rparr>)
                       else parse_rlp_loop env (s1\<lparr>rlpBuffer := buf\<rparr>))))
      else Some (USTREAM_PROCESSING, s))"
  by pat_completeness auto
termination
  by (relation "measure (\<lambda>(env, s). unat (commandLength s))")
    (auto dest: read_tx_byte_decreases)

declare parse_rlp_loop.simps [simp del]

definition parse_rlp :: "'p tx_env \<Rightarrow> 'p txs \<Rightarrow> (parserStatus \<times> 'p txs) option" where
  "parse_rlp env s = do {
     (st, s) \<leftarrow> parse_rlp_loop env s;
     if st \<noteq> USTREAM_CONTINUE then Some (st, s)
     else do {
       (ok, f) \<leftarrow> rlp_decode_length (rlpBuffer s) (rlpBufferPos s)
                   \<lparr>fieldLength = currentFieldLength s, fieldOffset = 0, fieldIsList = currentFieldIsList s\<rparr>;
       let s = s\<lparr>currentFieldLength := fieldLength f, currentFieldIsList := fieldIsList f\<rparr>;
       if \<not> ok then Some (USTREAM_FAULT, s)
       else do {
         s \<leftarrow> (if fieldOffset f = 0
               then (if workPos s = 0 then None
                     else Some (s\<lparr>workPos := workPos s - 1, commandLength := commandLength s + 1,
                                 fieldSingleByte := True\<rparr>))
               else Some (s\<lparr>fieldSingleByte := False\<rparr>));
         Some (USTREAM_CONTINUE, s\<lparr>currentFieldPos := 0, rlpBufferPos := 0, processingField := True\<rparr>) } } }"

section \<open>The hook for the data field\<close>

definition is_rlp_data_field :: "'p txs \<Rightarrow> bool" where
  "is_rlp_data_field s =
     (if txType s = LEGACY then currentField s = LEGACY_RLP_DATA
      else if txType s = EIP2930 then currentField s = EIP2930_RLP_DATA
      else if txType s = EIP1559 then currentField s = EIP1559_RLP_DATA
      else if txType s = EIP7702 then currentField s = EIP7702_RLP_DATA
      else False)"

text \<open>Eight bytes of a parameter, without leading zeros, in hexadecimal.\<close>

definition split_binary_parameter_part :: "(bytes \<Rightarrow> string) \<Rightarrow> bytes \<Rightarrow> string" where
  "split_binary_parameter_part format_hex parameter =
     (let i = count_zeros parameter
      in if i = 8 then ''00'' else format_hex (drop i parameter))"

definition parameter_string :: "(bytes \<Rightarrow> string) \<Rightarrow> bytes \<Rightarrow> string" where
  "parameter_string format_hex d =
     split_binary_parameter_part format_hex (take 8 d) @ '':'' @
     split_binary_parameter_part format_hex (take 8 (drop 8 d)) @ '':'' @
     split_binary_parameter_part format_hex (take 8 (drop 16 d)) @ '':'' @
     split_binary_parameter_part format_hex (take 8 (drop 24 d))"

definition store_token_data :: "bytes \<Rightarrow> 'p txs \<Rightarrow> 'p txs option" where
  "store_token_data xs s = do {
     d \<leftarrow> wr_n (tk_data s) (unat (tk_fieldOffset s)) xs;
     Some (s\<lparr>tk_data := d\<rparr>) }"

definition get_tx_chain_id :: "'p txs \<Rightarrow> uint64" where
  "get_tx_chain_id s =
     (if txType s = LEGACY then u64_from_BE (take (unat (vLength (content s))) (v (content s)))
      else if txType s \<in> {EIP2930, EIP1559, EIP7702}
      then u64_from_BE (take (unat (ilength (chainID (content s)))) (ivalue (chainID (content s))))
      else 0)"

lemma get_tx_chain_id_status [simp]: "get_tx_chain_id (s\<lparr>tk_pluginStatus := r\<rparr>) = get_tx_chain_id s"
  by (simp add: get_tx_chain_id_def)

text \<open>The beginning of the data field: the selector, and the activation of a plugin.  The
  result \<open>Some st\<close> is an early return.\<close>

definition custom_begin :: "'p tx_env \<Rightarrow> 'p txs \<Rightarrow> (customStatus option \<times> 'p txs) option" where
  "custom_begin env s =
     (if commandLength s < 4 then Some (Some CUSTOM_FAULT, s)
      else do {
        let s = s\<lparr>tk_pluginStatus := ETH_PLUGIN_RESULT_UNAVAILABLE\<rparr>;
        s \<leftarrow> (if \<not> store_calldata s \<and> (\<not> env_contractDetails env \<or> env_called_from_swap env)
              then do {
                sel \<leftarrow> rd_n (payload s) (workPos s) 4;
                let (r, p) = env_plugin_init env (content s) (get_tx_chain_id s) sel (currentFieldLength s) (plug s);
                Some (s\<lparr>tk_pluginStatus := r, plug := p\<rparr>) }
              else Some s);
        if tk_pluginStatus s = ETH_PLUGIN_RESULT_ERROR then Some (Some CUSTOM_FAULT, s)
        else if plugin_successful (tk_pluginStatus s) then do {
          (ok, s) \<leftarrow> copy_tx_data env None 4 (s\<lparr>tk_fieldIndex := 0, tk_fieldOffset := 0\<rparr>);
          if \<not> ok then Some (Some CUSTOM_FAULT, s)
          else if currentFieldLength s = 4 then Some (Some CUSTOM_NOT_HANDLED, s)
          else Some (None, s) }
        else Some (None, s) })"

text \<open>The choice of the block to read: an early return, or the block size before it is
  cut to the end of the field.\<close>

definition custom_block :: "'p tx_env \<Rightarrow> 'p txs \<Rightarrow> (customStatus + uint32) \<times> 'p txs" where
  "custom_block env s =
     (if currentFieldPos s = 0 then
        (if \<not> store_calldata s \<and> \<not> env_dataAllowed env
         then (Inl CUSTOM_FAULT, s\<lparr>data_ui := Error_blind_signing, tx_appState := APP_STATE_IDLE\<rparr>)
         else if store_calldata s \<or> \<not> env_contractDetails env then (Inl CUSTOM_NOT_HANDLED, s)
         else (Inr 4, s\<lparr>tk_fieldIndex := 0, tk_fieldOffset := 0\<rparr>))
      else if store_calldata s \<or> (\<not> env_contractDetails env \<and>
                (tk_pluginStatus s \<in> {ETH_PLUGIN_RESULT_ERROR, ETH_PLUGIN_RESULT_UNAVAILABLE,
                                      ETH_PLUGIN_RESULT_UNSUCCESSFUL}))
        then (Inl CUSTOM_NOT_HANDLED, s)
      else (Inr (32 - ucast (tk_fieldOffset s mod 32)), s))"

text \<open>The end of a block: hand it to the plugin, or show it.\<close>

definition custom_deliver :: "'p tx_env \<Rightarrow> uint32 \<Rightarrow> uint32 \<Rightarrow> 'p txs \<Rightarrow> customStatus \<times> 'p txs" where
  "custom_deliver env fieldPos copySize s =
     (if plugin_successful (tk_pluginStatus s) then
        (case env_plugin_parameter env (content s) (tk_data s) (unat (tk_fieldIndex s) * 32 + 4) (ucast copySize) (plug s) of
           (False, p) \<Rightarrow> (CUSTOM_FAULT, s\<lparr>plug := p\<rparr>)
         | (True, p) \<Rightarrow> (CUSTOM_HANDLED, s\<lparr>plug := p, tk_fieldIndex := tk_fieldIndex s + 1, tk_fieldOffset := 0,
                                          tk_data := replicate 32 0\<rparr>))
      else if fieldPos = 0 then
        (CUSTOM_SUSPENDED, s\<lparr>tk_fieldOffset := 0, tmp_string := env_format_hex env (take 4 (tk_data s)),
                             data_ui := Confirm_selector\<rparr>)
      else
        (CUSTOM_SUSPENDED, s\<lparr>tk_fieldIndex := tk_fieldIndex s + 1, tk_fieldOffset := 0,
                             tmp_string := parameter_string (env_format_hex env) (tk_data s),
                             data_ui := Confirm_parameter\<rparr>))"

text \<open>The copy of a block that was chosen, cut to the end of the field and to what the APDU has.\<close>

definition custom_copy :: "'p tx_env \<Rightarrow> uint32 \<Rightarrow> 'p txs \<Rightarrow> (customStatus \<times> 'p txs) option" where
  "custom_copy env size0 s =
     (let fieldPos = currentFieldPos s;
          blockSize = (if currentFieldLength s - fieldPos < size0 then currentFieldLength s - fieldPos else size0);
          copySize = (if commandLength s < blockSize then commandLength s else blockSize)
      in do {
        (ok, s) \<leftarrow> copy_tx_data env (Some store_token_data) copySize s;
        if \<not> ok then Some (CUSTOM_FAULT, s)
        else
          (let s = (if currentFieldPos s = currentFieldLength s
                    then s\<lparr>currentField := currentField s + 1, processingField := False\<rparr>
                    else s);
               s = s\<lparr>tk_fieldOffset := tk_fieldOffset s + ucast copySize\<rparr>
           in if copySize = blockSize then Some (custom_deliver env fieldPos copySize s)
              else Some (CUSTOM_HANDLED, s)) })"

definition custom_processor :: "'p tx_env \<Rightarrow> 'p txs \<Rightarrow> (customStatus \<times> 'p txs) option" where
  "custom_processor env s =
     (if \<not> (is_rlp_data_field s \<and> currentFieldLength s \<noteq> 0) then Some (CUSTOM_NOT_HANDLED, s)
      else
        (let s = s\<lparr>content := (content s)\<lparr>dataPresent := True\<rparr>, G_swap_tx_had_calldata := True\<rparr>
         in if destinationLength (content s) = 0 then Some (CUSTOM_NOT_HANDLED, s)
            else if currentFieldLength s < 4 then Some (CUSTOM_NOT_HANDLED, s)
            else do {
              (early, s) \<leftarrow> (if currentFieldPos s = 0 then custom_begin env s else Some (None, s));
              case early of
                Some st \<Rightarrow> Some (st, s)
              | None \<Rightarrow>
                  (case custom_block env s of
                     (Inl st, s) \<Rightarrow> Some (st, s)
                   | (Inr size0, s) \<Rightarrow> custom_copy env size0 s) }))"

section \<open>The main loop\<close>

text \<open>The branch taken when the last field has been parsed.  The failure of
  \<open>tx_ctx_init\<close> is answered with \<open>return false\<close>, which is the enumerator
  \<open>USTREAM_PROCESSING\<close>; a fault inside of it (\<open>None\<close>) is a fault of the parser.\<close>

definition parsing_done :: "'p tx_env \<Rightarrow> 'p txs \<Rightarrow> (parserStatus \<times> 'p txs) option" where
  "parsing_done env s =
     (if store_calldata s then do {
        to \<leftarrow> buf_shrink_expand (Some (destination (content s))) (unat (destinationLength (content s)))
                 (replicate 20 0) 20;
        amount \<leftarrow> buf_shrink_expand (Some (ivalue (tvalue (content s)))) (unat (ilength (tvalue (content s))))
                 (replicate 32 0) 32;
        (ok, cd, p, m) \<leftarrow> env_tx_ctx_init env (g_parked_calldata s) to amount (get_tx_chain_id s) (plug s) (tx_mem s);
        let s = s\<lparr>g_parked_calldata := cd, plug := p, tx_mem := m\<rparr>;
        if \<not> ok then
          (case g_parked_calldata s of
             None \<Rightarrow> None
           | Some cd \<Rightarrow> Some (USTREAM_PROCESSING,
                 s\<lparr>tx_mem := calldata_delete cd (tx_mem s), g_parked_calldata := None\<rparr>))
        else Some (USTREAM_FINISHED, s\<lparr>g_parked_calldata := None\<rparr>) }
      else Some (USTREAM_FINISHED, s))"

text \<open>One field, or the part of it that is there, and one iteration: \<open>USTREAM_CONTINUE\<close> starts the
  next one.\<close>

definition field_step :: "'p tx_env \<Rightarrow> 'p txs \<Rightarrow> (parserStatus \<times> 'p txs) option" where
  "field_step env s = do {
     (cst, s) \<leftarrow> custom_processor env s;
     case cst of
       CUSTOM_SUSPENDED \<Rightarrow> Some (USTREAM_SUSPENDED, s)
     | CUSTOM_FAULT \<Rightarrow> Some (USTREAM_FAULT, s)
     | CUSTOM_HANDLED \<Rightarrow> Some (USTREAM_CONTINUE, s)
     | CUSTOM_NOT_HANDLED \<Rightarrow> do {
         (ok, s) \<leftarrow> process_field env s;
         Some (if ok then USTREAM_CONTINUE else USTREAM_FAULT, s) } }"

definition process_tx_step :: "'p tx_env \<Rightarrow> 'p txs \<Rightarrow> (parserStatus \<times> 'p txs) option" where
  "process_tx_step env s =
     (if PARSING_IS_DONE s then parsing_done env s
      else if commandLength s = 0 then Some (USTREAM_PROCESSING, s)
      else do {
        (st, s) \<leftarrow> (if \<not> processingField s then parse_rlp env s else Some (USTREAM_CONTINUE, s));
        if st \<noteq> USTREAM_CONTINUE then Some (st, s)
        else field_step env s })"

partial_function (option) process_tx_internal :: "'p tx_env \<Rightarrow> 'p txs \<Rightarrow> (parserStatus \<times> 'p txs) option" where
  "process_tx_internal env s =
     Option.bind (process_tx_step env s) (\<lambda>(st, s).
       if st = USTREAM_CONTINUE then process_tx_internal env s else Some (st, s))"

definition process_tx :: "'p tx_env \<Rightarrow> bytes \<Rightarrow> 'p txs \<Rightarrow> (parserStatus \<times> 'p txs) option" where
  "process_tx env buf s =
     process_tx_internal env (s\<lparr>payload := buf, workPos := 0, commandLength := word_of_nat (length buf)\<rparr>)"

definition continue_tx :: "'p tx_env \<Rightarrow> 'p txs \<Rightarrow> (parserStatus \<times> 'p txs) option" where
  "continue_tx env s = process_tx_internal env s"

end
