(* ===== verification/Ustream_Proofs.thy ===== *)
theory Ustream_Proofs
  imports Ustream
begin

text \<open>
  Correctness of the streaming parser: every run returns, no run leaves the buffers, the
  bounds of the parsed fields hold, and the hash absorbs exactly the bytes that were
  consumed.  The locale \<open>field_processor\<close> is the contract of a field processor; it is
  interpreted on each of them.
\<close>

section \<open>Invariants\<close>

definition int256_ok :: "nat \<Rightarrow> txInt256 \<Rightarrow> bool" where
  "int256_ok n i \<longleftrightarrow> length (ivalue i) = 32 \<and> unat (ilength i) \<le> n"

definition content_ok :: "txContent \<Rightarrow> bool" where
  "content_ok c \<longleftrightarrow> int256_ok 32 (gasprice c) \<and> int256_ok 32 (startgas c) \<and> int256_ok 32 (tvalue c)
     \<and> int256_ok 32 (tnonce c) \<and> int256_ok 8 (chainID c)
     \<and> length (destination c) = 20 \<and> destinationLength c \<in> {0, 20}
     \<and> 0 < length (v c) \<and> length (v c) < 256 \<and> unat (vLength c) \<le> length (v c)"

definition parked_ok :: "s_calldata option \<Rightarrow> bool" where
  "parked_ok p \<longleftrightarrow> (\<forall>cd. p = Some cd \<longrightarrow> calldata_inv cd \<and> expected_size cd < 2 ^ 32)"

definition tx_base :: "'p txs \<Rightarrow> bool" where
  "tx_base s \<longleftrightarrow> content_ok (content s) \<and> length (rlpBuffer s) = 5 \<and> length (selector_bytes s) = 4
     \<and> length (tk_data s) = 32 \<and> unat (tk_fieldOffset s) < 32
     \<and> workPos s + unat (commandLength s) = length (payload s) \<and> parked_ok (g_parked_calldata s)"

text \<open>At the head of the main loop.\<close>

definition tx_inv :: "'p txs \<Rightarrow> bool" where
  "tx_inv s \<longleftrightarrow> tx_base s \<and>
     (if processingField s
      then currentFieldPos s < currentFieldLength s \<and> \<not> fieldSingleByte s \<and> rlpBufferPos s = 0
      else unat (rlpBufferPos s) \<le> 4)"

text \<open>When a field processor is called.\<close>

definition field_pre :: "'p txs \<Rightarrow> bool" where
  "field_pre s \<longleftrightarrow> tx_base s \<and> processingField s \<and> currentFieldPos s \<le> currentFieldLength s
     \<and> (fieldSingleByte s \<longrightarrow> currentFieldLength s = 1 \<and> 0 < commandLength s \<and> \<not> currentFieldIsList s) \<and> rlpBufferPos s = 0"

text \<open>\<open>n\<close> bytes were taken from the payload, and absorbed unless they were before.\<close>

definition consumed :: "nat \<Rightarrow> 'p txs \<Rightarrow> 'p txs \<Rightarrow> bool" where
  "consumed n s s' \<longleftrightarrow> n \<le> unat (commandLength s) \<and> payload s' = payload s \<and> workPos s' = workPos s + n
     \<and> unat (commandLength s') = unat (commandLength s) - n
     \<and> sha3 s' = sha3 s @ (if fieldSingleByte s then [] else take n (drop (workPos s) (payload s)))
     \<and> fieldSingleByte s' = fieldSingleByte s \<and> currentFieldLength s' = currentFieldLength s
     \<and> txType s' = txType s \<and> rlpBufferPos s' = rlpBufferPos s \<and> store_calldata s' = store_calldata s
     \<and> tx_appState s' = tx_appState s"

definition available :: "'p txs \<Rightarrow> nat" where
  "available s = min (unat (commandLength s)) (unat (currentFieldLength s) - unat (currentFieldPos s))"

text \<open>What a field processor does when it succeeds.\<close>

definition field_post :: "'p txs \<Rightarrow> 'p txs \<Rightarrow> bool" where
  "field_post s s' \<longleftrightarrow> consumed (available s) s s' \<and> tx_base s' \<and>
     (if unat (currentFieldPos s) + available s = unat (currentFieldLength s)
      then \<not> processingField s' \<and> currentField s' = currentField s + 1
      else processingField s' \<and> unat (currentFieldPos s') = unat (currentFieldPos s) + available s
           \<and> currentField s' = currentField s)"

text \<open>The contract.\<close>

locale field_processor =
  fixes proc :: "'p tx_env \<Rightarrow> 'p txs \<Rightarrow> (bool \<times> 'p txs) option"
  assumes total: "field_pre s \<Longrightarrow> \<exists>ok s'. proc env s = Some (ok, s') \<and> (ok \<longrightarrow> field_post s s')"
begin

lemma post: "field_pre s \<Longrightarrow> proc env s = Some (True, s') \<Longrightarrow> field_post s s'"
  using total [of s env] by auto

text \<open>A processor that had something to do consumes, and the loop invariant holds again.\<close>

lemma progress:
  assumes "field_pre s" "proc env s = Some (True, s')" "currentFieldPos s < currentFieldLength s" "0 < commandLength s"
  shows "unat (commandLength s') < unat (commandLength s)"
proof -
  have "0 < available s" "available s \<le> unat (commandLength s)"
    using assms(3,4) by (auto simp: available_def word_less_nat_alt)
  then show ?thesis
    using post [OF assms(1,2)] by (simp add: field_post_def consumed_def)
qed

lemma inv:
  assumes "field_pre s" "proc env s = Some (True, s')"
  shows "tx_inv s'"
proof -
  note p = post [OF assms]
  have le: "unat (currentFieldPos s) \<le> unat (currentFieldLength s)"
    using assms(1) by (simp add: field_pre_def word_le_nat_alt)
  have rb: "rlpBufferPos s' = 0" using p assms(1) by (simp add: field_post_def consumed_def field_pre_def)
  show ?thesis
  proof (cases "unat (currentFieldPos s) + available s = unat (currentFieldLength s)")
    case True
    then show ?thesis using p rb by (simp add: tx_inv_def field_post_def)
  next
    case False
    have "\<not> fieldSingleByte s"
    proof
      assume sb: "fieldSingleByte s"
      then have "currentFieldLength s = 1" "0 < commandLength s" using assms(1) by (auto simp: field_pre_def)
      then have "available s = 1 - unat (currentFieldPos s)" by (auto simp: available_def word_less_nat_alt)
      then show False using False le \<open>currentFieldLength s = 1\<close> by simp
    qed
    moreover have "available s \<le> unat (currentFieldLength s) - unat (currentFieldPos s)"
      by (simp add: available_def)
    ultimately show ?thesis using p rb False le
      by (auto simp: tx_inv_def field_post_def consumed_def word_less_nat_alt)
  qed
qed

end

section \<open>Copying\<close>

lemma copy_tx_data_cases:
  assumes w: "workPos s + unat (commandLength s) = length (payload s)" and p: "processingField s"
    and len: "unat len \<le> unat (commandLength s)"
    and store: "case out of None \<Rightarrow> s1 = s
                | Some st \<Rightarrow> st (take (unat len) (drop (workPos s) (payload s))) s = Some s1"
    and s1: "s1 = s\<lparr>content := c, tk_data := d\<rparr>"
  shows "copy_tx_data env out len s = Some (False, s1) \<or>
    copy_tx_data env out len s = Some (True, s1\<lparr>
      sha3 := sha3 s @ (if fieldSingleByte s then [] else take (unat len) (drop (workPos s) (payload s))),
      workPos := workPos s + unat len, commandLength := commandLength s - len,
      currentFieldPos := currentFieldPos s + len\<rparr>)"
proof -
  let ?xs = "take (unat len) (drop (workPos s) (payload s))"
  have chk: "check_cmd_length s len" using len by (simp add: check_cmd_length_def nat_cmp not_less)
  have rd: "rd_n (payload s) (workPos s) (unat len) = Some ?xs"
    using w len by (simp add: rd_n_def)
  have out: "(case out of None \<Rightarrow> Some s | Some store \<Rightarrow> store ?xs s) = Some s1"
    using store by (cases out) auto
  have s1': "processingField s1" "fieldSingleByte s1 = fieldSingleByte s" "sha3 s1 = sha3 s" "workPos s1 = workPos s"
    "commandLength s1 = commandLength s" "currentFieldPos s1 = currentFieldPos s"
    using p by (simp_all add: s1)
  show ?thesis
    using chk rd out s1' by (cases "fieldSingleByte s") (simp_all add: copy_tx_data_def absorb_def Let_def)
qed

text \<open>What the stores may touch.\<close>

lemma tx_base_content: "tx_base s \<Longrightarrow> content_ok c \<Longrightarrow> tx_base (s\<lparr>content := c\<rparr>)"
  by (simp add: tx_base_def)

definition store_safe :: "(txContent \<Rightarrow> bool) \<Rightarrow> nat \<Rightarrow> (bytes \<Rightarrow> 'p txs \<Rightarrow> 'p txs option) \<Rightarrow> bool" where
  "store_safe Q M st \<longleftrightarrow>
     (\<forall>xs s. content_ok (content s) \<longrightarrow> Q (content s) \<longrightarrow> unat (currentFieldPos s) + length xs \<le> M \<longrightarrow>
       (\<exists>c. st xs s = Some (s\<lparr>content := c\<rparr>) \<and> content_ok c \<and> Q c))"

lemma store_safeD:
  "store_safe Q M st \<Longrightarrow> content_ok (content s) \<Longrightarrow> Q (content s) \<Longrightarrow> unat (currentFieldPos s) + length xs \<le> M \<Longrightarrow>
   \<exists>c. st xs s = Some (s\<lparr>content := c\<rparr>) \<and> content_ok c \<and> Q c"
  by (simp add: store_safe_def)

abbreviation (input) any :: "txContent \<Rightarrow> bool" where "any \<equiv> \<lambda>_. True"

lemma store_safeI:
  assumes st: "\<And>xs s. st xs s = do { b \<leftarrow> wr_n (g (content s)) (unat (currentFieldPos s)) xs;
                                     Some (s\<lparr>content := f b (content s)\<rparr>) }"
    and len: "\<And>c. content_ok c \<Longrightarrow> Q c \<Longrightarrow> M \<le> length (g c)"
    and ok: "\<And>b c. content_ok c \<Longrightarrow> Q c \<Longrightarrow> length b = length (g c) \<Longrightarrow> content_ok (f b c) \<and> Q (f b c)"
  shows "store_safe Q M (st :: bytes \<Rightarrow> 'p txs \<Rightarrow> 'p txs option)"
  unfolding store_safe_def
proof (intro allI impI)
  fix xs :: bytes and s :: "'p txs"
  assume a: "content_ok (content s)" "Q (content s)" "unat (currentFieldPos s) + length xs \<le> M"
  then have "unat (currentFieldPos s) + length xs \<le> length (g (content s))" using len [OF a(1,2)] by simp
  then obtain b where b: "wr_n (g (content s)) (unat (currentFieldPos s)) xs = Some b" by (simp add: wr_n_def)
  then show "\<exists>c. st xs s = Some (s\<lparr>content := c\<rparr>) \<and> content_ok c \<and> Q c"
    using ok [OF a(1,2) wr_n_length [OF b]] st [of xs s] by auto
qed

lemma store_safe_chainID: "store_safe any 32 store_chainID"
  by (rule store_safeI [where g = "\<lambda>c. ivalue (chainID c)" and f = "\<lambda>b c. c\<lparr>chainID := (chainID c)\<lparr>ivalue := b\<rparr>\<rparr>"])
    (simp_all add: store_chainID_def content_ok_def int256_ok_def)

lemma store_safe_nonce: "store_safe any 32 store_nonce"
  by (rule store_safeI [where g = "\<lambda>c. ivalue (tnonce c)" and f = "\<lambda>b c. c\<lparr>tnonce := (tnonce c)\<lparr>ivalue := b\<rparr>\<rparr>"])
    (simp_all add: store_nonce_def content_ok_def int256_ok_def)

lemma store_safe_startgas: "store_safe any 32 store_startgas"
  by (rule store_safeI [where g = "\<lambda>c. ivalue (startgas c)" and f = "\<lambda>b c. c\<lparr>startgas := (startgas c)\<lparr>ivalue := b\<rparr>\<rparr>"])
    (simp_all add: store_startgas_def content_ok_def int256_ok_def)

lemma store_safe_gasprice: "store_safe any 32 store_gasprice"
  by (rule store_safeI [where g = "\<lambda>c. ivalue (gasprice c)" and f = "\<lambda>b c. c\<lparr>gasprice := (gasprice c)\<lparr>ivalue := b\<rparr>\<rparr>"])
    (simp_all add: store_gasprice_def content_ok_def int256_ok_def)

lemma store_safe_value: "store_safe any 32 store_value"
  by (rule store_safeI [where g = "\<lambda>c. ivalue (tvalue c)" and f = "\<lambda>b c. c\<lparr>tvalue := (tvalue c)\<lparr>ivalue := b\<rparr>\<rparr>"])
    (simp_all add: store_value_def content_ok_def int256_ok_def)

lemma store_safe_destination: "store_safe any 20 store_destination"
  by (rule store_safeI [where g = "destination" and f = "\<lambda>b c. c\<lparr>destination := b\<rparr>"])
    (simp_all add: store_destination_def content_ok_def int256_ok_def)

lemma store_safe_v: "store_safe (\<lambda>c. length (v c) = L) L store_v"
  by (rule store_safeI [where g = "v" and f = "\<lambda>b c. c\<lparr>v := b\<rparr>"])
    (simp_all add: store_v_def content_ok_def int256_ok_def)

text \<open>The length that a processor records when the field is complete.\<close>

definition record_safe :: "(txContent \<Rightarrow> bool) \<Rightarrow> uint32 \<Rightarrow> ('p txs \<Rightarrow> 'p txs) \<Rightarrow> bool" where
  "record_safe Q len r \<longleftrightarrow> (\<forall>s. content_ok (content s) \<longrightarrow> Q (content s) \<longrightarrow> currentFieldLength s = len \<longrightarrow>
     (\<exists>c. r s = s\<lparr>content := c\<rparr> \<and> content_ok c))"

lemma record_safeD:
  "record_safe Q len r \<Longrightarrow> content_ok (content s) \<Longrightarrow> Q (content s) \<Longrightarrow> currentFieldLength s = len \<Longrightarrow>
   \<exists>c. r s = s\<lparr>content := c\<rparr> \<and> content_ok c"
  by (simp add: record_safe_def)

lemma unat_ucast_32_8: "unat (w :: uint32) < 256 \<Longrightarrow> unat (ucast w :: uint8) = unat w"
  by (simp add: unsigned_ucast_eq take_bit_nat_eq_self_iff)

lemma record_safe_id: "record_safe Q len (\<lambda>s. s)"
proof -
  have "\<exists>c. s = s\<lparr>content := c\<rparr> \<and> content_ok c" if "content_ok (content s)" for s :: "'a txs"
    using that by (intro exI [of _ "content s"]) simp
  then show ?thesis by (simp add: record_safe_def)
qed

section \<open>One field\<close>

lemma unat_available:
  "currentFieldPos s \<le> currentFieldLength s \<Longrightarrow>
   unat (min (commandLength s) (currentFieldLength s - currentFieldPos s)) = available s"
  by (simp add: available_def min_def unat_sub_le word_le_nat_alt)

text \<open>The common shape of the processors, after their checks.\<close>

definition copy_and_advance ::
  "'p tx_env \<Rightarrow> 'p store \<Rightarrow> ('p txs \<Rightarrow> 'p txs) \<Rightarrow> 'p txs \<Rightarrow> (bool \<times> 'p txs) option" where
  "copy_and_advance env out r s = do {
     (ok, s) \<leftarrow> copy_available env out s;
     if \<not> ok then Some (False, s) else Some (True, next_field r s) }"

text \<open>The state after the copy; \<open>s1\<close> is the state after the store.\<close>

lemma copied_post:
  assumes pre: "field_pre s" and rest: "tx_base s1" "record_safe Q (currentFieldLength s) r" "Q (content s1)"
    and s1: "s1 = s\<lparr>content := c, selector_bytes := sb, g_parked_calldata := cd, tx_mem := m\<rparr>"
    and len: "unat len = available s"
    and s2: "s2 = s1\<lparr>sha3 := sha3 s @ (if fieldSingleByte s then [] else take (unat len) (drop (workPos s) (payload s))),
      workPos := workPos s + unat len, commandLength := commandLength s - len,
      currentFieldPos := currentFieldPos s + len\<rparr>"
  shows "field_post s (next_field r s2)"
proof -
  have le: "unat (currentFieldPos s) \<le> unat (currentFieldLength s)"
    using pre by (simp add: field_pre_def word_le_nat_alt)
  have av: "available s \<le> unat (commandLength s)" "unat (currentFieldPos s) + available s \<le> unat (currentFieldLength s)"
    using le by (auto simp: available_def)
  have cl: "unat (commandLength s - len) = unat (commandLength s) - available s"
    using av len by (simp add: unat_sub_le word_le_nat_alt)
  have "unat (currentFieldPos s) + unat len < 2 ^ 32"
    using av len unsigned_less [where ?'a = nat, of "currentFieldLength s"] by simp
  then have pos: "unat (currentFieldPos s + len) = unat (currentFieldPos s) + available s"
    using len by (simp add: unat_word_ariths)
  have base2: "tx_base s2" using rest(1) s1 s2 cl av len by (simp add: tx_base_def)
  have cons: "consumed (available s) s s2" using s1 s2 cl av len by (simp add: consumed_def)
  have proc2: "processingField s2" "currentField s2 = currentField s" "currentFieldLength s2 = currentFieldLength s"
    using pre s1 s2 by (simp_all add: field_pre_def)
  show ?thesis
  proof (cases "unat (currentFieldPos s) + available s = unat (currentFieldLength s)")
    case True
    then have fin: "currentFieldPos s2 = currentFieldLength s2"
      using pos s1 s2 by (simp add: word_unat_eq_iff)
    have "Q (content s2)" "content_ok (content s2)" using rest s1 s2 base2 by (auto simp: tx_base_def)
    then obtain c' where c': "r s2 = s2\<lparr>content := c'\<rparr>" "content_ok c'"
      using record_safeD [OF rest(2)] proc2(3) by blast
    show ?thesis
      using True fin c' base2 cons proc2 by (simp add: next_field_def field_post_def tx_base_def consumed_def)
  next
    case False
    then have nf: "currentFieldPos s2 \<noteq> currentFieldLength s2"
      using pos s1 s2 by (simp add: word_unat_eq_iff)
    then show ?thesis
      using False pos base2 cons proc2 s1 s2 by (simp add: next_field_def field_post_def)
  qed
qed

lemma copy_and_advance_post:
  assumes pre: "field_pre s" and Q: "Q (content s)"
    and store: "case out of None \<Rightarrow> True | Some st \<Rightarrow> store_safe Q M st"
    and rec: "record_safe Q (currentFieldLength s) r" and len: "unat (currentFieldLength s) \<le> M"
  shows "\<exists>ok s'. copy_and_advance env out r s = Some (ok, s') \<and> (ok \<longrightarrow> field_post s s')"
proof (cases "currentFieldPos s < currentFieldLength s")
  case False
  then have eq: "currentFieldPos s = currentFieldLength s" using pre by (auto simp: field_pre_def)
  have av: "available s = 0" using eq by (simp add: available_def)
  let ?s2 = "s\<lparr>sha3 := sha3 s @ (if fieldSingleByte s then [] else take (unat (0::uint32)) (drop (workPos s) (payload s))),
      workPos := workPos s + unat (0::uint32), commandLength := commandLength s - 0,
      currentFieldPos := currentFieldPos s + 0\<rparr>"
  have s2: "?s2 = s" by simp
  have s1: "s = s\<lparr>content := content s, selector_bytes := selector_bytes s, g_parked_calldata := g_parked_calldata s, tx_mem := tx_mem s\<rparr>"
    by simp
  have av': "unat (0::uint32) = available s" using av by simp
  have base: "tx_base s" using pre by (simp add: field_pre_def)
  have "field_post s (next_field r ?s2)"
    by (rule copied_post [OF pre base rec Q s1 av' refl])
  then have "field_post s (next_field r s)" unfolding s2 .
  moreover have "copy_and_advance env out r s = Some (True, next_field r s)"
    using False by (simp add: copy_and_advance_def copy_available_def)
  ultimately show ?thesis by blast
next
  case True
  let ?len = "min (commandLength s) (currentFieldLength s - currentFieldPos s)"
  let ?xs = "take (unat ?len) (drop (workPos s) (payload s))"
  have base: "tx_base s" and le: "currentFieldPos s \<le> currentFieldLength s" and pr: "processingField s"
    using pre by (auto simp: field_pre_def)
  have av: "unat ?len = available s" by (rule unat_available [OF le])
  have "length ?xs \<le> available s" by (simp add: av)
  moreover have "available s \<le> unat (currentFieldLength s) - unat (currentFieldPos s)" by (simp add: available_def)
  moreover have "unat (currentFieldPos s) \<le> unat (currentFieldLength s)" using le by (simp add: word_le_nat_alt)
  ultimately have bound: "unat (currentFieldPos s) + length ?xs \<le> M" using len by linarith
  obtain c where c: "case out of None \<Rightarrow> s\<lparr>content := c\<rparr> = s | Some st \<Rightarrow> st ?xs s = Some (s\<lparr>content := c\<rparr>)"
    "content_ok c" "Q c"
  proof (cases out)
    case None
    then show ?thesis using that [of "content s"] base Q by (simp add: tx_base_def)
  next
    case (Some st)
    then show ?thesis
      using that store_safeD [of Q M st s ?xs] store base Q bound by (auto simp: tx_base_def)
  qed
  let ?s1 = "s\<lparr>content := c\<rparr>"
  have s1a: "?s1 = s\<lparr>content := c, tk_data := tk_data s\<rparr>" by simp
  have s1b: "?s1 = s\<lparr>content := c, selector_bytes := selector_bytes s, g_parked_calldata := g_parked_calldata s, tx_mem := tx_mem s\<rparr>"
    by simp
  let ?s2 = "?s1\<lparr>sha3 := sha3 s @ (if fieldSingleByte s then [] else ?xs), workPos := workPos s + unat ?len,
      commandLength := commandLength s - ?len, currentFieldPos := currentFieldPos s + ?len\<rparr>"
  have "copy_tx_data env out ?len s = Some (False, ?s1) \<or> copy_tx_data env out ?len s = Some (True, ?s2)"
    by (rule copy_tx_data_cases [OF _ pr _ _ s1a])
      (use base c av in \<open>auto simp: tx_base_def available_def split: option.splits\<close>)
  moreover have "field_post s (next_field r ?s2)"
    by (rule copied_post [OF pre _ rec _ s1b av refl]) (use base c in \<open>auto intro: tx_base_content\<close>)
  ultimately show ?thesis using True by (auto simp: copy_and_advance_def copy_available_def)
qed

section \<open>The processors\<close>

lemma check_fields_length: "check_fields s len \<Longrightarrow> 0 < len \<Longrightarrow> unat (currentFieldLength s) \<le> unat len"
  by (auto simp: check_fields_def nat_cmp split: if_splits)

lemma record_safeI:
  assumes "\<And>s. r s = s\<lparr>content := f (currentFieldLength s) (content s)\<rparr>"
    and "\<And>c. content_ok c \<Longrightarrow> Q c \<Longrightarrow> content_ok (f len c)"
  shows "record_safe Q len r"
  using assms by (auto simp: record_safe_def)

lemma int256_record:
  "int256_ok n i \<Longrightarrow> unat len \<le> n \<Longrightarrow> n < 256 \<Longrightarrow> int256_ok n (i\<lparr>ilength := ucast (len :: uint32)\<rparr>)"
  by (simp add: int256_ok_def unat_ucast_32_8)

text \<open>Every processor is its checks followed by \<open>copy_and_advance\<close>.\<close>

lemma checked_processor:
  fixes s :: "'p txs"
  assumes "proc env s = Some (False, s) \<or> proc env s = copy_and_advance env out r s \<and> unat (currentFieldLength s) \<le> M
      \<and> Q (content s) \<and> (case out of None \<Rightarrow> True | Some st \<Rightarrow> store_safe Q M st) \<and> record_safe Q (currentFieldLength s) r"
    and "field_pre s"
  shows "\<exists>ok s'. proc env s = Some (ok, s') \<and> (ok \<longrightarrow> field_post s s')"
  using assms(1)
proof
  assume "proc env s = Some (False, s)"
  then show ?thesis by auto
next
  assume a: "proc env s = copy_and_advance env out r s \<and> unat (currentFieldLength s) \<le> M
      \<and> Q (content s) \<and> (case out of None \<Rightarrow> True | Some st \<Rightarrow> store_safe Q M st) \<and> record_safe Q (currentFieldLength s) r"
  then have "\<exists>ok s'. copy_and_advance env out r s = Some (ok, s') \<and> (ok \<longrightarrow> field_post s s')"
    by (intro copy_and_advance_post [where Q = Q and M = M, OF assms(2)]) simp_all
  then show ?thesis using a by simp
qed

interpretation discard: field_processor process_and_discard
proof
  fix s :: "'p txs" and env :: "'p tx_env"
  assume "field_pre s"
  then show "\<exists>ok s'. process_and_discard env s = Some (ok, s') \<and> (ok \<longrightarrow> field_post s s')"
    by (intro checked_processor [where out = None and r = "\<lambda>s. s" and M = "unat (currentFieldLength s)" and Q = any])
      (auto simp: process_and_discard_def copy_and_advance_def record_safe_id)
qed

interpretation access_list: field_processor process_access_list
proof
  fix s :: "'p txs" and env :: "'p tx_env"
  assume "field_pre s"
  then show "\<exists>ok s'. process_access_list env s = Some (ok, s') \<and> (ok \<longrightarrow> field_post s s')"
    by (intro checked_processor [where out = None and r = "\<lambda>s. s" and M = "unat (currentFieldLength s)" and Q = any])
      (auto simp: process_access_list_def copy_and_advance_def record_safe_id)
qed

interpretation auth_list: field_processor process_auth_list
proof
  fix s :: "'p txs" and env :: "'p tx_env"
  assume "field_pre s"
  then show "\<exists>ok s'. process_auth_list env s = Some (ok, s') \<and> (ok \<longrightarrow> field_post s s')"
    by (intro checked_processor [where out = None and r = "\<lambda>s. s" and M = "unat (currentFieldLength s)" and Q = any])
      (auto simp: process_auth_list_def copy_and_advance_def record_safe_id)
qed

lemma record_safe_chainID:
  "unat len \<le> 8 \<Longrightarrow> record_safe any len (\<lambda>s. s\<lparr>content := (content s)\<lparr>chainID :=
     (chainID (content s))\<lparr>ilength := ucast (currentFieldLength s)\<rparr>\<rparr>\<rparr>)"
  by (rule record_safeI [where f = "\<lambda>len c. c\<lparr>chainID := (chainID c)\<lparr>ilength := ucast len\<rparr>\<rparr>"])
    (auto simp: content_ok_def int256_record)

interpretation chain_id_f: field_processor process_chain_id
proof
  fix s :: "'p txs" and env :: "'p tx_env"
  assume pre: "field_pre s"
  have len: "unat (currentFieldLength s) \<le> 8" if "check_fields s 8"
    using check_fields_length [OF that] by simp
  show "\<exists>ok s'. process_chain_id env s = Some (ok, s') \<and> (ok \<longrightarrow> field_post s s')"
    by (rule checked_processor [where out = "Some store_chainID" and M = 32 and Q = any
            and r = "\<lambda>s. s\<lparr>content := (content s)\<lparr>chainID :=
     (chainID (content s))\<lparr>ilength := ucast (currentFieldLength s)\<rparr>\<rparr>\<rparr>", OF _ pre])
      (use len in \<open>auto simp: process_chain_id_def copy_and_advance_def store_safe_chainID record_safe_chainID dest: le_trans\<close>)
qed

lemma record_safe_tnonce:
  "unat len \<le> 32 \<Longrightarrow> record_safe any len (\<lambda>s. s\<lparr>content := (content s)\<lparr>tnonce :=
     (tnonce (content s))\<lparr>ilength := ucast (currentFieldLength s)\<rparr>\<rparr>\<rparr>)"
  by (rule record_safeI [where f = "\<lambda>len c. c\<lparr>tnonce := (tnonce c)\<lparr>ilength := ucast len\<rparr>\<rparr>"])
    (auto simp: content_ok_def int256_record)

interpretation nonce_f: field_processor process_nonce
proof
  fix s :: "'p txs" and env :: "'p tx_env"
  assume pre: "field_pre s"
  have len: "unat (currentFieldLength s) \<le> 32" if "check_fields s 32"
    using check_fields_length [OF that] by simp
  show "\<exists>ok s'. process_nonce env s = Some (ok, s') \<and> (ok \<longrightarrow> field_post s s')"
    by (rule checked_processor [where out = "Some store_nonce" and M = 32 and Q = any
            and r = "\<lambda>s. s\<lparr>content := (content s)\<lparr>tnonce :=
     (tnonce (content s))\<lparr>ilength := ucast (currentFieldLength s)\<rparr>\<rparr>\<rparr>", OF _ pre])
      (use len in \<open>auto simp: process_nonce_def copy_and_advance_def store_safe_nonce record_safe_tnonce dest: le_trans\<close>)
qed

lemma record_safe_startgas:
  "unat len \<le> 32 \<Longrightarrow> record_safe any len (\<lambda>s. s\<lparr>content := (content s)\<lparr>startgas :=
     (startgas (content s))\<lparr>ilength := ucast (currentFieldLength s)\<rparr>\<rparr>\<rparr>)"
  by (rule record_safeI [where f = "\<lambda>len c. c\<lparr>startgas := (startgas c)\<lparr>ilength := ucast len\<rparr>\<rparr>"])
    (auto simp: content_ok_def int256_record)

interpretation start_gas_f: field_processor process_start_gas
proof
  fix s :: "'p txs" and env :: "'p tx_env"
  assume pre: "field_pre s"
  have len: "unat (currentFieldLength s) \<le> 32" if "check_fields s 32"
    using check_fields_length [OF that] by simp
  show "\<exists>ok s'. process_start_gas env s = Some (ok, s') \<and> (ok \<longrightarrow> field_post s s')"
    by (rule checked_processor [where out = "Some store_startgas" and M = 32 and Q = any
            and r = "\<lambda>s. s\<lparr>content := (content s)\<lparr>startgas :=
     (startgas (content s))\<lparr>ilength := ucast (currentFieldLength s)\<rparr>\<rparr>\<rparr>", OF _ pre])
      (use len in \<open>auto simp: process_start_gas_def copy_and_advance_def store_safe_startgas record_safe_startgas dest: le_trans\<close>)
qed

lemma record_safe_gasprice:
  "unat len \<le> 32 \<Longrightarrow> record_safe any len (\<lambda>s. s\<lparr>content := (content s)\<lparr>gasprice :=
     (gasprice (content s))\<lparr>ilength := ucast (currentFieldLength s)\<rparr>\<rparr>\<rparr>)"
  by (rule record_safeI [where f = "\<lambda>len c. c\<lparr>gasprice := (gasprice c)\<lparr>ilength := ucast len\<rparr>\<rparr>"])
    (auto simp: content_ok_def int256_record)

interpretation gasprice_f: field_processor process_gasprice
proof
  fix s :: "'p txs" and env :: "'p tx_env"
  assume pre: "field_pre s"
  have len: "unat (currentFieldLength s) \<le> 32" if "check_fields s 32"
    using check_fields_length [OF that] by simp
  show "\<exists>ok s'. process_gasprice env s = Some (ok, s') \<and> (ok \<longrightarrow> field_post s s')"
    by (rule checked_processor [where out = "Some store_gasprice" and M = 32 and Q = any
            and r = "\<lambda>s. s\<lparr>content := (content s)\<lparr>gasprice :=
     (gasprice (content s))\<lparr>ilength := ucast (currentFieldLength s)\<rparr>\<rparr>\<rparr>", OF _ pre])
      (use len in \<open>auto simp: process_gasprice_def copy_and_advance_def store_safe_gasprice record_safe_gasprice dest: le_trans\<close>)
qed

lemma record_safe_tvalue:
  "unat len \<le> 32 \<Longrightarrow> record_safe any len (\<lambda>s. s\<lparr>content := (content s)\<lparr>tvalue :=
     (tvalue (content s))\<lparr>ilength := ucast (currentFieldLength s)\<rparr>\<rparr>\<rparr>)"
  by (rule record_safeI [where f = "\<lambda>len c. c\<lparr>tvalue := (tvalue c)\<lparr>ilength := ucast len\<rparr>\<rparr>"])
    (auto simp: content_ok_def int256_record)

interpretation value_f: field_processor process_value
proof
  fix s :: "'p txs" and env :: "'p tx_env"
  assume pre: "field_pre s"
  have len: "unat (currentFieldLength s) \<le> 32" if "check_fields s 32"
    using check_fields_length [OF that] by simp
  show "\<exists>ok s'. process_value env s = Some (ok, s') \<and> (ok \<longrightarrow> field_post s s')"
    by (rule checked_processor [where out = "Some store_value" and M = 32 and Q = any
            and r = "\<lambda>s. s\<lparr>content := (content s)\<lparr>tvalue :=
     (tvalue (content s))\<lparr>ilength := ucast (currentFieldLength s)\<rparr>\<rparr>\<rparr>", OF _ pre])
      (use len in \<open>auto simp: process_value_def copy_and_advance_def store_safe_value record_safe_tvalue dest: le_trans\<close>)
qed

interpretation gas_limit_f: field_processor process_gas_limit
  by unfold_locales (simp add: process_gas_limit_def start_gas_f.total)

lemma record_safe_destination:
  "len \<in> {0, 20} \<Longrightarrow> record_safe any len (\<lambda>s. s\<lparr>content := (content s)\<lparr>destinationLength :=
     ucast (currentFieldLength s)\<rparr>\<rparr>)"
  by (rule record_safeI [where f = "\<lambda>len c. c\<lparr>destinationLength := ucast len\<rparr>"])
    (auto simp: content_ok_def)

interpretation to_f: field_processor process_to
proof
  fix s :: "'p txs" and env :: "'p tx_env"
  assume pre: "field_pre s"
  have len: "unat (currentFieldLength s) \<le> 20" if "check_fields s 20"
    using check_fields_length [OF that] by simp
  show "\<exists>ok s'. process_to env s = Some (ok, s') \<and> (ok \<longrightarrow> field_post s s')"
    by (rule checked_processor [where out = "Some store_destination" and M = 20 and Q = any
            and r = "\<lambda>s. s\<lparr>content := (content s)\<lparr>destinationLength := ucast (currentFieldLength s)\<rparr>\<rparr>", OF _ pre])
      (use len in \<open>auto simp: process_to_def copy_and_advance_def store_safe_destination record_safe_destination\<close>)
qed

lemma record_safe_v:
  "unat len \<le> L \<Longrightarrow> L < 256 \<Longrightarrow> record_safe (\<lambda>c. length (v c) = L) len (\<lambda>s. s\<lparr>content := (content s)\<lparr>vLength :=
     ucast (currentFieldLength s)\<rparr>\<rparr>)"
  by (rule record_safeI [where f = "\<lambda>len c. c\<lparr>vLength := ucast len\<rparr>"])
    (auto simp: content_ok_def unat_ucast_32_8)

interpretation v_f: field_processor process_v
proof
  fix s :: "'p txs" and env :: "'p tx_env"
  assume pre: "field_pre s"
  let ?L = "length (v (content s))" and ?sz = "word_of_nat (length (v (content s))) :: uint32"
  have L: "0 < ?L" "?L < 256" using pre by (auto simp: field_pre_def tx_base_def content_ok_def)
  then have u: "unat ?sz = ?L" by (simp add: unat_of_nat)
  then have nz: "0 < ?sz" using L by (simp add: word_less_nat_alt)
  have len: "unat (currentFieldLength s) \<le> ?L" if "check_fields s ?sz"
    using check_fields_length [OF that nz] u by simp
  have le: "currentFieldPos s \<le> currentFieldLength s" using pre by (simp add: field_pre_def)
  have mn: "min (min (commandLength s) (currentFieldLength s - currentFieldPos s)) ?sz
      = min (commandLength s) (currentFieldLength s - currentFieldPos s)" if "check_fields s ?sz"
  proof (rule min.absorb1)
    have "available s \<le> unat (currentFieldLength s) - unat (currentFieldPos s)" by (simp add: available_def)
    then have "available s \<le> ?L" using len [OF that] by linarith
    then show "min (commandLength s) (currentFieldLength s - currentFieldPos s) \<le> ?sz"
      by (simp only: word_le_nat_alt unat_available [OF le] u)
  qed
  have eq: "process_v env s = (if \<not> check_fields s ?sz then Some (False, s)
      else copy_and_advance env (Some store_v) (\<lambda>s. s\<lparr>content := (content s)\<lparr>vLength := ucast (currentFieldLength s)\<rparr>\<rparr>) s)"
    using mn by (simp add: process_v_def copy_and_advance_def copy_available_def Let_def)
  show "\<exists>ok s'. process_v env s = Some (ok, s') \<and> (ok \<longrightarrow> field_post s s')"
    by (rule checked_processor [where out = "Some store_v" and M = ?L and Q = "\<lambda>c. length (v c) = ?L"
            and r = "\<lambda>s. s\<lparr>content := (content s)\<lparr>vLength := ucast (currentFieldLength s)\<rparr>\<rparr>", OF _ pre])
      (use eq len L in \<open>auto simp: store_safe_v record_safe_v\<close>)
qed

section \<open>The data field\<close>

text \<open>Storing calldata: the parked calldata stays well formed, and nothing else changes.\<close>

lemma store_data_total:
  assumes pre: "field_pre s" and pos: "currentFieldPos s < currentFieldLength s"
    and n: "unat n = available s"
  shows "\<exists>ok cd m. store_data n s = Some (ok, s\<lparr>g_parked_calldata := cd, tx_mem := m\<rparr>) \<and> (ok \<longrightarrow> parked_ok cd)"
proof -
  have base: "tx_base s" and w: "workPos s + unat (commandLength s) = length (payload s)" and pk: "parked_ok (g_parked_calldata s)"
    using pre by (auto simp: field_pre_def tx_base_def)
  have nle: "unat n \<le> unat (commandLength s)" using n by (simp add: available_def)
  have append: "\<exists>ok cd' m'. calldata_append cd m xs k = Some (ok, cd', m') \<and> (ok \<longrightarrow> parked_ok cd')"
    if "parked_ok cd" "k \<le> length xs" for cd m xs k
  proof (cases cd)
    case None
    then show ?thesis by (auto simp: calldata_append_def)
  next
    case (Some c)
    then have "calldata_inv c" "expected_size c < 2 ^ 32" using that by (auto simp: parked_ok_def)
    from calldata_append_correct [OF this(1) that(2) this(2), of m] show ?thesis
      using Some \<open>expected_size c < 2 ^ 32\<close> by (auto simp: parked_ok_def)
  qed
  show ?thesis
  proof (cases "currentFieldPos s = 0")
    case False
    have rd: "rd_n (payload s) (workPos s) (unat n) = Some (take (unat n) (drop (workPos s) (payload s)))"
      using w nle by (simp add: rd_n_def)
    from append [OF pk, of "unat n" "take (unat n) (drop (workPos s) (payload s))" "tx_mem s"]
    obtain ok cd' m' where a: "calldata_append (g_parked_calldata s) (tx_mem s) (take (unat n) (drop (workPos s) (payload s))) (unat n)
        = Some (ok, cd', m')" "ok \<longrightarrow> parked_ok cd'" using w nle by auto
    then show ?thesis using False rd by (auto simp: store_data_def)
  next
    case True
    show ?thesis
    proof (cases "n < 4")
      case lt: True
      then have "store_data n s = Some (False, s\<lparr>g_parked_calldata := g_parked_calldata s, tx_mem := tx_mem s\<rparr>)"
        using True by (simp add: store_data_def)
      then show ?thesis by blast
    next
      case ge: False
      then have n4: "4 \<le> unat n" by (simp add: nat_cmp not_less)
      let ?sel = "take 4 (drop (workPos s) (payload s))"
      have rd4: "rd_n (payload s) (workPos s) 4 = Some ?sel" using w nle n4 by (simp add: rd_n_def)
      have sel: "\<forall>x. Some ?sel = Some x \<longrightarrow> 4 \<le> length x" using w nle n4 by simp
      let ?sz = "unat (currentFieldLength s - 4)"
      have sz: "?sz < 2 ^ 32" using unsigned_less [where ?'a = nat, of "currentFieldLength s - 4"] by simp
      from sel show ?thesis
      proof (cases rule: calldata_init_correct [where sz = ?sz and m = "tx_mem s"])
        case (fail m')
        then have "store_data n s = Some (False, s\<lparr>g_parked_calldata := None, tx_mem := m'\<rparr>)"
          using True ge rd4 by (simp add: store_data_def)
        then show ?thesis by blast
      next
        case (ok cd m')
        have pk': "parked_ok (Some cd)" using ok sz by (simp add: parked_ok_def)
        have rd: "rd_n (payload s) (workPos s + 4) (unat n - 4) = Some (take (unat n - 4) (drop (workPos s + 4) (payload s)))"
          using w nle n4 by (simp add: rd_n_def)
        from append [OF pk', of "unat n - 4" "take (unat n - 4) (drop (workPos s + 4) (payload s))" m']
        obtain b cd' m'' where a: "calldata_append (Some cd) m' (take (unat n - 4) (drop (workPos s + 4) (payload s))) (unat n - 4)
            = Some (b, cd', m'')" "b \<longrightarrow> parked_ok cd'" using w nle n4 by auto
        have "store_data n s = Some (b, s\<lparr>g_parked_calldata := cd', tx_mem := m''\<rparr>)"
          using True ge rd4 ok rd a by (simp add: store_data_def)
        then show ?thesis using a(2) by blast
      qed
    qed
  qed
qed

interpretation data_f: field_processor process_data
proof
  fix s :: "'p txs" and env :: "'p tx_env"
  assume pre: "field_pre s"
  have base: "tx_base s" and le: "currentFieldPos s \<le> currentFieldLength s" and pr: "processingField s"
    using pre by (auto simp: field_pre_def)
  show "\<exists>ok s'. process_data env s = Some (ok, s') \<and> (ok \<longrightarrow> field_post s s')"
  proof (cases "check_fields s 0 \<and> currentFieldPos s < currentFieldLength s")
    case False
    then have "process_data env s = Some (False, s) \<or> process_data env s = copy_and_advance env None (\<lambda>s. s) s"
      by (auto simp: process_data_def copy_and_advance_def copy_available_def)
    then show ?thesis
      by (intro checked_processor [where out = None and r = "\<lambda>s. s" and M = "unat (currentFieldLength s)" and Q = any])
        (auto simp: record_safe_id pre)
  next
    case True
    let ?n = "min (commandLength s) (currentFieldLength s - currentFieldPos s)"
    let ?xs = "take (unat ?n) (drop (workPos s) (payload s))"
    have av: "unat ?n = available s" by (rule unat_available [OF le])
    have w: "workPos s + unat (commandLength s) = length (payload s)" using base by (simp add: tx_base_def)
    have nle: "unat ?n \<le> unat (commandLength s)" using av by (simp add: available_def)
    have n4: "4 \<le> unat ?n" if "4 \<le> ?n" using that by (simp only: word_le_nat_alt unat_numeral) simp
    have rd4: "rd_n (payload s) (workPos s) 4 = Some (take 4 (drop (workPos s) (payload s)))
        \<and> length (take 4 (drop (workPos s) (payload s))) = 4" if "4 \<le> ?n"
      using w nle n4 [OF that] by (simp add: rd_n_def)
    define sb where "sb = (if currentFieldPos s = 0 \<and> 4 \<le> ?n then take 4 (drop (workPos s) (payload s)) else selector_bytes s)"
    have sb: "(if currentFieldPos s = 0 \<and> 4 \<le> ?n
         then do { sel \<leftarrow> rd_n (payload s) (workPos s) 4; Some (s\<lparr>selector_bytes := sel\<rparr>) } else Some s)
         = Some (s\<lparr>selector_bytes := sb\<rparr>)"
      using rd4 unfolding sb_def by (cases "currentFieldPos s = 0 \<and> 4 \<le> ?n"; simp only: if_True if_False) simp_all
    have lsb: "length sb = 4"
      using rd4 base unfolding sb_def
      by (cases "currentFieldPos s = 0 \<and> 4 \<le> ?n"; simp only: if_True if_False) (simp_all add: tx_base_def)
    let ?sb = "s\<lparr>selector_bytes := sb\<rparr>"
    have pre': "field_pre ?sb" using pre lsb by (simp add: field_pre_def tx_base_def)
    have av': "unat ?n = available ?sb" using av by (simp add: available_def)
    obtain ok cd m where sd: "(if store_calldata ?sb then store_data ?n ?sb else Some (True, ?sb))
        = Some (ok, ?sb\<lparr>g_parked_calldata := cd, tx_mem := m\<rparr>)" "ok \<longrightarrow> parked_ok cd"
    proof (cases "store_calldata s")
      case st: True
      then show ?thesis using that store_data_total [OF pre' _ av'] True by auto
    next
      case False
      then show ?thesis using that [of True "tx_mem s" "g_parked_calldata s"] base by (simp add: tx_base_def)
    qed
    let ?s1 = "s\<lparr>selector_bytes := sb, g_parked_calldata := cd, tx_mem := m\<rparr>"
    have unf: "process_data env s = (if \<not> ok then Some (False, ?s1)
        else do { (ok, s) \<leftarrow> copy_tx_data env None ?n ?s1; if \<not> ok then Some (False, s) else Some (True, next_field (\<lambda>s. s) s) })"
      using True sb sd(1) by (simp add: process_data_def Let_def)
    show ?thesis
    proof (cases ok)
      case False
      then show ?thesis using unf by auto
    next
      case ok: True
      have base1: "tx_base ?s1" using base lsb sd(2) ok by (simp add: tx_base_def)
      let ?s2 = "?s1\<lparr>sha3 := sha3 s @ (if fieldSingleByte s then [] else ?xs), workPos := workPos s + unat ?n,
          commandLength := commandLength s - ?n, currentFieldPos := currentFieldPos s + ?n\<rparr>"
      have "copy_tx_data env None ?n ?s1 = Some (False, ?s1) \<or> copy_tx_data env None ?n ?s1 = Some (True, ?s2)"
        using copy_tx_data_cases [where s = ?s1 and len = ?n and out = None and ?s1.0 = ?s1 and c = "content s" and d = "tk_data s" and env = env] w pr nle
        by (simp cong: if_cong)
      moreover have "field_post s (next_field (\<lambda>s. s) ?s2)"
        by (rule copied_post [where Q = any and c = "content s", OF pre base1 record_safe_id _ _ av refl]) simp_all
      ultimately show ?thesis using unf ok by auto
    qed
  qed
qed

section \<open>The dispatch\<close>

text \<open>\<open>process_content\<close> enters the list: it consumes nothing.\<close>

lemma process_content_post:
  assumes "field_pre s" "process_content s = (True, s')"
  shows "tx_inv s'" "consumed 0 s s'" "\<not> processingField s'" "\<not> fieldSingleByte s"
  using assms by (auto simp: process_content_def check_empty_list_def field_pre_def tx_inv_def tx_base_def
      consumed_def split: if_splits)

text \<open>The result of processing one field, whichever it is: the invariant of the loop holds
  again, \<open>n\<close> bytes were consumed, and the loop got ahead.\<close>

definition field_result :: "'p txs \<Rightarrow> (bool \<times> 'p txs) option \<Rightarrow> bool" where
  "field_result s res \<longleftrightarrow> (\<exists>ok s'. res = Some (ok, s') \<and>
     (ok \<longrightarrow> tx_inv s' \<and> (\<exists>n. consumed n s s' \<and>
        (fieldSingleByte s \<and> currentFieldPos s = 0 \<longrightarrow> n = 1 \<and> \<not> processingField s') \<and>
        (0 < commandLength s \<and> currentFieldPos s < currentFieldLength s \<longrightarrow> 0 < n \<or> \<not> processingField s'))))"

lemma field_result_content: "field_pre s \<Longrightarrow> field_result s (Some (process_content s))"
proof (cases "process_content s")
  case (Pair ok s')
  assume pre: "field_pre s"
  then show ?thesis
    using Pair process_content_post [OF pre, of s'] by (cases ok) (auto simp: field_result_def)
qed

context field_processor
begin

lemma field_result: "field_pre s \<Longrightarrow> field_result s (proc env s)"
proof -
  assume pre: "field_pre s"
  obtain ok s' where res: "proc env s = Some (ok, s')" using total [OF pre] by blast
  show ?thesis
  proof (cases ok)
    case False
    then show ?thesis using res unfolding field_result_def by auto
  next
    case True
    then have r: "proc env s = Some (True, s')" using res by simp
    note p = post [OF pre r]
    have "available s = 1 \<and> \<not> processingField s'" if "fieldSingleByte s" "currentFieldPos s = 0"
    proof -
      have "currentFieldLength s = 1" "0 < unat (commandLength s)"
        using pre that(1) by (auto simp: field_pre_def word_less_nat_alt)
      then have "available s = 1" using that(2) by (simp add: available_def)
      then show ?thesis using p that(2) \<open>currentFieldLength s = 1\<close> by (simp add: field_post_def)
    qed
    moreover have "0 < available s" if "0 < commandLength s" "currentFieldPos s < currentFieldLength s"
      using that by (simp add: available_def word_less_nat_alt)
    ultimately show ?thesis using res True inv [OF pre r] p
      unfolding field_result_def field_post_def by blast
  qed
qed

end

lemmas field_results = field_result_content discard.field_result access_list.field_result auth_list.field_result
  chain_id_f.field_result nonce_f.field_result start_gas_f.field_result gasprice_f.field_result
  value_f.field_result gas_limit_f.field_result to_f.field_result v_f.field_result data_f.field_result

lemma field_result_error: "field_result s (Some (False, s))"
  unfolding field_result_def by auto

lemma process_field_result: "field_pre s \<Longrightarrow> field_result s (process_field env s)"
  by (simp add: process_field_def process_legacy_tx_def process_eip2930_tx_def process_eip1559_tx_def
      process_eip7702_tx_def Let_def field_results field_result_error)

end
