(* ===== verification/Ustream_Header.thy ===== *)
theory Ustream_Header
  imports Ustream_Proofs
begin

text \<open>
  The streaming parser reads item headers byte by byte, over as many APDUs as it takes.  This
  theory shows that \<open>parse_rlp\<close> returns, stays inside of its five-byte buffer, leaves a state
  in which a field processor may run, and that the hash absorbs the header bytes.
\<close>

section \<open>Item headers\<close>

text \<open>\<open>k\<close> bytes of headers were read; nothing but the header buffer has changed.\<close>

definition header_read :: "nat \<Rightarrow> 'p txs \<Rightarrow> 'p txs \<Rightarrow> bool" where
  "header_read k s s' \<longleftrightarrow> k \<le> unat (commandLength s) \<and> length (rlpBuffer s') = 5 \<and>
     s' = s\<lparr>rlpBuffer := rlpBuffer s', rlpBufferPos := rlpBufferPos s', workPos := workPos s + k,
            commandLength := commandLength s - word_of_nat k,
            sha3 := sha3 s @ take k (drop (workPos s) (payload s))\<rparr>"

definition header_inv :: "'p txs \<Rightarrow> bool" where
  "header_inv s \<longleftrightarrow> \<not> processingField s \<and> length (rlpBuffer s) = 5 \<and> unat (rlpBufferPos s) \<le> 4
     \<and> workPos s + unat (commandLength s) = length (payload s)"

lemma read_header_byte:
  assumes "header_inv s" "commandLength s \<noteq> 0"
  shows "read_tx_byte env (s\<lparr>rlpBufferPos := p\<rparr>) =
     (let b = payload s ! workPos s; s1 = s\<lparr>rlpBufferPos := p, workPos := workPos s + 1, commandLength := commandLength s - 1\<rparr>
      in if env_hash_ok env (sha3 s) [b] then Some (Some b, s1\<lparr>sha3 := sha3 s @ [b]\<rparr>) else Some (None, s1))"
proof -
  have "0 < unat (commandLength s)" using assms(2) by (simp add: unat_gt_0)
  then have "workPos s < length (payload s)" using assms(1) by (simp add: header_inv_def)
  moreover have "check_cmd_length (s\<lparr>rlpBufferPos := p\<rparr>) 1"
    using assms(2) by (simp add: check_cmd_length_def)
  ultimately show ?thesis using assms(1)
    by (simp add: read_tx_byte_def rd_def absorb_def header_inv_def Let_def)
qed

lemma take_Suc_drop:
  "i < length xs \<Longrightarrow> take (Suc k) (drop i xs) = (xs ! i) # take k (drop (Suc i) xs)"
  by (simp add: Cons_nth_drop_Suc [symmetric])

lemma header_read_step:
  assumes inv: "header_inv s" and nz: "commandLength s \<noteq> 0" and len: "length buf = 5"
    and s1: "s1 = s\<lparr>rlpBufferPos := p, workPos := workPos s + 1, commandLength := commandLength s - 1,
                  sha3 := sha3 s @ [payload s ! workPos s], rlpBuffer := buf\<rparr>"
    and rest: "header_read k s1 s'"
  shows "header_read (Suc k) s s'"
proof -
  have pos: "0 < unat (commandLength s)" using nz by (simp add: unat_gt_0)
  then have lt: "workPos s < length (payload s)" using inv by (simp add: header_inv_def)
  have c1: "unat (commandLength s - 1) = unat (commandLength s) - 1"
    using pos by (simp add: unat_sub_le word_le_nat_alt)
  have "Suc k \<le> unat (commandLength s)" using rest pos c1 unfolding header_read_def s1 by simp linarith
  then show ?thesis
    using rest take_Suc_drop [OF lt, of k] unfolding header_read_def s1
    by (simp add: diff_diff_eq)
qed

lemma header_read_0: "length (rlpBuffer s) = 5 \<Longrightarrow> header_read 0 s s"
  by (simp add: header_read_def)

text \<open>The loop returns; a decodable header is complete and supported.\<close>

lemma parse_rlp_loop_total:
  assumes "header_inv s"
  shows "\<exists>st s' k. parse_rlp_loop env s = Some (st, s') \<and> (st \<noteq> USTREAM_FAULT \<longrightarrow> header_read k s s' \<and>
     (if st = USTREAM_CONTINUE
      then 0 < k \<and> 0 < unat (rlpBufferPos s') \<and> unat (rlpBufferPos s') \<le> 5
           \<and> rlp_len_len (hd (rlpBuffer s')) < unat (rlpBufferPos s') \<and> rlp_len_len (hd (rlpBuffer s')) \<le> 4
      else st = USTREAM_PROCESSING \<and> k = unat (commandLength s) \<and> unat (rlpBufferPos s') \<le> 4))"
  using assms
proof (induction "unat (commandLength s)" arbitrary: s rule: less_induct)
  case less
  note inv = less.prems
  show ?case
  proof (cases "commandLength s = 0")
    case True
    then have "parse_rlp_loop env s = Some (USTREAM_PROCESSING, s)" by (subst parse_rlp_loop.simps) simp
    then show ?thesis using inv True by (auto simp: header_inv_def header_read_0)
  next
    case False
    let ?b = "payload s ! workPos s" and ?i = "unat (rlpBufferPos s)"
    let ?buf = "(rlpBuffer s)[?i := ?b]"
    let ?s1 = "s\<lparr>rlpBufferPos := rlpBufferPos s + 1, workPos := workPos s + 1, commandLength := commandLength s - 1\<rparr>"
    let ?s2 = "?s1\<lparr>sha3 := sha3 s @ [?b]\<rparr>"
    let ?s3 = "?s2\<lparr>rlpBuffer := ?buf\<rparr>"
    have pos: "0 < unat (commandLength s)" using False by (simp add: unat_gt_0)
    have i: "?i \<le> 4" "length (rlpBuffer s) = 5" using inv by (auto simp: header_inv_def)
    have u1: "unat (rlpBufferPos s + 1) = ?i + 1" using unat_plus_one [of "rlpBufferPos s" 5] i by simp
    have c1: "unat (commandLength s - 1) = unat (commandLength s) - 1"
      using pos by (simp add: unat_sub_le word_le_nat_alt)
    have rdb: "read_tx_byte env (s\<lparr>rlpBufferPos := rlpBufferPos s + 1\<rparr>) =
        (if env_hash_ok env (sha3 s) [?b] then Some (Some ?b, ?s2) else Some (None, ?s1))"
      by (simp add: read_header_byte [OF inv False] Let_def)
    have can: "rlp_can_decode (Some ?buf) (rlpBufferPos s + 1) (Some False) =
       (if rlp_len_len (hd ?buf) < ?i + 1 then Some (True, Some (rlp_len_len (hd ?buf) \<le> 4)) else Some (False, Some False))"
      using rlp_can_decode_correct [of "rlpBufferPos s + 1" ?buf False] u1 i by simp
    have wr: "wr (rlpBuffer s) ?i ?b = Some ?buf" using i by (simp add: wr_def)
    show ?thesis
    proof (cases "env_hash_ok env (sha3 s) [?b]")
      case bad: False
      then have "parse_rlp_loop env s = Some (USTREAM_FAULT, ?s1)"
        using False rdb by (subst parse_rlp_loop.simps) simp
      then show ?thesis by blast
    next
      case ok: True
      have hr1: "header_read 1 s ?s3"
        using header_read_step [OF inv False _ _ header_read_0 [of ?s3], of ?buf "rlpBufferPos s + 1"] i by simp
      show ?thesis
      proof (cases "rlp_len_len (hd ?buf) < ?i + 1")
        case dec: True
        then have "parse_rlp_loop env s =
            Some (if rlp_len_len (hd ?buf) \<le> 4 then USTREAM_CONTINUE else USTREAM_FAULT, ?s3)"
          using False rdb ok wr can by (subst parse_rlp_loop.simps) simp
        then show ?thesis using dec hr1 u1 i by (intro exI [of _ 1] exI) auto
      next
        case more: False
        show ?thesis
        proof (cases "rlpBufferPos s + 1 = 5")
          case True
          then have "parse_rlp_loop env s = Some (USTREAM_FAULT, ?s3)"
            using False rdb ok wr can more by (subst parse_rlp_loop.simps) simp
          then show ?thesis by blast
        next
          case lt5: False
          then have "?i + 1 \<noteq> 5" using u1 word_unat_eq_iff [of "rlpBufferPos s + 1" 5] by simp
          then have inv3: "header_inv ?s3" using inv u1 i c1 pos by (auto simp: header_inv_def)
          have "parse_rlp_loop env s = parse_rlp_loop env ?s3"
            using False rdb ok wr can more lt5 by (subst parse_rlp_loop.simps) simp
          moreover have "unat (commandLength ?s3) < unat (commandLength s)" using c1 pos by simp
          ultimately obtain st s' k where IH: "parse_rlp_loop env s = Some (st, s')"
            "st \<noteq> USTREAM_FAULT \<longrightarrow> header_read k ?s3 s' \<and>
               (if st = USTREAM_CONTINUE
                then 0 < k \<and> 0 < unat (rlpBufferPos s') \<and> unat (rlpBufferPos s') \<le> 5
                     \<and> rlp_len_len (hd (rlpBuffer s')) < unat (rlpBufferPos s') \<and> rlp_len_len (hd (rlpBuffer s')) \<le> 4
                else st = USTREAM_PROCESSING \<and> k = unat (commandLength ?s3) \<and> unat (rlpBufferPos s') \<le> 4)"
            using less.hyps [OF _ inv3] by metis
          have "header_read (Suc k) s s'" if "header_read k ?s3 s'"
            by (rule header_read_step [OF inv False _ _ that, of ?buf "rlpBufferPos s + 1"]) (use i in simp_all)
          moreover have "Suc (unat (commandLength s - 1)) = unat (commandLength s)" using c1 pos by simp
          ultimately show ?thesis using IH
            by (intro exI [of _ st] exI [of _ s'] exI [of _ "Suc k"]) (auto split: if_splits)
        qed
      qed
    qed
  qed
qed

section \<open>The hash follows the payload\<close>

text \<open>The position in the payload up to which the hash has absorbed it: a self-encoded byte is
  absorbed as a header and then put back.\<close>

definition hash_pos :: "'p txs \<Rightarrow> nat" where
  "hash_pos s = workPos s + (if processingField s \<and> fieldSingleByte s then 1 else 0)"

definition absorbed :: "'p txs \<Rightarrow> 'p txs \<Rightarrow> bool" where
  "absorbed s s' \<longleftrightarrow> payload s' = payload s \<and> store_calldata s' = store_calldata s \<and> tx_appState s' = tx_appState s
     \<and> hash_pos s \<le> hash_pos s' \<and> hash_pos s' \<le> length (payload s)
     \<and> sha3 s' = sha3 s @ take (hash_pos s' - hash_pos s) (drop (hash_pos s) (payload s))"

lemma absorbed_refl: "hash_pos s \<le> length (payload s) \<Longrightarrow> absorbed s s"
  by (simp add: absorbed_def)

lemma absorbed_trans:
  assumes "absorbed s s'" "absorbed s' s''"
  shows "absorbed s s''"
proof -
  let ?p = "payload s" and ?a = "hash_pos s" and ?b = "hash_pos s'" and ?c = "hash_pos s''"
  have le: "?a \<le> ?b" "?b \<le> ?c" using assms by (auto simp: absorbed_def)
  have "take (?c - ?a) (drop ?a ?p) = take (?b - ?a) (drop ?a ?p) @ take (?c - ?b) (drop ?b ?p)"
    using take_add [of "?b - ?a" "?c - ?b" "drop ?a ?p"] le by simp
  then show ?thesis using assms le by (simp add: absorbed_def)
qed

lemma consumed_absorbed:
  assumes c: "consumed n s s'" and base: "workPos s + unat (commandLength s) = length (payload s)"
    and fs: "fieldSingleByte s \<and> processingField s \<longrightarrow> n = 1 \<and> \<not> processingField s' \<or> n = 0 \<and> processingField s'"
    and p: "processingField s \<or> \<not> fieldSingleByte s" and h: "hash_pos s \<le> length (payload s)"
  shows "absorbed s s'"
  using c base fs p h by (auto simp: consumed_def absorbed_def hash_pos_def)

section \<open>One header\<close>

definition header_done :: "'p txs \<Rightarrow> 'p txs \<Rightarrow> bool" where
  "header_done s s' \<longleftrightarrow> field_pre s' \<and> currentFieldPos s' = 0 \<and> absorbed s s'
     \<and> unat (commandLength s') \<le> unat (commandLength s)
     \<and> (\<not> fieldSingleByte s' \<longrightarrow> unat (commandLength s') < unat (commandLength s))"

lemma unat_sub_of_nat: "k \<le> unat (c :: uint32) \<Longrightarrow> unat (c - word_of_nat k) = unat c - k"
proof -
  assume k: "k \<le> unat c"
  then have "k < 2 ^ 32" using unsigned_less [where ?'a = nat, of c] by simp
  then have "unat (word_of_nat k :: uint32) = k" by (simp add: unat_of_nat)
  then show "unat (c - word_of_nat k) = unat c - k" using k by (simp add: unat_sub_le word_le_nat_alt)
qed

lemma header_read_base:
  assumes "header_read k s s'" "tx_base s"
  shows "tx_base s'"
proof -
  obtain b q where s': "s' = s\<lparr>rlpBuffer := b, rlpBufferPos := q, workPos := workPos s + k,
            commandLength := commandLength s - word_of_nat k,
            sha3 := sha3 s @ take k (drop (workPos s) (payload s))\<rparr>" and b: "length b = 5" and k: "k \<le> unat (commandLength s)"
    using assms(1) unfolding header_read_def by metis
  show ?thesis using assms(2) b k by (auto simp: s' tx_base_def unat_sub_of_nat)
qed

lemma header_read_absorbed:
  assumes "header_read k s s'" "\<not> processingField s" "workPos s + unat (commandLength s) = length (payload s)"
  shows "absorbed s s'" "unat (commandLength s') = unat (commandLength s) - k" "workPos s' = workPos s + k"
    "\<not> processingField s'"
proof -
  obtain b q where s': "s' = s\<lparr>rlpBuffer := b, rlpBufferPos := q, workPos := workPos s + k,
            commandLength := commandLength s - word_of_nat k,
            sha3 := sha3 s @ take k (drop (workPos s) (payload s))\<rparr>" and k: "k \<le> unat (commandLength s)"
    using assms(1) unfolding header_read_def by metis
  show "absorbed s s'" "unat (commandLength s') = unat (commandLength s) - k" "workPos s' = workPos s + k"
    "\<not> processingField s'"
    using assms(2,3) k by (simp_all add: s' absorbed_def hash_pos_def unat_sub_of_nat)
qed

text \<open>A byte that is its own encoding is put back.\<close>

lemma put_back:
  assumes base: "tx_base s" and wp: "0 < workPos s" and np: "\<not> processingField s" and len: "length (payload s) < 2 ^ 32"
    and s': "s' = s\<lparr>currentFieldLength := 1, currentFieldIsList := False, workPos := workPos s - 1,
      commandLength := commandLength s + 1, fieldSingleByte := True, currentFieldPos := 0, rlpBufferPos := 0,
      processingField := True\<rparr>"
  shows "field_pre s'" "unat (commandLength s') = unat (commandLength s) + 1" "hash_pos s' = hash_pos s"
proof -
  have "unat (commandLength s) + 1 < 2 ^ 32" using base wp len by (auto simp: tx_base_def)
  then have u: "unat (commandLength s + 1) = unat (commandLength s) + 1" by (simp add: unat_word_ariths)
  then show "unat (commandLength s') = unat (commandLength s) + 1" by (simp add: s')
  show "hash_pos s' = hash_pos s" using wp np by (simp add: s' hash_pos_def)
  show "field_pre s'" using base wp u by (auto simp: s' field_pre_def tx_base_def word_less_nat_alt)
qed

lemma parse_rlp_total:
  assumes inv: "tx_inv s" and np: "\<not> processingField s" and len: "length (payload s) < 2 ^ 32"
  shows "\<exists>st s'. parse_rlp env s = Some (st, s') \<and> (st = USTREAM_CONTINUE \<longrightarrow> header_done s s') \<and>
     (st = USTREAM_PROCESSING \<longrightarrow> tx_inv s' \<and> absorbed s s' \<and> commandLength s' = 0) \<and>
     st \<in> {USTREAM_CONTINUE, USTREAM_PROCESSING, USTREAM_FAULT}"
proof -
  have base: "tx_base s" and w: "workPos s + unat (commandLength s) = length (payload s)"
    using inv by (auto simp: tx_inv_def tx_base_def)
  have "header_inv s" using inv np by (auto simp: tx_inv_def tx_base_def header_inv_def)
  from parse_rlp_loop_total [OF this, of env] obtain st s1 k where
    loop: "parse_rlp_loop env s = Some (st, s1)"
    and ok: "st \<noteq> USTREAM_FAULT \<Longrightarrow> header_read k s s1"
    and cont: "st = USTREAM_CONTINUE \<Longrightarrow> 0 < k \<and> 0 < unat (rlpBufferPos s1) \<and> unat (rlpBufferPos s1) \<le> 5
           \<and> rlp_len_len (hd (rlpBuffer s1)) < unat (rlpBufferPos s1) \<and> rlp_len_len (hd (rlpBuffer s1)) \<le> 4"
    and other: "st \<noteq> USTREAM_FAULT \<Longrightarrow> st \<noteq> USTREAM_CONTINUE \<Longrightarrow>
           st = USTREAM_PROCESSING \<and> k = unat (commandLength s) \<and> unat (rlpBufferPos s1) \<le> 4"
    by (metis parserStatus.distinct)
  show ?thesis
  proof (cases "st = USTREAM_CONTINUE")
    case False
    then have res: "parse_rlp env s = Some (st, s1)" using loop by (simp add: parse_rlp_def)
    show ?thesis
    proof (cases "st = USTREAM_FAULT")
      case True
      then show ?thesis using res by simp
    next
      case nf: False
      note hr = ok [OF nf]
      have "tx_inv s1" using header_read_base [OF hr base] header_read_absorbed [OF hr np w] other [OF nf False]
        by (auto simp: tx_inv_def)
      moreover have "commandLength s1 = 0"
        using header_read_absorbed(2) [OF hr np w] other [OF nf False] by (simp add: word_unat_eq_iff)
      ultimately show ?thesis using res other [OF nf False] header_read_absorbed(1) [OF hr np w] by auto
    qed
  next
    case True
    then have hr: "header_read k s s1" using ok by simp
    note a = header_read_absorbed [OF hr np w] and b1 = header_read_base [OF hr base] and c = cont [OF True]
    let ?b = "hd (rlpBuffer s1)" and ?f = "\<lparr>fieldLength = currentFieldLength s1, fieldOffset = 0, fieldIsList = currentFieldIsList s1\<rparr>"
    let ?off = "word_of_nat (if ?b \<le> 0x7f then 0 else 1 + rlp_len_len ?b) :: uint32"
    have l5: "length (rlpBuffer s1) = 5" using b1 by (simp add: tx_base_def)
    have dec: "rlp_decode_length (rlpBuffer s1) (rlpBufferPos s1) ?f = Some (True, ?f\<lparr>
        fieldLength := word_of_nat (rlp_payload_length (rlpBuffer s1)), fieldOffset := ?off,
        fieldIsList := rlp_first_is_list ?b\<rparr>)"
      using c l5 by (intro rlp_decode_length_correct) auto
    have k: "0 < k" "k \<le> unat (commandLength s)" using c hr by (auto simp: header_read_def)
    have off: "?off = 0 \<longleftrightarrow> ?b \<le> 0x7f"
      using c by (auto simp: word_unat_eq_iff unat_of_nat)
    show ?thesis
    proof (cases "?b \<le> 0x7f")
      case single: True
      let ?s' = "s1\<lparr>currentFieldLength := 1, currentFieldIsList := False, workPos := workPos s1 - 1,
        commandLength := commandLength s1 + 1, fieldSingleByte := True, currentFieldPos := 0, rlpBufferPos := 0,
        processingField := True\<rparr>"
      have il: "\<not> rlp_first_is_list ?b" using single by (simp add: rlp_first_is_list_def nat_cmp)
      have wp: "0 < workPos s1" using a k by simp
      have pl: "payload s1 = payload s" using a(1) by (simp add: absorbed_def)
      have res: "parse_rlp env s = Some (USTREAM_CONTINUE, ?s')"
        using loop True dec off single wp il by (simp add: parse_rlp_def rlp_payload_length_def Let_def)
      note pb = put_back [OF b1 wp a(4) _ refl]
      have "absorbed s ?s'" using a(1) pb(3) len pl by (simp add: absorbed_def)
      then show ?thesis using res pb(1,2) a(2) k len pl by (auto simp: header_done_def)
    next
      case multi: False
      let ?s' = "s1\<lparr>currentFieldLength := word_of_nat (rlp_payload_length (rlpBuffer s1)),
        currentFieldIsList := rlp_first_is_list ?b, fieldSingleByte := False, currentFieldPos := 0, rlpBufferPos := 0,
        processingField := True\<rparr>"
      have res: "parse_rlp env s = Some (USTREAM_CONTINUE, ?s')"
        using loop True dec off multi by (simp add: parse_rlp_def Let_def)
      have "absorbed s ?s'" using a by (simp add: absorbed_def hash_pos_def)
      moreover have "field_pre ?s'" using b1 by (simp add: field_pre_def tx_base_def)
      ultimately show ?thesis using res a(2) k by (auto simp: header_done_def)
    qed
  qed
qed

end
