(* ===== verification/Ustream_Hook.thy ===== *)
theory Ustream_Hook
  imports Ustream_Header
begin

text \<open>
  The hook for the data field, \<open>custom_processor\<close>: it returns, keeps its 32-byte block buffer
  in bounds, and consumes exactly the bytes it hands on, whatever the plugin answers.
\<close>

lemma consumed_trans:
  assumes "consumed a s s1" "consumed b s1 s2"
  shows "consumed (a + b) s s2"
proof -
  have "take (a + b) (drop (workPos s) (payload s)) =
      take a (drop (workPos s) (payload s)) @ take b (drop (workPos s + a) (payload s))"
    by (simp add: take_add add.commute)
  then show ?thesis using assms by (auto simp: consumed_def)
qed

lemma consumed_0:
  "consumed 0 s (s\<lparr>content := c, G_swap_tx_had_calldata := b\<rparr>)"
  by (simp add: consumed_def)

text \<open>What the hook leaves behind.\<close>

definition hook_result :: "'p txs \<Rightarrow> customStatus \<Rightarrow> 'p txs \<Rightarrow> bool" where
  "hook_result s st s' \<longleftrightarrow> st = CUSTOM_FAULT \<or> (\<exists>n. consumed n s s' \<and>
     (if st = CUSTOM_NOT_HANDLED
      then field_pre s' \<and> unat (currentFieldPos s') = unat (currentFieldPos s) + n \<and> (fieldSingleByte s \<longrightarrow> n = 0)
      else tx_inv s' \<and> \<not> fieldSingleByte s \<and> 0 < n))"

lemma hook_result_not_handled:
  assumes "consumed n s s'" "field_pre s'" "unat (currentFieldPos s') = unat (currentFieldPos s) + n"
    "fieldSingleByte s \<Longrightarrow> n = 0"
  shows "hook_result s CUSTOM_NOT_HANDLED s'"
  using assms by (auto simp: hook_result_def)

text \<open>The selector is skipped by \<open>copy_tx_data\<close> without a destination.\<close>

lemma skip_cases:
  assumes pre: "field_pre s" and ns: "\<not> fieldSingleByte s" and len: "unat len \<le> unat (commandLength s)"
    and pos: "unat (currentFieldPos s) + unat len \<le> unat (currentFieldLength s)"
  shows "(\<exists>s'. copy_tx_data env None len s = Some (False, s')) \<or>
    (\<exists>s'. copy_tx_data env None len s = Some (True, s') \<and> consumed (unat len) s s' \<and> field_pre s' \<and>
       unat (currentFieldPos s') = unat (currentFieldPos s) + unat len)"
proof -
  let ?s' = "s\<lparr>sha3 := sha3 s @ take (unat len) (drop (workPos s) (payload s)),
      workPos := workPos s + unat len, commandLength := commandLength s - len, currentFieldPos := currentFieldPos s + len\<rparr>"
  have base: "workPos s + unat (commandLength s) = length (payload s)" and p: "processingField s"
    using pre by (auto simp: field_pre_def tx_base_def)
  have c: "unat (commandLength s - len) = unat (commandLength s) - unat len"
    using len by (simp add: unat_sub_le word_le_nat_alt)
  have "unat (currentFieldPos s) + unat len < 2 ^ 32"
    using pos unsigned_less [where ?'a = nat, of "currentFieldLength s"] by simp
  then have q: "unat (currentFieldPos s + len) = unat (currentFieldPos s) + unat len"
    by (simp add: unat_word_ariths)
  have "consumed (unat len) s ?s'" using len c ns by (simp add: consumed_def)
  moreover have "field_pre ?s'"
    using pre ns c q pos len base by (auto simp: field_pre_def tx_base_def word_le_nat_alt)
  ultimately show ?thesis
    using copy_tx_data_cases [OF base p len, where out = None and ?s1.0 = s and c = "content s" and d = "tk_data s" and env = env] ns q
    by fastforce
qed

text \<open>The beginning of the data field.\<close>

lemma field_pre_token:
  "field_pre s \<Longrightarrow> unat ofs < 32 \<Longrightarrow> field_pre (s\<lparr>tk_pluginStatus := r, plug := p, tk_fieldIndex := i, tk_fieldOffset := ofs\<rparr>)"
  by (simp add: field_pre_def tx_base_def)

lemma custom_begin_total:
  assumes pre: "field_pre s" and ns: "\<not> fieldSingleByte s" and pos: "currentFieldPos s = 0"
    and len: "4 \<le> unat (currentFieldLength s)"
  shows "\<exists>early s'. custom_begin env s = Some (early, s') \<and> (early = Some CUSTOM_FAULT \<or>
     (\<exists>n. consumed n s s' \<and> field_pre s' \<and> unat (currentFieldPos s') = n \<and> early \<in> {None, Some CUSTOM_NOT_HANDLED} \<and>
        (early = None \<longrightarrow> n = 0 \<and> 4 \<le> unat (commandLength s') \<or> n = 4 \<and> 4 < unat (currentFieldLength s))))"
proof (cases "commandLength s < 4")
  case True
  then show ?thesis by (auto simp: custom_begin_def)
next
  case False
  then have c4: "4 \<le> unat (commandLength s)" by (simp add: word_less_nat_alt)
  have base: "workPos s + unat (commandLength s) = length (payload s)" using pre by (auto simp: field_pre_def tx_base_def)
  then have rd: "rd_n (payload s) (workPos s) 4 = Some (take 4 (drop (workPos s) (payload s)))"
    using c4 by (simp add: rd_n_def)
  obtain r p where rp: "custom_begin env s =
      (let s1 = s\<lparr>tk_pluginStatus := r, plug := p\<rparr>
       in if r = ETH_PLUGIN_RESULT_ERROR then Some (Some CUSTOM_FAULT, s1)
          else if plugin_successful r then do {
            (ok, s) \<leftarrow> copy_tx_data env None 4 (s1\<lparr>tk_fieldIndex := 0, tk_fieldOffset := 0\<rparr>);
            if \<not> ok then Some (Some CUSTOM_FAULT, s)
            else if currentFieldLength s = 4 then Some (Some CUSTOM_NOT_HANDLED, s)
            else Some (None, s) }
          else Some (None, s1))"
  proof (cases "\<not> store_calldata s \<and> (\<not> env_contractDetails env \<or> env_called_from_swap env)")
    case True
    obtain r p where "env_plugin_init env (content s) (get_tx_chain_id s) (take 4 (drop (workPos s) (payload s)))
        (currentFieldLength s) (plug s) = (r, p)" by fastforce
    then show ?thesis using that [of p r] True False rd
      by (simp add: custom_begin_def Let_def cong: if_cong)
  next
    case no: False
    show ?thesis using that [of "plug s" ETH_PLUGIN_RESULT_UNAVAILABLE] False no
      by (cases "store_calldata s") (simp_all add: custom_begin_def Let_def cong: if_cong)
  qed
  let ?s1 = "s\<lparr>tk_pluginStatus := r, plug := p\<rparr>" and ?s2 = "s\<lparr>tk_pluginStatus := r, plug := p, tk_fieldIndex := 0, tk_fieldOffset := 0\<rparr>"
  have p2: "field_pre ?s2" using field_pre_token [OF pre, where ofs = 0 and r = r and p = p and i = 0] by simp
  have p1: "field_pre ?s1" using pre by (simp add: field_pre_def tx_base_def)
  have c1: "consumed 0 s ?s1" and c2: "consumed 0 s ?s2" by (simp_all add: consumed_def)
  show ?thesis
  proof (cases "r \<noteq> ETH_PLUGIN_RESULT_ERROR \<and> plugin_successful r")
    case False
    then show ?thesis using rp p1 c1 c4 pos by (auto simp: Let_def)
  next
    case True
    have "(\<exists>s'. copy_tx_data env None 4 ?s2 = Some (False, s')) \<or>
      (\<exists>s'. copy_tx_data env None 4 ?s2 = Some (True, s') \<and> consumed (unat (4 :: uint32)) ?s2 s' \<and> field_pre s' \<and>
         unat (currentFieldPos s') = unat (currentFieldPos ?s2) + unat (4 :: uint32))"
      by (rule skip_cases [OF p2]) (use ns c4 pos len in simp_all)
    then consider s' where "copy_tx_data env None 4 ?s2 = Some (False, s')"
      | s' where "copy_tx_data env None 4 ?s2 = Some (True, s')" "consumed 4 ?s2 s'" "field_pre s'" "unat (currentFieldPos s') = 4"
      using pos by auto
    then show ?thesis
    proof cases
      case 1
      then show ?thesis using rp True by (simp add: Let_def)
    next
      case 2
      have "consumed 4 s s'" using consumed_trans [OF c2 2(2)] by simp
      moreover have "currentFieldLength s' = currentFieldLength s" using 2(2) by (simp add: consumed_def)
      moreover have "currentFieldLength s \<noteq> 4 \<Longrightarrow> 4 < unat (currentFieldLength s)"
        using len word_unat_eq_iff [of "currentFieldLength s" 4] by (auto simp: le_less)
      ultimately show ?thesis using rp True 2 by (auto simp: Let_def)
    qed
  qed
qed

text \<open>The choice of a block.\<close>

lemma custom_block_cases:
  assumes pre: "field_pre s" and ns: "\<not> fieldSingleByte s" and c: "currentFieldPos s = 0 \<longrightarrow> 4 \<le> unat (commandLength s)"
  obtains (fault) s' where "custom_block env s = (Inl CUSTOM_FAULT, s')"
  | (pass) "custom_block env s = (Inl CUSTOM_NOT_HANDLED, s)"
  | (block) size0 s' where "custom_block env s = (Inr size0, s')" "0 < unat size0" "unat (tk_fieldOffset s') + unat size0 \<le> 32"
      "field_pre s'" "consumed 0 s s'" "currentFieldPos s' = currentFieldPos s"
      "currentFieldPos s' = 0 \<Longrightarrow> 4 \<le> unat (commandLength s')"
proof -
  let ?s0 = "s\<lparr>tk_fieldIndex := 0, tk_fieldOffset := 0\<rparr>" and ?o = "tk_fieldOffset s"
  have o: "unat ?o < 32" using pre by (simp add: field_pre_def tx_base_def)
  then have om: "?o mod 32 = ?o" by (simp add: word_unat_eq_iff unat_mod_distrib)
  have uo: "unat (ucast ?o :: uint32) = unat ?o"
    by (simp add: unsigned_ucast_eq take_bit_nat_eq_self_iff less_trans [OF o])
  have "unat (32 - ucast ?o :: uint32) = 32 - unat ?o"
    using uo o by (subst unat_sub_le) (simp_all add: word_le_nat_alt)
  then have b: "0 < unat (32 - ucast (?o mod 32) :: uint32)" "unat ?o + unat (32 - ucast (?o mod 32) :: uint32) \<le> 32"
    using o om by simp_all
  have s0: "field_pre ?s0" "consumed 0 s ?s0" and s: "consumed 0 s s"
    using pre by (simp_all add: field_pre_def tx_base_def consumed_def)
  show ?thesis
  proof (cases "currentFieldPos s = 0")
    case True
    consider "\<not> store_calldata s" "\<not> env_dataAllowed env" | "store_calldata s \<or> env_dataAllowed env" "store_calldata s \<or> \<not> env_contractDetails env"
      | "store_calldata s \<or> env_dataAllowed env" "\<not> store_calldata s" "env_contractDetails env" by blast
    then show ?thesis
    proof cases
      case 1
      show ?thesis by (rule fault) (use True 1 in \<open>simp add: custom_block_def\<close>)
    next
      case 2
      show ?thesis by (rule pass) (use True 2 in \<open>auto simp: custom_block_def\<close>)
    next
      case 3
      show ?thesis by (rule block [of 4 ?s0]) (use True 3 s0 c in \<open>simp_all add: custom_block_def\<close>)
    qed
  next
    case False
    show ?thesis
    proof (cases "store_calldata s \<or> (\<not> env_contractDetails env \<and>
        (tk_pluginStatus s \<in> {ETH_PLUGIN_RESULT_ERROR, ETH_PLUGIN_RESULT_UNAVAILABLE, ETH_PLUGIN_RESULT_UNSUCCESSFUL}))")
      case True
      show ?thesis by (rule pass) (use True False in \<open>simp add: custom_block_def\<close>)
    next
      case blk: False
      have "custom_block env s = (Inr (32 - ucast (?o mod 32)), s)" using False blk by (simp add: custom_block_def)
      then show ?thesis by (rule block) (use False b pre s in simp_all)
    qed
  qed
qed

text \<open>The delivery of a block touches only the token context and the screen.\<close>

lemma custom_deliver_cases:
  assumes inv: "tx_inv (s\<lparr>tk_fieldOffset := 0\<rparr>)" and c: "consumed n s0 s"
    and res: "custom_deliver env fieldPos copySize s = (st, s')"
  shows "st = CUSTOM_FAULT \<or> st \<in> {CUSTOM_HANDLED, CUSTOM_SUSPENDED} \<and> tx_inv s' \<and> consumed n s0 s'"
proof -
  have "tx_inv (s\<lparr>plug := p, tk_fieldIndex := i, tk_fieldOffset := 0, tk_data := replicate 32 0\<rparr>)"
    "tx_inv (s\<lparr>tk_fieldOffset := 0, tmp_string := t, data_ui := u\<rparr>)"
    "tx_inv (s\<lparr>tk_fieldIndex := i, tk_fieldOffset := 0, tmp_string := t, data_ui := u\<rparr>)"
    for p i t u using inv by (simp_all add: tx_inv_def tx_base_def cong: if_cong)
  moreover have "consumed n s0 (s\<lparr>plug := p, tk_fieldIndex := i, tk_fieldOffset := 0, tk_data := replicate 32 0\<rparr>)"
    "consumed n s0 (s\<lparr>tk_fieldOffset := 0, tmp_string := t, data_ui := u\<rparr>)"
    "consumed n s0 (s\<lparr>tk_fieldIndex := i, tk_fieldOffset := 0, tmp_string := t, data_ui := u\<rparr>)"
    for p i t u using c by (simp_all add: consumed_def)
  ultimately show ?thesis using res
    by (auto simp: custom_deliver_def split: if_splits prod.splits bool.splits)
qed

lemma custom_copy_total:
  assumes pre: "field_pre s" and ns: "\<not> fieldSingleByte s" and pos: "currentFieldPos s < currentFieldLength s"
    and sz: "0 < unat size0" "unat (tk_fieldOffset s) + unat size0 \<le> 32"
  shows "\<exists>st s'. custom_copy env size0 s = Some (st, s') \<and> (st = CUSTOM_FAULT \<or>
     st \<in> {CUSTOM_HANDLED, CUSTOM_SUSPENDED} \<and> tx_inv s' \<and>
       consumed (min (unat (commandLength s)) (min (unat size0) (unat (currentFieldLength s) - unat (currentFieldPos s)))) s s')"
proof -
  let ?cl = "commandLength s" and ?rem = "currentFieldLength s - currentFieldPos s" and ?o = "unat (tk_fieldOffset s)"
  define blockSize where "blockSize = (if ?rem < size0 then ?rem else size0)"
  define copySize where "copySize = (if ?cl < blockSize then ?cl else blockSize)"
  have rem: "unat ?rem = unat (currentFieldLength s) - unat (currentFieldPos s)"
    using pos by (simp add: unat_sub_le less_imp_le)
  have ub: "unat blockSize = min (unat size0) (unat ?rem)"
    by (auto simp: blockSize_def word_less_nat_alt)
  then have bl: "unat blockSize = min (unat size0) (unat (currentFieldLength s) - unat (currentFieldPos s))" using rem by simp
  have uc: "unat copySize = min (unat ?cl) (unat blockSize)"
    by (auto simp: copySize_def word_less_nat_alt)
  have base: "workPos s + unat ?cl = length (payload s)" "processingField s" "length (tk_data s) = 32" "rlpBufferPos s = 0"
    using pre by (auto simp: field_pre_def tx_base_def)
  let ?xs = "take (unat copySize) (drop (workPos s) (payload s))"
  let ?d = "take ?o (tk_data s) @ ?xs @ drop (?o + length ?xs) (tk_data s)"
  have lx: "length ?xs = unat copySize" using base uc by simp
  have st: "store_token_data ?xs s = Some (s\<lparr>tk_data := ?d\<rparr>)"
    using sz uc ub base lx by (simp add: store_token_data_def wr_n_def)
  have ld: "length ?d = 32" using sz uc ub base lx by simp
  define s2 where "s2 = s\<lparr>tk_data := ?d, sha3 := sha3 s @ ?xs, workPos := workPos s + unat copySize,
      commandLength := ?cl - copySize, currentFieldPos := currentFieldPos s + copySize\<rparr>"
  have le: "unat copySize \<le> unat ?cl" using uc by simp
  from copy_tx_data_cases [OF base(1,2) le, where out = "Some store_token_data" and ?s1.0 = "s\<lparr>tk_data := ?d\<rparr>"
      and c = "content s" and d = ?d and env = env]
  have cp: "copy_tx_data env (Some store_token_data) copySize s = Some (False, s\<lparr>tk_data := ?d\<rparr>) \<or>
      copy_tx_data env (Some store_token_data) copySize s = Some (True, s2)"
    using st ns by (simp add: s2_def)
  have up: "unat (currentFieldPos s + copySize) = unat (currentFieldPos s) + unat copySize"
  proof -
    have "unat (currentFieldPos s) + unat copySize < 2 ^ 32"
      using uc bl unsigned_less [where ?'a = nat, of "currentFieldLength s"] pos by (simp add: word_less_nat_alt)
    then show ?thesis by (simp add: unat_word_ariths)
  qed
  have ucl: "unat (?cl - copySize) = unat ?cl - unat copySize" using le by (simp add: unat_sub_le word_le_nat_alt)
  define s3 where "s3 = (if currentFieldPos s2 = currentFieldLength s2
       then s2\<lparr>currentField := currentField s2 + 1, processingField := False\<rparr> else s2)"
  let ?s4 = "s3\<lparr>tk_fieldOffset := tk_fieldOffset s3 + ucast copySize\<rparr>"
  have c2: "consumed (unat copySize) s s2" using ns ucl le by (simp add: s2_def consumed_def)
  have b2: "tx_base s2" using pre ld ucl le base by (auto simp: s2_def field_pre_def tx_base_def)
  have f2: "currentFieldPos s2 = currentFieldPos s + copySize" "currentFieldLength s2 = currentFieldLength s"
    "\<not> fieldSingleByte s2" "rlpBufferPos s2 = 0" "processingField s2" "tk_fieldOffset s2 = tk_fieldOffset s"
    using ns base by (simp_all add: s2_def)
  have c4: "consumed (unat copySize) s (s3\<lparr>tk_fieldOffset := o'\<rparr>)" for o'
    using c2 by (simp add: s3_def consumed_def)
  have i4: "tx_inv (s3\<lparr>tk_fieldOffset := o'\<rparr>)" if "unat o' < 32" for o'
  proof -
    have "unat copySize \<le> unat (currentFieldLength s) - unat (currentFieldPos s)" using uc bl by simp
    then have "unat (currentFieldPos s2) \<le> unat (currentFieldLength s2)"
      using up pos f2 by (simp add: word_less_nat_alt)
    then have "currentFieldPos s2 \<noteq> currentFieldLength s2 \<Longrightarrow> currentFieldPos s2 < currentFieldLength s2"
      by (simp add: word_less_nat_alt word_unat_eq_iff)
    then show ?thesis using b2 f2 that by (auto simp: s3_def tx_inv_def tx_base_def)
  qed
  have cc: "custom_copy env size0 s = (if copy_tx_data env (Some store_token_data) copySize s = Some (True, s2)
      then (if copySize = blockSize then Some (custom_deliver env (currentFieldPos s) copySize ?s4) else Some (CUSTOM_HANDLED, ?s4))
      else Some (CUSTOM_FAULT, s\<lparr>tk_data := ?d\<rparr>))"
    using cp unfolding custom_copy_def Let_def blockSize_def [symmetric] copySize_def [symmetric]
    by (elim disjE) (simp_all add: s3_def Let_def)
  have of4: "unat (tk_fieldOffset s3 + ucast copySize) < 32" if "copySize \<noteq> blockSize"
  proof -
    have "unat copySize < unat blockSize" using that uc by (auto simp: word_unat_eq_iff)
    then have lt: "?o + unat copySize < 32" using ub sz by simp
    then have "unat (ucast copySize :: uint8) = unat copySize" by (simp add: unat_ucast_32_8)
    moreover have "tk_fieldOffset s3 = tk_fieldOffset s" using f2 by (simp add: s3_def)
    ultimately show ?thesis using lt by (simp add: unat_word_ariths)
  qed
  have n: "unat copySize = min (unat ?cl) (min (unat size0) (unat (currentFieldLength s) - unat (currentFieldPos s)))"
    using uc bl by simp
  show ?thesis
  proof (cases "copy_tx_data env (Some store_token_data) copySize s = Some (True, s2)")
    case False
    then show ?thesis using cc by simp
  next
    case ok: True
    show ?thesis
    proof (cases "copySize = blockSize")
      case True
      obtain st s' where d: "custom_deliver env (currentFieldPos s) copySize ?s4 = (st, s')" by fastforce
      from custom_deliver_cases [OF _ c4 d] i4 [of 0] show ?thesis using cc ok True d n by auto
    next
      case False
      then show ?thesis using cc ok i4 [OF of4] c4 n by simp
    qed
  qed
qed

text \<open>The whole hook.\<close>

lemma hook_resultI:
  assumes "consumed a s s1" "consumed b s1 s2" "tx_inv s2" "\<not> fieldSingleByte s" "0 < a + b" "st \<noteq> CUSTOM_NOT_HANDLED"
  shows "hook_result s st s2"
  using consumed_trans [OF assms(1,2)] assms(3-) by (auto simp: hook_result_def)

lemma custom_processor_total:
  assumes pre: "field_pre s" and pos: "currentFieldPos s = 0 \<or> currentFieldPos s < currentFieldLength s \<and> 0 < commandLength s"
  shows "\<exists>st s'. custom_processor env s = Some (st, s') \<and> hook_result s st s'"
proof -
  let ?s0 = "s\<lparr>content := (content s)\<lparr>dataPresent := True\<rparr>, G_swap_tx_had_calldata := True\<rparr>"
  have p0: "field_pre ?s0" using pre by (simp add: field_pre_def tx_base_def content_ok_def)
  have c0: "consumed 0 s ?s0" by (rule consumed_0)
  have h0: "hook_result s CUSTOM_NOT_HANDLED ?s0" by (rule hook_result_not_handled [OF c0 p0]) simp_all
  have h: "hook_result s CUSTOM_NOT_HANDLED s" by (rule hook_result_not_handled [of 0]) (simp_all add: consumed_def pre)
  show ?thesis
  proof (cases "is_rlp_data_field s \<and> currentFieldLength s \<noteq> 0 \<and> destinationLength (content s) \<noteq> 0 \<and> \<not> currentFieldLength s < 4")
    case False
    then show ?thesis using h h0 by (auto simp: custom_processor_def Let_def)
  next
    case True
    then have len: "4 \<le> unat (currentFieldLength s)" by (simp add: word_less_nat_alt)
    have ns: "\<not> fieldSingleByte s" using pre len by (auto simp: field_pre_def)
    obtain early s1 where b: "(if currentFieldPos s = 0 then custom_begin env ?s0 else Some (None, ?s0)) = Some (early, s1)"
      and e: "early = Some CUSTOM_FAULT \<or> (\<exists>n. consumed n ?s0 s1 \<and> field_pre s1 \<and>
        unat (currentFieldPos s1) = unat (currentFieldPos s) + n \<and> early \<in> {None, Some CUSTOM_NOT_HANDLED} \<and>
        (early = None \<longrightarrow> currentFieldPos s1 < currentFieldLength s \<and> (currentFieldPos s1 = 0 \<longrightarrow> 4 \<le> unat (commandLength s1)) \<and>
           0 < n + unat (commandLength s1)))"
    proof (cases "currentFieldPos s = 0")
      case True
      from custom_begin_total [OF p0, of env] obtain early s1 where "custom_begin env ?s0 = Some (early, s1)"
        "early = Some CUSTOM_FAULT \<or> (\<exists>n. consumed n ?s0 s1 \<and> field_pre s1 \<and> unat (currentFieldPos s1) = n \<and>
          early \<in> {None, Some CUSTOM_NOT_HANDLED} \<and>
          (early = None \<longrightarrow> n = 0 \<and> 4 \<le> unat (commandLength s1) \<or> n = 4 \<and> 4 < unat (currentFieldLength s)))"
        using True ns len by auto
      moreover have "currentFieldPos s1 \<noteq> 0" if "unat (currentFieldPos s1) = 4" using that by auto
      ultimately show ?thesis using that [of early s1] True len by (auto simp: word_less_nat_alt)
    next
      case False
      then show ?thesis using that [of None ?s0] pos p0
        by (auto simp: word_less_nat_alt consumed_def intro!: exI [of _ 0])
    qed
    have cp: "custom_processor env s = (case early of Some st \<Rightarrow> Some (st, s1)
        | None \<Rightarrow> (case custom_block env s1 of (Inl st, s) \<Rightarrow> Some (st, s) | (Inr size0, s) \<Rightarrow> custom_copy env size0 s))"
      using True b by (simp add: custom_processor_def Let_def)
    show ?thesis
    proof (cases early)
      case (Some st)
      then show ?thesis using cp e ns consumed_trans [OF c0, of _ s1] by (auto simp: hook_result_def)
    next
      case None
      then obtain n where n: "consumed n ?s0 s1" "field_pre s1" "unat (currentFieldPos s1) = unat (currentFieldPos s) + n"
        "currentFieldPos s1 < currentFieldLength s" "currentFieldPos s1 = 0 \<longrightarrow> 4 \<le> unat (commandLength s1)"
        "0 < n + unat (commandLength s1)" using e by auto
      have ns1: "\<not> fieldSingleByte s1" "currentFieldLength s1 = currentFieldLength s" using n(1) ns by (auto simp: consumed_def)
      have cn: "consumed n s s1" using consumed_trans [OF c0 n(1)] by simp
      from n(2) ns1(1) n(5) show ?thesis
      proof (cases rule: custom_block_cases [where env = env])
        case (fault s')
        then show ?thesis using cp None by (simp add: hook_result_def)
      next
        case pass
        then show ?thesis using cp None hook_result_not_handled [OF cn n(2,3)] ns by simp
      next
        case (block size0 s2)
        have f2: "currentFieldLength s2 = currentFieldLength s1" "fieldSingleByte s2 = fieldSingleByte s1"
          "unat (commandLength s2) = unat (commandLength s1)" using block(5) by (auto simp: consumed_def)
        have pos2: "currentFieldPos s2 < currentFieldLength s2" using block(6) n(4) ns1 f2 by simp
        from custom_copy_total [OF block(4) _ pos2 block(2,3), of env] ns1 f2
        obtain st s' where c: "custom_copy env size0 s2 = Some (st, s')" "st = CUSTOM_FAULT \<or>
          st \<in> {CUSTOM_HANDLED, CUSTOM_SUSPENDED} \<and> tx_inv s' \<and> consumed (min (unat (commandLength s2))
            (min (unat size0) (unat (currentFieldLength s2) - unat (currentFieldPos s2)))) s2 s'" by auto
        have "0 < n + min (unat (commandLength s2)) (min (unat size0) (unat (currentFieldLength s2) - unat (currentFieldPos s2)))"
          using n(6) f2(3) block(2) pos2 by (auto simp: word_less_nat_alt)
        then have "hook_result s st s'"
          using c(2) hook_resultI [OF consumed_trans [OF cn block(5)], of _ s' st] ns by (auto simp: hook_result_def)
        then show ?thesis using cp None block(1) c(1) by simp
      qed
    qed
  qed
qed

end
