(* ===== verification/Ustream_Loop.thy ===== *)
theory Ustream_Loop
  imports Ustream_Hook "HOL-Library.Sublist"
begin

text \<open>
  The main loop of the streaming parser: every iteration keeps the invariant and either returns
  or makes progress, so \<open>process_tx\<close> returns for every payload; and whatever the payload, the
  hash has absorbed exactly the bytes that were consumed.
\<close>

section \<open>One field\<close>

lemma hash_pos_pre: "field_pre s \<Longrightarrow> hash_pos s \<le> length (payload s)"
  by (auto simp: hash_pos_def field_pre_def tx_base_def word_less_nat_alt)

definition advanced :: "'p txs \<Rightarrow> 'p txs \<Rightarrow> bool" where
  "advanced s s' \<longleftrightarrow> tx_inv s' \<and> absorbed s s' \<and> unat (commandLength s') \<le> unat (commandLength s)
     \<and> (fieldSingleByte s \<longrightarrow> unat (commandLength s') < unat (commandLength s))
     \<and> (0 < commandLength s \<and> currentFieldPos s < currentFieldLength s \<longrightarrow>
          unat (commandLength s') < unat (commandLength s) \<or> \<not> processingField s')"

lemma not_handled_advanced:
  assumes pre: "field_pre s" and sp: "fieldSingleByte s \<longrightarrow> currentFieldPos s = 0"
    and n: "consumed n s s1" "field_pre s1" "unat (currentFieldPos s1) = unat (currentFieldPos s) + n" "fieldSingleByte s \<longrightarrow> n = 0"
    and k: "consumed k s1 s2" "tx_inv s2"
      "fieldSingleByte s1 \<and> currentFieldPos s1 = 0 \<longrightarrow> k = 1 \<and> \<not> processingField s2"
      "0 < commandLength s1 \<and> currentFieldPos s1 < currentFieldLength s1 \<longrightarrow> 0 < k \<or> \<not> processingField s2"
  shows "advanced s s2"
proof -
  have p: "processingField s" "processingField s1"
    and w: "workPos s + unat (commandLength s) = length (payload s)" "workPos s1 + unat (commandLength s1) = length (payload s1)"
    using pre n(2) by (auto simp: field_pre_def tx_base_def)
  have single: "fieldSingleByte s1 = fieldSingleByte s" "currentFieldLength s1 = currentFieldLength s"
    using n(1) by (auto simp: consumed_def)
  have pos1: "fieldSingleByte s \<Longrightarrow> currentFieldPos s1 = 0" using sp n(3,4) by (simp add: word_unat_eq_iff)
  have "absorbed s s1" by (rule consumed_absorbed [OF n(1) w(1)]) (use p n(4) hash_pos_pre [OF pre] in auto)
  moreover have "absorbed s1 s2"
    by (rule consumed_absorbed [OF k(1) w(2)]) (use p k(3) pos1 single hash_pos_pre [OF n(2)] in auto)
  ultimately have ab: "absorbed s s2" by (rule absorbed_trans)
  have cmd: "unat (commandLength s2) = unat (commandLength s) - (n + k)" "n + k \<le> unat (commandLength s)"
    using consumed_trans [OF n(1) k(1)] by (auto simp: consumed_def)
  have pg: "0 < n + k \<or> \<not> processingField s2" if "0 < commandLength s" "currentFieldPos s < currentFieldLength s"
  proof (cases "n = 0")
    case True
    then have "unat (commandLength s1) = unat (commandLength s)" "unat (currentFieldPos s1) = unat (currentFieldPos s)"
      using n(1,3) by (auto simp: consumed_def)
    then show ?thesis using that k(4) single by (simp add: word_less_nat_alt)
  qed simp
  have "0 < n + k" if "fieldSingleByte s" using k(3) single pos1 that by auto
  then show ?thesis using ab k(2) cmd pg by (auto simp: advanced_def)
qed

lemma field_step_total:
  assumes pre: "field_pre s" and sp: "fieldSingleByte s \<longrightarrow> currentFieldPos s = 0"
    and pos: "currentFieldPos s = 0 \<or> currentFieldPos s < currentFieldLength s \<and> 0 < commandLength s"
  shows "\<exists>st s'. field_step env s = Some (st, s') \<and> st \<in> {USTREAM_CONTINUE, USTREAM_SUSPENDED, USTREAM_FAULT} \<and>
     (st \<noteq> USTREAM_FAULT \<longrightarrow> advanced s s')"
proof -
  obtain cst s1 where c: "custom_processor env s = Some (cst, s1)" "hook_result s cst s1"
    using custom_processor_total [OF pre pos, of env] by blast
  have w: "workPos s + unat (commandLength s) = length (payload s)" "processingField s"
    using pre by (auto simp: field_pre_def tx_base_def)
  consider (fault) "cst = CUSTOM_FAULT"
    | (pass) n where "cst = CUSTOM_NOT_HANDLED" "consumed n s s1" "field_pre s1"
        "unat (currentFieldPos s1) = unat (currentFieldPos s) + n" "fieldSingleByte s \<longrightarrow> n = 0"
    | (handled) n where "cst \<in> {CUSTOM_HANDLED, CUSTOM_SUSPENDED}" "consumed n s s1" "tx_inv s1" "\<not> fieldSingleByte s" "0 < n"
    using c(2) by (cases cst) (auto simp: hook_result_def)
  then show ?thesis
  proof cases
    case fault
    then show ?thesis using c(1) by (simp add: field_step_def)
  next
    case handled
    have "absorbed s s1" by (rule consumed_absorbed [OF handled(2) w(1)]) (use handled(4) w hash_pos_pre [OF pre] in auto)
    then have "advanced s s1" using handled by (auto simp: advanced_def consumed_def)
    then show ?thesis using c(1) handled(1) by (auto simp: field_step_def)
  next
    case pass
    obtain ok s2 where f: "process_field env s1 = Some (ok, s2)" "ok \<longrightarrow> tx_inv s2 \<and> (\<exists>k. consumed k s1 s2 \<and>
        (fieldSingleByte s1 \<and> currentFieldPos s1 = 0 \<longrightarrow> k = 1 \<and> \<not> processingField s2) \<and>
        (0 < commandLength s1 \<and> currentFieldPos s1 < currentFieldLength s1 \<longrightarrow> 0 < k \<or> \<not> processingField s2))"
      using process_field_result [OF pass(3), of env] by (auto simp: field_result_def)
    have "ok \<longrightarrow> advanced s s2"
      using f(2) not_handled_advanced [OF pre sp pass(2-5)] by blast
    then show ?thesis using c(1) pass(1) f(1) by (auto simp: field_step_def)
  qed
qed

section \<open>One iteration\<close>

text \<open>The one way to a fault: a stored transaction is parsed to the end, and \<open>tx_ctx_init\<close> faults itself, or it fails
  and there is no parked calldata (any more) for the parser to delete.\<close>

definition null_failure :: "'p tx_env \<Rightarrow> 'p txs \<Rightarrow> bool" where
  "null_failure env s \<longleftrightarrow> PARSING_IS_DONE s \<and> store_calldata s \<and>
     (\<exists>to amount r. env_tx_ctx_init env (g_parked_calldata s) to amount (get_tx_chain_id s) (plug s) (tx_mem s) = r \<and>
        (r = None \<or> (\<exists>p m. r = Some (False, None, p, m))))"

lemma parsing_done_total:
  assumes inv: "tx_inv s" and isdone: "PARSING_IS_DONE s"
  shows "parsing_done env s = None \<and> null_failure env s \<or> (\<exists>st s'. parsing_done env s = Some (st, s') \<and> st \<in> {USTREAM_FINISHED, USTREAM_PROCESSING} \<and>
     tx_inv s' \<and> absorbed s s' \<and> PARSING_IS_DONE s' \<and> sha3 s' = sha3 s)"
proof -
  have hp: "hash_pos s \<le> length (payload s)" using inv by (auto simp: hash_pos_def tx_inv_def tx_base_def)
  have upd: "tx_inv (s\<lparr>plug := p, tx_mem := m, g_parked_calldata := None\<rparr>)"
    "absorbed s (s\<lparr>plug := p, tx_mem := m, g_parked_calldata := None\<rparr>)"
    "PARSING_IS_DONE (s\<lparr>plug := p, tx_mem := m, g_parked_calldata := None\<rparr>)" for p m
    using inv hp isdone
    by (auto simp: tx_inv_def tx_base_def parked_ok_def absorbed_def hash_pos_def PARSING_IS_DONE_def)
  show ?thesis
  proof (cases "store_calldata s")
    case False
    then show ?thesis using inv absorbed_refl [OF hp] isdone by (simp add: parsing_done_def)
  next
    case True
    let ?c = "content s"
    have dl: "unat (destinationLength ?c) \<le> length (destination ?c)" "unat (ilength (tvalue ?c)) \<le> length (ivalue (tvalue ?c))"
      using inv by (auto simp: tx_inv_def tx_base_def content_ok_def int256_ok_def)
    obtain to' amount where b: "buf_shrink_expand (Some (destination ?c)) (unat (destinationLength ?c)) (replicate 20 0) 20 = Some to'"
      "buf_shrink_expand (Some (ivalue (tvalue ?c))) (unat (ilength (tvalue ?c))) (replicate 32 0) 32 = Some amount"
      using dl by (auto simp: buf_shrink_expand_correct)
    consider "env_tx_ctx_init env (g_parked_calldata s) to' amount (get_tx_chain_id s) (plug s) (tx_mem s) = None"
      | ok cd p m where "env_tx_ctx_init env (g_parked_calldata s) to' amount (get_tx_chain_id s) (plug s) (tx_mem s) = Some (ok, cd, p, m)"
      by (metis option.exhaust prod_cases4)
    then show ?thesis
    proof cases
      case 1
      then have "parsing_done env s = None" "null_failure env s"
        using True b isdone unfolding null_failure_def by (simp add: parsing_done_def, blast)
      then show ?thesis by simp
    next
    case t: (2 ok cd p m)
    show ?thesis
    proof (cases ok)
      case ok: True
      then show ?thesis using True b t upd [of m p] by (simp add: parsing_done_def Let_def)
    next
      case no: False
      show ?thesis
      proof (cases cd)
        case None
        then have "parsing_done env s = None" "null_failure env s"
          using True b t no isdone by (auto simp: parsing_done_def null_failure_def Let_def)
        then show ?thesis by simp
      next
        case (Some cd')
        then show ?thesis using True b t no upd [of "calldata_delete cd' m" p]
          by (simp add: parsing_done_def Let_def)
      qed
    qed
    qed
  qed
qed

text \<open>The failure of \<open>tx_ctx_init\<close> looks like a request for more data.\<close>

lemma ctx_failure_is_processing:
  assumes inv: "tx_inv s" and fin: "PARSING_IS_DONE s" and st: "store_calldata s"
    and fails: "\<forall>cd to amount chain p m. \<exists>cd' p' m'. env_tx_ctx_init env cd to amount chain p m = Some (False, Some cd', p', m')"
  shows "\<exists>s'. continue_tx env s = Some (USTREAM_PROCESSING, s') \<and> PARSING_IS_DONE s'"
proof -
  have k: "\<not> null_failure env s"
    unfolding null_failure_def using fails by (metis Pair_inject option.distinct(1) option.inject)
  obtain st' s' where r: "parsing_done env s = Some (st', s')" "PARSING_IS_DONE s'"
    using parsing_done_total [OF inv fin, of env] k by blast
  have "st' = USTREAM_PROCESSING"
  proof -
    obtain to' amount where b: "buf_shrink_expand (Some (destination (content s))) (unat (destinationLength (content s))) (replicate 20 0) 20 = Some to'"
      "buf_shrink_expand (Some (ivalue (tvalue (content s)))) (unat (ilength (tvalue (content s)))) (replicate 32 0) 32 = Some amount"
      using inv by (auto simp: buf_shrink_expand_correct tx_inv_def tx_base_def content_ok_def int256_ok_def)
    obtain cd' p' m' where "env_tx_ctx_init env (g_parked_calldata s) to' amount (get_tx_chain_id s) (plug s) (tx_mem s) =
        Some (False, Some cd', p', m')" using fails by blast
    then show ?thesis using r(1) b st by (simp add: parsing_done_def Let_def)
  qed
  moreover have "continue_tx env s = parsing_done env s" if "st' = USTREAM_PROCESSING"
    unfolding continue_tx_def using r(1) fin that by (subst process_tx_internal.simps) (simp add: process_tx_step_def)
  ultimately show ?thesis using r by simp
qed

definition loop_measure :: "'p txs \<Rightarrow> nat" where
  "loop_measure s = 2 * unat (commandLength s) + (if processingField s then 1 else 0)"

lemma process_tx_step_total:
  assumes inv: "tx_inv s" and len: "length (payload s) < 2 ^ 32"
  shows "process_tx_step env s = None \<and> null_failure env s \<or> (\<exists>st s'. process_tx_step env s = Some (st, s') \<and> (st \<noteq> USTREAM_FAULT \<longrightarrow> tx_inv s' \<and> absorbed s s') \<and>
     (st = USTREAM_CONTINUE \<longrightarrow> loop_measure s' < loop_measure s) \<and>
     (st = USTREAM_PROCESSING \<longrightarrow> PARSING_IS_DONE s' \<or> commandLength s' = 0) \<and>
     (st = USTREAM_FINISHED \<longrightarrow> PARSING_IS_DONE s'))"
proof -
  have hp: "hash_pos s \<le> length (payload s)" using inv by (auto simp: hash_pos_def tx_inv_def tx_base_def)
  consider (finished) "PARSING_IS_DONE s" | (empty) "\<not> PARSING_IS_DONE s" "commandLength s = 0"
    | (field) "\<not> PARSING_IS_DONE s" "commandLength s \<noteq> 0" "processingField s"
    | (header) "\<not> PARSING_IS_DONE s" "commandLength s \<noteq> 0" "\<not> processingField s" by blast
  then show ?thesis
  proof cases
    case finished
    then show ?thesis using parsing_done_total [OF inv finished, of env] by (auto simp: process_tx_step_def)
  next
    case empty
    then show ?thesis using inv absorbed_refl [OF hp] by (auto simp: process_tx_step_def)
  next
    case field
    have pre: "field_pre s" "\<not> fieldSingleByte s" and pl: "currentFieldPos s < currentFieldLength s" "0 < commandLength s"
      using inv field by (auto simp: tx_inv_def field_pre_def word_neq_0_conv)
    obtain st s' where r: "field_step env s = Some (st, s')" "st \<in> {USTREAM_CONTINUE, USTREAM_SUSPENDED, USTREAM_FAULT}"
      "st \<noteq> USTREAM_FAULT \<longrightarrow> advanced s s'"
      using field_step_total [OF pre(1), of env] pre(2) pl by blast
    have "loop_measure s' < loop_measure s" if "advanced s s'"
      using that pl field(3) by (auto simp: advanced_def loop_measure_def)
    then show ?thesis using r field by (auto simp: process_tx_step_def advanced_def)
  next
    case header
    obtain st s1 where h: "parse_rlp env s = Some (st, s1)" "st = USTREAM_CONTINUE \<longrightarrow> header_done s s1"
      "st = USTREAM_PROCESSING \<longrightarrow> tx_inv s1 \<and> absorbed s s1 \<and> commandLength s1 = 0"
      "st \<in> {USTREAM_CONTINUE, USTREAM_PROCESSING, USTREAM_FAULT}"
      using parse_rlp_total [OF inv header(3) len, of env] by blast
    show ?thesis
    proof (cases "st = USTREAM_CONTINUE")
      case False
      then show ?thesis using h header by (auto simp: process_tx_step_def)
    next
      case True
      then have hd: "header_done s s1" using h by simp
      obtain st' s' where r: "field_step env s1 = Some (st', s')" "st' \<in> {USTREAM_CONTINUE, USTREAM_SUSPENDED, USTREAM_FAULT}"
        "st' \<noteq> USTREAM_FAULT \<longrightarrow> advanced s1 s'"
        using field_step_total [of s1 env] hd by (auto simp: header_done_def)
      have "absorbed s s'" "loop_measure s' < loop_measure s" if "advanced s1 s'"
        using that hd header(3) absorbed_trans [of s s1 s'] by (auto simp: advanced_def header_done_def loop_measure_def)
      then show ?thesis using r header h True by (auto simp: process_tx_step_def advanced_def)
    qed
  qed
qed

section \<open>The loop\<close>

definition parse_result :: "'p txs \<Rightarrow> parserStatus \<Rightarrow> 'p txs \<Rightarrow> bool" where
  "parse_result s st s' \<longleftrightarrow> st \<noteq> USTREAM_CONTINUE \<and> (st \<noteq> USTREAM_FAULT \<longrightarrow> tx_inv s' \<and> absorbed s s') \<and>
     (st = USTREAM_PROCESSING \<longrightarrow> PARSING_IS_DONE s' \<or> commandLength s' = 0) \<and>
     (st = USTREAM_FINISHED \<longrightarrow> PARSING_IS_DONE s')"

text \<open>The states that the loop goes through, and a loop that gets stuck in one of them.\<close>

definition parser_loop :: "'p tx_env \<Rightarrow> 'p txs \<Rightarrow> 'p txs \<Rightarrow> bool" where
  "parser_loop env = (\<lambda>s s'. process_tx_step env s = Some (USTREAM_CONTINUE, s'))\<^sup>*\<^sup>*"

lemma parser_loop_refl [simp]: "parser_loop env s s"
  by (simp add: parser_loop_def)

lemma parser_loop_step: "process_tx_step env s = Some (USTREAM_CONTINUE, s1) \<Longrightarrow> parser_loop env s1 s2 \<Longrightarrow> parser_loop env s s2"
  by (simp add: parser_loop_def converse_rtranclp_into_rtranclp)

definition stuck_at :: "'p tx_env \<Rightarrow> 'p txs \<Rightarrow> 'p txs \<Rightarrow> bool" where
  "stuck_at env s s1 \<longleftrightarrow> parser_loop env s s1 \<and> process_tx_step env s1 = None \<and> null_failure env s1 \<and> tx_inv s1 \<and> absorbed s s1"

definition stuck :: "'p tx_env \<Rightarrow> 'p txs \<Rightarrow> bool" where
  "stuck env s \<longleftrightarrow> (\<exists>s1. stuck_at env s s1)"

lemma process_tx_internal_total:
  assumes "tx_inv s" "length (payload s) < 2 ^ 32"
  shows "process_tx_internal env s = None \<and> stuck env s \<or>
     (\<exists>st s'. process_tx_internal env s = Some (st, s') \<and> parse_result s st s')"
  using assms
proof (induction "loop_measure s" arbitrary: s rule: less_induct)
  case less
  have hp: "hash_pos s \<le> length (payload s)" using less.prems(1) by (auto simp: hash_pos_def tx_inv_def tx_base_def)
  from process_tx_step_total [OF less.prems, of env] show ?case
  proof (elim disjE exE conjE)
    assume f: "process_tx_step env s = None" "null_failure env s"
    then have "process_tx_internal env s = None" by (subst process_tx_internal.simps) simp
    moreover have "stuck_at env s s" using f less.prems(1) absorbed_refl [OF hp] by (simp add: stuck_at_def)
    ultimately show ?thesis unfolding stuck_def by blast
  next
    fix st s1
    assume s1: "process_tx_step env s = Some (st, s1)" "st \<noteq> USTREAM_FAULT \<longrightarrow> tx_inv s1 \<and> absorbed s s1"
      "st = USTREAM_CONTINUE \<longrightarrow> loop_measure s1 < loop_measure s"
      "st = USTREAM_PROCESSING \<longrightarrow> PARSING_IS_DONE s1 \<or> commandLength s1 = 0"
      "st = USTREAM_FINISHED \<longrightarrow> PARSING_IS_DONE s1"
    show ?thesis
    proof (cases "st = USTREAM_CONTINUE")
      case False
      then have "process_tx_internal env s = Some (st, s1)" using s1(1) by (subst process_tx_internal.simps) simp
      then show ?thesis using False s1 by (simp add: parse_result_def)
    next
      case True
      then have f: "payload s1 = payload s" "absorbed s s1" "tx_inv s1" using s1(2) by (simp_all add: absorbed_def)
      have e: "process_tx_internal env s = process_tx_internal env s1"
        using s1(1) True by (subst process_tx_internal.simps) simp
      have "process_tx_internal env s1 = None \<and> stuck env s1 \<or>
          (\<exists>st s'. process_tx_internal env s1 = Some (st, s') \<and> parse_result s1 st s')"
        using less.hyps [of s1] s1 True less.prems f by auto
      moreover have "stuck env s" if "stuck env s1"
        using that absorbed_trans [OF f(2)] parser_loop_step [OF s1(1) [unfolded True]] unfolding stuck_def stuck_at_def by blast
      moreover have "parse_result s st' s'" if "parse_result s1 st' s'" for st' s'
        using that absorbed_trans [OF f(2)] by (auto simp: parse_result_def)
      ultimately show ?thesis unfolding e by blast
    qed
  qed
qed

text \<open>A call with a fresh payload.\<close>

lemma tx_inv_payload:
  assumes "tx_inv s" "length buf < 2 ^ 32"
  shows "tx_inv (s\<lparr>payload := buf, workPos := 0, commandLength := word_of_nat (length buf)\<rparr>)"
  using assms by (simp add: tx_inv_def tx_base_def unat_of_nat cong: if_cong)

text \<open>The fault of a call, described: the loop, started on the APDU, reaches a state of the invariant in which the
  transaction is parsed and its context cannot be made; the next iteration faults.\<close>

definition fault_at :: "'p tx_env \<Rightarrow> bytes \<Rightarrow> 'p txs \<Rightarrow> 'p txs \<Rightarrow> bool" where
  "fault_at env buf s s1 \<longleftrightarrow>
     parser_loop env (s\<lparr>payload := buf, workPos := 0, commandLength := word_of_nat (length buf)\<rparr>) s1 \<and>
     process_tx_step env s1 = None \<and> tx_inv s1 \<and> null_failure env s1 \<and>
     workPos s1 \<le> length buf \<and> sha3 s1 = sha3 s @ take (workPos s1) buf \<and> store_calldata s1 = store_calldata s"

lemma stuck_at_fault:
  assumes "stuck_at env (s\<lparr>payload := buf, workPos := 0, commandLength := word_of_nat (length buf)\<rparr>) s1" and inv: "tx_inv s"
  shows "fault_at env buf s s1"
proof -
  let ?s0 = "s\<lparr>payload := buf, workPos := 0, commandLength := word_of_nat (length buf)\<rparr>"
  have i1: "tx_inv s1" and a: "absorbed ?s0 s1" using assms(1) by (simp_all add: stuck_at_def)
  have h0: "hash_pos ?s0 = 0" using inv by (simp add: hash_pos_def tx_inv_def split: if_splits)
  have h1: "hash_pos s1 = workPos s1" using i1 by (auto simp: hash_pos_def tx_inv_def)
  have w: "workPos s1 + unat (commandLength s1) = length (payload s1)" using i1 by (simp add: tx_inv_def tx_base_def)
  have "payload s1 = buf" "store_calldata s1 = store_calldata s" "workPos s1 \<le> length buf" "sha3 s1 = sha3 s @ take (workPos s1) buf"
    using a h1 w unfolding absorbed_def h0 by simp_all
  then show ?thesis using assms(1) unfolding stuck_at_def fault_at_def by simp
qed

lemma process_tx_total:
  assumes "tx_inv s" "length buf < 2 ^ 32"
  obtains (fault) s1 where "process_tx env buf s = None" "store_calldata s" "fault_at env buf s s1"
  | (ret) st s' where "process_tx env buf s = Some (st, s')" "st \<noteq> USTREAM_CONTINUE"
    "st \<noteq> USTREAM_FAULT \<Longrightarrow> tx_inv s' \<and> payload s' = buf \<and> workPos s' \<le> length buf \<and> sha3 s' = sha3 s @ take (workPos s') buf \<and>
      store_calldata s' = store_calldata s"
    "st = USTREAM_PROCESSING \<Longrightarrow> PARSING_IS_DONE s' \<or> workPos s' = length buf"
    "st = USTREAM_FINISHED \<Longrightarrow> PARSING_IS_DONE s'"
proof -
  let ?s0 = "s\<lparr>payload := buf, workPos := 0, commandLength := word_of_nat (length buf)\<rparr>"
  have i0: "tx_inv ?s0" by (rule tx_inv_payload [OF assms])
  have h0: "hash_pos ?s0 = 0" using assms(1) by (simp add: hash_pos_def tx_inv_def split: if_splits)
  have len: "length (payload ?s0) < 2 ^ 32" using assms(2) by simp
  from process_tx_internal_total [OF i0 len, of env] show ?thesis
  proof (elim disjE exE conjE)
    assume f: "process_tx_internal env ?s0 = None" "stuck env ?s0"
    then obtain s1 where s1: "stuck_at env ?s0 s1" by (auto simp: stuck_def)
    then have "store_calldata s1 = store_calldata s" "null_failure env s1" by (simp_all add: stuck_at_def absorbed_def)
    then have "store_calldata s" unfolding null_failure_def by blast
    then show ?thesis using fault f(1) stuck_at_fault [OF s1 assms(1)] by (simp add: process_tx_def)
  next
    fix st s'
    assume r: "process_tx_internal env ?s0 = Some (st, s')" "parse_result ?s0 st s'"
    have h': "hash_pos s' = workPos s'" if "tx_inv s'" using that by (auto simp: hash_pos_def tx_inv_def)
    have w': "workPos s' + unat (commandLength s') = length (payload s')" if "tx_inv s'" using that by (simp add: tx_inv_def tx_base_def)
    show ?thesis
    proof (rule ret)
      show "process_tx env buf s = Some (st, s')" using r(1) by (simp add: process_tx_def)
      show "st \<noteq> USTREAM_CONTINUE" using r(2) by (simp add: parse_result_def)
      show "st \<noteq> USTREAM_FAULT \<Longrightarrow> tx_inv s' \<and> payload s' = buf \<and> workPos s' \<le> length buf \<and> sha3 s' = sha3 s @ take (workPos s') buf \<and>
          store_calldata s' = store_calldata s"
        using r(2) h' h0 by (auto simp: parse_result_def absorbed_def)
      show "st = USTREAM_PROCESSING \<Longrightarrow> PARSING_IS_DONE s' \<or> workPos s' = length buf"
        using r(2) w' by (auto simp: parse_result_def absorbed_def)
      show "st = USTREAM_FINISHED \<Longrightarrow> PARSING_IS_DONE s'" using r(2) by (simp add: parse_result_def)
    qed
  qed
qed

lemma process_tx_appState:
  assumes i: "tx_inv s" "length buf < 2 ^ 32" and r: "process_tx env buf s = Some (st, s')" "st \<noteq> USTREAM_FAULT"
  shows "tx_appState s' = tx_appState s"
proof -
  let ?s0 = "s\<lparr>payload := buf, workPos := 0, commandLength := word_of_nat (length buf)\<rparr>"
  have "process_tx_internal env ?s0 = Some (st, s')" using r(1) by (simp add: process_tx_def)
  then have "parse_result ?s0 st s'" using process_tx_internal_total [OF tx_inv_payload [OF i], of env] i(2) by auto
  then show ?thesis using r(2) by (simp add: parse_result_def absorbed_def)
qed

section \<open>A whole transaction\<close>

text \<open>The state in which a transaction starts.\<close>

lemma init_tx_inv:
  assumes "content_ok (content s)" "length (tk_data s) = 32" "unat (tk_fieldOffset s) < 32" "parked_ok (g_parked_calldata s)"
  shows "tx_inv (snd (init_tx env store s))" "sha3 (snd (init_tx env store s)) = []"
    "store_calldata (snd (init_tx env store s)) = store"
  using assms by (simp_all add: init_tx_def tx_inv_def tx_base_def)

text \<open>The host sends a transaction as a list of APDU contents, as long as the parser asks for more.\<close>

fun feed_tx :: "'p tx_env \<Rightarrow> bytes list \<Rightarrow> 'p txs \<Rightarrow> (parserStatus \<times> 'p txs) option" where
  "feed_tx env [] s = Some (USTREAM_PROCESSING, s)"
| "feed_tx env (b # bs) s = do {
     (st, s) \<leftarrow> process_tx env b s;
     if st = USTREAM_PROCESSING then feed_tx env bs s else Some (st, s) }"

lemma process_tx_done:
  assumes "tx_inv s" "length buf < 2 ^ 32" "PARSING_IS_DONE s"
  obtains (fault) s1 where "process_tx env buf s = None" "store_calldata s" "fault_at env buf s s1"
  | (ret) st s' where "process_tx env buf s = Some (st, s')" "tx_inv s'" "PARSING_IS_DONE s'" "sha3 s' = sha3 s"
     "store_calldata s' = store_calldata s" "st \<in> {USTREAM_FINISHED, USTREAM_PROCESSING}"
proof -
  let ?s0 = "s\<lparr>payload := buf, workPos := 0, commandLength := word_of_nat (length buf)\<rparr>"
  have d: "PARSING_IS_DONE ?s0" using assms(3) by (simp add: PARSING_IS_DONE_def)
  have i0: "tx_inv ?s0" by (rule tx_inv_payload [OF assms(1,2)])
  from parsing_done_total [OF i0 d, of env] show ?thesis
  proof (elim disjE exE conjE)
    assume f: "parsing_done env ?s0 = None" "null_failure env ?s0"
    then have n: "process_tx_step env ?s0 = None" using d by (simp add: process_tx_step_def)
    then have "process_tx env buf s = None" unfolding process_tx_def by (subst process_tx_internal.simps) simp
    moreover have "stuck_at env ?s0 ?s0"
      using f(2) i0 n absorbed_refl [of ?s0] by (auto simp: stuck_at_def hash_pos_def tx_inv_def tx_base_def)
    ultimately show ?thesis using fault f(2) stuck_at_fault [OF _ assms(1)] by (auto simp: null_failure_def)
  next
    fix st s'
    assume r: "parsing_done env ?s0 = Some (st, s')" "st \<in> {USTREAM_FINISHED, USTREAM_PROCESSING}"
      "tx_inv s'" "absorbed ?s0 s'" "PARSING_IS_DONE s'" "sha3 s' = sha3 ?s0"
    have "process_tx env buf s = Some (st, s')"
      unfolding process_tx_def using r(1,2) d by (subst process_tx_internal.simps) (auto simp: process_tx_step_def)
    then show ?thesis using ret r by (auto simp: absorbed_def)
  qed
qed

text \<open>The fault of a session, described: the chunks before it were accepted.\<close>

definition session_fault :: "'p tx_env \<Rightarrow> bytes list \<Rightarrow> 'p txs \<Rightarrow> bool" where
  "session_fault env bs s \<longleftrightarrow>
     (\<exists>before b after s0 s1. bs = before @ b # after \<and> feed_tx env before s = Some (USTREAM_PROCESSING, s0) \<and> fault_at env b s0 s1)"

lemma session_fault_now: "fault_at env b s s1 \<Longrightarrow> session_fault env (b # bs) s"
  unfolding session_fault_def by (rule exI [of _ "[]"]) auto

lemma session_fault_later:
  assumes "process_tx env b s = Some (USTREAM_PROCESSING, s1)" "session_fault env bs s1"
  shows "session_fault env (b # bs) s"
proof -
  obtain bef c aft s0 s2 where "bs = bef @ c # aft" "feed_tx env bef s1 = Some (USTREAM_PROCESSING, s0)" "fault_at env c s0 s2"
    using assms(2) by (auto simp: session_fault_def)
  then show ?thesis unfolding session_fault_def using assms(1)
    by (intro exI [of _ "b # bef"] exI [of _ c] exI [of _ aft] exI [of _ s0] exI [of _ s2]) simp
qed

lemma feed_tx_done:
  assumes "tx_inv s" "\<forall>b \<in> set bs. length b < 2 ^ 32" "PARSING_IS_DONE s"
  shows "feed_tx env bs s = None \<and> store_calldata s \<and> session_fault env bs s \<or>
     (\<exists>st s'. feed_tx env bs s = Some (st, s') \<and> tx_inv s' \<and> PARSING_IS_DONE s' \<and> sha3 s' = sha3 s \<and>
     st \<in> {USTREAM_FINISHED, USTREAM_PROCESSING})"
  using assms
proof (induction bs arbitrary: s)
  case Nil
  then show ?case by simp
next
  case (Cons b bs)
  have lb: "length b < 2 ^ 32" "\<forall>b \<in> set bs. length b < 2 ^ 32" using Cons.prems(2) by auto
  show ?case
  proof (rule process_tx_done [OF Cons.prems(1) lb(1) Cons.prems(3), of env])
    fix s1
    assume "process_tx env b s = None" "store_calldata s" "fault_at env b s s1"
    then show ?thesis using session_fault_now by auto
  next
    fix st s1
    assume r: "process_tx env b s = Some (st, s1)" "tx_inv s1" "PARSING_IS_DONE s1" "sha3 s1 = sha3 s"
      "store_calldata s1 = store_calldata s" "st \<in> {USTREAM_FINISHED, USTREAM_PROCESSING}"
    show ?thesis using r Cons.IH [OF r(2) lb(2) r(3)] session_fault_later [of env b s s1 bs] by auto
  qed
qed

text \<open>Whatever the host sends, the run ends, the state is well formed, and the hash is that of a
  prefix of what was sent: of all of it while the parser asks for more.\<close>

lemma feed_tx_total:
  assumes "tx_inv s" "\<forall>b \<in> set bs. length b < 2 ^ 32"
  shows "feed_tx env bs s = None \<and> store_calldata s \<and> session_fault env bs s \<or>
     (\<exists>st s'. feed_tx env bs s = Some (st, s') \<and> (st \<noteq> USTREAM_FAULT \<longrightarrow> tx_inv s' \<and>
     (\<exists>c. sha3 s' = sha3 s @ c \<and> prefix c (concat bs) \<and>
        (st = USTREAM_PROCESSING \<longrightarrow> PARSING_IS_DONE s' \<or> c = concat bs)) \<and>
     (st = USTREAM_FINISHED \<longrightarrow> PARSING_IS_DONE s')))"
  using assms
proof (induction bs arbitrary: s)
  case Nil
  then show ?case by simp
next
  case (Cons b bs)
  have lb: "length b < 2 ^ 32" "\<forall>b \<in> set bs. length b < 2 ^ 32" using Cons.prems(2) by auto
  show ?case
  proof (rule process_tx_total [OF Cons.prems(1) lb(1), of env])
    fix s1
    assume "process_tx env b s = None" "store_calldata s" "fault_at env b s s1"
    then show ?thesis using session_fault_now by auto
  next
    fix st s1
    assume r: "process_tx env b s = Some (st, s1)"
      "st \<noteq> USTREAM_FAULT \<Longrightarrow> tx_inv s1 \<and> payload s1 = b \<and> workPos s1 \<le> length b \<and> sha3 s1 = sha3 s @ take (workPos s1) b \<and>
        store_calldata s1 = store_calldata s"
      "st = USTREAM_PROCESSING \<Longrightarrow> PARSING_IS_DONE s1 \<or> workPos s1 = length b"
      "st = USTREAM_FINISHED \<Longrightarrow> PARSING_IS_DONE s1"
    have pf: "prefix (take (workPos s1) b) (b @ concat bs)" by (simp add: take_is_prefix prefix_prefix)
    consider (stop) "st \<noteq> USTREAM_PROCESSING" | (isdone) "st = USTREAM_PROCESSING" "PARSING_IS_DONE s1"
      | (more) "st = USTREAM_PROCESSING" "workPos s1 = length b" using r(3) by blast
    then show ?thesis
    proof cases
      case stop
      then show ?thesis using r pf by auto
    next
      case isdone
      then have s1: "tx_inv s1" "store_calldata s1 = store_calldata s" "sha3 s1 = sha3 s @ take (workPos s1) b" using r(2) by auto
      from feed_tx_done [OF s1(1) lb(2) isdone(2), of env] show ?thesis
        using r(1) s1 isdone pf session_fault_later [of env b s s1 bs] by auto
    next
      case more
      then have s1: "tx_inv s1" "sha3 s1 = sha3 s @ b" "store_calldata s1 = store_calldata s" using r(2) by auto
      have step: "feed_tx env (b # bs) s = feed_tx env bs s1" using r(1) more by simp
      from Cons.IH [OF s1(1) lb(2)] show ?thesis
      proof (elim disjE exE conjE)
        assume "feed_tx env bs s1 = None" "store_calldata s1" "session_fault env bs s1"
        then show ?thesis unfolding step using s1(3) session_fault_later [of env b s s1 bs] r(1) more by simp
      next
        fix st' s'
        assume f: "feed_tx env bs s1 = Some (st', s')"
          "st' \<noteq> USTREAM_FAULT \<longrightarrow> tx_inv s' \<and> (\<exists>c. sha3 s' = sha3 s1 @ c \<and> prefix c (concat bs) \<and>
            (st' = USTREAM_PROCESSING \<longrightarrow> PARSING_IS_DONE s' \<or> c = concat bs)) \<and>
            (st' = USTREAM_FINISHED \<longrightarrow> PARSING_IS_DONE s')"
        have "st' \<noteq> USTREAM_FAULT \<longrightarrow> (\<exists>c. sha3 s' = sha3 s @ c \<and> prefix c (concat (b # bs)) \<and>
            (st' = USTREAM_PROCESSING \<longrightarrow> PARSING_IS_DONE s' \<or> c = concat (b # bs)))"
          using f(2) s1(2) by fastforce
        then show ?thesis unfolding step using f by blast
      qed
    qed
  qed
qed

end
