(* ===== verification/Tx_Ctx.thy ===== *)
theory Tx_Ctx
  imports Calldata Network
begin

text \<open>
  Model of \<open>src/features/generic_tx_parser/tx_ctx.c\<close>, the list of the calldata contexts of a
  transaction and of the calls nested in it, and of \<open>gtp_field_table.c\<close>, the table of the fields to
  review.

  The nodes of the list carry their address; the current context is an address or null.
  Reading an address that is not in the list is a fault, as is reading through null.  A calldata
  is owned by exactly one place: the parked pointer or a node.  \<open>tx_ctx_init\<close> is told whether its
  argument is the parked one and clears the parked pointer when the node takes it, so a
  node never shares its calldata with the parked pointer and the test of \<open>delete_tx_ctx\<close>
  for that case never fires.

  The hash context of a node is the list of the bytes it has absorbed.  Parameters, in the record
  \<open>gcs_env\<close>: the hash engine, the derivation of the sender, the names of addresses, the proxies, the
  formatting of amounts and the display of EIP-712 messages.
\<close>

section \<open>Data\<close>

datatype e_param_type =
    PARAM_TYPE_RAW
  | PARAM_TYPE_AMOUNT
  | PARAM_TYPE_TOKEN_AMOUNT
  | PARAM_TYPE_NFT
  | PARAM_TYPE_DATETIME
  | PARAM_TYPE_DURATION
  | PARAM_TYPE_UNIT
  | PARAM_TYPE_ENUM
  | PARAM_TYPE_TRUSTED_NAME
  | PARAM_TYPE_CALLDATA
  | PARAM_TYPE_TOKEN
  | PARAM_TYPE_NETWORK
  | PARAM_TYPE_GROUP
  | PARAM_TYPE_INTENT
  | PARAM_TYPE_SEPARATOR
  | PARAM_TYPE_ADDRESS_BOOK

text \<open>The strings are the allocated buffers, terminator included.\<close>

record s_field_table_entry =
  fe_type :: e_param_type
  fe_key :: string
  fe_value :: string
  fe_extra_data :: "nat option"
  start_intent :: bool
  end_intent :: bool
  is_separator :: bool

record s_tx_info =
  ti_version :: uint8
  ti_chain_id :: uint64
  ti_contract_addr :: bytes
  ti_selector :: bytes
  fields_hash :: bytes
  operation_type :: string
  creator_name :: string
  creator_legal_name :: string
  creator_url :: string
  contract_name :: string
  deploy_date :: string
  signature_len :: uint8
  signature :: bytes

record s_tx_ctx =
  tx_info :: "s_tx_info option"
  calldata :: "s_calldata option"
  tc_from :: bytes
  tc_to :: bytes
  tc_amount :: bytes
  tc_chain_id :: uint64
  fields_hash_ctx :: bytes
  has_amount :: bool

datatype e_addr_name_source = ADDR_NAME_FROM_ADDRESS_BOOK | ADDR_NAME_FROM_TRUSTED_NAME | ADDR_NAME_FROM_RAW

record gcs =
  g_table :: "s_field_table_entry list"
  g_tx_ctx_list :: "(nat \<times> s_tx_ctx) list"
  g_tx_ctx_current :: "nat option"
  gcs_parked :: "s_calldata option"
  g_root_value_shown :: bool
  g_root_from_shown :: bool
  gcs_appState :: app_state
  batch_nb_tx :: uint8
  current_batch_size :: uint8
  info_all_received :: bool
  info_processed :: bool
  gcs_mem :: mem

record gcs_env =
  ge_finalize :: "bytes \<Rightarrow> bytes option"
  ge_sha3_init :: bool
  ge_public_key :: bytes
  ge_712_intent :: bool
  ge_712_title :: "string \<Rightarrow> bool"
  ge_712_value :: "string \<Rightarrow> bool"
  ge_amount :: "bytes \<Rightarrow> nat \<Rightarrow> string \<Rightarrow> string option"
  ge_display_name :: "bytes \<Rightarrow> uint64 \<Rightarrow> (string \<times> e_addr_name_source \<times> nat option) option"
  ge_implem :: "uint64 \<Rightarrow> bytes \<Rightarrow> bytes \<Rightarrow> bytes option"
  ge_networks :: "network_info list"
  ge_config :: chain_config
  ge_format_u64 :: "nat \<Rightarrow> uint64 \<Rightarrow> string option"

definition WEI_TO_ETHER :: nat where "WEI_TO_ETHER = 18"

definition SHARED_CTX_FIELD_1_SIZE :: nat where "SHARED_CTX_FIELD_1_SIZE = 380"

section \<open>Access\<close>

definition ctx_get :: "gcs \<Rightarrow> nat \<Rightarrow> s_tx_ctx option" where
  "ctx_get g i = map_of (g_tx_ctx_list g) i"

definition ctx_ids :: "gcs \<Rightarrow> nat list" where
  "ctx_ids g = map fst (g_tx_ctx_list g)"

text \<open>The nodes in front of a node, the nearest first, and those behind it.\<close>

definition ids_before :: "nat \<Rightarrow> nat list \<Rightarrow> nat list" where
  "ids_before i is = rev (takeWhile (\<lambda>j. j \<noteq> i) is)"

definition ids_after :: "nat \<Rightarrow> nat list \<Rightarrow> nat list" where
  "ids_after i is = tl (dropWhile (\<lambda>j. j \<noteq> i) is)"

definition prev_id :: "nat \<Rightarrow> nat list \<Rightarrow> nat option" where
  "prev_id i is = (case ids_before i is of [] \<Rightarrow> None | j # _ \<Rightarrow> Some j)"

text \<open>The address of a new node is that of no node in the list.\<close>

definition fresh_id :: "nat list \<Rightarrow> nat" where
  "fresh_id is = Suc (fold max is 0)"

definition tx_ctx_is_root :: "gcs \<Rightarrow> bool" where
  "tx_ctx_is_root g \<longleftrightarrow>
     (case ctx_ids g of [] \<Rightarrow> False | i # _ \<Rightarrow> g_tx_ctx_current g = Some i)"

definition get_tx_ctx_count :: "gcs \<Rightarrow> nat" where
  "get_tx_ctx_count g = length (g_tx_ctx_list g)"

text \<open>The getters of the current context: null when there is none.\<close>

definition current_get :: "(s_tx_ctx \<Rightarrow> 'a) \<Rightarrow> 'a \<Rightarrow> gcs \<Rightarrow> 'a option" where
  "current_get f null g =
     (case g_tx_ctx_current g of
        None \<Rightarrow> Some null
      | Some i \<Rightarrow> map_option f (ctx_get g i))"

definition get_current_tx_info :: "gcs \<Rightarrow> s_tx_info option option" where
  "get_current_tx_info g = current_get tx_info None g"

definition get_current_calldata :: "gcs \<Rightarrow> s_calldata option option" where
  "get_current_calldata g = current_get calldata None g"

definition get_current_tx_from :: "gcs \<Rightarrow> bytes option option" where
  "get_current_tx_from g = current_get (\<lambda>c. Some (tc_from c)) None g"

definition get_current_tx_to :: "gcs \<Rightarrow> bytes option option" where
  "get_current_tx_to g = current_get (\<lambda>c. Some (tc_to c)) None g"

definition get_current_tx_amount :: "gcs \<Rightarrow> bytes option option" where
  "get_current_tx_amount g = current_get (\<lambda>c. Some (tc_amount c)) None g"

definition get_current_tx_chain_id :: "gcs \<Rightarrow> uint64 option" where
  "get_current_tx_chain_id g = current_get tc_chain_id 0 g"

definition get_root_tx_info :: "gcs \<Rightarrow> s_tx_info option" where
  "get_root_tx_info g = (case g_tx_ctx_list g of [] \<Rightarrow> None | (_, c) # _ \<Rightarrow> tx_info c)"

definition get_root_calldata :: "gcs \<Rightarrow> s_calldata option" where
  "get_root_calldata g = (case g_tx_ctx_list g of [] \<Rightarrow> None | (_, c) # _ \<Rightarrow> calldata c)"

definition ctx_update :: "nat \<Rightarrow> (s_tx_ctx \<Rightarrow> s_tx_ctx) \<Rightarrow> gcs \<Rightarrow> gcs" where
  "ctx_update i f g =
     g\<lparr>g_tx_ctx_list := map (\<lambda>(j, c). (j, if j = i then f c else c)) (g_tx_ctx_list g)\<rparr>"

definition validate_inst_hash_on :: "gcs_env \<Rightarrow> s_tx_ctx option \<Rightarrow> bool" where
  "validate_inst_hash_on E tx_ctx =
     (case tx_ctx of
        None \<Rightarrow> False
      | Some c \<Rightarrow>
          (case tx_info c of
             None \<Rightarrow> False
           | Some ti \<Rightarrow>
               (case ge_finalize E (fields_hash_ctx c) of
                  None \<Rightarrow> False
                | Some hash \<Rightarrow> fields_hash ti = hash)))"

definition validate_instruction_hash :: "gcs_env \<Rightarrow> gcs \<Rightarrow> bool option" where
  "validate_instruction_hash E g =
     (case g_tx_ctx_current g of
        None \<Rightarrow> Some (validate_inst_hash_on E None)
      | Some i \<Rightarrow> map_option (\<lambda>c. validate_inst_hash_on E (Some c)) (ctx_get g i))"

section \<open>The field table\<close>

definition delete_table_node :: "s_field_table_entry \<Rightarrow> mem \<Rightarrow> mem" where
  "delete_table_node node m = mem_free (mem_free (mem_free m))"

definition field_table_cleanup :: "gcs \<Rightarrow> gcs" where
  "field_table_cleanup g = g\<lparr>g_table := [], gcs_mem := fold delete_table_node (g_table g) (gcs_mem g)\<rparr>"

definition field_table_init :: "gcs \<Rightarrow> bool \<times> gcs" where
  "field_table_init g = (if g_table g \<noteq> [] then (False, field_table_cleanup g) else (True, g))"

text \<open>\<open>strlen (key) + 1\<close> is kept in eight bits, the length of the value in sixteen.\<close>

definition table_entry :: "e_param_type \<Rightarrow> string \<Rightarrow> string \<Rightarrow> nat option \<Rightarrow> bool \<Rightarrow> s_field_table_entry" where
  "table_entry type key val extra_data hash_ok =
     (let key_len = (word_of_nat (length key + 1) :: uint8);
          value_len = (word_of_nat (length val + 1) :: uint16)
      in \<lparr>fe_type = (if type = PARAM_TYPE_INTENT \<or> type = PARAM_TYPE_SEPARATOR then PARAM_TYPE_RAW else type),
          fe_key = take (unat key_len) (key @ [NUL]), fe_value = take (unat value_len) (val @ [NUL]),
          fe_extra_data = extra_data, start_intent = (type = PARAM_TYPE_INTENT),
          end_intent = (if type = PARAM_TYPE_INTENT \<or> type = PARAM_TYPE_SEPARATOR then False else hash_ok),
          is_separator = (type = PARAM_TYPE_SEPARATOR)\<rparr>)"

definition add_to_field_table ::
  "gcs_env \<Rightarrow> e_param_type \<Rightarrow> string option \<Rightarrow> string option \<Rightarrow> nat option \<Rightarrow> gcs \<Rightarrow> (bool \<times> gcs) option" where
  "add_to_field_table E type key val extra_data g =
     (case (key, val) of
        (Some k, Some x) \<Rightarrow>
          if gcs_appState g = APP_STATE_SIGNING_EIP712 then
            Some ((if type = PARAM_TYPE_INTENT \<and> 1 < current_batch_size g then ge_712_intent E else True)
                  \<and> ge_712_title E k \<and> ge_712_value E x, g)
          else
            (let (ok, m) = mem_alloc (gcs_mem g)
             in if \<not> ok then Some (False, g\<lparr>gcs_mem := m\<rparr>)
                else
                  (let (ok, m) = mem_alloc m
                   in if \<not> ok then Some (False, g\<lparr>gcs_mem := mem_free m\<rparr>)
                      else
                        (let (ok, m) = mem_alloc m
                         in if \<not> ok then Some (False, g\<lparr>gcs_mem := mem_free (mem_free m)\<rparr>)
                            else do {
                              hash_ok \<leftarrow> (if type = PARAM_TYPE_INTENT \<or> type = PARAM_TYPE_SEPARATOR then Some False
                                          else validate_instruction_hash E g);
                              Some (True, g\<lparr>gcs_mem := m, g_table := g_table g @ [table_entry type k x extra_data hash_ok]\<rparr>) })))
      | _ \<Rightarrow> Some (False, g))"

definition set_intent_field :: "gcs_env \<Rightarrow> string \<Rightarrow> gcs \<Rightarrow> (bool \<times> gcs) option" where
  "set_intent_field E val g =
     (let type = (if current_batch_size g = 1 then PARAM_TYPE_RAW else PARAM_TYPE_INTENT)
      in add_to_field_table E type (Some ''Transaction type'') (Some val) None g)"

definition field_table_size :: "gcs \<Rightarrow> nat" where
  "field_table_size g = length (g_table g)"

text \<open>The walk stops at the end of the list only when there are elements to skip: the address
  of a field inside of the null node is not null.  The result \<open>Some None\<close> is null.\<close>

fun get_from_table :: "s_field_table_entry list \<Rightarrow> nat \<Rightarrow> s_field_table_entry option option" where
  "get_from_table [] 0 = None"
| "get_from_table (e # es) 0 = Some (Some e)"
| "get_from_table [] (Suc n) = Some None"
| "get_from_table (e # es) (Suc n) = get_from_table es n"

definition get_from_field_table :: "gcs \<Rightarrow> nat \<Rightarrow> s_field_table_entry option option" where
  "get_from_field_table g index = get_from_table (g_table g) index"

section \<open>Contexts\<close>

definition delete_tx_ctx :: "s_tx_ctx \<Rightarrow> mem \<Rightarrow> mem" where
  "delete_tx_ctx node m =
     (let m = (if tx_info node \<noteq> None then mem_free m else m);
          m = (case calldata node of None \<Rightarrow> m | Some cd \<Rightarrow> calldata_delete cd m)
      in mem_free m)"

definition tx_ctx_remove :: "nat \<Rightarrow> gcs \<Rightarrow> gcs option" where
  "tx_ctx_remove i g = do {
     c \<leftarrow> ctx_get g i;
     Some (g\<lparr>g_tx_ctx_list := filter (\<lambda>(j, _). j \<noteq> i) (g_tx_ctx_list g),
             gcs_mem := delete_tx_ctx c (gcs_mem g)\<rparr>) }"

definition tx_ctx_pop :: "gcs \<Rightarrow> gcs option" where
  "tx_ctx_pop g = do {
     i \<leftarrow> g_tx_ctx_current g;
     c \<leftarrow> ctx_get g i;
     tx_ctx_remove i (g\<lparr>g_tx_ctx_current := prev_id i (ctx_ids g)\<rparr>) }"

definition name_param_type :: "e_addr_name_source \<Rightarrow> e_param_type" where
  "name_param_type src =
     (case src of
        ADDR_NAME_FROM_ADDRESS_BOOK \<Rightarrow> PARAM_TYPE_ADDRESS_BOOK
      | ADDR_NAME_FROM_TRUSTED_NAME \<Rightarrow> PARAM_TYPE_TRUSTED_NAME
      | _ \<Rightarrow> PARAM_TYPE_RAW)"

text \<open>The three fields of an empty call: amount, recipient, network.\<close>

definition empty_tx_amount :: "gcs_env \<Rightarrow> s_tx_ctx \<Rightarrow> gcs \<Rightarrow> (bool \<times> gcs) option" where
  "empty_tx_amount E c g =
     (if has_amount c then do {
        (ok, g) \<leftarrow> set_intent_field E ''Send'' g;
        if \<not> ok then Some (False, g)
        else
          (let ticker = get_displayable_ticker (ge_networks E) (tc_chain_id c) (ge_config E) True
           in case ge_amount E (tc_amount c) WEI_TO_ETHER ticker of
                None \<Rightarrow> Some (False, g)
              | Some buf \<Rightarrow> add_to_field_table E PARAM_TYPE_AMOUNT (Some ''Amount'') (Some buf) None g) }
      else set_intent_field E ''Empty transaction'' g)"

definition empty_tx_recipient :: "gcs_env \<Rightarrow> s_tx_ctx \<Rightarrow> gcs \<Rightarrow> (bool \<times> gcs) option" where
  "empty_tx_recipient E c g =
     (case ge_display_name E (tc_to c) (tc_chain_id c) of
        None \<Rightarrow> Some (False, g)
      | Some (buf, name_source, extra_data) \<Rightarrow>
          add_to_field_table E (name_param_type name_source) (Some ''To'') (Some buf) extra_data g)"

definition empty_tx_network :: "gcs_env \<Rightarrow> s_tx_ctx \<Rightarrow> gcs \<Rightarrow> (bool \<times> gcs) option" where
  "empty_tx_network E c g =
     (if (case g_tx_ctx_list g of [] \<Rightarrow> True | (_, root) # _ \<Rightarrow> tc_chain_id c \<noteq> tc_chain_id root) then
        (case get_network_as_string_from_chain_id (ge_format_u64 E) (ge_networks E) SHARED_CTX_FIELD_1_SIZE (tc_chain_id c) of
           None \<Rightarrow> Some (False, g)
         | Some buf \<Rightarrow> add_to_field_table E PARAM_TYPE_RAW (Some ''Network'') (Some buf) None g)
      else Some (True, g))"

definition empty_tx_fields :: "gcs_env \<Rightarrow> s_tx_ctx \<Rightarrow> gcs \<Rightarrow> (bool \<times> gcs) option" where
  "empty_tx_fields E c g = do {
     (ok, g) \<leftarrow> empty_tx_amount E c g;
     if \<not> ok then Some (False, g)
     else do {
       (ok, g) \<leftarrow> empty_tx_recipient E c g;
       if \<not> ok then Some (False, g) else empty_tx_network E c g } }"

definition process_empty_tx :: "gcs_env \<Rightarrow> nat \<Rightarrow> gcs \<Rightarrow> (bool \<times> gcs) option" where
  "process_empty_tx E i g = do {
     c \<leftarrow> ctx_get g i;
     (ok, g) \<leftarrow> empty_tx_fields E c g;
     if \<not> ok then Some (False, g)
     else do { g \<leftarrow> tx_ctx_remove i g; Some (True, g) } }"

text \<open>The loops read the link of a node before they remove it, so they visit the nodes of the
  list as it was.\<close>

fun process_empty_txs :: "gcs_env \<Rightarrow> nat list \<Rightarrow> gcs \<Rightarrow> (bool \<times> gcs) option" where
  "process_empty_txs E [] g = Some (True, g)"
| "process_empty_txs E (i # is) g = do {
     c \<leftarrow> ctx_get g i;
     if calldata c \<noteq> None then Some (True, g)
     else do {
       (ok, g) \<leftarrow> process_empty_tx E i g;
       if \<not> ok then Some (False, g) else process_empty_txs E is g } }"

definition process_empty_txs_before :: "gcs_env \<Rightarrow> gcs \<Rightarrow> (bool \<times> gcs) option" where
  "process_empty_txs_before E g = do {
     i \<leftarrow> g_tx_ctx_current g;
     c \<leftarrow> ctx_get g i;
     process_empty_txs E (ids_before i (ctx_ids g)) g }"

definition process_empty_txs_after :: "gcs_env \<Rightarrow> gcs \<Rightarrow> (bool \<times> gcs) option" where
  "process_empty_txs_after E g = do {
     i \<leftarrow> g_tx_ctx_current g;
     c \<leftarrow> ctx_get g i;
     process_empty_txs E (ids_after i (ctx_ids g)) g }"

definition find_matching_tx_ctx :: "gcs_env \<Rightarrow> bytes \<Rightarrow> bytes \<Rightarrow> uint64 \<Rightarrow> gcs \<Rightarrow> bool \<times> gcs" where
  "find_matching_tx_ctx E contract_addr sel chain_id g =
     (case find (\<lambda>(_, c). tx_info c = None \<and> calldata c \<noteq> None) (g_tx_ctx_list g) of
        None \<Rightarrow> (False, g)
      | Some (i, c) \<Rightarrow>
          if (case ge_implem E chain_id (tc_to c) sel of None \<Rightarrow> tc_to c | Some p \<Rightarrow> p) = contract_addr
             \<and> sel = selector (the (calldata c)) \<and> chain_id = tc_chain_id c
          then (True, g\<lparr>g_tx_ctx_current := Some i\<rparr>)
          else (False, g))"

definition tx_ctx_cleanup :: "gcs \<Rightarrow> gcs" where
  "tx_ctx_cleanup g =
     g\<lparr>g_tx_ctx_list := [], gcs_mem := fold delete_tx_ctx (map snd (g_tx_ctx_list g)) (gcs_mem g),
       g_tx_ctx_current := None\<rparr>"

definition set_tx_info_into_tx_ctx :: "gcs_env \<Rightarrow> s_tx_info \<Rightarrow> gcs \<Rightarrow> (bool \<times> gcs) option" where
  "set_tx_info_into_tx_ctx E ti g =
     (case g_tx_ctx_current g of
        None \<Rightarrow> Some (False, g)
      | Some i \<Rightarrow> do {
          c \<leftarrow> ctx_get g i;
          let g = ctx_update i (\<lambda>c. c\<lparr>tx_info := Some ti\<rparr>) g;
          (ok, g) \<leftarrow> (if tx_ctx_is_root g then
                        (if gcs_appState g = APP_STATE_SIGNING_EIP712
                         then set_intent_field E (c_str (operation_type ti)) g else Some (True, g))
                      else set_intent_field E (c_str (operation_type ti)) g);
          if \<not> ok then Some (False, g)
          else if gcs_appState g = APP_STATE_SIGNING_EIP712 \<or> \<not> tx_ctx_is_root g then
            (if \<not> ge_sha3_init E then Some (False, g)
             else
               (case ge_finalize E [] of
                  None \<Rightarrow> Some (False, g)
                | Some hash \<Rightarrow>
                    if hash = fields_hash ti then do { g \<leftarrow> tx_ctx_pop g; Some (True, g) }
                    else Some (True, g)))
          else Some (True, g) })"

definition tx_ctx_zero :: "s_calldata option \<Rightarrow> s_tx_ctx" where
  "tx_ctx_zero cd =
     \<lparr>tx_info = None, calldata = cd, tc_from = replicate ADDRESS_LENGTH 0, tc_to = replicate ADDRESS_LENGTH 0,
      tc_amount = replicate INT256_LENGTH 0, tc_chain_id = 0, fields_hash_ctx = [], has_amount = False\<rparr>"

text \<open>The defaults of a new node: the sender of the transaction for the first one, else what the
  parent has.  \<open>Some None\<close> is a failure.\<close>

definition tx_ctx_defaults :: "gcs_env \<Rightarrow> s_tx_ctx \<Rightarrow> gcs \<Rightarrow> (s_tx_ctx option \<times> gcs) option" where
  "tx_ctx_defaults E node g =
     (if get_tx_ctx_count g = 0 then
        (let node = node\<lparr>tc_from := ge_public_key E\<rparr>
         in if gcs_appState g = APP_STATE_SIGNING_EIP712 then
              (if \<not> info_all_received g \<or> info_processed g then Some (None, g)
               else Some (Some node, g\<lparr>info_processed := True\<rparr>))
            else Some (Some node, g))
      else do {
        parent \<leftarrow> (case g_tx_ctx_current g of
                     None \<Rightarrow> Some (snd (last (g_tx_ctx_list g)))
                   | Some i \<Rightarrow> ctx_get g i);
        Some (Some (node\<lparr>tc_from := tc_from parent, tc_chain_id := tc_chain_id parent\<rparr>), g) })"

definition tx_ctx_args :: "bytes option \<Rightarrow> bytes option \<Rightarrow> bytes option \<Rightarrow> uint64 option \<Rightarrow> s_tx_ctx \<Rightarrow> s_tx_ctx" where
  "tx_ctx_args frm to amount chain_id node =
     (let node = (case frm of None \<Rightarrow> node | Some b \<Rightarrow> node\<lparr>tc_from := b\<rparr>);
          node = (case to of None \<Rightarrow> node | Some b \<Rightarrow> node\<lparr>tc_to := b\<rparr>);
          node = (case amount of None \<Rightarrow> node | Some b \<Rightarrow> node\<lparr>tc_amount := b, has_amount := True\<rparr>)
      in case chain_id of None \<Rightarrow> node | Some c \<Rightarrow> node\<lparr>tc_chain_id := c\<rparr>)"

definition tx_ctx_init ::
  "gcs_env \<Rightarrow> bool \<Rightarrow> s_calldata option \<Rightarrow> bytes option \<Rightarrow> bytes option \<Rightarrow> bytes option \<Rightarrow> uint64 option \<Rightarrow>
   gcs \<Rightarrow> (bool \<times> gcs) option" where
  "tx_ctx_init E parked cd frm to amount chain_id g =
     (let (ok, m) = mem_alloc (gcs_mem g)
      in if \<not> ok then Some (False, g\<lparr>gcs_mem := m\<rparr>)
         else do {
           (node, g) \<leftarrow> tx_ctx_defaults E (tx_ctx_zero cd) (g\<lparr>gcs_mem := m\<rparr>);
           case node of
             None \<Rightarrow> Some (False, g\<lparr>gcs_mem := mem_free (gcs_mem g)\<rparr>)
           | Some node \<Rightarrow>
               let node = tx_ctx_args frm to amount chain_id node
               in if \<not> ge_sha3_init E then Some (False, g\<lparr>gcs_mem := mem_free (gcs_mem g)\<rparr>)
                  else
                    (let first = (g_tx_ctx_list g = []);
                         g = g\<lparr>g_tx_ctx_list := g_tx_ctx_list g @ [(fresh_id (ctx_ids g), node)]\<rparr>;
                         g = (if parked then g\<lparr>gcs_parked := None\<rparr> else g)
                     in if gcs_appState g = APP_STATE_SIGNING_TX \<and> first then Some (field_table_init g)
                        else Some (True, g)) })"

definition gcs_set_root_value_shown :: "gcs \<Rightarrow> gcs" where
  "gcs_set_root_value_shown g = g\<lparr>g_root_value_shown := True\<rparr>"

definition gcs_set_root_from_shown :: "gcs \<Rightarrow> gcs" where
  "gcs_set_root_from_shown g = g\<lparr>g_root_from_shown := True\<rparr>"

text \<open>\<open>ui_gcs_cleanup\<close> releases the memory of the screens only.\<close>

definition gcs_cleanup :: "gcs \<Rightarrow> gcs" where
  "gcs_cleanup g =
     (let g = tx_ctx_cleanup (field_table_cleanup g);
          g = g\<lparr>g_root_value_shown := False, g_root_from_shown := False\<rparr>
      in case gcs_parked g of
           None \<Rightarrow> g
         | Some cd \<Rightarrow> g\<lparr>gcs_mem := calldata_delete cd (gcs_mem g), gcs_parked := None\<rparr>)"

end
