(* ===== verification/Tx_Ctx_Inv.thy ===== *)
theory Tx_Ctx_Inv
  imports Tx_Ctx
begin

text \<open>
  What the operations on the calldata contexts keep: the addresses are distinct and the current one
  is in the list, no block is lost, and contexts are described in the order of the calls.
\<close>

section \<open>Invariant\<close>

definition ctx_blocks :: "s_tx_ctx \<Rightarrow> nat" where
  "ctx_blocks c = 1 + (if tx_info c = None then 0 else 1)
     + (case calldata c of None \<Rightarrow> 0 | Some cd \<Rightarrow> calldata_blocks cd)"

definition gcs_blocks :: "gcs \<Rightarrow> nat" where
  "gcs_blocks g = 3 * length (g_table g) + sum_list (map (ctx_blocks \<circ> snd) (g_tx_ctx_list g))
     + (case gcs_parked g of None \<Rightarrow> 0 | Some cd \<Rightarrow> calldata_blocks cd)"

definition current_ok :: "gcs \<Rightarrow> bool" where
  "current_ok g \<longleftrightarrow> (case g_tx_ctx_current g of None \<Rightarrow> True | Some i \<Rightarrow> i \<in> set (ctx_ids g))"

text \<open>A context whose call is described stands behind no call that is not.\<close>

definition review_order :: "(nat \<times> s_tx_ctx) list \<Rightarrow> bool" where
  "review_order l \<longleftrightarrow>
     sorted_wrt (\<lambda>(_, a) (_, b). tx_info b \<noteq> None \<longrightarrow> calldata a \<noteq> None \<longrightarrow> tx_info a \<noteq> None) l"

definition gcs_inv :: "gcs \<Rightarrow> bool" where
  "gcs_inv g \<longleftrightarrow> distinct (ctx_ids g) \<and> current_ok g \<and> review_order (g_tx_ctx_list g) \<and> gcs_blocks g \<le> live (gcs_mem g)"

text \<open>No block is lost and none is used that is not accounted for.\<close>

definition gcs_balanced :: "gcs \<Rightarrow> gcs \<Rightarrow> bool" where
  "gcs_balanced g g' \<longleftrightarrow> live (gcs_mem g') + gcs_blocks g = live (gcs_mem g) + gcs_blocks g'"

lemma gcs_balanced_refl [simp]: "gcs_balanced g g"
  by (simp add: gcs_balanced_def)

lemma gcs_balanced_trans [trans]: "gcs_balanced g g' \<Longrightarrow> gcs_balanced g' g'' \<Longrightarrow> gcs_balanced g g''"
  by (simp add: gcs_balanced_def)

lemma ctx_get_Some_iff: "distinct (ctx_ids g) \<Longrightarrow> ctx_get g i = Some c \<longleftrightarrow> (i, c) \<in> set (g_tx_ctx_list g)"
  by (simp add: ctx_get_def ctx_ids_def)

lemma ctx_get_ex: "i \<in> set (ctx_ids g) \<Longrightarrow> \<exists>c. ctx_get g i = Some c"
  unfolding ctx_get_def ctx_ids_def set_map map_of_eq_None_iff [symmetric] by (metis map_of_eq_None_iff not_None_eq)

lemma gcs_invD:
  assumes "gcs_inv g"
  shows "distinct (ctx_ids g)" "review_order (g_tx_ctx_list g)" "gcs_blocks g \<le> live (gcs_mem g)"
    "\<And>i. g_tx_ctx_current g = Some i \<Longrightarrow> \<exists>c. ctx_get g i = Some c"
  using assms ctx_get_ex by (auto simp: gcs_inv_def current_ok_def)

section \<open>The table\<close>

text \<open>An operation on the table appends entries and takes three blocks for each.\<close>

definition table_step :: "gcs \<Rightarrow> (bool \<times> gcs) option \<Rightarrow> bool" where
  "table_step g r \<longleftrightarrow> (\<exists>ok m es. r = Some (ok, g\<lparr>gcs_mem := m, g_table := g_table g @ es\<rparr>)
     \<and> live m = live (gcs_mem g) + 3 * length es)"

lemma table_stepI:
  "r = Some (ok, g\<lparr>gcs_mem := m, g_table := g_table g @ es\<rparr>) \<Longrightarrow> live m = live (gcs_mem g) + 3 * length es \<Longrightarrow> table_step g r"
  unfolding table_step_def by blast

lemma table_step_same [simp]: "table_step g (Some (ok, g))"
  unfolding table_step_def by (intro exI [of _ ok] exI [of _ "gcs_mem g"] exI [of _ "[]"]) simp

lemma table_step_bind:
  assumes "table_step g r" and "\<And>ok m es. table_step (g\<lparr>gcs_mem := m, g_table := g_table g @ es\<rparr>) (f (ok, g\<lparr>gcs_mem := m, g_table := g_table g @ es\<rparr>))"
  shows "table_step g (Option.bind r f)"
proof -
  obtain ok m es where r: "r = Some (ok, g\<lparr>gcs_mem := m, g_table := g_table g @ es\<rparr>)" "live m = live (gcs_mem g) + 3 * length es"
    using assms(1) unfolding table_step_def by blast
  obtain ok' m' es' where f: "f (ok, g\<lparr>gcs_mem := m, g_table := g_table g @ es\<rparr>) =
      Some (ok', g\<lparr>gcs_mem := m', g_table := g_table g @ es @ es'\<rparr>)" "live m' = live m + 3 * length es'"
    using assms(2) [where ok = ok and m = m and es = es] unfolding table_step_def by auto
  show ?thesis unfolding table_step_def
    by (intro exI [of _ ok'] exI [of _ m'] exI [of _ "es @ es'"]) (use r f in simp)
qed

lemma validate_total: "current_ok g \<Longrightarrow> \<exists>b. validate_instruction_hash E g = Some b"
  using ctx_get_ex by (fastforce simp: validate_instruction_hash_def current_ok_def split: option.splits)

lemma add_to_field_table_step:
  assumes "current_ok g"
  shows "table_step g (add_to_field_table E type key val extra g)"
proof -
  obtain b where b: "validate_instruction_hash E g = Some b" using validate_total [OF assms] by blast
  have same: "table_step g (Some (ok, g\<lparr>gcs_mem := m\<rparr>))" if "live m = live (gcs_mem g)" for ok m
    unfolding table_step_def using that by (intro exI [of _ ok] exI [of _ m] exI [of _ "[]"]) simp
  show ?thesis
  proof (cases "key = None \<or> val = None \<or> gcs_appState g = APP_STATE_SIGNING_EIP712")
    case True
    then show ?thesis by (auto simp: add_to_field_table_def split: option.splits)
  next
    case False
    then obtain k x where kx: "key = Some k" "val = Some x" "gcs_appState g \<noteq> APP_STATE_SIGNING_EIP712" by auto
    show ?thesis
    proof (cases "gcs_mem g" rule: mem_alloc_cases)
      case (fail m1)
      then show ?thesis using kx same by (simp add: add_to_field_table_def)
    next
      case ok1: (ok m1)
      show ?thesis
      proof (cases m1 rule: mem_alloc_cases)
        case (fail m2)
        then show ?thesis using kx same ok1 by (simp add: add_to_field_table_def)
      next
        case ok2: (ok m2)
        show ?thesis
        proof (cases m2 rule: mem_alloc_cases)
          case (fail m3)
          then show ?thesis using kx same ok1 ok2 by (simp add: add_to_field_table_def)
        next
          case (ok m3)
          let ?b = "if type = PARAM_TYPE_INTENT \<or> type = PARAM_TYPE_SEPARATOR then False else b"
          have "add_to_field_table E type key val extra g =
              Some (True, g\<lparr>gcs_mem := m3, g_table := g_table g @ [table_entry type k x extra ?b]\<rparr>)"
            using kx ok ok1 ok2 b by (simp add: add_to_field_table_def)
          then show ?thesis by (rule table_stepI) (use ok ok1 ok2 in simp)
        qed
      qed
    qed
  qed
qed

lemma current_ok_upd [simp]:
  "current_ok (g\<lparr>gcs_mem := m, g_table := t\<rparr>) = current_ok g" "ctx_ids (g\<lparr>gcs_mem := m, g_table := t\<rparr>) = ctx_ids g"
  "ctx_get (g\<lparr>gcs_mem := m, g_table := t\<rparr>) = ctx_get g"
  by (simp_all add: current_ok_def ctx_ids_def ctx_get_def fun_eq_iff split: option.split)

lemma set_intent_field_step: "current_ok g \<Longrightarrow> table_step g (set_intent_field E x g)"
  by (simp add: set_intent_field_def Let_def add_to_field_table_step)

lemma empty_tx_steps:
  assumes "current_ok g"
  shows "table_step g (empty_tx_amount E c g)" "table_step g (empty_tx_recipient E c g)" "table_step g (empty_tx_network E c g)"
  unfolding empty_tx_amount_def empty_tx_recipient_def empty_tx_network_def
  using assms by (auto simp: Let_def set_intent_field_step add_to_field_table_step intro!: table_step_bind
      split: option.split list.split)

section \<open>Removal\<close>

lemma delete_tx_ctx_live: "ctx_blocks c \<le> live m \<Longrightarrow> live (delete_tx_ctx c m) = live m - ctx_blocks c"
  by (auto simp: delete_tx_ctx_def ctx_blocks_def Let_def calldata_delete_live split: option.splits)

text \<open>The sum of the blocks without a node.\<close>

lemma sum_list_remove:
  fixes f :: "'a \<Rightarrow> nat"
  shows "distinct (map fst l) \<Longrightarrow> (i, c) \<in> set l \<Longrightarrow>
   sum_list (map (f \<circ> snd) l) = f c + sum_list (map (f \<circ> snd) (filter (\<lambda>(j, _). j \<noteq> i) l))"
proof (induction l)
  case (Cons x l)
  show ?case
  proof (cases "fst x = i")
    case True
    then have "i \<notin> fst ` set l" using Cons.prems(1) by simp
    then have "fst y \<noteq> i" if "y \<in> set l" for y using that by blast
    then have "filter (\<lambda>(j, _). j \<noteq> i) l = l" by (simp add: filter_id_conv split_beta)
    moreover have "x = (i, c)" using Cons.prems(2) True \<open>i \<notin> fst ` set l\<close> by (cases x) force
    ultimately show ?thesis by simp
  next
    case False
    then show ?thesis using Cons by (cases x) auto
  qed
qed simp

lemma review_order_filter: "review_order l \<Longrightarrow> review_order (filter P l)"
  by (simp add: review_order_def sorted_wrt_filter)

lemma map_fst_filter: "map fst (filter (\<lambda>(j, _). P j) l) = filter P (map fst l)"
  by (induction l) auto

lemma tx_ctx_remove_inv:
  assumes inv: "gcs_inv g" and c: "ctx_get g i = Some c" and cur: "g_tx_ctx_current g \<noteq> Some i"
  shows "\<exists>g'. tx_ctx_remove i g = Some g' \<and> gcs_inv g' \<and> gcs_balanced g g' \<and>
     g' = g\<lparr>g_tx_ctx_list := filter (\<lambda>(j, _). j \<noteq> i) (g_tx_ctx_list g), gcs_mem := gcs_mem g'\<rparr>"
proof -
  let ?g' = "g\<lparr>g_tx_ctx_list := filter (\<lambda>(j, _). j \<noteq> i) (g_tx_ctx_list g), gcs_mem := delete_tx_ctx c (gcs_mem g)\<rparr>"
  note d = gcs_invD [OF inv]
  have mem: "(i, c) \<in> set (g_tx_ctx_list g)" using c d(1) by (simp add: ctx_get_Some_iff)
  have s: "sum_list (map (ctx_blocks \<circ> snd) (g_tx_ctx_list g)) =
      ctx_blocks c + sum_list (map (ctx_blocks \<circ> snd) (filter (\<lambda>(j, _). j \<noteq> i) (g_tx_ctx_list g)))"
    using d(1) mem by (intro sum_list_remove) (simp_all add: ctx_ids_def)
  then have b: "gcs_blocks g = ctx_blocks c + gcs_blocks ?g'" by (simp add: gcs_blocks_def)
  then have l: "live (gcs_mem ?g') = live (gcs_mem g) - ctx_blocks c" using d(3) by (simp add: delete_tx_ctx_live)
  have ids: "ctx_ids ?g' = filter (\<lambda>j. j \<noteq> i) (ctx_ids g)" by (simp add: ctx_ids_def map_fst_filter)
  have "gcs_inv ?g'" "gcs_balanced g ?g'"
    using inv cur b l ids by (auto simp: gcs_inv_def gcs_balanced_def current_ok_def review_order_filter split: option.splits)
  then show ?thesis using c by (simp add: tx_ctx_remove_def)
qed

section \<open>Empty calls\<close>

lemma table_stepE:
  assumes "table_step g r"
  obtains ok m es where "r = Some (ok, g\<lparr>gcs_mem := m, g_table := g_table g @ es\<rparr>)" "live m = live (gcs_mem g) + 3 * length es"
  using assms unfolding table_step_def by blast

lemma gcs_blocks_table [simp]:
  "gcs_blocks (g\<lparr>gcs_mem := m, g_table := g_table g @ es\<rparr>) = gcs_blocks g + 3 * length es"
  by (simp add: gcs_blocks_def)

lemma table_upd_inv:
  assumes "gcs_inv g" "live m = live (gcs_mem g) + 3 * length es"
  shows "gcs_inv (g\<lparr>gcs_mem := m, g_table := g_table g @ es\<rparr>)" "gcs_balanced g (g\<lparr>gcs_mem := m, g_table := g_table g @ es\<rparr>)"
  using assms by (auto simp: gcs_inv_def gcs_balanced_def)

lemma gcs_inv_current_ok: "gcs_inv g \<Longrightarrow> current_ok g"
  by (simp add: gcs_inv_def)

lemma empty_tx_fields_step: "current_ok g \<Longrightarrow> table_step g (empty_tx_fields E c g)"
  unfolding empty_tx_fields_def by (auto intro!: table_step_bind simp: empty_tx_steps)

text \<open>What a loop over empty calls may change: entries are added to the table and some of these
  calls leave the list.\<close>

definition emptied :: "nat set \<Rightarrow> gcs \<Rightarrow> gcs \<Rightarrow> bool" where
  "emptied R g g' \<longleftrightarrow> (\<exists>m es. g' = g\<lparr>gcs_mem := m, g_table := g_table g @ es,
      g_tx_ctx_list := filter (\<lambda>(j, _). j \<notin> R) (g_tx_ctx_list g)\<rparr>)"

lemma emptied_refl: "emptied {} g (g\<lparr>gcs_mem := m, g_table := g_table g @ es\<rparr>)"
  unfolding emptied_def by (intro exI [of _ m] exI [of _ es]) (simp add: filter_id_conv)

lemma emptied_trans: "emptied R g g' \<Longrightarrow> emptied S g' g'' \<Longrightarrow> emptied (R \<union> S) g g''"
proof -
  assume 1: "emptied R g g'" "emptied S g' g''"
  have f: "filter (\<lambda>(j, _). j \<notin> S) (filter (\<lambda>(j, _). j \<notin> R) l) = filter (\<lambda>(j, _). j \<notin> R \<union> S) l" for l :: "(nat \<times> s_tx_ctx) list"
    by (induction l) auto
  obtain m es m' es' where
    "g' = g\<lparr>gcs_mem := m, g_table := g_table g @ es, g_tx_ctx_list := filter (\<lambda>(j, _). j \<notin> R) (g_tx_ctx_list g)\<rparr>"
    "g'' = g'\<lparr>gcs_mem := m', g_table := g_table g' @ es', g_tx_ctx_list := filter (\<lambda>(j, _). j \<notin> S) (g_tx_ctx_list g')\<rparr>"
    using 1 unfolding emptied_def by (elim exE)
  then have "g'' = g\<lparr>gcs_mem := m', g_table := g_table g @ es @ es', g_tx_ctx_list := filter (\<lambda>(j, _). j \<notin> R \<union> S) (g_tx_ctx_list g)\<rparr>"
    using f [of "g_tx_ctx_list g"] by simp
  then show ?thesis unfolding emptied_def by blast
qed

lemma process_empty_tx_inv:
  assumes inv: "gcs_inv g" and c: "ctx_get g i = Some c" and cur: "g_tx_ctx_current g \<noteq> Some i"
  obtains ok g' where "process_empty_tx E i g = Some (ok, g')" "gcs_inv g'" "gcs_balanced g g'"
    "emptied (if ok then {i} else {}) g g'"
proof (rule table_stepE [OF empty_tx_fields_step [OF gcs_inv_current_ok [OF inv], where E = E and c = c]])
  fix ok m es
  let ?g1 = "g\<lparr>gcs_mem := m, g_table := g_table g @ es\<rparr>"
  assume r: "empty_tx_fields E c g = Some (ok, ?g1)" and l: "live m = live (gcs_mem g) + 3 * length es"
  note t = table_upd_inv [OF inv l]
  show ?thesis
  proof (cases ok)
    case False
    then have "process_empty_tx E i g = Some (False, ?g1)" using c r by (simp add: process_empty_tx_def)
    then show ?thesis using t emptied_refl that [of False ?g1] by simp
  next
    case True
    obtain g' where g': "tx_ctx_remove i ?g1 = Some g'" "gcs_inv g'" "gcs_balanced ?g1 g'"
      "g' = ?g1\<lparr>g_tx_ctx_list := filter (\<lambda>(j, _). j \<noteq> i) (g_tx_ctx_list ?g1), gcs_mem := gcs_mem g'\<rparr>"
      using tx_ctx_remove_inv [OF t(1), of i c] c cur by auto
    have "process_empty_tx E i g = Some (True, g')" using c r True g'(1) by (simp add: process_empty_tx_def)
    moreover have "emptied {i} g g'"
      unfolding emptied_def by (rule exI [of _ "gcs_mem g'"], rule exI [of _ es]) (subst g'(4), simp)
    ultimately show ?thesis using that [of True g'] g' gcs_balanced_trans [OF t(2)] by simp
  qed
qed

lemma emptied_current [simp]: "emptied R g g' \<Longrightarrow> g_tx_ctx_current g' = g_tx_ctx_current g"
  by (auto simp: emptied_def)

lemma emptied_list: "emptied R g g' \<Longrightarrow> g_tx_ctx_list g' = filter (\<lambda>(j, _). j \<notin> R) (g_tx_ctx_list g)"
  by (auto simp: emptied_def)

lemma emptied_get:
  assumes "emptied R g g'" "j \<notin> R"
  shows "ctx_get g' j = ctx_get g j"
proof -
  have "map_of (filter (\<lambda>(j, _). j \<notin> R) l) j = map_of l j" for l :: "(nat \<times> s_tx_ctx) list"
    using assms(2) by (induction l) auto
  then show ?thesis using emptied_list [OF assms(1)] by (simp add: ctx_get_def)
qed

text \<open>The loops: the calls that leave the list are empty ones, none of them the current one.\<close>

lemma process_empty_txs_inv:
  assumes "gcs_inv g" "distinct is" "set is \<subseteq> set (ctx_ids g)" "\<forall>i \<in> set is. g_tx_ctx_current g \<noteq> Some i"
  shows "\<exists>ok g' R. process_empty_txs E is g = Some (ok, g') \<and> gcs_inv g' \<and> gcs_balanced g g' \<and> emptied R g g' \<and>
     R \<subseteq> set is \<and> (\<forall>i \<in> R. \<forall>c. ctx_get g i = Some c \<longrightarrow> calldata c = None)"
  using assms
proof (induction "is" arbitrary: g)
  case Nil
  have "emptied {} g g" using emptied_refl [where g = g and m = "gcs_mem g" and es = "[]"] by simp
  then show ?case using Nil(1) by (intro exI [of _ True] exI [of _ g] exI [of _ "{}"]) simp
next
  case (Cons i "is")
  have "i \<in> set (ctx_ids g)" using Cons.prems(3) by simp
  then obtain c where c: "ctx_get g i = Some c" using ctx_get_ex by blast
  show ?case
  proof (cases "calldata c = None")
    case False
    have "emptied {} g g" using emptied_refl [where g = g and m = "gcs_mem g" and es = "[]"] by simp
    then show ?thesis using False c Cons.prems(1) by (intro exI [of _ True] exI [of _ g] exI [of _ "{}"]) simp
  next
    case True
    have cur: "g_tx_ctx_current g \<noteq> Some i" using Cons.prems(4) by simp
    obtain ok g1 where g1: "process_empty_tx E i g = Some (ok, g1)" "gcs_inv g1" "gcs_balanced g g1"
      "emptied (if ok then {i} else {}) g g1"
      by (rule process_empty_tx_inv [OF Cons.prems(1) c cur])
    show ?thesis
    proof (cases ok)
      case False
      then show ?thesis using c True g1 by (intro exI [of _ False] exI [of _ g1] exI [of _ "{}"]) simp
    next
      case ok: True
      then have e: "emptied {i} g g1" using g1(4) by simp
      have "set (ctx_ids g1) = set (ctx_ids g) - {i}" using emptied_list [OF e] by (auto simp: ctx_ids_def map_fst_filter)
      then have "set is \<subseteq> set (ctx_ids g1)" using Cons.prems(2,3) by auto
      then obtain ok' g2 R where g2: "process_empty_txs E is g1 = Some (ok', g2)" "gcs_inv g2" "gcs_balanced g1 g2"
        "emptied R g1 g2" "R \<subseteq> set is" "\<forall>i \<in> R. \<forall>c. ctx_get g1 i = Some c \<longrightarrow> calldata c = None"
        using Cons.IH [of g1] g1(2) Cons.prems(2,4) e by auto
      have get: "ctx_get g1 j = ctx_get g j" if "j \<in> R" for j
      proof (rule emptied_get [OF e])
        show "j \<notin> {i}" using that g2(5) Cons.prems(2) by auto
      qed
      have p: "process_empty_txs E (i # is) g = Some (ok', g2)" using c True g1(1) ok g2(1) by simp
      have r: "\<forall>j \<in> insert i R. \<forall>c. ctx_get g j = Some c \<longrightarrow> calldata c = None" using g2(6) get c True by auto
      have "emptied (insert i R) g g2" using emptied_trans [OF e g2(4)] by simp
      then show ?thesis using p r g2(2,5) gcs_balanced_trans [OF g1(3) g2(3)]
        by (intro exI [of _ ok'] exI [of _ g2] exI [of _ "insert i R"]) auto
    qed
  qed
qed

lemma ids_before_after:
  assumes "distinct is" "i \<in> set is"
  shows "distinct (ids_before i is)" "set (ids_before i is) \<subseteq> set is - {i}"
    "distinct (ids_after i is)" "set (ids_after i is) \<subseteq> set is - {i}"
proof -
  obtain xs ys where "is": "is = xs @ i # ys" "i \<notin> set xs" using assms(2) by (metis split_list_first)
  moreover have "dropWhile (\<lambda>j. j \<noteq> i) (xs @ zs) = dropWhile (\<lambda>j. j \<noteq> i) zs" for zs
    using "is"(2) by (induction xs) auto
  ultimately have "takeWhile (\<lambda>j. j \<noteq> i) is = xs" "dropWhile (\<lambda>j. j \<noteq> i) is = i # ys"
    by (auto simp: takeWhile_tail)
  then show "distinct (ids_before i is)" "set (ids_before i is) \<subseteq> set is - {i}"
    "distinct (ids_after i is)" "set (ids_after i is) \<subseteq> set is - {i}"
    using assms(1) "is" by (auto simp: ids_before_def ids_after_def)
qed

definition emptying :: "gcs_env \<Rightarrow> gcs \<Rightarrow> (bool \<times> gcs) option \<Rightarrow> bool" where
  "emptying E g r \<longleftrightarrow> (\<exists>ok g' R. r = Some (ok, g') \<and> gcs_inv g' \<and> gcs_balanced g g' \<and> emptied R g g' \<and>
     (\<forall>i \<in> R. g_tx_ctx_current g \<noteq> Some i \<and> (\<forall>c. ctx_get g i = Some c \<longrightarrow> calldata c = None)))"

lemma process_empty_txs_around:
  assumes inv: "gcs_inv g" and cur: "g_tx_ctx_current g = Some i"
  shows "emptying E g (process_empty_txs_before E g)" "emptying E g (process_empty_txs_after E g)"
proof -
  have ids: "i \<in> set (ctx_ids g)" "distinct (ctx_ids g)" using inv cur by (auto simp: gcs_inv_def current_ok_def)
  obtain c where c: "ctx_get g i = Some c" using ctx_get_ex [OF ids(1)] by blast
  note s = ids_before_after [OF ids(2,1)]
  have e: "emptying E g (process_empty_txs E is g)" if d: "distinct is" and sub: "set is \<subseteq> set (ctx_ids g) - {i}" for "is"
  proof -
    have "\<forall>j \<in> set is. g_tx_ctx_current g \<noteq> Some j" using sub cur by auto
    then obtain ok g' R where "process_empty_txs E is g = Some (ok, g')" "gcs_inv g'" "gcs_balanced g g'" "emptied R g g'"
      "R \<subseteq> set is" "\<forall>i \<in> R. \<forall>c. ctx_get g i = Some c \<longrightarrow> calldata c = None"
      using process_empty_txs_inv [OF inv d, where E = E] sub by blast
    then show ?thesis using sub cur unfolding emptying_def
      by (intro exI [of _ ok] exI [of _ g'] exI [of _ R]) auto
  qed
  show "emptying E g (process_empty_txs_before E g)" using e [OF s(1,2)] cur c by (simp add: process_empty_txs_before_def)
  show "emptying E g (process_empty_txs_after E g)" using e [OF s(3,4)] cur c by (simp add: process_empty_txs_after_def)
qed

section \<open>The other operations\<close>

lemma prev_id_in: "prev_id i is = Some j \<Longrightarrow> j \<in> set is \<and> j \<noteq> i"
proof -
  assume "prev_id i is = Some j"
  then have "j \<in> set (takeWhile (\<lambda>j. j \<noteq> i) is)"
    by (cases "rev (takeWhile (\<lambda>j. j \<noteq> i) is)") (auto simp: prev_id_def ids_before_def simp flip: set_rev [of "takeWhile _ _"])
  then show ?thesis by (auto dest: set_takeWhileD)
qed

lemma tx_ctx_pop_inv:
  assumes inv: "gcs_inv g" and cur: "g_tx_ctx_current g = Some i"
  shows "\<exists>g'. tx_ctx_pop g = Some g' \<and> gcs_inv g' \<and> gcs_balanced g g' \<and>
     g' = g\<lparr>g_tx_ctx_current := prev_id i (ctx_ids g), g_tx_ctx_list := filter (\<lambda>(j, _). j \<noteq> i) (g_tx_ctx_list g), gcs_mem := gcs_mem g'\<rparr>"
proof -
  obtain c where c: "ctx_get g i = Some c" using gcs_invD(4) [OF inv cur] by blast
  let ?g = "g\<lparr>g_tx_ctx_current := prev_id i (ctx_ids g)\<rparr>"
  have e: "ctx_ids ?g = ctx_ids g" "ctx_get ?g = ctx_get g" "gcs_blocks ?g = gcs_blocks g"
    by (auto simp: ctx_ids_def ctx_get_def gcs_blocks_def fun_eq_iff)
  have inv': "gcs_inv ?g" using inv e prev_id_in [of i "ctx_ids g"]
    by (auto simp: gcs_inv_def current_ok_def split: option.splits)
  have cur': "g_tx_ctx_current ?g \<noteq> Some i" using prev_id_in [of i "ctx_ids g" i] by auto
  obtain g' where g': "tx_ctx_remove i ?g = Some g'" "gcs_inv g'" "gcs_balanced ?g g'"
    "g' = ?g\<lparr>g_tx_ctx_list := filter (\<lambda>(j, _). j \<noteq> i) (g_tx_ctx_list ?g), gcs_mem := gcs_mem g'\<rparr>"
    using tx_ctx_remove_inv [OF inv', of i c] c cur' e by auto
  have "tx_ctx_pop g = Some g'" using cur c g'(1) by (simp add: tx_ctx_pop_def)
  moreover have "gcs_balanced g g'" using g'(3) e by (simp add: gcs_balanced_def)
  ultimately show ?thesis using g'(2,4) by simp
qed

text \<open>The matching context is the first call of the list that is not described.\<close>

lemma find_matching_first:
  assumes "find_matching_tx_ctx E addr sel chain g = (True, g')"
  shows "\<exists>xs i c cd ys. g_tx_ctx_list g = xs @ (i, c) # ys \<and> g' = g\<lparr>g_tx_ctx_current := Some i\<rparr> \<and>
     tx_info c = None \<and> calldata c = Some cd \<and> selector cd = sel \<and> tc_chain_id c = chain \<and>
     addr = (case ge_implem E chain (tc_to c) sel of None \<Rightarrow> tc_to c | Some p \<Rightarrow> p) \<and>
     (\<forall>(_, d) \<in> set xs. calldata d \<noteq> None \<longrightarrow> tx_info d \<noteq> None)"
proof -
  let ?P = "\<lambda>(_ :: nat, c). tx_info c = None \<and> calldata c \<noteq> None"
  obtain i c where f: "find ?P (g_tx_ctx_list g) = Some (i, c)"
    and m: "(case ge_implem E chain (tc_to c) sel of None \<Rightarrow> tc_to c | Some p \<Rightarrow> p) = addr"
      "sel = selector (the (calldata c))" "chain = tc_chain_id c" "g' = g\<lparr>g_tx_ctx_current := Some i\<rparr>"
    using assms by (auto simp: find_matching_tx_ctx_def split: option.splits prod.splits if_splits)
  obtain k where k: "k < length (g_tx_ctx_list g)" "g_tx_ctx_list g ! k = (i, c)" "?P (i, c)" "\<forall>j < k. \<not> ?P (g_tx_ctx_list g ! j)"
    using f unfolding find_Some_iff by auto
  have "g_tx_ctx_list g = take k (g_tx_ctx_list g) @ (i, c) # drop (Suc k) (g_tx_ctx_list g)"
    using k(1,2) by (metis id_take_nth_drop)
  moreover have "\<forall>(_, d) \<in> set (take k (g_tx_ctx_list g)). calldata d \<noteq> None \<longrightarrow> tx_info d \<noteq> None"
    using k(4) by (fastforce simp: in_set_conv_nth)
  ultimately show ?thesis using m k(3) by (intro exI [of _ "take k (g_tx_ctx_list g)"] exI [of _ i] exI [of _ c]) auto
qed

lemma find_matching_failure: "find_matching_tx_ctx E addr sel chain g = (False, g') \<Longrightarrow> g' = g"
  by (auto simp: find_matching_tx_ctx_def split: option.splits prod.splits if_splits)

text \<open>Describing the first call that is not described.\<close>

lemma ctx_update_split:
  assumes "distinct (map fst (xs @ (i, c) # ys))"
  shows "map (\<lambda>(j, c). (j, if j = i then f c else c)) (xs @ (i, c) # ys) = xs @ (i, f c) # ys"
proof -
  have "map (\<lambda>(j, c). (j, if j = i then f c else c)) zs = zs" if "i \<notin> fst ` set zs" for zs
    using that by (induction zs) auto
  then show ?thesis using assms by (simp add: image_iff)
qed

lemma set_tx_info_update_inv:
  assumes inv: "gcs_inv g" and l: "g_tx_ctx_list g = xs @ (i, c) # ys" and c: "tx_info c = None"
    and first: "\<forall>(_, d) \<in> set xs. calldata d \<noteq> None \<longrightarrow> tx_info d \<noteq> None" and room: "gcs_blocks g < live (gcs_mem g)"
  shows "gcs_inv (ctx_update i (\<lambda>c. c\<lparr>tx_info := Some ti\<rparr>) g)"
    "gcs_blocks (ctx_update i (\<lambda>c. c\<lparr>tx_info := Some ti\<rparr>) g) = Suc (gcs_blocks g)"
    "ctx_ids (ctx_update i (\<lambda>c. c\<lparr>tx_info := Some ti\<rparr>) g) = ctx_ids g"
proof -
  let ?g = "ctx_update i (\<lambda>c. c\<lparr>tx_info := Some ti\<rparr>) g"
  have l': "g_tx_ctx_list ?g = xs @ (i, c\<lparr>tx_info := Some ti\<rparr>) # ys"
    using ctx_update_split [of xs i c ys] gcs_invD(1) [OF inv] l by (simp add: ctx_update_def ctx_ids_def)
  show b: "gcs_blocks ?g = Suc (gcs_blocks g)"
    unfolding gcs_blocks_def l' l using c by (simp add: ctx_update_def ctx_blocks_def)
  show ids: "ctx_ids ?g = ctx_ids g" by (simp add: ctx_ids_def l l')
  have "review_order (xs @ (i, c\<lparr>tx_info := Some ti\<rparr>) # ys)"
    using gcs_invD(2) [OF inv] first unfolding l review_order_def
    by (auto simp: sorted_wrt_append)
  then show "gcs_inv ?g" using inv b ids room l'
    by (auto simp: gcs_inv_def current_ok_def ctx_update_def split: option.splits)
qed

lemma tx_ctx_is_root_upd [simp]:
  "tx_ctx_is_root (g\<lparr>gcs_mem := m, g_table := t\<rparr>) = tx_ctx_is_root g"
  by (simp add: tx_ctx_is_root_def split: list.split)

lemma intent_step:
  "current_ok g \<Longrightarrow> table_step g (if tx_ctx_is_root g then (if gcs_appState g = APP_STATE_SIGNING_EIP712
      then set_intent_field E x g else Some (True, g)) else set_intent_field E x g)"
  by (simp add: set_intent_field_step)

lemma set_tx_info_inv:
  assumes inv: "gcs_inv g" and l: "g_tx_ctx_list g = xs @ (i, c) # ys" and c: "tx_info c = None"
    and first: "\<forall>(_, d) \<in> set xs. calldata d \<noteq> None \<longrightarrow> tx_info d \<noteq> None" and room: "gcs_blocks g < live (gcs_mem g)"
    and cur: "g_tx_ctx_current g = Some i"
  shows "\<exists>ok g'. set_tx_info_into_tx_ctx E ti g = Some (ok, g') \<and> gcs_inv g' \<and>
     live (gcs_mem g') + Suc (gcs_blocks g) = live (gcs_mem g) + gcs_blocks g'"
proof -
  let ?g1 = "ctx_update i (\<lambda>c. c\<lparr>tx_info := Some ti\<rparr>) g"
  note u = set_tx_info_update_inv [OF inv l c first room, of ti]
  have get: "ctx_get g i = Some c" using gcs_invD(1) [OF inv] l by (simp add: ctx_get_Some_iff)
  have st: "g_tx_ctx_current ?g1 = Some i" "gcs_mem ?g1 = gcs_mem g" using cur by (simp_all add: ctx_update_def)
  obtain ok m es where r: "(if tx_ctx_is_root ?g1 then (if gcs_appState ?g1 = APP_STATE_SIGNING_EIP712
      then set_intent_field E (c_str (operation_type ti)) ?g1 else Some (True, ?g1))
      else set_intent_field E (c_str (operation_type ti)) ?g1) = Some (ok, ?g1\<lparr>gcs_mem := m, g_table := g_table ?g1 @ es\<rparr>)"
    and lv: "live m = live (gcs_mem ?g1) + 3 * length es"
    by (rule table_stepE [OF intent_step [OF gcs_inv_current_ok [OF u(1)]]])
  let ?g2 = "?g1\<lparr>gcs_mem := m, g_table := g_table ?g1 @ es\<rparr>"
  note t = table_upd_inv [OF u(1) lv]
  obtain g3 where g3: "tx_ctx_pop ?g2 = Some g3" "gcs_inv g3" "gcs_balanced ?g2 g3"
    using tx_ctx_pop_inv [OF t(1), of i] st by auto
  have s: "set_tx_info_into_tx_ctx E ti g = (if \<not> ok then Some (False, ?g2)
      else if gcs_appState ?g2 = APP_STATE_SIGNING_EIP712 \<or> \<not> tx_ctx_is_root ?g2 then
        (if \<not> ge_sha3_init E then Some (False, ?g2)
         else (case ge_finalize E [] of None \<Rightarrow> Some (False, ?g2)
           | Some hash \<Rightarrow> if hash = fields_hash ti then Some (True, g3) else Some (True, ?g2)))
      else Some (True, ?g2))"
    unfolding set_tx_info_into_tx_ctx_def cur option.case get Let_def r using g3(1) by (simp add: split: option.split)
  have done2: "live (gcs_mem ?g2) + Suc (gcs_blocks g) = live (gcs_mem g) + gcs_blocks ?g2"
    using t(2) u(2) st(2) unfolding gcs_balanced_def by simp
  have done3: "live (gcs_mem g3) + Suc (gcs_blocks g) = live (gcs_mem g) + gcs_blocks g3"
    using gcs_balanced_trans [OF t(2) g3(3)] u(2) st(2) unfolding gcs_balanced_def by simp
  have "\<exists>ok g'. set_tx_info_into_tx_ctx E ti g = Some (ok, g') \<and> g' \<in> {?g2, g3}"
    unfolding s by (simp split: option.split)
  then show ?thesis using t(1) g3(2) done2 done3 by blast
qed

text \<open>A new context: appended, not described; the parked calldata moves to it.\<close>

lemma fresh_id_notin: "fresh_id is \<notin> set is"
proof
  assume "fresh_id is \<in> set is"
  then have "fresh_id is \<le> Max (set (0 # is))" by (intro Max_ge) auto
  then show False unfolding fresh_id_def Max.set_eq_fold by simp
qed

definition opt_blocks :: "s_calldata option \<Rightarrow> nat" where
  "opt_blocks cd = (case cd of None \<Rightarrow> 0 | Some c \<Rightarrow> calldata_blocks c)"

lemma tx_ctx_defaults_total:
  assumes "current_ok g"
  shows "\<exists>nd b. tx_ctx_defaults E node g = Some (nd, g\<lparr>info_processed := b\<rparr>) \<and>
     (\<forall>n. nd = Some n \<longrightarrow> calldata n = calldata node \<and> tx_info n = tx_info node \<and> fields_hash_ctx n = fields_hash_ctx node)"
proof -
  have same: "g\<lparr>info_processed := info_processed g\<rparr> = g" by simp
  show ?thesis
  proof (cases "get_tx_ctx_count g = 0")
    case True
    consider (bad) "gcs_appState g = APP_STATE_SIGNING_EIP712" "\<not> info_all_received g \<or> info_processed g"
      | (good) "gcs_appState g = APP_STATE_SIGNING_EIP712" "info_all_received g" "\<not> info_processed g"
      | (tx) "gcs_appState g \<noteq> APP_STATE_SIGNING_EIP712" by blast
    then show ?thesis
    proof cases
      case bad
      then show ?thesis using True same by (intro exI [of _ None] exI [of _ "info_processed g"]) (auto simp: tx_ctx_defaults_def)
    next
      case good
      then show ?thesis using True
        by (intro exI [of _ "Some (node\<lparr>tc_from := ge_public_key E\<rparr>)"] exI [of _ True]) (simp add: tx_ctx_defaults_def)
    next
      case tx
      then show ?thesis using True same
        by (intro exI [of _ "Some (node\<lparr>tc_from := ge_public_key E\<rparr>)"] exI [of _ "info_processed g"]) (simp add: tx_ctx_defaults_def)
    qed
  next
    case False
    then obtain p where "(case g_tx_ctx_current g of None \<Rightarrow> Some (snd (last (g_tx_ctx_list g))) | Some i \<Rightarrow> ctx_get g i) = Some p"
      using assms ctx_get_ex by (cases "g_tx_ctx_current g") (auto simp: current_ok_def)
    then have "tx_ctx_defaults E node g = Some (Some (node\<lparr>tc_from := tc_from p, tc_chain_id := tc_chain_id p\<rparr>), g)"
      using False by (simp add: tx_ctx_defaults_def)
    then show ?thesis by (intro exI [of _ "Some (node\<lparr>tc_from := tc_from p, tc_chain_id := tc_chain_id p\<rparr>)"]
      exI [of _ "info_processed g"]) simp
  qed
qed

text \<open>What is left to account for after an attempt to hand over \<open>cd\<close>: on failure the caller
  still owns it unless it was parked.\<close>

lemma tx_ctx_init_inv:
  assumes inv: "gcs_inv g" and owned: "parked \<longrightarrow> gcs_parked g = cd"
    and room: "\<not> parked \<longrightarrow> gcs_blocks g + opt_blocks cd \<le> live (gcs_mem g)"
    and table: "g_tx_ctx_list g = [] \<longrightarrow> gcs_appState g = APP_STATE_SIGNING_TX \<longrightarrow> g_table g = []"
  shows "\<exists>ok g'. tx_ctx_init E parked cd frm to amount chain g = Some (ok, g') \<and> gcs_inv g' \<and>
     live (gcs_mem g') + gcs_blocks g + (if ok \<and> \<not> parked then opt_blocks cd else 0) = live (gcs_mem g) + gcs_blocks g' \<and>
     (if ok then \<exists>node. g_tx_ctx_list g' = g_tx_ctx_list g @ [(fresh_id (ctx_ids g), node)] \<and> calldata node = cd \<and>
          tx_info node = None \<and> fields_hash_ctx node = [] \<and> gcs_parked g' = (if parked then None else gcs_parked g)
      else g_tx_ctx_list g' = g_tx_ctx_list g \<and> gcs_parked g' = gcs_parked g)"
proof (cases "gcs_mem g" rule: mem_alloc_cases)
  case (fail m)
  then have "tx_ctx_init E parked cd frm to amount chain g = Some (False, g\<lparr>gcs_mem := m\<rparr>)" by (simp add: tx_ctx_init_def)
  moreover have "gcs_inv (g\<lparr>gcs_mem := m\<rparr>)" "gcs_blocks (g\<lparr>gcs_mem := m\<rparr>) = gcs_blocks g"
    using inv fail by (auto simp: gcs_inv_def current_ok_def ctx_ids_def gcs_blocks_def split: option.splits)
  ultimately show ?thesis using fail by simp
next
  case (ok m)
  let ?g0 = "g\<lparr>gcs_mem := m\<rparr>"
  have "current_ok ?g0" using gcs_inv_current_ok [OF inv] by (simp add: current_ok_def ctx_ids_def split: option.splits)
  then obtain nd b where d: "tx_ctx_defaults E (tx_ctx_zero cd) ?g0 = Some (nd, ?g0\<lparr>info_processed := b\<rparr>)"
    and nd: "\<And>n. nd = Some n \<Longrightarrow> calldata n = cd \<and> tx_info n = None \<and> fields_hash_ctx n = []"
    using tx_ctx_defaults_total [of ?g0 E "tx_ctx_zero cd"] by (auto simp: tx_ctx_zero_def)
  let ?g1 = "?g0\<lparr>info_processed := b\<rparr>" and ?f = "?g0\<lparr>info_processed := b, gcs_mem := mem_free m\<rparr>"
  have f: "gcs_inv ?f" "gcs_blocks ?f = gcs_blocks g" "live (gcs_mem ?f) = live (gcs_mem g)"
    using inv ok by (auto simp: gcs_inv_def current_ok_def ctx_ids_def gcs_blocks_def split: option.splits)
  show ?thesis
  proof (cases "nd = None \<or> \<not> ge_sha3_init E")
    case True
    then have "tx_ctx_init E parked cd frm to amount chain g = Some (False, ?f)"
      using ok d by (cases nd) (simp_all add: tx_ctx_init_def Let_def)
    then show ?thesis using f by simp
  next
    case False
    then obtain n where n: "nd = Some n" "ge_sha3_init E" by auto
    let ?n = "tx_ctx_args frm to amount chain n"
    have na: "calldata ?n = cd" "tx_info ?n = None" "fields_hash_ctx ?n = []"
      using nd [OF n(1)] by (auto simp: tx_ctx_args_def Let_def split: option.splits)
    let ?g2 = "?g1\<lparr>g_tx_ctx_list := g_tx_ctx_list g @ [(fresh_id (ctx_ids g), ?n)]\<rparr>"
    let ?g3 = "if parked then ?g2\<lparr>gcs_parked := None\<rparr> else ?g2"
    have ids: "ctx_ids ?g1 = ctx_ids g" by (simp add: ctx_ids_def)
    have t: "g_table ?g3 = g_table g" "gcs_appState ?g3 = gcs_appState g" by simp_all
    have r: "tx_ctx_init E parked cd frm to amount chain g = Some (True, ?g3)"
      using ok d n ids by (simp add: tx_ctx_init_def Let_def field_table_init_def) (use table in blast)
    have blocks: "gcs_blocks ?g3 = Suc (gcs_blocks g) + (if parked then 0 else opt_blocks cd)"
      using owned na by (auto simp: gcs_blocks_def ctx_blocks_def opt_blocks_def split: option.splits)
    have l3: "g_tx_ctx_list ?g3 = g_tx_ctx_list g @ [(fresh_id (ctx_ids g), ?n)]" "g_tx_ctx_current ?g3 = g_tx_ctx_current g"
      "gcs_mem ?g3 = m" by simp_all
    have "review_order (g_tx_ctx_list ?g3)" "distinct (ctx_ids ?g3)" "current_ok ?g3"
      using inv na fresh_id_notin [of "ctx_ids g"] unfolding l3 gcs_inv_def review_order_def current_ok_def ctx_ids_def
      by (auto simp: sorted_wrt_append split: option.splits)
    then have "gcs_inv ?g3" using inv ok room blocks l3(3) unfolding gcs_inv_def by (auto split: if_splits)
    moreover have "gcs_parked ?g3 = (if parked then None else gcs_parked g)" by simp
    ultimately show ?thesis using r l3 na blocks ok by (intro exI [of _ True] exI [of _ ?g3]) auto
  qed
qed

section \<open>Cleanup\<close>

lemma fold_delete_table_live: "live (fold delete_table_node es m) = live m - 3 * length es"
  by (induction es arbitrary: m) (auto simp: delete_table_node_def)

lemma fold_delete_ctx_live:
  "sum_list (map (ctx_blocks \<circ> snd) l) \<le> live m \<Longrightarrow>
   live (fold delete_tx_ctx (map snd l) m) = live m - sum_list (map (ctx_blocks \<circ> snd) l)"
  by (induction l arbitrary: m) (auto simp: delete_tx_ctx_live)

lemma gcs_cleanup_frees:
  assumes "gcs_inv g"
  shows "gcs_inv (gcs_cleanup g)" "gcs_blocks (gcs_cleanup g) = 0" "gcs_balanced g (gcs_cleanup g)"
    "g_tx_ctx_list (gcs_cleanup g) = []" "g_tx_ctx_current (gcs_cleanup g) = None" "gcs_parked (gcs_cleanup g) = None"
    "g_table (gcs_cleanup g) = []"
proof -
  let ?p = "case gcs_parked g of None \<Rightarrow> 0 | Some cd \<Rightarrow> calldata_blocks cd"
    and ?t = "3 * length (g_table g)" and ?c = "sum_list (map (ctx_blocks \<circ> snd) (g_tx_ctx_list g))"
  show st: "g_tx_ctx_list (gcs_cleanup g) = []" "g_tx_ctx_current (gcs_cleanup g) = None" "gcs_parked (gcs_cleanup g) = None"
    "g_table (gcs_cleanup g) = []"
    by (simp_all add: gcs_cleanup_def Let_def tx_ctx_cleanup_def field_table_cleanup_def split: option.split)
  show b: "gcs_blocks (gcs_cleanup g) = 0" by (simp add: gcs_blocks_def st)
  have le: "?t + ?c + ?p \<le> live (gcs_mem g)" using gcs_invD(3) [OF assms] by (simp add: gcs_blocks_def)
  then have m: "live (fold delete_tx_ctx (map snd (g_tx_ctx_list g)) (fold delete_table_node (g_table g) (gcs_mem g))) =
      live (gcs_mem g) - ?t - ?c"
    by (simp add: fold_delete_ctx_live fold_delete_table_live)
  then have "live (gcs_mem (gcs_cleanup g)) = live (gcs_mem g) - (?t + ?c + ?p)"
    using le by (auto simp: gcs_cleanup_def Let_def tx_ctx_cleanup_def field_table_cleanup_def calldata_delete_live split: option.splits)
  then show "gcs_balanced g (gcs_cleanup g)" using le b unfolding gcs_balanced_def by (simp add: gcs_blocks_def)
  show "gcs_inv (gcs_cleanup g)" using b st by (simp add: gcs_inv_def current_ok_def ctx_ids_def review_order_def)
qed

lemma get_from_table_cases:
  "get_from_table es i = (if i < length es then Some (Some (es ! i)) else if i = length es then None else Some None)"
  by (induction es i rule: get_from_table.induct) auto

lemma table_entry_strings:
  assumes "length k < 255" "NUL \<notin> set k" "length x < 65535" "NUL \<notin> set x"
  shows "c_str (fe_key (table_entry ty k x ex h)) = k" "c_str (fe_value (table_entry ty k x ex h)) = x"
proof -
  have "unat (word_of_nat (length k + 1) :: uint8) = length k + 1" "unat (word_of_nat (length x + 1) :: uint16) = length x + 1"
    using assms by (simp_all add: unat_of_nat del: of_nat_add of_nat_Suc)
  then show "c_str (fe_key (table_entry ty k x ex h)) = k" "c_str (fe_value (table_entry ty k x ex h)) = x"
    using assms c_str_terminated [of k "[]"] c_str_terminated [of x "[]"] by (simp_all add: table_entry_def Let_def)
qed

end
