(* ===== verification/Time_Format.thy ===== *)
theory Time_Format
  imports Wide_Uint Buf_Utils
begin

text \<open>
  Model of \<open>src/utils/time_format.c\<close>.  The conversion of a timestamp to calendar fields
  (\<open>gmtime_r\<close> of the C library) is a parameter; \<open>snprintf\<close> writes at most the size of the buffer,
  terminator included, and leaves the rest of it alone.
\<close>

record tm =
  tm_year :: nat
  tm_mon :: nat
  tm_mday :: nat
  tm_hour :: nat
  tm_min :: nat
  tm_sec :: nat

type_synonym gmtime_r = "nat \<Rightarrow> tm option"

text \<open>\<open>%0nd\<close> of a number that is not negative.\<close>

definition pad0 :: "nat \<Rightarrow> nat \<Rightarrow> string" where
  "pad0 n x = (let s = digit_str 10 x in replicate (n - length s) (CHR ''0'') @ s)"

definition snprintf :: "string \<Rightarrow> nat \<Rightarrow> string \<Rightarrow> string option" where
  "snprintf out out_size text =
     (if out_size = 0 then Some out else wr_n out 0 (take (out_size - 1) text @ [NUL]))"

definition get_time_struct :: "gmtime_r \<Rightarrow> nat \<Rightarrow> tm option" where
  "get_time_struct gmtime timestamp = (case gmtime timestamp of None \<Rightarrow> None | Some t \<Rightarrow> Some t)"

definition yyyymmdd :: "tm \<Rightarrow> string" where
  "yyyymmdd t = pad0 4 (tm_year t + 1900) @ ''-'' @ pad0 2 (tm_mon t + 1) @ ''-'' @ pad0 2 (tm_mday t)"

definition time_format_to_yyyymmdd :: "gmtime_r \<Rightarrow> nat \<Rightarrow> string \<Rightarrow> nat \<Rightarrow> (bool \<times> string) option" where
  "time_format_to_yyyymmdd gmtime timestamp out out_size =
     (case get_time_struct gmtime timestamp of
        None \<Rightarrow> Some (False, out)
      | Some t \<Rightarrow> do { out \<leftarrow> snprintf out out_size (yyyymmdd t); Some (True, out) })"

definition shown_hour :: "tm \<Rightarrow> nat" where
  "shown_hour t = (if tm_hour t = 0 then 12 else if 12 < tm_hour t then tm_hour t - 12 else tm_hour t)"

definition utc_string :: "tm \<Rightarrow> string" where
  "utc_string t = yyyymmdd t @ [CHR 0x0A] @ pad0 2 (shown_hour t) @ '':'' @ pad0 2 (tm_min t) @ '':'' @ pad0 2 (tm_sec t)
     @ '' '' @ (if tm_hour t < 12 then ''AM'' else ''PM'') @ '' UTC''"

definition time_format_to_utc :: "gmtime_r \<Rightarrow> nat \<Rightarrow> string \<Rightarrow> nat \<Rightarrow> (bool \<times> string) option" where
  "time_format_to_utc gmtime timestamp out out_size =
     (case get_time_struct gmtime timestamp of
        None \<Rightarrow> Some (False, out)
      | Some t \<Rightarrow> do { out \<leftarrow> snprintf out out_size (utc_string t); Some (True, out) })"

section \<open>Properties\<close>

lemma snprintf_total:
  assumes "n \<le> length out"
  shows "\<exists>out'. snprintf out n s = Some out' \<and> length out' = length out \<and> drop n out' = drop n out"
proof (cases "n = 0")
  case False
  define xs where "xs = take (n - 1) s @ [NUL]"
  have k: "length xs \<le> n" using False by (simp add: xs_def)
  then have "snprintf out n s = Some (xs @ drop (length xs) out)"
    using False assms by (simp add: snprintf_def wr_n_def xs_def)
  moreover have "drop n (xs @ drop (length xs) out) = drop n out" using k by simp
  ultimately show ?thesis using k assms by simp
qed (simp add: snprintf_def)

text \<open>The twelve-hour clock loses nothing: the hour can be told from what is shown.\<close>

lemma shown_hour_exact:
  assumes "tm_hour t < 24"
  shows "1 \<le> shown_hour t \<and> shown_hour t \<le> 12 \<and> shown_hour t mod 12 + (if tm_hour t < 12 then 0 else 12) = tm_hour t"
  using assms by (auto simp: shown_hour_def)

lemma digit_str_length2: "x < 100 \<Longrightarrow> length (digit_str 10 x) \<le> 2"
proof -
  assume "x < 100"
  have "list_all (\<lambda>x. length (digit_str 10 x) \<le> 2) [0..<100]" by code_simp
  then show ?thesis using \<open>x < 100\<close> by (simp add: list_all_iff)
qed

lemma pad0_length2: "x < 100 \<Longrightarrow> length (pad0 2 x) = 2"
  using digit_str_length2 [of x] by (simp add: pad0_def Let_def)

end
