(* ===== verification/Tx_Info.thy ===== *)
theory Tx_Info
  imports Tx_Ctx_Inv Tlv Tlv_Utils Time_Format
begin

text \<open>
  Model of the descriptions of calls: \<open>src/features/generic_tx_parser/gtp_tx_info.c\<close> (the fields of a
  description and its signature), \<open>cmd_tx_info.c\<close> and \<open>cmd_field.c\<close> (the commands that bring
  descriptions and fields to the contexts of \<open>Tx_Ctx\<close>).

  A TLV field is a pair of its raw bytes and its value.  A struct hash is the list of the
  bytes it has absorbed; a failure of the hash engine there aborts the application.  Parameters, in
  the record \<open>ti_env\<close>: the SDK readers, the generated parser, the end of the hashes, the
  signature check; and the four functions of \<open>gtp_field.c\<close>, which is not modelled: \<open>handle_field_struct\<close>,
  \<open>verify_field_struct\<close>, \<open>cleanup_field\<close> and \<open>format_field\<close>.  They may allocate and free, change the contexts and
  fault (\<open>None\<close>); nothing is assumed of them.
\<close>

section \<open>Data\<close>

record s_tx_info_ctx =
  struct_hash :: bytes
  ic_tx_info :: s_tx_info
  ic_received_tags :: "nat set"

text \<open>The memory of a new description: zeroes.  The size of the signature buffer is that of the SDK.\<close>

definition tx_info_zero :: "nat \<Rightarrow> s_tx_info" where
  "tx_info_zero sig_size =
     \<lparr>ti_version = 0, ti_chain_id = 0, ti_contract_addr = replicate ADDRESS_LENGTH 0,
      ti_selector = replicate CALLDATA_SELECTOR_SIZE 0, fields_hash = replicate INT256_LENGTH 0,
      operation_type = replicate 31 NUL, creator_name = replicate 23 NUL, creator_legal_name = replicate 31 NUL,
      creator_url = replicate 27 NUL, contract_name = replicate 31 NUL, deploy_date = replicate 11 NUL,
      signature_len = 0, signature = replicate sig_size 0\<rparr>"

record 'f ti_env =
  te_gcs :: gcs_env
  te_sdk :: tlv_sdk
  te_gmtime :: gmtime_r
  te_sig_size :: nat
  te_parser :: "gcs \<Rightarrow> bytes \<Rightarrow> s_tx_info_ctx \<Rightarrow> bool \<times> s_tx_info_ctx \<times> nat set"
  te_sha256 :: "bytes \<Rightarrow> bytes option"
  te_check_signature :: "bytes \<Rightarrow> bytes \<Rightarrow> bool"
  te_field_struct :: "bytes \<Rightarrow> gcs \<Rightarrow> (bool \<times> 'f \<times> gcs) option"
  te_verify_field :: "'f \<Rightarrow> bool"
  te_cleanup_field :: "'f \<Rightarrow> gcs \<Rightarrow> gcs option"
  te_hash_ok :: "bytes \<Rightarrow> bytes \<Rightarrow> bool"
  te_format_field :: "'f \<Rightarrow> gcs \<Rightarrow> (bool \<times> gcs) option"

section \<open>Handlers\<close>

definition chars :: "bytes \<Rightarrow> string" where
  "chars bs = map (\<lambda>b. char_of (unat b)) bs"

text \<open>A handler that stores into the description.\<close>

definition upd_info :: "(s_tx_info \<Rightarrow> s_tx_info) \<Rightarrow> s_tx_info_ctx \<Rightarrow> s_tx_info_ctx" where
  "upd_info f ctx = ctx\<lparr>ic_tx_info := f (ic_tx_info ctx)\<rparr>"

definition ti_handle_version :: "tlv_sdk \<Rightarrow> bytes \<Rightarrow> s_tx_info_ctx \<Rightarrow> (bool \<times> s_tx_info_ctx) option" where
  "ti_handle_version K data ctx =
     (case tlv_get_uint8_range K data (Some (ti_version (ic_tx_info ctx))) 0 255 of
        (ok, x) \<Rightarrow> do { x \<leftarrow> x; Some (ok, upd_info (\<lambda>t. t\<lparr>ti_version := x\<rparr>) ctx) })"

definition ti_handle_chain_id :: "tlv_sdk \<Rightarrow> bytes \<Rightarrow> s_tx_info_ctx \<Rightarrow> (bool \<times> s_tx_info_ctx) option" where
  "ti_handle_chain_id K data ctx =
     (case tlv_get_chain_id K data (Some (ti_chain_id (ic_tx_info ctx))) of
        (ok, x) \<Rightarrow> do { x \<leftarrow> x; Some (ok, upd_info (\<lambda>t. t\<lparr>ti_chain_id := x\<rparr>) ctx) })"

definition handle_contract_addr :: "tlv_sdk \<Rightarrow> bytes \<Rightarrow> s_tx_info_ctx \<Rightarrow> (bool \<times> s_tx_info_ctx) option" where
  "handle_contract_addr K data ctx = do {
     (ok, x) \<leftarrow> tlv_get_address K data (Some (ti_contract_addr (ic_tx_info ctx)));
     x \<leftarrow> x;
     Some (ok, upd_info (\<lambda>t. t\<lparr>ti_contract_addr := x\<rparr>) ctx) }"

definition ti_handle_selector :: "tlv_sdk \<Rightarrow> gcs \<Rightarrow> bytes \<Rightarrow> s_tx_info_ctx \<Rightarrow> (bool \<times> s_tx_info_ctx) option" where
  "ti_handle_selector K g data ctx = do {
     (ok, buf) \<leftarrow> tlv_get_hash K data (Some (replicate CALLDATA_SELECTOR_SIZE 0)) 4;
     buf \<leftarrow> buf;
     if \<not> ok then Some (False, ctx)
     else if get_tx_ctx_count g = 0 \<and> calldata_get_selector (gcs_parked g) \<noteq> Some buf then Some (False, ctx)
     else Some (True, upd_info (\<lambda>t. t\<lparr>ti_selector := buf\<rparr>) ctx) }"

definition handle_fields_hash :: "bytes \<Rightarrow> s_tx_info_ctx \<Rightarrow> (bool \<times> s_tx_info_ctx) option" where
  "handle_fields_hash data ctx =
     (if INT256_LENGTH < length data then Some (False, ctx)
      else do {
        x \<leftarrow> buf_shrink_expand (Some data) (length data) (fields_hash (ic_tx_info ctx)) INT256_LENGTH;
        Some (True, upd_info (\<lambda>t. t\<lparr>fields_hash := x\<rparr>) ctx) })"

definition handle_operation_type :: "bytes \<Rightarrow> s_tx_info_ctx \<Rightarrow> (bool \<times> s_tx_info_ctx) option" where
  "handle_operation_type data ctx = do {
     x \<leftarrow> str_cpy_explicit_trunc (Some (chars data)) (length data) (operation_type (ic_tx_info ctx)) 31;
     Some (True, upd_info (\<lambda>t. t\<lparr>operation_type := x\<rparr>) ctx) }"

definition handle_creator_name :: "bytes \<Rightarrow> s_tx_info_ctx \<Rightarrow> (bool \<times> s_tx_info_ctx) option" where
  "handle_creator_name data ctx = do {
     x \<leftarrow> str_cpy_explicit_trunc (Some (chars data)) (length data) (creator_name (ic_tx_info ctx)) 23;
     Some (True, upd_info (\<lambda>t. t\<lparr>creator_name := x\<rparr>) ctx) }"

definition handle_creator_legal_name :: "bytes \<Rightarrow> s_tx_info_ctx \<Rightarrow> (bool \<times> s_tx_info_ctx) option" where
  "handle_creator_legal_name data ctx = do {
     x \<leftarrow> str_cpy_explicit_trunc (Some (chars data)) (length data) (creator_legal_name (ic_tx_info ctx)) 31;
     Some (True, upd_info (\<lambda>t. t\<lparr>creator_legal_name := x\<rparr>) ctx) }"

definition handle_creator_url :: "bytes \<Rightarrow> s_tx_info_ctx \<Rightarrow> (bool \<times> s_tx_info_ctx) option" where
  "handle_creator_url data ctx = do {
     x \<leftarrow> str_cpy_explicit_trunc (Some (chars data)) (length data) (creator_url (ic_tx_info ctx)) 27;
     Some (True, upd_info (\<lambda>t. t\<lparr>creator_url := x\<rparr>) ctx) }"

definition handle_contract_name :: "bytes \<Rightarrow> s_tx_info_ctx \<Rightarrow> (bool \<times> s_tx_info_ctx) option" where
  "handle_contract_name data ctx = do {
     x \<leftarrow> str_cpy_explicit_trunc (Some (chars data)) (length data) (contract_name (ic_tx_info ctx)) 31;
     Some (True, upd_info (\<lambda>t. t\<lparr>contract_name := x\<rparr>) ctx) }"

definition handle_deploy_date :: "gmtime_r \<Rightarrow> bytes \<Rightarrow> s_tx_info_ctx \<Rightarrow> (bool \<times> s_tx_info_ctx) option" where
  "handle_deploy_date gmtime data ctx =
     (if 4 < length data then Some (False, ctx)
      else do {
        buf \<leftarrow> buf_shrink_expand (Some data) (length data) (replicate 4 0) 4;
        (ok, x) \<leftarrow> time_format_to_yyyymmdd gmtime (be_val buf) (deploy_date (ic_tx_info ctx)) 11;
        Some (ok, upd_info (\<lambda>t. t\<lparr>deploy_date := x\<rparr>) ctx) })"

definition handle_signature :: "bytes \<Rightarrow> s_tx_info_ctx \<Rightarrow> (bool \<times> s_tx_info_ctx) option" where
  "handle_signature data ctx =
     (if length (signature (ic_tx_info ctx)) < length data then Some (False, ctx)
      else do {
        x \<leftarrow> wr_n (signature (ic_tx_info ctx)) 0 data;
        Some (True, upd_info (\<lambda>t. t\<lparr>signature := x, signature_len := word_of_nat (length data)\<rparr>) ctx) })"

definition tx_info_common_handler :: "nat \<Rightarrow> bytes \<Rightarrow> s_tx_info_ctx \<Rightarrow> s_tx_info_ctx" where
  "tx_info_common_handler tag raw ctx = (if tag \<noteq> 0xff then ctx\<lparr>struct_hash := struct_hash ctx @ raw\<rparr> else ctx)"

text \<open>The table \<open>TX_INFO_TAGS\<close> and the common handler.\<close>

definition tx_info_tag :: "'f ti_env \<Rightarrow> gcs \<Rightarrow> nat \<Rightarrow> bytes \<Rightarrow> s_tx_info_ctx \<Rightarrow> (bool \<times> s_tx_info_ctx) option" where
  "tx_info_tag T g tag data ctx =
     (if tag = 0x00 then ti_handle_version (te_sdk T) data ctx
      else if tag = 0x01 then ti_handle_chain_id (te_sdk T) data ctx
      else if tag = 0x02 then handle_contract_addr (te_sdk T) data ctx
      else if tag = 0x03 then ti_handle_selector (te_sdk T) g data ctx
      else if tag = 0x04 then handle_fields_hash data ctx
      else if tag = 0x05 then handle_operation_type data ctx
      else if tag = 0x06 then handle_creator_name data ctx
      else if tag = 0x07 then handle_creator_legal_name data ctx
      else if tag = 0x08 then handle_creator_url data ctx
      else if tag = 0x09 then handle_contract_name data ctx
      else if tag = 0x0a then handle_deploy_date (te_gmtime T) data ctx
      else if tag = 0xff then handle_signature data ctx
      else Some (False, ctx))"

definition TX_INFO_TAGS :: "'f ti_env \<Rightarrow> gcs \<Rightarrow> nat \<Rightarrow> bytes \<times> bytes \<Rightarrow> s_tx_info_ctx \<Rightarrow> (bool \<times> s_tx_info_ctx) option" where
  "TX_INFO_TAGS T g tag field ctx = tx_info_tag T g tag (snd field) (tx_info_common_handler tag (fst field) ctx)"

definition handle_tx_info_struct :: "'f ti_env \<Rightarrow> gcs \<Rightarrow> bytes \<Rightarrow> s_tx_info_ctx \<Rightarrow> bool \<times> s_tx_info_ctx" where
  "handle_tx_info_struct T g buf ctx =
     (let (ok, ctx', tags) = te_parser T g buf ctx in (ok, ctx'\<lparr>ic_received_tags := tags\<rparr>))"

definition verify_tx_info_struct :: "'f ti_env \<Rightarrow> s_tx_info_ctx \<Rightarrow> bool" where
  "verify_tx_info_struct T ctx =
     (if 0x00 \<notin> ic_received_tags ctx then False
      else if ti_version (ic_tx_info ctx) = 1 then
        (if \<not> {0x00, 0x01, 0x02, 0x03, 0x04, 0x05, 0xff} \<subseteq> ic_received_tags ctx then False
         else
           (case te_sha256 T (struct_hash ctx) of
              None \<Rightarrow> False
            | Some hash \<Rightarrow>
                if \<not> te_check_signature T hash (take (unat (signature_len (ic_tx_info ctx))) (signature (ic_tx_info ctx)))
                then False else True))
      else False)"

text \<open>The getters of the strings: null when empty.\<close>

definition string_or_null :: "string \<Rightarrow> string option" where
  "string_or_null s = (if s = [] \<or> hd s = NUL then None else Some (c_str s))"

definition get_operation_type :: "s_tx_info option \<Rightarrow> string option" where
  "get_operation_type ti = (case ti of None \<Rightarrow> None | Some t \<Rightarrow> string_or_null (operation_type t))"

definition get_creator_name :: "s_tx_info option \<Rightarrow> string option" where
  "get_creator_name ti = (case ti of None \<Rightarrow> None | Some t \<Rightarrow> string_or_null (creator_name t))"

definition get_creator_legal_name :: "s_tx_info option \<Rightarrow> string option" where
  "get_creator_legal_name ti = (case ti of None \<Rightarrow> None | Some t \<Rightarrow> string_or_null (creator_legal_name t))"

definition get_creator_url :: "s_tx_info option \<Rightarrow> string option" where
  "get_creator_url ti = (case ti of None \<Rightarrow> None | Some t \<Rightarrow> string_or_null (creator_url t))"

definition get_contract_name :: "s_tx_info option \<Rightarrow> string option" where
  "get_contract_name ti = (case ti of None \<Rightarrow> None | Some t \<Rightarrow> string_or_null (contract_name t))"

definition get_contract_addr :: "s_tx_info option \<Rightarrow> bytes option" where
  "get_contract_addr ti = (case ti of None \<Rightarrow> None | Some t \<Rightarrow> Some (ti_contract_addr t))"

definition get_deploy_date :: "s_tx_info option \<Rightarrow> string option" where
  "get_deploy_date ti = (case ti of None \<Rightarrow> None | Some t \<Rightarrow> string_or_null (deploy_date t))"

section \<open>The commands\<close>

definition tx_info_tlv_payload :: "'f ti_env \<Rightarrow> bytes \<Rightarrow> gcs \<Rightarrow> (bool \<times> gcs) option" where
  "tx_info_tlv_payload T buf g =
     (let (ok, m) = mem_alloc (gcs_mem g); g = g\<lparr>gcs_mem := m\<rparr>; freed = g\<lparr>gcs_mem := mem_free m\<rparr>
      in if \<not> ok then Some (False, g)
         else
           (let (ok, ctx) = handle_tx_info_struct T g buf
                  \<lparr>struct_hash = [], ic_tx_info = tx_info_zero (te_sig_size T), ic_received_tags = {}\<rparr>;
                ti = ic_tx_info ctx
            in if \<not> ok then Some (False, freed)
               else if \<not> verify_tx_info_struct T ctx then Some (False, freed)
               else
                 (case find_matching_tx_ctx (te_gcs T) (ti_contract_addr ti) (ti_selector ti) (ti_chain_id ti) g of
                    (False, g) \<Rightarrow> Some (False, g\<lparr>gcs_mem := mem_free m\<rparr>)
                  | (True, g) \<Rightarrow> do {
                      (ok, g) \<leftarrow> process_empty_txs_before (te_gcs T) g;
                      if ok then set_tx_info_into_tx_ctx (te_gcs T) ti g else Some (False, g) })))"

text \<open>The contexts that are complete are closed, with the empty calls behind them.\<close>

partial_function (option) close_contexts :: "gcs_env \<Rightarrow> gcs \<Rightarrow> (bool \<times> gcs) option" where
  "close_contexts E g =
     (if gcs_appState g = APP_STATE_SIGNING_EIP712 \<or> \<not> tx_ctx_is_root g then
        Option.bind (validate_instruction_hash E g) (\<lambda>valid.
          if valid then
            Option.bind (process_empty_txs_after E g) (\<lambda>(ok, g).
              if \<not> ok then Some (False, g)
              else Option.bind (tx_ctx_pop g) (\<lambda>g. close_contexts E g))
          else Some (True, g))
      else Some (True, g))"

definition set_fields_hash :: "bytes \<Rightarrow> gcs \<Rightarrow> gcs option" where
  "set_fields_hash h g = do {
     i \<leftarrow> g_tx_ctx_current g;
     c \<leftarrow> ctx_get g i;
     Some (ctx_update i (\<lambda>c. c\<lparr>fields_hash_ctx := h\<rparr>) g) }"

definition get_fields_hash_ctx :: "gcs \<Rightarrow> bytes option" where
  "get_fields_hash_ctx g = do {
     i \<leftarrow> g_tx_ctx_current g;
     c \<leftarrow> ctx_get g i;
     Some (fields_hash_ctx c) }"

definition field_tlv_payload :: "'f ti_env \<Rightarrow> bytes \<Rightarrow> gcs \<Rightarrow> (bool \<times> gcs) option" where
  "field_tlv_payload T buf g =
     do {
       (ok, field, g) \<leftarrow> te_field_struct T buf g;
       if \<not> ok \<or> \<not> te_verify_field T field then do { g \<leftarrow> te_cleanup_field T field g; Some (False, g) }
       else
         (let (ok, m) = mem_alloc (gcs_mem g); g = g\<lparr>gcs_mem := m\<rparr>
          in if \<not> ok then do { g \<leftarrow> te_cleanup_field T field g; Some (False, g) }
             else do {
               hash_ctx_backup \<leftarrow> get_fields_hash_ctx g;
               if \<not> te_hash_ok T hash_ctx_backup buf then do {
                 g \<leftarrow> te_cleanup_field T field (g\<lparr>gcs_mem := mem_free (gcs_mem g)\<rparr>);
                 Some (False, g) }
               else do {
                 g \<leftarrow> set_fields_hash (hash_ctx_backup @ buf) g;
                 (ok, g) \<leftarrow> te_format_field T field g;
                 if \<not> ok then do {
                   g \<leftarrow> set_fields_hash hash_ctx_backup g;
                   Some (False, g\<lparr>gcs_mem := mem_free (gcs_mem g)\<rparr>) }
                 else close_contexts (te_gcs T) (g\<lparr>gcs_mem := mem_free (gcs_mem g)\<rparr>) } }) }"

text \<open>The handlers are told apart by a constant each; the TLV reassembly and the contexts draw
  from independent sequences of allocation outcomes.\<close>

datatype gtp_handler = Tx_info_handler | Field_handler

record gtp_cmd =
  gt_tlv :: "gtp_handler g_tlv"
  gt_tlv_mem :: mem
  gt_gcs :: gcs

definition gtp_handle :: "'f ti_env \<Rightarrow> gtp_handler \<Rightarrow> bytes \<Rightarrow> gcs \<Rightarrow> (bool \<times> gcs) option" where
  "gtp_handle T h buf g =
     (case h of Tx_info_handler \<Rightarrow> tx_info_tlv_payload T buf g | Field_handler \<Rightarrow> field_tlv_payload T buf g)"

definition gtp_run :: "'f ti_env \<Rightarrow> gtp_handler \<Rightarrow> bytes \<Rightarrow> gcs option \<Rightarrow> bool \<times> gcs option" where
  "gtp_run T = fault_run (gtp_handle T)"

definition gtp_from_apdu ::
  "'f ti_env \<Rightarrow> (nat \<Rightarrow> uint8) \<Rightarrow> gtp_handler \<Rightarrow> uint8 \<Rightarrow> uint8 \<Rightarrow> bytes \<Rightarrow> gtp_cmd \<Rightarrow> (sw \<times> gtp_cmd) option" where
  "gtp_from_apdu T fresh h p1 lc payload c = do {
     (ret, t, m, s) \<leftarrow> tlv_from_apdu (gtp_run T) fresh (p1 = 1) lc (Some payload) (Some h) (gt_tlv c) (gt_tlv_mem c) (Some (gt_gcs c));
     g \<leftarrow> s;
     Some (if ret = TLV_APDU_ERROR then SWO_INCORRECT_DATA else SWO_SUCCESS, c\<lparr>gt_tlv := t, gt_tlv_mem := m, gt_gcs := g\<rparr>) }"

definition handle_tx_info ::
  "'f ti_env \<Rightarrow> (nat \<Rightarrow> uint8) \<Rightarrow> uint8 \<Rightarrow> uint8 \<Rightarrow> bytes \<Rightarrow> gtp_cmd \<Rightarrow> (sw \<times> gtp_cmd) option" where
  "handle_tx_info T fresh p1 lc payload c =
     (if gcs_appState (gt_gcs c) \<noteq> APP_STATE_SIGNING_TX \<and> gcs_appState (gt_gcs c) \<noteq> APP_STATE_SIGNING_EIP712
      then Some (SWO_COMMAND_NOT_ALLOWED, c)
      else gtp_from_apdu T fresh Tx_info_handler p1 lc payload c)"

definition handle_field ::
  "'f ti_env \<Rightarrow> (nat \<Rightarrow> uint8) \<Rightarrow> uint8 \<Rightarrow> uint8 \<Rightarrow> bytes \<Rightarrow> gtp_cmd \<Rightarrow> (sw \<times> gtp_cmd) option" where
  "handle_field T fresh p1 lc payload c =
     (if gcs_appState (gt_gcs c) \<noteq> APP_STATE_SIGNING_TX \<and> gcs_appState (gt_gcs c) \<noteq> APP_STATE_SIGNING_EIP712
      then Some (SWO_COMMAND_NOT_ALLOWED, c)
      else do {
        ti \<leftarrow> get_current_tx_info (gt_gcs c);
        if ti = None then Some (SWO_COMMAND_NOT_ALLOWED, c)
        else gtp_from_apdu T fresh Field_handler p1 lc payload c })"

end
