(* ===== verification/Tx_Info_Inv.thy ===== *)
theory Tx_Info_Inv
  imports Tx_Info
begin

text \<open>
  What the commands of \<open>Tx_Info\<close> promise: they never fault, keep the invariant of the contexts, account
  for the memory, describe calls in their order, and accept a description only with a signature
  over all of its fields.
\<close>

section \<open>The handlers of a description\<close>

text \<open>No handler leaves the buffer it writes to, whatever the field holds.\<close>

lemma str_cpy_total:
  assumes "4 < n" "n \<le> length dst"
  shows "\<exists>d. str_cpy_explicit_trunc (Some s) (length s) dst n = Some d \<and> length d = length dst"
  using assms by (cases "length s < n") (simp_all add: str_cpy_explicit_trunc_def buf_simps trunc_marker_def)

definition info_sized :: "s_tx_info_ctx \<Rightarrow> bool" where
  "info_sized ctx \<longleftrightarrow> length (ti_contract_addr (ic_tx_info ctx)) = 20 \<and> length (fields_hash (ic_tx_info ctx)) = 32 \<and>
     length (operation_type (ic_tx_info ctx)) = 31 \<and> length (creator_name (ic_tx_info ctx)) = 23 \<and>
     length (creator_legal_name (ic_tx_info ctx)) = 31 \<and> length (creator_url (ic_tx_info ctx)) = 27 \<and>
     length (contract_name (ic_tx_info ctx)) = 31 \<and> length (deploy_date (ic_tx_info ctx)) = 11"

lemma info_sized_start: "info_sized \<lparr>struct_hash = [], ic_tx_info = tx_info_zero n, ic_received_tags = {}\<rparr>"
  by (simp add: info_sized_def tx_info_zero_def)

lemma tx_info_tags_total:
  assumes K: "buffer_contract (te_sdk T)" and c: "info_sized ctx"
  shows "\<exists>ok ctx'. TX_INFO_TAGS T g tag field ctx = Some (ok, ctx') \<and> info_sized ctx'"
proof -
  define d x where "d = snd field" and "x = tx_info_common_handler tag (fst field) ctx"
  have x: "info_sized x" using c by (simp add: x_def tx_info_common_handler_def info_sized_def)
  let ?i = "ic_tx_info x"
  have u8: "\<exists>ok b. tlv_get_uint8_range (te_sdk T) d (Some a) 0 255 = (ok, Some b)" for a
    by (auto simp: tlv_get_uint8_range_def split: prod.splits bool.splits)
  have u64: "\<exists>ok b. tlv_get_chain_id (te_sdk T) d (Some a) = (ok, Some b)" for a
    by (auto simp: tlv_get_chain_id_def split: prod.splits bool.splits)
  have ad: "\<exists>ok b. tlv_get_address (te_sdk T) d (Some (ti_contract_addr ?i)) = Some (ok, Some b) \<and> length b = 20"
    using tlv_get_address_total [OF K, of "ti_contract_addr ?i" d] x by (auto simp: info_sized_def)
  have se: "\<exists>ok b. tlv_get_hash (te_sdk T) d (Some (replicate CALLDATA_SELECTOR_SIZE 0)) 4 = Some (ok, Some b)"
    using tlv_get_hash_total [OF K, of 4 "replicate CALLDATA_SELECTOR_SIZE 0" d] by auto
  have fh: "\<exists>b. buf_shrink_expand (Some d) (length d) (fields_hash ?i) INT256_LENGTH = Some b \<and> length b = 32"
    using buf_shrink_expand_value [of 32 "fields_hash ?i" "length d" d] x by (auto simp: info_sized_def)
  have b4: "\<exists>b. buf_shrink_expand (Some d) (length d) (replicate 4 0) 4 = Some b"
    using buf_shrink_expand_value [of 4 "replicate 4 0" "length d" d] by auto
  have tm: "\<exists>ok b. time_format_to_yyyymmdd (te_gmtime T) t (deploy_date ?i) 11 = Some (ok, b) \<and> length b = 11" for t
  proof (cases "get_time_struct (te_gmtime T) t")
    case None
    then show ?thesis using x by (simp add: time_format_to_yyyymmdd_def info_sized_def)
  next
    case (Some s)
    obtain w where "snprintf (deploy_date ?i) 11 (yyyymmdd s) = Some w" "length w = 11"
      using snprintf_total [of 11 "deploy_date ?i" "yyyymmdd s"] x by (auto simp: info_sized_def)
    then show ?thesis using Some by (simp add: time_format_to_yyyymmdd_def)
  qed
  have cp: "\<exists>b. str_cpy_explicit_trunc (Some (chars d)) (length d) y n = Some b \<and> length b = n" if "length y = n" "4 < n" for y n
    using str_cpy_total [of n y "chars d"] that by (simp add: chars_def)
  have u: "info_sized (upd_info (\<lambda>t. t\<lparr>ti_version := a\<rparr>) x)" "info_sized (upd_info (\<lambda>t. t\<lparr>ti_chain_id := e\<rparr>) x)"
    "info_sized (upd_info (\<lambda>t. t\<lparr>ti_selector := b\<rparr>) x)" "info_sized (upd_info (\<lambda>t. t\<lparr>signature := b, signature_len := a\<rparr>) x)"
    "length b = 20 \<Longrightarrow> info_sized (upd_info (\<lambda>t. t\<lparr>ti_contract_addr := b\<rparr>) x)"
    "length b = 32 \<Longrightarrow> info_sized (upd_info (\<lambda>t. t\<lparr>fields_hash := b\<rparr>) x)"
    "length w = 31 \<Longrightarrow> info_sized (upd_info (\<lambda>t. t\<lparr>operation_type := w\<rparr>) x)"
    "length w = 23 \<Longrightarrow> info_sized (upd_info (\<lambda>t. t\<lparr>creator_name := w\<rparr>) x)"
    "length w = 31 \<Longrightarrow> info_sized (upd_info (\<lambda>t. t\<lparr>creator_legal_name := w\<rparr>) x)"
    "length w = 27 \<Longrightarrow> info_sized (upd_info (\<lambda>t. t\<lparr>creator_url := w\<rparr>) x)"
    "length w = 31 \<Longrightarrow> info_sized (upd_info (\<lambda>t. t\<lparr>contract_name := w\<rparr>) x)"
    "length w = 11 \<Longrightarrow> info_sized (upd_info (\<lambda>t. t\<lparr>deploy_date := w\<rparr>) x)" for a b e w
    using x by (simp_all add: info_sized_def upd_info_def)
  have h: "\<exists>ok c'. f = Some (ok, c') \<and> info_sized c'"
    if "f \<in> {ti_handle_version (te_sdk T) d x, ti_handle_chain_id (te_sdk T) d x, handle_contract_addr (te_sdk T) d x,
        ti_handle_selector (te_sdk T) g d x, handle_fields_hash d x, handle_operation_type d x, handle_creator_name d x,
        handle_creator_legal_name d x, handle_creator_url d x, handle_contract_name d x, handle_deploy_date (te_gmtime T) d x,
        handle_signature d x, Some (False, x)}" for f
    using that x
  proof (elim insertE)
    assume "f = ti_handle_version (te_sdk T) d x" then show ?thesis using u8 [of "ti_version ?i"] u(1) by (auto simp: ti_handle_version_def)
  next
    assume "f = ti_handle_chain_id (te_sdk T) d x" then show ?thesis using u64 [of "ti_chain_id ?i"] u(2) by (auto simp: ti_handle_chain_id_def)
  next
    assume "f = handle_contract_addr (te_sdk T) d x" then show ?thesis using ad u(5) by (auto simp: handle_contract_addr_def)
  next
    assume "f = ti_handle_selector (te_sdk T) g d x" then show ?thesis using se u(3) x by (auto simp: ti_handle_selector_def)
  next
    assume "f = handle_fields_hash d x" then show ?thesis using fh u(6) x by (auto simp: handle_fields_hash_def)
  next
    assume "f = handle_operation_type d x" then show ?thesis using cp [of "operation_type ?i" 31] u(7) x by (auto simp: handle_operation_type_def info_sized_def)
  next
    assume "f = handle_creator_name d x" then show ?thesis using cp [of "creator_name ?i" 23] u(8) x by (auto simp: handle_creator_name_def info_sized_def)
  next
    assume "f = handle_creator_legal_name d x"
    then show ?thesis using cp [of "creator_legal_name ?i" 31] u(9) x by (auto simp: handle_creator_legal_name_def info_sized_def)
  next
    assume "f = handle_creator_url d x" then show ?thesis using cp [of "creator_url ?i" 27] u(10) x by (auto simp: handle_creator_url_def info_sized_def)
  next
    assume "f = handle_contract_name d x" then show ?thesis using cp [of "contract_name ?i" 31] u(11) x by (auto simp: handle_contract_name_def info_sized_def)
  next
    assume f: "f = handle_deploy_date (te_gmtime T) d x"
    obtain b where b: "buf_shrink_expand (Some d) (length d) (replicate 4 0) 4 = Some b" using b4 by blast
    obtain ok w where w: "time_format_to_yyyymmdd (te_gmtime T) (be_val b) (deploy_date ?i) 11 = Some (ok, w)" "length w = 11" using tm by blast
    show ?thesis using f b w u(12) x by (simp add: handle_deploy_date_def)
  next
    assume "f = handle_signature d x" then show ?thesis using u(4) x by (auto simp: handle_signature_def wr_n_def)
  qed simp_all
  show ?thesis unfolding TX_INFO_TAGS_def d_def [symmetric] x_def [symmetric]
    by (rule h) (simp add: tx_info_tag_def)
qed

section \<open>Descriptions\<close>

lemma gcs_inv_mem:
  assumes "gcs_inv g" "gcs_blocks g \<le> live m"
  shows "gcs_inv (g\<lparr>gcs_mem := m\<rparr>)" "gcs_blocks (g\<lparr>gcs_mem := m\<rparr>) = gcs_blocks g"
  using assms by (auto simp: gcs_inv_def current_ok_def ctx_ids_def gcs_blocks_def split: option.splits)

lemma gcs_inv_current:
  assumes "gcs_inv g" "i \<in> set (ctx_ids g)"
  shows "gcs_inv (g\<lparr>g_tx_ctx_current := Some i\<rparr>)" "gcs_blocks (g\<lparr>g_tx_ctx_current := Some i\<rparr>) = gcs_blocks g"
  using assms by (auto simp: gcs_inv_def current_ok_def ctx_ids_def gcs_blocks_def split: option.splits)

text \<open>The description of the first call that has none, once the empty calls before it are shown.\<close>

definition one_block_lost :: "gcs \<Rightarrow> gcs \<Rightarrow> bool" where
  "one_block_lost g g' \<longleftrightarrow> live (gcs_mem g') + gcs_blocks g = Suc (live (gcs_mem g) + gcs_blocks g')"

text \<open>The one way to lose a block: a description that was accepted, verified and matched, in front of whose call an empty call
  cannot be shown.\<close>

definition description_dropped :: "'f ti_env \<Rightarrow> bytes \<Rightarrow> gcs \<Rightarrow> gcs \<Rightarrow> bool" where
  "description_dropped T buf g g' \<longleftrightarrow>
     (\<exists>m ctx g2. mem_alloc (gcs_mem g) = (True, m) \<and>
        handle_tx_info_struct T (g\<lparr>gcs_mem := m\<rparr>) buf
          \<lparr>struct_hash = [], ic_tx_info = tx_info_zero (te_sig_size T), ic_received_tags = {}\<rparr> = (True, ctx) \<and>
        verify_tx_info_struct T ctx \<and>
        find_matching_tx_ctx (te_gcs T) (ti_contract_addr (ic_tx_info ctx)) (ti_selector (ic_tx_info ctx))
          (ti_chain_id (ic_tx_info ctx)) (g\<lparr>gcs_mem := m\<rparr>) = (True, g2) \<and>
        process_empty_txs_before (te_gcs T) g2 = Some (False, g'))"

lemma describe_first_inv:
  assumes inv: "gcs_inv g" and room: "gcs_blocks g < live (gcs_mem g)" and l: "g_tx_ctx_list g = xs @ (i, c) # ys"
    and c: "tx_info c = None" "calldata c \<noteq> None"
    and first: "\<forall>(_, d) \<in> set xs. calldata d \<noteq> None \<longrightarrow> tx_info d \<noteq> None"
    and cur: "g_tx_ctx_current g = Some i"
  obtains (shown) g1 ok g' where "process_empty_txs_before E g = Some (True, g1)" "set_tx_info_into_tx_ctx E ti g1 = Some (ok, g')"
      "gcs_inv g'" "live (gcs_mem g') + Suc (gcs_blocks g) = live (gcs_mem g) + gcs_blocks g'"
  | (failed) g' where "process_empty_txs_before E g = Some (False, g')" "gcs_inv g'" "gcs_balanced g g'"
proof -
  obtain ok g1 R where e: "process_empty_txs_before E g = Some (ok, g1)" "gcs_inv g1" "gcs_balanced g g1" "emptied R g g1"
    "\<forall>j \<in> R. g_tx_ctx_current g \<noteq> Some j"
    using process_empty_txs_around(1) [OF inv cur, of E] unfolding emptying_def by blast
  let ?f = "filter (\<lambda>(j, _). j \<notin> R)"
  have iR: "i \<notin> R" using e(5) cur by auto
  have l1: "g_tx_ctx_list g1 = ?f xs @ (i, c) # ?f ys" using emptied_list [OF e(4)] l iR by simp
  have first1: "\<forall>(_, d) \<in> set (?f xs). calldata d \<noteq> None \<longrightarrow> tx_info d \<noteq> None" using first by auto
  have room1: "gcs_blocks g1 < live (gcs_mem g1)" using e(3) room by (simp add: gcs_balanced_def)
  have cur1: "g_tx_ctx_current g1 = Some i" using e(4) cur by simp
  show ?thesis
  proof (cases ok)
    case False
    then show ?thesis using failed e by simp
  next
    case True
    obtain ok' g' where s: "set_tx_info_into_tx_ctx E ti g1 = Some (ok', g')" "gcs_inv g'"
      "live (gcs_mem g') + Suc (gcs_blocks g1) = live (gcs_mem g1) + gcs_blocks g'"
      using set_tx_info_inv [OF e(2) l1 c(1) first1 room1 cur1, of E ti] by blast
    have "live (gcs_mem g') + Suc (gcs_blocks g) = live (gcs_mem g) + gcs_blocks g'"
      using s(3) e(3) by (simp add: gcs_balanced_def)
    then show ?thesis using shown e(1) True s(1,2) by simp
  qed
qed

lemma tx_info_tlv_payload_inv:
  assumes inv: "gcs_inv g"
  shows "\<exists>ok g'. tx_info_tlv_payload T buf g = Some (ok, g') \<and> gcs_inv g' \<and>
     (gcs_balanced g g' \<or> \<not> ok \<and> one_block_lost g g' \<and> description_dropped T buf g g')"
proof (cases "gcs_mem g" rule: mem_alloc_cases)
  case (fail m)
  then show ?thesis using gcs_inv_mem [OF inv, of m] gcs_invD(3) [OF inv]
    by (simp add: tx_info_tlv_payload_def gcs_balanced_def)
next
  case (ok m)
  let ?g1 = "g\<lparr>gcs_mem := m\<rparr>" and ?f = "g\<lparr>gcs_mem := mem_free m\<rparr>"
  have g1: "gcs_inv ?g1" "gcs_blocks ?g1 = gcs_blocks g" "gcs_blocks ?g1 < live (gcs_mem ?g1)"
    using gcs_inv_mem [OF inv, of m] gcs_invD(3) [OF inv] ok by simp_all
  have f: "gcs_inv ?f" "gcs_balanced g ?f"
    using gcs_inv_mem [OF inv, of "mem_free m"] gcs_invD(3) [OF inv] ok by (simp_all add: gcs_balanced_def)
  obtain ok' ctx where p: "handle_tx_info_struct T ?g1 buf
      \<lparr>struct_hash = [], ic_tx_info = tx_info_zero (te_sig_size T), ic_received_tags = {}\<rparr> = (ok', ctx)"
    by (rule prod.exhaust)
  let ?ti = "ic_tx_info ctx" and ?E = "te_gcs T"
  obtain b g2 where m: "find_matching_tx_ctx ?E (ti_contract_addr ?ti) (ti_selector ?ti) (ti_chain_id ?ti) ?g1 = (b, g2)"
    by (rule prod.exhaust)
  show ?thesis
  proof (cases "ok' \<and> verify_tx_info_struct T ctx \<and> b")
    case False
    have "g2 = ?g1" if "\<not> b" using find_matching_failure m that by auto
    then have "tx_info_tlv_payload T buf g = Some (False, ?f)"
      using ok p m False by (auto simp: tx_info_tlv_payload_def Let_def)
    then show ?thesis using f by blast
  next
    case True
    then have m': "find_matching_tx_ctx ?E (ti_contract_addr ?ti) (ti_selector ?ti) (ti_chain_id ?ti) ?g1 = (True, g2)" using m by simp
    obtain xs i c ys where l: "g_tx_ctx_list ?g1 = xs @ (i, c) # ys" "g2 = ?g1\<lparr>g_tx_ctx_current := Some i\<rparr>"
      "tx_info c = None" "calldata c \<noteq> None" "\<forall>(_, d) \<in> set xs. calldata d \<noteq> None \<longrightarrow> tx_info d \<noteq> None"
      using find_matching_first [OF m'] by (elim exE conjE) simp
    have "i \<in> set (ctx_ids ?g1)" using l(1) by (simp add: ctx_ids_def)
    note g2 = gcs_inv_current [OF g1(1) this, folded l(2)]
    have r: "tx_info_tlv_payload T buf g = do { (ok, g) \<leftarrow> process_empty_txs_before ?E g2;
        if ok then set_tx_info_into_tx_ctx ?E ?ti g else Some (False, g) }"
      using ok p m True by (simp add: tx_info_tlv_payload_def Let_def)
    have room2: "gcs_blocks g2 < live (gcs_mem g2)" using g1(3) g2(2) l(2) by simp
    have l2: "g_tx_ctx_list g2 = xs @ (i, c) # ys" "g_tx_ctx_current g2 = Some i" "gcs_mem g2 = m" using l(1,2) by simp_all
    show ?thesis
    proof (rule describe_first_inv [OF g2(1) room2 l2(1) l(3,4,5) l2(2), of ?E ?ti])
      fix g3 ok'' g'
      assume "process_empty_txs_before ?E g2 = Some (True, g3)" "set_tx_info_into_tx_ctx ?E ?ti g3 = Some (ok'', g')"
        "gcs_inv g'" "live (gcs_mem g') + Suc (gcs_blocks g2) = live (gcs_mem g2) + gcs_blocks g'"
      then show ?thesis using r g1(2) g2(2) l2(3) ok by (simp add: gcs_balanced_def)
    next
      fix g'
      assume "process_empty_txs_before ?E g2 = Some (False, g')" "gcs_inv g'" "gcs_balanced g2 g'"
      moreover have "description_dropped T buf g g'" unfolding description_dropped_def
        using ok(1) p m' True \<open>process_empty_txs_before ?E g2 = Some (False, g')\<close>
        by (intro exI [of _ m] exI [of _ ctx] exI [of _ g2]) simp
      ultimately show ?thesis using r g1(2) g2(2) l2(3) ok by (simp add: gcs_balanced_def one_block_lost_def)
    qed
  qed
qed

text \<open>A description that is accepted and matches a call is lost when an empty call before that one
  cannot be shown.\<close>

lemma tx_info_lost:
  assumes inv: "gcs_inv g" and m: "mem_alloc (gcs_mem g) = (True, m)"
    and p: "handle_tx_info_struct T (g\<lparr>gcs_mem := m\<rparr>) buf
      \<lparr>struct_hash = [], ic_tx_info = tx_info_zero (te_sig_size T), ic_received_tags = {}\<rparr> = (True, ctx)"
    and v: "verify_tx_info_struct T ctx"
    and f: "find_matching_tx_ctx (te_gcs T) (ti_contract_addr (ic_tx_info ctx)) (ti_selector (ic_tx_info ctx))
      (ti_chain_id (ic_tx_info ctx)) (g\<lparr>gcs_mem := m\<rparr>) = (True, g2)"
    and e: "process_empty_txs_before (te_gcs T) g2 = Some (False, g')"
  shows "tx_info_tlv_payload T buf g = Some (False, g') \<and> one_block_lost g g'"
proof -
  obtain xs i c ys where l: "g_tx_ctx_list g = xs @ (i, c) # ys" "g2 = g\<lparr>gcs_mem := m, g_tx_ctx_current := Some i\<rparr>"
    using find_matching_first [OF f] by auto
  have lv: "live m = Suc (live (gcs_mem g))" using mem_alloc_live [OF m] by simp
  have g1: "gcs_inv (g\<lparr>gcs_mem := m\<rparr>)" "gcs_blocks (g\<lparr>gcs_mem := m\<rparr>) = gcs_blocks g"
    using gcs_inv_mem [OF inv, of m] gcs_invD(3) [OF inv] lv by simp_all
  have "i \<in> set (ctx_ids (g\<lparr>gcs_mem := m\<rparr>))" using l(1) by (simp add: ctx_ids_def)
  note g2 = gcs_inv_current [OF g1(1) this, folded l(2)]
  have "gcs_balanced g2 g'"
    using process_empty_txs_around(1) [OF g2(1), of i "te_gcs T"] e l(2) by (auto simp: emptying_def)
  then have "one_block_lost g g'" using g1(2) g2(2) l(2) lv by (simp add: one_block_lost_def gcs_balanced_def)
  moreover have "tx_info_tlv_payload T buf g = Some (False, g')"
    using m p v f e by (simp add: tx_info_tlv_payload_def Let_def)
  ultimately show ?thesis by simp
qed

section \<open>The signature covers every field\<close>

lemma struct_hash_tag: "tx_info_tag T g tag data ctx = Some (r, ctx') \<Longrightarrow> struct_hash ctx' = struct_hash ctx"
  unfolding tx_info_tag_def
  by (auto simp: ti_handle_version_def ti_handle_chain_id_def handle_contract_addr_def ti_handle_selector_def handle_fields_hash_def
      handle_operation_type_def handle_creator_name_def handle_creator_legal_name_def handle_creator_url_def handle_contract_name_def
      handle_deploy_date_def handle_signature_def upd_info_def split: if_splits bind_splits prod.splits)

lemma tags_kept: "TX_INFO_TAGS T g tag d ctx = Some (r, ctx') \<Longrightarrow> ic_received_tags ctx' = ic_received_tags ctx"
  unfolding TX_INFO_TAGS_def tx_info_tag_def
  by (auto simp: ti_handle_version_def ti_handle_chain_id_def handle_contract_addr_def ti_handle_selector_def handle_fields_hash_def
      handle_operation_type_def handle_creator_name_def handle_creator_legal_name_def handle_creator_url_def handle_contract_name_def
      handle_deploy_date_def handle_signature_def upd_info_def tx_info_common_handler_def split: if_splits bind_splits prod.splits)

lemma run_fields_struct_hash:
  "run_fields (TX_INFO_TAGS T g) fs ctx = Some (True, ctx') \<Longrightarrow>
   struct_hash ctx' = struct_hash ctx @ concat (map (fst \<circ> snd) (filter (\<lambda>f. fst f \<noteq> 0xff) fs))"
proof (induction fs arbitrary: ctx)
  case (Cons f fs)
  obtain tag raw data where f: "f = (tag, raw, data)" by (cases f)
  obtain c1 where h: "TX_INFO_TAGS T g tag (raw, data) ctx = Some (True, c1)" "run_fields (TX_INFO_TAGS T g) fs c1 = Some (True, ctx')"
    using Cons.prems by (auto simp: f split: bind_splits if_splits)
  have "struct_hash c1 = struct_hash (tx_info_common_handler tag raw ctx)"
    using h(1) struct_hash_tag by (fastforce simp: TX_INFO_TAGS_def)
  then show ?case using Cons.IH [OF h(2)] by (auto simp: f tx_info_common_handler_def)
qed simp

text \<open>What the generated parser is relied on for.\<close>

definition tx_info_contract :: "'f ti_env \<Rightarrow> bool" where
  "tx_info_contract T \<longleftrightarrow> (\<forall>g. parser_contract {0x00, 0x01, 0x02, 0x03, 0x04, 0x05, 0xff} (TX_INFO_TAGS T g) (te_parser T g))"

lemma tx_info_accepted:
  assumes T: "tx_info_contract T" and p: "handle_tx_info_struct T g buf
      \<lparr>struct_hash = [], ic_tx_info = tx_info_zero n, ic_received_tags = {}\<rparr> = (True, ctx)"
    and v: "verify_tx_info_struct T ctx"
  shows "\<exists>fs hash. run_fields (TX_INFO_TAGS T g) fs \<lparr>struct_hash = [], ic_tx_info = tx_info_zero n, ic_received_tags = {}\<rparr>
        = Some (True, ctx\<lparr>ic_received_tags := {}\<rparr>) \<and>
     {0x00, 0x01, 0x02, 0x03, 0x04, 0x05, 0xff} \<subseteq> fst ` set fs \<and> ti_version (ic_tx_info ctx) = 1 \<and>
     te_sha256 T (concat (map (fst \<circ> snd) (filter (\<lambda>f. fst f \<noteq> 0xff) fs))) = Some hash \<and>
     te_check_signature T hash (take (unat (signature_len (ic_tx_info ctx))) (signature (ic_tx_info ctx)))"
proof -
  let ?z = "\<lparr>struct_hash = [], ic_tx_info = tx_info_zero n, ic_received_tags = {}\<rparr>"
  obtain ctx' tags where c: "te_parser T g buf ?z = (True, ctx', tags)" "ctx = ctx'\<lparr>ic_received_tags := tags\<rparr>"
    using p by (auto simp: handle_tx_info_struct_def split: prod.splits)
  have pc: "parser_contract {0x00, 0x01, 0x02, 0x03, 0x04, 0x05, 0xff} (TX_INFO_TAGS T g) (te_parser T g)"
    using T by (simp add: tx_info_contract_def)
  obtain fs where f: "run_fields (TX_INFO_TAGS T g) fs ?z = Some (True, ctx')" "tags = fst ` set fs"
    by (rule parser_contractD [OF pc c(1)]) auto
  have t: "ic_received_tags ctx' = {}"
    by (rule run_fields_invariant [OF _ f(1), where P = "\<lambda>c. ic_received_tags c = {}"]) (simp_all add: tags_kept)
  have sh: "struct_hash ctx' = concat (map (fst \<circ> snd) (filter (\<lambda>f. fst f \<noteq> 0xff) fs))"
    using run_fields_struct_hash [OF f(1)] by simp
  have ctx: "ctx\<lparr>ic_received_tags := {}\<rparr> = ctx'" using c(2) t by simp
  show ?thesis using v f ctx sh c(2) by (auto simp: verify_tx_info_struct_def split: if_splits option.splits)
qed

section \<open>Fields\<close>

lemma emptied_length: "emptied R g g' \<Longrightarrow> length (g_tx_ctx_list g') \<le> length (g_tx_ctx_list g)"
  by (simp add: emptied_list length_filter_le)

lemma emptied_appState: "emptied R g g' \<Longrightarrow> gcs_appState g' = gcs_appState g"
  by (auto simp: emptied_def)

text \<open>Closing the complete contexts ends: each round removes one.  It stops, unless an empty call
  cannot be shown, at the transaction itself or at a context that is not complete.\<close>

definition nothing_to_close :: "gcs_env \<Rightarrow> gcs \<Rightarrow> bool" where
  "nothing_to_close E g \<longleftrightarrow> gcs_appState g \<noteq> APP_STATE_SIGNING_EIP712 \<and> tx_ctx_is_root g
     \<or> validate_instruction_hash E g = Some False"

text \<open>What may go: a call without calldata, and a call whose displayed fields are those of its description.\<close>

definition may_close :: "gcs_env \<Rightarrow> s_tx_ctx \<Rightarrow> bool" where
  "may_close E c \<longleftrightarrow> calldata c = None \<or> validate_inst_hash_on E (Some c)"

definition closes_only :: "gcs_env \<Rightarrow> gcs \<Rightarrow> gcs \<Rightarrow> bool" where
  "closes_only E g g' \<longleftrightarrow> set (g_tx_ctx_list g') \<subseteq> set (g_tx_ctx_list g) \<and>
     (\<forall>(i, c) \<in> set (g_tx_ctx_list g). (i, c) \<in> set (g_tx_ctx_list g') \<or> may_close E c)"

lemma closes_only_refl [simp]: "closes_only E g g"
  by (auto simp: closes_only_def)

lemma closes_only_trans: "closes_only E g g' \<Longrightarrow> closes_only E g' g'' \<Longrightarrow> closes_only E g g''"
  unfolding closes_only_def by fastforce

lemma emptied_closes_only:
  assumes "gcs_inv g" "emptied R g g'" "\<forall>j \<in> R. \<forall>c. ctx_get g j = Some c \<longrightarrow> calldata c = None"
  shows "closes_only E g g'"
proof -
  have d: "distinct (ctx_ids g)" by (rule gcs_invD(1) [OF assms(1)])
  have "may_close E c" if "(j, c) \<in> set (g_tx_ctx_list g)" "j \<in> R" for j c
    using that d assms(3) by (auto simp: may_close_def ctx_get_Some_iff)
  then show ?thesis by (auto simp: closes_only_def emptied_list [OF assms(2)])
qed

lemma pop_closes_only:
  assumes "gcs_inv g" "ctx_get g i = Some c" "may_close E c" "g_tx_ctx_list g' = filter (\<lambda>(j, _). j \<noteq> i) (g_tx_ctx_list g)"
  shows "closes_only E g g'"
proof -
  have "distinct (ctx_ids g)" by (rule gcs_invD(1) [OF assms(1)])
  then have "c' = c" if "(i, c') \<in> set (g_tx_ctx_list g)" for c'
    using that assms(2) by (simp add: ctx_get_Some_iff [symmetric])
  then show ?thesis using assms(3) by (auto simp: closes_only_def assms(4))
qed

lemma close_contexts_total:
  "gcs_inv g \<Longrightarrow> \<exists>ok g'. close_contexts E g = Some (ok, g') \<and> gcs_inv g' \<and> gcs_balanced g g' \<and> closes_only E g g' \<and>
     (ok \<longrightarrow> nothing_to_close E g')"
proof (induction "length (g_tx_ctx_list g)" arbitrary: g rule: less_induct)
  case less
  obtain b where b: "validate_instruction_hash E g = Some b"
    using validate_total [OF gcs_inv_current_ok [OF less.prems]] by blast
  show ?case
  proof (cases "(gcs_appState g = APP_STATE_SIGNING_EIP712 \<or> \<not> tx_ctx_is_root g) \<and> b")
    case False
    then have "close_contexts E g = Some (True, g)" using b by (subst close_contexts.simps) auto
    moreover have "nothing_to_close E g" using False b by (auto simp: nothing_to_close_def)
    ultimately show ?thesis using less.prems by simp
  next
    case True
    then obtain i c where cur: "g_tx_ctx_current g = Some i" and c: "ctx_get g i = Some c" and m: "may_close E c"
      using b by (auto simp: validate_instruction_hash_def validate_inst_hash_on_def may_close_def split: option.splits)
    obtain ok g1 R where e: "process_empty_txs_after E g = Some (ok, g1)" "gcs_inv g1" "gcs_balanced g g1" "emptied R g g1"
      and R: "\<forall>j \<in> R. g_tx_ctx_current g \<noteq> Some j \<and> (\<forall>c. ctx_get g j = Some c \<longrightarrow> calldata c = None)"
      using process_empty_txs_around(2) [OF less.prems cur, of E] unfolding emptying_def by blast
    have co1: "closes_only E g g1" by (rule emptied_closes_only [OF less.prems e(4)]) (use R in blast)
    have c1: "ctx_get g1 i = Some c" using emptied_get [OF e(4)] R cur c by auto
    show ?thesis
    proof (cases ok)
      case False
      then have "close_contexts E g = Some (False, g1)" using True b e by (subst close_contexts.simps) auto
      then show ?thesis using e co1 by (intro exI [of _ False] exI [of _ g1]) simp
    next
      case ok: True
      have cur1: "g_tx_ctx_current g1 = Some i" using e(4) cur by simp
      obtain g2 where g2: "tx_ctx_pop g1 = Some g2" "gcs_inv g2" "gcs_balanced g1 g2"
        and g2e: "g2 = g1\<lparr>g_tx_ctx_current := prev_id i (ctx_ids g1), g_tx_ctx_list := filter (\<lambda>(j, _). j \<noteq> i) (g_tx_ctx_list g1), gcs_mem := gcs_mem g2\<rparr>"
        using tx_ctx_pop_inv [OF e(2) cur1] by (elim exE conjE)
      have l2: "g_tx_ctx_list g2 = filter (\<lambda>(j, _). j \<noteq> i) (g_tx_ctx_list g1)" by (subst g2e) simp
      have "i \<in> set (ctx_ids g1)" using e(2) cur1 by (simp add: gcs_inv_def current_ok_def)
      then have "length (g_tx_ctx_list g2) < length (g_tx_ctx_list g1)"
        unfolding l2 ctx_ids_def by (force intro: length_filter_less)
      then have "length (g_tx_ctx_list g2) < length (g_tx_ctx_list g)" using emptied_length [OF e(4)] by simp
      then obtain ok' g' where r: "close_contexts E g2 = Some (ok', g')" "gcs_inv g'" "gcs_balanced g2 g'" "ok' \<longrightarrow> nothing_to_close E g'"
        and co3: "closes_only E g2 g'" using less.hyps g2(2) by blast
      have co2: "closes_only E g1 g2" by (rule pop_closes_only [OF e(2) c1 m l2])
      have "close_contexts E g = Some (ok', g')" using True b e(1) ok g2(1) r(1) by (subst close_contexts.simps) simp
      then show ?thesis using r(2,4) gcs_balanced_trans [OF gcs_balanced_trans [OF e(3) g2(3)] r(3)]
          closes_only_trans [OF closes_only_trans [OF co1 co2] co3] by simp
    qed
  qed
qed

lemma set_fields_hash_inv:
  assumes inv: "gcs_inv g" and cur: "g_tx_ctx_current g = Some i"
  shows "\<exists>g'. set_fields_hash h g = Some g' \<and> gcs_inv g' \<and> gcs_balanced g g' \<and> gcs_mem g' = gcs_mem g \<and>
     g_tx_ctx_current g' = Some i \<and> get_fields_hash_ctx g' = Some h"
proof -
  let ?f = "\<lambda>c. c\<lparr>fields_hash_ctx := h\<rparr>" and ?g = "ctx_update i (\<lambda>c. c\<lparr>fields_hash_ctx := h\<rparr>) g"
  obtain c where c: "ctx_get g i = Some c" using gcs_invD(4) [OF inv cur] by blast
  have ids: "ctx_ids ?g = ctx_ids g" by (auto simp: ctx_ids_def ctx_update_def)
  have cb: "ctx_blocks (if q then ?f c else c) = ctx_blocks c" for q c by (simp add: ctx_blocks_def)
  have "map (ctx_blocks \<circ> snd) (map (\<lambda>(j, c). (j, if j = i then ?f c else c)) l) = map (ctx_blocks \<circ> snd) l" for l
    by (induction l) (auto simp: cb)
  from this [of "g_tx_ctx_list g"] have b: "gcs_blocks ?g = gcs_blocks g"
    unfolding gcs_blocks_def ctx_update_def by (simp del: map_map map_eq_conv)
  have "review_order (map (\<lambda>(j, c). (j, if j = i then ?f c else c)) l)" if "review_order l" for l
    using that unfolding review_order_def sorted_wrt_map by (rule sorted_wrt_mono_rel [rotated]) (auto split: if_splits)
  then have inv': "gcs_inv ?g" using inv ids b
    by (auto simp: gcs_inv_def current_ok_def ctx_update_def split: option.splits)
  have "map_of (map (\<lambda>(j, c). (j, if j = i then ?f c else c)) l) i = map_option ?f (map_of l i)" for l :: "(nat \<times> s_tx_ctx) list"
    by (induction l) auto
  from this [of "g_tx_ctx_list g"] have "get_fields_hash_ctx ?g = Some h"
    using c cur by (simp add: get_fields_hash_ctx_def ctx_get_def ctx_update_def)
  then show ?thesis using inv' b c cur by (simp add: set_fields_hash_def gcs_balanced_def ctx_update_def)
qed

section \<open>The commands\<close>

definition gtp_inv :: "gtp_cmd \<Rightarrow> bool" where
  "gtp_inv c \<longleftrightarrow> tlv_inv (gt_tlv c) \<and> tlv_blocks (gt_tlv c) \<le> live (gt_tlv_mem c) \<and> gcs_inv (gt_gcs c)"

text \<open>The payload that a handler gets, if this APDU completes it.\<close>

definition assembled :: "bool \<Rightarrow> bytes \<Rightarrow> 'h g_tlv \<Rightarrow> bytes" where
  "assembled first data t = (if first then drop 2 data else case tlv_abs t of None \<Rightarrow> [] | Some (h, sz, received) \<Rightarrow> received @ data)"

lemma tlv_spec_payload:
  assumes "tlv_spec run ok first data h (tlv_abs t) s = (r, a, s')"
  shows "(s' = s \<and> r \<noteq> TLV_APDU_SUCCESS) \<or> (run h (assembled first data t) s = (r = TLV_APDU_SUCCESS, s') \<and> r \<noteq> TLV_APDU_PENDING)"
  using assms
  by (auto simp: tlv_spec_def tlv_spec_feed_def assembled_def Let_def split: if_splits option.splits prod.splits)

text \<open>The command faults only where the handler does; else its state is the old one or what the handler left.\<close>

lemma gtp_from_apdu_cases:
  assumes inv: "gtp_inv c" and len: "length payload = unat lc"
  obtains (fault) "gtp_from_apdu T fresh h p1 lc payload c = None" "gtp_handle T h (assembled (p1 = 1) payload (gt_tlv c)) (gt_gcs c) = None"
  | (same) sw c' where "gtp_from_apdu T fresh h p1 lc payload c = Some (sw, c')" "gt_gcs c' = gt_gcs c" "gtp_inv c'"
  | (handled) sw c' ok where "gtp_from_apdu T fresh h p1 lc payload c = Some (sw, c')"
      "gtp_handle T h (assembled (p1 = 1) payload (gt_tlv c)) (gt_gcs c) = Some (ok, gt_gcs c')"
      "sw = (if ok then SWO_SUCCESS else SWO_INCORRECT_DATA)" "gcs_inv (gt_gcs c') \<Longrightarrow> gtp_inv c'"
proof -
  let ?buf = "assembled (p1 = 1) payload (gt_tlv c)"
  have i: "tlv_inv (gt_tlv c)" "tlv_blocks (gt_tlv c) \<le> live (gt_tlv_mem c)" "gcs_inv (gt_gcs c)"
    using inv by (auto simp: gtp_inv_def)
  obtain r a s' where sp: "tlv_spec (gtp_run T) (fst (mem_alloc (gt_tlv_mem c))) (p1 = 1) payload h (tlv_abs (gt_tlv c)) (Some (gt_gcs c)) = (r, a, s')"
    by (metis prod_cases3)
  obtain t m where res: "tlv_from_apdu (gtp_run T) fresh (p1 = 1) lc (Some payload) (Some h) (gt_tlv c) (gt_tlv_mem c) (Some (gt_gcs c)) = Some (r, t, m, s')"
    "tlv_inv t" "tlv_balanced (gt_tlv c) (gt_tlv_mem c) t m"
    using tlv_from_apdu_refines [OF i(1) len i(2) sp, of fresh] by auto
  have lv: "tlv_blocks t \<le> live m" using res(3) i(2) by (simp add: tlv_balanced_def)
  from tlv_spec_payload [OF sp] show ?thesis
  proof (elim disjE conjE)
    assume "s' = Some (gt_gcs c)"
    then show ?thesis using same res lv i(3) by (simp add: gtp_from_apdu_def gtp_inv_def)
  next
    assume run: "gtp_run T h ?buf (Some (gt_gcs c)) = (r = TLV_APDU_SUCCESS, s')" and np: "r \<noteq> TLV_APDU_PENDING"
    show ?thesis
    proof (cases "gtp_handle T h ?buf (gt_gcs c)")
      case None
      then show ?thesis using fault run res(1) by (simp add: gtp_run_def fault_run_None gtp_from_apdu_def)
    next
      case (Some x)
      obtain ok g' where x: "x = (ok, g')" by (cases x)
      then have "s' = Some g'" "ok = (r = TLV_APDU_SUCCESS)" using run Some by (auto simp: gtp_run_def fault_run_Some)
      note e = this
      let ?sw = "if ok then SWO_SUCCESS else SWO_INCORRECT_DATA" and ?c = "c\<lparr>gt_tlv := t, gt_tlv_mem := m, gt_gcs := g'\<rparr>"
      have "gtp_from_apdu T fresh h p1 lc payload c = Some (?sw, ?c)"
        using res(1) e np by (cases r) (simp_all add: gtp_from_apdu_def)
      moreover have "gtp_handle T h ?buf (gt_gcs c) = Some (ok, gt_gcs ?c)" using Some x by simp
      moreover have "gcs_inv (gt_gcs ?c) \<Longrightarrow> gtp_inv ?c" using res(2) lv by (simp add: gtp_inv_def)
      ultimately show ?thesis by (rule handled [OF _ _ refl])
    qed
  qed
qed

lemma handle_tx_info_inv:
  assumes inv: "gtp_inv c" and len: "length payload = unat lc"
  shows "\<exists>sw c'. handle_tx_info T fresh p1 lc payload c = Some (sw, c') \<and> gtp_inv c' \<and>
     (gcs_balanced (gt_gcs c) (gt_gcs c') \<or> sw = SWO_INCORRECT_DATA \<and> one_block_lost (gt_gcs c) (gt_gcs c') \<and>
        description_dropped T (assembled (p1 = 1) payload (gt_tlv c)) (gt_gcs c) (gt_gcs c'))"
proof (cases "gcs_appState (gt_gcs c) \<noteq> APP_STATE_SIGNING_TX \<and> gcs_appState (gt_gcs c) \<noteq> APP_STATE_SIGNING_EIP712")
  case True
  then show ?thesis using inv by (simp add: handle_tx_info_def)
next
  case False
  have i: "gcs_inv (gt_gcs c)" using inv by (simp add: gtp_inv_def)
  let ?buf = "assembled (p1 = 1) payload (gt_tlv c)"
  obtain ok g' where h: "gtp_handle T Tx_info_handler ?buf (gt_gcs c) = Some (ok, g')" "gcs_inv g'"
    "gcs_balanced (gt_gcs c) g' \<or> \<not> ok \<and> one_block_lost (gt_gcs c) g' \<and> description_dropped T ?buf (gt_gcs c) g'"
    using tx_info_tlv_payload_inv [OF i, of T ?buf] by (auto simp: gtp_handle_def)
  from inv len show ?thesis
  proof (cases rule: gtp_from_apdu_cases [where T = T and fresh = fresh and h = Tx_info_handler and ?p1.0 = p1])
    case fault
    then show ?thesis using h by simp
  next
    case (same sw c')
    then show ?thesis using False by (auto simp: handle_tx_info_def)
  next
    case (handled sw c' ok')
    then show ?thesis using False h by (auto simp: handle_tx_info_def)
  qed
qed

end
