(* ===== verification/Assets.thy ===== *)
theory Assets
  imports Network Tlv_Utils
begin

text \<open>
  Model of the tokens and collections that the application is told of:
  \<open>src/features/provide_erc20_token_information\<close> (\<open>token_info.c\<close> and the command), \<open>src/features/provide_nft_information\<close>
  (\<open>nft_info.c\<close> and the command) and the lookup of \<open>src/manage_asset_info.c\<close>.

  The linked lists are lists.  A ticker or a name is the C string that its buffer holds.  The union \<open>extraInfo_t\<close>
  is the datatype \<open>asset\<close>.  Parameters (record \<open>asset_env\<close>): hash and signature checks, buffer sizes and key
  identifier of the build, the descriptor parsers and readers of the SDK.
\<close>

section \<open>Data\<close>

record token_info =
  tok_address :: bytes
  tok_ticker :: string
  tok_decimals :: uint8
  tok_chain_id :: uint64

record nft_info =
  nft_address :: bytes
  nft_collection_name :: string
  nft_chain_id :: uint64

datatype asset = Token_asset token_info | Nft_asset nft_info

datatype pluginType =
    PLUGIN_TYPE_NONE
  | PLUGIN_TYPE_EXTERNAL
  | PLUGIN_TYPE_SWAP_WITH_CALLDATA
  | PLUGIN_TYPE_ERC721
  | PLUGIN_TYPE_ERC1155
  | PLUGIN_TYPE_OLD_INTERNAL

text \<open>\<open>io_index\<close> is the byte that the last command has put in the response.\<close>

record assets =
  as_tokens :: "token_info list"
  as_nfts :: "nft_info list"
  as_mem :: mem
  io_index :: uint8

text \<open>What the dynamic descriptor of the SDK delivers.\<close>

record dynamic_descriptor =
  dd_coin_type :: uint32
  dd_ticker :: string
  dd_magnitude :: uint8
  dd_TUID :: bytes

record tuid_ctx =
  tu_chain_id :: uint64
  tu_address :: bytes

record asset_env =
  ae_sha256 :: "bytes \<Rightarrow> bytes"
  ae_check_coin_meta :: "bytes \<Rightarrow> bytes \<Rightarrow> bool"
  ae_check_nft :: "bytes \<Rightarrow> bytes \<Rightarrow> bool"
  ae_max_ticker :: nat
  ae_max_collection :: nat
  ae_nft_key_id :: uint8
  ae_cfg :: chain_config
  ae_coin_type :: uint32
  ae_networks :: "network_info list"
  ae_sdk :: tlv_sdk
  ae_dynamic_descriptor :: "bytes \<Rightarrow> dynamic_descriptor option"
  ae_tuid_parser :: "bytes \<Rightarrow> tuid_ctx \<Rightarrow> bool \<times> tuid_ctx \<times> nat set"

section \<open>The lists\<close>

fun node_index :: "('a \<Rightarrow> bool) \<Rightarrow> 'a list \<Rightarrow> nat" where
  "node_index P [] = 0"
| "node_index P (x # xs) = (if P x then 0 else Suc (node_index P xs))"

definition same_token :: "uint64 \<Rightarrow> bytes \<Rightarrow> token_info \<Rightarrow> bool" where
  "same_token chain_id address info \<longleftrightarrow> chain_id = tok_chain_id info \<and> address = tok_address info"

definition same_nft :: "uint64 \<Rightarrow> bytes \<Rightarrow> nft_info \<Rightarrow> bool" where
  "same_nft chain_id address info \<longleftrightarrow> chain_id = nft_chain_id info \<and> address = nft_address info"

definition set_token_info :: "token_info option \<Rightarrow> token_info list \<Rightarrow> mem \<Rightarrow> int \<times> token_info list \<times> mem" where
  "set_token_info info l m =
     (case info of
        None \<Rightarrow> (- 1, l, m)
      | Some info \<Rightarrow>
          (let idx = node_index (same_token (tok_chain_id info) (tok_address info)) l
           in if idx < length l then (int idx, l[idx := info], m)
              else (case mem_alloc m of
                      (False, m) \<Rightarrow> (- 1, l, m)
                    | (True, m) \<Rightarrow> (int idx, l @ [info], m))))"

definition set_nft_info :: "nft_info option \<Rightarrow> nft_info list \<Rightarrow> mem \<Rightarrow> int \<times> nft_info list \<times> mem" where
  "set_nft_info info l m =
     (case info of
        None \<Rightarrow> (- 1, l, m)
      | Some info \<Rightarrow>
          (let idx = node_index (same_nft (nft_chain_id info) (nft_address info)) l
           in if idx < length l then (int idx, l[idx := info], m)
              else (case mem_alloc m of
                      (False, m) \<Rightarrow> (- 1, l, m)
                    | (True, m) \<Rightarrow> (int idx, l @ [info], m))))"

fun free_nodes :: "'a list \<Rightarrow> mem \<Rightarrow> mem" where
  "free_nodes [] m = m"
| "free_nodes (x # xs) m = free_nodes xs (mem_free m)"

definition clear_token_infos :: "assets \<Rightarrow> assets" where
  "clear_token_infos a = a\<lparr>as_tokens := [], as_mem := free_nodes (as_tokens a) (as_mem a)\<rparr>"

definition clear_nft_infos :: "assets \<Rightarrow> assets" where
  "clear_nft_infos a = a\<lparr>as_nfts := [], as_mem := free_nodes (as_nfts a) (as_mem a)\<rparr>"

definition forget_known_assets :: "assets \<Rightarrow> assets" where
  "forget_known_assets a = clear_nft_infos (clear_token_infos a)"

definition get_matching_token_info :: "uint64 option \<Rightarrow> bytes option \<Rightarrow> token_info list \<Rightarrow> token_info option" where
  "get_matching_token_info chain_id address l =
     (case (chain_id, address) of
        (Some c, Some a) \<Rightarrow> find (same_token c a) l
      | _ \<Rightarrow> None)"

definition get_matching_nft_info :: "uint64 option \<Rightarrow> bytes option \<Rightarrow> nft_info list \<Rightarrow> nft_info option" where
  "get_matching_nft_info chain_id address l =
     (case (chain_id, address) of
        (Some c, Some a) \<Rightarrow> find (same_nft c a) l
      | _ \<Rightarrow> None)"

definition get_matching_token_info_or_dummy ::
  "nat \<Rightarrow> uint64 option \<Rightarrow> bytes option \<Rightarrow> assets \<Rightarrow> token_info option \<times> assets" where
  "get_matching_token_info_or_dummy max_ticker chain_id address a =
     (case (chain_id, address) of
        (Some c, Some ad) \<Rightarrow>
          (case get_matching_token_info chain_id address (as_tokens a) of
             Some i \<Rightarrow> (Some i, a)
           | None \<Rightarrow>
               (let (r, l, m) = set_token_info
                      (Some \<lparr>tok_address = ad, tok_ticker = strlcpy max_ticker g_unknown_ticker, tok_decimals = 0, tok_chain_id = c\<rparr>)
                      (as_tokens a) (as_mem a);
                    a = a\<lparr>as_tokens := l, as_mem := m\<rparr>
                in if r = - 1 then (None, a) else (get_matching_token_info chain_id address l, a)))
      | _ \<Rightarrow> (None, a))"

text \<open>The lookup on behalf of the active plugin.\<close>

definition get_matching_asset_info :: "pluginType \<Rightarrow> uint64 option \<Rightarrow> bytes option \<Rightarrow> assets \<Rightarrow> asset option" where
  "get_matching_asset_info pt chain_id address a =
     (let token = map_option Token_asset (get_matching_token_info chain_id address (as_tokens a));
          nft = map_option Nft_asset (get_matching_nft_info chain_id address (as_nfts a))
      in case pt of
           PLUGIN_TYPE_ERC721 \<Rightarrow> nft
         | PLUGIN_TYPE_ERC1155 \<Rightarrow> nft
         | PLUGIN_TYPE_OLD_INTERNAL \<Rightarrow> token
         | PLUGIN_TYPE_NONE \<Rightarrow> None
         | PLUGIN_TYPE_SWAP_WITH_CALLDATA \<Rightarrow> None
         | PLUGIN_TYPE_EXTERNAL \<Rightarrow> (case token of None \<Rightarrow> nft | Some t \<Rightarrow> Some t))"

section \<open>The command for tokens\<close>

definition erc20_token_info_common ::
  "asset_env \<Rightarrow> uint64 \<Rightarrow> bytes \<Rightarrow> bytes \<Rightarrow> uint8 \<Rightarrow> assets \<Rightarrow> bool \<times> assets" where
  "erc20_token_info_common E chain_id address ticker decimals a =
     (if ae_max_ticker E < length ticker + 1 then (False, a)
      else if \<not> chain_id_is_signable (ae_cfg E) (ae_networks E) chain_id then (False, a)
      else
        (let (index, l, m) = set_token_info
               (Some \<lparr>tok_address = address, tok_ticker = buf_string ticker, tok_decimals = decimals, tok_chain_id = chain_id\<rparr>)
               (as_tokens a) (as_mem a);
             a = a\<lparr>as_tokens := l, as_mem := m\<rparr>
         in if index = - 1 then (False, a)
            else if 255 < index then (False, a)
            else (True, a\<lparr>io_index := word_of_int index\<rparr>)))"

text \<open>\<open>offset\<close> is at most 284 and never wraps.\<close>

definition erc20_token_info_handler_legacy :: "asset_env \<Rightarrow> uint8 \<Rightarrow> bytes \<Rightarrow> assets \<Rightarrow> (bool \<times> assets) option" where
  "erc20_token_info_handler_legacy E lc data a =
     (if unat lc < 1 then Some (False, a)
      else do {
        ticker_length \<leftarrow> rd data 0;
        let offset = 1 + unat ticker_length;
        if unat lc < offset then Some (False, a)
        else if unat lc < offset + ADDRESS_LENGTH then Some (False, a)
        else do {
          ticker \<leftarrow> rd_n data 1 (unat ticker_length);
          address \<leftarrow> rd_n data offset ADDRESS_LENGTH;
          let offset = offset + ADDRESS_LENGTH;
          if unat lc < offset + 4 then Some (False, a)
          else do {
            decimals_32 \<leftarrow> read_u32_be data offset;
            let offset = offset + 4;
            if unat lc < offset + 4 then Some (False, a)
            else do {
              chain_id_32 \<leftarrow> read_u32_be data offset;
              let offset = offset + 4;
              if unat lc \<le> offset then Some (False, a)
              else if 255 < decimals_32 then Some (False, a)
              else do {
                signed \<leftarrow> rd_n data 1 (offset - 1);
                sig \<leftarrow> rd_n data offset (unat lc - offset);
                if \<not> ae_check_coin_meta E (ae_sha256 E signed) sig then Some (False, a)
                else Some (erc20_token_info_common E (ucast chain_id_32) address ticker (ucast decimals_32) a) } } } } })"

definition handle_tuid_chain_id :: "asset_env \<Rightarrow> bytes \<Rightarrow> tuid_ctx \<Rightarrow> bool \<times> tuid_ctx" where
  "handle_tuid_chain_id E data out =
     (let (ok, c) = sdk_u64 (ae_sdk E) data (tu_chain_id out) in (ok, out\<lparr>tu_chain_id := c\<rparr>))"

definition handle_tuid_address :: "asset_env \<Rightarrow> bytes \<Rightarrow> tuid_ctx \<Rightarrow> bool \<times> tuid_ctx" where
  "handle_tuid_address E data out =
     (case sdk_buffer (ae_sdk E) data 1 ADDRESS_LENGTH of
        None \<Rightarrow> (False, out)
      | Some b \<Rightarrow> (True, out\<lparr>tu_address := b\<rparr>))"

text \<open>The handler of a tag.\<close>

definition TUID_TLV_TAGS :: "asset_env \<Rightarrow> nat \<Rightarrow> bytes \<Rightarrow> tuid_ctx \<Rightarrow> (bool \<times> tuid_ctx) option" where
  "TUID_TLV_TAGS E t data out =
     (if t = 0x23 then Some (handle_tuid_chain_id E data out)
      else if t = 0x22 then Some (handle_tuid_address E data out)
      else None)"

definition erc20_token_info_handler :: "asset_env \<Rightarrow> bytes \<Rightarrow> assets \<Rightarrow> (bool \<times> assets) option" where
  "erc20_token_info_handler E buf a =
     (case ae_dynamic_descriptor E buf of
        None \<Rightarrow> Some (False, a)
      | Some d \<Rightarrow>
          if dd_coin_type d \<noteq> ae_coin_type E then Some (False, a)
          else
            (let (ok, out, tags) = ae_tuid_parser E (dd_TUID d) \<lparr>tu_chain_id = 0, tu_address = []\<rparr>
             in if \<not> ok then Some (False, a)
                else if \<not> {0x23, 0x22} \<subseteq> tags then Some (False, a)
                else do {
                  addr_buf \<leftarrow> buf_shrink_expand (Some (tu_address out)) (length (tu_address out)) (replicate ADDRESS_LENGTH 0) ADDRESS_LENGTH;
                  Some (erc20_token_info_common E (tu_chain_id out) addr_buf (map (\<lambda>c. word_of_nat (of_char c)) (dd_ticker d)) (dd_magnitude d) a) }))"

text \<open>The reassembly of the descriptor is one of \<open>Tlv\<close>; its handler has one address, \<open>()\<close>.\<close>

record asset_cmd =
  ac_tlv :: "unit g_tlv"
  ac_tlv_mem :: mem
  ac_assets :: assets

definition erc20_run :: "asset_env \<Rightarrow> unit \<Rightarrow> bytes \<Rightarrow> assets option \<Rightarrow> bool \<times> assets option" where
  "erc20_run E = fault_run (\<lambda>_. erc20_token_info_handler E)"

definition handle_provide_erc20_token_information ::
  "asset_env \<Rightarrow> (nat \<Rightarrow> uint8) \<Rightarrow> uint8 \<Rightarrow> uint8 \<Rightarrow> uint8 \<Rightarrow> bytes \<Rightarrow> asset_cmd \<Rightarrow> nat \<Rightarrow> (sw \<times> asset_cmd \<times> nat) option" where
  "handle_provide_erc20_token_information E fresh p1 p2 lc data c tx =
     (if p1 = 0 then
        (if p2 \<noteq> 0 then Some (SWO_INCORRECT_P1_P2, c, tx)
         else do {
           (ok, a) \<leftarrow> erc20_token_info_handler_legacy E lc data (ac_assets c);
           Some (if ok then (SWO_SUCCESS, c\<lparr>ac_assets := a\<rparr>, tx + 1) else (SWO_INCORRECT_DATA, c\<lparr>ac_assets := a\<rparr>, tx)) })
      else if p1 = 1 then do {
        (ret, t, m, s) \<leftarrow> tlv_from_apdu (erc20_run E) fresh (p2 \<noteq> 0) lc (Some data) (Some ()) (ac_tlv c) (ac_tlv_mem c) (Some (ac_assets c));
        a \<leftarrow> s;
        let c = c\<lparr>ac_tlv := t, ac_tlv_mem := m, ac_assets := a\<rparr>;
        Some (case ret of
                TLV_APDU_ERROR \<Rightarrow> (SWO_INCORRECT_DATA, c, tx)
              | TLV_APDU_SUCCESS \<Rightarrow> (SWO_SUCCESS, c, tx + 1)
              | TLV_APDU_PENDING \<Rightarrow> (SWO_SUCCESS, c, tx)) }
      else Some (SWO_INCORRECT_P1_P2, c, tx))"

section \<open>The command for collections\<close>

definition handle_provide_nft_information ::
  "asset_env \<Rightarrow> uint8 \<Rightarrow> uint8 \<Rightarrow> uint8 \<Rightarrow> bytes \<Rightarrow> assets \<Rightarrow> nat \<Rightarrow> (sw \<times> assets \<times> nat) option" where
  "handle_provide_nft_information E p1 p2 lc data a tx =
     (if p1 \<noteq> 0 \<or> p2 \<noteq> 0 then Some (SWO_INCORRECT_P1_P2, a, tx)
      else if unat lc < 1 then Some (SWO_INCORRECT_DATA, a, tx)
      else do {
        ty \<leftarrow> rd data 0;
        if ty \<noteq> 1 then Some (SWO_INCORRECT_DATA, a, tx)
        else if unat lc < 2 then Some (SWO_INCORRECT_DATA, a, tx)
        else do {
          version \<leftarrow> rd data 1;
          if version \<noteq> 1 then Some (SWO_INCORRECT_DATA, a, tx)
          else if unat lc < 3 then Some (SWO_INCORRECT_DATA, a, tx)
          else do {
            n \<leftarrow> rd data 2;
            if ae_max_collection E < unat n + 1 then Some (SWO_INCORRECT_DATA, a, tx)
            else if unat lc < 3 + unat n then Some (SWO_INCORRECT_DATA, a, tx)
            else do {
              name \<leftarrow> rd_n data 3 (unat n);
              let offset = 3 + unat n;
              if unat lc < offset + ADDRESS_LENGTH then Some (SWO_INCORRECT_DATA, a, tx)
              else do {
                address \<leftarrow> rd_n data offset ADDRESS_LENGTH;
                let offset = offset + ADDRESS_LENGTH;
                if unat lc < offset + 8 then Some (SWO_INCORRECT_DATA, a, tx)
                else do {
                  chain_id \<leftarrow> read_u64_be data offset;
                  if \<not> chain_id_is_signable (ae_cfg E) (ae_networks E) chain_id then Some (SWO_INCORRECT_DATA, a, tx)
                  else if unat lc < offset + 9 then Some (SWO_INCORRECT_DATA, a, tx)
                  else do {
                    key_id \<leftarrow> rd data (offset + 8);
                    if key_id \<noteq> ae_nft_key_id E then Some (SWO_INCORRECT_DATA, a, tx)
                    else if unat lc < offset + 10 then Some (SWO_INCORRECT_DATA, a, tx)
                    else do {
                      algo_id \<leftarrow> rd data (offset + 9);
                      if algo_id \<noteq> 1 then Some (SWO_INCORRECT_DATA, a, tx)
                      else do {
                        signed \<leftarrow> rd_n data 0 (offset + 10);
                        if unat lc < offset + 11 then Some (SWO_INCORRECT_DATA, a, tx)
                        else do {
                          sig_length \<leftarrow> rd data (offset + 10);
                          if unat lc < offset + 11 + unat sig_length then Some (SWO_INCORRECT_DATA, a, tx)
                          else if offset + 11 + unat sig_length \<noteq> unat lc then Some (SWO_INCORRECT_DATA, a, tx)
                          else do {
                            sig \<leftarrow> rd_n data (offset + 11) (unat sig_length);
                            if \<not> ae_check_nft E (ae_sha256 E signed) sig then Some (SWO_INCORRECT_DATA, a, tx)
                            else
                              (let (index, l, m) = set_nft_info
                                     (Some \<lparr>nft_address = address, nft_collection_name = buf_string name, nft_chain_id = chain_id\<rparr>)
                                     (as_nfts a) (as_mem a);
                                   a = a\<lparr>as_nfts := l, as_mem := m\<rparr>
                               in if index = - 1 then Some (SWO_INSUFFICIENT_MEMORY, a, tx)
                                  else if 255 < index then Some (SWO_INCORRECT_DATA, a, tx)
                                  else Some (SWO_SUCCESS, a\<lparr>io_index := word_of_int index\<rparr>, tx + 1)) } } } } } } } } } } })"

end
