(* ===== verification/Assets_Proofs.thy ===== *)
theory Assets_Proofs
  imports Assets
begin

text \<open>
  The asset lists behave as maps from a chain and an address to the last information provided for it (\<open>asset_store\<close>,
  interpreted for tokens and collections), and nothing enters them that was not signed.
\<close>

section \<open>The interface of a list\<close>

text \<open>Several insertions: the list of those that succeeded, and the final state.\<close>

fun put_all ::
  "('a \<Rightarrow> 'a list \<Rightarrow> mem \<Rightarrow> int \<times> 'a list \<times> mem) \<Rightarrow> 'a list \<Rightarrow> 'a list \<Rightarrow> mem \<Rightarrow> 'a list \<times> 'a list \<times> mem" where
  "put_all put [] l m = ([], l, m)"
| "put_all put (x # xs) l m =
     (case put x l m of
        (i, l, m) \<Rightarrow> (case put_all put xs l m of (ys, l, m) \<Rightarrow> ((if i = - 1 then ys else x # ys), l, m)))"

locale asset_store =
  fixes key :: "'a \<Rightarrow> uint64 \<times> bytes"
    and put :: "'a \<Rightarrow> 'a list \<Rightarrow> mem \<Rightarrow> int \<times> 'a list \<times> mem"
    and lookup :: "uint64 \<times> bytes \<Rightarrow> 'a list \<Rightarrow> 'a option"
  assumes put_found: "put x l m = (i, l', m') \<Longrightarrow> i \<noteq> - 1 \<Longrightarrow> lookup k l' = (if k = key x then Some x else lookup k l)"
    and put_failed: "put x l m = (- 1, l', m') \<Longrightarrow> l' = l"
    and put_at: "put x l m = (i, l', m') \<Longrightarrow> i \<noteq> - 1 \<Longrightarrow> 0 \<le> i \<and> nat i < length l' \<and> l' ! nat i = x"
    and put_keys: "put x l m = (i, l', m') \<Longrightarrow> distinct (map key l) \<Longrightarrow> distinct (map key l')"
begin

lemma lookup_put_all:
  "put_all put xs l m = (ys, l', m') \<Longrightarrow>
   lookup k l' = (case find (\<lambda>x. key x = k) (rev ys) of Some x \<Rightarrow> Some x | None \<Rightarrow> lookup k l)"
proof (induction xs arbitrary: l m ys)
  case Nil
  then show ?case by simp
next
  case (Cons x xs)
  obtain i l1 m1 where p: "put x l m = (i, l1, m1)" by (cases "put x l m") auto
  obtain ys1 where r: "put_all put xs l1 m1 = (ys1, l', m')" "ys = (if i = - 1 then ys1 else x # ys1)"
    using Cons.prems p by (auto split: prod.splits)
  have app: "find P (as @ bs) = (case find P as of Some y \<Rightarrow> Some y | None \<Rightarrow> find P bs)" for P :: "'a \<Rightarrow> bool" and as bs
    by (induction as) auto
  show ?case
  proof (cases "i = - 1")
    case True
    then have "l1 = l" using put_failed p by blast
    then show ?thesis using Cons.IH [OF r(1)] r(2) True by (simp add: \<open>l1 = l\<close> cong: option.case_cong)
  next
    case False
    then show ?thesis using Cons.IH [OF r(1)] r(2) put_found [OF p False, of k]
      by (auto simp: app split: option.splits)
  qed
qed

lemma put_all_keys: "put_all put xs l m = (ys, l', m') \<Longrightarrow> distinct (map key l) \<Longrightarrow> distinct (map key l')"
proof (induction xs arbitrary: l m ys)
  case (Cons x xs)
  obtain i l1 m1 where "put x l m = (i, l1, m1)" by (cases "put x l m") auto
  then show ?case using Cons put_keys by (auto split: prod.splits)
qed simp

end

section \<open>The two lists\<close>

definition token_key :: "token_info \<Rightarrow> uint64 \<times> bytes" where
  "token_key t = (tok_chain_id t, tok_address t)"

definition nft_key :: "nft_info \<Rightarrow> uint64 \<times> bytes" where
  "nft_key t = (nft_chain_id t, nft_address t)"

definition token_lookup :: "uint64 \<times> bytes \<Rightarrow> token_info list \<Rightarrow> token_info option" where
  "token_lookup k l = get_matching_token_info (Some (fst k)) (Some (snd k)) l"

definition nft_lookup :: "uint64 \<times> bytes \<Rightarrow> nft_info list \<Rightarrow> nft_info option" where
  "nft_lookup k l = get_matching_nft_info (Some (fst k)) (Some (snd k)) l"

lemma node_index_found: "node_index P l < length l \<Longrightarrow> P (l ! node_index P l) \<and> find P l = Some (l ! node_index P l)"
  by (induction l) auto

lemma node_index_none: "\<not> node_index P l < length l \<Longrightarrow> node_index P l = length l \<and> (\<forall>x \<in> set l. \<not> P x)"
  by (induction l) (auto split: if_splits)

lemma find_replaced:
  assumes "node_index (\<lambda>y. f y = f x) l < length l"
  shows "find (\<lambda>y. f y = k) (l[node_index (\<lambda>y. f y = f x) l := x]) = (if k = f x then Some x else find (\<lambda>y. f y = k) l)"
  using assms by (induction l) auto

lemma find_appended:
  "\<forall>y \<in> set l. f y \<noteq> f x \<Longrightarrow> find (\<lambda>y. f y = k) (l @ [x]) = (if k = f x then Some x else find (\<lambda>y. f y = k) l)"
  by (induction l) auto

lemma keys_replaced:
  "i < length l \<Longrightarrow> f (l ! i) = f x \<Longrightarrow> map f (l[i := x]) = map f l"
  by (metis list_update_id map_update)

lemma same_token_key: "same_token (tok_chain_id x) (tok_address x) = (\<lambda>y. token_key y = token_key x)"
  by (auto simp: same_token_def token_key_def)

lemma same_nft_key: "same_nft (nft_chain_id x) (nft_address x) = (\<lambda>y. nft_key y = nft_key x)"
  by (auto simp: same_nft_def nft_key_def)

lemma token_lookup_find: "token_lookup k l = find (\<lambda>y. token_key y = k) l"
proof -
  have "same_token (fst k) (snd k) = (\<lambda>y. token_key y = k)" by (cases k) (auto simp: same_token_def token_key_def)
  then show ?thesis by (simp add: token_lookup_def get_matching_token_info_def)
qed

lemma nft_lookup_find: "nft_lookup k l = find (\<lambda>y. nft_key y = k) l"
proof -
  have "same_nft (fst k) (snd k) = (\<lambda>y. nft_key y = k)" by (cases k) (auto simp: same_nft_def nft_key_def)
  then show ?thesis by (simp add: nft_lookup_def get_matching_nft_info_def)
qed

text \<open>One run of the insertion.\<close>

lemma set_token_info_cases:
  assumes "set_token_info (Some x) l m = (i, l', m')"
  obtains (replaced) "i = int (node_index (\<lambda>y. token_key y = token_key x) l)" "node_index (\<lambda>y. token_key y = token_key x) l < length l"
      "l' = l[node_index (\<lambda>y. token_key y = token_key x) l := x]" "m' = m"
  | (new) "i = int (length l)" "\<forall>y \<in> set l. token_key y \<noteq> token_key x" "l' = l @ [x]" "mem_alloc m = (True, m')"
  | (failed) "i = - 1" "l' = l" "mem_alloc m = (False, m')"
  using assms node_index_none [of "\<lambda>y. token_key y = token_key x" l]
  by (auto simp: set_token_info_def Let_def same_token_key split: if_splits prod.splits bool.splits)

lemma set_nft_info_cases:
  assumes "set_nft_info (Some x) l m = (i, l', m')"
  obtains (replaced) "i = int (node_index (\<lambda>y. nft_key y = nft_key x) l)" "node_index (\<lambda>y. nft_key y = nft_key x) l < length l"
      "l' = l[node_index (\<lambda>y. nft_key y = nft_key x) l := x]" "m' = m"
  | (new) "i = int (length l)" "\<forall>y \<in> set l. nft_key y \<noteq> nft_key x" "l' = l @ [x]" "mem_alloc m = (True, m')"
  | (failed) "i = - 1" "l' = l" "mem_alloc m = (False, m')"
  using assms node_index_none [of "\<lambda>y. nft_key y = nft_key x" l]
  by (auto simp: set_nft_info_def Let_def same_nft_key split: if_splits prod.splits bool.splits)

lemma distinct_appended: "distinct (map f l) \<Longrightarrow> \<forall>y \<in> set l. f y \<noteq> f x \<Longrightarrow> distinct (map f (l @ [x]))"
  by auto

interpretation tokens: asset_store token_key "\<lambda>x. set_token_info (Some x)" token_lookup
proof
  fix x l m i l' m' k
  assume p: "set_token_info (Some x) l m = (i, l', m')" "i \<noteq> - 1"
  from p(1) show "token_lookup k l' = (if k = token_key x then Some x else token_lookup k l)"
    by (cases rule: set_token_info_cases) (use p(2) in \<open>simp_all add: token_lookup_find find_replaced find_appended\<close>)
  from p(1) show "0 \<le> i \<and> nat i < length l' \<and> l' ! nat i = x"
    by (cases rule: set_token_info_cases) (use p(2) in simp_all)
next
  fix x l m l' m'
  assume "set_token_info (Some x) l m = (- 1, l', m')"
  then show "l' = l" by (cases rule: set_token_info_cases) auto
next
  fix x l m i l' m'
  assume p: "set_token_info (Some x) l m = (i, l', m')" "distinct (map token_key l)"
  from p(1) show "distinct (map token_key l')"
    by (cases rule: set_token_info_cases)
      (use p(2) node_index_found [of "\<lambda>y. token_key y = token_key x" l] in \<open>auto simp: keys_replaced\<close>)
qed

interpretation nfts: asset_store nft_key "\<lambda>x. set_nft_info (Some x)" nft_lookup
proof
  fix x l m i l' m' k
  assume p: "set_nft_info (Some x) l m = (i, l', m')" "i \<noteq> - 1"
  from p(1) show "nft_lookup k l' = (if k = nft_key x then Some x else nft_lookup k l)"
    by (cases rule: set_nft_info_cases) (use p(2) in \<open>simp_all add: nft_lookup_find find_replaced find_appended\<close>)
  from p(1) show "0 \<le> i \<and> nat i < length l' \<and> l' ! nat i = x"
    by (cases rule: set_nft_info_cases) (use p(2) in simp_all)
next
  fix x l m l' m'
  assume "set_nft_info (Some x) l m = (- 1, l', m')"
  then show "l' = l" by (cases rule: set_nft_info_cases) auto
next
  fix x l m i l' m'
  assume p: "set_nft_info (Some x) l m = (i, l', m')" "distinct (map nft_key l)"
  from p(1) show "distinct (map nft_key l')"
    by (cases rule: set_nft_info_cases)
      (use p(2) node_index_found [of "\<lambda>y. nft_key y = nft_key x" l] in \<open>auto simp: keys_replaced\<close>)
qed

text \<open>Forgetting releases every node, once.\<close>

lemma free_nodes_live: "live (free_nodes l m) = live m - length l"
  by (induction l arbitrary: m) auto

lemma forget_known_assets_empty:
  "as_tokens (forget_known_assets a) = [] \<and> as_nfts (forget_known_assets a) = [] \<and>
   live (as_mem (forget_known_assets a)) = live (as_mem a) - length (as_tokens a) - length (as_nfts a)"
  by (simp add: forget_known_assets_def clear_token_infos_def clear_nft_infos_def free_nodes_live)

section \<open>The type of the asset\<close>

text \<open>A plugin of a known kind is only ever given an asset of its kind.\<close>

lemma matching_asset_kind:
  assumes "get_matching_asset_info pt c ad a = Some x"
  shows "(pt \<in> {PLUGIN_TYPE_ERC721, PLUGIN_TYPE_ERC1155} \<longrightarrow> (\<exists>n. x = Nft_asset n \<and> n \<in> set (as_nfts a))) \<and>
    (pt = PLUGIN_TYPE_OLD_INTERNAL \<longrightarrow> (\<exists>t. x = Token_asset t \<and> t \<in> set (as_tokens a))) \<and>
    pt \<notin> {PLUGIN_TYPE_NONE, PLUGIN_TYPE_SWAP_WITH_CALLDATA}"
  using assms by (cases pt)
    (auto simp: get_matching_asset_info_def get_matching_token_info_def get_matching_nft_info_def Let_def find_Some_iff
      split: option.splits)

section \<open>Nothing unsigned enters\<close>

text \<open>The message that the legacy command signs, and the whole APDU.\<close>

definition token_message :: "bytes \<Rightarrow> bytes \<Rightarrow> uint8 \<Rightarrow> uint32 \<Rightarrow> bytes" where
  "token_message ticker address decimals chain = ticker @ address @ be_bytes 4 (unat decimals) @ be_bytes 4 (unat chain)"

definition token_apdu :: "bytes \<Rightarrow> bytes \<Rightarrow> uint8 \<Rightarrow> uint32 \<Rightarrow> bytes \<Rightarrow> bytes" where
  "token_apdu ticker address decimals chain sig = word_of_nat (length ticker) # token_message ticker address decimals chain @ sig"

definition token_of :: "bytes \<Rightarrow> bytes \<Rightarrow> uint8 \<Rightarrow> uint64 \<Rightarrow> token_info" where
  "token_of ticker address decimals chain =
     \<lparr>tok_address = address, tok_ticker = buf_string ticker, tok_decimals = decimals, tok_chain_id = chain\<rparr>"

text \<open>What a successful insertion of a token leaves.\<close>

definition token_added :: "asset_env \<Rightarrow> token_info \<Rightarrow> assets \<Rightarrow> assets \<Rightarrow> bool" where
  "token_added E t a a' \<longleftrightarrow> chain_id_is_signable (ae_cfg E) (ae_networks E) (tok_chain_id t) \<and>
     (\<forall>k. token_lookup k (as_tokens a') = (if k = token_key t then Some t else token_lookup k (as_tokens a)))"

lemma token_common_added:
  assumes "erc20_token_info_common E chain address ticker decimals a = (ok, a')" and "ok \<or> as_tokens a' \<noteq> as_tokens a"
  shows "length ticker < ae_max_ticker E \<and> token_added E (token_of ticker address decimals chain) a a' \<and> as_nfts a' = as_nfts a \<and>
     (ok \<longrightarrow> unat (io_index a') < length (as_tokens a') \<and> as_tokens a' ! unat (io_index a') = token_of ticker address decimals chain)"
proof -
  let ?t = "token_of ticker address decimals chain"
  obtain i l m where s: "set_token_info (Some ?t) (as_tokens a) (as_mem a) = (i, l, m)"
    by (cases "set_token_info (Some ?t) (as_tokens a) (as_mem a)") auto
  have c: "length ticker < ae_max_ticker E" "chain_id_is_signable (ae_cfg E) (ae_networks E) chain"
    using assms s by (auto simp: erc20_token_info_common_def Let_def split: if_splits)
  have l: "l = as_tokens a" if "i = - 1" using tokens.put_failed s that by blast
  have i: "i \<noteq> - 1" using assms s c l by (auto simp: erc20_token_info_common_def token_of_def Let_def split: if_splits)
  have a': "as_tokens a' = l" "as_nfts a' = as_nfts a" "ok \<longrightarrow> \<not> 255 < i \<and> io_index a' = word_of_int i"
    using assms(1) s c i by (auto simp: erc20_token_info_common_def token_of_def Let_def split: if_splits)
  have at: "0 \<le> i" "nat i < length l" "l ! nat i = ?t" using tokens.put_at [OF s i] by auto
  have u: "unat (word_of_int i :: uint8) = nat i" if "\<not> 255 < i"
    using that at(1) by (simp add: unat_eq_nat_uint uint_word_of_int)
  show ?thesis using c a' at u tokens.put_found [OF s i]
    by (auto simp: token_added_def token_of_def)
qed

lemma legacy_only_signed:
  assumes h: "erc20_token_info_handler_legacy E lc data a = Some (ok, a')" and len: "length data = unat lc"
    and new: "ok \<or> as_tokens a' \<noteq> as_tokens a"
  shows "\<exists>ticker address decimals chain sig. data = token_apdu ticker address decimals chain sig \<and> length address = ADDRESS_LENGTH \<and>
     length ticker < ae_max_ticker E \<and> ae_check_coin_meta E (ae_sha256 E (token_message ticker address decimals chain)) sig \<and>
     token_added E (token_of ticker address decimals (ucast chain)) a a'"
proof -
  from h new obtain n ticker address d c signed sig where
    n: "rd data 0 = Some n" and t: "rd_n data 1 (unat n) = Some ticker" and ad: "rd_n data (1 + unat n) 20 = Some address"
    and d: "read_u32_be data (1 + unat n + 20) = Some d" "\<not> 255 < d"
    and c: "read_u32_be data (1 + unat n + 20 + 4) = Some c"
    and sd: "rd_n data 1 (1 + unat n + 20 + 4 + 4 - 1) = Some signed"
    and sig: "rd_n data (1 + unat n + 20 + 4 + 4) (unat lc - (1 + unat n + 20 + 4 + 4)) = Some sig"
    and ck: "ae_check_coin_meta E (ae_sha256 E signed) sig"
    and com: "erc20_token_info_common E (ucast c) address ticker (ucast d) a = (ok, a')"
    by (auto simp: erc20_token_info_handler_legacy_def Let_def split: if_splits bind_splits)
  let ?d = "ucast d :: uint8"
  have ud: "unat ?d = unat d" using d(2) by (simp add: unsigned_ucast_eq word_less_nat_alt take_bit_nat_eq_self)
  have lt: "length ticker = unat n" "length address = 20" using rd_n_length [OF t] rd_n_length [OF ad] by simp_all
  have tail: "drop 1 data = token_message ticker address ?d c @ drop (1 + unat n + 20 + 4 + 4) data"
    using rd_n_split [OF t] rd_n_split [OF ad] read_u32_be_split [OF d(1)] read_u32_be_split [OF c]
    by (simp add: token_message_def ud)
  have ls: "length (token_message ticker address ?d c) = unat n + 28" by (simp add: token_message_def lt)
  have "signed = take (unat n + 28) (drop 1 data)" using sd by (auto simp: rd_n_def add.commute split: if_splits)
  then have s: "signed = token_message ticker address ?d c" unfolding tail using ls by simp
  have e: "drop (1 + unat n + 20 + 4 + 4) data = sig" using sig len by (auto simp: rd_n_def split: if_splits)
  have "data = n # drop 1 data" using rd_split [OF n] by simp
  then have "data = token_apdu ticker address ?d c sig" using tail e lt(1) by (simp add: token_apdu_def)
  then show ?thesis using lt ck s token_common_added [OF com new] by metis
qed

text \<open>It always answers: no read leaves the APDU.\<close>

lemma legacy_total:
  assumes "length data = unat lc"
  shows "\<exists>ok a'. erc20_token_info_handler_legacy E lc data a = Some (ok, a')"
proof -
  obtain n where n: "unat lc < 1 \<or> rd data 0 = Some n" using assms by (cases data) (auto simp: rd_def)
  let ?o = "1 + unat n"
  obtain d where d: "unat lc < ?o + 24 \<or> read_u32_be data (?o + 20) = Some d"
    using read_u32_be_ok [of "?o + 20" data] assms by (cases "unat lc < ?o + 24") auto
  obtain c where c: "unat lc < ?o + 28 \<or> read_u32_be data (?o + 24) = Some c"
    using read_u32_be_ok [of "?o + 24" data] assms by (cases "unat lc < ?o + 28") auto
  obtain r where r: "erc20_token_info_common E (ucast c) (take 20 (drop ?o data)) (take (unat n) (drop 1 data)) (ucast d) a = r" by simp
  show ?thesis
    using n d c r assms by (auto simp: erc20_token_info_handler_legacy_def Let_def rd_n_def)
qed

text \<open>The same for a collection.\<close>

definition nft_message :: "uint8 \<Rightarrow> bytes \<Rightarrow> bytes \<Rightarrow> uint64 \<Rightarrow> bytes" where
  "nft_message key_id name address chain =
     [1, 1, word_of_nat (length name)] @ name @ address @ be_bytes 8 (unat chain) @ [key_id, 1]"

definition nft_added :: "asset_env \<Rightarrow> nft_info \<Rightarrow> assets \<Rightarrow> assets \<Rightarrow> bool" where
  "nft_added E t a a' \<longleftrightarrow> chain_id_is_signable (ae_cfg E) (ae_networks E) (nft_chain_id t) \<and>
     (\<forall>k. nft_lookup k (as_nfts a') = (if k = nft_key t then Some t else nft_lookup k (as_nfts a)))"

definition nft_of :: "bytes \<Rightarrow> bytes \<Rightarrow> uint64 \<Rightarrow> nft_info" where
  "nft_of name address chain = \<lparr>nft_address = address, nft_collection_name = buf_string name, nft_chain_id = chain\<rparr>"

lemma nft_only_signed:
  assumes h: "handle_provide_nft_information E p1 p2 lc data a tx = Some (sw, a', tx')" and len: "length data = unat lc"
    and new: "sw = SWO_SUCCESS \<or> as_nfts a' \<noteq> as_nfts a"
  shows "\<exists>name address chain sig. data = nft_message (ae_nft_key_id E) name address chain @ word_of_nat (length sig) # sig \<and>
     length address = ADDRESS_LENGTH \<and> length name < ae_max_collection E \<and>
     ae_check_nft E (ae_sha256 E (nft_message (ae_nft_key_id E) name address chain)) sig \<and>
     nft_added E (nft_of name address chain) a a' \<and> as_tokens a' = as_tokens a"
proof -
  from h new obtain n name address c signed sl sig i l m where
    b: "rd data 0 = Some 1" "rd data 1 = Some 1" "rd data 2 = Some n" "unat n + 1 \<le> ae_max_collection E"
    and t: "rd_n data 3 (unat n) = Some name" and ad: "rd_n data (3 + unat n) 20 = Some address"
    and c: "read_u64_be data (3 + unat n + 20) = Some c" "chain_id_is_signable (ae_cfg E) (ae_networks E) c"
    and k: "rd data (3 + unat n + 20 + 8) = Some (ae_nft_key_id E)" "rd data (3 + unat n + 20 + 9) = Some 1"
    and sd: "rd_n data 0 (3 + unat n + 20 + 10) = Some signed"
    and sl: "rd data (3 + unat n + 20 + 10) = Some sl" "3 + unat n + 20 + 11 + unat sl = unat lc"
    and sig: "rd_n data (3 + unat n + 20 + 11) (unat sl) = Some sig"
    and ck: "ae_check_nft E (ae_sha256 E signed) sig"
    and st: "set_nft_info (Some (nft_of name address c)) (as_nfts a) (as_mem a) = (i, l, m)"
    and a': "as_nfts a' = l" "as_tokens a' = as_tokens a" "sw = SWO_SUCCESS \<longrightarrow> i \<noteq> - 1"
    by (auto simp: handle_provide_nft_information_def nft_of_def Let_def not_less split: if_splits bind_splits prod.splits)
  have i: "i \<noteq> - 1" using nfts.put_failed st a' new by blast
  have lt: "length name = unat n" "length address = 20" "length sig = unat sl"
    using rd_n_length [OF t] rd_n_length [OF ad] rd_n_length [OF sig] by simp_all
  have s8: "drop (3 + unat n + 20 + 8) data = [ae_nft_key_id E, 1] @ sl # sig"
  proof -
    have "drop (3 + unat n + 20 + 11) data = sig" using sig sl(2) len by (auto simp: rd_n_def split: if_splits)
    then show ?thesis using rd_split [OF k(1)] rd_split [OF k(2)] rd_split [OF sl(1)] by (simp add: add.commute)
  qed
  have s3: "drop 3 data = name @ address @ be_bytes 8 (unat c) @ [ae_nft_key_id E, 1] @ sl # sig"
    using rd_n_split [OF t] rd_n_split [OF ad] read_u64_be_split [OF c(1)] s8 by simp
  have d: "data = nft_message (ae_nft_key_id E) name address c @ word_of_nat (length sig) # sig"
    using rd_split [OF b(1)] rd_split [OF b(2)] rd_split [OF b(3)] s3 lt
    by (simp add: nft_message_def numeral_3_eq_3 numeral_2_eq_2)
  have "length (nft_message (ae_nft_key_id E) name address c) = 33 + unat n" by (simp add: nft_message_def lt)
  then have "signed = nft_message (ae_nft_key_id E) name address c"
    using sd d by (auto simp: rd_n_def split: if_splits)
  note s = this
  show ?thesis
  proof (intro exI conjI)
    show "data = nft_message (ae_nft_key_id E) name address c @ word_of_nat (length sig) # sig" by (rule d)
  qed (use lt b(4) ck [unfolded s] c(2) a' nfts.put_found [OF st i] in \<open>simp_all add: nft_added_def nft_of_def\<close>)
qed

end
