(* ===== verification/Swap.thy ===== *)
theory Swap
  imports Network Ustream
begin

text \<open>
  Model of \<open>src/swap/eth_swap_utils.c\<close>, \<open>handle_swap_sign_transaction.c\<close> and \<open>handle_get_printable_amount.c\<close>: what the
  Exchange application promised for a swap, and the comparison of the transaction with the promise.
  With it \<open>src/plugins/swap_with_calldata/swap_with_calldata_plugin.c\<close>, which hashes the calldata
  of a swap.

  A check that fails ends the session (\<open>app_exit\<close>, \<open>os_sched_exit\<close>), here the result \<open>False\<close>.  Parameters:
  the size of a ticker, the formatting of amounts and the hash of the SDK.
\<close>

section \<open>Data\<close>

record asset_info =
  asset_ticker :: string
  asset_decimals :: uint8

record swap_context =
  swapped_asset_info :: asset_info
  fees_asset_info :: asset_info
  sc_chain_id :: uint64
  token_address :: bytes
  has_token_address :: bool

datatype swap_mode =
    SWAP_MODE_STANDARD
  | SWAP_MODE_CROSSCHAIN_PENDING_CHECK
  | SWAP_MODE_CROSSCHAIN_SUCCESS
  | SWAP_MODE_ERROR

datatype swap_value_check = SWAP_VALUE_CHECK_AMOUNT | SWAP_VALUE_CHECK_ZERO

text \<open>The parameters of the Exchange application, and what is kept of them.\<close>

record create_transaction_parameters =
  destination_address :: string
  destination_extra_id :: "bytes option"
  amount :: bytes
  amount_length :: uint8
  fee_amount :: bytes
  fee_amount_length :: uint8
  coin_configuration :: "bytes option"
  coin_configuration_length :: uint8

record swap_globals =
  G_swap_mode :: swap_mode
  G_swap_expected_chain_id :: uint64
  G_swap_has_expected_token_address :: bool
  G_swap_expected_token_address :: bytes
  G_swap_expected_value_check :: swap_value_check
  G_swap_expected_value :: bytes
  G_swap_crosschain_hash :: "bytes option"
  exp_toAddress :: string
  exp_fullAmount :: string
  exp_maxFee :: string
  G_swap_checked :: bool
  G_swap_calldata_validated :: bool
  G_swap_response_ready :: bool
  swap_mem :: mem

record swap_env =
  se_max_ticker :: nat
  se_amount_to_string :: "bytes \<Rightarrow> nat \<Rightarrow> string \<Rightarrow> nat \<Rightarrow> string option"
  se_networks :: "network_info list"
  se_address_size :: nat

definition WEI_DECIMALS :: uint8 where "WEI_DECIMALS = 18"

section \<open>The configuration\<close>

definition asset_zero :: "nat \<Rightarrow> asset_info" where
  "asset_zero n = \<lparr>asset_ticker = replicate n NUL, asset_decimals = 0\<rparr>"

definition parse_asset_info :: "nat \<Rightarrow> bytes \<Rightarrow> uint8 \<Rightarrow> asset_info \<Rightarrow> uint8 \<Rightarrow> (bool \<times> asset_info \<times> uint8) option" where
  "parse_asset_info max_ticker config config_len info offset =
     (if config_len \<le> offset then Some (False, info, offset)
      else do {
        ticker_len \<leftarrow> rd config (unat offset);
        let offset = offset + 1;
        if ticker_len = 0 \<or> max_ticker - 2 < unat ticker_len then Some (False, info, offset)
        else if unat config_len < unat offset + unat ticker_len then Some (False, info, offset)
        else do {
          xs \<leftarrow> rd_n config (unat offset) (unat ticker_len);
          t \<leftarrow> wr_n (asset_ticker info) 0 (map (\<lambda>b. char_of (unat b)) xs);
          t \<leftarrow> wr t (unat ticker_len) NUL;
          let info = info\<lparr>asset_ticker := t\<rparr>;
          let offset = offset + ticker_len;
          if config_len \<le> offset then Some (False, info, offset)
          else do {
            d \<leftarrow> rd config (unat offset);
            Some (True, info\<lparr>asset_decimals := d\<rparr>, offset + 1) } } })"

definition swap_context_zero :: "nat \<Rightarrow> swap_context" where
  "swap_context_zero n =
     \<lparr>swapped_asset_info = asset_zero n, fees_asset_info = asset_zero n, sc_chain_id = 0,
      token_address = replicate ADDRESS_LENGTH 0, has_token_address = False\<rparr>"

text \<open>The optional parts: the asset of the fees, and the address of the token.\<close>

definition parse_swap_fees :: "nat \<Rightarrow> bytes \<Rightarrow> uint8 \<Rightarrow> uint8 \<Rightarrow> swap_context \<Rightarrow> (bool \<times> swap_context \<times> uint8) option" where
  "parse_swap_fees max_ticker config config_len offset context =
     (if offset < config_len then do {
        (ok, a, offset) \<leftarrow> parse_asset_info max_ticker config config_len (fees_asset_info context) offset;
        let context = context\<lparr>fees_asset_info := a\<rparr>;
        Some (ok \<and> asset_decimals a = WEI_DECIMALS, context, offset) }
      else Some (True, context, offset))"

definition parse_swap_token :: "bytes \<Rightarrow> uint8 \<Rightarrow> uint8 \<Rightarrow> swap_context \<Rightarrow> (bool \<times> swap_context) option" where
  "parse_swap_token config config_len offset context =
     (if offset < config_len then
        (if unat config_len - unat offset < ADDRESS_LENGTH then Some (False, context)
         else do {
           xs \<leftarrow> rd_n config (unat offset) ADDRESS_LENGTH;
           Some (True, context\<lparr>token_address := xs, has_token_address := True\<rparr>) })
      else Some (True, context))"

definition parse_swap_config :: "nat \<Rightarrow> bytes option \<Rightarrow> uint8 \<Rightarrow> swap_context \<Rightarrow> (bool \<times> swap_context) option" where
  "parse_swap_config max_ticker config config_len context =
     (case config of
        None \<Rightarrow> Some (False, context)
      | Some config \<Rightarrow>
          if config_len = 0 then Some (False, context)
          else
            (let context = swap_context_zero max_ticker;
                 context = context\<lparr>fees_asset_info := (fees_asset_info context)\<lparr>asset_decimals := WEI_DECIMALS\<rparr>\<rparr>
             in do {
               (ok, a, offset) \<leftarrow> parse_asset_info max_ticker config config_len (swapped_asset_info context) 0;
               let context = context\<lparr>swapped_asset_info := a\<rparr>;
               if \<not> ok then Some (False, context)
               else if unat config_len - unat offset < 8 then Some (False, context)
               else do {
                 bs \<leftarrow> rd_n config (unat offset) 8;
                 let context = context\<lparr>sc_chain_id := u64_from_BE bs\<rparr>;
                 (ok, context, offset) \<leftarrow> parse_swap_fees max_ticker config config_len (offset + 8) context;
                 if \<not> ok then Some (False, context)
                 else parse_swap_token config config_len offset context } }))"

definition get_asset_info_on_network :: "swap_env \<Rightarrow> bool \<Rightarrow> swap_context \<Rightarrow> chain_config \<Rightarrow> string \<times> uint8 \<times> swap_context" where
  "get_asset_info_on_network E is_fee context config =
     (if is_fee then
        (if hd (asset_ticker (fees_asset_info context)) = NUL then
           (let context = (if sc_chain_id context = 0 then context\<lparr>sc_chain_id := cfg_chain_id config\<rparr> else context)
            in (get_displayable_ticker (se_networks E) (sc_chain_id context) config False,
                asset_decimals (fees_asset_info context), context))
         else (c_str (asset_ticker (fees_asset_info context)), asset_decimals (fees_asset_info context), context))
      else (c_str (asset_ticker (swapped_asset_info context)), asset_decimals (swapped_asset_info context), context))"

section \<open>The promise\<close>

definition EXTRA_ID_TYPE_NATIVE :: uint8 where "EXTRA_ID_TYPE_NATIVE = 0"
definition EXTRA_ID_TYPE_EVM_CALLDATA :: uint8 where "EXTRA_ID_TYPE_EVM_CALLDATA = 1"

definition swap_mode_of :: "bytes \<Rightarrow> (swap_mode \<times> bytes) option" where
  "swap_mode_of extra = do {
     t \<leftarrow> rd extra 0;
     if t = EXTRA_ID_TYPE_NATIVE then Some (SWAP_MODE_STANDARD, replicate 32 0)
     else if t = EXTRA_ID_TYPE_EVM_CALLDATA then do {
       h \<leftarrow> rd_n extra 1 32;
       Some (SWAP_MODE_CROSSCHAIN_PENDING_CHECK, h) }
     else Some (SWAP_MODE_ERROR, replicate 32 0) }"

text \<open>Whether the asset is a token: then the value of the transaction must be zero.\<close>

definition swap_of_token :: "swap_mode \<Rightarrow> swap_context \<Rightarrow> string \<Rightarrow> bool" where
  "swap_of_token mode context ticker \<longleftrightarrow>
     mode = SWAP_MODE_CROSSCHAIN_PENDING_CHECK \<and>
     (has_token_address context \<or> asset_decimals (swapped_asset_info context) \<noteq> asset_decimals (fees_asset_info context) \<or>
      ticker \<noteq> c_str (asset_ticker (swapped_asset_info context)))"

definition FULL_AMOUNT_SIZE :: "swap_env \<Rightarrow> nat" where "FULL_AMOUNT_SIZE E = se_max_ticker E + 1 + 78 + 1"
definition MAX_FEE_SIZE :: nat where "MAX_FEE_SIZE = 50"

text \<open>The globals after \<open>os_explicit_zero_BSS_segment\<close>.\<close>

definition swap_globals_zero :: "mem \<Rightarrow> swap_globals" where
  "swap_globals_zero m =
     \<lparr>G_swap_mode = SWAP_MODE_STANDARD, G_swap_expected_chain_id = 0, G_swap_has_expected_token_address = False,
      G_swap_expected_token_address = replicate ADDRESS_LENGTH 0, G_swap_expected_value_check = SWAP_VALUE_CHECK_AMOUNT,
      G_swap_expected_value = replicate INT256_LENGTH 0, G_swap_crosschain_hash = None,
      exp_toAddress = [], exp_fullAmount = [], exp_maxFee = [], G_swap_checked = False, G_swap_calldata_validated = False,
      G_swap_response_ready = False, swap_mem = m\<rparr>"

text \<open>What the value must read: the formatted amount, or zero in the currency of the fees.\<close>

definition expected_amount :: "swap_env \<Rightarrow> bool \<Rightarrow> swap_context \<Rightarrow> string \<Rightarrow> bytes \<Rightarrow> string option" where
  "expected_amount E token context ticker am =
     (if token then se_amount_to_string E [0] (unat (asset_decimals (fees_asset_info context))) ticker (FULL_AMOUNT_SIZE E)
      else se_amount_to_string E am (unat (asset_decimals (swapped_asset_info context)))
             (c_str (asset_ticker (swapped_asset_info context))) (FULL_AMOUNT_SIZE E))"

text \<open>The commit to the clean globals.\<close>

definition commit_promise ::
  "swap_mode \<Rightarrow> bytes \<Rightarrow> swap_context \<Rightarrow> bool \<Rightarrow> bytes \<Rightarrow> string \<Rightarrow> string \<Rightarrow> string \<Rightarrow> swap_globals \<Rightarrow> bool \<times> swap_globals" where
  "commit_promise mode hash context token expected to full_amount max_fee g =
     (let g = (swap_globals_zero (swap_mem g))\<lparr>G_swap_mode := mode, G_swap_expected_chain_id := sc_chain_id context,
                G_swap_has_expected_token_address := has_token_address context,
                G_swap_expected_token_address := (if has_token_address context then token_address context
                                                  else replicate ADDRESS_LENGTH 0),
                G_swap_expected_value_check := (if token then SWAP_VALUE_CHECK_ZERO else SWAP_VALUE_CHECK_AMOUNT),
                G_swap_expected_value := expected\<rparr>;
          (ok, m) = mem_alloc (swap_mem g)
      in if \<not> ok then (False, g\<lparr>swap_mem := m\<rparr>)
         else (True, g\<lparr>swap_mem := m, G_swap_crosschain_hash := Some hash, exp_toAddress := to,
                       exp_fullAmount := full_amount, exp_maxFee := max_fee\<rparr>))"

definition copy_transaction_parameters ::
  "swap_env \<Rightarrow> chain_config \<Rightarrow> create_transaction_parameters \<Rightarrow> swap_globals \<Rightarrow> (bool \<times> swap_globals) option" where
  "copy_transaction_parameters E config p g =
     (if 32 < amount_length p \<or> 8 < fee_amount_length p then Some (False, g)
      else do {
        (mode, hash) \<leftarrow> swap_mode_of (case destination_extra_id p of None \<Rightarrow> replicate 33 0 | Some e \<Rightarrow> e);
        (ok, context) \<leftarrow> parse_swap_config (se_max_ticker E) (coin_configuration p) (coin_configuration_length p)
                           (swap_context_zero (se_max_ticker E));
        if \<not> ok then Some (False, g)
        else
          (let context = (if sc_chain_id context = 0 then context\<lparr>sc_chain_id := cfg_chain_id config\<rparr> else context);
               (ticker, _, context) = get_asset_info_on_network E True context config;
               token = swap_of_token mode context ticker
           in do {
             fee \<leftarrow> rd_n (fee_amount p) 0 (unat (fee_amount_length p));
             case se_amount_to_string E fee (unat (asset_decimals (fees_asset_info context))) ticker MAX_FEE_SIZE of
               None \<Rightarrow> Some (False, g)
             | Some max_fee \<Rightarrow> do {
                 am \<leftarrow> rd_n (amount p) 0 (unat (amount_length p));
                 case expected_amount E token context ticker am of
                   None \<Rightarrow> Some (False, g)
                 | Some full_amount \<Rightarrow> do {
                     expected \<leftarrow> wr_n (replicate INT256_LENGTH 0) (INT256_LENGTH - unat (amount_length p)) am;
                     Some (commit_promise mode hash context token expected
                             (strlcpy (se_address_size E) (destination_address p)) full_amount max_fee g) } } }) })"

definition handle_get_printable_amount ::
  "swap_env \<Rightarrow> chain_config \<Rightarrow> bool \<Rightarrow> bytes \<Rightarrow> uint8 \<Rightarrow> bytes option \<Rightarrow> uint8 \<Rightarrow> nat \<Rightarrow> string option" where
  "handle_get_printable_amount E config is_fee am am_len cfg cfg_len out_size =
     (if 32 < am_len then Some []
      else do {
        (ok, context) \<leftarrow> parse_swap_config (se_max_ticker E) cfg cfg_len (swap_context_zero (se_max_ticker E));
        if \<not> ok then Some []
        else
          (let (ticker, decimals, _) = get_asset_info_on_network E is_fee context config
           in do {
             bs \<leftarrow> rd_n am 0 (unat am_len);
             Some (case se_amount_to_string E bs (unat decimals) ticker out_size of None \<Rightarrow> [] | Some s \<Rightarrow> s) }) })"

section \<open>The checks\<close>

definition lower_char :: "char \<Rightarrow> char" where
  "lower_char c = (let n = (of_char c :: nat) in if 65 \<le> n \<and> n \<le> 90 then char_of (n + 32) else c)"

definition swap_check_destination :: "swap_globals \<Rightarrow> string \<Rightarrow> bool" where
  "swap_check_destination g dest_string \<longleftrightarrow> map lower_char (exp_toAddress g) = map lower_char dest_string"

definition swap_check_amount :: "swap_globals \<Rightarrow> string \<Rightarrow> bool" where
  "swap_check_amount g am \<longleftrightarrow> exp_fullAmount g = am"

definition swap_check_fee :: "swap_globals \<Rightarrow> string \<Rightarrow> bool" where
  "swap_check_fee g fee \<longleftrightarrow> exp_maxFee g = fee"

definition swap_check_value :: "swap_globals \<Rightarrow> string \<Rightarrow> bytes \<Rightarrow> uint8 \<Rightarrow> bool option" where
  "swap_check_value g formatted raw raw_len =
     (if 32 < raw_len then Some False
      else do {
        bs \<leftarrow> rd_n raw 0 (unat raw_len);
        observed \<leftarrow> wr_n (replicate INT256_LENGTH 0) (INT256_LENGTH - unat raw_len) bs;
        Some (case G_swap_expected_value_check g of
                SWAP_VALUE_CHECK_ZERO \<Rightarrow> is_zeroes_buffer bs
              | _ \<Rightarrow> observed = G_swap_expected_value g \<and> swap_check_amount g formatted) })"

section \<open>The plugin that hashes the calldata\<close>

record swap_plugin =
  update_hash :: bytes
  sp_expected_size :: uint32
  sp_received_size :: uint32

definition SELECTOR_SIZE :: nat where "SELECTOR_SIZE = 4"
definition PARAMETER_LENGTH :: uint32 where "PARAMETER_LENGTH = 32"

definition handle_init_contract_swap_with_calldata ::
  "(bytes \<Rightarrow> bytes \<Rightarrow> bool) \<Rightarrow> bool \<Rightarrow> uint32 \<Rightarrow> bytes \<Rightarrow> swap_plugin \<Rightarrow> eth_plugin_result \<times> swap_plugin" where
  "handle_init_contract_swap_with_calldata update_ok called_from_swap dataSize sel c =
     (if \<not> called_from_swap then (ETH_PLUGIN_RESULT_ERROR, c)
      else if dataSize < 4 then (ETH_PLUGIN_RESULT_ERROR, c)
      else
        (let c = \<lparr>update_hash = [], sp_expected_size = dataSize, sp_received_size = 4\<rparr>
         in if update_ok [] sel then (ETH_PLUGIN_RESULT_OK, c\<lparr>update_hash := sel\<rparr>) else (ETH_PLUGIN_RESULT_ERROR, c)))"

text \<open>The parameter is a buffer of 32 bytes; at most these are read.\<close>

definition handle_provide_parameter_swap_with_calldata ::
  "(bytes \<Rightarrow> bytes \<Rightarrow> bool) \<Rightarrow> bool \<Rightarrow> bytes \<Rightarrow> uint32 \<Rightarrow> swap_plugin \<Rightarrow> eth_plugin_result \<times> swap_plugin" where
  "handle_provide_parameter_swap_with_calldata update_ok called_from_swap parameter parameterOffset c =
     (if \<not> called_from_swap then (ETH_PLUGIN_RESULT_ERROR, c)
      else if parameterOffset \<noteq> sp_received_size c \<or> sp_expected_size c \<le> sp_received_size c then (ETH_PLUGIN_RESULT_ERROR, c)
      else
        (let remaining = sp_expected_size c - sp_received_size c;
             chunk_size = (if remaining < PARAMETER_LENGTH then remaining else PARAMETER_LENGTH);
             xs = take (unat chunk_size) parameter
         in if update_ok (update_hash c) xs
            then (ETH_PLUGIN_RESULT_OK, c\<lparr>update_hash := update_hash c @ xs, sp_received_size := sp_received_size c + chunk_size\<rparr>)
            else (ETH_PLUGIN_RESULT_ERROR, c)))"

text \<open>The digest is compared through the pointer to the promised hash.\<close>

definition handle_finalize_swap_with_calldata ::
  "(bytes \<Rightarrow> bytes) \<Rightarrow> bool \<Rightarrow> swap_plugin \<Rightarrow> swap_globals \<Rightarrow> (eth_plugin_result \<times> swap_globals) option" where
  "handle_finalize_swap_with_calldata sha256 called_from_swap c g =
     (if \<not> called_from_swap then Some (ETH_PLUGIN_RESULT_ERROR, g)
      else do {
        promised \<leftarrow> G_swap_crosschain_hash g;
        Some (ETH_PLUGIN_RESULT_FALLBACK,
          (if sha256 (update_hash c) \<noteq> promised then g\<lparr>G_swap_mode := SWAP_MODE_ERROR\<rparr>
           else if G_swap_mode g = SWAP_MODE_CROSSCHAIN_PENDING_CHECK then g\<lparr>G_swap_mode := SWAP_MODE_CROSSCHAIN_SUCCESS\<rparr>
           else g\<lparr>G_swap_mode := SWAP_MODE_ERROR\<rparr>)) })"

end
