(* ===== verification/Plugin_State.thy ===== *)
theory Plugin_State
  imports Swap Assets
begin

text \<open>
  What the plugins share with the application: \<open>tokenContext_t\<close> of \<open>src/shared_context.h\<close>, the globals of a swap and the
  known assets, in the record \<open>plugin_state\<close>; the messages exchanged with a plugin; and the environment of the plugins.

  The status of the plugin (\<open>pluginStatus\<close>) is a field of the parser's state.  The plugin contexts share memory
  (\<open>pluginContext\<close>) with the registered address and selector, and \<open>plugin_ctx_mode\<close> tells which half is live.  In the
  record the halves are fields of their own, and starting a plugin (\<open>union_to_plugin\<close> of \<open>Plugin_Handler\<close>) leaves no
  address and no selector behind: their bytes are then the plugin's.  The other way round, the code writes an address and
  a selector only where the context is dead: a plugin is registered when no command is in progress, after a reset.
  \<open>'c\<close> is the context of the plugins that are not modelled.  \<open>ps_exited\<close> records that the application has quit.
\<close>

record erc20_parameters =
  selectorIndex :: uint8
  destinationAddress :: bytes
  erc20_amount :: bytes
  erc20_ticker :: string
  erc20_decimals :: uint8
  extra_data :: bytes
  extra_data_len :: uint8
  destination_parsed :: bool
  amount_parsed :: bool

definition erc20_zero :: erc20_parameters where
  "erc20_zero = \<lparr>selectorIndex = 0, destinationAddress = replicate ADDRESS_LENGTH 0, erc20_amount = replicate INT256_LENGTH 0,
     erc20_ticker = [], erc20_decimals = 0, extra_data = replicate 64 0, extra_data_len = 0, destination_parsed = False,
     amount_parsed = False\<rparr>"

definition swap_plugin_zero :: swap_plugin where
  "swap_plugin_zero = \<lparr>update_hash = [], sp_expected_size = 0, sp_received_size = 0\<rparr>"

datatype plugin_ctx_mode = PLUGIN_CTX_ADDR_SEL | PLUGIN_CTX_PLUGIN

definition PLUGIN_CHAIN_ID_ANY :: uint64 where "PLUGIN_CHAIN_ID_ANY = 0"
definition PLUGIN_ID_LENGTH :: nat where "PLUGIN_ID_LENGTH = 30"
definition MAX_PLUGIN_UI_ITEMS :: nat where "MAX_PLUGIN_UI_ITEMS = 251"

record 'c plugin_state =
  plugin_type :: pluginType
  pluginName :: string
  plugin_ctx_mode :: plugin_ctx_mode
  contractAddress :: bytes
  methodSelector :: bytes
  pluginChainId :: uint64
  token_lookup1 :: "bytes option"
  token_lookup2 :: "bytes option"
  pluginUiMaxItems :: uint8
  ctx_erc20 :: erc20_parameters
  ctx_swap :: swap_plugin
  ctx_other :: 'c
  ps_swap :: swap_globals
  ps_assets :: assets
  ps_exited :: bool

text \<open>The answers of a plugin.  Of the user interface types only the generic one is told apart.\<close>

record plugin_finalize =
  pf_result :: eth_plugin_result
  pf_ui_generic :: bool
  pf_numScreens :: uint8
  pf_tokenLookup1 :: "bytes option"
  pf_tokenLookup2 :: "bytes option"

record plugin_info =
  pi_result :: eth_plugin_result
  pi_additionalScreens :: uint8

definition plugin_finalize_zero :: plugin_finalize where
  "plugin_finalize_zero = \<lparr>pf_result = ETH_PLUGIN_RESULT_UNAVAILABLE, pf_ui_generic = False, pf_numScreens = 0,
     pf_tokenLookup1 = None, pf_tokenLookup2 = None\<rparr>"

record internal_plugin =
  ip_addresses :: "bytes list option"
  ip_selectors :: "bytes list option"
  ip_alias :: string

text \<open>The plugins outside of the model are given by the type and the name under which they are called.\<close>

record 'c plugin_env =
  pe_called_from_swap :: bool
  pe_have_eth2 :: bool
  pe_swap :: swap_env
  pe_cfg :: chain_config
  pe_displayable_address :: "bytes \<Rightarrow> nat \<Rightarrow> uint64 \<Rightarrow> string option"
  pe_hash_ok :: "bytes \<Rightarrow> bytes \<Rightarrow> bool"
  pe_sha256 :: "bytes \<Rightarrow> bytes"
  pe_ctx_zero :: 'c
  pe_init :: "pluginType \<Rightarrow> string \<Rightarrow> txContent \<Rightarrow> uint32 \<Rightarrow> bytes \<Rightarrow> 'c \<Rightarrow> eth_plugin_result \<times> 'c"
  pe_parameter :: "pluginType \<Rightarrow> string \<Rightarrow> txContent \<Rightarrow> bytes \<Rightarrow> uint32 \<Rightarrow> uint8 \<Rightarrow> 'c \<Rightarrow> eth_plugin_result \<times> 'c"
  pe_finalize :: "pluginType \<Rightarrow> string \<Rightarrow> txContent \<Rightarrow> bytes \<Rightarrow> 'c \<Rightarrow> plugin_finalize \<times> 'c"
  pe_info :: "pluginType \<Rightarrow> string \<Rightarrow> txContent \<Rightarrow> asset option \<Rightarrow> asset option \<Rightarrow> 'c \<Rightarrow> plugin_info \<times> 'c"

end
