(* ===== verification/Erc20.thy ===== *)
theory Erc20
  imports Plugin_State
begin

text \<open>
  Model of \<open>src/plugins/erc20/erc20_plugin.c\<close>: the internal plugin that decodes the calldata of \<open>transfer\<close> and
  \<open>approve\<close> and, in a swap, compares it with the promise.
\<close>

definition ERC20_TRANSFER :: uint8 where "ERC20_TRANSFER = 0"
definition ERC20_APPROVE :: uint8 where "ERC20_APPROVE = 1"
definition ERC20_TRANSFER_SELECTOR :: bytes where "ERC20_TRANSFER_SELECTOR = [0xa9, 0x05, 0x9c, 0xbb]"
definition ERC20_APPROVE_SELECTOR :: bytes where "ERC20_APPROVE_SELECTOR = [0x09, 0x5e, 0xa7, 0xb3]"
definition ERC20_SELECTORS :: "bytes list" where "ERC20_SELECTORS = [ERC20_TRANSFER_SELECTOR, ERC20_APPROVE_SELECTOR]"

section \<open>Decoding\<close>

definition erc20_init :: "txContent \<Rightarrow> bytes \<Rightarrow> eth_plugin_result \<times> erc20_parameters" where
  "erc20_init ct sel =
     (if \<not> is_zeroes_buffer (ivalue (tvalue ct)) then (ETH_PLUGIN_RESULT_ERROR, erc20_zero)
      else
        (let i = node_index (\<lambda>s. s = sel) ERC20_SELECTORS
         in if i = length ERC20_SELECTORS then (ETH_PLUGIN_RESULT_ERROR, erc20_zero)
            else (ETH_PLUGIN_RESULT_OK, erc20_zero\<lparr>selectorIndex := word_of_nat i\<rparr>)))"

text \<open>The parameter is a word of 32 bytes; \<open>extra_data_base\<close> is 68.\<close>

definition erc20_provide_parameter ::
  "bytes \<Rightarrow> uint32 \<Rightarrow> uint8 \<Rightarrow> erc20_parameters \<Rightarrow> (eth_plugin_result \<times> erc20_parameters) option" where
  "erc20_provide_parameter parameter parameterOffset parameter_size c =
     (if parameterOffset = 4 then do {
        xs \<leftarrow> rd_n parameter (32 - ADDRESS_LENGTH) ADDRESS_LENGTH;
        Some (ETH_PLUGIN_RESULT_OK, c\<lparr>destinationAddress := xs, destination_parsed := True\<rparr>) }
      else if parameterOffset = 36 then do {
        xs \<leftarrow> rd_n parameter 0 32;
        Some (ETH_PLUGIN_RESULT_OK, c\<lparr>erc20_amount := xs, amount_parsed := True\<rparr>) }
      else if 68 \<le> parameterOffset \<and> parameterOffset \<le> 68 + 64 - 32 then do {
        xs \<leftarrow> rd_n parameter 0 32;
        d \<leftarrow> wr_n (extra_data c) (unat (parameterOffset - 68)) xs;
        let c = c\<lparr>extra_data := d\<rparr>;
        if parameter_size \<le> 32
        then Some (ETH_PLUGIN_RESULT_OK, c\<lparr>extra_data_len := extra_data_len c + parameter_size\<rparr>)
        else Some (ETH_PLUGIN_RESULT_ERROR, c) }
      else Some (ETH_PLUGIN_RESULT_ERROR, c\<lparr>extra_data_len := 0\<rparr>))"

section \<open>The end of the calldata\<close>

text \<open>The comparisons in a swap.  A comparison that fails quits the application, a refusal is \<open>Returns None\<close>.\<close>

definition erc20_swap_checks ::
  "'c plugin_env \<Rightarrow> txContent \<Rightarrow> uint64 \<Rightarrow> erc20_parameters \<Rightarrow> swap_globals \<Rightarrow> assets \<Rightarrow> swap_globals option outcome" where
  "erc20_swap_checks E ct chain_id c g a =
     (let buf_size = FULL_AMOUNT_SIZE (pe_swap E)
      in if selectorIndex c \<noteq> ERC20_TRANSFER then Returns None
         else if extra_data_len c \<noteq> 0 then Returns None
         else if G_swap_has_expected_token_address g \<and> destination ct \<noteq> G_swap_expected_token_address g then Returns None
         else
           (case pe_displayable_address E (destinationAddress c) buf_size (cfg_chain_id (pe_cfg E)) of
              None \<Rightarrow> Returns None
            | Some to \<Rightarrow>
                if \<not> swap_check_destination g to then App_exit
                else
                  (case get_matching_token_info (Some chain_id) (Some (destination ct)) (as_tokens a) of
                     None \<Rightarrow> Returns None
                   | Some t \<Rightarrow>
                       (case se_amount_to_string (pe_swap E) (erc20_amount c) (unat (tok_decimals t)) (tok_ticker t) buf_size of
                          None \<Rightarrow> Returns None
                        | Some am \<Rightarrow>
                            if \<not> swap_check_amount g am then App_exit
                            else Returns (Some (g\<lparr>G_swap_checked := True, G_swap_calldata_validated := True\<rparr>))))))"

definition erc20_finalize ::
  "'c plugin_env \<Rightarrow> txContent \<Rightarrow> uint64 \<Rightarrow> erc20_parameters \<Rightarrow> swap_globals \<Rightarrow> assets \<Rightarrow> (plugin_finalize \<times> swap_globals) outcome" where
  "erc20_finalize E ct chain_id c g a =
     (if \<not> destination_parsed c \<or> \<not> amount_parsed c
      then Returns (plugin_finalize_zero\<lparr>pf_result := ETH_PLUGIN_RESULT_ERROR\<rparr>, g)
      else
        (let f = plugin_finalize_zero\<lparr>pf_numScreens := (if 0 < extra_data_len c then 3 else 2),
                   pf_tokenLookup1 := Some (destination ct)\<rparr>;
             good = f\<lparr>pf_result := ETH_PLUGIN_RESULT_OK, pf_ui_generic := True\<rparr>
         in if pe_called_from_swap E then
              (case erc20_swap_checks E ct chain_id c g a of
                 Returns None \<Rightarrow> Returns (f\<lparr>pf_result := ETH_PLUGIN_RESULT_ERROR\<rparr>, g)
               | Returns (Some g) \<Rightarrow> Returns (good, g)
               | App_exit \<Rightarrow> App_exit
               | Swap_done r \<Rightarrow> Swap_done r)
            else Returns (good, g)))"

text \<open>\<open>ticker\<close> is copied into a buffer of the size of a ticker.  This plugin is only given tokens.\<close>

definition erc20_provide_info :: "'c plugin_env \<Rightarrow> asset option \<Rightarrow> erc20_parameters \<Rightarrow> plugin_info \<times> erc20_parameters" where
  "erc20_provide_info E item1 c =
     (case item1 of
        Some (Token_asset t) \<Rightarrow>
          (\<lparr>pi_result = ETH_PLUGIN_RESULT_OK, pi_additionalScreens = 0\<rparr>,
           c\<lparr>erc20_ticker := strlcpy (se_max_ticker (pe_swap E)) (tok_ticker t), erc20_decimals := tok_decimals t\<rparr>)
      | _ \<Rightarrow> (\<lparr>pi_result = ETH_PLUGIN_RESULT_FALLBACK, pi_additionalScreens = 0\<rparr>, c))"

section \<open>The screens\<close>

definition erc20_query_contract_id :: "nat \<Rightarrow> nat \<Rightarrow> erc20_parameters \<Rightarrow> string \<times> string" where
  "erc20_query_contract_id nameLength versionLength c =
     (strlcpy nameLength ''ERC20 token'',
      if selectorIndex c = ERC20_TRANSFER then strlcpy versionLength ''Send'' else strlcpy versionLength ''Approve'')"

definition strlcat :: "nat \<Rightarrow> string \<Rightarrow> string \<Rightarrow> string" where
  "strlcat n dst src = dst @ take (n - 1 - length dst) src"

definition ismaxint :: "bytes \<Rightarrow> bool" where
  "ismaxint bs = list_all (\<lambda>b. b = 0xff) bs"

text \<open>Title and text of a screen, \<open>None\<close> for an error.  \<open>is_printable\<close> and \<open>format_hex\<close> are of the SDK.\<close>

definition erc20_query_contract_ui ::
  "'c plugin_env \<Rightarrow> (string \<Rightarrow> bool) \<Rightarrow> (bytes \<Rightarrow> string option) \<Rightarrow> uint8 \<Rightarrow> nat \<Rightarrow> nat \<Rightarrow> erc20_parameters \<Rightarrow> (string \<times> string) option option" where
  "erc20_query_contract_ui E is_printable format_hex screenIndex titleLength msgLength c =
     (if screenIndex = 0 then
        (let title = strlcpy titleLength (if selectorIndex c = ERC20_TRANSFER then ''Send'' else ''Approve'')
         in Some (if ismaxint (erc20_amount c)
                  then Some (title, strlcat msgLength (strlcpy msgLength ''Unlimited '') (erc20_ticker c))
                  else map_option (Pair title)
                         (se_amount_to_string (pe_swap E) (erc20_amount c) (unat (erc20_decimals c)) (erc20_ticker c) msgLength)))
      else if screenIndex = 1 then
        (let title = strlcpy titleLength (if selectorIndex c = ERC20_TRANSFER then ''To'' else ''Approve to'')
         in Some (map_option (Pair title)
                    (pe_displayable_address E (destinationAddress c) msgLength (cfg_chain_id (pe_cfg E)))))
      else if screenIndex = 2 then
        (if extra_data_len c = 0 then Some None
         else do {
           xs \<leftarrow> rd_n (extra_data c) 0 (unat (extra_data_len c));
           let title = strlcpy titleLength ''Extra Data'';
           let s = map (\<lambda>b. char_of (unat b)) xs;
           if is_printable s then Some (if msgLength \<le> unat (extra_data_len c) then None else Some (title, c_str s))
           else (case format_hex xs of
                   None \<Rightarrow> Some None
                 | Some h \<Rightarrow> do {
                     out \<leftarrow> str_cpy_explicit_trunc (Some (''0x'' @ h)) (length (''0x'' @ h)) (replicate msgLength NUL) msgLength;
                     Some (Some (title, c_str out)) }) })
      else Some None)"

end
