(* ===== verification/Erc20_Proofs.thy ===== *)
theory Erc20_Proofs
  imports Erc20
begin

text \<open>
  The internal token plugin decodes the ABI encoding of \<open>transfer\<close> and \<open>approve\<close>, and refuses calldata in which one of the
  two arguments is missing.
\<close>

text \<open>The words of the calldata, in the order in which they are delivered, with their offsets.\<close>

fun erc20_feed :: "(bytes \<times> uint32 \<times> uint8) list \<Rightarrow> erc20_parameters \<Rightarrow> (bool \<times> erc20_parameters) option" where
  "erc20_feed [] c = Some (True, c)"
| "erc20_feed ((w, off, n) # ws) c = do {
     (r, c) \<leftarrow> erc20_provide_parameter w off n c;
     if r = ETH_PLUGIN_RESULT_OK then erc20_feed ws c else Some (False, c) }"

text \<open>The selector and the two arguments of a call.\<close>

definition erc20_selector :: "uint8 \<Rightarrow> bytes" where
  "erc20_selector i = (if i = ERC20_TRANSFER then ERC20_TRANSFER_SELECTOR else ERC20_APPROVE_SELECTOR)"

lemma erc20_init_selector:
  "is_zeroes_buffer (ivalue (tvalue ct)) \<Longrightarrow> i \<in> {ERC20_TRANSFER, ERC20_APPROVE} \<Longrightarrow>
   erc20_init ct (erc20_selector i) = (ETH_PLUGIN_RESULT_OK, erc20_zero\<lparr>selectorIndex := i\<rparr>)"
  by (auto simp: erc20_init_def erc20_selector_def ERC20_TRANSFER_def ERC20_APPROVE_def ERC20_SELECTORS_def ERC20_TRANSFER_SELECTOR_def
      ERC20_APPROVE_SELECTOR_def)

lemma erc20_decodes:
  assumes ct: "is_zeroes_buffer (ivalue (tvalue ct))" and i: "i \<in> {ERC20_TRANSFER, ERC20_APPROVE}"
    and a: "length to = ADDRESS_LENGTH" and v: "length am = 32"
  shows "\<exists>c. erc20_feed [(replicate 12 0 @ to, 4, n), (am, 36, k)] (snd (erc20_init ct (erc20_selector i))) = Some (True, c) \<and>
     selectorIndex c = i \<and> destinationAddress c = to \<and> erc20_amount c = am \<and> extra_data_len c = 0 \<and> destination_parsed c \<and> amount_parsed c"
proof -
  have "rd_n (replicate 12 0 @ to) 12 20 = Some to" "rd_n am 0 32 = Some am" using a v by (simp_all add: rd_n_def)
  then show ?thesis using erc20_init_selector [OF ct i] by (simp add: erc20_provide_parameter_def erc20_zero_def)
qed

text \<open>Outside of a swap the review shows the token that the lookup of the called contract yields; incomplete calldata is refused.\<close>

lemma erc20_finalize_plain:
  assumes "\<not> pe_called_from_swap E"
  shows "\<exists>f. erc20_finalize E ct chain_id c g a = Returns (f, g) \<and>
     (if destination_parsed c \<and> amount_parsed c
      then pf_result f = ETH_PLUGIN_RESULT_OK \<and> pf_ui_generic f \<and> pf_tokenLookup1 f = Some (destination ct) \<and>
           pf_numScreens f = (if extra_data_len c = 0 then 2 else 3)
      else pf_result f = ETH_PLUGIN_RESULT_ERROR)"
  using assms by (auto simp: erc20_finalize_def plugin_finalize_zero_def Let_def word_gt_0)

text \<open>A word behind the arguments is kept whole, but its length is counted by the size that comes with it.\<close>

lemma erc20_extra_word:
  assumes "length w = 32" "length (extra_data c) = 64" "k \<le> 32"
  shows "\<exists>c'. erc20_provide_parameter w 68 k c = Some (ETH_PLUGIN_RESULT_OK, c') \<and> take 32 (extra_data c') = w \<and>
     extra_data_len c' = extra_data_len c + k"
  using assms by (simp add: erc20_provide_parameter_def rd_n_def wr_n_def)

end
