(* ===== verification/Plugin_Handler.thy ===== *)
theory Plugin_Handler
  imports Erc20
begin

text \<open>
  Model of \<open>src/plugins/eth_plugin_handler.c\<close>: the choice of a plugin for a contract call and the calls to it.
  The functions take and return \<open>pluginStatus\<close> beside the state of the plugins.
\<close>

definition deposit_contract_address :: bytes where
  "deposit_contract_address =
     [0x00, 0x00, 0x00, 0x00, 0x21, 0x9a, 0xb5, 0x40, 0x35, 0x6c, 0xbb, 0x83, 0x9c, 0xbe, 0x05, 0x30, 0x3d, 0x77, 0x05, 0xfa]"

definition withdrawal_request_predeploy_address :: bytes where
  "withdrawal_request_predeploy_address =
     [0x00, 0x00, 0x09, 0x61, 0xEf, 0x48, 0x0E, 0xb5, 0x5e, 0x80, 0xD1, 0x9a, 0xd8, 0x35, 0x79, 0xA6, 0x4c, 0x00, 0x70, 0x02]"

definition consolidation_request_predeploy_address :: bytes where
  "consolidation_request_predeploy_address =
     [0x00, 0x00, 0xBB, 0xdD, 0xc7, 0xCE, 0x48, 0x86, 0x42, 0xfb, 0x57, 0x9F, 0x8B, 0x00, 0xf3, 0xa5, 0x90, 0x00, 0x72, 0x51]"

definition ETH2_SELECTORS :: "bytes list" where "ETH2_SELECTORS = [[0x22, 0x89, 0x51, 0x18]]"

definition INTERNAL_ETH_PLUGINS :: "bool \<Rightarrow> internal_plugin list" where
  "INTERNAL_ETH_PLUGINS have_eth2 =
     [\<lparr>ip_addresses = None, ip_selectors = Some ERC20_SELECTORS, ip_alias = ''-erc20''\<rparr>] @
     (if have_eth2 then [\<lparr>ip_addresses = Some [deposit_contract_address], ip_selectors = Some ETH2_SELECTORS, ip_alias = ''-eth2''\<rparr>] else []) @
     [\<lparr>ip_addresses = Some [withdrawal_request_predeploy_address], ip_selectors = None, ip_alias = ''-eip7002''\<rparr>,
      \<lparr>ip_addresses = Some [consolidation_request_predeploy_address], ip_selectors = None, ip_alias = ''-eip7251''\<rparr>]"

definition matching_selector :: "internal_plugin \<Rightarrow> bytes \<Rightarrow> bool" where
  "matching_selector p sel = (case ip_selectors p of None \<Rightarrow> True | Some ss \<Rightarrow> list_ex (\<lambda>s. sel = s) ss)"

definition matching_address :: "internal_plugin \<Rightarrow> bytes \<Rightarrow> bool" where
  "matching_address p addr = (case ip_addresses p of None \<Rightarrow> True | Some as \<Rightarrow> list_ex (\<lambda>a. addr = a) as)"

section \<open>The calls\<close>

text \<open>What a method makes of the answer.\<close>

definition init_result :: "eth_plugin_result \<Rightarrow> eth_plugin_result" where
  "init_result r =
     (case r of ETH_PLUGIN_RESULT_OK \<Rightarrow> ETH_PLUGIN_RESULT_OK
      | ETH_PLUGIN_RESULT_ERROR \<Rightarrow> ETH_PLUGIN_RESULT_ERROR
      | _ \<Rightarrow> ETH_PLUGIN_RESULT_UNAVAILABLE)"

definition method_result :: "eth_plugin_result \<Rightarrow> eth_plugin_result" where
  "method_result r =
     (case r of ETH_PLUGIN_RESULT_OK \<Rightarrow> ETH_PLUGIN_RESULT_OK
      | ETH_PLUGIN_RESULT_FALLBACK \<Rightarrow> ETH_PLUGIN_RESULT_OK
      | ETH_PLUGIN_RESULT_ERROR \<Rightarrow> ETH_PLUGIN_RESULT_ERROR
      | _ \<Rightarrow> ETH_PLUGIN_RESULT_UNAVAILABLE)"

text \<open>\<open>eth_plugin_call\<close>, one definition per method.\<close>

definition call_init :: "'c plugin_env \<Rightarrow> eth_plugin_result \<Rightarrow> txContent \<Rightarrow> uint32 \<Rightarrow> bytes \<Rightarrow> 'c plugin_state \<Rightarrow> eth_plugin_result \<times> 'c plugin_state" where
  "call_init E status ct dataSize sel p =
     (let other = (case pe_init E (plugin_type p) (pluginName p) ct dataSize sel (ctx_other p) of
                     (r, c) \<Rightarrow> (init_result r, p\<lparr>ctx_other := c\<rparr>))
      in if \<not> plugin_successful status then (status, p)
         else (case plugin_type p of
                 PLUGIN_TYPE_NONE \<Rightarrow> (ETH_PLUGIN_RESULT_ERROR, p)
               | PLUGIN_TYPE_SWAP_WITH_CALLDATA \<Rightarrow>
                   (case handle_init_contract_swap_with_calldata (pe_hash_ok E) (pe_called_from_swap E) dataSize sel (ctx_swap p) of
                      (r, c) \<Rightarrow> (init_result r, p\<lparr>ctx_swap := c\<rparr>))
               | PLUGIN_TYPE_OLD_INTERNAL \<Rightarrow>
                   (if pluginName p = ''-erc20''
                    then (case erc20_init ct sel of (r, c) \<Rightarrow> (init_result r, p\<lparr>ctx_erc20 := c\<rparr>))
                    else if list_ex (\<lambda>i. ip_alias i = pluginName p) (INTERNAL_ETH_PLUGINS (pe_have_eth2 E)) then other
                    else (ETH_PLUGIN_RESULT_UNAVAILABLE, p))
               | _ \<Rightarrow> other))"

definition call_parameter ::
  "'c plugin_env \<Rightarrow> eth_plugin_result \<Rightarrow> txContent \<Rightarrow> bytes \<Rightarrow> uint32 \<Rightarrow> uint8 \<Rightarrow> 'c plugin_state \<Rightarrow> (eth_plugin_result \<times> 'c plugin_state) option" where
  "call_parameter E status ct parameter offset size8 p =
     (let other = (case pe_parameter E (plugin_type p) (pluginName p) ct parameter offset size8 (ctx_other p) of
                     (r, c) \<Rightarrow> Some (method_result r, p\<lparr>ctx_other := c\<rparr>))
      in if \<not> plugin_successful status then Some (status, p)
         else (case plugin_type p of
                 PLUGIN_TYPE_NONE \<Rightarrow> Some (ETH_PLUGIN_RESULT_ERROR, p)
               | PLUGIN_TYPE_SWAP_WITH_CALLDATA \<Rightarrow>
                   (case handle_provide_parameter_swap_with_calldata (pe_hash_ok E) (pe_called_from_swap E) parameter offset (ctx_swap p) of
                      (r, c) \<Rightarrow> Some (method_result r, p\<lparr>ctx_swap := c\<rparr>))
               | PLUGIN_TYPE_OLD_INTERNAL \<Rightarrow>
                   (if pluginName p = ''-erc20'' then do {
                      (r, c) \<leftarrow> erc20_provide_parameter parameter offset size8 (ctx_erc20 p);
                      Some (method_result r, p\<lparr>ctx_erc20 := c\<rparr>) }
                    else if list_ex (\<lambda>i. ip_alias i = pluginName p) (INTERNAL_ETH_PLUGINS (pe_have_eth2 E)) then other
                    else Some (ETH_PLUGIN_RESULT_UNAVAILABLE, p))
               | _ \<Rightarrow> other))"

text \<open>The result of the call, the answer itself and the state.\<close>

definition call_finalize ::
  "'c plugin_env \<Rightarrow> eth_plugin_result \<Rightarrow> txContent \<Rightarrow> uint64 \<Rightarrow> bytes \<Rightarrow> 'c plugin_state
    \<Rightarrow> (eth_plugin_result \<times> plugin_finalize \<times> 'c plugin_state) outcome option" where
  "call_finalize E status ct chain_id address p =
     (let other = (case pe_finalize E (plugin_type p) (pluginName p) ct address (ctx_other p) of
                     (f, c) \<Rightarrow> Some (Returns (method_result (pf_result f), f, p\<lparr>ctx_other := c\<rparr>)))
      in if \<not> plugin_successful status then Some (Returns (status, plugin_finalize_zero, p))
         else (case plugin_type p of
                 PLUGIN_TYPE_NONE \<Rightarrow> Some (Returns (ETH_PLUGIN_RESULT_ERROR, plugin_finalize_zero, p))
               | PLUGIN_TYPE_SWAP_WITH_CALLDATA \<Rightarrow> do {
                   (r, g) \<leftarrow> handle_finalize_swap_with_calldata (pe_sha256 E) (pe_called_from_swap E) (ctx_swap p) (ps_swap p);
                   Some (Returns (method_result r, plugin_finalize_zero\<lparr>pf_result := r\<rparr>, p\<lparr>ps_swap := g\<rparr>)) }
               | PLUGIN_TYPE_OLD_INTERNAL \<Rightarrow>
                   (if pluginName p = ''-erc20'' then
                      Some (case erc20_finalize E ct chain_id (ctx_erc20 p) (ps_swap p) (ps_assets p) of
                              Returns (f, g) \<Rightarrow> Returns (method_result (pf_result f), f, p\<lparr>ps_swap := g\<rparr>)
                            | App_exit \<Rightarrow> App_exit
                            | Swap_done r \<Rightarrow> Swap_done r)
                    else if list_ex (\<lambda>i. ip_alias i = pluginName p) (INTERNAL_ETH_PLUGINS (pe_have_eth2 E)) then other
                    else Some (Returns (ETH_PLUGIN_RESULT_UNAVAILABLE, plugin_finalize_zero, p)))
               | _ \<Rightarrow> other))"

definition call_info ::
  "'c plugin_env \<Rightarrow> eth_plugin_result \<Rightarrow> txContent \<Rightarrow> asset option \<Rightarrow> asset option \<Rightarrow> 'c plugin_state \<Rightarrow> eth_plugin_result \<times> plugin_info \<times> 'c plugin_state" where
  "call_info E status ct item1 item2 p =
     (let none = \<lparr>pi_result = ETH_PLUGIN_RESULT_UNAVAILABLE, pi_additionalScreens = 0\<rparr>;
          other = (case pe_info E (plugin_type p) (pluginName p) ct item1 item2 (ctx_other p) of
                     (i, c) \<Rightarrow> (method_result (pi_result i), i, p\<lparr>ctx_other := c\<rparr>))
      in if \<not> plugin_successful status then (status, none, p)
         else (case plugin_type p of
                 PLUGIN_TYPE_NONE \<Rightarrow> (ETH_PLUGIN_RESULT_ERROR, none, p)
               | PLUGIN_TYPE_SWAP_WITH_CALLDATA \<Rightarrow> (ETH_PLUGIN_RESULT_UNAVAILABLE, none, p)
               | PLUGIN_TYPE_OLD_INTERNAL \<Rightarrow>
                   (if pluginName p = ''-erc20'' then
                      (case erc20_provide_info E item1 (ctx_erc20 p) of (i, c) \<Rightarrow> (method_result (pi_result i), i, p\<lparr>ctx_erc20 := c\<rparr>))
                    else if list_ex (\<lambda>i. ip_alias i = pluginName p) (INTERNAL_ETH_PLUGINS (pe_have_eth2 E)) then other
                    else (ETH_PLUGIN_RESULT_UNAVAILABLE, none, p))
               | _ \<Rightarrow> other))"

section \<open>The choice of a plugin\<close>

text \<open>The status that a registered plugin gets for this transaction.\<close>

definition eth_plugin_perform_init_default :: "bytes \<Rightarrow> bytes \<Rightarrow> uint64 \<Rightarrow> 'c plugin_state \<Rightarrow> eth_plugin_result" where
  "eth_plugin_perform_init_default contract_address sel tx_chain_id p =
     (if pluginChainId p \<noteq> PLUGIN_CHAIN_ID_ANY \<and> tx_chain_id \<noteq> 0 \<and> tx_chain_id \<noteq> pluginChainId p then ETH_PLUGIN_RESULT_UNAVAILABLE
      else if plugin_ctx_mode p = PLUGIN_CTX_PLUGIN then ETH_PLUGIN_RESULT_ERROR
      else if contract_address \<noteq> contractAddress p then ETH_PLUGIN_RESULT_ERROR
      else if sel \<noteq> methodSelector p then ETH_PLUGIN_RESULT_ERROR
      else ETH_PLUGIN_RESULT_OK)"

definition eth_plugin_perform_init_old_internal :: "bool \<Rightarrow> bytes \<Rightarrow> bytes \<Rightarrow> 'c plugin_state \<Rightarrow> (bool \<times> 'c plugin_state)" where
  "eth_plugin_perform_init_old_internal have_eth2 contract_address sel p =
     (case find (\<lambda>i. matching_address i contract_address \<and> matching_selector i sel) (INTERNAL_ETH_PLUGINS have_eth2) of
        None \<Rightarrow> (False, p)
      | Some i \<Rightarrow> (True, p\<lparr>pluginName := strlcpy PLUGIN_ID_LENGTH (ip_alias i)\<rparr>))"

text \<open>After the choice: the plugin is initialised.  From here on the union belongs to its context: when it is called its
  bytes are the plugin's, and the registered address and selector are gone from it.\<close>

definition union_to_plugin :: "eth_plugin_result \<Rightarrow> 'c plugin_state \<Rightarrow> 'c plugin_state" where
  "union_to_plugin status p =
     (if plugin_successful status
      then p\<lparr>plugin_ctx_mode := PLUGIN_CTX_PLUGIN, contractAddress := [], methodSelector := []\<rparr>
      else p\<lparr>plugin_ctx_mode := PLUGIN_CTX_PLUGIN\<rparr>)"

definition perform_init_call ::
  "'c plugin_env \<Rightarrow> eth_plugin_result \<Rightarrow> txContent \<Rightarrow> bytes \<Rightarrow> uint32 \<Rightarrow> 'c plugin_state \<Rightarrow> eth_plugin_result \<times> 'c plugin_state" where
  "perform_init_call E status ct sel dataSize p =
     (case call_init E status ct dataSize sel (union_to_plugin status p) of
        (r, p) \<Rightarrow> (if plugin_successful r then ETH_PLUGIN_RESULT_OK else r, p))"

text \<open>Without a plugin \<open>contract_address\<close> stays non-null.\<close>

definition eth_plugin_perform_init ::
  "'c plugin_env \<Rightarrow> txContent \<Rightarrow> uint64 \<Rightarrow> bytes \<Rightarrow> uint32 \<Rightarrow> 'c plugin_state \<Rightarrow> eth_plugin_result \<times> 'c plugin_state" where
  "eth_plugin_perform_init E ct tx_chain_id sel dataSize p =
     (case plugin_type p of
        PLUGIN_TYPE_NONE \<Rightarrow>
          (case eth_plugin_perform_init_old_internal (pe_have_eth2 E) (destination ct) sel p of
             (True, p) \<Rightarrow> perform_init_call E ETH_PLUGIN_RESULT_OK ct sel dataSize (p\<lparr>plugin_type := PLUGIN_TYPE_OLD_INTERNAL\<rparr>)
           | (False, p) \<Rightarrow> (if pe_called_from_swap E then ETH_PLUGIN_RESULT_ERROR else ETH_PLUGIN_RESULT_UNAVAILABLE, p))
      | PLUGIN_TYPE_SWAP_WITH_CALLDATA \<Rightarrow> perform_init_call E ETH_PLUGIN_RESULT_OK ct sel dataSize p
      | PLUGIN_TYPE_OLD_INTERNAL \<Rightarrow> (ETH_PLUGIN_RESULT_ERROR, p\<lparr>ps_exited := True\<rparr>)
      | _ \<Rightarrow> perform_init_call E (eth_plugin_perform_init_default (destination ct) sel tx_chain_id p) ct sel dataSize p)"

section \<open>As the parser sees it\<close>

text \<open>The parser compares the result of a parameter call with the error.  A fault of the plugin would be read as an error here;
  \<open>call_parameter_total\<close> excludes it: the parser passes the 32 bytes of \<open>tk_data\<close>, and the context of the token plugin keeps its size.\<close>

definition parser_plugin_init ::
  "'c plugin_env \<Rightarrow> txContent \<Rightarrow> uint64 \<Rightarrow> bytes \<Rightarrow> uint32 \<Rightarrow> 'c plugin_state \<Rightarrow> eth_plugin_result \<times> 'c plugin_state" where
  "parser_plugin_init E ct chain_id sel len p = eth_plugin_perform_init E ct chain_id sel len p"

definition parser_plugin_parameter ::
  "'c plugin_env \<Rightarrow> txContent \<Rightarrow> bytes \<Rightarrow> nat \<Rightarrow> uint8 \<Rightarrow> 'c plugin_state \<Rightarrow> bool \<times> 'c plugin_state" where
  "parser_plugin_parameter E ct parameter offset size8 p =
     (case call_parameter E ETH_PLUGIN_RESULT_OK ct parameter (word_of_nat offset) size8 p of
        None \<Rightarrow> (False, p)
      | Some (r, p) \<Rightarrow> (r \<noteq> ETH_PLUGIN_RESULT_ERROR, p))"

section \<open>The token plugin stays inside of its context\<close>

definition erc20_sized :: "'c plugin_state \<Rightarrow> bool" where
  "erc20_sized p \<longleftrightarrow> length (extra_data (ctx_erc20 p)) = 64"

lemma erc20_parameter_sized:
  assumes "length parameter = 32" "length (extra_data c) = 64"
  shows "\<exists>r c'. erc20_provide_parameter parameter off n c = Some (r, c') \<and> length (extra_data c') = 64"
proof -
  have "\<exists>d. wr_n (extra_data c) (unat (off - 68)) parameter = Some d \<and> length d = 64" if "68 \<le> off" "off \<le> 68 + 64 - 32"
  proof -
    have "unat (off - 68) \<le> 32" using that by (simp add: unat_sub word_le_nat_alt)
    then show ?thesis using assms by (simp add: wr_n_def)
  qed
  then show ?thesis using assms by (auto simp: erc20_provide_parameter_def rd_n_def Let_def)
qed

lemma call_parameter_total:
  assumes "length parameter = 32" "erc20_sized p"
  shows "\<exists>r p'. call_parameter E st ct parameter off n p = Some (r, p') \<and> erc20_sized p'"
  using assms erc20_parameter_sized [OF assms(1), of "ctx_erc20 p" off n]
  by (auto simp: call_parameter_def erc20_sized_def Let_def split: prod.split pluginType.split)

lemma parser_plugin_parameter_sized:
  "erc20_sized p \<Longrightarrow> erc20_sized (snd (parser_plugin_parameter E ct parameter off n p))"
  by (auto simp: parser_plugin_parameter_def call_parameter_def erc20_provide_parameter_def erc20_sized_def wr_n_def Let_def
      split: option.split prod.split pluginType.split bind_splits if_splits)

lemma call_init_sized: "erc20_sized p \<Longrightarrow> call_init E st ct n sel p = (r, q) \<Longrightarrow> erc20_sized q"
  by (auto simp: call_init_def erc20_init_def erc20_zero_def erc20_sized_def Let_def split: prod.splits pluginType.splits if_splits)

lemma parser_plugin_init_sized:
  assumes "erc20_sized p"
  shows "erc20_sized (snd (parser_plugin_init E ct c sel n p))"
proof -
  have u: "erc20_sized (union_to_plugin st q) = erc20_sized q" for st and q :: "'a plugin_state"
    by (simp add: erc20_sized_def union_to_plugin_def)
  have c: "erc20_sized (snd (perform_init_call E st ct sel n q))" if "erc20_sized q" for st q
    using call_init_sized [of "union_to_plugin st q"] that u by (auto simp: perform_init_call_def split: prod.split)
  have i: "erc20_sized (snd (eth_plugin_perform_init_old_internal h to sel p))" for h to
    using assms by (simp add: eth_plugin_perform_init_old_internal_def erc20_sized_def split: option.split)
  have t: "erc20_sized (q\<lparr>plugin_type := ty\<rparr>) = erc20_sized q" "erc20_sized (q\<lparr>ps_exited := b\<rparr>) = erc20_sized q"
    for q :: "'a plugin_state" and ty b by (simp_all add: erc20_sized_def)
  show ?thesis using assms c i [of "pe_have_eth2 E" "destination ct"] t
    by (auto simp: parser_plugin_init_def eth_plugin_perform_init_def split: pluginType.split prod.split bool.split)
qed

end
