(* ===== verification/Set_Plugin.thy ===== *)
theory Set_Plugin
  imports Plugin_Handler
begin

text \<open>
  Model of \<open>src/features/set_plugin/cmd_set_plugin.c\<close> and \<open>src/features/set_external_plugin\<close>: the commands that register
  a plugin for the next transaction.  The name is written, byte by byte, before the signature is checked, so an error
  leaves a half-written registration behind, which the main loop resets.
\<close>

record set_plugin_env =
  sx_sha256 :: "bytes \<Rightarrow> bytes"
  sx_check_plugin :: "bytes \<Rightarrow> bytes \<Rightarrow> bool"
  sx_check_coin_meta :: "bytes \<Rightarrow> bytes \<Rightarrow> bool"
  sx_valid_keyId :: uint8
  sx_cfg :: chain_config
  sx_networks :: "network_info list"
  sx_present :: "string \<Rightarrow> bool"

definition MIN_DER_SIG_SIZE :: uint8 where "MIN_DER_SIG_SIZE = 67"
definition MAX_DER_SIG_SIZE :: uint8 where "MAX_DER_SIG_SIZE = 72"
definition PROD_PLUGIN_KEY :: uint8 where "PROD_PLUGIN_KEY = 2"

definition get_plugin_type :: "string \<Rightarrow> uint8 \<Rightarrow> pluginType" where
  "get_plugin_type name n =
     (if n = 6 \<and> name = ''ERC721'' then PLUGIN_TYPE_ERC721
      else if n = 7 \<and> name = ''ERC1155'' then PLUGIN_TYPE_ERC1155
      else PLUGIN_TYPE_EXTERNAL)"

definition set_swap_with_calldata_plugin_type :: "'c plugin_state \<Rightarrow> 'c plugin_state" where
  "set_swap_with_calldata_plugin_type p = p\<lparr>plugin_type := PLUGIN_TYPE_SWAP_WITH_CALLDATA\<rparr>"

text \<open>The part after the signature.\<close>

definition set_plugin_commit :: "set_plugin_env \<Rightarrow> uint8 \<Rightarrow> uint8 \<Rightarrow> 'c plugin_state \<Rightarrow> sw \<times> 'c plugin_state" where
  "set_plugin_commit X keyId n p =
     (let p = p\<lparr>plugin_type := get_plugin_type (pluginName p) n\<rparr>
      in if keyId = PROD_PLUGIN_KEY \<and> plugin_type p \<noteq> PLUGIN_TYPE_ERC721 \<and> plugin_type p \<noteq> PLUGIN_TYPE_ERC1155
         then (SWO_INCORRECT_DATA, p)
         else if plugin_type p = PLUGIN_TYPE_EXTERNAL \<and> \<not> sx_present X (pluginName p)
         then (SWO_FILE_NOT_FOUND, p\<lparr>pluginName := []\<rparr>)
         else (SWO_SUCCESS, p))"

text \<open>The end of the payload and the signature.\<close>

definition set_plugin_signature ::
  "set_plugin_env \<Rightarrow> bytes \<Rightarrow> uint8 \<Rightarrow> nat \<Rightarrow> uint8 \<Rightarrow> 'c plugin_state \<Rightarrow> (sw \<times> 'c plugin_state) option" where
  "set_plugin_signature X workBuffer data_len payloadSize n p = do {
     keyId \<leftarrow> rd workBuffer (payloadSize - 2);
     algo \<leftarrow> rd workBuffer (payloadSize - 1);
     if keyId \<noteq> sx_valid_keyId X then Some (SWO_INCORRECT_DATA, p)
     else if algo \<noteq> 1 then Some (SWO_INCORRECT_DATA, p)
     else do {
       signed \<leftarrow> rd_n workBuffer 0 payloadSize;
       if unat data_len < payloadSize + 1 then Some (SWO_INCORRECT_DATA, p)
       else do {
         signatureLen \<leftarrow> rd workBuffer payloadSize;
         if signatureLen < MIN_DER_SIG_SIZE \<or> MAX_DER_SIG_SIZE < signatureLen then Some (SWO_INCORRECT_DATA, p)
         else if unat data_len < payloadSize + 1 + unat signatureLen then Some (SWO_INCORRECT_DATA, p)
         else do {
           sig \<leftarrow> rd_n workBuffer (payloadSize + 1) (unat signatureLen);
           if \<not> sx_check_plugin X (sx_sha256 X signed) sig then Some (SWO_INCORRECT_DATA, p)
           else Some (set_plugin_commit X keyId n p) } } } }"

definition handle_set_plugin ::
  "set_plugin_env \<Rightarrow> app_state \<Rightarrow> bytes \<Rightarrow> uint8 \<Rightarrow> 'c plugin_state \<Rightarrow> (sw \<times> 'c plugin_state) option" where
  "handle_set_plugin X app workBuffer data_len p =
     (if app \<noteq> APP_STATE_IDLE then Some (SWO_COMMAND_NOT_ALLOWED, p)
      else if unat data_len \<le> 3 then Some (SWO_INCORRECT_DATA, p)
      else do {
        ty \<leftarrow> rd workBuffer 0;
        version \<leftarrow> rd workBuffer 1;
        n \<leftarrow> rd workBuffer 2;
        if ty \<noteq> 1 then Some (SWO_INCORRECT_DATA, p)
        else if version \<noteq> 1 then Some (SWO_INCORRECT_DATA, p)
        else
          (let payloadSize = 3 + unat n + ADDRESS_LENGTH + 4 + 8 + 1 + 1
           in if unat data_len < payloadSize then Some (SWO_INCORRECT_DATA, p)
              else if PLUGIN_ID_LENGTH < unat n + 1 then Some (SWO_INCORRECT_DATA, p)
              else do {
                name \<leftarrow> rd_n workBuffer 3 (unat n);
                address \<leftarrow> rd_n workBuffer (3 + unat n) ADDRESS_LENGTH;
                sel \<leftarrow> rd_n workBuffer (3 + unat n + 20) 4;
                cid \<leftarrow> rd_n workBuffer (3 + unat n + 24) 8;
                let p = p\<lparr>pluginName := buf_string name, contractAddress := address, methodSelector := sel\<rparr>;
                let chain_id = u64_from_BE cid;
                if \<not> app_compatible_with_chain_id (sx_cfg X) (sx_networks X) chain_id then Some (SWO_INCORRECT_DATA, p)
                else set_plugin_signature X workBuffer data_len payloadSize n (p\<lparr>pluginChainId := chain_id\<rparr>) }) })"

definition handle_set_external_plugin ::
  "set_plugin_env \<Rightarrow> app_state \<Rightarrow> bytes option \<Rightarrow> uint8 \<Rightarrow> 'c plugin_state \<Rightarrow> (sw \<times> 'c plugin_state) option" where
  "handle_set_external_plugin X app workBuffer data_len p =
     (if app \<noteq> APP_STATE_IDLE then Some (SWO_COMMAND_NOT_ALLOWED, p)
      else (case workBuffer of
              None \<Rightarrow> Some (SWO_INCORRECT_DATA, p)
            | Some buf \<Rightarrow>
                if data_len = 0 then Some (SWO_INCORRECT_DATA, p)
                else do {
                  n \<leftarrow> rd buf 0;
                  if n = 0 then Some (SWO_INCORRECT_DATA, p)
                  else
                    (let payload_size = 1 + unat n + ADDRESS_LENGTH + 4
                     in if unat data_len \<le> payload_size then Some (SWO_INCORRECT_DATA, p)
                        else if PLUGIN_ID_LENGTH < unat n + 1 then Some (SWO_INCORRECT_DATA, p)
                        else do {
                          signed \<leftarrow> rd_n buf 0 payload_size;
                          sig \<leftarrow> rd_n buf payload_size (unat data_len - payload_size);
                          if \<not> sx_check_coin_meta X (sx_sha256 X signed) sig then Some (SWO_INCORRECT_DATA, p)
                          else do {
                            name \<leftarrow> rd_n buf 1 (unat n);
                            let p = p\<lparr>pluginName := buf_string name\<rparr>;
                            if \<not> sx_present X (pluginName p) then Some (SWO_FILE_NOT_FOUND, p\<lparr>pluginName := []\<rparr>)
                            else do {
                              address \<leftarrow> rd_n buf (1 + unat n) ADDRESS_LENGTH;
                              sel \<leftarrow> rd_n buf (1 + unat n + ADDRESS_LENGTH) 4;
                              Some (SWO_SUCCESS, p\<lparr>plugin_type := PLUGIN_TYPE_EXTERNAL, contractAddress := address, methodSelector := sel,
                                                     pluginChainId := PLUGIN_CHAIN_ID_ANY\<rparr>) } } }) }))"

section \<open>Only what was signed is registered\<close>

definition plugin_message :: "bytes \<Rightarrow> bytes \<Rightarrow> bytes \<Rightarrow> bytes \<Rightarrow> uint8 \<Rightarrow> bytes" where
  "plugin_message name address sel cid key = [1, 1, word_of_nat (length name)] @ name @ address @ sel @ cid @ [key, 1]"

definition external_message :: "bytes \<Rightarrow> bytes \<Rightarrow> bytes \<Rightarrow> bytes" where
  "external_message name address sel = word_of_nat (length name) # name @ address @ sel"

text \<open>What is registered.\<close>

definition registered :: "'c plugin_state \<Rightarrow> bytes \<Rightarrow> bytes \<Rightarrow> bytes \<Rightarrow> uint64 \<Rightarrow> bool" where
  "registered p name address sel chain \<longleftrightarrow>
     pluginName p = buf_string name \<and> contractAddress p = address \<and> methodSelector p = sel \<and> pluginChainId p = chain"

lemma set_plugin_commit_success:
  "set_plugin_commit X key n p = (SWO_SUCCESS, p') \<Longrightarrow>
   p' = p\<lparr>plugin_type := get_plugin_type (pluginName p) n\<rparr> \<and>
   (key = PROD_PLUGIN_KEY \<longrightarrow> plugin_type p' \<in> {PLUGIN_TYPE_ERC721, PLUGIN_TYPE_ERC1155}) \<and>
   (plugin_type p' = PLUGIN_TYPE_EXTERNAL \<longrightarrow> sx_present X (pluginName p'))"
  by (auto simp: set_plugin_commit_def Let_def split: if_splits)

lemma set_plugin_signed:
  assumes h: "handle_set_plugin X app buf len p = Some (SWO_SUCCESS, p')" and len: "length buf = unat len"
  shows "\<exists>name address sel cid sig rest. buf = plugin_message name address sel cid (sx_valid_keyId X) @ word_of_nat (length sig) # sig @ rest \<and>
     length address = ADDRESS_LENGTH \<and> length sel = 4 \<and> length cid = 8 \<and> length name < PLUGIN_ID_LENGTH \<and>
     sx_check_plugin X (sx_sha256 X (plugin_message name address sel cid (sx_valid_keyId X))) sig \<and>
     registered p' name address sel (u64_from_BE cid) \<and>
     app_compatible_with_chain_id (sx_cfg X) (sx_networks X) (u64_from_BE cid) \<and>
     plugin_type p' = get_plugin_type (buf_string name) (word_of_nat (length name)) \<and>
     (sx_valid_keyId X = PROD_PLUGIN_KEY \<longrightarrow> plugin_type p' \<in> {PLUGIN_TYPE_ERC721, PLUGIN_TYPE_ERC1155})"
proof -
  from h obtain n name address sel cid p1 where
    b: "rd buf 0 = Some 1" "rd buf 1 = Some 1" "rd buf 2 = Some n" "unat n + 1 \<le> PLUGIN_ID_LENGTH"
    and t: "rd_n buf 3 (unat n) = Some name" and ad: "rd_n buf (3 + unat n) 20 = Some address"
    and se: "rd_n buf (3 + unat n + 20) 4 = Some sel" and ci: "rd_n buf (3 + unat n + 24) 8 = Some cid"
    and cc: "app_compatible_with_chain_id (sx_cfg X) (sx_networks X) (u64_from_BE cid)"
    and p1: "p1 = p\<lparr>pluginName := buf_string name, contractAddress := address, methodSelector := sel, pluginChainId := u64_from_BE cid\<rparr>"
    and sg: "set_plugin_signature X buf len (37 + unat n) n p1 = Some (SWO_SUCCESS, p')"
    by (auto simp: handle_set_plugin_def Let_def not_less bind_eq_Some_conv split: if_splits)
  from sg obtain signed sl sig where
    k: "rd buf (35 + unat n) = Some (sx_valid_keyId X)" "rd buf (36 + unat n) = Some 1"
    and sd: "rd_n buf 0 (37 + unat n) = Some signed"
    and sl: "rd buf (37 + unat n) = Some sl"
    and sig: "rd_n buf (38 + unat n) (unat sl) = Some sig"
    and ck: "sx_check_plugin X (sx_sha256 X signed) sig"
    and cm: "set_plugin_commit X (sx_valid_keyId X) n p1 = (SWO_SUCCESS, p')"
    by (auto simp: set_plugin_signature_def not_less bind_eq_Some_conv split: if_splits)
  have lt: "length name = unat n" "length address = 20" "length sel = 4" "length cid = 8" "length sig = unat sl"
    using rd_n_length [OF t] rd_n_length [OF ad] rd_n_length [OF se] rd_n_length [OF ci] rd_n_length [OF sig] by simp_all
  have s3: "drop (3 + unat n) buf = address @ sel @ cid @ [sx_valid_keyId X, 1] @ sl # sig @ drop (38 + unat n + unat sl) buf"
    using rd_n_split [OF ad] rd_n_split [OF se] rd_n_split [OF ci] rd_split [OF k(1)] rd_split [OF k(2)] rd_split [OF sl] rd_n_split [OF sig]
    by (simp add: add.commute)
  have d: "buf = plugin_message name address sel cid (sx_valid_keyId X) @ word_of_nat (length sig) # sig @ drop (38 + unat n + unat sl) buf"
    using rd_split [OF b(1)] rd_split [OF b(2)] rd_split [OF b(3)] rd_n_split [OF t] s3 lt
    by (simp add: plugin_message_def numeral_3_eq_3 numeral_2_eq_2)
  have "signed = take (length (plugin_message name address sel cid (sx_valid_keyId X))) buf"
    using sd lt by (auto simp: rd_n_def plugin_message_def ac_simps split: if_splits)
  also have "\<dots> = plugin_message name address sel cid (sx_valid_keyId X)" by (subst d) simp
  finally have s: "signed = plugin_message name address sel cid (sx_valid_keyId X)" .
  note c = set_plugin_commit_success [OF cm]
  then have e: "p' = p1\<lparr>plugin_type := get_plugin_type (buf_string name) n\<rparr>" by (simp add: p1)
  have r: "registered p' name address sel (u64_from_BE cid)" "plugin_type p' = get_plugin_type (buf_string name) (word_of_nat (length name))"
    using lt(1) by (simp_all add: e registered_def p1)
  have r3: "sx_valid_keyId X = PROD_PLUGIN_KEY \<longrightarrow> plugin_type p' \<in> {PLUGIN_TYPE_ERC721, PLUGIN_TYPE_ERC1155}" using c by blast
  show ?thesis
  proof (intro exI conjI)
    show "buf = plugin_message name address sel cid (sx_valid_keyId X) @ word_of_nat (length sig) # sig @ drop (38 + unat n + unat sl) buf"
      by (rule d)
  qed (use lt b(4) ck [unfolded s] r r3 cc in simp_all)
qed

lemma set_external_plugin_signed:
  assumes h: "handle_set_external_plugin X app (Some buf) len p = Some (SWO_SUCCESS, p')" and len: "length buf = unat len"
  shows "\<exists>name address sel sig. buf = external_message name address sel @ sig \<and> sig \<noteq> [] \<and> name \<noteq> [] \<and>
     length address = ADDRESS_LENGTH \<and> length sel = 4 \<and> length name < PLUGIN_ID_LENGTH \<and>
     sx_check_coin_meta X (sx_sha256 X (external_message name address sel)) sig \<and>
     registered p' name address sel PLUGIN_CHAIN_ID_ANY \<and> plugin_type p' = PLUGIN_TYPE_EXTERNAL"
proof -
  from h obtain n name address sel signed sig where
    b: "rd buf 0 = Some n" "n \<noteq> 0" "unat n + 1 \<le> PLUGIN_ID_LENGTH" "\<not> unat len \<le> 1 + unat n + 20 + 4"
    and sd: "rd_n buf 0 (1 + unat n + 20 + 4) = Some signed"
    and sig: "rd_n buf (1 + unat n + 20 + 4) (unat len - (1 + unat n + 20 + 4)) = Some sig"
    and t: "rd_n buf 1 (unat n) = Some name" and ad: "rd_n buf (1 + unat n) 20 = Some address"
    and se: "rd_n buf (1 + unat n + 20) 4 = Some sel"
    and ck: "sx_check_coin_meta X (sx_sha256 X signed) sig"
    and p': "p' = p\<lparr>pluginName := buf_string name, plugin_type := PLUGIN_TYPE_EXTERNAL, contractAddress := address,
               methodSelector := sel, pluginChainId := PLUGIN_CHAIN_ID_ANY\<rparr>"
    by (auto simp: handle_set_external_plugin_def Let_def not_less bind_eq_Some_conv split: if_splits)
  have lt: "length name = unat n" "length address = 20" "length sel = 4"
    using rd_n_length [OF t] rd_n_length [OF ad] rd_n_length [OF se] by simp_all
  have e: "drop (1 + unat n + 20 + 4) buf = sig" using sig len by (auto simp: rd_n_def split: if_splits)
  have ne: "sig \<noteq> []" using rd_n_length [OF sig] b(4) by auto
  have d: "buf = external_message name address sel @ sig"
    using rd_split [OF b(1)] rd_n_split [OF t] rd_n_split [OF ad] rd_n_split [OF se] e lt by (simp add: external_message_def)
  have "signed = take (length (external_message name address sel)) buf"
    using sd lt by (auto simp: rd_n_def external_message_def ac_simps split: if_splits)
  also have "\<dots> = external_message name address sel" by (subst d) simp
  finally have s: "signed = external_message name address sel" .
  have nn: "name \<noteq> []" using lt(1) b(2) by (auto simp: unat_eq_0)
  show ?thesis
  proof (intro exI conjI)
    show "buf = external_message name address sel @ sig" by (rule d)
  qed (use ne nn lt b(3) ck [unfolded s] p' in \<open>simp_all add: registered_def\<close>)
qed

section \<open>A registered plugin runs only where it was registered for\<close>

lemma union_to_plugin_same [simp]:
  "plugin_type (union_to_plugin st p) = plugin_type p" "pluginChainId (union_to_plugin st p) = pluginChainId p"
  "plugin_ctx_mode (union_to_plugin st p) = PLUGIN_CTX_PLUGIN" "ps_swap (union_to_plugin st p) = ps_swap p"
  by (simp_all add: union_to_plugin_def)

lemma call_init_frame:
  "call_init E st ct n sel p = (r, q) \<Longrightarrow> plugin_type q = plugin_type p \<and> pluginChainId q = pluginChainId p \<and>
     plugin_ctx_mode q = plugin_ctx_mode p \<and> contractAddress q = contractAddress p \<and> methodSelector q = methodSelector p \<and> ps_swap q = ps_swap p"
  by (auto simp: call_init_def Let_def split: if_splits prod.splits pluginType.splits)

lemma call_init_refused: "\<not> plugin_successful st \<Longrightarrow> call_init E st ct n sel p = (st, p)"
  by (simp add: call_init_def)

lemma perform_init_call_frame:
  "perform_init_call E st ct sel n p = (r, q) \<Longrightarrow> plugin_type q = plugin_type p \<and> pluginChainId q = pluginChainId p \<and>
     plugin_ctx_mode q = PLUGIN_CTX_PLUGIN \<and> ps_swap q = ps_swap p \<and>
     (plugin_successful st \<longrightarrow> contractAddress q = [] \<and> methodSelector q = [])"
  by (auto simp: perform_init_call_def union_to_plugin_def dest!: call_init_frame split: prod.splits if_splits)

abbreviation registered_types :: "pluginType set" where
  "registered_types \<equiv> {PLUGIN_TYPE_EXTERNAL, PLUGIN_TYPE_ERC721, PLUGIN_TYPE_ERC1155}"

lemma registered_init:
  "plugin_type p \<in> registered_types \<Longrightarrow> eth_plugin_perform_init E ct tx_chain sel n p =
     perform_init_call E (eth_plugin_perform_init_default (destination ct) sel tx_chain p) ct sel n p"
  by (auto simp: eth_plugin_perform_init_def)

lemma registered_plugin_binding:
  assumes h: "eth_plugin_perform_init E ct tx_chain sel dataSize p = (r, p')" and ok: "plugin_successful r"
    and ty: "plugin_type p \<in> registered_types"
  shows "destination ct = contractAddress p \<and> sel = methodSelector p \<and> plugin_ctx_mode p = PLUGIN_CTX_ADDR_SEL \<and>
    (pluginChainId p = PLUGIN_CHAIN_ID_ANY \<or> tx_chain = 0 \<or> tx_chain = pluginChainId p) \<and>
    plugin_ctx_mode p' = PLUGIN_CTX_PLUGIN \<and> plugin_type p' = plugin_type p \<and> pluginChainId p' = pluginChainId p \<and>
    contractAddress p' = [] \<and> methodSelector p' = []"
proof -
  let ?st = "eth_plugin_perform_init_default (destination ct) sel tx_chain p"
  have c: "perform_init_call E ?st ct sel dataSize p = (r, p')" using h registered_init [OF ty] by simp
  have st: "plugin_successful ?st"
  proof (rule ccontr)
    assume n: "\<not> plugin_successful ?st"
    then have "r = ?st" using c by (simp add: perform_init_call_def call_init_refused)
    with n ok show False by simp
  qed
  have m: "plugin_ctx_mode p = PLUGIN_CTX_ADDR_SEL"
    using st by (cases "plugin_ctx_mode p") (auto simp: eth_plugin_perform_init_default_def plugin_successful_def split: if_splits)
  show ?thesis using st m perform_init_call_frame [OF c]
    by (auto simp: eth_plugin_perform_init_default_def plugin_successful_def split: if_splits)
qed

text \<open>A plugin is started once: the second attempt is answered with an error or, for another chain, with "unavailable".\<close>

lemma second_init_refused:
  assumes "plugin_ctx_mode p = PLUGIN_CTX_PLUGIN" and ty: "plugin_type p \<in> registered_types"
  shows "\<not> plugin_successful (fst (eth_plugin_perform_init E ct tx_chain sel n p))"
proof -
  have "\<not> plugin_successful (eth_plugin_perform_init_default (destination ct) sel tx_chain p)"
    using assms(1) by (simp add: eth_plugin_perform_init_default_def plugin_successful_def)
  then show ?thesis using registered_init [OF ty] by (simp add: perform_init_call_def call_init_refused)
qed

end
