(* ===== verification/Sign_State.thy ===== *)
theory Sign_State
  imports Ustream_Loop Tx_Info_Inv App_Context Set_Plugin
begin

text \<open>
  The state of the signing of a transaction, shared by the command (\<open>Sign_Tx\<close>) and the preparation of the review
  (\<open>Finalize\<close>), with \<open>reset_app_context_ex\<close> of \<open>src/app_context.c\<close> as far as it concerns this state and
  \<open>io_seproxyhal_send_status\<close> of \<open>src/main.c\<close>.

  The parser (\<open>Ustream\<close>) carries the state of the plugins (\<open>Plugin_State\<close>) and of the contexts (\<open>Tx_Ctx\<close>).  The
  application state, the parked calldata and the memory are fields of the parser's state; the contexts see them through
  \<open>gcs_in\<close> and \<open>gcs_out\<close>.

  In a swap the strings of the promise are in \<open>swap_globals\<close>, outside of it the strings of the review are in
  \<open>review_strings\<close>; the code has both in \<open>strings.common\<close>, a union with the buffer \<open>strings.tmp\<close> in which the parser writes the
  contract data it shows.  \<open>show_data\<close> is that write as the two records see it: the selector of a call reaches the sender,
  a parameter also the recipient, in a swap the promised one.  Whether the
  application was called for a swap is a constant of a session: the one place that clears the flag also ends the session.
\<close>

section \<open>State\<close>

type_synonym 'c tx_state = "('c plugin_state \<times> gcs) txs"

record review_strings =
  fromAddress :: string
  fromAddressRaw :: bytes
  toAddress :: string
  fullAmount :: string
  maxFee :: string
  nonce_string :: string
  network_name :: string

definition review_zero :: review_strings where
  "review_zero = \<lparr>fromAddress = [], fromAddressRaw = replicate ADDRESS_LENGTH 0, toAddress = [], fullAmount = [], maxFee = [],
     nonce_string = [], network_name = []\<rparr>"

text \<open>\<open>under_review\<close> is the screen shown for approval, if any, with the flag that selects the plugin's items;
  \<open>sent\<close> are the responses sent, with their data.\<close>

record 'c sign_state =
  st_tx :: "'c tx_state"
  sign_mode :: uint8
  st_bip32 :: bip32_path_t
  tx_hash :: bytes
  g_tx_hash_ctx :: bool
  hash_mem :: mem
  review :: review_strings
  under_review :: "bool option"
  sent :: "(sw \<times> bytes) list"

text \<open>Parameters: the environments of the parser, the contexts and the plugins, and the functions of the SDK and of the
  screens.  An error of a cryptographic function is a status word.\<close>

record 'c sign_platform =
  sp_env :: "('c plugin_state \<times> gcs) tx_env"
  sp_gcs :: gcs_env
  sp_plugins :: "'c plugin_env"
  sp_ui_gcs :: bool
  sp_ux_approve :: "bool \<Rightarrow> 'c sign_state \<Rightarrow> sw"
  sp_bip32_path_read :: "bytes \<Rightarrow> nat \<Rightarrow> nat \<Rightarrow> uint32 list option"
  sp_addr :: nat
  sp_v_size :: nat
  sp_hash_final :: "bytes \<Rightarrow> sw + bytes"
  sp_derive :: "bip32_path_t \<Rightarrow> sw + bytes"
  sp_address_of_key :: "bytes \<Rightarrow> bytes"
  sp_sign :: "bip32_path_t \<Rightarrow> bytes \<Rightarrow> (bytes \<times> bool \<times> bool) option"
  sp_send_ok :: "bytes \<Rightarrow> bool"
  sp_cx :: cx_mult
  sp_adjustDecimals :: "string \<Rightarrow> nat \<Rightarrow> nat \<Rightarrow> string option"
  sp_format_u64 :: "nat \<Rightarrow> uint64 \<Rightarrow> string option"
  sp_exception_overflow :: nat
  sp_not_supported :: nat

definition called_from_swap :: "'c sign_platform \<Rightarrow> bool" where
  "called_from_swap S = pe_called_from_swap (sp_plugins S)"

definition plugins_of :: "'c sign_state \<Rightarrow> 'c plugin_state" where
  "plugins_of s = fst (plug (st_tx s))"

definition set_plugins :: "'c plugin_state \<Rightarrow> 'c sign_state \<Rightarrow> 'c sign_state" where
  "set_plugins p s = s\<lparr>st_tx := (st_tx s)\<lparr>plug := (p, snd (plug (st_tx s)))\<rparr>\<rparr>"

definition swap_of :: "'c sign_state \<Rightarrow> swap_globals" where
  "swap_of s = ps_swap (plugins_of s)"

definition set_swap :: "swap_globals \<Rightarrow> 'c sign_state \<Rightarrow> 'c sign_state" where
  "set_swap g s = set_plugins ((plugins_of s)\<lparr>ps_swap := g\<rparr>) s"

section \<open>The contexts and the parser\<close>

text \<open>The contexts as their functions see them, and what they leave behind.\<close>

definition gcs_in :: "s_calldata option \<Rightarrow> mem \<Rightarrow> app_state \<Rightarrow> gcs \<Rightarrow> gcs" where
  "gcs_in cd m a g = g\<lparr>gcs_parked := cd, gcs_mem := m, gcs_appState := a\<rparr>"

definition tx_gcs :: "'c tx_state \<Rightarrow> gcs" where
  "tx_gcs t = gcs_in (g_parked_calldata t) (tx_mem t) (tx_appState t) (snd (plug t))"

definition gcs_out :: "gcs \<Rightarrow> 'c tx_state \<Rightarrow> 'c tx_state" where
  "gcs_out g t = t\<lparr>plug := (fst (plug t), g), g_parked_calldata := gcs_parked g, tx_mem := gcs_mem g\<rparr>"

definition ctx_init_call ::
  "gcs_env \<Rightarrow> s_calldata option \<Rightarrow> bytes \<Rightarrow> bytes \<Rightarrow> uint64 \<Rightarrow> 'p \<times> gcs \<Rightarrow> mem \<Rightarrow> (bool \<times> s_calldata option \<times> ('p \<times> gcs) \<times> mem) option" where
  "ctx_init_call G cd to am chain_id p m = do {
     (ok, g) \<leftarrow> tx_ctx_init G True cd None (Some to) (Some am) (Some chain_id) (gcs_in cd m APP_STATE_SIGNING_TX (snd p));
     Some (ok, gcs_parked g, (fst p, g), gcs_mem g) }"

definition on_plugins :: "('p \<Rightarrow> 'r \<times> 'p) \<Rightarrow> 'p \<times> gcs \<Rightarrow> 'r \<times> ('p \<times> gcs)" where
  "on_plugins f p = (case f (fst p) of (r, q) \<Rightarrow> (r, (q, snd p)))"

definition sign_env :: "'c sign_platform \<Rightarrow> ('c plugin_state \<times> gcs) tx_env" where
  "sign_env S =
     (sp_env S)\<lparr>env_called_from_swap := called_from_swap S,
                env_plugin_init := \<lambda>ct chain_id sel len. on_plugins (parser_plugin_init (sp_plugins S) ct chain_id sel len),
                env_plugin_parameter := \<lambda>ct d off n. on_plugins (parser_plugin_parameter (sp_plugins S) ct d off n),
                env_tx_ctx_init := ctx_init_call (sp_gcs S)\<rparr>"

section \<open>Reset\<close>

definition int256_zero :: txInt256 where
  "int256_zero = \<lparr>ivalue = replicate INT256_LENGTH 0, ilength = 0\<rparr>"

text \<open>\<open>memset\<close> of \<open>tmpContent\<close>.  The size of the array that holds \<open>v\<close> is a constant of the SDK.\<close>

definition content_zero :: "nat \<Rightarrow> txContent" where
  "content_zero v_size =
     \<lparr>gasprice = int256_zero, startgas = int256_zero, tvalue = int256_zero, tnonce = int256_zero, chainID = int256_zero,
      destination = replicate ADDRESS_LENGTH 0, destinationLength = 0, v = replicate v_size 0, vLength = 0, dataPresent = False\<rparr>"

text \<open>The globals of the plugins: \<open>memset\<close> of \<open>dataContext\<close>, the flags of a swap, the known assets.\<close>

definition plugins_reset :: "'c plugin_env \<Rightarrow> 'c plugin_state \<Rightarrow> 'c plugin_state" where
  "plugins_reset E p =
     p\<lparr>plugin_type := PLUGIN_TYPE_NONE, pluginName := [], plugin_ctx_mode := PLUGIN_CTX_ADDR_SEL,
       contractAddress := replicate ADDRESS_LENGTH 0, methodSelector := replicate 4 0, pluginChainId := 0,
       token_lookup1 := None, token_lookup2 := None, pluginUiMaxItems := 0,
       ctx_erc20 := erc20_zero, ctx_swap := swap_plugin_zero, ctx_other := pe_ctx_zero E,
       ps_swap := (ps_swap p)\<lparr>G_swap_checked := False, G_swap_calldata_validated := False, G_swap_response_ready := False\<rparr>,
       ps_assets := forget_known_assets (ps_assets p)\<rparr>"

text \<open>In a swap \<open>swap_abort_session\<close> answers Exchange and does not return.\<close>

definition sign_reset :: "'c sign_platform \<Rightarrow> 'c sign_state \<Rightarrow> 'c sign_state outcome" where
  "sign_reset S s =
     (if called_from_swap S then App_exit
      else
        (let t = st_tx s;
             t = t\<lparr>plug := (plugins_reset (sp_plugins S) (fst (plug t)), snd (plug t))\<rparr>;
             t = (if store_calldata t then gcs_out (gcs_cleanup (tx_gcs t)) t else t);
             t = t\<lparr>G_swap_tx_had_calldata := False, tk_data := replicate INT256_LENGTH 0, tk_fieldIndex := 0, tk_fieldOffset := 0,
                   tk_pluginStatus := ETH_PLUGIN_RESULT_ERROR, currentField := RLP_NONE, sha3 := [], currentFieldLength := 0,
                   currentFieldPos := 0, currentFieldIsList := False, processingField := False, fieldSingleByte := False,
                   dataLength := 0, rlpBuffer := replicate 5 0, rlpBufferPos := 0, payload := [], workPos := 0, commandLength := 0,
                   txType := 0, store_calldata := False, selector_bytes := replicate 4 0,
                   content := content_zero (sp_v_size S), tx_appState := APP_STATE_IDLE\<rparr>
         in Returns (s\<lparr>st_tx := t, sign_mode := 0, st_bip32 := \<lparr>bip32_length = 0, bip32_path = []\<rparr>,
              tx_hash := replicate INT256_LENGTH 0,
              g_tx_hash_ctx := False, hash_mem := (if g_tx_hash_ctx s then mem_free (hash_mem s) else hash_mem s),
              review := review_zero, under_review := None\<rparr>)))"

definition io_seproxyhal_send_status ::
  "'c sign_platform \<Rightarrow> sw \<Rightarrow> bytes \<Rightarrow> bool \<Rightarrow> 'c sign_state \<Rightarrow> (bool \<times> 'c sign_state) outcome" where
  "io_seproxyhal_send_status S sw data reset s =
     (case (if reset then sign_reset S s else Returns s) of
        Returns s \<Rightarrow> Returns (sp_send_ok S data, s\<lparr>sent := sent s @ [(sw, data)]\<rparr>)
      | App_exit \<Rightarrow> App_exit
      | Swap_done r \<Rightarrow> Swap_done r)"

text \<open>\<open>strings\<close> after a text and its terminator were written at its start.  The fields of \<open>txStringProperties_t\<close> begin at
  0 (\<open>fromAddress\<close>, 43 characters), 43 (\<open>fromAddressRaw\<close>, 20 bytes) and 63 (\<open>toAddress\<close>); the texts shown have at most 67
  characters.\<close>

definition from_raw_offset :: nat where "from_raw_offset = 43"
definition to_address_offset :: nat where "to_address_offset = from_raw_offset + ADDRESS_LENGTH"

definition overlap_string :: "string \<Rightarrow> nat \<Rightarrow> string \<Rightarrow> string" where
  "overlap_string txt off old = (if off \<le> length txt then drop off txt else old)"

definition overlap_bytes :: "string \<Rightarrow> nat \<Rightarrow> bytes \<Rightarrow> bytes" where
  "overlap_bytes txt off old =
     (let w = drop off (map (\<lambda>c. word_of_nat (of_char c)) (txt @ [NUL])) in take (length old) w @ drop (length w) old)"

definition show_data :: "'c sign_platform \<Rightarrow> 'c sign_state \<Rightarrow> 'c sign_state" where
  "show_data S s =
     (let txt = tmp_string (st_tx s); r = review s; g = swap_of s;
          s = s\<lparr>review := r\<lparr>fromAddress := txt, fromAddressRaw := overlap_bytes txt from_raw_offset (fromAddressRaw r),
                             toAddress := overlap_string txt to_address_offset (toAddress r)\<rparr>\<rparr>
      in if called_from_swap S then set_swap (g\<lparr>exp_toAddress := overlap_string txt to_address_offset (exp_toAddress g)\<rparr>) s
         else s)"

definition free_hash :: "'c sign_state \<Rightarrow> 'c sign_state" where
  "free_hash s = (if g_tx_hash_ctx s then s\<lparr>g_tx_hash_ctx := False, hash_mem := mem_free (hash_mem s)\<rparr> else s)"

end
