(* ===== verification/Finalize.thy ===== *)
theory Finalize
  imports Sign_State Uint256
begin

text \<open>
  Model of \<open>finalize_parsing\<close> of \<open>src/features/sign_tx/logic_sign_tx.c\<close>, which runs when the last field of a transaction
  has been parsed: it checks the chain, ends the hash, asks the plugin, compares the transaction with the promise of a swap
  or prepares the strings of the review, and starts the review, or signs at once in a swap.  With it
  \<open>src/features/sign_tx/ui_common_sign_tx.c\<close>, the signature.

  A stage of the function either goes on with a state or is over with an outcome; \<open>None\<close> is a memory fault.
\<close>

type_synonym 'c fin = "((sw \<times> 'c sign_state) outcome + 'c sign_state) option"

definition fbind :: "'c fin \<Rightarrow> ('c sign_state \<Rightarrow> 'c fin) \<Rightarrow> 'c fin" where
  "fbind m f = (case m of None \<Rightarrow> None | Some (Inl r) \<Rightarrow> Some (Inl r) | Some (Inr s) \<Rightarrow> f s)"

text \<open>The three ways to end: report an error and answer nothing more, go to the label \<open>end\<close>, and quit.\<close>

definition report_finalize_error :: "'c sign_platform \<Rightarrow> 'c sign_state \<Rightarrow> 'c fin" where
  "report_finalize_error S s =
     Some (Inl (case io_seproxyhal_send_status S SWO_INCORRECT_DATA [] True s of
                  Returns (_, s) \<Rightarrow> Returns (SWO_NO_RESPONSE, free_hash s)
                | App_exit \<Rightarrow> App_exit
                | Swap_done r \<Rightarrow> Swap_done r))"

definition fin_end :: "sw \<Rightarrow> 'c sign_state \<Rightarrow> 'c fin" where
  "fin_end sw s = Some (Inl (Returns (sw, free_hash s)))"

definition fin_exit :: "'c fin" where
  "fin_exit = Some (Inl App_exit)"

definition dyn_networks :: "'c sign_platform \<Rightarrow> network_info list" where
  "dyn_networks S = se_networks (pe_swap (sp_plugins S))"

definition app_cfg :: "'c sign_platform \<Rightarrow> chain_config" where
  "app_cfg S = pe_cfg (sp_plugins S)"

definition base_ticker :: "'c sign_platform \<Rightarrow> 'c sign_state \<Rightarrow> string" where
  "base_ticker S s = get_displayable_ticker (dyn_networks S) (get_tx_chain_id (st_tx s)) (app_cfg S) True"

section \<open>Strings\<close>

definition address_to_string :: "'c sign_platform \<Rightarrow> bytes \<Rightarrow> nat \<Rightarrow> nat \<Rightarrow> uint64 \<Rightarrow> string option" where
  "address_to_string S xs in_len out_len chainId =
     (if in_len \<noteq> 0 then pe_displayable_address (sp_plugins S) xs out_len chainId
      else Some (strlcpy out_len ''Contract''))"

definition raw_fee_to_string :: "'c sign_platform \<Rightarrow> string \<Rightarrow> uint256_t \<Rightarrow> nat \<Rightarrow> (string option) option" where
  "raw_fee_to_string S ticker rawFee out_size = do {
     (ok, raw) \<leftarrow> tostring256 rawFee 10 (replicate 100 NUL) 100;
     if \<not> ok then Some None
     else
       (let ticker_len = min (length ticker) (se_max_ticker (pe_swap (sp_plugins S)))
        in case sp_adjustDecimals S (c_str raw) out_size (unat WEI_DECIMALS) of
             None \<Rightarrow> Some None
           | Some out \<Rightarrow>
               if out_size < length out + 1 + ticker_len + 1 then Some None
               else Some (Some (strlcat out_size (strlcat out_size out '' '') ticker))) }"

text \<open>An empty RLP field is zero.\<close>

definition int256_of_rlp :: "txInt256 \<Rightarrow> (bool \<times> uint256_t) option" where
  "int256_of_rlp i =
     (if 0 < ilength i then convertUint256BE (Some (ivalue i)) (ucast (ilength i)) clear256 else Some (True, clear256))"

definition max_transaction_fee_to_string ::
  "'c sign_platform \<Rightarrow> string \<Rightarrow> txInt256 \<Rightarrow> txInt256 \<Rightarrow> nat \<Rightarrow> (string option) option" where
  "max_transaction_fee_to_string S ticker BEGasPrice BEGasLimit out_size = do {
     (ok, gasPrice) \<leftarrow> int256_of_rlp BEGasPrice;
     if \<not> ok then Some None
     else do {
       (ok, gasLimit) \<leftarrow> int256_of_rlp BEGasLimit;
       if \<not> ok then Some None
       else do {
         rawFee \<leftarrow> mul256 (sp_cx S) gasPrice gasLimit;
         case rawFee of
           None \<Rightarrow> Some None
         | Some rawFee \<Rightarrow> raw_fee_to_string S ticker rawFee out_size } } }"

definition nonce_to_string :: "txInt256 \<Rightarrow> uint32 \<Rightarrow> (string option) option" where
  "nonce_to_string nonce out_size = do {
     (ok, n) \<leftarrow> int256_of_rlp nonce;
     if \<not> ok then Some None
     else do {
       (ok, out) \<leftarrow> tostring256 n 10 (replicate (unat out_size) NUL) out_size;
       Some (if ok then Some (c_str out) else None) } }"

definition get_network_as_string :: "'c sign_platform \<Rightarrow> nat \<Rightarrow> 'c sign_state \<Rightarrow> string option" where
  "get_network_as_string S out_size s =
     get_network_as_string_from_chain_id (sp_format_u64 S) (dyn_networks S) out_size (get_tx_chain_id (st_tx s))"

definition get_public_key :: "'c sign_platform \<Rightarrow> bip32_path_t \<Rightarrow> nat \<Rightarrow> sw + bytes" where
  "get_public_key S path outLength =
     (if outLength < ADDRESS_LENGTH then Inl SWO_WRONG_DATA_LENGTH
      else (case sp_derive S path of Inl e \<Rightarrow> Inl e | Inr raw \<Rightarrow> Inr (sp_address_of_key S raw)))"

section \<open>The stages\<close>

definition finalize_chain :: "'c sign_platform \<Rightarrow> 'c sign_state \<Rightarrow> 'c fin" where
  "finalize_chain S s =
     (let chain_id = get_tx_chain_id (st_tx s)
      in if cfg_chain_id (app_cfg S) \<noteq> ETHEREUM_MAINNET_CHAINID \<and> cfg_chain_id (app_cfg S) \<noteq> chain_id
         then report_finalize_error S s
         else if called_from_swap S \<and> chain_id \<noteq> G_swap_expected_chain_id (swap_of s) then fin_exit
         else if txType (st_tx s) = LEGACY \<and> vLength (content (st_tx s)) = 0 then report_finalize_error S s
         else Some (Inr s))"

definition finalize_sender :: "'c sign_platform \<Rightarrow> 'c sign_state \<Rightarrow> 'c fin" where
  "finalize_sender S s =
     (if \<not> g_tx_hash_ctx s then fin_end SWO_INSUFFICIENT_MEMORY s
      else (case sp_hash_final S (sha3 (st_tx s)) of
              Inl e \<Rightarrow> fin_end e s
            | Inr h \<Rightarrow>
                (let s = s\<lparr>tx_hash := h\<rparr>
                 in case get_public_key S (st_bip32 s) ADDRESS_LENGTH of
                      Inl e \<Rightarrow> fin_end e s
                    | Inr msg_sender \<Rightarrow>
                        (let s = s\<lparr>review := (review s)\<lparr>fromAddressRaw := msg_sender\<rparr>\<rparr>
                         in case address_to_string S msg_sender ADDRESS_LENGTH 43 (cfg_chain_id (app_cfg S)) of
                              None \<Rightarrow> fin_end SWO_PARAMETER_ERROR_NO_INFO s
                            | Some a \<Rightarrow> Some (Inr (s\<lparr>review := (review s)\<lparr>fromAddress := a\<rparr>\<rparr>))))))"

definition set_data_present :: "bool \<Rightarrow> 'c sign_state \<Rightarrow> 'c sign_state" where
  "set_data_present b s = s\<lparr>st_tx := (st_tx s)\<lparr>content := (content (st_tx s))\<lparr>dataPresent := b\<rparr>\<rparr>\<rparr>"

text \<open>After the answers of the plugin: who shows the transaction.\<close>

definition finalize_ui :: "'c sign_platform \<Rightarrow> eth_plugin_result \<Rightarrow> bool \<Rightarrow> nat \<Rightarrow> 'c sign_state \<Rightarrow> 'c fin" where
  "finalize_ui S r ui_generic total_items s =
     (if r \<noteq> ETH_PLUGIN_RESULT_FALLBACK then
        (if \<not> ui_generic then report_finalize_error S s
         else if MAX_PLUGIN_UI_ITEMS < total_items then report_finalize_error S s
         else Some (Inr (set_plugins ((plugins_of s)\<lparr>pluginUiMaxItems := word_of_nat total_items\<rparr>) (set_data_present False s))))
      else if called_from_swap S \<and> G_swap_mode (swap_of s) = SWAP_MODE_CROSSCHAIN_SUCCESS then
        Some (Inr (set_swap ((swap_of s)\<lparr>G_swap_calldata_validated := True\<rparr>) (set_data_present False s)))
      else Some (Inr (set_plugins ((plugins_of s)\<lparr>plugin_type := PLUGIN_TYPE_NONE\<rparr>) s)))"

text \<open>The lookups asked for by the plugin.\<close>

definition finalize_info :: "'c sign_platform \<Rightarrow> plugin_finalize \<Rightarrow> 'c sign_state \<Rightarrow> 'c fin" where
  "finalize_info S f s =
     (let p = (plugins_of s)\<lparr>token_lookup1 := pf_tokenLookup1 f, token_lookup2 := pf_tokenLookup2 f\<rparr>;
          s = set_plugins p s;
          chain_id = get_tx_chain_id (st_tx s);
          item1 = get_matching_asset_info (plugin_type p) (Some chain_id) (token_lookup1 p) (ps_assets p);
          item2 = get_matching_asset_info (plugin_type p) (Some chain_id) (token_lookup2 p) (ps_assets p)
      in if token_lookup1 p \<noteq> None \<or> token_lookup2 p \<noteq> None then
           (case call_info (sp_plugins S) (tk_pluginStatus (st_tx s)) (content (st_tx s)) item1 item2 p of
              (r, i, p) \<Rightarrow>
                (let s = set_plugins p s
                 in if \<not> plugin_successful r then report_finalize_error S s
                    else finalize_ui S (pi_result i) (pf_ui_generic f) (unat (pf_numScreens f) + unat (pi_additionalScreens i)) s))
         else finalize_ui S (pf_result f) (pf_ui_generic f) (unat (pf_numScreens f)) s)"

definition finalize_plugin :: "'c sign_platform \<Rightarrow> 'c sign_state \<Rightarrow> 'c fin" where
  "finalize_plugin S s =
     (let p = plugins_of s; chain_id = get_tx_chain_id (st_tx s); status = tk_pluginStatus (st_tx s)
      in if plugin_successful status then
           (if pluginChainId p \<noteq> PLUGIN_CHAIN_ID_ANY \<and> pluginChainId p \<noteq> chain_id then report_finalize_error S s
            else
              (case call_finalize (sp_plugins S) status (content (st_tx s)) chain_id (fromAddressRaw (review s)) p of
                 None \<Rightarrow> None
               | Some App_exit \<Rightarrow> fin_exit
               | Some (Swap_done r) \<Rightarrow> Some (Inl (Swap_done r))
               | Some (Returns (r, f, p)) \<Rightarrow>
                   (let s = set_plugins p s
                    in if \<not> plugin_successful r then report_finalize_error S s else finalize_info S f s)))
         else if \<not> called_from_swap S \<and> plugin_type p \<noteq> PLUGIN_TYPE_NONE \<and> plugin_type p \<noteq> PLUGIN_TYPE_SWAP_WITH_CALLDATA then
           Some (Inr (set_plugins (p\<lparr>plugin_type := PLUGIN_TYPE_NONE, pluginUiMaxItems := 0\<rparr>) s))
         else Some (Inr s))"

definition finalize_swap_guards :: "'c sign_platform \<Rightarrow> 'c sign_state \<Rightarrow> 'c fin" where
  "finalize_swap_guards S s =
     (if called_from_swap S then
        (if G_swap_response_ready (swap_of s) then fin_exit
         else
           (let s = set_swap ((swap_of s)\<lparr>G_swap_response_ready := True\<rparr>) s
            in if plugin_type (plugins_of s) \<noteq> PLUGIN_TYPE_NONE \<and> plugin_type (plugins_of s) \<noteq> PLUGIN_TYPE_OLD_INTERNAL \<and>
                  plugin_type (plugins_of s) \<noteq> PLUGIN_TYPE_SWAP_WITH_CALLDATA then fin_exit
               else if G_swap_mode (swap_of s) \<noteq> SWAP_MODE_STANDARD \<and> G_swap_mode (swap_of s) \<noteq> SWAP_MODE_CROSSCHAIN_SUCCESS
               then fin_exit
               else Some (Inr s)))
      else Some (Inr s))"

definition finalize_blind :: "'c sign_platform \<Rightarrow> bool \<Rightarrow> 'c sign_state \<Rightarrow> 'c fin" where
  "finalize_blind S store s =
     (if \<not> store \<and> dataPresent (content (st_tx s)) \<and> \<not> env_dataAllowed (sp_env S) then
        (case report_finalize_error S s of
           Some (Inl (Returns (sw, s))) \<Rightarrow> Some (Inl (Returns (sw, s\<lparr>st_tx := (st_tx s)\<lparr>data_ui := Error_blind_signing\<rparr>\<rparr>)))
         | r \<Rightarrow> r)
      else Some (Inr s))"

definition finalize_amount :: "'c sign_platform \<Rightarrow> string \<Rightarrow> 'c sign_state \<Rightarrow> 'c fin" where
  "finalize_amount S ticker s =
     (let value256 = tvalue (content (st_tx s))
      in case rd_n (ivalue value256) 0 (unat (ilength value256)) of
           None \<Rightarrow> None
         | Some raw \<Rightarrow>
             (case se_amount_to_string (pe_swap (sp_plugins S)) raw (unat WEI_DECIMALS) ticker 50 of
                None \<Rightarrow> fin_end (SW_ERROR (sp_exception_overflow S)) s
              | Some am \<Rightarrow>
                  if called_from_swap S then
                    (case swap_check_value (swap_of s) am (ivalue value256) (ilength value256) of
                       None \<Rightarrow> None
                     | Some False \<Rightarrow> fin_exit
                     | Some True \<Rightarrow> Some (Inr (set_swap ((swap_of s)\<lparr>G_swap_checked := True\<rparr>) s)))
                  else
                    Some (Inr (set_swap ((swap_of s)\<lparr>G_swap_checked := True\<rparr>)
                      (s\<lparr>review := (review s)\<lparr>fullAmount := strlcpy (FULL_AMOUNT_SIZE (pe_swap (sp_plugins S))) am\<rparr>\<rparr>)))))"

definition finalize_destination :: "'c sign_platform \<Rightarrow> string \<Rightarrow> 'c sign_state \<Rightarrow> 'c fin" where
  "finalize_destination S ticker s =
     (if plugin_type (plugins_of s) = PLUGIN_TYPE_NONE \<or> plugin_type (plugins_of s) = PLUGIN_TYPE_SWAP_WITH_CALLDATA then
        (case address_to_string S (destination (content (st_tx s))) (unat (destinationLength (content (st_tx s)))) 50
                (cfg_chain_id (app_cfg S)) of
           None \<Rightarrow> fin_end SWO_PARAMETER_ERROR_NO_INFO s
         | Some to \<Rightarrow>
             if called_from_swap S then
               (if \<not> swap_check_destination (swap_of s) to then fin_exit else finalize_amount S ticker s)
             else finalize_amount S ticker (s\<lparr>review := (review s)\<lparr>toAddress := strlcpy 43 to\<rparr>\<rparr>))
      else Some (Inr s))"

definition finalize_fee :: "'c sign_platform \<Rightarrow> string \<Rightarrow> 'c sign_state \<Rightarrow> 'c fin" where
  "finalize_fee S ticker s =
     (case max_transaction_fee_to_string S ticker (gasprice (content (st_tx s))) (startgas (content (st_tx s))) MAX_FEE_SIZE of
        None \<Rightarrow> None
      | Some None \<Rightarrow> fin_end SWO_INCORRECT_DATA s
      | Some (Some fee) \<Rightarrow>
          if called_from_swap S then (if \<not> swap_check_fee (swap_of s) fee then fin_exit else Some (Inr s))
          else Some (Inr (s\<lparr>review := (review s)\<lparr>maxFee := strlcpy MAX_FEE_SIZE fee\<rparr>\<rparr>)))"

definition finalize_nonce_network :: "'c sign_platform \<Rightarrow> 'c sign_state \<Rightarrow> 'c fin" where
  "finalize_nonce_network S s =
     (case nonce_to_string (tnonce (content (st_tx s))) 21 of
        None \<Rightarrow> None
      | Some None \<Rightarrow> fin_end SWO_INCORRECT_DATA s
      | Some (Some n) \<Rightarrow>
          (let s = s\<lparr>review := (review s)\<lparr>nonce_string := n\<rparr>\<rparr>
           in case get_network_as_string S 20 s of
                None \<Rightarrow> fin_end SWO_INCORRECT_DATA s
              | Some w \<Rightarrow> Some (Inr (s\<lparr>review := (review s)\<lparr>network_name := w\<rparr>\<rparr>))))"

section \<open>The whole\<close>

text \<open>\<open>ticker\<close> is read once, at the beginning.\<close>

definition finalize_stages :: "'c sign_platform \<Rightarrow> bool \<Rightarrow> 'c sign_state \<Rightarrow> 'c fin" where
  "finalize_stages S store s =
     (let ticker = base_ticker S s
      in fbind (finalize_chain S s) (\<lambda>s.
         fbind (finalize_sender S s) (\<lambda>s.
         fbind (finalize_plugin S s) (\<lambda>s.
         fbind (finalize_swap_guards S s) (\<lambda>s.
         fbind (finalize_blind S store s) (\<lambda>s.
         fbind (finalize_destination S ticker s) (\<lambda>s.
         fbind (finalize_fee S ticker s) (finalize_nonce_network S))))))))"

definition finalize_parsing_helper :: "'c sign_platform \<Rightarrow> bool \<Rightarrow> 'c sign_state \<Rightarrow> (sw \<times> 'c sign_state) outcome option" where
  "finalize_parsing_helper S store s =
     map_option (\<lambda>r. case r of Inl out \<Rightarrow> out | Inr s \<Rightarrow> Returns (SWO_SUCCESS, free_hash s)) (finalize_stages S store s)"

section \<open>The signature\<close>

definition signature_v :: "'c sign_state \<Rightarrow> bool \<Rightarrow> bool \<Rightarrow> uint8" where
  "signature_v s parity_odd xGTn =
     (if txType (st_tx s) \<in> {EIP1559, EIP2930, EIP7702} then (if parity_odd then 1 else 0)
      else
        (let c = content (st_tx s);
             base = (if vLength c = 0 then 27
                     else (let w = (ucast (u64_from_BE (take (min 4 (unat (vLength c))) (v c))) :: uint32)
                           in ucast (ucast w * 2 + 35 :: uint64)));
             base = (if parity_odd then base + 1 else base)
         in if xGTn then base + 2 else base))"

definition io_seproxyhal_touch_tx_ok :: "'c sign_platform \<Rightarrow> 'c sign_state \<Rightarrow> 'c sign_state outcome" where
  "io_seproxyhal_touch_tx_ok S s =
     (if tx_appState (st_tx s) \<noteq> APP_STATE_SIGNING_TX then
        (case io_seproxyhal_send_status S SWO_CONDITIONS_NOT_SATISFIED [] True s of
           Returns (_, s) \<Rightarrow> Returns s
         | App_exit \<Rightarrow> App_exit
         | Swap_done r \<Rightarrow> Swap_done r)
      else (case sp_sign S (st_bip32 s) (tx_hash s) of
              None \<Rightarrow> App_exit
            | Some (rs, parity_odd, xGTn) \<Rightarrow>
                (let resp = signature_v s parity_odd xGTn # rs
                 in case io_seproxyhal_send_status S SWO_SUCCESS resp False s of
                      Returns (ok, s) \<Rightarrow> if called_from_swap S then (if ok then Swap_done resp else App_exit) else sign_reset S s
                    | App_exit \<Rightarrow> App_exit
                    | Swap_done r \<Rightarrow> Swap_done r)))"

definition io_seproxyhal_touch_tx_cancel :: "'c sign_platform \<Rightarrow> 'c sign_state \<Rightarrow> 'c sign_state outcome" where
  "io_seproxyhal_touch_tx_cancel S s =
     (case io_seproxyhal_send_status S SWO_CONDITIONS_NOT_SATISFIED [] True s of
        Returns (_, s) \<Rightarrow> Returns s
      | App_exit \<Rightarrow> App_exit
      | Swap_done r \<Rightarrow> Swap_done r)"

definition start_signature_flow :: "'c sign_platform \<Rightarrow> 'c sign_state \<Rightarrow> sw \<times> 'c sign_state" where
  "start_signature_flow S s =
     (let from_plugin = (plugin_type (plugins_of s) \<noteq> PLUGIN_TYPE_NONE)
      in (sp_ux_approve S from_plugin s, s\<lparr>under_review := Some from_plugin\<rparr>))"

text \<open>The root calldata is the one of the first context.\<close>

definition root_selector_ready :: "'c sign_state \<Rightarrow> bool" where
  "root_selector_ready s =
     (case get_root_calldata (tx_gcs (st_tx s)) of
        None \<Rightarrow> False
      | Some cd \<Rightarrow> calldata_get_selector (Some cd) \<noteq> None)"

definition finalize_parsing :: "'c sign_platform \<Rightarrow> 'c sign_state \<Rightarrow> (sw \<times> 'c sign_state) outcome option" where
  "finalize_parsing S s0 =
     (case finalize_parsing_helper S (store_calldata (st_tx s0)) s0 of
        None \<Rightarrow> None
      | Some App_exit \<Rightarrow> Some App_exit
      | Some (Swap_done r) \<Rightarrow> Some (Swap_done r)
      | Some (Returns (sw, s)) \<Rightarrow>
          if sw \<noteq> SWO_SUCCESS then Some (Returns (sw, s))
          else if store_calldata (st_tx s) then
            Some (Returns (if root_selector_ready s then SWO_SUCCESS else SWO_INCORRECT_DATA, s))
          else if called_from_swap S \<and>
                  (plugin_type (plugins_of s) = PLUGIN_TYPE_NONE \<or> plugin_type (plugins_of s) = PLUGIN_TYPE_OLD_INTERNAL \<or>
                   plugin_type (plugins_of s) = PLUGIN_TYPE_SWAP_WITH_CALLDATA) then
            (if \<not> G_swap_checked (swap_of s) then Some App_exit
             else if G_swap_tx_had_calldata (st_tx s) \<and> \<not> G_swap_calldata_validated (swap_of s) then Some App_exit
             else Some (case io_seproxyhal_touch_tx_ok S s of
                          Returns s \<Rightarrow> Returns (SWO_SUCCESS, s)
                        | App_exit \<Rightarrow> App_exit
                        | Swap_done r \<Rightarrow> Swap_done r))
          else Some (Returns (start_signature_flow S s)))"

end
