(* ===== verification/Sign_Tx.thy ===== *)
theory Sign_Tx
  imports Finalize
begin

text \<open>
  Model of \<open>src/features/sign_tx/cmd_sign_tx.c\<close>, the command that signs a transaction, and of the reaction of the main loop
  (\<open>src/main.c\<close>) to its status word.  It composes the streaming parser (\<open>Ustream\<close>), the calldata contexts (\<open>Tx_Ctx\<close>), the
  derivation path (\<open>App_Context\<close>), the plugins (\<open>Plugin_Handler\<close>) and the preparation of the review (\<open>Finalize\<close>).
\<close>

definition SIGN_MODE_BASIC :: uint8 where "SIGN_MODE_BASIC = 0"
definition SIGN_MODE_STORE :: uint8 where "SIGN_MODE_STORE = 1"
definition SIGN_MODE_START_FLOW :: uint8 where "SIGN_MODE_START_FLOW = 2"
definition P1_FIRST :: uint8 where "P1_FIRST = 0x00"
definition P1_MORE :: uint8 where "P1_MORE = 0x80"
definition MAX_TX_TYPE :: uint8 where "MAX_TX_TYPE = 0x7f"

section \<open>The command\<close>

definition sign_tx_type :: "'c sign_platform \<Rightarrow> bytes \<Rightarrow> uint8 \<Rightarrow> 'c sign_state \<Rightarrow> (sw \<times> uint8 \<times> 'c sign_state) option" where
  "sign_tx_type S apdu offset s = do {
     tx_type \<leftarrow> rd apdu (unat offset);
     if tx_type \<le> MAX_TX_TYPE then
       (if tx_type \<notin> {EIP1559, EIP2930, EIP7702} then Some (SWO_MEMORY_WRITE_ERROR, offset, s)
        else
          (case absorb (sign_env S) [tx_type] (st_tx s) of
             (False, t) \<Rightarrow> Some (SWO_INCORRECT_DATA, offset, s\<lparr>st_tx := t\<rparr>)
           | (True, t) \<Rightarrow> Some (SWO_NO_RESPONSE, offset + 1, s\<lparr>st_tx := t\<lparr>txType := tx_type\<rparr>\<rparr>)))
     else Some (SWO_NO_RESPONSE, offset, s\<lparr>st_tx := (st_tx s)\<lparr>txType := LEGACY\<rparr>\<rparr>) }"

definition handle_first_sign_chunk ::
  "'c sign_platform \<Rightarrow> bytes \<Rightarrow> uint8 \<Rightarrow> uint8 \<Rightarrow> uint8 \<Rightarrow> 'c sign_state \<Rightarrow> (sw \<times> uint8 \<times> 'c sign_state) option" where
  "handle_first_sign_chunk S apdu len offset mode s =
     (if tx_appState (st_tx s) \<noteq> APP_STATE_IDLE then Some (SWO_COMMAND_NOT_ALLOWED, offset, s)
      else
        (let s = s\<lparr>st_tx := (st_tx s)\<lparr>tx_appState := APP_STATE_SIGNING_TX\<rparr>, sign_mode := mode\<rparr>
         in do {
           (rest, length_tmp, b) \<leftarrow> parseBip32 (sp_bip32_path_read S) (sp_addr S) (drop (unat offset) apdu) len (st_bip32 s);
           let s = s\<lparr>st_bip32 := b\<rparr>;
           if rest = None then Some (SWO_INCORRECT_DATA, offset, s)
           else
             (let offset = offset + (len - length_tmp);
                  t = (st_tx s)\<lparr>content := (content (st_tx s))\<lparr>dataPresent := False\<rparr>, G_swap_tx_had_calldata := False,
                                tk_pluginStatus := ETH_PLUGIN_RESULT_UNAVAILABLE\<rparr>;
                  s = set_swap ((swap_of s)\<lparr>G_swap_calldata_validated := False\<rparr>) (s\<lparr>st_tx := t\<rparr>);
                  (ok, m) = mem_alloc (hash_mem s);
                  s = s\<lparr>hash_mem := m\<rparr>
              in if \<not> ok then Some (SWO_INSUFFICIENT_MEMORY, offset, s\<lparr>g_tx_hash_ctx := False\<rparr>)
                 else
                   (let s = s\<lparr>g_tx_hash_ctx := True\<rparr>;
                        (ok, t) = init_tx (sign_env S) (mode = SIGN_MODE_STORE) (st_tx s);
                        s = s\<lparr>st_tx := t\<rparr>
                    in if \<not> ok then Some (SWO_INCORRECT_DATA, offset, s)
                       else if len \<le> offset then Some (SWO_INCORRECT_DATA, offset, s)
                       else sign_tx_type S apdu offset s)) }))"

text \<open>In a swap a fault answers Exchange and ends the application.  A parser that is suspended has just written the contract
  data to show.\<close>

definition handle_parsing_status :: "'c sign_platform \<Rightarrow> parserStatus \<Rightarrow> 'c sign_state \<Rightarrow> (sw \<times> 'c sign_state) outcome option" where
  "handle_parsing_status S status s =
     (case status of
        USTREAM_SUSPENDED \<Rightarrow> Some (Returns (SWO_NO_RESPONSE, show_data S s))
      | USTREAM_FINISHED \<Rightarrow> finalize_parsing S s
      | USTREAM_PROCESSING \<Rightarrow> Some (Returns (SWO_SUCCESS, s))
      | USTREAM_FAULT \<Rightarrow> Some (if called_from_swap S then App_exit else Returns (SWO_INCORRECT_DATA, s))
      | _ \<Rightarrow> Some (Returns (SWO_INCORRECT_DATA, s)))"

definition start_flow :: "'c sign_platform \<Rightarrow> uint8 \<Rightarrow> 'c sign_state \<Rightarrow> (sw \<times> 'c sign_state) option" where
  "start_flow S len s =
     (if tx_appState (st_tx s) \<noteq> APP_STATE_SIGNING_TX then Some (SWO_COMMAND_NOT_ALLOWED, s)
      else if len \<noteq> 0 then Some (SWO_INCORRECT_DATA, s)
      else do {
        valid \<leftarrow> validate_instruction_hash (sp_gcs S) (tx_gcs (st_tx s));
        if \<not> valid then Some (SWO_INCORRECT_DATA, s)
        else do {
          (ok, g) \<leftarrow> process_empty_txs_after (sp_gcs S) (tx_gcs (st_tx s));
          let s = s\<lparr>st_tx := gcs_out g (st_tx s)\<rparr>;
          if \<not> ok then Some (SWO_INCORRECT_DATA, s)
          else if get_tx_ctx_count g \<noteq> 1 then Some (SWO_COMMAND_NOT_ALLOWED, s)
          else if \<not> sp_ui_gcs S then Some (SWO_NOT_SUPPORTED_ERROR_NO_INFO, s)
          else Some (SWO_NO_RESPONSE, s) } })"

text \<open>The second half of the command: the rest of the APDU goes to the parser.  Quitting while a plugin is chosen
  (\<open>ps_exited\<close>) ends it.\<close>

definition sign_parse :: "'c sign_platform \<Rightarrow> bytes \<Rightarrow> uint8 \<Rightarrow> 'c sign_state \<Rightarrow> (sw \<times> 'c sign_state) outcome option" where
  "sign_parse S apdu offset s =
     (if currentField (st_tx s) = RLP_NONE then Some (Returns (SWO_COMMAND_NOT_ALLOWED, s))
      else do {
        (pstatus, t) \<leftarrow> process_tx (sign_env S) (drop (unat offset) apdu) (st_tx s);
        if ps_exited (fst (plug t)) then Some App_exit
        else do {
          r \<leftarrow> handle_parsing_status S pstatus (s\<lparr>st_tx := t\<rparr>);
          Some (case r of
                  Returns (sw, s) \<Rightarrow>
                    (let sw = (if sign_mode s = SIGN_MODE_BASIC \<and> pstatus = USTREAM_FINISHED \<and> sw = SWO_SUCCESS
                               then SWO_NO_RESPONSE else sw)
                     in Returns (sw, if sw \<noteq> SWO_NO_RESPONSE \<and> sw \<noteq> SWO_SUCCESS then free_hash s else s))
                | r \<Rightarrow> r) } })"

definition handle_sign ::
  "'c sign_platform \<Rightarrow> uint8 \<Rightarrow> uint8 \<Rightarrow> bytes \<Rightarrow> uint8 \<Rightarrow> 'c sign_state \<Rightarrow> (sw \<times> 'c sign_state) outcome option" where
  "handle_sign S p1 p2 apdu len s =
     (if p2 = SIGN_MODE_BASIC \<or> p2 = SIGN_MODE_STORE then
        (if p1 = P1_FIRST then do {
           (sw, offset, s) \<leftarrow> handle_first_sign_chunk S apdu len 0 p2 s;
           if sw \<noteq> SWO_NO_RESPONSE then Some (Returns (sw, s)) else sign_parse S apdu offset s }
         else if p1 = P1_MORE then
           (if tx_appState (st_tx s) \<noteq> APP_STATE_SIGNING_TX then Some (Returns (SWO_COMMAND_NOT_ALLOWED, s))
            else if p2 \<noteq> sign_mode s then Some (Returns (SWO_WRONG_P1_P2, s))
            else sign_parse S apdu 0 s)
         else Some (Returns (SWO_WRONG_P1_P2, s)))
      else if p2 = SIGN_MODE_START_FLOW then map_option Returns (start_flow S len s)
      else Some (Returns (SWO_WRONG_P1_P2, s)))"

section \<open>The contract data screens\<close>

text \<open>The user accepts the part of the data that is shown: the parser goes on.\<close>

definition io_seproxyhal_touch_data_ok :: "'c sign_platform \<Rightarrow> 'c sign_state \<Rightarrow> 'c sign_state outcome option" where
  "io_seproxyhal_touch_data_ok S s = do {
     (pstatus, t) \<leftarrow> continue_tx (sign_env S) (st_tx s);
     if ps_exited (fst (plug t)) then Some App_exit
     else do {
       r \<leftarrow> handle_parsing_status S pstatus (s\<lparr>st_tx := t\<rparr>);
       Some (case r of
               Returns (sw, s) \<Rightarrow>
                 (if pstatus \<noteq> USTREAM_SUSPENDED \<and> pstatus \<noteq> USTREAM_FINISHED then
                    (case io_seproxyhal_send_status S sw [] (sw \<noteq> SWO_SUCCESS) s of
                       Returns (_, s) \<Rightarrow> Returns s
                     | App_exit \<Rightarrow> App_exit
                     | Swap_done r \<Rightarrow> Swap_done r)
                  else Returns s)
             | App_exit \<Rightarrow> App_exit
             | Swap_done r \<Rightarrow> Swap_done r) } }"

definition io_seproxyhal_touch_data_cancel :: "'c sign_platform \<Rightarrow> 'c sign_state \<Rightarrow> 'c sign_state outcome" where
  "io_seproxyhal_touch_data_cancel S s = io_seproxyhal_touch_tx_cancel S s"

section \<open>Main loop\<close>

text \<open>Error codes that do not start with the digit 6 are replaced before they are sent.  The words named here all do.\<close>

definition sent_word :: "'c sign_platform \<Rightarrow> sw \<Rightarrow> sw" where
  "sent_word S sw =
     (case sw of
        SW_ERROR n \<Rightarrow> if n AND 0xF000 \<noteq> 0x6000 then SW_ERROR (sp_not_supported S OR (n AND 0x7FF)) else SW_ERROR n
      | _ \<Rightarrow> sw)"

definition app_main_react :: "'c sign_platform \<Rightarrow> sw \<times> 'c sign_state \<Rightarrow> (sw \<times> 'c sign_state) outcome" where
  "app_main_react S r =
     (let (sw, s) = r
      in if sw = SWO_NO_RESPONSE then Returns (sw, s)
         else if sw \<noteq> SWO_SUCCESS \<and> sw \<noteq> SWO_COMMAND_CODE_NOT_SUPPORTED then
           (case sign_reset S s of
              Returns s \<Rightarrow> Returns (sent_word S sw, s)
            | App_exit \<Rightarrow> App_exit
            | Swap_done r \<Rightarrow> Swap_done r)
         else Returns (sw, s))"

definition sign_apdu ::
  "'c sign_platform \<Rightarrow> uint8 \<Rightarrow> uint8 \<Rightarrow> bytes \<Rightarrow> uint8 \<Rightarrow> 'c sign_state \<Rightarrow> (sw \<times> 'c sign_state) outcome option" where
  "sign_apdu S p1 p2 apdu len s =
     map_option (\<lambda>r. case r of Returns x \<Rightarrow> app_main_react S x | r \<Rightarrow> r) (handle_sign S p1 p2 apdu len s)"

section \<open>A session for a swap\<close>

text \<open>How the application starts when Exchange asks for a signature: the promise is in place (\<open>copy_transaction_parameters\<close>)
  and \<open>called_from_swap\<close> holds for the session.\<close>

definition handle_swap_sign_transaction :: "'c sign_state \<Rightarrow> 'c sign_state" where
  "handle_swap_sign_transaction s =
     (let s = set_swap ((swap_of s)\<lparr>G_swap_response_ready := False\<rparr>) s
      in if G_swap_mode (swap_of s) = SWAP_MODE_CROSSCHAIN_PENDING_CHECK
         then set_plugins (set_swap_with_calldata_plugin_type (plugins_of s)) s
         else s)"

end
