(* ===== verification/Swap_Proofs.thy ===== *)
theory Swap_Proofs
  imports Swap
begin

text \<open>
  What the promise of a swap and its checks guarantee: the configuration is read inside of its buffer and read back as
  it was written, the amount is compared as a number, and the plugin hashes exactly the calldata.
\<close>

section \<open>The configuration\<close>

definition asset_bytes :: "string \<Rightarrow> uint8 \<Rightarrow> bytes" where
  "asset_bytes t d = word_of_nat (length t) # map (\<lambda>c. word_of_nat (of_char c)) t @ [d]"

definition ticker_ok :: "nat \<Rightarrow> string \<Rightarrow> bool" where
  "ticker_ok n t \<longleftrightarrow> t \<noteq> [] \<and> length t \<le> n - 2 \<and> NUL \<notin> set t"

text \<open>A parsed asset: its ticker is a terminated string inside of its buffer.\<close>

definition asset_ok :: "nat \<Rightarrow> asset_info \<Rightarrow> bool" where
  "asset_ok n a \<longleftrightarrow> length (asset_ticker a) = n"

lemma char_byte [simp]: "char_of (unat (word_of_nat (of_char c) :: uint8)) = c"
proof -
  have "unat (word_of_nat (of_char c) :: uint8) = of_char c" by (simp add: unat_of_nat)
  then show ?thesis by simp
qed

lemma unat_add_8: "unat a + unat b < 256 \<Longrightarrow> unat ((a :: uint8) + b) = unat a + unat b"
  by (simp add: unat_word_ariths(1))

lemma parse_asset_info_total:
  assumes c: "length config = unat config_len" and a: "asset_ok n a" and n: "2 \<le> n"
  shows "(\<exists>a' off'. parse_asset_info n config config_len a off = Some (False, a', off') \<and> asset_ok n a') \<or>
    (\<exists>a' off'. parse_asset_info n config config_len a off = Some (True, a', off') \<and> asset_ok n a' \<and> off' \<le> config_len \<and>
       (\<exists>l. 0 < l \<and> l \<le> n - 2 \<and> unat off + l + 2 = unat off' \<and> asset_ticker a' ! l = NUL))"
proof (cases "config_len \<le> off")
  case True
  then show ?thesis using a by (simp add: parse_asset_info_def)
next
  case False
  then have off: "unat off < length config" using c by (simp add: word_le_nat_alt)
  have o1: "unat (off + 1) = unat off + 1" using off c by (intro unat_plus_one [of off config_len]) simp
  let ?l = "config ! unat off"
  show ?thesis
  proof (cases "?l = 0 \<or> n - 2 < unat ?l \<or> unat config_len < unat (off + 1) + unat ?l")
    case True
    then show ?thesis using False off a by (auto simp: parse_asset_info_def Let_def rd_def)
  next
    case ok: False
    then have l: "0 < unat ?l" "unat ?l \<le> n - 2" "unat off + 1 + unat ?l \<le> unat config_len"
      using o1 by (auto simp: unat_gt_0)
    have lt: "unat config_len < 256" using unsigned_less [where ?'a = nat, of config_len] by simp
    have o2: "unat (off + 1 + ?l) = unat off + 1 + unat ?l"
      using l(3) lt o1 unat_add_8 [of "off + 1" ?l] by linarith
    let ?xs = "take (unat ?l) (drop (unat (off + 1)) config)"
    have xs: "rd_n config (unat (off + 1)) (unat ?l) = Some ?xs" "length ?xs = unat ?l" using l(3) c o1 by (simp_all add: rd_n_Some)
    obtain t where t: "wr_n (asset_ticker a) 0 (map (\<lambda>b. char_of (unat b)) ?xs) = Some t" "length t = n"
      using xs(2) l(2) a n wr_n_Some [of 0 "map (\<lambda>b. char_of (unat b)) ?xs" "asset_ticker a"] by (auto simp: asset_ok_def)
    have t2: "wr t (unat ?l) NUL = Some (t[unat ?l := NUL])" using t(2) l(1,2) n by (intro wr_Some) simp
    show ?thesis
    proof (cases "config_len \<le> off + 1 + ?l")
      case True
      then show ?thesis using False off ok xs(1) t t2 a
        by (simp add: parse_asset_info_def Let_def rd_def asset_ok_def)
    next
      case more: False
      then have m: "unat off + 1 + unat ?l < unat config_len" using o2 by (simp add: word_le_nat_alt)
      have o3: "unat (off + 1 + ?l + 1) = unat off + unat ?l + 2" using m o2 unat_plus_one [of "off + 1 + ?l" config_len] by linarith
      have "unat ?l < n" using l(1,2) n by simp
      then show ?thesis using False off ok xs(1) t t2 more m o2 o3 l c
        by (simp add: parse_asset_info_def Let_def rd_def asset_ok_def word_less_nat_alt word_le_nat_alt)
    qed
  qed
qed

text \<open>The whole configuration: the reads stay inside of it, whatever it holds.\<close>

definition context_ok :: "nat \<Rightarrow> swap_context \<Rightarrow> bool" where
  "context_ok n c \<longleftrightarrow> asset_ok n (swapped_asset_info c) \<and> asset_ok n (fees_asset_info c)
     \<and> length (token_address c) = ADDRESS_LENGTH \<and> asset_decimals (fees_asset_info c) = WEI_DECIMALS"

lemma parse_swap_config_total:
  assumes c: "length config = unat config_len" and n: "2 \<le> n"
  shows "\<exists>ok ctx'. parse_swap_config n (Some config) config_len ctx = Some (ok, ctx') \<and> (ok \<longrightarrow> context_ok n ctx')"
proof (cases "config_len = 0")
  case True
  then show ?thesis by (intro exI [of _ False] exI [of _ ctx]) (simp add: parse_swap_config_def)
next
  case False
  have z: "asset_ok n (asset_zero n)" "asset_ok n (asset_zero n\<lparr>asset_decimals := d\<rparr>)" for d by (simp_all add: asset_ok_def asset_zero_def)
  let ?c0 = "swap_context_zero n\<lparr>fees_asset_info := asset_zero n\<lparr>asset_decimals := WEI_DECIMALS\<rparr>\<rparr>"
  have c0: "(swap_context_zero n)\<lparr>fees_asset_info := (fees_asset_info (swap_context_zero n))\<lparr>asset_decimals := WEI_DECIMALS\<rparr>\<rparr> = ?c0"
    "swapped_asset_info ?c0 = asset_zero n" by (simp_all add: swap_context_zero_def)
  from parse_asset_info_total [OF c z(1) n, of 0] show ?thesis
  proof (elim disjE exE conjE)
    fix a' off'
    assume "parse_asset_info n config config_len (asset_zero n) 0 = Some (False, a', off')"
    then show ?thesis using False c0 by (intro exI [of _ False] exI [of _ "?c0\<lparr>swapped_asset_info := a'\<rparr>"]) (simp add: parse_swap_config_def Let_def)
  next
    fix a' off' l
    assume a: "parse_asset_info n config config_len (asset_zero n) 0 = Some (True, a', off')" "asset_ok n a'" "off' \<le> config_len"
    let ?c1 = "?c0\<lparr>swapped_asset_info := a'\<rparr>"
    show ?thesis
    proof (cases "unat config_len - unat off' < 8")
      case True
      then show ?thesis using False a(1) c0 by (intro exI [of _ False] exI [of _ ?c1]) (simp add: parse_swap_config_def Let_def)
    next
      case room: False
      then have r8: "unat off' + 8 \<le> unat config_len" by simp
      have "unat off' < 248" using r8 unat_word8_lt [of config_len] by linarith
      then have "unat (off' + 8) = unat off' + 8" using unat_add_8 [of off' 8] by simp
      note o8 = this r8
      obtain bs where bs: "rd_n config (unat off') 8 = Some bs" using o8(2) c by (simp add: rd_n_Some)
      let ?c2 = "?c1\<lparr>sc_chain_id := u64_from_BE bs\<rparr>"
      have fees: "\<exists>ok c3 off3. parse_swap_fees n config config_len (off' + 8) ?c2 = Some (ok, c3, off3) \<and> (ok \<longrightarrow> context_ok n c3)"
      proof (cases "off' + 8 < config_len")
        case True
        from parse_asset_info_total [OF c z(2) n, of WEI_DECIMALS "off' + 8"] show ?thesis
          using True a(2) by (elim disjE exE conjE) (auto simp: parse_swap_fees_def context_ok_def swap_context_zero_def)
      next
        case False
        then show ?thesis using a(2) z by (simp add: parse_swap_fees_def context_ok_def swap_context_zero_def)
      qed
      then obtain ok c3 off3 where f: "parse_swap_fees n config config_len (off' + 8) ?c2 = Some (ok, c3, off3)" "ok \<longrightarrow> context_ok n c3" by blast
      have h: "parse_swap_config n (Some config) config_len ctx = (if \<not> ok then Some (False, c3) else parse_swap_token config config_len off3 c3)"
        using \<open>config_len \<noteq> 0\<close> a(1) c0 room bs f(1) by (simp add: parse_swap_config_def Let_def)
      show ?thesis
      proof (cases "ok \<and> off3 < config_len \<and> 20 \<le> unat config_len - unat off3")
        case True
        then have "unat off3 + 20 \<le> length config" unfolding c word_less_nat_alt by linarith
        then show ?thesis using h True f(2) by (simp add: parse_swap_token_def rd_n_Some context_ok_def)
      next
        case False
        then show ?thesis using h f(2) by (auto simp: parse_swap_token_def intro: ex_bool)
      qed
    qed
  qed
qed

section \<open>Round trip of the configuration\<close>

lemma parse_asset_info_encoded:
  assumes c: "config = pre @ asset_bytes t d @ post" "length config < 256" and t: "ticker_ok n t" and a: "asset_ok n a"
  shows "\<exists>a'. parse_asset_info n config (word_of_nat (length config)) a (word_of_nat (length pre)) =
      Some (True, a', word_of_nat (length pre + length t + 2)) \<and> c_str (asset_ticker a') = t \<and> asset_decimals a' = d \<and>
      asset_ok n a' \<and> hd (asset_ticker a') \<noteq> NUL"
proof -
  let ?len = "word_of_nat (length config) :: uint8" and ?off = "word_of_nat (length pre) :: uint8" and ?l = "word_of_nat (length t) :: uint8"
  have lc: "length config = length pre + length t + 2 + length post" using c(1) by (simp add: asset_bytes_def)
  have ub: "unat (word_of_nat k :: uint8) = k" if "k < 256" for k using that by (simp add: unat_of_nat)
  have u: "unat ?len = length config" "unat ?off = length pre" "unat ?l = length t" by (rule ub, use c(2) lc in simp)+
  have lt: "t \<noteq> []" "length t \<le> n - 2" "NUL \<notin> set t" using t by (simp_all add: ticker_ok_def)
  have ltn: "length t < n" using lt(1,2) by (cases t) auto
  have o1: "?off + 1 = word_of_nat (length pre + 1)" "?off + 1 + ?l + 1 = word_of_nat (length pre + length t + 2)" by simp_all
  have o2: "?off + 1 + ?l = word_of_nat (length pre + 1 + length t)" by simp
  have u1: "unat (?off + 1) = length pre + 1" "unat (?off + 1 + ?l) = length pre + 1 + length t"
    using ub [of "length pre + 1"] ub [of "length pre + 1 + length t"] c(2) lc unfolding o2 unfolding o1(1) by linarith+
  have r: "rd config (length pre) = Some ?l" "rd config (length pre + 1 + length t) = Some d"
    "rd_n config (length pre + 1) (length t) = Some (map (\<lambda>c. word_of_nat (of_char c)) t)"
    by (simp_all add: c(1) asset_bytes_def rd_def rd_n_def nth_append)
  let ?ts = "t @ drop (length t) (asset_ticker a)"
  have w: "wr_n (asset_ticker a) 0 t = Some ?ts" using a ltn by (simp add: wr_n_def asset_ok_def)
  have w2: "wr ?ts (length t) NUL = Some (?ts[length t := NUL])" using a ltn by (intro wr_Some) (auto simp: asset_ok_def)
  obtain y ys where dr: "drop (length t) (asset_ticker a) = y # ys"
    using a ltn by (cases "drop (length t) (asset_ticker a)") (auto simp: asset_ok_def)
  have ts: "?ts[length t := NUL] = t @ NUL # ys" by (simp add: dr list_update_append)
  have lw: "\<not> ?len \<le> ?off" "\<not> ?len \<le> ?off + 1 + ?l" "?l \<noteq> 0" using u u1 lc lt(1) by (simp_all add: word_le_nat_alt unat_eq_0 [symmetric])
  have m: "map ((\<lambda>b. char_of (unat b)) \<circ> (\<lambda>c. word_of_nat (of_char c) :: uint8)) t = t" by (simp add: map_idI)
  let ?a' = "a\<lparr>asset_ticker := t @ NUL # ys, asset_decimals := d\<rparr>"
  have "parse_asset_info n config ?len a ?off = Some (True, ?a', ?off + 1 + ?l + 1)"
    using lw u u1 r lt w w2 ts m lc by (simp add: parse_asset_info_def Let_def)
  moreover have "c_str (t @ NUL # ys) = t" by (rule c_str_terminated [OF lt(3)])
  moreover have "length (?ts[length t := NUL]) = n" using a ltn by (simp add: asset_ok_def)
  then have "asset_ok n ?a'" unfolding ts by (simp add: asset_ok_def)
  moreover have "hd (t @ NUL # ys) \<noteq> NUL" using lt by (cases t) auto
  ultimately show ?thesis using \<open>asset_ok n ?a'\<close> unfolding o1(2) by (intro exI [of _ ?a']) simp
qed

definition swap_config_bytes :: "string \<Rightarrow> uint8 \<Rightarrow> uint64 \<Rightarrow> string option \<Rightarrow> bytes option \<Rightarrow> bytes" where
  "swap_config_bytes t d chain fees token =
     asset_bytes t d @ be_bytes 8 (unat chain) @
     (case fees of None \<Rightarrow> [] | Some ft \<Rightarrow> asset_bytes ft WEI_DECIMALS @ (case token of None \<Rightarrow> [] | Some a \<Rightarrow> a))"

lemma u64_from_BE_be_bytes: "u64_from_BE (be_bytes 8 (unat (c :: uint64))) = c"
proof -
  have "be_val (be_bytes 8 (unat c)) = unat c" using unsigned_less [where ?'a = nat, of c] by (simp add: be_val_be_bytes)
  then show ?thesis by (simp add: u64_from_BE_def)
qed

lemma parse_swap_config_round_trip:
  assumes t: "ticker_ok n t" and ft: "\<forall>ft. fees = Some ft \<longrightarrow> ticker_ok n ft" and tok: "\<forall>a. token = Some a \<longrightarrow> length a = ADDRESS_LENGTH"
    and len: "length (swap_config_bytes t d chain fees token) < 256"
  shows "\<exists>c. parse_swap_config n (Some (swap_config_bytes t d chain fees token))
        (word_of_nat (length (swap_config_bytes t d chain fees token))) ctx = Some (True, c) \<and>
    c_str (asset_ticker (swapped_asset_info c)) = t \<and> asset_decimals (swapped_asset_info c) = d \<and> sc_chain_id c = chain \<and>
    asset_decimals (fees_asset_info c) = WEI_DECIMALS \<and>
    (case fees of None \<Rightarrow> hd (asset_ticker (fees_asset_info c)) = NUL | Some ft \<Rightarrow> c_str (asset_ticker (fees_asset_info c)) = ft) \<and>
    (if fees \<noteq> None \<and> token \<noteq> None then has_token_address c \<and> token_address c = the token else \<not> has_token_address c)"
proof -
  let ?cfg = "swap_config_bytes t d chain fees token"
  let ?len = "word_of_nat (length ?cfg) :: uint8"
  let ?rest = "case fees of None \<Rightarrow> [] | Some ft \<Rightarrow> asset_bytes ft WEI_DECIMALS @ (case token of None \<Rightarrow> [] | Some a \<Rightarrow> a)"
  have n: "0 < n" using t by (cases t) (auto simp: ticker_ok_def)
  have ub: "unat (word_of_nat k :: uint8) = k" if "k < 256" for k using that by (simp add: unat_of_nat)
  have z: "asset_ok n (asset_zero n)" "asset_ok n (asset_zero n\<lparr>asset_decimals := x\<rparr>)" for x by (simp_all add: asset_ok_def asset_zero_def)
  have cfg: "?cfg = [] @ asset_bytes t d @ (be_bytes 8 (unat chain) @ ?rest)" by (simp add: swap_config_bytes_def)
  define o2 :: uint8 where "o2 = word_of_nat (length t + 2)"
  define o10 :: uint8 where "o10 = word_of_nat (length t + 10)"
  obtain a' where a: "parse_asset_info n ?cfg ?len (asset_zero n) 0 = Some (True, a', o2)"
    "c_str (asset_ticker a') = t" "asset_decimals a' = d" "asset_ok n a'"
    using parse_asset_info_encoded [OF cfg len t z(1)] unfolding o2_def by auto
  have lc: "length ?cfg = length t + 10 + length ?rest" by (simp add: swap_config_bytes_def asset_bytes_def)
  have u: "unat ?len = length ?cfg" "unat o2 = length t + 2" unfolding o2_def by (rule ub, use len lc in simp)+
  have off: "o2 + 8 = o10" by (simp add: o2_def o10_def)
  have uo: "unat o10 = length t + 10" unfolding o10_def by (rule ub, use len lc in simp)
  have rd8: "rd_n ?cfg (length t + 2) 8 = Some (be_bytes 8 (unat chain))" by (simp add: rd_n_def swap_config_bytes_def asset_bytes_def)
  let ?c0 = "swap_context_zero n\<lparr>fees_asset_info := asset_zero n\<lparr>asset_decimals := WEI_DECIMALS\<rparr>, swapped_asset_info := a', sc_chain_id := chain\<rparr>"
  have start: "parse_swap_config n (Some ?cfg) ?len ctx = Option.bind (parse_swap_fees n ?cfg ?len o10 ?c0)
      (\<lambda>(ok, context, offset). if \<not> ok then Some (False, context) else parse_swap_token ?cfg ?len offset context)"
  proof -
    have l0: "?len \<noteq> 0" using u(1) lc by (simp add: unat_eq_0 [symmetric])
    have r: "\<not> length ?cfg - (length t + 2) < 8" using lc by simp
    show ?thesis using l0 r a(1) rd8 u(2) off
      by (simp add: parse_swap_config_def Let_def swap_context_zero_def u64_from_BE_be_bytes u(1))
  qed
  show ?thesis
  proof (cases fees)
    case None
    then have "length ?cfg = length t + 10" using lc by simp
    then have nl: "\<not> o10 < ?len" by (simp add: o10_def)
    have "hd (replicate n NUL) = NUL" using n by (cases n) auto
    then show ?thesis using a start nl None
      by (simp add: parse_swap_fees_def parse_swap_token_def swap_context_zero_def asset_zero_def)
  next
    case (Some ft)
    let ?tk = "case token of None \<Rightarrow> [] | Some a \<Rightarrow> a"
    have lr: "length ?rest = length ft + 2 + length ?tk" using Some by (simp add: asset_bytes_def)
    have lt: "o10 < ?len" using u(1) uo lc lr by (simp add: word_less_nat_alt)
    have cfg2: "?cfg = (asset_bytes t d @ be_bytes 8 (unat chain)) @ asset_bytes ft WEI_DECIMALS @ ?tk"
      using Some by (simp add: swap_config_bytes_def)
    have lp: "length (asset_bytes t d @ be_bytes 8 (unat chain)) = length t + 10" by (simp add: asset_bytes_def)
    define o3 :: uint8 where "o3 = word_of_nat (length t + 10 + length ft + 2)"
    obtain b where b: "parse_asset_info n ?cfg ?len (asset_zero n\<lparr>asset_decimals := WEI_DECIMALS\<rparr>) o10 =
        Some (True, b, o3)" "c_str (asset_ticker b) = ft" "asset_decimals b = WEI_DECIMALS"
      using parse_asset_info_encoded [OF cfg2 len _ z(2), unfolded lp] ft Some unfolding o3_def o10_def by blast
    have u3: "unat o3 = length t + 10 + length ft + 2" unfolding o3_def by (rule ub, use len lc lr in simp)
    have f: "parse_swap_fees n ?cfg ?len o10 ?c0 = Some (True, ?c0\<lparr>fees_asset_info := b\<rparr>, o3)"
      using lt b by (simp add: parse_swap_fees_def swap_context_zero_def)
    show ?thesis
    proof (cases token)
      case None
      then have "\<not> o3 < ?len" using u3 u(1) lc lr by (simp add: word_less_nat_alt)
      then show ?thesis using a b start f None Some by (simp add: parse_swap_token_def swap_context_zero_def)
    next
      case (Some ta)
      then have ta: "length ta = 20" using tok by simp
      have l3: "o3 < ?len" using u3 u(1) lc lr Some ta by (simp add: word_less_nat_alt)
      have r: "rd_n ?cfg (length t + 10 + length ft + 2) 20 = Some ta"
      proof -
        define pre where "pre = asset_bytes t d @ be_bytes 8 (unat chain) @ asset_bytes ft WEI_DECIMALS"
        have "?cfg = pre @ ta" "length pre = length t + 10 + length ft + 2"
          using Some \<open>fees = Some ft\<close> by (simp_all add: swap_config_bytes_def pre_def asset_bytes_def)
        then show ?thesis using ta by (simp add: rd_n_def)
      qed
      have ge: "\<not> length ?cfg - (length t + 10 + length ft + 2) < 20" using lc lr Some ta by simp
      have "parse_swap_token ?cfg ?len o3 (?c0\<lparr>fees_asset_info := b\<rparr>) =
          Some (True, ?c0\<lparr>fees_asset_info := b, token_address := ta, has_token_address := True\<rparr>)"
        unfolding parse_swap_token_def u3 u(1) using l3 r ge by simp
      then show ?thesis using a b start f Some \<open>fees = Some ft\<close> by (simp)
    qed
  qed
qed

section \<open>The value\<close>

lemma right_aligned:
  assumes "length bs \<le> 32"
  shows "wr_n (replicate 32 0) (32 - length bs) bs = Some (replicate (32 - length bs) 0 @ bs)"
  using assms by (simp add: wr_n_def)

lemma swap_check_value_sound:
  assumes r: "length raw = 32"
  shows "\<exists>b. swap_check_value g formatted raw n = Some b \<and> (b \<longrightarrow> unat n \<le> 32 \<and>
    be_val (take (unat n) raw) = (case G_swap_expected_value_check g of SWAP_VALUE_CHECK_ZERO \<Rightarrow> 0 | _ \<Rightarrow> be_val (G_swap_expected_value g)))"
proof (cases "32 < n")
  case True
  then show ?thesis by (intro exI [of _ False]) (simp add: swap_check_value_def)
next
  case False
  then have n: "unat n \<le> 32" by (simp add: word_less_nat_alt)
  let ?bs = "take (unat n) raw"
  have bs: "rd_n raw 0 (unat n) = Some ?bs" "length ?bs = unat n" using n r by (simp_all add: rd_n_Some)
  have w: "wr_n (replicate 32 0) (32 - unat n) ?bs = Some (replicate (32 - unat n) 0 @ ?bs)" using right_aligned [of ?bs] bs(2) n by simp
  have zero: "is_zeroes_buffer ?bs \<longleftrightarrow> be_val ?bs = 0" by (simp add: be_val_eq_0_iff)
  have am: "be_val ?bs = be_val (G_swap_expected_value g)" if "replicate (32 - unat n) 0 @ ?bs = G_swap_expected_value g"
    using be_val_zeros_append [of "32 - unat n" ?bs] that by simp
  show ?thesis using False bs(1) w zero am n by (cases "G_swap_expected_value_check g") (simp_all add: swap_check_value_def)
qed

section \<open>The promise\<close>

text \<open>The configuration that counts: its chain is that of the application when it names none.  The ticker of its fees.\<close>

definition on_chain :: "chain_config \<Rightarrow> swap_context \<Rightarrow> swap_context" where
  "on_chain config context = (if sc_chain_id context = 0 then context\<lparr>sc_chain_id := cfg_chain_id config\<rparr> else context)"

definition fee_ticker :: "swap_env \<Rightarrow> chain_config \<Rightarrow> swap_context \<Rightarrow> string" where
  "fee_ticker E config context =
     (if hd (asset_ticker (fees_asset_info context)) = NUL
      then get_displayable_ticker (se_networks E) (sc_chain_id context) config False
      else c_str (asset_ticker (fees_asset_info context)))"

lemma fees_on_network:
  "get_asset_info_on_network E True (on_chain config c) config =
     (fee_ticker E config (on_chain config c), asset_decimals (fees_asset_info c), on_chain config c)"
  by (simp add: get_asset_info_on_network_def on_chain_def fee_ticker_def Let_def)

lemma on_chain_same [simp]: "fees_asset_info (on_chain config c) = fees_asset_info c"
  by (simp add: on_chain_def)

text \<open>What is kept of the parameters when the swap is accepted.\<close>

definition promised_strings :: "swap_env \<Rightarrow> chain_config \<Rightarrow> create_transaction_parameters \<Rightarrow> bytes \<Rightarrow> swap_context \<Rightarrow> swap_globals \<Rightarrow> bool" where
  "promised_strings E config p am context g \<longleftrightarrow>
     exp_toAddress g = strlcpy (se_address_size E) (destination_address p) \<and>
     (\<exists>fee. rd_n (fee_amount p) 0 (unat (fee_amount_length p)) = Some fee \<and>
        se_amount_to_string E fee (unat (asset_decimals (fees_asset_info context))) (fee_ticker E config context) MAX_FEE_SIZE
          = Some (exp_maxFee g)) \<and>
     (if G_swap_expected_value_check g = SWAP_VALUE_CHECK_ZERO
      then se_amount_to_string E [0] (unat (asset_decimals (fees_asset_info context))) (fee_ticker E config context) (FULL_AMOUNT_SIZE E)
             = Some (exp_fullAmount g)
      else se_amount_to_string E am (unat (asset_decimals (swapped_asset_info context)))
             (c_str (asset_ticker (swapped_asset_info context))) (FULL_AMOUNT_SIZE E) = Some (exp_fullAmount g))"

definition promised_asset :: "swap_env \<Rightarrow> chain_config \<Rightarrow> swap_context \<Rightarrow> swap_globals \<Rightarrow> bool" where
  "promised_asset E config context g \<longleftrightarrow>
     G_swap_expected_chain_id g = sc_chain_id context \<and>
     G_swap_has_expected_token_address g = has_token_address context \<and>
     G_swap_expected_token_address g = (if has_token_address context then token_address context else replicate ADDRESS_LENGTH 0) \<and>
     (G_swap_expected_value_check g = SWAP_VALUE_CHECK_ZERO \<longleftrightarrow> swap_of_token (G_swap_mode g) context (fee_ticker E config context))"

lemma copy_transaction_parameters_promise:
  assumes "copy_transaction_parameters E config p g = Some (True, g')"
  shows "\<exists>hash am context. G_swap_crosschain_hash g' = Some hash \<and> length (G_swap_expected_value g') = 32 \<and>
     rd_n (amount p) 0 (unat (amount_length p)) = Some am \<and> be_val (G_swap_expected_value g') = be_val am \<and>
     parse_swap_config (se_max_ticker E) (coin_configuration p) (coin_configuration_length p) (swap_context_zero (se_max_ticker E))
       = Some (True, context) \<and>
     promised_strings E config p am (on_chain config context) g' \<and> promised_asset E config (on_chain config context) g' \<and>
     G_swap_mode g' \<noteq> SWAP_MODE_CROSSCHAIN_SUCCESS \<and>
     (G_swap_mode g' = SWAP_MODE_CROSSCHAIN_PENDING_CHECK \<longrightarrow>
        (\<exists>extra. destination_extra_id p = Some extra \<and> rd extra 0 = Some EXTRA_ID_TYPE_EVM_CALLDATA \<and> rd_n extra 1 32 = Some hash)) \<and>
     (G_swap_expected_value_check g' = SWAP_VALUE_CHECK_ZERO \<longrightarrow> G_swap_mode g' = SWAP_MODE_CROSSCHAIN_PENDING_CHECK)"
proof -
  obtain mode hash where mode: "swap_mode_of (case destination_extra_id p of None \<Rightarrow> replicate 33 0 | Some e \<Rightarrow> e) = Some (mode, hash)"
    using assms by (auto simp: copy_transaction_parameters_def split: if_splits bind_splits)
  have len: "\<not> 32 < amount_length p" "\<not> (32 < amount_length p \<or> 8 < fee_amount_length p)"
    using assms by (auto simp: copy_transaction_parameters_def split: if_splits)
  obtain cok ctx0 where pc: "parse_swap_config (se_max_ticker E) (coin_configuration p) (coin_configuration_length p)
      (swap_context_zero (se_max_ticker E)) = Some (cok, ctx0)"
    using assms mode len(2) by (auto simp: copy_transaction_parameters_def split: if_splits bind_splits)
  define ctx where "ctx = on_chain config ctx0"
  define ticker where "ticker = fee_ticker E config ctx"
  define token where "token = swap_of_token mode ctx ticker"
  have cok: cok using assms mode len(2) pc by (simp add: copy_transaction_parameters_def split: if_splits)
  obtain fee am fa mf expected where
    fee: "rd_n (fee_amount p) 0 (unat (fee_amount_length p)) = Some fee"
      "se_amount_to_string E fee (unat (asset_decimals (fees_asset_info ctx0))) ticker MAX_FEE_SIZE = Some mf"
    and am: "rd_n (amount p) 0 (unat (amount_length p)) = Some am"
    and fa: "expected_amount E token ctx ticker am = Some fa"
    and w: "wr_n (replicate INT256_LENGTH 0) (INT256_LENGTH - unat (amount_length p)) am = Some expected"
    and c: "commit_promise mode hash ctx token expected (strlcpy (se_address_size E) (destination_address p)) fa mf g = (True, g')"
    using assms mode len(2) pc cok
    by (auto simp: copy_transaction_parameters_def Let_def on_chain_def [symmetric] fees_on_network ctx_def [symmetric]
        ticker_def [symmetric] token_def [symmetric] split: bind_splits option.splits)
  have "unat (amount_length p) \<le> 32" using len by (simp add: word_less_nat_alt)
  moreover have "length am = unat (amount_length p)" using am by (rule rd_n_length)
  ultimately have e: "expected = replicate (32 - length am) 0 @ am" "length expected = 32" using w right_aligned [of am] by auto
  have g': "G_swap_mode g' = mode" "G_swap_crosschain_hash g' = Some hash" "G_swap_expected_value g' = expected"
    "exp_toAddress g' = strlcpy (se_address_size E) (destination_address p)" "exp_maxFee g' = mf" "exp_fullAmount g' = fa"
    "G_swap_expected_value_check g' = (if token then SWAP_VALUE_CHECK_ZERO else SWAP_VALUE_CHECK_AMOUNT)"
    "promised_asset E config ctx g'"
    using c by (auto simp: commit_promise_def Let_def promised_asset_def token_def ticker_def split: if_splits prod.splits)
  have st: "promised_strings E config p am ctx g'"
    using g' fee fa by (cases token) (simp_all add: promised_strings_def ticker_def expected_amount_def ctx_def)
  have tok: "token \<longrightarrow> mode = SWAP_MODE_CROSSCHAIN_PENDING_CHECK" by (simp add: token_def swap_of_token_def)
  have m: "mode \<noteq> SWAP_MODE_CROSSCHAIN_SUCCESS" using mode by (auto simp: swap_mode_of_def split: bind_splits if_splits)
  have x: "mode = SWAP_MODE_CROSSCHAIN_PENDING_CHECK \<Longrightarrow> \<exists>extra. destination_extra_id p = Some extra \<and>
      rd extra 0 = Some EXTRA_ID_TYPE_EVM_CALLDATA \<and> rd_n extra 1 32 = Some hash"
    using mode by (auto simp: swap_mode_of_def rd_def EXTRA_ID_TYPE_NATIVE_def EXTRA_ID_TYPE_EVM_CALLDATA_def split: bind_splits if_splits option.splits)
  show ?thesis using g' e am st pc cok m x tok
    by (intro exI [of _ hash] exI [of _ am] exI [of _ ctx0]) (auto simp: ctx_def)
qed

section \<open>The plugin\<close>

text \<open>The parameters that the transaction parser delivers: words of 32 bytes at consecutive offsets.\<close>

fun feed_plugin :: "(bytes \<Rightarrow> bytes \<Rightarrow> bool) \<Rightarrow> (bytes \<times> uint32) list \<Rightarrow> swap_plugin \<Rightarrow> eth_plugin_result \<times> swap_plugin" where
  "feed_plugin ok [] c = (ETH_PLUGIN_RESULT_OK, c)"
| "feed_plugin ok ((w, off) # ws) c =
     (case handle_provide_parameter_swap_with_calldata ok True w off c of
        (r, c) \<Rightarrow> if r = ETH_PLUGIN_RESULT_OK then feed_plugin ok ws c else (r, c))"

text \<open>Whatever words and offsets come, the plugin has hashed a prefix of the words, at its own pace, and never
  more than the size announced.\<close>

definition plugin_inv :: "bytes \<Rightarrow> swap_plugin \<Rightarrow> bool" where
  "plugin_inv sel c \<longleftrightarrow> take 4 (update_hash c) = sel \<and> length (update_hash c) = unat (sp_received_size c) \<and>
     sp_received_size c \<le> sp_expected_size c \<and> 4 \<le> sp_received_size c"

lemma provide_parameter_step:
  assumes c: "plugin_inv sel c" and w: "length w = 32"
    and r: "handle_provide_parameter_swap_with_calldata ok True w off c = (ETH_PLUGIN_RESULT_OK, c')"
  shows "plugin_inv sel c' \<and> unat off = length (update_hash c) \<and> sp_expected_size c' = sp_expected_size c \<and>
    update_hash c' = update_hash c @ take (unat (sp_expected_size c) - unat (sp_received_size c)) w"
proof -
  let ?rem = "sp_expected_size c - sp_received_size c" and ?n = "unat (sp_expected_size c) - unat (sp_received_size c)"
  let ?k = "if ?rem < PARAMETER_LENGTH then ?rem else PARAMETER_LENGTH"
  have le: "sp_received_size c < sp_expected_size c" "off = sp_received_size c"
    using r by (auto simp: handle_provide_parameter_swap_with_calldata_def split: if_splits)
  have rem: "unat ?rem = ?n" using le by (simp add: unat_sub_le)
  have k: "unat ?k = min ?n 32" using rem by (auto simp: PARAMETER_LENGTH_def word_less_nat_alt min_def)
  have rw: "take (unat ?k) w = take ?n w" using w k by (simp add: min_def)
  have c': "c' = c\<lparr>update_hash := update_hash c @ take ?n w, sp_received_size := sp_received_size c + ?k\<rparr>"
    using r rw le by (auto simp: handle_provide_parameter_swap_with_calldata_def Let_def split: if_splits)
  have lt: "unat (sp_expected_size c) < 2 ^ 32" using unsigned_less [where ?'a = nat, of "sp_expected_size c"] by simp
  have n: "unat (sp_received_size c) < unat (sp_expected_size c)" using le(1) by (simp add: word_less_nat_alt)
  have s: "unat (sp_received_size c + ?k) = unat (sp_received_size c) + min ?n 32"
    using n lt k by (simp add: unat_word_ariths(1))
  show ?thesis using c c' s n w le by (auto simp: plugin_inv_def word_le_nat_alt min_def)
qed

lemma feed_plugin_hash:
  assumes "plugin_inv sel c" and "\<forall>(w, off) \<in> set ws. length w = 32" and "feed_plugin ok ws c = (ETH_PLUGIN_RESULT_OK, c')"
  shows "plugin_inv sel c' \<and> sp_expected_size c' = sp_expected_size c \<and>
    update_hash c' = update_hash c @ take (unat (sp_expected_size c) - unat (sp_received_size c)) (concat (map fst ws))"
  using assms
proof (induction ws arbitrary: c)
  case Nil
  then show ?case by simp
next
  case (Cons x ws)
  obtain w off where x: "x = (w, off)" by (cases x)
  have w: "length w = 32" "\<forall>(w, off) \<in> set ws. length w = 32" using Cons.prems(2) x by auto
  obtain c1 where p: "handle_provide_parameter_swap_with_calldata ok True w off c = (ETH_PLUGIN_RESULT_OK, c1)" "feed_plugin ok ws c1 = (ETH_PLUGIN_RESULT_OK, c')"
    using Cons.prems(3) x by (auto split: prod.splits if_splits)
  let ?n = "unat (sp_expected_size c) - unat (sp_received_size c)"
  have s: "plugin_inv sel c1" "sp_expected_size c1 = sp_expected_size c" "update_hash c1 = update_hash c @ take ?n w"
    using provide_parameter_step [OF Cons.prems(1) w(1) p(1)] by simp_all
  have l: "unat (sp_received_size c) = length (update_hash c)" "unat (sp_received_size c1) = length (update_hash c) + min ?n 32"
    using Cons.prems(1) s w(1) by (simp_all add: plugin_inv_def min.commute)
  have n: "unat (sp_expected_size c1) - unat (sp_received_size c1) = ?n - 32" using l s(2) by (simp add: min_def)
  have tk: "take ?n (w @ concat (map fst ws)) = take ?n w @ take (?n - 32) (concat (map fst ws))" using w(1) by simp
  from Cons.IH [OF s(1) w(2) p(2)] n tk s(2,3) x show ?case by simp
qed

text \<open>From the selector to the comparison with the promise.\<close>

lemma swap_calldata_validated:
  assumes i: "handle_init_contract_swap_with_calldata ok True total_len sel c0 = (ETH_PLUGIN_RESULT_OK, c)" and sel: "length sel = 4"
    and w: "\<forall>(w, off) \<in> set ws. length w = 32" and f: "feed_plugin ok ws c = (ETH_PLUGIN_RESULT_OK, c')"
    and fin: "handle_finalize_swap_with_calldata sha256 True c' g = Some (r, g')" and m: "G_swap_mode g' = SWAP_MODE_CROSSCHAIN_SUCCESS"
  shows "G_swap_mode g = SWAP_MODE_CROSSCHAIN_PENDING_CHECK \<and>
    G_swap_crosschain_hash g = Some (sha256 (take (unat total_len) (sel @ concat (map fst ws))))"
proof -
  have c: "c = \<lparr>update_hash = sel, sp_expected_size = total_len, sp_received_size = 4\<rparr>" "4 \<le> total_len"
    using i by (auto simp: handle_init_contract_swap_with_calldata_def Let_def split: if_splits)
  have inv: "plugin_inv sel c" using c sel by (simp add: plugin_inv_def)
  have h: "update_hash c' = sel @ take (unat total_len - 4) (concat (map fst ws))" using feed_plugin_hash [OF inv w f] c by simp
  have "take (unat total_len) (sel @ concat (map fst ws)) = update_hash c'" using h sel c(2) by (simp add: word_le_nat_alt)
  then show ?thesis using fin m by (auto simp: handle_finalize_swap_with_calldata_def split: bind_splits if_splits)
qed

end
