(* ===== verification/Finalize_Frame.thy ===== *)
theory Finalize_Frame
  imports Finalize Swap_Proofs
begin

text \<open>
  For the proofs about the preparation of the review (\<open>Finalize\<close>): what its strings say, what its stages leave
  unchanged of the transaction and of the promise of a swap, and the result of a reset.
\<close>

section \<open>The strings\<close>

definition rlp_val :: "txInt256 \<Rightarrow> nat" where
  "rlp_val i = be_val (take (unat (ilength i)) (ivalue i))"

lemma int256_of_rlp_spec:
  assumes "int256_ok n i" "n \<le> 32"
  shows "\<exists>x. int256_of_rlp i = Some (True, x) \<and> val256 x = rlp_val i"
proof (cases "ilength i = 0")
  case False
  have nz: "0 < ilength i" using False word_gt_0 [of "ilength i"] by simp
  have u: "unat (ucast (ilength i) :: uint32) = unat (ilength i)"
    by (simp add: unsigned_ucast_eq take_bit_nat_eq_self less_trans [OF unat_word8_lt])
  have "unat (ilength i) \<le> 32" "length (ivalue i) = 32" using assms by (auto simp: int256_ok_def)
  then have "0 < (ucast (ilength i) :: uint32)" "(ucast (ilength i) :: uint32) \<le> 32" "unat (ucast (ilength i) :: uint32) \<le> length (ivalue i)"
    using nz u by (simp_all add: word_less_nat_alt word_le_nat_alt)
  from convertUint256BE_spec [OF this] show ?thesis using nz u by (auto simp: int256_of_rlp_def rlp_val_def)
next
  case True
  then show ?thesis by (simp add: int256_of_rlp_def rlp_val_def)
qed

lemma digits_10_256: "n < 2 ^ 256 \<Longrightarrow> length (digits 10 n) \<le> 78"
proof -
  assume "n < 2 ^ 256"
  then have "n < 10 ^ Suc 77" by simp
  then show ?thesis using length_digits_le [of 10 n 77] by simp
qed

text \<open>The fee: the product of the two fields, in decimal, moved by the formatter of the SDK, with the ticker.\<close>

definition fee_string :: "'c sign_platform \<Rightarrow> string \<Rightarrow> nat \<Rightarrow> nat \<Rightarrow> string option" where
  "fee_string S ticker fee n =
     (case sp_adjustDecimals S (digit_str 10 fee) n 18 of
        None \<Rightarrow> None
      | Some d \<Rightarrow> if n < length d + 1 + length ticker + 1 then None else Some (d @ '' '' @ ticker))"

lemma raw_fee_to_string_spec:
  assumes "length ticker \<le> se_max_ticker (pe_swap (sp_plugins S))"
  shows "raw_fee_to_string S ticker f n = Some (fee_string S ticker (val256 f) n)"
proof -
  let ?out = "replicate 100 NUL"
  have l: "length (digit_str 10 (val256 f)) < unat (100 :: uint32)" using digits_10_256 [OF val256_less, of f] by simp
  have t: "tostring256 f 10 ?out 100 = Some (True, digit_str 10 (val256 f) @ NUL # drop (Suc (length (digit_str 10 (val256 f)))) ?out)"
    using tostring256_spec [of 10 100 ?out f] l by simp
  have c: "c_str (digit_str 10 (val256 f) @ NUL # drop (Suc (length (digit_str 10 (val256 f)))) ?out) = digit_str 10 (val256 f)"
    by (rule c_str_terminated) (rule digit_str_no_NUL, simp_all)
  show ?thesis using assms c
    by (auto simp: raw_fee_to_string_def t fee_string_def WEI_DECIMALS_def strlcat_def min_def Let_def split: option.split)
qed

lemma max_transaction_fee_to_string_spec:
  assumes i: "int256_ok 32 gp" "int256_ok 32 gl" and c: "mult_contract (sp_cx S)"
    and t: "length ticker \<le> se_max_ticker (pe_swap (sp_plugins S))"
  shows "\<exists>r. max_transaction_fee_to_string S ticker gp gl n = Some r \<and>
     (\<forall>fee. r = Some fee \<longrightarrow> rlp_val gp * rlp_val gl < 2 ^ 256 \<and> fee_string S ticker (rlp_val gp * rlp_val gl) n = Some fee)"
proof -
  obtain a where a: "int256_of_rlp gp = Some (True, a)" "val256 a = rlp_val gp" using int256_of_rlp_spec [OF i(1)] by auto
  obtain b where b: "int256_of_rlp gl = Some (True, b)" "val256 b = rlp_val gl" using int256_of_rlp_spec [OF i(2)] by auto
  obtain m where m: "mul256 (sp_cx S) a b = Some m" "\<forall>p. m = Some p \<longrightarrow> rlp_val gp * rlp_val gl < 2 ^ 256 \<and> val256 p = rlp_val gp * rlp_val gl"
    using mul256_spec [OF c, of a b] a(2) b(2) by (auto split: option.splits if_splits)
  show ?thesis using a(1) b(1) m by (cases m) (simp_all add: max_transaction_fee_to_string_def raw_fee_to_string_spec [OF t])
qed

lemma nonce_to_string_spec:
  assumes "int256_ok 32 i" "0 < n"
  shows "nonce_to_string i n = Some (if length (digit_str 10 (rlp_val i)) < unat n then Some (digit_str 10 (rlp_val i)) else None)"
proof -
  obtain a where a: "int256_of_rlp i = Some (True, a)" "val256 a = rlp_val i" using int256_of_rlp_spec [OF assms(1)] by auto
  let ?out = "replicate (unat n) NUL"
  have n: "0 < unat n" using assms(2) by (simp add: word_less_nat_alt)
  have c: "c_str (digit_str 10 (rlp_val i) @ NUL # zs) = digit_str 10 (rlp_val i)" for zs
    by (rule c_str_terminated) (rule digit_str_no_NUL, simp_all)
  show ?thesis using tostring256_spec [of 10 n ?out a] n a c by (auto simp: nonce_to_string_def split: if_splits)
qed

section \<open>What a stage leaves alone\<close>

text \<open>The promise of a swap: everything but the flags and the mode.\<close>

definition promise_kept :: "swap_globals \<Rightarrow> swap_globals \<Rightarrow> bool" where
  "promise_kept g g' \<longleftrightarrow> G_swap_expected_chain_id g' = G_swap_expected_chain_id g \<and>
     G_swap_has_expected_token_address g' = G_swap_has_expected_token_address g \<and>
     G_swap_expected_token_address g' = G_swap_expected_token_address g \<and>
     G_swap_expected_value_check g' = G_swap_expected_value_check g \<and> G_swap_expected_value g' = G_swap_expected_value g \<and>
     G_swap_crosschain_hash g' = G_swap_crosschain_hash g \<and> exp_toAddress g' = exp_toAddress g \<and>
     exp_fullAmount g' = exp_fullAmount g \<and> exp_maxFee g' = exp_maxFee g"

text \<open>The transaction: the parsed state but for the presence of data and the state of the plugins.\<close>

definition fin_frame :: "'c sign_state \<Rightarrow> 'c sign_state \<Rightarrow> bool" where
  "fin_frame s s' \<longleftrightarrow>
     (\<exists>p b. st_tx s' = (st_tx s)\<lparr>content := (content (st_tx s))\<lparr>dataPresent := b\<rparr>, plug := (p, snd (plug (st_tx s)))\<rparr>) \<and>
     st_bip32 s' = st_bip32 s \<and> sign_mode s' = sign_mode s \<and> promise_kept (swap_of s) (swap_of s')"

lemma promise_kept_refl [simp]: "promise_kept g g"
  by (simp add: promise_kept_def)

lemma promise_kept_trans: "promise_kept a b \<Longrightarrow> promise_kept b c \<Longrightarrow> promise_kept a c"
  by (simp add: promise_kept_def)

lemma fin_frameI:
  "st_tx s' = (st_tx s)\<lparr>content := (content (st_tx s))\<lparr>dataPresent := b\<rparr>, plug := (p, snd (plug (st_tx s)))\<rparr> \<Longrightarrow>
   st_bip32 s' = st_bip32 s \<Longrightarrow> sign_mode s' = sign_mode s \<Longrightarrow> promise_kept (swap_of s) (swap_of s') \<Longrightarrow> fin_frame s s'"
  unfolding fin_frame_def by blast

lemma tx_same: "t\<lparr>content := (content t)\<lparr>dataPresent := dataPresent (content t)\<rparr>, plug := (p, snd (plug t))\<rparr> = t\<lparr>plug := (p, snd (plug t))\<rparr>"
proof -
  have "(content t)\<lparr>dataPresent := dataPresent (content t)\<rparr> = content t" by (cases "content t") simp
  then show ?thesis by (cases t) simp
qed

lemma fin_frame_refl [simp]: "fin_frame s s"
proof (rule fin_frameI)
  show "st_tx s = (st_tx s)\<lparr>content := (content (st_tx s))\<lparr>dataPresent := dataPresent (content (st_tx s))\<rparr>,
      plug := (fst (plug (st_tx s)), snd (plug (st_tx s)))\<rparr>"
    unfolding tx_same by (cases "st_tx s") simp
qed simp_all

lemma fin_frame_trans: "fin_frame s s' \<Longrightarrow> fin_frame s' s'' \<Longrightarrow> fin_frame s s''"
proof -
  assume "fin_frame s s'" "fin_frame s' s''"
  then obtain p b p' b' where
    a: "st_tx s' = (st_tx s)\<lparr>content := (content (st_tx s))\<lparr>dataPresent := b\<rparr>, plug := (p, snd (plug (st_tx s)))\<rparr>"
    "st_bip32 s' = st_bip32 s" "sign_mode s' = sign_mode s" "promise_kept (swap_of s) (swap_of s')"
    and b: "st_tx s'' = (st_tx s')\<lparr>content := (content (st_tx s'))\<lparr>dataPresent := b'\<rparr>, plug := (p', snd (plug (st_tx s')))\<rparr>"
    "st_bip32 s'' = st_bip32 s'" "sign_mode s'' = sign_mode s'" "promise_kept (swap_of s') (swap_of s'')"
    unfolding fin_frame_def by blast
  have "st_tx s'' = (st_tx s)\<lparr>content := (content (st_tx s))\<lparr>dataPresent := b'\<rparr>, plug := (p', snd (plug (st_tx s)))\<rparr>"
    unfolding b(1) a(1) by simp
  then show ?thesis using a b promise_kept_trans unfolding fin_frame_def by metis
qed

lemma fin_frame_same:
  assumes "fin_frame s s'"
  shows "get_tx_chain_id (st_tx s') = get_tx_chain_id (st_tx s)" "txType (st_tx s') = txType (st_tx s)"
    "store_calldata (st_tx s') = store_calldata (st_tx s)" "sha3 (st_tx s') = sha3 (st_tx s)"
    "tx_appState (st_tx s') = tx_appState (st_tx s)" "G_swap_tx_had_calldata (st_tx s') = G_swap_tx_had_calldata (st_tx s)"
    "tk_pluginStatus (st_tx s') = tk_pluginStatus (st_tx s)" "destination (content (st_tx s')) = destination (content (st_tx s))"
    "destinationLength (content (st_tx s')) = destinationLength (content (st_tx s))" "tvalue (content (st_tx s')) = tvalue (content (st_tx s))"
    "gasprice (content (st_tx s')) = gasprice (content (st_tx s))" "startgas (content (st_tx s')) = startgas (content (st_tx s))"
    "tnonce (content (st_tx s')) = tnonce (content (st_tx s))" "vLength (content (st_tx s')) = vLength (content (st_tx s))"
    "v (content (st_tx s')) = v (content (st_tx s))" "st_bip32 s' = st_bip32 s" "promise_kept (swap_of s) (swap_of s')"
    "tx_gcs (st_tx s') = tx_gcs (st_tx s)"
proof -
  obtain p b where e: "st_tx s' = (st_tx s)\<lparr>content := (content (st_tx s))\<lparr>dataPresent := b\<rparr>, plug := (p, snd (plug (st_tx s)))\<rparr>"
    using assms unfolding fin_frame_def by blast
  show "get_tx_chain_id (st_tx s') = get_tx_chain_id (st_tx s)" by (simp add: e get_tx_chain_id_def)
  show "tx_gcs (st_tx s') = tx_gcs (st_tx s)" by (simp add: e tx_gcs_def)
  show "st_bip32 s' = st_bip32 s" "promise_kept (swap_of s) (swap_of s')" using assms unfolding fin_frame_def by blast+
  show "txType (st_tx s') = txType (st_tx s)" "store_calldata (st_tx s') = store_calldata (st_tx s)" "sha3 (st_tx s') = sha3 (st_tx s)"
    "tx_appState (st_tx s') = tx_appState (st_tx s)" "G_swap_tx_had_calldata (st_tx s') = G_swap_tx_had_calldata (st_tx s)"
    "tk_pluginStatus (st_tx s') = tk_pluginStatus (st_tx s)" "destination (content (st_tx s')) = destination (content (st_tx s))"
    "destinationLength (content (st_tx s')) = destinationLength (content (st_tx s))" "tvalue (content (st_tx s')) = tvalue (content (st_tx s))"
    "gasprice (content (st_tx s')) = gasprice (content (st_tx s))" "startgas (content (st_tx s')) = startgas (content (st_tx s))"
    "tnonce (content (st_tx s')) = tnonce (content (st_tx s))" "vLength (content (st_tx s')) = vLength (content (st_tx s))"
    "v (content (st_tx s')) = v (content (st_tx s))"
    by (simp_all add: e)
qed

lemma fin_frame_inv:
  assumes "fin_frame s s'"
  shows "tx_inv (st_tx s') = tx_inv (st_tx s)"
proof -
  obtain p b where e: "st_tx s' = (st_tx s)\<lparr>content := (content (st_tx s))\<lparr>dataPresent := b\<rparr>, plug := (p, snd (plug (st_tx s)))\<rparr>"
    using assms unfolding fin_frame_def by blast
  show ?thesis by (simp add: e tx_inv_def tx_base_def content_ok_def)
qed

lemma plugins_of_set [simp]: "plugins_of (set_plugins p s) = p"
  by (simp add: plugins_of_def set_plugins_def)

lemma swap_of_set [simp]: "swap_of (set_swap g s) = g"
  by (simp add: swap_of_def set_swap_def)

lemma plugins_of_set_swap [simp]: "plugins_of (set_swap g s) = (plugins_of s)\<lparr>ps_swap := g\<rparr>"
  by (simp add: set_swap_def)

lemma fin_frame_set_plugins: "promise_kept (swap_of s) (ps_swap p) \<Longrightarrow> fin_frame s (set_plugins p s)"
  by (rule fin_frameI [where p = p and b = "dataPresent (content (st_tx s))"])
    (simp_all add: set_plugins_def swap_of_def plugins_of_def tx_same)

lemma fin_frame_data_present: "fin_frame s (set_data_present b s)"
proof (rule fin_frameI)
  show "st_tx (set_data_present b s) = (st_tx s)\<lparr>content := (content (st_tx s))\<lparr>dataPresent := b\<rparr>, plug := (fst (plug (st_tx s)), snd (plug (st_tx s)))\<rparr>"
    by (cases "st_tx s") (simp add: set_data_present_def)
qed (simp_all add: set_data_present_def swap_of_def plugins_of_def)

lemma fin_frame_set_swap: "promise_kept (swap_of s) g \<Longrightarrow> fin_frame s (set_swap g s)"
  by (simp add: set_swap_def fin_frame_set_plugins)

lemma fin_frame_review:
  assumes "st_tx s' = st_tx s" "st_bip32 s' = st_bip32 s" "sign_mode s' = sign_mode s"
  shows "fin_frame s s'"
proof (rule fin_frameI)
  show "st_tx s' = (st_tx s)\<lparr>content := (content (st_tx s))\<lparr>dataPresent := dataPresent (content (st_tx s))\<rparr>,
      plug := (fst (plug (st_tx s)), snd (plug (st_tx s)))\<rparr>"
    unfolding tx_same assms(1) by (cases "st_tx s") simp
qed (simp_all add: assms swap_of_def plugins_of_def)

section \<open>Reset\<close>

text \<open>At rest: no transaction is being parsed, no plugin is registered and the memory of the last one is released.\<close>

definition at_rest :: "'c sign_state \<Rightarrow> bool" where
  "at_rest s \<longleftrightarrow> tx_appState (st_tx s) = APP_STATE_IDLE \<and> currentField (st_tx s) = RLP_NONE \<and> sha3 (st_tx s) = [] \<and>
     \<not> store_calldata (st_tx s) \<and> \<not> g_tx_hash_ctx s \<and> plugin_type (plugins_of s) = PLUGIN_TYPE_NONE \<and>
     as_tokens (ps_assets (plugins_of s)) = [] \<and> as_nfts (ps_assets (plugins_of s)) = [] \<and> under_review s = None"

definition v_size_ok :: "'c sign_platform \<Rightarrow> bool" where
  "v_size_ok S \<longleftrightarrow> 0 < sp_v_size S \<and> sp_v_size S < 256"

lemma gcs_cleanup_parked: "gcs_parked (gcs_cleanup g) = None"
  by (simp add: gcs_cleanup_def Let_def tx_ctx_cleanup_def field_table_cleanup_def split: option.split)

lemma content_zero_ok: "0 < n \<Longrightarrow> n < 256 \<Longrightarrow> content_ok (content_zero n)"
  by (simp add: content_ok_def content_zero_def int256_ok_def int256_zero_def)

lemma sign_reset_result:
  assumes S: "v_size_ok S" and p: "\<not> store_calldata (st_tx s) \<longrightarrow> parked_ok (g_parked_calldata (st_tx s))" and sw: "\<not> called_from_swap S"
  shows "\<exists>s'. sign_reset S s = Returns s' \<and> at_rest s' \<and> tx_inv (st_tx s') \<and> sent s' = sent s"
proof -
  obtain s' where s': "sign_reset S s = Returns s'" using sw by (simp add: sign_reset_def Let_def)
  have a: "as_tokens (forget_known_assets x) = []" "as_nfts (forget_known_assets x) = []" for x
    by (simp_all add: forget_known_assets_def clear_token_infos_def clear_nft_infos_def)
  have "at_rest s' \<and> sent s' = sent s" using s' sw
    by (auto simp: sign_reset_def Let_def at_rest_def plugins_of_def gcs_out_def plugins_reset_def a)
  moreover have "tx_inv (st_tx s')"
  proof -
    have z: "content_ok (content_zero (sp_v_size S))" using S by (simp add: v_size_ok_def content_zero_ok)
    show ?thesis
    proof (cases "store_calldata (st_tx s)")
      case True
      then show ?thesis using s' sw z gcs_cleanup_parked
        by (simp add: sign_reset_def Let_def, elim subst) (simp add: tx_inv_def tx_base_def gcs_out_def parked_ok_def)
    next
      case False
      then show ?thesis using s' sw z p
        by (simp add: sign_reset_def Let_def, elim subst) (simp add: tx_inv_def tx_base_def)
    qed
  qed
  ultimately show ?thesis using s' by blast
qed

end
