(* ===== verification/Finalize_Inv.thy ===== *)
theory Finalize_Inv
  imports Finalize_Frame
begin

text \<open>
  What the preparation of the review guarantees, stage by stage: that it does not fault, what a stage has checked when it
  goes on; then the results for the whole: in a swap a transaction is signed only if it is the promised one, and outside of
  it the strings of the review are those of the transaction.
\<close>

section \<open>Stages\<close>

text \<open>What the platform is relied on for.  An error of a cryptographic function is an error for the main loop.\<close>

definition is_error :: "sw \<Rightarrow> bool" where
  [simp]: "is_error sw \<longleftrightarrow> sw \<notin> {SWO_SUCCESS, SWO_NO_RESPONSE, SWO_COMMAND_CODE_NOT_SUPPORTED}"

definition platform_ok :: "'c sign_platform \<Rightarrow> bool" where
  "platform_ok S \<longleftrightarrow> v_size_ok S \<and> mult_contract (sp_cx S) \<and> (\<forall>x e. sp_hash_final S x = Inl e \<longrightarrow> is_error e) \<and>
     (\<forall>x e. sp_derive S x = Inl e \<longrightarrow> is_error e) \<and>
     (\<forall>n \<in> set (dyn_networks S @ NETWORK_MAPPING). length (net_ticker n) \<le> se_max_ticker (pe_swap (sp_plugins S))) \<and>
     length (cfg_ticker (app_cfg S)) \<le> se_max_ticker (pe_swap (sp_plugins S)) \<and> 3 \<le> se_max_ticker (pe_swap (sp_plugins S))"

text \<open>A stage that does not fault: it goes on with \<open>Q\<close>, or it ends without success.\<close>

definition fin_good :: "'c sign_platform \<Rightarrow> ('c sign_state \<Rightarrow> bool) \<Rightarrow> 'c fin \<Rightarrow> bool" where
  "fin_good S Q m \<longleftrightarrow>
     (case m of
        None \<Rightarrow> False
      | Some (Inr s) \<Rightarrow> Q s
      | Some (Inl (Returns (sw, s))) \<Rightarrow> (is_error sw \<or> sw = SWO_NO_RESPONSE \<and> \<not> called_from_swap S) \<and> tx_inv (st_tx s) \<and> under_review s = None
      | Some (Inl App_exit) \<Rightarrow> called_from_swap S
      | Some (Inl (Swap_done r)) \<Rightarrow> False)"

lemma fin_good_bind: "fin_good S Q m \<Longrightarrow> (\<And>s. Q s \<Longrightarrow> fin_good S R (f s)) \<Longrightarrow> fin_good S R (fbind m f)"
proof -
  assume a: "fin_good S Q m" and f: "\<And>s. Q s \<Longrightarrow> fin_good S R (f s)"
  consider r where "m = Some (Inl r)" | s where "m = Some (Inr s)" "Q s"
    using a by (auto simp: fin_good_def split: option.splits sum.splits)
  then show ?thesis
  proof cases
    case 1
    then show ?thesis using a by (simp add: fbind_def fin_good_def split: outcome.splits prod.splits)
  next
    case 2
    then show ?thesis using f by (simp add: fbind_def)
  qed
qed

lemma fin_good_mono: "fin_good S Q m \<Longrightarrow> (\<And>s. Q s \<Longrightarrow> R s) \<Longrightarrow> fin_good S R m"
  by (auto simp: fin_good_def split: option.splits sum.splits outcome.splits)

lemma fin_good_Inr [simp]: "fin_good S Q (Some (Inr s)) = Q s"
  by (simp add: fin_good_def)

lemma fin_good_exit [simp]: "fin_good S Q fin_exit = called_from_swap S"
  by (simp add: fin_good_def fin_exit_def)

lemma fin_good_end [simp]: "is_error sw \<Longrightarrow> fin_good S Q (fin_end sw s) = (tx_inv (st_tx s) \<and> under_review s = None)"
  by (auto simp: fin_good_def fin_end_def free_hash_def)

lemma fin_good_report:
  assumes "platform_ok S" "tx_inv (st_tx s)"
  shows "fin_good S Q (report_finalize_error S s)"
proof (cases "called_from_swap S")
  case True
  then show ?thesis by (simp add: fin_good_def report_finalize_error_def io_seproxyhal_send_status_def sign_reset_def)
next
  case False
  have "parked_ok (g_parked_calldata (st_tx s))" using assms(2) by (simp add: tx_inv_def tx_base_def)
  then obtain s' where "sign_reset S s = Returns s'" "at_rest s'" "tx_inv (st_tx s')"
    using sign_reset_result [of S s] assms(1) False by (auto simp: platform_ok_def)
  then show ?thesis using False by (simp add: fin_good_def report_finalize_error_def io_seproxyhal_send_status_def free_hash_def at_rest_def)
qed

definition ready_to_finalize :: "'c sign_state \<Rightarrow> bool" where
  "ready_to_finalize s \<longleftrightarrow> tx_inv (st_tx s) \<and> under_review s = None"

lemma fin_frame_ready: "fin_frame s s' \<Longrightarrow> under_review s' = under_review s \<Longrightarrow> ready_to_finalize s' = ready_to_finalize s"
  by (simp add: ready_to_finalize_def fin_frame_inv)

lemma base_ticker_length:
  assumes "platform_ok S"
  shows "length (base_ticker S s) \<le> se_max_ticker (pe_swap (sp_plugins S))"
proof -
  have "length (net_ticker n) \<le> se_max_ticker (pe_swap (sp_plugins S))"
    if "get_network_from_chain_id (dyn_networks S) c True = Some n" for n c
    using get_network_from_chain_id_Some [OF that] assms by (auto simp: platform_ok_def)
  then show ?thesis using assms
    by (auto simp: base_ticker_def get_displayable_ticker_def get_network_ticker_from_chain_id_def platform_ok_def g_unknown_ticker_def
        split: option.splits)
qed

lemma finalize_chain_good:
  assumes "platform_ok S" "ready_to_finalize s"
  shows "fin_good S (\<lambda>s'. s' = s \<and>
     (cfg_chain_id (app_cfg S) = 1 \<or> cfg_chain_id (app_cfg S) = get_tx_chain_id (st_tx s)) \<and>
     (called_from_swap S \<longrightarrow> get_tx_chain_id (st_tx s) = G_swap_expected_chain_id (swap_of s)) \<and>
     \<not> (txType (st_tx s) = LEGACY \<and> vLength (content (st_tx s)) = 0)) (finalize_chain S s)"
proof -
  have r: "fin_good S Q (report_finalize_error S s)" for Q
    using assms by (simp add: fin_good_report ready_to_finalize_def)
  show ?thesis by (simp add: finalize_chain_def Let_def r ETHEREUM_MAINNET_CHAINID_def)
qed

lemma finalize_sender_good:
  assumes S: "platform_ok S" and s: "ready_to_finalize s"
  shows "fin_good S (\<lambda>s'. fin_frame s s' \<and> ready_to_finalize s' \<and> plugins_of s' = plugins_of s \<and> g_tx_hash_ctx s \<and>
     dataPresent (content (st_tx s')) = dataPresent (content (st_tx s)) \<and>
     sp_hash_final S (sha3 (st_tx s)) = Inr (tx_hash s') \<and> sent s' = sent s \<and>
     (\<exists>key. sp_derive S (st_bip32 s) = Inr key \<and> fromAddressRaw (review s') = sp_address_of_key S key) \<and>
     address_to_string S (fromAddressRaw (review s')) 20 43 (cfg_chain_id (app_cfg S)) = Some (fromAddress (review s'))) (finalize_sender S s)"
proof (cases "g_tx_hash_ctx s")
  case False
  then show ?thesis using s by (simp add: finalize_sender_def ready_to_finalize_def)
next
  case True
  show ?thesis
  proof (cases "sp_hash_final S (sha3 (st_tx s))")
    case (Inl e)
    then have "is_error e" using S by (auto simp: platform_ok_def)
    then show ?thesis using True Inl s by (simp add: finalize_sender_def ready_to_finalize_def)
  next
    case (Inr h)
    show ?thesis
    proof (cases "sp_derive S (st_bip32 s)")
      case (Inl e)
      then have "is_error e" using S by (auto simp: platform_ok_def)
      then show ?thesis using True \<open>sp_hash_final S (sha3 (st_tx s)) = Inr h\<close> Inl s
        by (simp add: finalize_sender_def ready_to_finalize_def get_public_key_def)
    next
      case (Inr key)
      note k = Inr
      show ?thesis
      proof (cases "address_to_string S (sp_address_of_key S key) 20 43 (cfg_chain_id (app_cfg S))")
        case None
        then show ?thesis using True \<open>sp_hash_final S (sha3 (st_tx s)) = Inr h\<close> k s
          by (simp add: finalize_sender_def ready_to_finalize_def get_public_key_def)
      next
        case (Some a)
        let ?s = "s\<lparr>tx_hash := h, review := (review s)\<lparr>fromAddressRaw := sp_address_of_key S key, fromAddress := a\<rparr>\<rparr>"
        have "finalize_sender S s = Some (Inr ?s)" using True \<open>sp_hash_final S (sha3 (st_tx s)) = Inr h\<close> k Some
          by (simp add: finalize_sender_def get_public_key_def)
        moreover have "fin_frame s ?s" by (rule fin_frame_review) simp_all
        ultimately show ?thesis using True \<open>sp_hash_final S (sha3 (st_tx s)) = Inr h\<close> k Some s
          by (simp add: ready_to_finalize_def plugins_of_def)
      qed
    qed
  qed
qed

lemma finalize_blind_good:
  assumes "platform_ok S" "ready_to_finalize s"
  shows "fin_good S (\<lambda>s'. s' = s \<and> (\<not> store \<longrightarrow> dataPresent (content (st_tx s)) \<longrightarrow> env_dataAllowed (sp_env S))) (finalize_blind S store s)"
proof -
  have t: "tx_inv (t\<lparr>data_ui := u\<rparr>) = tx_inv t" for t :: "('b plugin_state \<times> gcs) txs" and u by (simp add: tx_inv_def tx_base_def)
  have "fin_good S Q (report_finalize_error S s)" for Q using assms by (simp add: fin_good_report ready_to_finalize_def)
  from this [of "\<lambda>_. False"] show ?thesis
    by (auto simp: finalize_blind_def fin_good_def t split: option.splits sum.splits outcome.splits prod.splits)
qed

section \<open>The plugin\<close>

text \<open>The route of a token: the internal plugin compared the calldata with the promise.\<close>

definition erc20_promised :: "'c sign_platform \<Rightarrow> 'c sign_state \<Rightarrow> bool" where
  "erc20_promised S s \<longleftrightarrow>
     (let p = plugins_of s; c = ctx_erc20 p; ct = content (st_tx s); E = sp_plugins S
      in plugin_type p = PLUGIN_TYPE_OLD_INTERNAL \<and> pluginName p = ''-erc20'' \<and> selectorIndex c = ERC20_TRANSFER \<and>
         destination_parsed c \<and> amount_parsed c \<and> extra_data_len c = 0 \<and>
         (G_swap_has_expected_token_address (swap_of s) \<longrightarrow> destination ct = G_swap_expected_token_address (swap_of s)) \<and>
         (\<exists>to. pe_displayable_address E (destinationAddress c) (FULL_AMOUNT_SIZE (pe_swap E)) (cfg_chain_id (app_cfg S)) = Some to \<and>
            swap_check_destination (swap_of s) to) \<and>
         (\<exists>t. get_matching_token_info (Some (get_tx_chain_id (st_tx s))) (Some (destination ct)) (as_tokens (ps_assets p)) = Some t \<and>
            se_amount_to_string (pe_swap E) (erc20_amount c) (unat (tok_decimals t)) (tok_ticker t) (FULL_AMOUNT_SIZE (pe_swap E)) =
              Some (exp_fullAmount (swap_of s))))"

text \<open>The route of a call: the plugin that hashed the calldata found the promised hash.\<close>

definition calldata_promised :: "'c sign_platform \<Rightarrow> 'c sign_state \<Rightarrow> bool" where
  "calldata_promised S s \<longleftrightarrow> plugin_type (plugins_of s) = PLUGIN_TYPE_SWAP_WITH_CALLDATA \<and>
     G_swap_crosschain_hash (swap_of s) = Some (pe_sha256 (sp_plugins S) (update_hash (ctx_swap (plugins_of s))))"

text \<open>The flags of a swap after the plugin: those set have been earned.\<close>

definition flags_earned :: "'c sign_platform \<Rightarrow> 'c sign_state \<Rightarrow> swap_globals \<Rightarrow> bool" where
  "flags_earned S s g \<longleftrightarrow>
     (G_swap_checked g \<longrightarrow> G_swap_checked (swap_of s) \<or> erc20_promised S s) \<and>
     (G_swap_calldata_validated g \<longrightarrow> G_swap_calldata_validated (swap_of s) \<or> erc20_promised S s \<or>
        G_swap_mode g = SWAP_MODE_CROSSCHAIN_SUCCESS) \<and>
     (G_swap_mode g = SWAP_MODE_CROSSCHAIN_SUCCESS \<longrightarrow> G_swap_mode (swap_of s) = SWAP_MODE_CROSSCHAIN_SUCCESS \<or> calldata_promised S s) \<and>
     G_swap_response_ready g = G_swap_response_ready (swap_of s)"

lemma erc20_checks_result:
  assumes "erc20_swap_checks (sp_plugins S) (content (st_tx s)) (get_tx_chain_id (st_tx s)) (ctx_erc20 (plugins_of s)) (swap_of s)
      (ps_assets (plugins_of s)) = r"
    and "plugin_type (plugins_of s) = PLUGIN_TYPE_OLD_INTERNAL" "pluginName (plugins_of s) = ''-erc20''"
    and "destination_parsed (ctx_erc20 (plugins_of s))" "amount_parsed (ctx_erc20 (plugins_of s))"
  shows "r = App_exit \<or> r = Returns None \<or> erc20_promised S s \<and>
    r = Returns (Some ((swap_of s)\<lparr>G_swap_checked := True, G_swap_calldata_validated := True\<rparr>))"
  using assms
  by (simp add: erc20_swap_checks_def erc20_promised_def Let_def app_cfg_def swap_check_amount_def split: if_splits option.splits)

text \<open>What a call of the plugin may change.\<close>

lemma call_finalize_result:
  assumes h: "called_from_swap S \<longrightarrow> G_swap_crosschain_hash (swap_of s) \<noteq> None" and True: "plugin_successful status"
  shows "call_finalize (sp_plugins S) status (content (st_tx s)) (get_tx_chain_id (st_tx s)) addr (plugins_of s) = Some App_exit \<and> called_from_swap S \<or>
    (\<exists>r f p. call_finalize (sp_plugins S) status (content (st_tx s)) (get_tx_chain_id (st_tx s)) addr (plugins_of s) = Some (Returns (r, f, p)) \<and>
       promise_kept (swap_of s) (ps_swap p) \<and> plugin_type p = plugin_type (plugins_of s) \<and>
       (plugin_successful r \<longrightarrow> flags_earned S s (ps_swap p) \<and> plugin_type p \<noteq> PLUGIN_TYPE_NONE))"
proof -
  have c: "pe_called_from_swap (sp_plugins S) = called_from_swap S" by (simp add: called_from_swap_def)
  have x: "ps_swap (plugins_of s) = swap_of s" by (simp add: swap_of_def)
  have keep: "flags_earned S s (swap_of s)" by (simp add: flags_earned_def)
    show ?thesis
    proof (cases "plugin_type (plugins_of s)")
      case PLUGIN_TYPE_OLD_INTERNAL
      note t = PLUGIN_TYPE_OLD_INTERNAL
      let ?c = "ctx_erc20 (plugins_of s)"
      show ?thesis
      proof (cases "pluginName (plugins_of s) = ''-erc20'' \<and> destination_parsed ?c \<and> amount_parsed ?c \<and> called_from_swap S")
        case False
        then show ?thesis using True t
          by (auto simp: call_finalize_def x keep c erc20_finalize_def method_result_def plugin_finalize_zero_def split: prod.splits)
      next
        case erc: True
        define r where "r = erc20_swap_checks (sp_plugins S) (content (st_tx s)) (get_tx_chain_id (st_tx s)) ?c (swap_of s) (ps_assets (plugins_of s))"
        have f: "flags_earned S s ((swap_of s)\<lparr>G_swap_checked := True, G_swap_calldata_validated := True\<rparr>)" if "erc20_promised S s"
          using that by (simp add: flags_earned_def)
        have k: "promise_kept (swap_of s) ((swap_of s)\<lparr>G_swap_checked := True, G_swap_calldata_validated := True\<rparr>)"
          by (simp add: promise_kept_def)
        from erc20_checks_result [OF r_def [symmetric] t] erc show ?thesis
          using True t f k by (auto simp: call_finalize_def x keep c erc20_finalize_def r_def [symmetric] Let_def)
      qed
    next
      case PLUGIN_TYPE_SWAP_WITH_CALLDATA
      note t = PLUGIN_TYPE_SWAP_WITH_CALLDATA
      show ?thesis
      proof (cases "called_from_swap S")
        case False
        then show ?thesis using True t by (simp add: call_finalize_def x c handle_finalize_swap_with_calldata_def keep)
      next
        case sw: True
        then obtain h where hh: "G_swap_crosschain_hash (swap_of s) = Some h" using h by auto
        have e: "promise_kept (swap_of s) ((swap_of s)\<lparr>G_swap_mode := m\<rparr>)" for m by (simp add: promise_kept_def)
        have n: "flags_earned S s ((swap_of s)\<lparr>G_swap_mode := SWAP_MODE_ERROR\<rparr>)" by (simp add: flags_earned_def)
        have y: "flags_earned S s ((swap_of s)\<lparr>G_swap_mode := SWAP_MODE_CROSSCHAIN_SUCCESS\<rparr>)"
          if "pe_sha256 (sp_plugins S) (update_hash (ctx_swap (plugins_of s))) = h"
          using that hh t by (simp add: flags_earned_def calldata_promised_def)
        show ?thesis using True t sw hh e n y
          by (auto simp: call_finalize_def x c handle_finalize_swap_with_calldata_def)
      qed
    qed (use True in \<open>auto simp: call_finalize_def x keep plugin_successful_def split: prod.splits\<close>)
qed

lemma call_info_same:
  assumes "call_info E status ct i1 i2 p = (r, i, q)"
  shows "ps_swap q = ps_swap p" "plugin_type q = plugin_type p"
  using assms by (auto simp: call_info_def Let_def split: if_splits prod.splits pluginType.splits)

text \<open>After the plugin: only its flags and the presence of data may differ, and the data is only hidden by a plugin.\<close>

definition plugin_done :: "'c sign_platform \<Rightarrow> 'c sign_state \<Rightarrow> 'c sign_state \<Rightarrow> bool" where
  "plugin_done S s s' \<longleftrightarrow> fin_frame s s' \<and> ready_to_finalize s' \<and> review s' = review s \<and> tx_hash s' = tx_hash s \<and> sent s' = sent s \<and>
     flags_earned S s (swap_of s') \<and>
     (plugin_type (plugins_of s') = PLUGIN_TYPE_NONE \<longrightarrow> \<not> called_from_swap S \<longrightarrow>
        dataPresent (content (st_tx s')) = dataPresent (content (st_tx s)))"

lemma plugin_done_set_plugins:
  assumes "ready_to_finalize s" "promise_kept (swap_of s) (ps_swap p)" "flags_earned S s (ps_swap p)"
  shows "plugin_done S s (set_plugins p s)"
proof -
  have f: "fin_frame s (set_plugins p s)" by (rule fin_frame_set_plugins [OF assms(2)])
  have u: "under_review (set_plugins p s) = under_review s" by (simp add: set_plugins_def)
  show ?thesis using f assms fin_frame_ready [OF f u] by (simp add: plugin_done_def swap_of_def) (simp add: set_plugins_def)
qed

lemma plugin_done_trans:
  assumes a: "plugin_done S s s'" and f: "fin_frame s' s''" and e: "review s'' = review s'" "tx_hash s'' = tx_hash s'" "sent s'' = sent s'"
      "under_review s'' = under_review s'" "flags_earned S s (swap_of s'')"
    and d: "plugin_type (plugins_of s'') = PLUGIN_TYPE_NONE \<Longrightarrow> \<not> called_from_swap S \<Longrightarrow>
      dataPresent (content (st_tx s'')) = dataPresent (content (st_tx s))"
  shows "plugin_done S s s''"
  using assms fin_frame_trans fin_frame_ready [OF f e(4)] unfolding plugin_done_def by metis

lemma finalize_ui_good:
  assumes S: "platform_ok S" and d: "plugin_done S s s'" and dp: "dataPresent (content (st_tx s')) = dataPresent (content (st_tx s))"
    and t: "plugin_type (plugins_of s') \<noteq> PLUGIN_TYPE_NONE"
  shows "fin_good S (plugin_done S s) (finalize_ui S r ui n s')"
proof -
  have r: "fin_good S Q (report_finalize_error S s')" for Q
    using assms by (simp add: fin_good_report ready_to_finalize_def plugin_done_def)
  have f: "flags_earned S s (swap_of s')" using d by (simp add: plugin_done_def)
  have sw: "swap_of x = ps_swap (plugins_of x)" for x :: "'a sign_state" by (simp add: swap_of_def)
  have a: "plugin_done S s (set_plugins ((plugins_of s')\<lparr>pluginUiMaxItems := k\<rparr>) (set_data_present False s'))" for k
    by (rule plugin_done_trans [OF d fin_frame_trans [OF fin_frame_data_present fin_frame_set_plugins]])
      (use f t in \<open>simp_all add: set_plugins_def set_data_present_def swap_of_def plugins_of_def\<close>)
  have b: "plugin_done S s (set_swap ((swap_of s')\<lparr>G_swap_calldata_validated := True\<rparr>) (set_data_present False s'))"
    if "called_from_swap S" "G_swap_mode (swap_of s') = SWAP_MODE_CROSSCHAIN_SUCCESS"
  proof (rule plugin_done_trans [OF d fin_frame_trans [OF fin_frame_data_present fin_frame_set_swap]])
    show "flags_earned S s (swap_of (set_swap ((swap_of s')\<lparr>G_swap_calldata_validated := True\<rparr>) (set_data_present False s')))"
      using f that(2) by (simp add: flags_earned_def)
  qed (use that in \<open>simp_all add: set_swap_def set_plugins_def set_data_present_def swap_of_def plugins_of_def promise_kept_def\<close>)
  have c: "plugin_done S s (set_plugins ((plugins_of s')\<lparr>plugin_type := PLUGIN_TYPE_NONE\<rparr>) s')"
    by (rule plugin_done_trans [OF d fin_frame_set_plugins])
      (use f dp in \<open>simp_all add: set_plugins_def swap_of_def plugins_of_def\<close>)
  show ?thesis using r a b c by (simp add: finalize_ui_def)
qed

lemma finalize_plugin_good:
  assumes S: "platform_ok S" and s: "ready_to_finalize s" and h: "called_from_swap S \<longrightarrow> G_swap_crosschain_hash (swap_of s) \<noteq> None"
  shows "fin_good S (plugin_done S s) (finalize_plugin S s)"
proof -
  let ?p = "plugins_of s"
  have sw: "swap_of s = ps_swap ?p" by (simp add: swap_of_def)
  have r: "fin_good S Q (report_finalize_error S s)" for Q using S s by (simp add: fin_good_report ready_to_finalize_def)
  have self: "plugin_done S s s" using s by (simp add: plugin_done_def flags_earned_def)
  show ?thesis
  proof (cases "plugin_successful (tk_pluginStatus (st_tx s))")
    case False
    have "plugin_done S s (set_plugins (?p\<lparr>plugin_type := PLUGIN_TYPE_NONE, pluginUiMaxItems := 0\<rparr>) s)"
      by (rule plugin_done_set_plugins [OF s]) (simp_all add: sw flags_earned_def)
    then show ?thesis using False self by (simp add: finalize_plugin_def Let_def)
  next
    case True
    show ?thesis
      using call_finalize_result [OF h True, where addr = "fromAddressRaw (review s)"]
    proof (elim disjE exE conjE)
      fix q f p
      assume c: "call_finalize (sp_plugins S) (tk_pluginStatus (st_tx s)) (content (st_tx s)) (get_tx_chain_id (st_tx s))
           (fromAddressRaw (review s)) ?p = Some (Returns (q, f, p))"
        and p: "promise_kept (swap_of s) (ps_swap p)" "plugin_successful q \<longrightarrow> flags_earned S s (ps_swap p) \<and> plugin_type p \<noteq> PLUGIN_TYPE_NONE"
      have "fin_good S (plugin_done S s) (finalize_info S f (set_plugins p s))" if q: "plugin_successful q"
      proof -
        let ?q = "p\<lparr>token_lookup1 := pf_tokenLookup1 f, token_lookup2 := pf_tokenLookup2 f\<rparr>"
        have d: "plugin_done S s (set_plugins x s)" "dataPresent (content (st_tx (set_plugins x s))) = dataPresent (content (st_tx s))"
          if "ps_swap x = ps_swap p" for x
          by (rule plugin_done_set_plugins [OF s]) (use p q that in \<open>simp_all add: set_plugins_def\<close>)
        have again: "set_plugins y (set_plugins x u) = set_plugins y u" for x y and u :: "'a sign_state" by (simp add: set_plugins_def)
        have u: "fin_good S (plugin_done S s) (finalize_ui S a b n (set_plugins x s))"
          if "ps_swap x = ps_swap p" "plugin_type x = plugin_type p" for x a b n
          by (rule finalize_ui_good [OF S d [OF that(1)]]) (use p q that in simp)
        have e: "fin_good S Q (report_finalize_error S (set_plugins x s))" if "ps_swap x = ps_swap p" for x Q
          using d(1) [OF that] S by (simp add: fin_good_report ready_to_finalize_def plugin_done_def)
        show ?thesis using u e by (auto simp: finalize_info_def Let_def again call_info_same split: prod.splits)
      qed
      moreover have "fin_good S (plugin_done S s) (report_finalize_error S (set_plugins p s))"
        using S s fin_frame_inv [OF fin_frame_set_plugins [OF p(1)]] by (simp add: fin_good_report ready_to_finalize_def)
      ultimately show ?thesis using True c r by (simp add: finalize_plugin_def Let_def)
    qed (use True r in \<open>simp add: finalize_plugin_def Let_def\<close>)
  qed
qed

section \<open>The comparisons and the strings\<close>

lemma finalize_swap_guards_good:
  assumes "platform_ok S" "ready_to_finalize s"
  shows "fin_good S (\<lambda>s'. if called_from_swap S
       then s' = set_swap ((swap_of s)\<lparr>G_swap_response_ready := True\<rparr>) s \<and> \<not> G_swap_response_ready (swap_of s) \<and>
         G_swap_mode (swap_of s) \<in> {SWAP_MODE_STANDARD, SWAP_MODE_CROSSCHAIN_SUCCESS} \<and>
         plugin_type (plugins_of s) \<in> {PLUGIN_TYPE_NONE, PLUGIN_TYPE_OLD_INTERNAL, PLUGIN_TYPE_SWAP_WITH_CALLDATA}
       else s' = s) (finalize_swap_guards S s)"
  using assms by (simp add: finalize_swap_guards_def Let_def)

text \<open>A plain transfer with the destination and the value of the promise; the same strings for the review.\<close>

definition transfer_promised :: "'c sign_platform \<Rightarrow> 'c sign_state \<Rightarrow> bool" where
  "transfer_promised S s \<longleftrightarrow>
     (let c = content (st_tx s); g = swap_of s
      in (\<exists>to. address_to_string S (destination c) (unat (destinationLength c)) 50 (cfg_chain_id (app_cfg S)) = Some to \<and>
            swap_check_destination g to) \<and>
         rlp_val (tvalue c) = (case G_swap_expected_value_check g of SWAP_VALUE_CHECK_ZERO \<Rightarrow> 0 | _ \<Rightarrow> be_val (G_swap_expected_value g)))"

definition transfer_shown :: "'c sign_platform \<Rightarrow> 'c sign_state \<Rightarrow> review_strings \<Rightarrow> bool" where
  "transfer_shown S s r \<longleftrightarrow>
     (let c = content (st_tx s); i = tvalue c
      in (\<exists>to. address_to_string S (destination c) (unat (destinationLength c)) 50 (cfg_chain_id (app_cfg S)) = Some to \<and>
            toAddress r = strlcpy 43 to) \<and>
         (\<exists>am. se_amount_to_string (pe_swap (sp_plugins S)) (take (unat (ilength i)) (ivalue i)) 18 (base_ticker S s) 50 = Some am \<and>
            fullAmount r = strlcpy (FULL_AMOUNT_SIZE (pe_swap (sp_plugins S))) am))"

lemma promise_same: "promise_kept g g' \<Longrightarrow> exp_toAddress g' = exp_toAddress g \<and> exp_maxFee g' = exp_maxFee g \<and>
    exp_fullAmount g' = exp_fullAmount g \<and> G_swap_expected_value g' = G_swap_expected_value g \<and>
    G_swap_expected_value_check g' = G_swap_expected_value_check g"
  by (simp add: promise_kept_def)

lemma transfer_frame:
  assumes "fin_frame s s'"
  shows "transfer_promised S s' = transfer_promised S s" "transfer_shown S s' r = transfer_shown S s r" "base_ticker S s' = base_ticker S s"
  using fin_frame_same [OF assms] promise_same [OF fin_frame_same(17) [OF assms]]
  by (simp_all add: transfer_promised_def transfer_shown_def base_ticker_def swap_check_destination_def Let_def cong: swap_value_check.case_cong)

definition paid :: "'c sign_state \<Rightarrow> 'c sign_state \<Rightarrow> bool" where
  "paid s s' \<longleftrightarrow> fin_frame s s' \<and> ready_to_finalize s' \<and> tx_hash s' = tx_hash s \<and> sent s' = sent s \<and>
     plugin_type (plugins_of s') = plugin_type (plugins_of s) \<and>
     dataPresent (content (st_tx s')) = dataPresent (content (st_tx s)) \<and> fromAddress (review s') = fromAddress (review s) \<and>
     G_swap_calldata_validated (swap_of s') = G_swap_calldata_validated (swap_of s)"

lemma paid_set_checked:
  assumes "ready_to_finalize s"
  shows "paid s (set_swap ((swap_of s)\<lparr>G_swap_checked := True\<rparr>) s)"
proof -
  have f: "fin_frame s (set_swap ((swap_of s)\<lparr>G_swap_checked := True\<rparr>) s)" by (rule fin_frame_set_swap) (simp add: promise_kept_def)
  then show ?thesis using assms fin_frame_ready [OF f] by (simp add: paid_def) (simp add: set_swap_def set_plugins_def swap_of_def plugins_of_def)
qed

lemma paid_review:
  assumes "ready_to_finalize s" "fromAddress r = fromAddress (review s)"
  shows "paid s (s\<lparr>review := r\<rparr>)"
proof -
  have f: "fin_frame s (s\<lparr>review := r\<rparr>)" by (rule fin_frame_review) simp_all
  then show ?thesis using assms fin_frame_ready [OF f] by (simp add: paid_def) (simp add: swap_of_def plugins_of_def)
qed

lemma paid_trans: "paid s s' \<Longrightarrow> paid s' s'' \<Longrightarrow> paid s s''"
  using fin_frame_trans unfolding paid_def by metis

lemma finalize_amount_good:
  assumes S: "platform_ok S" and s: "ready_to_finalize s" and to: "called_from_swap S \<longrightarrow> swap_check_destination (swap_of s) to"
    and a: "address_to_string S (destination (content (st_tx s))) (unat (destinationLength (content (st_tx s)))) 50 (cfg_chain_id (app_cfg S)) = Some to"
    and sh: "\<not> called_from_swap S \<longrightarrow> toAddress (review s) = strlcpy 43 to"
  shows "fin_good S (\<lambda>s'. paid s s' \<and> (if called_from_swap S then transfer_promised S s else transfer_shown S s (review s')))
    (finalize_amount S (base_ticker S s) s)"
proof -
  let ?i = "tvalue (content (st_tx s))" and ?n = "se_amount_to_string (pe_swap (sp_plugins S))"
  let ?raw = "take (unat (ilength ?i)) (ivalue ?i)"
  have i: "length (ivalue ?i) = 32" "unat (ilength ?i) \<le> 32"
    using s by (simp_all add: ready_to_finalize_def tx_inv_def tx_base_def content_ok_def int256_ok_def)
  have rd: "rd_n (ivalue ?i) 0 (unat (ilength ?i)) = Some ?raw" using i by (simp add: rd_n_Some)
  show ?thesis
  proof (cases "?n ?raw 18 (base_ticker S s) 50")
    case None
    then show ?thesis using rd s by (simp add: finalize_amount_def Let_def WEI_DECIMALS_def ready_to_finalize_def)
  next
    case (Some am)
    obtain b where b: "swap_check_value (swap_of s) am (ivalue ?i) (ilength ?i) = Some b" "b \<longrightarrow>
        be_val ?raw = (case G_swap_expected_value_check (swap_of s) of SWAP_VALUE_CHECK_ZERO \<Rightarrow> 0 | _ \<Rightarrow> be_val (G_swap_expected_value (swap_of s)))"
      using swap_check_value_sound [OF i(1)] by blast
    have p: "paid s (set_swap ((swap_of s)\<lparr>G_swap_checked := True\<rparr>) s)" by (rule paid_set_checked [OF s])
    have t: "b \<Longrightarrow> called_from_swap S \<Longrightarrow> transfer_promised S s"
      using b(2) to a by (auto simp: transfer_promised_def rlp_val_def Let_def)
    let ?r = "(review s)\<lparr>fullAmount := strlcpy (FULL_AMOUNT_SIZE (pe_swap (sp_plugins S))) am\<rparr>"
    have q: "paid s (set_swap ((swap_of s)\<lparr>G_swap_checked := True\<rparr>) (s\<lparr>review := ?r\<rparr>))"
    proof -
      have x: "paid s (s\<lparr>review := ?r\<rparr>)" by (rule paid_review [OF s]) simp
      then have "ready_to_finalize (s\<lparr>review := ?r\<rparr>)" by (simp add: paid_def)
      from paid_trans [OF x paid_set_checked [OF this]] show ?thesis by (simp add: swap_of_def plugins_of_def)
    qed
    have w: "review (set_swap g u) = review u" for g and u :: "'a sign_state" by (simp add: set_swap_def set_plugins_def)
    have sn: "\<not> called_from_swap S \<Longrightarrow> transfer_shown S s ?r"
      using sh a Some by (simp add: transfer_shown_def Let_def)
    show ?thesis using rd Some b(1) p q t sn by (cases b) (simp_all add: finalize_amount_def Let_def WEI_DECIMALS_def w)
  qed
qed

lemma finalize_destination_good:
  assumes S: "platform_ok S" and s: "ready_to_finalize s"
  shows "fin_good S (\<lambda>s'. paid s s' \<and>
     (if plugin_type (plugins_of s) \<in> {PLUGIN_TYPE_NONE, PLUGIN_TYPE_SWAP_WITH_CALLDATA}
      then (if called_from_swap S then transfer_promised S s else transfer_shown S s (review s'))
      else s' = s)) (finalize_destination S (base_ticker S s) s)"
proof (cases "plugin_type (plugins_of s) \<in> {PLUGIN_TYPE_NONE, PLUGIN_TYPE_SWAP_WITH_CALLDATA}")
  case False
  then show ?thesis using s by (simp add: finalize_destination_def paid_def)
next
  case t: True
  let ?c = "content (st_tx s)"
  show ?thesis
  proof (cases "address_to_string S (destination ?c) (unat (destinationLength ?c)) 50 (cfg_chain_id (app_cfg S))")
    case None
    then show ?thesis using t s by (simp add: finalize_destination_def ready_to_finalize_def)
  next
    case (Some to)
    show ?thesis
    proof (cases "called_from_swap S")
      case True
      then show ?thesis using t Some finalize_amount_good [OF S s _ Some] by (simp add: finalize_destination_def)
    next
      case False
      let ?s = "s\<lparr>review := (review s)\<lparr>toAddress := strlcpy 43 to\<rparr>\<rparr>"
      have p: "paid s ?s" by (rule paid_review [OF s]) simp
      then have r: "ready_to_finalize ?s" and f: "fin_frame s ?s" by (simp_all add: paid_def)
      have "fin_good S (\<lambda>s'. paid ?s s' \<and> (if called_from_swap S then transfer_promised S ?s else transfer_shown S ?s (review s')))
          (finalize_amount S (base_ticker S ?s) ?s)"
        by (rule finalize_amount_good [OF S r]) (use False Some in simp_all)
      then have g: "fin_good S (\<lambda>s'. paid ?s s' \<and> transfer_shown S s (review s')) (finalize_amount S (base_ticker S s) ?s)"
        using False by (simp add: transfer_frame [OF f])
      have "fin_good S (\<lambda>s'. paid s s' \<and> transfer_shown S s (review s')) (finalize_amount S (base_ticker S s) ?s)"
        by (rule fin_good_mono [OF g]) (use p paid_trans in blast)
      then show ?thesis using t Some False by (simp add: finalize_destination_def)
    qed
  qed
qed

end
