(* ===== verification/Finalize_Results.thy ===== *)
theory Finalize_Results
  imports Finalize_Inv
begin

text \<open>
  The results for the whole of \<open>finalize_parsing\<close>: nothing but a missing promise makes it fault; in a swap a transaction is
  signed only if it is the promised one; outside of it the strings of the review are those of the transaction.
\<close>

section \<open>Fee, nonce and network\<close>

definition fee_of :: "'c sign_platform \<Rightarrow> 'c sign_state \<Rightarrow> string option" where
  "fee_of S s =
     (let c = content (st_tx s); fee = rlp_val (gasprice c) * rlp_val (startgas c)
      in if fee < 2 ^ 256 then fee_string S (base_ticker S s) fee MAX_FEE_SIZE else None)"

lemma fee_of_frame: "fin_frame s s' \<Longrightarrow> fee_of S s' = fee_of S s"
  using fin_frame_same(11,12) [of s s'] transfer_frame(3) [of s s'] by (simp add: fee_of_def Let_def)

definition set_max_fee :: "string \<Rightarrow> 'c sign_state \<Rightarrow> 'c sign_state" where
  "set_max_fee fee s = s\<lparr>review := (review s)\<lparr>maxFee := strlcpy MAX_FEE_SIZE fee\<rparr>\<rparr>"

lemma ready_int256:
  assumes "ready_to_finalize s"
  shows "int256_ok 32 (gasprice (content (st_tx s)))" "int256_ok 32 (startgas (content (st_tx s)))" "int256_ok 32 (tnonce (content (st_tx s)))"
  using assms by (simp_all add: ready_to_finalize_def tx_inv_def tx_base_def content_ok_def)

lemma finalize_fee_good:
  assumes S: "platform_ok S" and s: "ready_to_finalize s"
  shows "fin_good S (\<lambda>s'. \<exists>fee. fee_of S s = Some fee \<and>
     (if called_from_swap S then s' = s \<and> exp_maxFee (swap_of s) = fee else s' = set_max_fee fee s)) (finalize_fee S (base_ticker S s) s)"
proof -
  let ?c = "content (st_tx s)"
  have m: "mult_contract (sp_cx S)" using S by (simp add: platform_ok_def)
  obtain r where r: "max_transaction_fee_to_string S (base_ticker S s) (gasprice ?c) (startgas ?c) MAX_FEE_SIZE = Some r"
    "\<forall>fee. r = Some fee \<longrightarrow> fee_of S s = Some fee"
    using max_transaction_fee_to_string_spec [OF ready_int256(1,2) [OF s] m base_ticker_length [OF S, of s], where n = MAX_FEE_SIZE]
    by (auto simp: fee_of_def Let_def)
  show ?thesis
  proof (cases r)
    case None
    then show ?thesis using r s by (simp add: finalize_fee_def ready_to_finalize_def)
  next
    case (Some fee)
    then show ?thesis using r by (simp add: finalize_fee_def swap_check_fee_def set_max_fee_def)
  qed
qed

definition set_nonce_network :: "string \<Rightarrow> 'c sign_state \<Rightarrow> 'c sign_state" where
  "set_nonce_network w s =
     s\<lparr>review := (review s)\<lparr>nonce_string := digit_str 10 (rlp_val (tnonce (content (st_tx s)))), network_name := w\<rparr>\<rparr>"

definition network_of :: "'c sign_platform \<Rightarrow> 'c sign_state \<Rightarrow> string option" where
  "network_of S s = get_network_as_string S 20 s"

lemma finalize_nonce_network_good:
  assumes S: "platform_ok S" and s: "ready_to_finalize s"
  shows "fin_good S (\<lambda>s'. \<exists>w. network_of S s = Some w \<and> s' = set_nonce_network w s) (finalize_nonce_network S s)"
proof -
  let ?n = "rlp_val (tnonce (content (st_tx s)))"
  have n: "nonce_to_string (tnonce (content (st_tx s))) 21 = Some (if length (digit_str 10 ?n) < 21 then Some (digit_str 10 ?n) else None)"
    using nonce_to_string_spec [OF ready_int256(3) [OF s], of 21] by simp
  have g: "get_network_as_string S 20 (s\<lparr>review := r\<rparr>) = network_of S s" for r by (simp add: network_of_def get_network_as_string_def)
  have f: "ready_to_finalize (s\<lparr>review := r\<rparr>)" for r using s by (simp add: ready_to_finalize_def)
  show ?thesis using n g f s
    by (auto simp: finalize_nonce_network_def Let_def set_nonce_network_def ready_to_finalize_def split: option.split)
qed

section \<open>The whole\<close>

lemma review_same:
  "plugins_of (set_max_fee fee s) = plugins_of s" "plugins_of (set_nonce_network w s) = plugins_of s"
  "st_tx (set_max_fee fee s) = st_tx s" "st_tx (set_nonce_network w s) = st_tx s"
  "fin_frame s (set_max_fee fee s)" "fin_frame s (set_nonce_network w s)"
  "ready_to_finalize (set_max_fee fee s) = ready_to_finalize s" "ready_to_finalize (set_nonce_network w s) = ready_to_finalize s"
  "tx_hash (set_max_fee fee s) = tx_hash s" "tx_hash (set_nonce_network w s) = tx_hash s"
  "sent (set_max_fee fee s) = sent s" "sent (set_nonce_network w s) = sent s"
  "network_of S (set_max_fee fee s) = network_of S s"
  by (simp_all add: set_max_fee_def set_nonce_network_def plugins_of_def ready_to_finalize_def fin_frame_review network_of_def
      get_network_as_string_def)

text \<open>The strings of the review that every transaction has.\<close>

definition review_shown :: "'c sign_platform \<Rightarrow> 'c sign_state \<Rightarrow> review_strings \<Rightarrow> bool" where
  "review_shown S s r \<longleftrightarrow>
     (\<exists>fee. fee_of S s = Some fee \<and> maxFee r = strlcpy MAX_FEE_SIZE fee) \<and>
     nonce_string r = digit_str 10 (rlp_val (tnonce (content (st_tx s)))) \<and> network_of S s = Some (network_name r) \<and>
     (\<exists>key. sp_derive S (st_bip32 s) = Inr key \<and>
        address_to_string S (sp_address_of_key S key) 20 43 (cfg_chain_id (app_cfg S)) = Some (fromAddress r))"

text \<open>The second half, from the state that the plugin has left.\<close>

definition checked_half :: "'c sign_platform \<Rightarrow> bool \<Rightarrow> 'c sign_state \<Rightarrow> 'c sign_state \<Rightarrow> bool" where
  "checked_half S store s s' \<longleftrightarrow>
     fin_frame s s' \<and> ready_to_finalize s' \<and> tx_hash s' = tx_hash s \<and> sent s' = sent s \<and>
     plugin_type (plugins_of s') = plugin_type (plugins_of s) \<and>
     G_swap_calldata_validated (swap_of s') = G_swap_calldata_validated (swap_of s) \<and>
     (if called_from_swap S then
        \<not> G_swap_response_ready (swap_of s) \<and> fee_of S s = Some (exp_maxFee (swap_of s)) \<and>
        (G_swap_checked (swap_of s') \<longrightarrow> G_swap_checked (swap_of s) \<or> transfer_promised S s)
      else
        (\<exists>fee. fee_of S s = Some fee \<and> maxFee (review s') = strlcpy MAX_FEE_SIZE fee) \<and>
        nonce_string (review s') = digit_str 10 (rlp_val (tnonce (content (st_tx s)))) \<and>
        network_of S s = Some (network_name (review s')) \<and> fromAddress (review s') = fromAddress (review s) \<and>
        (plugin_type (plugins_of s) \<in> {PLUGIN_TYPE_NONE, PLUGIN_TYPE_SWAP_WITH_CALLDATA} \<longrightarrow> transfer_shown S s (review s')) \<and>
        (\<not> store \<longrightarrow> dataPresent (content (st_tx s)) \<longrightarrow> env_dataAllowed (sp_env S)))"

lemma transfer_shown_review:
  "transfer_shown S s (review (set_nonce_network w u)) = transfer_shown S s (review u)"
  "transfer_shown S s (review (set_max_fee fee u)) = transfer_shown S s (review u)"
  by (simp_all add: transfer_shown_def set_nonce_network_def set_max_fee_def)

lemma network_of_frame: "fin_frame s s' \<Longrightarrow> network_of S s' = network_of S s"
  using fin_frame_same(1) [of s s'] by (simp add: network_of_def get_network_as_string_def)

lemma guards_paid:
  assumes "ready_to_finalize s"
  shows "paid s (set_swap ((swap_of s)\<lparr>G_swap_response_ready := True\<rparr>) s)"
    and "G_swap_checked (swap_of (set_swap ((swap_of s)\<lparr>G_swap_response_ready := True\<rparr>) s)) = G_swap_checked (swap_of s)"
proof -
  have f: "fin_frame s (set_swap ((swap_of s)\<lparr>G_swap_response_ready := True\<rparr>) s)" by (rule fin_frame_set_swap) (simp add: promise_kept_def)
  then show "paid s (set_swap ((swap_of s)\<lparr>G_swap_response_ready := True\<rparr>) s)"
    using assms fin_frame_ready [OF f] by (simp add: paid_def) (simp add: set_swap_def set_plugins_def swap_of_def plugins_of_def)
qed simp

text \<open>The two last stages together: the strings are added to those of a state that is otherwise kept.\<close>

definition priced :: "'c sign_platform \<Rightarrow> 'c sign_state \<Rightarrow> 'c sign_state \<Rightarrow> bool" where
  "priced S s s' \<longleftrightarrow> fin_frame s s' \<and> ready_to_finalize s' \<and> plugins_of s' = plugins_of s \<and> tx_hash s' = tx_hash s \<and> sent s' = sent s \<and>
     fromAddress (review s') = fromAddress (review s) \<and> transfer_shown S s (review s') = transfer_shown S s (review s) \<and>
     network_of S s = Some (network_name (review s')) \<and> nonce_string (review s') = digit_str 10 (rlp_val (tnonce (content (st_tx s)))) \<and>
     (\<exists>fee. fee_of S s = Some fee \<and>
        (if called_from_swap S then exp_maxFee (swap_of s) = fee else maxFee (review s') = strlcpy MAX_FEE_SIZE fee))"

lemma fee_nonce_good:
  assumes S: "platform_ok S" and s: "ready_to_finalize s"
  shows "fin_good S (priced S s) (fbind (finalize_fee S (base_ticker S s) s) (finalize_nonce_network S))"
proof (rule fin_good_bind [OF finalize_fee_good [OF S s]])
  fix s3
  assume "\<exists>fee. fee_of S s = Some fee \<and> (if called_from_swap S then s3 = s \<and> exp_maxFee (swap_of s) = fee else s3 = set_max_fee fee s)"
  then obtain fee where fee: "fee_of S s = Some fee" "if called_from_swap S then s3 = s \<and> exp_maxFee (swap_of s) = fee else s3 = set_max_fee fee s"
    by blast
  then have e: "s3 = s \<or> s3 = set_max_fee fee s" by (auto split: if_splits)
  then have r3: "ready_to_finalize s3" using s by (auto simp: review_same)
  show "fin_good S (priced S s) (finalize_nonce_network S s3)"
  proof (rule fin_good_mono [OF finalize_nonce_network_good [OF S r3]], elim exE conjE)
    fix s4 w
    assume w: "network_of S s3 = Some w" "s4 = set_nonce_network w s3"
    have f: "fin_frame s s4" using e w(2) review_same(5,6) fin_frame_trans by blast
    have "\<not> called_from_swap S \<Longrightarrow> maxFee (review s4) = strlcpy MAX_FEE_SIZE fee"
      using fee(2) w(2) by (simp add: set_nonce_network_def set_max_fee_def)
    moreover have "fromAddress (review s4) = fromAddress (review s)" "network_name (review s4) = w"
      "nonce_string (review s4) = digit_str 10 (rlp_val (tnonce (content (st_tx s))))"
      using e w(2) by (auto simp: set_nonce_network_def set_max_fee_def)
    moreover have "network_of S s = Some w" using e w(1) by (auto simp: review_same)
    moreover have "plugins_of s4 = plugins_of s" "tx_hash s4 = tx_hash s" "sent s4 = sent s" "ready_to_finalize s4"
      "transfer_shown S s (review s4) = transfer_shown S s (review s)"
      using e w(2) s by (auto simp: review_same transfer_shown_review)
    ultimately show "priced S s s4" using f fee by (simp add: priced_def)
  qed
qed

lemma checks_combine:
  assumes p: "paid s s1" "paid s1 s2" and r: "priced S s2 s'"
    and g: "if called_from_swap S then \<not> G_swap_response_ready (swap_of s) \<and> G_swap_checked (swap_of s1) = G_swap_checked (swap_of s) else s1 = s"
    and b: "\<not> store \<longrightarrow> dataPresent (content (st_tx s1)) \<longrightarrow> env_dataAllowed (sp_env S)"
    and d: "if plugin_type (plugins_of s1) \<in> {PLUGIN_TYPE_NONE, PLUGIN_TYPE_SWAP_WITH_CALLDATA}
          then (if called_from_swap S then transfer_promised S s1 else transfer_shown S s1 (review s2)) else s2 = s1"
  shows "checked_half S store s s'"
proof -
  have p2: "paid s s2" using p paid_trans by blast
  then have f1: "fin_frame s s1" and f2: "fin_frame s s2" using p by (simp_all add: paid_def)
  have f: "fin_frame s s'" using f2 r fin_frame_trans unfolding priced_def by blast
  have sw: "swap_of s' = swap_of s2" using r by (simp add: priced_def swap_of_def)
  have base: "fin_frame s s' \<and> ready_to_finalize s' \<and> tx_hash s' = tx_hash s \<and> sent s' = sent s \<and>
      plugin_type (plugins_of s') = plugin_type (plugins_of s) \<and> G_swap_calldata_validated (swap_of s') = G_swap_calldata_validated (swap_of s)"
    using f r p2 sw by (simp add: paid_def priced_def)
  obtain fee where fee: "fee_of S s = Some fee" "if called_from_swap S then exp_maxFee (swap_of s2) = fee else maxFee (review s') = strlcpy MAX_FEE_SIZE fee"
    using r fee_of_frame [OF f2] by (auto simp: priced_def)
  show ?thesis
  proof (cases "called_from_swap S")
    case True
    have "exp_maxFee (swap_of s2) = exp_maxFee (swap_of s)" using promise_same [OF fin_frame_same(17) [OF f2]] by simp
    moreover have "G_swap_checked (swap_of s') \<longrightarrow> G_swap_checked (swap_of s) \<or> transfer_promised S s"
      using d g True sw transfer_frame(1) [OF f1] by (auto split: if_splits)
    ultimately show ?thesis using base g fee True by (simp add: checked_half_def)
  next
    case False
    then have s1: "s1 = s" using g by simp
    then have "plugin_type (plugins_of s) \<in> {PLUGIN_TYPE_NONE, PLUGIN_TYPE_SWAP_WITH_CALLDATA} \<longrightarrow> transfer_shown S s (review s2)"
      using d False by (auto split: if_splits)
    moreover have "\<not> store \<longrightarrow> dataPresent (content (st_tx s)) \<longrightarrow> env_dataAllowed (sp_env S)" using b s1 by simp
    moreover have "tnonce (content (st_tx s2)) = tnonce (content (st_tx s))" by (rule fin_frame_same(13) [OF f2])
    ultimately show ?thesis using base r fee False p2 network_of_frame [OF f2] transfer_frame(2) [OF f2]
      by (simp add: checked_half_def priced_def paid_def)
  qed
qed

lemma checks_good:
  assumes S: "platform_ok S" and s: "ready_to_finalize s"
  shows "fin_good S (checked_half S store s)
    (fbind (finalize_swap_guards S s) (\<lambda>u. fbind (finalize_blind S store u) (\<lambda>u.
       fbind (finalize_destination S (base_ticker S s) u) (\<lambda>u. fbind (finalize_fee S (base_ticker S s) u) (finalize_nonce_network S)))))"
proof (rule fin_good_bind [OF finalize_swap_guards_good [OF S s]])
  have ticker: "base_ticker S u = base_ticker S s" if "paid s u" for u using that by (simp add: paid_def transfer_frame(3))
  let ?rest = "\<lambda>u. fbind (finalize_fee S (base_ticker S s) u) (finalize_nonce_network S)"
  fix s1
  assume g: "if called_from_swap S then s1 = set_swap ((swap_of s)\<lparr>G_swap_response_ready := True\<rparr>) s \<and> \<not> G_swap_response_ready (swap_of s) \<and>
         G_swap_mode (swap_of s) \<in> {SWAP_MODE_STANDARD, SWAP_MODE_CROSSCHAIN_SUCCESS} \<and>
         plugin_type (plugins_of s) \<in> {PLUGIN_TYPE_NONE, PLUGIN_TYPE_OLD_INTERNAL, PLUGIN_TYPE_SWAP_WITH_CALLDATA}
       else s1 = s"
  have p1: "paid s s1" using g guards_paid(1) [OF s] s by (cases "called_from_swap S") (simp_all add: paid_def)
  then have r1: "ready_to_finalize s1" by (simp add: paid_def)
  have g1: "if called_from_swap S then \<not> G_swap_response_ready (swap_of s) \<and> G_swap_checked (swap_of s1) = G_swap_checked (swap_of s) else s1 = s"
    using g guards_paid(2) by (cases "called_from_swap S") simp_all
  show "fin_good S (checked_half S store s) (fbind (finalize_blind S store s1) (\<lambda>u. fbind (finalize_destination S (base_ticker S s) u) ?rest))"
  proof (rule fin_good_bind [OF finalize_blind_good [OF S r1, of store]])
    fix s1'
    assume b: "s1' = s1 \<and> (\<not> store \<longrightarrow> dataPresent (content (st_tx s1)) \<longrightarrow> env_dataAllowed (sp_env S))"
    have "fin_good S (checked_half S store s) (fbind (finalize_destination S (base_ticker S s1) s1) ?rest)"
    proof (rule fin_good_bind [OF finalize_destination_good [OF S r1]])
      fix s2
      assume d: "paid s1 s2 \<and> (if plugin_type (plugins_of s1) \<in> {PLUGIN_TYPE_NONE, PLUGIN_TYPE_SWAP_WITH_CALLDATA}
          then (if called_from_swap S then transfer_promised S s1 else transfer_shown S s1 (review s2)) else s2 = s1)"
      then have p2: "paid s s2" "ready_to_finalize s2" using p1 paid_trans by (blast, simp add: paid_def)
      show "fin_good S (checked_half S store s) (?rest s2)"
        unfolding ticker [OF p2(1), symmetric]
        by (rule fin_good_mono [OF fee_nonce_good [OF S p2(2)]]) (rule checks_combine [OF p1 conjunct1 [OF d] _ g1 conjunct2 [OF b] conjunct2 [OF d]])
    qed
    then show "fin_good S (checked_half S store s) (fbind (finalize_destination S (base_ticker S s) s1') ?rest)"
      using b by (simp add: ticker [OF p1])
  qed
qed

text \<open>All the stages.\<close>

definition finalized :: "'c sign_platform \<Rightarrow> bool \<Rightarrow> 'c sign_state \<Rightarrow> 'c sign_state \<Rightarrow> bool" where
  "finalized S store s s' \<longleftrightarrow>
     fin_frame s s' \<and> ready_to_finalize s' \<and> sent s' = sent s \<and> sp_hash_final S (sha3 (st_tx s)) = Inr (tx_hash s') \<and>
     \<not> (txType (st_tx s) = LEGACY \<and> vLength (content (st_tx s)) = 0) \<and>
     (cfg_chain_id (app_cfg S) = 1 \<or> cfg_chain_id (app_cfg S) = get_tx_chain_id (st_tx s)) \<and>
     (if called_from_swap S then
        get_tx_chain_id (st_tx s) = G_swap_expected_chain_id (swap_of s) \<and> \<not> G_swap_response_ready (swap_of s) \<and>
        fee_of S s = Some (exp_maxFee (swap_of s)) \<and>
        (G_swap_checked (swap_of s') \<longrightarrow> G_swap_checked (swap_of s) \<or> erc20_promised S s \<or> transfer_promised S s) \<and>
        (G_swap_calldata_validated (swap_of s') \<longrightarrow> G_swap_calldata_validated (swap_of s) \<or> erc20_promised S s \<or>
           G_swap_mode (swap_of s) = SWAP_MODE_CROSSCHAIN_SUCCESS \<or> calldata_promised S s)
      else
        review_shown S s (review s') \<and>
        (plugin_type (plugins_of s') \<in> {PLUGIN_TYPE_NONE, PLUGIN_TYPE_SWAP_WITH_CALLDATA} \<longrightarrow> transfer_shown S s (review s')) \<and>
        (\<not> store \<longrightarrow> plugin_type (plugins_of s') = PLUGIN_TYPE_NONE \<longrightarrow> dataPresent (content (st_tx s)) \<longrightarrow>
           env_dataAllowed (sp_env S)))"

text \<open>The sender: what the second and third stage leave to the others.\<close>

definition sender_known :: "'c sign_platform \<Rightarrow> 'c sign_state \<Rightarrow> 'c sign_state \<Rightarrow> bool" where
  "sender_known S s s' \<longleftrightarrow> sp_hash_final S (sha3 (st_tx s)) = Inr (tx_hash s') \<and>
     (\<exists>key. sp_derive S (st_bip32 s) = Inr key \<and>
        address_to_string S (sp_address_of_key S key) 20 43 (cfg_chain_id (app_cfg S)) = Some (fromAddress (review s')))"

lemma stages_combine:
  assumes c: "(cfg_chain_id (app_cfg S) = 1 \<or> cfg_chain_id (app_cfg S) = get_tx_chain_id (st_tx s)) \<and>
       (called_from_swap S \<longrightarrow> get_tx_chain_id (st_tx s) = G_swap_expected_chain_id (swap_of s)) \<and>
       \<not> (txType (st_tx s) = LEGACY \<and> vLength (content (st_tx s)) = 0)"
    and n: "fin_frame s s1" "plugins_of s1 = plugins_of s" "sent s1 = sent s" "sender_known S s s1"
    and p: "plugin_done S s1 s2" and h: "checked_half S store s2 s'"
    and dp: "dataPresent (content (st_tx s1)) = dataPresent (content (st_tx s))"
  shows "finalized S store s s'"
proof -
  have f12: "fin_frame s1 s2" and f23: "fin_frame s2 s'" using p h by (simp_all add: plugin_done_def checked_half_def)
  have f2: "fin_frame s s2" by (rule fin_frame_trans [OF n(1) f12])
  have f: "fin_frame s s'" by (rule fin_frame_trans [OF f2 f23])
  have sw: "swap_of s1 = swap_of s" using n(2) by (simp add: swap_of_def)
  have rt: "erc20_promised S s1 = erc20_promised S s" "calldata_promised S s1 = calldata_promised S s"
    using fin_frame_same(1,8) [OF n(1)] n(2) sw by (simp_all add: erc20_promised_def calldata_promised_def Let_def)
  note same = fin_frame_same [OF f2] promise_same [OF fin_frame_same(17) [OF f2]] transfer_frame [OF f2] fee_of_frame [OF f2] network_of_frame [OF f2]
  have base: "fin_frame s s' \<and> ready_to_finalize s' \<and> sent s' = sent s \<and> sp_hash_final S (sha3 (st_tx s)) = Inr (tx_hash s')"
    using f h p n by (simp add: checked_half_def plugin_done_def sender_known_def)
  have fl: "flags_earned S s1 (swap_of s2)" using p by (simp add: plugin_done_def)
  show ?thesis
  proof (cases "called_from_swap S")
    case True
    have a: "\<not> G_swap_response_ready (swap_of s)" "fee_of S s = Some (exp_maxFee (swap_of s))"
      using h fl True sw same by (simp_all add: checked_half_def flags_earned_def)
    have b: "G_swap_checked (swap_of s') \<longrightarrow> G_swap_checked (swap_of s) \<or> erc20_promised S s \<or> transfer_promised S s"
      using h fl True rt same sw by (auto simp: checked_half_def flags_earned_def)
    have d: "G_swap_calldata_validated (swap_of s') \<longrightarrow> G_swap_calldata_validated (swap_of s) \<or> erc20_promised S s \<or>
        G_swap_mode (swap_of s) = SWAP_MODE_CROSSCHAIN_SUCCESS \<or> calldata_promised S s"
      using h fl True rt sw by (auto simp: checked_half_def flags_earned_def)
    show ?thesis unfolding finalized_def if_P [OF True] using base a b d c True by blast
  next
    case False
    have r: "review_shown S s (review s')" using h p n(4) False same by (auto simp: checked_half_def review_shown_def plugin_done_def sender_known_def)
    have t: "plugin_type (plugins_of s') \<in> {PLUGIN_TYPE_NONE, PLUGIN_TYPE_SWAP_WITH_CALLDATA} \<longrightarrow> transfer_shown S s (review s')"
      using h False same by (simp add: checked_half_def)
    have e: "\<not> store \<longrightarrow> plugin_type (plugins_of s') = PLUGIN_TYPE_NONE \<longrightarrow> dataPresent (content (st_tx s)) \<longrightarrow> env_dataAllowed (sp_env S)"
      using h p False dp by (simp add: checked_half_def plugin_done_def)
    show ?thesis using base c r t e False by (simp add: finalized_def)
  qed
qed

lemma finalize_stages_good:
  assumes S: "platform_ok S" and s: "ready_to_finalize s" and h: "called_from_swap S \<longrightarrow> G_swap_crosschain_hash (swap_of s) \<noteq> None"
  shows "fin_good S (finalized S store s) (finalize_stages S store s)"
  unfolding finalize_stages_def Let_def
proof (rule fin_good_bind [OF finalize_chain_good [OF S s]], elim conjE)
  have ticker: "base_ticker S u = base_ticker S s" if "fin_frame s u" for u using that by (rule transfer_frame(3))
  fix s0
  assume s0: "s0 = s" and c: "cfg_chain_id (app_cfg S) = 1 \<or> cfg_chain_id (app_cfg S) = get_tx_chain_id (st_tx s)"
    "called_from_swap S \<longrightarrow> get_tx_chain_id (st_tx s) = G_swap_expected_chain_id (swap_of s)"
    "\<not> (txType (st_tx s) = LEGACY \<and> vLength (content (st_tx s)) = 0)"
  show "fin_good S (finalized S store s) (fbind (finalize_sender S s0) (\<lambda>u. fbind (finalize_plugin S u) (\<lambda>u.
      fbind (finalize_swap_guards S u) (\<lambda>u. fbind (finalize_blind S store u) (\<lambda>u.
         fbind (finalize_destination S (base_ticker S s) u) (\<lambda>u. fbind (finalize_fee S (base_ticker S s) u) (finalize_nonce_network S)))))))"
    unfolding s0
  proof (rule fin_good_bind [OF finalize_sender_good [OF S s]], elim conjE exE)
    fix s1 key
    assume n: "fin_frame s s1" "ready_to_finalize s1" "plugins_of s1 = plugins_of s" "sp_hash_final S (sha3 (st_tx s)) = Inr (tx_hash s1)"
      "sent s1 = sent s" "sp_derive S (st_bip32 s) = Inr key" "fromAddressRaw (review s1) = sp_address_of_key S key"
      "address_to_string S (fromAddressRaw (review s1)) 20 43 (cfg_chain_id (app_cfg S)) = Some (fromAddress (review s1))"
      and dp: "dataPresent (content (st_tx s1)) = dataPresent (content (st_tx s))"
    have k: "sender_known S s s1" using n by (simp add: sender_known_def)
    have h1: "called_from_swap S \<longrightarrow> G_swap_crosschain_hash (swap_of s1) \<noteq> None" using h n(3) by (simp add: swap_of_def)
    show "fin_good S (finalized S store s) (fbind (finalize_plugin S s1) (\<lambda>u.
        fbind (finalize_swap_guards S u) (\<lambda>u. fbind (finalize_blind S store u) (\<lambda>u.
           fbind (finalize_destination S (base_ticker S s) u) (\<lambda>u. fbind (finalize_fee S (base_ticker S s) u) (finalize_nonce_network S))))))"
    proof (rule fin_good_bind [OF finalize_plugin_good [OF S n(2) h1]])
      fix s2
      assume p: "plugin_done S s1 s2"
      then have f2: "fin_frame s s2" "ready_to_finalize s2" using fin_frame_trans [OF n(1)] by (simp_all add: plugin_done_def)
      show "fin_good S (finalized S store s) (fbind (finalize_swap_guards S s2) (\<lambda>u. fbind (finalize_blind S store u) (\<lambda>u.
           fbind (finalize_destination S (base_ticker S s) u) (\<lambda>u. fbind (finalize_fee S (base_ticker S s) u) (finalize_nonce_network S)))))"
        unfolding ticker [OF f2(1), symmetric]
        by (rule fin_good_mono [OF checks_good [OF S f2(2)]], rule stages_combine [OF _ n(1,3,5) k p _ dp]) (use c in blast)
    qed
  qed
qed

section \<open>Results\<close>

text \<open>The transaction is the one of the promise.\<close>

definition promise_fulfilled :: "'c sign_platform \<Rightarrow> 'c sign_state \<Rightarrow> bool" where
  "promise_fulfilled S s \<longleftrightarrow>
     get_tx_chain_id (st_tx s) = G_swap_expected_chain_id (swap_of s) \<and>
     \<not> (txType (st_tx s) = LEGACY \<and> vLength (content (st_tx s)) = 0) \<and>
     fee_of S s = Some (exp_maxFee (swap_of s)) \<and>
     (transfer_promised S s \<or> erc20_promised S s) \<and>
     (G_swap_tx_had_calldata (st_tx s) \<longrightarrow> calldata_promised S s \<or> erc20_promised S s)"

text \<open>No check of this session has been passed yet.\<close>

definition swap_fresh :: "swap_globals \<Rightarrow> bool" where
  "swap_fresh g \<longleftrightarrow> \<not> G_swap_checked g \<and> \<not> G_swap_calldata_validated g \<and> G_swap_mode g \<noteq> SWAP_MODE_CROSSCHAIN_SUCCESS"

lemma finalized_promise:
  assumes f: "finalized S store s s'" and w: "called_from_swap S" "swap_fresh (swap_of s)"
    and c: "G_swap_checked (swap_of s')" "G_swap_tx_had_calldata (st_tx s') \<longrightarrow> G_swap_calldata_validated (swap_of s')"
  shows "promise_fulfilled S s \<and> \<not> G_swap_response_ready (swap_of s)"
proof -
  have "G_swap_tx_had_calldata (st_tx s') = G_swap_tx_had_calldata (st_tx s)"
    using f by (simp add: finalized_def fin_frame_same(6))
  then show ?thesis using f w c unfolding finalized_def promise_fulfilled_def swap_fresh_def by auto
qed

lemma touch_ok_cases:
  "io_seproxyhal_touch_tx_ok S s = App_exit \<or>
   (\<exists>rs par x. sp_sign S (st_bip32 s) (tx_hash s) = Some (rs, par, x) \<and> called_from_swap S \<and>
      io_seproxyhal_touch_tx_ok S s = Swap_done (signature_v s par x # rs)) \<or>
   \<not> called_from_swap S"
  by (auto simp: io_seproxyhal_touch_tx_ok_def io_seproxyhal_send_status_def sign_reset_def Let_def split: option.splits)

lemma signature_v_frame: "fin_frame s s' \<Longrightarrow> signature_v (free_hash s') par x = signature_v s par x"
  using fin_frame_same(2,14,15) [of s s'] by (simp add: signature_v_def free_hash_def Let_def cong: if_cong)

text \<open>The outcome of the end of a transaction.\<close>

definition finalize_outcome :: "'c sign_platform \<Rightarrow> 'c sign_state \<Rightarrow> (sw \<times> 'c sign_state) outcome \<Rightarrow> bool" where
  "finalize_outcome S s r \<longleftrightarrow>
     (case r of
        App_exit \<Rightarrow> called_from_swap S
      | Swap_done resp \<Rightarrow> called_from_swap S \<and>
          (swap_fresh (swap_of s) \<longrightarrow> promise_fulfilled S s \<and> \<not> G_swap_response_ready (swap_of s) \<and>
             (\<exists>h rs par x. sp_hash_final S (sha3 (st_tx s)) = Inr h \<and> sp_sign S (st_bip32 s) h = Some (rs, par, x) \<and>
                resp = signature_v s par x # rs))
      | Returns (sw, s') \<Rightarrow> tx_inv (st_tx s') \<and>
          (called_from_swap S \<longrightarrow> is_error sw \<or> promise_kept (swap_of s) (swap_of s')) \<and>
          (case under_review s' of
             None \<Rightarrow> True
           | Some from_plugin \<Rightarrow> \<not> store_calldata (st_tx s) \<and>
               (\<exists>s1. finalized S False s s1 \<and> s' = (free_hash s1)\<lparr>under_review := Some from_plugin\<rparr> \<and>
                  (from_plugin \<longleftrightarrow> plugin_type (plugins_of s1) \<noteq> PLUGIN_TYPE_NONE))))"

lemma free_hash_same [simp]:
  "st_tx (free_hash s) = st_tx s" "plugins_of (free_hash s) = plugins_of s" "swap_of (free_hash s) = swap_of s"
  "tx_hash (free_hash s) = tx_hash s" "st_bip32 (free_hash s) = st_bip32 s" "under_review (free_hash s) = under_review s"
  "review (free_hash s) = review s" "sent (free_hash s) = sent s" "sign_mode (free_hash s) = sign_mode s"
  "\<not> g_tx_hash_ctx (free_hash s)"
  by (simp_all add: free_hash_def plugins_of_def swap_of_def)

lemma under_review_same [simp]: "swap_of (s\<lparr>under_review := u\<rparr>) = swap_of s" "plugins_of (s\<lparr>under_review := u\<rparr>) = plugins_of s"
  by (simp_all add: plugins_of_def swap_of_def)

text \<open>What follows the preparation when it went well.\<close>

lemma after_stages:
  assumes f: "finalized S (store_calldata (st_tx s)) s s1"
    and r: "finalize_stages S (store_calldata (st_tx s)) s = Some (Inr s1)"
  shows "\<exists>r. finalize_parsing S s = Some r \<and> finalize_outcome S s r"
proof -
  let ?s = "free_hash s1"
  have h: "finalize_parsing_helper S (store_calldata (st_tx s)) s = Some (Returns (SWO_SUCCESS, ?s))"
    using r by (simp add: finalize_parsing_helper_def)
  have fr: "fin_frame s s1" and inv: "tx_inv (st_tx s1)" "under_review s1 = None" using f by (simp_all add: finalized_def ready_to_finalize_def)
  have pk: "promise_kept (swap_of s) (swap_of s1)" by (rule fin_frame_same(17) [OF fr])
  have st: "store_calldata (st_tx s1) = store_calldata (st_tx s)" by (rule fin_frame_same(3) [OF fr])
  show ?thesis
  proof (cases "store_calldata (st_tx s)")
    case True
    then show ?thesis using h st inv pk by (simp add: finalize_parsing_def finalize_outcome_def)
  next
    case False
    note store = False
    show ?thesis
    proof (cases "called_from_swap S \<and> plugin_type (plugins_of s1) \<in> {PLUGIN_TYPE_NONE, PLUGIN_TYPE_OLD_INTERNAL, PLUGIN_TYPE_SWAP_WITH_CALLDATA}")
      case False
      then show ?thesis using h st inv f store pk
        by (auto simp: finalize_parsing_def finalize_outcome_def start_signature_flow_def Let_def)
    next
      case True
      then have w: "called_from_swap S" by simp
      show ?thesis
      proof (cases "G_swap_checked (swap_of s1) \<and> (G_swap_tx_had_calldata (st_tx s1) \<longrightarrow> G_swap_calldata_validated (swap_of s1))")
        case False
        then show ?thesis using True h st store by (auto simp: finalize_parsing_def finalize_outcome_def)
      next
        case c: True
        have e: "finalize_parsing S s = Some (case io_seproxyhal_touch_tx_ok S ?s of
            Returns u \<Rightarrow> Returns (SWO_SUCCESS, u) | App_exit \<Rightarrow> App_exit | Swap_done r \<Rightarrow> Swap_done r)"
          using True c h st store by (auto simp: finalize_parsing_def)
        have hash: "sp_hash_final S (sha3 (st_tx s)) = Inr (tx_hash s1)" and b: "st_bip32 s1 = st_bip32 s"
          using f fin_frame_same(16) [OF fr] by (simp_all add: finalized_def)
        have p: "swap_fresh (swap_of s) \<Longrightarrow> promise_fulfilled S s \<and> \<not> G_swap_response_ready (swap_of s)"
          using finalized_promise [OF f w] c by blast
        from touch_ok_cases [of S ?s] show ?thesis
        proof (elim disjE exE conjE)
          fix rs par x
          assume k: "sp_sign S (st_bip32 ?s) (tx_hash ?s) = Some (rs, par, x)" "io_seproxyhal_touch_tx_ok S ?s = Swap_done (signature_v ?s par x # rs)"
          then have g: "sp_sign S (st_bip32 s) (tx_hash s1) = Some (rs, par, x)" "signature_v ?s par x = signature_v s par x"
            using b signature_v_frame [OF fr] by simp_all
          show ?thesis using e k(2) g hash w p by (auto simp: finalize_outcome_def)
        qed (use e w in \<open>simp_all add: finalize_outcome_def\<close>)
      qed
    qed
  qed
qed

lemma finalize_parsing_result:
  assumes S: "platform_ok S" and s: "ready_to_finalize s" and h: "called_from_swap S \<longrightarrow> G_swap_crosschain_hash (swap_of s) \<noteq> None"
  shows "\<exists>r. finalize_parsing S s = Some r \<and> finalize_outcome S s r"
proof -
  let ?st = "store_calldata (st_tx s)"
  have g: "fin_good S (finalized S ?st s) (finalize_stages S ?st s)" by (rule finalize_stages_good [OF S s h])
  consider s1 where "finalize_stages S ?st s = Some (Inr s1)" "finalized S ?st s s1"
    | sw s1 where "finalize_stages S ?st s = Some (Inl (Returns (sw, s1)))" "is_error sw \<or> sw = SWO_NO_RESPONSE \<and> \<not> called_from_swap S" "tx_inv (st_tx s1)" "under_review s1 = None"
    | "finalize_stages S ?st s = Some (Inl App_exit)" "called_from_swap S"
    using g by (auto simp: fin_good_def split: option.splits sum.splits outcome.splits prod.splits)
  then show ?thesis
  proof cases
    case 1
    then show ?thesis by (intro after_stages)
  next
    case 2
    then show ?thesis by (auto simp: finalize_parsing_def finalize_parsing_helper_def finalize_outcome_def)
  qed (simp_all add: finalize_parsing_def finalize_parsing_helper_def finalize_outcome_def)
qed

end
