(* ===== verification/Ustream_Frame.thy ===== *)
theory Ustream_Frame
  imports Ustream
begin

text \<open>
  What the parser of \<open>Ustream\<close> leaves alone whatever happens, faults of the transaction included:
  the storing mode, the parked calldata when it is not stored, and any property of the plugins' state that the plugins
  themselves preserve.
\<close>

definition kept :: "('p \<Rightarrow> bool) \<Rightarrow> 'p txs \<Rightarrow> 'p txs \<Rightarrow> bool" where
  "kept P s s' \<longleftrightarrow> store_calldata s' = store_calldata s \<and> (\<not> store_calldata s \<longrightarrow> g_parked_calldata s' = g_parked_calldata s)
     \<and> (P (plug s) \<longrightarrow> P (plug s'))"

lemma kept_refl [simp]: "kept P s s"
  by (simp add: kept_def)

lemma kept_trans: "kept P s s' \<Longrightarrow> kept P s' s'' \<Longrightarrow> kept P s s''"
  by (simp add: kept_def)

text \<open>An environment whose plugins and contexts preserve the property.\<close>

definition env_keeps :: "('p \<Rightarrow> bool) \<Rightarrow> 'p tx_env \<Rightarrow> bool" where
  "env_keeps P env \<longleftrightarrow>
     (\<forall>ct c sel n p. P p \<longrightarrow> P (snd (env_plugin_init env ct c sel n p))) \<and>
     (\<forall>ct d off n p. P p \<longrightarrow> P (snd (env_plugin_parameter env ct d off n p))) \<and>
     (\<forall>cd to am c p m r. P p \<longrightarrow> env_tx_ctx_init env cd to am c p m = Some r \<longrightarrow> P (fst (snd (snd r))))"

lemma env_keepsD:
  assumes "env_keeps P env" "P p"
  shows "env_plugin_init env ct c sel n p = (r, p') \<Longrightarrow> P p'"
    and "env_plugin_parameter env ct d off k p = (b, p') \<Longrightarrow> P p'"
    and "env_tx_ctx_init env cd to am c p m = Some (ok, cd', p', m') \<Longrightarrow> P p'"
  using assms unfolding env_keeps_def by (metis snd_conv fst_conv)+

lemma env_keeps_True [simp]: "env_keeps (\<lambda>p. True) env"
  by (simp add: env_keeps_def)

text \<open>The same for a function that may fail; these facts compose along \<open>bind\<close>.\<close>

definition keeps :: "('p \<Rightarrow> bool) \<Rightarrow> 'p txs \<Rightarrow> ('a \<times> 'p txs) option \<Rightarrow> bool" where
  "keeps P s r \<longleftrightarrow> (\<forall>x s'. r = Some (x, s') \<longrightarrow> kept P s s')"

lemma keepsI: "(\<And>x s'. r = Some (x, s') \<Longrightarrow> kept P s s') \<Longrightarrow> keeps P s r"
  by (simp add: keeps_def)

lemma keeps_Some [simp]: "keeps P s (Some (x, s')) = kept P s s'"
  by (simp add: keeps_def)

lemma keeps_None [simp]: "keeps P s None"
  by (simp add: keeps_def)

lemma keeps_bind: "keeps P s r \<Longrightarrow> (\<And>x s'. r = Some (x, s') \<Longrightarrow> kept P s s' \<Longrightarrow> keeps P s' (f (x, s'))) \<Longrightarrow> keeps P s (Option.bind r f)"
  by (cases r) (auto simp: keeps_def intro: kept_trans)

lemma absorb_kept: "absorb env xs s = (ok, s') \<Longrightarrow> kept P s s'"
  by (auto simp: absorb_def kept_def split: if_splits)

lemma keeps_after: "kept P s s1 \<Longrightarrow> keeps P s1 q \<Longrightarrow> keeps P s q"
  using kept_trans by (auto simp: keeps_def)

lemma read_tx_byte_keeps: "keeps P s (read_tx_byte env s)"
  by (auto simp: keeps_def read_tx_byte_def Let_def absorb_def kept_def split: if_splits bind_splits)

definition store_keeps :: "('p \<Rightarrow> bool) \<Rightarrow> 'p store \<Rightarrow> bool" where
  "store_keeps P out \<longleftrightarrow> (case out of None \<Rightarrow> True | Some f \<Rightarrow> \<forall>xs s s'. f xs s = Some s' \<longrightarrow> kept P s s')"

lemma copy_tx_data_keeps: "store_keeps P out \<Longrightarrow> keeps P s (copy_tx_data env out n s)"
  by (auto simp: keeps_def store_keeps_def copy_tx_data_def Let_def absorb_def kept_def split: if_splits bind_splits option.splits)

lemma copy_available_keeps: "store_keeps P out \<Longrightarrow> keeps P s (copy_available env out s)"
  by (simp add: copy_available_def copy_tx_data_keeps)

lemma stores_keep [simp]:
  "store_keeps P None" "store_keeps P (Some store_chainID)" "store_keeps P (Some store_nonce)" "store_keeps P (Some store_startgas)"
  "store_keeps P (Some store_gasprice)" "store_keeps P (Some store_value)" "store_keeps P (Some store_destination)"
  "store_keeps P (Some store_v)" "store_keeps P (Some store_token_data)"
  by (auto simp: store_keeps_def store_chainID_def store_nonce_def store_startgas_def store_gasprice_def store_value_def
      store_destination_def store_v_def store_token_data_def kept_def split: bind_splits)

lemma next_field_kept: "(\<And>s. kept P s (f s)) \<Longrightarrow> kept P s (next_field f s)"
  by (simp add: next_field_def kept_def)

text \<open>A field processor: a copy, then the move to the next field.\<close>

lemma field_keeps:
  "store_keeps P out \<Longrightarrow> (\<And>s. kept P s (f s)) \<Longrightarrow> keeps P s (do {
     (ok, s) \<leftarrow> copy_available env out s;
     if \<not> ok then Some (False, s) else Some (True, next_field f s) })"
  by (intro keeps_bind copy_available_keeps) (simp_all add: next_field_kept)

lemma content_kept [simp]: "kept P s (s\<lparr>content := c\<rparr>)"
  by (simp add: kept_def)

lemma process_fields_keep:
  "keeps P s (process_access_list env s)" "keeps P s (process_auth_list env s)" "keeps P s (process_chain_id env s)"
  "keeps P s (process_nonce env s)" "keeps P s (process_start_gas env s)" "keeps P s (process_gas_limit env s)"
  "keeps P s (process_gasprice env s)" "keeps P s (process_value env s)" "keeps P s (process_to env s)"
  "keeps P s (process_and_discard env s)"
  by (simp_all add: process_access_list_def process_auth_list_def process_chain_id_def process_nonce_def process_start_gas_def
      process_gas_limit_def process_gasprice_def process_value_def process_to_def process_and_discard_def field_keeps)

lemma process_v_keeps: "keeps P s (process_v env s)"
  unfolding process_v_def Let_def
  by (auto intro!: keeps_bind copy_tx_data_keeps next_field_kept)

lemma store_data_keeps: "store_calldata s \<Longrightarrow> keeps P s (store_data n s)"
  by (auto simp: keeps_def kept_def store_data_def split: bind_splits if_splits prod.splits bool.splits)

lemma process_data_keeps: "keeps P s (process_data env s)"
proof -
  have sel: "keeps P s (do { (ok, s) \<leftarrow> (if store_calldata s then store_data n s else Some (True, s));
      if \<not> ok then Some (False, s) else copy_tx_data env None n s })" for s n
    by (auto intro!: keeps_bind copy_tx_data_keeps store_data_keeps)
  have upd: "keeps P s r" if "keeps P (s\<lparr>selector_bytes := b\<rparr>) r" for s :: "'a txs" and b and r :: "(bool \<times> 'a txs) option"
    using that by (simp add: keeps_def kept_def)
  have copy: "keeps P s (do {
      s \<leftarrow> (if currentFieldPos s = 0 \<and> 4 \<le> n
            then do { sel \<leftarrow> rd_n (payload s) (workPos s) 4; Some (s\<lparr>selector_bytes := sel\<rparr>) } else Some s);
      (ok, s) \<leftarrow> (if store_calldata s then store_data n s else Some (True, s));
      if \<not> ok then Some (False, s) else copy_tx_data env None n s })" for n
  proof (cases "currentFieldPos s = 0 \<and> 4 \<le> n")
    case True
    show ?thesis
    proof (cases "rd_n (payload s) (workPos s) 4")
      case None
      then show ?thesis using True by simp
    next
      case (Some b)
      show ?thesis using True Some upd [OF sel [where s = "s\<lparr>selector_bytes := b\<rparr>" and n = n]] by simp
    qed
  next
    case False
    then show ?thesis using sel [of s n] by (simp only: if_False bind.simps)
  qed
  show ?thesis
  proof (cases "check_fields s 0")
    case True
    let ?n = "min (commandLength s) (currentFieldLength s - currentFieldPos s)"
    have "keeps P s (if currentFieldPos s < currentFieldLength s then do {
        s \<leftarrow> (if currentFieldPos s = 0 \<and> 4 \<le> ?n
              then do { sel \<leftarrow> rd_n (payload s) (workPos s) 4; Some (s\<lparr>selector_bytes := sel\<rparr>) } else Some s);
        (ok, s) \<leftarrow> (if store_calldata s then store_data ?n s else Some (True, s));
        if \<not> ok then Some (False, s) else copy_tx_data env None ?n s } else Some (True, s))"
      using copy by (simp only: keeps_Some kept_refl split: if_split) blast
    then show ?thesis unfolding process_data_def Let_def
      using True by (simp only: simp_thms if_False) (erule keeps_bind, auto simp: next_field_kept)
  next
    case False
    then show ?thesis by (simp add: process_data_def)
  qed
qed

lemma process_content_kept: "keeps P s (Some (process_content s))"
  by (auto simp: process_content_def kept_def)

lemma process_field_keeps: "keeps P s (process_field env s)"
  unfolding process_field_def process_legacy_tx_def process_eip2930_tx_def process_eip1559_tx_def process_eip7702_tx_def
  by (simp add: process_fields_keep process_v_keeps process_data_keeps process_content_kept Let_def)

section \<open>Headers and hook\<close>

lemma parse_rlp_loop_keeps: "keeps P s (parse_rlp_loop env s)"
proof (induction env s rule: parse_rlp_loop.induct)
  case (1 env s)
  let ?s0 = "s\<lparr>rlpBufferPos := rlpBufferPos s + 1\<rparr>"
  have r: "kept P s s1" if "read_tx_byte env ?s0 = Some (x, s1)" for x s1
    using read_tx_byte_keeps [where s = ?s0 and env = env and P = P] that by (simp add: keeps_def kept_def)
  have buf: "kept P s (s1\<lparr>rlpBuffer := b\<rparr>)" if "read_tx_byte env ?s0 = Some (x, s1)" for x s1 b
    using r [OF that] by (simp add: kept_def)
  have tr: "keeps P s q" if "kept P s s1" "keeps P s1 q" for s1 and q :: "(parserStatus \<times> 'a txs) option"
    using that kept_trans by (auto simp: keeps_def)
  show ?case
    by (subst parse_rlp_loop.simps) (auto split: option.splits prod.splits intro: r buf tr [OF buf 1])
qed

lemma parse_rlp_keeps: "keeps P s (parse_rlp env s)"
proof -
  have u: "kept P s (s\<lparr>currentFieldLength := a, currentFieldIsList := b\<rparr>)" for s :: "'a txs" and a b by (simp add: kept_def)
  show ?thesis unfolding parse_rlp_def Let_def
    by (intro keeps_bind parse_rlp_loop_keeps)
      (auto simp: keeps_def kept_def split: bind_splits if_splits)
qed

lemma custom_processor_keeps:
  assumes E: "env_keeps P env"
  shows "keeps P s (custom_processor env s)"
proof -
  have rest: "keeps P s (if tk_pluginStatus s = ETH_PLUGIN_RESULT_ERROR then Some (Some CUSTOM_FAULT, s)
      else if plugin_successful (tk_pluginStatus s) then do {
        (ok, s) \<leftarrow> copy_tx_data env None 4 (s\<lparr>tk_fieldIndex := 0, tk_fieldOffset := 0\<rparr>);
        if \<not> ok then Some (Some CUSTOM_FAULT, s)
        else if currentFieldLength s = 4 then Some (Some CUSTOM_NOT_HANDLED, s)
        else Some (None, s) }
      else Some (None, s))" for s
  proof -
    have c: "kept P s (s\<lparr>tk_fieldIndex := 0, tk_fieldOffset := 0\<rparr>)" by (simp add: kept_def)
    have "keeps P s (do { (ok, s) \<leftarrow> copy_tx_data env None 4 (s\<lparr>tk_fieldIndex := 0, tk_fieldOffset := 0\<rparr>);
        if \<not> ok then Some (Some CUSTOM_FAULT, s) else if currentFieldLength s = 4 then Some (Some CUSTOM_NOT_HANDLED, s) else Some (None, s) })"
      by (rule keeps_bind, rule keeps_after [OF c], rule copy_tx_data_keeps) simp_all
    then show ?thesis by simp
  qed
  have beg: "keeps P s (custom_begin env s)" for s
  proof (cases "commandLength s < 4")
    case True
    then show ?thesis by (simp add: custom_begin_def)
  next
    case False
    let ?s1 = "s\<lparr>tk_pluginStatus := ETH_PLUGIN_RESULT_UNAVAILABLE\<rparr>"
    have k: "kept P s ?s1" by (simp add: kept_def)
    show ?thesis
    proof (cases "\<not> store_calldata s \<and> (\<not> env_contractDetails env \<or> env_called_from_swap env)")
      case True
      show ?thesis
      proof (cases "rd_n (payload s) (workPos s) 4")
        case None
        then show ?thesis using True False by (simp add: custom_begin_def Let_def)
      next
        case (Some sel)
        obtain r p where rp: "env_plugin_init env (content s) (get_tx_chain_id s) sel (currentFieldLength s) (plug s) = (r, p)"
          by fastforce
        have k2: "kept P s (s\<lparr>tk_pluginStatus := r, plug := p\<rparr>)" using env_keepsD(1) [OF E _ rp] by (auto simp: kept_def)
        show ?thesis using keeps_after [OF k2 rest] True False Some rp
          by (simp add: custom_begin_def Let_def cong: if_cong)
      qed
    next
      case F: False
      have "custom_begin env s = (if tk_pluginStatus ?s1 = ETH_PLUGIN_RESULT_ERROR then Some (Some CUSTOM_FAULT, ?s1)
        else if plugin_successful (tk_pluginStatus ?s1) then do {
          (ok, s) \<leftarrow> copy_tx_data env None 4 (?s1\<lparr>tk_fieldIndex := 0, tk_fieldOffset := 0\<rparr>);
          if \<not> ok then Some (Some CUSTOM_FAULT, s)
          else if currentFieldLength s = 4 then Some (Some CUSTOM_NOT_HANDLED, s)
          else Some (None, s) }
        else Some (None, ?s1))"
        using F False by (auto simp: custom_begin_def Let_def)
      then show ?thesis using keeps_after [OF k rest] by (simp only:)
    qed
  qed
  have block: "custom_block env s = (x, s') \<Longrightarrow> kept P s s'" for s x s'
    by (auto simp: custom_block_def kept_def split: if_splits)
  have deliver: "custom_deliver env a b s = (x, s') \<Longrightarrow> kept P s s'" for a b s x s'
    using env_keepsD(2) [OF E] by (auto simp: custom_deliver_def kept_def split: if_splits prod.splits bool.splits)
  have copy: "keeps P s (custom_copy env n s)" for n s
  proof -
    have d: "keeps P t (Some (custom_deliver env a b t'))" if "kept P t t'" for t t' a b
      using deliver [of a b t'] that kept_trans [of P t t'] by (cases "custom_deliver env a b t'") auto
    show ?thesis unfolding custom_copy_def Let_def
      by (intro keeps_bind copy_tx_data_keeps) (auto intro!: d, auto simp: kept_def)
  qed
  have pre: "keeps P s q" if "keeps P (s\<lparr>content := c, G_swap_tx_had_calldata := True\<rparr>) q" for s :: "'a txs" and c and q :: "(customStatus \<times> 'a txs) option"
    using that by (simp add: keeps_def kept_def)
  have after: "keeps P s (case early of Some st \<Rightarrow> Some (st, s)
      | None \<Rightarrow> (case custom_block env s of (Inl st, s) \<Rightarrow> Some (st, s) | (Inr size0, s) \<Rightarrow> custom_copy env size0 s))" for early s
    by (cases early; cases "custom_block env s"; cases "fst (custom_block env s)")
      (auto simp: block intro!: keeps_after [OF block copy])
  have first: "keeps P s (if currentFieldPos s = 0 then custom_begin env s else Some (None, s))" for s
    by (simp add: beg)
  have whole: "keeps P s (do { (early, s) \<leftarrow> (if currentFieldPos s = 0 then custom_begin env s else Some (None, s));
      case early of Some st \<Rightarrow> Some (st, s)
      | None \<Rightarrow> (case custom_block env s of (Inl st, s) \<Rightarrow> Some (st, s) | (Inr size0, s) \<Rightarrow> custom_copy env size0 s) })" for s
    by (rule keeps_bind [OF first]) (simp only: prod.case after)
  let ?s = "s\<lparr>content := (content s)\<lparr>dataPresent := True\<rparr>, G_swap_tx_had_calldata := True\<rparr>"
  have ready: "keeps P s r" if "keeps P ?s r" for r :: "(customStatus \<times> 'a txs) option" by (rule pre [OF that])
  note w = ready [OF whole [of ?s]]
  show ?thesis
  proof (cases "is_rlp_data_field s \<and> currentFieldLength s \<noteq> 0")
    case True
    show ?thesis
    proof (cases "destinationLength (content ?s) = 0 \<or> currentFieldLength ?s < 4")
      case True
      then show ?thesis by (auto simp: custom_processor_def kept_def Let_def)
    next
      case False
      then have "destinationLength (content ?s) \<noteq> 0" "\<not> currentFieldLength ?s < 4" by simp_all
      with \<open>is_rlp_data_field s \<and> currentFieldLength s \<noteq> 0\<close> show ?thesis unfolding custom_processor_def Let_def
        by (simp only: simp_thms if_True if_False w)
    qed
  next
    case False
    then show ?thesis by (simp add: custom_processor_def)
  qed
qed

section \<open>The loop\<close>

lemma field_step_keeps: "env_keeps P env \<Longrightarrow> keeps P s (field_step env s)"
  unfolding field_step_def
  by (auto intro!: keeps_bind custom_processor_keeps process_field_keeps split: customStatus.split)

lemma parsing_done_keeps: "env_keeps P env \<Longrightarrow> keeps P s (parsing_done env s)"
  by (auto simp: keeps_def kept_def parsing_done_def Let_def split: bind_splits if_splits prod.splits option.splits
      dest: env_keepsD(3))

lemma process_tx_step_keeps: "env_keeps P env \<Longrightarrow> keeps P s (process_tx_step env s)"
  unfolding process_tx_step_def
  by (auto intro!: parsing_done_keeps keeps_bind parse_rlp_keeps field_step_keeps)

lemma process_tx_internal_kept: "env_keeps P env \<Longrightarrow> process_tx_internal env s = Some (st, s') \<Longrightarrow> kept P s s'"
proof -
  have "process_tx_internal env s = Some r \<Longrightarrow> env_keeps P env \<longrightarrow> kept P s (snd r)" for r
  proof (rule process_tx_internal.raw_induct [where P = "\<lambda>env s r. env_keeps P env \<longrightarrow> kept P s (snd r)"])
    fix f :: "'a tx_env \<Rightarrow> 'a txs \<Rightarrow> (parserStatus \<times> 'a txs) option" and env :: "'a tx_env" and s :: "'a txs" and r
    assume ih: "\<And>env s r. f env s = Some r \<Longrightarrow> env_keeps P env \<longrightarrow> kept P s (snd r)"
      and step: "process_tx_step env s \<bind> (\<lambda>(st, s). if st = USTREAM_CONTINUE then f env s else Some (st, s)) = Some r"
    then obtain st1 s1 where s1: "process_tx_step env s = Some (st1, s1)" by (auto split: bind_splits)
    show "env_keeps P env \<longrightarrow> kept P s (snd r)"
    proof
      assume E: "env_keeps P env"
      have "kept P s s1" using process_tx_step_keeps [OF E, of s] s1 by (simp add: keeps_def)
      moreover have "kept P s1 (snd r)" using step s1 ih [of env s1 r] E by (auto split: if_splits)
      ultimately show "kept P s (snd r)" by (rule kept_trans)
    qed
  qed
  then show "env_keeps P env \<Longrightarrow> process_tx_internal env s = Some (st, s') \<Longrightarrow> kept P s s'" by force
qed

lemma process_tx_kept: "env_keeps P env \<Longrightarrow> process_tx env buf s = Some (st, s') \<Longrightarrow> kept P s s'"
  using process_tx_internal_kept [of P env "s\<lparr>payload := buf, workPos := 0, commandLength := word_of_nat (length buf)\<rparr>" st s']
  by (simp add: process_tx_def kept_def)

end
