(* ===== verification/Sign_Tx_Inv.thy ===== *)
theory Sign_Tx_Inv
  imports Sign_Tx Finalize_Results Ustream_Frame
begin

text \<open>
  What the signing command of \<open>Sign_Tx\<close> promises over any APDU: it answers, keeps its invariant, an error brings the
  application back to rest, and in a swap it signs nothing but the promised transaction.  The review of a stored transaction
  starts only on a complete description.
\<close>

section \<open>The promise during the parsing\<close>

lemma plugin_init_keeps_swap: "parser_plugin_init E ct c sel n p = (r, q) \<Longrightarrow> ps_swap q = ps_swap p"
proof -
  have c: "ps_swap q = ps_swap p" if "perform_init_call E st ct sel n p = (r, q)" for st r p q
    using perform_init_call_frame [OF that] by simp
  show "parser_plugin_init E ct c sel n p = (r, q) \<Longrightarrow> ps_swap q = ps_swap p"
    by (auto simp: parser_plugin_init_def eth_plugin_perform_init_def eth_plugin_perform_init_old_internal_def dest!: c
        split: pluginType.splits prod.splits option.splits bool.splits)
qed

lemma plugin_parameter_keeps_swap: "parser_plugin_parameter E ct d off n p = (r, q) \<Longrightarrow> ps_swap q = ps_swap p"
  by (auto simp: parser_plugin_parameter_def call_parameter_def Let_def split: if_splits prod.splits pluginType.splits option.splits bind_splits)

lemma sign_env_keeps_swap: "env_keeps (\<lambda>p. ps_swap (fst p) = g) (sign_env S)"
  unfolding env_keeps_def
proof (intro conjI allI impI)
  fix ct c sel n and p :: "'a plugin_state \<times> gcs"
  assume "ps_swap (fst p) = g"
  then show "ps_swap (fst (snd (env_plugin_init (sign_env S) ct c sel n p))) = g"
    using plugin_init_keeps_swap [of "sp_plugins S" ct c sel n "fst p"]
    by (simp add: sign_env_def on_plugins_def split: prod.split)
next
  fix ct d off n and p :: "'a plugin_state \<times> gcs"
  assume "ps_swap (fst p) = g"
  then show "ps_swap (fst (snd (env_plugin_parameter (sign_env S) ct d off n p))) = g"
    using plugin_parameter_keeps_swap [of "sp_plugins S" ct d off n "fst p"]
    by (simp add: sign_env_def on_plugins_def split: prod.split)
next
  fix cd to am c m r and p :: "'a plugin_state \<times> gcs"
  assume "ps_swap (fst p) = g" "env_tx_ctx_init (sign_env S) cd to am c p m = Some r"
  then show "ps_swap (fst (fst (snd (snd r)))) = g"
    by (auto simp: sign_env_def ctx_init_call_def split: bind_splits)
qed

text \<open>The context of the token plugin keeps its size, so that no parameter makes it fault (\<open>call_parameter_total\<close>).  The reset
  gives it that size.\<close>

lemma sign_env_keeps_sized: "env_keeps (\<lambda>p. erc20_sized (fst p)) (sign_env S)"
  unfolding env_keeps_def
proof (intro conjI allI impI)
  fix ct c sel n and p :: "'a plugin_state \<times> gcs"
  assume "erc20_sized (fst p)"
  then show "erc20_sized (fst (snd (env_plugin_init (sign_env S) ct c sel n p)))"
    using parser_plugin_init_sized [of "fst p" "sp_plugins S" ct c sel n] by (simp add: sign_env_def on_plugins_def case_prod_beta)
next
  fix ct d off n and p :: "'a plugin_state \<times> gcs"
  assume "erc20_sized (fst p)"
  then show "erc20_sized (fst (snd (env_plugin_parameter (sign_env S) ct d off n p)))"
    using parser_plugin_parameter_sized [of "fst p" "sp_plugins S" ct d off n] by (simp add: sign_env_def on_plugins_def case_prod_beta)
next
  fix cd to am c m r and p :: "'a plugin_state \<times> gcs"
  assume "erc20_sized (fst p)" "env_tx_ctx_init (sign_env S) cd to am c p m = Some r"
  then show "erc20_sized (fst (fst (snd (snd r))))"
    by (auto simp: sign_env_def ctx_init_call_def split: bind_splits)
qed

lemma process_tx_keeps_sized:
  "process_tx (sign_env S) b t = Some (st, t') \<Longrightarrow> erc20_sized (fst (plug t)) \<Longrightarrow> erc20_sized (fst (plug t'))"
  using process_tx_kept [OF sign_env_keeps_sized, of S b t st t'] by (simp add: kept_def)

lemma plugins_reset_sized: "erc20_sized (plugins_reset E p)"
  by (simp add: erc20_sized_def plugins_reset_def erc20_zero_def)

lemma process_tx_keeps_swap:
  assumes "process_tx (sign_env S) b (st_tx s) = Some (st, t)"
  shows "swap_of (s\<lparr>st_tx := t\<rparr>) = swap_of s"
    and "\<not> store_calldata (st_tx s) \<Longrightarrow> g_parked_calldata t = g_parked_calldata (st_tx s)"
    and "store_calldata t = store_calldata (st_tx s)"
  using process_tx_kept [OF sign_env_keeps_swap [of "swap_of s"] assms]
  by (simp_all add: kept_def swap_of_def plugins_of_def)

section \<open>The invariant\<close>

text \<open>A review is shown only while a transaction is being signed, after the hash is closed; a swap comes with the hash of its call (or a null one).\<close>

definition sign_inv :: "'c sign_platform \<Rightarrow> 'c sign_state \<Rightarrow> bool" where
  "sign_inv S s \<longleftrightarrow> tx_inv (st_tx s) \<and> (under_review s \<noteq> None \<longrightarrow> \<not> g_tx_hash_ctx s \<and> tx_appState (st_tx s) \<noteq> APP_STATE_IDLE) \<and>
     (called_from_swap S \<longrightarrow> G_swap_crosschain_hash (swap_of s) \<noteq> None)"

text \<open>What is left for the main loop: the invariant holds, or the loop is about to reset.\<close>

definition command_result :: "'c sign_platform \<Rightarrow> sw \<Rightarrow> 'c sign_state \<Rightarrow> bool" where
  "command_result S sw s \<longleftrightarrow> sign_inv S s \<or> is_error sw \<and> (\<not> store_calldata (st_tx s) \<longrightarrow> parked_ok (g_parked_calldata (st_tx s)))"

lemma at_rest_inv: "at_rest s \<Longrightarrow> tx_inv (st_tx s) \<Longrightarrow> \<not> called_from_swap S \<Longrightarrow> sign_inv S s"
  by (simp add: at_rest_def sign_inv_def)

lemma app_main_react_result:
  assumes S: "v_size_ok S" and c: "command_result S sw s"
  shows "app_main_react S (sw, s) = App_exit \<and> called_from_swap S \<or>
    (\<exists>sw' s'. app_main_react S (sw, s) = Returns (sw', s') \<and> sign_inv S s' \<and> (is_error sw \<longrightarrow> at_rest s'))"
proof (cases "is_error sw")
  case False
  then show ?thesis using c by (auto simp: app_main_react_def command_result_def is_error_def)
next
  case True
  then have e: "sw \<noteq> SWO_NO_RESPONSE" "sw \<noteq> SWO_SUCCESS" "sw \<noteq> SWO_COMMAND_CODE_NOT_SUPPORTED" by (auto simp: is_error_def)
  show ?thesis
  proof (cases "called_from_swap S")
    case True
    then show ?thesis using e by (simp add: app_main_react_def sign_reset_def)
  next
    case False
    have "\<not> store_calldata (st_tx s) \<longrightarrow> parked_ok (g_parked_calldata (st_tx s))"
      using c by (auto simp: command_result_def sign_inv_def tx_inv_def tx_base_def)
    from sign_reset_result [OF S this False] obtain s' where "sign_reset S s = Returns s'" "at_rest s'" "tx_inv (st_tx s')" by blast
    then show ?thesis using e at_rest_inv False by (simp add: app_main_react_def)
  qed
qed

section \<open>One APDU\<close>

text \<open>A chunk that comes while a review is shown: the hash is closed already.\<close>

lemma finalize_without_hash:
  assumes S: "platform_ok S" and inv: "tx_inv (st_tx s)" and n: "\<not> g_tx_hash_ctx s"
  shows "finalize_parsing S s = Some App_exit \<and> called_from_swap S \<or>
    finalize_parsing S s = Some (Returns (SWO_INSUFFICIENT_MEMORY, s)) \<or>
    (\<exists>s'. finalize_parsing S s = Some (Returns (SWO_NO_RESPONSE, s')) \<and> tx_inv (st_tx s') \<and> at_rest s' \<and> \<not> called_from_swap S)"
proof -
  have f: "free_hash s = s" using n by (simp add: free_hash_def)
  have x: "finalize_sender S s = fin_end SWO_INSUFFICIENT_MEMORY s" using n by (simp add: finalize_sender_def)
  have "finalize_chain S s = Some (Inr s) \<or> finalize_chain S s = fin_exit \<and> called_from_swap S \<or>
      finalize_chain S s = report_finalize_error S s" by (simp add: finalize_chain_def Let_def)
  then consider "finalize_chain S s = Some (Inr s)" | "finalize_chain S s = fin_exit" "called_from_swap S"
    | "finalize_chain S s = report_finalize_error S s" by blast
  then show ?thesis
  proof cases
    case 1
    then show ?thesis using x f
      by (simp add: finalize_parsing_def finalize_parsing_helper_def finalize_stages_def Let_def fbind_def fin_end_def)
  next
    case 2
    then show ?thesis by (simp add: finalize_parsing_def finalize_parsing_helper_def finalize_stages_def Let_def fbind_def fin_exit_def)
  next
    case 3
    then show ?thesis
    proof (cases "called_from_swap S")
      case True
      then show ?thesis using 3
        by (simp add: finalize_parsing_def finalize_parsing_helper_def finalize_stages_def Let_def fbind_def report_finalize_error_def
            io_seproxyhal_send_status_def sign_reset_def)
    next
      case False
      have p: "\<not> store_calldata (st_tx s) \<longrightarrow> parked_ok (g_parked_calldata (st_tx s))" using inv by (simp add: tx_inv_def tx_base_def)
      have v: "v_size_ok S" using S by (simp add: platform_ok_def)
      obtain s' where s': "sign_reset S s = Returns s'" "at_rest s'" "tx_inv (st_tx s')" using sign_reset_result [OF v p False] by blast
      have "at_rest (free_hash (s'\<lparr>sent := y\<rparr>)) = at_rest s'" for y using s'(2) by (simp add: at_rest_def free_hash_def plugins_of_def)
      then show ?thesis using 3 s' False
        by (simp add: finalize_parsing_def finalize_parsing_helper_def finalize_stages_def Let_def fbind_def report_finalize_error_def
            io_seproxyhal_send_status_def)
    qed
  qed
qed

lemma promise_kept_hash: "promise_kept g g' \<Longrightarrow> G_swap_crosschain_hash g' = G_swap_crosschain_hash g"
  by (simp add: promise_kept_def)

text \<open>The end of a transaction, on any state of the invariant.\<close>

lemma finalize_command_result:
  assumes S: "platform_ok S" and inv: "sign_inv S s" and a: "tx_appState (st_tx s) \<noteq> APP_STATE_IDLE"
  shows "finalize_parsing S s = Some App_exit \<and> called_from_swap S \<or>
    (\<exists>resp. finalize_parsing S s = Some (Swap_done resp) \<and> finalize_outcome S s (Swap_done resp)) \<or>
    (\<exists>sw s'. finalize_parsing S s = Some (Returns (sw, s')) \<and> command_result S sw s')"
proof (cases "under_review s")
  case None
  then have "ready_to_finalize s" and h: "called_from_swap S \<longrightarrow> G_swap_crosschain_hash (swap_of s) \<noteq> None"
    using inv by (simp_all add: ready_to_finalize_def sign_inv_def)
  then obtain r where r: "finalize_parsing S s = Some r" "finalize_outcome S s r" using finalize_parsing_result [OF S] by blast
  show ?thesis
  proof (cases r)
    case (Returns x)
    obtain sw s' where x: "x = (sw, s')" by (cases x)
    have o: "tx_inv (st_tx s')" "called_from_swap S \<longrightarrow> is_error sw \<or> promise_kept (swap_of s) (swap_of s')"
      using r(2) Returns x by (simp_all add: finalize_outcome_def)
    have u: "under_review s' \<noteq> None \<longrightarrow> \<not> g_tx_hash_ctx s' \<and> tx_appState (st_tx s') \<noteq> APP_STATE_IDLE"
      using r(2) Returns x a by (auto simp: finalize_outcome_def finalized_def fin_frame_same(5) split: option.splits)
    have p: "\<not> store_calldata (st_tx s') \<longrightarrow> parked_ok (g_parked_calldata (st_tx s'))" using o(1) by (simp add: tx_inv_def tx_base_def)
    have "command_result S sw s'"
      using o(1,2) u p h promise_kept_hash [of "swap_of s" "swap_of s'"] unfolding command_result_def sign_inv_def by metis
    then show ?thesis using r(1) Returns x by blast
  next
    case App_exit
    then show ?thesis using r by (simp add: finalize_outcome_def)
  next
    case (Swap_done resp)
    then show ?thesis using r by blast
  qed
next
  case (Some fp)
  then have n: "\<not> g_tx_hash_ctx s" and i: "tx_inv (st_tx s)" using inv by (simp_all add: sign_inv_def)
  from finalize_without_hash [OF S i n] show ?thesis
    using i at_rest_inv by (auto simp: command_result_def tx_inv_def tx_base_def)
qed

lemma command_result_free: "command_result S sw s \<Longrightarrow> command_result S sw (free_hash s)"
  by (auto simp: command_result_def sign_inv_def)

lemma sign_inv_set_tx:
  assumes "sign_inv S s" "process_tx (sign_env S) b (st_tx s) = Some (st, t)" "tx_inv t" "tx_appState t = tx_appState (st_tx s)"
  shows "sign_inv S (s\<lparr>st_tx := t\<rparr>)"
  using assms process_tx_keeps_swap(1) [OF assms(2)] by (simp add: sign_inv_def)

lemma tx_inv_upd [simp]:
  "tx_inv (t\<lparr>tx_appState := a\<rparr>) = tx_inv t" "tx_inv (t\<lparr>txType := ty\<rparr>) = tx_inv t" "tx_inv (t\<lparr>sha3 := h\<rparr>) = tx_inv t"
  "tx_inv (t\<lparr>plug := pg\<rparr>) = tx_inv t"
  "tx_inv (t\<lparr>tx_appState := a, content := (content t)\<lparr>dataPresent := b\<rparr>, G_swap_tx_had_calldata := b', tk_pluginStatus := p\<rparr>) = tx_inv t"
  by (simp_all add: tx_inv_def tx_base_def content_ok_def)

lemma show_data_keeps:
  "st_tx (set_swap g s) = (st_tx s)\<lparr>plug := ((plugins_of s)\<lparr>ps_swap := g\<rparr>, snd (plug (st_tx s)))\<rparr>"
  "sign_inv S s \<Longrightarrow> sign_inv S (show_data S s)"
  by (simp_all add: show_data_def Let_def sign_inv_def set_swap_def set_plugins_def swap_of_def plugins_of_def)

lemma sign_parse_result:
  assumes S: "platform_ok S" and inv: "sign_inv S s" and a: "tx_appState (st_tx s) \<noteq> APP_STATE_IDLE" and len: "length apdu < 256"
  shows "sign_parse S apdu off s = None \<and> store_calldata (st_tx s) \<and> process_tx (sign_env S) (drop (unat off) apdu) (st_tx s) = None \<and>
      (\<exists>t. fault_at (sign_env S) (drop (unat off) apdu) (st_tx s) t) \<or>
    sign_parse S apdu off s = Some App_exit \<and> (called_from_swap S \<or> (\<exists>st t. process_tx (sign_env S) (drop (unat off) apdu) (st_tx s) = Some (st, t) \<and> ps_exited (fst (plug t)))) \<or>
    (\<exists>resp. sign_parse S apdu off s = Some (Swap_done resp) \<and> called_from_swap S) \<or>
    (\<exists>sw s'. sign_parse S apdu off s = Some (Returns (sw, s')) \<and> command_result S sw s')"
proof (cases "currentField (st_tx s) = RLP_NONE")
  case True
  then show ?thesis using inv by (simp add: sign_parse_def command_result_def)
next
  case False
  let ?b = "drop (unat off) apdu"
  have lb: "length ?b < 2 ^ 32" using len by simp
  have i: "tx_inv (st_tx s)" using inv by (simp add: sign_inv_def)
  show ?thesis
  proof (rule process_tx_total [OF i lb, of "sign_env S"])
    fix t
    assume "process_tx (sign_env S) ?b (st_tx s) = None" "store_calldata (st_tx s)" "fault_at (sign_env S) ?b (st_tx s) t"
    then show ?thesis using False by (auto simp: sign_parse_def)
  next
    fix st t
    assume r: "process_tx (sign_env S) ?b (st_tx s) = Some (st, t)" "st \<noteq> USTREAM_CONTINUE"
      and t: "st \<noteq> USTREAM_FAULT \<Longrightarrow> tx_inv t \<and> payload t = ?b \<and> workPos t \<le> length ?b \<and>
        sha3 t = sha3 (st_tx s) @ take (workPos t) ?b \<and> store_calldata t = store_calldata (st_tx s)"
    show ?thesis
    proof (cases "ps_exited (fst (plug t))")
      case True
      then show ?thesis using False r(1) by (simp add: sign_parse_def)
    next
      case stay: False
      let ?s = "s\<lparr>st_tx := t\<rparr>"
      have parked: "\<not> store_calldata t \<longrightarrow> parked_ok (g_parked_calldata t)"
        using process_tx_keeps_swap(2,3) [OF r(1)] i by (simp add: tx_inv_def tx_base_def)
      have same: "tx_appState t = tx_appState (st_tx s)" if "st \<noteq> USTREAM_FAULT" by (rule process_tx_appState [OF i lb r(1) that])
      have ok: "sign_inv S ?s" if "st \<noteq> USTREAM_FAULT" by (rule sign_inv_set_tx [OF inv r(1) _ same [OF that]]) (use t that in blast)
      have q: "handle_parsing_status S st ?s = Some App_exit \<and> called_from_swap S \<or>
          (\<exists>resp. handle_parsing_status S st ?s = Some (Swap_done resp) \<and> called_from_swap S) \<or>
          (\<exists>sw s'. handle_parsing_status S st ?s = Some (Returns (sw, s')) \<and> command_result S sw s')"
      proof (cases st)
        case USTREAM_FINISHED
        then show ?thesis using finalize_command_result [OF S ok] same a by (auto simp: handle_parsing_status_def finalize_outcome_def)
      next
        case USTREAM_FAULT
        then show ?thesis using parked by (simp add: handle_parsing_status_def command_result_def)
      qed (use ok r(2) in \<open>simp_all add: handle_parsing_status_def command_result_def show_data_keeps(2)\<close>)
      then show ?thesis
      proof (elim disjE exE conjE)
        fix sw s'
        assume x: "handle_parsing_status S st ?s = Some (Returns (sw, s'))" "command_result S sw s'"
        define w where "w = (if sign_mode s' = SIGN_MODE_BASIC \<and> st = USTREAM_FINISHED \<and> sw = SWO_SUCCESS then SWO_NO_RESPONSE else sw)"
        have c: "command_result S w s'" using x(2) by (auto simp: command_result_def w_def)
        have e: "sign_parse S apdu off s = Some (Returns (w, if w \<noteq> SWO_NO_RESPONSE \<and> w \<noteq> SWO_SUCCESS then free_hash s' else s'))"
          using False by (simp add: sign_parse_def r(1) stay x(1) w_def [symmetric] Let_def)
        have "command_result S w (if w \<noteq> SWO_NO_RESPONSE \<and> w \<noteq> SWO_SUCCESS then free_hash s' else s')"
          using c command_result_free [OF c] by (cases "w \<noteq> SWO_NO_RESPONSE \<and> w \<noteq> SWO_SUCCESS") simp_all
        then show ?thesis using e by blast
      qed (use False r(1) stay in \<open>simp_all add: sign_parse_def\<close>)
    qed
  qed
qed

lemma init_tx_result:
  assumes "tx_inv t" "init_tx env store t = (ok, t')"
  shows "tx_inv t'" "tx_appState t' = tx_appState t" "plug t' = plug t"
  using init_tx_inv(1) [of t env store] assms by (auto simp: tx_inv_def tx_base_def init_tx_def)

lemma sign_tx_type_result:
  assumes inv: "tx_inv (st_tx s)" and off: "unat off < length apdu"
  shows "\<exists>sw off' s'. sign_tx_type S apdu off s = Some (sw, off', s') \<and> tx_inv (st_tx s') \<and>
     store_calldata (st_tx s') = store_calldata (st_tx s) \<and> tx_appState (st_tx s') = tx_appState (st_tx s) \<and>
     under_review s' = under_review s \<and> swap_of s' = swap_of s"
proof -
  obtain b where "rd apdu (unat off) = Some b" using off by (simp add: rd_def)
  then show ?thesis using inv by (auto simp: sign_tx_type_def absorb_def swap_of_def plugins_of_def)
qed

text \<open>The first chunk: when it is accepted the parser is ready, in the state of a transaction.\<close>

lemma first_chunk_result:
  assumes inv: "sign_inv S s" and len: "length apdu = unat len"
  shows "\<exists>sw off s'. handle_first_sign_chunk S apdu len 0 mode s = Some (sw, off, s') \<and> sign_inv S s' \<and>
     (sw = SWO_NO_RESPONSE \<longrightarrow> store_calldata (st_tx s') = (mode = SIGN_MODE_STORE) \<and> tx_appState (st_tx s') \<noteq> APP_STATE_IDLE)"
proof (cases "tx_appState (st_tx s) = APP_STATE_IDLE")
  case True
  have u: "under_review s = None" and i: "tx_inv (st_tx s)" and h: "called_from_swap S \<longrightarrow> G_swap_crosschain_hash (swap_of s) \<noteq> None"
    using inv True by (auto simp: sign_inv_def)
  have good: "sign_inv S s'" if "tx_inv (st_tx s')" "under_review s' = None" "G_swap_crosschain_hash (swap_of s') = G_swap_crosschain_hash (swap_of s)" for s'
    using that h by (simp add: sign_inv_def)
  obtain r len' b where p: "parseBip32 (sp_bip32_path_read S) (sp_addr S) apdu len (st_bip32 s) = Some (r, len', b)"
    using parseBip32_safe [of len apdu] len by metis
  show ?thesis
  proof (cases r)
    case None
    have "sign_inv S (s\<lparr>st_tx := (st_tx s)\<lparr>tx_appState := APP_STATE_SIGNING_TX\<rparr>, sign_mode := mode, st_bip32 := b\<rparr>)"
      by (rule good) (use i u in \<open>simp_all add: swap_of_def plugins_of_def\<close>)
    then show ?thesis using True p None by (simp add: handle_first_sign_chunk_def)
  next
    case (Some rest)
    define s1 where "s1 = set_swap ((swap_of s)\<lparr>G_swap_calldata_validated := False\<rparr>) (s\<lparr>sign_mode := mode, st_bip32 := b,
        st_tx := (st_tx s)\<lparr>tx_appState := APP_STATE_SIGNING_TX,
          content := (content (st_tx s))\<lparr>dataPresent := False\<rparr>, G_swap_tx_had_calldata := False,
          tk_pluginStatus := ETH_PLUGIN_RESULT_UNAVAILABLE\<rparr>\<rparr>)"
    obtain aok m where a: "mem_alloc (hash_mem s) = (aok, m)" by fastforce
    obtain iok t where t: "init_tx (sign_env S) (mode = SIGN_MODE_STORE) (st_tx s1) = (iok, t)" by fastforce
    have f: "tx_inv (st_tx s1)" "tx_appState (st_tx s1) = APP_STATE_SIGNING_TX" "under_review s1 = None" "hash_mem s1 = hash_mem s"
      "G_swap_crosschain_hash (swap_of s1) = G_swap_crosschain_hash (swap_of s)"
      using i u by (simp_all add: s1_def, simp_all add: set_swap_def set_plugins_def)
    note it = init_tx_result [OF f(1) t]
    have ist: "store_calldata t = (mode = SIGN_MODE_STORE)" using t by (auto simp: init_tx_def)
    define s2 where "s2 = s1\<lparr>hash_mem := m, g_tx_hash_ctx := True, st_tx := t\<rparr>"
    have sw2: "swap_of s2 = swap_of s1" using it(3) by (simp add: s2_def swap_of_def plugins_of_def)
    have e: "handle_first_sign_chunk S apdu len 0 mode s =
        (if \<not> aok then Some (SWO_INSUFFICIENT_MEMORY, len - len', s1\<lparr>hash_mem := m, g_tx_hash_ctx := False\<rparr>)
         else if \<not> iok then Some (SWO_INCORRECT_DATA, len - len', s2)
         else if len \<le> len - len' then Some (SWO_INCORRECT_DATA, len - len', s2)
         else sign_tx_type S apdu (len - len') s2)"
      using True p Some a t f(4)
      by (simp add: handle_first_sign_chunk_def Let_def s1_def s2_def swap_of_def plugins_of_def)
    have i2: "sign_inv S s2" by (rule good) (use f it(1) sw2 in \<open>simp_all add: s2_def\<close>)
    have i1: "sign_inv S (s1\<lparr>hash_mem := m, g_tx_hash_ctx := False\<rparr>)" by (rule good) (use f in \<open>simp_all add: swap_of_def plugins_of_def\<close>)
    show ?thesis
    proof (cases "aok \<and> iok \<and> len - len' < len")
      case True
      then have off: "unat (len - len') < length apdu" using len by (simp add: word_less_nat_alt)
      have "tx_inv (st_tx s2)" using it(1) by (simp add: s2_def)
      from sign_tx_type_result [OF this off, of S] obtain sw off' s' where
        s': "sign_tx_type S apdu (len - len') s2 = Some (sw, off', s')" "tx_inv (st_tx s')" "store_calldata (st_tx s') = store_calldata (st_tx s2)"
          "tx_appState (st_tx s') = tx_appState (st_tx s2)" "under_review s' = under_review s2" "swap_of s' = swap_of s2" by blast
      have "sign_inv S s'" by (rule good) (use s' f sw2 in \<open>simp_all add: s2_def\<close>)
      moreover have "tx_appState (st_tx s2) = APP_STATE_SIGNING_TX" "store_calldata (st_tx s2) = (mode = SIGN_MODE_STORE)"
        using ist it(2) f(2) by (simp_all add: s2_def)
      moreover have "handle_first_sign_chunk S apdu len 0 mode s = Some (sw, off', s')"
        using True e s'(1) by (simp only: linorder_not_le [symmetric] simp_thms if_True if_False)
      ultimately show ?thesis using s'(3,4) by simp
    next
      case False
      then show ?thesis using e i1 i2 by (auto simp: linorder_not_less)
    qed
  qed
next
  case False
  then show ?thesis using inv by (simp add: handle_first_sign_chunk_def)
qed

text \<open>Whatever it answers, the start of the review keeps the invariant: it touches nothing but the list of the contexts, the table
  and their memory.\<close>

lemma start_flow_keeps:
  assumes inv: "sign_inv S s" and g: "gcs_inv (tx_gcs (st_tx s))"
  shows "\<exists>sw s'. start_flow S len s = Some (sw, s') \<and> sign_inv S s'"
proof -
  let ?g = "tx_gcs (st_tx s)" and ?E = "sp_gcs S"
  obtain b where b: "validate_instruction_hash ?E ?g = Some b" using validate_total [OF gcs_inv_current_ok [OF g]] by blast
  show ?thesis
  proof (cases "tx_appState (st_tx s) = APP_STATE_SIGNING_TX \<and> len = 0 \<and> b")
    case False
    then show ?thesis using b inv by (auto simp: start_flow_def)
  next
    case True
    then obtain i where i: "g_tx_ctx_current ?g = Some i"
      using b by (auto simp: validate_instruction_hash_def validate_inst_hash_on_def split: option.splits)
    obtain ok g' R where e: "process_empty_txs_after ?E ?g = Some (ok, g')" "emptied R ?g g'"
      using process_empty_txs_around(2) [OF g i, of ?E] by (auto simp: emptying_def)
    have p: "gcs_parked g' = g_parked_calldata (st_tx s)" using e(2) by (auto simp: emptied_def tx_gcs_def gcs_in_def)
    have "tx_inv (gcs_out g' (st_tx s)) = tx_inv (st_tx s)"
      by (simp add: gcs_out_def p tx_inv_def tx_base_def)
    then have "sign_inv S (s\<lparr>st_tx := gcs_out g' (st_tx s)\<rparr>)"
      using inv by (simp add: sign_inv_def swap_of_def plugins_of_def gcs_out_def)
    then show ?thesis using True b e(1) by (auto simp: start_flow_def Let_def)
  qed
qed

text \<open>The APDUs that reach the parser, the state they reach it in and where in them its bytes start.\<close>

definition reaches_parser ::
  "'c sign_platform \<Rightarrow> uint8 \<Rightarrow> uint8 \<Rightarrow> bytes \<Rightarrow> uint8 \<Rightarrow> 'c sign_state \<Rightarrow> uint8 \<Rightarrow> 'c sign_state \<Rightarrow> bool" where
  "reaches_parser S p1 p2 apdu len s off u \<longleftrightarrow>
     (p2 = SIGN_MODE_BASIC \<or> p2 = SIGN_MODE_STORE) \<and> currentField (st_tx u) \<noteq> RLP_NONE \<and>
     (p1 = P1_FIRST \<and> handle_first_sign_chunk S apdu len 0 p2 s = Some (SWO_NO_RESPONSE, off, u) \<or>
      p1 = P1_MORE \<and> tx_appState (st_tx s) = APP_STATE_SIGNING_TX \<and> p2 = sign_mode s \<and> off = 0 \<and> u = s)"

text \<open>The command answers, signs, quits, or faults for lack of memory.\<close>

definition answers ::
  "'c sign_platform \<Rightarrow> (uint8 \<Rightarrow> 'c sign_state \<Rightarrow> bool) \<Rightarrow> bytes \<Rightarrow> (sw \<Rightarrow> 'c sign_state \<Rightarrow> bool) \<Rightarrow> (sw \<times> 'c sign_state) outcome option \<Rightarrow> bool" where
  "answers S R apdu Q r \<longleftrightarrow>
     (case r of
        None \<Rightarrow> \<exists>off u t. R off u \<and> store_calldata (st_tx u) \<and> process_tx (sign_env S) (drop (unat off) apdu) (st_tx u) = None \<and>
                  fault_at (sign_env S) (drop (unat off) apdu) (st_tx u) t
      | Some App_exit \<Rightarrow> called_from_swap S \<or>
          (\<exists>off u st t. R off u \<and> process_tx (sign_env S) (drop (unat off) apdu) (st_tx u) = Some (st, t) \<and> ps_exited (fst (plug t)))
      | Some (Swap_done _) \<Rightarrow> called_from_swap S
      | Some (Returns (sw, s)) \<Rightarrow> Q sw s)"

lemma sign_parse_answers:
  assumes "platform_ok S" "sign_inv S s" "tx_appState (st_tx s) \<noteq> APP_STATE_IDLE" "length apdu < 256"
    and R: "currentField (st_tx s) \<noteq> RLP_NONE \<Longrightarrow> R off s"
  shows "answers S R apdu (command_result S) (sign_parse S apdu off s)"
proof (cases "currentField (st_tx s) = RLP_NONE")
  case True
  then show ?thesis using assms(2) by (simp add: sign_parse_def answers_def command_result_def)
next
  case False
  note R = R [OF False]
  from sign_parse_result [OF assms(1-4), of off] show ?thesis
  proof (elim disjE conjE exE)
    fix t
    assume "sign_parse S apdu off s = None" "store_calldata (st_tx s)" "process_tx (sign_env S) (drop (unat off) apdu) (st_tx s) = None"
      "fault_at (sign_env S) (drop (unat off) apdu) (st_tx s) t"
    then show ?thesis unfolding answers_def using R by auto
  next
    fix st t
    assume "sign_parse S apdu off s = Some App_exit" "process_tx (sign_env S) (drop (unat off) apdu) (st_tx s) = Some (st, t)"
      "ps_exited (fst (plug t))"
    then show ?thesis unfolding answers_def using R by auto
  qed (simp_all add: answers_def)
qed

lemma handle_sign_result:
  assumes S: "platform_ok S" and inv: "sign_inv S s" and len: "length apdu = unat len"
    and g: "p2 = SIGN_MODE_START_FLOW \<Longrightarrow> gcs_inv (tx_gcs (st_tx s))"
  shows "answers S (reaches_parser S p1 p2 apdu len s) apdu (command_result S) (handle_sign S p1 p2 apdu len s)"
proof -
  have lt: "length apdu < 256" using len unsigned_less [where ?'a = nat, of len] by simp
  have c: "command_result S sw s" for sw using inv by (simp add: command_result_def)
  show ?thesis
  proof (cases "(p2 = SIGN_MODE_BASIC \<or> p2 = SIGN_MODE_STORE) \<and> p1 = P1_FIRST")
    case True
    obtain sw off s1 where f: "handle_first_sign_chunk S apdu len 0 p2 s = Some (sw, off, s1)" "sign_inv S s1"
        "sw = SWO_NO_RESPONSE \<longrightarrow> tx_appState (st_tx s1) \<noteq> APP_STATE_IDLE"
      using first_chunk_result [OF inv len, of p2] by blast
    have h: "handle_sign S p1 p2 apdu len s = (if sw \<noteq> SWO_NO_RESPONSE then Some (Returns (sw, s1)) else sign_parse S apdu off s1)"
      using True f(1) by (simp add: handle_sign_def)
    show ?thesis
    proof (cases "sw = SWO_NO_RESPONSE")
      case no: True
      have "answers S (reaches_parser S p1 p2 apdu len s) apdu (command_result S) (sign_parse S apdu off s1)"
        by (rule sign_parse_answers [OF S f(2) _ lt]) (use f no True in \<open>auto simp: reaches_parser_def\<close>)
      then show ?thesis using no unfolding h by simp
    next
      case False
      then show ?thesis using f(2) unfolding h by (simp add: answers_def command_result_def)
    qed
  next
    case first: False
    show ?thesis
    proof (cases "(p2 = SIGN_MODE_BASIC \<or> p2 = SIGN_MODE_STORE) \<and> p1 = P1_MORE \<and> tx_appState (st_tx s) = APP_STATE_SIGNING_TX \<and> p2 = sign_mode s")
      case True
      then have h: "handle_sign S p1 p2 apdu len s = sign_parse S apdu 0 s" using first by (auto simp: handle_sign_def)
      show ?thesis unfolding h by (rule sign_parse_answers [OF S inv _ lt]) (use True in \<open>auto simp: reaches_parser_def\<close>)
    next
      case more: False
      show ?thesis
      proof (cases "p2 = SIGN_MODE_START_FLOW")
        case True
        have n: "p2 \<noteq> SIGN_MODE_BASIC" "p2 \<noteq> SIGN_MODE_STORE" using True by (simp_all add: SIGN_MODE_START_FLOW_def SIGN_MODE_BASIC_def SIGN_MODE_STORE_def)
        obtain sw s' where "start_flow S len s = Some (sw, s')" "sign_inv S s'" using start_flow_keeps [OF inv g [OF True]] by blast
        then show ?thesis using True n by (simp add: handle_sign_def answers_def command_result_def)
      next
        case False
        then show ?thesis using first more c by (auto simp: handle_sign_def answers_def)
      qed
    qed
  qed
qed

lemma app_main_react_word: "app_main_react S (sw, s) = Returns (sw', s') \<Longrightarrow> sw' = sw \<or> sw' = sent_word S sw"
  by (auto simp: app_main_react_def split: if_splits outcome.splits)

lemma sign_apdu_result:
  assumes S: "platform_ok S" and inv: "sign_inv S s" and len: "length apdu = unat len"
    and g: "p2 = SIGN_MODE_START_FLOW \<Longrightarrow> gcs_inv (tx_gcs (st_tx s))"
  shows "answers S (reaches_parser S p1 p2 apdu len s) apdu (\<lambda>sw s'. sign_inv S s' \<and> (is_error sw \<longrightarrow> at_rest s')) (sign_apdu S p1 p2 apdu len s)"
proof -
  have v: "v_size_ok S" using S by (simp add: platform_ok_def)
  have h: "answers S (reaches_parser S p1 p2 apdu len s) apdu (command_result S) (handle_sign S p1 p2 apdu len s)"
    by (rule handle_sign_result [OF S inv len g])
  have e: "is_error (sent_word S sw) = is_error sw" for sw by (cases sw) (simp_all add: sent_word_def)
  show ?thesis
  proof (cases "handle_sign S p1 p2 apdu len s")
    case None
    then show ?thesis using h by (simp add: answers_def sign_apdu_def)
  next
    case (Some r)
    show ?thesis
    proof (cases r)
      case (Returns x)
      obtain sw s' where x: "x = (sw, s')" by (cases x)
      have "command_result S sw s'" using h Some Returns x by (simp add: answers_def)
      from app_main_react_result [OF v this] show ?thesis
      proof (elim disjE exE conjE)
        assume "app_main_react S (sw, s') = App_exit" "called_from_swap S"
        then show ?thesis using Some Returns x by (simp add: sign_apdu_def answers_def)
      next
        fix sw' s2
        assume m: "app_main_react S (sw, s') = Returns (sw', s2)" "sign_inv S s2" "is_error sw \<longrightarrow> at_rest s2"
        have "is_error sw' \<longrightarrow> is_error sw" using app_main_react_word [OF m(1)] e by metis
        then have "is_error sw' \<longrightarrow> at_rest s2" using m(3) by blast
        then show ?thesis using Some Returns x m(1,2) by (simp add: sign_apdu_def answers_def del: is_error_def)
      qed
    qed (use h Some in \<open>simp_all add: answers_def sign_apdu_def\<close>)
  qed
qed

section \<open>The fault of a stored transaction\<close>

text \<open>A stored transaction without calldata, and no memory for its context: the parser follows the null pointer
  to the parked calldata.\<close>

lemma no_memory_no_calldata_fault:
  assumes d: "PARSING_IS_DONE (st_tx s)" "store_calldata (st_tx s)" "currentField (st_tx s) \<noteq> RLP_NONE"
    and p: "g_parked_calldata (st_tx s) = None" and m: "mem_alloc (tx_mem (st_tx s)) = (False, m)" and inv: "tx_inv (st_tx s)"
  shows "sign_parse S apdu off s = None"
proof -
  let ?t = "(st_tx s)\<lparr>payload := drop (unat off) apdu, workPos := 0, commandLength := word_of_nat (length (drop (unat off) apdu))\<rparr>"
  have c: "content_ok (content (st_tx s))" using inv by (simp add: tx_inv_def tx_base_def)
  have call: "\<exists>pl' m'. env_tx_ctx_init (sign_env S) None to amount ch pl (tx_mem (st_tx s)) = Some (False, None, pl', m')" for to amount ch pl
    using m by (simp add: sign_env_def ctx_init_call_def tx_ctx_init_def gcs_in_def)
  have "parsing_done (sign_env S) ?t = None"
  proof -
    obtain to where to: "buf_shrink_expand (Some (destination (content (st_tx s)))) (unat (destinationLength (content (st_tx s)))) (replicate 20 0) 20 = Some to"
      using buf_shrink_expand_value [of 20 "replicate 20 0" "unat (destinationLength (content (st_tx s)))" "destination (content (st_tx s))"] c
      by (auto simp: content_ok_def)
    obtain am where am: "buf_shrink_expand (Some (ivalue (tvalue (content (st_tx s))))) (unat (ilength (tvalue (content (st_tx s))))) (replicate 32 0) 32 = Some am"
      using buf_shrink_expand_value [of 32 "replicate 32 0" "unat (ilength (tvalue (content (st_tx s))))" "ivalue (tvalue (content (st_tx s)))"] c
      by (auto simp: content_ok_def int256_ok_def)
    obtain pl' m' where e: "env_tx_ctx_init (sign_env S) None to am (get_tx_chain_id ?t) (plug (st_tx s)) (tx_mem (st_tx s)) = Some (False, None, pl', m')"
      using call by blast
    show ?thesis using d(2) p to am e by (simp add: parsing_done_def Let_def)
  qed
  moreover have "PARSING_IS_DONE ?t" using d(1) by (simp add: PARSING_IS_DONE_def)
  ultimately have "process_tx (sign_env S) (drop (unat off) apdu) (st_tx s) = None"
    unfolding process_tx_def by (subst process_tx_internal.simps) (simp add: process_tx_step_def)
  then show ?thesis using d(3) by (simp add: sign_parse_def)
qed

section \<open>The start of the review\<close>

lemma start_flow_result:
  assumes inv: "gcs_inv (tx_gcs (st_tx s))"
  shows "\<exists>sw s'. start_flow S len s = Some (sw, s') \<and>
    (sw = SWO_NO_RESPONSE \<longrightarrow> tx_appState (st_tx s) = APP_STATE_SIGNING_TX \<and> len = 0 \<and>
      (\<exists>i c ti. g_tx_ctx_list (tx_gcs (st_tx s')) = [(i, c)] \<and> g_tx_ctx_current (tx_gcs (st_tx s')) = Some i \<and>
         tx_info c = Some ti \<and> ge_finalize (sp_gcs S) (fields_hash_ctx c) = Some (fields_hash ti) \<and>
         (\<forall>j d. (j, d) \<in> set (g_tx_ctx_list (tx_gcs (st_tx s))) \<longrightarrow> j \<noteq> i \<longrightarrow> calldata d = None)))"
proof -
  let ?g = "tx_gcs (st_tx s)" and ?E = "sp_gcs S"
  obtain b where b: "validate_instruction_hash ?E ?g = Some b" using validate_total [OF gcs_inv_current_ok [OF inv]] by blast
  show ?thesis
  proof (cases "tx_appState (st_tx s) = APP_STATE_SIGNING_TX \<and> len = 0 \<and> b")
    case False
    then show ?thesis using b by (auto simp: start_flow_def)
  next
    case True
    then obtain i c ti where i: "g_tx_ctx_current ?g = Some i" and c: "ctx_get ?g i = Some c" and ti: "tx_info c = Some ti"
      "ge_finalize ?E (fields_hash_ctx c) = Some (fields_hash ti)"
      using b by (auto simp: validate_instruction_hash_def validate_inst_hash_on_def split: option.splits)
    obtain ok g' R where e: "process_empty_txs_after ?E ?g = Some (ok, g')" "gcs_inv g'" "emptied R ?g g'"
      and R: "\<forall>j \<in> R. g_tx_ctx_current ?g \<noteq> Some j \<and> (\<forall>c. ctx_get ?g j = Some c \<longrightarrow> calldata c = None)"
      using process_empty_txs_around(2) [OF inv i, of ?E] by (auto simp: emptying_def)
    have iR: "i \<notin> R" using R i by auto
    have fin: "tx_gcs (gcs_out g' (st_tx s)) = g'"
      using e(3) by (auto simp: tx_gcs_def gcs_out_def gcs_in_def emptied_def)
    show ?thesis
    proof (cases "ok \<and> get_tx_ctx_count g' = 1 \<and> sp_ui_gcs S")
      case False
      then show ?thesis using True b e(1) by (auto simp: start_flow_def Let_def)
    next
      case ok: True
      have c': "ctx_get g' i = Some c" using emptied_get [OF e(3) iR] c by simp
      then have m: "(i, c) \<in> set (g_tx_ctx_list g')" using gcs_invD(1) [OF e(2)] by (simp add: ctx_get_Some_iff)
      have "length (g_tx_ctx_list g') = 1" using ok by (simp add: get_tx_ctx_count_def)
      then obtain x where "g_tx_ctx_list g' = [x]" by (auto simp: length_Suc_conv)
      then have l: "g_tx_ctx_list g' = [(i, c)]" using m by simp
      have d: "distinct (ctx_ids ?g)" by (rule gcs_invD(1) [OF inv])
      have rest: "calldata d = None" if "(j, d) \<in> set (g_tx_ctx_list ?g)" "j \<noteq> i" for j d
      proof -
        have "(j, d) \<notin> set (g_tx_ctx_list g')" using l that(2) by simp
        then have "j \<in> R" using that(1) by (auto simp: emptied_list [OF e(3)])
        then show ?thesis using R that(1) d by (auto simp: ctx_get_Some_iff)
      qed
      have "start_flow S len s = Some (SWO_NO_RESPONSE, s\<lparr>st_tx := gcs_out g' (st_tx s)\<rparr>)"
        using True b e(1) ok by (simp add: start_flow_def Let_def)
      then show ?thesis using True l i ti rest fin emptied_current [OF e(3)] by auto
    qed
  qed
qed

section \<open>The signature of a swap\<close>

text \<open>What the state of a finished transaction says when the application signs in a swap.\<close>

lemma sign_parse_swap:
  assumes S: "platform_ok S" and inv: "sign_inv S s" and a: "tx_appState (st_tx s) \<noteq> APP_STATE_IDLE" and len: "length apdu < 256"
    and fresh: "swap_fresh (swap_of s)" and r: "sign_parse S apdu off s = Some (Swap_done resp)"
  shows "called_from_swap S \<and> (\<exists>t n h rs par x. process_tx (sign_env S) (drop (unat off) apdu) (st_tx s) = Some (USTREAM_FINISHED, t) \<and>
     promise_fulfilled S (s\<lparr>st_tx := t\<rparr>) \<and> swap_of (s\<lparr>st_tx := t\<rparr>) = swap_of s \<and>
     sp_hash_final S (sha3 (st_tx s) @ take n (drop (unat off) apdu)) = Inr h \<and> sp_sign S (st_bip32 s) h = Some (rs, par, x) \<and>
     resp = signature_v (s\<lparr>st_tx := t\<rparr>) par x # rs)"
proof -
  let ?b = "drop (unat off) apdu"
  have i: "tx_inv (st_tx s)" using inv by (simp add: sign_inv_def)
  have lb: "length ?b < 2 ^ 32" using len by simp
  obtain st t where p: "process_tx (sign_env S) ?b (st_tx s) = Some (st, t)"
      and h: "handle_parsing_status S st (s\<lparr>st_tx := t\<rparr>) = Some (Swap_done resp)"
    using r by (auto simp: sign_parse_def split: if_splits bind_splits outcome.splits prod.splits)
  then have f: "st = USTREAM_FINISHED" "finalize_parsing S (s\<lparr>st_tx := t\<rparr>) = Some (Swap_done resp)"
    by (auto simp: handle_parsing_status_def split: parserStatus.splits if_splits)
  have t: "tx_inv t" "sha3 t = sha3 (st_tx s) @ take (workPos t) ?b"
    by (rule process_tx_total [OF i lb, of "sign_env S"]; use p f(1) in auto)+
  have same: "tx_appState t = tx_appState (st_tx s)" by (rule process_tx_appState [OF i lb p]) (simp add: f(1))
  have "sign_inv S (s\<lparr>st_tx := t\<rparr>)" by (rule sign_inv_set_tx [OF inv p t(1) same])
  from finalize_command_result [OF S this] same a f(2) have fo: "finalize_outcome S (s\<lparr>st_tx := t\<rparr>) (Swap_done resp)" by auto
  have sw: "swap_of (s\<lparr>st_tx := t\<rparr>) = swap_of s" by (rule process_tx_keeps_swap(1) [OF p])
  have c: "called_from_swap S" using fo by (simp add: finalize_outcome_def)
  have q: "promise_fulfilled S (s\<lparr>st_tx := t\<rparr>) \<and> (\<exists>h rs par x. sp_hash_final S (sha3 t) = Inr h \<and>
      sp_sign S (st_bip32 s) h = Some (rs, par, x) \<and> resp = signature_v (s\<lparr>st_tx := t\<rparr>) par x # rs)"
    using fo fresh sw by (simp add: finalize_outcome_def)
  then obtain h rs par x where "sp_hash_final S (sha3 t) = Inr h" "sp_sign S (st_bip32 s) h = Some (rs, par, x)"
      "resp = signature_v (s\<lparr>st_tx := t\<rparr>) par x # rs" by blast
  then show ?thesis using c q sw p f(1) t(2) by (intro conjI exI [of _ t] exI [of _ "workPos t"] exI [of _ h] exI [of _ rs] exI [of _ par] exI [of _ x]) simp_all
qed

text \<open>A session starts with the promise of the parameters and nothing checked.\<close>

lemma swap_session_start:
  assumes c: "copy_transaction_parameters E config p g = Some (True, g')" and s: "tx_inv (st_tx s)" "under_review s = None"
  shows "sign_inv S (handle_swap_sign_transaction (set_swap g' s)) \<and>
    swap_fresh (swap_of (handle_swap_sign_transaction (set_swap g' s))) \<and>
    promise_kept g' (swap_of (handle_swap_sign_transaction (set_swap g' s))) \<and>
    \<not> G_swap_response_ready (swap_of (handle_swap_sign_transaction (set_swap g' s)))"
proof -
  have f: "\<not> G_swap_checked g' \<and> \<not> G_swap_calldata_validated g'"
    using c by (auto simp: copy_transaction_parameters_def commit_promise_def swap_globals_zero_def Let_def
        split: if_splits bind_splits prod.splits option.splits)
  have m: "G_swap_crosschain_hash g' \<noteq> None" "G_swap_mode g' \<noteq> SWAP_MODE_CROSSCHAIN_SUCCESS"
    using copy_transaction_parameters_promise [OF c] by auto
  have u: "under_review (set_plugins q r) = under_review r" "st_tx (set_plugins q r) = (st_tx r)\<lparr>plug := (q, snd (plug (st_tx r)))\<rparr>"
    for q and r :: "'a sign_state" by (simp_all add: set_plugins_def)
  show ?thesis using f m s
    by (simp add: handle_swap_sign_transaction_def Let_def sign_inv_def swap_fresh_def set_swap_def u swap_of_def
        set_swap_with_calldata_plugin_type_def promise_kept_def)
qed

end
