(* ===== verification/Concrete_Inputs.thy ===== *)
theory Concrete_Inputs
  imports Uint128 Uint256 Rlp Auth7702 Network Tlv_Utils Data_Path Ustream_Loop Tx_Info_Inv Assets_Proofs Erc20_Proofs Sign_Tx_Inv "HOL-Library.Code_Target_Nat"
begin

text \<open>Inputs at which the properties are instantiated, with the facts about them that the witnesses share: a platform whose parser accepts one
  authorization and whose hash engine is the identity, states of the commands, a calldata
  store of one chunk and the value that a leaf reads from it.\<close>

definition sdk_demo :: tlv_sdk where
  "sdk_demo =
     \<lparr>sdk_u8 = \<lambda>d _. (True, word_of_nat (be_val d)), sdk_u16 = \<lambda>d _. (True, word_of_nat (be_val d)),
      sdk_u32 = \<lambda>d _. (True, word_of_nat (be_val d)), sdk_u64 = \<lambda>d _. (True, word_of_nat (be_val d)),
      sdk_enforce_u8 = \<lambda>d x. d = [x], sdk_buffer = \<lambda>d lo hi. if lo \<le> length d \<and> length d \<le> hi then Some d else None,
      sdk_string = \<lambda>d s _ _. (True, s), sdk_printable = \<lambda>_. True\<rparr>"

definition auth_fields_demo :: "(nat \<times> bytes) list" where
  "auth_fields_demo = [(0, [1]), (1, replicate 20 0), (2, [1]), (3, [7])]"

definition platform_demo :: auth_platform where
  "platform_demo =
     \<lparr>ap_sdk = sdk_demo, ap_tlv_parser = fields_parser (AUTH_7702_TAGS sdk_demo) auth_fields_demo,
      ap_eip7702_enable = True, ap_keccak_init = True, ap_hash_error = \<lambda>_ _. None, ap_finalize = Some,
      ap_public_key_string = \<lambda>_ _. Some ''0x00'', ap_networks = [], ap_format_u64 = \<lambda>_ _. Some ''7'',
      ap_ui_revocation = True, ap_ui_auth = True, ap_bip32_path_read = \<lambda>_ _ n. Some (replicate n 0), ap_addr = 0, ap_fresh = \<lambda>_. 0\<rparr>"

definition auth_state_demo :: auth_state where
  "auth_state_demo =
     \<lparr>g_7702_sw = SWO_SUCCESS, g_7702_hash_ctx = None, authHash = replicate 32 0, auth_bip32 = \<lparr>bip32_length = 0, bip32_path = []\<rparr>,
      s_fromAddress = [], s_toAddress = [], s_network_name = [], s_nonce = [], screen = No_screen,
      auth_mem = \<lparr>outcomes = [True], live = 0\<rparr>\<rparr>"

definition cmd_7702_demo :: cmd_7702 where
  "cmd_7702_demo =
     \<lparr>appState = APP_STATE_IDLE, cmd_tlv = g_tlv_zero, cmd_mem = \<lparr>outcomes = [True], live = 0\<rparr>, cmd_auth = auth_state_demo\<rparr>"

definition cmd_7702_pending :: cmd_7702 where
  "cmd_7702_pending =
     \<lparr>appState = APP_STATE_SIGNING_EIP7702,
      cmd_tlv = \<lparr>tlv_payload = Some [8, 0, 0], tlv_size = 3, tlv_pos = 1, tlv_handler_ptr = Some ()\<rparr>,
      cmd_mem = \<lparr>outcomes = [], live = 1\<rparr>, cmd_auth = auth_state_demo\<rparr>"

definition calldata_demo :: s_calldata where
  "calldata_demo =
     \<lparr>expected_size = 32, received_size = 32, selector = [1, 2, 3, 4],
      chunks = [\<lparr>dir = CHUNK_STRIP_LEFT, csize = 1, cbuf = Some [5]\<rparr>], chunk = replicate 31 0 @ [5], chunk_size = 0\<rparr>"

definition leaf_value_demo :: s_parsed_value_collection where
  "leaf_value_demo = [\<lparr>pv_block = Some (replicate 31 0 @ [5]), pv_pos = 0, pv_size = 32, pv_offset = 0, pv_length = 32\<rparr>]"

definition tx_env_demo :: "unit tx_env" where
  "tx_env_demo =
     \<lparr>env_hash_ok = \<lambda>_ _. True, env_keccak_init = True, env_contractDetails = False, env_dataAllowed = True,
      env_called_from_swap = False, env_plugin_init = \<lambda>_ _ _ _ p. (ETH_PLUGIN_RESULT_UNAVAILABLE, p),
      env_plugin_parameter = \<lambda>_ _ _ _ p. (True, p), env_format_hex = \<lambda>_. '''',
      env_tx_ctx_init = \<lambda>cd _ _ _ p m. Some (True, None, p, m)\<rparr>"

definition int256_demo :: txInt256 where
  "int256_demo = \<lparr>ivalue = replicate 32 0, ilength = 0\<rparr>"

definition tx_state_demo :: "unit txs" where
  "tx_state_demo =
     \<lparr>currentField = 1, sha3 = [], currentFieldLength = 0, currentFieldPos = 0, currentFieldIsList = False,
          processingField = False, fieldSingleByte = False, dataLength = 0, rlpBuffer = replicate 5 0, rlpBufferPos = 0,
          payload = [], workPos = 0, commandLength = 0,
          content = \<lparr>gasprice = int256_demo, startgas = int256_demo, tvalue = int256_demo, tnonce = int256_demo, chainID = int256_demo, destination = replicate 20 0,
                     destinationLength = 0, v = replicate 8 0, vLength = 0, dataPresent = False\<rparr>,
          txType = 0xc0, store_calldata = False, selector_bytes = replicate 4 0, g_parked_calldata = None,
          tx_mem = \<lparr>outcomes = [], live = 0\<rparr>, tk_data = replicate 32 0, tk_fieldIndex = 0, tk_fieldOffset = 0,
          tk_pluginStatus = ETH_PLUGIN_RESULT_UNAVAILABLE, G_swap_tx_had_calldata = False, tx_appState = APP_STATE_IDLE,
          data_ui = No_data_ui, tmp_string = '''', plug = ()\<rparr>"

text \<open>The parameters of the concrete platform meet their contracts.\<close>

lemma platform_demo_contract: "auth_parser_contract platform_demo"
proof -
  have "buffer_contract sdk_demo" by (auto simp: buffer_contract_def sdk_demo_def split: if_splits)
  moreover have "distinct (map fst auth_fields_demo)" by (simp add: auth_fields_demo_def)
  ultimately show ?thesis by (simp add: auth_parser_contract_def platform_demo_def fields_parser_contract)
qed

text \<open>A transaction that holds an empty call before a call with calldata, and the description of the
  second one.\<close>

definition gcs_env_demo :: gcs_env where
  "gcs_env_demo =
     \<lparr>ge_finalize = \<lambda>h. Some (take 32 (h @ replicate 32 0)), ge_sha3_init = True, ge_public_key = replicate 20 1,
      ge_712_intent = True, ge_712_title = \<lambda>_. True, ge_712_value = \<lambda>_. True, ge_amount = \<lambda>_ _ ticker. Some ticker,
      ge_display_name = \<lambda>_ _. None, ge_implem = \<lambda>_ _ _. None, ge_networks = [],
      ge_config = \<lparr>cfg_ticker = ''ETH'', cfg_chain_id = 1\<rparr>, ge_format_u64 = \<lambda>_ _. Some ''1''\<rparr>"

definition call_demo :: s_tx_ctx where
  "call_demo = (tx_ctx_zero (Some calldata_demo))\<lparr>tc_to := replicate 20 7, tc_chain_id := 1\<rparr>"

definition gcs_demo :: gcs where
  "gcs_demo =
     \<lparr>g_table = [], g_tx_ctx_list = [(0, tx_ctx_zero None), (1, call_demo)], g_tx_ctx_current = None, gcs_parked = None,
      g_root_value_shown = False, g_root_from_shown = False, gcs_appState = APP_STATE_SIGNING_TX, batch_nb_tx = 0,
      current_batch_size = 0, info_all_received = False, info_processed = False,
      gcs_mem = \<lparr>outcomes = replicate 9 True, live = 9\<rparr>\<rparr>"

definition tx_info_fields_demo :: "(nat \<times> bytes \<times> bytes) list" where
  "tx_info_fields_demo =
     [(0, [0, 1, 1], [1]), (1, [1, 1, 1], [1]), (2, [2, 20] @ replicate 20 7, replicate 20 7), (3, [3, 4, 1, 2, 3, 4], [1, 2, 3, 4]),
      (4, [4, 1, 9], [9]), (5, [5, 1, 83], [83]), (0xff, [0xff, 2, 6, 6], [6, 6])]"

definition ti_env_base :: "unit ti_env" where
  "ti_env_base =
     \<lparr>te_gcs = gcs_env_demo, te_sdk = sdk_demo, te_gmtime = \<lambda>_. None, te_sig_size = 72, te_parser = \<lambda>_ _ c. (False, c, {}),
      te_sha256 = \<lambda>h. Some (take 32 (h @ replicate 32 0)), te_check_signature = \<lambda>_ sig. sig = [6, 6],
      te_field_struct = \<lambda>_ g. Some (True, (), g), te_verify_field = \<lambda>_. True, te_cleanup_field = \<lambda>_ g. Some g,
      te_hash_ok = \<lambda>_ _. True, te_format_field = \<lambda>_ g. Some (False, g)\<rparr>"

definition ti_env_demo :: "unit ti_env" where
  "ti_env_demo = ti_env_base\<lparr>te_parser := \<lambda>g. fields_parser (TX_INFO_TAGS ti_env_base g) tx_info_fields_demo\<rparr>"

definition tx_info_start :: s_tx_info_ctx where
  "tx_info_start = \<lparr>struct_hash = [], ic_tx_info = tx_info_zero 72, ic_received_tags = {}\<rparr>"

definition tx_info_ctx_demo :: s_tx_info_ctx where
  "tx_info_ctx_demo = snd (handle_tx_info_struct ti_env_demo gcs_demo [] tx_info_start)"

definition gcs_alloc :: gcs where
  "gcs_alloc = gcs_demo\<lparr>gcs_mem := \<lparr>outcomes = replicate 8 True, live = 10\<rparr>\<rparr>"

lemma gcs_demo_inv: "gcs_inv gcs_demo"
  by (simp add: gcs_inv_def gcs_demo_def ctx_ids_def current_ok_def review_order_def gcs_blocks_def ctx_blocks_def call_demo_def
      tx_ctx_zero_def calldata_blocks_def chunk_blocks_def calldata_demo_def)

lemma ti_env_demo_contract: "tx_info_contract ti_env_demo"
proof -
  have "TX_INFO_TAGS ti_env_demo g = TX_INFO_TAGS ti_env_base g" for g
    by (intro ext) (simp add: TX_INFO_TAGS_def tx_info_tag_def ti_env_demo_def)
  moreover have "distinct (map fst tx_info_fields_demo)" by (simp add: tx_info_fields_demo_def)
  ultimately show ?thesis
    by (simp add: tx_info_contract_def) (simp add: ti_env_demo_def fields_parser_contract)
qed

text \<open>The same transaction with its second call described, and the description complete: it has no field.\<close>

definition gcs_nested :: gcs where
  "gcs_nested = gcs_demo\<lparr>g_tx_ctx_list := [(0, tx_ctx_zero None), (1, call_demo\<lparr>tx_info := Some (tx_info_zero 72)\<rparr>)],
     g_tx_ctx_current := Some 1, gcs_mem := \<lparr>outcomes = replicate 9 True, live = 10\<rparr>\<rparr>"

lemma gcs_nested_inv: "gcs_inv gcs_nested"
  by (simp add: gcs_nested_def gcs_inv_def gcs_demo_def ctx_ids_def current_ok_def review_order_def gcs_blocks_def ctx_blocks_def call_demo_def
      tx_ctx_zero_def calldata_blocks_def chunk_blocks_def calldata_demo_def)

lemma tx_info_demo_parsed: "handle_tx_info_struct ti_env_demo gcs_demo [] tx_info_start = (True, tx_info_ctx_demo)"
  by code_simp

lemma tx_info_demo_parsed_alloc: "handle_tx_info_struct ti_env_demo gcs_alloc [] tx_info_start = (True, tx_info_ctx_demo)"
  by code_simp

lemma tx_info_demo_verified: "verify_tx_info_struct ti_env_demo tx_info_ctx_demo"
  by code_simp

text \<open>The signing command before its first APDU: the platform called by the user, and the same platform called for a
  swap that promises a transfer of nothing to the zero address on chain 1.\<close>

definition swap_globals_demo :: swap_globals where
  "swap_globals_demo =
     (swap_globals_zero \<lparr>outcomes = [], live = 1\<rparr>)\<lparr>G_swap_expected_chain_id := 1, G_swap_crosschain_hash := Some (replicate 32 0),
        exp_toAddress := ''0x00'', exp_fullAmount := ''ETH'', exp_maxFee := ''0 ETH''\<rparr>"

definition plugin_state_demo :: "unit plugin_state" where
  "plugin_state_demo =
     \<lparr>plugin_type = PLUGIN_TYPE_NONE, pluginName = [], plugin_ctx_mode = PLUGIN_CTX_ADDR_SEL, contractAddress = replicate 20 0,
      methodSelector = replicate 4 0, pluginChainId = 0, token_lookup1 = None, token_lookup2 = None, pluginUiMaxItems = 0,
      ctx_erc20 = erc20_zero, ctx_swap = swap_plugin_zero, ctx_other = (), ps_swap = swap_globals_demo,
      ps_assets = \<lparr>as_tokens = [], as_nfts = [], as_mem = \<lparr>outcomes = [True], live = 0\<rparr>, io_index = 0\<rparr>, ps_exited = False\<rparr>"

definition plugin_env_demo :: "bool \<Rightarrow> unit plugin_env" where
  "plugin_env_demo swap =
     \<lparr>pe_called_from_swap = swap, pe_have_eth2 = False,
      pe_swap = \<lparr>se_max_ticker = 51, se_amount_to_string = \<lambda>_ _ ticker _. Some ticker, se_networks = [], se_address_size = 43\<rparr>,
      pe_cfg = \<lparr>cfg_ticker = ''ETH'', cfg_chain_id = 1\<rparr>, pe_displayable_address = \<lambda>_ _ _. Some ''0x00'', pe_hash_ok = \<lambda>_ _. True,
      pe_sha256 = \<lambda>h. take 32 (h @ replicate 32 0), pe_ctx_zero = (), pe_init = \<lambda>_ _ _ _ _ c. (ETH_PLUGIN_RESULT_UNAVAILABLE, c),
      pe_parameter = \<lambda>_ _ _ _ _ _ c. (ETH_PLUGIN_RESULT_ERROR, c), pe_finalize = \<lambda>_ _ _ _ c. (plugin_finalize_zero, c),
      pe_info = \<lambda>_ _ _ _ _ c. (\<lparr>pi_result = ETH_PLUGIN_RESULT_ERROR, pi_additionalScreens = 0\<rparr>, c)\<rparr>"

definition sign_tx_start :: "unit tx_state" where
  "sign_tx_start =
     \<lparr>currentField = 0, sha3 = [], currentFieldLength = 0, currentFieldPos = 0, currentFieldIsList = False,
      processingField = False, fieldSingleByte = False, dataLength = 0, rlpBuffer = replicate 5 0, rlpBufferPos = 0,
      payload = [], workPos = 0, commandLength = 0, content = content_zero 8, txType = 0, store_calldata = False,
      selector_bytes = replicate 4 0, g_parked_calldata = None, tx_mem = \<lparr>outcomes = [], live = 0\<rparr>, tk_data = replicate 32 0,
      tk_fieldIndex = 0, tk_fieldOffset = 0, tk_pluginStatus = ETH_PLUGIN_RESULT_UNAVAILABLE, G_swap_tx_had_calldata = False,
      tx_appState = APP_STATE_IDLE, data_ui = No_data_ui, tmp_string = '''', plug = (plugin_state_demo, gcs_demo\<lparr>g_tx_ctx_list := []\<rparr>)\<rparr>"

definition sign_state_demo :: "unit sign_state" where
  "sign_state_demo =
     \<lparr>st_tx = sign_tx_start, sign_mode = 0, st_bip32 = \<lparr>bip32_length = 0, bip32_path = []\<rparr>, tx_hash = replicate 32 0,
      g_tx_hash_ctx = False, hash_mem = \<lparr>outcomes = [True], live = 0\<rparr>, review = review_zero, under_review = None, sent = []\<rparr>"

definition sign_platform_demo :: "bool \<Rightarrow> unit sign_platform" where
  "sign_platform_demo swap =
     \<lparr>sp_env = \<lparr>env_hash_ok = \<lambda>_ _. True, env_keccak_init = True, env_contractDetails = False, env_dataAllowed = True,
        env_called_from_swap = swap, env_plugin_init = \<lambda>_ _ _ _ p. (ETH_PLUGIN_RESULT_UNAVAILABLE, p),
        env_plugin_parameter = \<lambda>_ _ _ _ p. (True, p), env_format_hex = \<lambda>_. '''', env_tx_ctx_init = \<lambda>cd _ _ _ p m. Some (True, None, p, m)\<rparr>,
      sp_gcs = gcs_env_demo, sp_plugins = plugin_env_demo swap, sp_ui_gcs = True, sp_ux_approve = \<lambda>_ _. SWO_NO_RESPONSE,
      sp_bip32_path_read = \<lambda>_ _ n. Some (replicate n 0), sp_addr = 0, sp_v_size = 8, sp_hash_final = \<lambda>h. Inr (take 32 (h @ replicate 32 0)),
      sp_derive = \<lambda>_. Inr [], sp_address_of_key = \<lambda>_. replicate 20 1, sp_sign = \<lambda>_ _. Some (replicate 64 5, True, False),
      sp_send_ok = \<lambda>_. True, sp_cx = (\<lambda>a b. Some (be_bytes (length a + length b) (be_val a * be_val b))),
      sp_adjustDecimals = \<lambda>d _ _. Some d, sp_format_u64 = \<lambda>_ _. Some ''1'', sp_exception_overflow = 3, sp_not_supported = 0x6d00\<rparr>"

lemma sign_tx_start_inv: "tx_inv sign_tx_start"
  using content_zero_ok [of 8] by (simp add: sign_tx_start_def tx_inv_def tx_base_def parked_ok_def)

lemma sign_state_demo_inv: "sign_inv (sign_platform_demo swap) sign_state_demo"
  using sign_tx_start_inv
  by (simp add: sign_inv_def sign_state_demo_def sign_tx_start_def swap_of_def plugins_of_def plugin_state_demo_def swap_globals_demo_def)

lemma network_tickers_fit: "\<forall>n \<in> set NETWORK_MAPPING. length (net_ticker n) \<le> 51"
  unfolding list_all_iff [symmetric] by code_simp

lemma sign_platform_demo_ok: "platform_ok (sign_platform_demo swap)"
  using mult_contract_exact network_tickers_fit
  by (simp add: platform_ok_def v_size_ok_def sign_platform_demo_def plugin_env_demo_def dyn_networks_def app_cfg_def)

text \<open>The same state when all the fields of a transaction of type 2 have been parsed.\<close>

definition sign_state_parsed :: "unit sign_state" where
  "sign_state_parsed =
     sign_state_demo\<lparr>g_tx_hash_ctx := True, st_tx := sign_tx_start\<lparr>currentField := 11, txType := EIP1559, sha3 := [2, 0xc0], tx_appState := APP_STATE_SIGNING_TX,
       content := (content_zero 8)\<lparr>chainID := \<lparr>ivalue = 1 # replicate 31 0, ilength = 1\<rparr>, destinationLength := 20\<rparr>\<rparr>\<rparr>"

lemma sign_state_parsed_inv: "sign_inv (sign_platform_demo swap) sign_state_parsed"
  by (simp add: sign_inv_def sign_state_parsed_def sign_state_demo_def sign_tx_start_def tx_inv_def tx_base_def content_zero_def content_ok_def
      int256_ok_def int256_zero_def parked_ok_def swap_of_def plugins_of_def plugin_state_demo_def swap_globals_demo_def)

text \<open>A single described call, ready for its review.\<close>

definition gcs_ready :: gcs where
  "gcs_ready = gcs_demo\<lparr>g_tx_ctx_list := [(1, call_demo\<lparr>tx_info := Some (tx_info_zero 72)\<rparr>)], g_tx_ctx_current := Some 1\<rparr>"

definition sign_state_ready :: "unit sign_state" where
  "sign_state_ready = sign_state_demo\<lparr>st_tx := sign_tx_start\<lparr>tx_appState := APP_STATE_SIGNING_TX, plug := (plugin_state_demo, gcs_ready),
     tx_mem := \<lparr>outcomes = [], live = 9\<rparr>\<rparr>\<rparr>"

text \<open>Nothing is left to parse: the parser finishes at once, and its result is what is reviewed.\<close>

lemma sign_state_parsed_done:
  "process_tx env [] (st_tx sign_state_parsed) = Some (USTREAM_FINISHED, st_tx sign_state_parsed)"
  unfolding process_tx_def
  by (subst process_tx_internal.simps)
    (simp add: process_tx_step_def PARSING_IS_DONE_def parsing_done_def sign_state_parsed_def sign_state_demo_def sign_tx_start_def)

lemma zero_digits: "digit_str 10 0 = ''0''"
  by (simp add: digit_str_def digits_small HEXDIGITS_def)

lemma demo_fee:
  "max_transaction_fee_to_string (sign_platform_demo swap) ''ETH'' \<lparr>ivalue = replicate 32 0, ilength = 0\<rparr>
     \<lparr>ivalue = replicate 32 0, ilength = 0\<rparr> MAX_FEE_SIZE = Some (Some ''0 ETH'')"
proof -
  let ?S = "sign_platform_demo swap"
  have r: "int256_of_rlp \<lparr>ivalue = replicate 32 0, ilength = 0\<rparr> = Some (True, clear256)" by (simp add: int256_of_rlp_def)
  have "mult_contract (sp_cx ?S)" "length ''ETH'' \<le> se_max_ticker (pe_swap (sp_plugins ?S))"
    using mult_contract_exact by (simp_all add: sign_platform_demo_def plugin_env_demo_def)
  moreover obtain r where "sp_cx ?S (concat (map write_u64_be (limbs256 clear256))) (concat (map write_u64_be (limbs256 clear256))) = Some r"
    by (simp add: sign_platform_demo_def)
  moreover have "val256 clear256 = 0" by code_simp
  ultimately obtain p where p: "mul256 (sp_cx ?S) clear256 clear256 = Some (Some p)" "val256 p = 0"
    using mul256_spec [of "sp_cx ?S" clear256 clear256] by auto
  have "fee_string ?S ''ETH'' 0 MAX_FEE_SIZE = Some ''0 ETH''"
    unfolding fee_string_def zero_digits by code_simp
  then show ?thesis
    using raw_fee_to_string_spec [of "''ETH''" ?S p MAX_FEE_SIZE] p
    by (simp add: max_transaction_fee_to_string_def r) (simp add: sign_platform_demo_def plugin_env_demo_def)
qed

lemma demo_nonce: "nonce_to_string \<lparr>ivalue = replicate 32 0, ilength = 0\<rparr> 21 = Some (Some ''0'')"
  using nonce_to_string_spec [of "\<lparr>ivalue = replicate 32 0, ilength = 0\<rparr>" 21] by (simp add: int256_ok_def rlp_val_def be_val_def zero_digits)

text \<open>The stages on the parsed transaction.\<close>

definition sender_demo :: "unit sign_state" where
  "sender_demo = (case finalize_sender (sign_platform_demo False) sign_state_parsed of Some (Inr s) \<Rightarrow> s | _ \<Rightarrow> sign_state_parsed)"

definition demo_checks :: "bool \<Rightarrow> unit fin" where
  "demo_checks swap =
     fbind (finalize_plugin (sign_platform_demo swap) sender_demo) (\<lambda>s. fbind (finalize_swap_guards (sign_platform_demo swap) s)
       (\<lambda>s. fbind (finalize_blind (sign_platform_demo swap) False s) (finalize_destination (sign_platform_demo swap) ''ETH'')))"

definition checked_demo :: "bool \<Rightarrow> unit sign_state" where
  "checked_demo swap = (case demo_checks swap of Some (Inr s) \<Rightarrow> s | _ \<Rightarrow> sender_demo)"

lemma demo_sender: "finalize_sender (sign_platform_demo swap) sign_state_parsed = Some (Inr sender_demo)"
proof (cases swap)
  case True
  show ?thesis unfolding True by code_simp
next
  case False
  then show ?thesis by (simp only:) code_simp
qed

lemma demo_checks: "demo_checks True = Some (Inr (checked_demo True))" "demo_checks False = Some (Inr (checked_demo False))"
  by code_simp+

lemma demo_chain: "finalize_chain (sign_platform_demo True) sign_state_parsed = Some (Inr sign_state_parsed)"
  "finalize_chain (sign_platform_demo False) sign_state_parsed = Some (Inr sign_state_parsed)"
  by code_simp+

lemma demo_ticker: "base_ticker (sign_platform_demo True) sign_state_parsed = ''ETH''"
  "base_ticker (sign_platform_demo False) sign_state_parsed = ''ETH''"
  by code_simp+

lemma demo_content:
  "gasprice (content (st_tx (checked_demo True))) = \<lparr>ivalue = replicate 32 0, ilength = 0\<rparr>"
  "startgas (content (st_tx (checked_demo True))) = \<lparr>ivalue = replicate 32 0, ilength = 0\<rparr>"
  "tnonce (content (st_tx (checked_demo True))) = \<lparr>ivalue = replicate 32 0, ilength = 0\<rparr>"
  "gasprice (content (st_tx (checked_demo False))) = \<lparr>ivalue = replicate 32 0, ilength = 0\<rparr>"
  "startgas (content (st_tx (checked_demo False))) = \<lparr>ivalue = replicate 32 0, ilength = 0\<rparr>"
  "tnonce (content (st_tx (checked_demo False))) = \<lparr>ivalue = replicate 32 0, ilength = 0\<rparr>"
  by code_simp+

lemma fbind_stages: "fbind (fbind m f) k = fbind m (\<lambda>s. fbind (f s) k)" "fbind (Some (Inr s)) f = f s"
  by (auto simp: fbind_def split: option.splits sum.splits)

lemma demo_stages:
  assumes "demo_checks swap = Some (Inr (checked_demo swap))"
    and "finalize_chain (sign_platform_demo swap) sign_state_parsed = Some (Inr sign_state_parsed)"
    and "base_ticker (sign_platform_demo swap) sign_state_parsed = ''ETH''"
  shows "finalize_stages (sign_platform_demo swap) False sign_state_parsed =
     fbind (finalize_fee (sign_platform_demo swap) ''ETH'' (checked_demo swap)) (finalize_nonce_network (sign_platform_demo swap))"
proof -
  have "finalize_stages (sign_platform_demo swap) False sign_state_parsed =
      fbind (demo_checks swap) (\<lambda>s. fbind (finalize_fee (sign_platform_demo swap) ''ETH'' s) (finalize_nonce_network (sign_platform_demo swap)))"
    unfolding finalize_stages_def Let_def assms(2,3) fbind_stages demo_sender demo_checks_def ..
  then show ?thesis unfolding assms(1) fbind_stages .
qed

lemmas demo_stage = demo_stages [OF demo_checks(1) demo_chain(1) demo_ticker(1)] demo_stages [OF demo_checks(2) demo_chain(2) demo_ticker(2)]

definition reviewed_demo :: "unit sign_state" where
  "reviewed_demo = (checked_demo False)\<lparr>review := (review (checked_demo False))\<lparr>maxFee := ''0 ETH'', nonce_string := ''0'', network_name := ''Ethereum''\<rparr>\<rparr>"

definition swap_demo :: "unit sign_state" where
  "swap_demo = (checked_demo True)\<lparr>review := (review (checked_demo True))\<lparr>nonce_string := ''0'', network_name := ''Ethereum''\<rparr>\<rparr>"

lemma demo_reviewed: "finalize_stages (sign_platform_demo False) False sign_state_parsed = Some (Inr reviewed_demo)"
proof -
  have f: "finalize_fee (sign_platform_demo False) ''ETH'' (checked_demo False) = Some (Inr ((checked_demo False)\<lparr>review := (review (checked_demo False))\<lparr>maxFee := ''0 ETH''\<rparr>\<rparr>))"
    unfolding finalize_fee_def demo_content demo_fee option.case by code_simp
  have n: "get_network_as_string (sign_platform_demo False) 20 ((checked_demo False)\<lparr>review := (review (checked_demo False))\<lparr>maxFee := ''0 ETH'', nonce_string := ''0''\<rparr>\<rparr>) = Some ''Ethereum''"
    by code_simp
  show ?thesis unfolding demo_stage f fbind_stages
    by (simp add: finalize_nonce_network_def demo_content demo_nonce n reviewed_demo_def)
qed

lemma demo_swap: "finalize_stages (sign_platform_demo True) False sign_state_parsed = Some (Inr swap_demo)"
proof -
  have f: "finalize_fee (sign_platform_demo True) ''ETH'' (checked_demo True) = Some (Inr (checked_demo True))"
    unfolding finalize_fee_def demo_content demo_fee option.case by code_simp
  have n: "get_network_as_string (sign_platform_demo True) 20 ((checked_demo True)\<lparr>review := (review (checked_demo True))\<lparr>nonce_string := ''0''\<rparr>\<rparr>) = Some ''Ethereum''"
    by code_simp
  show ?thesis unfolding demo_stage f fbind_stages
    by (simp add: finalize_nonce_network_def demo_content demo_nonce n swap_demo_def)
qed

lemma demo_not_stored: "store_calldata (st_tx sign_state_parsed) = False"
  by code_simp

lemma sign_state_parsed_swap:
  "finalize_parsing (sign_platform_demo True) sign_state_parsed = Some (Swap_done (1 # replicate 64 5))"
  unfolding finalize_parsing_def finalize_parsing_helper_def demo_not_stored demo_swap by code_simp

lemma sign_state_parsed_review:
  "finalize_parsing (sign_platform_demo False) sign_state_parsed =
     Some (Returns (SWO_NO_RESPONSE, (free_hash reviewed_demo)\<lparr>under_review := Some False\<rparr>))"
  unfolding finalize_parsing_def finalize_parsing_helper_def demo_not_stored demo_reviewed by code_simp

lemma reviewed_demo_fee: "maxFee (review reviewed_demo) = ''0 ETH''"
  by code_simp


text \<open>A swap with calldata whose hash is pending, and the parameters of a swap.\<close>

definition swap_pending_demo :: swap_globals where
  "swap_pending_demo = swap_globals_demo\<lparr>G_swap_mode := SWAP_MODE_CROSSCHAIN_PENDING_CHECK, G_swap_crosschain_hash := Some [1, 2]\<rparr>"

definition swap_params_demo :: create_transaction_parameters where
  "swap_params_demo =
     \<lparr>destination_address = ''0x00'', destination_extra_id = None, amount = [1, 2], amount_length = 2, fee_amount = [3], fee_amount_length = 1,
      coin_configuration = Some (swap_config_bytes ''ETH'' 18 1 None None), coin_configuration_length = 13\<rparr>"

lemma swap_params_accepted:
  "\<exists>g'. copy_transaction_parameters (pe_swap (plugin_env_demo True)) (pe_cfg (plugin_env_demo True)) swap_params_demo (swap_globals_zero \<lparr>outcomes = [True], live = 0\<rparr>) = Some (True, g')"
proof -
  have "(case copy_transaction_parameters (pe_swap (plugin_env_demo True)) (pe_cfg (plugin_env_demo True)) swap_params_demo (swap_globals_zero \<lparr>outcomes = [True], live = 0\<rparr>) of
      Some (True, g') \<Rightarrow> True | _ \<Rightarrow> False)" by code_simp
  then show ?thesis by (auto split: option.splits bool.splits)
qed

text \<open>A signed registration of the ERC-721 plugin, and a registered plugin that accepts its transaction.\<close>

definition set_plugin_env_demo :: set_plugin_env where
  "set_plugin_env_demo =
     \<lparr>sx_sha256 = \<lambda>h. take 32 (h @ replicate 32 0), sx_check_plugin = \<lambda>_ sig. sig = replicate 67 6, sx_check_coin_meta = \<lambda>_ sig. sig = [6, 6],
      sx_valid_keyId = PROD_PLUGIN_KEY, sx_cfg = \<lparr>cfg_ticker = ''ETH'', cfg_chain_id = 1\<rparr>, sx_networks = [], sx_present = \<lambda>_. True\<rparr>"

definition plugin_apdu_demo :: bytes where
  "plugin_apdu_demo = plugin_message [69, 82, 67, 55, 50, 49] (replicate 20 7) [1, 2, 3, 4] (replicate 7 0 @ [1]) PROD_PLUGIN_KEY @ 67 # replicate 67 6"

definition plugin_registered_demo :: "unit plugin_state" where
  "plugin_registered_demo = plugin_state_demo\<lparr>plugin_type := PLUGIN_TYPE_ERC721, pluginChainId := 1\<rparr>"

definition plugin_env_ready :: "unit plugin_env" where
  "plugin_env_ready = (plugin_env_demo False)\<lparr>pe_init := \<lambda>_ _ _ _ _ c. (ETH_PLUGIN_RESULT_OK, c)\<rparr>"

lemma plugin_apdu_accepted:
  "handle_set_plugin set_plugin_env_demo APP_STATE_IDLE plugin_apdu_demo 111 plugin_state_demo =
     Some (SWO_SUCCESS, snd (the (handle_set_plugin set_plugin_env_demo APP_STATE_IDLE plugin_apdu_demo 111 plugin_state_demo)))"
  by code_simp

lemma plugin_ready_init:
  "\<exists>p'. eth_plugin_perform_init plugin_env_ready (content_zero 8) 1 (replicate 4 0) 36 plugin_registered_demo = (ETH_PLUGIN_RESULT_OK, p')"
proof -
  have "fst (eth_plugin_perform_init plugin_env_ready (content_zero 8) 1 (replicate 4 0) 36 plugin_registered_demo) = ETH_PLUGIN_RESULT_OK" by code_simp
  then show ?thesis by (metis prod.collapse)
qed

text \<open>A signed token and a signed collection.\<close>

definition asset_env_demo :: asset_env where
  "asset_env_demo =
     \<lparr>ae_sha256 = \<lambda>h. take 32 (h @ replicate 32 0), ae_check_coin_meta = \<lambda>_ sig. sig = [6, 6], ae_check_nft = \<lambda>_ sig. sig = replicate 67 6,
      ae_max_ticker = 51, ae_max_collection = 71, ae_nft_key_id = 1, ae_cfg = \<lparr>cfg_ticker = ''ETH'', cfg_chain_id = 1\<rparr>, ae_coin_type = 60,
      ae_networks = [], ae_sdk = sdk_demo, ae_dynamic_descriptor = \<lambda>_. None, ae_tuid_parser = \<lambda>_ c. (False, c, {})\<rparr>"

definition assets_demo :: assets where
  "assets_demo = \<lparr>as_tokens = [], as_nfts = [], as_mem = \<lparr>outcomes = [True, True], live = 0\<rparr>, io_index = 0\<rparr>"

definition token_apdu_demo :: bytes where
  "token_apdu_demo = token_apdu [85, 83, 68, 67] (replicate 20 7) 6 1 [6, 6]"

definition nft_apdu_demo :: bytes where
  "nft_apdu_demo = nft_message 1 [67, 65, 84, 83] (replicate 20 7) 1 @ 67 # replicate 67 6"

definition assets_known :: assets where
  "assets_known = assets_demo\<lparr>as_nfts := [nft_of [67, 65, 84, 83] (replicate 20 7) 1]\<rparr>"

lemma token_apdu_accepted: "\<exists>a'. erc20_token_info_handler_legacy asset_env_demo 35 token_apdu_demo assets_demo = Some (True, a')"
proof -
  have "(case erc20_token_info_handler_legacy asset_env_demo 35 token_apdu_demo assets_demo of Some (True, a') \<Rightarrow> True | _ \<Rightarrow> False)" by code_simp
  then show ?thesis by (auto split: option.splits bool.splits)
qed

lemma nft_apdu_accepted: "\<exists>a' tx'. handle_provide_nft_information asset_env_demo 0 0 105 nft_apdu_demo assets_demo 0 = Some (SWO_SUCCESS, a', tx')"
proof -
  have "(case handle_provide_nft_information asset_env_demo 0 0 105 nft_apdu_demo assets_demo 0 of Some (sw, a', tx') \<Rightarrow> sw = SWO_SUCCESS | _ \<Rightarrow> False)" by code_simp
  then show ?thesis by (auto split: option.splits)
qed

end
