(* ===== verification/Typed_Data.thy ===== *)
theory Typed_Data
  imports Buf_Utils
begin

text \<open>
  Model of \<open>src/features/sign_message_eip712/typed_data.c\<close>: the struct definitions of an EIP-712 message and the trees of its
  values, which the host sends piece by piece.

  The list of definitions only grows until it is destroyed as a whole, so the pointer to a definition is its
  position and the pointer to a field a pair of positions.  A value is a tree; the pointer to one of its
  nodes is the root it hangs on and the way down.  A member of a union that the type of the node does
  not select is not part of the model.
\<close>

section \<open>Data\<close>

datatype e_array_type = ARRAY_DYNAMIC | ARRAY_FIXED_SIZE

datatype e_type =
    TYPE_STRUCT
  | TYPE_SOL_INT
  | TYPE_SOL_UINT
  | TYPE_SOL_ADDRESS
  | TYPE_SOL_BOOL
  | TYPE_SOL_STRING
  | TYPE_SOL_BYTES_FIX
  | TYPE_SOL_BYTES_DYN

record s_struct_712_field_array_level =
  level_type :: e_array_type
  level_size :: uint8

record s_struct_712_field =
  struct_name :: "string option"
  type_size :: uint8
  key_name :: "string option"
  array_levels :: "s_struct_712_field_array_level list option"
  array_level_count :: uint8
  field_type :: e_type

record s_struct_712 =
  td_name :: string
  td_fields :: "s_struct_712_field list"

type_synonym field_ref = "nat \<times> nat"

definition IS_DYN :: "e_type \<Rightarrow> bool" where
  "IS_DYN t \<longleftrightarrow> t = TYPE_SOL_STRING \<or> t = TYPE_SOL_BYTES_DYN"

datatype s_struct_712_value =
    VAL_ATOMIC field_ref bytes
  | VAL_STRUCT nat "s_struct_712_value list"
  | VAL_ARRAY field_ref "s_struct_712_value list"

datatype e_root_type = ROOT_NONE | ROOT_DOMAIN | ROOT_MESSAGE

type_synonym node_ref = "e_root_type \<times> nat list"

definition TD_MAX_DEPTH :: nat where "TD_MAX_DEPTH = 16"

record typed_data =
  g_structs :: "s_struct_712 list"
  td_domain :: "s_struct_712_value option"
  td_message :: "s_struct_712_value option"
  td_mem :: mem

definition typed_data_zero :: "mem \<Rightarrow> typed_data" where
  "typed_data_zero m = \<lparr>g_structs = [], td_domain = None, td_message = None, td_mem = m\<rparr>"

definition td_with_mem :: "'a typed_data_scheme \<Rightarrow> bool \<times> 'a typed_data_scheme" where
  "td_with_mem s = (case mem_alloc (td_mem s) of (ok, m) \<Rightarrow> (ok, s\<lparr>td_mem := m\<rparr>))"

definition td_free :: "nat \<Rightarrow> 'a typed_data_scheme \<Rightarrow> 'a typed_data_scheme" where
  "td_free n s = s\<lparr>td_mem := (mem_free ^^ n) (td_mem s)\<rparr>"

section \<open>Definitions of fields\<close>

definition td_create_field_def :: "e_type \<Rightarrow> 'a typed_data_scheme \<Rightarrow> s_struct_712_field option \<times> 'a typed_data_scheme" where
  "td_create_field_def t s =
     (case td_with_mem s of
        (False, s) \<Rightarrow> (None, s)
      | (True, s) \<Rightarrow> (Some \<lparr>struct_name = None, type_size = 0, key_name = None, array_levels = None, array_level_count = 0,
                         field_type = t\<rparr>, s))"

definition td_field_set_type_size :: "s_struct_712_field \<Rightarrow> uint8 \<Rightarrow> bool \<times> s_struct_712_field" where
  "td_field_set_type_size f n = (if field_type f = TYPE_STRUCT then (False, f) else (True, f\<lparr>type_size := n\<rparr>))"

text \<open>The name is copied behind a null test and an allocation; a former one is freed.\<close>

definition td_field_set_struct_name ::
  "s_struct_712_field \<Rightarrow> bytes \<Rightarrow> 'a typed_data_scheme \<Rightarrow> bool \<times> s_struct_712_field \<times> 'a typed_data_scheme" where
  "td_field_set_struct_name f name s =
     (if field_type f \<noteq> TYPE_STRUCT then (False, f, s)
      else
        (let s = (if struct_name f = None then s else td_free 1 s)
         in case td_with_mem s of
              (False, s) \<Rightarrow> (False, f\<lparr>struct_name := None\<rparr>, s)
            | (True, s) \<Rightarrow> (True, f\<lparr>struct_name := Some (buf_string name)\<rparr>, s)))"

definition td_field_set_array_level_count ::
  "s_struct_712_field \<Rightarrow> uint8 \<Rightarrow> 'a typed_data_scheme \<Rightarrow> bool \<times> s_struct_712_field \<times> 'a typed_data_scheme" where
  "td_field_set_array_level_count f count s =
     (let s = (if array_levels f = None then s else td_free 1 s)
      in case td_with_mem s of
           (False, s) \<Rightarrow> (False, f\<lparr>array_levels := None\<rparr>, s)
         | (True, s) \<Rightarrow> (True, f\<lparr>array_levels := Some (replicate (unat count) \<lparr>level_type = ARRAY_DYNAMIC, level_size = 0\<rparr>),
                             array_level_count := count\<rparr>, s))"

definition td_field_set_array_level :: "s_struct_712_field \<Rightarrow> nat \<Rightarrow> e_array_type \<Rightarrow> uint8 \<Rightarrow> (bool \<times> s_struct_712_field) option" where
  "td_field_set_array_level f index t sz =
     (if unat (array_level_count f) \<le> index then Some (False, f)
      else do {
        ls \<leftarrow> array_levels f;
        l \<leftarrow> rd ls index;
        ls \<leftarrow> wr ls index (if t = ARRAY_FIXED_SIZE then \<lparr>level_type = t, level_size = sz\<rparr> else l\<lparr>level_type := t\<rparr>);
        Some (True, f\<lparr>array_levels := Some ls\<rparr>) })"

definition td_field_set_key_name ::
  "s_struct_712_field \<Rightarrow> bytes \<Rightarrow> 'a typed_data_scheme \<Rightarrow> bool \<times> s_struct_712_field \<times> 'a typed_data_scheme" where
  "td_field_set_key_name f name s =
     (let s = (if key_name f = None then s else td_free 1 s)
      in case td_with_mem s of
           (False, s) \<Rightarrow> (False, f\<lparr>key_name := None\<rparr>, s)
         | (True, s) \<Rightarrow> (True, f\<lparr>key_name := Some (buf_string name)\<rparr>, s))"

text \<open>The blocks of a field, and its destruction.\<close>

definition field_blocks :: "s_struct_712_field \<Rightarrow> nat" where
  "field_blocks f = 1 + (if struct_name f = None then 0 else 1) + (if array_levels f = None then 0 else 1)
     + (if key_name f = None then 0 else 1)"

definition td_discard_struct_field :: "s_struct_712_field option \<Rightarrow> 'a typed_data_scheme \<Rightarrow> 'a typed_data_scheme" where
  "td_discard_struct_field f s = (case f of None \<Rightarrow> s | Some f \<Rightarrow> td_free (field_blocks f) s)"

section \<open>Definitions of structs\<close>

text \<open>Two blocks: the definition and its name.  The position is the one it will get in the list.\<close>

definition td_create_struct_def :: "string \<Rightarrow> 'a typed_data_scheme \<Rightarrow> s_struct_712 option \<times> 'a typed_data_scheme" where
  "td_create_struct_def name s =
     (case td_with_mem s of
        (False, s) \<Rightarrow> (None, s)
      | (True, s) \<Rightarrow>
          (case td_with_mem s of
             (False, s) \<Rightarrow> (None, td_free 1 s)
           | (True, s) \<Rightarrow> (Some \<lparr>td_name = name, td_fields = []\<rparr>, s)))"

definition td_add_struct_def :: "s_struct_712 \<Rightarrow> 'a typed_data_scheme \<Rightarrow> 'a typed_data_scheme" where
  "td_add_struct_def d s = s\<lparr>g_structs := g_structs s @ [d]\<rparr>"

definition td_add_struct_field_def :: "nat \<Rightarrow> s_struct_712_field \<Rightarrow> 'a typed_data_scheme \<Rightarrow> 'a typed_data_scheme option" where
  "td_add_struct_field_def i f s = do {
     d \<leftarrow> rd (g_structs s) i;
     ds \<leftarrow> wr (g_structs s) i (d\<lparr>td_fields := td_fields d @ [f]\<rparr>);
     Some (s\<lparr>g_structs := ds\<rparr>) }"

fun index_from :: "('a \<Rightarrow> bool) \<Rightarrow> nat \<Rightarrow> 'a list \<Rightarrow> nat option" where
  "index_from P n [] = None"
| "index_from P n (x # xs) = (if P x then Some n else index_from P (Suc n) xs)"

definition td_find_struct_if :: "(s_struct_712 \<Rightarrow> bool) \<Rightarrow> s_struct_712 list \<Rightarrow> nat option" where
  "td_find_struct_if P ds = index_from P 0 ds"

definition td_find_struct :: "string option \<Rightarrow> s_struct_712 list \<Rightarrow> nat option" where
  "td_find_struct name ds =
     (case name of None \<Rightarrow> None | Some n \<Rightarrow> td_find_struct_if (\<lambda>d. td_name d = n) ds)"

definition field_at :: "s_struct_712 list \<Rightarrow> field_ref \<Rightarrow> s_struct_712_field option" where
  "field_at ds r = do { d \<leftarrow> rd ds (fst r); rd (td_fields d) (snd r) }"

text \<open>The list of fields behind a pointer: its head, and the next node.\<close>

definition field_ref_at :: "s_struct_712 list \<Rightarrow> nat \<Rightarrow> nat \<Rightarrow> field_ref option" where
  "field_ref_at ds i j = (if i < length ds \<and> j < length (td_fields (ds ! i)) then Some (i, j) else None)"

definition get_struct_field_sol_typename :: "e_type \<Rightarrow> string option" where
  "get_struct_field_sol_typename t =
     (case t of
        TYPE_SOL_INT \<Rightarrow> Some ''int''
      | TYPE_SOL_UINT \<Rightarrow> Some ''uint''
      | TYPE_SOL_ADDRESS \<Rightarrow> Some ''address''
      | TYPE_SOL_BOOL \<Rightarrow> Some ''bool''
      | TYPE_SOL_STRING \<Rightarrow> Some ''string''
      | TYPE_SOL_BYTES_FIX \<Rightarrow> Some ''bytes''
      | TYPE_SOL_BYTES_DYN \<Rightarrow> Some ''bytes''
      | TYPE_STRUCT \<Rightarrow> None)"

definition td_get_struct_field_typename :: "s_struct_712_field \<Rightarrow> string option" where
  "td_get_struct_field_typename f =
     (if field_type f = TYPE_STRUCT then struct_name f else get_struct_field_sol_typename (field_type f))"

section \<open>Values\<close>

text \<open>A leaf has a buffer when its size is not zero; \<open>fresh\<close> is what an allocation finds in memory.\<close>

definition td_create_leaf :: "(nat \<Rightarrow> uint8) \<Rightarrow> nat \<Rightarrow> 'a typed_data_scheme \<Rightarrow> bytes option \<times> 'a typed_data_scheme" where
  "td_create_leaf fresh total_size s =
     (case td_with_mem s of
        (False, s) \<Rightarrow> (None, s)
      | (True, s) \<Rightarrow>
          (let n = unat (word_of_nat total_size :: uint16)
           in if n = 0 then (Some [], s)
              else (case td_with_mem s of
                      (False, s) \<Rightarrow> (None, td_free 1 s)
                    | (True, s) \<Rightarrow> (Some (map fresh [0..<n]), s))))"

definition leaf_blocks :: "bytes \<Rightarrow> nat" where
  "leaf_blocks bs = (if bs = [] then 1 else 2)"

definition td_discard_leaf :: "bytes option \<Rightarrow> 'a typed_data_scheme \<Rightarrow> 'a typed_data_scheme" where
  "td_discard_leaf leaf s = (case leaf of None \<Rightarrow> s | Some bs \<Rightarrow> td_free (leaf_blocks bs) s)"

definition td_create_struct :: "nat \<Rightarrow> 'a typed_data_scheme \<Rightarrow> s_struct_712_value option \<times> 'a typed_data_scheme" where
  "td_create_struct i s = (case td_with_mem s of (ok, s) \<Rightarrow> ((if ok then Some (VAL_STRUCT i []) else None), s))"

definition td_create_array :: "field_ref \<Rightarrow> 'a typed_data_scheme \<Rightarrow> s_struct_712_value option \<times> 'a typed_data_scheme" where
  "td_create_array r s = (case td_with_mem s of (ok, s) \<Rightarrow> ((if ok then Some (VAL_ARRAY r []) else None), s))"

definition td_leaf_write :: "bytes \<Rightarrow> nat \<Rightarrow> bytes \<Rightarrow> (bool \<times> bytes) option" where
  "td_leaf_write leaf offset data =
     (if length leaf < offset + length data then Some (False, leaf)
      else if data = [] then Some (True, leaf)
      else map_option (\<lambda>bs. (True, bs)) (wr_n leaf offset data))"

definition td_leaf_is_complete :: "bytes \<Rightarrow> nat \<Rightarrow> bool" where
  "td_leaf_is_complete leaf filled \<longleftrightarrow> filled = length leaf"

text \<open>A child is appended to the container at the end of a way down.\<close>

fun append_at :: "nat list \<Rightarrow> s_struct_712_value \<Rightarrow> s_struct_712_value \<Rightarrow> s_struct_712_value option" where
  "append_at p c (VAL_ATOMIC r bs) = None"
| "append_at [] c (VAL_STRUCT i cs) = Some (VAL_STRUCT i (cs @ [c]))"
| "append_at [] c (VAL_ARRAY r cs) = Some (VAL_ARRAY r (cs @ [c]))"
| "append_at (k # p) c (VAL_STRUCT i cs) = do { v \<leftarrow> rd cs k; v \<leftarrow> append_at p c v; Some (VAL_STRUCT i (cs[k := v])) }"
| "append_at (k # p) c (VAL_ARRAY r cs) = do { v \<leftarrow> rd cs k; v \<leftarrow> append_at p c v; Some (VAL_ARRAY r (cs[k := v])) }"

fun child_count :: "nat list \<Rightarrow> s_struct_712_value \<Rightarrow> nat option" where
  "child_count p (VAL_ATOMIC r bs) = None"
| "child_count [] (VAL_STRUCT i cs) = Some (length cs)"
| "child_count [] (VAL_ARRAY r cs) = Some (length cs)"
| "child_count (k # p) (VAL_STRUCT i cs) = do { v \<leftarrow> rd cs k; child_count p v }"
| "child_count (k # p) (VAL_ARRAY r cs) = do { v \<leftarrow> rd cs k; child_count p v }"

definition root_value :: "e_root_type \<Rightarrow> 'a typed_data_scheme \<Rightarrow> s_struct_712_value option" where
  "root_value r s = (case r of ROOT_DOMAIN \<Rightarrow> td_domain s | ROOT_MESSAGE \<Rightarrow> td_message s | ROOT_NONE \<Rightarrow> None)"

definition set_root_value :: "e_root_type \<Rightarrow> s_struct_712_value \<Rightarrow> 'a typed_data_scheme \<Rightarrow> 'a typed_data_scheme" where
  "set_root_value r v s =
     (case r of ROOT_DOMAIN \<Rightarrow> s\<lparr>td_domain := Some v\<rparr> | ROOT_MESSAGE \<Rightarrow> s\<lparr>td_message := Some v\<rparr> | ROOT_NONE \<Rightarrow> s)"

text \<open>The result is the pointer to the child.\<close>

definition td_append_child :: "node_ref \<Rightarrow> s_struct_712_value \<Rightarrow> 'a typed_data_scheme \<Rightarrow> (node_ref \<times> 'a typed_data_scheme) option" where
  "td_append_child parent child s = do {
     v \<leftarrow> root_value (fst parent) s;
     n \<leftarrow> child_count (snd parent) v;
     v \<leftarrow> append_at (snd parent) child v;
     Some ((fst parent, snd parent @ [n]), set_root_value (fst parent) v s) }"

text \<open>The roots.  A value that is refused is freed; it has no children yet.\<close>

definition td_set_domain :: "s_struct_712_value \<Rightarrow> 'a typed_data_scheme \<Rightarrow> (bool \<times> 'a typed_data_scheme) option" where
  "td_set_domain node s =
     (if td_domain s \<noteq> None then Some (False, td_free 1 s)
      else (case node of
              VAL_STRUCT i _ \<Rightarrow> do {
                d \<leftarrow> rd (g_structs s) i;
                Some (if td_name d \<noteq> ''EIP712Domain'' then (False, td_free 1 s) else (True, s\<lparr>td_domain := Some node\<rparr>)) }
            | _ \<Rightarrow> Some (False, td_free 1 s)))"

definition td_set_message :: "s_struct_712_value \<Rightarrow> 'a typed_data_scheme \<Rightarrow> bool \<times> 'a typed_data_scheme" where
  "td_set_message node s =
     (if td_message s \<noteq> None then (False, td_free 1 s)
      else (case node of
              VAL_STRUCT _ _ \<Rightarrow> (True, s\<lparr>td_message := Some node\<rparr>)
            | _ \<Rightarrow> (False, td_free 1 s)))"

definition td_has_domain :: "'a typed_data_scheme \<Rightarrow> bool" where "td_has_domain s \<longleftrightarrow> td_domain s \<noteq> None"
definition td_has_message :: "'a typed_data_scheme \<Rightarrow> bool" where "td_has_message s \<longleftrightarrow> td_message s \<noteq> None"

fun value_blocks :: "s_struct_712_value \<Rightarrow> nat" where
  "value_blocks (VAL_ATOMIC r bs) = leaf_blocks bs"
| "value_blocks (VAL_STRUCT i cs) = 1 + sum_list (map value_blocks cs)"
| "value_blocks (VAL_ARRAY r cs) = 1 + sum_list (map value_blocks cs)"

definition struct_blocks :: "s_struct_712 \<Rightarrow> nat" where
  "struct_blocks d = 2 + sum_list (map field_blocks (td_fields d))"

definition td_blocks :: "'a typed_data_scheme \<Rightarrow> nat" where
  "td_blocks s = (case td_domain s of None \<Rightarrow> 0 | Some v \<Rightarrow> value_blocks v) + (case td_message s of None \<Rightarrow> 0 | Some v \<Rightarrow> value_blocks v)
     + sum_list (map struct_blocks (g_structs s))"

definition td_deinit :: "'a typed_data_scheme \<Rightarrow> 'a typed_data_scheme" where
  "td_deinit s = (td_free (td_blocks s) s)\<lparr>g_structs := [], td_domain := None, td_message := None\<rparr>"

definition td_init :: "'a typed_data_scheme \<Rightarrow> bool \<times> 'a typed_data_scheme" where
  "td_init s = (if g_structs s \<noteq> [] then (False, td_deinit s) else (True, s))"

section \<open>The domain\<close>

text \<open>The first atomic child with a key: its field and its data.  A field without a name would be a null pointer.\<close>

fun domain_child :: "s_struct_712 list \<Rightarrow> string \<Rightarrow> s_struct_712_value list \<Rightarrow> (s_struct_712_field \<times> bytes) option option" where
  "domain_child ds key [] = Some None"
| "domain_child ds key (c # cs) =
     (case c of
        VAL_ATOMIC r bs \<Rightarrow> do {
          f \<leftarrow> field_at ds r;
          k \<leftarrow> key_name f;
          if k = key then Some (Some (f, bs)) else domain_child ds key cs }
      | _ \<Rightarrow> domain_child ds key cs)"

definition domain_children :: "'a typed_data_scheme \<Rightarrow> s_struct_712_value list" where
  "domain_children s =
     (case td_domain s of
        Some (VAL_STRUCT i cs) \<Rightarrow> cs
      | _ \<Rightarrow> [])"

definition td_get_domain_chain_id :: "'a typed_data_scheme \<Rightarrow> uint64 option option" where
  "td_get_domain_chain_id s = do {
     c \<leftarrow> domain_child (g_structs s) ''chainId'' (domain_children s);
     Some (case c of
             None \<Rightarrow> None
           | Some (f, data) \<Rightarrow>
               if 8 < length data then
                 (let leading = length data - 8
                  in if \<not> is_zeroes_buffer (take leading data) then None else Some (u64_from_BE (drop leading data)))
               else Some (u64_from_BE data)) }"

definition td_get_domain_contract_addr :: "'a typed_data_scheme \<Rightarrow> bytes option option" where
  "td_get_domain_contract_addr s = do {
     c \<leftarrow> domain_child (g_structs s) ''verifyingContract'' (domain_children s);
     Some (case c of
             None \<Rightarrow> None
           | Some (f, data) \<Rightarrow>
               (case field_type f of
                  TYPE_SOL_ADDRESS \<Rightarrow> if length data \<noteq> ADDRESS_LENGTH then None else Some data
                | TYPE_SOL_STRING \<Rightarrow>
                    if data \<noteq> [99, 111, 115, 109, 111, 115] then None else Some (data @ replicate (ADDRESS_LENGTH - length data) 0)
                | _ \<Rightarrow> None)) }"

section \<open>Traversal\<close>

text \<open>A visitor sees a node before its children and can end the traversal.\<close>

fun traverse_node :: "(s_struct_712_value \<Rightarrow> 'c \<Rightarrow> bool \<times> 'c) \<Rightarrow> s_struct_712_value \<Rightarrow> 'c \<Rightarrow> bool \<times> 'c"
  and traverse_nodes :: "(s_struct_712_value \<Rightarrow> 'c \<Rightarrow> bool \<times> 'c) \<Rightarrow> s_struct_712_value list \<Rightarrow> 'c \<Rightarrow> bool \<times> 'c" where
  "traverse_node visit (VAL_ATOMIC r bs) c = visit (VAL_ATOMIC r bs) c"
| "traverse_node visit (VAL_STRUCT i cs) c =
     (case visit (VAL_STRUCT i cs) c of (ok, c) \<Rightarrow> if \<not> ok then (False, c) else traverse_nodes visit cs c)"
| "traverse_node visit (VAL_ARRAY r cs) c =
     (case visit (VAL_ARRAY r cs) c of (ok, c) \<Rightarrow> if \<not> ok then (False, c) else traverse_nodes visit cs c)"
| "traverse_nodes visit [] c = (True, c)"
| "traverse_nodes visit (v # vs) c =
     (case traverse_node visit v c of (ok, c) \<Rightarrow> if \<not> ok then (False, c) else traverse_nodes visit vs c)"

definition td_traverse_domain :: "(s_struct_712_value \<Rightarrow> 'c \<Rightarrow> bool \<times> 'c) \<Rightarrow> 'a typed_data_scheme \<Rightarrow> 'c \<Rightarrow> bool \<times> 'c" where
  "td_traverse_domain visit s c = (case td_domain s of None \<Rightarrow> (True, c) | Some v \<Rightarrow> traverse_node visit v c)"

definition td_traverse_message :: "(s_struct_712_value \<Rightarrow> 'c \<Rightarrow> bool \<times> 'c) \<Rightarrow> 'a typed_data_scheme \<Rightarrow> 'c \<Rightarrow> bool \<times> 'c" where
  "td_traverse_message visit s c = (case td_message s of None \<Rightarrow> (True, c) | Some v \<Rightarrow> traverse_node visit v c)"

text \<open>Once shown, the data of a leaf is given back; its node stays.\<close>

definition td_release_leaf_value :: "s_struct_712_value \<Rightarrow> 'a typed_data_scheme \<Rightarrow> s_struct_712_value \<times> 'a typed_data_scheme" where
  "td_release_leaf_value node s =
     (case node of
        VAL_ATOMIC r bs \<Rightarrow> (VAL_ATOMIC r [], if bs = [] then s else td_free 1 s)
      | v \<Rightarrow> (v, s))"

end
