(* ===== verification/Eip712_Parse.thy ===== *)
theory Eip712_Parse
  imports Typed_Data
begin

text \<open>
  Model of \<open>src/features/sign_message_eip712/eip712_v1_parse.c\<close>: the definitions of an EIP-712 message arrive name by name and field
  by field, then its values arrive in the order of the definitions.  A stack of frames holds the containers that are being
  filled, innermost first; the node of a frame is in one of the two trees of \<open>Typed_Data\<close>.

  The data of a command is its list of bytes; the pointer of a command without data is null.  The result of
  an operation is \<open>None\<close> where the code would follow a null pointer.
\<close>

section \<open>State\<close>

record s_build_frame =
  fr_next :: "field_ref option"
  fr_node :: node_ref
  array_remaining :: uint8
  array_levels_remaining :: uint8

text \<open>\<open>g_domain_root\<close> is null, the root of the domain, or the address of a node that \<open>td_set_domain\<close> has freed.\<close>

datatype domain_root_ptr = ROOT_NULL | ROOT_NODE | ROOT_FREED

record eip712_parse = typed_data +
  g_pending_struct :: "nat option"
  g_domain_root :: domain_root_ptr
  g_build :: "s_build_frame list"
  g_backup :: "s_build_frame list"
  pending_leaf :: "(field_ref \<times> bytes) option"
  pending_filled :: uint16

type_synonym parse_result = "(bool \<times> eip712_parse) option"

section \<open>Definitions\<close>

definition is_valid_identifier :: "bytes \<Rightarrow> bool" where
  "is_valid_identifier name \<longleftrightarrow> list_all (\<lambda>b. \<not> (b = 34 \<or> b = 92 \<or> b = 46 \<or> b = 0)) name"

definition v1_set_struct_name :: "bytes \<Rightarrow> eip712_parse \<Rightarrow> bool \<times> eip712_parse" where
  "v1_set_struct_name name s =
     (if name = [] \<or> \<not> is_valid_identifier name then (False, s)
      else (case td_with_mem s of
              (False, s) \<Rightarrow> (False, s)
            | (True, s) \<Rightarrow>
                (case td_create_struct_def (buf_string name) s of
                   (None, s) \<Rightarrow> (False, td_free 1 s\<lparr>g_pending_struct := None\<rparr>)
                 | (Some d, s) \<Rightarrow>
                     (let s = td_free 1 s\<lparr>g_pending_struct := Some (length (g_structs s))\<rparr> in (True, td_add_struct_def d s)))))"

text \<open>The next byte of the data, when there is one.\<close>

definition next_byte :: "bytes \<Rightarrow> nat \<Rightarrow> (uint8 \<times> nat) option" where
  "next_byte data data_idx = (if length data < data_idx + 1 then None else Some (data ! data_idx, data_idx + 1))"

definition e_type_of :: "uint8 \<Rightarrow> e_type option" where
  "e_type_of b =
     (if b = 0 then Some TYPE_STRUCT else if b = 1 then Some TYPE_SOL_INT else if b = 2 then Some TYPE_SOL_UINT
      else if b = 3 then Some TYPE_SOL_ADDRESS else if b = 4 then Some TYPE_SOL_BOOL else if b = 5 then Some TYPE_SOL_STRING
      else if b = 6 then Some TYPE_SOL_BYTES_FIX else if b = 7 then Some TYPE_SOL_BYTES_DYN else None)"

definition TYPE_MASK :: uint8 where "TYPE_MASK = 0xF"
definition ARRAY_MASK :: uint8 where "ARRAY_MASK = 0x80"
definition TYPESIZE_MASK :: uint8 where "TYPESIZE_MASK = 0x40"

definition v1_set_struct_field_typedesc :: "bytes \<Rightarrow> nat \<Rightarrow> (bool \<times> bool \<times> e_type \<times> nat) option" where
  "v1_set_struct_field_typedesc data data_idx = do {
     (typedesc, data_idx) \<leftarrow> next_byte data data_idx;
     t \<leftarrow> e_type_of (typedesc AND TYPE_MASK);
     Some (typedesc AND ARRAY_MASK \<noteq> 0, typedesc AND TYPESIZE_MASK \<noteq> 0, t, data_idx) }"

text \<open>The setters of a field: whether they succeed, the field, the next index and the state.\<close>

type_synonym field_result = "bool \<times> s_struct_712_field \<times> nat \<times> eip712_parse"

definition set_field_name ::
  "(s_struct_712_field \<Rightarrow> bytes \<Rightarrow> eip712_parse \<Rightarrow> bool \<times> s_struct_712_field \<times> eip712_parse) \<Rightarrow>
   s_struct_712_field \<Rightarrow> bytes \<Rightarrow> nat \<Rightarrow> eip712_parse \<Rightarrow> field_result" where
  "set_field_name setter f data data_idx s =
     (case next_byte data data_idx of
        None \<Rightarrow> (False, f, data_idx, s)
      | Some (name_len, data_idx) \<Rightarrow>
          if length data < data_idx + unat name_len then (False, f, data_idx, s)
          else
            (let name = take (unat name_len) (drop data_idx data)
             in if \<not> is_valid_identifier name then (False, f, data_idx, s)
                else (case setter f name s of (ok, f, s) \<Rightarrow> (ok, f, (if ok then data_idx + unat name_len else data_idx), s))))"

definition v1_set_struct_field_custom_typename :: "s_struct_712_field \<Rightarrow> bytes \<Rightarrow> nat \<Rightarrow> eip712_parse \<Rightarrow> field_result" where
  "v1_set_struct_field_custom_typename f data data_idx s = set_field_name td_field_set_struct_name f data data_idx s"

definition v1_set_struct_field_keyname :: "s_struct_712_field \<Rightarrow> bytes \<Rightarrow> nat \<Rightarrow> eip712_parse \<Rightarrow> field_result" where
  "v1_set_struct_field_keyname f data data_idx s = set_field_name td_field_set_key_name f data data_idx s"

definition v1_set_struct_field_typesize :: "s_struct_712_field \<Rightarrow> bytes \<Rightarrow> nat \<Rightarrow> eip712_parse \<Rightarrow> field_result" where
  "v1_set_struct_field_typesize f data data_idx s =
     (case next_byte data data_idx of
        None \<Rightarrow> (False, f, data_idx, s)
      | Some (b, data_idx) \<Rightarrow> (case td_field_set_type_size f b of (ok, f) \<Rightarrow> (ok, f, data_idx, s)))"

text \<open>The levels, of which each has a type byte and, of a fixed size, a size byte.\<close>

fun set_array_levels :: "bytes \<Rightarrow> nat list \<Rightarrow> s_struct_712_field \<Rightarrow> nat \<Rightarrow> (bool \<times> s_struct_712_field \<times> nat) option" where
  "set_array_levels data [] f data_idx = Some (True, f, data_idx)"
| "set_array_levels data (i # is) f data_idx =
     (case next_byte data data_idx of
        None \<Rightarrow> Some (False, f, data_idx)
      | Some (arr_type, data_idx) \<Rightarrow>
          (case (if arr_type = 0 then Some (ARRAY_DYNAMIC, 0, data_idx)
                 else if arr_type = 1 then map_option (\<lambda>(arr_size, data_idx). (ARRAY_FIXED_SIZE, arr_size, data_idx)) (next_byte data data_idx)
                 else None) of
             None \<Rightarrow> Some (False, f, data_idx)
           | Some (t, arr_size, data_idx) \<Rightarrow> do {
               (ok, f) \<leftarrow> td_field_set_array_level f i t arr_size;
               if ok then set_array_levels data is f data_idx else Some (False, f, data_idx) }))"

definition v1_set_struct_field_array :: "s_struct_712_field \<Rightarrow> bytes \<Rightarrow> nat \<Rightarrow> eip712_parse \<Rightarrow> field_result option" where
  "v1_set_struct_field_array f data data_idx s =
     (case next_byte data data_idx of
        None \<Rightarrow> Some (False, f, data_idx, s)
      | Some (count, data_idx) \<Rightarrow>
          (case td_field_set_array_level_count f count s of
             (False, f, s) \<Rightarrow> Some (False, f, data_idx, s)
           | (True, f, s) \<Rightarrow> do {
               (ok, f, data_idx) \<leftarrow> set_array_levels data [0..<unat (array_level_count f)] f data_idx;
               Some (ok, f, data_idx, s) }))"

text \<open>A size comes with the types that need one, and only with them.\<close>

definition type_size_valid :: "s_struct_712_field \<Rightarrow> bool \<Rightarrow> bool" where
  "type_size_valid f has_size =
     (case field_type f of
        TYPE_SOL_INT \<Rightarrow> \<not> (\<not> has_size \<or> type_size f = 0 \<or> 32 < type_size f)
      | TYPE_SOL_UINT \<Rightarrow> \<not> (\<not> has_size \<or> type_size f = 0 \<or> 32 < type_size f)
      | TYPE_SOL_BYTES_FIX \<Rightarrow> \<not> (\<not> has_size \<or> type_size f = 0 \<or> 32 < type_size f)
      | TYPE_STRUCT \<Rightarrow> True
      | _ \<Rightarrow> \<not> has_size)"

definition v1_set_struct_field_type :: "bool \<Rightarrow> s_struct_712_field \<Rightarrow> bytes \<Rightarrow> nat \<Rightarrow> eip712_parse \<Rightarrow> field_result" where
  "v1_set_struct_field_type has_size f data data_idx s =
     (if has_size then
        (if field_type f = TYPE_STRUCT then (False, f, data_idx, s) else v1_set_struct_field_typesize f data data_idx s)
      else if field_type f = TYPE_STRUCT then v1_set_struct_field_custom_typename f data data_idx s
      else (True, f, data_idx, s))"

definition v1_set_struct_field_internal ::
  "bytes \<Rightarrow> eip712_parse \<Rightarrow> (bool \<times> s_struct_712_field option \<times> eip712_parse) option" where
  "v1_set_struct_field_internal data s =
     (if data = [] then Some (False, None, s)
      else
        (case g_pending_struct s of
           None \<Rightarrow> Some (False, None, s)
         | Some pending \<Rightarrow>
             (case v1_set_struct_field_typedesc data 0 of
                None \<Rightarrow> Some (False, None, s)
              | Some (is_array, has_size, t, data_idx) \<Rightarrow>
                  (case td_create_field_def t s of
                     (None, s) \<Rightarrow> Some (False, None, s)
                   | (Some f, s) \<Rightarrow>
                       (case v1_set_struct_field_type has_size f data data_idx s of
                          (ok, f, data_idx, s) \<Rightarrow>
                            if \<not> ok \<or> \<not> type_size_valid f has_size then Some (False, Some f, s)
                            else do {
                              (ok, f, data_idx, s) \<leftarrow>
                                (if is_array then v1_set_struct_field_array f data data_idx s else Some (True, f, data_idx, s));
                              if \<not> ok then Some (False, Some f, s)
                              else
                                (case v1_set_struct_field_keyname f data data_idx s of
                                   (ok, f, data_idx, s) \<Rightarrow>
                                     if \<not> ok \<or> data_idx \<noteq> length data then Some (False, Some f, s)
                                     else do {
                                       s \<leftarrow> td_add_struct_field_def pending f s;
                                       Some (True, Some f, s) }) })))))"

definition v1_set_struct_field :: "bytes \<Rightarrow> eip712_parse \<Rightarrow> parse_result" where
  "v1_set_struct_field data s = do {
     (ok, f, s) \<leftarrow> v1_set_struct_field_internal data s;
     Some (if ok then (True, s) else (False, td_discard_struct_field f s)) }"

section \<open>Values\<close>

definition push_frame :: "field_ref option \<Rightarrow> node_ref \<Rightarrow> uint8 \<Rightarrow> uint8 \<Rightarrow> eip712_parse \<Rightarrow> bool \<times> eip712_parse" where
  "push_frame nxt node remaining levels s =
     (if TD_MAX_DEPTH \<le> length (g_build s) then (False, s)
      else (True, s\<lparr>g_build := \<lparr>fr_next = nxt, fr_node = node, array_remaining = remaining, array_levels_remaining = levels\<rparr> # g_build s\<rparr>))"

text \<open>A struct named by a field opens as a child of a node; the code repeats these lines three times.\<close>

definition open_nested :: "string option \<Rightarrow> node_ref \<Rightarrow> eip712_parse \<Rightarrow> parse_result" where
  "open_nested name parent s =
     (case td_find_struct name (g_structs s) of
        None \<Rightarrow> Some (False, s)
      | Some nested \<Rightarrow>
          (case td_create_struct nested s of
             (None, s) \<Rightarrow> Some (False, s)
           | (Some node, s) \<Rightarrow> do {
               (child, s) \<leftarrow> td_append_child parent node s;
               Some (push_frame (field_ref_at (g_structs s) nested 0) child 0 0 s) }))"

lemma open_nested_depth: "open_nested name parent s = Some (True, s') \<Longrightarrow> length (g_build s') = Suc (length (g_build s)) \<and> length (g_build s) < TD_MAX_DEPTH"
  by (auto simp: open_nested_def td_create_struct_def td_with_mem_def td_append_child_def push_frame_def set_root_value_def bind_eq_Some_conv
      split: option.splits prod.splits if_splits e_root_type.splits)

text \<open>Fields that are structs, not arrays of them, need no command of their own.\<close>

function auto_descend :: "eip712_parse \<Rightarrow> parse_result" where
  "auto_descend s =
     (case g_build s of
        [] \<Rightarrow> Some (True, s)
      | f # _ \<Rightarrow>
          (case fr_next f of
             None \<Rightarrow> Some (True, s)
           | Some r \<Rightarrow>
               (case field_at (g_structs s) r of
                  None \<Rightarrow> None
                | Some d \<Rightarrow>
                    if field_type d \<noteq> TYPE_STRUCT then Some (True, s)
                    else if 0 < array_level_count d then Some (True, s)
                    else
                      (case open_nested (struct_name d) (fr_node f) s of
                         None \<Rightarrow> None
                       | Some (False, s) \<Rightarrow> Some (False, s)
                       | Some (True, s) \<Rightarrow> auto_descend s))))"
  by pat_completeness auto
termination
  by (relation "measure (\<lambda>s. TD_MAX_DEPTH - length (g_build s))") (auto dest!: open_nested_depth)

declare auto_descend.simps [simp del]

text \<open>The cursor moves on after a leaf, or after the last element of an array or of a struct.\<close>

function advance :: "eip712_parse \<Rightarrow> parse_result" where
  "advance s =
     (case g_build s of
        [] \<Rightarrow> Some (True, s)
      | f # fs \<Rightarrow>
          if 0 < array_remaining f then
            (let f = f\<lparr>array_remaining := array_remaining f - 1\<rparr>
             in if array_remaining f = 0 then advance (s\<lparr>g_build := fs\<rparr>)
                else
                  (let s = s\<lparr>g_build := f # fs\<rparr>
                   in if array_levels_remaining f \<noteq> 0 then Some (True, s)
                      else do {
                        r \<leftarrow> fr_next f;
                        d \<leftarrow> field_at (g_structs s) r;
                        if field_type d \<noteq> TYPE_STRUCT then Some (True, s)
                        else do {
                          (ok, s) \<leftarrow> open_nested (struct_name d) (fr_node f) s;
                          if \<not> ok then Some (False, s) else auto_descend s } }))
          else
            (case fr_next f of
               None \<Rightarrow> None
             | Some r \<Rightarrow>
                 (let nxt = field_ref_at (g_structs s) (fst r) (Suc (snd r))
                  in if nxt = None then advance (s\<lparr>g_build := fs\<rparr>)
                     else auto_descend (s\<lparr>g_build := f\<lparr>fr_next := nxt\<rparr> # fs\<rparr>))))"
  by pat_completeness auto
termination
  by (relation "measure (\<lambda>s. length (g_build s))") auto

declare advance.simps [simp del]

definition v1_set_root :: "string \<Rightarrow> eip712_parse \<Rightarrow> parse_result" where
  "v1_set_root name s =
     (if pending_leaf s \<noteq> None then Some (False, s)
      else if g_build s \<noteq> [] then Some (False, s)
      else
        (case td_find_struct (Some name) (g_structs s) of
           None \<Rightarrow> Some (False, s)
         | Some root \<Rightarrow>
             (case td_create_struct root s of
                (None, s) \<Rightarrow> Some (False, s)
              | (Some node, s) \<Rightarrow> do {
                  (ok, s) \<leftarrow>
                    (if name = ''EIP712Domain'' then do {
                       (ok, s) \<leftarrow> td_set_domain node s;
                       Some (ok, s\<lparr>g_domain_root := (if ok then ROOT_NODE else ROOT_FREED)\<rparr>) }
                     else Some (td_set_message node s));
                  if \<not> ok then Some (False, s)
                  else
                    (case push_frame (field_ref_at (g_structs s) root 0)
                            ((if name = ''EIP712Domain'' then ROOT_DOMAIN else ROOT_MESSAGE), []) 0 0 s of
                       (False, s) \<Rightarrow> Some (False, s)
                     | (True, s) \<Rightarrow> auto_descend s) })))"

definition v1_set_array :: "nat \<Rightarrow> eip712_parse \<Rightarrow> parse_result" where
  "v1_set_array count s =
     (if pending_leaf s \<noteq> None then Some (False, s)
      else
        (case g_build s of
           [] \<Rightarrow> Some (False, s)
         | f # _ \<Rightarrow>
             (case fr_next f of
                None \<Rightarrow> Some (False, s)
              | Some r \<Rightarrow> do {
                  d \<leftarrow> field_at (g_structs s) r;
                  (case (if 0 < array_remaining f \<and> 0 < array_levels_remaining f then Some (array_levels_remaining f - 1)
                         else if 0 < array_remaining f then None
                         else if array_level_count d = 0 then None
                         else Some (array_level_count d - 1)) of
                     None \<Rightarrow> Some (False, s)
                   | Some levels_remaining_after \<Rightarrow> do {
                       ls \<leftarrow> array_levels d;
                       level \<leftarrow> rd ls (unat (array_level_count d - 1 - levels_remaining_after));
                       if level_type level = ARRAY_FIXED_SIZE \<and> count \<noteq> unat (level_size level) then Some (False, s)
                       else
                         (case td_create_array r s of
                            (None, s) \<Rightarrow> Some (False, s)
                          | (Some arr, s) \<Rightarrow> do {
                              (arr, s) \<leftarrow> td_append_child (fr_node f) arr s;
                              if count = 0 then
                                advance (s\<lparr>g_backup := filter (\<lambda>f. array_remaining f = 0) (rev (g_build s))\<rparr>)
                              else if 255 < count then Some (False, s)
                              else
                                (case push_frame (Some r) arr (word_of_nat count) levels_remaining_after s of
                                   (False, s) \<Rightarrow> Some (False, s)
                                 | (True, s) \<Rightarrow>
                                     if levels_remaining_after = 0 \<and> field_type d = TYPE_STRUCT then do {
                                       (ok, s) \<leftarrow> open_nested (struct_name d) arr s;
                                       if \<not> ok then Some (False, s) else auto_descend s }
                                     else Some (True, s)) }) }) })))"

definition v1_is_complete :: "eip712_parse \<Rightarrow> bool" where
  "v1_is_complete s \<longleftrightarrow> g_build s = [] \<and> td_has_domain s \<and> td_has_message s"

definition v1_domain_complete :: "eip712_parse \<Rightarrow> bool" where
  "v1_domain_complete s \<longleftrightarrow> td_has_domain s \<and> \<not> td_has_message s \<and> g_build s = []"

definition v1_field_streaming :: "eip712_parse \<Rightarrow> bool" where
  "v1_field_streaming s \<longleftrightarrow> pending_leaf s \<noteq> None"

definition v1_current_field_uninstantiated_array :: "eip712_parse \<Rightarrow> bool option" where
  "v1_current_field_uninstantiated_array s =
     (case g_build s of
        [] \<Rightarrow> Some False
      | f # _ \<Rightarrow>
          if 0 < array_remaining f then Some (0 < array_levels_remaining f)
          else (case fr_next f of
                  None \<Rightarrow> Some False
                | Some r \<Rightarrow> do { d \<leftarrow> field_at (g_structs s) r; Some (0 < array_level_count d) }))"

text \<open>A domain whose chain identifier does not fit 64 bits is refused.\<close>

definition chain_id_refused :: "s_build_frame \<Rightarrow> s_struct_712_field \<Rightarrow> bytes \<Rightarrow> eip712_parse \<Rightarrow> bool option" where
  "chain_id_refused f d bs s =
     (case g_domain_root s of
        ROOT_NULL \<Rightarrow> Some False
      | ROOT_FREED \<Rightarrow> None
      | ROOT_NODE \<Rightarrow>
          if fr_node f \<noteq> (ROOT_DOMAIN, []) then Some False
          else do {
            key \<leftarrow> key_name d;
            Some (key = ''chainId'' \<and> 8 < length bs \<and> \<not> is_zeroes_buffer (take (length bs - 8) bs)) })"

text \<open>A chunk of a leaf: the first one starts with the size of the whole.  The result is the leaf.\<close>

definition first_chunk :: "(nat \<Rightarrow> uint8) \<Rightarrow> field_ref \<Rightarrow> s_struct_712_field \<Rightarrow> bytes \<Rightarrow> eip712_parse \<Rightarrow> (bytes option \<times> eip712_parse) option" where
  "first_chunk fresh r d data s =
     (if length data < 2 then Some (None, s)
      else do {
        total_size \<leftarrow> read_u16_be data 0;
        if field_type d = TYPE_SOL_ADDRESS \<and> unat total_size \<noteq> ADDRESS_LENGTH then Some (None, s)
        else if field_type d = TYPE_SOL_BYTES_FIX \<and> unat total_size \<noteq> unat (type_size d) then Some (None, s)
        else
          (case td_create_leaf fresh (unat total_size) s of
             (None, s) \<Rightarrow> Some (None, s)
           | (Some leaf, s) \<Rightarrow> Some (Some (drop 2 data), s\<lparr>pending_leaf := Some (r, leaf), pending_filled := 0\<rparr>)) })"

definition last_chunk :: "s_build_frame \<Rightarrow> s_struct_712_field \<Rightarrow> eip712_parse \<Rightarrow> ((field_ref \<times> bytes) option \<times> eip712_parse) option" where
  "last_chunk f d s = do {
     (r, leaf) \<leftarrow> pending_leaf s;
     if \<not> td_leaf_is_complete leaf (unat (pending_filled s)) then Some (None, s)
     else do {
       refused \<leftarrow> chain_id_refused f d leaf s;
       if refused then Some (None, (td_discard_leaf (Some leaf) s)\<lparr>pending_leaf := None, pending_filled := 0\<rparr>)
       else do {
         (_, s) \<leftarrow> td_append_child (fr_node f) (VAL_ATOMIC r leaf) s;
         (ok, s) \<leftarrow> advance (s\<lparr>pending_leaf := None, pending_filled := 0\<rparr>);
         Some ((if ok then Some (r, leaf) else None), s) } } }"

definition v1_add_field ::
  "(nat \<Rightarrow> uint8) \<Rightarrow> bytes \<Rightarrow> bool \<Rightarrow> eip712_parse \<Rightarrow> ((field_ref \<times> bytes) option \<times> eip712_parse) option" where
  "v1_add_field fresh data more_chunks s =
     (case g_build s of
        [] \<Rightarrow> Some (None, s)
      | f # _ \<Rightarrow> do {
          uninstantiated \<leftarrow> v1_current_field_uninstantiated_array s;
          if uninstantiated then Some (None, s)
          else do {
            r \<leftarrow> fr_next f;
            d \<leftarrow> field_at (g_structs s) r;
            (data, s) \<leftarrow> (if pending_leaf s = None then first_chunk fresh r d data s else Some (Some data, s));
            (case data of
               None \<Rightarrow> Some (None, s)
             | Some data \<Rightarrow> do {
                 (r, leaf) \<leftarrow> pending_leaf s;
                 (ok, leaf) \<leftarrow> td_leaf_write leaf (unat (pending_filled s)) data;
                 if \<not> ok then Some (None, s)
                 else
                   (let s = s\<lparr>pending_leaf := Some (r, leaf), pending_filled := pending_filled s + word_of_nat (length data)\<rparr>
                    in if more_chunks then Some (Some (r, leaf), s) else last_chunk f d s) }) } })"

section \<open>What the filters see of the stack\<close>

definition v1_get_root_type :: "'a typed_data_scheme \<Rightarrow> e_root_type" where
  "v1_get_root_type s = (if \<not> td_has_domain s then ROOT_NONE else if \<not> td_has_message s then ROOT_DOMAIN else ROOT_MESSAGE)"

definition v1_get_current_field :: "eip712_parse \<Rightarrow> field_ref option" where
  "v1_get_current_field s = (case g_build s of [] \<Rightarrow> None | f # _ \<Rightarrow> fr_next f)"

definition struct_frames :: "eip712_parse \<Rightarrow> s_build_frame list" where
  "struct_frames s = filter (\<lambda>f. array_remaining f = 0) (rev (g_build s))"

definition v1_depth_count :: "eip712_parse \<Rightarrow> nat" where
  "v1_depth_count s = length (struct_frames s)"

definition v1_nth_field :: "nat \<Rightarrow> eip712_parse \<Rightarrow> field_ref option" where
  "v1_nth_field n s =
     (if n = 0 then None else if n \<le> length (struct_frames s) then fr_next (struct_frames s ! (n - 1)) else None)"

definition v1_backup_depth_count :: "eip712_parse \<Rightarrow> nat" where
  "v1_backup_depth_count s = length (g_backup s)"

definition v1_backup_nth_field :: "nat \<Rightarrow> eip712_parse \<Rightarrow> field_ref option" where
  "v1_backup_nth_field n s =
     (if n = 0 \<or> length (g_backup s) < n then None else fr_next (g_backup s ! (n - 1)))"

text \<open>The rest of a path below the array that turned out to be empty.\<close>

definition find_field_named :: "s_struct_712 list \<Rightarrow> nat \<Rightarrow> bytes \<Rightarrow> field_ref option" where
  "find_field_named ds i key =
     (if i < length ds
      then map_option (\<lambda>j. (i, j)) (index_from (\<lambda>f. map_option (map (\<lambda>c. word_of_nat (of_char c))) (key_name f) = Some key) 0 (td_fields (ds ! i)))
      else None)"

function path_exists :: "s_struct_712 list \<Rightarrow> field_ref \<Rightarrow> bytes \<Rightarrow> bool option" where
  "path_exists ds r path =
     (case path of
        [] \<Rightarrow> Some True
      | b # rest \<Rightarrow>
          if b \<noteq> 46 then Some False
          else
            (case field_at ds r of
               None \<Rightarrow> None
             | Some f \<Rightarrow>
                 if take 2 rest = [91, 93] then
                   (if array_level_count f = 0 then Some False else path_exists ds r (drop 2 rest))
                 else if rest = [] then Some False
                 else
                   (let key = takeWhile (\<lambda>c. c \<noteq> 46) rest
                    in case td_find_struct (td_get_struct_field_typename f) ds of
                         None \<Rightarrow> Some False
                       | Some i \<Rightarrow>
                           (case find_field_named ds i key of
                              None \<Rightarrow> Some False
                            | Some r \<Rightarrow> path_exists ds r (drop (length key) rest)))))"
  by pat_completeness auto
termination by (relation "measure (\<lambda>(ds, r, path). length path)") auto

definition v1_backup_exists :: "bytes \<Rightarrow> eip712_parse \<Rightarrow> bool option" where
  "v1_backup_exists path s =
     (case g_backup s of
        [] \<Rightarrow> Some False
      | _ \<Rightarrow>
          (case fr_next (last (g_backup s)) of
             None \<Rightarrow> Some False
           | Some r \<Rightarrow> path_exists (g_structs s) r path))"

definition v1_parse_deinit :: "eip712_parse \<Rightarrow> eip712_parse" where
  "v1_parse_deinit s =
     (td_discard_leaf (map_option snd (pending_leaf s)) s)
       \<lparr>g_build := [], g_backup := [], pending_leaf := None, pending_filled := 0, g_pending_struct := None, g_domain_root := ROOT_NULL\<rparr>"

end
