(* ===== verification/Eip712_Hash.thy ===== *)
theory Eip712_Hash
  imports Typed_Data Wide_Uint
begin

text \<open>
  Model of the hashing of EIP-712 messages: \<open>encode_field.c\<close>, \<open>format_hash_field_type.c\<close>, \<open>type_hash.c\<close>, \<open>schema_hash.c\<close> and
  \<open>value_hash.c\<close> of \<open>src/features/sign_message_eip712\<close>.

  A running hash is the sequence of the bytes it has absorbed.  Parameters (record \<open>eip712_env\<close>): the hash
  functions, whose calls may fail, and the sort of the SDK.  A function that hashes returns the hash or
  \<open>None\<close> for the result \<open>false\<close>, and the allocator; a fault is \<open>None\<close> around both.
\<close>

record eip712_env =
  ke_init :: bool
  ke_update_ok :: "bytes \<Rightarrow> bytes \<Rightarrow> bool"
  ke_final :: "bytes \<Rightarrow> bytes option"
  s2_init :: bool
  s2_update_ok :: "bytes \<Rightarrow> bytes \<Rightarrow> bool"
  s2_final :: "bytes \<Rightarrow> bytes option"
  flist_sort :: "(nat \<Rightarrow> nat \<Rightarrow> bool) \<Rightarrow> nat list \<Rightarrow> nat list"

type_synonym hashing = "(bytes option \<times> mem) option"

definition text_bytes :: "string \<Rightarrow> bytes" where
  "text_bytes t = map (\<lambda>c. word_of_nat (of_char c)) t"

definition hput :: "(bytes \<Rightarrow> bytes \<Rightarrow> bool) \<Rightarrow> bytes \<Rightarrow> bytes \<Rightarrow> mem \<Rightarrow> hashing" where
  "hput upd x h m = Some (if upd h x then Some (h @ x) else None, m)"

definition hbind :: "hashing \<Rightarrow> (bytes \<Rightarrow> mem \<Rightarrow> hashing) \<Rightarrow> hashing" where
  "hbind r k =
     (case r of
        None \<Rightarrow> None
      | Some (None, m) \<Rightarrow> Some (None, m)
      | Some (Some h, m) \<Rightarrow> k h m)"

definition hfinal :: "(bytes \<Rightarrow> bytes option) \<Rightarrow> bytes \<Rightarrow> mem \<Rightarrow> hashing" where
  "hfinal fin h m = Some (fin h, m)"

section \<open>Fields\<close>

definition EIP_712_ENCODED_FIELD_LENGTH :: nat where "EIP_712_ENCODED_FIELD_LENGTH = 32"

datatype e_padding_type = MSB | LSB

definition field_encode :: "bytes \<Rightarrow> e_padding_type \<Rightarrow> uint8 \<Rightarrow> mem \<Rightarrow> bytes option \<times> mem" where
  "field_encode x ptype pval m =
     (if EIP_712_ENCODED_FIELD_LENGTH < length x then (None, m)
      else (case mem_alloc m of
              (False, m) \<Rightarrow> (None, m)
            | (True, m) \<Rightarrow>
                (let pad = EIP_712_ENCODED_FIELD_LENGTH - length x
                 in (Some (case ptype of MSB \<Rightarrow> replicate pad pval @ x | LSB \<Rightarrow> x @ replicate pad 0), m))))"

definition encode_uint :: "bytes \<Rightarrow> mem \<Rightarrow> bytes option \<times> mem" where
  "encode_uint x m = field_encode x MSB 0 m"

definition encode_int :: "bytes \<Rightarrow> uint8 \<Rightarrow> mem \<Rightarrow> bytes option \<times> mem" where
  "encode_int x typesize m =
     (if length x < 1 then (None, m)
      else field_encode x MSB (if length x = unat typesize \<and> hd x AND 0x80 \<noteq> 0 then 0xFF else 0) m)"

definition encode_bytes :: "bytes \<Rightarrow> mem \<Rightarrow> bytes option \<times> mem" where
  "encode_bytes x m = field_encode x LSB 0 m"

definition encode_boolean :: "bytes \<Rightarrow> mem \<Rightarrow> bytes option \<times> mem" where
  "encode_boolean x m =
     (if length x \<noteq> 1 then (None, m) else if 1 < hd x then (None, m) else encode_uint x m)"

definition encode_address :: "bytes \<Rightarrow> mem \<Rightarrow> bytes option \<times> mem" where
  "encode_address x m = (if length x \<noteq> ADDRESS_LENGTH then (None, m) else encode_uint x m)"

section \<open>The type of a field as text\<close>

definition hput_uint :: "(bytes \<Rightarrow> bytes \<Rightarrow> bool) \<Rightarrow> nat \<Rightarrow> bytes \<Rightarrow> mem \<Rightarrow> hashing" where
  "hput_uint upd n h m =
     (case mem_alloc m of
        (False, m) \<Rightarrow> Some (None, m)
      | (True, m) \<Rightarrow> hput upd (text_bytes (digit_str 10 n)) h (mem_free m))"

definition format_hash_field_type_size :: "(bytes \<Rightarrow> bytes \<Rightarrow> bool) \<Rightarrow> s_struct_712_field \<Rightarrow> bytes \<Rightarrow> mem \<Rightarrow> hashing" where
  "format_hash_field_type_size upd f h m =
     (let field_size = (ucast (type_size f) :: uint16)
      in case field_type f of
           TYPE_SOL_INT \<Rightarrow> hput_uint upd (unat (field_size * 8)) h m
         | TYPE_SOL_UINT \<Rightarrow> hput_uint upd (unat (field_size * 8)) h m
         | TYPE_SOL_BYTES_FIX \<Rightarrow> hput_uint upd (unat field_size) h m
         | _ \<Rightarrow> Some (None, m))"

fun format_level :: "(bytes \<Rightarrow> bytes \<Rightarrow> bool) \<Rightarrow> s_struct_712_field_array_level \<Rightarrow> bytes \<Rightarrow> mem \<Rightarrow> hashing" where
  "format_level upd l h m =
     hbind (hput upd (text_bytes ''['') h m) (\<lambda>h m.
     hbind (case level_type l of ARRAY_DYNAMIC \<Rightarrow> Some (Some h, m) | ARRAY_FIXED_SIZE \<Rightarrow> hput_uint upd (unat (level_size l)) h m) (\<lambda>h m.
     hput upd (text_bytes '']'') h m))"

fun format_levels :: "(bytes \<Rightarrow> bytes \<Rightarrow> bool) \<Rightarrow> s_struct_712_field_array_level list \<Rightarrow> nat list \<Rightarrow> bytes \<Rightarrow> mem \<Rightarrow> hashing" where
  "format_levels upd ls [] h m = Some (Some h, m)"
| "format_levels upd ls (i # is) h m = do {
     l \<leftarrow> rd ls i;
     hbind (format_level upd l h m) (format_levels upd ls is) }"

definition format_hash_field_type_array_levels :: "(bytes \<Rightarrow> bytes \<Rightarrow> bool) \<Rightarrow> s_struct_712_field \<Rightarrow> bytes \<Rightarrow> mem \<Rightarrow> hashing" where
  "format_hash_field_type_array_levels upd f h m = do {
     ls \<leftarrow> array_levels f;
     format_levels upd ls [0..<unat (array_level_count f)] h m }"

definition format_hash_field_type :: "(bytes \<Rightarrow> bytes \<Rightarrow> bool) \<Rightarrow> s_struct_712_field \<Rightarrow> bytes \<Rightarrow> mem \<Rightarrow> hashing" where
  "format_hash_field_type upd f h m =
     (case td_get_struct_field_typename f of
        None \<Rightarrow> Some (None, m)
      | Some name \<Rightarrow>
          hbind (hput upd (text_bytes name) h m) (\<lambda>h m.
          hbind (if field_type f \<in> {TYPE_SOL_INT, TYPE_SOL_UINT, TYPE_SOL_BYTES_FIX}
                 then format_hash_field_type_size upd f h m else Some (Some h, m)) (\<lambda>h m.
          if 0 < array_level_count f then format_hash_field_type_array_levels upd f h m else Some (Some h, m))))"

section \<open>The hash of a type\<close>

definition encode_and_hash_field :: "(bytes \<Rightarrow> bytes \<Rightarrow> bool) \<Rightarrow> bool \<Rightarrow> s_struct_712_field \<Rightarrow> bytes \<Rightarrow> mem \<Rightarrow> hashing" where
  "encode_and_hash_field upd first f h m =
     hbind (if \<not> first then hput upd (text_bytes '','') h m else Some (Some h, m)) (\<lambda>h m.
     hbind (format_hash_field_type upd f h m) (\<lambda>h m.
     hbind (hput upd (text_bytes '' '') h m) (\<lambda>h m. do {
       name \<leftarrow> key_name f;
       hput upd (text_bytes name) h m })))"

fun encode_and_hash_fields :: "(bytes \<Rightarrow> bytes \<Rightarrow> bool) \<Rightarrow> bool \<Rightarrow> s_struct_712_field list \<Rightarrow> bytes \<Rightarrow> mem \<Rightarrow> hashing" where
  "encode_and_hash_fields upd first [] h m = Some (Some h, m)"
| "encode_and_hash_fields upd first (f # fs) h m =
     hbind (encode_and_hash_field upd first f h m) (encode_and_hash_fields upd False fs)"

definition encode_and_hash_type :: "(bytes \<Rightarrow> bytes \<Rightarrow> bool) \<Rightarrow> s_struct_712 \<Rightarrow> bytes \<Rightarrow> mem \<Rightarrow> hashing" where
  "encode_and_hash_type upd d h m =
     hbind (hput upd (text_bytes (td_name d)) h m) (\<lambda>h m.
     hbind (hput upd (text_bytes ''('') h m) (\<lambda>h m.
     hbind (encode_and_hash_fields upd True (td_fields d) h m) (hput upd (text_bytes '')''))))"

definition add_dep_if_new :: "nat \<Rightarrow> nat list \<Rightarrow> mem \<Rightarrow> bool \<times> nat list \<times> mem" where
  "add_dep_if_new d deps m =
     (if d \<in> set deps then (True, deps, m)
      else (case mem_alloc m of (False, m) \<Rightarrow> (False, deps, m) | (True, m) \<Rightarrow> (True, deps @ [d], m)))"

definition collect_one_dep :: "s_struct_712 list \<Rightarrow> s_struct_712_field \<Rightarrow> nat list \<Rightarrow> mem \<Rightarrow> bool \<times> nat list \<times> mem" where
  "collect_one_dep ds f deps m =
     (if field_type f \<noteq> TYPE_STRUCT then (True, deps, m)
      else (case td_find_struct (td_get_struct_field_typename f) ds of
              None \<Rightarrow> (False, deps, m)
            | Some d \<Rightarrow> add_dep_if_new d deps m))"

fun collect_deps :: "s_struct_712 list \<Rightarrow> s_struct_712_field list \<Rightarrow> nat list \<Rightarrow> mem \<Rightarrow> bool \<times> nat list \<times> mem" where
  "collect_deps ds [] deps m = (True, deps, m)"
| "collect_deps ds (f # fs) deps m =
     (case collect_one_dep ds f deps m of
        (ok, deps, m) \<Rightarrow> if \<not> ok then (False, deps, m) else collect_deps ds fs deps m)"

definition collect_direct_deps :: "s_struct_712 list \<Rightarrow> nat \<Rightarrow> nat list \<Rightarrow> mem \<Rightarrow> (bool \<times> nat list \<times> mem) option" where
  "collect_direct_deps ds i deps m = do { d \<leftarrow> rd ds i; Some (collect_deps ds (td_fields d) deps m) }"

lemma index_from_Some: "index_from P n xs = Some i \<Longrightarrow> n \<le> i \<and> i < n + length xs \<and> P (xs ! (i - n)) \<and> (\<forall>j < i - n. \<not> P (xs ! j))"
proof (induction xs arbitrary: n)
  case (Cons x xs)
  show ?case
  proof (cases "P x")
    case False
    then have "index_from P (Suc n) xs = Some i" using Cons.prems by simp
    from Cons.IH [OF this] have ih: "Suc n \<le> i" "i < Suc n + length xs" "P (xs ! (i - Suc n))" "\<forall>j < i - Suc n. \<not> P (xs ! j)" by blast+
    then have d: "i - n = Suc (i - Suc n)" by simp
    show ?thesis using False ih unfolding d by (auto simp: nth_Cons split: nat.splits)
  qed (use Cons in auto)
qed simp

lemma index_from_None: "index_from P n xs = None \<longleftrightarrow> (\<forall>x \<in> set xs. \<not> P x)"
  by (induction xs arbitrary: n) auto

lemma td_find_struct_Some:
  "td_find_struct name ds = Some i \<Longrightarrow> i < length ds \<and> name = Some (td_name (ds ! i)) \<and> (\<forall>j < i. td_name (ds ! j) \<noteq> td_name (ds ! i))"
  by (auto simp: td_find_struct_def td_find_struct_if_def split: option.splits dest!: index_from_Some)

text \<open>The list of the dependencies only grows, by new definitions.\<close>

lemma collect_deps_new:
  assumes "collect_deps ds fs deps m = (ok, deps', m')"
  shows "\<exists>new. deps' = deps @ new \<and> distinct new \<and> set new \<subseteq> {..<length ds} - set deps \<and> live m' = live m + length new"
  using assms
proof (induction fs arbitrary: deps m)
  case (Cons f fs)
  obtain ok1 deps1 m1 where o: "collect_one_dep ds f deps m = (ok1, deps1, m1)" by (cases "collect_one_dep ds f deps m") auto
  have a: "\<exists>new. deps1 = deps @ new \<and> distinct new \<and> set new \<subseteq> {..<length ds} - set deps \<and> live m1 = live m + length new"
    using o td_find_struct_Some mem_alloc_live
    by (auto simp: collect_one_dep_def add_dep_if_new_def split: if_splits option.splits prod.splits bool.splits)
  show ?case
  proof (cases ok1)
    case True
    then have "collect_deps ds fs deps1 m1 = (ok, deps', m')" using Cons.prems o by simp
    from Cons.IH [OF this] a show ?thesis by fastforce
  next
    case False
    then show ?thesis using Cons.prems o a by simp
  qed
qed simp

text \<open>The list is its own worklist; the loop ends because every new entry is a definition that was not in it.\<close>

function deps_loop :: "s_struct_712 list \<Rightarrow> nat \<Rightarrow> nat list \<Rightarrow> mem \<Rightarrow> (bool \<times> nat list \<times> mem) option" where
  "deps_loop ds cursor deps m =
     (if length deps \<le> cursor then Some (True, deps, m)
      else (case collect_direct_deps ds (deps ! cursor) deps m of
              None \<Rightarrow> None
            | Some (False, deps, m) \<Rightarrow> Some (False, deps, m)
            | Some (True, deps, m) \<Rightarrow> deps_loop ds (Suc cursor) deps m))"
  by pat_completeness auto
termination
proof (relation "measure (\<lambda>(ds, cursor, deps, m). length deps - cursor + card ({..<length ds} - set deps))")
  fix ds :: "s_struct_712 list" and cursor deps m p b q deps' m'
  assume c: "\<not> length deps \<le> cursor" "collect_direct_deps ds (deps ! cursor) deps m = Some p" "(b, q) = p" "b = True" "(deps', m') = q"
  then obtain d :: s_struct_712 where "collect_deps ds (td_fields d) deps m = (True, deps', m')" by (auto simp: collect_direct_deps_def bind_eq_Some_conv)
  from collect_deps_new [OF this] obtain new where n: "deps' = deps @ new" "distinct new" "set new \<subseteq> {..<length ds} - set deps" by blast
  have "{..<length ds} - set deps' = ({..<length ds} - set deps) - set new" using n by auto
  then have "card ({..<length ds} - set deps') = card ({..<length ds} - set deps) - length new"
    using n by (simp add: card_Diff_subset distinct_card)
  moreover have "length new \<le> card ({..<length ds} - set deps)"
    using card_mono [OF _ n(3)] n(2) by (simp add: distinct_card)
  ultimately show "((ds, Suc cursor, deps', m'), ds, cursor, deps, m) \<in> measure (\<lambda>(ds, cursor, deps, m). length deps - cursor + card ({..<length ds} - set deps))"
    using c(1) n(1) by simp
qed simp

definition get_struct_dependencies :: "s_struct_712 list \<Rightarrow> nat \<Rightarrow> mem \<Rightarrow> (bool \<times> nat list \<times> mem) option" where
  "get_struct_dependencies ds i m = do {
     (ok, deps, m) \<leftarrow> collect_direct_deps ds i [] m;
     if \<not> ok then Some (False, deps, m) else deps_loop ds 0 deps m }"

text \<open>\<open>strncmp\<close>: the sign of the first difference of two names, as unsigned characters.\<close>

fun strncmp :: "nat \<Rightarrow> string \<Rightarrow> string \<Rightarrow> int" where
  "strncmp 0 xs ys = 0"
| "strncmp (Suc n) [] [] = 0"
| "strncmp (Suc n) [] (y # ys) = - 1"
| "strncmp (Suc n) (x # xs) [] = 1"
| "strncmp (Suc n) (x # xs) (y # ys) =
     (if x = y then strncmp n xs ys else if (of_char x :: nat) < of_char y then - 1 else 1)"

lemma strncmp_code [code]:
  "strncmp n xs ys =
     (if n = 0 then 0
      else case xs of
        [] \<Rightarrow> (case ys of [] \<Rightarrow> 0 | y # ys' \<Rightarrow> - 1)
      | x # xs' \<Rightarrow>
          (case ys of
             [] \<Rightarrow> 1
           | y # ys' \<Rightarrow> if x = y then strncmp (n - 1) xs' ys' else if (of_char x :: nat) < of_char y then - 1 else 1))"
  by (cases n; cases xs; cases ys) simp_all

definition name_le :: "string \<Rightarrow> string \<Rightarrow> bool" where
  "name_le name1 name2 =
     (let r = strncmp (min (length name1) (length name2)) name1 name2
      in \<not> (0 < r \<or> r = 0 \<and> length name2 < length name1))"

definition compare_struct_deps :: "s_struct_712 list \<Rightarrow> nat \<Rightarrow> nat \<Rightarrow> bool" where
  "compare_struct_deps ds a b = name_le (td_name (ds ! a)) (td_name (ds ! b))"

fun hash_types :: "(bytes \<Rightarrow> bytes \<Rightarrow> bool) \<Rightarrow> s_struct_712 list \<Rightarrow> nat \<Rightarrow> nat list \<Rightarrow> bytes \<Rightarrow> mem \<Rightarrow> hashing" where
  "hash_types upd ds i [] h m = Some (Some h, m)"
| "hash_types upd ds i (d # deps) h m =
     (if d = i then hash_types upd ds i deps h m
      else do { x \<leftarrow> rd ds d; hbind (encode_and_hash_type upd x h m) (hash_types upd ds i deps) })"

text \<open>The dependencies are freed whatever happens.\<close>

definition type_hash :: "eip712_env \<Rightarrow> s_struct_712 list \<Rightarrow> string \<Rightarrow> mem \<Rightarrow> hashing" where
  "type_hash E ds name m =
     (case td_find_struct (Some name) ds of
        None \<Rightarrow> Some (None, m)
      | Some i \<Rightarrow>
          if \<not> ke_init E then Some (None, m)
          else do {
            (ok, deps, m) \<leftarrow> get_struct_dependencies ds i m;
            (r, m) \<leftarrow> (if \<not> ok then Some (None, m)
                       else do {
                         d \<leftarrow> rd ds i;
                         hbind (encode_and_hash_type (ke_update_ok E) d [] m) (\<lambda>h m.
                         hbind (hash_types (ke_update_ok E) ds i (flist_sort E (compare_struct_deps ds) deps) h m) (hfinal (ke_final E))) });
            Some (r, (mem_free ^^ length deps) m) })"

section \<open>The hash of the schema\<close>

definition compute_schema_hash_struct_field :: "(bytes \<Rightarrow> bytes \<Rightarrow> bool) \<Rightarrow> bool \<Rightarrow> s_struct_712_field \<Rightarrow> bytes \<Rightarrow> mem \<Rightarrow> hashing" where
  "compute_schema_hash_struct_field upd first f h m =
     hbind (if \<not> first then hput upd (text_bytes '','') h m else Some (Some h, m)) (\<lambda>h m.
     hbind (hput upd (text_bytes (''{'' @ [CHR 0x22] @ ''name'' @ [CHR 0x22] @ '':'' @ [CHR 0x22])) h m) (\<lambda>h m. do {
       name \<leftarrow> key_name f;
       hbind (hput upd (text_bytes name) h m) (\<lambda>h m.
       hbind (hput upd (text_bytes ([CHR 0x22] @ '','' @ [CHR 0x22] @ ''type'' @ [CHR 0x22] @ '':'' @ [CHR 0x22])) h m) (\<lambda>h m.
       hbind (format_hash_field_type upd f h m) (hput upd (text_bytes ([CHR 0x22] @ ''}''))))) }))"

fun compute_schema_hash_fields :: "(bytes \<Rightarrow> bytes \<Rightarrow> bool) \<Rightarrow> bool \<Rightarrow> s_struct_712_field list \<Rightarrow> bytes \<Rightarrow> mem \<Rightarrow> hashing" where
  "compute_schema_hash_fields upd first [] h m = Some (Some h, m)"
| "compute_schema_hash_fields upd first (f # fs) h m =
     hbind (compute_schema_hash_struct_field upd first f h m) (compute_schema_hash_fields upd False fs)"

definition compute_schema_hash_struct :: "(bytes \<Rightarrow> bytes \<Rightarrow> bool) \<Rightarrow> bool \<Rightarrow> s_struct_712 \<Rightarrow> bytes \<Rightarrow> mem \<Rightarrow> hashing" where
  "compute_schema_hash_struct upd first d h m =
     hbind (if \<not> first then hput upd (text_bytes '','') h m else Some (Some h, m)) (\<lambda>h m.
     hbind (hput upd (text_bytes [CHR 0x22]) h m) (\<lambda>h m.
     hbind (hput upd (text_bytes (td_name d)) h m) (\<lambda>h m.
     hbind (hput upd (text_bytes ([CHR 0x22] @ '':['')) h m) (\<lambda>h m.
     hbind (compute_schema_hash_fields upd True (td_fields d) h m) (hput upd (text_bytes '']''))))))"

fun compute_schema_hash_structs :: "(bytes \<Rightarrow> bytes \<Rightarrow> bool) \<Rightarrow> bool \<Rightarrow> s_struct_712 list \<Rightarrow> bytes \<Rightarrow> mem \<Rightarrow> hashing" where
  "compute_schema_hash_structs upd first [] h m = Some (Some h, m)"
| "compute_schema_hash_structs upd first (d # ds) h m =
     hbind (compute_schema_hash_struct upd first d h m) (compute_schema_hash_structs upd False ds)"

definition compute_schema_hash :: "eip712_env \<Rightarrow> s_struct_712 list \<Rightarrow> mem \<Rightarrow> hashing" where
  "compute_schema_hash E ds m =
     (if \<not> s2_init E then Some (None, m)
      else
        hbind (hput (s2_update_ok E) (text_bytes ''{'') [] m) (\<lambda>h m.
        hbind (compute_schema_hash_structs (s2_update_ok E) True ds h m) (\<lambda>h m.
        hbind (hput (s2_update_ok E) (text_bytes ''}'') h m) (hfinal (s2_final E)))))"

section \<open>The hash of a value\<close>

text \<open>An encoded field is freed once it is copied.\<close>

definition encode_static :: "s_struct_712_field \<Rightarrow> bytes \<Rightarrow> mem \<Rightarrow> bytes option \<times> mem" where
  "encode_static f data m =
     (case field_type f of
        TYPE_SOL_UINT \<Rightarrow> encode_uint data m
      | TYPE_SOL_INT \<Rightarrow> encode_int data (type_size f) m
      | TYPE_SOL_BYTES_FIX \<Rightarrow> encode_bytes data m
      | TYPE_SOL_ADDRESS \<Rightarrow> encode_address data m
      | TYPE_SOL_BOOL \<Rightarrow> encode_boolean data m
      | _ \<Rightarrow> (None, m))"

definition encode_atomic :: "eip712_env \<Rightarrow> s_struct_712 list \<Rightarrow> field_ref \<Rightarrow> bytes \<Rightarrow> mem \<Rightarrow> hashing" where
  "encode_atomic E ds r data m = do {
     f \<leftarrow> field_at ds r;
     if IS_DYN (field_type f) then
       (if \<not> ke_init E then Some (None, m)
        else hbind (hput (ke_update_ok E) data [] m) (hfinal (ke_final E)))
     else
       (case encode_static f data m of
          (None, m) \<Rightarrow> Some (None, m)
        | (Some x, m) \<Rightarrow> Some (Some x, mem_free m)) }"

definition child_digest ::
  "eip712_env \<Rightarrow> s_struct_712 list \<Rightarrow> s_struct_712_value \<Rightarrow> bytes list \<Rightarrow> mem \<Rightarrow> (bytes option \<times> bytes list \<times> mem) option" where
  "child_digest E ds child cursor m =
     (case child of
        VAL_ATOMIC r bs \<Rightarrow> do { (x, m) \<leftarrow> encode_atomic E ds r bs m; Some (x, cursor, m) }
      | _ \<Rightarrow> Some (case cursor of [] \<Rightarrow> (None, [], m) | d # ds \<Rightarrow> (Some d, ds, m)))"

fun hash_children ::
  "eip712_env \<Rightarrow> s_struct_712 list \<Rightarrow> s_struct_712_value list \<Rightarrow> bytes list \<Rightarrow> bytes \<Rightarrow> mem \<Rightarrow> hashing" where
  "hash_children E ds [] cursor h m = Some (Some h, m)"
| "hash_children E ds (c # cs) cursor h m = do {
     (x, cursor, m) \<leftarrow> child_digest E ds c cursor m;
     (case x of
        None \<Rightarrow> Some (None, m)
      | Some x \<Rightarrow> hbind (hput (ke_update_ok E) x h m) (hash_children E ds cs cursor)) }"

definition hash_array :: "eip712_env \<Rightarrow> s_struct_712 list \<Rightarrow> s_struct_712_value list \<Rightarrow> bytes list \<Rightarrow> mem \<Rightarrow> hashing" where
  "hash_array E ds cs digests m =
     (if \<not> ke_init E then Some (None, m)
      else hbind (hash_children E ds cs digests [] m) (hfinal (ke_final E)))"

definition hash_struct :: "eip712_env \<Rightarrow> s_struct_712 list \<Rightarrow> nat \<Rightarrow> s_struct_712_value list \<Rightarrow> bytes list \<Rightarrow> mem \<Rightarrow> hashing" where
  "hash_struct E ds i cs digests m = do {
     d \<leftarrow> rd ds i;
     hbind (type_hash E ds (td_name d) m) (\<lambda>t m.
       if \<not> ke_init E then Some (None, m)
       else hbind (hput (ke_update_ok E) t [] m) (\<lambda>h m.
            hbind (hash_children E ds cs digests h m) (hfinal (ke_final E)))) }"

text \<open>The digests of the containers among the children come first; each has a node of its own, also the one
  whose hash fails.\<close>

fun hash_value :: "eip712_env \<Rightarrow> s_struct_712 list \<Rightarrow> nat \<Rightarrow> s_struct_712_value \<Rightarrow> mem \<Rightarrow> hashing"
  and hash_containers ::
    "eip712_env \<Rightarrow> s_struct_712 list \<Rightarrow> nat \<Rightarrow> s_struct_712_value list \<Rightarrow> bytes list \<Rightarrow> mem \<Rightarrow> (bool \<times> bytes list \<times> mem) option" where
  "hash_value E ds depth (VAL_ATOMIC r bs) m = Some (None, m)"
| "hash_value E ds depth (VAL_STRUCT i cs) m =
     (if TD_MAX_DEPTH \<le> depth then Some (None, m)
      else do {
        (ok, digests, m) \<leftarrow> hash_containers E ds (Suc depth) cs [] m;
        (r, m) \<leftarrow> (if \<not> ok then Some (None, m) else hash_struct E ds i cs digests m);
        Some (r, (mem_free ^^ length digests) m) })"
| "hash_value E ds depth (VAL_ARRAY r cs) m =
     (if TD_MAX_DEPTH \<le> depth then Some (None, m)
      else do {
        (ok, digests, m) \<leftarrow> hash_containers E ds (Suc depth) cs [] m;
        (r, m) \<leftarrow> (if \<not> ok then Some (None, m) else hash_array E ds cs digests m);
        Some (r, (mem_free ^^ length digests) m) })"
| "hash_containers E ds depth [] digests m = Some (True, digests, m)"
| "hash_containers E ds depth (c # cs) digests m =
     (case c of
        VAL_ATOMIC r bs \<Rightarrow> hash_containers E ds depth cs digests m
      | _ \<Rightarrow>
          (case mem_alloc m of
             (False, m) \<Rightarrow> Some (False, digests, m)
           | (True, m) \<Rightarrow> do {
               (x, m) \<leftarrow> hash_value E ds depth c m;
               (case x of
                  None \<Rightarrow> Some (False, digests @ [[]], m)
                | Some x \<Rightarrow> hash_containers E ds depth cs (digests @ [x]) m) }))"

record hashes_712 =
  domainHash :: bytes
  messageHash :: bytes

definition value_hash_pass :: "eip712_env \<Rightarrow> 'a typed_data_scheme \<Rightarrow> hashes_712 \<Rightarrow> (bool \<times> 'a typed_data_scheme \<times> hashes_712) option" where
  "value_hash_pass E s t =
     (case td_domain s of
        None \<Rightarrow> Some (False, s, t)
      | Some d \<Rightarrow> do {
          (h, m) \<leftarrow> hash_value E (g_structs s) 0 d (td_mem s);
          let s = s\<lparr>td_mem := m\<rparr>;
          (case h of
             None \<Rightarrow> Some (False, s, t)
           | Some h \<Rightarrow>
               (let t = t\<lparr>domainHash := h\<rparr>
                in case td_message s of
                     None \<Rightarrow> Some (False, s, t)
                   | Some v \<Rightarrow> do {
                       (h, m) \<leftarrow> hash_value E (g_structs s) 0 v (td_mem s);
                       let s = s\<lparr>td_mem := m\<rparr>;
                       Some (case h of None \<Rightarrow> (False, s, t) | Some h \<Rightarrow> (True, s, t\<lparr>messageHash := h\<rparr>)) })) })"

text \<open>What the user signs in the end.\<close>

definition eip712_digest_input :: "hashes_712 \<Rightarrow> bytes" where
  "eip712_digest_input t = [0x19, 0x01] @ domainHash t @ messageHash t"

end
