(* ===== verification/Eip712_Ui.thy ===== *)
theory Eip712_Ui
  imports Eip712_Parse Eip712_Hash Calldata
begin

text \<open>
  Model of the state behind the review of an EIP-712 message, in \<open>eip712_v1_ui_logic.c\<close> of
  \<open>src/features/sign_message_eip712\<close>, and of the context of \<open>eip712_v1_context.c\<close>: the flags of the current field, the paths
  of the filters, the joins of tokens and amounts, the nested transactions, the pairs on the screen.

  Parameters (record \<open>eip712_platform\<close>): the cryptography, the texts that the formatters produce, the settings,
  whether a review can start, and what the nested transactions answer.  An operation on a null context is a fault.
\<close>

section \<open>State\<close>

datatype e_eip712_filtering_mode = EIP712_FILTERING_BASIC | EIP712_FILTERING_FULL

datatype e_amount_join_state = AMOUNT_JOIN_STATE_TOKEN | AMOUNT_JOIN_STATE_VALUE

record s_amount_join =
  aj_name :: string
  aj_flags :: uint8
  aj_id :: uint8
  aj_address :: bytes
  aj_value :: bytes

definition AMOUNT_JOIN_FLAG_TOKEN :: uint8 where "AMOUNT_JOIN_FLAG_TOKEN = 1"
definition AMOUNT_JOIN_FLAG_VALUE :: uint8 where "AMOUNT_JOIN_FLAG_VALUE = 2"
definition AMOUNT_JOIN_NAME_LENGTH :: nat where "AMOUNT_JOIN_NAME_LENGTH = 25"

datatype e_eip712_calldata_state =
    EIP712_CALLDATA_VALUE
  | EIP712_CALLDATA_CALLEE
  | EIP712_CALLDATA_CHAIN_ID
  | EIP712_CALLDATA_SELECTOR
  | EIP712_CALLDATA_AMOUNT
  | EIP712_CALLDATA_SPENDER

datatype e_calldata_info_param_state = CALLDATA_INFO_PARAM_NONE | CALLDATA_INFO_PARAM_UNSET | CALLDATA_INFO_PARAM_SET

record s_eip712_calldata_info =
  ci_index :: uint8
  ci_state :: e_eip712_calldata_state
  value_state :: e_calldata_info_param_state
  callee_state :: e_calldata_info_param_state
  chain_id_state :: e_calldata_info_param_state
  selector_state :: e_calldata_info_param_state
  amount_state :: e_calldata_info_param_state
  spender_state :: e_calldata_info_param_state
  ci_processed :: bool
  ci_callee :: bytes
  ci_chain_id :: uint64
  ci_selector :: bytes
  ci_amount :: bytes
  ci_spender :: bytes

definition calldata_info_zero :: s_eip712_calldata_info where
  "calldata_info_zero = \<lparr>ci_index = 0, ci_state = EIP712_CALLDATA_VALUE, value_state = CALLDATA_INFO_PARAM_NONE,
     callee_state = CALLDATA_INFO_PARAM_NONE, chain_id_state = CALLDATA_INFO_PARAM_NONE, selector_state = CALLDATA_INFO_PARAM_NONE,
     amount_state = CALLDATA_INFO_PARAM_NONE, spender_state = CALLDATA_INFO_PARAM_NONE, ci_processed = False,
     ci_callee = replicate ADDRESS_LENGTH 0, ci_chain_id = 0, ci_selector = replicate CALLDATA_SELECTOR_SIZE 0,
     ci_amount = replicate 32 0, ci_spender = replicate ADDRESS_LENGTH 0\<rparr>"

record s_ui_712_pair =
  pair_key :: "string option"
  pair_value :: "string option"
  pair_start_intent :: bool
  pair_end_intent :: bool

definition UI_712_FIELD_SHOWN :: uint8 where "UI_712_FIELD_SHOWN = 1"
definition UI_712_FIELD_NAME_PROVIDED :: uint8 where "UI_712_FIELD_NAME_PROVIDED = 2"
definition UI_712_AMOUNT_JOIN :: uint8 where "UI_712_AMOUNT_JOIN = 4"
definition UI_712_DATETIME :: uint8 where "UI_712_DATETIME = 8"
definition UI_712_TRUSTED_NAME :: uint8 where "UI_712_TRUSTED_NAME = 16"
definition UI_712_CALLDATA :: uint8 where "UI_712_CALLDATA = 32"

record t_ui_context =
  end_reached :: bool
  filtering_mode :: e_eip712_filtering_mode
  filters_to_process :: uint8
  message_info_received :: bool
  field_flags :: uint8
  amount_joins :: "s_amount_join list"
  amount_current_id :: uint8
  amount_join_state :: e_amount_join_state
  filters_crc :: "uint32 list"
  unfiltered_crc :: "uint32 list"
  discarded_path :: "string option"
  tn_types :: bytes
  tn_sources :: bytes
  ui_pairs :: "s_ui_712_pair list"
  calldata_infos :: "s_eip712_calldata_info list"
  calldata_index :: uint8
  filtering_broken :: bool

definition ui_context_zero :: t_ui_context where
  "ui_context_zero = \<lparr>end_reached = False, filtering_mode = EIP712_FILTERING_BASIC, filters_to_process = 0, message_info_received = False,
     field_flags = 0, amount_joins = [], amount_current_id = 0, amount_join_state = AMOUNT_JOIN_STATE_TOKEN, filters_crc = [],
     unfiltered_crc = [], discarded_path = None, tn_types = [], tn_sources = [], ui_pairs = [], calldata_infos = [],
     calldata_index = 0, filtering_broken = False\<rparr>"

record s_eip712_v1_context =
  schema_hash :: bytes
  sign_claimed :: bool

text \<open>The descriptor of a proxy that \<open>proxy_info.c\<close> keeps.\<close>

record s_proxy_info =
  px_chain_id :: uint64
  px_address :: bytes
  px_selector :: "bytes option"
  px_implem_address :: bytes

record eip712_state =
  parse :: eip712_parse
  ui_ctx :: "t_ui_context option"
  eip712_v1_context :: "s_eip712_v1_context option"
  appState712 :: app_state
  hashes712 :: hashes_712
  parked712 :: "s_calldata option"
  g_proxy_info :: "s_proxy_info option"

type_synonym ui_result = "(bool \<times> eip712_state) option"

record eip712_platform =
  crypto :: eip712_env
  crc32_update :: "uint32 \<Rightarrow> bytes \<Rightarrow> uint32"
  pki_check :: "bytes \<Rightarrow> bytes \<Rightarrow> bool"
  own_address :: bytes
  screen_size_wallet :: bool
  verbose_eip712 :: bool
  dataAllowed :: bool
  displayHash :: bool
  own_chain :: uint64
  network_text :: "uint64 \<Rightarrow> string option"
  leaf_text :: "s_struct_712_field \<Rightarrow> bytes \<Rightarrow> string option"
  amount_text :: "uint64 \<Rightarrow> s_amount_join \<Rightarrow> string option"
  date_text :: "s_struct_712_field \<Rightarrow> bytes \<Rightarrow> string option"
  name_text :: "bytes \<Rightarrow> bytes \<Rightarrow> uint64 \<Rightarrow> bytes \<Rightarrow> string option"
  instruction_ends :: bool
  review_starts :: bool
  empty_call_shown :: "s_eip712_calldata_info \<Rightarrow> bool"
  nested_tx_starts :: "s_calldata \<Rightarrow> s_eip712_calldata_info \<Rightarrow> bool"

definition ui_alloc :: "eip712_state \<Rightarrow> bool \<times> eip712_state" where
  "ui_alloc s = (case td_with_mem (parse s) of (ok, p) \<Rightarrow> (ok, s\<lparr>parse := p\<rparr>))"

definition ui_free :: "nat \<Rightarrow> eip712_state \<Rightarrow> eip712_state" where
  "ui_free n s = s\<lparr>parse := td_free n (parse s)\<rparr>"

definition ui_update :: "(t_ui_context \<Rightarrow> t_ui_context) \<Rightarrow> eip712_state \<Rightarrow> eip712_state option" where
  "ui_update g s = do { u \<leftarrow> ui_ctx s; Some (s\<lparr>ui_ctx := Some (g u)\<rparr>) }"

section \<open>Pairs\<close>

definition append_pair :: "s_ui_712_pair \<Rightarrow> eip712_state \<Rightarrow> eip712_state option" where
  "append_pair p s = ui_update (\<lambda>u. u\<lparr>ui_pairs := ui_pairs u @ [p]\<rparr>) s"

definition change_last_pair :: "(s_ui_712_pair \<Rightarrow> s_ui_712_pair) \<Rightarrow> eip712_state \<Rightarrow> eip712_state option" where
  "change_last_pair g s = ui_update (\<lambda>u. u\<lparr>ui_pairs := butlast (ui_pairs u) @ [g (last (ui_pairs u))]\<rparr>) s"

definition ui_712_set_intent :: "eip712_state \<Rightarrow> ui_result" where
  "ui_712_set_intent s =
     (case ui_alloc s of
        (False, s) \<Rightarrow> Some (False, s)
      | (True, s) \<Rightarrow> do {
          s \<leftarrow> append_pair \<lparr>pair_key = None, pair_value = None, pair_start_intent = False, pair_end_intent = False\<rparr> s;
          (case ui_alloc s of
             (False, s) \<Rightarrow> Some (False, s)
           | (True, s) \<Rightarrow> do {
               s \<leftarrow> change_last_pair (\<lambda>p. p\<lparr>pair_key := Some ''Review transaction''\<rparr>) s;
               (case ui_alloc s of
                  (False, s) \<Rightarrow> Some (False, s)
                | (True, s) \<Rightarrow> do {
                    s \<leftarrow> change_last_pair (\<lambda>p. p\<lparr>pair_value := Some '''', pair_start_intent := True\<rparr>) s;
                    Some (True, s) }) }) })"

definition ui_712_set_title :: "string \<Rightarrow> eip712_state \<Rightarrow> ui_result" where
  "ui_712_set_title str s =
     (case ui_alloc s of
        (False, s) \<Rightarrow> Some (False, s)
      | (True, s) \<Rightarrow> do {
          s \<leftarrow> append_pair \<lparr>pair_key = None, pair_value = None, pair_start_intent = False, pair_end_intent = False\<rparr> s;
          (case ui_alloc s of
             (False, s) \<Rightarrow> Some (False, s)
           | (True, s) \<Rightarrow> do { s \<leftarrow> change_last_pair (\<lambda>p. p\<lparr>pair_key := Some str\<rparr>) s; Some (True, s) }) })"

definition ui_712_set_value :: "eip712_platform \<Rightarrow> string \<Rightarrow> eip712_state \<Rightarrow> ui_result" where
  "ui_712_set_value P str s = do {
     u \<leftarrow> ui_ctx s;
     if ui_pairs u = [] then Some (False, s)
     else if pair_value (last (ui_pairs u)) \<noteq> None then Some (False, s)
     else
       (case ui_alloc s of
          (False, s) \<Rightarrow> Some (False, s)
        | (True, s) \<Rightarrow> do {
            s \<leftarrow> change_last_pair (\<lambda>p. p\<lparr>pair_value := Some str, pair_end_intent := instruction_ends P\<rparr>) s;
            Some (True, s) }) }"

section \<open>Modes, flags and counters\<close>

definition ui_712_set_filtering_mode :: "e_eip712_filtering_mode \<Rightarrow> eip712_state \<Rightarrow> eip712_state option" where
  "ui_712_set_filtering_mode mode s = ui_update (\<lambda>u. u\<lparr>filtering_mode := mode\<rparr>) s"

definition ui_712_get_filtering_mode :: "eip712_state \<Rightarrow> e_eip712_filtering_mode" where
  "ui_712_get_filtering_mode s = (case ui_ctx s of None \<Rightarrow> EIP712_FILTERING_BASIC | Some u \<Rightarrow> filtering_mode u)"

definition ui_712_set_filters_count :: "uint8 \<Rightarrow> eip712_state \<Rightarrow> eip712_state option" where
  "ui_712_set_filters_count n s = ui_update (\<lambda>u. u\<lparr>filters_to_process := n, message_info_received := True\<rparr>) s"

text \<open>The difference is computed as an \<open>int\<close> and truncated.\<close>

definition ui_712_remaining_filters :: "eip712_state \<Rightarrow> uint8 option" where
  "ui_712_remaining_filters s = do { u \<leftarrow> ui_ctx s; Some (filters_to_process u - word_of_nat (length (filters_crc u))) }"

definition ui_712_message_info_received :: "eip712_state \<Rightarrow> bool option" where
  "ui_712_message_info_received s = map_option message_info_received (ui_ctx s)"

definition ui_712_field_flags_reset :: "eip712_state \<Rightarrow> eip712_state option" where
  "ui_712_field_flags_reset s = ui_update (\<lambda>u. u\<lparr>field_flags := 0\<rparr>) s"

definition ui_712_filtering_broken :: "eip712_state \<Rightarrow> bool" where
  "ui_712_filtering_broken s = (case ui_ctx s of None \<Rightarrow> False | Some u \<Rightarrow> filtering_broken u)"

definition ui_712_pending_amount_joins :: "eip712_state \<Rightarrow> bool" where
  "ui_712_pending_amount_joins s = (case ui_ctx s of None \<Rightarrow> False | Some u \<Rightarrow> amount_joins u \<noteq> [])"

definition flag_when :: "bool \<Rightarrow> uint8 \<Rightarrow> uint8" where
  "flag_when b flag = (if b then flag else 0)"

definition ui_712_flag_field :: "bool \<Rightarrow> bool \<Rightarrow> bool \<Rightarrow> bool \<Rightarrow> bool \<Rightarrow> bool \<Rightarrow> eip712_state \<Rightarrow> eip712_state option" where
  "ui_712_flag_field shown name_provided token_join datetime trusted_name calldata s =
     ui_update (\<lambda>u. u\<lparr>field_flags := field_flags u OR flag_when shown UI_712_FIELD_SHOWN OR
       flag_when name_provided UI_712_FIELD_NAME_PROVIDED OR flag_when token_join UI_712_AMOUNT_JOIN OR
       flag_when datetime UI_712_DATETIME OR flag_when trusted_name UI_712_TRUSTED_NAME OR flag_when calldata UI_712_CALLDATA\<rparr>) s"

definition ui_712_field_shown :: "eip712_platform \<Rightarrow> eip712_state \<Rightarrow> bool option" where
  "ui_712_field_shown P s = do {
     u \<leftarrow> ui_ctx s;
     Some (case filtering_mode u of
             EIP712_FILTERING_BASIC \<Rightarrow> screen_size_wallet P \<or> verbose_eip712 P \<or> v1_get_root_type (parse s) = ROOT_DOMAIN
           | EIP712_FILTERING_FULL \<Rightarrow> field_flags u AND UI_712_FIELD_SHOWN \<noteq> 0) }"

section \<open>Paths of filters\<close>

definition ui_712_push_new_filter_path :: "uint32 \<Rightarrow> eip712_state \<Rightarrow> ui_result" where
  "ui_712_push_new_filter_path path_crc s = do {
     u \<leftarrow> ui_ctx s;
     if path_crc \<in> set (filters_crc u) then Some (True, s)
     else if unat (filters_to_process u) \<le> unat (word_of_nat (length (filters_crc u)) :: uint8) then Some (False, s)
     else do {
       s \<leftarrow> ui_update (\<lambda>u. u\<lparr>filtering_broken := filtering_broken u \<or> path_crc \<in> set (unfiltered_crc u)\<rparr>) s;
       (case ui_alloc s of
          (False, s) \<Rightarrow> Some (False, s)
        | (True, s) \<Rightarrow> do {
            s \<leftarrow> ui_update (\<lambda>u. u\<lparr>filters_crc := filters_crc u @ [path_crc]\<rparr>) s;
            Some (True, s) }) } }"

text \<open>\<open>path\<close> is the result of \<open>filtering_compute_current_path_crc\<close> of \<open>Eip712_Filters\<close>.\<close>

definition check_field_filtering_at :: "uint32 option \<Rightarrow> eip712_state \<Rightarrow> eip712_state option" where
  "check_field_filtering_at path s = do {
     u \<leftarrow> ui_ctx s;
     (case path of
        None \<Rightarrow> ui_update (\<lambda>u. u\<lparr>filtering_broken := True\<rparr>) s
      | Some path_crc \<Rightarrow>
          if path_crc \<in> set (filters_crc u) then
            (if field_flags u = 0 then ui_update (\<lambda>u. u\<lparr>filtering_broken := True\<rparr>) s else Some s)
          else if field_flags u = 0 \<and> path_crc \<notin> set (unfiltered_crc u) then
            (case ui_alloc s of
               (False, s) \<Rightarrow> ui_update (\<lambda>u. u\<lparr>filtering_broken := True\<rparr>) s
             | (True, s) \<Rightarrow> ui_update (\<lambda>u. u\<lparr>unfiltered_crc := unfiltered_crc u @ [path_crc]\<rparr>) s)
          else Some s) }"

definition ui_712_set_discarded_path :: "bytes \<Rightarrow> eip712_state \<Rightarrow> ui_result" where
  "ui_712_set_discarded_path path s = do {
     u \<leftarrow> ui_ctx s;
     if discarded_path u \<noteq> None then Some (False, s)
     else
       (case ui_alloc s of
          (False, s) \<Rightarrow> Some (False, s)
        | (True, s) \<Rightarrow> do { s \<leftarrow> ui_update (\<lambda>u. u\<lparr>discarded_path := Some (buf_string path)\<rparr>) s; Some (True, s) }) }"

definition ui_712_get_discarded_path :: "eip712_state \<Rightarrow> string option option" where
  "ui_712_get_discarded_path s = map_option discarded_path (ui_ctx s)"

definition ui_712_clear_discarded_path :: "eip712_state \<Rightarrow> eip712_state option" where
  "ui_712_clear_discarded_path s = do {
     u \<leftarrow> ui_ctx s;
     ui_update (\<lambda>u. u\<lparr>discarded_path := None\<rparr>) (if discarded_path u = None then s else ui_free 1 s) }"

definition ui_712_set_trusted_name_requirements :: "bytes \<Rightarrow> bytes \<Rightarrow> eip712_state \<Rightarrow> eip712_state option" where
  "ui_712_set_trusted_name_requirements types sources s = ui_update (\<lambda>u. u\<lparr>tn_types := types, tn_sources := sources\<rparr>) s"

section \<open>Amounts\<close>

text \<open>The join with an identifier is created when it is first named; the result is its position.\<close>

definition get_amount_join :: "uint8 \<Rightarrow> eip712_state \<Rightarrow> (nat option \<times> eip712_state) option" where
  "get_amount_join i s = do {
     u \<leftarrow> ui_ctx s;
     (case index_from (\<lambda>j. aj_id j = i) 0 (amount_joins u) of
        Some n \<Rightarrow> Some (Some n, s)
      | None \<Rightarrow>
          (case ui_alloc s of
             (False, s) \<Rightarrow> Some (None, s)
           | (True, s) \<Rightarrow> do {
               s \<leftarrow> ui_update (\<lambda>u. u\<lparr>amount_joins := amount_joins u @
                      [\<lparr>aj_name = '''', aj_flags = 0, aj_id = i, aj_address = replicate ADDRESS_LENGTH 0, aj_value = replicate 32 0\<rparr>]\<rparr>) s;
               Some (Some (length (amount_joins u)), s) })) }"

definition join_at :: "nat \<Rightarrow> eip712_state \<Rightarrow> s_amount_join option" where
  "join_at n s = do { u \<leftarrow> ui_ctx s; rd (amount_joins u) n }"

definition set_join :: "nat \<Rightarrow> s_amount_join \<Rightarrow> eip712_state \<Rightarrow> eip712_state option" where
  "set_join n j s = ui_update (\<lambda>u. u\<lparr>amount_joins := (amount_joins u)[n := j]\<rparr>) s"

definition ui_712_set_amount_join_token_addr :: "bytes \<Rightarrow> eip712_state \<Rightarrow> ui_result" where
  "ui_712_set_amount_join_token_addr addr s = do {
     u \<leftarrow> ui_ctx s;
     (n, s) \<leftarrow> get_amount_join (amount_current_id u) s;
     (case n of
        None \<Rightarrow> Some (False, s)
      | Some n \<Rightarrow> do {
          j \<leftarrow> join_at n s;
          if aj_flags j AND AMOUNT_JOIN_FLAG_TOKEN \<noteq> 0 then Some (False, s)
          else do {
            s \<leftarrow> set_join n (j\<lparr>aj_address := addr, aj_flags := aj_flags j OR AMOUNT_JOIN_FLAG_TOKEN\<rparr>) s;
            Some (True, s) } }) }"

definition update_amount_join :: "nat \<Rightarrow> bytes \<Rightarrow> eip712_state \<Rightarrow> ui_result" where
  "update_amount_join n data s = do {
     u \<leftarrow> ui_ctx s;
     j \<leftarrow> join_at n s;
     (case amount_join_state u of
        AMOUNT_JOIN_STATE_TOKEN \<Rightarrow>
          if aj_flags j AND AMOUNT_JOIN_FLAG_TOKEN \<noteq> 0 \<or> ADDRESS_LENGTH < length data then Some (False, s)
          else do {
            a \<leftarrow> buf_shrink_expand (Some data) (length data) (aj_address j) ADDRESS_LENGTH;
            s \<leftarrow> set_join n (j\<lparr>aj_address := a, aj_flags := aj_flags j OR AMOUNT_JOIN_FLAG_TOKEN\<rparr>) s;
            Some (True, s) }
      | AMOUNT_JOIN_STATE_VALUE \<Rightarrow>
          if aj_flags j AND AMOUNT_JOIN_FLAG_VALUE \<noteq> 0 \<or> 32 < length data then Some (False, s)
          else do {
            v \<leftarrow> buf_shrink_expand (Some data) (length data) (aj_value j) 32;
            s \<leftarrow> set_join n (j\<lparr>aj_value := v, aj_flags := aj_flags j OR AMOUNT_JOIN_FLAG_VALUE\<rparr>) s;
            Some (True, s) }) }"

definition ui_712_token_join_prepare_addr_check :: "uint8 \<Rightarrow> eip712_state \<Rightarrow> eip712_state option" where
  "ui_712_token_join_prepare_addr_check i s =
     ui_update (\<lambda>u. u\<lparr>amount_current_id := i, amount_join_state := AMOUNT_JOIN_STATE_TOKEN\<rparr>) s"

definition ui_712_token_join_prepare_amount :: "uint8 \<Rightarrow> bytes \<Rightarrow> eip712_state \<Rightarrow> ui_result" where
  "ui_712_token_join_prepare_amount i name s = do {
     (n, s) \<leftarrow> get_amount_join i s;
     (case n of
        None \<Rightarrow> Some (False, s)
      | Some n \<Rightarrow> do {
          s \<leftarrow> ui_update (\<lambda>u. u\<lparr>amount_current_id := i, amount_join_state := AMOUNT_JOIN_STATE_VALUE\<rparr>) s;
          j \<leftarrow> join_at n s;
          s \<leftarrow> set_join n (j\<lparr>aj_name := buf_string (take AMOUNT_JOIN_NAME_LENGTH name)\<rparr>) s;
          Some (True, s) }) }"

text \<open>A join that is complete becomes a pair and leaves the list; its text is the value of the current field.\<close>

definition remove_at :: "nat \<Rightarrow> 'b list \<Rightarrow> 'b list" where
  "remove_at n xs = take n xs @ drop (Suc n) xs"

definition ui_712_format_amount_join :: "eip712_platform \<Rightarrow> nat \<Rightarrow> eip712_state \<Rightarrow> (string option \<times> eip712_state) option" where
  "ui_712_format_amount_join P n s = do {
     j \<leftarrow> join_at n s;
     chain \<leftarrow> td_get_domain_chain_id (parse s);
     (case chain of
        None \<Rightarrow> Some (None, s)
      | Some c \<Rightarrow>
          (case amount_text P c j of
             None \<Rightarrow> Some (None, s)
           | Some t \<Rightarrow> do {
               s \<leftarrow> ui_update (\<lambda>u. u\<lparr>field_flags := field_flags u OR UI_712_FIELD_SHOWN\<rparr>) s;
               (ok, s) \<leftarrow> ui_712_set_title (aj_name j) s;
               if \<not> ok then Some (None, s)
               else do {
                 s \<leftarrow> ui_update (\<lambda>u. u\<lparr>amount_joins := remove_at n (amount_joins u)\<rparr>) s;
                 Some (Some t, ui_free 1 s) } })) }"

section \<open>Nested transactions\<close>

definition add_calldata_info :: "s_eip712_calldata_info \<Rightarrow> eip712_state \<Rightarrow> eip712_state option" where
  "add_calldata_info i s = ui_update (\<lambda>u. u\<lparr>calldata_infos := calldata_infos u @ [i]\<rparr>) s"

definition get_calldata_info :: "uint8 \<Rightarrow> t_ui_context \<Rightarrow> nat option" where
  "get_calldata_info i u = index_from (\<lambda>c. ci_index c = i) 0 (calldata_infos u)"

definition all_calldata_info_processed :: "eip712_state \<Rightarrow> bool option" where
  "all_calldata_info_processed s = do { u \<leftarrow> ui_ctx s; Some (list_all ci_processed (calldata_infos u)) }"

definition calldata_info_set_state :: "uint8 \<Rightarrow> e_eip712_calldata_state \<Rightarrow> eip712_state \<Rightarrow> eip712_state option" where
  "calldata_info_set_state i st s =
     ui_update (\<lambda>u. u\<lparr>calldata_index := i,
       calldata_infos := (case get_calldata_info i u of
          None \<Rightarrow> calldata_infos u
        | Some n \<Rightarrow> (calldata_infos u)[n := (calldata_infos u ! n)\<lparr>ci_state := st\<rparr>])\<rparr>) s"

definition calldata_info_all_received :: "s_eip712_calldata_info \<Rightarrow> bool" where
  "calldata_info_all_received c \<longleftrightarrow> value_state c = CALLDATA_INFO_PARAM_SET \<and> callee_state c = CALLDATA_INFO_PARAM_SET \<and>
     chain_id_state c \<noteq> CALLDATA_INFO_PARAM_UNSET \<and> selector_state c \<noteq> CALLDATA_INFO_PARAM_UNSET \<and>
     amount_state c \<noteq> CALLDATA_INFO_PARAM_UNSET \<and> spender_state c \<noteq> CALLDATA_INFO_PARAM_UNSET"

text \<open>The parts of a nested transaction; \<open>complete\<close> is the length of the whole in the first chunk.\<close>

definition calldata_put :: "bytes \<Rightarrow> s_eip712_calldata_info \<Rightarrow> eip712_state \<Rightarrow> (bool \<times> s_eip712_calldata_info \<times> eip712_state) option" where
  "calldata_put data c s =
     (case parked712 s of
        None \<Rightarrow> Some (True, c\<lparr>ci_processed := True\<rparr>, s)
      | Some cd \<Rightarrow> do {
          (ok, cd, m) \<leftarrow> calldata_append (Some cd) (td_mem (parse s)) data (length data);
          Some (ok, c, s\<lparr>parked712 := cd, parse := (parse s)\<lparr>td_mem := m\<rparr>\<rparr>) })"

definition update_calldata_value ::
  "bytes \<Rightarrow> nat option \<Rightarrow> bool \<Rightarrow> s_eip712_calldata_info \<Rightarrow> eip712_state \<Rightarrow> (bool \<times> s_eip712_calldata_info \<times> eip712_state) option" where
  "update_calldata_value data complete is_last c s =
     (if value_state c \<noteq> CALLDATA_INFO_PARAM_UNSET then Some (False, c, s)
      else do {
        (ok, data, s) \<leftarrow>
          (case complete of
             None \<Rightarrow> Some (True, data, s)
           | Some n \<Rightarrow>
               if n = 0 \<and> selector_state c = CALLDATA_INFO_PARAM_NONE then Some (True, data, s)
               else if selector_state c = CALLDATA_INFO_PARAM_NONE \<and> (length data < CALLDATA_SELECTOR_SIZE \<or> n < CALLDATA_SELECTOR_SIZE)
               then Some (False, data, s)
               else
                 (let taken = (if selector_state c = CALLDATA_INFO_PARAM_NONE then CALLDATA_SELECTOR_SIZE else 0);
                      sel = (case selector_state c of
                               CALLDATA_INFO_PARAM_NONE \<Rightarrow> Some (take CALLDATA_SELECTOR_SIZE data)
                             | CALLDATA_INFO_PARAM_SET \<Rightarrow> Some (ci_selector c)
                             | CALLDATA_INFO_PARAM_UNSET \<Rightarrow> None)
                  in do {
                    (cd, m) \<leftarrow> calldata_init (n - taken) sel (td_mem (parse s));
                    Some (cd \<noteq> None, drop taken data, s\<lparr>parked712 := cd, parse := (parse s)\<lparr>td_mem := m\<rparr>\<rparr>) }));
        if \<not> ok then Some (False, c, s)
        else do {
          (ok, c, s) \<leftarrow> calldata_put data c s;
          if \<not> ok then Some (False, c, s)
          else Some (True, (if is_last then c\<lparr>value_state := CALLDATA_INFO_PARAM_SET\<rparr> else c), s) } })"

definition update_calldata_callee :: "bytes \<Rightarrow> s_eip712_calldata_info \<Rightarrow> (bool \<times> s_eip712_calldata_info) option" where
  "update_calldata_callee data c =
     (if callee_state c \<noteq> CALLDATA_INFO_PARAM_UNSET \<or> ADDRESS_LENGTH < length data then Some (False, c)
      else do {
        a \<leftarrow> buf_shrink_expand (Some data) (length data) (ci_callee c) ADDRESS_LENGTH;
        Some (True, c\<lparr>ci_callee := a, callee_state := CALLDATA_INFO_PARAM_SET\<rparr>) })"

definition update_calldata_chain_id :: "bytes \<Rightarrow> s_eip712_calldata_info \<Rightarrow> (bool \<times> s_eip712_calldata_info) option" where
  "update_calldata_chain_id data c =
     (if chain_id_state c \<noteq> CALLDATA_INFO_PARAM_UNSET \<or> 8 < length data then Some (False, c)
      else do {
        a \<leftarrow> buf_shrink_expand (Some data) (length data) (replicate 8 0) 8;
        n \<leftarrow> read_u64_be a 0;
        Some (True, c\<lparr>ci_chain_id := n, chain_id_state := CALLDATA_INFO_PARAM_SET\<rparr>) })"

definition update_calldata_amount :: "bytes \<Rightarrow> s_eip712_calldata_info \<Rightarrow> (bool \<times> s_eip712_calldata_info) option" where
  "update_calldata_amount data c =
     (if amount_state c \<noteq> CALLDATA_INFO_PARAM_UNSET \<or> 32 < length data then Some (False, c)
      else do {
        a \<leftarrow> buf_shrink_expand (Some data) (length data) (ci_amount c) 32;
        Some (True, c\<lparr>ci_amount := a, amount_state := CALLDATA_INFO_PARAM_SET\<rparr>) })"

definition update_calldata_spender :: "bytes \<Rightarrow> s_eip712_calldata_info \<Rightarrow> (bool \<times> s_eip712_calldata_info) option" where
  "update_calldata_spender data c =
     (if spender_state c \<noteq> CALLDATA_INFO_PARAM_UNSET \<or> ADDRESS_LENGTH < length data then Some (False, c)
      else do {
        a \<leftarrow> buf_shrink_expand (Some data) (length data) (ci_spender c) ADDRESS_LENGTH;
        Some (True, c\<lparr>ci_spender := a, spender_state := CALLDATA_INFO_PARAM_SET\<rparr>) })"

definition update_calldata_selector ::
  "bytes \<Rightarrow> s_eip712_calldata_info \<Rightarrow> eip712_state \<Rightarrow> (bool \<times> s_eip712_calldata_info \<times> eip712_state) option" where
  "update_calldata_selector data c s =
     (if selector_state c \<noteq> CALLDATA_INFO_PARAM_UNSET \<or> CALLDATA_SELECTOR_SIZE < length data then Some (False, c, s)
      else do {
        a \<leftarrow> buf_shrink_expand (Some data) (length data) (ci_selector c) CALLDATA_SELECTOR_SIZE;
        let c = c\<lparr>ci_selector := a, selector_state := CALLDATA_INFO_PARAM_SET\<rparr>;
        if value_state c \<noteq> CALLDATA_INFO_PARAM_SET then Some (True, c, s)
        else do {
          (ok, cd) \<leftarrow> calldata_set_selector (parked712 s) (Some a);
          Some (ok, c, s\<lparr>parked712 := cd\<rparr>) } })"

definition update_calldata_field ::
  "bytes \<Rightarrow> nat option \<Rightarrow> bool \<Rightarrow> s_eip712_calldata_info \<Rightarrow> eip712_state \<Rightarrow> (bool \<times> s_eip712_calldata_info \<times> eip712_state) option" where
  "update_calldata_field data complete is_last c s =
     (let stay = map_option (\<lambda>(ok, c). (ok, c, s))
      in case ci_state c of
           EIP712_CALLDATA_VALUE \<Rightarrow> update_calldata_value data complete is_last c s
         | EIP712_CALLDATA_CALLEE \<Rightarrow> stay (update_calldata_callee data c)
         | EIP712_CALLDATA_CHAIN_ID \<Rightarrow> stay (update_calldata_chain_id data c)
         | EIP712_CALLDATA_SELECTOR \<Rightarrow> update_calldata_selector data c s
         | EIP712_CALLDATA_AMOUNT \<Rightarrow> stay (update_calldata_amount data c)
         | EIP712_CALLDATA_SPENDER \<Rightarrow> stay (update_calldata_spender data c))"

definition set_calldata_info :: "nat \<Rightarrow> s_eip712_calldata_info \<Rightarrow> eip712_state \<Rightarrow> eip712_state option" where
  "set_calldata_info n c s = ui_update (\<lambda>u. u\<lparr>calldata_infos := (calldata_infos u)[n := c]\<rparr>) s"

definition update_calldata :: "eip712_platform \<Rightarrow> bytes \<Rightarrow> nat option \<Rightarrow> bool \<Rightarrow> eip712_state \<Rightarrow> ui_result" where
  "update_calldata P data complete is_last s = do {
     u \<leftarrow> ui_ctx s;
     (case get_calldata_info (calldata_index u) u of
        None \<Rightarrow> Some (False, s)
      | Some n \<Rightarrow> do {
          c \<leftarrow> rd (calldata_infos u) n;
          (ok, c, s) \<leftarrow> update_calldata_field data complete is_last c s;
          s \<leftarrow> set_calldata_info n c s;
          if \<not> ok then Some (False, s)
          else if \<not> calldata_info_all_received c then Some (True, s)
          else
            (case parked712 s of
               None \<Rightarrow> Some (empty_call_shown P c, s)
             | Some cd \<Rightarrow> Some (nested_tx_starts P cd c, s\<lparr>parked712 := None\<rparr>)) }) }"

text \<open>A field is cut into chunks of at most 255 bytes; an empty one is a single chunk.\<close>

function update_calldata_chunks :: "eip712_platform \<Rightarrow> bytes \<Rightarrow> nat option \<Rightarrow> eip712_state \<Rightarrow> ui_result" where
  "update_calldata_chunks P data full s = do {
     (ok, s) \<leftarrow> update_calldata P (take 255 data) full (length data \<le> 255) s;
     if \<not> ok then Some (False, s)
     else if length data \<le> 255 then Some (True, s)
     else update_calldata_chunks P (drop 255 data) None s }"
  by pat_completeness auto
termination by (relation "measure (\<lambda>(P, data, full, s). length data)") auto

declare update_calldata_chunks.simps [simp del]

section \<open>A complete value\<close>

text \<open>The text of the value, where the field is shown; \<open>None\<close> when a formatter fails.\<close>

definition accumulate_text :: "eip712_platform \<Rightarrow> s_struct_712_field \<Rightarrow> bytes \<Rightarrow> eip712_state \<Rightarrow> string option option" where
  "accumulate_text P f data s = do {
     shown \<leftarrow> ui_712_field_shown P s;
     Some (if shown \<and> field_type f \<noteq> TYPE_STRUCT then leaf_text P f data else Some '''') }"

definition accumulate_join :: "eip712_platform \<Rightarrow> bytes \<Rightarrow> string \<Rightarrow> eip712_state \<Rightarrow> (string option \<times> eip712_state) option" where
  "accumulate_join P data t s = do {
     u \<leftarrow> ui_ctx s;
     if field_flags u AND UI_712_AMOUNT_JOIN = 0 then Some (Some t, s)
     else do {
       (n, s) \<leftarrow> get_amount_join (amount_current_id u) s;
       (case n of
          None \<Rightarrow> Some (None, s)
        | Some n \<Rightarrow> do {
            (ok, s) \<leftarrow> update_amount_join n (take 32 data) s;
            if \<not> ok then Some (None, s)
            else do {
              j \<leftarrow> join_at n s;
              if aj_flags j \<noteq> AMOUNT_JOIN_FLAG_TOKEN OR AMOUNT_JOIN_FLAG_VALUE then Some (Some t, s)
              else ui_712_format_amount_join P n s } }) } }"

text \<open>A trusted name replaces the text when one matches.\<close>

definition accumulate_name :: "eip712_platform \<Rightarrow> bytes \<Rightarrow> string \<Rightarrow> eip712_state \<Rightarrow> string option option" where
  "accumulate_name P data t s = do {
     u \<leftarrow> ui_ctx s;
     if field_flags u AND UI_712_TRUSTED_NAME = 0 then Some (Some t)
     else if length data \<noteq> ADDRESS_LENGTH then Some None
     else do {
       chain \<leftarrow> td_get_domain_chain_id (parse s);
       Some (case chain of
               None \<Rightarrow> None
             | Some c \<Rightarrow> (case name_text P (tn_types u) (tn_sources u) c data of None \<Rightarrow> Some t | Some n \<Rightarrow> Some n)) } }"

definition accumulate_calldata :: "eip712_platform \<Rightarrow> bytes \<Rightarrow> eip712_state \<Rightarrow> ui_result" where
  "accumulate_calldata P data s = do {
     u \<leftarrow> ui_ctx s;
     if field_flags u AND UI_712_CALLDATA = 0 then Some (True, s)
     else update_calldata_chunks P data (Some (length data)) s }"

definition accumulate_pair :: "eip712_platform \<Rightarrow> string \<Rightarrow> eip712_state \<Rightarrow> ui_result" where
  "accumulate_pair P t s = do {
     shown \<leftarrow> ui_712_field_shown P s;
     (ok, s) \<leftarrow> (if shown then ui_712_set_value P t s else Some (True, s));
     if \<not> ok then Some (False, s)
     else do { s \<leftarrow> ui_712_field_flags_reset s; Some (True, s) } }"

definition ui_712_accumulate_value :: "eip712_platform \<Rightarrow> s_struct_712_field \<Rightarrow> bytes \<Rightarrow> eip712_state \<Rightarrow> ui_result" where
  "ui_712_accumulate_value P f data s =
     (case ui_ctx s of
        None \<Rightarrow> Some (True, s)
      | Some u0 \<Rightarrow>
          if filtering_mode u0 \<noteq> EIP712_FILTERING_FULL then Some (True, s)
          else do {
            t \<leftarrow> accumulate_text P f data s;
            (case t of
               None \<Rightarrow> Some (False, s)
             | Some t \<Rightarrow> do {
                 (t, s) \<leftarrow> accumulate_join P data t s;
                 (case t of
                    None \<Rightarrow> Some (False, s)
                  | Some t \<Rightarrow> do {
                      u \<leftarrow> ui_ctx s;
                      (case (if field_flags u AND UI_712_DATETIME = 0 then Some t else date_text P f data) of
                         None \<Rightarrow> Some (False, s)
                       | Some t \<Rightarrow> do {
                           t \<leftarrow> accumulate_name P data t s;
                           (case t of
                              None \<Rightarrow> Some (False, s)
                            | Some t \<Rightarrow> do {
                                (ok, s) \<leftarrow> accumulate_calldata P data s;
                                if \<not> ok then Some (False, s) else accumulate_pair P t s }) }) }) }) })"

section \<open>The context\<close>

text \<open>The blocks of the context, all of which \<open>ui_712_deinit\<close> frees; the nested transactions are not counted here.\<close>

definition pair_blocks :: "s_ui_712_pair \<Rightarrow> nat" where
  "pair_blocks p = 1 + (if pair_key p = None then 0 else 1) + (if pair_value p = None then 0 else 1)"

definition ui_blocks :: "t_ui_context \<Rightarrow> nat" where
  "ui_blocks u = 1 + length (filters_crc u) + length (unfiltered_crc u) + sum_list (map pair_blocks (ui_pairs u)) +
     length (amount_joins u) + length (calldata_infos u) + (if discarded_path u = None then 0 else 1)"

definition ui_712_deinit :: "eip712_state \<Rightarrow> eip712_state" where
  "ui_712_deinit s = (case ui_ctx s of None \<Rightarrow> s | Some u \<Rightarrow> ui_free (ui_blocks u) s\<lparr>ui_ctx := None\<rparr>)"

definition ui_712_init :: "eip712_state \<Rightarrow> bool \<times> eip712_state" where
  "ui_712_init s =
     (case ui_ctx s of
        Some _ \<Rightarrow> (False, ui_712_deinit s)
      | None \<Rightarrow> (case ui_alloc s of (ok, s) \<Rightarrow> (ok, (if ok then s\<lparr>ui_ctx := Some ui_context_zero\<rparr> else s))))"

definition eip712_v1_context_deinit :: "eip712_state \<Rightarrow> eip712_state" where
  "eip712_v1_context_deinit s =
     (let s = ui_712_deinit (s\<lparr>parse := td_deinit (v1_parse_deinit (parse s))\<rparr>)
      in case eip712_v1_context s of None \<Rightarrow> s | Some _ \<Rightarrow> ui_free 1 s\<lparr>eip712_v1_context := None\<rparr>)"

text \<open>\<open>reset_app_context\<close>, as far as it concerns this state.\<close>

definition reset_712 :: "eip712_state \<Rightarrow> eip712_state" where
  "reset_712 s = (eip712_v1_context_deinit s)\<lparr>appState712 := APP_STATE_IDLE,
     hashes712 := \<lparr>domainHash = replicate 32 0, messageHash = replicate 32 0\<rparr>, g_proxy_info := None\<rparr>"

definition eip712_v1_context_init :: "eip712_state \<Rightarrow> bool \<times> eip712_state" where
  "eip712_v1_context_init s =
     (if eip712_v1_context s \<noteq> None then (False, reset_712 s)
      else
        (case ui_alloc s of
           (False, s) \<Rightarrow> (False, s)
         | (True, s) \<Rightarrow>
             (case ui_712_init (s\<lparr>eip712_v1_context := Some \<lparr>schema_hash = replicate 32 0, sign_claimed = False\<rparr>\<rparr>) of
                (False, s) \<Rightarrow> (False, s)
              | (True, s) \<Rightarrow>
                  (case td_init (parse s) of
                     (False, p) \<Rightarrow> (False, s\<lparr>parse := p\<rparr>)
                   | (True, p) \<Rightarrow> (True, s\<lparr>parse := p, appState712 := APP_STATE_PREPARING_EIP712\<rparr>)))))"

definition eip712_v1_sign_claim :: "eip712_state \<Rightarrow> bool \<times> eip712_state" where
  "eip712_v1_sign_claim s =
     (case eip712_v1_context s of
        None \<Rightarrow> (False, s)
      | Some c \<Rightarrow> if sign_claimed c then (False, s) else (True, s\<lparr>eip712_v1_context := Some (c\<lparr>sign_claimed := True\<rparr>)\<rparr>))"

text \<open>\<open>ui_712_start\<close>, and the answer to a filter that adds pairs.\<close>

definition ui_712_start :: "eip712_state \<Rightarrow> eip712_state" where
  "ui_712_start s =
     (let s = (if appState712 s \<noteq> APP_STATE_IDLE \<and> appState712 s \<noteq> APP_STATE_PREPARING_EIP712 then reset_712 s else s)
      in s\<lparr>appState712 := APP_STATE_SIGNING_EIP712\<rparr>)"

definition ui_712_continue_or_finish :: "eip712_platform \<Rightarrow> eip712_state \<Rightarrow> ui_result" where
  "ui_712_continue_or_finish P s = do {
     u \<leftarrow> ui_ctx s;
     if appState712 s \<noteq> APP_STATE_SIGNING_EIP712 then
       (if filtering_mode u = EIP712_FILTERING_BASIC \<and> \<not> dataAllowed P \<and> \<not> verbose_eip712 P then Some (False, s)
        else Some (True, ui_712_start s))
     else if end_reached u then Some (review_starts P, s)
     else Some (True, s) }"

definition ui_712_end_sign :: "eip712_platform \<Rightarrow> eip712_state \<Rightarrow> bool \<times> eip712_state" where
  "ui_712_end_sign P s =
     (case ui_ctx s of
        None \<Rightarrow> (False, s)
      | Some u \<Rightarrow>
          if screen_size_wallet P \<or> verbose_eip712 P \<or> filtering_mode u = EIP712_FILTERING_FULL then
            (review_starts P, s\<lparr>ui_ctx := Some (u\<lparr>end_reached := True\<rparr>)\<rparr>)
          else (True, s))"

end
