(* ===== verification/Eip712_Filters.thy ===== *)
theory Eip712_Filters
  imports Eip712_Ui
begin

text \<open>
  Model of \<open>src/features/sign_message_eip712/eip712_v1_filtering.c\<close>, of \<open>ui_712_check_field_filtering\<close> of
  \<open>eip712_v1_ui_logic.c\<close> and of the lookup of \<open>provide_proxy_info/proxy_info.c\<close>: a filter says how one field is shown, and its
  signature covers the domain, the schema and the path of the field.

  The running hash is the bytes it has absorbed.  The CRC of a path is the parameter \<open>crc32_update\<close> of the platform.
\<close>

definition FILT_MAGIC_MESSAGE_INFO :: uint8 where "FILT_MAGIC_MESSAGE_INFO = 183"
definition FILT_MAGIC_CALLDATA_INFO :: uint8 where "FILT_MAGIC_CALLDATA_INFO = 55"
definition FILT_MAGIC_CALLDATA_VALUE :: uint8 where "FILT_MAGIC_CALLDATA_VALUE = 66"
definition FILT_MAGIC_CALLDATA_CALLEE :: uint8 where "FILT_MAGIC_CALLDATA_CALLEE = 77"
definition FILT_MAGIC_CALLDATA_CHAIN_ID :: uint8 where "FILT_MAGIC_CALLDATA_CHAIN_ID = 88"
definition FILT_MAGIC_CALLDATA_SELECTOR :: uint8 where "FILT_MAGIC_CALLDATA_SELECTOR = 99"
definition FILT_MAGIC_CALLDATA_AMOUNT :: uint8 where "FILT_MAGIC_CALLDATA_AMOUNT = 110"
definition FILT_MAGIC_CALLDATA_SPENDER :: uint8 where "FILT_MAGIC_CALLDATA_SPENDER = 121"
definition FILT_MAGIC_AMOUNT_JOIN_TOKEN :: uint8 where "FILT_MAGIC_AMOUNT_JOIN_TOKEN = 11"
definition FILT_MAGIC_AMOUNT_JOIN_VALUE :: uint8 where "FILT_MAGIC_AMOUNT_JOIN_VALUE = 22"
definition FILT_MAGIC_DATETIME :: uint8 where "FILT_MAGIC_DATETIME = 33"
definition FILT_MAGIC_TRUSTED_NAME :: uint8 where "FILT_MAGIC_TRUSTED_NAME = 44"
definition FILT_MAGIC_RAW_FIELD :: uint8 where "FILT_MAGIC_RAW_FIELD = 72"
definition TOKEN_IDX_ADDR_IN_DOMAIN :: uint8 where "TOKEN_IDX_ADDR_IN_DOMAIN = 0xff"
definition MAX_FILTERS :: nat where "MAX_FILTERS = 50"

section \<open>What a signature covers\<close>

definition filt_update :: "eip712_platform \<Rightarrow> bytes \<Rightarrow> bytes option \<Rightarrow> bytes option" where
  "filt_update P x h = Option.bind h (\<lambda>h. if s2_update_ok (crypto P) h x then Some (h @ x) else None)"

text \<open>The dotted name of the current field, piece by piece; a missing frame ends it.\<close>

definition field_path_part :: "s_struct_712 list \<Rightarrow> nat \<Rightarrow> field_ref option \<Rightarrow> bytes list option" where
  "field_path_part ds i r =
     (case r of
        None \<Rightarrow> None
      | Some r \<Rightarrow>
          map_option (\<lambda>f. (if 0 < i then [[46]] else []) @
            (case key_name f of None \<Rightarrow> [] | Some key \<Rightarrow> text_bytes key # replicate (unat (array_level_count f)) [46, 91, 93])) (field_at ds r))"

fun path_parts :: "eip712_parse \<Rightarrow> nat list \<Rightarrow> bytes list option" where
  "path_parts p [] = Some []"
| "path_parts p (i # is) = do {
     xs \<leftarrow> field_path_part (g_structs p) i (v1_nth_field (i + 1) p);
     ys \<leftarrow> path_parts p is;
     Some (xs @ ys) }"

fun hash_parts :: "eip712_platform \<Rightarrow> bytes list \<Rightarrow> bytes \<Rightarrow> uint32 \<Rightarrow> (bytes \<times> uint32) option" where
  "hash_parts P [] h crc = Some (h, crc)"
| "hash_parts P (x # xs) h crc =
     (case filt_update P x (Some h) of
        None \<Rightarrow> None
      | Some h \<Rightarrow> hash_parts P xs h (crc32_update P crc x))"

text \<open>The hash and the CRC of the path, and the state without the discarded path when all went well.\<close>

definition hash_filtering_path ::
  "eip712_platform \<Rightarrow> bool \<Rightarrow> bytes \<Rightarrow> uint32 \<Rightarrow> eip712_state \<Rightarrow> ((bytes \<times> uint32) option \<times> eip712_state) option" where
  "hash_filtering_path P discarded h crc s = do {
     path \<leftarrow> ui_712_get_discarded_path s;
     (case (if discarded then map_option (\<lambda>p. [text_bytes p]) path else path_parts (parse s) [0..<v1_depth_count (parse s)]) of
        None \<Rightarrow> Some (None, s)
      | Some parts \<Rightarrow>
          (case hash_parts P parts h crc of
             None \<Rightarrow> Some (None, s)
           | Some hc \<Rightarrow> do { s \<leftarrow> ui_712_clear_discarded_path s; Some (Some hc, s) })) }"

definition check_proxy_params ::
  "uint64 \<Rightarrow> bytes \<Rightarrow> bytes option \<Rightarrow> bytes option \<Rightarrow> uint64 \<Rightarrow> bytes \<Rightarrow> bool" where
  "check_proxy_params chain addr sel ref_sel ref_chain ref_addr \<longleftrightarrow>
     chain = ref_chain \<and> addr = ref_addr \<and> (case ref_sel of None \<Rightarrow> True | Some x \<Rightarrow> sel = Some x)"

definition get_implem_contract :: "uint64 \<Rightarrow> bytes \<Rightarrow> bytes option \<Rightarrow> s_proxy_info option \<Rightarrow> bytes option" where
  "get_implem_contract chain addr sel g =
     (case g of
        None \<Rightarrow> None
      | Some p \<Rightarrow> if check_proxy_params chain addr sel (px_selector p) (px_chain_id p) (px_address p) then Some (px_implem_address p) else None)"

definition get_proxy_contract :: "uint64 \<Rightarrow> bytes \<Rightarrow> bytes option \<Rightarrow> s_proxy_info option \<Rightarrow> bytes option" where
  "get_proxy_contract chain addr sel g =
     (case g of
        None \<Rightarrow> None
      | Some p \<Rightarrow> if check_proxy_params chain addr sel (px_selector p) (px_chain_id p) (px_implem_address p) then Some (px_address p) else None)"

definition sig_verif_start :: "eip712_platform \<Rightarrow> uint8 \<Rightarrow> eip712_state \<Rightarrow> bytes option option" where
  "sig_verif_start P magic s =
     (if \<not> s2_init (crypto P) then Some None
      else do {
        chain \<leftarrow> td_get_domain_chain_id (parse s);
        contract \<leftarrow> td_get_domain_contract_addr (parse s);
        c \<leftarrow> eip712_v1_context s;
        let chain = (case chain of None \<Rightarrow> 0 | Some c \<Rightarrow> c);
        let contract = (case contract of None \<Rightarrow> replicate ADDRESS_LENGTH 0 | Some a \<Rightarrow> a);
        let addr = (case get_implem_contract chain contract None (g_proxy_info s) of None \<Rightarrow> contract | Some a \<Rightarrow> a);
        Some (filt_update P (schema_hash c) (filt_update P addr (filt_update P (write_u64_be chain) (filt_update P [magic] (Some []))))) })"

definition sig_verif_end :: "eip712_platform \<Rightarrow> bytes option \<Rightarrow> bytes \<Rightarrow> bool" where
  "sig_verif_end P h sig =
     (case h of
        None \<Rightarrow> False
      | Some h \<Rightarrow> (case s2_final (crypto P) h of None \<Rightarrow> False | Some d \<Rightarrow> pki_check P d sig))"

text \<open>The lines that every filter of a field shares: the prefix, the path, what the filter adds, the signature.\<close>

definition filter_signed ::
  "eip712_platform \<Rightarrow> uint8 \<Rightarrow> bool \<Rightarrow> bytes list \<Rightarrow> bytes \<Rightarrow> uint32 \<Rightarrow> eip712_state \<Rightarrow> (bool \<times> uint32 \<times> eip712_state) option" where
  "filter_signed P magic discarded extra sig crc s = do {
     h \<leftarrow> sig_verif_start P magic s;
     (case h of
        None \<Rightarrow> Some (False, crc, s)
      | Some h \<Rightarrow> do {
          (r, s) \<leftarrow> hash_filtering_path P discarded h crc s;
          (case r of
             None \<Rightarrow> Some (False, crc, s)
           | Some (h, crc) \<Rightarrow> Some (sig_verif_end P (foldl (\<lambda>h x. filt_update P x h) (Some h) extra) sig, crc, s)) }) }"

section \<open>Parsing\<close>

definition take_bytes :: "bytes \<Rightarrow> nat \<Rightarrow> nat \<Rightarrow> (bytes \<times> nat) option" where
  "take_bytes data off n = (if length data < off + n then None else Some (take n (drop off data), off + n))"

text \<open>A name and its length, and a signature that ends the payload.\<close>

definition read_name :: "bytes \<Rightarrow> nat \<Rightarrow> (bytes \<times> nat) option" where
  "read_name data off = do { (n, off) \<leftarrow> next_byte data off; take_bytes data off (unat n) }"

definition read_signature :: "bytes \<Rightarrow> nat \<Rightarrow> bytes option" where
  "read_signature data off = do {
     (n, off) \<leftarrow> next_byte data off;
     if off + unat n \<noteq> length data then None else Some (drop off data) }"

definition check_typename :: "string \<Rightarrow> eip712_state \<Rightarrow> bool option" where
  "check_typename expected s =
     (case v1_get_current_field (parse s) of
        None \<Rightarrow> Some False
      | Some r \<Rightarrow> do {
          f \<leftarrow> field_at (g_structs (parse s)) r;
          Some (td_get_struct_field_typename f = Some expected) })"

text \<open>The result of a filter: whether it succeeds, the CRC of its path, the state.\<close>

type_synonym filter_result = "(bool \<times> uint32 \<times> eip712_state) option"

definition filter_fails :: "uint32 \<Rightarrow> eip712_state \<Rightarrow> filter_result" where
  "filter_fails crc s = Some (False, crc, s)"

definition in_message :: "eip712_state \<Rightarrow> bool" where
  "in_message s \<longleftrightarrow> v1_get_root_type (parse s) = ROOT_MESSAGE"

text \<open>A filter of a field that was parsed to \<open>extra\<close> and \<open>sig\<close>: the signature, then, for a field that exists, its effect.\<close>

definition filter_field ::
  "eip712_platform \<Rightarrow> uint8 \<Rightarrow> bool \<Rightarrow> (bytes list \<times> bytes) option \<Rightarrow> (eip712_state \<Rightarrow> ui_result) \<Rightarrow> uint32 \<Rightarrow> eip712_state \<Rightarrow> filter_result" where
  "filter_field P magic discarded parsed effect crc s =
     (if \<not> in_message s then filter_fails crc s
      else
        (case parsed of
           None \<Rightarrow> filter_fails crc s
         | Some (extra, sig) \<Rightarrow> do {
             (ok, crc, s) \<leftarrow> filter_signed P magic discarded extra sig crc s;
             if \<not> ok then filter_fails crc s
             else if discarded then Some (True, crc, s)
             else do { (ok, s) \<leftarrow> effect s; Some (ok, crc, s) } }))"

section \<open>Nested transactions\<close>

definition parse_index :: "bytes \<Rightarrow> (bytes list \<times> bytes) option" where
  "parse_index payload = do {
     (index, off) \<leftarrow> next_byte payload 0;
     sig \<leftarrow> read_signature payload off;
     Some ([[index]], sig) }"

definition calldata_effect :: "bytes \<Rightarrow> e_eip712_calldata_state \<Rightarrow> eip712_state \<Rightarrow> ui_result" where
  "calldata_effect payload st s = do {
     (index, _) \<leftarrow> next_byte payload 0;
     u \<leftarrow> ui_ctx s;
     if get_calldata_info index u = None then Some (False, s)
     else do {
       s \<leftarrow> ui_712_flag_field False False False False False True s;
       s \<leftarrow> calldata_info_set_state index st s;
       Some (True, s) } }"

definition filtering_calldata_spender :: "eip712_platform \<Rightarrow> bytes \<Rightarrow> bool \<Rightarrow> uint32 \<Rightarrow> eip712_state \<Rightarrow> filter_result" where
  "filtering_calldata_spender P payload discarded crc s =
     filter_field P FILT_MAGIC_CALLDATA_SPENDER discarded (parse_index payload) (calldata_effect payload EIP712_CALLDATA_SPENDER) crc s"

definition filtering_calldata_amount :: "eip712_platform \<Rightarrow> bytes \<Rightarrow> bool \<Rightarrow> uint32 \<Rightarrow> eip712_state \<Rightarrow> filter_result" where
  "filtering_calldata_amount P payload discarded crc s =
     filter_field P FILT_MAGIC_CALLDATA_AMOUNT discarded (parse_index payload) (calldata_effect payload EIP712_CALLDATA_AMOUNT) crc s"

definition filtering_calldata_selector :: "eip712_platform \<Rightarrow> bytes \<Rightarrow> bool \<Rightarrow> uint32 \<Rightarrow> eip712_state \<Rightarrow> filter_result" where
  "filtering_calldata_selector P payload discarded crc s =
     filter_field P FILT_MAGIC_CALLDATA_SELECTOR discarded (parse_index payload) (calldata_effect payload EIP712_CALLDATA_SELECTOR) crc s"

definition filtering_calldata_chain_id :: "eip712_platform \<Rightarrow> bytes \<Rightarrow> bool \<Rightarrow> uint32 \<Rightarrow> eip712_state \<Rightarrow> filter_result" where
  "filtering_calldata_chain_id P payload discarded crc s =
     filter_field P FILT_MAGIC_CALLDATA_CHAIN_ID discarded (parse_index payload) (calldata_effect payload EIP712_CALLDATA_CHAIN_ID) crc s"

definition filtering_calldata_callee :: "eip712_platform \<Rightarrow> bytes \<Rightarrow> bool \<Rightarrow> uint32 \<Rightarrow> eip712_state \<Rightarrow> filter_result" where
  "filtering_calldata_callee P payload discarded crc s =
     filter_field P FILT_MAGIC_CALLDATA_CALLEE discarded (parse_index payload) (calldata_effect payload EIP712_CALLDATA_CALLEE) crc s"

definition filtering_calldata_value :: "eip712_platform \<Rightarrow> bytes \<Rightarrow> bool \<Rightarrow> uint32 \<Rightarrow> eip712_state \<Rightarrow> filter_result" where
  "filtering_calldata_value P payload discarded crc s =
     filter_field P FILT_MAGIC_CALLDATA_VALUE discarded (parse_index payload) (calldata_effect payload EIP712_CALLDATA_VALUE) crc s"

text \<open>The description of a nested transaction: seven bytes, of which the flags are read as booleans.\<close>

definition bool_byte :: "uint8 \<Rightarrow> uint8" where
  "bool_byte b = (if b = 0 then 0 else 1)"

definition calldata_info_of :: "eip712_platform \<Rightarrow> uint8 list \<Rightarrow> eip712_state \<Rightarrow> s_eip712_calldata_info option option" where
  "calldata_info_of P b s = do {
     contract \<leftarrow> td_get_domain_contract_addr (parse s);
     chain \<leftarrow> td_get_domain_chain_id (parse s);
     Some (do {
       let c = calldata_info_zero\<lparr>ci_index := b ! 0, value_state := CALLDATA_INFO_PARAM_UNSET\<rparr>;
       c \<leftarrow> (if b ! 2 = 1 then Some (c\<lparr>callee_state := CALLDATA_INFO_PARAM_UNSET\<rparr>)
             else map_option (\<lambda>a. c\<lparr>ci_callee := a, callee_state := CALLDATA_INFO_PARAM_SET\<rparr>) contract);
       c \<leftarrow> (if b ! 3 \<noteq> 0 then Some (c\<lparr>chain_id_state := CALLDATA_INFO_PARAM_UNSET\<rparr>)
             else map_option (\<lambda>n. c\<lparr>ci_chain_id := n, chain_id_state := CALLDATA_INFO_PARAM_SET\<rparr>) chain);
       let c = (if b ! 4 \<noteq> 0 then c\<lparr>selector_state := CALLDATA_INFO_PARAM_UNSET\<rparr> else c);
       let c = (if b ! 5 \<noteq> 0 then c\<lparr>amount_state := CALLDATA_INFO_PARAM_UNSET\<rparr> else c);
       (if b ! 6 = 2 then map_option (\<lambda>a. c\<lparr>ci_spender := a, spender_state := CALLDATA_INFO_PARAM_SET\<rparr>) contract
        else if b ! 6 = 0 then Some (c\<lparr>ci_spender := own_address P, spender_state := CALLDATA_INFO_PARAM_SET\<rparr>)
        else Some (c\<lparr>spender_state := CALLDATA_INFO_PARAM_UNSET\<rparr>)) }) }"

definition filtering_calldata_info :: "eip712_platform \<Rightarrow> bytes \<Rightarrow> eip712_state \<Rightarrow> ui_result" where
  "filtering_calldata_info P payload s =
     (if \<not> in_message s then Some (False, s)
      else
        (case (do {
           (b, off) \<leftarrow> take_bytes payload 0 7;
           if b ! 1 = 0 \<or> b ! 2 \<notin> {1, 2} \<or> b ! 6 \<notin> {0, 1, 2} then None
           else do { sig \<leftarrow> read_signature payload off; Some (b, sig) } }) of
           None \<Rightarrow> Some (False, s)
         | Some (b, sig) \<Rightarrow> do {
             h \<leftarrow> sig_verif_start P FILT_MAGIC_CALLDATA_INFO s;
             if \<not> sig_verif_end P (foldl (\<lambda>h x. filt_update P x h) h
                  [[b ! 0], [bool_byte (b ! 1)], [b ! 2], [bool_byte (b ! 3)], [bool_byte (b ! 4)], [bool_byte (b ! 5)], [b ! 6]]) sig
             then Some (False, s)
             else
               (case ui_alloc s of
                  (False, s) \<Rightarrow> Some (False, s)
                | (True, s) \<Rightarrow> do {
                    c \<leftarrow> calldata_info_of P b s;
                    (case c of
                       None \<Rightarrow> Some (False, s)
                     | Some c \<Rightarrow> do { s \<leftarrow> add_calldata_info c s; Some (True, s) }) }) }))"

section \<open>The message\<close>

definition network_pair :: "eip712_platform \<Rightarrow> eip712_state \<Rightarrow> ui_result" where
  "network_pair P s = do {
     chain \<leftarrow> td_get_domain_chain_id (parse s);
     (case chain of
        None \<Rightarrow> Some (True, s)
      | Some c \<Rightarrow>
          if ui_712_get_filtering_mode s \<noteq> EIP712_FILTERING_FULL \<or> c = own_chain P then Some (True, s)
          else do {
            (ok, s) \<leftarrow> ui_712_set_title ''Network'' s;
            if \<not> ok then Some (False, s)
            else
              (case network_text P c of
                 None \<Rightarrow> Some (False, s)
               | Some t \<Rightarrow> ui_712_set_value P t s) }) }"

definition filtering_message_info :: "eip712_platform \<Rightarrow> bytes \<Rightarrow> eip712_state \<Rightarrow> ui_result" where
  "filtering_message_info P payload s =
     (if \<not> v1_domain_complete (parse s) then Some (False, s)
      else
        (case (do {
           (name, off) \<leftarrow> read_name payload 0;
           (n, off) \<leftarrow> next_byte payload off;
           if MAX_FILTERS < unat n then None
           else do { sig \<leftarrow> read_signature payload off; Some (name, n, sig) } }) of
           None \<Rightarrow> Some (False, s)
         | Some (name, n, sig) \<Rightarrow> do {
             h \<leftarrow> sig_verif_start P FILT_MAGIC_MESSAGE_INFO s;
             if \<not> sig_verif_end P (filt_update P name (filt_update P [n] h)) sig then Some (False, s)
             else do {
               s \<leftarrow> ui_712_set_filters_count n s;
               if verbose_eip712 P then Some (True, s)
               else do {
                 (ok, s) \<leftarrow> ui_712_set_title ''Contract'' s;
                 if \<not> ok then Some (False, s)
                 else do {
                   (ok, s) \<leftarrow> ui_712_set_value P (buf_string name) s;
                   if \<not> ok then Some (False, s)
                   else do {
                     (ok, s) \<leftarrow> network_pair P s;
                     if \<not> ok then Some (False, s) else ui_712_continue_or_finish P s } } } } }))"

section \<open>Paths of fields that do not exist\<close>

fun match_parts :: "bytes list \<Rightarrow> bytes \<Rightarrow> nat \<Rightarrow> nat option" where
  "match_parts [] path off = Some off"
| "match_parts (x # xs) path off =
     (if length path < off + length x \<or> take (length x) (drop off path) \<noteq> x then None else match_parts xs path (off + length x))"

definition backup_part :: "s_struct_712 list \<Rightarrow> nat \<Rightarrow> field_ref option \<Rightarrow> bytes list option" where
  "backup_part ds i r =
     (case r of
        None \<Rightarrow> Some (if 0 < i then [[46]] else [])
      | Some r \<Rightarrow> field_path_part ds i (Some r))"

fun backup_parts :: "eip712_parse \<Rightarrow> nat list \<Rightarrow> bytes list option" where
  "backup_parts p [] = Some []"
| "backup_parts p (i # is) = do {
     xs \<leftarrow> backup_part (g_structs p) i (v1_backup_nth_field (i + 1) p);
     ys \<leftarrow> backup_parts p is;
     Some (xs @ ys) }"

text \<open>A backed-up frame always has a field; a pointer to none would be a fault, which the outer \<open>option\<close> stands for.\<close>

definition matches_backup_path :: "bytes \<Rightarrow> eip712_parse \<Rightarrow> nat option option" where
  "matches_backup_path path p = do {
     parts \<leftarrow> backup_parts p [0..<v1_backup_depth_count p];
     Some (match_parts parts path 0) }"

definition filtering_discarded_path :: "bytes \<Rightarrow> eip712_state \<Rightarrow> ui_result" where
  "filtering_discarded_path payload s =
     (case read_name payload 0 of
        None \<Rightarrow> Some (False, s)
      | Some (path, _) \<Rightarrow> do {
          m \<leftarrow> matches_backup_path path (parse s);
          (case m of
             None \<Rightarrow> Some (False, s)
           | Some off \<Rightarrow> do {
               found \<leftarrow> v1_backup_exists (drop off path) (parse s);
               if \<not> found then Some (False, s)
               else do { (_, s) \<leftarrow> ui_712_set_discarded_path path s; Some (True, s) } }) })"

section \<open>Fields\<close>

definition set_title_if_any :: "bytes \<Rightarrow> eip712_state \<Rightarrow> ui_result" where
  "set_title_if_any name s = (if name = [] then Some (True, s) else ui_712_set_title (buf_string name) s)"

definition parse_trusted_name :: "bytes \<Rightarrow> (bytes \<times> bytes \<times> bytes \<times> bytes) option" where
  "parse_trusted_name payload = do {
     (name, off) \<leftarrow> read_name payload 0;
     (n, off) \<leftarrow> next_byte payload off;
     if 6 < unat n then None
     else do {
       (types, off) \<leftarrow> take_bytes payload off (unat n);
       if \<not> list_all (\<lambda>t. t \<in> {1, 2, 3, 4, 5, 6}) types then None
       else do {
         (n, off) \<leftarrow> next_byte payload off;
         if 8 < unat n then None
         else do {
           (sources, off) \<leftarrow> take_bytes payload off (unat n);
           if \<not> list_all (\<lambda>t. unat t < 8) sources then None
           else do { sig \<leftarrow> read_signature payload off; Some (name, types, sources, sig) } } } } }"

definition filtering_trusted_name :: "eip712_platform \<Rightarrow> bytes \<Rightarrow> bool \<Rightarrow> uint32 \<Rightarrow> eip712_state \<Rightarrow> filter_result" where
  "filtering_trusted_name P payload discarded crc s =
     filter_field P FILT_MAGIC_TRUSTED_NAME discarded
       (map_option (\<lambda>(name, types, sources, sig). ([name, types, sources], sig)) (parse_trusted_name payload))
       (\<lambda>s. do {
          (name, types, sources, _) \<leftarrow> parse_trusted_name payload;
          t \<leftarrow> check_typename ''address'' s;
          if \<not> t then Some (False, s)
          else do {
            (ok, s) \<leftarrow> set_title_if_any name s;
            if \<not> ok then Some (False, s)
            else do {
              s \<leftarrow> ui_712_flag_field True (name \<noteq> []) False False True False s;
              s \<leftarrow> ui_712_set_trusted_name_requirements types sources s;
              Some (True, s) } } }) crc s"

definition parse_named :: "bytes \<Rightarrow> (bytes \<times> bytes) option" where
  "parse_named payload = do { (name, off) \<leftarrow> read_name payload 0; sig \<leftarrow> read_signature payload off; Some (name, sig) }"

definition filtering_date_time :: "eip712_platform \<Rightarrow> bytes \<Rightarrow> bool \<Rightarrow> uint32 \<Rightarrow> eip712_state \<Rightarrow> filter_result" where
  "filtering_date_time P payload discarded crc s =
     filter_field P FILT_MAGIC_DATETIME discarded (map_option (\<lambda>(name, sig). ([name], sig)) (parse_named payload))
       (\<lambda>s. do {
          (name, _) \<leftarrow> parse_named payload;
          t \<leftarrow> check_typename ''uint'' s;
          if \<not> t then Some (False, s)
          else do {
            (ok, s) \<leftarrow> set_title_if_any name s;
            if \<not> ok then Some (False, s)
            else do { s \<leftarrow> ui_712_flag_field True (name \<noteq> []) False True False False s; Some (True, s) } } }) crc s"

definition filtering_amount_join_token :: "eip712_platform \<Rightarrow> bytes \<Rightarrow> bool \<Rightarrow> uint32 \<Rightarrow> eip712_state \<Rightarrow> filter_result" where
  "filtering_amount_join_token P payload discarded crc s =
     filter_field P FILT_MAGIC_AMOUNT_JOIN_TOKEN discarded (parse_index payload)
       (\<lambda>s. do {
          (join_id, _) \<leftarrow> next_byte payload 0;
          t \<leftarrow> check_typename ''address'' s;
          if \<not> t then Some (False, s)
          else do {
            s \<leftarrow> ui_712_flag_field False False True False False False s;
            s \<leftarrow> ui_712_token_join_prepare_addr_check join_id s;
            Some (True, s) } }) crc s"

definition parse_join_value :: "bytes \<Rightarrow> (bytes \<times> uint8 \<times> bytes) option" where
  "parse_join_value payload = do {
     (name, off) \<leftarrow> read_name payload 0;
     if name = [] then None
     else do {
       (join_id, off) \<leftarrow> next_byte payload off;
       sig \<leftarrow> read_signature payload off;
       Some (name, join_id, sig) } }"

text \<open>The token of a permit is the contract of the domain.\<close>

definition join_domain_token :: "uint8 \<Rightarrow> eip712_state \<Rightarrow> ui_result" where
  "join_domain_token join_id s =
     (if join_id \<noteq> TOKEN_IDX_ADDR_IN_DOMAIN then Some (True, s)
      else do {
        s \<leftarrow> ui_712_token_join_prepare_addr_check join_id s;
        contract \<leftarrow> td_get_domain_contract_addr (parse s);
        (case contract of
           None \<Rightarrow> Some (False, s)
         | Some a \<Rightarrow> ui_712_set_amount_join_token_addr a s) })"

definition filtering_amount_join_value :: "eip712_platform \<Rightarrow> bytes \<Rightarrow> bool \<Rightarrow> uint32 \<Rightarrow> eip712_state \<Rightarrow> filter_result" where
  "filtering_amount_join_value P payload discarded crc s =
     filter_field P FILT_MAGIC_AMOUNT_JOIN_VALUE discarded
       (map_option (\<lambda>(name, join_id, sig). ([name, [join_id]], sig)) (parse_join_value payload))
       (\<lambda>s. do {
          (name, join_id, _) \<leftarrow> parse_join_value payload;
          (ok, s) \<leftarrow> join_domain_token join_id s;
          if \<not> ok then Some (False, s)
          else do {
            t \<leftarrow> check_typename ''uint'' s;
            if \<not> t then Some (False, s)
            else do {
              s \<leftarrow> ui_712_flag_field False False True False False False s;
              ui_712_token_join_prepare_amount join_id name s } } }) crc s"

definition filtering_raw_field :: "eip712_platform \<Rightarrow> bytes \<Rightarrow> bool \<Rightarrow> uint32 \<Rightarrow> eip712_state \<Rightarrow> filter_result" where
  "filtering_raw_field P payload discarded crc s =
     filter_field P FILT_MAGIC_RAW_FIELD discarded (map_option (\<lambda>(name, sig). ([name], sig)) (parse_named payload))
       (\<lambda>s. do {
          (name, _) \<leftarrow> parse_named payload;
          (ok, s) \<leftarrow> set_title_if_any name s;
          if \<not> ok then Some (False, s)
          else do { s \<leftarrow> ui_712_flag_field True (name \<noteq> []) False False False False s; Some (True, s) } }) crc s"

section \<open>The path of the current field\<close>

definition filtering_compute_current_path_crc :: "eip712_platform \<Rightarrow> eip712_state \<Rightarrow> (uint32 option \<times> eip712_state) option" where
  "filtering_compute_current_path_crc P s = do {
     h \<leftarrow> sig_verif_start P 0 s;
     (case h of
        None \<Rightarrow> Some (None, s)
      | Some h \<Rightarrow> do { (r, s) \<leftarrow> hash_filtering_path P False h 0 s; Some (map_option snd r, s) }) }"

definition ui_712_check_field_filtering :: "eip712_platform \<Rightarrow> eip712_state \<Rightarrow> eip712_state option" where
  "ui_712_check_field_filtering P s =
     (if ui_712_get_filtering_mode s \<noteq> EIP712_FILTERING_FULL then Some s
      else do {
        (crc, s) \<leftarrow> filtering_compute_current_path_crc P s;
        check_field_filtering_at crc s })"

end
