(* ===== verification/Eip712_Commands.thy ===== *)
theory Eip712_Commands
  imports Eip712_Filters App_Context
begin

text \<open>
  Model of \<open>src/features/sign_message_eip712/eip712_v1_commands.c\<close>, of the two commands that sign an EIP-712 message without
  definitions (\<open>sign_message_eip712_v0\<close>) and approve one (\<open>sign_message_eip712_common/common_712.c\<close>), and of the reaction of the
  main loop to an error: the context is destroyed.
\<close>

definition P1_COMPLETE :: uint8 where "P1_COMPLETE = 0x00"
definition P1_PARTIAL :: uint8 where "P1_PARTIAL = 0xFF"
definition P1_DISCARDED :: uint8 where "P1_DISCARDED = 0x01"
definition P2_DEF_NAME :: uint8 where "P2_DEF_NAME = 0x00"
definition P2_DEF_FIELD :: uint8 where "P2_DEF_FIELD = 0xFF"
definition P2_IMPL_NAME :: uint8 where "P2_IMPL_NAME = P2_DEF_NAME"
definition P2_IMPL_ARRAY :: uint8 where "P2_IMPL_ARRAY = 0x0F"
definition P2_IMPL_FIELD :: uint8 where "P2_IMPL_FIELD = P2_DEF_FIELD"
definition P2_FILT_ACTIVATE :: uint8 where "P2_FILT_ACTIVATE = 0x00"
definition P2_FILT_DISCARDED_PATH :: uint8 where "P2_FILT_DISCARDED_PATH = 0x01"
definition P2_FILT_MESSAGE_INFO :: uint8 where "P2_FILT_MESSAGE_INFO = 0x0F"
definition P2_FILT_CALLDATA_SPENDER :: uint8 where "P2_FILT_CALLDATA_SPENDER = 0xF4"
definition P2_FILT_CALLDATA_AMOUNT :: uint8 where "P2_FILT_CALLDATA_AMOUNT = 0xF5"
definition P2_FILT_CALLDATA_SELECTOR :: uint8 where "P2_FILT_CALLDATA_SELECTOR = 0xF6"
definition P2_FILT_CALLDATA_CHAIN_ID :: uint8 where "P2_FILT_CALLDATA_CHAIN_ID = 0xF7"
definition P2_FILT_CALLDATA_CALLEE :: uint8 where "P2_FILT_CALLDATA_CALLEE = 0xF8"
definition P2_FILT_CALLDATA_VALUE :: uint8 where "P2_FILT_CALLDATA_VALUE = 0xF9"
definition P2_FILT_CALLDATA_INFO :: uint8 where "P2_FILT_CALLDATA_INFO = 0xFA"
definition P2_FILT_CONTRACT_NAME :: uint8 where "P2_FILT_CONTRACT_NAME = 0xFB"
definition P2_FILT_DATE_TIME :: uint8 where "P2_FILT_DATE_TIME = 0xFC"
definition P2_FILT_AMOUNT_JOIN_TOKEN :: uint8 where "P2_FILT_AMOUNT_JOIN_TOKEN = 0xFD"
definition P2_FILT_AMOUNT_JOIN_VALUE :: uint8 where "P2_FILT_AMOUNT_JOIN_VALUE = 0xFE"
definition P2_FILT_RAW_FIELD :: uint8 where "P2_FILT_RAW_FIELD = 0xFF"

type_synonym command_result = "(sw \<times> eip712_state) option"

definition answer :: "sw \<Rightarrow> ui_result \<Rightarrow> command_result" where
  "answer sw r = map_option (\<lambda>(ok, s). (if ok then SWO_SUCCESS else sw, s)) r"

definition on_parse :: "parse_result \<Rightarrow> eip712_state \<Rightarrow> ui_result" where
  "on_parse r s = map_option (\<lambda>(ok, p). (ok, s\<lparr>parse := p\<rparr>)) r"

section \<open>Definitions\<close>

definition handle_eip712_v1_struct_def :: "uint8 \<Rightarrow> bytes \<Rightarrow> eip712_state \<Rightarrow> command_result" where
  "handle_eip712_v1_struct_def p2 cdata s =
     (if eip712_v1_context s = None \<and> appState712 s \<noteq> APP_STATE_IDLE then Some (SWO_COMMAND_NOT_ALLOWED, s)
      else
        (case (if eip712_v1_context s = None then eip712_v1_context_init s else (True, s)) of
           (ok, s) \<Rightarrow>
             if \<not> ok \<or> v1_get_root_type (parse s) \<noteq> ROOT_NONE \<or> ui_712_get_filtering_mode s = EIP712_FILTERING_FULL then
               Some (SWO_PARAMETER_ERROR_NO_INFO, s)
             else if p2 = P2_DEF_NAME then
               answer SWO_PARAMETER_ERROR_NO_INFO (on_parse (Some (v1_set_struct_name cdata (parse s))) s)
             else if p2 = P2_DEF_FIELD then
               answer SWO_PARAMETER_ERROR_NO_INFO (on_parse (v1_set_struct_field cdata (parse s)) s)
             else Some (SWO_WRONG_P1_P2, s)))"

section \<open>Values\<close>

definition impl_field :: "eip712_platform \<Rightarrow> (nat \<Rightarrow> uint8) \<Rightarrow> uint8 \<Rightarrow> bytes \<Rightarrow> eip712_state \<Rightarrow> ui_result" where
  "impl_field P fresh p1 cdata s =
     (case v1_get_current_field (parse s) of
        None \<Rightarrow> Some (False, s)
      | Some cur_field \<Rightarrow> do {
          s \<leftarrow> (if p1 = P1_COMPLETE then ui_712_check_field_filtering P s else Some s);
          f \<leftarrow> field_at (g_structs (parse s)) cur_field;
          (leaf, p) \<leftarrow> v1_add_field fresh cdata (p1 \<noteq> P1_COMPLETE) (parse s);
          let s = s\<lparr>parse := p\<rparr>;
          (case leaf of
             None \<Rightarrow> Some (False, s)
           | Some (_, data) \<Rightarrow> if p1 = P1_COMPLETE then ui_712_accumulate_value P f data s else Some (True, s)) })"

definition handle_eip712_v1_struct_impl ::
  "eip712_platform \<Rightarrow> (nat \<Rightarrow> uint8) \<Rightarrow> uint8 \<Rightarrow> uint8 \<Rightarrow> bytes \<Rightarrow> eip712_state \<Rightarrow> command_result" where
  "handle_eip712_v1_struct_impl P fresh p1 p2 cdata s =
     (if eip712_v1_context s = None then Some (SWO_COMMAND_NOT_ALLOWED, s)
      else if p2 = P2_IMPL_NAME then do {
        (ok, s) \<leftarrow> on_parse (v1_set_root (buf_string cdata) (parse s)) s;
        if \<not> ok then Some (SWO_PARAMETER_ERROR_NO_INFO, s)
        else do { s \<leftarrow> ui_712_field_flags_reset s; Some (SWO_SUCCESS, s) } }
      else if p2 = P2_IMPL_FIELD then answer SWO_PARAMETER_ERROR_NO_INFO (impl_field P fresh p1 cdata s)
      else if p2 = P2_IMPL_ARRAY then
        (if length cdata \<noteq> 1 then Some (SWO_INCORRECT_DATA, s)
         else answer SWO_PARAMETER_ERROR_NO_INFO (on_parse (v1_set_array (unat (hd cdata)) (parse s)) s))
      else Some (SWO_WRONG_P1_P2, s))"

section \<open>Filters\<close>

definition filt_activate :: "eip712_platform \<Rightarrow> eip712_state \<Rightarrow> ui_result" where
  "filt_activate P s =
     (if verbose_eip712 P then Some (True, s)
      else do {
        c \<leftarrow> eip712_v1_context s;
        (h, m) \<leftarrow> compute_schema_hash (crypto P) (g_structs (parse s)) (td_mem (parse s));
        let s = s\<lparr>parse := (parse s)\<lparr>td_mem := m\<rparr>\<rparr>;
        (case h of
           None \<Rightarrow> Some (False, s)
         | Some h \<Rightarrow> do {
             s \<leftarrow> ui_712_set_filtering_mode EIP712_FILTERING_FULL (s\<lparr>eip712_v1_context := Some (c\<lparr>schema_hash := h\<rparr>)\<rparr>);
             Some (True, s) }) })"

text \<open>The filters of a field, by their P2.\<close>

definition field_filter :: "eip712_platform \<Rightarrow> uint8 \<Rightarrow> bytes \<Rightarrow> bool \<Rightarrow> uint32 \<Rightarrow> eip712_state \<Rightarrow> filter_result option" where
  "field_filter P p2 cdata discarded crc s =
     (if p2 = P2_FILT_CALLDATA_SPENDER then Some (filtering_calldata_spender P cdata discarded crc s)
      else if p2 = P2_FILT_CALLDATA_AMOUNT then Some (filtering_calldata_amount P cdata discarded crc s)
      else if p2 = P2_FILT_CALLDATA_SELECTOR then Some (filtering_calldata_selector P cdata discarded crc s)
      else if p2 = P2_FILT_CALLDATA_CHAIN_ID then Some (filtering_calldata_chain_id P cdata discarded crc s)
      else if p2 = P2_FILT_CALLDATA_CALLEE then Some (filtering_calldata_callee P cdata discarded crc s)
      else if p2 = P2_FILT_CALLDATA_VALUE then Some (filtering_calldata_value P cdata discarded crc s)
      else if p2 = P2_FILT_CONTRACT_NAME then Some (filtering_trusted_name P cdata discarded crc s)
      else if p2 = P2_FILT_DATE_TIME then Some (filtering_date_time P cdata discarded crc s)
      else if p2 = P2_FILT_AMOUNT_JOIN_TOKEN then Some (filtering_amount_join_token P cdata discarded crc s)
      else if p2 = P2_FILT_AMOUNT_JOIN_VALUE then Some (filtering_amount_join_value P cdata discarded crc s)
      else if p2 = P2_FILT_RAW_FIELD then Some (filtering_raw_field P cdata discarded crc s)
      else None)"

definition handle_eip712_v1_filtering :: "eip712_platform \<Rightarrow> uint8 \<Rightarrow> uint8 \<Rightarrow> bytes \<Rightarrow> eip712_state \<Rightarrow> command_result" where
  "handle_eip712_v1_filtering P p1 p2 cdata s =
     (if eip712_v1_context s = None then Some (SWO_COMMAND_NOT_ALLOWED, s)
      else if p2 \<noteq> P2_FILT_ACTIVATE \<and> ui_712_get_filtering_mode s \<noteq> EIP712_FILTERING_FULL then Some (SWO_SUCCESS, s)
      else if P2_FILT_MESSAGE_INFO < p2 \<and> v1_field_streaming (parse s) then Some (SWO_COMMAND_NOT_ALLOWED, s)
      else do {
        uninstantiated \<leftarrow> v1_current_field_uninstantiated_array (parse s);
        if P2_FILT_MESSAGE_INFO < p2 \<and> p1 \<noteq> P1_DISCARDED \<and> uninstantiated then Some (SWO_INCORRECT_DATA, s)
        else if p2 = P2_FILT_ACTIVATE then answer SWO_PARAMETER_ERROR_NO_INFO (filt_activate P s)
        else if p2 = P2_FILT_DISCARDED_PATH then answer SWO_PARAMETER_ERROR_NO_INFO (filtering_discarded_path cdata s)
        else if p2 = P2_FILT_MESSAGE_INFO then do {
          (ok, s) \<leftarrow> filtering_message_info P cdata s;
          Some (if ok then SWO_NO_RESPONSE else SWO_PARAMETER_ERROR_NO_INFO, s) }
        else if p2 = P2_FILT_CALLDATA_INFO then answer SWO_PARAMETER_ERROR_NO_INFO (filtering_calldata_info P cdata s)
        else
          (case field_filter P p2 cdata (p1 = P1_DISCARDED) 0 s of
             None \<Rightarrow> Some (SWO_WRONG_P1_P2, s)
           | Some r \<Rightarrow> do {
               (ok, crc, s) \<leftarrow> r;
               if \<not> ok then Some (SWO_PARAMETER_ERROR_NO_INFO, s)
               else answer SWO_PARAMETER_ERROR_NO_INFO (ui_712_push_new_filter_path crc s) }) })"

section \<open>Signing\<close>

text \<open>\<open>contexts\<close> is the number of nested transactions whose review is not over; \<open>rest\<close> what follows a derivation path.\<close>

definition filters_satisfied :: "eip712_state \<Rightarrow> bool option" where
  "filters_satisfied s =
     (if ui_712_get_filtering_mode s \<noteq> EIP712_FILTERING_FULL then Some True
      else do {
        info \<leftarrow> ui_712_message_info_received s;
        remaining \<leftarrow> ui_712_remaining_filters s;
        Some (info \<and> remaining = 0 \<and> \<not> ui_712_filtering_broken s \<and> \<not> ui_712_pending_amount_joins s) })"

text \<open>The texts of the trees that \<open>ui_712_populate_from_value_tree\<close> shows are not modelled; \<open>shown\<close> says whether it succeeds.
  The screen with the hash that small devices add is left out.  A review that started here and then fails is not
  reported: the result of \<open>ui_712_start\<close> is still in \<open>ret\<close>.\<close>

definition sign_review :: "eip712_platform \<Rightarrow> bool \<Rightarrow> eip712_state \<Rightarrow> sw \<times> eip712_state" where
  "sign_review P shown s =
     (let filt_mode = ui_712_get_filtering_mode s
      in if filt_mode = EIP712_FILTERING_BASIC \<and> \<not> dataAllowed P \<and> \<not> verbose_eip712 P then (SWO_INCORRECT_DATA, s)
         else if appState712 s \<noteq> APP_STATE_SIGNING_EIP712 \<and> filt_mode = EIP712_FILTERING_BASIC \<and> \<not> shown then (SWO_INCORRECT_DATA, s)
         else
           (let started = (appState712 s \<noteq> APP_STATE_SIGNING_EIP712); s = (if started then ui_712_start s else s)
            in case ui_712_end_sign P s of
                 (True, s) \<Rightarrow> (SWO_NO_RESPONSE, s)
               | (False, s) \<Rightarrow> (if started then SWO_NO_RESPONSE else SWO_COMMAND_ERROR_NO_INFO, s)))"

definition handle_eip712_v1_sign ::
  "eip712_platform \<Rightarrow> (bytes \<Rightarrow> nat \<Rightarrow> nat \<Rightarrow> uint32 list option) \<Rightarrow> nat \<Rightarrow> nat \<Rightarrow> bool \<Rightarrow> bytes \<Rightarrow> bip32_path_t \<Rightarrow> eip712_state
     \<Rightarrow> (sw \<times> bip32_path_t \<times> eip712_state) option" where
  "handle_eip712_v1_sign P rdp addr contexts shown cdata b s =
     (if eip712_v1_context s = None then Some (SWO_COMMAND_NOT_ALLOWED, b, s)
      else if \<not> v1_is_complete (parse s) then Some (SWO_INCORRECT_DATA, b, s)
      else
        (case eip712_v1_sign_claim s of
           (False, s) \<Rightarrow> Some (SWO_COMMAND_NOT_ALLOWED, b, s)
         | (True, s) \<Rightarrow> do {
             (ok, p, t) \<leftarrow> value_hash_pass (crypto P) (parse s) (hashes712 s);
             let s = s\<lparr>parse := p, hashes712 := t\<rparr>;
             if \<not> ok then Some (SWO_PARAMETER_ERROR_NO_INFO, b, s)
             else do {
               filters \<leftarrow> filters_satisfied s;
               if \<not> filters then Some (SWO_REFERENCED_DATA_NOT_FOUND, b, s)
               else do {
                 calldata \<leftarrow> all_calldata_info_processed s;
                 if \<not> calldata \<or> contexts \<noteq> 0 then Some (SWO_REFERENCED_DATA_NOT_FOUND, b, s)
                 else do {
                   (rest, _, b) \<leftarrow> parseBip32 rdp addr cdata (word_of_nat (length cdata)) b;
                   (case rest of
                      None \<Rightarrow> Some (SWO_INCORRECT_DATA, b, s)
                    | Some _ \<Rightarrow> (case sign_review P shown s of (sw, s) \<Rightarrow> Some (sw, b, s))) } } } }))"

text \<open>What the approval of the user signs.\<close>

definition ui_712_approve_cb :: "(bytes \<Rightarrow> bytes) \<Rightarrow> eip712_state \<Rightarrow> bytes option" where
  "ui_712_approve_cb keccak s =
     (if appState712 s \<noteq> APP_STATE_SIGNING_EIP712 then None else Some (keccak (eip712_digest_input (hashes712 s))))"

text \<open>The command without definitions takes both hashes from the host.\<close>

definition handle_sign_eip712_message_v0 ::
  "eip712_platform \<Rightarrow> (bytes \<Rightarrow> nat \<Rightarrow> nat \<Rightarrow> uint32 list option) \<Rightarrow> nat \<Rightarrow> uint8 \<Rightarrow> bytes \<Rightarrow> bip32_path_t \<Rightarrow> eip712_state
     \<Rightarrow> (sw \<times> bip32_path_t \<times> eip712_state) option" where
  "handle_sign_eip712_message_v0 P rdp addr p1 cdata b s =
     (if p1 \<noteq> 0 then Some (SWO_WRONG_P1_P2, b, s)
      else if appState712 s \<noteq> APP_STATE_IDLE then Some (SWO_COMMAND_NOT_ALLOWED, b, s)
      else if \<not> dataAllowed P then Some (SWO_INCORRECT_DATA, b, s)
      else do {
        (rest, n, b) \<leftarrow> parseBip32 rdp addr cdata (word_of_nat (length cdata)) b;
        (case rest of
           None \<Rightarrow> Some (SWO_INCORRECT_DATA, b, s)
         | Some rest \<Rightarrow>
             if unat n < 64 then Some (SWO_INCORRECT_DATA, b, s)
             else do {
               d \<leftarrow> rd_n rest 0 32;
               m \<leftarrow> rd_n rest 32 32;
               let s = s\<lparr>hashes712 := \<lparr>domainHash = d, messageHash = m\<rparr>\<rparr>;
               Some (if review_starts P then (SWO_NO_RESPONSE, b, ui_712_start s) else (SWO_INCORRECT_DATA, b, s)) }) })"

section \<open>Sessions\<close>

text \<open>The commands between the first definition and the signature, and what the main loop does with their status words.\<close>

datatype eip712_command =
    STRUCT_DEF uint8 bytes
  | STRUCT_IMPL uint8 uint8 bytes
  | FILTERING uint8 uint8 bytes

definition run_command :: "eip712_platform \<Rightarrow> (nat \<Rightarrow> uint8) \<Rightarrow> eip712_command \<Rightarrow> eip712_state \<Rightarrow> command_result" where
  "run_command P fresh c s =
     (case c of
        STRUCT_DEF p2 cdata \<Rightarrow> handle_eip712_v1_struct_def p2 cdata s
      | STRUCT_IMPL p1 p2 cdata \<Rightarrow> handle_eip712_v1_struct_impl P fresh p1 p2 cdata s
      | FILTERING p1 p2 cdata \<Rightarrow> handle_eip712_v1_filtering P p1 p2 cdata s)"

definition command_reset :: "sw \<Rightarrow> eip712_state \<Rightarrow> eip712_state" where
  "command_reset sw s = (if sw = SWO_SUCCESS \<or> sw = SWO_NO_RESPONSE then s else reset_712 s)"

fun run_session :: "eip712_platform \<Rightarrow> (nat \<Rightarrow> uint8) \<Rightarrow> eip712_command list \<Rightarrow> eip712_state \<Rightarrow> (sw list \<times> eip712_state) option" where
  "run_session P fresh [] s = Some ([], s)"
| "run_session P fresh (c # cs) s = do {
     (sw, s) \<leftarrow> run_command P fresh c s;
     (sws, s) \<leftarrow> run_session P fresh cs (command_reset sw s);
     Some (sw # sws, s) }"

end
