(* ===== verification/Eip712_Hash_Proofs.thy ===== *)
theory Eip712_Hash_Proofs
  imports Eip712_Hash "HOL-Library.Multiset" "HOL-Library.List_Lexorder" "HOL-Library.Char_ord"
begin

text \<open>
  The hashes of EIP-712 against the standard: \<open>encode_type\<close>, \<open>encode_data\<close> and \<open>hash_of\<close> are its definitions, over the set of the
  definitions that a type refers to, and over numbers.  The text of the schema determines the schema.
\<close>

declare deps_loop.simps [simp del]

section \<open>What a hashing step absorbs\<close>

definition absorbs :: "bytes \<Rightarrow> bytes \<Rightarrow> mem \<Rightarrow> hashing \<Rightarrow> bool" where
  "absorbs h x m r \<longleftrightarrow> (\<exists>y m'. r = Some (y, m') \<and> live m' = live m \<and> (\<forall>z. y = Some z \<longrightarrow> z = h @ x))"

named_theorems absorb_intros \<open>what the hashing steps absorb\<close>

lemma absorbs_hput [absorb_intros]: "absorbs h x m (hput upd x h m)"
  by (simp add: absorbs_def hput_def)

lemma absorbs_skip [absorb_intros]: "absorbs h [] m (Some (Some h, m))"
  by (simp add: absorbs_def)

lemma absorbs_fail [absorb_intros]: "absorbs h x m (Some (None, m))"
  by (simp add: absorbs_def)

lemma absorbs_bind:
  assumes "absorbs h x m r" and "\<And>m'. live m' = live m \<Longrightarrow> absorbs (h @ x) x' m' (k (h @ x) m')"
  shows "absorbs h (x @ x') m (hbind r k)"
proof -
  from assms(1) obtain y m' where r: "r = Some (y, m')" "live m' = live m" "\<forall>z. y = Some z \<longrightarrow> z = h @ x" by (auto simp: absorbs_def)
  show ?thesis
  proof (cases y)
    case None
    then show ?thesis using r by (simp add: hbind_def absorbs_def)
  next
    case (Some z)
    then have "hbind r k = k (h @ x) m'" using r by (simp add: hbind_def)
    then show ?thesis using assms(2) [OF r(2)] r(2) by (auto simp: absorbs_def)
  qed
qed

lemma absorbs_uint [absorb_intros]: "absorbs h (text_bytes (digit_str 10 n)) m (hput_uint upd n h m)"
  by (cases "mem_alloc m" rule: prod.exhaust)
    (auto simp: hput_uint_def absorbs_def hput_def dest!: mem_alloc_live split: bool.splits)

lemma text_bytes_append: "text_bytes (s @ t) = text_bytes s @ text_bytes t"
  by (simp add: text_bytes_def)

lemma text_bytes_Nil [simp]: "text_bytes [] = []"
  by (simp add: text_bytes_def)

section \<open>The texts of the standard\<close>

definition level_text :: "s_struct_712_field_array_level \<Rightarrow> string" where
  "level_text l = ''['' @ (case level_type l of ARRAY_DYNAMIC \<Rightarrow> '''' | ARRAY_FIXED_SIZE \<Rightarrow> digit_str 10 (unat (level_size l))) @ '']''"

definition size_text :: "s_struct_712_field \<Rightarrow> string" where
  "size_text f =
     (case field_type f of
        TYPE_SOL_INT \<Rightarrow> digit_str 10 (8 * unat (type_size f))
      | TYPE_SOL_UINT \<Rightarrow> digit_str 10 (8 * unat (type_size f))
      | TYPE_SOL_BYTES_FIX \<Rightarrow> digit_str 10 (unat (type_size f))
      | _ \<Rightarrow> '''')"

definition field_levels :: "s_struct_712_field \<Rightarrow> s_struct_712_field_array_level list" where
  "field_levels f = (if array_level_count f = 0 then [] else take (unat (array_level_count f)) (the (array_levels f)))"

definition type_text :: "s_struct_712_field \<Rightarrow> string" where
  "type_text f = the (td_get_struct_field_typename f) @ size_text f @ concat (map level_text (field_levels f))"

fun joined :: "string list \<Rightarrow> string" where
  "joined [] = ''''"
| "joined [x] = x"
| "joined (x # y # xs) = x @ '','' @ joined (y # xs)"

definition field_text :: "s_struct_712_field \<Rightarrow> string" where
  "field_text f = type_text f @ '' '' @ the (key_name f)"

definition struct_text :: "s_struct_712 \<Rightarrow> string" where
  "struct_text d = td_name d @ ''('' @ joined (map field_text (td_fields d)) @ '')''"

text \<open>What the parser guarantees of a field.\<close>

definition field_ok :: "s_struct_712_field \<Rightarrow> bool" where
  "field_ok f \<longleftrightarrow> key_name f \<noteq> None \<and> (field_type f = TYPE_STRUCT \<longrightarrow> struct_name f \<noteq> None) \<and>
     (array_level_count f \<noteq> 0 \<longrightarrow> (\<exists>ls. array_levels f = Some ls \<and> length ls = unat (array_level_count f))) \<and>
     (field_type f \<in> {TYPE_SOL_INT, TYPE_SOL_UINT, TYPE_SOL_BYTES_FIX} \<longrightarrow> 0 < unat (type_size f) \<and> unat (type_size f) \<le> 32)"

definition schema_ok :: "s_struct_712 list \<Rightarrow> bool" where
  "schema_ok ds \<longleftrightarrow> (\<forall>d \<in> set ds. \<forall>f \<in> set (td_fields d). field_ok f)"

lemma absorbs_level: "absorbs h (text_bytes (level_text l)) m (format_level upd l h m)"
proof -
  have "absorbs h (text_bytes (case level_type l of ARRAY_DYNAMIC \<Rightarrow> '''' | ARRAY_FIXED_SIZE \<Rightarrow> digit_str 10 (unat (level_size l)))) m
      (case level_type l of ARRAY_DYNAMIC \<Rightarrow> Some (Some h, m) | ARRAY_FIXED_SIZE \<Rightarrow> hput_uint upd (unat (level_size l)) h m)" for h m
    by (cases "level_type l") (simp_all add: absorb_intros)
  then show ?thesis unfolding level_text_def text_bytes_append format_level.simps by (intro absorbs_bind absorbs_hput)
qed

lemma absorbs_levels:
  "\<forall>i \<in> set is. i < length ls \<Longrightarrow> absorbs h (text_bytes (concat (map (\<lambda>i. level_text (ls ! i)) is))) m (format_levels upd ls is h m)"
proof (induction "is" arbitrary: h m)
  case (Cons i "is")
  have "absorbs h (text_bytes (level_text (ls ! i)) @ text_bytes (concat (map (\<lambda>i. level_text (ls ! i)) is))) m
      (hbind (format_level upd (ls ! i) h m) (format_levels upd ls is))"
    by (intro absorbs_bind absorbs_level Cons.IH) (use Cons.prems in simp)
  then show ?case using Cons.prems by (simp add: text_bytes_append rd_def)
qed (simp add: absorb_intros)

lemma unat_wide: "unat (ucast (n :: uint8) :: uint16) = unat n"
  by (simp add: unsigned_ucast_eq take_bit_nat_eq_self less_trans [OF unat_word8_lt])

lemma unat_bits: "unat ((ucast (n :: uint8) :: uint16) * 8) = 8 * unat n"
proof -
  have "unat n * 8 < 2 ^ 16" using unat_word8_lt [of n] by (simp del: unat_word8_lt)
  then show ?thesis by (simp add: unat_word_ariths(2) unat_wide mult.commute)
qed

lemma absorbs_field_type:
  assumes f: "field_ok f"
  shows "absorbs h (text_bytes (type_text f)) m (format_hash_field_type upd f h m)"
proof -
  obtain name where n: "td_get_struct_field_typename f = Some name"
    using f by (cases "field_type f") (auto simp: td_get_struct_field_typename_def get_struct_field_sol_typename_def field_ok_def)
  have sz: "absorbs h (text_bytes (size_text f)) m
      (if field_type f \<in> {TYPE_SOL_INT, TYPE_SOL_UINT, TYPE_SOL_BYTES_FIX} then format_hash_field_type_size upd f h m else Some (Some h, m))" for h m
    using absorbs_uint by (cases "field_type f")
      (auto simp: format_hash_field_type_size_def size_text_def Let_def unat_bits unat_wide intro: absorb_intros)
  have lv: "absorbs h (text_bytes (concat (map level_text (field_levels f)))) m
      (if 0 < array_level_count f then format_hash_field_type_array_levels upd f h m else Some (Some h, m))" for h m
  proof (cases "array_level_count f = 0")
    case True
    then show ?thesis by (simp add: field_levels_def absorb_intros)
  next
    case False
    then obtain ls where ls: "array_levels f = Some ls" "length ls = unat (array_level_count f)" using f by (auto simp: field_ok_def)
    have e: "map (\<lambda>i. level_text (ls ! i)) [0..<length ls] = map level_text ls" by (rule nth_equalityI) simp_all
    have "absorbs h (text_bytes (concat (map level_text ls))) m (format_levels upd ls [0..<length ls] h m)"
      using absorbs_levels [of "[0..<length ls]" ls h m upd] unfolding e by simp
    then show ?thesis using ls False
      by (simp add: field_levels_def format_hash_field_type_array_levels_def word_gt_0)
  qed
  show ?thesis unfolding format_hash_field_type_def n option.case type_text_def option.sel text_bytes_append
    by (intro absorbs_bind absorbs_hput sz lv)
qed

lemma absorbs_field:
  assumes f: "field_ok f"
  shows "absorbs h (text_bytes ((if first then '''' else '','') @ field_text f)) m (encode_and_hash_field upd first f h m)"
proof -
  obtain k where k: "key_name f = Some k" using f by (auto simp: field_ok_def)
  have c: "absorbs h (text_bytes (if first then '''' else '','')) m (if \<not> first then hput upd (text_bytes '','') h m else Some (Some h, m))" for h m
    by (simp add: absorb_intros)
  show ?thesis unfolding encode_and_hash_field_def field_text_def text_bytes_append k
    by (intro absorbs_bind c absorbs_field_type f) (simp_all add: absorb_intros)
qed

lemma joined_Cons: "joined (x # xs) = x @ (case xs of [] \<Rightarrow> '''' | _ \<Rightarrow> '','' @ joined xs)"
  by (cases xs) simp_all

lemma absorbs_fields:
  "\<forall>f \<in> set fs. field_ok f \<Longrightarrow>
   absorbs h (text_bytes ((if first \<or> fs = [] then '''' else '','') @ joined (map field_text fs))) m (encode_and_hash_fields upd first fs h m)"
proof (induction fs arbitrary: h m first)
  case Nil
  then show ?case by (simp add: absorb_intros)
next
  case (Cons f fs)
  have "text_bytes ((if first \<or> f # fs = [] then '''' else '','') @ joined (map field_text (f # fs))) =
      text_bytes ((if first then '''' else '','') @ field_text f) @ text_bytes ((if False \<or> fs = [] then '''' else '','') @ joined (map field_text fs))"
    by (cases fs) (simp_all add: joined_Cons text_bytes_append)
  note e = this
  have ok: "field_ok f" "\<forall>f \<in> set fs. field_ok f" using Cons.prems by auto
  show ?case unfolding e encode_and_hash_fields.simps by (intro absorbs_bind absorbs_field Cons.IH ok)
qed

lemma absorbs_type:
  assumes "\<forall>f \<in> set (td_fields d). field_ok f"
  shows "absorbs h (text_bytes (struct_text d)) m (encode_and_hash_type upd d h m)"
  using absorbs_fields [OF assms, where first = True] unfolding encode_and_hash_type_def struct_text_def text_bytes_append
  by (intro absorbs_bind absorbs_hput) simp

section \<open>The definitions that a type refers to\<close>

definition refers :: "s_struct_712 list \<Rightarrow> (nat \<times> nat) set" where
  "refers ds = {(i, j). i < length ds \<and> (\<exists>f \<in> set (td_fields (ds ! i)). field_type f = TYPE_STRUCT \<and> td_find_struct (struct_name f) ds = Some j)}"

lemma refers_less: "(i, j) \<in> refers ds \<Longrightarrow> i < length ds \<and> j < length ds"
  using td_find_struct_Some by (auto simp: refers_def)

text \<open>The fields of a definition whose struct is not defined.\<close>

definition resolved :: "s_struct_712 list \<Rightarrow> nat \<Rightarrow> bool" where
  "resolved ds i \<longleftrightarrow> (\<forall>f \<in> set (td_fields (ds ! i)). field_type f = TYPE_STRUCT \<longrightarrow> td_find_struct (struct_name f) ds \<noteq> None)"

lemma collect_deps_ok:
  assumes "collect_deps ds fs deps m = (True, deps', m')"
  shows "(\<forall>f \<in> set fs. field_type f = TYPE_STRUCT \<longrightarrow> (\<exists>j \<in> set deps'. td_find_struct (struct_name f) ds = Some j)) \<and>
    (\<forall>j \<in> set deps'. j \<in> set deps \<or> (\<exists>f \<in> set fs. field_type f = TYPE_STRUCT \<and> td_find_struct (struct_name f) ds = Some j))"
  using assms
proof (induction fs arbitrary: deps m)
  case (Cons f fs)
  obtain deps1 m1 where o: "collect_one_dep ds f deps m = (True, deps1, m1)" "collect_deps ds fs deps1 m1 = (True, deps', m')"
    using Cons.prems by (auto split: prod.splits if_splits)
  have a: "(field_type f = TYPE_STRUCT \<longrightarrow> (\<exists>j \<in> set deps1. td_find_struct (struct_name f) ds = Some j)) \<and>
      (\<forall>j \<in> set deps1. j \<in> set deps \<or> field_type f = TYPE_STRUCT \<and> td_find_struct (struct_name f) ds = Some j)"
    using o(1) by (auto simp: collect_one_dep_def add_dep_if_new_def td_get_struct_field_typename_def split: if_splits option.splits prod.splits bool.splits)
  have s: "set deps1 \<subseteq> set deps'" using collect_deps_new [OF o(2)] by auto
  note ih = Cons.IH [OF o(2)]
  show ?case
  proof (intro conjI ballI impI)
    fix g assume "g \<in> set (f # fs)" "field_type g = TYPE_STRUCT"
    then show "\<exists>j \<in> set deps'. td_find_struct (struct_name g) ds = Some j" using a ih s by (cases "g = f") auto
  next
    fix j assume "j \<in> set deps'"
    then show "j \<in> set deps \<or> (\<exists>g \<in> set (f # fs). field_type g = TYPE_STRUCT \<and> td_find_struct (struct_name g) ds = Some j)"
      using a ih by (metis list.set_intros(1,2))
  qed
qed simp

lemma collect_direct_deps_ok:
  assumes "collect_direct_deps ds i deps m = Some (True, deps', m')"
  shows "i < length ds \<and> resolved ds i \<and> (refers ds) `` {i} \<subseteq> set deps' \<and> set deps' \<subseteq> set deps \<union> (refers ds) `` {i}"
proof -
  from assms have i: "i < length ds" "collect_deps ds (td_fields (ds ! i)) deps m = (True, deps', m')"
    by (auto simp: collect_direct_deps_def rd_def bind_eq_Some_conv split: if_splits)
  from collect_deps_ok [OF i(2)] i(1) show ?thesis by (fastforce simp: refers_def resolved_def)
qed

lemma collect_direct_deps_new:
  "collect_direct_deps ds i deps m = Some (ok, deps', m') \<Longrightarrow>
   \<exists>new. deps' = deps @ new \<and> distinct new \<and> set new \<subseteq> {..<length ds} - set deps \<and> live m' = live m + length new"
  using collect_deps_new by (auto simp: collect_direct_deps_def bind_eq_Some_conv)

lemma collect_direct_deps_total: "i < length ds \<Longrightarrow> collect_direct_deps ds i deps m \<noteq> None"
  by (simp add: collect_direct_deps_def rd_def)

text \<open>What the loop keeps: the entries are distinct definitions reachable from the first one, and those before the cursor are
  done.\<close>

definition deps_inv :: "s_struct_712 list \<Rightarrow> nat \<Rightarrow> nat \<Rightarrow> nat list \<Rightarrow> bool" where
  "deps_inv ds i cursor deps \<longleftrightarrow> distinct deps \<and> set deps \<subseteq> (refers ds)\<^sup>+ `` {i} \<and> (refers ds) `` {i} \<subseteq> set deps \<and> resolved ds i \<and>
     (\<forall>d \<in> set (take cursor deps). (refers ds) `` {d} \<subseteq> set deps \<and> resolved ds d)"

lemma refers_image_less: "set deps \<subseteq> (refers ds)\<^sup>+ `` {i} \<Longrightarrow> d \<in> set deps \<Longrightarrow> d < length ds"
  using refers_less by (fastforce dest: tranclD2)

lemma deps_loop_total:
  assumes "deps_inv ds i cursor deps"
  shows "\<exists>ok deps' m'. deps_loop ds cursor deps m = Some (ok, deps', m') \<and> live m' + length deps = live m + length deps' \<and>
    distinct deps' \<and> (ok \<longrightarrow> deps_inv ds i (length deps') deps')"
  using assms
proof (induction ds cursor deps m rule: deps_loop.induct)
  case (1 ds cursor deps m)
  show ?case
  proof (cases "length deps \<le> cursor")
    case True
    then show ?thesis using "1.prems" by (simp add: deps_loop.simps deps_inv_def)
  next
    case False
    let ?d = "deps ! cursor"
    have d: "?d \<in> set deps" "?d < length ds" using False "1.prems" refers_image_less by (auto simp: deps_inv_def)
    obtain ok deps1 m1 where c: "collect_direct_deps ds ?d deps m = Some (ok, deps1, m1)"
      using collect_direct_deps_total [OF d(2), of deps m] by auto
    from collect_direct_deps_new [OF c] obtain new where
      n: "deps1 = deps @ new" "distinct new" "set new \<subseteq> {..<length ds} - set deps" "live m1 = live m + length new" by blast
    have dist: "distinct deps1" using n "1.prems" by (auto simp: deps_inv_def)
    show ?thesis
    proof (cases ok)
      case True
      have c1: "collect_direct_deps ds ?d deps m = Some (True, deps1, m1)" using c True by simp
      have k: "resolved ds ?d" "(refers ds) `` {?d} \<subseteq> set deps1" "set deps1 \<subseteq> set deps \<union> (refers ds) `` {?d}"
        using collect_direct_deps_ok [OF c1] by blast+
      have t: "take (Suc cursor) deps1 = take cursor deps @ [?d]" using False n(1) by (simp add: take_Suc_conv_app_nth)
      have "(refers ds) `` {?d} \<subseteq> (refers ds)\<^sup>+ `` {i}" using d(1) "1.prems" by (auto simp: deps_inv_def intro: trancl_into_trancl)
      then have "deps_inv ds i (Suc cursor) deps1"
        using "1.prems" k dist n(1) unfolding deps_inv_def t by auto
      from "1.IH" [OF False c refl _ refl this] True have
        "\<exists>ok deps' m'. deps_loop ds (Suc cursor) deps1 m1 = Some (ok, deps', m') \<and> live m' + length deps1 = live m1 + length deps' \<and>
           distinct deps' \<and> (ok \<longrightarrow> deps_inv ds i (length deps') deps')" by simp
      moreover have "deps_loop ds cursor deps m = deps_loop ds (Suc cursor) deps1 m1" using False c True by (subst deps_loop.simps) simp
      ultimately show ?thesis using n(1,4) by auto
    next
      case False2: False
      then have "deps_loop ds cursor deps m = Some (False, deps1, m1)" using False c by (subst deps_loop.simps) simp
      then show ?thesis using n dist by auto
    qed
  qed
qed

lemma get_struct_dependencies_total:
  assumes "i < length ds"
  shows "\<exists>ok deps m'. get_struct_dependencies ds i m = Some (ok, deps, m') \<and> live m' = live m + length deps \<and> distinct deps \<and>
    (ok \<longrightarrow> set deps = (refers ds)\<^sup>+ `` {i} \<and> (\<forall>d \<in> insert i (set deps). resolved ds d))"
proof -
  obtain ok deps1 m1 where c: "collect_direct_deps ds i [] m = Some (ok, deps1, m1)"
    using collect_direct_deps_total [OF assms, of "[]" m] by auto
  from collect_direct_deps_new [OF c] have n: "distinct deps1" "live m1 = live m + length deps1" by auto
  show ?thesis
  proof (cases ok)
    case False
    then show ?thesis using c n by (intro exI [of _ False] exI [of _ deps1] exI [of _ m1]) (simp add: get_struct_dependencies_def)
  next
    case True
    have c1: "collect_direct_deps ds i [] m = Some (True, deps1, m1)" using c True by simp
    have "deps_inv ds i 0 deps1" using collect_direct_deps_ok [OF c1] n(1) by (auto simp: deps_inv_def)
    from deps_loop_total [OF this, of m1] obtain ok2 deps2 m2 where
      l: "deps_loop ds 0 deps1 m1 = Some (ok2, deps2, m2)" "live m2 + length deps1 = live m1 + length deps2" "distinct deps2"
        "ok2 \<longrightarrow> deps_inv ds i (length deps2) deps2" by blast
    have "set deps2 = (refers ds)\<^sup>+ `` {i} \<and> (\<forall>d \<in> insert i (set deps2). resolved ds d)" if "ok2"
    proof -
      have inv: "deps_inv ds i (length deps2) deps2" using l(4) that by blast
      have "j \<in> set deps2" if "(i, j) \<in> (refers ds)\<^sup>+" for j
        using that inv by (induction rule: trancl.induct) (auto simp: deps_inv_def)
      then show ?thesis using inv by (auto simp: deps_inv_def)
    qed
    then show ?thesis using c True l n(2) by (simp add: get_struct_dependencies_def)
  qed
qed

section \<open>The order of the names\<close>

lemma strncmp_le:
  "name_le xs ys \<longleftrightarrow> xs \<le> ys"
proof -
  have "(let r = strncmp n xs ys in \<not> (0 < r \<or> r = 0 \<and> length ys < length xs)) \<longleftrightarrow> xs \<le> ys" if "n = min (length xs) (length ys)" for n
    using that
  proof (induction n xs ys rule: strncmp.induct)
    case (1 xs ys)
    then show ?case by (cases xs; cases ys) auto
  qed (auto simp: Let_def less_char_def)
  then show ?thesis by (simp add: name_le_def)
qed

section \<open>The hash of a type\<close>

definition dependencies :: "s_struct_712 list \<Rightarrow> nat \<Rightarrow> nat set" where
  "dependencies ds i = (refers ds)\<^sup>+ `` {i} - {i}"

definition encode_type :: "s_struct_712 list \<Rightarrow> nat \<Rightarrow> string" where
  "encode_type ds i =
     struct_text (ds ! i) @ concat (map (\<lambda>j. struct_text (ds ! j)) (sort_key (\<lambda>j. td_name (ds ! j)) (sorted_list_of_set (dependencies ds i))))"

text \<open>The documented behaviour of the sort of the SDK.\<close>

definition sort_contract :: "eip712_env \<Rightarrow> bool" where
  "sort_contract E \<longleftrightarrow> (\<forall>cmp xs. (\<forall>a b. cmp a b \<or> cmp b a) \<and> transp cmp \<longrightarrow>
     mset (flist_sort E cmp xs) = mset xs \<and> sorted_wrt cmp (flist_sort E cmp xs))"

lemma mem_free_n: "live ((mem_free ^^ n) m) = live m - n"
  by (induction n) auto

lemma refers_named: "(i, j) \<in> (refers ds)\<^sup>+ \<Longrightarrow> j < length ds \<and> (\<forall>k < j. td_name (ds ! k) \<noteq> td_name (ds ! j))"
  by (auto simp: refers_def dest!: tranclD2 td_find_struct_Some)

lemma refers_name_inj: "inj_on (\<lambda>j. td_name (ds ! j)) ((refers ds)\<^sup>+ `` {i})"
proof (rule inj_onI)
  fix j k
  assume "j \<in> (refers ds)\<^sup>+ `` {i}" "k \<in> (refers ds)\<^sup>+ `` {i}" "td_name (ds ! j) = td_name (ds ! k)"
  then show "j = k" using refers_named by (metis ImageE linorder_less_linear singletonD)
qed

lemma sort_by_name:
  assumes "sort_contract E"
  shows "mset (flist_sort E (compare_struct_deps ds) xs) = mset xs"
    and "sorted_wrt (compare_struct_deps ds) (flist_sort E (compare_struct_deps ds) xs)"
proof -
  have cmp: "compare_struct_deps ds = (\<lambda>a b. td_name (ds ! a) \<le> td_name (ds ! b))"
    by (intro ext) (simp add: compare_struct_deps_def strncmp_le)
  have "(\<forall>a b. compare_struct_deps ds a b \<or> compare_struct_deps ds b a) \<and> transp (compare_struct_deps ds)"
    unfolding cmp by (auto intro: transpI)
  with assms show "mset (flist_sort E (compare_struct_deps ds) xs) = mset xs"
    "sorted_wrt (compare_struct_deps ds) (flist_sort E (compare_struct_deps ds) xs)" unfolding sort_contract_def by blast+
qed

lemma sorted_dependencies:
  assumes E: "sort_contract E" and d: "distinct deps" "set deps = (refers ds)\<^sup>+ `` {i}"
  shows "filter (\<lambda>j. j \<noteq> i) (flist_sort E (compare_struct_deps ds) deps) =
    sort_key (\<lambda>j. td_name (ds ! j)) (sorted_list_of_set (dependencies ds i))"
proof -
  let ?f = "\<lambda>j. td_name (ds ! j)" and ?xs = "flist_sort E (compare_struct_deps ds) deps"
    and ?ys = "sort_key (\<lambda>j. td_name (ds ! j)) (sorted_list_of_set (dependencies ds i))"
  have cmp: "compare_struct_deps ds = (\<lambda>a b. ?f a \<le> ?f b)" by (intro ext) (simp add: compare_struct_deps_def strncmp_le)
  note s = sort_by_name [OF E, of ds deps]
  have xs: "set ?xs = (refers ds)\<^sup>+ `` {i}" "distinct ?xs" using s(1) d by (metis mset_eq_setD, metis mset_eq_imp_distinct_iff)
  have fin: "finite (dependencies ds i)"
    by (rule finite_subset [of _ "{..<length ds}"]) (auto simp: dependencies_def dest!: refers_named)
  have ys: "set ?ys = dependencies ds i" "distinct ?ys" using fin by simp_all
  have "sorted (map ?f ?xs)" using s(2) by (simp add: cmp sorted_map)
  then have so: "sorted (map ?f (filter (\<lambda>j. j \<noteq> i) ?xs))" by (rule sorted_filter)
  have inj: "inj_on ?f (set (filter (\<lambda>j. j \<noteq> i) ?xs) \<union> set ?ys)"
    by (rule inj_on_subset [OF refers_name_inj [of ds i]]) (use xs ys in \<open>auto simp: dependencies_def\<close>)
  have di: "distinct (map ?f (filter (\<lambda>j. j \<noteq> i) ?xs))" "distinct (map ?f ?ys)"
    using inj xs(2) ys(2) by (auto simp: distinct_map inj_on_Un)
  show ?thesis
    by (rule map_sorted_distinct_set_unique [OF inj so di(1) _ di(2)]) (use xs ys in \<open>auto simp: dependencies_def\<close>)
qed

lemma absorbs_types:
  assumes "schema_ok ds" and "\<forall>d \<in> set deps. d < length ds"
  shows "absorbs h (text_bytes (concat (map (\<lambda>j. struct_text (ds ! j)) (filter (\<lambda>j. j \<noteq> i) deps)))) m (hash_types upd ds i deps h m)"
  using assms(2)
proof (induction deps arbitrary: h m)
  case (Cons d deps)
  show ?case
  proof (cases "d = i")
    case True
    then show ?thesis using Cons by simp
  next
    case False
    have ok: "\<forall>f \<in> set (td_fields (ds ! d)). field_ok f" using assms(1) Cons.prems by (auto simp: schema_ok_def)
    have "absorbs h (text_bytes (struct_text (ds ! d)) @ text_bytes (concat (map (\<lambda>j. struct_text (ds ! j)) (filter (\<lambda>j. j \<noteq> i) deps)))) m
        (hbind (encode_and_hash_type upd (ds ! d) h m) (hash_types upd ds i deps))"
      by (intro absorbs_bind absorbs_type ok Cons.IH) (use Cons.prems in auto)
    then show ?thesis using False Cons.prems by (simp add: rd_def text_bytes_append)
  qed
qed (simp add: absorb_intros)

definition final_of :: "(bytes \<Rightarrow> bytes option) \<Rightarrow> bytes \<Rightarrow> mem \<Rightarrow> hashing \<Rightarrow> bool" where
  "final_of fin x m r \<longleftrightarrow> (\<exists>y m'. r = Some (y, m') \<and> live m' = live m \<and> (\<forall>z. y = Some z \<longrightarrow> fin x = Some z))"

lemma final_of_bind: "absorbs h x m r \<Longrightarrow> final_of fin (h @ x) m (hbind r (hfinal fin))"
  by (auto simp: absorbs_def final_of_def hbind_def hfinal_def split: option.splits)

lemma final_of_step:
  assumes "absorbs h x m r" and "\<And>m'. live m' = live m \<Longrightarrow> final_of fin y m' (k (h @ x) m')"
  shows "final_of fin y m (hbind r k)"
  using assms by (fastforce simp: absorbs_def final_of_def hbind_def split: option.splits)

lemma final_of_fail: "final_of fin x m (Some (None, m))"
  by (simp add: final_of_def)

lemma type_hash_correct:
  assumes E: "sort_contract E" and ds: "schema_ok ds" and i: "td_find_struct (Some name) ds = Some i"
  shows "final_of (ke_final E) (text_bytes (encode_type ds i)) m (type_hash E ds name m)"
proof (cases "ke_init E")
  case False
  then show ?thesis using i by (simp add: type_hash_def final_of_fail)
next
  case True
  have il: "i < length ds" using td_find_struct_Some [OF i] by blast
  obtain ok deps m1 where g: "get_struct_dependencies ds i m = Some (ok, deps, m1)" "live m1 = live m + length deps" "distinct deps"
      "ok \<longrightarrow> set deps = (refers ds)\<^sup>+ `` {i}" using get_struct_dependencies_total [OF il, of m] by blast
  let ?r = "if \<not> ok then Some (None, m1)
      else do {
        d \<leftarrow> rd ds i;
        hbind (encode_and_hash_type (ke_update_ok E) d [] m1) (\<lambda>h m.
        hbind (hash_types (ke_update_ok E) ds i (flist_sort E (compare_struct_deps ds) deps) h m) (hfinal (ke_final E))) }"
  have "final_of (ke_final E) (text_bytes (encode_type ds i)) m1 ?r"
  proof (cases ok)
    case False
    then show ?thesis by (simp add: final_of_fail)
  next
    case ok: True
    let ?xs = "flist_sort E (compare_struct_deps ds) deps"
    have xs: "filter (\<lambda>j. j \<noteq> i) ?xs = sort_key (\<lambda>j. td_name (ds ! j)) (sorted_list_of_set (dependencies ds i))"
      by (rule sorted_dependencies [OF E g(3)]) (use g(4) ok in blast)
    have "mset ?xs = mset deps" by (rule sort_by_name(1) [OF E])
    then have "set ?xs = (refers ds)\<^sup>+ `` {i}" using g(4) ok by (metis mset_eq_setD)
    then have lt: "\<forall>d \<in> set ?xs. d < length ds" using refers_named by auto
    have fo: "\<forall>f \<in> set (td_fields (ds ! i)). field_ok f" using ds il by (auto simp: schema_ok_def)
    have "final_of (ke_final E) (text_bytes (struct_text (ds ! i)) @ text_bytes (concat (map (\<lambda>j. struct_text (ds ! j)) (filter (\<lambda>j. j \<noteq> i) ?xs)))) m1
        (hbind (encode_and_hash_type (ke_update_ok E) (ds ! i) [] m1) (\<lambda>h m.
         hbind (hash_types (ke_update_ok E) ds i ?xs h m) (hfinal (ke_final E))))"
      by (rule final_of_step [OF absorbs_type [OF fo]]) (simp, intro final_of_bind absorbs_types ds lt)
    then show ?thesis using ok il unfolding xs by (simp add: encode_type_def text_bytes_append rd_def)
  qed
  then obtain y m2 where r: "?r = Some (y, m2)" "live m2 = live m1" "\<forall>z. y = Some z \<longrightarrow> ke_final E (text_bytes (encode_type ds i)) = Some z"
    unfolding final_of_def by blast
  have "type_hash E ds name m = Some (y, (mem_free ^^ length deps) m2)"
    unfolding type_hash_def i option.case using True g(1) r(1) by simp
  then show ?thesis using r g(2) by (simp add: final_of_def mem_free_n)
qed

section \<open>The encoding of a field\<close>

text \<open>The signed number that the bytes of an integer of \<open>n\<close> bytes denote; a shorter sequence is not negative.\<close>

definition signed_number :: "nat \<Rightarrow> bytes \<Rightarrow> int" where
  "signed_number n bs = (if length bs = n \<and> 2 * be_val bs \<ge> 256 ^ n then int (be_val bs) - 256 ^ n else int (be_val bs))"

definition encode_static_value :: "s_struct_712_field \<Rightarrow> bytes \<Rightarrow> bytes" where
  "encode_static_value f bs =
     (case field_type f of
        TYPE_SOL_INT \<Rightarrow> be_bytes 32 (nat (signed_number (unat (type_size f)) bs mod 2 ^ 256))
      | TYPE_SOL_BYTES_FIX \<Rightarrow> bs @ replicate (32 - length bs) 0
      | _ \<Rightarrow> be_bytes 32 (be_val bs))"

lemma be_bytes_padded: "length bs \<le> 32 \<Longrightarrow> be_bytes 32 (be_val bs) = replicate (32 - length bs) 0 @ bs"
  using be_bytes_be_val [of "replicate (32 - length bs) 0 @ bs"] by simp

lemma be_val_ones: "int (be_val (replicate n 0xFF)) = 256 ^ n - 1"
  by (induction n) (simp_all add: be_val_Cons)

lemma top_bit: "(b :: uint8) AND 0x80 \<noteq> 0 \<longleftrightarrow> 128 \<le> unat b"
proof -
  have "b AND 0x80 = b AND 2 ^ 7" by simp
  then have "b AND 0x80 \<noteq> 0 \<longleftrightarrow> bit b 7" by (metis and_exp_eq_0_iff_not_bit)
  also have "\<dots> \<longleftrightarrow> bit (unat b) 7" by (simp add: bit_unsigned_iff)
  also have "\<dots> \<longleftrightarrow> odd (unat b div 128)" by (simp add: bit_iff_odd)
  also have "\<dots> \<longleftrightarrow> 128 \<le> unat b"
  proof -
    have "unat b div 128 < 2" using unat_word8_lt [of b] by (simp add: less_mult_imp_div_less)
    then have "odd (unat b div 128) \<longleftrightarrow> unat b div 128 \<noteq> 0" by (cases "unat b div 128 = 0") (auto simp: less_2_cases_iff)
    then show ?thesis by (simp add: div_eq_0_iff not_less)
  qed
  finally show ?thesis .
qed

lemma negative_bytes:
  assumes "bs \<noteq> []"
  shows "hd bs AND 0x80 \<noteq> 0 \<longleftrightarrow> 2 * be_val bs \<ge> 256 ^ length bs"
proof -
  obtain b t where bs: "bs = b # t" using assms by (cases bs) auto
  let ?p = "256 ^ length t :: nat"
  have v: "be_val bs = unat b * ?p + be_val t" "be_val t < ?p" by (simp_all add: bs be_val_Cons be_val_less)
  have "128 \<le> unat b \<longleftrightarrow> 256 * ?p \<le> 2 * be_val bs"
  proof
    assume "128 \<le> unat b"
    then have "128 * ?p \<le> unat b * ?p" by simp
    then show "256 * ?p \<le> 2 * be_val bs" using v by linarith
  next
    assume "256 * ?p \<le> 2 * be_val bs"
    moreover have "(unat b + 1) * ?p = unat b * ?p + ?p" by simp
    ultimately have "128 * ?p < (unat b + 1) * ?p" using v by linarith
    then have "128 < unat b + 1" by (simp only: mult_less_cancel2)
    then show "128 \<le> unat b" by simp
  qed
  then show ?thesis by (simp add: bs top_bit)
qed

definition encodes :: "bytes \<Rightarrow> mem \<Rightarrow> bytes option \<times> mem \<Rightarrow> bool" where
  "encodes x m r \<longleftrightarrow> (case r of (None, m') \<Rightarrow> live m' = live m | (Some y, m') \<Rightarrow> y = x \<and> length y = 32 \<and> live m' = Suc (live m))"

lemma encodes_fail [simp]: "encodes x m (None, m)"
  by (simp add: encodes_def)

lemma encodes_field:
  "encodes (case pt of MSB \<Rightarrow> replicate (32 - length x) p @ x | LSB \<Rightarrow> x @ replicate (32 - length x) 0) m (field_encode x pt p m)"
proof (cases "32 < length x")
  case True
  then show ?thesis by (simp add: field_encode_def EIP_712_ENCODED_FIELD_LENGTH_def)
next
  case False
  obtain ok m1 where a: "mem_alloc m = (ok, m1)" by (cases "mem_alloc m") auto
  show ?thesis
    using False mem_alloc_live [OF a] a
    by (cases ok; cases pt) (simp_all add: field_encode_def EIP_712_ENCODED_FIELD_LENGTH_def encodes_def Let_def)
qed

lemma field_encode_long: "32 < length x \<Longrightarrow> field_encode x pt p m = (None, m)"
  by (simp add: field_encode_def EIP_712_ENCODED_FIELD_LENGTH_def)

lemma encode_static_long: "32 < length bs \<Longrightarrow> encode_static f bs m = (None, m)"
  by (simp add: encode_static_def encode_uint_def encode_int_def encode_bytes_def encode_address_def encode_boolean_def field_encode_long
      split: e_type.splits)

lemma signed_padding:
  assumes l: "length bs = n" "0 < n" "n \<le> 32" and neg: "hd bs AND 0x80 \<noteq> 0"
  shows "be_bytes 32 (nat (signed_number n bs mod 2 ^ 256)) = replicate (32 - n) 0xFF @ bs"
proof -
  have s: "2 * be_val bs \<ge> 256 ^ n" using negative_bytes [of bs] l neg by auto
  let ?k = "(256 :: int) ^ n" and ?p = "replicate (32 - n) 0xFF @ bs"
  have e: "signed_number n bs = int (be_val bs) - ?k" using l(1) s by (simp add: signed_number_def)
  have "int (be_val ?p) = (256 ^ (32 - n) - 1) * ?k + int (be_val bs)" by (simp add: be_val_append l(1) be_val_ones)
  also have "\<dots> = 256 ^ (32 - n) * ?k - ?k + int (be_val bs)" by (simp add: left_diff_distrib)
  also have "(256 :: int) ^ (32 - n) * ?k = 256 ^ 32" using l(3) by (simp flip: power_add)
  finally have v: "int (be_val ?p) = 2 ^ 256 + signed_number n bs" using e by simp
  moreover have "be_val ?p < 2 ^ 256" using be_val_less [of ?p] l by simp
  moreover have "signed_number n bs mod 2 ^ 256 = (2 ^ 256 + signed_number n bs) mod 2 ^ 256" by (simp only: mod_add_self1)
  ultimately have "signed_number n bs mod 2 ^ 256 = int (be_val ?p)" by (simp only: zmod_trivial_iff of_nat_0_le_iff) simp
  then show ?thesis using be_bytes_be_val [of ?p] l by simp
qed

lemma unsigned_padding:
  assumes l: "length bs \<le> 32" "bs \<noteq> []" and nonneg: "\<not> (length bs = n \<and> hd bs AND 0x80 \<noteq> 0)"
  shows "be_bytes 32 (nat (signed_number n bs mod 2 ^ 256)) = replicate (32 - length bs) 0 @ bs"
proof -
  have "signed_number n bs = int (be_val bs)" using negative_bytes [OF l(2)] nonneg by (auto simp: signed_number_def)
  moreover have "be_val bs < 2 ^ 256" using be_val_less [of bs] l(1) power_increasing [of "length bs" 32 "256 :: nat"] by simp
  ultimately show ?thesis by (simp add: be_bytes_padded [OF l(1)])
qed

lemma encode_static_correct: "encodes (encode_static_value f bs) m (encode_static f bs m)"
proof (cases "32 < length bs")
  case True
  then show ?thesis by (simp add: encode_static_long)
next
  case False
  then have l: "length bs \<le> 32" by simp
  have u: "encodes (be_bytes 32 (be_val bs)) m (encode_uint bs m)"
    using encodes_field [where pt = MSB and p = 0 and x = bs and m = m] by (simp add: be_bytes_padded [OF l] encode_uint_def)
  have b: "encodes (bs @ replicate (32 - length bs) 0) m (encode_bytes bs m)"
    using encodes_field [where pt = LSB and p = 0 and x = bs and m = m] by (simp add: encode_bytes_def)
  have i: "encodes (be_bytes 32 (nat (signed_number (unat ts) bs mod 2 ^ 256))) m (encode_int bs ts m)" for ts
  proof (cases "bs = []")
    case True
    then show ?thesis by (simp add: encode_int_def)
  next
    case ne: False
    show ?thesis
    proof (cases "length bs = unat ts \<and> hd bs AND 0x80 \<noteq> 0")
      case True
      then have "be_bytes 32 (nat (signed_number (unat ts) bs mod 2 ^ 256)) = replicate (32 - length bs) 0xFF @ bs"
        using signed_padding [where bs = bs and n = "unat ts"] l ne by (metis length_greater_0_conv)
      then show ?thesis
        using encodes_field [where pt = MSB and p = "0xFF" and x = bs and m = m] ne True by (simp add: encode_int_def Suc_le_eq)
    next
      case False
      then show ?thesis
        using encodes_field [where pt = MSB and p = 0 and x = bs and m = m] ne unsigned_padding [OF l ne False] False
        by (auto simp: encode_int_def Suc_le_eq)
    qed
  qed
  show ?thesis using u b i
    by (cases "field_type f") (simp_all add: encode_static_def encode_static_value_def encode_address_def encode_boolean_def)
qed

section \<open>The hash of a value\<close>

fun encode_data :: "(bytes \<Rightarrow> bytes) \<Rightarrow> s_struct_712 list \<Rightarrow> s_struct_712_value \<Rightarrow> bytes" where
  "encode_data keccak ds (VAL_ATOMIC r bs) =
     (let f = the (field_at ds r) in if IS_DYN (field_type f) then keccak bs else encode_static_value f bs)"
| "encode_data keccak ds (VAL_STRUCT i cs) =
     keccak (keccak (text_bytes (encode_type ds i)) @ concat (map (encode_data keccak ds) cs))"
| "encode_data keccak ds (VAL_ARRAY r cs) = keccak (concat (map (encode_data keccak ds) cs))"

text \<open>The pointers of a value: fields of the schema, and structs that their names find.\<close>

fun value_refs :: "s_struct_712 list \<Rightarrow> s_struct_712_value \<Rightarrow> bool" where
  "value_refs ds (VAL_ATOMIC r bs) \<longleftrightarrow> field_at ds r \<noteq> None"
| "value_refs ds (VAL_STRUCT i cs) \<longleftrightarrow> i < length ds \<and> td_find_struct (Some (td_name (ds ! i))) ds = Some i \<and> (\<forall>c \<in> set cs. value_refs ds c)"
| "value_refs ds (VAL_ARRAY r cs) \<longleftrightarrow> (\<forall>c \<in> set cs. value_refs ds c)"

definition keccak_contract :: "eip712_env \<Rightarrow> (bytes \<Rightarrow> bytes) \<Rightarrow> bool" where
  "keccak_contract E keccak \<longleftrightarrow> (\<forall>x z. ke_final E x = Some z \<longrightarrow> z = keccak x)"

definition gives :: "bytes \<Rightarrow> mem \<Rightarrow> hashing \<Rightarrow> bool" where
  "gives x m r \<longleftrightarrow> (\<exists>y m'. r = Some (y, m') \<and> live m' = live m \<and> (\<forall>z. y = Some z \<longrightarrow> z = x))"

lemma gives_fail [simp]: "gives x m (Some (None, m))"
  by (simp add: gives_def)

lemma gives_final: "keccak_contract E keccak \<Longrightarrow> final_of (ke_final E) x m r \<Longrightarrow> gives (keccak x) m r"
  by (auto simp: gives_def final_of_def keccak_contract_def)

lemma encode_atomic_correct:
  assumes K: "keccak_contract E keccak" and r: "field_at ds r \<noteq> None"
  shows "gives (encode_data keccak ds (VAL_ATOMIC r bs)) m (encode_atomic E ds r bs m)"
proof -
  obtain f where f: "field_at ds r = Some f" using r by auto
  show ?thesis
  proof (cases "IS_DYN (field_type f)")
    case True
    have "gives (keccak ([] @ bs)) m (hbind (hput (ke_update_ok E) bs [] m) (hfinal (ke_final E)))"
      by (rule gives_final [OF K final_of_bind [OF absorbs_hput]])
    then show ?thesis using True f by (simp add: encode_atomic_def)
  next
    case False
    have "encodes (encode_static_value f bs) m (encode_static f bs m)" by (rule encode_static_correct)
    then show ?thesis using False f by (auto simp: encode_atomic_def encodes_def gives_def split: prod.splits option.splits)
  qed
qed

definition containers :: "s_struct_712_value list \<Rightarrow> s_struct_712_value list" where
  "containers cs = filter (\<lambda>c. case c of VAL_ATOMIC r bs \<Rightarrow> False | _ \<Rightarrow> True) cs"

lemma absorbs_gives: "absorbs h x m r \<longleftrightarrow> gives (h @ x) m r"
  by (simp add: absorbs_def gives_def)

lemma hash_children_correct:
  assumes K: "keccak_contract E keccak" and "\<forall>c \<in> set cs. value_refs ds c" and "cursor = map (encode_data keccak ds) (containers cs)"
  shows "absorbs h (concat (map (encode_data keccak ds) cs)) m (hash_children E ds cs cursor h m)"
  using assms(2,3)
proof (induction cs arbitrary: cursor h m)
  case (Cons c cs)
  let ?rest = "if (case c of VAL_ATOMIC r bs \<Rightarrow> True | _ \<Rightarrow> False) then cursor else tl cursor"
  have "\<exists>y m1. child_digest E ds c cursor m = Some (y, ?rest, m1) \<and> live m1 = live m \<and> (\<forall>z. y = Some z \<longrightarrow> z = encode_data keccak ds c)"
  proof (cases c)
    case (VAL_ATOMIC r bs)
    then have "field_at ds r \<noteq> None" using Cons.prems(1) by simp
    from encode_atomic_correct [OF K this, of bs m] show ?thesis by (auto simp: VAL_ATOMIC child_digest_def gives_def)
  qed (use Cons.prems(2) in \<open>simp_all add: child_digest_def containers_def\<close>)
  then obtain y m1 where y: "child_digest E ds c cursor m = Some (y, ?rest, m1)" "live m1 = live m" "\<forall>z. y = Some z \<longrightarrow> z = encode_data keccak ds c" by blast
  have rest: "?rest = map (encode_data keccak ds) (containers cs)" using Cons.prems(2) by (cases c) (simp_all add: containers_def)
  show ?case
  proof (cases y)
    case None
    then show ?thesis using y by (simp add: absorbs_def)
  next
    case (Some z)
    have "absorbs h (encode_data keccak ds c @ concat (map (encode_data keccak ds) cs)) m1
        (hbind (hput (ke_update_ok E) (encode_data keccak ds c) h m1) (hash_children E ds cs ?rest))"
      by (intro absorbs_bind absorbs_hput Cons.IH) (use Cons.prems(1) rest in auto)
    then show ?thesis using Some y by (simp add: absorbs_def)
  qed
qed (simp add: absorb_intros)

lemma hash_array_correct:
  assumes K: "keccak_contract E keccak" and "\<forall>c \<in> set cs. value_refs ds c"
  shows "gives (encode_data keccak ds (VAL_ARRAY r cs)) m (hash_array E ds cs (map (encode_data keccak ds) (containers cs)) m)"
proof -
  have "final_of (ke_final E) ([] @ concat (map (encode_data keccak ds) cs)) m
      (hbind (hash_children E ds cs (map (encode_data keccak ds) (containers cs)) [] m) (hfinal (ke_final E)))"
    by (rule final_of_bind [OF hash_children_correct [OF assms refl]])
  from gives_final [OF K this] show ?thesis by (simp add: hash_array_def)
qed

lemma hash_struct_correct:
  assumes K: "keccak_contract E keccak" and S: "sort_contract E" "schema_ok ds" and v: "value_refs ds (VAL_STRUCT i cs)"
  shows "gives (encode_data keccak ds (VAL_STRUCT i cs)) m (hash_struct E ds i cs (map (encode_data keccak ds) (containers cs)) m)"
proof -
  let ?ds = "map (encode_data keccak ds) (containers cs)" and ?t = "keccak (text_bytes (encode_type ds i))"
  have il: "i < length ds" "td_find_struct (Some (td_name (ds ! i))) ds = Some i" and cs: "\<forall>c \<in> set cs. value_refs ds c" using v by auto
  have "final_of (ke_final E) (?t @ concat (map (encode_data keccak ds) cs)) m' (hbind (hput (ke_update_ok E) ?t [] m') (\<lambda>h m.
      hbind (hash_children E ds cs ?ds h m) (hfinal (ke_final E))))" for m'
    using final_of_step [OF absorbs_hput, where h = "[]" and x = ?t] final_of_bind [OF hash_children_correct [OF K cs refl]]
    by (metis (no_types, lifting) append_Nil)
  then have k: "gives (encode_data keccak ds (VAL_STRUCT i cs)) m' (if \<not> ke_init E then Some (None, m') else hbind (hput (ke_update_ok E) ?t [] m') (\<lambda>h m.
      hbind (hash_children E ds cs ?ds h m) (hfinal (ke_final E))))" for m'
    using gives_final [OF K] by simp
  obtain y m1 where t: "type_hash E ds (td_name (ds ! i)) m = Some (y, m1)" "live m1 = live m" "\<forall>z. y = Some z \<longrightarrow> z = ?t"
    using gives_final [OF K type_hash_correct [OF S il(2), of m]] unfolding gives_def by blast
  show ?thesis
  proof (cases y)
    case None
    then show ?thesis using t il(1) by (simp add: hash_struct_def rd_def hbind_def gives_def)
  next
    case (Some z)
    then show ?thesis using t il(1) k [of m1] by (simp add: hash_struct_def rd_def hbind_def [of "Some (Some _, _)"] gives_def)
  qed
qed

lemma hash_containers_correct:
  assumes "\<And>c m. c \<in> set cs \<Longrightarrow> value_refs ds c \<Longrightarrow> gives (encode_data keccak ds c) m (hash_value E ds depth c m)"
    and "\<forall>c \<in> set cs. value_refs ds c"
  shows "\<exists>ok new m'. hash_containers E ds depth cs digests m = Some (ok, digests @ new, m') \<and> live m' = live m + length new \<and>
      (ok \<longrightarrow> new = map (encode_data keccak ds) (containers cs))"
  using assms
proof (induction cs arbitrary: digests m)
  case Nil
  then show ?case by (simp add: containers_def)
next
  case (Cons c cs)
  have ih: "\<exists>ok new m'. hash_containers E ds depth cs digests m = Some (ok, digests @ new, m') \<and> live m' = live m + length new \<and>
      (ok \<longrightarrow> new = map (encode_data keccak ds) (containers cs))" for digests m
    by (rule Cons.IH [OF Cons.prems(1)]) (use Cons.prems(2) in auto)
  have c: "\<exists>y m'. hash_value E ds depth c m = Some (y, m') \<and> live m' = live m \<and> (\<forall>z. y = Some z \<longrightarrow> z = encode_data keccak ds c)" for m
    using Cons.prems(1) [of c m] Cons.prems(2) unfolding gives_def by (meson list.set_intros(1))
  show ?case
  proof (cases "case c of VAL_ATOMIC r bs \<Rightarrow> True | _ \<Rightarrow> False")
    case True
    then show ?thesis using ih [of digests m] by (cases c) (simp_all add: containers_def)
  next
    case False
    then have e: "hash_containers E ds depth (c # cs) digests m =
        (case mem_alloc m of
           (False, m) \<Rightarrow> Some (False, digests, m)
         | (True, m) \<Rightarrow> do {
             (x, m) \<leftarrow> hash_value E ds depth c m;
             (case x of
                None \<Rightarrow> Some (False, digests @ [[]], m)
              | Some x \<Rightarrow> hash_containers E ds depth cs (digests @ [x]) m) })"
      by (cases c) (simp_all only: hash_containers.simps s_struct_712_value.case simp_thms)
    have k: "containers (c # cs) = c # containers cs" using False by (cases c) (simp_all add: containers_def)
    show ?thesis
    proof (cases rule: mem_alloc_cases [of m])
      case (fail m')
      then show ?thesis unfolding e by auto
    next
      case (ok m1)
      from c [of m1] obtain y m2 where y: "hash_value E ds depth c m1 = Some (y, m2)" "live m2 = live m1" "\<forall>z. y = Some z \<longrightarrow> z = encode_data keccak ds c" by blast
      show ?thesis
      proof (cases y)
        case None
        then show ?thesis using ok y unfolding e by auto
      next
        case (Some z)
        from ih [of "digests @ [z]" m2] obtain ok2 new m3 where
          n: "hash_containers E ds depth cs (digests @ [z]) m2 = Some (ok2, digests @ z # new, m3)" "live m3 = live m2 + length new"
            "ok2 \<longrightarrow> new = map (encode_data keccak ds) (containers cs)" by auto
        then show ?thesis using ok y Some k unfolding e by (intro exI [of _ ok2] exI [of _ "z # new"] exI [of _ m3]) simp
      qed
    qed
  qed
qed

lemma gives_digests:
  assumes "live m1 = live m + length digests" and "gives x m1 (if \<not> ok then Some (None, m1) else r)"
  shows "gives x m (do { (r, m) \<leftarrow> (if \<not> ok then Some (None, m1) else r); Some (r, (mem_free ^^ length digests) m) })"
  using assms by (auto simp: gives_def mem_free_n)

lemma hash_value_correct:
  assumes K: "keccak_contract E keccak" and S: "sort_contract E" "schema_ok ds"
  shows "value_refs ds v \<Longrightarrow> gives (encode_data keccak ds v) m (hash_value E ds depth v m)"
proof (induction v arbitrary: depth m)
  case (VAL_ATOMIC r bs)
  then show ?case by simp
next
  case (VAL_STRUCT i cs)
  have "\<forall>c \<in> set cs. value_refs ds c" using VAL_STRUCT.prems by simp
  from hash_containers_correct [OF VAL_STRUCT.IH this, of "Suc depth" "[]" m] obtain ok new m1 where
    c: "hash_containers E ds (Suc depth) cs [] m = Some (ok, new, m1)" "live m1 = live m + length new"
      "ok \<longrightarrow> new = map (encode_data keccak ds) (containers cs)" by auto
  have "gives (encode_data keccak ds (VAL_STRUCT i cs)) m1 (if \<not> ok then Some (None, m1) else hash_struct E ds i cs new m1)"
    using hash_struct_correct [OF K S VAL_STRUCT.prems, of m1] c(3) by (cases ok) (simp_all del: encode_data.simps)
  from gives_digests [OF c(2) this] show ?case using c(1) by (simp del: encode_data.simps)
next
  case (VAL_ARRAY r cs)
  have cs: "\<forall>c \<in> set cs. value_refs ds c" using VAL_ARRAY.prems by simp
  from hash_containers_correct [OF VAL_ARRAY.IH cs, of "Suc depth" "[]" m] obtain ok new m1 where
    c: "hash_containers E ds (Suc depth) cs [] m = Some (ok, new, m1)" "live m1 = live m + length new"
      "ok \<longrightarrow> new = map (encode_data keccak ds) (containers cs)" by auto
  have "gives (encode_data keccak ds (VAL_ARRAY r cs)) m1 (if \<not> ok then Some (None, m1) else hash_array E ds cs new m1)"
    using hash_array_correct [OF K cs, of r m1] c(3) by (cases ok) (simp_all del: encode_data.simps)
  from gives_digests [OF c(2) this] show ?case using c(1) by (simp del: encode_data.simps)
qed

end
