(* ===== verification/Eip712_Parse_Inv.thy ===== *)
theory Eip712_Parse_Inv
  imports Eip712_Parse Eip712_Hash_Proofs
begin

text \<open>
  What the parser of EIP-712 values keeps.  A tree conforms to the definitions (\<open>root_ok\<close>) when every struct has the values of
  its fields in order, every array the declared number of elements and levels, every leaf the size that its type fixes.
  While a tree grows, it is a stack of open containers that is plugged together; \<open>stack_ok\<close> relates that stack to the frames.
\<close>

section \<open>Trees that conform to the definitions\<close>

definition leaf_ok :: "s_struct_712_field \<Rightarrow> bytes \<Rightarrow> bool" where
  "leaf_ok f bs \<longleftrightarrow> field_type f \<noteq> TYPE_STRUCT \<and> (field_type f = TYPE_SOL_ADDRESS \<longrightarrow> length bs = ADDRESS_LENGTH) \<and>
     (field_type f = TYPE_SOL_BYTES_FIX \<longrightarrow> length bs = unat (type_size f))"

text \<open>The level of an array below which \<open>n\<close> more levels remain, and a number of elements.  This is the order of \<open>v1_set_array\<close>: the
  outermost array is checked against the first level of the type.  The standard reads the levels the other way round (\<open>level_std\<close> of
  \<open>Eip712_Levels\<close>).\<close>

definition level_ok :: "s_struct_712_field \<Rightarrow> nat \<Rightarrow> nat \<Rightarrow> bool" where
  "level_ok f n len \<longleftrightarrow> n < unat (array_level_count f) \<and>
     (case array_levels f of
        None \<Rightarrow> False
      | Some ls \<Rightarrow>
          unat (array_level_count f) - 1 - n < length ls \<and>
          (level_type (ls ! (unat (array_level_count f) - 1 - n)) = ARRAY_FIXED_SIZE \<longrightarrow>
             len = unat (level_size (ls ! (unat (array_level_count f) - 1 - n)))))"

fun val_ok :: "s_struct_712 list \<Rightarrow> field_ref \<Rightarrow> nat \<Rightarrow> s_struct_712_value \<Rightarrow> bool"
  and fields_ok :: "s_struct_712 list \<Rightarrow> nat \<Rightarrow> nat \<Rightarrow> s_struct_712_value list \<Rightarrow> bool"
  and elems_ok :: "s_struct_712 list \<Rightarrow> field_ref \<Rightarrow> nat \<Rightarrow> s_struct_712_value list \<Rightarrow> bool" where
  "val_ok ds r n (VAL_ATOMIC r' bs) \<longleftrightarrow> r' = r \<and> n = 0 \<and> (case field_at ds r of None \<Rightarrow> False | Some f \<Rightarrow> leaf_ok f bs)"
| "val_ok ds r n (VAL_STRUCT i cs) \<longleftrightarrow> n = 0 \<and>
     (case field_at ds r of
        None \<Rightarrow> False
      | Some f \<Rightarrow> field_type f = TYPE_STRUCT \<and> td_find_struct (struct_name f) ds = Some i \<and> fields_ok ds i 0 cs)"
| "val_ok ds r n (VAL_ARRAY r' cs) \<longleftrightarrow> r' = r \<and> 0 < n \<and>
     (case field_at ds r of None \<Rightarrow> False | Some f \<Rightarrow> level_ok f (n - 1) (length cs) \<and> elems_ok ds r (n - 1) cs)"
| "fields_ok ds i k [] \<longleftrightarrow> i < length ds \<and> k = length (td_fields (ds ! i))"
| "fields_ok ds i k (c # cs) \<longleftrightarrow>
     (case field_at ds (i, k) of None \<Rightarrow> False | Some f \<Rightarrow> val_ok ds (i, k) (unat (array_level_count f)) c \<and> fields_ok ds i (Suc k) cs)"
| "elems_ok ds r n [] \<longleftrightarrow> True"
| "elems_ok ds r n (c # cs) \<longleftrightarrow> val_ok ds r n c \<and> elems_ok ds r n cs"

definition root_name_ok :: "s_struct_712 list \<Rightarrow> e_root_type \<Rightarrow> nat \<Rightarrow> bool" where
  "root_name_ok ds root i \<longleftrightarrow> i < length ds \<and> td_find_struct (Some (td_name (ds ! i))) ds = Some i \<and>
     (root = ROOT_DOMAIN \<longrightarrow> td_name (ds ! i) = ''EIP712Domain'') \<and> root \<noteq> ROOT_NONE"

definition root_ok :: "s_struct_712 list \<Rightarrow> e_root_type \<Rightarrow> s_struct_712_value \<Rightarrow> bool" where
  "root_ok ds root v \<longleftrightarrow> (case v of VAL_STRUCT i cs \<Rightarrow> root_name_ok ds root i \<and> fields_ok ds i 0 cs | _ \<Rightarrow> False)"

lemma field_at_Some: "field_at ds (i, k) = Some f \<longleftrightarrow> i < length ds \<and> k < length (td_fields (ds ! i)) \<and> f = td_fields (ds ! i) ! k"
  by (auto simp: field_at_def rd_def bind_eq_Some_conv)

lemma elems_ok_all: "elems_ok ds r n cs \<longleftrightarrow> (\<forall>c \<in> set cs. val_ok ds r n c)"
  by (induction cs) auto

definition child_ok :: "s_struct_712 list \<Rightarrow> field_ref \<Rightarrow> s_struct_712_value \<Rightarrow> bool" where
  "child_ok ds r v \<longleftrightarrow> (\<exists>f. field_at ds r = Some f \<and> val_ok ds r (unat (array_level_count f)) v)"

lemma fields_ok_children:
  "fields_ok ds i k cs \<longleftrightarrow> i < length ds \<and> k + length cs = length (td_fields (ds ! i)) \<and> (\<forall>j < length cs. child_ok ds (i, k + j) (cs ! j))"
proof (induction cs arbitrary: k)
  case Nil
  then show ?case by auto
next
  case (Cons c cs)
  have "(\<forall>j < length (c # cs). child_ok ds (i, k + j) ((c # cs) ! j)) \<longleftrightarrow>
      child_ok ds (i, k) c \<and> (\<forall>j < length cs. child_ok ds (i, Suc k + j) (cs ! j))"
    by (simp add: All_less_Suc2)
  then show ?case using Cons.IH [of "Suc k"] by (auto simp: child_ok_def split: option.splits)
qed

text \<open>A value that conforms has valid pointers, so it can be hashed.\<close>

lemma td_find_struct_own: "td_find_struct name ds = Some i \<Longrightarrow> i < length ds \<and> td_find_struct (Some (td_name (ds ! i))) ds = Some i"
  using td_find_struct_Some by metis

lemma val_ok_refs:
  "val_ok ds r n v \<Longrightarrow> value_refs ds v"
  "fields_ok ds i k cs \<Longrightarrow> \<forall>c \<in> set cs. value_refs ds c"
  "elems_ok ds r n cs \<Longrightarrow> \<forall>c \<in> set cs. value_refs ds c"
  by (induction ds r n v and ds i k cs and ds r n cs rule: val_ok_fields_ok_elems_ok.induct)
    (auto split: option.splits dest: td_find_struct_own)

lemma root_ok_refs: "root_ok ds root v \<Longrightarrow> value_refs ds v"
  using val_ok_refs(2) by (auto simp: root_ok_def root_name_ok_def split: s_struct_712_value.splits)

section \<open>Open containers\<close>

datatype open_node = OPEN_STRUCT nat | OPEN_ARRAY field_ref nat

type_synonym open_frame = "open_node \<times> s_struct_712_value list"

fun close :: "open_node \<Rightarrow> s_struct_712_value list \<Rightarrow> s_struct_712_value" where
  "close (OPEN_STRUCT i) cs = VAL_STRUCT i cs"
| "close (OPEN_ARRAY r n) cs = VAL_ARRAY r cs"

fun zfill :: "open_frame list \<Rightarrow> s_struct_712_value \<Rightarrow> s_struct_712_value" where
  "zfill [] v = v"
| "zfill ((k, cs) # zs) v = zfill zs (close k (cs @ [v]))"

definition zpath :: "open_frame list \<Rightarrow> nat list" where
  "zpath zs = rev (map (length \<circ> snd) zs)"

lemma append_at_close [simp]: "append_at [] c (close k cs) = Some (close k (cs @ [c]))"
  and child_count_close [simp]: "child_count [] (close k cs) = Some (length cs)"
  by (cases k; simp)+

lemma append_at_close_Cons [simp]: "append_at (length cs # p) c (close k (cs @ [v])) = map_option (\<lambda>v. close k (cs @ [v])) (append_at p c v)"
  and child_count_close_Cons [simp]: "child_count (length cs # p) (close k (cs @ [v])) = child_count p v"
  by (cases k; cases "append_at p c v"; simp add: rd_def)+

lemma append_at_plug: "append_at (zpath zs @ p) c (zfill zs v) = map_option (zfill zs) (append_at p c v)"
proof (induction zs arbitrary: v p)
  case (Cons z zs)
  obtain k cs where z: "z = (k, cs)" by (cases z)
  have "append_at (zpath zs @ length cs # p) c (zfill zs (close k (cs @ [v]))) = map_option (zfill zs) (append_at (length cs # p) c (close k (cs @ [v])))"
    by (rule Cons.IH)
  then show ?case by (cases "append_at p c v") (simp_all add: z zpath_def)
next
  case Nil
  show ?case by (cases "append_at p c v") (simp_all add: zpath_def)
qed

lemma child_count_plug: "child_count (zpath zs @ p) (zfill zs v) = child_count p v"
proof (induction zs arbitrary: v p)
  case (Cons z zs)
  obtain k cs where z: "z = (k, cs)" by (cases z)
  show ?case using Cons.IH [of "length cs # p" "close k (cs @ [v])"] by (simp add: z zpath_def)
qed (simp add: zpath_def)

lemma root_value_set [simp]: "root \<noteq> ROOT_NONE \<Longrightarrow> root_value root (set_root_value root v s) = Some v"
  and root_value_set_other: "root' \<noteq> root \<Longrightarrow> root_value root' (set_root_value root v s) = root_value root' s"
  by (cases root; cases root'; simp add: root_value_def set_root_value_def)+

lemma append_child_plug:
  assumes "root_value root s = Some (zfill zs (close k cs))"
  shows "td_append_child (root, zpath zs) c s = Some ((root, zpath ((k, cs) # zs)), set_root_value root (zfill zs (close k (cs @ [c]))) s)"
  using assms append_at_plug [of zs "[]" c "close k cs"] child_count_plug [of zs "[]" "close k cs"]
  by (simp add: td_append_child_def zpath_def)

text \<open>The place where the next child of a container goes: its field, and the levels that remain.\<close>

fun hole :: "s_struct_712 list \<Rightarrow> open_frame \<Rightarrow> (field_ref \<times> nat) option" where
  "hole ds (OPEN_STRUCT i, cs) = map_option (\<lambda>f. ((i, length cs), unat (array_level_count f))) (field_at ds (i, length cs))"
| "hole ds (OPEN_ARRAY r n, cs) = Some (r, n)"

fun fits :: "s_struct_712 list \<Rightarrow> open_node \<Rightarrow> field_ref \<times> nat \<Rightarrow> bool" where
  "fits ds (OPEN_STRUCT i) (r, n) \<longleftrightarrow> n = 0 \<and>
     (\<exists>f. field_at ds r = Some f \<and> field_type f = TYPE_STRUCT \<and> td_find_struct (struct_name f) ds = Some i)"
| "fits ds (OPEN_ARRAY r' n') (r, n) \<longleftrightarrow> r' = r \<and> n = Suc n' \<and> (\<exists>f. field_at ds r = Some f)"

fun frame_ok :: "s_struct_712 list \<Rightarrow> s_build_frame \<Rightarrow> open_frame \<Rightarrow> bool" where
  "frame_ok ds f (OPEN_STRUCT i, cs) \<longleftrightarrow> array_remaining f = 0 \<and> i < length ds \<and> fr_next f = field_ref_at ds i (length cs) \<and>
     length cs \<le> length (td_fields (ds ! i)) \<and> (\<forall>j < length cs. child_ok ds (i, j) (cs ! j))"
| "frame_ok ds f (OPEN_ARRAY r n, cs) \<longleftrightarrow> 0 < array_remaining f \<and> unat (array_levels_remaining f) = n \<and> fr_next f = Some r \<and>
     (\<exists>d. field_at ds r = Some d \<and> level_ok d n (length cs + unat (array_remaining f))) \<and> (\<forall>c \<in> set cs. val_ok ds r n c)"

fun stack_ok :: "s_struct_712 list \<Rightarrow> e_root_type \<Rightarrow> s_build_frame list \<Rightarrow> open_frame list \<Rightarrow> bool" where
  "stack_ok ds root [] [] \<longleftrightarrow> True"
| "stack_ok ds root (f # fs) (z # zs) \<longleftrightarrow> frame_ok ds f z \<and> fr_node f = (root, zpath zs) \<and>
     (case zs of
        [] \<Rightarrow> (\<exists>i. fst z = OPEN_STRUCT i \<and> root_name_ok ds root i)
      | z' # _ \<Rightarrow> (\<exists>h. hole ds z' = Some h \<and> fits ds (fst z) h)) \<and>
     stack_ok ds root fs zs"
| "stack_ok ds root fs zs \<longleftrightarrow> False"

text \<open>The innermost frame waits for a command: it does not stand before a struct.\<close>

definition settled :: "s_struct_712 list \<Rightarrow> s_build_frame \<Rightarrow> bool" where
  "settled ds f \<longleftrightarrow>
     (case fr_next f of
        None \<Rightarrow> True
      | Some r \<Rightarrow>
          (case field_at ds r of
             None \<Rightarrow> False
           | Some d \<Rightarrow> field_type d \<noteq> TYPE_STRUCT \<or>
               (if 0 < array_remaining f then 0 < array_levels_remaining f else 0 < array_level_count d)))"

definition building :: "e_root_type \<Rightarrow> eip712_parse \<Rightarrow> bool" where
  "building root s \<longleftrightarrow> root \<noteq> ROOT_NONE \<and>
     (\<exists>k cs zs. stack_ok (g_structs s) root (g_build s) ((k, cs) # zs) \<and> root_value root s = Some (zfill zs (close k cs)))"

definition tree_inv :: "e_root_type \<Rightarrow> eip712_parse \<Rightarrow> bool" where
  "tree_inv root s \<longleftrightarrow>
     (if g_build s = [] then root \<noteq> ROOT_NONE \<and> (\<exists>v. root_value root s = Some v \<and> root_ok (g_structs s) root v)
      else building root s \<and> settled (g_structs s) (hd (g_build s)))"

text \<open>What building one tree leaves alone.\<close>

definition rest_same :: "e_root_type \<Rightarrow> eip712_parse \<Rightarrow> eip712_parse \<Rightarrow> bool" where
  "rest_same root s s' \<longleftrightarrow> g_structs s' = g_structs s \<and> (\<forall>root'. root' \<noteq> root \<longrightarrow> root_value root' s' = root_value root' s) \<and>
     pending_leaf s' = pending_leaf s \<and> pending_filled s' = pending_filled s \<and> g_domain_root s' = g_domain_root s \<and>
     g_pending_struct s' = g_pending_struct s"

lemma rest_same_refl [simp]: "rest_same root s s"
  by (simp add: rest_same_def)

lemma rest_same_trans: "rest_same root s s' \<Longrightarrow> rest_same root s' s'' \<Longrightarrow> rest_same root s s''"
  by (simp add: rest_same_def)

lemma rest_same_build [simp]:
  "rest_same root s (s\<lparr>g_build := fs\<rparr>)" "rest_same root s (s\<lparr>g_backup := bs\<rparr>)" "rest_same root s (s\<lparr>td_mem := m\<rparr>)"
  "rest_same root s (set_root_value root v s)"
  using root_value_set_other [of _ root v s]
  by (auto simp: rest_same_def root_value_def set_root_value_def split: e_root_type.splits)

definition tree_step :: "e_root_type \<Rightarrow> eip712_parse \<Rightarrow> parse_result \<Rightarrow> bool" where
  "tree_step root s r \<longleftrightarrow> (\<exists>ok s'. r = Some (ok, s') \<and> rest_same root s s' \<and> (ok \<longrightarrow> tree_inv root s'))"

lemma tree_stepI: "r = Some (ok, s') \<Longrightarrow> rest_same root s s' \<Longrightarrow> (ok \<Longrightarrow> tree_inv root s') \<Longrightarrow> tree_step root s r"
  by (auto simp: tree_step_def)

lemma tree_step_fail [simp]: "rest_same root s s' \<Longrightarrow> tree_step root s (Some (False, s'))"
  by (auto simp: tree_step_def)

lemma tree_step_trans: "rest_same root s s' \<Longrightarrow> tree_step root s' r \<Longrightarrow> tree_step root s r"
  unfolding tree_step_def using rest_same_trans by blast

lemma td_with_mem_same:
  "td_with_mem s = (ok, s') \<Longrightarrow> \<exists>m. s' = s\<lparr>td_mem := m\<rparr>"
  by (auto simp: td_with_mem_def split: prod.splits)

lemma set_root_value_build [simp]: "g_build (set_root_value root v s) = g_build s" "g_structs (set_root_value root v s) = g_structs s"
  by (cases root; simp add: set_root_value_def)+

lemma root_value_fields [simp]:
  "root_value root (s\<lparr>td_mem := m\<rparr>) = root_value root s" "root_value root (s\<lparr>g_build := fs\<rparr>) = root_value root s"
  "root_value root (s\<lparr>g_backup := fs\<rparr>) = root_value root s"
  by (cases root; simp add: root_value_def)+

lemma open_nested_building:
  assumes "root \<noteq> ROOT_NONE" and st: "stack_ok (g_structs s) root (g_build s) ((k, cs) # zs)"
    and v: "root_value root s = Some (zfill zs (close k cs))" and h: "hole (g_structs s) (k, cs) = Some (r, 0)"
    and d: "field_at (g_structs s) r = Some d" "field_type d = TYPE_STRUCT"
  shows "\<exists>ok s'. open_nested (struct_name d) (root, zpath zs) s = Some (ok, s') \<and> rest_same root s s' \<and>
    (ok \<longrightarrow> building root s' \<and> array_remaining (hd (g_build s')) = 0)"
proof (cases "td_find_struct (struct_name d) (g_structs s)")
  case None
  then have "open_nested (struct_name d) (root, zpath zs) s = Some (False, s)" by (simp add: open_nested_def)
  then show ?thesis by auto
next
  case (Some i)
  obtain b m where m: "td_with_mem s = (b, s\<lparr>td_mem := m\<rparr>)" by (cases "td_with_mem s") (use td_with_mem_same in blast)
  show ?thesis
  proof (cases b)
    case False
    then have "open_nested (struct_name d) (root, zpath zs) s = Some (False, s\<lparr>td_mem := m\<rparr>)"
      using m Some by (simp add: open_nested_def td_create_struct_def)
    then show ?thesis by auto
  next
    case True
    let ?s = "set_root_value root (zfill zs (close k (cs @ [VAL_STRUCT i []]))) (s\<lparr>td_mem := m\<rparr>)"
    have a: "td_append_child (root, zpath zs) (VAL_STRUCT i []) (s\<lparr>td_mem := m\<rparr>) = Some ((root, zpath ((k, cs) # zs)), ?s)"
      by (rule append_child_plug) (use v in simp)
    have same: "rest_same root s ?s" by (rule rest_same_trans [of _ _ "s\<lparr>td_mem := m\<rparr>"]) simp_all
    let ?f = "\<lparr>fr_next = field_ref_at (g_structs s) i 0, fr_node = (root, zpath ((k, cs) # zs)), array_remaining = 0, array_levels_remaining = 0\<rparr>"
    show ?thesis
    proof (cases "TD_MAX_DEPTH \<le> length (g_build s)")
      case True2: True
      then have "open_nested (struct_name d) (root, zpath zs) s = Some (False, ?s)"
        using m True Some a by (simp add: open_nested_def td_create_struct_def push_frame_def)
      then show ?thesis using same by auto
    next
      case False
      let ?s' = "?s\<lparr>g_build := ?f # g_build s\<rparr>"
      have o: "open_nested (struct_name d) (root, zpath zs) s = Some (True, ?s')"
        using m True Some a False by (simp add: open_nested_def td_create_struct_def push_frame_def)
      have "i < length (g_structs s)" using td_find_struct_Some [OF Some] by blast
      then have "stack_ok (g_structs s) root (?f # g_build s) ((OPEN_STRUCT i, []) # (k, cs) # zs)"
        using st h d Some by auto
      then have "building root ?s'" using assms(1) unfolding building_def
        by (intro conjI exI [of _ "OPEN_STRUCT i"] exI [of _ "[]"] exI [of _ "(k, cs) # zs"]) simp_all
      moreover have "rest_same root s ?s'" by (rule rest_same_trans [OF same]) simp
      moreover have "array_remaining (hd (g_build ?s')) = 0" by simp
      ultimately show ?thesis using o by blast
    qed
  qed
qed

text \<open>The innermost frame and its container.\<close>

lemma building_top:
  assumes "building root s"
  obtains f fs k cs zs where "g_build s = f # fs" "root \<noteq> ROOT_NONE" "stack_ok (g_structs s) root (f # fs) ((k, cs) # zs)"
    "root_value root s = Some (zfill zs (close k cs))" "fr_node f = (root, zpath zs)" "frame_ok (g_structs s) f (k, cs)"
proof -
  from assms obtain k cs zs where a: "root \<noteq> ROOT_NONE" "stack_ok (g_structs s) root (g_build s) ((k, cs) # zs)"
    "root_value root s = Some (zfill zs (close k cs))" by (auto simp: building_def)
  then obtain f fs where "g_build s = f # fs" by (cases "g_build s") auto
  then show ?thesis using a that by auto
qed

lemma field_ref_at_Some: "field_ref_at ds i j = Some r \<longleftrightarrow> r = (i, j) \<and> (\<exists>f. field_at ds (i, j) = Some f)"
  by (auto simp: field_ref_at_def field_at_Some)

lemma field_ref_at_None: "i < length ds \<Longrightarrow> field_ref_at ds i j = None \<longleftrightarrow> length (td_fields (ds ! i)) \<le> j"
  by (auto simp: field_ref_at_def)

lemma frame_hole:
  assumes "frame_ok ds f (k, cs)" and "fr_next f = Some r"
  obtains d where "field_at ds r = Some d" "array_remaining f = 0 \<Longrightarrow> hole ds (k, cs) = Some (r, unat (array_level_count d))"
    "0 < array_remaining f \<Longrightarrow> hole ds (k, cs) = Some (r, unat (array_levels_remaining f))"
proof (cases k)
  case (OPEN_STRUCT i)
  then have "field_ref_at ds i (length cs) = Some r" and a: "array_remaining f = 0" using assms by auto
  then obtain d where d: "r = (i, length cs)" "field_at ds (i, length cs) = Some d" by (auto simp: field_ref_at_Some)
  show ?thesis by (rule that [of d]) (use a d OPEN_STRUCT in auto)
next
  case (OPEN_ARRAY r' n)
  then have a: "0 < array_remaining f" "r = r'" "unat (array_levels_remaining f) = n" using assms by auto
  from assms(1) OPEN_ARRAY obtain d where d: "field_at ds r' = Some d" by auto
  show ?thesis by (rule that [of d]) (use a d OPEN_ARRAY in simp_all)
qed

lemma auto_descend_building:
  "building root s \<Longrightarrow> array_remaining (hd (g_build s)) = 0 \<Longrightarrow> tree_step root s (auto_descend s)"
proof (induction s rule: auto_descend.induct)
  case (1 s)
  from "1.prems"(1) obtain f fs k cs zs where t: "g_build s = f # fs" "root \<noteq> ROOT_NONE" "stack_ok (g_structs s) root (f # fs) ((k, cs) # zs)"
    "root_value root s = Some (zfill zs (close k cs))" "fr_node f = (root, zpath zs)" "frame_ok (g_structs s) f (k, cs)"
    by (rule building_top)
  have a: "array_remaining f = 0" using "1.prems"(2) t(1) by simp
  show ?case
  proof (cases "\<exists>r d. fr_next f = Some r \<and> field_at (g_structs s) r = Some d \<and> field_type d = TYPE_STRUCT \<and> array_level_count d = 0")
    case False
    have "settled (g_structs s) f \<and> auto_descend s = Some (True, s)"
    proof (cases "fr_next f")
      case None
      then show ?thesis using t(1) by (subst auto_descend.simps) (simp add: settled_def)
    next
      case (Some r)
      from frame_hole [OF t(6) Some] obtain d where d: "field_at (g_structs s) r = Some d" by blast
      then have n: "field_type d \<noteq> TYPE_STRUCT \<or> 0 < array_level_count d" using False Some by (auto simp: word_gt_0)
      then have "settled (g_structs s) f" using a Some d by (simp add: settled_def)
      moreover have "auto_descend s = Some (True, s)" using t(1) Some d n by (subst auto_descend.simps) simp
      ultimately show ?thesis by blast
    qed
    then show ?thesis using "1.prems"(1) t(1) by (simp add: tree_inv_def tree_step_def)
  next
    case True
    then obtain r d where r: "fr_next f = Some r" "field_at (g_structs s) r = Some d" "field_type d = TYPE_STRUCT" "array_level_count d = 0" by blast
    have h: "hole (g_structs s) (k, cs) = Some (r, 0)" using frame_hole [OF t(6) r(1)] a r(2,4) by (metis option.inject unsigned_0)
    have st: "stack_ok (g_structs s) root (g_build s) ((k, cs) # zs)" using t(1,3) by simp
    from open_nested_building [OF t(2) st t(4) h r(2,3)] obtain ok s' where
      n: "open_nested (struct_name d) (fr_node f) s = Some (ok, s')" "rest_same root s s'"
        "ok \<longrightarrow> building root s' \<and> array_remaining (hd (g_build s')) = 0" using t(5) by auto
    show ?thesis
    proof (cases ok)
      case False
      then show ?thesis using t(1) r n by (subst auto_descend.simps) simp
    next
      case ok: True
      have "tree_step root s' (auto_descend s')"
        by (rule "1.IH" [OF t(1) r(1,2) _ _ n(1) refl]) (use r n ok in auto)
      then have "tree_step root s (auto_descend s')" by (rule tree_step_trans [OF n(2)])
      then show ?thesis using t(1) r n ok by (subst auto_descend.simps) simp
    qed
  qed
qed

text \<open>A child was just appended to the innermost container; its frame does not know it yet.\<close>

lemma plug_done:
  assumes "stack_ok ds root (f # fs) ((k, cs) # (k', cs') # zs)"
  obtains r n where "hole ds (k', cs') = Some (r, n)" "fits ds k (r, n)" "stack_ok ds root fs ((k', cs') # zs)"
  using assms by fastforce

lemma struct_done:
  assumes "frame_ok ds f (OPEN_STRUCT i, cs)" and "hole ds (OPEN_STRUCT i, cs) = Some (r, n)" and "val_ok ds r n c"
  shows "\<forall>j < Suc (length cs). child_ok ds (i, j) ((cs @ [c]) ! j)" and "i < length ds" and "Suc (length cs) \<le> length (td_fields (ds ! i))"
  using assms by (auto simp: nth_append child_ok_def field_at_Some less_Suc_eq)

lemma array_done:
  assumes "frame_ok ds f (OPEN_ARRAY r' m, cs)" and "hole ds (OPEN_ARRAY r' m, cs) = Some (r, n)" and "val_ok ds r n c"
  shows "r = r'" "n = m" "\<forall>x \<in> set (cs @ [c]). val_ok ds r m x"
  using assms by auto

lemma last_element:
  assumes "frame_ok ds f (OPEN_ARRAY r m, cs)" and "array_remaining f - 1 = 0" and "val_ok ds r m c" and "fits ds (OPEN_ARRAY r m) (r', n')"
  shows "val_ok ds r' n' (VAL_ARRAY r (cs @ [c]))"
proof -
  have "array_remaining f = 1" using assms(2) by (simp add: algebra_simps)
  then show ?thesis using assms(1,3,4) by (auto simp: elems_ok_all)
qed

lemma unat_pred: "0 < (n :: uint8) \<Longrightarrow> unat (n - 1) = unat n - 1 \<and> 0 < unat n"
  by (metis unat_minus_one unat_gt_0 word_neq_0_conv)

lemma stack_ok_top:
  "stack_ok ds root (f # fs) ((k, cs) # zs) \<Longrightarrow> frame_ok ds f' (k, cs') \<Longrightarrow> fr_node f' = fr_node f \<Longrightarrow> stack_ok ds root (f' # fs) ((k, cs') # zs)"
  by (cases zs) auto

lemma advance_building:
  assumes "root \<noteq> ROOT_NONE" and "g_build s = f # fs" and "stack_ok (g_structs s) root (f # fs) ((k, cs) # zs)"
    and "root_value root s = Some (zfill zs (close k (cs @ [c])))"
    and "hole (g_structs s) (k, cs) = Some (r, n)" and "val_ok (g_structs s) r n c"
  shows "tree_step root s (advance s)"
  using assms(2-)
proof (induction s arbitrary: f fs k cs zs c r n rule: advance.induct)
  case (1 s)
  note b = "1.prems"(1) and st = "1.prems"(2) and v = "1.prems"(3) and h = "1.prems"(4) and c = "1.prems"(5)
  let ?ds = "g_structs s" and ?pop = "s\<lparr>g_build := fs\<rparr>"
  have fo: "frame_ok ?ds f (k, cs)" "fr_node f = (root, zpath zs)" using st by auto
  have next_pop: "tree_step root s r'" if "tree_step root ?pop r'" for r'
    using tree_step_trans [OF _ that] by simp
  show ?case
  proof (cases k)
    case (OPEN_ARRAY r' m)
    have rem: "0 < array_remaining f" "unat (array_levels_remaining f) = m" "fr_next f = Some r'" using fo OPEN_ARRAY by auto
    have dn: "r = r'" "n = m" "\<forall>x \<in> set (cs @ [c]). val_ok ?ds r m x"
      using array_done [of ?ds f r' m cs r n c] fo(1) h c unfolding OPEN_ARRAY by blast+
    obtain k' cs' zs' where z: "zs = (k', cs') # zs'" using st OPEN_ARRAY by (cases zs) auto
    from st [unfolded z] obtain r2 n2 where o: "hole ?ds (k', cs') = Some (r2, n2)" "fits ?ds k (r2, n2)" "stack_ok ?ds root fs ((k', cs') # zs')"
      by (rule plug_done)
    obtain f' fs' where fs: "fs = f' # fs'" using o(3) by (cases fs) auto
    show ?thesis
    proof (cases "array_remaining f - 1 = 0")
      case True
      have val: "val_ok (g_structs ?pop) r2 n2 (VAL_ARRAY r' (cs @ [c]))"
        unfolding eip712_parse.simps typed_data.simps
        by (rule last_element [where f = f and m = m]) (use fo(1) OPEN_ARRAY True dn o(2) in auto)
      have "tree_step root ?pop (advance ?pop)"
        by (rule "1.IH"(1) [OF b rem(1) refl _ _ _ _ _ val, where fs = fs' and f = f' and zs = zs'])
          (use True fs o v z OPEN_ARRAY in simp_all)
      then show ?thesis using b rem(1) True by (subst advance.simps) (simp add: next_pop)
    next
      case False
      let ?f = "f\<lparr>array_remaining := array_remaining f - 1\<rparr>"
      let ?s = "s\<lparr>g_build := ?f # fs\<rparr>"
      have more: "0 < array_remaining f - 1" using False by (simp add: word_gt_0)
      have sum: "length (cs @ [c]) + unat (array_remaining f - 1) = length cs + unat (array_remaining f)"
        using unat_pred [OF rem(1)] by simp
      have fo': "frame_ok ?ds ?f (OPEN_ARRAY r' m, cs @ [c])"
        using fo(1) dn more sum [symmetric] unfolding OPEN_ARRAY frame_ok.simps by simp
      have st': "stack_ok (g_structs ?s) root (g_build ?s) ((OPEN_ARRAY r' m, cs @ [c]) # zs)"
        using stack_ok_top [OF st [unfolded OPEN_ARRAY] fo'] by simp
      have v': "root_value root ?s = Some (zfill zs (close (OPEN_ARRAY r' m) (cs @ [c])))" using v OPEN_ARRAY by simp
      have bl: "building root ?s" using st' v' assms(1) unfolding building_def by blast
      obtain d where d: "field_at ?ds r' = Some d" using fo(1) OPEN_ARRAY by auto
      show ?thesis
      proof (cases "array_levels_remaining f = 0 \<and> field_type d = TYPE_STRUCT")
        case settle: False
        have "tree_inv root ?s" using bl settle d rem more by (auto simp: tree_inv_def settled_def word_gt_0)
        then have "tree_step root s (Some (True, ?s))" by (simp add: tree_step_def)
        then show ?thesis using b rem False d settle by (subst advance.simps) (auto simp: Let_def)
      next
        case True
        have m0: "m = 0" using True rem(2) by simp
        have h0: "hole (g_structs ?s) (OPEN_ARRAY r' m, cs @ [c]) = Some (r', 0)" using m0 by simp
        from open_nested_building [OF assms(1) st' v' h0, of d] d True fo(2) obtain ok s' where
          n: "open_nested (struct_name d) (fr_node f) ?s = Some (ok, s')" "rest_same root ?s s'"
            "ok \<longrightarrow> building root s' \<and> array_remaining (hd (g_build s')) = 0" by auto
        have same: "rest_same root s s'" by (rule rest_same_trans [OF _ n(2)]) simp
        have "advance s = (if \<not> ok then Some (False, s') else auto_descend s')"
          using b rem False d True n(1) by (subst advance.simps) (simp add: Let_def)
        then show ?thesis using n(3) same auto_descend_building tree_step_trans by (cases ok) auto
      qed
    qed
  next
    case (OPEN_STRUCT i)
    have rem: "array_remaining f = 0" "fr_next f = field_ref_at ?ds i (length cs)" using fo OPEN_STRUCT by auto
    have rn: "fr_next f = Some (i, length cs)" using h OPEN_STRUCT rem(2) by (auto simp: field_ref_at_Some)
    note dn = struct_done [where ds = ?ds and f = f and i = i and cs = cs and r = r and n = n and c = c]
    have all: "\<forall>j < Suc (length cs). child_ok ?ds (i, j) ((cs @ [c]) ! j)" "i < length ?ds" "Suc (length cs) \<le> length (td_fields (?ds ! i))"
      using dn fo(1) h c OPEN_STRUCT by blast+
    let ?nxt = "field_ref_at ?ds i (Suc (length cs))"
    show ?thesis
    proof (cases ?nxt)
      case None
      then have "length (td_fields (?ds ! i)) = Suc (length cs)" using all field_ref_at_None [OF all(2)] by (metis le_antisym)
      then have fok: "fields_ok ?ds i 0 (cs @ [c])" using all by (simp add: fields_ok_children)
      have adv: "advance s = advance ?pop" using b rem(1) rn None by (subst advance.simps) simp
      show ?thesis
      proof (cases zs)
        case Nil
        then have "fs = []" using st by (cases fs) auto
        moreover have "root_name_ok ?ds root i" using st Nil OPEN_STRUCT by auto
        ultimately have "tree_inv root ?pop" using assms(1) v Nil OPEN_STRUCT fok by (simp add: tree_inv_def root_ok_def)
        then have "tree_step root ?pop (advance ?pop)" using \<open>fs = []\<close> by (subst advance.simps) (simp add: tree_step_def)
        then show ?thesis unfolding adv by (rule next_pop)
      next
        case (Cons z zs')
        obtain k' cs' where z: "zs = (k', cs') # zs'" using Cons by (cases z) auto
        from st [unfolded z] obtain r2 n2 where o: "hole ?ds (k', cs') = Some (r2, n2)" "fits ?ds k (r2, n2)" "stack_ok ?ds root fs ((k', cs') # zs')"
          by (rule plug_done)
        obtain f' fs' where fs: "fs = f' # fs'" using o(3) by (cases fs) auto
        have val: "val_ok (g_structs ?pop) r2 n2 (VAL_STRUCT i (cs @ [c]))" using o(2) fok OPEN_STRUCT by auto
        have "tree_step root ?pop (advance ?pop)"
          by (rule "1.IH"(2) [OF b _ rn refl _ _ _ _ _ val, where fs = fs' and f = f' and zs = zs'])
            (use None rem(1) fs o v z OPEN_STRUCT in simp_all)
        then show ?thesis unfolding adv by (rule next_pop)
      qed
    next
      case (Some nx)
      let ?f = "f\<lparr>fr_next := Some nx\<rparr>"
      let ?s = "s\<lparr>g_build := ?f # fs\<rparr>"
      have "frame_ok ?ds ?f (OPEN_STRUCT i, cs @ [c])" using fo(1) OPEN_STRUCT all Some by auto
      from stack_ok_top [OF st [unfolded OPEN_STRUCT] this]
      have st': "stack_ok (g_structs ?s) root (g_build ?s) ((OPEN_STRUCT i, cs @ [c]) # zs)" by simp
      have "building root ?s" unfolding building_def
        by (intro conjI exI [of _ "OPEN_STRUCT i"] exI [of _ "cs @ [c]"] exI [of _ zs]) (use st' v OPEN_STRUCT assms(1) in simp_all)
      then have "tree_step root ?s (auto_descend ?s)" by (rule auto_descend_building) (use rem in simp)
      then have "tree_step root s (auto_descend ?s)" by (rule tree_step_trans [rotated]) simp
      moreover have "advance s = auto_descend ?s" using b rem(1) rn Some by (subst advance.simps) simp
      ultimately show ?thesis by simp
    qed
  qed
qed

end
