(* ===== verification/Eip712_Parse_Ops.thy ===== *)
theory Eip712_Parse_Ops
  imports Eip712_Parse_Inv
begin

text \<open>
  Every operation of the parser keeps its invariant and follows no null pointer: \<open>parse_inv\<close> says that the trees conform to the
  definitions, that at most one of them is still growing, and that a leaf that is being received is the value of the current
  field.
\<close>

definition root_complete :: "e_root_type \<Rightarrow> eip712_parse \<Rightarrow> bool" where
  "root_complete root s \<longleftrightarrow> (\<forall>v. root_value root s = Some v \<longrightarrow> root_ok (g_structs s) root v)"

definition pending_inv :: "eip712_parse \<Rightarrow> bool" where
  "pending_inv s \<longleftrightarrow>
     (case pending_leaf s of
        None \<Rightarrow> True
      | Some (r, leaf) \<Rightarrow>
          (\<exists>f fs d. g_build s = f # fs \<and> fr_next f = Some r \<and> field_at (g_structs s) r = Some d \<and> leaf_ok d leaf \<and>
             (if 0 < array_remaining f then array_levels_remaining f = 0 else array_level_count d = 0)) \<and>
          unat (pending_filled s) \<le> length leaf \<and> length leaf < 65536)"

definition parse_inv :: "eip712_parse \<Rightarrow> bool" where
  "parse_inv s \<longleftrightarrow> schema_ok (g_structs s) \<and> g_domain_root s \<noteq> ROOT_FREED \<and> pending_inv s \<and>
     (if g_build s = [] then \<forall>root. root_complete root s
      else \<exists>cur. tree_inv cur s \<and> (\<forall>root. root \<noteq> cur \<longrightarrow> root_complete root s))"

definition parse_step :: "parse_result \<Rightarrow> bool" where
  "parse_step r \<longleftrightarrow> (\<exists>ok s'. r = Some (ok, s') \<and> (ok \<longrightarrow> parse_inv s'))"

lemma parse_step_fail [simp]: "parse_step (Some (False, s))"
  by (auto simp: parse_step_def)

text \<open>Building one tree while the other one is complete.\<close>

definition parse_ready :: "e_root_type \<Rightarrow> eip712_parse \<Rightarrow> bool" where
  "parse_ready cur s \<longleftrightarrow> schema_ok (g_structs s) \<and> g_domain_root s \<noteq> ROOT_FREED \<and> pending_leaf s = None \<and>
     (\<forall>root. root \<noteq> cur \<longrightarrow> root_complete root s)"

lemma parse_step_tree:
  assumes "tree_step cur s r" and "parse_ready cur s"
  shows "parse_step r"
proof -
  from assms(1) obtain ok s' where r: "r = Some (ok, s')" and same: "rest_same cur s s'" and inv: "ok \<longrightarrow> tree_inv cur s'"
    by (auto simp: tree_step_def)
  have "parse_inv s'" if ok
  proof -
    have t: "tree_inv cur s'" using inv that by blast
    have o: "\<forall>root. root \<noteq> cur \<longrightarrow> root_complete root s'" using assms(2) same by (auto simp: parse_ready_def rest_same_def root_complete_def)
    have "root_complete cur s'" if "g_build s' = []" using t that by (auto simp: tree_inv_def root_complete_def)
    then show ?thesis using t o assms(2) same by (auto simp: parse_inv_def parse_ready_def rest_same_def pending_inv_def)
  qed
  then show ?thesis using r by (auto simp: parse_step_def)
qed

lemma td_create_node:
  "td_create_struct i s = (r, s') \<Longrightarrow> \<exists>m. s' = s\<lparr>td_mem := m\<rparr> \<and> (r = None \<or> r = Some (VAL_STRUCT i []))"
  "td_create_array q s = (r, s') \<Longrightarrow> \<exists>m. s' = s\<lparr>td_mem := m\<rparr> \<and> (r = None \<or> r = Some (VAL_ARRAY q []))"
  by (auto simp: td_create_struct_def td_create_array_def td_with_mem_def split: prod.splits if_splits)

section \<open>Roots\<close>

lemma td_set_domain_step:
  assumes "i < length (g_structs s)"
  shows "(\<exists>s'. td_set_domain (VAL_STRUCT i []) s = Some (False, s')) \<or>
    td_set_domain (VAL_STRUCT i []) s = Some (True, set_root_value ROOT_DOMAIN (VAL_STRUCT i []) s) \<and> td_name (g_structs s ! i) = ''EIP712Domain''"
  using assms by (auto simp: td_set_domain_def rd_def set_root_value_def)

lemma td_set_message_step:
  "(\<exists>s'. td_set_message (VAL_STRUCT i []) s = (False, s')) \<or>
   td_set_message (VAL_STRUCT i []) s = (True, set_root_value ROOT_MESSAGE (VAL_STRUCT i []) s)"
  by (auto simp: td_set_message_def set_root_value_def)

lemma set_root_rest [simp]:
  "pending_leaf (set_root_value root v s) = pending_leaf s" "g_domain_root (set_root_value root v s) = g_domain_root s"
  by (cases root; simp add: set_root_value_def)+

lemma root_complete_other: "root' \<noteq> root \<Longrightarrow> root_complete root' (set_root_value root v s) \<longleftrightarrow> root_complete root' s"
  by (simp add: root_complete_def root_value_set_other)

lemma root_complete_fields [simp]:
  "root_complete root (s\<lparr>td_mem := m\<rparr>) = root_complete root s" "root_complete root (s\<lparr>g_build := fs\<rparr>) = root_complete root s"
  "root_complete root (s\<lparr>g_backup := bs\<rparr>) = root_complete root s" "root_complete root (s\<lparr>g_domain_root := p\<rparr>) = root_complete root s"
  by (cases root; simp add: root_complete_def root_value_def)+

lemma start_root:
  assumes s: "schema_ok (g_structs s)" "g_domain_root s \<noteq> ROOT_FREED" "pending_leaf s = None" "g_build s = []" "\<forall>root. root_complete root s"
    and r: "root_name_ok (g_structs s) root i"
  shows "parse_step (case push_frame (field_ref_at (g_structs s) i 0) (root, []) 0 0 (set_root_value root (VAL_STRUCT i []) s) of
      (False, s) \<Rightarrow> Some (False, s) | (True, s) \<Rightarrow> auto_descend s)"
proof -
  let ?f = "\<lparr>fr_next = field_ref_at (g_structs s) i 0, fr_node = (root, []), array_remaining = 0, array_levels_remaining = 0\<rparr>"
  let ?s = "(set_root_value root (VAL_STRUCT i []) s)\<lparr>g_build := [?f]\<rparr>"
  have p: "push_frame (field_ref_at (g_structs s) i 0) (root, []) 0 0 (set_root_value root (VAL_STRUCT i []) s) = (True, ?s)"
    using s(4) by (simp add: push_frame_def TD_MAX_DEPTH_def)
  have n: "root \<noteq> ROOT_NONE" "i < length (g_structs s)" using r by (auto simp: root_name_ok_def)
  have "building root ?s" unfolding building_def
    by (intro conjI exI [of _ "OPEN_STRUCT i"] exI [of _ "[]"]) (use n r in \<open>simp_all add: zpath_def\<close>)
  then have "tree_step root ?s (auto_descend ?s)" by (rule auto_descend_building) simp
  moreover have "parse_ready root ?s" using s by (auto simp: parse_ready_def root_complete_other)
  ultimately show ?thesis unfolding p by (simp add: parse_step_tree)
qed

lemma v1_set_root_inv:
  assumes "parse_inv s"
  shows "parse_step (v1_set_root name s)"
proof (cases "pending_leaf s \<noteq> None \<or> g_build s \<noteq> [] \<or> td_find_struct (Some name) (g_structs s) = None")
  case True
  then show ?thesis by (auto simp: v1_set_root_def)
next
  case False
  then obtain i where i: "pending_leaf s = None" "g_build s = []" "td_find_struct (Some name) (g_structs s) = Some i"
    by (cases "pending_leaf s") auto
  have il: "i < length (g_structs s)" "td_name (g_structs s ! i) = name" using td_find_struct_Some [OF i(3)] by auto
  have inv: "schema_ok (g_structs s)" "g_domain_root s \<noteq> ROOT_FREED" "\<forall>root. root_complete root s"
    using assms i(2) by (auto simp: parse_inv_def)
  obtain r s1 where c: "td_create_struct i s = (r, s1)" by (cases "td_create_struct i s")
  from td_create_node(1) [OF c] obtain m where m: "s1 = s\<lparr>td_mem := m\<rparr>" "r = None \<or> r = Some (VAL_STRUCT i [])" by blast
  show ?thesis
  proof (cases r)
    case None
    then show ?thesis using i c by (simp add: v1_set_root_def)
  next
    case (Some node)
    then have node: "node = VAL_STRUCT i []" using m by simp
    show ?thesis
    proof (cases "name = ''EIP712Domain''")
      case True
      have "(\<exists>s'. td_set_domain node s1 = Some (False, s')) \<or>
          td_set_domain node s1 = Some (True, set_root_value ROOT_DOMAIN (VAL_STRUCT i []) s1)"
        using td_set_domain_step [of i s1] il m(1) node by auto
      then show ?thesis
      proof (elim disjE exE)
        fix s' assume "td_set_domain node s1 = Some (False, s')"
        then show ?thesis using i c Some True by (simp add: v1_set_root_def)
      next
        assume d: "td_set_domain node s1 = Some (True, set_root_value ROOT_DOMAIN (VAL_STRUCT i []) s1)"
        let ?s = "s1\<lparr>g_domain_root := ROOT_NODE\<rparr>"
        have "root_name_ok (g_structs ?s) ROOT_DOMAIN i" using il i(3) True m(1) by (simp add: root_name_ok_def)
        from start_root [OF _ _ _ _ _ this] have
          "parse_step (case push_frame (field_ref_at (g_structs ?s) i 0) (ROOT_DOMAIN, []) 0 0 (set_root_value ROOT_DOMAIN (VAL_STRUCT i []) ?s) of
             (False, s) \<Rightarrow> Some (False, s) | (True, s) \<Rightarrow> auto_descend s)" using inv i m(1) by simp
        moreover have "(set_root_value ROOT_DOMAIN (VAL_STRUCT i []) s1)\<lparr>g_domain_root := ROOT_NODE\<rparr> = set_root_value ROOT_DOMAIN (VAL_STRUCT i []) ?s"
          by (simp add: set_root_value_def)
        ultimately show ?thesis using i c Some True d by (simp add: v1_set_root_def)
      qed
    next
      case False
      have "(\<exists>s'. td_set_message node s1 = (False, s')) \<or> td_set_message node s1 = (True, set_root_value ROOT_MESSAGE (VAL_STRUCT i []) s1)"
        using td_set_message_step node by blast
      then show ?thesis
      proof (elim disjE exE)
        fix s' assume "td_set_message node s1 = (False, s')"
        then show ?thesis using i c Some False by (simp add: v1_set_root_def)
      next
        assume d: "td_set_message node s1 = (True, set_root_value ROOT_MESSAGE (VAL_STRUCT i []) s1)"
        have "root_name_ok (g_structs s1) ROOT_MESSAGE i" using il i(3) m(1) by (simp add: root_name_ok_def)
        from start_root [OF _ _ _ _ _ this] have
          "parse_step (case push_frame (field_ref_at (g_structs s1) i 0) (ROOT_MESSAGE, []) 0 0 (set_root_value ROOT_MESSAGE (VAL_STRUCT i []) s1) of
             (False, s) \<Rightarrow> Some (False, s) | (True, s) \<Rightarrow> auto_descend s)" using inv i m(1) by simp
        then show ?thesis using i c Some False d by (simp add: v1_set_root_def)
      qed
    qed
  qed
qed

section \<open>Arrays\<close>

lemma parse_inv_top:
  assumes "parse_inv s" and "g_build s = f # fs"
  obtains cur k cs zs where "\<forall>root. root \<noteq> cur \<longrightarrow> root_complete root s" "cur \<noteq> ROOT_NONE"
    "stack_ok (g_structs s) cur (f # fs) ((k, cs) # zs)" "root_value cur s = Some (zfill zs (close k cs))" "fr_node f = (cur, zpath zs)"
    "frame_ok (g_structs s) f (k, cs)" "settled (g_structs s) f"
proof -
  from assms obtain cur where c: "tree_inv cur s" "\<forall>root. root \<noteq> cur \<longrightarrow> root_complete root s" by (auto simp: parse_inv_def)
  then have b: "building cur s" "settled (g_structs s) f" using assms(2) by (auto simp: tree_inv_def)
  from b(1) show ?thesis by (rule building_top) (use assms(2) that c(2) b(2) in auto)
qed

lemma level_index:
  fixes number la :: uint8
  assumes "unat la < unat number"
  shows "unat (number - 1 - la) = unat number - 1 - unat la"
proof -
  have c: "0 < number" using assms by (simp add: word_less_nat_alt)
  then have "la \<le> number - 1" using assms unat_pred [OF c] by (simp add: word_le_nat_alt)
  then show ?thesis using unat_pred [OF c] by (simp add: unat_sub)
qed

lemma field_at_ok: "schema_ok ds \<Longrightarrow> field_at ds r = Some d \<Longrightarrow> field_ok d"
  using nth_mem by (cases r) (fastforce simp: schema_ok_def field_at_Some)

text \<open>An array opens where the innermost container expects one.\<close>

lemma open_array:
  assumes ready: "parse_ready cur s" and cur: "cur \<noteq> ROOT_NONE" and b: "g_build s = f # fs"
    and st: "stack_ok (g_structs s) cur (f # fs) ((k, cs) # zs)" and v: "root_value cur s = Some (zfill zs (close k cs))"
    and h: "hole (g_structs s) (k, cs) = Some (r, Suc (unat la))" and d: "field_at (g_structs s) r = Some d"
    and level: "level_ok d (unat la) number" and n: "fr_node f = (cur, zpath zs)"
  shows "parse_step (case td_create_array r s of
      (None, s) \<Rightarrow> Some (False, s)
    | (Some arr, s) \<Rightarrow> do {
        (arr, s) \<leftarrow> td_append_child (fr_node f) arr s;
        if number = 0 then advance (s\<lparr>g_backup := filter (\<lambda>f. array_remaining f = 0) (rev (g_build s))\<rparr>)
        else if 255 < number then Some (False, s)
        else
          (case push_frame (Some r) arr (word_of_nat number) la s of
             (False, s) \<Rightarrow> Some (False, s)
           | (True, s) \<Rightarrow>
               if la = 0 \<and> field_type d = TYPE_STRUCT then do {
                 (ok, s) \<leftarrow> open_nested (struct_name d) arr s;
                 if \<not> ok then Some (False, s) else auto_descend s }
               else Some (True, s)) })"
proof -
  let ?ds = "g_structs s" and ?arr = "VAL_ARRAY r []"
  obtain x s1 where c: "td_create_array r s = (x, s1)" by (cases "td_create_array r s")
  from td_create_node(2) [OF c] obtain m where m: "s1 = s\<lparr>td_mem := m\<rparr>" "x = None \<or> x = Some ?arr" by blast
  show ?thesis
  proof (cases x)
    case None
    then show ?thesis using c by simp
  next
    case (Some node)
    let ?s = "set_root_value cur (zfill zs (close k (cs @ [?arr]))) s1"
    have a: "td_append_child (cur, zpath zs) ?arr s1 = Some ((cur, zpath ((k, cs) # zs)), ?s)"
      by (rule append_child_plug) (use v m in simp)
    note a = a [folded n]
    have same: "rest_same cur s ?s" by (rule rest_same_trans [of _ _ s1]) (use m in simp_all)
    have g: "g_structs ?s = ?ds" "g_build ?s = f # fs" using b m by simp_all
    have vs: "root_value cur ?s = Some (zfill zs (close k (cs @ [?arr])))" using cur by simp
    have node: "node = ?arr" using m(2) Some by simp
    show ?thesis
    proof (cases "number = 0")
      case True
      let ?b = "?s\<lparr>g_backup := filter (\<lambda>f. array_remaining f = 0) (rev (g_build ?s))\<rparr>"
      have val: "val_ok (g_structs ?b) r (Suc (unat la)) ?arr" using d level True g by simp
      have "tree_step cur ?b (advance ?b)"
        by (rule advance_building [OF cur _ _ _ _ val, where f = f and fs = fs and k = k and cs = cs and zs = zs]) (use g st vs h in simp_all)
      then have "tree_step cur s (advance ?b)" by (rule tree_step_trans [OF rest_same_trans [OF same rest_same_build(2)]])
      then have "parse_step (advance ?b)" by (rule parse_step_tree [OF _ ready])
      then show ?thesis using c Some a True node by simp
    next
      case False
      show ?thesis
      proof (cases "255 < number \<or> TD_MAX_DEPTH \<le> length (g_build s)")
        case True
        then show ?thesis using c Some a False node g b by (auto simp: push_frame_def)
      next
        case fit: False
        let ?f = "\<lparr>fr_next = Some r, fr_node = (cur, zpath ((k, cs) # zs)), array_remaining = word_of_nat number, array_levels_remaining = la\<rparr>"
        let ?p = "?s\<lparr>g_build := ?f # f # fs\<rparr>"
        have p: "push_frame (Some r) (cur, zpath ((k, cs) # zs)) (word_of_nat number) la ?s = (True, ?p)"
          using fit g b by (simp add: push_frame_def)
        have n: "unat (word_of_nat number :: uint8) = number" using fit by (simp add: unsigned_of_nat take_bit_nat_eq_self)
        have pos: "(0 :: uint8) < word_of_nat number" using n False by (metis unat_0 word_gt_0 neq0_conv)
        have st': "stack_ok (g_structs ?p) cur (g_build ?p) ((OPEN_ARRAY r (unat la), []) # (k, cs) # zs)"
          using st h d level n pos g by auto
        have v': "root_value cur ?p = Some (zfill ((k, cs) # zs) (close (OPEN_ARRAY r (unat la)) []))" using vs by simp
        have bl: "building cur ?p" using cur st' v' unfolding building_def by blast
        have same': "rest_same cur s ?p" by (rule rest_same_trans [OF same]) simp
        show ?thesis
        proof (cases "la = 0 \<and> field_type d = TYPE_STRUCT")
          case settle: False
          have "tree_inv cur ?p" using bl settle d g pos by (auto simp: tree_inv_def settled_def word_gt_0)
          then have "tree_step cur s (Some (True, ?p))" using same' by (simp add: tree_step_def)
          then have "parse_step (Some (True, ?p))" by (rule parse_step_tree [OF _ ready])
          then show ?thesis using c Some a False fit node p settle by auto
        next
          case True
          have h0: "hole (g_structs ?p) (OPEN_ARRAY r (unat la), []) = Some (r, 0)" using True by simp
          from open_nested_building [OF cur st' v' h0, of d] d g True obtain ok s' where
            o: "open_nested (struct_name d) (cur, zpath ((k, cs) # zs)) ?p = Some (ok, s')" "rest_same cur ?p s'"
              "ok \<longrightarrow> building cur s' \<and> array_remaining (hd (g_build s')) = 0" by auto
          have "tree_step cur s (if \<not> ok then Some (False, s') else auto_descend s')"
            using o(3) rest_same_trans [OF same' o(2)] auto_descend_building tree_step_trans by (cases ok) auto
          then have "parse_step (if \<not> ok then Some (False, s') else auto_descend s')" by (rule parse_step_tree [OF _ ready])
          then show ?thesis using c Some a False fit node p True o(1) by simp
        qed
      qed
    qed
  qed
qed

lemma v1_set_array_inv:
  assumes inv: "parse_inv s"
  shows "parse_step (v1_set_array number s)"
proof (cases "pending_leaf s \<noteq> None \<or> g_build s = [] \<or> fr_next (hd (g_build s)) = None")
  case True
  then show ?thesis by (cases "g_build s") (auto simp: v1_set_array_def)
next
  case False
  then obtain f fs where bf: "g_build s = f # fs" by (cases "g_build s") blast+
  have "fr_next (hd (g_build s)) \<noteq> None" using False by blast
  then obtain r where r: "fr_next f = Some r" unfolding bf by (cases "fr_next f") simp_all
  have p: "pending_leaf s = None" using False by blast
  note b = p bf r
  obtain cur k cs zs where o: "\<forall>root. root \<noteq> cur \<longrightarrow> root_complete root s" and t: "cur \<noteq> ROOT_NONE"
    "stack_ok (g_structs s) cur (f # fs) ((k, cs) # zs)" "root_value cur s = Some (zfill zs (close k cs))" "fr_node f = (cur, zpath zs)"
    "frame_ok (g_structs s) f (k, cs)" by (rule parse_inv_top [OF inv b(2)])
  have ready: "parse_ready cur s" using inv o b(1) by (auto simp: parse_ready_def parse_inv_def)
  from frame_hole [OF t(5) b(3)] obtain d where d: "field_at (g_structs s) r = Some d"
    "array_remaining f = 0 \<Longrightarrow> hole (g_structs s) (k, cs) = Some (r, unat (array_level_count d))"
    "0 < array_remaining f \<Longrightarrow> hole (g_structs s) (k, cs) = Some (r, unat (array_levels_remaining f))" by blast
  let ?la = "if 0 < array_remaining f \<and> 0 < array_levels_remaining f then Some (array_levels_remaining f - 1)
      else if 0 < array_remaining f then None else if array_level_count d = 0 then None else Some (array_level_count d - 1)"
  show ?thesis
  proof (cases ?la)
    case None
    then have "v1_set_array number s = Some (False, s)"
      unfolding v1_set_array_def b list.case option.case d(1) Option.bind.simps by simp
    then show ?thesis by simp
  next
    case (Some la)
    have h: "hole (g_structs s) (k, cs) = Some (r, Suc (unat la)) \<and> unat la < unat (array_level_count d)"
    proof (cases "0 < array_remaining f")
      case True
      then have l: "0 < array_levels_remaining f" "la = array_levels_remaining f - 1" using Some by (auto split: if_splits)
      have "unat (array_levels_remaining f) < unat (array_level_count d)"
        using t(5) True d(1,3) by (cases k) (auto simp: level_ok_def)
      then show ?thesis using d(3) [OF True] l unat_pred [OF l(1)] by simp
    next
      case False
      then have l: "0 < array_level_count d" "la = array_level_count d - 1" using Some by (auto simp: word_gt_0 split: if_splits)
      then show ?thesis using d(2) False unat_pred [OF l(1)] by (simp add: word_gt_0)
    qed
    then have cnt: "array_level_count d \<noteq> 0" by auto
    have fo: "field_ok d" using ready field_at_ok [OF _ d(1)] by (simp add: parse_ready_def)
    then obtain ls where ls: "array_levels d = Some ls" "length ls = unat (array_level_count d)" using cnt by (auto simp: field_ok_def)
    let ?i = "unat (array_level_count d) - 1 - unat la"
    have i: "?i < length ls" "unat (array_level_count d - 1 - la) = ?i" using h ls(2) level_index by auto
    show ?thesis
    proof (cases "level_type (ls ! ?i) = ARRAY_FIXED_SIZE \<and> number \<noteq> unat (level_size (ls ! ?i))")
      case True
      then show ?thesis using b d(1) Some ls i by (simp add: v1_set_array_def rd_def split del: if_split)
    next
      case False
      then have "level_ok d (unat la) number" using h ls i by (auto simp: level_ok_def)
      from open_array [OF ready t(1) b(2) t(2,3) _ d(1) this t(4)] h show ?thesis
        using b d(1) Some ls i False unfolding v1_set_array_def
        by (cases "level_type (ls ! ?i) = ARRAY_FIXED_SIZE") (simp_all add: rd_def split del: if_split)
    qed
  qed
qed

section \<open>Leaves\<close>

lemma td_leaf_write_total:
  "\<exists>ok leaf'. td_leaf_write leaf off data = Some (ok, leaf') \<and> length leaf' = length leaf \<and> (ok \<longrightarrow> off + length data \<le> length leaf)"
  by (auto simp: td_leaf_write_def wr_n_def)

lemma td_create_leaf_same:
  "td_create_leaf fresh n s = (r, s') \<Longrightarrow> \<exists>m. s' = s\<lparr>td_mem := m\<rparr> \<and> (r = None \<or> (\<exists>leaf. r = Some leaf \<and> length leaf = unat (word_of_nat n :: uint16)))"
  by (auto simp: td_create_leaf_def td_with_mem_def td_free_def Let_def split: prod.splits if_splits bool.splits)

definition leaf_step :: "((field_ref \<times> bytes) option \<times> eip712_parse) option \<Rightarrow> bool" where
  "leaf_step r \<longleftrightarrow> (\<exists>x s'. r = Some (x, s') \<and> (x \<noteq> None \<longrightarrow> parse_inv s'))"

lemma leaf_step_fail [simp]: "leaf_step (Some (None, s))"
  by (auto simp: leaf_step_def)

text \<open>Where a leaf can be received: the innermost frame, and what a change of the pending leaf keeps.\<close>

definition leaf_place :: "e_root_type \<Rightarrow> s_build_frame \<Rightarrow> open_node \<Rightarrow> s_struct_712_value list \<Rightarrow> open_frame list \<Rightarrow> field_ref \<Rightarrow> s_struct_712_field \<Rightarrow> eip712_parse \<Rightarrow> bool" where
  "leaf_place cur f k cs zs r d s \<longleftrightarrow> schema_ok (g_structs s) \<and> g_domain_root s \<noteq> ROOT_FREED \<and>
     (\<forall>root. root \<noteq> cur \<longrightarrow> root_complete root s) \<and> cur \<noteq> ROOT_NONE \<and> tree_inv cur s \<and>
     stack_ok (g_structs s) cur (g_build s) ((k, cs) # zs) \<and> root_value cur s = Some (zfill zs (close k cs)) \<and> fr_node f = (cur, zpath zs) \<and>
     (\<exists>fs. g_build s = f # fs) \<and> fr_next f = Some r \<and> field_at (g_structs s) r = Some d \<and> hole (g_structs s) (k, cs) = Some (r, 0) \<and>
     (if 0 < array_remaining f then array_levels_remaining f = 0 else array_level_count d = 0)"

lemma building_fields:
  "tree_inv cur (s\<lparr>td_mem := m\<rparr>) = tree_inv cur s" "tree_inv cur (s\<lparr>pending_leaf := p\<rparr>) = tree_inv cur s"
  "tree_inv cur (s\<lparr>pending_filled := n\<rparr>) = tree_inv cur s"
  by (cases cur; simp add: tree_inv_def building_def root_value_def)+

lemma pending_fields:
  "root_value root (s\<lparr>pending_leaf := p\<rparr>) = root_value root s" "root_value root (s\<lparr>pending_filled := n\<rparr>) = root_value root s"
  "root_complete root (s\<lparr>pending_leaf := p\<rparr>) = root_complete root s" "root_complete root (s\<lparr>pending_filled := n\<rparr>) = root_complete root s"
  by (cases root; simp add: root_value_def root_complete_def)+

lemma leaf_place_fields [simp]:
  "leaf_place cur f k cs zs r d (s\<lparr>td_mem := m\<rparr>) = leaf_place cur f k cs zs r d s"
  "leaf_place cur f k cs zs r d (s\<lparr>pending_leaf := p\<rparr>) = leaf_place cur f k cs zs r d s"
  "leaf_place cur f k cs zs r d (s\<lparr>pending_filled := n\<rparr>) = leaf_place cur f k cs zs r d s"
  by (simp_all add: leaf_place_def building_fields pending_fields)

lemma leaf_place_inv:
  assumes "leaf_place cur f k cs zs r d s" and "pending_leaf s = Some (r, leaf)" and "leaf_ok d leaf" and "length leaf < 65536"
    and "unat (pending_filled s) \<le> length leaf"
  shows "parse_inv s"
proof -
  have "pending_inv s" using assms by (auto simp: pending_inv_def leaf_place_def)
  then show ?thesis using assms(1) by (auto simp: parse_inv_def leaf_place_def)
qed

lemma last_chunk_inv:
  assumes p: "leaf_place cur f k cs zs r d s" and l: "pending_leaf s = Some (r, leaf)" "leaf_ok d leaf"
  shows "leaf_step (last_chunk f d s)"
proof (cases "td_leaf_is_complete leaf (unat (pending_filled s))")
  case False
  then show ?thesis using l by (simp add: last_chunk_def)
next
  case True
  have st: "stack_ok (g_structs s) cur (g_build s) ((k, cs) # zs)" "root_value cur s = Some (zfill zs (close k cs))" "fr_node f = (cur, zpath zs)"
    "hole (g_structs s) (k, cs) = Some (r, 0)" "field_at (g_structs s) r = Some d" "cur \<noteq> ROOT_NONE" "schema_ok (g_structs s)"
    "g_domain_root s \<noteq> ROOT_FREED" using p by (auto simp: leaf_place_def)
  obtain fs where b: "g_build s = f # fs" using p by (auto simp: leaf_place_def)
  obtain key where key: "key_name d = Some key" using field_at_ok [OF st(7,5)] by (auto simp: field_ok_def)
  have "chain_id_refused f d leaf s \<noteq> None"
    using st(8) key by (cases "g_domain_root s"; cases "fr_node f = (ROOT_DOMAIN, [])") (simp_all add: chain_id_refused_def)
  then obtain refused where c: "chain_id_refused f d leaf s = Some refused" by blast
  show ?thesis
  proof (cases refused)
    case r: True
    then show ?thesis using l True c by (simp add: last_chunk_def)
  next
    case False
    let ?s = "set_root_value cur (zfill zs (close k (cs @ [VAL_ATOMIC r leaf]))) s"
    let ?c = "?s\<lparr>pending_leaf := None, pending_filled := 0\<rparr>"
    have a: "td_append_child (cur, zpath zs) (VAL_ATOMIC r leaf) s = Some ((cur, zpath ((k, cs) # zs)), ?s)"
      by (rule append_child_plug [OF st(2)])
    have g: "g_structs ?c = g_structs s" "g_build ?c = f # fs" using b by simp_all
    have v: "root_value cur ?c = Some (zfill zs (close k (cs @ [VAL_ATOMIC r leaf])))" using st(6) by (cases cur) (simp_all add: root_value_def set_root_value_def)
    have val: "val_ok (g_structs ?c) r 0 (VAL_ATOMIC r leaf)" using st(5) l(2) g by simp
    have "tree_step cur ?c (advance ?c)"
      by (rule advance_building [OF st(6) g(2) _ v _ val]) (use st b g in simp_all)
    moreover have "parse_ready cur ?c"
      using p by (auto simp: parse_ready_def leaf_place_def root_complete_def root_value_def set_root_value_def split: e_root_type.splits)
    ultimately have "parse_step (advance ?c)" by (rule parse_step_tree)
    then obtain ok s' where adv: "advance ?c = Some (ok, s')" "ok \<longrightarrow> parse_inv s'" by (auto simp: parse_step_def)
    then have "last_chunk f d s = Some ((if ok then Some (r, leaf) else None), s')"
      using l(1) True c False a st(3) by (simp add: last_chunk_def)
    then show ?thesis using adv(2) by (auto simp: leaf_step_def)
  qed
qed

lemma first_chunk_place:
  assumes p: "leaf_place cur f k cs zs r d s" and d: "field_type d \<noteq> TYPE_STRUCT"
  shows "(\<exists>s'. first_chunk fresh r d data s = Some (None, s')) \<or>
    (\<exists>s' rest leaf. first_chunk fresh r d data s = Some (Some rest, s') \<and> leaf_place cur f k cs zs r d s' \<and>
       pending_leaf s' = Some (r, leaf) \<and> pending_filled s' = 0 \<and> leaf_ok d leaf \<and> length leaf < 65536)"
proof (cases "length data < 2")
  case True
  then show ?thesis by (simp add: first_chunk_def)
next
  case False
  then obtain n where n: "read_u16_be data 0 = Some n" using read_u16_be_Some [of 0 data] by auto
  obtain x s1 where c: "td_create_leaf fresh (unat n) s = (x, s1)" by (cases "td_create_leaf fresh (unat n) s")
  from td_create_leaf_same [OF c] obtain m where m: "s1 = s\<lparr>td_mem := m\<rparr>" "x = None \<or> (\<exists>leaf. x = Some leaf \<and> length leaf = unat n)" by auto
  have lt: "unat n < 65536" using unsigned_less [where ?'a = nat, of n] by simp
  show ?thesis
    using False n c m d p lt by (auto simp: first_chunk_def leaf_ok_def)
qed

lemma v1_add_field_inv:
  assumes inv: "parse_inv s" and cur: "v1_get_current_field s \<noteq> None"
  shows "leaf_step (v1_add_field fresh data chunks s)"
proof -
  obtain f fs r where b: "g_build s = f # fs" "fr_next f = Some r"
    using cur by (auto simp: v1_get_current_field_def split: list.splits)
  obtain cur k cs zs where o: "\<forall>root. root \<noteq> cur \<longrightarrow> root_complete root s" and t: "cur \<noteq> ROOT_NONE"
    "stack_ok (g_structs s) cur (f # fs) ((k, cs) # zs)" "root_value cur s = Some (zfill zs (close k cs))" "fr_node f = (cur, zpath zs)"
    "frame_ok (g_structs s) f (k, cs)" "settled (g_structs s) f" by (rule parse_inv_top [OF inv b(1)])
  from frame_hole [OF t(5) b(2)] obtain d where d: "field_at (g_structs s) r = Some d"
    "array_remaining f = 0 \<Longrightarrow> hole (g_structs s) (k, cs) = Some (r, unat (array_level_count d))"
    "0 < array_remaining f \<Longrightarrow> hole (g_structs s) (k, cs) = Some (r, unat (array_levels_remaining f))" by blast
  let ?u = "if 0 < array_remaining f then 0 < array_levels_remaining f else 0 < array_level_count d"
  have u: "v1_current_field_uninstantiated_array s = Some ?u"
    using b d(1) by (simp add: v1_current_field_uninstantiated_array_def)
  show ?thesis
  proof (cases ?u)
    case True
    then have "v1_current_field_uninstantiated_array s = Some True" unfolding u by (simp split del: if_split)
    then show ?thesis using b(1) by (simp add: v1_add_field_def)
  next
    case False
    then have z: "if 0 < array_remaining f then array_levels_remaining f = 0 else array_level_count d = 0" by (auto simp: word_gt_0 split: if_splits)
    then have h: "hole (g_structs s) (k, cs) = Some (r, 0)" using d(2,3) by (auto simp: word_gt_0 split: if_splits)
    have u': "v1_current_field_uninstantiated_array s = Some False" unfolding u using False by (simp split del: if_split)
    have ty: "field_type d \<noteq> TYPE_STRUCT" using t(6) b(2) d(1) z by (auto simp: settled_def word_gt_0 split: if_splits)
    have ti: "tree_inv cur s" using t(1,2,3,6) b(1) by (auto simp: tree_inv_def building_def)
    have i: "schema_ok (g_structs s)" "g_domain_root s \<noteq> ROOT_FREED" using inv unfolding parse_inv_def by blast+
    have place: "leaf_place cur f k cs zs r d s"
      unfolding leaf_place_def b(1) by (intro conjI i o t(1-4) b(2) d(1) h z ti exI [of _ fs] refl)
    let ?k = "\<lambda>(data, s). (case data of
               None \<Rightarrow> Some (None, s)
             | Some data \<Rightarrow> do {
                 (r, leaf) \<leftarrow> pending_leaf s;
                 (ok, leaf) \<leftarrow> td_leaf_write leaf (unat (pending_filled s)) data;
                 if \<not> ok then Some (None, s)
                 else
                   (let s = s\<lparr>pending_leaf := Some (r, leaf), pending_filled := pending_filled s + word_of_nat (length data)\<rparr>
                    in if chunks then Some (Some (r, leaf), s) else last_chunk f d s) })"
    have chunk: "leaf_step (?k (Some rest, s1))"
      if s1: "leaf_place cur f k cs zs r d s1" "pending_leaf s1 = Some (r, leaf)" "leaf_ok d leaf" "length leaf < 65536"
        "unat (pending_filled s1) \<le> length leaf" for rest s1 leaf
    proof -
      obtain ok leaf' where w: "td_leaf_write leaf (unat (pending_filled s1)) rest = Some (ok, leaf')" "length leaf' = length leaf"
        "ok \<longrightarrow> unat (pending_filled s1) + length rest \<le> length leaf" using td_leaf_write_total by blast
      let ?s = "s1\<lparr>pending_leaf := Some (r, leaf'), pending_filled := pending_filled s1 + word_of_nat (length rest)\<rparr>"
      have l': "leaf_ok d leaf'" using s1(3) w(2) by (simp add: leaf_ok_def)
      have p': "leaf_place cur f k cs zs r d ?s" using s1(1) by simp
      have "parse_inv ?s" if ok
      proof (rule leaf_place_inv [OF p'])
        have "unat (pending_filled s1) + length rest < 65536" using w(3) that s1(4) by simp
        then have "unat (pending_filled ?s) = unat (pending_filled s1) + length rest"
          by (simp add: unat_word_ariths(1) unsigned_of_nat take_bit_nat_eq_self)
        then show "unat (pending_filled ?s) \<le> length leaf'" using w that by simp
      qed (use l' w(2) s1(4) in simp_all)
      moreover have "leaf_step (last_chunk f d ?s)" by (rule last_chunk_inv [OF p' _ l']) simp
      ultimately show ?thesis using s1(2) w(1) by (cases ok; cases chunks) (auto simp: leaf_step_def Let_def)
    qed
    have e: "v1_add_field fresh data chunks s = Option.bind (if pending_leaf s = None then first_chunk fresh r d data s else Some (Some data, s)) ?k"
      using b d(1) u' by (simp add: v1_add_field_def split del: if_split)
    show ?thesis
    proof (cases "pending_leaf s")
      case None
      from first_chunk_place [OF place ty, of fresh data] show ?thesis
      proof (elim disjE exE conjE)
        fix s' assume "first_chunk fresh r d data s = Some (None, s')"
        then show ?thesis unfolding e using None by simp
      next
        fix s' rest leaf assume "first_chunk fresh r d data s = Some (Some rest, s')" "leaf_place cur f k cs zs r d s'"
          "pending_leaf s' = Some (r, leaf)" "pending_filled s' = 0" "leaf_ok d leaf" "length leaf < 65536"
        with chunk [of s' leaf rest] show ?thesis unfolding e using None by simp
      qed
    next
      case (Some rl)
      obtain leaf where l: "pending_leaf s = Some (r, leaf)" "leaf_ok d leaf" "length leaf < 65536" "unat (pending_filled s) \<le> length leaf"
        using inv b d(1) Some by (auto simp: parse_inv_def pending_inv_def)
      from chunk [OF place l] show ?thesis unfolding e using l(1) by simp
    qed
  qed
qed

end
