(* ===== verification/Eip712_Parse_Defs.thy ===== *)
theory Eip712_Parse_Defs
  imports Eip712_Parse_Ops
begin

text \<open>
  The definitions that the parser accepts: \<open>names_ok\<close> says that no name has a character that the text of the schema uses, and
  \<open>def_step\<close> that a command adds a definition or a field, or leaves the definitions as they were.
\<close>

definition name_ok :: "string \<Rightarrow> bool" where
  "name_ok n \<longleftrightarrow> list_all (\<lambda>c. c \<noteq> CHR 0x22 \<and> c \<noteq> CHR 0x5C \<and> c \<noteq> CHR 0x2E \<and> c \<noteq> CHR 0x00) n"

definition field_names_ok :: "s_struct_712_field \<Rightarrow> bool" where
  "field_names_ok f \<longleftrightarrow> (\<forall>k. key_name f = Some k \<longrightarrow> name_ok k) \<and> (\<forall>k. struct_name f = Some k \<longrightarrow> name_ok k)"

definition names_ok :: "s_struct_712 list \<Rightarrow> bool" where
  "names_ok ds \<longleftrightarrow> (\<forall>d \<in> set ds. name_ok (td_name d) \<and> (\<forall>f \<in> set (td_fields d). field_names_ok f))"

lemma valid_name: "is_valid_identifier bs \<Longrightarrow> name_ok (buf_string bs)"
proof -
  assume v: "is_valid_identifier bs"
  have "(char_of (unat b) :: char) \<noteq> CHR 0x22 \<and> (char_of (unat b) :: char) \<noteq> CHR 0x5C \<and> (char_of (unat b) :: char) \<noteq> CHR 0x2E \<and>
      (char_of (unat b) :: char) \<noteq> CHR 0x00" if "b \<in> set bs" for b
  proof -
    have b: "b \<noteq> 34" "b \<noteq> 92" "b \<noteq> 46" "b \<noteq> 0" using v that by (auto simp: is_valid_identifier_def list_all_iff)
    have e: "b = word_of_nat n" if "(char_of (unat b) :: char) = char_of n" "n < 256" for n
    proof -
      have "(of_char (char_of (unat b) :: char) :: nat) = of_char (char_of n :: char)" using that(1) by simp
      then have "unat b = n" using that(2) unat_word8_lt [of b] by (simp add: of_char_of)
      moreover have "word_of_nat (unat b) = b" by simp
      ultimately show ?thesis by simp
    qed
    have c: "CHR 0x22 = char_of (34 :: nat)" "CHR 0x5C = char_of (92 :: nat)" "CHR 0x2E = char_of (46 :: nat)" "CHR 0x00 = char_of (0 :: nat)"
      by (simp_all add: char_of_def bit_0)
    show ?thesis using b e [of 34] e [of 92] e [of 46] e [of 0] unfolding c by auto
  qed
  note chars = this
  have "name_ok (map (\<lambda>b. char_of (unat b)) bs)" unfolding name_ok_def list_all_iff
  proof
    fix c :: char assume "c \<in> set (map (\<lambda>b. char_of (unat b)) bs)"
    then obtain b where b: "b \<in> set bs" "c = char_of (unat b)" by auto
    show "c \<noteq> CHR 0x22 \<and> c \<noteq> CHR 0x5C \<and> c \<noteq> CHR 0x2E \<and> c \<noteq> CHR 0x00" unfolding b(2) by (rule chars [OF b(1)])
  qed
  note all = this [unfolded name_ok_def list_all_iff]
  show ?thesis unfolding name_ok_def buf_string_def c_str_def list_all_iff
  proof
    fix c assume "c \<in> set (takeWhile (\<lambda>c. c \<noteq> NUL) (map (\<lambda>b. char_of (unat b)) bs))"
    then have "c \<in> set (map (\<lambda>b. char_of (unat b)) bs)" using set_takeWhileD by fast
    with all show "c \<noteq> CHR 0x22 \<and> c \<noteq> CHR 0x5C \<and> c \<noteq> CHR 0x2E \<and> c \<noteq> CHR 0x00" by (rule bspec)
  qed
qed

section \<open>The fields\<close>

definition mem_only :: "eip712_parse \<Rightarrow> eip712_parse \<Rightarrow> bool" where
  "mem_only s s' \<longleftrightarrow> (\<exists>m. s' = s\<lparr>td_mem := m\<rparr>)"

lemma mem_only_trans: "mem_only s s' \<Longrightarrow> mem_only s' s'' \<Longrightarrow> mem_only s s''"
  by (auto simp: mem_only_def)

lemma mem_only_steps [simp]: "mem_only s s" "mem_only s (td_free n s)" "mem_only s (s\<lparr>td_mem := m\<rparr>)"
  by (auto simp: mem_only_def td_free_def intro: exI [of _ "td_mem s"])

lemma with_mem_only: "td_with_mem s = (ok, s') \<Longrightarrow> mem_only s s'"
  by (auto simp: td_with_mem_def split: prod.splits)

lemma create_field: "td_create_field_def t s = (r, s') \<Longrightarrow> mem_only s s' \<and>
    (r = None \<or> r = Some \<lparr>struct_name = None, type_size = 0, key_name = None, array_levels = None, array_level_count = 0, field_type = t\<rparr>)"
  by (auto simp: td_create_field_def_def dest!: with_mem_only split: prod.splits bool.splits)

lemma name_setter:
  "td_field_set_key_name f name s = (ok, f', s') \<Longrightarrow> mem_only s s' \<and> (ok \<longrightarrow> f' = f\<lparr>key_name := Some (buf_string name)\<rparr>)"
  "td_field_set_struct_name f name s = (ok, f', s') \<Longrightarrow>
     mem_only s s' \<and> (ok \<longrightarrow> field_type f = TYPE_STRUCT \<and> f' = f\<lparr>struct_name := Some (buf_string name)\<rparr>)"
  by (auto simp: td_field_set_key_name_def td_field_set_struct_name_def Let_def dest!: with_mem_only
      split: prod.splits bool.splits if_splits intro: mem_only_trans mem_only_steps)

lemma set_field_name_ok:
  assumes "\<And>name s ok f' s'. setter f name s = (ok, f', s') \<Longrightarrow> mem_only s s' \<and> (ok \<longrightarrow> P f' (buf_string name))"
    and "set_field_name setter f data i s = (ok, f', i', s')"
  shows "mem_only s s' \<and> (ok \<longrightarrow> (\<exists>n. name_ok n \<and> P f' n))"
  using assms(2) by (auto simp: set_field_name_def Let_def split: option.splits if_splits prod.splits dest!: assms(1) intro: valid_name)

lemma keyname_ok:
  "v1_set_struct_field_keyname f data i s = (ok, f', i', s') \<Longrightarrow> mem_only s s' \<and> (ok \<longrightarrow> (\<exists>n. name_ok n \<and> f' = f\<lparr>key_name := Some n\<rparr>))"
  unfolding v1_set_struct_field_keyname_def by (rule set_field_name_ok [where P = "\<lambda>f' n. f' = f\<lparr>key_name := Some n\<rparr>"]) (rule name_setter(1))

lemma typename_ok:
  "v1_set_struct_field_custom_typename f data i s = (ok, f', i', s') \<Longrightarrow>
   mem_only s s' \<and> (ok \<longrightarrow> (\<exists>n. name_ok n \<and> field_type f = TYPE_STRUCT \<and> f' = f\<lparr>struct_name := Some n\<rparr>))"
  unfolding v1_set_struct_field_custom_typename_def
  by (rule set_field_name_ok [where P = "\<lambda>f' n. field_type f = TYPE_STRUCT \<and> f' = f\<lparr>struct_name := Some n\<rparr>"]) (rule name_setter(2))

lemma array_level_total:
  assumes "array_levels f = Some ls" and "length ls = unat (array_level_count f)" and "i < length ls"
  shows "\<exists>ls'. td_field_set_array_level f i t n = Some (True, f\<lparr>array_levels := Some ls'\<rparr>) \<and> length ls' = length ls"
  using assms by (auto simp: td_field_set_array_level_def rd_def wr_def)

lemma array_levels_total:
  assumes "array_levels f = Some ls" and "length ls = unat (array_level_count f)" and "\<forall>i \<in> set is. i < length ls"
  shows "\<exists>ok i' ls'. set_array_levels data is f idx = Some (ok, f\<lparr>array_levels := Some ls'\<rparr>, i') \<and> length ls' = length ls"
  using assms
proof (induction "is" arbitrary: f ls idx)
  case Nil
  then show ?case by (auto intro!: exI [of _ ls])
next
  case (Cons i "is")
  have stop: ?case if "set_array_levels data (i # is) f idx = Some (False, f, i')" for i'
    using that Cons.prems(1) by (intro exI [of _ False] exI [of _ i'] exI [of _ ls]) simp
  show ?case
  proof (cases "next_byte data idx")
    case None
    show ?thesis by (rule stop) (use None in simp)
  next
    case (Some bi)
    obtain b idx1 where bi: "bi = (b, idx1)" by (cases bi)
    let ?t = "if b = 0 then Some (ARRAY_DYNAMIC, 0, idx1)
        else if b = 1 then map_option (\<lambda>(arr_size, data_idx). (ARRAY_FIXED_SIZE, arr_size, data_idx)) (next_byte data idx1) else None"
    show ?thesis
    proof (cases ?t)
      case None
      show ?thesis by (rule stop) (use None Some bi in \<open>simp split del: if_split\<close>)
    next
      case t: (Some tn)
      obtain t1 n1 idx2 where tn: "tn = (t1, n1, idx2)" by (cases tn) auto
      from array_level_total [OF Cons.prems(1,2), of i t1 n1] Cons.prems(3) obtain ls1 where
        l: "td_field_set_array_level f i t1 n1 = Some (True, f\<lparr>array_levels := Some ls1\<rparr>)" "length ls1 = length ls" by auto
      have "set_array_levels data (i # is) f idx = set_array_levels data is (f\<lparr>array_levels := Some ls1\<rparr>) idx2"
        using Some bi t tn l(1) by (simp split del: if_split)
      then show ?thesis using Cons.IH [of "f\<lparr>array_levels := Some ls1\<rparr>" ls1 idx2] Cons.prems l(2) by auto
    qed
  qed
qed

lemma array_ok:
  "\<exists>ok f' i' s'. v1_set_struct_field_array f data i s = Some (ok, f', i', s') \<and> mem_only s s' \<and>
    (ok \<longrightarrow> (\<exists>ls number. f' = f\<lparr>array_levels := Some ls, array_level_count := number\<rparr> \<and> length ls = unat number))"
proof (cases "next_byte data i")
  case None
  then show ?thesis by (auto simp: v1_set_struct_field_array_def)
next
  case (Some bi)
  obtain b i1 where bi: "bi = (b, i1)" by (cases bi)
  obtain ok f1 s1 where c: "td_field_set_array_level_count f b s = (ok, f1, s1)" by (cases "td_field_set_array_level_count f b s") auto
  have m: "mem_only s s1"
    using c by (auto simp: td_field_set_array_level_count_def Let_def dest!: with_mem_only split: prod.splits bool.splits if_splits
        intro: mem_only_trans mem_only_steps)
  show ?thesis
  proof (cases ok)
    case False
    then show ?thesis using Some bi c m by (auto simp: v1_set_struct_field_array_def)
  next
    case True
    let ?ls = "replicate (unat b) \<lparr>level_type = ARRAY_DYNAMIC, level_size = 0\<rparr>"
    have f1: "f1 = f\<lparr>array_levels := Some ?ls, array_level_count := b\<rparr>"
      using c True by (auto simp: td_field_set_array_level_count_def Let_def split: prod.splits bool.splits if_splits)
    from array_levels_total [of f1 ?ls "[0..<unat b]" data i1] f1 obtain ok2 i2 ls2 where
      l: "set_array_levels data [0..<unat b] f1 i1 = Some (ok2, f1\<lparr>array_levels := Some ls2\<rparr>, i2)" "length ls2 = unat b" by auto
    have e: "v1_set_struct_field_array f data i s = Some (ok2, f1\<lparr>array_levels := Some ls2\<rparr>, i2, s1)"
      using Some bi c True l f1 by (simp add: v1_set_struct_field_array_def)
    have f2: "f1\<lparr>array_levels := Some ls2\<rparr> = f\<lparr>array_levels := Some ls2, array_level_count := b\<rparr>" by (simp add: f1)
    show ?thesis using e m l(2) unfolding f2 by blast
  qed
qed

section \<open>The commands\<close>

text \<open>A result of a definition command: nothing changes but the memory, or a definition is new, or a field.\<close>

definition defs_ok :: "eip712_parse \<Rightarrow> bool" where
  "defs_ok s \<longleftrightarrow> schema_ok (g_structs s) \<and> names_ok (g_structs s) \<and> (\<forall>p. g_pending_struct s = Some p \<longrightarrow> p < length (g_structs s))"

definition no_values :: "eip712_parse \<Rightarrow> bool" where
  "no_values s \<longleftrightarrow> g_build s = [] \<and> pending_leaf s = None \<and> td_domain s = None \<and> td_message s = None \<and> g_domain_root s \<noteq> ROOT_FREED"

definition def_step :: "parse_result \<Rightarrow> bool" where
  "def_step r \<longleftrightarrow> (\<exists>ok s'. r = Some (ok, s') \<and> (ok \<longrightarrow> defs_ok s' \<and> no_values s'))"

lemma no_values_inv: "no_values s \<Longrightarrow> defs_ok s \<Longrightarrow> parse_inv s"
  by (auto simp: no_values_def defs_ok_def parse_inv_def pending_inv_def root_complete_def root_value_def split: e_root_type.splits)

lemma mem_only_ok: "mem_only s s' \<Longrightarrow> defs_ok s' = defs_ok s \<and> no_values s' = no_values s"
  by (auto simp: mem_only_def defs_ok_def no_values_def)

lemma v1_set_struct_name_step:
  assumes "defs_ok s" and "no_values s"
  shows "def_step (Some (v1_set_struct_name name s))"
proof (cases "name = [] \<or> \<not> is_valid_identifier name")
  case True
  then show ?thesis by (auto simp: v1_set_struct_name_def def_step_def)
next
  case False
  then have n: "name_ok (buf_string name)" using valid_name by blast
  have t: "\<exists>m. td_with_mem s = (ok, s') \<longrightarrow> s' = s\<lparr>td_mem := m\<rparr>" for ok and s s' :: eip712_parse using td_with_mem_same by blast
  show ?thesis using assms False n
    by (auto simp: v1_set_struct_name_def def_step_def td_create_struct_def_def td_free_def td_add_struct_def_def td_with_mem_def
        Let_def defs_ok_def no_values_def schema_ok_def names_ok_def less_Suc_eq split: prod.splits bool.splits)
qed

lemma added_field:
  assumes "defs_ok s" and "g_pending_struct s = Some p" and "field_ok f" and "field_names_ok f"
  shows "\<exists>s'. td_add_struct_field_def p f s = Some s' \<and> defs_ok s' \<and> no_values s' = no_values s"
proof -
  have p: "p < length (g_structs s)" using assms by (auto simp: defs_ok_def)
  let ?d = "g_structs s ! p"
  let ?ds = "(g_structs s)[p := ?d\<lparr>td_fields := td_fields ?d @ [f]\<rparr>]"
  have sub: "set ?ds \<subseteq> insert (?d\<lparr>td_fields := td_fields ?d @ [f]\<rparr>) (set (g_structs s))" by (rule set_update_subset_insert)
  have d: "?d \<in> set (g_structs s)" using p by simp
  have so: "schema_ok ?ds" unfolding schema_ok_def
  proof
    fix d' assume "d' \<in> set ?ds"
    then have "d' = ?d\<lparr>td_fields := td_fields ?d @ [f]\<rparr> \<or> d' \<in> set (g_structs s)" using sub by blast
    then show "\<forall>g \<in> set (td_fields d'). field_ok g" using assms(1,3) d by (auto simp: defs_ok_def schema_ok_def)
  qed
  have no: "names_ok ?ds" unfolding names_ok_def
  proof
    fix d' assume "d' \<in> set ?ds"
    then have "d' = ?d\<lparr>td_fields := td_fields ?d @ [f]\<rparr> \<or> d' \<in> set (g_structs s)" using sub by blast
    then show "name_ok (td_name d') \<and> (\<forall>g \<in> set (td_fields d'). field_names_ok g)" using assms(1,4) d by (auto simp: defs_ok_def names_ok_def)
  qed
  show ?thesis using p so no assms(2) by (simp add: td_add_struct_field_def_def rd_def wr_def defs_ok_def no_values_def)
qed

lemma field_type_ok:
  assumes "v1_set_struct_field_type has_size f data i s = (ok, f', i', s')"
    and "f = \<lparr>struct_name = None, type_size = 0, key_name = None, array_levels = None, array_level_count = 0, field_type = t\<rparr>"
  shows "mem_only s s' \<and> (ok \<and> type_size_valid f' has_size \<longrightarrow>
      (\<exists>sn n. f' = f\<lparr>struct_name := sn, type_size := n\<rparr> \<and> (t = TYPE_STRUCT \<longrightarrow> (\<exists>k. sn = Some k)) \<and> (\<forall>k. sn = Some k \<longrightarrow> name_ok k) \<and>
         (t \<in> {TYPE_SOL_INT, TYPE_SOL_UINT, TYPE_SOL_BYTES_FIX} \<longrightarrow> 0 < unat n \<and> unat n \<le> 32)))"
proof -
  have sz: "type_size_valid f' has_size \<Longrightarrow> field_type f' \<in> {TYPE_SOL_INT, TYPE_SOL_UINT, TYPE_SOL_BYTES_FIX} \<Longrightarrow>
      0 < unat (type_size f') \<and> unat (type_size f') \<le> 32"
    by (auto simp: type_size_valid_def word_less_nat_alt word_gt_0 unat_gt_0)
  show ?thesis
  proof (cases "has_size")
    case True
    then show ?thesis using assms sz
      by (auto simp: v1_set_struct_field_type_def v1_set_struct_field_typesize_def td_field_set_type_size_def split: if_splits option.splits)
  next
    case False
    show ?thesis
    proof (cases "t = TYPE_STRUCT")
      case True
      then have "v1_set_struct_field_custom_typename f data i s = (ok, f', i', s')" using assms False by (simp add: v1_set_struct_field_type_def)
      from typename_ok [OF this] True assms(2) show ?thesis by auto
    next
      case nt: False
      then have "f' = f" "s' = s" using assms False by (auto simp: v1_set_struct_field_type_def)
      then show ?thesis using assms(2) sz nt by auto
    qed
  qed
qed

lemma def_step_fail [simp]: "def_step (Some (False, s))"
  by (auto simp: def_step_def)

lemma v1_set_struct_field_step:
  assumes ok: "defs_ok s" "no_values s"
  shows "def_step (v1_set_struct_field data s)"
proof -
  have "\<exists>r f s'. v1_set_struct_field_internal data s = Some (r, f, s') \<and> (r \<longrightarrow> defs_ok s' \<and> no_values s')"
  proof (cases "data = [] \<or> g_pending_struct s = None \<or> v1_set_struct_field_typedesc data 0 = None")
    case True
    then have "v1_set_struct_field_internal data s = Some (False, None, s)" by (auto simp: v1_set_struct_field_internal_def split: option.splits)
    then show ?thesis by blast
  next
    case False
    obtain pending where p: "g_pending_struct s = Some pending" using False by (cases "g_pending_struct s") auto
    obtain q where q: "v1_set_struct_field_typedesc data 0 = Some q" using False by (cases "v1_set_struct_field_typedesc data 0") auto
    obtain is_array has_size t i where q4: "q = (is_array, has_size, t, i)" by (cases q) auto
    obtain x s1 where c: "td_create_field_def t s = (x, s1)" by (cases "td_create_field_def t s")
    note cf = create_field [OF c]
    have d: "data \<noteq> []" using False by blast
    let ?f = "\<lparr>struct_name = None, type_size = 0, key_name = None, array_levels = None, array_level_count = 0, field_type = t\<rparr>"
    show ?thesis
    proof (cases x)
      case None
      then have "v1_set_struct_field_internal data s = Some (False, None, s1)" using d p q q4 c by (simp add: v1_set_struct_field_internal_def)
      then show ?thesis by blast
    next
      case (Some f0)
      then have f0: "x = Some ?f" using cf by auto
      obtain ok1 f1 i1 s2 where ty: "v1_set_struct_field_type has_size ?f data i s1 = (ok1, f1, i1, s2)"
        by (cases "v1_set_struct_field_type has_size ?f data i s1") auto
      note tyo = field_type_ok [OF ty refl]
      show ?thesis
      proof (cases "\<not> ok1 \<or> \<not> type_size_valid f1 has_size")
        case True
        then have "v1_set_struct_field_internal data s = Some (False, Some f1, s2)" using d p q q4 c f0 ty by (simp add: v1_set_struct_field_internal_def)
        then show ?thesis by blast
      next
        case tok: False
        obtain sn n where f1: "f1 = ?f\<lparr>struct_name := sn, type_size := n\<rparr>" "t = TYPE_STRUCT \<longrightarrow> (\<exists>k. sn = Some k)" "\<forall>k. sn = Some k \<longrightarrow> name_ok k"
          "t \<in> {TYPE_SOL_INT, TYPE_SOL_UINT, TYPE_SOL_BYTES_FIX} \<longrightarrow> 0 < unat n \<and> unat n \<le> 32" using tyo tok by blast
        let ?arr = "if is_array then v1_set_struct_field_array f1 data i1 s2 else Some (True, f1, i1, s2)"
        have "\<exists>ok2 f2 i2 s3. ?arr = Some (ok2, f2, i2, s3) \<and> mem_only s2 s3 \<and>
            (ok2 \<longrightarrow> (\<exists>ls c. f2 = f1\<lparr>array_levels := ls, array_level_count := c\<rparr> \<and> (c \<noteq> 0 \<longrightarrow> (\<exists>l. ls = Some l \<and> length l = unat c))))"
        proof (cases is_array)
          case True
          then show ?thesis using array_ok [of f1 data i1 s2] by fastforce
        next
          case False
          have "f1 = f1\<lparr>array_levels := None, array_level_count := 0\<rparr>" by (simp add: f1(1))
          then show ?thesis using False by (intro exI [of _ True] exI [of _ f1] exI [of _ i1] exI [of _ s2]) auto
        qed
        then obtain ok2 f2 i2 s3 where ar: "?arr = Some (ok2, f2, i2, s3)" "mem_only s2 s3"
          "ok2 \<longrightarrow> (\<exists>ls c. f2 = f1\<lparr>array_levels := ls, array_level_count := c\<rparr> \<and> (c \<noteq> 0 \<longrightarrow> (\<exists>l. ls = Some l \<and> length l = unat c)))" by blast
        have e1: "v1_set_struct_field_internal data s =
            (if \<not> ok2 then Some (False, Some f2, s3)
             else (case v1_set_struct_field_keyname f2 data i2 s3 of
                 (ok, f, data_idx, s) \<Rightarrow>
                   if \<not> ok \<or> data_idx \<noteq> length data then Some (False, Some f, s)
                   else do { s \<leftarrow> td_add_struct_field_def pending f s; Some (True, Some f, s) }))"
          using d p q q4 c f0 ty tok ar(1) by (simp add: v1_set_struct_field_internal_def split del: if_split)
        obtain ok3 f3 i3 s4 where k: "v1_set_struct_field_keyname f2 data i2 s3 = (ok3, f3, i3, s4)"
          by (cases "v1_set_struct_field_keyname f2 data i2 s3") auto
        note ko = keyname_ok [OF k]
        show ?thesis
        proof (cases "ok2 \<and> ok3 \<and> i3 = length data")
          case False
          then have "v1_set_struct_field_internal data s = Some (False, Some (if ok2 then f3 else f2), if ok2 then s4 else s3)"
            using e1 k by auto
          then show ?thesis by blast
        next
          case True
          obtain ls cnt where f2: "f2 = f1\<lparr>array_levels := ls, array_level_count := cnt\<rparr>" "cnt \<noteq> 0 \<longrightarrow> (\<exists>l. ls = Some l \<and> length l = unat cnt)"
            using ar(3) True by blast
          obtain nm where f3: "name_ok nm" "f3 = f2\<lparr>key_name := Some nm\<rparr>" using ko True by blast
          have fo: "field_ok f3" "field_names_ok f3" using f1 f2 f3 by (auto simp: field_ok_def field_names_ok_def)
          have "mem_only s s4" using cf tyo ar(2) ko mem_only_trans by blast
          then have s4: "defs_ok s4" "no_values s4" "g_pending_struct s4 = Some pending" using ok p mem_only_ok by (auto simp: mem_only_def)
          from added_field [OF s4(1,3) fo] obtain s5 where "td_add_struct_field_def pending f3 s4 = Some s5" "defs_ok s5" "no_values s5"
            using s4(2) by blast
          then show ?thesis using e1 k True by auto
        qed
      qed
    qed
  qed
  then show ?thesis by (auto simp: v1_set_struct_field_def def_step_def)
qed

end
