(* ===== verification/Eip712_Frame.thy ===== *)
theory Eip712_Frame
  imports Eip712_Commands Eip712_Parse_Defs
begin

text \<open>
  What the operations of the review keep.  Most of them leave the accounting of the filters, the trees and the context alone
  (\<open>core\<close>) and the flags of the current field too (\<open>calm\<close>); \<open>stays\<close> says so of a result, and its rules follow the structure of
  the operations.
\<close>

definition accounting :: "t_ui_context \<Rightarrow> e_eip712_filtering_mode \<times> uint8 \<times> bool \<times> uint32 list \<times> uint32 list \<times> bool" where
  "accounting u = (filtering_mode u, filters_to_process u, message_info_received u, filters_crc u, unfiltered_crc u, filtering_broken u)"

definition core :: "eip712_state \<Rightarrow> _" where
  "core s = (map_option accounting (ui_ctx s), (parse s)\<lparr>td_mem := \<lparr>outcomes = [], live = 0\<rparr>\<rparr>, eip712_v1_context s, appState712 s)"

definition calm :: "eip712_state \<Rightarrow> _" where
  "calm s = (core s, map_option field_flags (ui_ctx s))"

section \<open>Results that keep a part of the state\<close>

definition stays :: "(eip712_state \<Rightarrow> 'p) \<Rightarrow> eip712_state \<Rightarrow> ('x \<times> eip712_state) option \<Rightarrow> bool" where
  "stays p s r \<longleftrightarrow> (\<forall>x s'. r = Some (x, s') \<longrightarrow> p s' = p s)"

definition stays1 :: "(eip712_state \<Rightarrow> 'p) \<Rightarrow> eip712_state \<Rightarrow> eip712_state option \<Rightarrow> bool" where
  "stays1 p s r \<longleftrightarrow> (\<forall>s'. r = Some s' \<longrightarrow> p s' = p s)"

definition alloc_free :: "(eip712_state \<Rightarrow> 'p) \<Rightarrow> bool" where
  "alloc_free p \<longleftrightarrow> (\<forall>s b s'. ui_alloc s = (b, s') \<longrightarrow> p s' = p s)"

lemma stays_Some: "p s' = p s \<Longrightarrow> stays p s (Some (x, s'))"
  by (simp add: stays_def)

lemma stays_same: "stays p s (Some (x, s))"
  by (simp add: stays_def)

lemma stays_None: "stays p s None"
  by (simp add: stays_def)

lemma stays_bind:
  fixes r :: "('x \<times> eip712_state) option"
  shows "stays p s r \<Longrightarrow> (\<And>x s'. stays p s' (k (x, s'))) \<Longrightarrow> stays p s (Option.bind r k)"
  by (cases r) (auto simp: stays_def)

lemma stays_bind_result:
  fixes r :: "('x \<times> eip712_state) option"
  shows "stays p s r \<Longrightarrow> (\<And>x s'. r = Some (x, s') \<Longrightarrow> stays p s' (k (x, s'))) \<Longrightarrow> stays p s (Option.bind r k)"
  by (cases r) (auto simp: stays_def)

lemma stays_bind1:
  fixes r :: "eip712_state option"
  shows "stays1 p s r \<Longrightarrow> (\<And>s'. stays p s' (k s')) \<Longrightarrow> stays p s (Option.bind r k)"
  by (cases r) (auto simp: stays_def stays1_def)

lemma stays_pure: "(\<And>u. stays p s (k u)) \<Longrightarrow> stays p s (Option.bind r k)"
  by (cases r) (auto simp: stays_def)

lemma stays_if: "stays p s a \<Longrightarrow> stays p s b \<Longrightarrow> stays p s (if c then a else b)"
  by simp

lemma stays_bool: "stays p s a \<Longrightarrow> stays p s b \<Longrightarrow> stays p s (case c of True \<Rightarrow> a | False \<Rightarrow> b)"
  by (cases c) simp_all

lemma stays_option: "stays p s a \<Longrightarrow> (\<And>x. stays p s (f x)) \<Longrightarrow> stays p s (case c of None \<Rightarrow> a | Some x \<Rightarrow> f x)"
  by (cases c) simp_all

lemma stays_alloc: "alloc_free p \<Longrightarrow> (\<And>b s'. stays p s' (f b s')) \<Longrightarrow> stays p s (case ui_alloc s of (b, s') \<Rightarrow> f b s')"
  by (cases "ui_alloc s") (auto simp: stays_def alloc_free_def)

lemma stays_prod: "(\<And>a b. stays p s (f a b)) \<Longrightarrow> stays p s (case c of (a, b) \<Rightarrow> f a b)"
  by (cases c) simp

lemma stays_split: "stays p s (f a b) \<Longrightarrow> stays p s (case (a, b) of (a, b) \<Rightarrow> f a b)"
  by simp

lemma stays_join: "stays p s a \<Longrightarrow> stays p s b \<Longrightarrow> stays p s (case c of AMOUNT_JOIN_STATE_TOKEN \<Rightarrow> a | AMOUNT_JOIN_STATE_VALUE \<Rightarrow> b)"
  by (cases c) simp_all

lemmas stays_structure = stays_split stays_alloc stays_bool stays_if stays_option stays_join stays_None

text \<open>Results with more than one component beside the state.\<close>

definition stays3 :: "(eip712_state \<Rightarrow> 'p) \<Rightarrow> eip712_state \<Rightarrow> ('x \<times> 'y \<times> eip712_state) option \<Rightarrow> bool" where
  "stays3 p s r \<longleftrightarrow> (\<forall>x y s'. r = Some (x, y, s') \<longrightarrow> p s' = p s)"

lemma stays_bind3:
  fixes r :: "('x \<times> 'y \<times> eip712_state) option"
  shows "stays3 p s r \<Longrightarrow> (\<And>x y s'. stays p s' (k (x, y, s'))) \<Longrightarrow> stays p s (Option.bind r k)"
  by (cases r) (auto simp: stays_def stays3_def)

lemma stays3_bind:
  fixes r :: "('x \<times> eip712_state) option"
  shows "stays p s r \<Longrightarrow> (\<And>x s'. stays3 p s' (k (x, s'))) \<Longrightarrow> stays3 p s (Option.bind r k)"
  by (cases r) (auto simp: stays_def stays3_def)

lemma stays3_bind1:
  fixes r :: "eip712_state option"
  shows "stays1 p s r \<Longrightarrow> (\<And>s'. stays3 p s' (k s')) \<Longrightarrow> stays3 p s (Option.bind r k)"
  by (cases r) (auto simp: stays3_def stays1_def)

lemma stays3_bind3:
  fixes r :: "('x \<times> 'y \<times> eip712_state) option"
  shows "stays3 p s r \<Longrightarrow> (\<And>x y s'. stays3 p s' (k (x, y, s'))) \<Longrightarrow> stays3 p s (Option.bind r k)"
  by (cases r) (auto simp: stays3_def)

lemma stays3_pure: "(\<And>u. stays3 p s (k u)) \<Longrightarrow> stays3 p s (Option.bind r k)"
  by (cases r) (auto simp: stays3_def)

lemma stays3_same: "stays3 p s (Some (x, y, s))" and stays3_None: "stays3 p s None"
  by (simp_all add: stays3_def)

lemma stays3_if: "stays3 p s a \<Longrightarrow> stays3 p s b \<Longrightarrow> stays3 p s (if c then a else b)"
  by simp

lemma stays3_option: "stays3 p s a \<Longrightarrow> (\<And>x. stays3 p s (f x)) \<Longrightarrow> stays3 p s (case c of None \<Rightarrow> a | Some x \<Rightarrow> f x)"
  by (cases c) simp_all

lemma stays3_split: "stays3 p s (f a b) \<Longrightarrow> stays3 p s (case (a, b) of (a, b) \<Rightarrow> f a b)"
  by simp

lemma stays3_map: "stays3 p s (map_option (\<lambda>(x, y). (x, y, s)) r)"
  by (cases r) (auto simp: stays3_def)

lemma stays_Pair: "p s' = p s \<Longrightarrow> stays3 p s (Some (x, y, s'))"
  by (simp add: stays3_def)

lemma core_alloc: "alloc_free core" and calm_alloc: "alloc_free calm"
  by (auto simp: alloc_free_def calm_def ui_alloc_def core_def td_with_mem_def split: prod.splits)

lemma core_free: "core (ui_free n s) = core s" and calm_free: "calm (ui_free n s) = calm s"
  by (simp_all add: ui_free_def core_def calm_def td_free_def)

lemma core_update: "(\<And>u. accounting (g u) = accounting u) \<Longrightarrow> stays1 core s (ui_update g s)"
  by (auto simp: ui_update_def core_def stays1_def bind_eq_Some_conv)

lemma calm_update: "(\<And>u. accounting (g u) = accounting u \<and> field_flags (g u) = field_flags u) \<Longrightarrow> stays1 calm s (ui_update g s)"
  by (auto simp: ui_update_def core_def calm_def stays1_def bind_eq_Some_conv)

lemma calm_core: "stays calm s r \<Longrightarrow> stays core s r"
  by (auto simp: stays_def calm_def)

lemma calm_core1: "stays1 calm s r \<Longrightarrow> stays1 core s r"
  by (auto simp: stays1_def calm_def)

section \<open>The operations\<close>

lemma calm_pairs: "stays1 calm s (append_pair p s)" "stays1 calm s (change_last_pair g s)"
  unfolding append_pair_def change_last_pair_def by (rule calm_update, simp add: accounting_def)+

lemmas calm_rules = stays_bind stays_bind1 calm_pairs calm_alloc stays_same

lemma calm_title: "stays calm s (ui_712_set_title t s)"
  unfolding ui_712_set_title_def by (rule calm_rules stays_structure stays_pure)+

lemma calm_intent: "stays calm s (ui_712_set_intent s)"
  unfolding ui_712_set_intent_def by (rule calm_rules stays_structure stays_pure)+

lemma calm_value: "stays calm s (ui_712_set_value P t s)"
  unfolding ui_712_set_value_def by (rule calm_rules stays_structure stays_pure)+


lemmas calm_ui = calm_title calm_intent calm_value

lemma calm_simple:
  "stays1 calm s (ui_712_set_trusted_name_requirements a b s)" "stays1 calm s (ui_712_token_join_prepare_addr_check i s)"
  "stays1 calm s (add_calldata_info c s)" "stays1 calm s (calldata_info_set_state i st s)" "stays1 calm s (set_join n j s)"
  "stays1 calm s (set_calldata_info n c s)"
  unfolding ui_712_set_trusted_name_requirements_def ui_712_token_join_prepare_addr_check_def add_calldata_info_def calldata_info_set_state_def
    set_join_def set_calldata_info_def
  by (rule calm_update, simp add: accounting_def)+

lemma core_flags:
  "stays1 core s (ui_712_flag_field a b c d e f s)" "stays1 core s (ui_712_field_flags_reset s)"
  unfolding ui_712_flag_field_def ui_712_field_flags_reset_def by (rule core_update, simp add: accounting_def)+

lemma calm_discarded: "stays calm s (ui_712_set_discarded_path path s)"
  unfolding ui_712_set_discarded_path_def
  by (rule calm_rules stays_structure calm_update stays_pure | simp add: accounting_def)+

lemma calm_clear: "stays1 calm s (ui_712_clear_discarded_path s)"
proof -
  have u: "stays1 calm t (ui_update (\<lambda>u. u\<lparr>discarded_path := None\<rparr>) t)" for t by (rule calm_update) (simp add: accounting_def)
  show ?thesis using u [of s] u [of "ui_free 1 s"] by (auto simp: ui_712_clear_discarded_path_def stays1_def bind_eq_Some_conv calm_free)
qed

lemma calm_join: "stays calm s (get_amount_join i s)"
  unfolding get_amount_join_def by (rule calm_rules stays_structure calm_update stays_pure | simp add: accounting_def)+

lemma calm_join_addr: "stays calm s (ui_712_set_amount_join_token_addr a s)"
  unfolding ui_712_set_amount_join_token_addr_def by (rule calm_rules calm_join calm_simple stays_structure stays_pure)+

lemma calm_update_join: "stays calm s (update_amount_join n data s)"
  unfolding update_amount_join_def by (rule calm_rules calm_join calm_simple stays_structure stays_pure)+

lemma calm_prepare: "stays calm s (ui_712_token_join_prepare_amount i name s)"
  unfolding ui_712_token_join_prepare_amount_def
  by (rule calm_rules calm_join calm_simple calm_update stays_structure stays_pure | simp add: accounting_def)+


text \<open>Nested transactions: only the parked data and the memory change.\<close>

lemma calm_parked: "calm (s\<lparr>parked712 := cd\<rparr>) = calm s" "calm (s\<lparr>parked712 := cd, parse := (parse s)\<lparr>td_mem := m\<rparr>\<rparr>) = calm s"
  by (simp_all add: calm_def core_def)

lemmas stays3_rules = stays3_bind stays3_bind1 stays3_bind3 stays3_same stays3_None stays3_if stays3_option stays3_split stays3_map

lemma calm_put: "stays3 calm s (calldata_put data c s)"
  by (auto simp: calldata_put_def stays3_def calm_parked bind_eq_Some_conv split: option.splits)

lemma calm_calldata_value: "stays3 calm s (update_calldata_value data complete is_last c s)"
proof -
  let ?start = "case complete of
             None \<Rightarrow> Some (True, data, s)
           | Some n \<Rightarrow>
               if n = 0 \<and> selector_state c = CALLDATA_INFO_PARAM_NONE then Some (True, data, s)
               else if selector_state c = CALLDATA_INFO_PARAM_NONE \<and> (length data < CALLDATA_SELECTOR_SIZE \<or> n < CALLDATA_SELECTOR_SIZE)
               then Some (False, data, s)
               else
                 (let taken = (if selector_state c = CALLDATA_INFO_PARAM_NONE then CALLDATA_SELECTOR_SIZE else 0);
                      sel = (case selector_state c of
                               CALLDATA_INFO_PARAM_NONE \<Rightarrow> Some (take CALLDATA_SELECTOR_SIZE data)
                             | CALLDATA_INFO_PARAM_SET \<Rightarrow> Some (ci_selector c)
                             | CALLDATA_INFO_PARAM_UNSET \<Rightarrow> None)
                  in do {
                    (cd, m) \<leftarrow> calldata_init (n - taken) sel (td_mem (parse s));
                    Some (cd \<noteq> None, drop taken data, s\<lparr>parked712 := cd, parse := (parse s)\<lparr>td_mem := m\<rparr>\<rparr>) })"
  have start: "stays3 calm s ?start"
    by (auto simp: stays3_def calm_parked bind_eq_Some_conv Let_def split: option.splits if_splits)
  show ?thesis unfolding update_calldata_value_def by (rule start stays3_rules calm_put)+
qed

lemma calm_calldata_selector: "stays3 calm s (update_calldata_selector data c s)"
  by (auto simp: update_calldata_selector_def stays3_def calm_parked Let_def bind_eq_Some_conv split: if_splits)

lemma calm_calldata_field: "stays3 calm s (update_calldata_field data complete is_last c s)"
  by (cases "ci_state c") (simp_all add: update_calldata_field_def calm_calldata_value calm_calldata_selector stays3_map)

lemma calm_parked_end: "stays calm s (Some (x, s\<lparr>parked712 := cd\<rparr>))"
  by (simp add: stays_def calm_parked)

lemma calm_update_calldata: "stays calm s (update_calldata P data complete is_last s)"
  unfolding update_calldata_def
  by (rule calm_parked_end calm_rules stays_bind3 calm_calldata_field calm_simple stays_structure stays_pure)+

lemma calm_calldata_chunks: "stays calm s (update_calldata_chunks P data full s)"
proof (induction P data full s rule: update_calldata_chunks.induct)
  case (1 P data full s)
  have u: "stays calm s (update_calldata P (take 255 data) full (length data \<le> 255) s)" by (rule calm_update_calldata)
  show ?case
  proof (subst update_calldata_chunks.simps, rule stays_bind_result [OF u], rule stays_split)
    fix ok s' assume "update_calldata P (take 255 data) full (length data \<le> 255) s = Some (ok, s')"
    then show "stays calm s' (if \<not> ok then Some (False, s') else if length data \<le> 255 then Some (True, s') else update_calldata_chunks P (drop 255 data) None s')"
      using 1 by (cases ok) (auto simp: stays_same)
  qed
qed

lemma calm_accumulate_calldata: "stays calm s (accumulate_calldata P data s)"
  unfolding accumulate_calldata_def by (rule calm_rules calm_calldata_chunks stays_structure stays_pure)+

text \<open>The amount of a join sets a flag.\<close>

lemmas core_of_calm = calm_core [OF calm_title] calm_core [OF calm_value] calm_core [OF calm_join] calm_core [OF calm_update_join]
  calm_core [OF calm_prepare] calm_core [OF calm_accumulate_calldata] calm_core [OF calm_join_addr]

lemmas core_rules = stays_bind stays_bind1 core_alloc stays_same core_flags core_of_calm

lemma core_free_end: "stays core s (Some (x, ui_free n s))"
  by (simp add: stays_def core_free)

lemma core_format_join: "stays core s (ui_712_format_amount_join P n s)"
  unfolding ui_712_format_amount_join_def
  by (rule core_free_end core_rules core_update stays_structure stays_pure | simp add: accounting_def)+

lemma core_accumulate_join: "stays core s (accumulate_join P data t s)"
  unfolding accumulate_join_def by (rule core_rules core_format_join stays_structure stays_pure)+

lemma core_accumulate_pair: "stays core s (accumulate_pair P t s)"
  unfolding accumulate_pair_def by (rule core_rules stays_structure stays_pure)+

lemma core_accumulate: "stays core s (ui_712_accumulate_value P f data s)"
  unfolding ui_712_accumulate_value_def
  by (rule core_rules core_accumulate_join core_accumulate_pair stays_structure stays_pure)+

text \<open>A value that is accepted in full mode ends the filter of its field.\<close>

lemma accumulate_resets:
  assumes "ui_712_accumulate_value P f data s = Some (True, s')" and "ui_712_get_filtering_mode s = EIP712_FILTERING_FULL"
  shows "map_option field_flags (ui_ctx s') = Some 0"
  using assms by (auto simp: ui_712_accumulate_value_def ui_712_get_filtering_mode_def bind_eq_Some_conv accumulate_pair_def
      ui_712_field_flags_reset_def ui_update_def split: option.splits if_splits)

end
