(* ===== verification/Eip712_Filter_Facts.thy ===== *)
theory Eip712_Filter_Facts
  imports Eip712_Frame
begin

text \<open>
  What a filter that is accepted was signed over, and what it changes.  \<open>filter_prefix\<close> is the part of the signed text that names the
  message, \<open>path_crc\<close> the CRC of the path of the current field.
\<close>

section \<open>The signed text\<close>

definition signature_valid :: "eip712_platform \<Rightarrow> bytes \<Rightarrow> bytes \<Rightarrow> bool" where
  "signature_valid P text sig \<longleftrightarrow> (case s2_final (crypto P) text of None \<Rightarrow> False | Some d \<Rightarrow> pki_check P d sig)"

definition filter_prefix :: "uint8 \<Rightarrow> eip712_state \<Rightarrow> bytes option" where
  "filter_prefix magic s = do {
     chain \<leftarrow> td_get_domain_chain_id (parse s);
     contract \<leftarrow> td_get_domain_contract_addr (parse s);
     c \<leftarrow> eip712_v1_context s;
     let chain = (case chain of None \<Rightarrow> 0 | Some c \<Rightarrow> c);
     let contract = (case contract of None \<Rightarrow> replicate ADDRESS_LENGTH 0 | Some a \<Rightarrow> a);
     let addr = (case get_implem_contract chain contract None (g_proxy_info s) of None \<Rightarrow> contract | Some a \<Rightarrow> a);
     Some ([magic] @ write_u64_be chain @ addr @ schema_hash c) }"

definition path_text :: "bool \<Rightarrow> eip712_state \<Rightarrow> bytes list option" where
  "path_text discarded s =
     (if discarded then map_option (\<lambda>p. [text_bytes p]) (Option.bind (ui_ctx s) discarded_path)
      else path_parts (parse s) [0..<v1_depth_count (parse s)])"

definition path_crc :: "eip712_platform \<Rightarrow> eip712_parse \<Rightarrow> uint32 option" where
  "path_crc P p = map_option (foldl (crc32_update P) 0) (path_parts p [0..<v1_depth_count p])"

lemma filt_update_Some: "filt_update P x (Some h) = Some h' \<Longrightarrow> h' = h @ x"
  by (auto simp: filt_update_def split: if_splits)

lemma filt_update_None [simp]: "filt_update P x None = None"
  by (simp add: filt_update_def)

lemma filt_update_case: "filt_update P x h = Some h' \<Longrightarrow> \<exists>g. h = Some g \<and> h' = g @ x"
  by (cases h) (auto simp: filt_update_Some)

lemma filt_updates_None [simp]: "foldl (\<lambda>h x. filt_update P x h) None xs = None"
  by (induction xs) auto

lemma filt_updates: "foldl (\<lambda>h x. filt_update P x h) (Some h) xs = Some h' \<Longrightarrow> h' = h @ concat xs"
proof (induction xs arbitrary: h)
  case (Cons x xs)
  from Cons.prems obtain h1 where h1: "filt_update P x (Some h) = Some h1" by (cases "filt_update P x (Some h)") auto
  with Cons.prems filt_update_Some [OF h1] have "foldl (\<lambda>h x. filt_update P x h) (Some (h @ x)) xs = Some h'" by simp
  then show ?case using Cons.IH [of "h @ x"] by simp
qed simp

lemma hash_parts_Some: "hash_parts P xs h crc = Some (h', crc') \<Longrightarrow> h' = h @ concat xs \<and> crc' = foldl (crc32_update P) crc xs"
  by (induction P xs h crc rule: hash_parts.induct) (auto split: option.splits dest!: filt_update_Some)

lemma sig_verif_start_prefix: "sig_verif_start P magic s = Some (Some h) \<Longrightarrow> filter_prefix magic s = Some h"
  by (auto simp: sig_verif_start_def filter_prefix_def bind_eq_Some_conv Let_def split: if_splits dest!: filt_update_case)

lemma sig_verif_end_valid: "sig_verif_end P (Some text) sig = signature_valid P text sig"
  by (simp add: sig_verif_end_def signature_valid_def)

lemma hash_path_result:
  assumes "hash_filtering_path P discarded h crc s = Some (Some (h', crc'), s')"
  shows "\<exists>parts. path_text discarded s = Some parts \<and> h' = h @ concat parts \<and> crc' = foldl (crc32_update P) crc parts"
proof -
  from assms obtain path where path: "ui_712_get_discarded_path s = Some path" by (auto simp: hash_filtering_path_def bind_eq_Some_conv)
  then have t: "path_text discarded s = (if discarded then map_option (\<lambda>p. [text_bytes p]) path else path_parts (parse s) [0..<v1_depth_count (parse s)])"
    by (cases "ui_ctx s") (auto simp: path_text_def ui_712_get_discarded_path_def)
  with assms path obtain parts where p: "path_text discarded s = Some parts" "hash_parts P parts h crc = Some (h', crc')"
    by (auto simp: hash_filtering_path_def bind_eq_Some_conv simp del: path_parts.simps split: option.splits prod.splits)
  show ?thesis using p(1) hash_parts_Some [OF p(2)] by blast
qed

lemma calm_clear_end: "stays calm s (Option.bind (ui_712_clear_discarded_path s) (\<lambda>s. Some (x, s)))"
  by (rule stays_bind1 [OF calm_clear]) (rule stays_same)

lemma calm_hash_path: "stays calm s (hash_filtering_path P discarded h crc s)"
  unfolding hash_filtering_path_def by (rule calm_clear_end calm_rules stays_structure stays_pure)+

definition signed_filter :: "eip712_platform \<Rightarrow> uint8 \<Rightarrow> bool \<Rightarrow> bytes list \<Rightarrow> bytes \<Rightarrow> uint32 \<Rightarrow> eip712_state \<Rightarrow> bool" where
  "signed_filter P magic discarded extra sig crc s \<longleftrightarrow>
     (\<exists>prefix parts. filter_prefix magic s = Some prefix \<and> path_text discarded s = Some parts \<and>
        signature_valid P (prefix @ concat parts @ concat extra) sig \<and> crc = foldl (crc32_update P) 0 parts)"

lemma filter_signed_sound:
  assumes "filter_signed P magic discarded extra sig 0 s = Some (True, crc, s')"
  shows "signed_filter P magic discarded extra sig crc s" and "calm s' = calm s"
proof -
  from assms obtain h where start: "sig_verif_start P magic s = Some (Some h)"
    by (auto simp: filter_signed_def bind_eq_Some_conv split: option.splits)
  with assms obtain h' where path: "hash_filtering_path P discarded h 0 s = Some (Some (h', crc), s')"
    and e: "sig_verif_end P (foldl (\<lambda>h x. filt_update P x h) (Some h') extra) sig"
    by (auto simp: filter_signed_def bind_eq_Some_conv split: option.splits)
  from hash_path_result [OF path] obtain parts where parts: "path_text discarded s = Some parts" "h' = h @ concat parts"
    "crc = foldl (crc32_update P) 0 parts" by blast
  obtain bs where t: "foldl (\<lambda>h x. filt_update P x h) (Some h') extra = Some bs" using e
    by (cases "foldl (\<lambda>h x. filt_update P x h) (Some h') extra") (auto simp: sig_verif_end_def)
  have "signature_valid P (h' @ concat extra) sig" using e filt_updates [OF t] by (simp add: t sig_verif_end_valid)
  then show "signed_filter P magic discarded extra sig crc s"
    unfolding signed_filter_def using sig_verif_start_prefix [OF start] parts by auto
  show "calm s' = calm s" using calm_hash_path [of s P discarded h 0] path by (auto simp: stays_def)
qed

lemma filter_signed_calm: "filter_signed P magic discarded extra sig crc s = Some (ok, crc', s') \<Longrightarrow> calm s' = calm s"
  using calm_hash_path [of s P discarded _ crc] by (fastforce simp: filter_signed_def stays_def bind_eq_Some_conv split: option.splits)

section \<open>The filters of a field\<close>

definition filter_effect :: "(eip712_state \<Rightarrow> ui_result) \<Rightarrow> bool" where
  "filter_effect e \<longleftrightarrow> (\<forall>s. stays core s (e s))"

lemma filter_field_sound:
  assumes "filter_field P magic discarded parsed effect 0 s = Some (True, crc, s')" and "filter_effect effect"
  shows "\<exists>extra sig. parsed = Some (extra, sig) \<and> signed_filter P magic discarded extra sig crc s" and "core s' = core s"
    and "discarded \<Longrightarrow> calm s' = calm s" and "in_message s"
proof -
  from assms(1) obtain extra sig s1 where p: "parsed = Some (extra, sig)" "in_message s"
      "filter_signed P magic discarded extra sig 0 s = Some (True, crc, s1)"
    and e: "if discarded then s' = s1 else effect s1 = Some (True, s')"
    by (auto simp: filter_field_def filter_fails_def bind_eq_Some_conv split: if_splits option.splits)
  note f = filter_signed_sound [OF p(3)]
  show "\<exists>extra sig. parsed = Some (extra, sig) \<and> signed_filter P magic discarded extra sig crc s" "in_message s" using p f by auto
  have "core s1 = core s" using f(2) by (simp add: calm_def)
  then show "core s' = core s" using e assms(2) by (cases discarded) (auto simp: filter_effect_def stays_def)
  show "calm s' = calm s" if discarded using e f(2) that by simp
qed

lemma core_title_if_any: "stays core s (set_title_if_any name s)"
  unfolding set_title_if_any_def by (rule core_rules stays_structure)+

lemma core_join_domain: "stays core s (join_domain_token j s)"
  unfolding join_domain_token_def by (rule core_rules stays_structure calm_core1 calm_simple stays_pure)+

lemmas effect_rules = core_rules core_title_if_any core_join_domain calm_core1 calm_simple stays_structure stays_pure stays_prod

lemma effect_calldata: "filter_effect (calldata_effect payload st)"
  unfolding filter_effect_def calldata_effect_def by (rule allI effect_rules)+

definition filter_form :: "eip712_platform \<Rightarrow> uint8 \<Rightarrow> (bytes list \<times> bytes) option \<Rightarrow> bool \<Rightarrow> uint32 \<Rightarrow> eip712_state \<Rightarrow> filter_result \<Rightarrow> bool" where
  "filter_form P magic parsed discarded crc s r \<longleftrightarrow> (\<exists>effect. filter_effect effect \<and> r = filter_field P magic discarded parsed effect crc s)"

lemma filter_formI: "filter_effect e \<Longrightarrow> filter_form P magic parsed discarded crc s (filter_field P magic discarded parsed e crc s)"
  by (auto simp: filter_form_def)

lemma calldata_forms:
  "filter_form P FILT_MAGIC_CALLDATA_SPENDER (parse_index payload) d crc s (filtering_calldata_spender P payload d crc s)"
  "filter_form P FILT_MAGIC_CALLDATA_AMOUNT (parse_index payload) d crc s (filtering_calldata_amount P payload d crc s)"
  "filter_form P FILT_MAGIC_CALLDATA_SELECTOR (parse_index payload) d crc s (filtering_calldata_selector P payload d crc s)"
  "filter_form P FILT_MAGIC_CALLDATA_CHAIN_ID (parse_index payload) d crc s (filtering_calldata_chain_id P payload d crc s)"
  "filter_form P FILT_MAGIC_CALLDATA_CALLEE (parse_index payload) d crc s (filtering_calldata_callee P payload d crc s)"
  "filter_form P FILT_MAGIC_CALLDATA_VALUE (parse_index payload) d crc s (filtering_calldata_value P payload d crc s)"
  unfolding filtering_calldata_spender_def filtering_calldata_amount_def filtering_calldata_selector_def filtering_calldata_chain_id_def
    filtering_calldata_callee_def filtering_calldata_value_def
  by (rule filter_formI effect_calldata)+

lemma field_forms:
  "filter_form P FILT_MAGIC_TRUSTED_NAME (map_option (\<lambda>(name, types, sources, sig). ([name, types, sources], sig)) (parse_trusted_name payload)) d crc s
     (filtering_trusted_name P payload d crc s)"
  "filter_form P FILT_MAGIC_DATETIME (map_option (\<lambda>(name, sig). ([name], sig)) (parse_named payload)) d crc s (filtering_date_time P payload d crc s)"
  "filter_form P FILT_MAGIC_AMOUNT_JOIN_TOKEN (parse_index payload) d crc s (filtering_amount_join_token P payload d crc s)"
  "filter_form P FILT_MAGIC_AMOUNT_JOIN_VALUE (map_option (\<lambda>(name, join_id, sig). ([name, [join_id]], sig)) (parse_join_value payload)) d crc s
     (filtering_amount_join_value P payload d crc s)"
  "filter_form P FILT_MAGIC_RAW_FIELD (map_option (\<lambda>(name, sig). ([name], sig)) (parse_named payload)) d crc s (filtering_raw_field P payload d crc s)"
  unfolding filtering_trusted_name_def filtering_date_time_def filtering_amount_join_token_def filtering_amount_join_value_def filtering_raw_field_def
  by (rule filter_formI, unfold filter_effect_def, (rule allI effect_rules)+)+


section \<open>The command\<close>

definition filter_magic :: "uint8 \<Rightarrow> uint8 option" where
  "filter_magic p2 = map_of
     [(P2_FILT_CALLDATA_SPENDER, FILT_MAGIC_CALLDATA_SPENDER), (P2_FILT_CALLDATA_AMOUNT, FILT_MAGIC_CALLDATA_AMOUNT),
      (P2_FILT_CALLDATA_SELECTOR, FILT_MAGIC_CALLDATA_SELECTOR), (P2_FILT_CALLDATA_CHAIN_ID, FILT_MAGIC_CALLDATA_CHAIN_ID),
      (P2_FILT_CALLDATA_CALLEE, FILT_MAGIC_CALLDATA_CALLEE), (P2_FILT_CALLDATA_VALUE, FILT_MAGIC_CALLDATA_VALUE),
      (P2_FILT_CONTRACT_NAME, FILT_MAGIC_TRUSTED_NAME), (P2_FILT_DATE_TIME, FILT_MAGIC_DATETIME),
      (P2_FILT_AMOUNT_JOIN_TOKEN, FILT_MAGIC_AMOUNT_JOIN_TOKEN), (P2_FILT_AMOUNT_JOIN_VALUE, FILT_MAGIC_AMOUNT_JOIN_VALUE),
      (P2_FILT_RAW_FIELD, FILT_MAGIC_RAW_FIELD)] p2"

text \<open>What a filter adds to the signed text, and the signature that ends it.\<close>

definition filter_parameters :: "uint8 \<Rightarrow> bytes \<Rightarrow> (bytes list \<times> bytes) option" where
  "filter_parameters p2 payload =
     (if p2 = P2_FILT_CONTRACT_NAME then map_option (\<lambda>(name, types, sources, sig). ([name, types, sources], sig)) (parse_trusted_name payload)
      else if p2 = P2_FILT_AMOUNT_JOIN_VALUE then map_option (\<lambda>(name, join_id, sig). ([name, [join_id]], sig)) (parse_join_value payload)
      else if p2 = P2_FILT_DATE_TIME \<or> p2 = P2_FILT_RAW_FIELD then map_option (\<lambda>(name, sig). ([name], sig)) (parse_named payload)
      else parse_index payload)"

lemmas p2_defs = P2_FILT_CALLDATA_SPENDER_def P2_FILT_CALLDATA_AMOUNT_def P2_FILT_CALLDATA_SELECTOR_def P2_FILT_CALLDATA_CHAIN_ID_def
  P2_FILT_CALLDATA_CALLEE_def P2_FILT_CALLDATA_VALUE_def P2_FILT_CONTRACT_NAME_def P2_FILT_DATE_TIME_def P2_FILT_AMOUNT_JOIN_TOKEN_def
  P2_FILT_AMOUNT_JOIN_VALUE_def P2_FILT_RAW_FIELD_def P2_FILT_CALLDATA_INFO_def P2_FILT_MESSAGE_INFO_def P2_FILT_ACTIVATE_def
  P2_FILT_DISCARDED_PATH_def

lemma field_filter_form:
  assumes "field_filter P p2 payload d crc s = Some r"
  shows "\<exists>magic. filter_magic p2 = Some magic \<and> filter_form P magic (filter_parameters p2 payload) d crc s r"
  using assms calldata_forms [of P payload d crc s] field_forms [of P payload d crc s]
  by (auto simp: field_filter_def filter_magic_def filter_parameters_def p2_defs split: if_splits)

lemma push_filter:
  assumes "ui_712_push_new_filter_path crc s = Some (True, s')"
  shows "\<exists>u u'. ui_ctx s = Some u \<and> ui_ctx s' = Some u' \<and> field_flags u' = field_flags u \<and>
    (if crc \<in> set (filters_crc u) then accounting u' = accounting u
     else accounting u' = accounting (u\<lparr>filters_crc := filters_crc u @ [crc], filtering_broken := filtering_broken u \<or> crc \<in> set (unfiltered_crc u)\<rparr>) \<and>
       unat (word_of_nat (length (filters_crc u)) :: uint8) < unat (filters_to_process u)) \<and>
    (\<exists>m. parse s' = (parse s)\<lparr>td_mem := m\<rparr>) \<and> eip712_v1_context s' = eip712_v1_context s \<and> appState712 s' = appState712 s"
proof -
  from assms obtain u where u: "ui_ctx s = Some u" by (auto simp: ui_712_push_new_filter_path_def bind_eq_Some_conv)
  show ?thesis
  proof (cases "crc \<in> set (filters_crc u)")
    case True
    then have "s' = s" using assms u by (simp add: ui_712_push_new_filter_path_def)
    then show ?thesis using u True by (auto intro: exI [of _ "td_mem (parse s)"])
  next
    case False
    obtain ok m where m: "mem_alloc (td_mem (parse s)) = (ok, m)" by (cases "mem_alloc (td_mem (parse s))")
    let ?u = "u\<lparr>filters_crc := filters_crc u @ [crc], filtering_broken := filtering_broken u \<or> crc \<in> set (unfiltered_crc u)\<rparr>"
    have "s' = s\<lparr>parse := (parse s)\<lparr>td_mem := m\<rparr>, ui_ctx := Some ?u\<rparr>" "unat (word_of_nat (length (filters_crc u)) :: uint8) < unat (filters_to_process u)"
      using assms u False m
      by (auto simp: ui_712_push_new_filter_path_def bind_eq_Some_conv ui_update_def ui_alloc_def td_with_mem_def split: if_splits bool.splits)
    then show ?thesis using u False by (auto simp: accounting_def)
  qed
qed

lemma accepted_filter:
  assumes "handle_eip712_v1_filtering P p1 p2 cdata s = Some (SWO_SUCCESS, s')" and "ui_712_get_filtering_mode s = EIP712_FILTERING_FULL"
    and "P2_FILT_MESSAGE_INFO < p2" and "p2 \<noteq> P2_FILT_CALLDATA_INFO"
  obtains magic parsed crc r s1 effect where "filter_magic p2 = Some magic" "filter_effect effect"
    "filter_field P magic (p1 = P1_DISCARDED) (filter_parameters p2 cdata) effect 0 s = Some (True, crc, s1)"
    "ui_712_push_new_filter_path crc s1 = Some (True, s')"
    "\<not> v1_field_streaming (parse s)" "p1 \<noteq> P1_DISCARDED \<Longrightarrow> v1_current_field_uninstantiated_array (parse s) = Some False"
proof -
  have ne: "p2 \<noteq> P2_FILT_ACTIVATE" "p2 \<noteq> P2_FILT_DISCARDED_PATH" "p2 \<noteq> P2_FILT_MESSAGE_INFO" using assms(3) by (auto simp: p2_defs)
  from assms ne obtain r crc s1 where r: "field_filter P p2 cdata (p1 = P1_DISCARDED) 0 s = Some r" "r = Some (True, crc, s1)"
    and p: "answer SWO_PARAMETER_ERROR_NO_INFO (ui_712_push_new_filter_path crc s1) = Some (SWO_SUCCESS, s')"
    and streaming: "\<not> v1_field_streaming (parse s)"
    and array: "p1 \<noteq> P1_DISCARDED \<longrightarrow> v1_current_field_uninstantiated_array (parse s) = Some False"
    by (auto simp: handle_eip712_v1_filtering_def bind_eq_Some_conv split: if_splits option.splits)
  from field_filter_form [OF r(1)] obtain magic effect where m: "filter_magic p2 = Some magic" "filter_effect effect"
      "r = filter_field P magic (p1 = P1_DISCARDED) (filter_parameters p2 cdata) effect 0 s"
    by (auto simp: filter_form_def)
  have "ui_712_push_new_filter_path crc s1 = Some (True, s')" using p by (auto simp: answer_def split: if_splits)
  moreover have "filter_field P magic (p1 = P1_DISCARDED) (filter_parameters p2 cdata) effect 0 s = Some (True, crc, s1)" using m(3) r(2) by simp
  ultimately show ?thesis using that [OF m(1,2)] streaming array by blast
qed


lemma pushed_filter:
  assumes "ui_712_push_new_filter_path crc s = Some (True, s')"
  shows "\<exists>u. ui_ctx s' = Some u \<and> crc \<in> set (filters_crc u)"
proof -
  obtain u u' where u: "ui_ctx s' = Some u'"
    and a: "if crc \<in> set (filters_crc u) then accounting u' = accounting u
     else accounting u' = accounting (u\<lparr>filters_crc := filters_crc u @ [crc], filtering_broken := filtering_broken u \<or> crc \<in> set (unfiltered_crc u)\<rparr>) \<and>
       unat (word_of_nat (length (filters_crc u)) :: uint8) < unat (filters_to_process u)"
    using push_filter [OF assms] by blast
  have "crc \<in> set (filters_crc u')" using a by (cases "crc \<in> set (filters_crc u)") (simp_all add: accounting_def)
  then show ?thesis using u by simp
qed

lemma accepted_filter_signed:
  assumes "handle_eip712_v1_filtering P p1 p2 cdata s = Some (SWO_SUCCESS, s')" and "ui_712_get_filtering_mode s = EIP712_FILTERING_FULL"
    and "P2_FILT_MESSAGE_INFO < p2" and "p2 \<noteq> P2_FILT_CALLDATA_INFO"
  shows "\<exists>magic extra sig crc u. filter_magic p2 = Some magic \<and> filter_parameters p2 cdata = Some (extra, sig) \<and>
    signed_filter P magic (p1 = P1_DISCARDED) extra sig crc s \<and> ui_ctx s' = Some u \<and> crc \<in> set (filters_crc u)"
proof -
  obtain magic crc s1 effect where m: "filter_magic p2 = Some magic" "filter_effect effect"
      "filter_field P magic (p1 = P1_DISCARDED) (filter_parameters p2 cdata) effect 0 s = Some (True, crc, s1)"
    and push: "ui_712_push_new_filter_path crc s1 = Some (True, s')"
    by (rule accepted_filter [OF assms])
  from filter_field_sound(1) [OF m(3,2)] obtain extra sig where
    "filter_parameters p2 cdata = Some (extra, sig)" "signed_filter P magic (p1 = P1_DISCARDED) extra sig crc s" by blast
  moreover obtain u where "ui_ctx s' = Some u" "crc \<in> set (filters_crc u)" using pushed_filter [OF push] by blast
  ultimately show ?thesis using m(1) by (intro exI conjI)
qed

end
