(* ===== verification/Eip712_Sign.thy ===== *)
theory Eip712_Sign
  imports Eip712_Filter_Facts Eip712_Hash_Proofs
begin

text \<open>
  What the signing command of a typed message has checked, and what it signs.
\<close>

lemma complete_trees:
  assumes "parse_inv s" and "v1_is_complete s"
  obtains d v where "td_domain s = Some d" "td_message s = Some v" "root_ok (g_structs s) ROOT_DOMAIN d" "root_ok (g_structs s) ROOT_MESSAGE v"
proof -
  from assms obtain d v where t: "td_domain s = Some d" "td_message s = Some v" and b: "g_build s = []"
    by (auto simp: v1_is_complete_def td_has_domain_def td_has_message_def)
  have c: "root_complete root s" for root using assms(1) b by (simp add: parse_inv_def)
  show ?thesis
    by (rule that [OF t]) (use c [of ROOT_DOMAIN] c [of ROOT_MESSAGE] t in \<open>simp_all add: root_complete_def root_value_def\<close>)
qed

lemma value_hash_pass_correct:
  assumes K: "keccak_contract E keccak" "sort_contract E" and s: "schema_ok (g_structs s)"
    and r: "td_domain s = Some d" "td_message s = Some v" "value_refs (g_structs s) d" "value_refs (g_structs s) v"
  shows "\<exists>ok s' t'. value_hash_pass E s t = Some (ok, s', t') \<and> (\<exists>m. s' = s\<lparr>td_mem := m\<rparr> \<and> live m = live (td_mem s)) \<and>
    (ok \<longrightarrow> domainHash t' = encode_data keccak (g_structs s) d \<and> messageHash t' = encode_data keccak (g_structs s) v)"
proof -
  obtain y m where d: "hash_value E (g_structs s) 0 d (td_mem s) = Some (y, m)" "live m = live (td_mem s)"
      "\<forall>z. y = Some z \<longrightarrow> z = encode_data keccak (g_structs s) d"
    using hash_value_correct [OF K s r(3), of "td_mem s" 0] by (auto simp: gives_def)
  obtain z n where v: "hash_value E (g_structs s) 0 v m = Some (z, n)" "live n = live m"
      "\<forall>w. z = Some w \<longrightarrow> w = encode_data keccak (g_structs s) v"
    using hash_value_correct [OF K s r(4), of m 0] by (auto simp: gives_def)
  show ?thesis
  proof (cases "y = None \<or> z = None")
    case True
    then show ?thesis using r d v
      by (cases y) (auto simp: value_hash_pass_def Let_def)
  next
    case False
    then obtain y1 z1 where "y = Some y1" "z = Some z1" by auto
    then show ?thesis using r d v by (auto simp: value_hash_pass_def Let_def)
  qed
qed


text \<open>The review that starts keeps the hashes and the context.\<close>

lemma sign_review_keeps:
  assumes "sign_review P shown s = (SWO_NO_RESPONSE, s')" and "appState712 s \<in> {APP_STATE_IDLE, APP_STATE_PREPARING_EIP712, APP_STATE_SIGNING_EIP712}"
  shows "hashes712 s' = hashes712 s \<and> parse s' = parse s \<and> eip712_v1_context s' = eip712_v1_context s \<and> appState712 s' = APP_STATE_SIGNING_EIP712 \<and>
    map_option accounting (ui_ctx s') = map_option accounting (ui_ctx s)"
  using assms
  by (auto simp: sign_review_def Let_def ui_712_start_def ui_712_end_sign_def accounting_def split: if_splits option.splits prod.splits bool.splits)

lemma sign_accepted:
  assumes "handle_eip712_v1_sign P rdp addr contexts shown cdata b s = Some (SWO_NO_RESPONSE, b', s')"
  obtains c s1 p t where "eip712_v1_context s = Some c" "\<not> sign_claimed c" "v1_is_complete (parse s)"
    "s1 = s\<lparr>eip712_v1_context := Some (c\<lparr>sign_claimed := True\<rparr>)\<rparr>"
    "value_hash_pass (crypto P) (parse s) (hashes712 s) = Some (True, p, t)"
    "filters_satisfied (s1\<lparr>parse := p, hashes712 := t\<rparr>) = Some True"
    "all_calldata_info_processed (s1\<lparr>parse := p, hashes712 := t\<rparr>) = Some True" "contexts = 0"
    "sign_review P shown (s1\<lparr>parse := p, hashes712 := t\<rparr>) = (SWO_NO_RESPONSE, s')"
proof -
  from assms obtain c where c: "eip712_v1_context s = Some c" "\<not> sign_claimed c" "v1_is_complete (parse s)"
    by (auto simp: handle_eip712_v1_sign_def eip712_v1_sign_claim_def split: if_splits option.splits)
  let ?s = "s\<lparr>eip712_v1_context := Some (c\<lparr>sign_claimed := True\<rparr>)\<rparr>"
  have claim: "eip712_v1_sign_claim s = (True, ?s)" using c by (simp add: eip712_v1_sign_claim_def)
  obtain ok p t where v: "value_hash_pass (crypto P) (parse s) (hashes712 s) = Some (ok, p, t)"
    using assms c claim by (cases "value_hash_pass (crypto P) (parse s) (hashes712 s)") (auto simp: handle_eip712_v1_sign_def)
  let ?t = "?s\<lparr>parse := p, hashes712 := t\<rparr>"
  obtain sw t2 where r: "sign_review P shown ?t = (sw, t2)" by (cases "sign_review P shown ?t")
  have "ok" using assms c claim v by (auto simp: handle_eip712_v1_sign_def Let_def split: if_split_asm)
  moreover have "filters_satisfied ?t = Some True" "all_calldata_info_processed ?t = Some True" "contexts = 0" "sw = SWO_NO_RESPONSE" "t2 = s'"
    using assms c claim v r by (auto simp: handle_eip712_v1_sign_def Let_def bind_eq_Some_conv split: if_splits option.splits)
  ultimately show ?thesis using that [OF c refl] v r by simp
qed


text \<open>What was signed: the digest of the standard, over the two complete trees.\<close>

lemma sign_standard_digest:
  assumes K: "keccak_contract (crypto P) keccak" "sort_contract (crypto P)" and inv: "parse_inv (parse s)"
    and a: "appState712 s \<in> {APP_STATE_IDLE, APP_STATE_PREPARING_EIP712, APP_STATE_SIGNING_EIP712}"
    and r: "handle_eip712_v1_sign P rdp addr contexts shown cdata b s = Some (SWO_NO_RESPONSE, b', s')"
  shows "\<exists>d v. td_domain (parse s) = Some d \<and> td_message (parse s) = Some v \<and>
    root_ok (g_structs (parse s)) ROOT_DOMAIN d \<and> root_ok (g_structs (parse s)) ROOT_MESSAGE v \<and>
    ui_712_approve_cb keccak s' =
      Some (keccak ([0x19, 0x01] @ encode_data keccak (g_structs (parse s)) d @ encode_data keccak (g_structs (parse s)) v))"
proof -
  obtain c s1 p t where c: "v1_is_complete (parse s)" "s1 = s\<lparr>eip712_v1_context := Some (c\<lparr>sign_claimed := True\<rparr>)\<rparr>"
    and h: "value_hash_pass (crypto P) (parse s) (hashes712 s) = Some (True, p, t)"
    and rev: "sign_review P shown (s1\<lparr>parse := p, hashes712 := t\<rparr>) = (SWO_NO_RESPONSE, s')"
    using sign_accepted [OF r] by metis
  from complete_trees [OF inv c(1)] obtain d v where dv: "td_domain (parse s) = Some d" "td_message (parse s) = Some v"
    "root_ok (g_structs (parse s)) ROOT_DOMAIN d" "root_ok (g_structs (parse s)) ROOT_MESSAGE v" .
  have schema: "schema_ok (g_structs (parse s))" using inv by (simp add: parse_inv_def)
  from value_hash_pass_correct [OF K schema dv(1,2) root_ok_refs [OF dv(3)] root_ok_refs [OF dv(4)], of "hashes712 s"] h
  have "domainHash t = encode_data keccak (g_structs (parse s)) d" "messageHash t = encode_data keccak (g_structs (parse s)) v" by auto
  moreover have "hashes712 s' = t" "appState712 s' = APP_STATE_SIGNING_EIP712" using sign_review_keeps [OF rev] a c(2) by auto
  ultimately show ?thesis using dv by (auto simp: ui_712_approve_cb_def eip712_digest_input_def)
qed

text \<open>A message with filters is only signed when all of them were there, and the command works once.\<close>

lemma value_hash_pass_parse: "value_hash_pass E p t = Some (ok, p', t') \<Longrightarrow> \<exists>m. p' = p\<lparr>td_mem := m\<rparr>"
proof -
  assume r: "value_hash_pass E p t = Some (ok, p', t')"
  have same: "\<exists>m. p = p\<lparr>td_mem := m\<rparr>" by (rule exI [of _ "td_mem p"]) simp
  show ?thesis
  proof (cases "td_domain p")
    case None
    then show ?thesis using r same by (simp add: value_hash_pass_def)
  next
    case (Some d)
    then obtain y m where y: "hash_value E (g_structs p) 0 d (td_mem p) = Some (y, m)"
      using r by (cases "hash_value E (g_structs p) 0 d (td_mem p)") (auto simp: value_hash_pass_def)
    show ?thesis
    proof (cases "y = None \<or> td_message p = None")
      case True
      then show ?thesis using r Some y by (cases y) (auto simp: value_hash_pass_def Let_def)
    next
      case False
      then obtain y1 v where v: "y = Some y1" "td_message p = Some v" by auto
      then obtain z n where "hash_value E (g_structs p) 0 v m = Some (z, n)"
        using r Some y by (cases "hash_value E (g_structs p) 0 v m") (auto simp: value_hash_pass_def Let_def)
      then show ?thesis using r Some y v by (cases z) (auto simp: value_hash_pass_def Let_def)
    qed
  qed
qed

lemma sign_needs_filters:
  assumes r: "handle_eip712_v1_sign P rdp addr contexts shown cdata b s = Some (SWO_NO_RESPONSE, b', s')"
    and a: "appState712 s \<in> {APP_STATE_IDLE, APP_STATE_PREPARING_EIP712, APP_STATE_SIGNING_EIP712}"
  shows "\<exists>u. ui_ctx s = Some u \<and> contexts = 0 \<and> list_all ci_processed (calldata_infos u) \<and>
      (filtering_mode u = EIP712_FILTERING_FULL \<longrightarrow>
         message_info_received u \<and> filters_to_process u = word_of_nat (length (filters_crc u)) \<and> \<not> filtering_broken u \<and> amount_joins u = [])"
    and "handle_eip712_v1_sign P rdp addr contexts' shown' cdata' b'' s' = Some (SWO_COMMAND_NOT_ALLOWED, b'', s')"
proof -
  obtain c s1 p t where c: "eip712_v1_context s = Some c" "v1_is_complete (parse s)" "s1 = s\<lparr>eip712_v1_context := Some (c\<lparr>sign_claimed := True\<rparr>)\<rparr>"
    and h: "value_hash_pass (crypto P) (parse s) (hashes712 s) = Some (True, p, t)"
    and f: "filters_satisfied (s1\<lparr>parse := p, hashes712 := t\<rparr>) = Some True"
      "all_calldata_info_processed (s1\<lparr>parse := p, hashes712 := t\<rparr>) = Some True" "contexts = 0"
    and rev: "sign_review P shown (s1\<lparr>parse := p, hashes712 := t\<rparr>) = (SWO_NO_RESPONSE, s')"
    using sign_accepted [OF r] by metis
  show "\<exists>u. ui_ctx s = Some u \<and> contexts = 0 \<and> list_all ci_processed (calldata_infos u) \<and>
      (filtering_mode u = EIP712_FILTERING_FULL \<longrightarrow>
         message_info_received u \<and> filters_to_process u = word_of_nat (length (filters_crc u)) \<and> \<not> filtering_broken u \<and> amount_joins u = [])"
    using f c(3)
    by (auto simp: filters_satisfied_def all_calldata_info_processed_def ui_712_get_filtering_mode_def ui_712_message_info_received_def
        ui_712_remaining_filters_def ui_712_filtering_broken_def ui_712_pending_amount_joins_def bind_eq_Some_conv split: if_splits)
  have k: "parse s' = p" "eip712_v1_context s' = Some (c\<lparr>sign_claimed := True\<rparr>)" using sign_review_keeps [OF rev] a c(3) by auto
  have "v1_is_complete (parse s')" using value_hash_pass_parse [OF h] c(2) by (auto simp: k v1_is_complete_def td_has_domain_def td_has_message_def)
  then show "handle_eip712_v1_sign P rdp addr contexts' shown' cdata' b'' s' = Some (SWO_COMMAND_NOT_ALLOWED, b'', s')"
    by (simp add: handle_eip712_v1_sign_def k eip712_v1_sign_claim_def)
qed

end
