(* ===== verification/Eip712_Levels.thy ===== *)
theory Eip712_Levels
  imports Eip712_Parse_Ops
begin

text \<open>
  The order of the levels of an array.  In the text of a type, and in the definitions as the host sends them, the level of the
  innermost arrays comes first: \<open>uint8[2][4]\<close> is an array of four arrays of two numbers.  The parser checks the number of elements of
  the outermost array against the first level, that of the next against the second, and so on (\<open>level_ok\<close> of
  \<open>Eip712_Parse_Inv\<close>).  Here is the order that the text means, where the two agree, and what the parser makes of an array for
  which they differ.
\<close>

section \<open>Values as the type reads\<close>

text \<open>An array with \<open>n\<close> levels below it is counted by the level \<open>n\<close>.\<close>

definition level_std :: "s_struct_712_field \<Rightarrow> nat \<Rightarrow> nat \<Rightarrow> bool" where
  "level_std f n len \<longleftrightarrow> n < unat (array_level_count f) \<and>
     (case array_levels f of
        None \<Rightarrow> False
      | Some ls \<Rightarrow> n < length ls \<and> (level_type (ls ! n) = ARRAY_FIXED_SIZE \<longrightarrow> len = unat (level_size (ls ! n))))"

fun val_std :: "s_struct_712 list \<Rightarrow> field_ref \<Rightarrow> nat \<Rightarrow> s_struct_712_value \<Rightarrow> bool"
  and fields_std :: "s_struct_712 list \<Rightarrow> nat \<Rightarrow> nat \<Rightarrow> s_struct_712_value list \<Rightarrow> bool"
  and elems_std :: "s_struct_712 list \<Rightarrow> field_ref \<Rightarrow> nat \<Rightarrow> s_struct_712_value list \<Rightarrow> bool" where
  "val_std ds r n (VAL_ATOMIC r' bs) \<longleftrightarrow> r' = r \<and> n = 0 \<and> (case field_at ds r of None \<Rightarrow> False | Some f \<Rightarrow> leaf_ok f bs)"
| "val_std ds r n (VAL_STRUCT i cs) \<longleftrightarrow> n = 0 \<and>
     (case field_at ds r of
        None \<Rightarrow> False
      | Some f \<Rightarrow> field_type f = TYPE_STRUCT \<and> td_find_struct (struct_name f) ds = Some i \<and> fields_std ds i 0 cs)"
| "val_std ds r n (VAL_ARRAY r' cs) \<longleftrightarrow> r' = r \<and> 0 < n \<and>
     (case field_at ds r of None \<Rightarrow> False | Some f \<Rightarrow> level_std f (n - 1) (length cs) \<and> elems_std ds r (n - 1) cs)"
| "fields_std ds i k [] \<longleftrightarrow> i < length ds \<and> k = length (td_fields (ds ! i))"
| "fields_std ds i k (c # cs) \<longleftrightarrow>
     (case field_at ds (i, k) of None \<Rightarrow> False | Some f \<Rightarrow> val_std ds (i, k) (unat (array_level_count f)) c \<and> fields_std ds i (Suc k) cs)"
| "elems_std ds r n [] \<longleftrightarrow> True"
| "elems_std ds r n (c # cs) \<longleftrightarrow> val_std ds r n c \<and> elems_std ds r n cs"

definition root_std :: "s_struct_712 list \<Rightarrow> e_root_type \<Rightarrow> s_struct_712_value \<Rightarrow> bool" where
  "root_std ds root v \<longleftrightarrow> (case v of VAL_STRUCT i cs \<Rightarrow> root_name_ok ds root i \<and> fields_std ds i 0 cs | _ \<Rightarrow> False)"

section \<open>Where the two orders agree\<close>

text \<open>What a level asks for: a number of elements, or nothing.\<close>

definition level_req :: "s_struct_712_field_array_level \<Rightarrow> uint8 option" where
  "level_req l = (case level_type l of ARRAY_DYNAMIC \<Rightarrow> None | ARRAY_FIXED_SIZE \<Rightarrow> Some (level_size l))"

definition mirrored :: "s_struct_712_field \<Rightarrow> bool" where
  "mirrored f \<longleftrightarrow> (case array_levels f of None \<Rightarrow> True | Some ls \<Rightarrow> rev (map level_req ls) = map level_req ls)"

definition all_mirrored :: "s_struct_712 list \<Rightarrow> bool" where
  "all_mirrored ds \<longleftrightarrow> list_all (\<lambda>d. list_all mirrored (td_fields d)) ds"

lemma mirrored_one: "array_levels f = Some [l] \<Longrightarrow> mirrored f"
  by (simp add: mirrored_def)

lemma mirrored_dynamic: "array_levels f = Some ls \<Longrightarrow> \<forall>l \<in> set ls. level_type l = ARRAY_DYNAMIC \<Longrightarrow> mirrored f"
proof -
  assume "array_levels f = Some ls" "\<forall>l \<in> set ls. level_type l = ARRAY_DYNAMIC"
  moreover from this(2) have "map level_req ls = replicate (length ls) None"
    by (induction ls) (simp_all add: level_req_def)
  ultimately show ?thesis by (simp add: mirrored_def)
qed

lemma level_orders_agree:
  assumes f: "field_ok f" and m: "mirrored f" and l: "level_ok f n len"
  shows "level_std f n len"
proof -
  obtain ls where ls: "array_levels f = Some ls" "length ls = unat (array_level_count f)" and n: "n < length ls"
    using f l by (auto simp: field_ok_def level_ok_def split: option.splits)
  let ?j = "unat (array_level_count f) - 1 - n"
  have "map level_req ls ! n = rev (map level_req ls) ! n" using m ls(1) by (simp add: mirrored_def)
  also have "\<dots> = map level_req ls ! ?j" using n ls(2) by (simp add: rev_nth)
  finally have "level_req (ls ! n) = level_req (ls ! ?j)" using n ls(2) by simp
  then show ?thesis using l ls n
    by (auto simp: level_std_def level_ok_def level_req_def split: e_array_type.splits)
qed

lemma fields_mirrored:
  assumes "schema_ok ds" "all_mirrored ds" "field_at ds r = Some f"
  shows "field_ok f" "mirrored f"
proof -
  obtain i k where "i < length ds" "k < length (td_fields (ds ! i))" "f = td_fields (ds ! i) ! k"
    using assms(3) by (cases r) (auto simp: field_at_Some)
  then have "ds ! i \<in> set ds" "f \<in> set (td_fields (ds ! i))" by simp_all
  then show "field_ok f" "mirrored f" using assms(1,2) by (auto simp: schema_ok_def all_mirrored_def list_all_iff)
qed

lemma values_std:
  "val_ok ds r n v \<Longrightarrow> schema_ok ds \<Longrightarrow> all_mirrored ds \<Longrightarrow> val_std ds r n v"
  "fields_ok ds i k cs \<Longrightarrow> schema_ok ds \<Longrightarrow> all_mirrored ds \<Longrightarrow> fields_std ds i k cs"
  "elems_ok ds r n cs \<Longrightarrow> schema_ok ds \<Longrightarrow> all_mirrored ds \<Longrightarrow> elems_std ds r n cs"
  by (induction ds r n v and ds i k cs and ds r n cs rule: val_ok_fields_ok_elems_ok.induct)
    (auto split: option.splits intro: level_orders_agree dest: fields_mirrored)

text \<open>The trees of a state without open frames.\<close>

lemma closed_trees_std:
  assumes "parse_inv s" "g_build s = []" "all_mirrored (g_structs s)" "root_value root s = Some v"
  shows "root_std (g_structs s) root v"
proof -
  have "root_ok (g_structs s) root v" "schema_ok (g_structs s)"
    using assms by (auto simp: parse_inv_def root_complete_def)
  then show ?thesis using values_std(2) assms(3) by (auto simp: root_ok_def root_std_def split: s_struct_712_value.splits)
qed

section \<open>Where they do not\<close>

text \<open>An array of \<open>b\<close> arrays of \<open>a\<close> elements, \<open>T[a][b]\<close>: the parser wants \<open>a\<close> elements of the outermost array, and refuses \<open>b\<close>.\<close>

definition opens_array :: "eip712_parse \<Rightarrow> s_struct_712_field \<Rightarrow> bool" where
  "opens_array s d \<longleftrightarrow> pending_leaf s = None \<and>
     (case g_build s of
        [] \<Rightarrow> False
      | f # _ \<Rightarrow> array_remaining f = 0 \<and> (case fr_next f of None \<Rightarrow> False | Some r \<Rightarrow> field_at (g_structs s) r = Some d))"

definition fixed_level :: "uint8 \<Rightarrow> s_struct_712_field_array_level" where
  "fixed_level n = \<lparr>level_type = ARRAY_FIXED_SIZE, level_size = n\<rparr>"

lemma nested_array_text:
  assumes "array_levels d = Some [fixed_level a, fixed_level b]" "array_level_count d = 2"
  shows "type_text d = the (td_get_struct_field_typename d) @ size_text d @
      ''['' @ digit_str 10 (unat a) @ '']['' @ digit_str 10 (unat b) @ '']''"
    and "level_std d 1 n \<longleftrightarrow> n = unat b" and "level_std d 0 n \<longleftrightarrow> n = unat a"
  using assms by (simp_all add: type_text_def field_levels_def level_text_def fixed_level_def level_std_def)

lemma nested_array_refused:
  assumes o: "opens_array s d" and d: "array_levels d = Some [fixed_level a, fixed_level b]" "array_level_count d = 2" and n: "n \<noteq> unat a"
  shows "v1_set_array n s = Some (False, s)"
proof -
  obtain f fs r where f: "pending_leaf s = None" "g_build s = f # fs" "array_remaining f = 0" "fr_next f = Some r"
      "field_at (g_structs s) r = Some d"
    using o by (auto simp: opens_array_def split: list.splits option.splits)
  have "rd [fixed_level a, fixed_level b] 0 = Some (fixed_level a)" by (simp add: rd_def)
  then show ?thesis using f d n by (simp add: v1_set_array_def fixed_level_def)
qed

end
