(* ===== verification/Eip712_Inputs.thy ===== *)
theory Eip712_Inputs
  imports Eip712_Sign Eip712_Levels
begin

text \<open>
  A typed message for the witnesses: a domain with a chain identifier, a message \<open>Mail\<close> with a boolean, hash functions that meet
  the contracts, and the states of the parser on the way.
\<close>

fun insert_by :: "(nat \<Rightarrow> nat \<Rightarrow> bool) \<Rightarrow> nat \<Rightarrow> nat list \<Rightarrow> nat list" where
  "insert_by cmp x [] = [x]"
| "insert_by cmp x (y # ys) = (if cmp x y then x # y # ys else y # insert_by cmp x ys)"

fun sort_by :: "(nat \<Rightarrow> nat \<Rightarrow> bool) \<Rightarrow> nat list \<Rightarrow> nat list" where
  "sort_by cmp [] = []"
| "sort_by cmp (x # xs) = insert_by cmp x (sort_by cmp xs)"

lemma mset_insert_by: "mset (insert_by cmp x ys) = add_mset x (mset ys)"
  by (induction ys) auto

lemma mset_sort_by: "mset (sort_by cmp xs) = mset xs"
  by (induction xs) (auto simp: mset_insert_by)

lemma sorted_insert_by:
  assumes "\<forall>a b. cmp a b \<or> cmp b a" and "transp cmp" and "sorted_wrt cmp ys"
  shows "sorted_wrt cmp (insert_by cmp x ys)"
  using assms(3)
proof (induction ys)
  case (Cons y ys)
  have m: "set (insert_by cmp x ys) = insert x (set ys)" by (metis mset_insert_by set_mset_add_mset_insert set_mset_mset)
  have t: "cmp x z" if "cmp x y" "cmp y z" for z using assms(2) that by (blast dest: transpD)
  show ?case using Cons assms(1) m by (auto intro: t)
qed simp

lemma sorted_sort_by: "\<forall>a b. cmp a b \<or> cmp b a \<Longrightarrow> transp cmp \<Longrightarrow> sorted_wrt cmp (sort_by cmp xs)"
  by (induction xs) (auto intro: sorted_insert_by)

definition digest_demo :: "bytes \<Rightarrow> bytes" where
  "digest_demo x = take 32 (x @ replicate 32 0)"

definition hash_env_demo :: eip712_env where
  "hash_env_demo = \<lparr>ke_init = True, ke_update_ok = (\<lambda>_ _. True), ke_final = (\<lambda>x. Some (digest_demo x)), s2_init = True,
     s2_update_ok = (\<lambda>_ _. True), s2_final = (\<lambda>x. Some (digest_demo x)), flist_sort = sort_by\<rparr>"

lemma hash_env_demo_contracts: "keccak_contract hash_env_demo digest_demo" "sort_contract hash_env_demo"
  by (simp_all add: keccak_contract_def sort_contract_def hash_env_demo_def mset_sort_by sorted_sort_by)

definition platform712_demo :: eip712_platform where
  "platform712_demo = \<lparr>crypto = hash_env_demo, crc32_update = (\<lambda>c bs. c + word_of_nat (length bs)), pki_check = (\<lambda>_ sig. sig = [7]),
     own_address = replicate 20 1, screen_size_wallet = True, verbose_eip712 = False, dataAllowed = True, displayHash = False, own_chain = 1,
     network_text = (\<lambda>_. None), leaf_text = (\<lambda>_ _. Some ''x''), amount_text = (\<lambda>_ _. None), date_text = (\<lambda>_ _. None),
     name_text = (\<lambda>_ _ _ _. None), instruction_ends = False, review_starts = True, empty_call_shown = (\<lambda>_. True), nested_tx_starts = (\<lambda>_ _. True)\<rparr>"

definition mail_defs :: "s_struct_712 list" where
  "mail_defs =
     [\<lparr>td_name = ''EIP712Domain'',
       td_fields = [\<lparr>struct_name = None, type_size = 32, key_name = Some ''chainId'', array_levels = None, array_level_count = 0, field_type = TYPE_SOL_UINT\<rparr>]\<rparr>,
      \<lparr>td_name = ''Mail'',
       td_fields = [\<lparr>struct_name = None, type_size = 0, key_name = Some ''a'', array_levels = None, array_level_count = 0, field_type = TYPE_SOL_BOOL\<rparr>]\<rparr>]"

definition mail_empty :: eip712_parse where
  "mail_empty = \<lparr>g_structs = mail_defs, td_domain = None, td_message = None, td_mem = \<lparr>outcomes = replicate 40 True, live = 0\<rparr>,
     g_pending_struct = Some 1, g_domain_root = ROOT_NULL, g_build = [], g_backup = [], pending_leaf = None, pending_filled = 0\<rparr>"

definition mail_domain :: eip712_parse where
  "mail_domain = snd (the (v1_set_root ''EIP712Domain'' mail_empty))"

definition mail_chain :: eip712_parse where
  "mail_chain = snd (the (v1_add_field (\<lambda>_. 0) [0, 1, 1] False mail_domain))"

definition mail_message :: eip712_parse where
  "mail_message = snd (the (v1_set_root ''Mail'' mail_chain))"

definition mail_complete :: eip712_parse where
  "mail_complete = snd (the (v1_add_field (\<lambda>_. 0) [0, 1, 1] False mail_message))"

lemma mail_defs_ok: "defs_ok mail_empty" "no_values mail_empty"
  by (simp_all add: mail_empty_def defs_ok_def no_values_def mail_defs_def schema_ok_def names_ok_def field_ok_def field_names_ok_def name_ok_def)

lemma mail_steps:
  "v1_set_root ''EIP712Domain'' mail_empty = Some (True, mail_domain)"
  "v1_add_field (\<lambda>_. 0) [0, 1, 1] False mail_domain = Some (Some ((0, 0), [1]), mail_chain)"
  "v1_set_root ''Mail'' mail_chain = Some (True, mail_message)"
  "v1_add_field (\<lambda>_. 0) [0, 1, 1] False mail_message = Some (Some ((1, 0), [1]), mail_complete)"
  by code_simp+

lemma mail_inv: "parse_inv mail_empty" "parse_inv mail_domain" "parse_inv mail_chain" "parse_inv mail_message" "parse_inv mail_complete"
proof -
  show e: "parse_inv mail_empty" by (rule no_values_inv [OF mail_defs_ok(2,1)])
  show d: "parse_inv mail_domain" using v1_set_root_inv [OF e, of "''EIP712Domain''"] mail_steps(1) by (auto simp: parse_step_def)
  have "v1_get_current_field mail_domain \<noteq> None" by code_simp
  from v1_add_field_inv [OF d this, of "\<lambda>_. 0" "[0, 1, 1]" False] show c: "parse_inv mail_chain" using mail_steps(2) by (auto simp: leaf_step_def)
  show m: "parse_inv mail_message" using v1_set_root_inv [OF c, of "''Mail''"] mail_steps(3) by (auto simp: parse_step_def)
  have "v1_get_current_field mail_message \<noteq> None" by code_simp
  from v1_add_field_inv [OF m this, of "\<lambda>_. 0" "[0, 1, 1]" False] show "parse_inv mail_complete" using mail_steps(4) by (auto simp: leaf_step_def)
qed

text \<open>A review without filters whose message is complete, and one with a filter for the field of the message.\<close>

definition mail_review :: eip712_state where
  "mail_review = \<lparr>parse = mail_complete, ui_ctx = Some ui_context_zero,
     eip712_v1_context = Some \<lparr>schema_hash = replicate 28 0, sign_claimed = False\<rparr>, appState712 = APP_STATE_PREPARING_EIP712,
     hashes712 = \<lparr>domainHash = replicate 32 0, messageHash = replicate 32 0\<rparr>, parked712 = None, g_proxy_info = None\<rparr>"

definition mail_filtered :: eip712_state where
  "mail_filtered = mail_review\<lparr>parse := mail_message,
     ui_ctx := Some (ui_context_zero\<lparr>filtering_mode := EIP712_FILTERING_FULL, filters_to_process := 1, message_info_received := True\<rparr>)\<rparr>"

definition path_reader_demo :: "bytes \<Rightarrow> nat \<Rightarrow> nat \<Rightarrow> uint32 list option" where
  "path_reader_demo bs i n = Some (replicate n 0)"


lemma mail_dependencies: "dependencies mail_defs 1 = {}"
  by (auto simp: dependencies_def refers_def mail_defs_def dest!: tranclD)

text \<open>A message with a field of type \<open>uint8[2][4]\<close>, opened.\<close>

definition grid_field :: s_struct_712_field where
  "grid_field = \<lparr>struct_name = None, type_size = 1, key_name = Some ''a'', array_levels = Some [fixed_level 2, fixed_level 4],
     array_level_count = 2, field_type = TYPE_SOL_UINT\<rparr>"

definition grid_message :: eip712_parse where
  "grid_message =
     snd (the (v1_set_root ''Grid'' (mail_chain\<lparr>g_structs := mail_defs @ [\<lparr>td_name = ''Grid'', td_fields = [grid_field]\<rparr>]\<rparr>)))"

lemma grid_opens: "opens_array grid_message grid_field"
  by code_simp

lemma grid_text: "type_text grid_field = ''uint8[2][4]''"
  by code_simp

end
