(* ===== verification/Spec2Isabelle.thy ===== *)
theory Spec2Isabelle
  imports Concrete_Inputs Eip712_Inputs
begin

text \<open>
  The Ethereum application of a Ledger device (\<open>src/src\<close>), written in C: it receives APDUs of at most 255
  bytes, rebuilds transactions and signed descriptors out of them, shows them to the user and signs.
  This development models the core of that program and proves what makes it correct.  All names below are
  files and functions of \<open>src/src\<close>; a definition carries the name of the function it translates, a
  suffix or prefix marks a helper that stands for a part of one.

  \<^bold>\<open>Conventions.\<close>  An integer of w bits is a \<open>w word\<close> and wraps; a buffer is a list of bytes, read and written by
  \<open>rd\<close>, \<open>rd_n\<close>, \<open>wr\<close>, \<open>wr_n\<close> of \<open>Prelude\<close>, whose result is \<open>None\<close> outside of the list.  A function that may fault
  (leave a buffer, follow a null pointer, not end) returns an option, and \<open>None\<close> is the fault; so a theorem that states
  \<open>f x = Some y\<close> says that the code returns and stays inside of its buffers.  A fault inside of a handler of a command is a fault of
  the command (\<open>fault_run\<close>).  Status words are the
  enumeration \<open>sw\<close>, \<open>false\<close> results are part of the value.  The heap is the record \<open>mem\<close>: the outcomes of the
  allocations to come, arbitrary in every theorem, and the number of live blocks, so that leaks and double frees
  show in the balance.  Loops that are not structural are \<open>partial_function (option)\<close> with a theorem
  that they end; no fuel is used.

  \<^bold>\<open>Parts, and the theories that model them.\<close>
  \<^item> \<open>Prelude\<close>: status words, application states, bytes, the heap.  \<open>Buf_Utils\<close>: \<open>buf_shrink_expand\<close>,
    \<open>str_cpy_explicit_trunc\<close>, \<open>reverseString\<close> of \<open>utils/utils.c\<close>.
  \<^item> \<open>Wide_Uint\<close>, \<open>Uint128\<close>, \<open>Uint256\<close>: \<open>uint128.c\<close> and \<open>uint256.c\<close>.  The first holds the interface of a
    limb pair as a locale, which the other two interpret on their own types; the lemmas relate every
    operation to arithmetic modulo \<open>2 ^ 128\<close> and \<open>2 ^ 256\<close> and the formatting to the digits of the number.
  \<^item> \<open>Rlp\<close>: \<open>rlp_utils.c\<close> (header decoding) and \<open>rlp_encode.c\<close> (the encoder of the 7702 message), against a
    reference encoding \<open>rlp_string\<close>.
  \<^item> \<open>Tlv\<close>: \<open>tlv_apdu.c\<close>, the reassembly of a TLV payload over several APDUs, and its refinement of the
    specification \<open>tlv_spec\<close>.  \<open>Tlv_Utils\<close>: the checked readers of \<open>utils/tlv_utils.c\<close>, the challenge of
    \<open>cmd_get_challenge.c\<close>, and the contract of the parsers that the SDK generates from a table of handlers.
  \<^item> \<open>App_Context\<close>: \<open>parseBip32\<close> and a part of the reset in \<open>app_context.c\<close>.  \<open>Network\<close>: \<open>network.c\<close>.  \<open>Time_Format\<close>:
    \<open>utils/time_format.c\<close>.
  \<^item> \<open>Auth7702\<close>: \<open>sign_authorization_eip7702/\<close>, the command that signs an authorization: the fields, the hash
    of the message, the whitelist, what the review shows.
  \<^item> \<open>Calldata\<close>: \<open>calldata.c\<close>, the store of compressed 32-byte chunks.  \<open>Data_Path\<close>: \<open>gtp_data_path.c\<close>,
    \<open>gtp_path_array.c\<close>, \<open>gtp_path_slice.c\<close>, the walk from a signed path to values of the ABI encoding.
  \<^item> \<open>Ustream\<close>: \<open>eth_ustream.c\<close>, the streaming RLP parser of transactions, and \<open>custom_processor\<close> of \<open>logic_sign_tx.c\<close>, the hook
    through which plugins see the calldata.  \<open>Ustream_Proofs\<close>, \<open>Ustream_Header\<close>, \<open>Ustream_Hook\<close> and \<open>Ustream_Loop\<close> prove its
    invariant \<open>tx_inv\<close> for the field processors, the headers, the hook and the loop; \<open>Ustream_Frame\<close> what every run
    leaves alone, also when it ends in an error.
  \<^item> \<open>Tx_Ctx\<close>: \<open>tx_ctx.c\<close> and \<open>gtp_field_table.c\<close>, the list of the calls that a transaction nests and the table
    of what is shown.  A node of the C list is a pair of an identifier, fresh in the list, and the content, so that
    the pointer \<open>g_tx_ctx_current\<close> is an identifier.  \<open>Tx_Ctx_Inv\<close>: the invariant \<open>gcs_inv\<close>.
  \<^item> \<open>Tx_Info\<close>: \<open>gtp_tx_info.c\<close>, \<open>cmd_tx_info.c\<close>, \<open>cmd_field.c\<close>, the commands that describe a call and display one of its
    fields.  \<open>Tx_Info_Inv\<close>: what they keep and check.
  \<^item> \<open>Swap\<close>, \<open>Swap_Proofs\<close>: \<open>swap/\<close> and \<open>swap_with_calldata_plugin.c\<close>, what the Exchange application promised for a swap (a
    destination, an amount, a fee, a chain, perhaps a token and a hash of calldata) and the four comparisons of a transaction with it.
  \<^item> \<open>Assets\<close>, \<open>Assets_Proofs\<close>: \<open>provide_erc20_token_information/\<close>, \<open>provide_nft_information/\<close>, \<open>manage_asset_info.c\<close>, the lists of
    known tokens and collections.  The locale \<open>asset_store\<close> is their interface, interpreted for both lists.
  \<^item> \<open>Plugin_State\<close>, \<open>Plugin_Handler\<close>: \<open>eth_plugin_handler.c\<close>, which chooses the plugin of a transaction and passes it the
    selector, the words of the calldata and the end.  \<open>Erc20\<close>, \<open>Erc20_Proofs\<close>: the internal plugin \<open>erc20_plugin.c\<close>.  \<open>Set_Plugin\<close>: the two
    commands that register a plugin.
  \<^item> \<open>Sign_State\<close>, \<open>Finalize\<close>: the state of the signing command and \<open>finalize_parsing\<close> of \<open>logic_sign_tx.c\<close> with the signature
    of \<open>ui_common_sign_tx.c\<close>.  The one long C function is a chain of stages, in its order, each of which ends the command, quits
    the application or goes on.  \<open>Finalize_Frame\<close>, \<open>Finalize_Inv\<close>, \<open>Finalize_Results\<close>: what the stages keep, what each of them has
    checked or shown, and the outcome of the whole (\<open>finalize_outcome\<close>).
  \<^item> \<open>Sign_Tx\<close>, \<open>Sign_Tx_Inv\<close>: \<open>cmd_sign_tx.c\<close>, the command that starts and feeds the parser, with the reaction of the main loop (\<open>main.c\<close>) to
    its status word.  It gives the parser the plugins of \<open>Plugin_Handler\<close> (a token plugin never leaves its
    context there, \<open>process_tx_keeps_sized\<close>) and the \<open>tx_ctx_init\<close> of \<open>Tx_Ctx\<close>, and ends in
    \<open>finalize_parsing\<close>: from the first byte of a transaction to its signature.
  \<^item> \<open>Typed_Data\<close>: \<open>typed_data.c\<close> of \<open>sign_message_eip712/\<close>, the definitions and the value trees of a typed message.  A definition is an
    index into the list of the definitions, a field a pair of indices, a node of a tree the way down to it.  \<open>Eip712_Hash\<close>: the encoding of
    the values, the texts of the types and the hashes (\<open>encode_field.c\<close>, \<open>format_hash_field_type.c\<close>, \<open>type_hash.c\<close>, \<open>schema_hash.c\<close>,
    \<open>value_hash.c\<close>).  \<open>Eip712_Hash_Proofs\<close>: the same hashes as the standard defines them (\<open>encode_type\<close>, \<open>encode_data\<close>, over the
    transitive references of a type) and the equivalence.
  \<^item> \<open>Eip712_Parse\<close>: \<open>eip712_v1_parse.c\<close>, which builds both from the APDUs with a stack of frames.  \<open>Eip712_Parse_Inv\<close> relates the stack to
    a tree with a hole (\<open>stack_ok\<close>); \<open>Eip712_Parse_Ops\<close>, \<open>Eip712_Parse_Defs\<close>: the commands do not fault and keep \<open>parse_inv\<close> and \<open>defs_ok\<close>.
    The invariant has the levels of an array in the order of the code (\<open>level_ok\<close>), which is the reverse of the standard's; \<open>Eip712_Levels\<close>
    has the standard's (\<open>val_std\<close>), where the two agree, and the message that the code refuses.
  \<^item> \<open>Eip712_Ui\<close>: the accounting of \<open>eip712_v1_ui_logic.c\<close> and the context; \<open>Eip712_Filters\<close>: \<open>eip712_v1_filtering.c\<close>, the signed filters that
    choose what is shown; \<open>Eip712_Commands\<close>: \<open>eip712_v1_commands.c\<close>, the command of \<open>sign_message_eip712_v0/\<close> and \<open>common_712.c\<close>.
    \<open>Eip712_Frame\<close>: what the operations of the review keep, with rules that follow their structure; \<open>Eip712_Filter_Facts\<close>: over what an
    accepted filter was signed; \<open>Eip712_Sign\<close>: what the signing command has checked and signs; \<open>Eip712_Inputs\<close>: a message for the witnesses.
  \<^item> \<open>Concrete_Inputs\<close>: the inputs \<open>..._demo\<close> of the witnesses and what they evaluate to.
  \<^bold>\<open>Memory that the code shares.\<close>  Two unions matter.  \<open>tokenContext_t\<close> keeps the registered contract and selector in the bytes of
  the plugin's context: starting a plugin takes them away (\<open>union_to_plugin\<close>).  \<open>strings\<close> keeps the strings of the review, in a swap those of
  the promise, in the bytes of the buffer in which contract data is shown: \<open>show_data\<close> overwrites them as that buffer does.

  \<^bold>\<open>Parameters.\<close>  What is not in \<open>src/\<close>, and the parts of it that are not modelled (the plugins other than the token plugin, the
  parsing and display of a field, the texts of EIP-712 values, the screens), is an argument, collected in records: the hash and signature functions, the
  generated TLV parsers (\<open>parser_contract\<close>: they run the handlers of their table over the fields of the payload,
  report the tags they saw and refuse a second unique tag), big-number multiplication
  (\<open>mult_contract\<close>), the path reader, the external plugins, the formatting of amounts, the screens.  The theorems hold for all of them or under
  the named contract (\<open>platform_ok\<close>: the multiplication is exact, tickers fit their buffer); the values \<open>..._demo\<close> meet the contracts.

  \<^bold>\<open>Theorems.\<close>  The parser and the commands always answer, stay inside of their buffers, keep their
  invariants and lose no block; the signed hash covers exactly the bytes that were parsed; descriptions come in the
  order of the calls and are signed as a whole; what a swap signs without a review is what was promised, what the review shows
  is the transaction; plugins are registered, and tokens recorded by the legacy command, only by signed messages; the
  digest of a typed message is the one of EIP-712, over trees that follow their definitions, and its filters are signed over the path they change; the wide integers, RLP, the TLV reassembly, the calldata store and the paths compute what
  their specifications say.  Theorems whose text says so record faults of the code instead.

  \<^bold>\<open>Not modelled.\<close>  personal messages, the address book, and the descriptors that are only checked and stored;
  the texts of the values of an EIP-712 message and the pairs of one without filters;
  the parsing and the display of a field (\<open>gtp_field.c\<close>; nothing is assumed of them); the plugins for collections, staking and
  withdrawals; user interface and I/O; key derivation and signing in the SDK.
\<close>

section \<open>The signing command\<close>

text \<open>C1. Any APDU of the signing command is answered, and then its invariant holds again; after an answer that is an error the
  application is at rest: no transaction, no plugin, no known asset, no hash context and no review is left.  It quits only in a swap, or when the
  parsing of these very bytes chooses a plugin twice, and ends the session with a signature only in a swap.  It faults only when the parser, reached with this APDU,
  gets stuck at the end of a stored transaction, the context of which cannot be made.  The start of a review (P2 = 2) is asked on contexts that are well formed.\<close>

theorem sign_command_safe:
  assumes "platform_ok S" and "sign_inv S s" and "length apdu = unat len" and "p2 = SIGN_MODE_START_FLOW \<longrightarrow> gcs_inv (tx_gcs (st_tx s))"
  shows "case sign_apdu S p1 p2 apdu len s of
      None \<Rightarrow> \<exists>off u t. reaches_parser S p1 p2 apdu len s off u \<and> store_calldata (st_tx u) \<and>
        process_tx (sign_env S) (drop (unat off) apdu) (st_tx u) = None \<and> fault_at (sign_env S) (drop (unat off) apdu) (st_tx u) t
    | Some App_exit \<Rightarrow> called_from_swap S \<or>
        (\<exists>off u st t. reaches_parser S p1 p2 apdu len s off u \<and>
           process_tx (sign_env S) (drop (unat off) apdu) (st_tx u) = Some (st, t) \<and> ps_exited (fst (plug t)))
    | Some (Swap_done _) \<Rightarrow> called_from_swap S
    | Some (Returns (sw, s')) \<Rightarrow> sign_inv S s' \<and> (is_error sw \<longrightarrow> at_rest s')"
  using sign_apdu_result [OF assms(1-3), of p2 p1] assms(4) unfolding answers_def by blast

theorem sign_command_safe_witness:
  "\<exists>s'. sign_apdu (sign_platform_demo False) 0 0 [1, 0, 0, 0, 7, 3] 6 sign_state_demo = Some (Returns (SWO_MEMORY_WRITE_ERROR, s')) \<and> at_rest s'"
proof -
  have "(case sign_apdu (sign_platform_demo False) 0 0 [1, 0, 0, 0, 7, 3] 6 sign_state_demo of
      Some (Returns (sw, s')) \<Rightarrow> sw = SWO_MEMORY_WRITE_ERROR | _ \<Rightarrow> False)" by code_simp
  then show ?thesis
    using sign_command_safe [OF sign_platform_demo_ok sign_state_demo_inv, where apdu = "[1, 0, 0, 0, 7, 3]" and len = 6 and ?p2.0 = 0 and ?p1.0 = 0, of False]
    by (auto simp: SIGN_MODE_START_FLOW_def split: option.splits outcome.splits)
qed

text \<open>C2. In a swap nobody looks at the transaction: the application signs it without a review.  It signs only if the transaction is
  the one that the Exchange application promised: its chain, its maximal fee, the destination and the value (of the transfer, or of the token call that the
  internal plugin decoded), the hash of its calldata when it has any, and what is signed is the hash of the bytes received.\<close>

theorem swap_signs_only_the_promise:
  assumes "platform_ok S" and "sign_inv S s" and "tx_appState (st_tx s) \<noteq> APP_STATE_IDLE" and "length apdu < 256"
    and "swap_fresh (swap_of s)" and "sign_parse S apdu off s = Some (Swap_done resp)"
  shows "called_from_swap S \<and> (\<exists>t n h rs par x. process_tx (sign_env S) (drop (unat off) apdu) (st_tx s) = Some (USTREAM_FINISHED, t) \<and>
     promise_fulfilled S (s\<lparr>st_tx := t\<rparr>) \<and> swap_of (s\<lparr>st_tx := t\<rparr>) = swap_of s \<and>
     sp_hash_final S (sha3 (st_tx s) @ take n (drop (unat off) apdu)) = Inr h \<and> sp_sign S (st_bip32 s) h = Some (rs, par, x) \<and>
     resp = signature_v (s\<lparr>st_tx := t\<rparr>) par x # rs)"
  by (rule sign_parse_swap [OF assms])

theorem swap_signs_only_the_promise_witness:
  "sign_parse (sign_platform_demo True) [] 0 sign_state_parsed = Some (Swap_done (1 # replicate 64 5)) \<and>
     (\<exists>t. promise_fulfilled (sign_platform_demo True) (sign_state_parsed\<lparr>st_tx := t\<rparr>))"
proof -
  have "currentField (st_tx sign_state_parsed) \<noteq> RLP_NONE" "\<not> ps_exited (fst (plug (st_tx sign_state_parsed)))" by code_simp+
  then have r: "sign_parse (sign_platform_demo True) [] 0 sign_state_parsed = Some (Swap_done (1 # replicate 64 5))"
    by (simp add: sign_parse_def sign_state_parsed_done handle_parsing_status_def sign_state_parsed_swap)
  have "tx_appState (st_tx sign_state_parsed) \<noteq> APP_STATE_IDLE" "swap_fresh (swap_of sign_state_parsed)" by code_simp+
  from swap_signs_only_the_promise [OF sign_platform_demo_ok sign_state_parsed_inv this(1) _ this(2) r] r show ?thesis by auto
qed

text \<open>C3. What the user approves is the transaction: the maximal fee is the exact product of the two fields (an overflow is refused), the
  nonce, the network and the sender are its own, the hash to sign is the hash of its bytes.  Unless a plugin shows the call, the destination and the amount are shown, and
  calldata that nobody explains reaches the screen only when the user has allowed blind signing.  A legacy transaction without chain is refused.\<close>

theorem review_tells_the_transaction:
  assumes "platform_ok S" and "ready_to_finalize s" and "\<not> called_from_swap S"
    and "finalize_parsing S s = Some (Returns (sw, s'))" and "under_review s' = Some from_plugin"
  shows "review_shown S s (review s') \<and> sp_hash_final S (sha3 (st_tx s)) = Inr (tx_hash s') \<and> \<not> store_calldata (st_tx s) \<and>
     \<not> (txType (st_tx s) = LEGACY \<and> vLength (content (st_tx s)) = 0) \<and>
     (\<not> from_plugin \<longrightarrow> transfer_shown S s (review s') \<and> (dataPresent (content (st_tx s)) \<longrightarrow> env_dataAllowed (sp_env S)))"
proof -
  obtain r where r: "finalize_parsing S s = Some r" "finalize_outcome S s r" using finalize_parsing_result [OF assms(1,2)] assms(3) by blast
  then have "finalize_outcome S s (Returns (sw, s'))" using assms(4) by simp
  then obtain s1 where f: "finalized S False s s1" "s' = (free_hash s1)\<lparr>under_review := Some from_plugin\<rparr>" "\<not> store_calldata (st_tx s)"
      "from_plugin \<longleftrightarrow> plugin_type (plugins_of s1) \<noteq> PLUGIN_TYPE_NONE"
    using assms(5) by (auto simp: finalize_outcome_def)
  then show ?thesis using assms(3) by (auto simp: finalized_def)
qed

theorem review_tells_the_transaction_witness:
  "\<exists>s'. finalize_parsing (sign_platform_demo False) sign_state_parsed = Some (Returns (SWO_NO_RESPONSE, s')) \<and> under_review s' = Some False \<and>
     review_shown (sign_platform_demo False) sign_state_parsed (review s') \<and> maxFee (review s') = ''0 ETH''"
proof -
  have c: "\<not> called_from_swap (sign_platform_demo False)" by code_simp
  have p: "ready_to_finalize sign_state_parsed"
    using sign_state_parsed_inv [of False] by (simp add: ready_to_finalize_def sign_inv_def sign_state_parsed_def sign_state_demo_def)
  have u: "under_review ((free_hash reviewed_demo)\<lparr>under_review := Some False\<rparr>) = Some False" by simp
  show ?thesis using review_tells_the_transaction [OF sign_platform_demo_ok p c sign_state_parsed_review u] sign_state_parsed_review u
      reviewed_demo_fee by (auto simp: free_hash_def)
qed

text \<open>C4. The review of a stored transaction starts only when a single call is left, it is described, the hash of the fields that
  were displayed is the one in its signed description, and every other call was an empty one that the review shows as such.\<close>

theorem review_needs_complete_description:
  assumes "gcs_inv (tx_gcs (st_tx s))"
  shows "\<exists>sw s'. start_flow S len s = Some (sw, s') \<and>
    (sw = SWO_NO_RESPONSE \<longrightarrow> tx_appState (st_tx s) = APP_STATE_SIGNING_TX \<and> len = 0 \<and>
      (\<exists>i c ti. g_tx_ctx_list (tx_gcs (st_tx s')) = [(i, c)] \<and> g_tx_ctx_current (tx_gcs (st_tx s')) = Some i \<and>
         tx_info c = Some ti \<and> ge_finalize (sp_gcs S) (fields_hash_ctx c) = Some (fields_hash ti) \<and>
         (\<forall>j d. (j, d) \<in> set (g_tx_ctx_list (tx_gcs (st_tx s))) \<longrightarrow> j \<noteq> i \<longrightarrow> calldata d = None)))"
  by (rule start_flow_result [OF assms])

theorem review_needs_complete_description_witness:
  "\<exists>s'. start_flow (sign_platform_demo False) 0 sign_state_ready = Some (SWO_NO_RESPONSE, s') \<and>
     (\<exists>i c ti. g_tx_ctx_list (tx_gcs (st_tx s')) = [(i, c)] \<and> tx_info c = Some ti)"
proof -
  have "gcs_inv (tx_gcs (st_tx sign_state_ready))"
    by (simp add: sign_state_ready_def tx_gcs_def gcs_in_def gcs_ready_def gcs_demo_def sign_tx_start_def sign_state_demo_def gcs_inv_def
        ctx_ids_def current_ok_def review_order_def gcs_blocks_def ctx_blocks_def call_demo_def tx_ctx_zero_def calldata_blocks_def
        chunk_blocks_def calldata_demo_def)
  moreover have "fst (the (start_flow (sign_platform_demo False) 0 sign_state_ready)) = SWO_NO_RESPONSE" by code_simp
  ultimately show ?thesis using review_needs_complete_description [of sign_state_ready "sign_platform_demo False" 0] by force
qed

section \<open>The streaming transaction parser\<close>

text \<open>C5. Whatever the host sends, in whatever pieces, parsing a transaction ends with a status, never leaves a buffer, keeps the
  invariant of the parser, and the hash has absorbed a prefix of the bytes sent: all of them as long as the parser asks for more.  The
  only other outcome is a fault at the end of a stored transaction: the pieces before it are accepted, and the loop over the piece that completes
  the transaction gets stuck where \<open>tx_ctx_init\<close> fails and leaves no parked calldata, or faults itself.\<close>

theorem ustream_session_safe:
  assumes "content_ok (content s)" "length (tk_data s) = 32" "unat (tk_fieldOffset s) < 32" "parked_ok (g_parked_calldata s)"
    and "\<forall>b \<in> set bs. length b < 2 ^ 32"
  shows "feed_tx env bs (snd (init_tx env store s)) = None \<and> store \<and> session_fault env bs (snd (init_tx env store s)) \<or>
    (\<exists>st s'. feed_tx env bs (snd (init_tx env store s)) = Some (st, s') \<and> (st \<noteq> USTREAM_FAULT \<longrightarrow> tx_inv s' \<and>
     prefix (sha3 s') (concat bs) \<and> (st = USTREAM_PROCESSING \<longrightarrow> PARSING_IS_DONE s' \<or> sha3 s' = concat bs) \<and>
     (st = USTREAM_FINISHED \<longrightarrow> PARSING_IS_DONE s')))"
  using feed_tx_total [OF init_tx_inv(1) [OF assms(1-4), of env store] assms(5), of env] init_tx_inv(2,3) [OF assms(1-4), of env store]
  by auto

theorem ustream_session_safe_witness:
  "\<exists>st s'. feed_tx tx_env_demo [[0xc9, 0x01], [0x02, 0x03]] (snd (init_tx tx_env_demo False tx_state_demo)) = Some (st, s') \<and>
     (st \<noteq> USTREAM_FAULT \<longrightarrow> tx_inv s' \<and> prefix (sha3 s') [0xc9, 0x01, 0x02, 0x03])"
proof -
  have "content_ok (content tx_state_demo)" by (simp add: tx_state_demo_def int256_demo_def content_ok_def int256_ok_def)
  then show ?thesis
    using ustream_session_safe [of tx_state_demo "[[0xc9, 0x01], [0x02, 0x03]]" tx_env_demo False]
    by (auto simp: tx_state_demo_def parked_ok_def)
qed

text \<open>C6. One APDU of a transaction: the call returns (or ends in the fault of a stored transaction just described), a status other than
  a fault leaves the parser in its invariant, the hash has absorbed exactly the part of the APDU that was consumed, and "processing"
  means that the whole APDU was (unless the last field was already parsed).\<close>

theorem ustream_call:
  assumes "tx_inv s" "length buf < 2 ^ 32"
  shows "process_tx env buf s = None \<and> store_calldata s \<and> (\<exists>s1. fault_at env buf s s1) \<or>
    (\<exists>st s'. process_tx env buf s = Some (st, s') \<and> st \<noteq> USTREAM_CONTINUE \<and>
    (st \<noteq> USTREAM_FAULT \<longrightarrow> tx_inv s' \<and> workPos s' \<le> length buf \<and> sha3 s' = sha3 s @ take (workPos s') buf) \<and>
    (st = USTREAM_PROCESSING \<longrightarrow> PARSING_IS_DONE s' \<or> workPos s' = length buf))"
  by (rule process_tx_total [OF assms, of env]) blast+

theorem ustream_call_witness:
  "\<exists>st s'. process_tx tx_env_demo [0xc9, 0x01] tx_state_demo = Some (st, s') \<and> st \<noteq> USTREAM_CONTINUE \<and>
    (st \<noteq> USTREAM_FAULT \<longrightarrow> tx_inv s' \<and> sha3 s' = take (workPos s') [0xc9, 0x01])"
proof -
  have "tx_inv tx_state_demo" by (simp add: tx_state_demo_def int256_demo_def tx_inv_def tx_base_def content_ok_def int256_ok_def parked_ok_def)
  then show ?thesis using ustream_call [of tx_state_demo "[0xc9, 0x01]" tx_env_demo] by (auto simp: tx_state_demo_def)
qed

text \<open>C7. A stored transaction without calldata for whose context there is no memory is not refused: the failure branch follows the
  null pointer to the parked calldata.\<close>

theorem no_memory_for_context_faults:
  assumes "PARSING_IS_DONE (st_tx s)" "store_calldata (st_tx s)" "currentField (st_tx s) \<noteq> RLP_NONE"
    and "g_parked_calldata (st_tx s) = None" and "mem_alloc (tx_mem (st_tx s)) = (False, m)" and "tx_inv (st_tx s)"
  shows "sign_parse S apdu off s = None"
  by (rule no_memory_no_calldata_fault [OF assms])

theorem no_memory_for_context_faults_witness:
  "sign_parse (sign_platform_demo False) [] 0 (sign_state_demo\<lparr>st_tx := sign_tx_start\<lparr>currentField := 11, txType := 0xc0, store_calldata := True\<rparr>\<rparr>) = None"
proof (rule no_memory_for_context_faults)
  let ?s = "sign_state_demo\<lparr>st_tx := sign_tx_start\<lparr>currentField := 11, txType := 0xc0, store_calldata := True\<rparr>\<rparr>"
  show "mem_alloc (tx_mem (st_tx ?s)) = (False, \<lparr>outcomes = [], live = 0\<rparr>)" by (simp add: sign_tx_start_def mem_alloc_def)
  show "tx_inv (st_tx ?s)" using sign_tx_start_inv by (simp add: tx_inv_def tx_base_def sign_tx_start_def)
qed (simp_all add: PARSING_IS_DONE_def sign_tx_start_def)

section \<open>Typed messages (EIP-712)\<close>

text \<open>C8. What the approval of a typed message signs is the digest of EIP-712: when the signing command is accepted, both value trees are complete
  and follow the definitions that were received, and the signed digest is keccak256(0x19 0x01 \<parallel> hashStruct(domain) \<parallel> hashStruct(message)) with the
  hashes as the standard defines them (\<open>encode_data\<close>), over any definitions, nested structs and arrays.\<close>

theorem typed_message_digest:
  assumes "keccak_contract (crypto P) keccak" "sort_contract (crypto P)" and "parse_inv (parse s)"
    and "appState712 s \<in> {APP_STATE_IDLE, APP_STATE_PREPARING_EIP712, APP_STATE_SIGNING_EIP712}"
    and "handle_eip712_v1_sign P rdp addr contexts shown cdata b s = Some (SWO_NO_RESPONSE, b', s')"
  shows "\<exists>d v. td_domain (parse s) = Some d \<and> td_message (parse s) = Some v \<and>
    root_ok (g_structs (parse s)) ROOT_DOMAIN d \<and> root_ok (g_structs (parse s)) ROOT_MESSAGE v \<and>
    ui_712_approve_cb keccak s' =
      Some (keccak ([0x19, 0x01] @ encode_data keccak (g_structs (parse s)) d @ encode_data keccak (g_structs (parse s)) v))"
  by (rule sign_standard_digest [OF assms])

theorem typed_message_digest_witness:
  "\<exists>b s'. handle_eip712_v1_sign platform712_demo path_reader_demo 0 0 True [0] \<lparr>bip32_length = 0, bip32_path = []\<rparr> mail_review = Some (SWO_NO_RESPONSE, b, s') \<and>
     (\<exists>d v. td_domain mail_complete = Some d \<and> td_message mail_complete = Some v \<and>
        ui_712_approve_cb digest_demo s' = Some (digest_demo ([0x19, 0x01] @ encode_data digest_demo mail_defs d @ encode_data digest_demo mail_defs v)))"
proof -
  let ?r = "handle_eip712_v1_sign platform712_demo path_reader_demo 0 0 True [0] \<lparr>bip32_length = 0, bip32_path = []\<rparr> mail_review"
  have "map_option fst ?r = Some SWO_NO_RESPONSE" by code_simp
  then obtain b s' where r: "?r = Some (SWO_NO_RESPONSE, b, s')" by auto
  have "crypto platform712_demo = hash_env_demo" by (simp add: platform712_demo_def)
  moreover have "g_structs mail_complete = mail_defs" by code_simp
  ultimately show ?thesis
    using typed_message_digest [OF _ _ _ _ r, of digest_demo] r hash_env_demo_contracts mail_inv(5) by (auto simp: mail_review_def)
qed

text \<open>C9. A typed message is signed once, and not before everything that its filters promised was there: with filters, the message was described, as
  many paths are registered as were announced, no registered path had a value without filter, every amount has its token; nested
  transactions are reviewed.  A second signing command is refused and changes nothing.\<close>

theorem typed_message_complete:
  assumes "handle_eip712_v1_sign P rdp addr contexts shown cdata b s = Some (SWO_NO_RESPONSE, b', s')"
    and "appState712 s \<in> {APP_STATE_IDLE, APP_STATE_PREPARING_EIP712, APP_STATE_SIGNING_EIP712}"
  shows "(\<exists>u. ui_ctx s = Some u \<and> contexts = 0 \<and> list_all ci_processed (calldata_infos u) \<and>
      (filtering_mode u = EIP712_FILTERING_FULL \<longrightarrow>
         message_info_received u \<and> filters_to_process u = word_of_nat (length (filters_crc u)) \<and> \<not> filtering_broken u \<and> amount_joins u = [])) \<and>
    (\<forall>contexts' shown' cdata' b''.
       handle_eip712_v1_sign P rdp addr contexts' shown' cdata' b'' s' = Some (SWO_COMMAND_NOT_ALLOWED, b'', s'))"
  using sign_needs_filters [OF assms] by blast

theorem typed_message_complete_witness:
  "\<exists>b s'. handle_eip712_v1_sign platform712_demo path_reader_demo 0 0 True [0] \<lparr>bip32_length = 0, bip32_path = []\<rparr> mail_review = Some (SWO_NO_RESPONSE, b, s') \<and>
     handle_eip712_v1_sign platform712_demo path_reader_demo 0 0 True [0] b s' = Some (SWO_COMMAND_NOT_ALLOWED, b, s')"
proof -
  let ?r = "handle_eip712_v1_sign platform712_demo path_reader_demo 0 0 True [0] \<lparr>bip32_length = 0, bip32_path = []\<rparr> mail_review"
  have "map_option fst ?r = Some SWO_NO_RESPONSE" by code_simp
  then obtain b s' where r: "?r = Some (SWO_NO_RESPONSE, b, s')" by auto
  have "appState712 mail_review = APP_STATE_PREPARING_EIP712" by (simp add: mail_review_def)
  then show ?thesis using typed_message_complete [OF r] r by auto
qed

text \<open>C10. A filter of a field is accepted only with a signature over its kind, the chain and the contract of the domain (or the contract it stands
  for), the hash of all definitions, the path of the current field (or the announced path of a field in an empty array) and all of its
  parameters; the path is then registered.\<close>

theorem field_filter_signed:
  assumes "handle_eip712_v1_filtering P p1 p2 cdata s = Some (SWO_SUCCESS, s')" and "ui_712_get_filtering_mode s = EIP712_FILTERING_FULL"
    and "P2_FILT_MESSAGE_INFO < p2" and "p2 \<noteq> P2_FILT_CALLDATA_INFO"
  shows "\<exists>magic prefix parts extra sig u. filter_magic p2 = Some magic \<and> filter_parameters p2 cdata = Some (extra, sig) \<and>
    filter_prefix magic s = Some prefix \<and> path_text (p1 = P1_DISCARDED) s = Some parts \<and>
    signature_valid P (prefix @ concat parts @ concat extra) sig \<and>
    ui_ctx s' = Some u \<and> foldl (crc32_update P) 0 parts \<in> set (filters_crc u)"
  using accepted_filter_signed [OF assms] by (auto simp: signed_filter_def)

theorem field_filter_signed_witness:
  "\<exists>s' u. handle_eip712_v1_filtering platform712_demo P1_COMPLETE P2_FILT_RAW_FIELD [1, 65, 1, 7] mail_filtered = Some (SWO_SUCCESS, s') \<and>
     ui_ctx s' = Some u \<and> filters_crc u \<noteq> []"
proof -
  let ?r = "handle_eip712_v1_filtering platform712_demo P1_COMPLETE P2_FILT_RAW_FIELD [1, 65, 1, 7] mail_filtered"
  have "map_option fst ?r = Some SWO_SUCCESS" by code_simp
  then obtain s' where r: "?r = Some (SWO_SUCCESS, s')" by auto
  have "ui_712_get_filtering_mode mail_filtered = EIP712_FILTERING_FULL" "P2_FILT_MESSAGE_INFO < P2_FILT_RAW_FIELD" "P2_FILT_RAW_FIELD \<noteq> P2_FILT_CALLDATA_INFO"
    by code_simp+
  from field_filter_signed [OF r this] r show ?thesis by fastforce
qed

text \<open>C11. The commands that carry the values of a typed message never follow a null or dangling pointer and never leave the stack of frames, whatever
  the host sends in whatever order: on a state with the invariant of the parser each of them returns, and when it succeeds the invariant holds
  again.  The invariant says that the open frames are a path through a value tree that follows the definitions, field by field, with arrays of the
  sizes that the code checks, and that a tree without open frames is complete.  The code counts the levels of an array from the first one of its type
  on, the standard from the last (next property); where the two orders ask for the same, as for arrays of one level or without fixed sizes, the
  complete trees are values of their types as the standard reads them (\<open>root_std\<close>).\<close>

theorem typed_values_follow_definitions:
  assumes "parse_inv s"
  shows "(\<exists>ok s'. v1_set_root name s = Some (ok, s') \<and> (ok \<longrightarrow> parse_inv s')) \<and>
    (\<exists>ok s'. v1_set_array number s = Some (ok, s') \<and> (ok \<longrightarrow> parse_inv s')) \<and>
    (v1_get_current_field s \<noteq> None \<longrightarrow>
       (\<exists>leaf s'. v1_add_field fresh data unfinished s = Some (leaf, s') \<and> (leaf \<noteq> None \<longrightarrow> parse_inv s'))) \<and>
    (g_build s = [] \<and> all_mirrored (g_structs s) \<longrightarrow> (\<forall>root v. root_value root s = Some v \<longrightarrow> root_std (g_structs s) root v))"
  using closed_trees_std [OF assms] v1_set_root_inv [OF assms, of name] v1_set_array_inv [OF assms, of number] v1_add_field_inv [OF assms, of fresh data unfinished]
  unfolding parse_step_def leaf_step_def by blast

theorem typed_values_follow_definitions_witness:
  "\<exists>leaf s'. v1_add_field (\<lambda>_. 0) [0, 1, 1] False mail_message = Some (leaf, s') \<and> leaf \<noteq> None \<and> parse_inv s'"
proof -
  have "v1_get_current_field mail_message \<noteq> None" by code_simp
  with typed_values_follow_definitions [OF mail_inv(4)] obtain leaf s' where
    "v1_add_field (\<lambda>_. 0) [0, 1, 1] False mail_message = Some (leaf, s')" "leaf \<noteq> None \<longrightarrow> parse_inv s'" by blast
  then show ?thesis by (auto simp: mail_steps(4))
qed

text \<open>C12. An array of \<open>b\<close> arrays of \<open>a\<close> elements has the type \<open>T[a][b]\<close>, and this is the text that is hashed; the standard wants \<open>b\<close> elements of the outer
  array.  The parser wants \<open>a\<close>: the standard's number is refused when the two differ, and such a message cannot be signed.\<close>

theorem typed_array_levels_reversed:
  assumes "opens_array s d" and "array_levels d = Some [fixed_level a, fixed_level b]" and "array_level_count d = 2" and "a \<noteq> b"
  shows "type_text d = the (td_get_struct_field_typename d) @ size_text d @
      ''['' @ digit_str 10 (unat a) @ '']['' @ digit_str 10 (unat b) @ '']'' \<and>
    (\<forall>n. level_std d 1 n \<longleftrightarrow> n = unat b) \<and> (\<forall>n. level_std d 1 n \<longrightarrow> v1_set_array n s = Some (False, s))"
  using nested_array_text [OF assms(2,3)] nested_array_refused [OF assms(1-3)] assms(4) by (simp add: word_unat_eq_iff)

theorem typed_array_levels_reversed_witness:
  "type_text grid_field = ''uint8[2][4]'' \<and> v1_set_array 4 grid_message = Some (False, grid_message) \<and>
     map_option fst (v1_set_array 2 grid_message) = Some True"
proof -
  have d: "array_levels grid_field = Some [fixed_level 2, fixed_level 4]" "array_level_count grid_field = 2" by (simp_all add: grid_field_def)
  have "level_std grid_field 1 4" by code_simp
  moreover have "(2 :: uint8) \<noteq> 4" by simp
  moreover have "map_option fst (v1_set_array 2 grid_message) = Some True" by code_simp
  ultimately show ?thesis using typed_array_levels_reversed [OF grid_opens d] grid_text by blast
qed

text \<open>C13. Every definition that the parser accepts is well formed: a field has a type, the integers and fixed byte strings a size of 1 to 32 bytes, a
  struct field the name of its type, an array as many levels as it counts; and no name contains a quote, a backslash, a dot or a null
  character, which would change the text of the schema or of a path.  The two commands return on any data.\<close>

theorem typed_definitions_wellformed:
  assumes "defs_ok s" and "no_values s"
  shows "(\<exists>ok s'. Some (v1_set_struct_name name s) = Some (ok, s') \<and> (ok \<longrightarrow> schema_ok (g_structs s') \<and> names_ok (g_structs s') \<and> no_values s')) \<and>
    (\<exists>ok s'. v1_set_struct_field data s = Some (ok, s') \<and> (ok \<longrightarrow> schema_ok (g_structs s') \<and> names_ok (g_structs s') \<and> no_values s'))"
  using v1_set_struct_name_step [OF assms, of name] v1_set_struct_field_step [OF assms, of data]
  unfolding def_step_def defs_ok_def by blast

theorem typed_definitions_wellformed_witness:
  "\<exists>s'. v1_set_struct_field [0x41, 4, 1, 98] mail_empty = Some (True, s') \<and> schema_ok (g_structs s') \<and> names_ok (g_structs s')"
proof -
  have "map_option fst (v1_set_struct_field [0x41, 4, 1, 98] mail_empty) = Some True" by code_simp
  then obtain s' where "v1_set_struct_field [0x41, 4, 1, 98] mail_empty = Some (True, s')" by auto
  then show ?thesis using typed_definitions_wellformed [OF mail_defs_ok, of "[]" "[0x41, 4, 1, 98]"] by auto
qed

text \<open>C14. The hash of a type is the keccak hash of the text that EIP-712 prescribes: the type with its fields, then every type that it refers to,
  directly or through others, once, without itself, in the order of their names.  No block of the worklist is lost, whatever fails.\<close>

theorem type_hash_is_the_standard:
  assumes "sort_contract E" and "schema_ok ds" and "td_find_struct (Some name) ds = Some i"
  shows "\<exists>y m'. type_hash E ds name m = Some (y, m') \<and> live m' = live m \<and>
    (\<forall>z. y = Some z \<longrightarrow> ke_final E (text_bytes (encode_type ds i)) = Some z)"
  using type_hash_correct [OF assms, of m] by (simp add: final_of_def)

theorem type_hash_is_the_standard_witness:
  "\<exists>y m'. type_hash hash_env_demo mail_defs ''Mail'' \<lparr>outcomes = [], live = 0\<rparr> = Some (y, m') \<and> live m' = 0 \<and>
     (\<forall>z. y = Some z \<longrightarrow> z = digest_demo (text_bytes ''Mail(bool a)''))"
proof -
  have f: "td_find_struct (Some ''Mail'') mail_defs = Some 1" by code_simp
  have s: "schema_ok mail_defs" using mail_defs_ok(1) by (simp add: defs_ok_def mail_empty_def)
  have "dependencies mail_defs 1 = {}" by (rule mail_dependencies)
  then have "encode_type mail_defs 1 = struct_text (mail_defs ! 1)" by (simp add: encode_type_def)
  moreover have "struct_text (mail_defs ! 1) = ''Mail(bool a)''" by code_simp
  ultimately show ?thesis
    using type_hash_is_the_standard [OF hash_env_demo_contracts(2) s f, of "\<lparr>outcomes = [], live = 0\<rparr>"] by (auto simp: hash_env_demo_def)
qed

text \<open>C15. The search for the types that a type refers to ends for any definitions, also for types that refer to each other, and finds exactly the
  types that are reachable, each once; it fails when one of them is not defined or memory is short.\<close>

theorem type_dependencies_exact:
  assumes "i < length ds"
  shows "\<exists>ok deps m'. get_struct_dependencies ds i m = Some (ok, deps, m') \<and> live m' = live m + length deps \<and> distinct deps \<and>
    (ok \<longrightarrow> set deps = (refers ds)\<^sup>+ `` {i} \<and> (\<forall>d \<in> insert i (set deps). resolved ds d))"
  by (rule get_struct_dependencies_total [OF assms])

theorem type_dependencies_exact_witness:
  "\<exists>ok deps m'. get_struct_dependencies mail_defs 0 \<lparr>outcomes = [], live = 0\<rparr> = Some (ok, deps, m') \<and> distinct deps \<and> live m' = length deps"
  using type_dependencies_exact [of 0 mail_defs "\<lparr>outcomes = [], live = 0\<rparr>"] by (fastforce simp: mail_defs_def)

section \<open>EIP-7702 authorizations\<close>

text \<open>C16. An EIP-7702 authorization that the handler accepts is complete, enabled in the settings, and the stored hash is the one of
  \<open>0x05 || rlp([chain id, delegate, nonce])\<close>; a delegate that is not zero is an entry of the whitelist for this chain and the
  review names it.  Whatever happens, the hash context is released and no block leaks.\<close>

theorem auth7702_hash_and_review:
  assumes "auth_parser_contract P" and "g_7702_hash_ctx st = None"
  shows "\<exists>ok st'. handle_auth7702_tlv P buf st = Some (ok, st')
     \<and> g_7702_hash_ctx st' = None \<and> live (auth_mem st') = live (auth_mem st)
     \<and> (ok \<longrightarrow> auth_reviewed P buf st')"
  by (rule handle_auth7702_tlv_correct [OF assms])

theorem auth7702_hash_and_review_witness:
  "\<exists>ok st'. handle_auth7702_tlv platform_demo [1, 2] auth_state_demo = Some (ok, st')
     \<and> g_7702_hash_ctx st' = None \<and> live (auth_mem st') = 0
     \<and> (ok \<longrightarrow> auth_reviewed platform_demo [1, 2] st')"
  using auth7702_hash_and_review [OF platform_demo_contract, of auth_state_demo "[1, 2]"]
  by (simp add: auth_state_demo_def)

text \<open>C17. The signing command keeps its invariant on every chunk, moves the application state only between idle and signing, and
  starts a signature only with a deferred answer.\<close>

theorem sign_7702_command_inv:
  assumes "auth_parser_contract P" and "cmd_7702_inv c" and "length buf = unat len"
  shows "\<exists>sw c'. handle_sign_eip7702_authorization P p1 buf len c = Some (sw, c') \<and> cmd_7702_inv c'
    \<and> (appState c' = appState c \<or> appState c' \<in> {APP_STATE_IDLE, APP_STATE_SIGNING_EIP7702}
         \<and> appState c \<in> {APP_STATE_IDLE, APP_STATE_SIGNING_EIP7702})
    \<and> (appState c' = APP_STATE_SIGNING_EIP7702 \<and> appState c = APP_STATE_IDLE \<longrightarrow> sw = SWO_NO_RESPONSE)"
  by (rule handle_sign_eip7702_authorization_inv [OF assms])

theorem sign_7702_command_inv_witness:
  "\<exists>sw c'. handle_sign_eip7702_authorization platform_demo 1 [1, 0, 0, 0, 7] 5 cmd_7702_demo = Some (sw, c') \<and> cmd_7702_inv c'"
  using sign_7702_command_inv [OF platform_demo_contract, of cmd_7702_demo "[1, 0, 0, 0, 7]" 5 1]
  by (auto simp: cmd_7702_demo_def cmd_7702_inv_def auth_state_demo_def)

section \<open>Swaps\<close>

text \<open>C18. When a swap comes with calldata, the plugin declares it validated only if the hash of the selector and of all the words of
  the announced size is the one that the Exchange application promised, and only once.\<close>

theorem swap_calldata_hash:
  assumes "handle_init_contract_swap_with_calldata ok True total_len sel c0 = (ETH_PLUGIN_RESULT_OK, c)" and "length sel = 4"
    and "\<forall>(w, off) \<in> set ws. length w = 32" and "feed_plugin ok ws c = (ETH_PLUGIN_RESULT_OK, c')"
    and "handle_finalize_swap_with_calldata sha256 True c' g = Some (r, g')" and "G_swap_mode g' = SWAP_MODE_CROSSCHAIN_SUCCESS"
  shows "G_swap_mode g = SWAP_MODE_CROSSCHAIN_PENDING_CHECK \<and>
    G_swap_crosschain_hash g = Some (sha256 (take (unat total_len) (sel @ concat (map fst ws))))"
  by (rule swap_calldata_validated [OF assms])

theorem swap_calldata_hash_witness:
  "G_swap_crosschain_hash swap_pending_demo = Some (take 2 [1, 2, 3, 4] @ [])"
proof -
  let ?c = "\<lparr>update_hash = [1, 2, 3, 4], sp_expected_size = 36, sp_received_size = 4\<rparr>"
  have i: "handle_init_contract_swap_with_calldata (\<lambda>_ _. True) True 36 [1, 2, 3, 4] swap_plugin_zero = (ETH_PLUGIN_RESULT_OK, ?c)" by code_simp
  have w: "\<forall>(w, off) \<in> set [(replicate 32 7, 4)]. length (w :: bytes) = 32" by simp
  have f: "feed_plugin (\<lambda>_ _. True) [(replicate 32 7, 4)] ?c = (ETH_PLUGIN_RESULT_OK, ?c\<lparr>update_hash := [1, 2, 3, 4] @ replicate 32 7, sp_received_size := 36\<rparr>)"
    by code_simp
  have n: "handle_finalize_swap_with_calldata (take 2) True (?c\<lparr>update_hash := [1, 2, 3, 4] @ replicate 32 7, sp_received_size := 36\<rparr>) swap_pending_demo =
      Some (ETH_PLUGIN_RESULT_FALLBACK, swap_pending_demo\<lparr>G_swap_mode := SWAP_MODE_CROSSCHAIN_SUCCESS\<rparr>)" by code_simp
  show ?thesis using swap_calldata_hash [OF i _ w f n] by simp
qed



section \<open>Plugins\<close>

text \<open>C20. The command registers a plugin only for the name, contract, selector and chain of a payload whose signature was verified as a
  whole; the chain is one the application serves, and the production key can only register the ERC-721 and ERC-1155 plugins.\<close>

theorem plugin_registration_signed:
  assumes "handle_set_plugin X app buf len p = Some (SWO_SUCCESS, p')" and "length buf = unat len"
  shows "\<exists>name address sel cid sig rest. buf = plugin_message name address sel cid (sx_valid_keyId X) @ word_of_nat (length sig) # sig @ rest \<and>
     length address = ADDRESS_LENGTH \<and> length sel = 4 \<and> length cid = 8 \<and> length name < PLUGIN_ID_LENGTH \<and>
     sx_check_plugin X (sx_sha256 X (plugin_message name address sel cid (sx_valid_keyId X))) sig \<and>
     registered p' name address sel (u64_from_BE cid) \<and>
     app_compatible_with_chain_id (sx_cfg X) (sx_networks X) (u64_from_BE cid) \<and>
     plugin_type p' = get_plugin_type (buf_string name) (word_of_nat (length name)) \<and>
     (sx_valid_keyId X = PROD_PLUGIN_KEY \<longrightarrow> plugin_type p' \<in> {PLUGIN_TYPE_ERC721, PLUGIN_TYPE_ERC1155})"
  by (rule set_plugin_signed [OF assms])

theorem plugin_registration_signed_witness:
  "\<exists>p' name address sel cid. handle_set_plugin set_plugin_env_demo APP_STATE_IDLE plugin_apdu_demo 111 plugin_state_demo = Some (SWO_SUCCESS, p') \<and>
     registered p' name address sel (u64_from_BE cid) \<and> plugin_type p' \<in> {PLUGIN_TYPE_ERC721, PLUGIN_TYPE_ERC1155}"
proof -
  have l: "length plugin_apdu_demo = unat (111 :: uint8)" by code_simp
  have "sx_valid_keyId set_plugin_env_demo = PROD_PLUGIN_KEY" by code_simp
  then show ?thesis using plugin_registration_signed [OF plugin_apdu_accepted l] plugin_apdu_accepted by blast
qed

text \<open>C21. A plugin that was registered is started only for the contract and the selector that were registered, and only on the registered chain
  (or any, when the registration is for any chain), with one exception: a legacy transaction tells its chain only after the calldata (\<open>tx_chain\<close>
  is zero), and then the end of the parsing compares the chains and refuses the transaction when they differ.  Starting the plugin keeps its type and
  chain, and gives the memory of the registered contract and selector to the plugin, so that a second start is refused.\<close>

theorem plugin_runs_where_registered:
  assumes "eth_plugin_perform_init E ct tx_chain sel dataSize p = (r, p')" and "plugin_successful r"
    and "plugin_type p \<in> {PLUGIN_TYPE_EXTERNAL, PLUGIN_TYPE_ERC721, PLUGIN_TYPE_ERC1155}"
  shows "destination ct = contractAddress p \<and> sel = methodSelector p \<and> plugin_ctx_mode p = PLUGIN_CTX_ADDR_SEL \<and>
    (pluginChainId p = PLUGIN_CHAIN_ID_ANY \<or> tx_chain = 0 \<or> tx_chain = pluginChainId p) \<and>
    plugin_type p' = plugin_type p \<and> pluginChainId p' = pluginChainId p \<and>
    plugin_ctx_mode p' = PLUGIN_CTX_PLUGIN \<and> contractAddress p' = [] \<and> methodSelector p' = [] \<and>
    (\<forall>ct2 chain2 sel2 n2. \<not> plugin_successful (fst (eth_plugin_perform_init E ct2 chain2 sel2 n2 p'))) \<and>
    (\<forall>S s. pluginChainId (plugins_of s) = pluginChainId p \<longrightarrow> plugin_successful (tk_pluginStatus (st_tx s)) \<longrightarrow>
       pluginChainId p \<noteq> PLUGIN_CHAIN_ID_ANY \<longrightarrow> get_tx_chain_id (st_tx s) \<noteq> pluginChainId p \<longrightarrow>
       finalize_plugin S s = report_finalize_error S s)"
proof -
  note b = registered_plugin_binding [OF assms]
  have "plugin_type p' \<in> registered_types" "plugin_ctx_mode p' = PLUGIN_CTX_PLUGIN" using b assms(3) by simp_all
  then have "\<not> plugin_successful (fst (eth_plugin_perform_init E ct2 chain2 sel2 n2 p'))" for ct2 chain2 sel2 n2
    by (intro second_init_refused)
  moreover have "finalize_plugin S s = report_finalize_error S s"
    if "pluginChainId (plugins_of s) = pluginChainId p" "plugin_successful (tk_pluginStatus (st_tx s))"
      "pluginChainId p \<noteq> PLUGIN_CHAIN_ID_ANY" "get_tx_chain_id (st_tx s) \<noteq> pluginChainId p" for S and s :: "'c sign_state"
    using that by (simp add: finalize_plugin_def Let_def)
  ultimately show ?thesis using b by blast
qed

theorem plugin_runs_where_registered_witness:
  "\<exists>p'. eth_plugin_perform_init plugin_env_ready (content_zero 8) 1 (replicate 4 0) 36 plugin_registered_demo = (ETH_PLUGIN_RESULT_OK, p') \<and>
     plugin_ctx_mode p' = PLUGIN_CTX_PLUGIN \<and> pluginChainId p' = 1 \<and>
     \<not> plugin_successful (fst (eth_plugin_perform_init plugin_env_ready (content_zero 8) 1 (replicate 4 0) 36 p'))"
proof -
  obtain p' where r: "eth_plugin_perform_init plugin_env_ready (content_zero 8) 1 (replicate 4 0) 36 plugin_registered_demo = (ETH_PLUGIN_RESULT_OK, p')"
    using plugin_ready_init by blast
  have s: "plugin_successful ETH_PLUGIN_RESULT_OK" by code_simp
  have t: "plugin_type plugin_registered_demo \<in> {PLUGIN_TYPE_EXTERNAL, PLUGIN_TYPE_ERC721, PLUGIN_TYPE_ERC1155}"
    "pluginChainId plugin_registered_demo = 1" by (simp_all add: plugin_registered_demo_def)
  show ?thesis using plugin_runs_where_registered [OF r s t(1)] r t(2) by auto
qed

text \<open>C22. The internal token plugin decodes the ABI encoding of a transfer or an approval: the destination and the amount are those of
  the calldata, and outside of a swap it offers the token of the called contract for the review.\<close>

theorem erc20_transfer_decoded:
  assumes "is_zeroes_buffer (ivalue (tvalue ct))" and "i \<in> {ERC20_TRANSFER, ERC20_APPROVE}"
    and "length to = ADDRESS_LENGTH" and "length am = 32" and "\<not> pe_called_from_swap E"
  shows "\<exists>c f. erc20_feed [(replicate 12 0 @ to, 4, n), (am, 36, k)] (snd (erc20_init ct (erc20_selector i))) = Some (True, c) \<and>
     selectorIndex c = i \<and> destinationAddress c = to \<and> erc20_amount c = am \<and>
     erc20_finalize E ct chain_id c g a = Returns (f, g) \<and> pf_result f = ETH_PLUGIN_RESULT_OK \<and> pf_ui_generic f \<and>
     pf_tokenLookup1 f = Some (destination ct) \<and> pf_numScreens f = 2"
  using erc20_decodes [OF assms(1-4), of n k] erc20_finalize_plain [OF assms(5)] by metis

theorem erc20_transfer_decoded_witness:
  "\<exists>c. erc20_feed [(replicate 12 0 @ replicate 20 7, 4, 32), (replicate 31 0 @ [5], 36, 32)] (snd (erc20_init (content_zero 8) (erc20_selector ERC20_TRANSFER))) = Some (True, c) \<and>
     destinationAddress c = replicate 20 7 \<and> erc20_amount c = replicate 31 0 @ [5]"
proof -
  have z: "is_zeroes_buffer (ivalue (tvalue (content_zero 8)))" by code_simp
  have e: "\<not> pe_called_from_swap (plugin_env_demo False)" by (simp add: plugin_env_demo_def)
  have l: "length (replicate 20 7 :: bytes) = ADDRESS_LENGTH" "length (replicate 31 0 @ [5] :: bytes) = 32" by simp_all
  show ?thesis
    using erc20_transfer_decoded [where i = ERC20_TRANSFER and n = 32 and k = 32, OF z insertI1 l e] by blast
qed

section \<open>Known tokens and collections\<close>

text \<open>C23. Through the legacy command (P1 = 0) a token enters the list of known tokens only from an APDU whose ticker, address, decimals and
  chain were signed together; every other token keeps its information.  (The TLV command is not covered here, nor the placeholder without a signature that
  stands for an unknown token, which \<open>get_matching_token_info_or_dummy\<close> makes.)\<close>

theorem tokens_only_signed:
  assumes "erc20_token_info_handler_legacy E lc data a = Some (ok, a')" and "length data = unat lc"
    and "ok \<or> as_tokens a' \<noteq> as_tokens a"
  shows "\<exists>ticker address decimals chain sig. data = token_apdu ticker address decimals chain sig \<and> length address = ADDRESS_LENGTH \<and>
     length ticker < ae_max_ticker E \<and> ae_check_coin_meta E (ae_sha256 E (token_message ticker address decimals chain)) sig \<and>
     token_added E (token_of ticker address decimals (ucast chain)) a a'"
  by (rule legacy_only_signed [OF assms])

theorem tokens_only_signed_witness:
  "\<exists>a' ticker address decimals chain. erc20_token_info_handler_legacy asset_env_demo 35 token_apdu_demo assets_demo = Some (True, a') \<and>
     token_added asset_env_demo (token_of ticker address decimals (ucast (chain :: uint32))) assets_demo a'"
proof -
  obtain a' where h: "erc20_token_info_handler_legacy asset_env_demo 35 token_apdu_demo assets_demo = Some (True, a')" using token_apdu_accepted by blast
  have l: "length token_apdu_demo = unat (35 :: uint8)" by code_simp
  show ?thesis using tokens_only_signed [OF h l] h by blast
qed

text \<open>C24. The list of known tokens is a map: after any sequence of insertions (some of which may fail for lack of memory), the token found
  for a chain and an address is the last one inserted for them, and the token known before when there is none.\<close>

theorem known_token_lookup:
  "case put_all (\<lambda>x. set_token_info (Some x)) xs l m of (ys, l', m') \<Rightarrow>
     get_matching_token_info (Some c) (Some ad) l' =
       (case find (same_token c ad) (rev ys) of Some x \<Rightarrow> Some x | None \<Rightarrow> get_matching_token_info (Some c) (Some ad) l)"
proof -
  obtain ys l' m' where p: "put_all (\<lambda>x. set_token_info (Some x)) xs l m = (ys, l', m')"
    by (cases "put_all (\<lambda>x. set_token_info (Some x)) xs l m") auto
  have k: "same_token c ad = (\<lambda>x. token_key x = (c, ad))" by (auto simp: same_token_def token_key_def)
  show ?thesis using tokens.lookup_put_all [OF p, of "(c, ad)"] by (simp add: p k token_lookup_def cong: option.case_cong)
qed

section \<open>Descriptions of the calls of a transaction\<close>

text \<open>C25. A description selects the first call of the transaction that is not described yet: its selector, chain and contract (or
  the implementation behind the proxy) must be those of that call, so the host cannot reorder, skip or swap calls.\<close>

theorem descriptions_in_call_order:
  assumes "find_matching_tx_ctx E addr sel chain g = (True, g')"
  shows "\<exists>xs i c cd ys. g_tx_ctx_list g = xs @ (i, c) # ys \<and> g' = g\<lparr>g_tx_ctx_current := Some i\<rparr> \<and>
     tx_info c = None \<and> calldata c = Some cd \<and> selector cd = sel \<and> tc_chain_id c = chain \<and>
     addr = (case ge_implem E chain (tc_to c) sel of None \<Rightarrow> tc_to c | Some p \<Rightarrow> p) \<and>
     (\<forall>(_, d) \<in> set xs. calldata d \<noteq> None \<longrightarrow> tx_info d \<noteq> None)"
  by (rule find_matching_first [OF assms])

theorem descriptions_in_call_order_witness:
  "find_matching_tx_ctx gcs_env_demo (replicate 20 7) [1, 2, 3, 4] 1 gcs_demo = (True, gcs_demo\<lparr>g_tx_ctx_current := Some 1\<rparr>) \<and>
   (\<exists>xs c ys. g_tx_ctx_list gcs_demo = xs @ (1, c) # ys \<and> calldata c = Some calldata_demo)"
proof -
  have "find_matching_tx_ctx gcs_env_demo (replicate 20 7) [1, 2, 3, 4] 1 gcs_demo = (True, gcs_demo\<lparr>g_tx_ctx_current := Some 1\<rparr>)"
    by (simp add: find_matching_tx_ctx_def gcs_demo_def gcs_env_demo_def call_demo_def tx_ctx_zero_def calldata_demo_def)
  then show ?thesis using descriptions_in_call_order [of gcs_env_demo "replicate 20 7" "[1, 2, 3, 4]" 1 gcs_demo]
    by (fastforce simp: gcs_demo_def call_demo_def tx_ctx_zero_def Cons_eq_append_conv)
qed

text \<open>C26. A description that is accepted has every mandatory field, and its signature was checked over all of the fields in the
  order of the payload, the signature alone excepted: nothing that is displayed escapes the signature.\<close>

theorem description_signed_whole:
  assumes "tx_info_contract T" and "handle_tx_info_struct T g buf
      \<lparr>struct_hash = [], ic_tx_info = tx_info_zero n, ic_received_tags = {}\<rparr> = (True, ctx)"
    and "verify_tx_info_struct T ctx"
  shows "\<exists>fs hash. run_fields (TX_INFO_TAGS T g) fs \<lparr>struct_hash = [], ic_tx_info = tx_info_zero n, ic_received_tags = {}\<rparr>
        = Some (True, ctx\<lparr>ic_received_tags := {}\<rparr>) \<and>
     {0x00, 0x01, 0x02, 0x03, 0x04, 0x05, 0xff} \<subseteq> fst ` set fs \<and> ti_version (ic_tx_info ctx) = 1 \<and>
     te_sha256 T (concat (map (fst \<circ> snd) (filter (\<lambda>f. fst f \<noteq> 0xff) fs))) = Some hash \<and>
     te_check_signature T hash (take (unat (signature_len (ic_tx_info ctx))) (signature (ic_tx_info ctx)))"
  by (rule tx_info_accepted [OF assms])

theorem description_signed_whole_witness:
  "\<exists>fs hash. {0x00, 0x01, 0x02, 0x03, 0x04, 0x05, 0xff} \<subseteq> fst ` set (fs :: (nat \<times> bytes \<times> bytes) list) \<and>
     te_sha256 ti_env_demo (concat (map (fst \<circ> snd) (filter (\<lambda>f. fst f \<noteq> 0xff) fs))) = Some hash \<and>
     te_check_signature ti_env_demo hash (take (unat (signature_len (ic_tx_info tx_info_ctx_demo))) (signature (ic_tx_info tx_info_ctx_demo)))"
  using description_signed_whole [OF ti_env_demo_contract(1) tx_info_demo_parsed [unfolded tx_info_start_def] tx_info_demo_verified]
  by (elim exE conjE) (intro exI conjI)

text \<open>C27. The command that describes a call never faults and keeps the invariant of the contexts (distinct nodes, a current one that
  exists, descriptions in the order of the calls, memory accounted for), whatever the APDU holds.  No block is lost, with one exception: the payload that this APDU
  completes is a description that was parsed, verified and matched to a call, an empty call in front of that one cannot be shown, and the answer is an error.\<close>

theorem describe_call_command_inv:
  assumes "gtp_inv c" "length buf = unat lc"
  shows "\<exists>sw c'. handle_tx_info T fresh p1 lc buf c = Some (sw, c') \<and> gtp_inv c' \<and>
     (gcs_balanced (gt_gcs c) (gt_gcs c') \<or> sw = SWO_INCORRECT_DATA \<and> one_block_lost (gt_gcs c) (gt_gcs c') \<and>
        description_dropped T (assembled (p1 = 1) buf (gt_tlv c)) (gt_gcs c) (gt_gcs c'))"
  by (rule handle_tx_info_inv [OF assms])

theorem describe_call_command_inv_witness:
  "\<exists>sw c'. handle_tx_info ti_env_demo (\<lambda>_. 0) 1 3 [0, 1, 7] \<lparr>gt_tlv = g_tlv_zero, gt_tlv_mem = \<lparr>outcomes = [True], live = 0\<rparr>, gt_gcs = gcs_demo\<rparr>
     = Some (sw, c') \<and> gtp_inv c'"
  using describe_call_command_inv [of
      "\<lparr>gt_tlv = g_tlv_zero, gt_tlv_mem = \<lparr>outcomes = [True], live = 0\<rparr>, gt_gcs = gcs_demo\<rparr>" "[0, 1, 7]" 3 ti_env_demo "\<lambda>_. 0" 1] gcs_demo_inv
  by (auto simp: gtp_inv_def)

text \<open>C28. When an empty call in front of the described one cannot be shown, the description, already accepted, is neither attached
  nor freed: its block is lost.\<close>

theorem description_leaked:
  assumes "gcs_inv g" "mem_alloc (gcs_mem g) = (True, m)"
    and "handle_tx_info_struct T (g\<lparr>gcs_mem := m\<rparr>) buf
      \<lparr>struct_hash = [], ic_tx_info = tx_info_zero (te_sig_size T), ic_received_tags = {}\<rparr> = (True, ctx)"
    and "verify_tx_info_struct T ctx"
    and "find_matching_tx_ctx (te_gcs T) (ti_contract_addr (ic_tx_info ctx)) (ti_selector (ic_tx_info ctx))
      (ti_chain_id (ic_tx_info ctx)) (g\<lparr>gcs_mem := m\<rparr>) = (True, g2)"
    and "process_empty_txs_before (te_gcs T) g2 = Some (False, g')"
  shows "tx_info_tlv_payload T buf g = Some (False, g') \<and> one_block_lost g g'"
  by (rule tx_info_lost [OF assms])

theorem description_leaked_witness:
  "\<exists>g'. tx_info_tlv_payload ti_env_demo [] gcs_demo = Some (False, g') \<and> one_block_lost gcs_demo g'"
proof -
  let ?g2 = "gcs_alloc\<lparr>g_tx_ctx_current := Some 1\<rparr>"
  have a: "gcs_demo\<lparr>gcs_mem := \<lparr>outcomes = replicate 8 True, live = 10\<rparr>\<rparr> = gcs_alloc" by (simp add: gcs_alloc_def)
  have m: "mem_alloc (gcs_mem gcs_demo) = (True, \<lparr>outcomes = replicate 8 True, live = 10\<rparr>)" by code_simp
  have f: "find_matching_tx_ctx (te_gcs ti_env_demo) (ti_contract_addr (ic_tx_info tx_info_ctx_demo))
      (ti_selector (ic_tx_info tx_info_ctx_demo)) (ti_chain_id (ic_tx_info tx_info_ctx_demo)) gcs_alloc = (True, ?g2)" by code_simp
  have "fst (the (process_empty_txs_before (te_gcs ti_env_demo) ?g2)) = False" "process_empty_txs_before (te_gcs ti_env_demo) ?g2 \<noteq> None"
    by code_simp+
  then obtain g' where e: "process_empty_txs_before (te_gcs ti_env_demo) ?g2 = Some (False, g')"
    by (cases "process_empty_txs_before (te_gcs ti_env_demo) ?g2") auto
  have n: "te_sig_size ti_env_demo = 72" by (simp add: ti_env_demo_def ti_env_base_def)
  have p: "handle_tx_info_struct ti_env_demo (gcs_demo\<lparr>gcs_mem := \<lparr>outcomes = replicate 8 True, live = 10\<rparr>\<rparr>) []
      \<lparr>struct_hash = [], ic_tx_info = tx_info_zero (te_sig_size ti_env_demo), ic_received_tags = {}\<rparr> = (True, tx_info_ctx_demo)"
    unfolding a n by (rule tx_info_demo_parsed_alloc [unfolded tx_info_start_def])
  show ?thesis
    using description_leaked [OF gcs_demo_inv m p tx_info_demo_verified f [folded a] e [folded a]] by (rule exI)
qed



section \<open>TLV payloads over several APDUs\<close>

text \<open>C30. The reassembly of TLV payloads refines its abstract specification (a handler, an announced size and the bytes received
  so far), keeps its invariant and holds exactly one block while a payload is incomplete.\<close>

theorem tlv_reassembly_refines:
  fixes run :: "'h \<Rightarrow> bytes \<Rightarrow> 's \<Rightarrow> bool \<times> 's"
  assumes "tlv_inv g" and "length data = unat lc" and "tlv_blocks g \<le> live m"
    and "tlv_spec run (fst (mem_alloc m)) first data h (tlv_abs g) s = (r, a, s')"
  shows "\<exists>g' m'. tlv_from_apdu run fresh first lc (Some data) (Some h) g m s = Some (r, g', m', s')
           \<and> tlv_abs g' = a \<and> tlv_inv g' \<and> tlv_balanced g m g' m'"
  by (rule tlv_from_apdu_refines [OF assms])

theorem tlv_reassembly_refines_witness:
  "\<exists>g' m'. tlv_from_apdu (\<lambda>h b s. (True, b # s)) (\<lambda>_. 0) True 3 (Some [0, 2, 7]) (Some ()) g_tlv_zero
             \<lparr>outcomes = [True], live = 0\<rparr> [] = Some (TLV_APDU_PENDING, g', m', [])
         \<and> tlv_abs g' = Some ((), 2, [7]) \<and> tlv_inv g' \<and> tlv_balanced g_tlv_zero \<lparr>outcomes = [True], live = 0\<rparr> g' m'"
  by (rule tlv_reassembly_refines) (simp_all add: tlv_spec_def tlv_spec_feed_def mem_alloc_def be_val_def)

text \<open>C31. Any way to cut a payload into chunks delivers it to the handler exactly once, after the last chunk: all the chunks
  before are answered "pending", the last one by the result of the handler, and the buffer is freed.\<close>

theorem tlv_payload_delivered_once:
  fixes run :: "'h \<Rightarrow> bytes \<Rightarrow> 's \<Rightarrow> bool \<times> 's"
  assumes "tlv_inv g" "tlv_payload g = None" and "fst (mem_alloc m)"
    and "data \<noteq> []" "length data < 2 ^ 16"
    and "concat (c # cs) = data" "length c < 254" "\<forall>c \<in> set cs. length c < 256" "last (c # cs) \<noteq> []"
    and "run h data s = (res, s')"
  shows "\<exists>g' m'. tlv_session run fresh True ((be_bytes 2 (length data) @ c) # cs) h g m s =
             Some (replicate (length cs) TLV_APDU_PENDING @ [if res then TLV_APDU_SUCCESS else TLV_APDU_ERROR], g', m', s')
           \<and> tlv_payload g' = None \<and> tlv_inv g' \<and> live m' = live m"
  using assms by (rule tlv_session_delivers)

theorem tlv_payload_delivered_once_witness:
  "\<exists>g' m'. tlv_session (\<lambda>h b s. (True, b # s)) (\<lambda>_. 0) True [[0, 3, 7], [8, 9]] () g_tlv_zero \<lparr>outcomes = [True], live = 0\<rparr> [] =
       Some ([TLV_APDU_PENDING, TLV_APDU_SUCCESS], g', m', [[7, 8, 9]])
     \<and> tlv_payload g' = None \<and> tlv_inv g' \<and> live m' = 0"
proof -
  have "be_bytes 2 (length [7, 8, 9 :: uint8]) @ [7] = [0, 3, 7]" by (simp add: numeral_2_eq_2)
  then show ?thesis
    using tlv_payload_delivered_once [of g_tlv_zero "\<lparr>outcomes = [True], live = 0\<rparr>" "[7, 8, 9]" "[7]" "[[8, 9]]"
      "\<lambda>h b s. (True, b # s)" "()" "[]" True "[[7, 8, 9]]" "\<lambda>_. 0"]
    by (simp del: tlv_session.simps be_bytes.simps add: g_tlv_zero_def tlv_inv_def mem_alloc_def)
qed

section \<open>The calldata store\<close>

text \<open>C32. Calldata that was appended in whatever pieces reads back chunk by chunk, although the store strips the zero bytes of
  each chunk; beyond the last whole chunk nothing is returned.\<close>

theorem calldata_round_trip:
  assumes "calldata_init (length data) sel m = Some (Some cd, m0)" "length data < 2 ^ 32"
    and "\<forall>s. sel = Some s \<longrightarrow> 4 \<le> length s" and "concat bs = data"
    and "calldata_append_all (Some cd) m0 bs = Some (True, Some cd', m')"
  shows "calldata_get_chunk (Some cd') idx =
    (if unat idx < length data div 32
     then Some (Some (take 32 (drop (32 * unat idx) data)),
                Some (cd'\<lparr>chunk := take 32 (drop (32 * unat idx) data)\<rparr>))
     else Some (None, Some cd'))"
  by (rule calldata_reads_back [OF assms])

theorem calldata_round_trip_witness:
  "calldata_get_chunk (Some calldata_demo) 0 =
     Some (Some (replicate 31 0 @ [5]), Some (calldata_demo\<lparr>chunk := replicate 31 0 @ [5]\<rparr>))"
proof -
  let ?data = "replicate 31 0 @ [5 :: uint8]" and ?m = "\<lparr>outcomes = [True, True, True], live = 0\<rparr>"
    and ?bs = "[take 20 (replicate 31 0 @ [5 :: uint8]), drop 20 (replicate 31 0 @ [5])]"
  have init: "calldata_init (length ?data) (Some [1, 2, 3, 4]) ?m = Some (Some \<lparr>expected_size = 32, received_size = 0,
          selector = [1, 2, 3, 4], chunks = [], chunk = replicate 32 0, chunk_size = 0\<rparr>, \<lparr>outcomes = [True, True], live = 1\<rparr>)"
    by code_simp
  have append: "calldata_append_all (Some \<lparr>expected_size = 32, received_size = 0, selector = [1, 2, 3, 4], chunks = [],
          chunk = replicate 32 0, chunk_size = 0\<rparr>) \<lparr>outcomes = [True, True], live = 1\<rparr> ?bs =
        Some (True, Some calldata_demo, \<lparr>outcomes = [], live = 3\<rparr>)"
    by code_simp
  have bs: "concat ?bs = ?data" by code_simp
  show ?thesis using calldata_round_trip [OF init _ _ bs append, of 0] by simp
qed

section \<open>Data paths of the generic parser\<close>

text \<open>C33. Resolving a data path against complete or incomplete calldata always ends, reads only inside of chunks, writes only
  inside of the blocks it allocated, collects at most sixteen values and accounts for every block, whatever the path is.\<close>

theorem data_path_get_safe:
  assumes "calldata_ready cd" and "coll_ok coll"
  shows "\<exists>r coll' m'. data_path_get (calldata_read cd) fresh p coll m = Some (r, coll', m') \<and> coll_ok coll'
    \<and> live m' + coll_blocks coll = live m + coll_blocks coll'"
  by (rule cd.data_path_get_total [OF assms])

theorem data_path_get_safe_witness:
  "\<exists>r coll' m'. data_path_get (calldata_read (Some calldata_demo)) (\<lambda>_. 0)
       \<lparr>dp_version = 1, dp_elements = [ELEMENT_TYPE_TUPLE 0, ELEMENT_TYPE_LEAF LEAF_TYPE_STATIC]\<rparr> [] \<lparr>outcomes = [True], live = 0\<rparr>
     = Some (r, coll', m') \<and> coll_ok coll' \<and> live m' = coll_blocks coll'"
proof -
  have "calldata_ready (Some calldata_demo)" by code_simp
  from data_path_get_safe [OF this, of "[]" "\<lambda>_. 0"
      "\<lparr>dp_version = 1, dp_elements = [ELEMENT_TYPE_TUPLE 0, ELEMENT_TYPE_LEAF LEAF_TYPE_STATIC]\<rparr>" "\<lparr>outcomes = [True], live = 0\<rparr>"]
  show ?thesis by (simp add: coll_ok_def coll_blocks_def)
qed

text \<open>C34. A leaf of a path yields the ABI value of the calldata: the 32-byte word at its offset when it is static, and the
  bytes that a length word announces when it is dynamic.\<close>

theorem path_leaf_abi:
  assumes "calldata_holds cd data" and "coll_ok coll"
    and "path_leaf (calldata_read cd) fresh l off coll m = Some (True, off', coll', m')"
  shows "\<exists>pv. coll' = coll @ [pv] \<and> pv_ok pv \<and> l \<in> {LEAF_TYPE_STATIC, LEAF_TYPE_DYNAMIC} \<and>
     pv_bytes pv = abi_leaf l data (unat off) \<and> length (pv_bytes pv) = unat (pv_length pv)"
  by (rule path_leaf_reads_abi [OF assms])

theorem path_leaf_abi_witness:
  "\<exists>pv. leaf_value_demo = [pv] \<and> pv_ok pv \<and> pv_bytes pv = abi_leaf LEAF_TYPE_STATIC (replicate 31 0 @ [5]) 0"
proof -
  have "calldata_holds (Some calldata_demo) (replicate 31 0 @ [5])"
    by (auto simp: calldata_holds_def calldata_ready_def calldata_demo_def chunk_ok_def chunk_bytes_def)
  moreover have "coll_ok []" by (simp add: coll_ok_def)
  moreover have "path_leaf (calldata_read (Some calldata_demo)) (\<lambda>_. 0) LEAF_TYPE_STATIC 0 [] \<lparr>outcomes = [True], live = 0\<rparr> =
      Some (True, 0, leaf_value_demo, \<lparr>outcomes = [], live = 1\<rparr>)"
    by code_simp
  ultimately show ?thesis using path_leaf_abi by fastforce
qed

text \<open>C35. A slice keeps exactly the bytes between its resolved bounds (negative ones count from the end) and is refused, with
  the value unchanged, when they are not ordered inside of the value; the truncation to 16 bits never accepts a wrong slice.\<close>

theorem path_slice_exact:
  assumes "pv_ok pv"
  shows "if slice_valid sl (pv_length pv)
         then \<exists>pv'. path_slice sl (vs @ [pv]) = Some (True, vs @ [pv']) \<and> pv_ok pv' \<and>
                pv_bytes pv' = take (nat (slice_end sl (pv_length pv) - slice_start sl (pv_length pv)))
                                   (drop (nat (slice_start sl (pv_length pv))) (pv_bytes pv))
         else path_slice sl (vs @ [pv]) = Some (False, vs @ [pv])"
  using assms by (cases rule: path_slice_correct [where sl = sl and vs = vs]) auto

theorem path_slice_exact_witness:
  "\<exists>pv'. path_slice \<lparr>s_has_start = True, s_start = - 2, s_has_end = False, s_end = 0\<rparr>
          [\<lparr>pv_block = Some [1, 2, 3, 4], pv_pos = 0, pv_size = 4, pv_offset = 0, pv_length = 4\<rparr>] = Some (True, [pv'])
     \<and> pv_bytes pv' = [3, 4]"
proof -
  let ?x = "\<lparr>pv_block = Some [1, 2, 3, 4], pv_pos = 0, pv_size = 4, pv_offset = 0, pv_length = 4\<rparr>"
    and ?sl = "\<lparr>s_has_start = True, s_start = - 2, s_has_end = False, s_end = 0\<rparr>"
  have "pv_ok ?x" by (simp add: pv_ok_def)
  moreover have b: "slice_start ?sl 4 = 2" "slice_end ?sl 4 = 4"
    by (simp_all add: slice_start_def slice_end_def resolve_bound_def)
  ultimately show ?thesis using path_slice_exact [of ?x ?sl "[]"]
    by (auto simp: slice_valid_def pv_bytes_def)
qed

section \<open>RLP\<close>

text \<open>C36. Decoding the header of the RLP encoding of a byte string, whatever follows it, gives the length of the string and the
  offset at which it stands.\<close>

theorem rlp_item_round_trip:
  assumes "length bs < 2 ^ 32" "length (rlp_string bs) \<le> unat len" "unat len \<le> length (rlp_string bs @ rest)"
  shows "\<exists>f'. rlp_decode_length (rlp_string bs @ rest) len f = Some (True, f') \<and> \<not> fieldIsList f' \<and>
    take (unat (fieldLength f')) (drop (unat (fieldOffset f')) (rlp_string bs @ rest)) = bs"
  by (rule rlp_string_decode [OF assms, of f]) blast

theorem rlp_item_round_trip_witness:
  "\<exists>f'. rlp_decode_length (rlp_string [0x80, 1] @ [9]) 4 \<lparr>fieldLength = 0, fieldOffset = 0, fieldIsList = False\<rparr> = Some (True, f') \<and>
     \<not> fieldIsList f' \<and> take (unat (fieldLength f')) (drop (unat (fieldOffset f')) (rlp_string [0x80, 1] @ [9])) = [0x80, 1]"
  by (rule rlp_item_round_trip) (simp_all add: rlp_string_def rlp_header_def)

text \<open>C37. The encoder writes the RLP encoding of a byte string of up to 55 bytes and returns its length.  (The single byte zero is
  the exception: it is written as the empty string, the RLP form of the number zero.)\<close>

theorem rlp_encode_number_exact:
  assumes "length bs \<le> 55" "unat n = length bs" "bs \<noteq> [0]"
    and "length bs + 2 \<le> output_size" "output_size \<le> length out"
  shows "rlpEncodeNumber bs n out output_size =
    Some (word_of_nat (length (rlp_string bs)), rlp_string bs @ drop (length (rlp_string bs)) out)"
  by (rule rlpEncodeNumber_correct [OF assms])

theorem rlp_encode_number_exact_witness:
  "rlpEncodeNumber [0x81] 1 [0, 0, 0, 7] 4 = Some (2, [0x81, 0x81, 0, 7])"
  using rlp_encode_number_exact [of "[0x81]" 1 4 "[0, 0, 0, 7]"] by (simp add: rlp_string_def rlp_header_def)

section \<open>Wide integers\<close>

text \<open>C38. The shift-and-subtract division of 256-bit and of 128-bit integers returns the quotient and the remainder.\<close>

theorem wide_division_correct:
  assumes "val256 r \<noteq> 0" and "val128 r' \<noteq> 0"
  shows "(\<exists>q m. divmod256 l r = Some (q, m) \<and> val256 q = val256 l div val256 r \<and> val256 m = val256 l mod val256 r) \<and>
    (\<exists>q m. divmod128 l' r' = Some (q, m) \<and> val128 q = val128 l' div val128 r' \<and> val128 m = val128 l' mod val128 r')"
  using divmod256_spec [OF assms(1)] divmod128_spec [OF assms(2)] by blast

theorem wide_division_correct_witness:
  "(\<exists>q m. divmod256 clear256 one256 = Some (q, m) \<and> val256 q = 0 \<and> val256 m = 0) \<and>
   (\<exists>q m. divmod128 \<lparr>upper128 = 1, lower128 = 0\<rparr> \<lparr>upper128 = 0, lower128 = 1\<rparr> = Some (q, m) \<and> val128 q = 2 ^ 64 \<and> val128 m = 0)"
  using wide_division_correct [of one256 "\<lparr>upper128 = 0, lower128 = 1\<rparr>" clear256 "\<lparr>upper128 = 1, lower128 = 0\<rparr>"]
  by (simp add: val128_def)

text \<open>C39. The product of two 256-bit integers is exact or an error is reported: it never wraps silently.\<close>

theorem mul256_exact:
  assumes "mult_contract cx"
  shows "case cx (concat (map write_u64_be (limbs256 a))) (concat (map write_u64_be (limbs256 b))) of
           None \<Rightarrow> mul256 cx a b = Some None
         | Some r \<Rightarrow> (if val256 a * val256 b < 2 ^ 256
                     then \<exists>p. mul256 cx a b = Some (Some p) \<and> val256 p = val256 a * val256 b
                     else mul256 cx a b = Some None)"
  by (rule mul256_spec [OF assms])

theorem mul256_exact_witness:
  "\<exists>p. mul256 (\<lambda>a b. Some (be_bytes (length a + length b) (be_val a * be_val b))) one256 one256 = Some (Some p) \<and> val256 p = 1"
proof -
  from mul256_exact [OF mult_contract_exact, of one256 one256] show ?thesis by simp
qed

text \<open>C40. Formatting a 256-bit integer in a base from 2 to 16 writes its digits and a terminator when they fit the buffer; otherwise
  it fails, leaving "..." (or an empty string), and never writes outside of the buffer.\<close>

theorem tostring256_exact:
  assumes "2 \<le> unat b" and "unat b \<le> 16" and "0 < unat L" and "unat L \<le> length out"
  shows "if length (digit_str (unat b) (val256 n)) < unat L
         then tostring256 n b out L =
                Some (True, digit_str (unat b) (val256 n) @ NUL # drop (Suc (length (digit_str (unat b) (val256 n)))) out)
         else \<exists>out'. tostring256 n b out L = Some (False, out') \<and> length out' = length out
                \<and> c_str out' = (if 3 < unat L then ''...'' else [])"
  by (rule tostring256_spec [OF assms])

theorem tostring256_exact_witness:
  "tostring256 one256 10 [NUL, NUL, NUL] 3 = Some (True, ''1'' @ [NUL, NUL])"
proof -
  have "digit_str 10 1 = ''1''" by (simp add: digit_str_def digits_small HEXDIGITS_def)
  then show ?thesis using tostring256_exact [of 10 3 "[NUL, NUL, NUL]" one256] by (simp cong: if_cong)
qed

end
